(* ===== verification/Prelude.thy ===== *)
theory Prelude
  imports Main "HOL-Library.Sublist"
begin

text \<open>
  Shared vocabulary of the development.

  The theory fixes how Rust values are represented:
  \<^item> \<open>Result<T, E>\<close> is the sum \<open>'e + 'a\<close> with the error on the left (\<open>Err\<close> and
    \<open>Ok\<close> below);
  \<^item> \<open>&str\<close> and \<open>String\<close> are \<open>rstr\<close>, the list of the UTF-8 bytes the program holds,
    so that Rust's byte offsets and \<open>len()\<close> are list positions and \<open>length\<close>;
  \<^item> \<open>Vec<T>\<close> and slices are lists.
  It holds the generic facts on lists, options and results the components share, and the
  collections their automation is built from.
\<close>

section \<open>Representation of Rust values\<close>

type_synonym rstr = string
type_synonym ('e, 'a) result = "'e + 'a"

abbreviation Ok :: "'a \<Rightarrow> ('e, 'a) result" where
  "Ok \<equiv> Inr"

abbreviation Err :: "'e \<Rightarrow> ('e, 'a) result" where
  "Err \<equiv> Inl"

text \<open>The \<open>?\<close> operator: stop at the first error.\<close>

definition and_then :: "('e, 'a) result \<Rightarrow> ('a \<Rightarrow> ('e, 'b) result) \<Rightarrow> ('e, 'b) result" where
  "and_then r f = (case r of Err e \<Rightarrow> Err e | Ok a \<Rightarrow> f a)"

definition is_ok :: "('e, 'a) result \<Rightarrow> bool" where
  "is_ok r = (case r of Err _ \<Rightarrow> False | Ok _ \<Rightarrow> True)"

text \<open>A loop whose body may return early with an error.\<close>

fun fold_result :: "('a \<Rightarrow> 's \<Rightarrow> ('e, 's) result) \<Rightarrow> 'a list \<Rightarrow> 's \<Rightarrow> ('e, 's) result" where
  "fold_result f [] s = Ok s"
| "fold_result f (x # xs) s = (case f x s of Err e \<Rightarrow> Err e | Ok s' \<Rightarrow> fold_result f xs s')"

text \<open>\<open>iter.map(f).collect::<Result<Vec<_>, _>>()\<close>.\<close>

fun collect_results :: "('a \<Rightarrow> ('e, 'b) result) \<Rightarrow> 'a list \<Rightarrow> ('e, 'b list) result" where
  "collect_results f [] = Ok []"
| "collect_results f (x # xs) =
     (case f x of Err e \<Rightarrow> Err e
      | Ok y \<Rightarrow> (case collect_results f xs of Err e \<Rightarrow> Err e | Ok ys \<Rightarrow> Ok (y # ys)))"

definition last_opt :: "'a list \<Rightarrow> 'a option" where
  "last_opt xs = (if xs = [] then None else Some (last xs))"

text \<open>\<open>xs.last_mut()\<close> followed by an assignment: change the last element, if there is one.\<close>

definition upd_last :: "('a \<Rightarrow> 'a) \<Rightarrow> 'a list \<Rightarrow> 'a list" where
  "upd_last f xs = (if xs = [] then [] else butlast xs @ [f (last xs)])"

section \<open>Collections\<close>

named_theorems result_simps \<open>evaluation of results and of loops with early return\<close>
named_theorems last_simps \<open>the last element of a vector and its update\<close>

section \<open>Results\<close>

lemma and_then_Ok [simp, result_simps]: "and_then (Ok a) f = f a"
  by (simp add: and_then_def)

lemma and_then_Err [simp, result_simps]: "and_then (Err e) f = Err e"
  by (simp add: and_then_def)

lemma and_then_eq_Ok: "and_then r f = Ok b \<longleftrightarrow> (\<exists>a. r = Ok a \<and> f a = Ok b)"
  by (cases r) auto

lemma and_then_eq_Err: "and_then r f = Err e \<longleftrightarrow> r = Err e \<or> (\<exists>a. r = Ok a \<and> f a = Err e)"
  by (cases r) auto

lemma and_then_assoc: "and_then (and_then r f) g = and_then r (\<lambda>a. and_then (f a) g)"
  by (cases r) auto

lemma is_ok_simps [simp, result_simps]: "is_ok (Ok a)" "\<not> is_ok (Err e)"
  by (simp_all add: is_ok_def)

lemma fold_result_append:
  "fold_result f (xs @ ys) s = and_then (fold_result f xs s) (fold_result f ys)"
  by (induction xs arbitrary: s) (auto split: sum.splits)

lemma fold_result_inv:
  assumes "fold_result f xs s = Ok t" and "I s"
    and "\<And>x s s'. x \<in> set xs \<Longrightarrow> I s \<Longrightarrow> f x s = Ok s' \<Longrightarrow> I s'"
  shows "I t"
  using assms by (induction xs arbitrary: s) (auto split: sum.splits, blast)

section \<open>Last elements\<close>

lemma last_opt_simps [simp, last_simps]:
  "last_opt [] = None" "last_opt (xs @ [x]) = Some x"
  by (simp_all add: last_opt_def)

lemma last_opt_Some_iff: "last_opt xs = Some x \<longleftrightarrow> (\<exists>ys. xs = ys @ [x])"
  by (cases xs rule: rev_cases) auto

lemma last_opt_None_iff [simp]: "last_opt xs = None \<longleftrightarrow> xs = []"
  by (simp add: last_opt_def)

lemma upd_last_simps [simp, last_simps]:
  "upd_last f [] = []" "upd_last f (xs @ [x]) = xs @ [f x]"
  by (simp_all add: upd_last_def)

lemma upd_last_Nil_iff [simp]: "upd_last f xs = [] \<longleftrightarrow> xs = []"
  by (cases xs rule: rev_cases) auto

lemma length_upd_last [simp]: "length (upd_last f xs) = length xs"
  by (cases xs rule: rev_cases) auto

lemma butlast_upd_last [simp]: "butlast (upd_last f xs) = butlast xs"
  by (cases xs rule: rev_cases) auto

section \<open>Lists\<close>

lemma find_None_iff_all: "List.find P xs = None \<longleftrightarrow> (\<forall>x \<in> set xs. \<not> P x)"
  by (induction xs) auto

lemma find_upt_Some_iff:
  "List.find P [a..<b] = Some i \<longleftrightarrow> a \<le> i \<and> i < b \<and> P i \<and> (\<forall>j. a \<le> j \<and> j < i \<longrightarrow> \<not> P j)"
    (is "_ \<longleftrightarrow> ?R")
proof
  assume "List.find P [a..<b] = Some i"
  then obtain k where k: "k < b - a" "P (a + k)" "i = a + k" "\<forall>j<k. \<not> P (a + j)"
    by (auto simp: find_Some_iff)
  have "\<not> P j" if "a \<le> j" "j < i" for j
    using that k(3,4) by (metis add_less_cancel_left le_Suc_ex)
  with k show ?R by auto
next
  assume R: ?R
  then have "i - a < length [a..<b] \<and> P ([a..<b] ! (i - a)) \<and> i = [a..<b] ! (i - a) \<and>
      (\<forall>j<i - a. \<not> P ([a..<b] ! j))"
    by auto
  then show "List.find P [a..<b] = Some i"
    unfolding find_Some_iff by blast
qed

lemma find_upt_None_iff: "List.find P [a..<b] = None \<longleftrightarrow> (\<forall>i. a \<le> i \<and> i < b \<longrightarrow> \<not> P i)"
  by (auto simp: find_None_iff_all)

lemma list_all2_conv_map: "list_all2 (\<lambda>x y. f x = f y) xs ys \<longleftrightarrow> map f xs = map f ys"
  by (induction xs arbitrary: ys) (auto simp: list_all2_Cons1 Cons_eq_map_conv)

lemma snoc_induct [case_names Nil snoc]:
  "P [] \<Longrightarrow> (\<And>xs x. P xs \<Longrightarrow> P (xs @ [x])) \<Longrightarrow> P xs"
  by (induction xs rule: rev_induct) auto

lemma map_filter_cong: "(\<And>x. x \<in> set xs \<Longrightarrow> f x = g x) \<Longrightarrow> List.map_filter f xs = List.map_filter g xs"
  by (induction xs) (auto split: option.splits)

lemma map_filter_map: "List.map_filter (\<lambda>x. map_option f (g x)) xs = map f (List.map_filter g xs)"
  by (induction xs) (auto split: option.splits)

lemma in_set_map_filter: "y \<in> set (List.map_filter f xs) \<longleftrightarrow> (\<exists>x \<in> set xs. f x = Some y)"
  by (induction xs) (auto split: option.splits)

lemma map_filter_append: "List.map_filter f (xs @ ys) = List.map_filter f xs @ List.map_filter f ys"
  by (induction xs) (auto split: option.splits)

lemma collect_results_Ok: "collect_results f xs = Ok ys \<longleftrightarrow> list_all2 (\<lambda>x y. f x = Ok y) xs ys"
proof (induction xs arbitrary: ys)
  case (Cons x xs)
  show ?case
    by (cases "f x"; cases "collect_results f xs") (auto simp: list_all2_Cons1 Cons.IH [symmetric])
qed auto

end
