(* ===== verification/Rust_Str.thy ===== *)
theory Rust_Str
  imports Prelude
begin

text \<open>
  The operations of Rust's \<open>str\<close> and \<open>String\<close> the modelled code uses, over UTF-8 byte
  lists: prefixes and suffixes, substring search, the characters of a string, Unicode
  whitespace trimming, line splitting, joining and ASCII case. They model the standard
  library, so they carry no source lines of the repository.
\<close>

section \<open>Prefixes, suffixes, search\<close>

fun strip_prefix :: "rstr \<Rightarrow> rstr \<Rightarrow> rstr option" where
  "strip_prefix [] s = Some s"
| "strip_prefix (p # ps) [] = None"
| "strip_prefix (p # ps) (c # cs) = (if p = c then strip_prefix ps cs else None)"

definition starts_with :: "rstr \<Rightarrow> rstr \<Rightarrow> bool" where
  "starts_with s p = (strip_prefix p s \<noteq> None)"

definition strip_suffix :: "rstr \<Rightarrow> rstr \<Rightarrow> rstr option" where
  "strip_suffix p s = map_option rev (strip_prefix (rev p) (rev s))"

definition ends_with :: "rstr \<Rightarrow> rstr \<Rightarrow> bool" where
  "ends_with s p = (strip_suffix p s \<noteq> None)"

text \<open>\<open>s.find(p)\<close>: the byte offset of the first occurrence.\<close>

fun find_sub :: "rstr \<Rightarrow> rstr \<Rightarrow> nat option" where
  "find_sub p [] = (if p = [] then Some 0 else None)"
| "find_sub p (c # cs) =
     (if strip_prefix p (c # cs) \<noteq> None then Some 0 else map_option Suc (find_sub p cs))"

section \<open>Characters\<close>

text \<open>
  A character is kept as its UTF-8 encoding; the lead byte gives its width. \<open>utf8_shape\<close>
  says that no character is cut off at the end, which every Rust string satisfies.
\<close>

definition char_width :: "char \<Rightarrow> nat" where
  "char_width c =
     (let b = of_char c :: nat
      in if b < 128 then 1 else if b < 224 then 2 else if b < 240 then 3 else 4)"

fun chars :: "rstr \<Rightarrow> rstr list" where
  "chars [] = []"
| "chars (c # cs) =
     (c # take (char_width c - 1) cs) # chars (drop (char_width c - 1) cs)"

fun utf8_shape :: "rstr \<Rightarrow> bool" where
  "utf8_shape [] = True"
| "utf8_shape (c # cs) =
     (char_width c - 1 \<le> length cs \<and> utf8_shape (drop (char_width c - 1) cs))"

text \<open>\<open>s.is_char_boundary(k)\<close>: the byte at \<open>k\<close> is no continuation byte.\<close>

definition is_char_boundary :: "rstr \<Rightarrow> nat \<Rightarrow> bool" where
  "is_char_boundary s k =
     (if k = 0 \<or> k = length s then True
      else if k < length s then \<not> (128 \<le> (of_char (s ! k) :: nat) \<and> (of_char (s ! k) :: nat) < 192)
      else False)"

section \<open>Whitespace\<close>

text \<open>The characters with the Unicode property \<open>White_Space\<close>, as UTF-8 encodings.\<close>

definition white_space :: "rstr list" where
  "white_space =
    [[CHR 0x09], [CHR 0x0A], [CHR 0x0B], [CHR 0x0C], [CHR 0x0D], [CHR 0x20],
     [CHR 0xC2, CHR 0x85], [CHR 0xC2, CHR 0xA0], [CHR 0xE1, CHR 0x9A, CHR 0x80],
     [CHR 0xE2, CHR 0x80, CHR 0x80], [CHR 0xE2, CHR 0x80, CHR 0x81],
     [CHR 0xE2, CHR 0x80, CHR 0x82], [CHR 0xE2, CHR 0x80, CHR 0x83],
     [CHR 0xE2, CHR 0x80, CHR 0x84], [CHR 0xE2, CHR 0x80, CHR 0x85],
     [CHR 0xE2, CHR 0x80, CHR 0x86], [CHR 0xE2, CHR 0x80, CHR 0x87],
     [CHR 0xE2, CHR 0x80, CHR 0x88], [CHR 0xE2, CHR 0x80, CHR 0x89],
     [CHR 0xE2, CHR 0x80, CHR 0x8A], [CHR 0xE2, CHR 0x80, CHR 0xA8],
     [CHR 0xE2, CHR 0x80, CHR 0xA9], [CHR 0xE2, CHR 0x80, CHR 0xAF],
     [CHR 0xE2, CHR 0x81, CHR 0x9F], [CHR 0xE3, CHR 0x80, CHR 0x80]]"

definition white_space_rev :: "rstr list" where
  "white_space_rev = map rev white_space"

text \<open>The width in bytes of a whitespace character at the front, 0 if there is none.\<close>

definition lead_width :: "rstr list \<Rightarrow> rstr \<Rightarrow> nat" where
  "lead_width tbl s =
     (case List.find (\<lambda>w. strip_prefix w s \<noteq> None) tbl of None \<Rightarrow> 0 | Some w \<Rightarrow> length w)"

fun strip_lead :: "rstr list \<Rightarrow> rstr \<Rightarrow> rstr" where
  "strip_lead tbl [] = []"
| "strip_lead tbl (c # cs) =
     (case lead_width tbl (c # cs) of 0 \<Rightarrow> c # cs | Suc n \<Rightarrow> strip_lead tbl (drop n cs))"

definition trim_start :: "rstr \<Rightarrow> rstr" where
  "trim_start s = strip_lead white_space s"

definition trim_end :: "rstr \<Rightarrow> rstr" where
  "trim_end s = rev (strip_lead white_space_rev (rev s))"

definition trim :: "rstr \<Rightarrow> rstr" where
  "trim s = trim_start (trim_end s)"

section \<open>Lines\<close>

definition NL :: char where
  "NL = CHR 0x0A"

definition CR :: char where
  "CR = CHR 0x0D"

text \<open>\<open>s.split(c)\<close> always yields at least one piece; \<open>parts.join(sep)\<close> is its inverse.\<close>

fun split_on :: "char \<Rightarrow> rstr \<Rightarrow> rstr list" where
  "split_on d [] = [[]]"
| "split_on d (c # cs) =
     (if c = d then [] # split_on d cs
      else (case split_on d cs of [] \<Rightarrow> [[c]] | l # ls \<Rightarrow> (c # l) # ls))"

fun join_with :: "rstr \<Rightarrow> rstr list \<Rightarrow> rstr" where
  "join_with sep [] = []"
| "join_with sep [x] = x"
| "join_with sep (x # y # ys) = x @ sep @ join_with sep (y # ys)"

definition strip_cr :: "rstr \<Rightarrow> rstr" where
  "strip_cr s = (case strip_suffix [CR] s of None \<Rightarrow> s | Some r \<Rightarrow> r)"

text \<open>\<open>s.lines()\<close>: a carriage return goes with the newline it precedes; no empty line after a
  final newline. The last line is only stripped of \<open>\r\<close> when a newline follows it.\<close>

definition str_lines :: "rstr \<Rightarrow> rstr list" where
  "str_lines s =
     (let ps = split_on NL s
      in map strip_cr (butlast ps) @ (if last ps = [] then [] else [last ps]))"

section \<open>ASCII case\<close>

definition to_ascii_lowercase :: "rstr \<Rightarrow> rstr" where
  "to_ascii_lowercase s =
     map (\<lambda>c. let b = of_char c :: nat in if 65 \<le> b \<and> b \<le> 90 then char_of (b + 32) else c) s"

definition eq_ignore_ascii_case :: "rstr \<Rightarrow> rstr \<Rightarrow> bool" where
  "eq_ignore_ascii_case a b = (to_ascii_lowercase a = to_ascii_lowercase b)"

section \<open>Facts\<close>

lemma strip_prefix_Some_iff: "strip_prefix p s = Some r \<longleftrightarrow> s = p @ r"
  by (induction p s rule: strip_prefix.induct) auto

lemma strip_prefix_append [simp]: "strip_prefix p (p @ r) = Some r"
  by (simp add: strip_prefix_Some_iff)

lemma strip_prefix_None_iff: "strip_prefix p s = None \<longleftrightarrow> \<not> prefix p s"
  by (metis not_None_eq prefix_def strip_prefix_Some_iff)

lemma starts_with_iff: "starts_with s p \<longleftrightarrow> prefix p s"
  by (simp add: starts_with_def strip_prefix_None_iff)

lemma strip_suffix_Some_iff: "strip_suffix p s = Some r \<longleftrightarrow> s = r @ p"
  by (auto simp: strip_suffix_def strip_prefix_Some_iff)
     (metis rev_append rev_rev_ident)

lemma ends_with_iff: "ends_with s p \<longleftrightarrow> suffix p s"
  by (metis ends_with_def not_None_eq strip_suffix_Some_iff suffix_def)

lemma find_sub_Some_iff:
  "find_sub p s = Some i \<longleftrightarrow> i \<le> length s \<and> prefix p (drop i s) \<and> (\<forall>j<i. \<not> prefix p (drop j s))"
proof (induction s arbitrary: i)
  case Nil
  then show ?case by auto
next
  case (Cons c cs)
  show ?case
  proof (cases "prefix p (c # cs)")
    case True
    then show ?thesis
      by (cases i) (auto simp: strip_prefix_None_iff)
  next
    case False
    then show ?thesis
      by (cases i) (auto simp: strip_prefix_None_iff Cons.IH All_less_Suc2)
  qed
qed

lemma find_sub_None_iff: "find_sub p s = None \<longleftrightarrow> (\<forall>i\<le>length s. \<not> prefix p (drop i s))"
proof (induction s)
  case Nil
  then show ?case by simp
next
  case (Cons c cs)
  have "(\<forall>i\<le>Suc (length cs). \<not> prefix p (drop i (c # cs))) \<longleftrightarrow>
      \<not> prefix p (c # cs) \<and> (\<forall>i\<le>length cs. \<not> prefix p (drop i cs))"
    by (metis Suc_le_mono drop0 drop_Suc_Cons le0 not0_implies_Suc)
  with Cons.IH show ?case by (simp add: strip_prefix_None_iff)
qed

lemma find_sub_bound: "find_sub p s = Some i \<Longrightarrow> i + length p \<le> length s"
  by (metis Nat.le_diff_conv2 add.commute find_sub_Some_iff length_drop prefix_length_le)

lemma concat_chars [simp]: "concat (chars s) = s"
  by (induction s rule: chars.induct) simp_all

lemma chars_append: "utf8_shape a \<Longrightarrow> chars (a @ b) = chars a @ chars b"
  by (induction a rule: utf8_shape.induct) auto

lemma utf8_shape_append: "utf8_shape a \<Longrightarrow> utf8_shape b \<Longrightarrow> utf8_shape (a @ b)"
  by (induction a rule: utf8_shape.induct) auto

lemma trim_end_Nil [simp]: "trim_end [] = []"
  by (simp add: trim_end_def)

lemma trim_Nil [simp]: "trim [] = []"
  by (simp add: trim_def trim_start_def)

lemma trim_eq_of_trim_end: "trim_end s = trim_end t \<Longrightarrow> trim s = trim t"
  by (simp add: trim_def)

lemma split_on_ne [simp]: "split_on d s \<noteq> []"
  by (induction s) (auto split: list.splits)

lemma join_split_on: "join_with [d] (split_on d s) = s"
proof (induction s)
  case Nil
  then show ?case by simp
next
  case (Cons c cs)
  then show ?case
    by (cases "split_on d cs"; cases "tl (split_on d cs)") (auto split: list.splits)
qed

lemma split_on_no_sep: "l \<in> set (split_on d s) \<Longrightarrow> d \<notin> set l"
  by (induction s arbitrary: l) (auto split: list.splits if_splits)

lemma split_on_fresh [simp]: "d \<notin> set l \<Longrightarrow> split_on d l = [l]"
  by (induction l) auto

lemma split_on_append: "d \<notin> set l \<Longrightarrow> split_on d (l @ d # s) = l # split_on d s"
  by (induction l) auto

lemma split_join:
  "ls \<noteq> [] \<Longrightarrow> \<forall>l \<in> set ls. d \<notin> set l \<Longrightarrow> split_on d (join_with [d] ls) = ls"
  by (induction "[d]" ls rule: join_with.induct) (auto simp: split_on_append)

lemma join_with_snoc:
  "xs \<noteq> [] \<Longrightarrow> join_with sep (xs @ [x]) = join_with sep xs @ sep @ x"
  by (induction sep xs rule: join_with.induct) auto

lemma join_with_Cons: "xs \<noteq> [] \<Longrightarrow> join_with sep (x # xs) = x @ sep @ join_with sep xs"
  by (cases xs) auto

end
