(* ===== verification/Patch_Parser.thy ===== *)
theory Patch_Parser
  imports Rust_Str
begin

text \<open>
  \<open>apply-patch/src/parser.rs\<close> and \<open>apply-patch/src/streaming_parser.rs\<close>: the patch
  language of the \<open>apply_patch\<close> tool and its incremental parser.

  Paths (\<open>PathBuf\<close>) are kept as the text they were read from. The parser of the source is
  used again after an error (the streaming consumer in
  \<open>core/src/tools/handlers/apply_patch.rs\<close> drops the error and pushes the next delta), so
  \<open>push_delta\<close> and \<open>parser_finish\<close> return the parser together with their result. The steps below
  them fail before they assign anything, so they return an error or the new parser. The
  loop of \<open>push_delta\<close> runs over bytes: it compares with the ASCII newline only and appends
  everything else, and no byte of a longer UTF-8 sequence is an ASCII byte.
\<close>

section \<open>Data\<close>

definition BEGIN_PATCH_MARKER :: rstr where "BEGIN_PATCH_MARKER = ''*** Begin Patch''"
definition END_PATCH_MARKER :: rstr where "END_PATCH_MARKER = ''*** End Patch''"
definition ADD_FILE_MARKER :: rstr where "ADD_FILE_MARKER = ''*** Add File: ''"
definition DELETE_FILE_MARKER :: rstr where "DELETE_FILE_MARKER = ''*** Delete File: ''"
definition UPDATE_FILE_MARKER :: rstr where "UPDATE_FILE_MARKER = ''*** Update File: ''"
definition MOVE_TO_MARKER :: rstr where "MOVE_TO_MARKER = ''*** Move to: ''"
definition EOF_MARKER :: rstr where "EOF_MARKER = ''*** End of File''"
definition CHANGE_CONTEXT_MARKER :: rstr where "CHANGE_CONTEXT_MARKER = ''@@ ''"
definition EMPTY_CHANGE_CONTEXT_MARKER :: rstr where "EMPTY_CHANGE_CONTEXT_MARKER = ''@@''"
definition ENVIRONMENT_ID_MARKER :: rstr where "ENVIRONMENT_ID_MARKER = ''*** Environment ID:''"

definition PARSE_IN_STRICT_MODE :: bool where "PARSE_IN_STRICT_MODE = False"

datatype parse_error =
    InvalidPatchError rstr
  | InvalidHunkError (message: rstr) (error_line: nat)

record update_file_chunk =
  change_context :: "rstr option"
  old_lines :: "rstr list"
  new_lines :: "rstr list"
  is_end_of_file :: bool

datatype hunk =
    AddFile rstr rstr
  | DeleteFile rstr
  | UpdateFile rstr "rstr option" "update_file_chunk list"

text \<open>\<open>Hunk::path\<close>: the move destination for a rename. \<open>Hunk::resolve_path\<close> joins the path
  that is read, not the destination.\<close>

fun hunk_path :: "hunk \<Rightarrow> rstr" where
  "hunk_path (AddFile path _) = path"
| "hunk_path (DeleteFile path) = path"
| "hunk_path (UpdateFile _ (Some path) _) = path"
| "hunk_path (UpdateFile path None _) = path"

definition resolve_path :: "('cwd \<Rightarrow> rstr \<Rightarrow> ('pe, 'uri) result) \<Rightarrow> 'cwd \<Rightarrow> hunk \<Rightarrow> ('pe, 'uri) result" where
  "resolve_path join cwd h =
     join cwd (case h of UpdateFile path _ _ \<Rightarrow> path | AddFile _ _ \<Rightarrow> hunk_path h
                       | DeleteFile _ \<Rightarrow> hunk_path h)"

record apply_patch_args =
  patch :: rstr
  args_hunks :: "hunk list"
  workdir :: "rstr option"
  args_environment_id :: "rstr option"

datatype streaming_parser_mode =
    NotStarted
  | StartedPatch
  | AddFileMode
  | DeleteFileMode
  | UpdateFileMode nat
  | EndedPatch

record streaming_parser_state =
  mode :: streaming_parser_mode
  hunks :: "hunk list"
  environment_id :: "rstr option"

record streaming_patch_parser =
  line_buffer :: rstr
  state :: streaming_parser_state
  line_number :: nat

definition default_parser :: streaming_patch_parser where
  "default_parser =
     \<lparr>line_buffer = [],
      state = \<lparr>mode = NotStarted, hunks = [], environment_id = None\<rparr>,
      line_number = 0\<rparr>"

abbreviation parser_mode :: "streaming_patch_parser \<Rightarrow> streaming_parser_mode" where
  "parser_mode p \<equiv> mode (state p)"

abbreviation parser_hunks :: "streaming_patch_parser \<Rightarrow> hunk list" where
  "parser_hunks p \<equiv> hunks (state p)"

section \<open>Error messages\<close>

definition quoted :: "rstr \<Rightarrow> rstr" where
  "quoted s = CHR 0x27 # s @ [CHR 0x27]"

definition first_line_msg :: rstr where
  "first_line_msg = ''The first line of the patch must be '' @ quoted BEGIN_PATCH_MARKER"

definition last_line_msg :: rstr where
  "last_line_msg = ''The last line of the patch must be '' @ quoted END_PATCH_MARKER"

definition invalid_header_msg :: "rstr \<Rightarrow> rstr" where
  "invalid_header_msg trimmed =
     quoted trimmed @ '' is not a valid hunk header. Valid hunk headers: ''
     @ quoted ''*** Add File: {path}'' @ '', '' @ quoted ''*** Delete File: {path}'' @ '', ''
     @ quoted ''*** Update File: {path}''"

definition unexpected_line_msg :: "rstr \<Rightarrow> rstr" where
  "unexpected_line_msg line =
     ''Unexpected line found in update hunk: '' @ quoted line
     @ ''. Every line should start with '' @ quoted '' '' @ '' (context line), ''
     @ quoted ''+'' @ '' (added line), or '' @ quoted ''-'' @ '' (removed line)''"

definition expected_context_msg :: "rstr \<Rightarrow> rstr" where
  "expected_context_msg line =
     ''Expected update hunk to start with a @@ context marker, got: '' @ quoted line"

definition empty_update_msg :: "rstr \<Rightarrow> rstr" where
  "empty_update_msg path = ''Update file hunk for path '' @ quoted path @ '' is empty''"

definition no_lines_msg :: rstr where
  "no_lines_msg = ''Update hunk does not contain any lines''"

section \<open>The streaming parser\<close>

definition set_mode :: "streaming_parser_mode \<Rightarrow> streaming_patch_parser \<Rightarrow> streaming_patch_parser" where
  "set_mode m p = p\<lparr>state := (state p)\<lparr>mode := m\<rparr>\<rparr>"

definition set_hunks :: "hunk list \<Rightarrow> streaming_patch_parser \<Rightarrow> streaming_patch_parser" where
  "set_hunks hs p = p\<lparr>state := (state p)\<lparr>hunks := hs\<rparr>\<rparr>"

definition push_hunk :: "hunk \<Rightarrow> streaming_patch_parser \<Rightarrow> streaming_patch_parser" where
  "push_hunk h p = set_hunks (parser_hunks p @ [h]) p"

definition chunk_is_empty :: "update_file_chunk \<Rightarrow> bool" where
  "chunk_is_empty c = (old_lines c = [] \<and> new_lines c = [])"

definition last_chunk_is_empty :: "update_file_chunk list \<Rightarrow> bool" where
  "last_chunk_is_empty cs = (case last_opt cs of None \<Rightarrow> False | Some c \<Rightarrow> chunk_is_empty c)"

definition ensure_update_hunk_is_not_empty ::
    "streaming_patch_parser \<Rightarrow> rstr \<Rightarrow> (parse_error, unit) result" where
  "ensure_update_hunk_is_not_empty p line =
    (case last_opt (parser_hunks p) of
       Some (UpdateFile path _ chunks) \<Rightarrow>
         (case (chunks, parser_mode p) of
            ([], UpdateFileMode hunk_line_number) \<Rightarrow>
              Err (InvalidHunkError (empty_update_msg path) hunk_line_number)
          | _ \<Rightarrow>
              if last_chunk_is_empty chunks then
                (if line = END_PATCH_MARKER
                 then Err (InvalidHunkError no_lines_msg (line_number p))
                 else Err (InvalidHunkError (unexpected_line_msg line) (line_number p)))
              else Ok ())
     | _ \<Rightarrow> Ok ())"

text \<open>\<open>Ok (Some p)\<close> is \<open>Ok(true)\<close> with the parser changed, \<open>Ok None\<close> is \<open>Ok(false)\<close>.\<close>

definition handle_hunk_headers_and_end_patch ::
    "streaming_patch_parser \<Rightarrow> rstr \<Rightarrow> (parse_error, streaming_patch_parser option) result" where
  "handle_hunk_headers_and_end_patch p trimmed =
    (case (if parser_mode p = StartedPatch then strip_prefix ENVIRONMENT_ID_MARKER trimmed else None) of
       Some env \<Rightarrow>
         (if environment_id (state p) \<noteq> None
          then Err (InvalidPatchError ''apply_patch environment_id cannot be specified more than once'')
          else if trim env = []
          then Err (InvalidPatchError ''apply_patch environment_id cannot be empty'')
          else Ok (Some (p\<lparr>state := (state p)\<lparr>environment_id := Some (trim env)\<rparr>\<rparr>)))
     | None \<Rightarrow>
       if trimmed = END_PATCH_MARKER then
         and_then (ensure_update_hunk_is_not_empty p trimmed) (\<lambda>_. Ok (Some (set_mode EndedPatch p)))
       else (case strip_prefix ADD_FILE_MARKER trimmed of
         Some path \<Rightarrow>
           and_then (ensure_update_hunk_is_not_empty p trimmed)
             (\<lambda>_. Ok (Some (set_mode AddFileMode (push_hunk (AddFile path []) p))))
       | None \<Rightarrow> (case strip_prefix DELETE_FILE_MARKER trimmed of
         Some path \<Rightarrow>
           and_then (ensure_update_hunk_is_not_empty p trimmed)
             (\<lambda>_. Ok (Some (set_mode DeleteFileMode (push_hunk (DeleteFile path) p))))
       | None \<Rightarrow> (case strip_prefix UPDATE_FILE_MARKER trimmed of
         Some path \<Rightarrow>
           and_then (ensure_update_hunk_is_not_empty p trimmed)
             (\<lambda>_. Ok (Some (set_mode (UpdateFileMode (line_number p))
                              (push_hunk (UpdateFile path None []) p))))
       | None \<Rightarrow> Ok None))))"

definition empty_chunk :: "rstr option \<Rightarrow> update_file_chunk" where
  "empty_chunk ctx = \<lparr>change_context = ctx, old_lines = [], new_lines = [], is_end_of_file = False\<rparr>"

text \<open>Push an empty chunk if there is none, then change the last one.\<close>

definition on_last_chunk ::
    "(update_file_chunk \<Rightarrow> update_file_chunk) \<Rightarrow> update_file_chunk list \<Rightarrow> update_file_chunk list" where
  "on_last_chunk f cs = upd_last f (if cs = [] then [empty_chunk None] else cs)"

definition push_old :: "rstr \<Rightarrow> update_file_chunk \<Rightarrow> update_file_chunk" where
  "push_old l c = c\<lparr>old_lines := old_lines c @ [l]\<rparr>"

definition push_new :: "rstr \<Rightarrow> update_file_chunk \<Rightarrow> update_file_chunk" where
  "push_new l c = c\<lparr>new_lines := new_lines c @ [l]\<rparr>"

definition is_context_line :: "rstr \<Rightarrow> bool" where
  "is_context_line l = (l = EMPTY_CHANGE_CONTEXT_MARKER \<or> starts_with l CHANGE_CONTEXT_MARKER)"

text \<open>
  The body of the \<open>UpdateFile\<close> arm of \<open>process_line\<close> below the header check, on the
  destination and the chunks of the last hunk: the new destination and chunks, or the
  message of the error. (The arm assigns the mode it matched on; it is unchanged.)
\<close>

definition update_hunk_line ::
    "rstr \<Rightarrow> rstr option \<Rightarrow> update_file_chunk list
      \<Rightarrow> (rstr, rstr option \<times> update_file_chunk list) result" where
  "update_hunk_line line move_path chunks =
    (let update_line = trim_end line;
         at_eof = (case last_opt chunks of None \<Rightarrow> False | Some c \<Rightarrow> is_end_of_file c)
     in
     if at_eof \<and> update_line = [] then Ok (move_path, chunks)
     else if at_eof \<and> \<not> is_context_line update_line then Err (expected_context_msg line)
     else if chunks = [] \<and> move_path = None \<and> strip_prefix MOVE_TO_MARKER update_line \<noteq> None
     then Ok (strip_prefix MOVE_TO_MARKER update_line, chunks)
     else if is_context_line update_line \<and> last_chunk_is_empty chunks
     then Err (unexpected_line_msg line)
     else if update_line = EMPTY_CHANGE_CONTEXT_MARKER
     then Ok (move_path, chunks @ [empty_chunk None])
     else if strip_prefix CHANGE_CONTEXT_MARKER update_line \<noteq> None
     then Ok (move_path, chunks @ [empty_chunk (strip_prefix CHANGE_CONTEXT_MARKER update_line)])
     else if update_line = EOF_MARKER then
       (if last_chunk_is_empty chunks then Err no_lines_msg
        else Ok (move_path, upd_last (\<lambda>c. c\<lparr>is_end_of_file := True\<rparr>) chunks))
     else (case line of
         [] \<Rightarrow> Ok (move_path, on_last_chunk (push_new [] \<circ> push_old []) chunks)
       | c # rest \<Rightarrow>
           if c = CHR '' '' then Ok (move_path, on_last_chunk (push_new rest \<circ> push_old rest) chunks)
           else if c = CHR ''+'' then Ok (move_path, on_last_chunk (push_new rest) chunks)
           else if c = CHR ''-'' then Ok (move_path, on_last_chunk (push_old rest) chunks)
           else if chunks \<noteq> [] \<and> \<not> last_chunk_is_empty chunks then Err (expected_context_msg line)
           else Err (unexpected_line_msg line)))"

definition process_line ::
    "streaming_patch_parser \<Rightarrow> rstr \<Rightarrow> (parse_error, streaming_patch_parser) result" where
  "process_line p line =
    (let trimmed = trim line;
         bad_header = Err (InvalidHunkError (invalid_header_msg trimmed) (line_number p))
     in case parser_mode p of
       NotStarted \<Rightarrow>
         (if trimmed = BEGIN_PATCH_MARKER then Ok (set_mode StartedPatch p)
          else Err (InvalidPatchError first_line_msg))
     | StartedPatch \<Rightarrow>
         and_then (handle_hunk_headers_and_end_patch p trimmed)
           (\<lambda>r. case r of Some p' \<Rightarrow> Ok p' | None \<Rightarrow> bad_header)
     | AddFileMode \<Rightarrow>
         and_then (handle_hunk_headers_and_end_patch p trimmed)
           (\<lambda>r. case r of Some p' \<Rightarrow> Ok p' | None \<Rightarrow>
              (case strip_prefix ''+'' line of
                 Some l \<Rightarrow>
                   (case last_opt (parser_hunks p) of
                      Some (AddFile path contents) \<Rightarrow>
                        Ok (set_hunks (butlast (parser_hunks p) @ [AddFile path (contents @ l @ [NL])]) p)
                    | _ \<Rightarrow> bad_header)
               | None \<Rightarrow> bad_header))
     | DeleteFileMode \<Rightarrow>
         and_then (handle_hunk_headers_and_end_patch p trimmed)
           (\<lambda>r. case r of Some p' \<Rightarrow> Ok p' | None \<Rightarrow> bad_header)
     | UpdateFileMode hunk_line_number \<Rightarrow>
         and_then (handle_hunk_headers_and_end_patch p (trim_end line))
           (\<lambda>r. case r of Some p' \<Rightarrow> Ok p' | None \<Rightarrow>
              (case last_opt (parser_hunks p) of
                 Some (UpdateFile path move_path chunks) \<Rightarrow>
                   (case update_hunk_line line move_path chunks of
                      Err msg \<Rightarrow> Err (InvalidHunkError msg (line_number p))
                    | Ok (move_path', chunks') \<Rightarrow>
                        Ok (set_hunks (butlast (parser_hunks p) @ [UpdateFile path move_path' chunks']) p))
               | _ \<Rightarrow> Err (InvalidHunkError (unexpected_line_msg line) (line_number p))))
     | EndedPatch \<Rightarrow>
         (if trimmed = [] then Ok p else Err (InvalidPatchError last_line_msg)))"

fun push_delta_loop :: "rstr \<Rightarrow> streaming_patch_parser \<Rightarrow> streaming_patch_parser \<times> parse_error option" where
  "push_delta_loop [] p = (p, None)"
| "push_delta_loop (ch # cs) p =
     (if ch = NL then
        (let line = strip_cr (line_buffer p);
             p' = p\<lparr>line_buffer := [], line_number := line_number p + 1\<rparr>
         in case process_line p' line of Err e \<Rightarrow> (p', Some e) | Ok p'' \<Rightarrow> push_delta_loop cs p'')
      else push_delta_loop cs (p\<lparr>line_buffer := line_buffer p @ [ch]\<rparr>))"

definition push_delta ::
    "streaming_patch_parser \<Rightarrow> rstr \<Rightarrow> streaming_patch_parser \<times> (parse_error, hunk list) result" where
  "push_delta p delta =
     (case push_delta_loop delta p of
        (p', Some e) \<Rightarrow> (p', Err e)
      | (p', None) \<Rightarrow> (p', Ok (parser_hunks p')))"

definition parser_finish ::
    "streaming_patch_parser \<Rightarrow> streaming_patch_parser \<times> (parse_error, hunk list) result" where
  "parser_finish p =
    (let p' = p\<lparr>line_buffer := [], line_number := line_number p + 1\<rparr>;
         line = line_buffer p;
         check = (\<lambda>q. (q, if parser_mode q = EndedPatch then Ok (parser_hunks q)
                          else Err (InvalidPatchError last_line_msg)))
     in if line = [] then check p
        else if trim line = END_PATCH_MARKER then
          (case ensure_update_hunk_is_not_empty p' (trim line) of
             Err e \<Rightarrow> (p', Err e) | Ok _ \<Rightarrow> check (set_mode EndedPatch p'))
        else (case process_line p' line of Err e \<Rightarrow> (p', Err e) | Ok p'' \<Rightarrow> check p''))"

section \<open>Parsing a whole patch\<close>

datatype parse_mode = Strict | Lenient

definition check_start_and_end_lines_strict ::
    "rstr option \<Rightarrow> rstr option \<Rightarrow> (parse_error, unit) result" where
  "check_start_and_end_lines_strict first_line last_line =
    (case (map_option trim first_line, map_option trim last_line) of
       (Some f, Some l) \<Rightarrow>
         (if f = BEGIN_PATCH_MARKER \<and> l = END_PATCH_MARKER then Ok ()
          else if f \<noteq> BEGIN_PATCH_MARKER then Err (InvalidPatchError first_line_msg)
          else Err (InvalidPatchError last_line_msg))
     | (Some f, None) \<Rightarrow>
         (if f \<noteq> BEGIN_PATCH_MARKER then Err (InvalidPatchError first_line_msg)
          else Err (InvalidPatchError last_line_msg))
     | _ \<Rightarrow> Err (InvalidPatchError last_line_msg))"

definition check_patch_boundaries_strict :: "rstr list \<Rightarrow> (parse_error, rstr list) result" where
  "check_patch_boundaries_strict lines =
     and_then (check_start_and_end_lines_strict
                 (if lines = [] then None else Some (hd lines)) (last_opt lines))
       (\<lambda>_. Ok lines)"

definition check_patch_boundaries_lenient :: "rstr list \<Rightarrow> (parse_error, rstr list) result" where
  "check_patch_boundaries_lenient original_lines =
    (case check_patch_boundaries_strict original_lines of
       Ok lines \<Rightarrow> Ok lines
     | Err original_parse_error \<Rightarrow>
         (case original_lines of
            first # _ # _ \<Rightarrow>
              (if (first = ''<<EOF'' \<or> first = ''<<'' @ quoted ''EOF''
                     \<or> first = ''<<'' @ [CHR 0x22] @ ''EOF'' @ [CHR 0x22])
                   \<and> ends_with (last original_lines) ''EOF'' \<and> length original_lines \<ge> 4
               then check_patch_boundaries_strict (butlast (tl original_lines))
               else Err original_parse_error)
          | _ \<Rightarrow> Err original_parse_error))"

definition parse_patch_text :: "rstr \<Rightarrow> parse_mode \<Rightarrow> (parse_error, apply_patch_args) result" where
  "parse_patch_text text m =
    (let lines = str_lines (trim text) in
     and_then (case m of Strict \<Rightarrow> check_patch_boundaries_strict lines
                       | Lenient \<Rightarrow> check_patch_boundaries_lenient lines)
       (\<lambda>patch_lines.
          let body = join_with [NL] patch_lines in
          case push_delta default_parser body of
            (p, Err e) \<Rightarrow> Err e
          | (p, Ok _) \<Rightarrow>
              (case parser_finish p of
                 (q, Err e) \<Rightarrow> Err e
               | (q, Ok hs) \<Rightarrow>
                   Ok \<lparr>patch = body, args_hunks = hs, workdir = None,
                       args_environment_id = environment_id (state q)\<rparr>)))"

definition parse_patch :: "rstr \<Rightarrow> (parse_error, apply_patch_args) result" where
  "parse_patch text = parse_patch_text text (if PARSE_IN_STRICT_MODE then Strict else Lenient)"

section \<open>The shape of parsed hunks\<close>

text \<open>
  What the later stages rely on: an update hunk has at least one chunk, and no chunk is
  without lines. While an update hunk is being read its last chunk may still be empty.
\<close>

definition wf_hunk :: "hunk \<Rightarrow> bool" where
  "wf_hunk h =
    (case h of
       UpdateFile _ _ cs \<Rightarrow> cs \<noteq> [] \<and> list_all (\<lambda>c. \<not> chunk_is_empty c) cs
     | _ \<Rightarrow> True)"

definition parser_inv :: "streaming_patch_parser \<Rightarrow> bool" where
  "parser_inv p \<longleftrightarrow>
    (case parser_mode p of
       UpdateFileMode _ \<Rightarrow>
         (case last_opt (parser_hunks p) of
            Some (UpdateFile _ _ cs) \<Rightarrow>
              list_all wf_hunk (butlast (parser_hunks p)) \<and>
              list_all (\<lambda>c. \<not> chunk_is_empty c) (butlast cs)
          | _ \<Rightarrow> False)
     | _ \<Rightarrow> list_all wf_hunk (parser_hunks p))"

section \<open>Facts\<close>

named_theorems parser_simps \<open>evaluation of the parser's state\<close>

lemma set_mode_simps [simp, parser_simps]:
  "parser_mode (set_mode m p) = m" "parser_hunks (set_mode m p) = parser_hunks p"
  "line_buffer (set_mode m p) = line_buffer p" "line_number (set_mode m p) = line_number p"
  "environment_id (state (set_mode m p)) = environment_id (state p)"
  by (simp_all add: set_mode_def)

lemma set_hunks_simps [simp, parser_simps]:
  "parser_mode (set_hunks hs p) = parser_mode p" "parser_hunks (set_hunks hs p) = hs"
  "line_buffer (set_hunks hs p) = line_buffer p" "line_number (set_hunks hs p) = line_number p"
  "environment_id (state (set_hunks hs p)) = environment_id (state p)"
  by (simp_all add: set_hunks_def)

lemma push_hunk_simps [simp, parser_simps]:
  "parser_mode (push_hunk h p) = parser_mode p" "parser_hunks (push_hunk h p) = parser_hunks p @ [h]"
  "line_buffer (push_hunk h p) = line_buffer p" "line_number (push_hunk h p) = line_number p"
  "environment_id (state (push_hunk h p)) = environment_id (state p)"
  by (simp_all add: push_hunk_def)

lemma wf_hunk_simps [simp]:
  "wf_hunk (AddFile path contents)" "wf_hunk (DeleteFile path)"
  "wf_hunk (UpdateFile path mv cs) \<longleftrightarrow> cs \<noteq> [] \<and> list_all (\<lambda>c. \<not> chunk_is_empty c) cs"
  by (simp_all add: wf_hunk_def)

subsection \<open>Streaming\<close>

lemma push_delta_loop_append:
  "push_delta_loop (a @ b) p =
     (case push_delta_loop a p of (p', Some e) \<Rightarrow> (p', Some e) | (p', None) \<Rightarrow> push_delta_loop b p')"
  by (induction a arbitrary: p) (auto simp: Let_def split: sum.splits)

lemma push_delta_append:
  "push_delta p (a @ b) =
     (case push_delta p a of (p', Err e) \<Rightarrow> (p', Err e) | (p', Ok _) \<Rightarrow> push_delta p' b)"
  by (simp add: push_delta_def push_delta_loop_append split: prod.splits option.splits)

subsection \<open>The invariant\<close>

lemma not_last_empty_all:
  "list_all (\<lambda>c. \<not> chunk_is_empty c) (butlast cs) \<Longrightarrow> \<not> last_chunk_is_empty cs
     \<Longrightarrow> list_all (\<lambda>c. \<not> chunk_is_empty c) cs"
  by (cases cs rule: rev_cases) (auto simp: last_chunk_is_empty_def)

lemma ensure_wf:
  assumes "parser_inv p" and "ensure_update_hunk_is_not_empty p line = Ok u"
  shows "list_all wf_hunk (parser_hunks p)"
proof (cases "parser_mode p")
  case (UpdateFileMode n)
  then obtain hs path mv cs where last: "parser_hunks p = hs @ [UpdateFile path mv cs]"
    and wf: "list_all wf_hunk hs" "list_all (\<lambda>c. \<not> chunk_is_empty c) (butlast cs)"
    using assms(1)
    by (cases "parser_hunks p" rule: rev_cases) (auto simp: parser_inv_def split: hunk.splits)
  moreover have "cs \<noteq> []" "\<not> last_chunk_is_empty cs"
    using assms(2) last UpdateFileMode
    by (auto simp: ensure_update_hunk_is_not_empty_def split: list.splits if_splits)
  ultimately show ?thesis by (simp add: not_last_empty_all)
qed (use assms(1) in \<open>simp_all add: parser_inv_def\<close>)

lemma handle_headers_cases:
  assumes "handle_hunk_headers_and_end_patch p trimmed = Ok (Some p')"
  obtains (environment) env where "parser_mode p = StartedPatch"
      "p' = p\<lparr>state := (state p)\<lparr>environment_id := Some env\<rparr>\<rparr>"
    | (ended) u where "ensure_update_hunk_is_not_empty p trimmed = Ok u" "p' = set_mode EndedPatch p"
    | (add) u path where "ensure_update_hunk_is_not_empty p trimmed = Ok u"
      "p' = set_mode AddFileMode (push_hunk (AddFile path []) p)"
    | (delete) u path where "ensure_update_hunk_is_not_empty p trimmed = Ok u"
      "p' = set_mode DeleteFileMode (push_hunk (DeleteFile path) p)"
    | (update) u path where "ensure_update_hunk_is_not_empty p trimmed = Ok u"
      "p' = set_mode (UpdateFileMode (line_number p)) (push_hunk (UpdateFile path None []) p)"
  using assms
  by (auto simp: handle_hunk_headers_and_end_patch_def and_then_eq_Ok
      split: if_splits option.splits)

lemma handle_headers_inv:
  assumes "parser_inv p" and "handle_hunk_headers_and_end_patch p trimmed = Ok (Some p')"
  shows "parser_inv p'"
  using assms(2)
proof (cases rule: handle_headers_cases)
  case environment
  with assms(1) show ?thesis by (simp add: parser_inv_def)
qed (use ensure_wf [OF assms(1)] in \<open>auto simp: parser_inv_def\<close>)

lemma is_context_lineI: "strip_prefix CHANGE_CONTEXT_MARKER l = Some c \<Longrightarrow> is_context_line l"
  by (simp add: is_context_line_def starts_with_def)

lemma update_hunk_line_inv:
  assumes "update_hunk_line line mv cs = Ok (mv', cs')"
    and "list_all (\<lambda>c. \<not> chunk_is_empty c) (butlast cs)"
  shows "list_all (\<lambda>c. \<not> chunk_is_empty c) (butlast cs')"
  using assms
  by (auto simp: update_hunk_line_def Let_def is_context_line_def starts_with_def on_last_chunk_def
      split: if_splits list.splits intro: not_last_empty_all)

lemma header_or_error:
  "and_then h (\<lambda>r. case r of Some q \<Rightarrow> Ok q | None \<Rightarrow> Err e) = Ok p' \<longleftrightarrow> h = Ok (Some p')"
  by (auto simp: and_then_eq_Ok split: option.splits)

lemma process_line_inv:
  assumes "parser_inv p" and "process_line p line = Ok p'"
  shows "parser_inv p'"
proof (cases "parser_mode p")
  case (UpdateFileMode n)
  then obtain hs path mv cs where last: "parser_hunks p = hs @ [UpdateFile path mv cs]"
    and wf: "list_all wf_hunk hs" "list_all (\<lambda>c. \<not> chunk_is_empty c) (butlast cs)"
    using assms(1)
    by (cases "parser_hunks p" rule: rev_cases) (auto simp: parser_inv_def split: hunk.splits)
  from UpdateFileMode last assms(2) consider
      "handle_hunk_headers_and_end_patch p (trim_end line) = Ok (Some p')"
    | mv' cs' where "update_hunk_line line mv cs = Ok (mv', cs')"
        "p' = set_hunks (hs @ [UpdateFile path mv' cs']) p"
    by (auto simp: process_line_def Let_def and_then_eq_Ok split: option.splits sum.splits)
  then show ?thesis
  proof cases
    case 1
    then show ?thesis by (rule handle_headers_inv [OF assms(1)])
  next
    case 2
    with UpdateFileMode wf show ?thesis
      by (auto simp: parser_inv_def dest: update_hunk_line_inv)
  qed
next
  case AddFileMode
  with assms(2) obtain r where r: "handle_hunk_headers_and_end_patch p (trim line) = Ok r"
    by (auto simp: process_line_def Let_def and_then_eq_Ok)
  show ?thesis
  proof (cases r)
    case None
    with r AddFileMode assms(2) obtain h where "p' = set_hunks (butlast (parser_hunks p) @ [h]) p" "wf_hunk h"
      by (auto simp: process_line_def Let_def split: option.splits hunk.splits)
    with AddFileMode assms(1) show ?thesis
      by (auto simp: parser_inv_def list_all_iff dest: in_set_butlastD)
  next
    case (Some q)
    with r AddFileMode assms(2) have "q = p'" by (simp add: process_line_def)
    with r Some show ?thesis by (auto intro: handle_headers_inv [OF assms(1)])
  qed
next
  case NotStarted
  with assms show ?thesis
    by (auto simp: process_line_def parser_inv_def split: if_splits)
next
  case StartedPatch
  with assms(2) have "handle_hunk_headers_and_end_patch p (trim line) = Ok (Some p')"
    by (simp add: process_line_def Let_def header_or_error)
  then show ?thesis by (rule handle_headers_inv [OF assms(1)])
next
  case DeleteFileMode
  with assms(2) have "handle_hunk_headers_and_end_patch p (trim line) = Ok (Some p')"
    by (simp add: process_line_def Let_def header_or_error)
  then show ?thesis by (rule handle_headers_inv [OF assms(1)])
next
  case EndedPatch
  with assms show ?thesis
    by (auto simp: process_line_def parser_inv_def split: if_splits)
qed

lemma parser_inv_state:
  assumes "state q = state p"
  shows "parser_inv q = parser_inv p"
  unfolding parser_inv_def assms by (rule refl)

lemma parser_inv_buffer [simp]:
  "parser_inv (p\<lparr>line_buffer := b\<rparr>) = parser_inv p"
  "parser_inv (p\<lparr>line_buffer := b, line_number := n\<rparr>) = parser_inv p"
  by (rule parser_inv_state; simp)+

lemma push_delta_loop_inv: "parser_inv p \<Longrightarrow> parser_inv (fst (push_delta_loop cs p))"
proof (induction cs arbitrary: p)
  case (Cons c cs)
  show ?case
  proof (cases "process_line (p\<lparr>line_buffer := [], line_number := line_number p + 1\<rparr>) (strip_cr (line_buffer p))")
    case (Inr p'')
    with Cons.prems have "parser_inv p''"
      using process_line_inv [OF _ Inr] by simp
    with Inr Cons show ?thesis by simp
  qed (use Cons in simp)
qed simp

lemma push_delta_inv: "parser_inv p \<Longrightarrow> parser_inv (fst (push_delta p delta))"
  using push_delta_loop_inv [of p delta]
  by (auto simp: push_delta_def split: prod.splits option.splits)

lemma default_parser_inv: "parser_inv default_parser"
  by (simp add: parser_inv_def default_parser_def)

lemma ended_wf: "parser_inv p \<Longrightarrow> parser_mode p = EndedPatch \<Longrightarrow> list_all wf_hunk (parser_hunks p)"
  by (simp add: parser_inv_def)

lemma parser_finish_wf:
  assumes "parser_inv p" and "parser_finish p = (q, Ok hs)"
  shows "list_all wf_hunk hs"
proof -
  let ?p = "p\<lparr>line_buffer := [], line_number := line_number p + 1\<rparr>"
  have inv: "parser_inv ?p" using assms(1) by simp
  from assms(2) consider "hs = parser_hunks p" "parser_mode p = EndedPatch"
    | u where "hs = parser_hunks ?p" "ensure_update_hunk_is_not_empty ?p (trim (line_buffer p)) = Ok u"
    | p'' where "process_line ?p (line_buffer p) = Ok p''" "hs = parser_hunks p''" "parser_mode p'' = EndedPatch"
    by (auto simp: parser_finish_def Let_def split: if_splits sum.splits)
  then show ?thesis
  proof cases
    case 1
    with assms(1) show ?thesis by (simp add: ended_wf)
  next
    case 2
    with ensure_wf [OF inv] show ?thesis by simp
  next
    case 3
    with process_line_inv [OF inv] show ?thesis by (simp add: ended_wf)
  qed
qed

lemma parse_patch_text_cases:
  assumes "parse_patch_text text m = Ok args"
  obtains p q hs lines where "push_delta default_parser (join_with [NL] lines) = (p, Ok hs)"
    and "parser_finish p = (q, Ok (args_hunks args))"
    and "(case m of Strict \<Rightarrow> check_patch_boundaries_strict (str_lines (trim text))
          | Lenient \<Rightarrow> check_patch_boundaries_lenient (str_lines (trim text))) = Ok lines"
    and "patch args = join_with [NL] lines" and "args_environment_id args = environment_id (state q)"
    and "workdir args = None"
proof -
  let ?bounds = "case m of Strict \<Rightarrow> check_patch_boundaries_strict (str_lines (trim text))
    | Lenient \<Rightarrow> check_patch_boundaries_lenient (str_lines (trim text))"
  obtain lines where lines: "?bounds = Ok lines"
    using assms by (auto simp: parse_patch_text_def Let_def and_then_eq_Ok)
  obtain p r where p: "push_delta default_parser (join_with [NL] lines) = (p, r)" by fastforce
  obtain q r' where q: "parser_finish p = (q, r')" by fastforce
  from assms lines p q obtain hs hs' where "r = Ok hs" "r' = Ok hs'"
    "args = \<lparr>patch = join_with [NL] lines, args_hunks = hs', workdir = None,
       args_environment_id = environment_id (state q)\<rparr>"
    by (auto simp: parse_patch_text_def Let_def split: sum.splits)
  with that [of lines p hs q] lines p q show ?thesis by simp
qed

end
