(* ===== verification/Patch_Render.thy ===== *)
theory Patch_Render
  imports Patch_Parser
begin

text \<open>
  The patch language read backwards: a renderer for parsed hunks, used as the specification the
  parser is checked against. Every hunk list the language can express is recovered from its
  rendering by \<open>parse_patch\<close>.
\<close>

section \<open>Rendering\<close>

definition render_chunk :: "update_file_chunk \<Rightarrow> rstr list" where
  "render_chunk c =
     (case change_context c of
        None \<Rightarrow> EMPTY_CHANGE_CONTEXT_MARKER | Some ctx \<Rightarrow> CHANGE_CONTEXT_MARKER @ ctx)
     # map (\<lambda>l. CHR ''-'' # l) (old_lines c) @ map (\<lambda>l. CHR ''+'' # l) (new_lines c)
     @ (if is_end_of_file c then [EOF_MARKER] else [])"

fun render_hunk :: "hunk \<Rightarrow> rstr list" where
  "render_hunk (AddFile path contents) =
     (ADD_FILE_MARKER @ path) # map (\<lambda>l. CHR ''+'' # l) (butlast (split_on NL contents))"
| "render_hunk (DeleteFile path) = [DELETE_FILE_MARKER @ path]"
| "render_hunk (UpdateFile path mv cs) =
     (UPDATE_FILE_MARKER @ path)
     # (case mv of None \<Rightarrow> [] | Some dest \<Rightarrow> [MOVE_TO_MARKER @ dest])
     @ concat (map render_chunk cs)"

definition render_lines :: "hunk list \<Rightarrow> rstr list" where
  "render_lines hs = [BEGIN_PATCH_MARKER] @ concat (map render_hunk hs) @ [END_PATCH_MARKER]"

definition render_patch :: "hunk list \<Rightarrow> rstr" where
  "render_patch hs = join_with [NL] (render_lines hs)"

text \<open>What the language can express: lines without newline and without a final carriage
  return, paths and contexts that trimming leaves alone, added contents made of whole lines.\<close>

definition clean_line :: "rstr \<Rightarrow> bool" where
  "clean_line l \<longleftrightarrow> NL \<notin> set l \<and> strip_cr l = l"

definition clean_name :: "rstr \<Rightarrow> bool" where
  "clean_name s \<longleftrightarrow> s \<noteq> [] \<and> NL \<notin> set s \<and> trim_end s = s"

definition expressible_chunk :: "update_file_chunk \<Rightarrow> bool" where
  "expressible_chunk c \<longleftrightarrow>
     \<not> chunk_is_empty c \<and> list_all clean_line (old_lines c) \<and> list_all clean_line (new_lines c)
     \<and> (case change_context c of None \<Rightarrow> True | Some ctx \<Rightarrow> clean_name ctx)"

fun expressible :: "hunk \<Rightarrow> bool" where
  "expressible (AddFile path contents) \<longleftrightarrow>
     clean_name path \<and> last (split_on NL contents) = [] \<and> list_all clean_line (butlast (split_on NL contents))"
| "expressible (DeleteFile path) \<longleftrightarrow> clean_name path"
| "expressible (UpdateFile path mv cs) \<longleftrightarrow>
     clean_name path \<and> (case mv of None \<Rightarrow> True | Some dest \<Rightarrow> clean_name dest)
     \<and> cs \<noteq> [] \<and> list_all expressible_chunk cs"

section \<open>Trimming\<close>

definition ascii :: "char \<Rightarrow> bool" where
  "ascii c \<longleftrightarrow> (of_char c :: nat) < 128"

lemma white_space_rev_all:
  "list_all (\<lambda>w. length w = 1 \<or> list_all (\<lambda>b. \<not> ascii b) w) white_space_rev"
  by code_simp

lemma white_prefix_append:
  assumes "w \<in> set white_space_rev" and "ascii a"
  shows "prefix w ((x # xs) @ a # ys) \<longleftrightarrow> prefix w (x # xs)"
proof
  assume pre: "prefix w ((x # xs) @ a # ys)"
  show "prefix w (x # xs)"
  proof (rule ccontr)
    assume no: "\<not> prefix w (x # xs)"
    with pre obtain zs where zs: "w = (x # xs) @ zs" "prefix zs (a # ys)"
      unfolding prefix_append by blast
    with no have "zs \<noteq> []" by auto
    with zs have "a \<in> set w" "length w \<noteq> 1" by (cases zs; auto)+
    with assms white_space_rev_all show False by (auto simp: list_all_iff)
  qed
next
  assume "prefix w (x # xs)"
  then show "prefix w ((x # xs) @ a # ys)" unfolding prefix_append by blast
qed

lemma lead_width_append:
  assumes "ascii a"
  shows "lead_width white_space_rev ((x # xs) @ a # ys) = lead_width white_space_rev (x # xs)"
proof -
  have "List.find (\<lambda>w. strip_prefix w ((x # xs) @ a # ys) \<noteq> None) white_space_rev =
      List.find (\<lambda>w. strip_prefix w (x # xs) \<noteq> None) white_space_rev"
    by (rule find_cong) (use white_prefix_append [OF _ assms] in \<open>auto simp: strip_prefix_None_iff\<close>)
  then show ?thesis by (simp only: lead_width_def)
qed

lemma lead_width_le: "lead_width tbl s \<le> length s"
  by (auto simp: lead_width_def strip_prefix_None_iff split: option.splits
      dest!: find_Some_iff [THEN iffD1] intro: prefix_length_le)

lemma length_strip_lead: "length (strip_lead tbl s) \<le> length s"
proof (induction tbl s rule: strip_lead.induct)
  case (2 tbl c cs)
  show ?case
  proof (cases "lead_width tbl (c # cs)")
    case (Suc n)
    with 2 [OF Suc] show ?thesis by simp
  qed simp
qed simp

lemma strip_lead_append:
  assumes "ascii a"
  shows "strip_lead white_space_rev (xs @ a # ys) =
    (if strip_lead white_space_rev xs = [] then strip_lead white_space_rev (a # ys)
     else strip_lead white_space_rev xs @ a # ys)"
proof (induction white_space_rev xs rule: strip_lead.induct)
  case (2 c cs)
  show ?case
  proof (cases "lead_width white_space_rev (c # cs)")
    case 0
    then have "lead_width white_space_rev (c # cs @ a # ys) = 0"
      using lead_width_append [OF assms, of c cs ys] by simp
    with 0 show ?thesis by simp
  next
    case (Suc n)
    then have "lead_width white_space_rev (c # cs @ a # ys) = Suc n"
      using lead_width_append [OF assms, of c cs ys] by simp
    moreover have "n \<le> length cs" using lead_width_le [of white_space_rev "c # cs"] Suc by simp
    ultimately show ?thesis using 2 Suc by simp
  qed
qed simp

lemma trim_end_append:
  assumes "ascii a" and "trim_end s = s" and "s \<noteq> []"
  shows "trim_end (m @ a # s) = m @ a # s"
proof -
  have "strip_lead white_space_rev (rev s) = rev s"
    using assms(2) by (metis rev_rev_ident trim_end_def)
  with assms(3) have "strip_lead white_space_rev (rev s @ a # rev m) = rev s @ a # rev m"
    by (simp add: strip_lead_append [OF assms(1)])
  then show ?thesis by (simp add: trim_end_def)
qed

lemma trim_end_Cons:
  assumes "ascii a" and "lead_width white_space_rev [a] = 0"
  shows "trim_end (a # s) = a # trim_end s"
  using assms by (auto simp: trim_end_def strip_lead_append)

lemma trim_start_Cons: "lead_width white_space (a # s) = 0 \<Longrightarrow> trim_start (a # s) = a # s"
  by (simp add: trim_start_def)

lemma ascii_marks [simp]:
  "ascii (CHR ''+'')" "ascii (CHR ''-'')" "ascii (CHR ''@'')" "ascii (CHR '' '')" "ascii (CHR ''*'')"
  by (simp_all add: ascii_def)

lemma lead_width_marks [simp]:
  "lead_width white_space (CHR ''+'' # s) = 0" "lead_width white_space (CHR ''-'' # s) = 0"
  "lead_width white_space (CHR ''@'' # s) = 0" "lead_width white_space (CHR ''*'' # s) = 0"
  "lead_width white_space_rev (CHR ''+'' # s) = 0" "lead_width white_space_rev (CHR ''-'' # s) = 0"
  "lead_width white_space_rev (CHR ''h'' # s) = 0" "lead_width white_space_rev (CHR ''e'' # s) = 0"
  "lead_width white_space_rev (CHR ''@'' # s) = 0"
  by (simp_all add: lead_width_def white_space_def white_space_rev_def)

lemma clean_name_line:
  assumes "clean_name s"
  shows "clean_line s"
proof -
  have "strip_cr s = s"
  proof (rule ccontr)
    assume "strip_cr s \<noteq> s"
    then obtain r where "s = r @ [CR]"
      by (auto simp: strip_cr_def split: option.splits dest: strip_suffix_Some_iff [THEN iffD1])
    then have "trim_end s = rev (strip_lead white_space_rev (rev r))"
      by (simp add: trim_end_def lead_width_def white_space_def white_space_rev_def CR_def)
    then have "length (trim_end s) \<le> length r" using length_strip_lead [of white_space_rev "rev r"] by simp
    with assms \<open>s = r @ [CR]\<close> show False by (simp add: clean_name_def)
  qed
  with assms show ?thesis by (simp add: clean_name_def clean_line_def)
qed

section \<open>Feeding whole lines\<close>

definition feed :: "rstr list \<Rightarrow> streaming_patch_parser \<Rightarrow> (parse_error, streaming_patch_parser) result" where
  "feed ls p = fold_result (\<lambda>l p. process_line (p\<lparr>line_number := line_number p + 1\<rparr>) l) ls p"

lemma feed_simps [simp]:
  "feed [] p = Ok p"
  "feed (l # ls) p = and_then (process_line (p\<lparr>line_number := line_number p + 1\<rparr>) l) (feed ls)"
  by (simp_all add: feed_def and_then_def split: sum.splits)

lemma feed_append: "feed (ls @ ls') p = and_then (feed ls p) (feed ls')"
  unfolding feed_def by (simp add: fold_result_append)

lemma process_line_buffer:
  assumes "process_line p l = Ok p'"
  shows "line_buffer p' = line_buffer p"
proof -
  have "line_buffer q = line_buffer p" if "handle_hunk_headers_and_end_patch p t = Ok (Some q)" for t q
    using that by (cases rule: handle_headers_cases) auto
  with assms show ?thesis
    by (cases "parser_mode p")
      (auto simp: process_line_def Let_def and_then_eq_Ok split: option.splits if_splits hunk.splits sum.splits)
qed

lemma push_line:
  "NL \<notin> set l \<Longrightarrow>
     push_delta_loop (l @ rest) p = push_delta_loop rest (p\<lparr>line_buffer := line_buffer p @ l\<rparr>)"
  by (induction l arbitrary: p) auto

lemma push_feed:
  "line_buffer p = [] \<Longrightarrow> list_all clean_line ls \<Longrightarrow> feed ls p = Ok p' \<Longrightarrow>
     push_delta_loop (concat (map (\<lambda>l. l @ [NL]) ls) @ rest) p = push_delta_loop rest p'"
proof (induction ls arbitrary: p)
  case (Cons l ls)
  let ?p = "p\<lparr>line_number := line_number p + 1\<rparr>"
  from Cons.prems(3) obtain q where q: "process_line ?p l = Ok q" "feed ls q = Ok p'"
    by (auto simp: and_then_eq_Ok)
  have p: "p\<lparr>line_buffer := [], line_number := Suc (line_number p)\<rparr> = ?p"
    using Cons.prems(1) by (cases p) simp
  from Cons.prems have "NL \<notin> set l" "strip_cr l = l" by (simp_all add: clean_line_def)
  then have "push_delta_loop (l @ NL # concat (map (\<lambda>l. l @ [NL]) ls) @ rest) p =
      push_delta_loop (concat (map (\<lambda>l. l @ [NL]) ls) @ rest) q"
    using Cons.prems(1) q by (simp add: push_line Let_def p)
  moreover have "line_buffer q = []" using process_line_buffer [OF q(1)] Cons.prems(1) by simp
  ultimately show ?case using Cons.IH q(2) Cons.prems(2) by simp
qed simp

section \<open>Rendered lines are accepted\<close>

definition at_state :: "streaming_patch_parser \<Rightarrow> streaming_parser_mode \<Rightarrow> hunk list \<Rightarrow> bool" where
  "at_state p m hs \<longleftrightarrow>
     parser_mode p = m \<and> parser_hunks p = hs \<and> environment_id (state p) = None \<and> line_buffer p = []"

definition open_mode :: "streaming_parser_mode \<Rightarrow> bool" where
  "open_mode m \<longleftrightarrow> m \<noteq> NotStarted \<and> m \<noteq> EndedPatch"

definition yields :: "rstr list \<Rightarrow> streaming_patch_parser \<Rightarrow> (streaming_patch_parser \<Rightarrow> bool) \<Rightarrow> bool" where
  "yields ls p Q \<longleftrightarrow> (\<exists>p'. feed ls p = Ok p' \<and> Q p')"

lemma yields_append: "yields ls p P \<Longrightarrow> (\<And>p'. P p' \<Longrightarrow> yields ls' p' Q) \<Longrightarrow> yields (ls @ ls') p Q"
  by (auto simp: yields_def feed_append and_then_eq_Ok)

lemma yields_Cons: "yields [l] p P \<Longrightarrow> (\<And>p'. P p' \<Longrightarrow> yields ls p' Q) \<Longrightarrow> yields (l # ls) p Q"
  using yields_append [of "[l]" p P ls Q] by simp

lemma yields_Nil: "P p \<Longrightarrow> yields [] p P"
  by (simp add: yields_def)

lemmas marker_defs = BEGIN_PATCH_MARKER_def END_PATCH_MARKER_def ADD_FILE_MARKER_def
  DELETE_FILE_MARKER_def UPDATE_FILE_MARKER_def MOVE_TO_MARKER_def EOF_MARKER_def
  CHANGE_CONTEXT_MARKER_def EMPTY_CHANGE_CONTEXT_MARKER_def ENVIRONMENT_ID_MARKER_def

lemma trim_end_marked:
  assumes "clean_name s"
  shows "trim_end (ADD_FILE_MARKER @ s) = ADD_FILE_MARKER @ s"
    "trim_end (DELETE_FILE_MARKER @ s) = DELETE_FILE_MARKER @ s"
    "trim_end (UPDATE_FILE_MARKER @ s) = UPDATE_FILE_MARKER @ s"
    "trim_end (MOVE_TO_MARKER @ s) = MOVE_TO_MARKER @ s"
    "trim_end (CHANGE_CONTEXT_MARKER @ s) = CHANGE_CONTEXT_MARKER @ s"
  using assms trim_end_append [of "CHR '' ''" s "''*** Add File:''"]
    trim_end_append [of "CHR '' ''" s "''*** Delete File:''"]
    trim_end_append [of "CHR '' ''" s "''*** Update File:''"]
    trim_end_append [of "CHR '' ''" s "''*** Move to:''"] trim_end_append [of "CHR '' ''" s "''@@''"]
  by (simp_all add: clean_name_def marker_defs)

lemma trim_marked:
  assumes "clean_name s"
  shows "trim (ADD_FILE_MARKER @ s) = ADD_FILE_MARKER @ s"
    "trim (DELETE_FILE_MARKER @ s) = DELETE_FILE_MARKER @ s"
    "trim (UPDATE_FILE_MARKER @ s) = UPDATE_FILE_MARKER @ s"
  by (simp_all add: trim_def trim_end_marked [OF assms])
     (simp_all add: marker_defs trim_start_Cons)

lemma trim_end_plain:
  "trim_end BEGIN_PATCH_MARKER = BEGIN_PATCH_MARKER" "trim_end END_PATCH_MARKER = END_PATCH_MARKER"
  "trim_end EOF_MARKER = EOF_MARKER" "trim_end EMPTY_CHANGE_CONTEXT_MARKER = EMPTY_CHANGE_CONTEXT_MARKER"
  by (simp_all add: marker_defs trim_end_def)

lemma trim_plain: "trim BEGIN_PATCH_MARKER = BEGIN_PATCH_MARKER" "trim END_PATCH_MARKER = END_PATCH_MARKER"
  by (simp_all add: trim_def trim_end_plain) (simp_all add: marker_defs trim_start_Cons)

lemma ensure_ok: "list_all wf_hunk (parser_hunks p) \<Longrightarrow> ensure_update_hunk_is_not_empty p l = Ok ()"
  by (cases "parser_hunks p" rule: rev_cases)
     (auto simp: ensure_update_hunk_is_not_empty_def last_chunk_is_empty_def last_opt_def list_all_iff
       split: hunk.splits list.splits option.splits)

lemma handle_marked:
  assumes "list_all wf_hunk (parser_hunks p)"
  shows "handle_hunk_headers_and_end_patch p (ADD_FILE_MARKER @ s) =
      Ok (Some (set_mode AddFileMode (push_hunk (AddFile s []) p)))"
    "handle_hunk_headers_and_end_patch p (DELETE_FILE_MARKER @ s) =
      Ok (Some (set_mode DeleteFileMode (push_hunk (DeleteFile s) p)))"
    "handle_hunk_headers_and_end_patch p (UPDATE_FILE_MARKER @ s) =
      Ok (Some (set_mode (UpdateFileMode (line_number p)) (push_hunk (UpdateFile s None []) p)))"
  unfolding handle_hunk_headers_and_end_patch_def ensure_ok [OF assms]
  by (simp_all add: marker_defs)

lemma process_marked:
  assumes "at_state p m hs" and "open_mode m" and "list_all wf_hunk hs" and "clean_name s"
  shows "yields [ADD_FILE_MARKER @ s] p (\<lambda>q. at_state q AddFileMode (hs @ [AddFile s []]))"
    "yields [DELETE_FILE_MARKER @ s] p (\<lambda>q. at_state q DeleteFileMode (hs @ [DeleteFile s]))"
    "yields [UPDATE_FILE_MARKER @ s] p (\<lambda>q. \<exists>n. at_state q (UpdateFileMode n) (hs @ [UpdateFile s None []]))"
  using assms
  by (cases m; simp add: yields_def at_state_def open_mode_def process_line_def trim_marked
      trim_end_marked handle_marked)+

lemma process_add_line:
  assumes "at_state p AddFileMode (hs @ [AddFile path c])"
  shows "yields [CHR ''+'' # l] p (\<lambda>q. at_state q AddFileMode (hs @ [AddFile path (c @ l @ [NL])]))"
proof -
  have "trim (CHR ''+'' # l) = CHR ''+'' # trim_end l"
    by (simp add: trim_def trim_end_Cons trim_start_Cons)
  moreover have "handle_hunk_headers_and_end_patch q (CHR ''+'' # s) = Ok None" for q s
    by (simp add: handle_hunk_headers_and_end_patch_def marker_defs)
  ultimately show ?thesis
    using assms by (simp add: yields_def at_state_def process_line_def Let_def)
qed

lemma yields_add_lines:
  "at_state p AddFileMode (hs @ [AddFile path c]) \<Longrightarrow>
     yields (map (\<lambda>l. CHR ''+'' # l) ls) p
       (\<lambda>q. at_state q AddFileMode (hs @ [AddFile path (c @ concat (map (\<lambda>l. l @ [NL]) ls))]))"
proof (induction ls arbitrary: p c)
  case Nil
  then show ?case by (simp add: yields_Nil)
next
  case (Cons l ls)
  from Cons.IH [where c = "c @ l @ [NL]"] show ?case
    by (simp, intro yields_Cons [OF process_add_line [OF Cons.prems, of l]]) simp
qed

subsection \<open>Chunks\<close>

definition in_update :: "streaming_patch_parser \<Rightarrow> hunk list \<Rightarrow> rstr \<Rightarrow> rstr option \<Rightarrow> update_file_chunk list \<Rightarrow> bool" where
  "in_update p hs path mv cs \<longleftrightarrow> (\<exists>n. at_state p (UpdateFileMode n) (hs @ [UpdateFile path mv cs]))"

lemma process_update_line:
  assumes "in_update p hs path mv cs" and "update_hunk_line l mv cs = Ok (mv', cs')"
    and "\<And>q. handle_hunk_headers_and_end_patch q (trim_end l) = Ok None \<or> parser_mode q = StartedPatch"
  shows "yields [l] p (\<lambda>q. in_update q hs path mv' cs')"
proof -
  from assms(1) obtain n where n: "at_state p (UpdateFileMode n) (hs @ [UpdateFile path mv cs])"
    by (auto simp: in_update_def)
  let ?p = "p\<lparr>line_number := line_number p + 1\<rparr>"
  from n have "parser_mode ?p \<noteq> StartedPatch" by (simp add: at_state_def)
  with assms(3) [of ?p] have "handle_hunk_headers_and_end_patch ?p (trim_end l) = Ok None" by simp
  with n assms(2) show ?thesis
    by (auto simp: yields_def in_update_def at_state_def process_line_def Let_def)
qed

lemma no_header:
  "handle_hunk_headers_and_end_patch q (CHR ''-'' # s) = Ok None"
  "handle_hunk_headers_and_end_patch q (CHR ''+'' # s) = Ok None"
  "handle_hunk_headers_and_end_patch q (CHR ''@'' # s) = Ok None"
  "handle_hunk_headers_and_end_patch q EOF_MARKER = Ok None"
  "handle_hunk_headers_and_end_patch q (MOVE_TO_MARKER @ s) = Ok None"
  by (simp_all add: handle_hunk_headers_and_end_patch_def marker_defs)

definition chunk_open :: "update_file_chunk list \<Rightarrow> bool" where
  "chunk_open cs \<longleftrightarrow> cs \<noteq> [] \<and> \<not> is_end_of_file (last cs)"

lemma minus_line:
  assumes "in_update p hs path mv cs" and "chunk_open cs"
  shows "yields [CHR ''-'' # l] p (\<lambda>q. in_update q hs path mv (upd_last (push_old l) cs))"
  by (rule process_update_line [OF assms(1)])
     (use assms(2) in \<open>auto simp: update_hunk_line_def trim_end_Cons no_header is_context_line_def
       starts_with_def marker_defs chunk_open_def last_opt_def on_last_chunk_def Let_def\<close>)

lemma plus_line:
  assumes "in_update p hs path mv cs" and "chunk_open cs"
  shows "yields [CHR ''+'' # l] p (\<lambda>q. in_update q hs path mv (upd_last (push_new l) cs))"
  by (rule process_update_line [OF assms(1)])
     (use assms(2) in \<open>auto simp: update_hunk_line_def trim_end_Cons no_header is_context_line_def
       starts_with_def marker_defs chunk_open_def last_opt_def on_last_chunk_def Let_def\<close>)

lemma eof_line:
  assumes "in_update p hs path mv cs" and "chunk_open cs" and "\<not> chunk_is_empty (last cs)"
  shows "yields [EOF_MARKER] p (\<lambda>q. in_update q hs path mv (upd_last (\<lambda>c. c\<lparr>is_end_of_file := True\<rparr>) cs))"
proof (rule process_update_line [OF assms(1)])
  show "update_hunk_line EOF_MARKER mv cs = Ok (mv, upd_last (\<lambda>c. c\<lparr>is_end_of_file := True\<rparr>) cs)"
    using assms(2,3)
    unfolding update_hunk_line_def trim_end_plain
    by (simp add: is_context_line_def last_chunk_is_empty_def starts_with_def marker_defs chunk_open_def
        last_opt_def)
qed (simp add: trim_end_plain no_header)

lemma context_line:
  assumes "in_update p hs path mv cs" and "list_all (\<lambda>c. \<not> chunk_is_empty c) cs"
    and "case ctx of None \<Rightarrow> True | Some x \<Rightarrow> clean_name x"
  shows "yields [case ctx of None \<Rightarrow> EMPTY_CHANGE_CONTEXT_MARKER | Some x \<Rightarrow> CHANGE_CONTEXT_MARKER @ x] p
    (\<lambda>q. in_update q hs path mv (cs @ [empty_chunk ctx]))"
proof (cases ctx)
  case None
  have "\<not> last_chunk_is_empty cs"
    using assms(2) by (auto simp: last_chunk_is_empty_def last_opt_def list_all_iff)
  then have "update_hunk_line EMPTY_CHANGE_CONTEXT_MARKER mv cs = Ok (mv, cs @ [empty_chunk None])"
    unfolding update_hunk_line_def trim_end_plain by (simp add: is_context_line_def marker_defs)
  with None show ?thesis
    by (auto intro!: process_update_line [OF assms(1)] simp: trim_end_plain)
       (simp add: no_header marker_defs)
next
  case (Some x)
  with assms(3) have x: "clean_name x" "x \<noteq> []" by (simp_all add: clean_name_def)
  have "\<not> last_chunk_is_empty cs"
    using assms(2) by (auto simp: last_chunk_is_empty_def last_opt_def list_all_iff)
  then have "update_hunk_line (CHANGE_CONTEXT_MARKER @ x) mv cs = Ok (mv, cs @ [empty_chunk (Some x)])"
    unfolding update_hunk_line_def trim_end_marked(5) [OF x(1)]
    by (simp add: Let_def is_context_line_def starts_with_def marker_defs)
  with Some show ?thesis
    by (auto intro!: process_update_line [OF assms(1)] simp: trim_end_marked(5) [OF x(1)])
       (simp add: no_header marker_defs)
qed

lemma chunk_open_upd:
  "chunk_open (cs @ [c]) \<longleftrightarrow> \<not> is_end_of_file c"
  by (simp add: chunk_open_def)

lemma minus_lines:
  "in_update p hs path mv (cs @ [c]) \<Longrightarrow> \<not> is_end_of_file c \<Longrightarrow>
     yields (map (\<lambda>l. CHR ''-'' # l) ls) p
       (\<lambda>q. in_update q hs path mv (cs @ [c\<lparr>old_lines := old_lines c @ ls\<rparr>]))"
proof (induction ls arbitrary: p c)
  case (Cons l ls)
  have "yields [CHR ''-'' # l] p (\<lambda>q. in_update q hs path mv (cs @ [push_old l c]))"
    using minus_line [OF Cons.prems(1)] Cons.prems(2) by (simp add: chunk_open_upd)
  moreover have "yields (map (\<lambda>l. CHR ''-'' # l) ls) q
      (\<lambda>q. in_update q hs path mv (cs @ [c\<lparr>old_lines := old_lines c @ l # ls\<rparr>]))"
    if "in_update q hs path mv (cs @ [push_old l c])" for q
    using Cons.IH [OF that] Cons.prems(2) by (simp add: push_old_def)
  ultimately show ?case by (simp, rule yields_Cons)
qed (simp add: yields_Nil)

lemma plus_lines:
  "in_update p hs path mv (cs @ [c]) \<Longrightarrow> \<not> is_end_of_file c \<Longrightarrow>
     yields (map (\<lambda>l. CHR ''+'' # l) ls) p
       (\<lambda>q. in_update q hs path mv (cs @ [c\<lparr>new_lines := new_lines c @ ls\<rparr>]))"
proof (induction ls arbitrary: p c)
  case (Cons l ls)
  have "yields [CHR ''+'' # l] p (\<lambda>q. in_update q hs path mv (cs @ [push_new l c]))"
    using plus_line [OF Cons.prems(1)] Cons.prems(2) by (simp add: chunk_open_upd)
  moreover have "yields (map (\<lambda>l. CHR ''+'' # l) ls) q
      (\<lambda>q. in_update q hs path mv (cs @ [c\<lparr>new_lines := new_lines c @ l # ls\<rparr>]))"
    if "in_update q hs path mv (cs @ [push_new l c])" for q
    using Cons.IH [OF that] Cons.prems(2) by (simp add: push_new_def)
  ultimately show ?case by (simp, rule yields_Cons)
qed (simp add: yields_Nil)

lemma yields_chunk:
  assumes "in_update p hs path mv cs" and "list_all (\<lambda>c. \<not> chunk_is_empty c) cs" and "expressible_chunk c"
  shows "yields (render_chunk c) p (\<lambda>q. in_update q hs path mv (cs @ [c]))"
proof -
  let ?body = "\<lparr>change_context = change_context c, old_lines = old_lines c, new_lines = new_lines c,
    is_end_of_file = False\<rparr>"
  have tail: "yields (if is_end_of_file c then [EOF_MARKER] else []) q (\<lambda>q. in_update q hs path mv (cs @ [c]))"
    if "in_update q hs path mv (cs @ [?body])" for q
  proof (cases "is_end_of_file c")
    case True
    let ?ended = "\<lparr>change_context = change_context c, old_lines = old_lines c,
        new_lines = new_lines c, is_end_of_file = True\<rparr>"
    have "\<not> chunk_is_empty ?body" using assms(3) by (simp add: expressible_chunk_def chunk_is_empty_def)
    with eof_line [OF that] have "yields [EOF_MARKER] q (\<lambda>q. in_update q hs path mv (cs @ [?ended]))"
      by (simp add: chunk_open_upd)
    moreover have "?ended = c" using True by (cases c) simp
    ultimately have "yields [EOF_MARKER] q (\<lambda>q. in_update q hs path mv (cs @ [c]))" by (simp only:)
    with True show ?thesis by simp
  next
    case False
    then have "?body = c" by (cases c) simp
    with that False show ?thesis by (simp add: yields_Nil)
  qed
  have "case change_context c of None \<Rightarrow> True | Some x \<Rightarrow> clean_name x"
    using assms(3) by (simp add: expressible_chunk_def)
  note ctx = context_line [OF assms(1,2) this]
  show ?thesis
    unfolding render_chunk_def
    by (rule yields_Cons [OF ctx], rule yields_append [OF minus_lines],
        assumption, simp add: empty_chunk_def, rule yields_append [OF plus_lines],
        assumption, simp add: empty_chunk_def, rule tail, simp add: empty_chunk_def)
qed

lemma yields_chunks:
  "in_update p hs path mv cs \<Longrightarrow> list_all (\<lambda>c. \<not> chunk_is_empty c) cs \<Longrightarrow> list_all expressible_chunk ds \<Longrightarrow>
     yields (concat (map render_chunk ds)) p (\<lambda>q. in_update q hs path mv (cs @ ds))"
proof (induction ds arbitrary: p cs)
  case (Cons d ds)
  have "yields (concat (map render_chunk ds)) q (\<lambda>q. in_update q hs path mv (cs @ d # ds))"
    if "in_update q hs path mv (cs @ [d])" for q
    using Cons.IH [OF that] Cons.prems by (simp add: expressible_chunk_def)
  with yields_chunk [OF Cons.prems(1,2), of d] Cons.prems(3) show ?case
    by (simp add: yields_append)
qed (simp add: yields_Nil)

subsection \<open>Hunks and patches\<close>

lemma move_line:
  assumes "in_update p hs path None []" and "clean_name d"
  shows "yields [MOVE_TO_MARKER @ d] p (\<lambda>q. in_update q hs path (Some d) [])"
proof (rule process_update_line [OF assms(1)])
  show "update_hunk_line (MOVE_TO_MARKER @ d) None [] = Ok (Some d, [])"
    unfolding update_hunk_line_def trim_end_marked(4) [OF assms(2)] by simp
qed (simp add: trim_end_marked(4) [OF assms(2)] no_header)

lemma expressible_wf: "expressible h \<Longrightarrow> wf_hunk h"
  by (cases h) (auto simp: list_all_iff expressible_chunk_def)

lemma concat_split_lines:
  assumes "last (split_on NL c) = []"
  shows "concat (map (\<lambda>l. l @ [NL]) (butlast (split_on NL c))) = c"
proof -
  have "concat (map (\<lambda>l. l @ [d]) xs) = join_with [d] (xs @ [[]])" for xs :: "rstr list" and d
    by (induction xs) (auto simp: join_with_Cons)
  then have "concat (map (\<lambda>l. l @ [NL]) (butlast (split_on NL c))) =
      join_with [NL] (butlast (split_on NL c) @ [last (split_on NL c)])"
    using assms by simp
  also have "\<dots> = c" by (simp add: join_split_on del: assms)
  finally show ?thesis .
qed

lemma yields_hunk:
  assumes "at_state p m hs" and "open_mode m" and "list_all wf_hunk hs" and "expressible h"
  shows "yields (render_hunk h) p (\<lambda>q. \<exists>m'. open_mode m' \<and> at_state q m' (hs @ [h]))"
proof (cases h)
  case (AddFile path contents)
  with assms(4) have ok: "clean_name path" "last (split_on NL contents) = []" by simp_all
  have "yields (map (\<lambda>l. CHR ''+'' # l) (butlast (split_on NL contents))) q
      (\<lambda>q. \<exists>m'. open_mode m' \<and> at_state q m' (hs @ [h]))"
    if "at_state q AddFileMode (hs @ [AddFile path []])" for q
    using yields_add_lines [OF that, of "butlast (split_on NL contents)"] AddFile
    by (auto simp: concat_split_lines [OF ok(2)] yields_def open_mode_def)
  with AddFile process_marked(1) [OF assms(1-3) ok(1)] show ?thesis by (simp add: yields_Cons)
next
  case (DeleteFile path)
  with process_marked(2) [OF assms(1-3)] assms(4) show ?thesis
    by (fastforce simp: yields_def open_mode_def)
next
  case (UpdateFile path mv cs)
  have chunks: "yields (concat (map render_chunk cs)) q (\<lambda>q. \<exists>m'. open_mode m' \<and> at_state q m' (hs @ [h]))"
    if "in_update q hs path mv []" for q
    using yields_chunks [OF that] UpdateFile assms(4)
    by (fastforce simp: yields_def in_update_def open_mode_def)
  have body: "yields ((case mv of None \<Rightarrow> [] | Some d \<Rightarrow> [MOVE_TO_MARKER @ d]) @ concat (map render_chunk cs)) q
      (\<lambda>q. \<exists>m'. open_mode m' \<and> at_state q m' (hs @ [h]))"
    if "\<exists>n. at_state q (UpdateFileMode n) (hs @ [UpdateFile path None []])" for q
  proof (cases mv)
    case None
    with chunks that show ?thesis by (simp add: in_update_def)
  next
    case (Some d)
    with assms(4) UpdateFile have "clean_name d" by simp
    with move_line [of q hs path d] that Some chunks show ?thesis
      by (auto simp: in_update_def intro: yields_Cons)
  qed
  from assms(4) UpdateFile have "clean_name path" by simp
  from yields_Cons [OF process_marked(3) [OF assms(1-3) this] body] UpdateFile show ?thesis by simp
qed

lemma yields_hunks:
  "at_state p m hs \<Longrightarrow> open_mode m \<Longrightarrow> list_all wf_hunk hs \<Longrightarrow> list_all expressible gs \<Longrightarrow>
     yields (concat (map render_hunk gs)) p (\<lambda>q. \<exists>m'. open_mode m' \<and> at_state q m' (hs @ gs))"
proof (induction gs arbitrary: p m hs)
  case (Cons g gs)
  have "yields (concat (map render_hunk gs)) q (\<lambda>q. \<exists>m'. open_mode m' \<and> at_state q m' (hs @ g # gs))"
    if "\<exists>m'. open_mode m' \<and> at_state q m' (hs @ [g])" for q
    using that Cons.IH [of q _ "hs @ [g]"] Cons.prems by (auto simp: expressible_wf)
  with yields_hunk [OF Cons.prems(1-3), of g] Cons.prems(4) show ?case by (simp add: yields_append)
qed (auto simp: yields_def)

lemma clean_line_simps:
  "clean_line (c # l) \<longleftrightarrow> c \<noteq> NL \<and> clean_line l" if "c \<noteq> CR"
  using that by (cases l rule: rev_cases)
    (auto simp: clean_line_def strip_cr_def strip_suffix_def split: option.splits if_splits)

lemma strip_cr_id: "l = [] \<or> last l \<noteq> CR \<Longrightarrow> strip_cr l = l"
  by (cases l rule: rev_cases) (auto simp: strip_cr_def strip_suffix_def)

lemma clean_line_last: "NL \<notin> set l \<Longrightarrow> l = [] \<or> last l \<noteq> CR \<Longrightarrow> clean_line l"
  by (simp add: clean_line_def strip_cr_id)

lemma clean_plain: "clean_line BEGIN_PATCH_MARKER" "clean_line END_PATCH_MARKER" "clean_line EOF_MARKER"
    "clean_line EMPTY_CHANGE_CONTEXT_MARKER"
  by (rule clean_line_last; simp add: marker_defs NL_def CR_def)+

lemma clean_marked:
  assumes "clean_line s"
  shows "clean_line (ADD_FILE_MARKER @ s)" "clean_line (DELETE_FILE_MARKER @ s)"
    "clean_line (UPDATE_FILE_MARKER @ s)" "clean_line (MOVE_TO_MARKER @ s)"
    "clean_line (CHANGE_CONTEXT_MARKER @ s)" "clean_line (CHR ''+'' # s)" "clean_line (CHR ''-'' # s)"
  using assms by (simp_all add: marker_defs clean_line_simps NL_def CR_def)

lemma clean_render_chunk: "expressible_chunk c \<Longrightarrow> list_all clean_line (render_chunk c)"
  by (auto simp: render_chunk_def expressible_chunk_def list_all_iff clean_marked clean_plain clean_name_line
      split: option.splits)

lemma clean_render_hunk: "expressible h \<Longrightarrow> list_all clean_line (render_hunk h)"
  using clean_render_chunk
  by (cases h) (fastforce simp: list_all_iff clean_marked clean_name_line split: option.splits)+

lemma clean_render_lines:
  "list_all expressible hs \<Longrightarrow> list_all clean_line (render_lines hs)"
  using clean_render_hunk by (fastforce simp: render_lines_def list_all_iff clean_plain)

lemma lines_of_render:
  assumes "list_all expressible hs"
  shows "str_lines (render_patch hs) = render_lines hs"
proof -
  note clean = clean_render_lines [OF assms]
  have "split_on NL (render_patch hs) = render_lines hs"
    unfolding render_patch_def
    by (rule split_join) (use clean in \<open>auto simp: render_lines_def list_all_iff clean_line_def\<close>)
  moreover have "map strip_cr (butlast (render_lines hs)) = butlast (render_lines hs)"
    using clean by (auto simp: list_all_iff clean_line_def intro!: map_idI dest: in_set_butlastD)
  ultimately show ?thesis
    by (simp add: str_lines_def Let_def) (simp add: render_lines_def marker_defs)
qed

lemma join_feed_form:
  "join_with [NL] (ls @ [l]) = concat (map (\<lambda>l. l @ [NL]) ls) @ l"
  by (induction ls) (auto simp: join_with_Cons)

lemma trim_render: "trim (render_patch hs) = render_patch hs"
proof -
  have "render_patch hs = concat (map (\<lambda>l. l @ [NL]) (BEGIN_PATCH_MARKER # concat (map render_hunk hs)))
      @ END_PATCH_MARKER"
    using join_feed_form [of "BEGIN_PATCH_MARKER # concat (map render_hunk hs)" END_PATCH_MARKER]
    by (simp only: render_patch_def render_lines_def append_Cons append_Nil)
  then obtain r where r: "render_patch hs = CHR ''*'' # r @ ''h''"
    by (simp add: marker_defs)
  then have "trim_end (render_patch hs) = render_patch hs" by (simp add: trim_end_def)
  with r show ?thesis by (simp add: trim_def trim_start_Cons)
qed

lemma parse_rendered:
  assumes "list_all expressible hs"
  shows "parse_patch (render_patch hs) =
    Ok \<lparr>patch = render_patch hs, args_hunks = hs, workdir = None, args_environment_id = None\<rparr>"
proof -
  let ?body = "BEGIN_PATCH_MARKER # concat (map render_hunk hs)"
  have lines: "render_lines hs = ?body @ [END_PATCH_MARKER]" by (simp add: render_lines_def)
  have start: "yields [BEGIN_PATCH_MARKER] default_parser (\<lambda>q. at_state q StartedPatch [])"
    by (simp add: yields_def process_line_def default_parser_def trim_plain at_state_def set_mode_def)
  have "yields ?body default_parser (\<lambda>q. \<exists>m'. open_mode m' \<and> at_state q m' hs)"
  proof (rule yields_Cons [OF start])
    show "yields (concat (map render_hunk hs)) q (\<lambda>q. \<exists>m'. open_mode m' \<and> at_state q m' hs)"
      if "at_state q StartedPatch []" for q
      using yields_hunks [OF that _ _ assms] by (simp add: open_mode_def)
  qed
  then obtain p m where p: "feed ?body default_parser = Ok p" "at_state p m hs"
    by (auto simp: yields_def)
  have clean: "list_all clean_line ?body" "NL \<notin> set END_PATCH_MARKER"
    using clean_render_lines [OF assms] by (auto simp: lines clean_line_def)
  have "push_delta_loop (render_patch hs) default_parser = push_delta_loop END_PATCH_MARKER p"
    unfolding render_patch_def lines join_feed_form
    using push_feed [OF _ clean(1) p(1)] by (simp add: default_parser_def)
  also have "\<dots> = (p\<lparr>line_buffer := END_PATCH_MARKER\<rparr>, None)"
    using push_line [OF clean(2), of "[]" p] p(2) by (simp add: at_state_def)
  finally have push: "push_delta default_parser (render_patch hs) = (p\<lparr>line_buffer := END_PATCH_MARKER\<rparr>, Ok hs)"
    using p(2) by (simp add: push_delta_def at_state_def)
  have wf: "list_all wf_hunk hs" using assms expressible_wf by (auto simp: list_all_iff)
  have "END_PATCH_MARKER \<noteq> []" by (simp add: marker_defs)
  then have fin: "parser_finish (p\<lparr>line_buffer := END_PATCH_MARKER\<rparr>) =
      (set_mode EndedPatch (p\<lparr>line_buffer := [], line_number := line_number p + 1\<rparr>), Ok hs)"
    using p(2) wf by (simp add: parser_finish_def trim_plain ensure_ok at_state_def)
  have "check_patch_boundaries_lenient (render_lines hs) = Ok (render_lines hs)"
    by (simp add: check_patch_boundaries_lenient_def check_patch_boundaries_strict_def
        check_start_and_end_lines_strict_def render_lines_def trim_plain last_opt_def)
  with push fin p(2) show ?thesis
    by (simp add: parse_patch_def parse_patch_text_def PARSE_IN_STRICT_MODE_def trim_render
        lines_of_render [OF assms] at_state_def render_patch_def [symmetric] Let_def)
qed

end
