(* ===== verification/Utf8.thy ===== *)
theory Utf8
  imports Rust_Str
begin

text \<open>
  Validation of UTF-8 as Rust's \<open>std::str::from_utf8\<close> does it: the length of the longest
  valid prefix, and for what follows it either nothing, a character cut off by the end of the
  input (\<open>error_len\<close> is \<open>None\<close>) or a malformed sequence with its length. The facts say how
  validity splits at character boundaries; slicing a Rust string anywhere else panics, so they
  carry the absence of such panics. Standard library, so no source lines.
\<close>

section \<open>Validation\<close>

definition is_cont :: "char \<Rightarrow> bool" where
  "is_cont c = (128 \<le> (of_char c :: nat) \<and> (of_char c :: nat) < 192)"

definition utf8_width :: "char \<Rightarrow> nat" where
  "utf8_width c =
     (let b = of_char c :: nat
      in if b < 128 then 1 else if b < 194 then 0 else if b < 224 then 2
         else if b < 240 then 3 else if b < 245 then 4 else 0)"

text \<open>The second byte excludes overlong forms, surrogates and values beyond U+10FFFF.\<close>

definition second_ok :: "char \<Rightarrow> char \<Rightarrow> bool" where
  "second_ok c d =
     (let b = of_char c :: nat; e = of_char d :: nat
      in is_cont d \<and> (b = 224 \<longrightarrow> 160 \<le> e) \<and> (b = 237 \<longrightarrow> e < 160) \<and>
         (b = 240 \<longrightarrow> 144 \<le> e) \<and> (b = 244 \<longrightarrow> e < 144))"

datatype utf8_step = Complete nat | Truncated | Malformed nat

fun utf8_tail :: "nat \<Rightarrow> nat \<Rightarrow> rstr \<Rightarrow> utf8_step" where
  "utf8_tail n 0 cs = Complete n"
| "utf8_tail n (Suc k) [] = Truncated"
| "utf8_tail n (Suc k) (c # cs) = (if is_cont c then utf8_tail (Suc n) k cs else Malformed n)"

text \<open>The first character of a byte string, by its width or by how it fails.\<close>

fun utf8_char :: "rstr \<Rightarrow> utf8_step" where
  "utf8_char [] = Truncated"
| "utf8_char (c # cs) =
     (if utf8_width c = 0 then Malformed 1
      else if utf8_width c = 1 then Complete 1
      else case cs of [] \<Rightarrow> Truncated
           | d # ds \<Rightarrow> if second_ok c d then utf8_tail 2 (utf8_width c - 2) ds else Malformed 1)"

lemma second_ok_cont: "second_ok c d \<Longrightarrow> is_cont d"
  by (simp add: second_ok_def Let_def)

lemma utf8_tail_Complete:
  "utf8_tail n k cs = Complete m \<longleftrightarrow> m = n + k \<and> k \<le> length cs \<and> list_all is_cont (take k cs)"
  by (induction n k cs rule: utf8_tail.induct) auto

lemma utf8_tail_append: "utf8_tail n k xs \<noteq> Truncated \<Longrightarrow> utf8_tail n k (xs @ ys) = utf8_tail n k xs"
  by (induction n k xs rule: utf8_tail.induct) auto

lemma utf8_char_append: "utf8_char xs \<noteq> Truncated \<Longrightarrow> utf8_char (xs @ ys) = utf8_char xs"
  by (cases xs) (auto split: list.splits if_splits simp: utf8_tail_append)

lemma utf8_char_width: "utf8_char (c # cs) = Complete n \<Longrightarrow> n = utf8_width c"
  by (auto split: if_splits list.splits simp: utf8_tail_Complete)

lemma utf8_char_Complete:
  assumes "utf8_char s = Complete n"
  shows "0 < n" and "n \<le> length s" and "s \<noteq> []" and "\<not> is_cont (s ! 0)"
    and "list_all is_cont (take (n - 1) (tl s))"
proof -
  obtain c cs where s: "s = c # cs" using assms by (cases s) auto
  have n: "n = utf8_width c" using assms s utf8_char_width by blast
  have w: "utf8_width c \<noteq> 0" using assms s by (auto split: if_splits)
  show "0 < n" "s \<noteq> []" using n w s by auto
  show "n \<le> length s" "list_all is_cont (take (n - 1) (tl s))"
    using assms s n
    by (auto split: if_splits list.splits simp: utf8_tail_Complete take_Cons' numeral_2_eq_2 dest: second_ok_cont)
  show "\<not> is_cont (s ! 0)"
    using w s by (auto simp: utf8_width_def is_cont_def Let_def split: if_splits)
qed

lemmas utf8_char_pos = utf8_char_Complete(1,2)

function valid_prefix :: "rstr \<Rightarrow> nat" where
  "valid_prefix s = (case utf8_char s of Complete n \<Rightarrow> n + valid_prefix (drop n s) | _ \<Rightarrow> 0)"
  by auto
termination
  by (relation "measure length") (use utf8_char_pos in \<open>fastforce+\<close>)

declare valid_prefix.simps [simp del]

record utf8_error =
  valid_up_to :: nat
  error_len :: "nat option"

definition from_utf8 :: "rstr \<Rightarrow> (utf8_error, rstr) result" where
  "from_utf8 s =
     (let v = valid_prefix s
      in if v = length s then Ok s
         else Err \<lparr>valid_up_to = v,
                   error_len = (case utf8_char (drop v s) of Malformed k \<Rightarrow> Some k | _ \<Rightarrow> None)\<rparr>)"

definition valid_utf8 :: "rstr \<Rightarrow> bool" where
  "valid_utf8 s = (valid_prefix s = length s)"

section \<open>Facts\<close>

lemma valid_prefix_Nil [simp]: "valid_prefix [] = 0"
  by (simp add: valid_prefix.simps)

lemma valid_utf8_Nil [simp]: "valid_utf8 []"
  by (simp add: valid_utf8_def)

lemma valid_prefix_le: "valid_prefix s \<le> length s"
proof (induction s rule: valid_prefix.induct)
  case (1 s)
  then show ?case
    using utf8_char_pos [of s]
    by (subst valid_prefix.simps) (auto split: utf8_step.splits)
qed

lemma valid_utf8_rec:
  "s \<noteq> [] \<Longrightarrow> valid_utf8 s \<longleftrightarrow> (\<exists>n. utf8_char s = Complete n \<and> valid_utf8 (drop n s))"
  unfolding valid_utf8_def using utf8_char_pos [of s]
  by (subst valid_prefix.simps) (auto split: utf8_step.splits)

lemma valid_utf8_induct [consumes 1, case_names Nil Char]:
  assumes "valid_utf8 s" and "P []"
    and "\<And>s n. utf8_char s = Complete n \<Longrightarrow> valid_utf8 (drop n s) \<Longrightarrow> P (drop n s) \<Longrightarrow> P s"
  shows "P s"
  using assms(1)
proof (induction s rule: length_induct)
  case (1 s)
  show ?case
  proof (cases "s = []")
    case False
    then obtain n where n: "utf8_char s = Complete n" "valid_utf8 (drop n s)"
      using 1 valid_utf8_rec by blast
    then have "length (drop n s) < length s" using utf8_char_pos [of s n] by simp
    with n show ?thesis using 1 assms(3) by blast
  qed (use assms in simp)
qed

text \<open>A valid string in front only shifts what follows it.\<close>

lemma valid_prefix_append: "valid_utf8 a \<Longrightarrow> valid_prefix (a @ b) = length a + valid_prefix b"
proof (induction rule: valid_utf8_induct)
  case (Char s n)
  have "utf8_char (s @ b) = Complete n" using Char.hyps utf8_char_append [of s b] by simp
  then have "valid_prefix (s @ b) = n + valid_prefix (drop n s @ b)"
    using utf8_char_pos [OF Char.hyps(1)] by (subst valid_prefix.simps) simp
  then show ?case using Char.IH utf8_char_pos [OF Char.hyps(1)] by simp
qed simp

lemma valid_utf8_append_iff: "valid_utf8 a \<Longrightarrow> valid_utf8 (a @ b) \<longleftrightarrow> valid_utf8 b"
  by (simp add: valid_utf8_def valid_prefix_append)

lemma valid_utf8_append [intro]: "valid_utf8 a \<Longrightarrow> valid_utf8 b \<Longrightarrow> valid_utf8 (a @ b)"
  by (simp add: valid_utf8_append_iff)

lemma valid_utf8_concat: "list_all valid_utf8 cs \<Longrightarrow> valid_utf8 (concat cs)"
  by (induction cs) auto

lemma valid_utf8_char_take:
  assumes "utf8_char s = Complete n"
  shows "valid_utf8 (take n s)"
proof -
  have "utf8_char (take n s) = Complete n"
    using assms utf8_char_pos [OF assms] utf8_char_Complete(5) [OF assms]
    by (cases s) (auto split: if_splits list.splits simp: utf8_tail_Complete take_Cons')
  then show ?thesis
    using utf8_char_pos [OF assms] valid_utf8_rec [of "take n s"] by (cases "s = []") auto
qed

lemma valid_utf8_take_prefix: "valid_utf8 (take (valid_prefix s) s)"
proof (induction s rule: valid_prefix.induct)
  case (1 s)
  show ?case
  proof (cases "utf8_char s")
    case (Complete n)
    have vp: "valid_prefix s = n + valid_prefix (drop n s)"
      using Complete by (subst valid_prefix.simps) simp
    have "valid_utf8 (take n s)" by (rule valid_utf8_char_take [OF Complete])
    moreover have "take (valid_prefix s) s = take n s @ take (valid_prefix (drop n s)) (drop n s)"
      unfolding vp by (simp add: take_add)
    ultimately show ?thesis using 1 [OF Complete] by auto
  qed (subst valid_prefix.simps, simp)+
qed

lemma utf8_char_after_prefix:
  "valid_prefix s < length s \<Longrightarrow> utf8_char (drop (valid_prefix s) s) = Complete n \<Longrightarrow> False"
proof (induction s rule: valid_prefix.induct)
  case (1 s)
  show ?case
  proof (cases "utf8_char s")
    case (Complete m)
    then have "valid_prefix s = m + valid_prefix (drop m s)" by (subst valid_prefix.simps) simp
    then show ?thesis
      using 1 Complete by (auto simp: add.commute less_diff_conv)
  qed (use 1 in \<open>auto simp: valid_prefix.simps [of s]\<close>)
qed

lemma from_utf8_Ok_iff: "from_utf8 s = Ok t \<longleftrightarrow> t = s \<and> valid_utf8 s"
  by (auto simp: from_utf8_def valid_utf8_def Let_def)

text \<open>The widths used to walk over the characters agree with validation.\<close>

lemma utf8_width_char_width: "utf8_width c \<noteq> 0 \<Longrightarrow> utf8_width c = char_width c"
  by (auto simp: utf8_width_def char_width_def Let_def split: if_splits)

lemma utf8_char_char_width: "utf8_char (c # cs) = Complete n \<Longrightarrow> n = char_width c"
  using utf8_char_width utf8_char_pos(1) utf8_width_char_width by (metis less_numeral_extra(3))

lemma valid_utf8_shape: "valid_utf8 s \<Longrightarrow> utf8_shape s"
proof (induction rule: valid_utf8_induct)
  case (Char s n)
  obtain c cs where s: "s = c # cs" using utf8_char_Complete(3) [OF Char.hyps(1)] by (cases s) auto
  have "n = char_width c" using utf8_char_char_width Char.hyps(1) s by blast
  then show ?case
    using utf8_char_pos [OF Char.hyps(1)] Char.IH by (auto simp: s drop_Cons' le_diff_conv)
qed simp

text \<open>A valid string can be cut in front of every byte that is not a continuation byte.\<close>

lemma valid_utf8_split:
  assumes "valid_utf8 s" and "k < length s" and "\<not> is_cont (s ! k)"
  shows "valid_utf8 (take k s) \<and> valid_utf8 (drop k s)"
  using assms
proof (induction arbitrary: k rule: valid_utf8_induct)
  case (Char s n)
  note pos = utf8_char_pos [OF Char.hyps(1)]
  have valid: "valid_utf8 s" using Char.hyps pos valid_utf8_rec [of s] by fastforce
  show ?case
  proof (cases "k < n")
    case True
    have "k = 0"
    proof (rule ccontr)
      assume "k \<noteq> 0"
      then have "is_cont (take (n - 1) (tl s) ! (k - 1))"
        using utf8_char_Complete(5) [OF Char.hyps(1)] True Char.prems pos
        by (simp add: list_all_length)
      then show False using Char.prems True \<open>k \<noteq> 0\<close> by (simp add: nth_tl)
    qed
    then show ?thesis using valid by simp
  next
    case False
    have vn: "valid_utf8 (take n s)"
      by (rule valid_utf8_char_take [OF Char.hyps(1)])
    have "valid_utf8 (take (k - n) (drop n s)) \<and> valid_utf8 (drop (k - n) (drop n s))"
      using Char.IH [of "k - n"] Char.prems False pos by simp
    moreover have "take k s = take n s @ take (k - n) (drop n s)" "drop k s = drop (k - n) (drop n s)"
      using False by (metis le_add_diff_inverse not_le take_add) (use False in simp)
    ultimately show ?thesis using vn by auto
  qed
qed simp

lemma valid_utf8_hd: "valid_utf8 s \<Longrightarrow> s \<noteq> [] \<Longrightarrow> \<not> is_cont (s ! 0)"
  using valid_utf8_rec utf8_char_Complete(4) by blast

text \<open>Wherever a valid non-empty string occurs in a valid string, it starts and ends at a boundary.\<close>

lemma valid_utf8_occurrence:
  assumes "valid_utf8 (a @ n @ b)" and "valid_utf8 n" and "n \<noteq> []"
  shows "valid_utf8 a" and "valid_utf8 b"
proof -
  have "\<not> is_cont ((a @ n @ b) ! length a)"
    using valid_utf8_hd [OF assms(2,3)] assms(3) by (simp add: nth_append)
  then have "valid_utf8 a \<and> valid_utf8 (n @ b)"
    using valid_utf8_split [OF assms(1), of "length a"] assms(3) by simp
  then show "valid_utf8 a" "valid_utf8 b" using valid_utf8_append_iff [OF assms(2)] by auto
qed

lemma valid_utf8_cut:
  assumes "valid_utf8 (a @ p)" and "valid_utf8 (p @ q)" and "p \<noteq> []"
  shows "valid_utf8 a" and "valid_utf8 p"
proof -
  have "\<not> is_cont ((a @ p) ! length a)"
    using valid_utf8_hd [OF assms(2)] assms(3) by (simp add: nth_append)
  then show "valid_utf8 a" "valid_utf8 p"
    using valid_utf8_split [OF assms(1), of "length a"] assms(3) by auto
qed

lemma valid_utf8_boundary:
  assumes "valid_utf8 (p @ q)" and "valid_utf8 p"
  shows "is_char_boundary (p @ q) (length p)"
proof (cases "q = []")
  case False
  have "\<not> is_cont (q ! 0)"
    using assms valid_utf8_append_iff valid_utf8_hd False by blast
  then show ?thesis
    using False by (simp add: is_char_boundary_def is_cont_def nth_append)
qed (simp add: is_char_boundary_def)

section \<open>Trimming, character by character\<close>

definition one_char :: "rstr \<Rightarrow> bool" where
  "one_char c \<longleftrightarrow> utf8_char c = Complete (length c)"

lemma one_char_ne: "one_char c \<Longrightarrow> c \<noteq> []"
  by (auto simp: one_char_def)

lemma one_char_valid: "one_char c \<Longrightarrow> valid_utf8 c"
  using valid_utf8_char_take [of c "length c"] by (simp add: one_char_def)

lemma one_char_cont:
  assumes "one_char c" and "i < length c"
  shows "is_cont (c ! i) \<longleftrightarrow> 0 < i"
proof (cases i)
  case 0
  then show ?thesis using utf8_char_Complete(4) assms(1) by (simp add: one_char_def)
next
  case (Suc j)
  then have "is_cont (take (length c - 1) (tl c) ! j)"
    using utf8_char_Complete(5) [of c "length c"] assms by (simp add: one_char_def list_all_length)
  then show ?thesis using Suc assms(2) by (simp add: nth_tl)
qed

lemma chars_concat:
  "list_all one_char cs \<Longrightarrow> chars (concat cs) = cs"
proof (induction cs)
  case (Cons c cs)
  obtain d ds where c: "c = d # ds" using Cons.prems one_char_ne by (cases c) auto
  have "char_width d = length c" using Cons.prems c utf8_char_char_width by (auto simp: one_char_def simp del: utf8_char.simps)
  then have "chars c = [c]" by (simp add: c)
  moreover have "utf8_shape c" using Cons.prems one_char_valid valid_utf8_shape by simp
  ultimately show ?case using Cons by (simp add: chars_append)
qed simp

lemma valid_utf8_chars: "valid_utf8 s \<Longrightarrow> list_all one_char (chars s)"
proof (induction rule: valid_utf8_induct)
  case (Char s n)
  have valid: "valid_utf8 (take n s)" by (rule valid_utf8_char_take [OF Char.hyps(1)])
  have n: "length (take n s) = n" using utf8_char_pos [OF Char.hyps(1)] by simp
  then have "one_char (take n s)"
    using valid utf8_char_pos [OF Char.hyps(1)] Char.hyps(1)
      utf8_char_append [of "take n s" "drop n s"] valid_utf8_rec [of "take n s"]
    by (cases "s = []") (auto simp: one_char_def)
  then have "chars s = take n s # chars (drop n s)"
    using chars_concat [of "[take n s]"] chars_append [OF valid_utf8_shape [OF valid], of "drop n s"] by simp
  then show ?case using Char.IH \<open>one_char (take n s)\<close> by simp
qed simp

lemma valid_utf8_concat_chars: "list_all one_char cs \<Longrightarrow> valid_utf8 (concat cs)"
  using valid_utf8_concat one_char_valid by (simp add: list_all_iff)

lemma white_space_chars: "list_all one_char white_space"
  by code_simp

lemma one_char_prefix:
  assumes "one_char w" and "one_char c"
  shows "prefix w (c @ r) \<longleftrightarrow> w = c"
proof
  assume pre: "prefix w (c @ r)"
  obtain x xs where w: "w = x # xs" using one_char_ne [OF assms(1)] by (cases w) auto
  obtain y ys where c: "c = y # ys" using one_char_ne [OF assms(2)] by (cases c) auto
  have "x = y" using pre w c by simp
  then have "length w = length c" using assms w c utf8_char_char_width unfolding one_char_def by metis
  then show "w = c" using pre by (auto simp: prefix_def append_eq_append_conv)
qed simp

lemma one_char_suffix:
  assumes "one_char w" and "one_char c"
  shows "suffix w (r @ c) \<longleftrightarrow> w = c"
proof
  assume "suffix w (r @ c)"
  then have "suffix w c \<or> suffix c w" by (metis suffix_def suffix_same_cases)
  moreover have "u = v" if u: "one_char u" and v: "one_char v" and uv: "suffix u v" for u v
  proof -
    obtain t where t: "v = t @ u" using uv by (auto simp: suffix_def)
    have "\<not> is_cont (v ! length t)" using one_char_cont [OF u, of 0] one_char_ne [OF u] t by (simp add: nth_append)
    then show ?thesis using one_char_cont [OF v, of "length t"] one_char_ne [OF u] t by auto
  qed
  ultimately show "w = c" using assms by blast
qed (simp add: suffix_def)

lemma strip_lead_step:
  assumes "\<And>w. w \<in> set tbl \<Longrightarrow> prefix w (c @ r) \<longleftrightarrow> w = c" and "c \<noteq> []"
  shows "strip_lead tbl (c @ r) = (if c \<in> set tbl then strip_lead tbl r else c @ r)"
proof -
  obtain x xs where c: "c = x # xs" using assms(2) by (cases c) auto
  have "List.find (\<lambda>w. strip_prefix w (c @ r) \<noteq> None) tbl = List.find (\<lambda>w. w = c) tbl"
    using assms(1) by (intro find_cong) (auto simp: strip_prefix_None_iff)
  moreover have "List.find (\<lambda>w. w = c) tbl = (if c \<in> set tbl then Some c else None)"
    by (induction tbl) auto
  ultimately have "lead_width tbl (c @ r) = (if c \<in> set tbl then length c else 0)"
    by (simp add: lead_width_def)
  then show ?thesis by (simp add: c)
qed

abbreviation is_white :: "rstr \<Rightarrow> bool" where
  "is_white c \<equiv> c \<in> set white_space"

lemma trim_start_concat:
  "list_all one_char cs \<Longrightarrow> trim_start (concat cs) = concat (dropWhile is_white cs)"
proof (induction cs)
  case (Cons c cs)
  then show ?case
    using strip_lead_step [of white_space c "concat cs"] one_char_prefix white_space_chars one_char_ne
    by (auto simp: trim_start_def list_all_iff)
qed (simp add: trim_start_def)

lemma trim_end_concat:
  "list_all one_char cs \<Longrightarrow> trim_end (concat cs) = concat (rev (dropWhile is_white (rev cs)))"
proof (induction cs rule: rev_induct)
  case (snoc c cs)
  have "prefix w (rev c @ rev (concat cs)) \<longleftrightarrow> w = rev c" if w: "w \<in> set white_space_rev" for w
  proof -
    have "one_char (rev w)" using w white_space_chars by (auto simp: white_space_rev_def list_all_iff)
    then have "suffix (rev w) (concat cs @ c) \<longleftrightarrow> rev w = c" using one_char_suffix snoc.prems by simp
    then show ?thesis by (simp add: suffix_to_prefix rev_swap)
  qed
  then have "strip_lead white_space_rev (rev c @ rev (concat cs)) =
      (if rev c \<in> set white_space_rev then strip_lead white_space_rev (rev (concat cs)) else rev c @ rev (concat cs))"
    using snoc.prems one_char_ne by (intro strip_lead_step) auto
  moreover have "rev c \<in> set white_space_rev \<longleftrightarrow> is_white c" by (auto simp: white_space_rev_def)
  ultimately show ?case using snoc by (auto simp: trim_end_def)
qed simp

end
