(* ===== verification/Stream_Text.thy ===== *)
theory Stream_Text
  imports Utf8
begin

text \<open>
  The trait \<open>StreamTextParser\<close> of \<open>utils/stream-parser\<close>. A parser is pushed pieces of text
  as they arrive from the model and returns, for each piece, the text that may be shown and the
  payloads it extracted. The trait is the locale \<open>stream_text_parser\<close>: its laws say that only
  the pushed text matters and not where it was cut, and that no character is ever cut. The
  extracted payloads may be cut differently; \<open>canon\<close> is the view of them that is not affected.
\<close>

section \<open>Chunks\<close>

record 't stream_text_chunk =
  visible_text :: rstr
  extracted :: "'t list"

definition default_chunk :: "'t stream_text_chunk" where
  "default_chunk = \<lparr>visible_text = [], extracted = []\<rparr>"

definition stream_chunk_is_empty :: "'t stream_text_chunk \<Rightarrow> bool" where
  "stream_chunk_is_empty ck = (visible_text ck = [] \<and> extracted ck = [])"

definition append_chunk :: "'t stream_text_chunk \<Rightarrow> 't stream_text_chunk \<Rightarrow> 't stream_text_chunk" where
  "append_chunk c d =
     \<lparr>visible_text = visible_text c @ visible_text d, extracted = extracted c @ extracted d\<rparr>"

type_synonym ('s, 't) pusher = "'s \<Rightarrow> rstr \<Rightarrow> 's \<times> 't stream_text_chunk"

text \<open>A sequence of calls of \<open>push_str\<close>, and the same followed by \<open>finish\<close>.\<close>

fun push_all :: "('s, 't) pusher \<Rightarrow> 's \<Rightarrow> rstr list \<Rightarrow> 's \<times> 't stream_text_chunk" where
  "push_all push s [] = (s, default_chunk)"
| "push_all push s (c # cs) =
     (let (s1, o1) = push s c; (s2, o2) = push_all push s1 cs in (s2, append_chunk o1 o2))"

definition stream_all ::
  "('s, 't) pusher \<Rightarrow> ('s \<Rightarrow> 's \<times> 't stream_text_chunk) \<Rightarrow> 's \<Rightarrow> rstr list \<Rightarrow> 's \<times> 't stream_text_chunk" where
  "stream_all push fin s cs =
     (let (s1, o1) = push_all push s cs; (s2, o2) = fin s1 in (s2, append_chunk o1 o2))"

lemma append_chunk_simps [simp]:
  "append_chunk default_chunk d = d"
  "append_chunk d default_chunk = d"
  "append_chunk (append_chunk a b) c = append_chunk a (append_chunk b c)"
  "visible_text (append_chunk c d) = visible_text c @ visible_text d"
  "extracted (append_chunk c d) = extracted c @ extracted d"
  by (simp_all add: append_chunk_def default_chunk_def)

lemma default_chunk_simps [simp]: "visible_text default_chunk = []" "extracted default_chunk = []"
  by (simp_all add: default_chunk_def)

lemma chunk_eq_iff:
  "(c :: 't stream_text_chunk) = d \<longleftrightarrow> visible_text c = visible_text d \<and> extracted c = extracted d"
  by (cases c; cases d) simp

lemma append_chunk_cancel: "append_chunk c d = c \<Longrightarrow> d = default_chunk"
  by (simp add: chunk_eq_iff)

lemma stream_chunk_is_empty_iff [simp]: "stream_chunk_is_empty c \<longleftrightarrow> c = default_chunk"
  by (simp add: stream_chunk_is_empty_def chunk_eq_iff)

section \<open>The trait\<close>

definition chunk_view :: "('t list \<Rightarrow> 'v) \<Rightarrow> 't stream_text_chunk \<Rightarrow> rstr \<times> 'v" where
  "chunk_view canon ck = (visible_text ck, canon (extracted ck))"

locale stream_text_parser =
  fixes init :: 's
    and push_str :: "'s \<Rightarrow> rstr \<Rightarrow> 's \<times> 't stream_text_chunk"
    and finish :: "'s \<Rightarrow> 's \<times> 't stream_text_chunk"
    and inv :: "'s \<Rightarrow> bool"
    and canon :: "'t list \<Rightarrow> 'v"
  assumes inv_init: "inv init"
    and inv_push: "inv s \<Longrightarrow> valid_utf8 c \<Longrightarrow> inv (fst (push_str s c))"
    and valid_push: "inv s \<Longrightarrow> valid_utf8 c \<Longrightarrow> valid_utf8 (visible_text (snd (push_str s c)))"
    and valid_finish: "inv s \<Longrightarrow> valid_utf8 (visible_text (snd (finish s)))"
    and finish_resets: "inv s \<Longrightarrow> fst (finish s) = init"
    and push_nil: "inv s \<Longrightarrow> push_str s [] = (s, default_chunk)"
    and push_append:
      "inv s \<Longrightarrow> valid_utf8 a \<Longrightarrow> valid_utf8 b \<Longrightarrow> push_str s a = (s1, o1) \<Longrightarrow> push_str s1 b = (s2, o2) \<Longrightarrow>
        fst (push_str s (a @ b)) = s2 \<and>
        chunk_view canon (snd (push_str s (a @ b))) = chunk_view canon (append_chunk o1 o2)"
    and canon_append:
      "canon xs = canon xs' \<Longrightarrow> canon ys = canon ys' \<Longrightarrow> canon (xs @ ys) = canon (xs' @ ys')"
begin

lemma view_append:
  "chunk_view canon a = chunk_view canon a' \<Longrightarrow> chunk_view canon b = chunk_view canon b' \<Longrightarrow>
    chunk_view canon (append_chunk a b) = chunk_view canon (append_chunk a' b')"
  using canon_append [of "extracted a" "extracted a'" "extracted b" "extracted b'"]
  by (simp add: chunk_view_def)

lemma inv_push_all:
  "inv s \<Longrightarrow> list_all valid_utf8 cs \<Longrightarrow> inv (fst (push_all push_str s cs))"
  by (induction cs arbitrary: s) (auto simp: inv_push split_def Let_def)

lemma valid_push_all:
  "inv s \<Longrightarrow> list_all valid_utf8 cs \<Longrightarrow> valid_utf8 (visible_text (snd (push_all push_str s cs)))"
  by (induction cs arbitrary: s) (auto simp: inv_push valid_push split_def Let_def)

lemma push_concat:
  assumes "inv s" and "list_all valid_utf8 cs"
  shows "fst (push_str s (concat cs)) = fst (push_all push_str s cs) \<and>
    chunk_view canon (snd (push_str s (concat cs))) = chunk_view canon (snd (push_all push_str s cs))"
  using assms
proof (induction cs arbitrary: s)
  case Nil
  then show ?case by (simp add: push_nil)
next
  case (Cons c cs)
  obtain s1 o1 where 1: "push_str s c = (s1, o1)" by fastforce
  obtain s2 o2 where 2: "push_str s1 (concat cs) = (s2, o2)" by fastforce
  have inv: "inv s1" using inv_push [of s c] Cons.prems 1 by simp
  have valid: "valid_utf8 c" "valid_utf8 (concat cs)" using Cons.prems valid_utf8_concat by auto
  note IH = Cons.IH [OF inv]
  show ?case
    using push_append [OF Cons.prems(1) valid 1 2] IH 1 2 Cons.prems(2)
      view_append [of o1 o1 o2 "snd (push_all push_str s1 cs)"]
    by (simp add: split_def Let_def)
qed

text \<open>The result of a whole stream depends on the text only.\<close>

lemma stream_concat:
  assumes "inv s" and "list_all valid_utf8 cs"
  shows "fst (stream_all push_str finish s cs) = init \<and>
    chunk_view canon (snd (stream_all push_str finish s cs)) =
    chunk_view canon (snd (stream_all push_str finish s [concat cs]))"
proof -
  have eq: "fst (push_all push_str s [concat cs]) = fst (push_all push_str s cs)"
    "chunk_view canon (snd (push_all push_str s cs)) = chunk_view canon (snd (push_all push_str s [concat cs]))"
    using push_concat [OF assms] by (simp_all add: split_def Let_def)
  show ?thesis
    using eq view_append [OF eq(2) refl] finish_resets [OF inv_push_all [OF assms]]
    by (simp add: stream_all_def split_def Let_def)
qed

lemma stream_cuts:
  assumes "list_all valid_utf8 cs" and "list_all valid_utf8 ds" and "concat cs = concat ds"
  shows "chunk_view canon (snd (stream_all push_str finish init cs)) =
    chunk_view canon (snd (stream_all push_str finish init ds))"
  using stream_concat [OF inv_init assms(1)] stream_concat [OF inv_init assms(2)] assms(3) by simp

lemma stream_valid:
  assumes "list_all valid_utf8 cs"
  shows "valid_utf8 (visible_text (snd (stream_all push_str finish init cs)))"
  using valid_push_all [OF inv_init assms] valid_finish [OF inv_push_all [OF inv_init assms]]
  by (auto simp: stream_all_def split_def Let_def)

end

end
