(* ===== verification/Utf8_Stream.thy ===== *)
theory Utf8_Stream
  imports Stream_Text
begin

text \<open>
  \<open>utils/stream-parser/src/utf8_stream.rs\<close>: the wrapper that accepts bytes and gives a stream
  parser only complete characters. It is generic in the wrapped parser, so its operations take
  \<open>push_str\<close> and \<open>finish\<close> of it, and its facts are proved once in the locale of the trait.
\<close>

section \<open>Data and operations\<close>

datatype utf8_stream_parser_error =
  InvalidUtf8 (err_valid_up_to: nat) (err_error_len: nat)
| IncompleteUtf8AtEof

record 's utf8_stream_parser =
  utf8_inner :: 's
  pending_utf8 :: rstr

definition utf8_new :: "'s \<Rightarrow> 's utf8_stream_parser" where
  "utf8_new inner = \<lparr>utf8_inner = inner, pending_utf8 = []\<rparr>"

definition push_bytes ::
  "('s, 't) pusher \<Rightarrow> 's utf8_stream_parser \<Rightarrow> rstr
    \<Rightarrow> 's utf8_stream_parser \<times> (utf8_stream_parser_error, 't stream_text_chunk) result" where
  "push_bytes push p chunk =
     (let old_len = length (pending_utf8 p); p = p\<lparr>pending_utf8 := pending_utf8 p @ chunk\<rparr>
      in case from_utf8 (pending_utf8 p) of
           Ok t \<Rightarrow>
             let (i, out) = push (utf8_inner p) t in (p\<lparr>utf8_inner := i, pending_utf8 := []\<rparr>, Ok out)
         | Err err \<Rightarrow>
             (case error_len err of
                Some n \<Rightarrow>
                  (p\<lparr>pending_utf8 := take old_len (pending_utf8 p)\<rparr>, Err (InvalidUtf8 (valid_up_to err) n))
              | None \<Rightarrow>
                  if valid_up_to err = 0 then (p, Ok default_chunk)
                  else (case from_utf8 (take (valid_up_to err) (pending_utf8 p)) of
                          Ok t \<Rightarrow>
                            let (i, out) = push (utf8_inner p) t
                            in (p\<lparr>utf8_inner := i, pending_utf8 := drop (valid_up_to err) (pending_utf8 p)\<rparr>, Ok out)
                        | Err prefix_err \<Rightarrow>
                            (p\<lparr>pending_utf8 := take old_len (pending_utf8 p)\<rparr>,
                             Err (InvalidUtf8 (valid_up_to prefix_err)
                               (case error_len prefix_err of Some n \<Rightarrow> n | None \<Rightarrow> 0))))))"

definition check_pending :: "rstr \<Rightarrow> utf8_stream_parser_error option" where
  "check_pending pend =
     (case from_utf8 pend of
        Ok _ \<Rightarrow> None
      | Err err \<Rightarrow> (case error_len err of
                    Some n \<Rightarrow> Some (InvalidUtf8 (valid_up_to err) n)
                  | None \<Rightarrow> Some IncompleteUtf8AtEof))"

definition utf8_finish ::
  "('s, 't) pusher \<Rightarrow> ('s \<Rightarrow> 's \<times> 't stream_text_chunk) \<Rightarrow> 's utf8_stream_parser
    \<Rightarrow> 's utf8_stream_parser \<times> (utf8_stream_parser_error, 't stream_text_chunk) result" where
  "utf8_finish push fin p =
     (case (if pending_utf8 p \<noteq> [] then check_pending (pending_utf8 p) else None) of
        Some e \<Rightarrow> (p, Err e)
      | None \<Rightarrow>
          (case (if pending_utf8 p = [] then Ok (p, default_chunk)
                 else (case from_utf8 (pending_utf8 p) of
                         Ok t \<Rightarrow>
                           let (i, out) = push (utf8_inner p) t
                           in Ok (p\<lparr>utf8_inner := i, pending_utf8 := []\<rparr>, out)
                       | Err err \<Rightarrow> Err (InvalidUtf8 (valid_up_to err)
                           (case error_len err of Some n \<Rightarrow> n | None \<Rightarrow> 0)))) of
             Err e \<Rightarrow> (p, Err e)
           | Ok (p, out) \<Rightarrow>
               let (i, tail) = fin (utf8_inner p) in (p\<lparr>utf8_inner := i\<rparr>, Ok (append_chunk out tail))))"

definition into_inner :: "'s utf8_stream_parser \<Rightarrow> (utf8_stream_parser_error, 's) result" where
  "into_inner p =
     (if pending_utf8 p = [] then Ok (utf8_inner p)
      else case check_pending (pending_utf8 p) of None \<Rightarrow> Ok (utf8_inner p) | Some e \<Rightarrow> Err e)"

definition into_inner_lossy :: "'s utf8_stream_parser \<Rightarrow> 's" where
  "into_inner_lossy p = utf8_inner p"

text \<open>A sequence of chunks; the first error ends it.\<close>

fun push_bytes_all ::
  "('s, 't) pusher \<Rightarrow> 's utf8_stream_parser \<Rightarrow> rstr list
    \<Rightarrow> 's utf8_stream_parser \<times> (utf8_stream_parser_error, 't stream_text_chunk) result" where
  "push_bytes_all push p [] = (p, Ok default_chunk)"
| "push_bytes_all push p (c # cs) =
     (case push_bytes push p c of
        (p1, Err e) \<Rightarrow> (p1, Err e)
      | (p1, Ok o1) \<Rightarrow>
          (case push_bytes_all push p1 cs of
             (p2, Err e) \<Rightarrow> (p2, Err e)
           | (p2, Ok o2) \<Rightarrow> (p2, Ok (append_chunk o1 o2))))"

definition stream_bytes ::
  "('s, 't) pusher \<Rightarrow> ('s \<Rightarrow> 's \<times> 't stream_text_chunk) \<Rightarrow> 's utf8_stream_parser \<Rightarrow> rstr list
    \<Rightarrow> 's utf8_stream_parser \<times> (utf8_stream_parser_error, 't stream_text_chunk) result" where
  "stream_bytes push fin p cs =
     (case push_bytes_all push p cs of
        (p1, Err e) \<Rightarrow> (p1, Err e)
      | (p1, Ok o1) \<Rightarrow>
          (case utf8_finish push fin p1 of
             (p2, Err e) \<Rightarrow> (p2, Err e)
           | (p2, Ok o2) \<Rightarrow> (p2, Ok (append_chunk o1 o2))))"

section \<open>Facts\<close>

lemma from_utf8_take_valid: "from_utf8 (take (valid_prefix s) s) = Ok (take (valid_prefix s) s)"
  using valid_utf8_take_prefix from_utf8_Ok_iff by blast

text \<open>A chunk that is refused leaves no trace.\<close>

lemma push_bytes_rollback: "push_bytes push p c = (p', Err e) \<Longrightarrow> p' = p"
  by (auto simp: push_bytes_def Let_def split: sum.splits option.splits if_splits prod.splits)

text \<open>A chunk is accepted exactly if what follows the longest valid prefix is not malformed.\<close>

lemma push_bytes_accept:
  assumes "\<And>k. utf8_char (drop (valid_prefix b) b) \<noteq> Malformed k" and "b = pending_utf8 p @ c"
    and "push (utf8_inner p) [] = (utf8_inner p, default_chunk)"
  shows "push_bytes push p c =
    (let v = valid_prefix b; (i, out) = push (utf8_inner p) (take v b)
     in (\<lparr>utf8_inner = i, pending_utf8 = drop v b\<rparr>, Ok out))"
proof (cases "valid_prefix b = length b")
  case True
  then have "from_utf8 b = Ok b" by (simp add: from_utf8_Ok_iff valid_utf8_def)
  then show ?thesis using True assms(2) by (simp add: push_bytes_def Let_def split_def)
next
  case False
  then have err: "from_utf8 b = Err \<lparr>valid_up_to = valid_prefix b, error_len = None\<rparr>"
    using assms(1) by (auto simp: from_utf8_def Let_def split: utf8_step.splits)
  show ?thesis
    using err assms(2,3) from_utf8_take_valid [of b]
    by (auto simp: push_bytes_def Let_def split_def)
qed

lemma push_bytes_refuse:
  assumes "utf8_char (drop (valid_prefix b) b) = Malformed k" and "b = pending_utf8 p @ c"
  shows "push_bytes push p c = (p, Err (InvalidUtf8 (valid_prefix b) k))"
proof -
  have "valid_prefix b \<noteq> length b" using assms(1) by auto
  then have "from_utf8 b = Err \<lparr>valid_up_to = valid_prefix b, error_len = Some k\<rparr>"
    using assms(1) by (simp add: from_utf8_def Let_def)
  then show ?thesis using assms(2) by (simp add: push_bytes_def Let_def)
qed

lemma valid_prefix_shift:
  "valid_prefix (b @ c) = valid_prefix b + valid_prefix (drop (valid_prefix b) b @ c)"
proof -
  have "valid_prefix (take (valid_prefix b) b @ (drop (valid_prefix b) b @ c)) =
      length (take (valid_prefix b) b) + valid_prefix (drop (valid_prefix b) b @ c)"
    by (rule valid_prefix_append [OF valid_utf8_take_prefix])
  then show ?thesis using valid_prefix_le [of b] by (simp add: append_assoc [symmetric] del: append_assoc)
qed

text \<open>A piece of a valid text is never malformed.\<close>

lemma prefix_not_malformed:
  assumes "valid_utf8 (b @ z)"
  shows "utf8_char (drop (valid_prefix b) b) \<noteq> Malformed k"
proof
  assume bad: "utf8_char (drop (valid_prefix b) b) = Malformed k"
  then have "utf8_char (drop (valid_prefix b) b @ z) = Malformed k" by (simp add: utf8_char_append)
  then have "valid_prefix (b @ z) = valid_prefix b"
    by (simp add: valid_prefix_shift [of b z]) (subst valid_prefix.simps, simp)
  moreover have "valid_prefix b \<noteq> length b" using bad by auto
  ultimately show False using assms valid_prefix_le [of b] by (simp add: valid_utf8_def)
qed

context stream_text_parser
begin

text \<open>After the bytes \<open>b\<close>, the wrapped parser has seen their longest valid prefix.\<close>

lemma push_bytes_all_valid:
  assumes "valid_utf8 (b @ concat cs)"
    and "push_str init (take (valid_prefix b) b) = (s, o0)"
    and "p = \<lparr>utf8_inner = s, pending_utf8 = drop (valid_prefix b) b\<rparr>"
  shows "\<exists>s' out. push_bytes_all push_str p cs = (utf8_new s', Ok out) \<and>
    s' = fst (push_str init (b @ concat cs)) \<and>
    chunk_view canon (append_chunk o0 out) = chunk_view canon (snd (push_str init (b @ concat cs)))"
  using assms
proof (induction cs arbitrary: b s o0 p)
  case Nil
  then show ?case by (auto simp: valid_utf8_def utf8_new_def)
next
  case (Cons c cs)
  let ?v = "valid_prefix b" and ?b = "drop (valid_prefix b) b @ c"
  have take_v: "take (valid_prefix (b @ c)) (b @ c) = take ?v b @ take (valid_prefix ?b) ?b"
    "drop (valid_prefix (b @ c)) (b @ c) = drop (valid_prefix ?b) ?b"
    using valid_prefix_shift [of b c] valid_prefix_le [of b]
      append_take_drop_id [of ?v b] by (simp_all add: take_add add.commute)
  have inv: "inv s" using inv_push [OF inv_init valid_utf8_take_prefix, of b] Cons.prems(2) by simp
  have "utf8_char (drop (valid_prefix ?b) ?b) \<noteq> Malformed k" for k
    using prefix_not_malformed [of "b @ c" "concat cs"] Cons.prems(1) take_v(2) by simp
  note acc = push_bytes_accept [OF this, of p c push_str]
  obtain s1 o1 where 1: "push_str s (take (valid_prefix ?b) ?b) = (s1, o1)" by fastforce
  have push: "push_bytes push_str p c = (\<lparr>utf8_inner = s1, pending_utf8 = drop (valid_prefix ?b) ?b\<rparr>, Ok o1)"
    using acc push_nil [OF inv] 1 Cons.prems(3) by (simp add: Let_def)
  note app = push_append [OF inv_init valid_utf8_take_prefix valid_utf8_take_prefix Cons.prems(2) 1]
  obtain o01 where o01: "push_str init (take (valid_prefix (b @ c)) (b @ c)) = (s1, o01)"
    "chunk_view canon o01 = chunk_view canon (append_chunk o0 o1)"
    using app unfolding take_v(1) by (metis prod.collapse)
  obtain s' out where IH: "push_bytes_all push_str \<lparr>utf8_inner = s1, pending_utf8 = drop (valid_prefix ?b) ?b\<rparr> cs =
      (utf8_new s', Ok out)" "s' = fst (push_str init ((b @ c) @ concat cs))"
    "chunk_view canon (append_chunk o01 out) = chunk_view canon (snd (push_str init ((b @ c) @ concat cs)))"
    using Cons.IH [OF _ o01(1) refl] Cons.prems(1) take_v(2) by auto
  show ?case
    using IH push view_append [OF o01(2) refl, of out] by (simp add: Let_def)
qed

text \<open>The bytes of a valid text, however they are cut, are all accepted and give what the text gives.\<close>

lemma stream_bytes_valid:
  assumes "valid_utf8 (concat cs)"
  shows "\<exists>out. stream_bytes push_str finish (utf8_new init) cs = (utf8_new init, Ok out) \<and>
    chunk_view canon out = chunk_view canon (snd (stream_all push_str finish init [concat cs]))"
proof -
  have start: "push_str init (take (valid_prefix []) []) = (init, default_chunk)"
    by (simp add: push_nil [OF inv_init])
  obtain out where all: "push_bytes_all push_str (utf8_new init) cs =
      (utf8_new (fst (push_str init (concat cs))), Ok out)"
    "chunk_view canon out = chunk_view canon (snd (push_str init (concat cs)))"
    using push_bytes_all_valid [of "[]" cs, OF _ start] assms by (auto simp: utf8_new_def)
  have reset: "fst (finish (fst (push_str init (concat cs)))) = init"
    by (rule finish_resets [OF inv_push [OF inv_init assms]])
  show ?thesis
    using all reset view_append [OF all(2) refl, of "snd (finish (fst (push_str init (concat cs))))"]
    by (simp add: stream_bytes_def stream_all_def utf8_finish_def utf8_new_def split_def Let_def)
qed

end

end
