(* ===== verification/Inline_Hidden_Tag.thy ===== *)
theory Inline_Hidden_Tag
  imports Utf8_Stream
begin

text \<open>
  \<open>utils/stream-parser/src/inline_hidden_tag.rs\<close>: the streaming parser that hides inline tags
  and extracts their contents. The text not yet decided is kept in \<open>pending\<close>, at most a proper
  prefix of a delimiter. The facts: what is kept is the longest such prefix, and pushing a text
  in pieces gives the same state and the same output as pushing it at once, provided no opening
  delimiter occurs inside another.
\<close>

section \<open>Data\<close>

record 'a extracted_inline_tag =
  ext_tag :: 'a
  ext_content :: rstr

record 'a inline_tag_spec =
  spec_tag :: 'a
  spec_open :: rstr
  spec_close :: rstr

record 'a active_tag =
  active_tag :: 'a
  active_close :: rstr
  active_content :: rstr

record 'a inline_hidden_tag_parser =
  specs :: "'a inline_tag_spec list"
  pending :: rstr
  active :: "'a active_tag option"

text \<open>The assertions of \<open>new\<close> are the panic \<open>None\<close>.\<close>

definition new_inline_parser :: "'a inline_tag_spec list \<Rightarrow> 'a inline_hidden_tag_parser option" where
  "new_inline_parser sps =
     (if sps = [] then None
      else if \<not> list_all (\<lambda>sp. spec_open sp \<noteq> [] \<and> spec_close sp \<noteq> []) sps then None
      else Some \<lparr>specs = sps, pending = [], active = None\<rparr>)"

section \<open>Operations\<close>

text \<open>\<open>Iterator::min_by\<close>: the first of the least elements.\<close>

fun min_by :: "('b \<Rightarrow> 'b \<Rightarrow> bool) \<Rightarrow> 'b list \<Rightarrow> 'b option" where
  "min_by lt [] = None"
| "min_by lt (x # xs) = Some (fold (\<lambda>y m. if lt y m then y else m) xs x)"

fun opener_before :: "nat \<times> nat \<times> nat \<Rightarrow> nat \<times> nat \<times> nat \<Rightarrow> bool" where
  "opener_before (pos_a, len_a, idx_a) (pos_b, len_b, idx_b) =
     (pos_a < pos_b \<or> pos_a = pos_b \<and> (len_b < len_a \<or> len_b = len_a \<and> idx_a < idx_b))"

definition open_candidates :: "'a inline_tag_spec list \<Rightarrow> rstr \<Rightarrow> (nat \<times> nat \<times> nat) list" where
  "open_candidates sps pend =
     List.map_filter
       (\<lambda>(idx, sp). map_option (\<lambda>pos. (pos, length (spec_open sp), idx)) (find_sub (spec_open sp) pend))
       (List.enumerate 0 sps)"

definition find_next_open :: "'a inline_tag_spec list \<Rightarrow> rstr \<Rightarrow> (nat \<times> nat) option" where
  "find_next_open sps pend =
     map_option (\<lambda>(pos, _, idx). (pos, idx)) (min_by opener_before (open_candidates sps pend))"

definition longest_suffix_prefix_len :: "rstr \<Rightarrow> rstr \<Rightarrow> nat" where
  "longest_suffix_prefix_len s needle =
     (let mx = min (length s) (length needle - 1)
      in case List.find (\<lambda>k. is_char_boundary needle k \<and> ends_with s (take k needle)) (rev [1..<Suc mx]) of
           Some k \<Rightarrow> k
         | None \<Rightarrow> 0)"

definition max_open_prefix_suffix_len :: "'a inline_tag_spec list \<Rightarrow> rstr \<Rightarrow> nat" where
  "max_open_prefix_suffix_len sps pend =
     fold max (map (\<lambda>sp. longest_suffix_prefix_len pend (spec_open sp)) sps) 0"

definition push_visible_prefix ::
  "'t stream_text_chunk \<Rightarrow> rstr \<Rightarrow> 't stream_text_chunk" where
  "push_visible_prefix out t = (if t = [] then out else out\<lparr>visible_text := visible_text out @ t\<rparr>)"

definition drain_visible_to_suffix_match ::
  "rstr \<Rightarrow> 't stream_text_chunk \<Rightarrow> nat \<Rightarrow> rstr \<times> 't stream_text_chunk" where
  "drain_visible_to_suffix_match pend out keep =
     (let n = length pend - keep
      in if n = 0 then (pend, out) else (drop n pend, push_visible_prefix out (take n pend)))"

text \<open>
  The loop of \<open>push_str\<close>. Every turn drains a delimiter, which \<open>new\<close> asserts not to be empty;
  the tests \<open>0 < n\<close> make the recursion well-founded and hold for every parser \<open>new\<close> returns
  (\<open>tag_loop_open\<close>, \<open>tag_loop_close\<close>).
\<close>

function tag_loop ::
  "'a inline_tag_spec list \<Rightarrow> 'a active_tag option \<Rightarrow> rstr \<Rightarrow> 'a extracted_inline_tag stream_text_chunk
    \<Rightarrow> 'a active_tag option \<times> rstr \<times> 'a extracted_inline_tag stream_text_chunk" where
  "tag_loop sps (Some act) pend out =
     (case find_sub (active_close act) pend of
        Some close_idx \<Rightarrow>
          let n = close_idx + length (active_close act);
              out' = out\<lparr>extracted := extracted out @
                 [\<lparr>ext_tag = active_tag act, ext_content = active_content act @ take close_idx pend\<rparr>]\<rparr>
          in if 0 < n then tag_loop sps None (drop n pend) out' else (None, pend, out')
      | None \<Rightarrow>
          let keep = longest_suffix_prefix_len pend (active_close act); n = length pend - keep
          in if 0 < n
             then (Some (act\<lparr>active_content := active_content act @ take n pend\<rparr>), drop n pend, out)
             else (Some act, pend, out))"
| "tag_loop sps None pend out =
     (case find_next_open sps pend of
        Some (open_idx, spec_idx) \<Rightarrow>
          let sp = sps ! spec_idx; n = open_idx + length (spec_open sp);
              out' = push_visible_prefix out (take open_idx pend);
              act = \<lparr>active_tag = spec_tag sp, active_close = spec_close sp, active_content = []\<rparr>
          in if 0 < n then tag_loop sps (Some act) (drop n pend) out' else (Some act, pend, out')
      | None \<Rightarrow>
          let (pend', out') = drain_visible_to_suffix_match pend out (max_open_prefix_suffix_len sps pend)
          in (None, pend', out'))"
  by pat_completeness auto

definition inline_push_str :: "('a inline_hidden_tag_parser, 'a extracted_inline_tag) pusher" where
  "inline_push_str p chunk =
     (let (act, pend, out) = tag_loop (specs p) (active p) (pending p @ chunk) default_chunk
      in (p\<lparr>pending := pend, active := act\<rparr>, out))"

definition inline_finish ::
  "'a inline_hidden_tag_parser \<Rightarrow> 'a inline_hidden_tag_parser \<times> 'a extracted_inline_tag stream_text_chunk" where
  "inline_finish p =
     (case active p of
        Some act \<Rightarrow>
          (p\<lparr>active := None, pending := []\<rparr>,
           default_chunk\<lparr>extracted :=
             [\<lparr>ext_tag = active_tag act, ext_content = active_content act @ pending p\<rparr>]\<rparr>)
      | None \<Rightarrow> (p\<lparr>pending := []\<rparr>, default_chunk\<lparr>visible_text := pending p\<rparr>))"

section \<open>The next opening delimiter\<close>

lemma opener_before_total: "x = y \<or> opener_before x y \<or> opener_before y x"
  by (cases x; cases y) auto

lemma opener_before_trans: "opener_before x y \<Longrightarrow> opener_before y z \<Longrightarrow> opener_before x z"
  by (cases x; cases y; cases z) auto

lemma opener_before_irrefl: "\<not> opener_before x x"
  by (cases x) auto

lemma fold_min_by:
  "x = fold (\<lambda>y m. if opener_before y m then y else m) xs a \<longleftrightarrow>
    x \<in> set (a # xs) \<and> (\<forall>y \<in> set (a # xs). y = x \<or> opener_before x y)"
proof (induction xs arbitrary: a)
  case Nil
  then show ?case by auto
next
  case (Cons b xs)
  show ?case
    using opener_before_total [of a b] opener_before_trans opener_before_irrefl
    by (auto simp: Cons.IH) (metis opener_before_trans opener_before_irrefl)+
qed

lemma min_by_Some_iff:
  "min_by opener_before xs = Some x \<longleftrightarrow> x \<in> set xs \<and> (\<forall>y \<in> set xs. y = x \<or> opener_before x y)"
proof (cases xs)
  case (Cons a ys)
  then show ?thesis using fold_min_by [of x ys a] by auto
qed simp

lemma min_by_None_iff: "min_by lt xs = None \<longleftrightarrow> xs = []"
  by (cases xs) auto

lemma open_candidates_iff:
  "(i, l, k) \<in> set (open_candidates sps p) \<longleftrightarrow>
    k < length sps \<and> l = length (spec_open (sps ! k)) \<and> find_sub (spec_open (sps ! k)) p = Some i"
  by (auto simp: open_candidates_def List.map_filter_def in_set_enumerate_eq image_iff
      split: option.splits intro!: bexI [of _ "(k, sps ! k)"])

lemma find_next_open_Some_iff:
  "find_next_open sps p = Some (i, k) \<longleftrightarrow>
    k < length sps \<and> find_sub (spec_open (sps ! k)) p = Some i \<and>
    (\<forall>j k'. k' < length sps \<and> find_sub (spec_open (sps ! k')) p = Some j \<longrightarrow>
       k' = k \<or> opener_before (i, length (spec_open (sps ! k)), k) (j, length (spec_open (sps ! k')), k'))"
proof -
  have "find_next_open sps p = Some (i, k) \<longleftrightarrow> (\<exists>l. min_by opener_before (open_candidates sps p) = Some (i, l, k))"
    by (auto simp: find_next_open_def)
  then show ?thesis
    unfolding min_by_Some_iff
    by (auto simp: open_candidates_iff Ball_def simp del: opener_before.simps) (metis option.inject)
qed

lemma find_next_open_bound:
  "find_next_open sps p = Some (i, k) \<Longrightarrow> i + length (spec_open (sps ! k)) \<le> length p"
  by (auto simp: find_next_open_Some_iff dest: find_sub_bound)

termination tag_loop
  by (relation "measure (\<lambda>(_, _, p, _). length p)")
     (auto dest!: find_sub_bound find_next_open_bound simp: neq_Nil_conv)

lemma find_next_open_None_iff:
  "find_next_open sps p = None \<longleftrightarrow> (\<forall>sp \<in> set sps. find_sub (spec_open sp) p = None)"
proof
  assume "find_next_open sps p = None"
  then have none: "open_candidates sps p = []" by (simp add: find_next_open_def min_by_None_iff)
  have "find_sub (spec_open (sps ! k)) p = None" if "k < length sps" for k
    using that open_candidates_iff [of _ _ k sps p] none by (metis empty_iff empty_set not_None_eq)
  then show "\<forall>sp \<in> set sps. find_sub (spec_open sp) p = None" by (simp add: all_set_conv_all_nth)
next
  assume all: "\<forall>sp \<in> set sps. find_sub (spec_open sp) p = None"
  have "x \<notin> set (open_candidates sps p)" for x
    using all by (cases x) (auto simp: open_candidates_iff)
  then have "open_candidates sps p = []" by (meson last_in_set)
  then show "find_next_open sps p = None" by (simp add: find_next_open_def)
qed

section \<open>Overlaps of a text with a delimiter\<close>

text \<open>The last \<open>k\<close> bytes of \<open>s\<close> are a proper prefix of \<open>d\<close>.\<close>

definition overlap :: "rstr \<Rightarrow> rstr \<Rightarrow> nat \<Rightarrow> bool" where
  "overlap s d k \<longleftrightarrow> k \<le> length s \<and> k < length d \<and> drop (length s - k) s = take k d"

lemma find_rev_upt_Some:
  "List.find P (rev [a..<b]) = Some i \<Longrightarrow> a \<le> i \<and> i < b \<and> P i \<and> (\<forall>j. i < j \<and> j < b \<longrightarrow> \<not> P j)"
  by (induction b) (auto split: if_splits simp: less_Suc_eq)

lemma find_rev_upt_None: "List.find P (rev [a..<b]) = None \<longleftrightarrow> (\<forall>j. a \<le> j \<and> j < b \<longrightarrow> \<not> P j)"
  by (induction b) (auto simp: less_Suc_eq)

lemma overlap_boundary:
  assumes "valid_utf8 s" and "valid_utf8 d" and "overlap s d k"
  shows "valid_utf8 (take k d)" and "valid_utf8 (take (length s - k) s)" and "is_char_boundary d k"
proof -
  have s: "valid_utf8 (take (length s - k) s @ take k d)"
    using assms(1,3) by (metis append_take_drop_id overlap_def)
  have d: "valid_utf8 (take k d @ drop k d)" using assms(2) by simp
  have k: "length (take k d) = k" using assms(3) by (simp add: overlap_def)
  show both: "valid_utf8 (take k d)" "valid_utf8 (take (length s - k) s)"
    using valid_utf8_cut [OF s d] assms(1) by (cases "take k d = []"; use assms(3) in \<open>auto simp: overlap_def\<close>)+
  show "is_char_boundary d k"
    using valid_utf8_boundary [OF d both(1)] k by simp
qed

lemma overlap_ends_with: "1 \<le> k \<Longrightarrow> k \<le> length s \<Longrightarrow> k < length d \<Longrightarrow> ends_with s (take k d) \<longleftrightarrow> overlap s d k"
  by (auto simp: ends_with_iff overlap_def suffix_def) (metis append_take_drop_id)

lemma longest_suffix_prefix_len_greatest:
  assumes "valid_utf8 s" and "valid_utf8 d" and "d \<noteq> []"
  shows "overlap s d (longest_suffix_prefix_len s d)"
    and "overlap s d k \<Longrightarrow> k \<le> longest_suffix_prefix_len s d"
proof -
  define P where "P = (\<lambda>k. is_char_boundary d k \<and> ends_with s (take k d))"
  define mx where "mx = min (length s) (length d - 1)"
  have P: "P k \<longleftrightarrow> overlap s d k" if "1 \<le> k" "k < Suc mx" for k
    using that overlap_ends_with [of k s d] overlap_boundary(3) [OF assms(1,2)] assms(3)
    by (cases d) (auto simp: P_def mx_def)
  have zero: "overlap s d 0" using assms(3) by (simp add: overlap_def)
  have len: "longest_suffix_prefix_len s d = (case List.find P (rev [1..<Suc mx]) of Some k \<Rightarrow> k | None \<Rightarrow> 0)"
    by (simp add: longest_suffix_prefix_len_def P_def mx_def Let_def)
  show "overlap s d (longest_suffix_prefix_len s d)"
  proof (cases "List.find P (rev [1..<Suc mx])")
    case (Some k)
    then show ?thesis using P [of k] find_rev_upt_Some [OF Some] by (simp only: len option.case)
  qed (use zero len in simp)
  show "k \<le> longest_suffix_prefix_len s d" if "overlap s d k"
  proof (cases "k = 0")
    case False
    then have k: "1 \<le> k" "k < Suc mx" using that by (auto simp: overlap_def mx_def)
    then have "P k" using P that by blast
    then show ?thesis
      using k find_rev_upt_Some [of P 1 "Suc mx"] find_rev_upt_None [of P 1 "Suc mx"]
      by (cases "List.find P (rev [1..<Suc mx])") (auto simp only: len option.case not_le [symmetric])
  qed simp
qed

lemma longest_suffix_prefix_len_eqI:
  assumes "valid_utf8 s" and "valid_utf8 t" and "valid_utf8 d" and "d \<noteq> []"
    and "\<And>k. overlap s d k \<longleftrightarrow> overlap t d k"
  shows "longest_suffix_prefix_len s d = longest_suffix_prefix_len t d"
  using longest_suffix_prefix_len_greatest [OF assms(1,3,4)]
    longest_suffix_prefix_len_greatest [OF assms(2-4)] assms(5) by (meson le_antisym)

text \<open>What is drained cannot take part in a delimiter that is completed by later text.\<close>

lemma overlap_drain:
  assumes "t \<le> length p" and "\<And>k. overlap p d k \<Longrightarrow> k \<le> length p - t"
  shows "overlap (p @ b) d k \<longleftrightarrow> overlap (drop t p @ b) d k"
proof
  assume o: "overlap (p @ b) d k"
  have "k \<le> length p - t + length b"
  proof (rule ccontr)
    assume big: "\<not> k \<le> length p - t + length b"
    have eq: "drop (length p + length b - k) p @ b = take k d"
      using o big by (simp add: overlap_def)
    have len: "length (drop (length p + length b - k) p) = k - length b"
      using o big by (auto simp: overlap_def)
    have "drop (length p + length b - k) p = take (k - length b) (take k d)"
      using eq unfolding append_eq_conv_conj len by (rule conjunct1)
    then have "overlap p d (k - length b)"
      using o big by (auto simp: overlap_def)
    then show False using assms(2) [of "k - length b"] big by simp
  qed
  then show "overlap (drop t p @ b) d k"
    using o assms(1) by (auto simp: overlap_def drop_append)
next
  assume "overlap (drop t p @ b) d k"
  then show "overlap (p @ b) d k"
    using assms(1) by (auto simp: overlap_def drop_append)
qed

lemma find_sub_skip:
  "(\<And>j. j < length x \<Longrightarrow> \<not> prefix d (drop j (x @ y))) \<Longrightarrow>
    find_sub d (x @ y) = map_option ((+) (length x)) (find_sub d y)"
proof (induction x)
  case Nil
  then show ?case by (cases "find_sub d y") auto
next
  case (Cons c x)
  have "find_sub d (x @ y) = map_option ((+) (length x)) (find_sub d y)"
    using Cons.IH Cons.prems [of "Suc j" for j] by simp
  moreover have "\<not> prefix d (c # x @ y)" using Cons.prems [of 0] by simp
  ultimately show ?case by (simp add: strip_prefix_None_iff option.map_comp comp_def)
qed

lemma find_sub_drain:
  assumes "find_sub d p = None" and "t \<le> length p" and "\<And>k. overlap p d k \<Longrightarrow> k \<le> length p - t"
  shows "find_sub d (p @ b) = map_option ((+) t) (find_sub d (drop t p @ b))"
proof -
  have "\<not> prefix d (drop j (p @ b))" if "j < t" for j
  proof
    assume occ: "prefix d (drop j (p @ b))"
    have "\<not> prefix d (drop j p)" using assms(1,2) that by (auto simp: find_sub_None_iff)
    with occ have "prefix (drop j p) d" "drop j p \<noteq> d"
      using that assms(2) prefix_same_cases [of "drop j p" "drop j p @ b" d] by auto
    then have "overlap p d (length p - j)"
      using that assms(2) by (auto simp: overlap_def prefix_def less_diff_conv)
    then show False using assms(2,3) that by force
  qed
  then have "find_sub d (take t p @ (drop t p @ b)) =
      map_option ((+) (length (take t p))) (find_sub d (drop t p @ b))"
    using assms(2) by (intro find_sub_skip) (simp add: append_assoc [symmetric] del: append_assoc)
  then show ?thesis using assms(2) by (simp add: append_assoc [symmetric] del: append_assoc)
qed

lemma find_sub_extend:
  assumes "find_sub d p = Some i"
  shows "find_sub d (p @ b) = Some i"
proof -
  have i: "i \<le> length p" "prefix d (drop i p)" "\<And>j. j < i \<Longrightarrow> \<not> prefix d (drop j p)" "i + length d \<le> length p"
    using assms find_sub_bound [OF assms] by (auto simp: find_sub_Some_iff)
  have "\<not> prefix d (drop j (p @ b))" if "j < i" for j
    using i(3) [OF that] i(4) that prefix_length_prefix [of d "drop j p @ b" "drop j p"] by fastforce
  then show ?thesis using i(1,2) by (auto simp: find_sub_Some_iff)
qed

section \<open>The loop\<close>

declare tag_loop.simps [simp del]

definition hidden_tag :: "'a active_tag \<Rightarrow> rstr \<Rightarrow> 'a extracted_inline_tag stream_text_chunk" where
  "hidden_tag act body =
     \<lparr>visible_text = [], extracted = [\<lparr>ext_tag = active_tag act, ext_content = active_content act @ body\<rparr>]\<rparr>"

definition shown_text :: "rstr \<Rightarrow> 't stream_text_chunk" where
  "shown_text t = \<lparr>visible_text = t, extracted = []\<rparr>"

definition activate :: "'a inline_tag_spec \<Rightarrow> 'a active_tag" where
  "activate sp = \<lparr>active_tag = spec_tag sp, active_close = spec_close sp, active_content = []\<rparr>"

definition gather :: "'a active_tag \<Rightarrow> rstr \<Rightarrow> 'a active_tag" where
  "gather act t = act\<lparr>active_content := active_content act @ t\<rparr>"

lemma gather_simps [simp]:
  "active_close (gather act t) = active_close act"
  "gather (gather act t) u = gather act (t @ u)" "gather act [] = act"
  "hidden_tag (gather act t) u = hidden_tag act (t @ u)"
  by (simp_all add: gather_def hidden_tag_def)

lemma shown_text_simps [simp]:
  "append_chunk (shown_text t) (shown_text u) = shown_text (t @ u)" "shown_text [] = default_chunk"
  "visible_text (shown_text t) = t"
  by (simp_all add: shown_text_def chunk_eq_iff)

lemma push_visible_prefix_shown: "push_visible_prefix out t = append_chunk out (shown_text t)"
  by (simp add: push_visible_prefix_def shown_text_def chunk_eq_iff)

lemma append_hidden_tag:
  "append_chunk out (hidden_tag act body) = out\<lparr>extracted := extracted out @
     [\<lparr>ext_tag = active_tag act, ext_content = active_content act @ body\<rparr>]\<rparr>"
  by (simp add: chunk_eq_iff hidden_tag_def)

text \<open>One turn of the loop, for non-empty delimiters.\<close>

lemma tag_loop_close:
  "find_sub (active_close act) p = Some i \<Longrightarrow> active_close act \<noteq> [] \<Longrightarrow>
    tag_loop sps (Some act) p out =
    tag_loop sps None (drop (i + length (active_close act)) p) (append_chunk out (hidden_tag act (take i p)))"
  by (simp add: tag_loop.simps(1) append_hidden_tag Let_def)

lemma tag_loop_inside:
  "find_sub (active_close act) p = None \<Longrightarrow> n = length p - longest_suffix_prefix_len p (active_close act) \<Longrightarrow>
    tag_loop sps (Some act) p out = (Some (gather act (take n p)), drop n p, out)"
  by (auto simp: tag_loop.simps(1) gather_def Let_def)

lemma tag_loop_open:
  "find_next_open sps p = Some (i, k) \<Longrightarrow> spec_open (sps ! k) \<noteq> [] \<Longrightarrow>
    tag_loop sps None p out =
    tag_loop sps (Some (activate (sps ! k))) (drop (i + length (spec_open (sps ! k))) p)
      (append_chunk out (shown_text (take i p)))"
  by (simp add: tag_loop.simps(2) activate_def push_visible_prefix_shown Let_def)

lemma tag_loop_outside:
  "find_next_open sps p = None \<Longrightarrow> n = length p - max_open_prefix_suffix_len sps p \<Longrightarrow>
    tag_loop sps None p out = (None, drop n p, append_chunk out (shown_text (take n p)))"
  by (auto simp: tag_loop.simps(2) drain_visible_to_suffix_match_def push_visible_prefix_shown Let_def)

lemmas tag_loop_turns = tag_loop_close tag_loop_inside tag_loop_open tag_loop_outside

section \<open>Cutting the input\<close>

text \<open>
  What \<open>new\<close> asserts, that the delimiters are Rust strings, and that no opening delimiter
  occurs in another one (else the shorter is recognised as soon as it has arrived).
\<close>

definition wf_specs :: "'a inline_tag_spec list \<Rightarrow> bool" where
  "wf_specs sps \<longleftrightarrow> sps \<noteq> [] \<and>
     list_all (\<lambda>sp. spec_open sp \<noteq> [] \<and> spec_close sp \<noteq> [] \<and>
       valid_utf8 (spec_open sp) \<and> valid_utf8 (spec_close sp)) sps \<and>
     list_all (\<lambda>sp. list_all (\<lambda>sp'. find_sub (spec_open sp) (spec_open sp') \<noteq> None \<longrightarrow>
       spec_open sp = spec_open sp') sps) sps"

definition wf_active :: "'a active_tag option \<Rightarrow> bool" where
  "wf_active act = (case act of None \<Rightarrow> True
     | Some a \<Rightarrow> active_close a \<noteq> [] \<and> valid_utf8 (active_close a) \<and> valid_utf8 (active_content a))"

lemma wf_active_simps [simp]:
  "wf_active None"
  "valid_utf8 t \<Longrightarrow> wf_active (Some act) \<Longrightarrow> wf_active (Some (gather act t))"
  by (auto simp: wf_active_def gather_def)

text \<open>Nothing that leaves the parser cuts a character.\<close>

definition valid_output :: "'a extracted_inline_tag stream_text_chunk \<Rightarrow> bool" where
  "valid_output out = (valid_utf8 (visible_text out) \<and> list_all (\<lambda>x. valid_utf8 (ext_content x)) (extracted out))"

lemma valid_output_visible: "valid_output out \<Longrightarrow> valid_utf8 (visible_text out)"
  by (simp add: valid_output_def)

lemma valid_output_simps [simp]:
  "valid_output default_chunk"
  "valid_output out \<Longrightarrow> valid_utf8 t \<Longrightarrow> valid_output (append_chunk out (shown_text t))"
  "valid_output out \<Longrightarrow> wf_active (Some act) \<Longrightarrow> valid_utf8 t \<Longrightarrow> valid_output (append_chunk out (hidden_tag act t))"
  by (auto simp: valid_output_def shown_text_def hidden_tag_def wf_active_def)

lemma wf_activate: "wf_specs sps \<Longrightarrow> k < length sps \<Longrightarrow> wf_active (Some (activate (sps ! k)))"
  by (simp add: wf_specs_def wf_active_def activate_def list_all_length)

lemma wf_specs_nth:
  "wf_specs sps \<Longrightarrow> k < length sps \<Longrightarrow> spec_open (sps ! k) \<noteq> [] \<and> valid_utf8 (spec_open (sps ! k))"
  by (simp add: wf_specs_def list_all_length)

lemma find_sub_split:
  assumes "find_sub d p = Some i"
  shows "p = take i p @ d @ drop (i + length d) p"
proof -
  obtain r where r: "drop i p = d @ r" using assms by (auto simp: find_sub_Some_iff prefix_def)
  then have "drop (length d) (drop i p) = r" by simp
  then have "drop (i + length d) p = r" by (simp add: add.commute)
  then show ?thesis using r by (metis append_take_drop_id)
qed

lemma valid_around_delimiter:
  assumes "find_sub d p = Some i" and "valid_utf8 p" and "valid_utf8 d" and "d \<noteq> []"
  shows "valid_utf8 (take i p)" and "valid_utf8 (drop (i + length d) p)"
  using valid_utf8_occurrence [of "take i p" d "drop (i + length d) p"] find_sub_split [OF assms(1)] assms
  by auto

lemma fold_max_iff: "fold max xs (a :: nat) \<le> n \<longleftrightarrow> a \<le> n \<and> (\<forall>x \<in> set xs. x \<le> n)"
  by (induction xs arbitrary: a) auto

lemma fold_max_mem: "fold max xs (a :: nat) \<in> set (a # xs)"
proof (induction xs arbitrary: a)
  case (Cons x xs)
  then show ?case using Cons.IH [of "max x a"] by (auto simp: max_def split: if_splits)
qed simp

lemma max_open_ge:
  "sp \<in> set sps \<Longrightarrow> longest_suffix_prefix_len p (spec_open sp) \<le> max_open_prefix_suffix_len sps p"
  using fold_max_iff [of "map (\<lambda>sp. longest_suffix_prefix_len p (spec_open sp)) sps" 0]
  by (auto simp: max_open_prefix_suffix_len_def)

lemma max_open_cases:
  "max_open_prefix_suffix_len sps p = 0 \<or>
    (\<exists>sp \<in> set sps. max_open_prefix_suffix_len sps p = longest_suffix_prefix_len p (spec_open sp))"
  using fold_max_mem [of "map (\<lambda>sp. longest_suffix_prefix_len p (spec_open sp)) sps" 0]
  by (auto simp: max_open_prefix_suffix_len_def)

text \<open>An opening delimiter found in a text stays the next one when more text arrives.\<close>

lemma find_next_open_extend:
  assumes "wf_specs sps" and "find_next_open sps p = Some (i, k)"
  shows "find_next_open sps (p @ b) = Some (i, k)"
proof -
  let ?o = "\<lambda>k. spec_open (sps ! k)"
  have k: "k < length sps" "find_sub (?o k) p = Some i" and best:
    "\<And>j k'. k' < length sps \<Longrightarrow> find_sub (?o k') p = Some j \<Longrightarrow>
       k' = k \<or> opener_before (i, length (?o k), k) (j, length (?o k'), k')"
    using assms(2) unfolding find_next_open_Some_iff by blast+
  have "k' = k \<or> opener_before (i, length (?o k), k) (j, length (?o k'), k')"
    if k': "k' < length sps" "find_sub (?o k') (p @ b) = Some j" for j k'
  proof (cases "find_sub (?o k') p")
    case (Some j')
    then show ?thesis using best [OF k'(1) Some] find_sub_extend [OF Some, of b] k'(2) by simp
  next
    case None
    have "i < j"
    proof (rule ccontr)
      assume "\<not> i < j"
      have "\<not> prefix (?o k') (drop j p)" using None \<open>\<not> i < j\<close> find_sub_bound [OF k(2)]
        by (auto simp: find_sub_None_iff)
      moreover have "prefix (?o k') (drop j p @ drop (j - length p) b)"
        using k'(2) by (simp add: find_sub_Some_iff drop_append)
      ultimately have pre: "prefix (drop j p) (?o k')"
        using prefix_same_cases [of "drop j p" _ "?o k'"] by (metis prefixI)
      have "prefix (?o k) (drop (i - j) (drop j p))"
        using k(2) \<open>\<not> i < j\<close> by (simp add: find_sub_Some_iff)
      then have "prefix (?o k) (drop (i - j) (?o k'))"
        using pre by (auto simp: prefix_def)
      moreover have "i - j \<le> length (?o k')"
        using pre find_sub_bound [OF k(2)] by (auto dest: prefix_length_le)
      ultimately have "find_sub (?o k) (?o k') \<noteq> None" by (auto simp: find_sub_None_iff)
      then have "?o k = ?o k'" using assms(1) k(1) k'(1) by (auto simp: wf_specs_def list_all_length)
      then show False using k(2) None by simp
    qed
    then show ?thesis by simp
  qed
  then show ?thesis using k find_sub_extend [OF k(2), of b] unfolding find_next_open_Some_iff by blast
qed

text \<open>Draining text that cannot start an opening delimiter only shifts the next one.\<close>

lemma min_by_shift:
  "min_by opener_before (map (apfst ((+) t)) xs) = map_option (apfst ((+) t)) (min_by opener_before xs)"
proof -
  have "fold (\<lambda>y m. if opener_before y m then y else m) (map (apfst ((+) t)) ys) (t + i, l, k) =
      apfst ((+) t) (fold (\<lambda>y m. if opener_before y m then y else m) ys (i, l, k))" for ys i l k
    by (induction ys arbitrary: i l k) auto
  then show ?thesis by (cases xs) auto
qed

lemma cut_shift:
  "t \<le> length p \<Longrightarrow> take (t + m) (p @ b) = take t p @ take m (drop t p @ b)"
  "t \<le> length p \<Longrightarrow> drop (t + m) (p @ b) = drop m (drop t p @ b)"
proof -
  assume t: "t \<le> length p"
  have "p @ b = take t p @ (drop t p @ b)" "length (take t p) = t" using t by simp_all
  then show "take (t + m) (p @ b) = take t p @ take m (drop t p @ b)"
    "drop (t + m) (p @ b) = drop m (drop t p @ b)"
    by (metis append_eq_conv_conj take_add, metis append_eq_conv_conj drop_drop add.commute)
qed

lemma find_next_open_drain:
  assumes "find_next_open sps p = None" and "t \<le> length p"
    and "\<And>sp k. sp \<in> set sps \<Longrightarrow> overlap p (spec_open sp) k \<Longrightarrow> k \<le> length p - t"
  shows "find_next_open sps (p @ b) = map_option (apfst ((+) t)) (find_next_open sps (drop t p @ b))"
proof -
  have sub: "find_sub (spec_open sp) (p @ b) = map_option ((+) t) (find_sub (spec_open sp) (drop t p @ b))"
    if "sp \<in> set sps" for sp
    using find_sub_drain [OF _ assms(2) assms(3) [OF that]] assms(1) that
    by (auto simp: find_next_open_None_iff)
  have "open_candidates sps (p @ b) = map (apfst ((+) t)) (open_candidates sps (drop t p @ b))"
    unfolding open_candidates_def map_filter_map [symmetric]
    by (rule map_filter_cong) (auto simp: sub in_set_enumerate_eq option.map_comp comp_def)
  then show ?thesis
    unfolding find_next_open_def
    by (cases "min_by opener_before (open_candidates sps (drop t p @ b))") (auto simp: min_by_shift)
qed

lemma max_open_overlap:
  assumes "wf_specs sps" and "valid_utf8 p"
  shows "sp \<in> set sps \<Longrightarrow> overlap p (spec_open sp) k \<Longrightarrow> k \<le> max_open_prefix_suffix_len sps p"
    and "max_open_prefix_suffix_len sps p \<le> length p"
    and "valid_utf8 (take (length p - max_open_prefix_suffix_len sps p) p)"
    and "valid_utf8 (drop (length p - max_open_prefix_suffix_len sps p) p)"
proof -
  have ok: "spec_open sp \<noteq> []" "valid_utf8 (spec_open sp)" if "sp \<in> set sps" for sp
    using assms(1) that by (auto simp: wf_specs_def list_all_iff)
  show "k \<le> max_open_prefix_suffix_len sps p" if "sp \<in> set sps" "overlap p (spec_open sp) k"
    using longest_suffix_prefix_len_greatest(2) [OF assms(2) ok(2,1)] max_open_ge that le_trans by blast
  have "max_open_prefix_suffix_len sps p = 0 \<or>
      (\<exists>sp \<in> set sps. overlap p (spec_open sp) (max_open_prefix_suffix_len sps p))"
    using max_open_cases [of sps p] longest_suffix_prefix_len_greatest(1) [OF assms(2) ok(2,1)] by metis
  then have "max_open_prefix_suffix_len sps p \<le> length p \<and>
      valid_utf8 (take (length p - max_open_prefix_suffix_len sps p) p) \<and>
      valid_utf8 (drop (length p - max_open_prefix_suffix_len sps p) p)"
    using overlap_boundary [OF assms(2) ok(2)] assms(2) by (auto simp: overlap_def)
  then show "max_open_prefix_suffix_len sps p \<le> length p"
    "valid_utf8 (take (length p - max_open_prefix_suffix_len sps p) p)"
    "valid_utf8 (drop (length p - max_open_prefix_suffix_len sps p) p)" by auto
qed

lemma drain_outside:
  assumes "wf_specs sps" and "valid_utf8 p" and "valid_utf8 b" and "find_next_open sps p = None"
    and t: "t = length p - max_open_prefix_suffix_len sps p"
  shows "tag_loop sps None (p @ b) out =
    tag_loop sps None (drop t p @ b) (append_chunk out (shown_text (take t p)))"
proof -
  note mo = max_open_overlap [OF assms(1,2)]
  have tl: "t \<le> length p" and ov: "\<And>sp k. sp \<in> set sps \<Longrightarrow> overlap p (spec_open sp) k \<Longrightarrow> k \<le> length p - t"
    using mo(1,2) t by auto
  note next_open = find_next_open_drain [where b = b, OF assms(4) tl ov]
  show ?thesis
  proof (cases "find_next_open sps (drop t p @ b)")
    case None
    have "longest_suffix_prefix_len (p @ b) (spec_open sp) = longest_suffix_prefix_len (drop t p @ b) (spec_open sp)"
      if "sp \<in> set sps" for sp
      using assms(1-3) that mo(4) overlap_drain [OF tl ov [OF that]] t
      by (intro longest_suffix_prefix_len_eqI) (auto simp: wf_specs_def list_all_iff)
    then have keep: "max_open_prefix_suffix_len sps (p @ b) = max_open_prefix_suffix_len sps (drop t p @ b)"
      by (simp add: max_open_prefix_suffix_len_def cong: map_cong)
    let ?m = "length (drop t p @ b) - max_open_prefix_suffix_len sps (drop t p @ b)"
    have "valid_utf8 (drop t p @ b)" using mo(4) t assms(3) by auto
    then have m: "length (p @ b) - max_open_prefix_suffix_len sps (p @ b) = t + ?m"
      using keep tl max_open_overlap(2) [OF assms(1)] by fastforce
    have none: "find_next_open sps (p @ b) = None" using None next_open by simp
    show ?thesis
      unfolding tag_loop_outside [OF none m [symmetric]] tag_loop_outside [OF None refl] cut_shift [OF tl]
      by simp
  next
    case (Some ik)
    obtain i k where ik: "ik = (i, k)" by fastforce
    have ne: "spec_open (sps ! k) \<noteq> []"
      using Some ik assms(1) wf_specs_nth by (auto simp: find_next_open_Some_iff)
    have some: "find_next_open sps (p @ b) = Some (t + i, k)" using Some ik next_open by simp
    show ?thesis
      unfolding tag_loop_open [OF some ne] tag_loop_open [OF Some [unfolded ik] ne] add.assoc cut_shift [OF tl]
      by simp
  qed
qed

lemma drain_inside:
  assumes "wf_active (Some act)" and "valid_utf8 p" and "valid_utf8 b"
    and none: "find_sub (active_close act) p = None"
    and t: "t = length p - longest_suffix_prefix_len p (active_close act)"
  shows "tag_loop sps (Some act) (p @ b) out = tag_loop sps (Some (gather act (take t p))) (drop t p @ b) out"
    and "valid_utf8 (take t p)" and "valid_utf8 (drop t p)"
proof -
  have d: "active_close act \<noteq> []" "valid_utf8 (active_close act)" using assms(1) by (auto simp: wf_active_def)
  note greatest = longest_suffix_prefix_len_greatest [OF assms(2) d(2,1)]
  have tl: "t \<le> length p" and ov: "\<And>k. overlap p (active_close act) k \<Longrightarrow> k \<le> length p - t"
    using greatest t by (auto simp: overlap_def)
  show valid: "valid_utf8 (take t p)" "valid_utf8 (drop t p)"
    using overlap_boundary [OF assms(2) d(2) greatest(1)] greatest(1) t by (auto simp: overlap_def)
  note next_close = find_sub_drain [where b = b, OF none tl ov]
  show "tag_loop sps (Some act) (p @ b) out = tag_loop sps (Some (gather act (take t p))) (drop t p @ b) out"
  proof (cases "find_sub (active_close act) (drop t p @ b)")
    case None
    have vb: "valid_utf8 (drop t p @ b)" using valid assms(3) by auto
    have keep: "longest_suffix_prefix_len (p @ b) (active_close act) =
        longest_suffix_prefix_len (drop t p @ b) (active_close act)"
      using assms(2,3) vb d overlap_drain [OF tl ov] by (intro longest_suffix_prefix_len_eqI) auto
    let ?m = "length (drop t p @ b) - longest_suffix_prefix_len (drop t p @ b) (active_close act)"
    have m: "length (p @ b) - longest_suffix_prefix_len (p @ b) (active_close act) = t + ?m"
      using keep tl longest_suffix_prefix_len_greatest(1) [OF vb d(2,1)] by (auto simp: overlap_def)
    have none': "find_sub (active_close act) (p @ b) = None"
      "find_sub (active_close (gather act (take t p))) (drop t p @ b) = None" using None next_close by simp_all
    show ?thesis
      unfolding tag_loop_inside [OF none'(1) m [symmetric]] tag_loop_inside [OF none'(2) refl] cut_shift [OF tl]
      by simp
  next
    case (Some i)
    have some: "find_sub (active_close act) (p @ b) = Some (t + i)"
      "find_sub (active_close (gather act (take t p))) (drop t p @ b) = Some i" using Some next_close by simp_all
    have ne: "active_close (gather act (take t p)) \<noteq> []" using d(1) by simp
    show ?thesis
      unfolding tag_loop_close [OF some(1) d(1)] tag_loop_close [OF some(2) ne] add.assoc cut_shift [OF tl]
      by simp
  qed
qed

lemma tag_loop_append:
  assumes "wf_specs sps" and "wf_active act" and "valid_utf8 p" and "valid_utf8 b"
  shows "tag_loop sps act (p @ b) out = (case tag_loop sps act p out of (a, q, o') \<Rightarrow> tag_loop sps a (q @ b) o')"
  using assms
proof (induction sps act p out rule: tag_loop.induct)
  case (1 sps act p out)
  have d: "active_close act \<noteq> []" "valid_utf8 (active_close act)" using 1(3) by (auto simp: wf_active_def)
  show ?case
  proof (cases "find_sub (active_close act) p")
    case None
    then show ?thesis using drain_inside(1) [OF 1(3-5) None refl] tag_loop_inside [OF None refl] by simp
  next
    case (Some i)
    have IH: "tag_loop sps None (drop (i + length (active_close act)) p @ b) o1 =
        (case tag_loop sps None (drop (i + length (active_close act)) p) o1 of (a, q, o') \<Rightarrow> tag_loop sps a (q @ b) o')"
      if "o1 = append_chunk out (hidden_tag act (take i p))" for o1
      using 1(1) [OF Some refl _ _ 1(2)] d valid_around_delimiter(2) [OF Some 1(4) d(2,1)] 1(5) that
      by (simp add: append_hidden_tag)
    show ?thesis
      using IH find_sub_bound [OF Some] d(1)
      by (simp add: tag_loop_close [OF Some] tag_loop_close [OF find_sub_extend [OF Some]])
  qed
next
  case (2 sps p out)
  show ?case
  proof (cases "find_next_open sps p")
    case None
    then show ?thesis using drain_outside [OF 2(2,4,5) None refl] tag_loop_outside [OF None refl] by simp
  next
    case (Some ik)
    obtain i k where ik: "ik = (i, k)" by fastforce
    note some = Some [unfolded ik]
    have k: "k < length sps" "find_sub (spec_open (sps ! k)) p = Some i" using some by (auto simp: find_next_open_Some_iff)
    note d = wf_specs_nth [OF 2(2) k(1)]
    have IH: "tag_loop sps (Some (activate (sps ! k))) (drop (i + length (spec_open (sps ! k))) p @ b) o1 =
        (case tag_loop sps (Some (activate (sps ! k))) (drop (i + length (spec_open (sps ! k))) p) o1 of
           (a, q, o') \<Rightarrow> tag_loop sps a (q @ b) o')"
      if "o1 = append_chunk out (shown_text (take i p))" for o1
      using 2(1) [OF Some ik [symmetric] refl refl refl refl _ 2(2)] d valid_around_delimiter(2) [OF k(2) 2(4)] 2(5) that
        wf_activate [OF 2(2) k(1)]
      by (simp add: push_visible_prefix_shown activate_def)
    show ?thesis
      using IH find_next_open_bound [OF some] d
      by (simp add: tag_loop_open [OF some] tag_loop_open [OF find_next_open_extend [OF 2(2) some]])
  qed
qed

text \<open>The output accumulated before the loop is kept in front.\<close>

lemma tag_loop_out:
  assumes "wf_specs sps" and "wf_active act" and "valid_utf8 p"
  shows "\<exists>a q o'. valid_utf8 q \<and> wf_active a \<and> valid_output o' \<and>
    (\<forall>out. tag_loop sps act p out = (a, q, append_chunk out o'))"
  using assms
proof (induction "length p" arbitrary: act p rule: less_induct)
  case less
  show ?case
  proof (cases act)
    case None
    show ?thesis
    proof (cases "find_next_open sps p")
      case (Some ik)
      obtain i k where ik: "ik = (i, k)" by fastforce
      note some = Some [unfolded ik]
      have k: "k < length sps" "find_sub (spec_open (sps ! k)) p = Some i" using some by (auto simp: find_next_open_Some_iff)
      have d: "spec_open (sps ! k) \<noteq> []" "valid_utf8 (spec_open (sps ! k))" using wf_specs_nth [OF less.prems(1) k(1)] by auto
      note valid = valid_around_delimiter [OF k(2) less.prems(3) d(2,1)]
      obtain a q o' where IH: "valid_utf8 q" "wf_active a" "valid_output o'"
        "\<And>out. tag_loop sps (Some (activate (sps ! k))) (drop (i + length (spec_open (sps ! k))) p) out =
          (a, q, append_chunk out o')"
        using less.hyps [OF _ less.prems(1) wf_activate [OF less.prems(1) k(1)] valid(2)]
          find_sub_bound [OF k(2)] d(1) by (fastforce simp: neq_Nil_conv)
      have "valid_output (append_chunk (shown_text (take i p)) o')"
        using IH(3) valid(1) by (auto simp: valid_output_def shown_text_def)
      then show ?thesis
        using IH(1,2) unfolding None tag_loop_open [OF some d(1)] IH(4) append_chunk_simps(3) by blast
    next
      case out: None
      let ?n = "length p - max_open_prefix_suffix_len sps p"
      have "valid_output (shown_text (take ?n p))"
        using max_open_overlap(3) [OF less.prems(1,3)] by (simp add: valid_output_def shown_text_def)
      then show ?thesis
        using max_open_overlap(4) [OF less.prems(1,3)] wf_active_simps(1) tag_loop_outside [OF out refl]
        unfolding None by blast
    qed
  next
    case (Some c)
    have d: "active_close c \<noteq> []" "valid_utf8 (active_close c)" using less.prems(2) Some by (auto simp: wf_active_def)
    show ?thesis
    proof (cases "find_sub (active_close c) p")
      case None
      then show ?thesis
        using Some less.prems(2) drain_inside(2,3) [OF _ less.prems(3) valid_utf8_Nil None refl]
          valid_output_simps(1) append_chunk_simps(2) wf_active_simps(2)
        unfolding Some tag_loop_inside [OF None refl] by metis
    next
      case cl: (Some i)
      note valid = valid_around_delimiter [OF cl less.prems(3) d(2,1)]
      obtain a q o' where IH: "valid_utf8 q" "wf_active a" "valid_output o'"
        "\<And>out. tag_loop sps None (drop (i + length (active_close c)) p) out = (a, q, append_chunk out o')"
        using less.hyps [OF _ less.prems(1) wf_active_simps(1) valid(2)] find_sub_bound [OF cl] d(1)
        by (fastforce simp: neq_Nil_conv)
      have "valid_output (append_chunk (hidden_tag c (take i p)) o')"
        using IH(3) valid(1) less.prems(2) Some by (auto simp: valid_output_def hidden_tag_def wf_active_def)
      then show ?thesis
        using IH(1,2) unfolding Some tag_loop_close [OF cl d(1)] IH(4) append_chunk_simps(3) by blast
    qed
  qed
qed

section \<open>The parser implements the trait\<close>

definition inline_new :: "'a inline_tag_spec list \<Rightarrow> 'a inline_hidden_tag_parser" where
  "inline_new sps = \<lparr>specs = sps, pending = [], active = None\<rparr>"

definition inline_inv :: "'a inline_tag_spec list \<Rightarrow> 'a inline_hidden_tag_parser \<Rightarrow> bool" where
  "inline_inv sps p \<longleftrightarrow> specs p = sps \<and> wf_specs sps \<and> wf_active (active p) \<and> valid_utf8 (pending p) \<and>
     inline_push_str p [] = (p, default_chunk)"

lemma new_inline_parser_wf: "wf_specs sps \<Longrightarrow> new_inline_parser sps = Some (inline_new sps)"
  by (auto simp: new_inline_parser_def inline_new_def wf_specs_def list_all_iff)

lemma inline_push_append:
  assumes "wf_specs (specs p)" and "wf_active (active p)" and "valid_utf8 (pending p)"
    and "valid_utf8 a" and "valid_utf8 b"
    and "inline_push_str p a = (p1, o1)" and "inline_push_str p1 b = (p2, o2)"
  shows "inline_push_str p (a @ b) = (p2, append_chunk o1 o2)"
    and "specs p1 = specs p" and "wf_active (active p1)" and "valid_utf8 (pending p1)" and "valid_output o1"
proof -
  have vp: "valid_utf8 (pending p @ a)" using assms by auto
  obtain act q o' where 1: "tag_loop (specs p) (active p) (pending p @ a) default_chunk = (act, q, o')"
    "valid_utf8 q" "wf_active act" "valid_output o'"
    using tag_loop_out [OF assms(1,2) vp] by (metis append_chunk_simps(1))
  have p1: "p1 = p\<lparr>pending := q, active := act\<rparr>" "o1 = o'"
    using assms(6) 1 by (auto simp: inline_push_str_def)
  then show "specs p1 = specs p" "wf_active (active p1)" "valid_utf8 (pending p1)" "valid_output o1" using 1 by auto
  have vb: "valid_utf8 (q @ b)" using 1 assms(5) by auto
  obtain act2 q2 o2' where 2: "\<And>out. tag_loop (specs p) act (q @ b) out = (act2, q2, append_chunk out o2')"
    using tag_loop_out [OF assms(1) 1(3) vb] by metis
  show "inline_push_str p (a @ b) = (p2, append_chunk o1 o2)"
    using assms(7) p1 1(1) 2 tag_loop_append [OF assms(1,2) vp assms(5), of default_chunk]
    by (auto simp: inline_push_str_def)
qed

lemma inline_inv_push:
  assumes "inline_inv sps p" and "valid_utf8 a"
  shows "inline_inv sps (fst (inline_push_str p a))" and "valid_output (snd (inline_push_str p a))"
proof -
  have wf: "wf_specs (specs p)" "wf_active (active p)" "valid_utf8 (pending p)" "specs p = sps"
    using assms(1) by (auto simp: inline_inv_def)
  obtain p1 o1 p2 o2 where runs: "inline_push_str p a = (p1, o1)" "inline_push_str p1 [] = (p2, o2)"
    by fastforce
  note app = inline_push_append [OF wf(1-3) assms(2) valid_utf8_Nil runs]
  have "p2 = p1" using app(1) runs by simp
  moreover have "o2 = default_chunk" using app(1) runs append_chunk_cancel [of o1 o2] by simp
  ultimately
  show "inline_inv sps (fst (inline_push_str p a))" "valid_output (snd (inline_push_str p a))"
    using app(2-5) runs wf by (auto simp: inline_inv_def)
qed

lemma inline_new_inv: "wf_specs sps \<Longrightarrow> inline_inv sps (inline_new sps)"
proof -
  assume wf: "wf_specs sps"
  then have "find_next_open sps [] = None" by (auto simp: find_next_open_None_iff wf_specs_def list_all_iff)
  then show ?thesis
    using wf tag_loop_outside [of sps "[]" 0 default_chunk]
    by (simp add: inline_inv_def inline_new_def inline_push_str_def)
qed

lemma inline_finish_simps:
  assumes "inline_inv sps p"
  shows "fst (inline_finish p) = inline_new sps" and "valid_output (snd (inline_finish p))"
  using assms
  by (auto simp: inline_finish_def inline_new_def inline_inv_def valid_output_def wf_active_def split: option.splits)

lemma inline_push_nil: "inline_inv sps p \<Longrightarrow> inline_push_str p [] = (p, default_chunk)"
  by (simp add: inline_inv_def)

lemma inline_stream_text_parser:
  assumes "wf_specs sps"
  shows "stream_text_parser (inline_new sps) inline_push_str inline_finish (inline_inv sps) (\<lambda>xs. xs)"
proof
  show "inline_inv sps (inline_new sps)" by (rule inline_new_inv [OF assms])
  show "fst (inline_push_str s (a @ b)) = s2 \<and>
      chunk_view (\<lambda>xs. xs) (snd (inline_push_str s (a @ b))) = chunk_view (\<lambda>xs. xs) (append_chunk o1 o2)"
    if "inline_inv sps s" "valid_utf8 a" "valid_utf8 b" "inline_push_str s a = (s1, o1)"
      "inline_push_str s1 b = (s2, o2)" for s a b s1 o1 s2 o2
    using inline_push_append(1) [OF _ _ _ that(2-5)] that(1) by (auto simp: inline_inv_def)
qed (auto intro: inline_inv_push inline_finish_simps valid_output_visible inline_push_nil)

end
