(* ===== verification/Citation.thy ===== *)
theory Citation
  imports Inline_Hidden_Tag
begin

text \<open>
  \<open>utils/stream-parser/src/citation.rs\<close>: hiding \<open><oai-mem-citation>\<close> tags. The stream parser
  is an instance of the trait, and \<open>strip_citations\<close> computes what the relation \<open>cites\<close>
  says a text shows and cites.
\<close>

section \<open>Data and operations\<close>

datatype citation_tag = Citation

definition CITATION_OPEN :: rstr where
  "CITATION_OPEN = ''<oai-mem-citation>''"

definition CITATION_CLOSE :: rstr where
  "CITATION_CLOSE = ''</oai-mem-citation>''"

record citation_stream_parser =
  citation_inner :: "citation_tag inline_hidden_tag_parser"

definition citation_spec :: "citation_tag inline_tag_spec" where
  "citation_spec = \<lparr>spec_tag = Citation, spec_open = CITATION_OPEN, spec_close = CITATION_CLOSE\<rparr>"

text \<open>\<open>new\<close>; the assertions of the wrapped constructor hold (\<open>citation_new_ok\<close>).\<close>

definition citation_new :: citation_stream_parser where
  "citation_new = \<lparr>citation_inner = inline_new [citation_spec]\<rparr>"

definition citation_chunk ::
  "citation_tag extracted_inline_tag stream_text_chunk \<Rightarrow> rstr stream_text_chunk" where
  "citation_chunk ck = \<lparr>visible_text = visible_text ck, extracted = map ext_content (extracted ck)\<rparr>"

definition citation_push_str :: "(citation_stream_parser, rstr) pusher" where
  "citation_push_str p chunk =
     (let (i, out) = inline_push_str (citation_inner p) chunk in (p\<lparr>citation_inner := i\<rparr>, citation_chunk out))"

definition citation_finish :: "citation_stream_parser \<Rightarrow> citation_stream_parser \<times> rstr stream_text_chunk" where
  "citation_finish p =
     (let (i, out) = inline_finish (citation_inner p) in (p\<lparr>citation_inner := i\<rparr>, citation_chunk out))"

definition strip_citations :: "rstr \<Rightarrow> rstr \<times> rstr list" where
  "strip_citations t =
     (let (p, out) = citation_push_str citation_new t; (_, tail) = citation_finish p
      in (visible_text out @ visible_text tail, extracted out @ extracted tail))"

section \<open>What a text shows and cites\<close>

text \<open>\<open>t\<close> splits at the first occurrence of the delimiter \<open>d\<close>.\<close>

definition first_split :: "rstr \<Rightarrow> rstr \<Rightarrow> rstr \<Rightarrow> rstr \<Rightarrow> bool" where
  "first_split d t a b \<longleftrightarrow> t = a @ d @ b \<and> (\<forall>a' b'. t = a' @ d @ b' \<longrightarrow> length a \<le> length a')"

inductive cites :: "rstr \<Rightarrow> rstr \<Rightarrow> rstr list \<Rightarrow> bool" where
  cites_none: "\<not> sublist CITATION_OPEN t \<Longrightarrow> cites t t []"
| cites_to_end: "first_split CITATION_OPEN t a body \<Longrightarrow> \<not> sublist CITATION_CLOSE body \<Longrightarrow> cites t a [body]"
| cites_pair: "first_split CITATION_OPEN t a r \<Longrightarrow> first_split CITATION_CLOSE r body rest \<Longrightarrow> cites rest v xs \<Longrightarrow>
    cites t (a @ v) (body # xs)"

lemma occurrence_iff: "j \<le> length t \<and> prefix d (drop j t) \<longleftrightarrow> (\<exists>a b. t = a @ d @ b \<and> length a = j)"
proof
  assume "j \<le> length t \<and> prefix d (drop j t)"
  then obtain b where "t = take j t @ d @ b" "length (take j t) = j"
    by (metis append_take_drop_id length_take min.absorb2 prefixE)
  then show "\<exists>a b. t = a @ d @ b \<and> length a = j" by blast
qed auto

lemma first_split_iff: "first_split d t a b \<longleftrightarrow> find_sub d t = Some (length a) \<and> t = a @ d @ b"
proof -
  have "(\<forall>j < length a. \<not> prefix d (drop j t)) \<longleftrightarrow> (\<forall>a' b'. t = a' @ d @ b' \<longrightarrow> length a \<le> length a')"
    if t: "t = a @ d @ b"
  proof -
    have "j < length a \<Longrightarrow> prefix d (drop j t) \<longleftrightarrow> (\<exists>a' b'. t = a' @ d @ b' \<and> length a' = j)" for j
      using occurrence_iff [of j t d] t by simp
    then show ?thesis by (metis not_le)
  qed
  moreover have "t = a @ d @ b \<Longrightarrow> length a \<le> length t \<and> prefix d (drop (length a) t)" by simp
  ultimately show ?thesis unfolding first_split_def find_sub_Some_iff by blast
qed

lemma sublist_find_sub: "sublist d t \<longleftrightarrow> find_sub d t \<noteq> None"
  using occurrence_iff [of _ t d] by (simp add: sublist_def find_sub_None_iff)

lemma find_sub_first_split:
  "find_sub d t = Some i \<Longrightarrow> first_split d t (take i t) (drop (i + length d) t)"
  using find_sub_split [of d t i] find_sub_bound [of d t i] by (simp add: first_split_iff min_def)

lemma first_split_sublist: "first_split d t a b \<Longrightarrow> sublist d t"
  by (auto simp: first_split_def)

lemma first_split_unique: "first_split d t a b \<Longrightarrow> first_split d t a' b' \<Longrightarrow> a = a' \<and> b = b'"
  unfolding first_split_iff by (metis append_eq_append_conv option.inject same_append_eq)

lemma cites_deterministic: "cites t v xs \<Longrightarrow> cites t w ys \<Longrightarrow> v = w \<and> xs = ys"
proof (induction arbitrary: w ys rule: cites.induct)
  case (cites_none t)
  show ?case
    using cites_none.prems cites_none.hyps
    by (cases rule: cites.cases) (auto dest: first_split_sublist first_split_unique)
next
  case (cites_to_end t a body)
  show ?case
    using cites_to_end.prems cites_to_end.hyps
    by (cases rule: cites.cases) (auto dest: first_split_sublist first_split_unique)
next
  case (cites_pair t a r body rest v xs)
  note known = first_split_unique [OF cites_pair.hyps(1)] first_split_unique [OF cites_pair.hyps(2)]
    first_split_sublist [OF cites_pair.hyps(1)] first_split_sublist [OF cites_pair.hyps(2)]
  from cites_pair.prems show ?case
  proof (cases rule: cites.cases)
    case (cites_pair a' r' body' rest' v' xs')
    then show ?thesis using known cites_pair.IH by blast
  qed (use known in blast)+
qed

section \<open>The parser\<close>

lemma wf_citation_specs: "wf_specs [citation_spec]"
  by code_simp

lemma citation_new_ok: "new_inline_parser [citation_spec] = Some (citation_inner citation_new)"
  by (simp add: new_inline_parser_wf [OF wf_citation_specs] citation_new_def)

definition citation_inv :: "citation_stream_parser \<Rightarrow> bool" where
  "citation_inv p = inline_inv [citation_spec] (citation_inner p)"

lemma citation_chunk_append [simp]:
  "citation_chunk (append_chunk c d) = append_chunk (citation_chunk c) (citation_chunk d)"
  "citation_chunk default_chunk = default_chunk"
  "visible_text (citation_chunk c) = visible_text c"
  by (simp_all add: citation_chunk_def chunk_eq_iff)

lemma citation_push_append:
  assumes "citation_inv p" and "valid_utf8 a" and "valid_utf8 b"
    and "citation_push_str p a = (p1, o1)" and "citation_push_str p1 b = (p2, o2)"
  shows "citation_push_str p (a @ b) = (p2, append_chunk o1 o2)"
proof -
  obtain i1 c1 where 1: "inline_push_str (citation_inner p) a = (i1, c1)" by fastforce
  obtain i2 c2 where 2: "inline_push_str i1 b = (i2, c2)" by fastforce
  have "inline_push_str (citation_inner p) (a @ b) = (i2, append_chunk c1 c2)"
    using inline_push_append(1) [OF _ _ _ assms(2,3) 1 2] assms(1) by (auto simp: citation_inv_def inline_inv_def)
  then show ?thesis using assms(4,5) 1 2 by (auto simp: citation_push_str_def)
qed

interpretation citation: stream_text_parser citation_new citation_push_str citation_finish citation_inv "\<lambda>xs. xs"
proof
  show "fst (citation_push_str s (a @ b)) = s2 \<and>
      chunk_view (\<lambda>xs. xs) (snd (citation_push_str s (a @ b))) = chunk_view (\<lambda>xs. xs) (append_chunk o1 o2)"
    if "citation_inv s" "valid_utf8 a" "valid_utf8 b" "citation_push_str s a = (s1, o1)"
      "citation_push_str s1 b = (s2, o2)" for s a b s1 o1 s2 o2
    by (simp add: citation_push_append [OF that])
  show "citation_push_str s [] = (s, default_chunk)" if "citation_inv s" for s
    using inline_push_nil [of "[citation_spec]" "citation_inner s"] that
    by (simp add: citation_inv_def citation_push_str_def)
  show "valid_utf8 (visible_text (snd (citation_push_str s c)))" if "citation_inv s" "valid_utf8 c" for s c
    using valid_output_visible [OF inline_inv_push(2)] that
    by (simp add: citation_inv_def citation_push_str_def split_def Let_def)
  show "fst (citation_finish s) = citation_new" "valid_utf8 (visible_text (snd (citation_finish s)))"
    if "citation_inv s" for s
    using inline_finish_simps(1) [of "[citation_spec]" "citation_inner s"]
      valid_output_visible [OF inline_finish_simps(2) [of "[citation_spec]" "citation_inner s"]] that
    by (auto simp: citation_inv_def citation_finish_def citation_new_def split_def Let_def)
qed (auto simp: citation_inv_def citation_new_def citation_push_str_def split_def Let_def
      wf_citation_specs inline_new_inv inline_inv_push)

lemma find_next_open_single: "find_next_open [sp] t = map_option (\<lambda>i. (i, 0)) (find_sub (spec_open sp) t)"
  by (cases "find_sub (spec_open sp) t") (simp_all add: find_next_open_def open_candidates_def)

text \<open>The loop on a whole text, followed by \<open>finish\<close>, computes \<open>cites\<close>.\<close>

definition citation_flush ::
  "citation_tag active_tag option \<times> rstr \<times> citation_tag extracted_inline_tag stream_text_chunk \<Rightarrow> rstr stream_text_chunk" where
  "citation_flush r = (case r of (act, q, out) \<Rightarrow>
     append_chunk (citation_chunk out)
       (citation_chunk (snd (inline_finish \<lparr>specs = [citation_spec], pending = q, active = act\<rparr>))))"

lemma flush_outside:
  assumes "find_sub CITATION_OPEN t = None"
  shows "citation_flush (tag_loop [citation_spec] None t out) =
    append_chunk (citation_chunk out) \<lparr>visible_text = t, extracted = []\<rparr>"
proof -
  have none: "find_next_open [citation_spec] t = None"
    using assms by (simp add: find_next_open_single citation_spec_def)
  show ?thesis
    by (simp add: tag_loop_outside [OF none refl] citation_flush_def inline_finish_def chunk_eq_iff
        citation_chunk_def shown_text_def)
qed

lemma flush_inside:
  assumes "find_sub CITATION_CLOSE r = None"
  shows "citation_flush (tag_loop [citation_spec] (Some (activate citation_spec)) r out) =
    append_chunk (citation_chunk out) \<lparr>visible_text = [], extracted = [r]\<rparr>"
proof -
  have none: "find_sub (active_close (activate citation_spec)) r = None"
    using assms by (simp add: activate_def citation_spec_def)
  show ?thesis
    unfolding tag_loop_inside [OF none refl]
    by (simp add: citation_flush_def inline_finish_def chunk_eq_iff citation_chunk_def gather_def activate_def)
qed

lemma tag_loop_cites:
  "\<exists>v xs. cites t v xs \<and> (\<forall>out. citation_flush (tag_loop [citation_spec] None t out) =
     append_chunk (citation_chunk out) \<lparr>visible_text = v, extracted = xs\<rparr>)"
proof (induction "length t" arbitrary: t rule: less_induct)
  case less
  have ne: "spec_open citation_spec \<noteq> []" "spec_close citation_spec \<noteq> []"
    by (simp_all add: citation_spec_def CITATION_OPEN_def CITATION_CLOSE_def)
  show ?case
  proof (cases "find_sub CITATION_OPEN t")
    case None
    then have "cites t t []" by (simp add: cites_none sublist_find_sub)
    then show ?thesis using flush_outside [OF None] by blast
  next
    case (Some i)
    let ?act = "activate citation_spec" and ?r = "drop (i + length CITATION_OPEN) t"
    have some: "find_next_open [citation_spec] t = Some (i, 0)"
      using Some by (simp add: find_next_open_single citation_spec_def)
    have spec: "spec_open ([citation_spec] ! 0) = CITATION_OPEN" "active_close ?act = CITATION_CLOSE"
      "active_content ?act = []" by (simp_all add: citation_spec_def activate_def)
    have open_step: "tag_loop [citation_spec] None t out =
        tag_loop [citation_spec] (Some ?act) ?r (append_chunk out (shown_text (take i t)))" for out
      using tag_loop_open [OF some] ne spec by simp
    note fs = find_sub_first_split [OF Some]
    show ?thesis
    proof (cases "find_sub CITATION_CLOSE ?r")
      case None
      have "cites t (take i t) [?r]" using fs None by (intro cites_to_end) (auto simp: sublist_find_sub)
      moreover have "citation_flush (tag_loop [citation_spec] None t out) =
          append_chunk (citation_chunk out) \<lparr>visible_text = take i t, extracted = [?r]\<rparr>" for out
        unfolding open_step flush_inside [OF None] by (simp add: chunk_eq_iff citation_chunk_def shown_text_def)
      ultimately show ?thesis by blast
    next
      case cl: (Some j)
      let ?rest = "drop (j + length CITATION_CLOSE) ?r"
      have "length ?rest < length t" using find_sub_bound [OF Some] by (simp add: CITATION_OPEN_def)
      then obtain v xs where IH: "cites ?rest v xs" "\<And>out. citation_flush (tag_loop [citation_spec] None ?rest out) =
          append_chunk (citation_chunk out) \<lparr>visible_text = v, extracted = xs\<rparr>"
        using less by blast
      have "cites t (take i t @ v) (take j ?r # xs)"
        by (rule cites_pair [OF fs find_sub_first_split [OF cl] IH(1)])
      moreover have "citation_flush (tag_loop [citation_spec] None t out) =
          append_chunk (citation_chunk out) \<lparr>visible_text = take i t @ v, extracted = take j ?r # xs\<rparr>" for out
        unfolding open_step
        using tag_loop_close [of ?act ?r j] cl spec IH(2) ne
        by (simp add: chunk_eq_iff citation_chunk_def shown_text_def hidden_tag_def CITATION_CLOSE_def)
      ultimately show ?thesis by blast
    qed
  qed
qed

lemma strip_citations_cites: "cites t v xs \<longleftrightarrow> strip_citations t = (v, xs)"
proof -
  obtain w ys where c: "cites t w ys" "\<And>out. citation_flush (tag_loop [citation_spec] None t out) =
      append_chunk (citation_chunk out) \<lparr>visible_text = w, extracted = ys\<rparr>"
    using tag_loop_cites by blast
  have "strip_citations t = (w, ys)"
    using c(2) [of default_chunk]
    by (simp add: strip_citations_def citation_push_str_def citation_finish_def citation_new_def inline_new_def
        inline_push_str_def citation_flush_def chunk_eq_iff split_def Let_def)
  then show ?thesis using c(1) cites_deterministic [OF c(1), of v xs] by (metis prod.inject)
qed

end
