(* ===== verification/Tagged_Line.thy ===== *)
theory Tagged_Line
  imports Utf8_Stream
begin

text \<open>
  \<open>utils/stream-parser/src/tagged_line_parser.rs\<close>: blocks delimited by tags that stand alone
  on a line. The parser buffers a line only as long as it may still be a tag. The facts: cutting
  the input does not matter, and the segments are those of the reference \<open>block_lines\<close>, which
  looks at complete lines.
\<close>

section \<open>Data\<close>

record 'a tag_spec =
  tag_open :: rstr
  tag_close :: rstr
  tag_of :: 'a

datatype 'a tagged_line_segment =
  Normal rstr
| TagStart 'a
| TagDelta 'a rstr
| TagEnd 'a

record 'a tagged_line_parser =
  tl_specs :: "'a tag_spec list"
  tl_active_tag :: "'a option"
  detect_tag :: bool
  line_buffer :: rstr

definition tagged_line_new :: "'a tag_spec list \<Rightarrow> 'a tagged_line_parser" where
  "tagged_line_new sps = \<lparr>tl_specs = sps, tl_active_tag = None, detect_tag = True, line_buffer = []\<rparr>"

section \<open>Operations\<close>

fun push_segment :: "'a tagged_line_segment list \<Rightarrow> 'a tagged_line_segment \<Rightarrow> 'a tagged_line_segment list" where
  "push_segment segs (Normal delta) =
     (if delta = [] then segs
      else case last_opt segs of
             Some (Normal existing) \<Rightarrow> butlast segs @ [Normal (existing @ delta)]
           | _ \<Rightarrow> segs @ [Normal delta])"
| "push_segment segs (TagDelta t delta) =
     (if delta = [] then segs
      else case last_opt segs of
             Some (TagDelta t' existing) \<Rightarrow>
               if t' = t then butlast segs @ [TagDelta t' (existing @ delta)] else segs @ [TagDelta t delta]
           | _ \<Rightarrow> segs @ [TagDelta t delta])"
| "push_segment segs (TagStart t) = segs @ [TagStart t]"
| "push_segment segs (TagEnd t) = segs @ [TagEnd t]"

definition push_text ::
  "'a tagged_line_parser \<Rightarrow> rstr \<Rightarrow> 'a tagged_line_segment list \<Rightarrow> 'a tagged_line_segment list" where
  "push_text p t segs =
     (case tl_active_tag p of
        Some tg \<Rightarrow> push_segment segs (TagDelta tg t)
      | None \<Rightarrow> push_segment segs (Normal t))"

definition is_tag_prefix :: "'a tag_spec list \<Rightarrow> rstr \<Rightarrow> bool" where
  "is_tag_prefix sps slug =
     (let s = trim_end slug
      in list_ex (\<lambda>sp. starts_with (tag_open sp) s \<or> starts_with (tag_close sp) s) sps)"

definition match_open :: "'a tag_spec list \<Rightarrow> rstr \<Rightarrow> 'a option" where
  "match_open sps slug = map_option tag_of (List.find (\<lambda>sp. tag_open sp = slug) sps)"

definition match_close :: "'a tag_spec list \<Rightarrow> rstr \<Rightarrow> 'a option" where
  "match_close sps slug = map_option tag_of (List.find (\<lambda>sp. tag_close sp = slug) sps)"

definition strip_newline :: "rstr \<Rightarrow> rstr" where
  "strip_newline s = (case strip_suffix [NL] s of Some r \<Rightarrow> r | None \<Rightarrow> s)"

definition finish_line ::
  "'a tagged_line_parser \<Rightarrow> 'a tagged_line_segment list \<Rightarrow> 'a tagged_line_parser \<times> 'a tagged_line_segment list" where
  "finish_line p segs =
     (let line = line_buffer p; p = p\<lparr>line_buffer := []\<rparr>;
          slug = trim_end (trim_start (strip_newline line))
      in case (match_open (tl_specs p) slug, tl_active_tag p) of
           (Some tg, None) \<Rightarrow> (p\<lparr>tl_active_tag := Some tg, detect_tag := True\<rparr>, push_segment segs (TagStart tg))
         | _ \<Rightarrow>
           (case match_close (tl_specs p) slug of
              Some tg \<Rightarrow>
                if tl_active_tag p = Some tg
                then (p\<lparr>tl_active_tag := None, detect_tag := True\<rparr>, push_segment segs (TagEnd tg))
                else (p\<lparr>detect_tag := True\<rparr>, push_text p line segs)
            | None \<Rightarrow> (p\<lparr>detect_tag := True\<rparr>, push_text p line segs)))"

text \<open>The body of the loop over the characters of \<open>parse\<close>, on the parser, the run and the segments.\<close>

fun parse_char ::
  "rstr \<Rightarrow> 'a tagged_line_parser \<times> rstr \<times> 'a tagged_line_segment list
    \<Rightarrow> 'a tagged_line_parser \<times> rstr \<times> 'a tagged_line_segment list" where
  "parse_char ch (p, run, segs) =
     (if detect_tag p
      then let segs1 = (if run \<noteq> [] then push_text p run segs else segs);
               p1 = p\<lparr>line_buffer := line_buffer p @ ch\<rparr>
           in if ch = [NL] then (let (p2, segs2) = finish_line p1 segs1 in (p2, [], segs2))
              else let slug = trim_start (line_buffer p1)
                   in if slug = [] \<or> is_tag_prefix (tl_specs p1) slug then (p1, [], segs1)
                      else (let p2 = p1\<lparr>line_buffer := [], detect_tag := False\<rparr>
                            in (p2, [], push_text p2 (line_buffer p1) segs1))
      else let run1 = run @ ch
           in if ch = [NL] then (p\<lparr>detect_tag := True\<rparr>, [], push_text p run1 segs)
              else (p, run1, segs))"

definition tagged_parse ::
  "'a tagged_line_parser \<Rightarrow> rstr \<Rightarrow> 'a tagged_line_parser \<times> 'a tagged_line_segment list" where
  "tagged_parse p delta =
     (let (p', run, segs) = fold parse_char (chars delta) (p, [], [])
      in (p', if run \<noteq> [] then push_text p' run segs else segs))"

definition tagged_finish ::
  "'a tagged_line_parser \<Rightarrow> 'a tagged_line_parser \<times> 'a tagged_line_segment list" where
  "tagged_finish p =
     (let (p1, segs1) =
            (if line_buffer p \<noteq> []
             then let buffered = line_buffer p; p = p\<lparr>line_buffer := []\<rparr>;
                      slug = trim_end (trim_start (strip_newline buffered))
                  in case (match_open (tl_specs p) slug, tl_active_tag p) of
                       (Some tg, None) \<Rightarrow> (p\<lparr>tl_active_tag := Some tg\<rparr>, push_segment [] (TagStart tg))
                     | _ \<Rightarrow>
                       (case match_close (tl_specs p) slug of
                          Some tg \<Rightarrow>
                            if tl_active_tag p = Some tg
                            then (p\<lparr>tl_active_tag := None\<rparr>, push_segment [] (TagEnd tg))
                            else (p, push_text p buffered [])
                        | None \<Rightarrow> (p, push_text p buffered []))
             else (p, []))
      in case tl_active_tag p1 of
           Some tg \<Rightarrow> (p1\<lparr>tl_active_tag := None, detect_tag := True\<rparr>, push_segment segs1 (TagEnd tg))
         | None \<Rightarrow> (p1\<lparr>detect_tag := True\<rparr>, segs1))"

section \<open>Segments byte by byte\<close>

text \<open>Runs of text may be cut into segments differently; the bytes with their place are what counts.\<close>

fun flat_segment :: "'a tagged_line_segment \<Rightarrow> 'a tagged_line_segment list" where
  "flat_segment (Normal s) = map (\<lambda>c. Normal [c]) s"
| "flat_segment (TagDelta t s) = map (\<lambda>c. TagDelta t [c]) s"
| "flat_segment seg = [seg]"

definition flat_segments :: "'a tagged_line_segment list \<Rightarrow> 'a tagged_line_segment list" where
  "flat_segments segs = concat (map flat_segment segs)"

definition flat_text :: "'a option \<Rightarrow> rstr \<Rightarrow> 'a tagged_line_segment list" where
  "flat_text act t = map (\<lambda>c. case act of None \<Rightarrow> Normal [c] | Some tg \<Rightarrow> TagDelta tg [c]) t"

lemma flat_segments_simps [simp]:
  "flat_segments [] = []" "flat_segments (a @ b) = flat_segments a @ flat_segments b"
  "flat_segments (x # xs) = flat_segment x @ flat_segments xs"
  by (simp_all add: flat_segments_def)

lemma flat_text_simps [simp]: "flat_text act [] = []" "flat_text act (a @ b) = flat_text act a @ flat_text act b"
  by (simp_all add: flat_text_def)

lemma flat_push_segment [simp]: "flat_segments (push_segment segs seg) = flat_segments segs @ flat_segment seg"
proof (cases segs rule: rev_cases)
  case Nil
  then show ?thesis by (cases seg) auto
next
  case (snoc ys y)
  then show ?thesis by (cases seg; cases y) auto
qed

declare push_segment.simps [simp del]

lemma flat_push_text [simp]:
  "flat_segments (push_text p t segs) = flat_segments segs @ flat_text (tl_active_tag p) t"
  by (cases "tl_active_tag p") (auto simp: push_text_def flat_text_def)

section \<open>Cutting the input\<close>

text \<open>One character, from a parser with no run: the new parser and the bytes it releases.\<close>

definition flat_char :: "rstr \<Rightarrow> 'a tagged_line_parser \<Rightarrow> 'a tagged_line_parser \<times> 'a tagged_line_segment list" where
  "flat_char ch p = (let (p', run, segs) = parse_char ch (p, [], [])
                     in (p', flat_segments segs @ flat_text (tl_active_tag p') run))"

fun flat_chars :: "rstr list \<Rightarrow> 'a tagged_line_parser \<Rightarrow> 'a tagged_line_parser \<times> 'a tagged_line_segment list" where
  "flat_chars [] p = (p, [])"
| "flat_chars (c # cs) p =
     (let (p1, f1) = flat_char c p; (p2, f2) = flat_chars cs p1 in (p2, f1 @ f2))"

lemma finish_line_segs:
  "fst (finish_line p segs) = fst (finish_line p []) \<and>
    flat_segments (snd (finish_line p segs)) = flat_segments segs @ flat_segments (snd (finish_line p []))"
  by (auto simp: finish_line_def Let_def split: option.splits)

lemma parse_char_flat:
  assumes "parse_char ch (p, run, segs) = (p', run', segs')"
  shows "p' = fst (flat_char ch p)"
    and "flat_segments segs' @ flat_text (tl_active_tag p') run' =
      flat_segments segs @ flat_text (tl_active_tag p) run @ snd (flat_char ch p)"
  using assms finish_line_segs [of "p\<lparr>line_buffer := line_buffer p @ ch\<rparr>" segs]
    finish_line_segs [of "p\<lparr>line_buffer := line_buffer p @ ch\<rparr>" "push_text p run segs"]
  by (auto simp: flat_char_def Let_def split_def split: if_splits)

lemma fold_parse_char_flat:
  assumes "fold parse_char cs (p, run, segs) = (p', run', segs')"
  shows "p' = fst (flat_chars cs p) \<and>
    flat_segments segs' @ flat_text (tl_active_tag p') run' =
      flat_segments segs @ flat_text (tl_active_tag p) run @ snd (flat_chars cs p)"
  using assms
proof (induction cs arbitrary: p run segs)
  case (Cons c cs)
  obtain p1 run1 segs1 where 1: "parse_char c (p, run, segs) = (p1, run1, segs1)" by (metis prod_cases3)
  with Cons.prems have "fold parse_char cs (p1, run1, segs1) = (p', run', segs')" by simp
  from Cons.IH [OF this] parse_char_flat [OF 1] show ?case
    by (simp add: split_def Let_def) (metis append_assoc)
qed simp

lemma tagged_parse_flat:
  "fst (tagged_parse p t) = fst (flat_chars (chars t) p)"
  "flat_segments (snd (tagged_parse p t)) = snd (flat_chars (chars t) p)"
proof -
  obtain p' run segs where r: "fold parse_char (chars t) (p, [], []) = (p', run, segs)" by (metis prod_cases3)
  then show "fst (tagged_parse p t) = fst (flat_chars (chars t) p)"
    "flat_segments (snd (tagged_parse p t)) = snd (flat_chars (chars t) p)"
    using fold_parse_char_flat [OF r] by (auto simp: tagged_parse_def)
qed

lemma flat_chars_append:
  "flat_chars (cs @ ds) p =
    (let (p1, f1) = flat_chars cs p; (p2, f2) = flat_chars ds p1 in (p2, f1 @ f2))"
  by (induction cs arbitrary: p) (simp_all add: split_def Let_def)

lemma tagged_parse_append:
  assumes "valid_utf8 a" and "tagged_parse p a = (p1, s1)" and "tagged_parse p1 b = (p2, s2)"
  shows "fst (tagged_parse p (a @ b)) = p2"
    and "flat_segments (snd (tagged_parse p (a @ b))) = flat_segments s1 @ flat_segments s2"
proof -
  have "p1 = fst (flat_chars (chars a) p)" "flat_segments s1 = snd (flat_chars (chars a) p)"
    using tagged_parse_flat [of p a] assms(2) by simp_all
  moreover have "p2 = fst (flat_chars (chars b) p1)" "flat_segments s2 = snd (flat_chars (chars b) p1)"
    using tagged_parse_flat [of p1 b] assms(3) by simp_all
  ultimately show "fst (tagged_parse p (a @ b)) = p2"
    "flat_segments (snd (tagged_parse p (a @ b))) = flat_segments s1 @ flat_segments s2"
    using assms(1)
    by (simp_all add: tagged_parse_flat chars_append [OF valid_utf8_shape] flat_chars_append split_def Let_def)
qed

section \<open>The reference: complete lines\<close>

text \<open>The lines of a text, each with its newline; the last may lack it.\<close>

fun split_inclusive :: "rstr \<Rightarrow> rstr list" where
  "split_inclusive [] = []"
| "split_inclusive (c # cs) =
     (if c = NL then [NL] # split_inclusive cs
      else case split_inclusive cs of [] \<Rightarrow> [[c]] | l # ls \<Rightarrow> (c # l) # ls)"

text \<open>What a complete line does: open the block, close it, or belong to it or to the normal text.\<close>

definition line_result ::
  "'a tag_spec list \<Rightarrow> 'a option \<Rightarrow> rstr \<Rightarrow> 'a option \<times> 'a tagged_line_segment list" where
  "line_result sps act line =
     (let slug = trim_end (trim_start (strip_newline line))
      in case (match_open sps slug, act) of
           (Some tg, None) \<Rightarrow> (Some tg, [TagStart tg])
         | _ \<Rightarrow> if act \<noteq> None \<and> match_close sps slug = act then (None, [TagEnd (the act)])
                else (act, flat_text act line))"

fun block_lines ::
  "'a tag_spec list \<Rightarrow> 'a option \<Rightarrow> rstr list \<Rightarrow> 'a option \<times> 'a tagged_line_segment list" where
  "block_lines sps act [] = (act, [])"
| "block_lines sps act (l # ls) =
     (let (act1, f1) = line_result sps act l; (act2, f2) = block_lines sps act1 ls in (act2, f1 @ f2))"

definition end_block :: "'a option \<Rightarrow> 'a tagged_line_segment list" where
  "end_block act = (case act of None \<Rightarrow> [] | Some tg \<Rightarrow> [TagEnd tg])"

definition blocks_of :: "'a tag_spec list \<Rightarrow> 'a option \<Rightarrow> rstr \<Rightarrow> 'a tagged_line_segment list" where
  "blocks_of sps act t = (let (act', f) = block_lines sps act (split_inclusive t) in f @ end_block act')"

section \<open>A line that is given up is no tag\<close>

definition disproved :: "'a tag_spec list \<Rightarrow> rstr \<Rightarrow> bool" where
  "disproved sps b = (trim_start b \<noteq> [] \<and> \<not> is_tag_prefix sps (trim_start b))"

lemma list_all_dropWhile: "list_all P xs \<Longrightarrow> list_all P (dropWhile Q xs)"
  by (induction xs) auto

lemma prefix_dropWhile: "prefix (dropWhile P xs) (dropWhile P (xs @ ys))"
  by (induction xs) auto

lemma prefix_rtrim:
  assumes "prefix r (m @ w)" and "\<forall>c \<in> set w. P c"
  shows "prefix (rev (dropWhile P (rev r))) m"
proof (cases "length r \<le> length m")
  case True
  then have "prefix r m" using assms(1) prefix_length_prefix by fastforce
  moreover have "prefix (rev (dropWhile P (rev r))) r"
    by (metis rev_append rev_rev_ident takeWhile_dropWhile_id prefixI)
  ultimately show ?thesis using prefix_order.trans by blast
next
  case False
  then obtain w' where r: "r = m @ w'" and "prefix w' w" using assms(1)
    by (auto simp: prefix_append dest: prefix_length_le)
  then have "\<forall>c \<in> set (rev w'). P c" using assms(2) set_mono_prefix by fastforce
  then have "dropWhile P (rev r) = dropWhile P (rev m)" by (auto simp: r intro: dropWhile_append2)
  then show ?thesis by (metis rev_append rev_rev_ident takeWhile_dropWhile_id prefixI)
qed

lemma prefix_concat: "prefix xs ys \<Longrightarrow> prefix (concat xs) (concat ys)"
  by (auto simp: prefix_def)

lemma slug_prefix:
  assumes "list_all one_char (ys @ zs)"
  shows "prefix (trim_end (trim_start (concat ys))) (trim_end (trim_start (concat (ys @ zs))))"
proof -
  let ?m = "dropWhile is_white (ys @ zs)" and ?r = "dropWhile is_white ys"
  have one: "list_all one_char ?m" "list_all one_char ?r"
    using assms list_all_dropWhile [of one_char "ys @ zs"] list_all_dropWhile [of one_char ys] by auto
  have "?m = rev (dropWhile is_white (rev ?m)) @ rev (takeWhile is_white (rev ?m))"
    by (metis rev_append rev_rev_ident takeWhile_dropWhile_id)
  then have "prefix ?r (rev (dropWhile is_white (rev ?m)) @ rev (takeWhile is_white (rev ?m)))"
    using prefix_dropWhile [of is_white ys zs] by simp
  then have "prefix (rev (dropWhile is_white (rev ?r))) (rev (dropWhile is_white (rev ?m)))"
    by (rule prefix_rtrim) (auto dest: set_takeWhileD)
  then have "prefix (concat (rev (dropWhile is_white (rev ?r)))) (concat (rev (dropWhile is_white (rev ?m))))"
    by (rule prefix_concat)
  moreover have "list_all one_char ys" using assms by simp
  ultimately show ?thesis
    using trim_start_concat [OF assms] trim_start_concat [of ys] trim_end_concat [OF one(1)] trim_end_concat [OF one(2)]
    by simp
qed

lemma disproved_no_tag:
  assumes "list_all one_char zs" and "prefix ys zs" and "disproved sps (concat ys)"
  shows "match_open sps (trim_end (trim_start (concat zs))) = None"
    and "match_close sps (trim_end (trim_start (concat zs))) = None"
proof -
  obtain us where zs: "zs = ys @ us" using assms(2) by (auto simp: prefix_def)
  have "prefix (trim_end (trim_start (concat ys))) (trim_end (trim_start (concat zs)))"
    using slug_prefix assms(1) unfolding zs by blast
  then have "\<forall>sp \<in> set sps. tag_open sp \<noteq> trim_end (trim_start (concat zs)) \<and>
      tag_close sp \<noteq> trim_end (trim_start (concat zs))"
    using assms(3) by (auto simp: disproved_def is_tag_prefix_def Let_def list_ex_iff starts_with_iff)
  then show "match_open sps (trim_end (trim_start (concat zs))) = None"
    "match_close sps (trim_end (trim_start (concat zs))) = None"
    by (auto simp: match_open_def match_close_def find_None_iff_all)
qed

section \<open>The parser computes the reference\<close>

abbreviation fresh_line :: "'a tag_spec list \<Rightarrow> 'a option \<Rightarrow> 'a tagged_line_parser" where
  "fresh_line sps act \<equiv> \<lparr>tl_specs = sps, tl_active_tag = act, detect_tag = True, line_buffer = []\<rparr>"

text \<open>The characters of an unfinished line are either all buffered or all released.\<close>

lemma flat_chars_line:
  assumes "[NL] \<notin> set xs"
  shows "flat_chars xs (fresh_line sps act) = ((fresh_line sps act)\<lparr>line_buffer := concat xs\<rparr>, []) \<or>
    flat_chars xs (fresh_line sps act) = ((fresh_line sps act)\<lparr>detect_tag := False\<rparr>, flat_text act (concat xs)) \<and>
      (\<exists>ys. prefix ys xs \<and> disproved sps (concat ys))"
  using assms
proof (induction xs rule: rev_induct)
  case (snoc x xs)
  have x: "x \<noteq> [NL]" using snoc.prems by auto
  from snoc.IH snoc.prems consider
    (buffered) "flat_chars xs (fresh_line sps act) = ((fresh_line sps act)\<lparr>line_buffer := concat xs\<rparr>, [])"
  | (released) "flat_chars xs (fresh_line sps act) = ((fresh_line sps act)\<lparr>detect_tag := False\<rparr>, flat_text act (concat xs))"
      "\<exists>ys. prefix ys xs \<and> disproved sps (concat ys)" by auto
  then show ?case
  proof cases
    case buffered
    then show ?thesis
      using x by (cases "disproved sps (concat (xs @ [x]))")
        (auto simp: flat_chars_append flat_char_def disproved_def Let_def)
  next
    case released
    then show ?thesis
      using x by (auto simp: flat_chars_append flat_char_def Let_def)
  qed
qed simp

lemma strip_newline_simps [simp]: "strip_newline (s @ [NL]) = s" "NL \<notin> set s \<Longrightarrow> strip_newline s = s"
proof -
  show "strip_newline (s @ [NL]) = s"
    using strip_suffix_Some_iff [of "[NL]" "s @ [NL]" s] by (simp add: strip_newline_def)
  show "strip_newline s = s" if "NL \<notin> set s"
  proof (cases "strip_suffix [NL] s")
    case (Some r)
    then show ?thesis using that by (simp add: strip_suffix_Some_iff)
  qed (simp add: strip_newline_def)
qed

lemma finish_line_result:
  "finish_line \<lparr>tl_specs = sps, tl_active_tag = act, detect_tag = True, line_buffer = b\<rparr> [] =
    (p', segs) \<Longrightarrow> p' = fresh_line sps (fst (line_result sps act b)) \<and> flat_segments segs = snd (line_result sps act b)"
  by (auto simp: finish_line_def line_result_def Let_def split: option.splits if_splits)

lemma flat_chars_newline:
  assumes "list_all one_char xs" and "[NL] \<notin> set xs"
  shows "flat_chars (xs @ [[NL]]) (fresh_line sps act) =
    (fresh_line sps (fst (line_result sps act (concat xs @ [NL]))), snd (line_result sps act (concat xs @ [NL])))"
proof -
  consider (buffered) "flat_chars xs (fresh_line sps act) = ((fresh_line sps act)\<lparr>line_buffer := concat xs\<rparr>, [])"
  | (released) ys where "flat_chars xs (fresh_line sps act) = ((fresh_line sps act)\<lparr>detect_tag := False\<rparr>, flat_text act (concat xs))"
      "prefix ys xs" "disproved sps (concat ys)" using flat_chars_line [OF assms(2)] by blast
  then show ?thesis
  proof cases
    case buffered
    then show ?thesis
      using finish_line_result [OF prod.collapse [symmetric], of sps act "concat xs @ [NL]"]
      by (auto simp: flat_chars_append flat_char_def Let_def split_def)
  next
    case released
    then show ?thesis
      using disproved_no_tag [OF assms(1) released(2,3)]
      by (auto simp: flat_chars_append flat_char_def line_result_def Let_def split: option.splits)
  qed
qed

lemma tagged_finish_line:
  assumes "list_all one_char xs" and "[NL] \<notin> set xs" and "NL \<notin> set (concat xs)" and "xs \<noteq> []"
    and "flat_chars xs (fresh_line sps act) = (p, f)"
  shows "fst (tagged_finish p) = fresh_line sps None"
    and "f @ flat_segments (snd (tagged_finish p)) =
      snd (line_result sps act (concat xs)) @ end_block (fst (line_result sps act (concat xs)))"
proof -
  have ne: "concat xs \<noteq> []" using assms(1,4) one_char_ne by (cases xs) auto
  consider (buffered) "p = (fresh_line sps act)\<lparr>line_buffer := concat xs\<rparr>" "f = []"
  | (released) ys where "p = (fresh_line sps act)\<lparr>detect_tag := False\<rparr>" "f = flat_text act (concat xs)"
      "prefix ys xs" "disproved sps (concat ys)" using flat_chars_line [OF assms(2), of sps act] assms(5) by auto
  then have "fst (tagged_finish p) = fresh_line sps None \<and> f @ flat_segments (snd (tagged_finish p)) =
      snd (line_result sps act (concat xs)) @ end_block (fst (line_result sps act (concat xs)))"
  proof cases
    case buffered
    then show ?thesis
      using ne assms(3) by (auto simp: tagged_finish_def line_result_def end_block_def Let_def split: option.splits)
  next
    case released
    then show ?thesis
      using disproved_no_tag [OF assms(1) released(3,4)] assms(3)
      by (auto simp: tagged_finish_def line_result_def end_block_def Let_def split: option.splits)
  qed
  then show "fst (tagged_finish p) = fresh_line sps None"
    "f @ flat_segments (snd (tagged_finish p)) =
      snd (line_result sps act (concat xs)) @ end_block (fst (line_result sps act (concat xs)))" by auto
qed

lemma one_char_NL:
  assumes "one_char c" and "c \<noteq> [NL]"
  shows "NL \<notin> set c"
proof
  assume "NL \<in> set c"
  then obtain i where i: "i < length c" "c ! i = NL" by (auto simp: in_set_conv_nth)
  have "\<not> is_cont NL" by (simp add: is_cont_def NL_def)
  then have "i = 0" using one_char_cont [OF assms(1) i(1)] i(2) by simp
  then obtain ds where c: "c = NL # ds" using i by (cases c) auto
  have "utf8_width NL = 1" by (simp add: utf8_width_def NL_def)
  then show False using assms c by (simp add: one_char_def)
qed

lemma concat_NL: "list_all one_char xs \<Longrightarrow> [NL] \<notin> set xs \<Longrightarrow> NL \<notin> set (concat xs)"
  using one_char_NL by (auto simp: list_all_iff)

lemma split_inclusive_line:
  "NL \<notin> set s \<Longrightarrow> split_inclusive (s @ NL # t) = (s @ [NL]) # split_inclusive t"
  "NL \<notin> set s \<Longrightarrow> s \<noteq> [] \<Longrightarrow> split_inclusive s = [s]"
proof -
  show "NL \<notin> set s \<Longrightarrow> split_inclusive (s @ NL # t) = (s @ [NL]) # split_inclusive t"
    by (induction s) auto
  show "NL \<notin> set s \<Longrightarrow> s \<noteq> [] \<Longrightarrow> split_inclusive s = [s]"
  proof (induction s)
    case (Cons c s)
    then show ?case by (cases "s = []") auto
  qed simp
qed

lemma flat_chars_blocks:
  assumes "list_all one_char cs" and "flat_chars cs (fresh_line sps act) = (p, f)"
  shows "fst (tagged_finish p) = fresh_line sps None \<and>
    f @ flat_segments (snd (tagged_finish p)) = blocks_of sps act (concat cs)"
  using assms
proof (induction "length cs" arbitrary: cs act p f rule: less_induct)
  case less
  show ?case
  proof (cases "[NL] \<in> set cs")
    case True
    then obtain xs ys where cs: "cs = xs @ [NL] # ys" "[NL] \<notin> set xs" by (meson split_list_first)
    have one: "list_all one_char xs" "list_all one_char ys" using less.prems(1) cs by auto
    let ?r = "line_result sps act (concat xs @ [NL])"
    obtain p' f' where ys: "flat_chars ys (fresh_line sps (fst ?r)) = (p', f')" by fastforce
    have "flat_chars ((xs @ [[NL]]) @ ys) (fresh_line sps act) = (p', snd ?r @ f')"
      unfolding flat_chars_append [of "xs @ [[NL]]"] flat_chars_newline [OF one(1) cs(2)] using ys by simp
    then have pf: "p = p'" "f = snd ?r @ f'" using less.prems(2) cs(1) by simp_all
    have "blocks_of sps act (concat cs) = snd ?r @ blocks_of sps (fst ?r) (concat ys)"
      using split_inclusive_line(1) [OF concat_NL [OF one(1) cs(2)], of "concat ys"] cs(1)
      by (simp add: blocks_of_def split_def Let_def)
    moreover have "length ys < length cs" using cs(1) by simp
    ultimately show ?thesis using less.hyps [OF _ one(2) ys] pf by simp
  next
    case False
    show ?thesis
    proof (cases "cs = []")
      case True
      then show ?thesis
        using less.prems(2) by (auto simp: blocks_of_def tagged_finish_def end_block_def Let_def split: option.splits)
    next
      case ne: False
      then have "concat cs \<noteq> []" using less.prems(1) one_char_ne by (cases cs) auto
      then have "blocks_of sps act (concat cs) =
          snd (line_result sps act (concat cs)) @ end_block (fst (line_result sps act (concat cs)))"
        using split_inclusive_line(2) [OF concat_NL [OF less.prems(1) False]]
        by (simp add: blocks_of_def split_def Let_def)
      then show ?thesis
        using tagged_finish_line [OF less.prems(1) False concat_NL [OF less.prems(1) False] ne less.prems(2)] by simp
    qed
  qed
qed

text \<open>Parsing a whole text and finishing gives the reference's segments, and a fresh parser.\<close>

lemma tagged_parse_blocks:
  assumes "valid_utf8 t" and "tagged_parse (tagged_line_new sps) t = (p, s1)" and "tagged_finish p = (q, s2)"
  shows "q = tagged_line_new sps" and "flat_segments (s1 @ s2) = blocks_of sps None t"
  using flat_chars_blocks [OF valid_utf8_chars [OF assms(1)], of sps None p "flat_segments s1"]
    tagged_parse_flat [of "tagged_line_new sps" t] assms(2,3)
  by (auto simp: tagged_line_new_def prod_eq_iff)

section \<open>Invariant\<close>

text \<open>A parser in the middle of a stream: it has been pushed some text since it was fresh.\<close>

definition tagged_inv :: "'a tag_spec list \<Rightarrow> 'a tagged_line_parser \<Rightarrow> bool" where
  "tagged_inv sps p \<longleftrightarrow> (\<exists>t. valid_utf8 t \<and> p = fst (tagged_parse (tagged_line_new sps) t))"

lemma tagged_parse_nil [simp]: "tagged_parse p [] = (p, [])"
  by (simp add: tagged_parse_def)

lemma tagged_inv_new: "tagged_inv sps (tagged_line_new sps)"
  unfolding tagged_inv_def by (intro exI [of _ "[]"]) simp

lemma tagged_inv_parse: "tagged_inv sps p \<Longrightarrow> valid_utf8 a \<Longrightarrow> tagged_inv sps (fst (tagged_parse p a))"
  unfolding tagged_inv_def using tagged_parse_append(1) [OF _ prod.collapse [symmetric] prod.collapse [symmetric]]
  by (metis valid_utf8_append)

lemma tagged_inv_finish: "tagged_inv sps p \<Longrightarrow> fst (tagged_finish p) = tagged_line_new sps"
  unfolding tagged_inv_def using tagged_parse_blocks(1) by (metis prod.collapse)

text \<open>No segment cuts a character.\<close>

fun segment_text :: "'a tagged_line_segment \<Rightarrow> rstr" where
  "segment_text (Normal t) = t"
| "segment_text (TagDelta _ t) = t"
| "segment_text _ = []"

abbreviation valid_segments :: "'a tagged_line_segment list \<Rightarrow> bool" where
  "valid_segments segs \<equiv> list_all (\<lambda>seg. valid_utf8 (segment_text seg)) segs"

lemma valid_push_segment:
  "valid_segments segs \<Longrightarrow> valid_utf8 (segment_text seg) \<Longrightarrow> valid_segments (push_segment segs seg)"
  by (cases segs rule: rev_cases; cases seg; cases "last segs")
     (auto simp: push_segment.simps)

lemma valid_push_text: "valid_segments segs \<Longrightarrow> valid_utf8 t \<Longrightarrow> valid_segments (push_text p t segs)"
  by (auto simp: push_text_def valid_push_segment split: option.splits)

lemma valid_finish_line:
  assumes "valid_segments segs" and "valid_utf8 (line_buffer p)"
  shows "valid_segments (snd (finish_line p segs))" and "line_buffer (fst (finish_line p segs)) = []"
  using assms
  by (auto simp: finish_line_def Let_def valid_push_segment valid_push_text split: option.splits)

fun valid_state :: "'a tagged_line_parser \<times> rstr \<times> 'a tagged_line_segment list \<Rightarrow> bool" where
  "valid_state (p, run, segs) = (valid_utf8 (line_buffer p) \<and> valid_utf8 run \<and> valid_segments segs)"

lemma valid_parse_char: "valid_state st \<Longrightarrow> valid_utf8 ch \<Longrightarrow> valid_state (parse_char ch st)"
  by (cases st) (auto simp: Let_def split_def valid_push_text valid_finish_line valid_utf8_append)

lemma valid_fold_parse_char:
  "valid_state st \<Longrightarrow> list_all one_char cs \<Longrightarrow> valid_state (fold parse_char cs st)"
  by (induction cs arbitrary: st) (auto simp: valid_parse_char one_char_valid simp del: valid_state.simps parse_char.simps)

lemma valid_tagged_parse:
  assumes "valid_utf8 (line_buffer p)" and "valid_utf8 t"
  shows "valid_segments (snd (tagged_parse p t)) \<and> valid_utf8 (line_buffer (fst (tagged_parse p t)))"
proof -
  obtain q run segs where r: "fold parse_char (chars t) (p, [], []) = (q, run, segs)" by (metis prod_cases3)
  have "valid_state (q, run, segs)"
    using valid_fold_parse_char [OF _ valid_utf8_chars [OF assms(2)], of "(p, [], [])"] assms(1) r by simp
  then show ?thesis using r by (simp add: tagged_parse_def valid_push_text)
qed

lemma tagged_inv_valid:
  assumes "tagged_inv sps p"
  shows "valid_utf8 (line_buffer p)"
proof -
  have "valid_utf8 (line_buffer (tagged_line_new sps))" by (simp add: tagged_line_new_def)
  then show ?thesis using assms valid_tagged_parse unfolding tagged_inv_def by blast
qed

lemma valid_tagged_finish: "valid_utf8 (line_buffer p) \<Longrightarrow> valid_segments (snd (tagged_finish p))"
  by (auto simp: tagged_finish_def Let_def valid_push_segment valid_push_text split: option.splits)

end
