(* ===== verification/Proposed_Plan.thy ===== *)
theory Proposed_Plan
  imports Tagged_Line
begin

text \<open>
  \<open>utils/stream-parser/src/proposed_plan.rs\<close>: the blocks between \<open><proposed_plan>\<close> and
  \<open></proposed_plan>\<close>, each alone on its line. The parser is an instance of the stream parser
  trait, up to how runs of text are cut; \<open>strip_proposed_plan_blocks\<close> and
  \<open>extract_proposed_plan_text\<close> compute what the references over complete lines say.
\<close>

section \<open>Data and operations\<close>

definition OPEN_TAG :: rstr where
  "OPEN_TAG = ''<proposed_plan>''"

definition CLOSE_TAG :: rstr where
  "CLOSE_TAG = ''</proposed_plan>''"

datatype plan_tag = ProposedPlan

datatype proposed_plan_segment =
  PlanNormal rstr
| ProposedPlanStart
| ProposedPlanDelta rstr
| ProposedPlanEnd

record proposed_plan_parser =
  plan_parser :: "plan_tag tagged_line_parser"

definition plan_specs :: "plan_tag tag_spec list" where
  "plan_specs = [\<lparr>tag_open = OPEN_TAG, tag_close = CLOSE_TAG, tag_of = ProposedPlan\<rparr>]"

definition proposed_plan_new :: proposed_plan_parser where
  "proposed_plan_new = \<lparr>plan_parser = tagged_line_new plan_specs\<rparr>"

fun map_segment :: "plan_tag tagged_line_segment \<Rightarrow> proposed_plan_segment" where
  "map_segment (Normal t) = PlanNormal t"
| "map_segment (TagStart ProposedPlan) = ProposedPlanStart"
| "map_segment (TagDelta ProposedPlan t) = ProposedPlanDelta t"
| "map_segment (TagEnd ProposedPlan) = ProposedPlanEnd"

definition map_segments :: "plan_tag tagged_line_segment list \<Rightarrow> proposed_plan_segment stream_text_chunk" where
  "map_segments segs =
     fold (\<lambda>seg out.
         let mapped = map_segment seg;
             out = (case mapped of PlanNormal t \<Rightarrow> out\<lparr>visible_text := visible_text out @ t\<rparr> | _ \<Rightarrow> out)
         in out\<lparr>extracted := extracted out @ [mapped]\<rparr>)
       segs default_chunk"

definition plan_push_str :: "(proposed_plan_parser, proposed_plan_segment) pusher" where
  "plan_push_str p chunk =
     (let (q, segs) = tagged_parse (plan_parser p) chunk in (p\<lparr>plan_parser := q\<rparr>, map_segments segs))"

definition plan_finish ::
  "proposed_plan_parser \<Rightarrow> proposed_plan_parser \<times> proposed_plan_segment stream_text_chunk" where
  "plan_finish p =
     (let (q, segs) = tagged_finish (plan_parser p) in (p\<lparr>plan_parser := q\<rparr>, map_segments segs))"

definition strip_proposed_plan_blocks :: "rstr \<Rightarrow> rstr" where
  "strip_proposed_plan_blocks t =
     (let (p, out) = plan_push_str proposed_plan_new t; (_, tail) = plan_finish p
      in visible_text out @ visible_text tail)"

text \<open>The loop of \<open>extract_proposed_plan_text\<close> on \<open>plan_text\<close> and \<open>saw_plan_block\<close>.\<close>

fun collect_plan :: "proposed_plan_segment \<Rightarrow> rstr \<times> bool \<Rightarrow> rstr \<times> bool" where
  "collect_plan ProposedPlanStart (plan_text, saw) = ([], True)"
| "collect_plan (ProposedPlanDelta delta) (plan_text, saw) = (plan_text @ delta, saw)"
| "collect_plan ProposedPlanEnd st = st"
| "collect_plan (PlanNormal _) st = st"

definition extract_proposed_plan_text :: "rstr \<Rightarrow> rstr option" where
  "extract_proposed_plan_text t =
     (let (p, out) = plan_push_str proposed_plan_new t; (_, tail) = plan_finish p;
          (plan_text, saw_plan_block) = fold collect_plan (extracted out @ extracted tail) ([], False)
      in if saw_plan_block then Some plan_text else None)"

section \<open>Segments\<close>

fun shown_segment :: "'a tagged_line_segment \<Rightarrow> rstr" where
  "shown_segment (Normal t) = t"
| "shown_segment _ = []"

definition shown_segments :: "'a tagged_line_segment list \<Rightarrow> rstr" where
  "shown_segments segs = concat (map shown_segment segs)"

lemma shown_segments_simps [simp]:
  "shown_segments [] = []" "shown_segments (a @ b) = shown_segments a @ shown_segments b"
  "shown_segments (x # xs) = shown_segment x @ shown_segments xs"
  by (simp_all add: shown_segments_def)

lemma map_segments_eq: "map_segments segs = \<lparr>visible_text = shown_segments segs, extracted = map map_segment segs\<rparr>"
proof -
  have "map_segment seg = PlanNormal t \<longleftrightarrow> seg = Normal t" for seg t
    by (cases seg rule: map_segment.cases) auto
  then have step: "(case map_segment seg of PlanNormal t \<Rightarrow> out\<lparr>visible_text := visible_text out @ t\<rparr> | _ \<Rightarrow> out) =
      out\<lparr>visible_text := visible_text out @ shown_segment seg\<rparr>" for seg and out :: "proposed_plan_segment stream_text_chunk"
    by (cases seg rule: map_segment.cases) auto
  have "fold (\<lambda>seg out. let mapped = map_segment seg;
             out = (case mapped of PlanNormal t \<Rightarrow> out\<lparr>visible_text := visible_text out @ t\<rparr> | _ \<Rightarrow> out)
         in out\<lparr>extracted := extracted out @ [mapped]\<rparr>) segs out =
      append_chunk out \<lparr>visible_text = shown_segments segs, extracted = map map_segment segs\<rparr>" for out
    by (induction segs arbitrary: out) (simp_all add: step chunk_eq_iff Let_def)
  then show ?thesis by (simp add: map_segments_def)
qed

text \<open>The view of the plan segments that does not depend on how runs of text are cut.\<close>

fun flat_plan_segment :: "proposed_plan_segment \<Rightarrow> proposed_plan_segment list" where
  "flat_plan_segment (PlanNormal t) = map (\<lambda>c. PlanNormal [c]) t"
| "flat_plan_segment (ProposedPlanDelta t) = map (\<lambda>c. ProposedPlanDelta [c]) t"
| "flat_plan_segment seg = [seg]"

definition flat_plan :: "proposed_plan_segment list \<Rightarrow> proposed_plan_segment list" where
  "flat_plan segs = concat (map flat_plan_segment segs)"

lemma flat_plan_append [simp]: "flat_plan (a @ b) = flat_plan a @ flat_plan b"
  by (simp add: flat_plan_def)

lemma flat_plan_map: "flat_plan (map map_segment segs) = map map_segment (flat_segments segs)"
proof (induction segs)
  case (Cons seg segs)
  have "flat_plan_segment (map_segment seg) = map map_segment (flat_segment seg)"
    by (cases seg rule: map_segment.cases) auto
  with Cons show ?case by (simp add: flat_plan_def)
qed (simp add: flat_plan_def)

lemma shown_flat: "shown_segments (flat_segments segs) = shown_segments segs"
proof (induction segs)
  case (Cons seg segs)
  have "shown_segments (map (\<lambda>c. Normal [c]) t) = t" for t by (induction t) auto
  moreover have "shown_segments (map (\<lambda>c. TagDelta x [c]) t) = []" for x t by (induction t) auto
  ultimately have "shown_segments (flat_segment seg) = shown_segment seg" by (cases seg) auto
  with Cons show ?case by simp
qed simp

lemma collect_flat:
  "fold collect_plan (map map_segment (flat_segments segs)) st = fold collect_plan (map map_segment segs) st"
proof (induction segs arbitrary: st)
  case (Cons seg segs)
  have "fold collect_plan (map (map_segment \<circ> (\<lambda>c. TagDelta ProposedPlan [c])) t) (a, b) = (a @ t, b)" for t a b
    by (induction t arbitrary: a) auto
  moreover have "fold collect_plan (map (map_segment \<circ> (\<lambda>c. Normal [c])) t) st = st" for t
    by (induction t) auto
  ultimately have "fold collect_plan (map map_segment (flat_segment seg)) st = collect_plan (map_segment seg) st"
    by (cases seg rule: map_segment.cases; cases st) auto
  with Cons show ?case by simp
qed simp

lemma shown_valid: "valid_segments segs \<Longrightarrow> valid_utf8 (shown_segments segs)"
proof (induction segs)
  case (Cons seg segs)
  then show ?case by (cases seg) auto
qed simp

section \<open>The parser implements the trait\<close>

definition plan_inv :: "proposed_plan_parser \<Rightarrow> bool" where
  "plan_inv p = tagged_inv plan_specs (plan_parser p)"

interpretation plan: stream_text_parser proposed_plan_new plan_push_str plan_finish plan_inv flat_plan
proof
  show "fst (plan_push_str s (a @ b)) = s2 \<and>
      chunk_view flat_plan (snd (plan_push_str s (a @ b))) = chunk_view flat_plan (append_chunk o1 o2)"
    if "plan_inv s" and a: "valid_utf8 a" and "valid_utf8 b" and 1: "plan_push_str s a = (s1, o1)"
      and 2: "plan_push_str s1 b = (s2, o2)" for s a b s1 o1 s2 o2
  proof -
    obtain p1 g1 where p1: "tagged_parse (plan_parser s) a = (p1, g1)" by fastforce
    obtain p2 g2 where p2: "tagged_parse p1 b = (p2, g2)" by fastforce
    note app = tagged_parse_append [OF a p1 p2]
    have "shown_segments (snd (tagged_parse (plan_parser s) (a @ b))) = shown_segments g1 @ shown_segments g2"
      using app(2) shown_flat by (metis shown_segments_simps(2))
    then show ?thesis
      using 1 2 p1 p2 app
      by (auto simp: plan_push_str_def split_def Let_def chunk_view_def map_segments_eq flat_plan_map)
  qed
  show "valid_utf8 (visible_text (snd (plan_push_str s c)))" if "plan_inv s" "valid_utf8 c" for s c
    using shown_valid [OF conjunct1 [OF valid_tagged_parse [OF tagged_inv_valid [of plan_specs "plan_parser s"]]]] that
    by (simp add: plan_inv_def plan_push_str_def map_segments_eq split_def Let_def)
  show "valid_utf8 (visible_text (snd (plan_finish s)))" if "plan_inv s" for s
    using shown_valid [OF valid_tagged_finish [OF tagged_inv_valid [of plan_specs "plan_parser s"]]] that
    by (simp add: plan_inv_def plan_finish_def map_segments_eq split_def Let_def)
qed (auto simp: plan_inv_def proposed_plan_new_def plan_push_str_def plan_finish_def split_def Let_def
      map_segments_eq default_chunk_def tagged_inv_new tagged_inv_parse tagged_inv_finish)

section \<open>References over complete lines\<close>

definition tag_line :: "rstr \<Rightarrow> rstr" where
  "tag_line l = trim_end (trim_start (strip_newline l))"

text \<open>The lines outside the blocks.\<close>

fun shown_lines :: "bool \<Rightarrow> rstr list \<Rightarrow> rstr" where
  "shown_lines in_plan [] = []"
| "shown_lines in_plan (l # ls) =
     (if \<not> in_plan \<and> tag_line l = OPEN_TAG then shown_lines True ls
      else if in_plan \<and> tag_line l = CLOSE_TAG then shown_lines False ls
      else (if in_plan then [] else l) @ shown_lines in_plan ls)"

text \<open>The lines of the last block, if there is one.\<close>

fun last_plan :: "rstr option \<Rightarrow> bool \<Rightarrow> rstr list \<Rightarrow> rstr option" where
  "last_plan found in_plan [] = found"
| "last_plan found in_plan (l # ls) =
     (if \<not> in_plan \<and> tag_line l = OPEN_TAG then last_plan (Some []) True ls
      else if in_plan \<and> tag_line l = CLOSE_TAG then last_plan found False ls
      else last_plan (if in_plan then map_option (\<lambda>t. t @ l) found else found) in_plan ls)"

lemma plan_line_result:
  "line_result plan_specs act l =
     (if act = None \<and> tag_line l = OPEN_TAG then (Some ProposedPlan, [TagStart ProposedPlan])
      else if act \<noteq> None \<and> tag_line l = CLOSE_TAG then (None, [TagEnd ProposedPlan])
      else (act, flat_text act l))"
proof -
  have "act = None \<or> act = Some ProposedPlan" by (metis (full_types) option.exhaust plan_tag.exhaust)
  then show ?thesis
    by (auto simp: line_result_def plan_specs_def match_open_def match_close_def tag_line_def Let_def split: option.splits)
qed

lemma shown_flat_text: "shown_segments (flat_text act t) = (if act = None then t else [])"
  by (induction t) (auto simp: flat_text_def split: option.splits)

lemma shown_block_lines:
  "block_lines plan_specs act ls = (act', f) \<Longrightarrow> shown_segments f = shown_lines (act \<noteq> None) ls"
proof (induction ls arbitrary: act act' f)
  case (Cons l ls)
  then show ?case
    by (auto simp: plan_line_result shown_flat_text Let_def split: prod.splits if_splits)
qed simp

lemma collect_flat_text:
  "fold collect_plan (map map_segment (flat_text act l)) (t, saw) = (if act = None then (t, saw) else (t @ l, saw))"
proof (induction l arbitrary: t)
  case (Cons c l)
  then show ?case
    by (cases act; cases "the act") (auto simp: flat_text_def)
qed simp

lemma collect_block_lines:
  "block_lines plan_specs act ls = (act', f) \<Longrightarrow> (act \<noteq> None \<longrightarrow> saw) \<Longrightarrow>
    (case fold collect_plan (map map_segment f) (t, saw) of (t', s') \<Rightarrow> if s' then Some t' else None) =
      last_plan (if saw then Some t else None) (act \<noteq> None) ls"
proof (induction ls arbitrary: act act' f t saw)
  case (Cons l ls)
  obtain act1 f1 act2 f2 where r: "line_result plan_specs act l = (act1, f1)" "block_lines plan_specs act1 ls = (act2, f2)"
    by fastforce
  then have f: "f = f1 @ f2" using Cons.prems by auto
  show ?case
    using r(1) Cons.prems(2) Cons.IH [OF r(2)] f
    by (auto simp: plan_line_result collect_flat_text split: if_splits)
qed simp

lemma plan_blocks:
  assumes "valid_utf8 t"
  shows "strip_proposed_plan_blocks t = shown_lines False (split_inclusive t)"
    and "extract_proposed_plan_text t = last_plan None False (split_inclusive t)"
proof -
  obtain p s1 where 1: "tagged_parse (tagged_line_new plan_specs) t = (p, s1)" by fastforce
  obtain q s2 where 2: "tagged_finish p = (q, s2)" by fastforce
  obtain act f where b: "block_lines plan_specs None (split_inclusive t) = (act, f)" by fastforce
  have flat: "flat_segments (s1 @ s2) = f @ end_block act"
    using tagged_parse_blocks(2) [OF assms 1 2] b by (simp add: blocks_of_def)
  have endb: "shown_segments (end_block act) = []" "fold collect_plan (map map_segment (end_block act)) st = st" for st
    by (cases act; cases "the act"; auto simp: end_block_def)+
  have "shown_segments (s1 @ s2) = shown_segments f"
    using flat endb(1) shown_flat [of "s1 @ s2"] by simp
  then show "strip_proposed_plan_blocks t = shown_lines False (split_inclusive t)"
    using 1 2 shown_block_lines [OF b]
    by (simp add: strip_proposed_plan_blocks_def plan_push_str_def plan_finish_def proposed_plan_new_def map_segments_eq)
  have "fold collect_plan (map map_segment (s1 @ s2)) ([], False) = fold collect_plan (map map_segment f) ([], False)"
    unfolding collect_flat [of "s1 @ s2", symmetric] flat using endb(2) by simp
  then show "extract_proposed_plan_text t = last_plan None False (split_inclusive t)"
    using 1 2 collect_block_lines [OF b, of False "[]"]
    by (simp add: extract_proposed_plan_text_def plan_push_str_def plan_finish_def proposed_plan_new_def map_segments_eq split_def)
qed

end
