(* ===== verification/Assistant_Text.thy ===== *)
theory Assistant_Text
  imports Citation Proposed_Plan
begin

text \<open>
  \<open>utils/stream-parser/src/assistant_text.rs\<close>: the composition of the citation parser with, in
  plan mode, the plan parser. Whatever the cuts of the streamed text, the result is that of the
  two one-shot functions applied one after the other.
\<close>

section \<open>Data and operations\<close>

record assistant_text_chunk =
  at_visible_text :: rstr
  at_citations :: "rstr list"
  at_plan_segments :: "proposed_plan_segment list"

definition default_text_chunk :: assistant_text_chunk where
  "default_text_chunk = \<lparr>at_visible_text = [], at_citations = [], at_plan_segments = []\<rparr>"

definition text_chunk_is_empty :: "assistant_text_chunk \<Rightarrow> bool" where
  "text_chunk_is_empty ck = (at_visible_text ck = [] \<and> at_citations ck = [] \<and> at_plan_segments ck = [])"

record assistant_text_stream_parser =
  plan_mode :: bool
  at_citation_parser :: citation_stream_parser
  at_plan :: proposed_plan_parser

definition assistant_new :: "bool \<Rightarrow> assistant_text_stream_parser" where
  "assistant_new pm = \<lparr>plan_mode = pm, at_citation_parser = citation_new, at_plan = proposed_plan_new\<rparr>"

definition parse_visible_text ::
  "assistant_text_stream_parser \<Rightarrow> rstr \<Rightarrow> assistant_text_stream_parser \<times> assistant_text_chunk" where
  "parse_visible_text p t =
     (if \<not> plan_mode p then (p, default_text_chunk\<lparr>at_visible_text := t\<rparr>)
      else let (pl, ck) = plan_push_str (at_plan p) t
           in (p\<lparr>at_plan := pl\<rparr>,
               default_text_chunk\<lparr>at_visible_text := visible_text ck, at_plan_segments := extracted ck\<rparr>))"

definition assistant_push_str ::
  "assistant_text_stream_parser \<Rightarrow> rstr \<Rightarrow> assistant_text_stream_parser \<times> assistant_text_chunk" where
  "assistant_push_str p chunk =
     (let (ci, citation_ck) = citation_push_str (at_citation_parser p) chunk;
          (p, out) = parse_visible_text (p\<lparr>at_citation_parser := ci\<rparr>) (visible_text citation_ck)
      in (p, out\<lparr>at_citations := extracted citation_ck\<rparr>))"

definition assistant_finish ::
  "assistant_text_stream_parser \<Rightarrow> assistant_text_stream_parser \<times> assistant_text_chunk" where
  "assistant_finish p =
     (let (ci, citation_ck) = citation_finish (at_citation_parser p);
          (p, out) = parse_visible_text (p\<lparr>at_citation_parser := ci\<rparr>) (visible_text citation_ck);
          (p, out) =
            (if plan_mode p
             then let (pl, tail) = plan_finish (at_plan p); p = p\<lparr>at_plan := pl\<rparr>
                  in if \<not> stream_chunk_is_empty tail
                     then (p, out\<lparr>at_visible_text := at_visible_text out @ visible_text tail,
                                  at_plan_segments := at_plan_segments out @ extracted tail\<rparr>)
                     else (p, out)
             else (p, out))
      in (p, out\<lparr>at_citations := extracted citation_ck\<rparr>))"

text \<open>A whole stream: the chunks one after the other, then \<open>finish\<close>; the outputs appended.\<close>

definition append_text_chunk :: "assistant_text_chunk \<Rightarrow> assistant_text_chunk \<Rightarrow> assistant_text_chunk" where
  "append_text_chunk a b =
     \<lparr>at_visible_text = at_visible_text a @ at_visible_text b, at_citations = at_citations a @ at_citations b,
      at_plan_segments = at_plan_segments a @ at_plan_segments b\<rparr>"

fun assistant_stream :: "assistant_text_stream_parser \<Rightarrow> rstr list \<Rightarrow> assistant_text_stream_parser \<times> assistant_text_chunk" where
  "assistant_stream p [] = assistant_finish p"
| "assistant_stream p (c # cs) =
     (let (p1, o1) = assistant_push_str p c; (p2, o2) = assistant_stream p1 cs in (p2, append_text_chunk o1 o2))"

section \<open>Facts\<close>

text \<open>The visible texts the plan parser is given: one for each chunk, and one for \<open>finish\<close>.\<close>

fun visible_pieces :: "citation_stream_parser \<Rightarrow> rstr list \<Rightarrow> rstr list" where
  "visible_pieces ci [] = [visible_text (snd (citation_finish ci))]"
| "visible_pieces ci (c # cs) =
     visible_text (snd (citation_push_str ci c)) # visible_pieces (fst (citation_push_str ci c)) cs"

lemma visible_pieces_concat:
  "concat (visible_pieces ci cs) = visible_text (snd (stream_all citation_push_str citation_finish ci cs))"
  by (induction cs arbitrary: ci) (simp_all add: stream_all_def split_def Let_def)

lemma visible_pieces_valid:
  "citation_inv ci \<Longrightarrow> list_all valid_utf8 cs \<Longrightarrow> list_all valid_utf8 (visible_pieces ci cs)"
  by (induction cs arbitrary: ci) (simp_all add: citation.valid_finish citation.valid_push citation.inv_push)

lemma assistant_stream_parts:
  "at_citations (snd (assistant_stream p cs)) =
     extracted (snd (stream_all citation_push_str citation_finish (at_citation_parser p) cs))"
  "\<not> plan_mode p \<Longrightarrow> at_visible_text (snd (assistant_stream p cs)) = concat (visible_pieces (at_citation_parser p) cs)"
  "\<not> plan_mode p \<Longrightarrow> at_plan_segments (snd (assistant_stream p cs)) = []"
  "plan_mode p \<Longrightarrow> \<lparr>visible_text = at_visible_text (snd (assistant_stream p cs)),
       extracted = at_plan_segments (snd (assistant_stream p cs))\<rparr> =
     snd (stream_all plan_push_str plan_finish (at_plan p) (visible_pieces (at_citation_parser p) cs))"
  by (induction cs arbitrary: p)
     (auto simp: assistant_push_str_def assistant_finish_def parse_visible_text_def append_text_chunk_def
       default_text_chunk_def stream_all_def chunk_eq_iff split_def Let_def)

lemma stream_all_single:
  "stream_all push fin s [t] = (let (s1, o1) = push s t; (s2, o2) = fin s1 in (s2, append_chunk o1 o2))"
  by (simp add: stream_all_def split_def Let_def)

lemma citation_stream_strip:
  assumes "list_all valid_utf8 cs"
  shows "visible_text (snd (stream_all citation_push_str citation_finish citation_new cs)) = fst (strip_citations (concat cs))"
    and "extracted (snd (stream_all citation_push_str citation_finish citation_new cs)) = snd (strip_citations (concat cs))"
  using citation.stream_concat [OF citation.inv_init assms]
  by (simp_all add: chunk_view_def stream_all_single strip_citations_def split_def Let_def)

lemma plan_stream_strip:
  assumes "list_all valid_utf8 cs"
  shows "visible_text (snd (stream_all plan_push_str plan_finish proposed_plan_new cs)) = strip_proposed_plan_blocks (concat cs)"
  using plan.stream_concat [OF plan.inv_init assms]
  by (simp add: chunk_view_def stream_all_single strip_proposed_plan_blocks_def split_def Let_def)

lemma assistant_stream_result:
  assumes "list_all valid_utf8 cs"
  shows "at_citations (snd (assistant_stream (assistant_new pm) cs)) = snd (strip_citations (concat cs))"
    and "at_visible_text (snd (assistant_stream (assistant_new pm) cs)) =
      (if pm then strip_proposed_plan_blocks else id) (fst (strip_citations (concat cs)))"
proof -
  let ?ps = "visible_pieces citation_new cs"
  have init: "plan_mode (assistant_new pm) = pm" "at_citation_parser (assistant_new pm) = citation_new"
    "at_plan (assistant_new pm) = proposed_plan_new" by (simp_all add: assistant_new_def)
  show "at_citations (snd (assistant_stream (assistant_new pm) cs)) = snd (strip_citations (concat cs))"
    using assistant_stream_parts(1) [of "assistant_new pm" cs] citation_stream_strip(2) [OF assms] init by simp
  have shown: "concat ?ps = fst (strip_citations (concat cs))"
    using citation_stream_strip(1) [OF assms] by (simp add: visible_pieces_concat)
  show "at_visible_text (snd (assistant_stream (assistant_new pm) cs)) =
      (if pm then strip_proposed_plan_blocks else id) (fst (strip_citations (concat cs)))"
  proof (cases pm)
    case True
    then have "at_visible_text (snd (assistant_stream (assistant_new pm) cs)) =
        visible_text (snd (stream_all plan_push_str plan_finish proposed_plan_new ?ps))"
      using assistant_stream_parts(4) [of "assistant_new pm" cs] init by (metis stream_text_chunk.select_convs(1))
    then show ?thesis
      using plan_stream_strip [OF visible_pieces_valid [OF citation.inv_init assms]] shown True by simp
  next
    case False
    then show ?thesis using assistant_stream_parts(2) [of "assistant_new pm" cs] init shown by simp
  qed
qed

end
