(* ===== verification/Absolute_Path.thy ===== *)
theory Absolute_Path
  imports Rust_Str
begin

text \<open>
  Paths on Unix and \<open>utils/absolute-path\<close>. Rust compares paths by their components, so a path
  is its list of components; \<open>components\<close> reads them off the text the way \<open>std::path\<close> does.
  The home and the current directory come from the environment. The facts: resolving against an
  absolute base always gives an absolute path in normal form (no \<open>.\<close>, no \<open>..\<close>), which
  never leaves the root, and resolving again changes nothing.
\<close>

section \<open>Paths of the standard library\<close>

datatype component = RootDir | CurDir | ParentDir | NormalC rstr

type_synonym rpath = "component list"

abbreviation SLASH :: char where
  "SLASH \<equiv> CHR ''/''"

definition to_component :: "rstr \<Rightarrow> component" where
  "to_component s = (if s = ''..'' then ParentDir else NormalC s)"

text \<open>Empty parts and \<open>.\<close> are skipped, except a leading \<open>.\<close>.\<close>

definition components :: "rstr \<Rightarrow> rpath" where
  "components s =
     (let parts = split_on SLASH s
      in (if starts_with s [SLASH] then [RootDir] else if hd parts = ''.'' then [CurDir] else [])
         @ map to_component (filter (\<lambda>p. p \<noteq> [] \<and> p \<noteq> ''.'') parts))"

definition is_absolute :: "rpath \<Rightarrow> bool" where
  "is_absolute p = (case p of RootDir # _ \<Rightarrow> True | _ \<Rightarrow> False)"

definition path_join :: "rpath \<Rightarrow> rpath \<Rightarrow> rpath" where
  "path_join base p =
     (if is_absolute p then p else if base = [] then p
      else base @ (case p of CurDir # q \<Rightarrow> q | _ \<Rightarrow> p))"

definition path_parent :: "rpath \<Rightarrow> rpath option" where
  "path_parent p = (case last_opt p of None \<Rightarrow> None | Some RootDir \<Rightarrow> None | Some _ \<Rightarrow> Some (butlast p))"

definition file_name :: "rpath \<Rightarrow> rstr option" where
  "file_name p = (case last_opt p of Some (NormalC n) \<Rightarrow> Some n | _ \<Rightarrow> None)"

definition path_pop :: "rpath \<Rightarrow> rpath" where
  "path_pop p = (case path_parent p of None \<Rightarrow> p | Some q \<Rightarrow> q)"

section \<open>The crate\<close>

record path_env =
  home_dir :: "rpath option"
  current_dir :: "rpath option"

text \<open>The text is a path; only its beginning \<open>~\<close> is looked at.\<close>

definition maybe_expand_home_directory :: "path_env \<Rightarrow> rstr \<Rightarrow> rpath" where
  "maybe_expand_home_directory env s =
     (case (home_dir env, strip_prefix ''~'' s) of
        (Some home, Some rest) \<Rightarrow>
          if rest = [] then home
          else (case strip_prefix [SLASH] rest of
                  Some rest' \<Rightarrow> path_join home (components (dropWhile (\<lambda>c. c = SLASH) rest'))
                | None \<Rightarrow> components s)
      | _ \<Rightarrow> components s)"

definition normalize_step :: "component \<Rightarrow> rpath \<Rightarrow> rpath" where
  "normalize_step c normalized =
     (case c of
        CurDir \<Rightarrow> normalized
      | ParentDir \<Rightarrow> path_pop normalized
      | RootDir \<Rightarrow> path_join normalized [RootDir]
      | NormalC n \<Rightarrow> path_join normalized [NormalC n])"

definition normalize_path :: "rpath \<Rightarrow> rpath" where
  "normalize_path p =
     (let normalized = fold normalize_step p [] in if normalized = [] then [CurDir] else normalized)"

definition path_with_base :: "rpath \<Rightarrow> rpath \<Rightarrow> rpath" where
  "path_with_base p base = (if is_absolute p then p else path_join base p)"

definition absolutize_from :: "rpath \<Rightarrow> rpath \<Rightarrow> rpath" where
  "absolutize_from p base = normalize_path (path_with_base p base)"

text \<open>\<open>None\<close> is the error of looking up the current directory.\<close>

definition absolutize :: "path_env \<Rightarrow> rpath \<Rightarrow> rpath option" where
  "absolutize env p =
     (if is_absolute p then Some (normalize_path p)
      else map_option (absolutize_from p) (current_dir env))"

definition resolve_path_against_base :: "path_env \<Rightarrow> rstr \<Rightarrow> rpath \<Rightarrow> rpath" where
  "resolve_path_against_base env s base = absolutize_from (maybe_expand_home_directory env s) base"

definition from_absolute_path :: "path_env \<Rightarrow> rstr \<Rightarrow> rpath option" where
  "from_absolute_path env s = absolutize env (maybe_expand_home_directory env s)"

definition from_absolute_path_checked :: "path_env \<Rightarrow> rstr \<Rightarrow> rpath option" where
  "from_absolute_path_checked env s =
     (let expanded = maybe_expand_home_directory env s
      in if \<not> is_absolute expanded then None else Some (absolutize_from expanded [RootDir]))"

definition relative_to_current_dir :: "path_env \<Rightarrow> rstr \<Rightarrow> rpath option" where
  "relative_to_current_dir env s = map_option (resolve_path_against_base env s) (current_dir env)"

definition abs_join :: "path_env \<Rightarrow> rpath \<Rightarrow> rstr \<Rightarrow> rpath" where
  "abs_join env self s = resolve_path_against_base env s self"

text \<open>Deserialisation: with a guard held the path is resolved against its base.\<close>

definition deserialize_path :: "path_env \<Rightarrow> rpath option \<Rightarrow> rstr \<Rightarrow> rpath option" where
  "deserialize_path env guard s =
     (case guard of
        Some base \<Rightarrow> Some (resolve_path_against_base env s base)
      | None \<Rightarrow> if is_absolute (components s) then from_absolute_path env s else None)"

section \<open>Normal form\<close>

definition is_normal :: "component \<Rightarrow> bool" where
  "is_normal c = (case c of NormalC _ \<Rightarrow> True | _ \<Rightarrow> False)"

text \<open>What \<open>AbsolutePathBuf\<close> promises: the root followed by names only.\<close>

definition wf_absolute :: "rpath \<Rightarrow> bool" where
  "wf_absolute p = (case p of RootDir # ns \<Rightarrow> list_all is_normal ns | _ \<Rightarrow> False)"

lemma wf_absolute_cases: "wf_absolute p \<longleftrightarrow> (\<exists>ns. p = RootDir # ns \<and> list_all is_normal ns)"
  by (auto simp: wf_absolute_def split: list.splits component.splits)

lemma is_normal_iff: "is_normal c \<longleftrightarrow> (\<exists>n. c = NormalC n)"
  by (cases c) (auto simp: is_normal_def)

lemma wf_absolute_pop: "wf_absolute p \<Longrightarrow> wf_absolute (path_pop p)"
proof -
  assume "wf_absolute p"
  then obtain ns where p: "p = RootDir # ns" "list_all is_normal ns" by (auto simp: wf_absolute_cases)
  show ?thesis
    using p by (cases ns rule: rev_cases)
      (auto simp: path_pop_def path_parent_def wf_absolute_def last_opt_def is_normal_iff butlast_append)
qed

lemma wf_absolute_push: "wf_absolute p \<Longrightarrow> wf_absolute (path_join p [NormalC n])"
  by (auto simp: wf_absolute_cases path_join_def is_absolute_def is_normal_def)

lemma wf_absolute_step: "wf_absolute p \<Longrightarrow> wf_absolute (normalize_step c p)"
  by (cases c) (auto simp: normalize_step_def wf_absolute_pop wf_absolute_push,
      simp add: path_join_def is_absolute_def wf_absolute_def)

lemma wf_absolute_fold: "wf_absolute p \<Longrightarrow> wf_absolute (fold normalize_step cs p)"
  by (induction cs arbitrary: p) (auto simp: wf_absolute_step)

lemma wf_absolute_ne: "wf_absolute p \<Longrightarrow> p \<noteq> []"
  by (auto simp: wf_absolute_cases)

lemma wf_absolute_is_absolute: "wf_absolute p \<Longrightarrow> is_absolute p"
  by (auto simp: wf_absolute_cases is_absolute_def)

lemma is_absolute_iff: "is_absolute p \<longleftrightarrow> (\<exists>cs. p = RootDir # cs)"
  by (auto simp: is_absolute_def split: list.splits component.splits)

lemma normalize_absolute: "is_absolute p \<Longrightarrow> wf_absolute (normalize_path p)"
proof -
  assume "is_absolute p"
  then obtain cs where p: "p = RootDir # cs" by (auto simp: is_absolute_iff)
  have "normalize_step RootDir [] = [RootDir]" by (simp add: normalize_step_def path_join_def is_absolute_def)
  moreover have "wf_absolute [RootDir]" by (simp add: wf_absolute_def)
  ultimately have "wf_absolute (fold normalize_step p [])" using p wf_absolute_fold by simp
  then show ?thesis using wf_absolute_ne by (auto simp: normalize_path_def Let_def)
qed

lemma fold_normal:
  "list_all is_normal ns \<Longrightarrow> p \<noteq> [] \<Longrightarrow> fold normalize_step ns p = p @ ns"
proof (induction ns arbitrary: p)
  case (Cons n ns)
  then show ?case
    by (auto simp: is_normal_iff normalize_step_def path_join_def is_absolute_def)
qed simp

lemma normalize_fixed: "wf_absolute p \<Longrightarrow> normalize_path p = p"
  by (auto simp: wf_absolute_cases normalize_path_def fold_normal normalize_step_def path_join_def is_absolute_def Let_def)

lemma path_join_absolute: "is_absolute base \<Longrightarrow> is_absolute (path_join base p)"
  by (auto simp: path_join_def is_absolute_iff)

lemma absolutize_from_wf: "is_absolute base \<Longrightarrow> wf_absolute (absolutize_from p base)"
  using path_join_absolute by (auto simp: absolutize_from_def path_with_base_def intro: normalize_absolute)

lemma from_absolute_path_wf:
  assumes "from_absolute_path env s = Some p" and "\<forall>d. current_dir env = Some d \<longrightarrow> is_absolute d"
  shows "wf_absolute p"
  using assms by (auto simp: from_absolute_path_def absolutize_def normalize_absolute absolutize_from_wf split: if_splits)

lemma absolutize_from_fixed: "wf_absolute p \<Longrightarrow> absolutize_from p base = p"
  by (simp add: absolutize_from_def path_with_base_def wf_absolute_is_absolute normalize_fixed)

text \<open>The text of a normal path is read back as that path.\<close>

fun component_text :: "component \<Rightarrow> rstr" where
  "component_text (NormalC n) = n"
| "component_text RootDir = []"
| "component_text CurDir = ''.''"
| "component_text ParentDir = ''..''"

definition wf_name :: "component \<Rightarrow> bool" where
  "wf_name c = (case c of NormalC n \<Rightarrow> n \<noteq> [] \<and> n \<noteq> ''.'' \<and> n \<noteq> ''..'' \<and> SLASH \<notin> set n | _ \<Rightarrow> False)"

definition path_text :: "rpath \<Rightarrow> rstr" where
  "path_text p = (if p = [RootDir] then [SLASH] else join_with [SLASH] (map component_text p))"

lemma wf_name_iff: "wf_name c \<longleftrightarrow> (\<exists>n. c = NormalC n \<and> n \<noteq> [] \<and> n \<noteq> ''.'' \<and> n \<noteq> ''..'' \<and> SLASH \<notin> set n)"
  by (cases c) (auto simp: wf_name_def)

lemma components_path_text:
  assumes "p = RootDir # ns" and "list_all wf_name ns"
  shows "components (path_text p) = p"
proof (cases "ns = []")
  case True
  have "components [SLASH] = [RootDir]" by code_simp
  then show ?thesis using True assms(1) by (simp add: path_text_def)
next
  case False
  let ?ts = "[] # map component_text ns"
  have rendered: "path_text p = join_with [SLASH] ?ts" using False assms(1) by (simp add: path_text_def)
  have "split_on SLASH (path_text p) = ?ts"
    unfolding rendered using assms(2) by (intro split_join) (auto simp: list_all_iff wf_name_iff)
  moreover have "starts_with (path_text p) [SLASH]"
    unfolding rendered using False by (cases ns) (auto simp: starts_with_def)
  moreover have "filter (\<lambda>q. q \<noteq> [] \<and> q \<noteq> ''.'') ?ts = map component_text ns"
    using assms(2) by (auto simp: list_all_iff wf_name_iff filter_id_conv)
  moreover have "map to_component (map component_text ns) = ns"
    using assms(2) by (induction ns) (auto simp: wf_name_iff to_component_def)
  ultimately show ?thesis using assms(1) by (simp add: components_def Let_def)
qed

end
