(* ===== verification/Exec_Rule.thy ===== *)
theory Exec_Rule
  imports Absolute_Path
begin

text \<open>
  \<open>execpolicy/src/decision.rs\<close>, \<open>error.rs\<close>, \<open>rule.rs\<close> and \<open>executable_name.rs\<close>:
  decisions and their severity, prefix patterns, what a rule says of a command, and network
  rules. The trait \<open>Rule\<close> is the locale \<open>exec_rule\<close>, which the prefix rules implement.
\<close>

section \<open>Decisions\<close>

datatype decision = Allow | Prompt | Forbidden

text \<open>The derived order: the later constructor is the stricter decision.\<close>

primrec severity :: "decision \<Rightarrow> nat" where
  "severity Allow = 0"
| "severity Prompt = 1"
| "severity Forbidden = 2"

lemma severity_inject: "severity a = severity b \<longleftrightarrow> a = b"
  by (cases a; cases b) auto

instantiation decision :: linorder
begin

definition less_eq_decision :: "decision \<Rightarrow> decision \<Rightarrow> bool" where
  "less_eq_decision a b = (severity a \<le> severity b)"

definition less_decision :: "decision \<Rightarrow> decision \<Rightarrow> bool" where
  "less_decision a b = (severity a < severity b)"

instance
  by standard (auto simp: less_eq_decision_def less_decision_def severity_inject)

end

section \<open>Errors\<close>

record text_position =
  pos_line :: nat
  pos_column :: nat

record text_range =
  range_start :: text_position
  range_end :: text_position

record error_location =
  loc_path :: rstr
  loc_range :: text_range

text \<open>The error of the Starlark interpreter is a parameter.\<close>

datatype 'e exec_error =
  InvalidDecision rstr
| InvalidPattern rstr
| InvalidExample rstr
| InvalidRule rstr
| ExampleDidNotMatch "rstr list" "rstr list" "error_location option"
| ExampleDidMatch rstr rstr "error_location option"
| Starlark 'e

fun with_location :: "'e exec_error \<Rightarrow> error_location \<Rightarrow> 'e exec_error" where
  "with_location (ExampleDidNotMatch rules examples None) loc = ExampleDidNotMatch rules examples (Some loc)"
| "with_location (ExampleDidMatch rule example None) loc = ExampleDidMatch rule example (Some loc)"
| "with_location other loc = other"

text \<open>\<open>location\<close>; the position of an interpreter error is the parameter \<open>span\<close>.\<close>

fun error_location_of :: "('e \<Rightarrow> error_location option) \<Rightarrow> 'e exec_error \<Rightarrow> error_location option" where
  "error_location_of span (ExampleDidNotMatch _ _ loc) = loc"
| "error_location_of span (ExampleDidMatch _ _ loc) = loc"
| "error_location_of span (Starlark e) = span e"
| "error_location_of span _ = None"

definition parse_decision :: "rstr \<Rightarrow> ('e exec_error, decision) result" where
  "parse_decision raw =
     (if raw = ''allow'' then Ok Allow
      else if raw = ''prompt'' then Ok Prompt
      else if raw = ''forbidden'' then Ok Forbidden
      else Err (InvalidDecision raw))"

section \<open>Patterns\<close>

datatype pattern_token = Single rstr | Alts "rstr list"

fun token_matches :: "pattern_token \<Rightarrow> rstr \<Rightarrow> bool" where
  "token_matches (Single expected) token = (expected = token)"
| "token_matches (Alts alternatives) token = list_ex (\<lambda>alt. alt = token) alternatives"

fun alternatives :: "pattern_token \<Rightarrow> rstr list" where
  "alternatives (Single expected) = [expected]"
| "alternatives (Alts alts) = alts"

record prefix_pattern =
  pat_first :: rstr
  pat_rest :: "pattern_token list"

definition matches_prefix :: "prefix_pattern \<Rightarrow> rstr list \<Rightarrow> rstr list option" where
  "matches_prefix p cmd =
     (let pattern_length = length (pat_rest p) + 1
      in if length cmd < pattern_length \<or> cmd ! 0 \<noteq> pat_first p then None
         else if \<not> list_all (\<lambda>(pt, ct). token_matches pt ct) (zip (pat_rest p) (drop 1 (take pattern_length cmd)))
         then None
         else Some (take pattern_length cmd))"

section \<open>Rules\<close>

datatype rule_match =
  PrefixRuleMatch "rstr list" decision "rpath option" "rstr option"
| HeuristicsRuleMatch "rstr list" decision

fun match_decision :: "rule_match \<Rightarrow> decision" where
  "match_decision (PrefixRuleMatch _ d _ _) = d"
| "match_decision (HeuristicsRuleMatch _ d) = d"

fun with_resolved_program :: "rule_match \<Rightarrow> rpath \<Rightarrow> rule_match" where
  "with_resolved_program (PrefixRuleMatch pre d _ j) program = PrefixRuleMatch pre d (Some program) j"
| "with_resolved_program other program = other"

record prefix_rule =
  rule_pattern :: prefix_pattern
  rule_decision :: decision
  rule_justification :: "rstr option"

definition rule_program :: "prefix_rule \<Rightarrow> rstr" where
  "rule_program r = pat_first (rule_pattern r)"

definition rule_matches :: "prefix_rule \<Rightarrow> rstr list \<Rightarrow> rule_match option" where
  "rule_matches r cmd =
     map_option (\<lambda>pre. PrefixRuleMatch pre (rule_decision r) None (rule_justification r))
       (matches_prefix (rule_pattern r) cmd)"

text \<open>The trait: a rule speaks of the commands of its program only, and of all that extend one it matches.\<close>

locale exec_rule =
  fixes program :: "'r \<Rightarrow> rstr"
    and matches :: "'r \<Rightarrow> rstr list \<Rightarrow> rule_match option"
  assumes matches_program: "matches r cmd = Some m \<Longrightarrow> cmd \<noteq> [] \<and> hd cmd = program r"
    and matches_extend: "matches r cmd = Some m \<Longrightarrow> matches r (cmd @ args) = Some m"
begin

text \<open>Looking only at the rules of the program finds every match.\<close>

lemma matches_by_program:
  "List.map_filter (\<lambda>r. matches r (c # cs)) (filter (\<lambda>r. program r = c) rs) =
    List.map_filter (\<lambda>r. matches r (c # cs)) rs"
proof (induction rs)
  case (Cons r rs)
  have "program r \<noteq> c \<Longrightarrow> matches r (c # cs) = None"
    using matches_program [of r "c # cs"] by (cases "matches r (c # cs)") auto
  with Cons show ?case by (auto split: option.splits)
qed simp

lemma matches_other_program:
  "\<forall>r \<in> set rs. program r \<noteq> c \<Longrightarrow> List.map_filter (\<lambda>r. matches r (c # cs)) rs = []"
proof (induction rs)
  case (Cons r rs)
  then have "matches r (c # cs) = None"
    using matches_program [of r "c # cs"] by (cases "matches r (c # cs)") auto
  with Cons show ?case by simp
qed simp

text \<open>More arguments never lose a match.\<close>

lemma matches_grow:
  "m \<in> set (List.map_filter (\<lambda>r. matches r cmd) rs) \<Longrightarrow>
    m \<in> set (List.map_filter (\<lambda>r. matches r (cmd @ args)) rs)"
  unfolding in_set_map_filter using matches_extend by blast

end

text \<open>What a prefix pattern matches: its length many tokens, each among the alternatives.\<close>

lemma matches_prefix_Some_iff:
  "matches_prefix p cmd = Some pre \<longleftrightarrow>
    (\<exists>args. cmd = pre @ args) \<and> length pre = length (pat_rest p) + 1 \<and> hd pre = pat_first p \<and>
    list_all2 (\<lambda>pt ct. ct \<in> set (alternatives pt)) (pat_rest p) (tl pre)"
proof -
  have tok: "token_matches pt ct \<longleftrightarrow> ct \<in> set (alternatives pt)" for pt ct
    by (cases pt) (auto simp: list_ex_iff)
  show ?thesis
  proof (cases cmd)
    case Nil
    then show ?thesis by (auto simp: matches_prefix_def)
  next
    case (Cons c cs)
    have z: "list_all (\<lambda>(pt, ct). token_matches pt ct) (zip (pat_rest p) (take (length (pat_rest p)) cs)) \<longleftrightarrow>
        list_all2 (\<lambda>pt ct. ct \<in> set (alternatives pt)) (pat_rest p) (take (length (pat_rest p)) cs)"
      if "length (pat_rest p) \<le> length cs"
      using that by (auto simp: list_all2_iff list_all_iff tok)
    show ?thesis
    proof
      assume "matches_prefix p cmd = Some pre"
      then have "length (pat_rest p) \<le> length cs" "c = pat_first p" "pre = c # take (length (pat_rest p)) cs"
        "list_all (\<lambda>(pt, ct). token_matches pt ct) (zip (pat_rest p) (take (length (pat_rest p)) cs))"
        using Cons by (auto simp: matches_prefix_def Let_def split: if_splits)
      then show "(\<exists>args. cmd = pre @ args) \<and> length pre = length (pat_rest p) + 1 \<and> hd pre = pat_first p \<and>
          list_all2 (\<lambda>pt ct. ct \<in> set (alternatives pt)) (pat_rest p) (tl pre)"
        using z Cons append_take_drop_id [of "length (pat_rest p)" cs] by (auto intro!: exI [of _ "drop (length (pat_rest p)) cs"])
    next
      assume "(\<exists>args. cmd = pre @ args) \<and> length pre = length (pat_rest p) + 1 \<and> hd pre = pat_first p \<and>
          list_all2 (\<lambda>pt ct. ct \<in> set (alternatives pt)) (pat_rest p) (tl pre)"
      moreover then obtain args ts where "cs = ts @ args" "pre = c # ts" using Cons by (cases pre) auto
      ultimately show "matches_prefix p cmd = Some pre" using Cons z by (auto simp: matches_prefix_def Let_def)
    qed
  qed
qed

interpretation prefix_rule: exec_rule rule_program rule_matches
proof
  show "cmd \<noteq> [] \<and> hd cmd = rule_program r" if "rule_matches r cmd = Some m" for r cmd m
    using that by (auto simp: rule_matches_def rule_program_def matches_prefix_Some_iff hd_append)
  show "rule_matches r (cmd @ args) = Some m" if "rule_matches r cmd = Some m" for r cmd m args
    using that by (auto simp: rule_matches_def matches_prefix_Some_iff)
qed

section \<open>Network rules\<close>

datatype network_rule_protocol = Http | Https | Socks5Tcp | Socks5Udp

definition parse_protocol :: "rstr \<Rightarrow> ('e exec_error, network_rule_protocol) result" where
  "parse_protocol raw =
     (if raw = ''http'' then Ok Http
      else if raw = ''https'' \<or> raw = ''https_connect'' \<or> raw = ''http-connect'' then Ok Https
      else if raw = ''socks5_tcp'' then Ok Socks5Tcp
      else if raw = ''socks5_udp'' then Ok Socks5Udp
      else Err (InvalidRule
        (''network_rule protocol must be one of http, https, socks5_tcp, socks5_udp (got '' @ raw @ '')'')))"

fun as_policy_string :: "network_rule_protocol \<Rightarrow> rstr" where
  "as_policy_string Http = ''http''"
| "as_policy_string Https = ''https''"
| "as_policy_string Socks5Tcp = ''socks5_tcp''"
| "as_policy_string Socks5Udp = ''socks5_udp''"

record network_rule =
  net_host :: rstr
  net_protocol :: network_rule_protocol
  net_decision :: decision
  net_justification :: "rstr option"

definition is_ascii_digit :: "char \<Rightarrow> bool" where
  "is_ascii_digit c = (48 \<le> (of_char c :: nat) \<and> (of_char c :: nat) \<le> 57)"

definition contains :: "rstr \<Rightarrow> rstr \<Rightarrow> bool" where
  "contains s p = (find_sub p s \<noteq> None)"

definition is_port :: "rstr \<Rightarrow> bool" where
  "is_port port = (port \<noteq> [] \<and> list_all is_ascii_digit port)"

text \<open>The text in brackets or before the port, if the host is written so.\<close>

definition host_part :: "rstr \<Rightarrow> rstr \<Rightarrow> ('e exec_error, rstr) result" where
  "host_part raw host =
     (case strip_prefix ''['' host of
        Some stripped \<Rightarrow>
          (case find_sub '']'' stripped of
             None \<Rightarrow> Err (InvalidRule ''network_rule host has an invalid bracketed IPv6 literal'')
           | Some i \<Rightarrow>
               let inside = take i stripped; rest = drop (i + 1) stripped;
                   port_ok = (case strip_prefix '':'' rest of Some port \<Rightarrow> is_port port | None \<Rightarrow> False)
               in if rest \<noteq> [] \<and> \<not> port_ok
                  then Err (InvalidRule (''network_rule host contains an unsupported suffix: '' @ raw))
                  else Ok inside)
      | None \<Rightarrow>
          (case split_on (CHR '':'') host of
             [candidate, port] \<Rightarrow> if candidate \<noteq> [] \<and> is_port port then Ok candidate else Ok host
           | _ \<Rightarrow> Ok host))"

definition normalize_network_rule_host :: "rstr \<Rightarrow> ('e exec_error, rstr) result" where
  "normalize_network_rule_host raw =
     (let host = trim raw
      in if host = [] then Err (InvalidRule ''network_rule host cannot be empty'')
         else if contains host ''://'' \<or> contains host ''/'' \<or> contains host ''?'' \<or> contains host ''#''
         then Err (InvalidRule ''network_rule host must be a hostname or IP literal (without scheme or path)'')
         else and_then (host_part raw host) (\<lambda>host.
           let normalized = to_ascii_lowercase (trim (rev (dropWhile (\<lambda>c. c = CHR ''.'') (rev host))))
           in if normalized = [] then Err (InvalidRule ''network_rule host cannot be empty'')
              else if contains normalized ''*''
              then Err (InvalidRule ''network_rule host must be a specific host; wildcards are not allowed'')
              else if list_ex (\<lambda>c. c \<in> set white_space) (chars normalized)
              then Err (InvalidRule ''network_rule host cannot contain whitespace'')
              else Ok normalized))"

lemma as_policy_string_roundtrip: "parse_protocol (as_policy_string p) = Ok p"
  by (cases p) (simp_all add: parse_protocol_def)

lemma to_ascii_lowercase_idem: "to_ascii_lowercase (to_ascii_lowercase s) = to_ascii_lowercase s"
  by (auto simp: to_ascii_lowercase_def Let_def)

text \<open>A normalised host is a non-empty text in lower case without wildcard and whitespace.\<close>

lemma normalize_network_rule_host_Ok:
  assumes "normalize_network_rule_host raw = Ok host"
  shows "host \<noteq> []" and "to_ascii_lowercase host = host" and "\<not> contains host ''*''"
    and "\<forall>c \<in> set (chars host). c \<notin> set white_space"
  using assms
  by (auto simp: normalize_network_rule_host_def and_then_eq_Ok Let_def to_ascii_lowercase_idem list_ex_iff split: if_splits)

section \<open>Executable names\<close>

text \<open>The key of an executable on Unix is its name.\<close>

definition executable_lookup_key :: "rstr \<Rightarrow> rstr" where
  "executable_lookup_key raw = raw"

definition executable_path_lookup_key :: "rpath \<Rightarrow> rstr option" where
  "executable_path_lookup_key p = map_option executable_lookup_key (file_name p)"

end
