(* ===== verification/Exec_Policy.thy ===== *)
theory Exec_Policy
  imports Exec_Rule "HOL-Library.AList" "HOL-Library.Char_ord" "HOL-Library.List_Lexorder"
begin

text \<open>
  \<open>execpolicy/src/policy.rs\<close>: the policy, its rules indexed by program, and the evaluation of
  commands. A multimap is an association list from keys to vectors, a hash map one from keys to
  values; the order of the list stands for the order the hash table iterates in, and the facts
  show that no result depends on it. Evaluating never fails, finds every rule that matches
  although only the rules of the program are looked at, and takes the strictest decision; an
  overlay can only make it stricter.
\<close>

section \<open>Multimaps\<close>

type_synonym 'v multimap = "(rstr \<times> 'v list) list"

definition get_vec :: "'v multimap \<Rightarrow> rstr \<Rightarrow> 'v list option" where
  "get_vec m k = map_of m k"

definition mm_insert :: "'v multimap \<Rightarrow> rstr \<Rightarrow> 'v \<Rightarrow> 'v multimap" where
  "mm_insert m k v = AList.update k ((case map_of m k of None \<Rightarrow> [] | Some vs \<Rightarrow> vs) @ [v]) m"

section \<open>Policies\<close>

record match_options =
  resolve_host_executables :: bool

definition default_match_options :: match_options where
  "default_match_options = \<lparr>resolve_host_executables = False\<rparr>"

record exec_policy =
  rules_by_program :: "prefix_rule multimap"
  network_rules :: "network_rule list"
  host_executables_by_name :: "(rstr \<times> rpath list) list"

definition policy_new :: "prefix_rule multimap \<Rightarrow> exec_policy" where
  "policy_new rules = \<lparr>rules_by_program = rules, network_rules = [], host_executables_by_name = []\<rparr>"

definition empty_policy :: exec_policy where
  "empty_policy = policy_new []"

fun render_pattern_token :: "pattern_token \<Rightarrow> rstr" where
  "render_pattern_token (Single value) = value"
| "render_pattern_token (Alts alts) = ''['' @ join_with ''|'' alts @ '']''"

definition get_allowed_prefixes :: "exec_policy \<Rightarrow> rstr list list" where
  "get_allowed_prefixes p =
     remdups_adj (sort (concat (map (\<lambda>(_, rules).
       List.map_filter (\<lambda>r.
         if rule_decision r \<noteq> Allow then None
         else Some (pat_first (rule_pattern r) # map render_pattern_token (pat_rest (rule_pattern r)))) rules)
       (rules_by_program p))))"

definition add_prefix_rule :: "exec_policy \<Rightarrow> rstr list \<Rightarrow> decision \<Rightarrow> ('e exec_error, exec_policy) result" where
  "add_prefix_rule p pre d =
     (case pre of
        [] \<Rightarrow> Err (InvalidPattern ''prefix cannot be empty'')
      | first_token # rest \<Rightarrow>
          let rule = \<lparr>rule_pattern = \<lparr>pat_first = first_token, pat_rest = map Single rest\<rparr>,
                      rule_decision = d, rule_justification = None\<rparr>
          in Ok (p\<lparr>rules_by_program := mm_insert (rules_by_program p) first_token rule\<rparr>))"

definition add_network_rule ::
  "exec_policy \<Rightarrow> rstr \<Rightarrow> network_rule_protocol \<Rightarrow> decision \<Rightarrow> rstr option \<Rightarrow> ('e exec_error, exec_policy) result" where
  "add_network_rule p host protocol d justification =
     and_then (normalize_network_rule_host host) (\<lambda>host.
       case justification of
         Some raw \<Rightarrow>
           if trim raw = [] then Err (InvalidRule ''justification cannot be empty'')
           else Ok (p\<lparr>network_rules := network_rules p @
             [\<lparr>net_host = host, net_protocol = protocol, net_decision = d, net_justification = justification\<rparr>]\<rparr>)
       | None \<Rightarrow> Ok (p\<lparr>network_rules := network_rules p @
             [\<lparr>net_host = host, net_protocol = protocol, net_decision = d, net_justification = justification\<rparr>]\<rparr>))"

definition set_host_executable_paths :: "exec_policy \<Rightarrow> rstr \<Rightarrow> rpath list \<Rightarrow> exec_policy" where
  "set_host_executable_paths p name paths =
     p\<lparr>host_executables_by_name := AList.update name paths (host_executables_by_name p)\<rparr>"

definition merge_overlay :: "exec_policy \<Rightarrow> exec_policy \<Rightarrow> exec_policy" where
  "merge_overlay p overlay =
     \<lparr>rules_by_program =
        fold (\<lambda>(program, rules) m. fold (\<lambda>r m. mm_insert m program r) rules m)
          (rules_by_program overlay) (rules_by_program p),
      network_rules = network_rules p @ network_rules overlay,
      host_executables_by_name =
        fold (\<lambda>(name, paths) m. AList.update name paths m)
          (host_executables_by_name overlay) (host_executables_by_name p)\<rparr>"

definition upsert_domain :: "rstr list \<Rightarrow> rstr \<Rightarrow> rstr list" where
  "upsert_domain entries host = filter (\<lambda>e. e \<noteq> host) entries @ [host]"

fun compile_domain :: "network_rule \<Rightarrow> rstr list \<times> rstr list \<Rightarrow> rstr list \<times> rstr list" where
  "compile_domain r (allowed, denied) =
     (case net_decision r of
        Allow \<Rightarrow> (upsert_domain allowed (net_host r), filter (\<lambda>e. e \<noteq> net_host r) denied)
      | Forbidden \<Rightarrow> (filter (\<lambda>e. e \<noteq> net_host r) allowed, upsert_domain denied (net_host r))
      | Prompt \<Rightarrow> (allowed, denied))"

definition compiled_network_domains :: "exec_policy \<Rightarrow> rstr list \<times> rstr list" where
  "compiled_network_domains p = fold compile_domain (network_rules p) ([], [])"

section \<open>Evaluating commands\<close>

definition match_exact_rules :: "exec_policy \<Rightarrow> rstr list \<Rightarrow> rule_match list option" where
  "match_exact_rules p cmd =
     (case cmd of
        [] \<Rightarrow> None
      | first # _ \<Rightarrow>
          Some (case get_vec (rules_by_program p) first of
                  None \<Rightarrow> []
                | Some rules \<Rightarrow> List.map_filter (\<lambda>r. rule_matches r cmd) rules))"

definition match_host_executable_rules :: "path_env \<Rightarrow> exec_policy \<Rightarrow> rstr list \<Rightarrow> rule_match list" where
  "match_host_executable_rules env p cmd =
     (case cmd of
        [] \<Rightarrow> []
      | first # args \<Rightarrow>
          (case from_absolute_path env first of
             None \<Rightarrow> []
           | Some program \<Rightarrow>
               (case executable_path_lookup_key program of
                  None \<Rightarrow> []
                | Some basename \<Rightarrow>
                    (case get_vec (rules_by_program p) basename of
                       None \<Rightarrow> []
                     | Some rules \<Rightarrow>
                         if (case map_of (host_executables_by_name p) basename of
                               Some paths \<Rightarrow> \<not> list_ex (\<lambda>path. path = program) paths
                             | None \<Rightarrow> False)
                         then []
                         else map (\<lambda>m. with_resolved_program m program)
                                (List.map_filter (\<lambda>r. rule_matches r (basename # args)) rules)))))"

definition matches_for_command_with_options ::
  "path_env \<Rightarrow> exec_policy \<Rightarrow> rstr list \<Rightarrow> (rstr list \<Rightarrow> decision) option \<Rightarrow> match_options \<Rightarrow> rule_match list" where
  "matches_for_command_with_options env p cmd heuristics_fallback options =
     (let exact = (case match_exact_rules p cmd of Some ms \<Rightarrow> if ms \<noteq> [] then Some ms else None | None \<Rightarrow> None);
          matched_rules =
            (case exact of
               Some ms \<Rightarrow> ms
             | None \<Rightarrow>
                 if resolve_host_executables options then match_host_executable_rules env p cmd else [])
      in case heuristics_fallback of
           Some fallback \<Rightarrow>
             if matched_rules = [] then [HeuristicsRuleMatch cmd (fallback cmd)] else matched_rules
         | None \<Rightarrow> matched_rules)"

definition matches_for_command ::
  "path_env \<Rightarrow> exec_policy \<Rightarrow> rstr list \<Rightarrow> (rstr list \<Rightarrow> decision) option \<Rightarrow> rule_match list" where
  "matches_for_command env p cmd heuristics_fallback =
     matches_for_command_with_options env p cmd heuristics_fallback default_match_options"

record evaluation =
  eval_decision :: decision
  eval_matched_rules :: "rule_match list"

fun is_heuristics :: "rule_match \<Rightarrow> bool" where
  "is_heuristics (HeuristicsRuleMatch _ _) = True"
| "is_heuristics (PrefixRuleMatch _ _ _ _) = False"

definition is_match :: "evaluation \<Rightarrow> bool" where
  "is_match ev = list_ex (\<lambda>m. \<not> is_heuristics m) (eval_matched_rules ev)"

text \<open>\<open>None\<close> is the panic of \<open>expect\<close> on an empty list of matches.\<close>

definition from_matches :: "rule_match list \<Rightarrow> evaluation option" where
  "from_matches ms =
     (case map match_decision ms of
        [] \<Rightarrow> None
      | d # ds \<Rightarrow> Some \<lparr>eval_decision = fold max ds d, eval_matched_rules = ms\<rparr>)"

definition check_with_options ::
  "path_env \<Rightarrow> exec_policy \<Rightarrow> rstr list \<Rightarrow> (rstr list \<Rightarrow> decision) \<Rightarrow> match_options \<Rightarrow> evaluation option" where
  "check_with_options env p cmd fallback options =
     from_matches (matches_for_command_with_options env p cmd (Some fallback) options)"

definition check_command :: "path_env \<Rightarrow> exec_policy \<Rightarrow> rstr list \<Rightarrow> (rstr list \<Rightarrow> decision) \<Rightarrow> evaluation option" where
  "check_command env p cmd fallback = check_with_options env p cmd fallback default_match_options"

definition check_multiple_with_options ::
  "path_env \<Rightarrow> exec_policy \<Rightarrow> rstr list list \<Rightarrow> (rstr list \<Rightarrow> decision) \<Rightarrow> match_options \<Rightarrow> evaluation option" where
  "check_multiple_with_options env p cmds fallback options =
     from_matches (concat (map (\<lambda>cmd. matches_for_command_with_options env p cmd (Some fallback) options) cmds))"

definition check_multiple ::
  "path_env \<Rightarrow> exec_policy \<Rightarrow> rstr list list \<Rightarrow> (rstr list \<Rightarrow> decision) \<Rightarrow> evaluation option" where
  "check_multiple env p cmds fallback = check_multiple_with_options env p cmds fallback default_match_options"

section \<open>The index by program\<close>

definition all_rules :: "exec_policy \<Rightarrow> prefix_rule list" where
  "all_rules p = concat (map snd (rules_by_program p))"

text \<open>Every rule is filed under its program, and no program twice.\<close>

definition wf_policy :: "exec_policy \<Rightarrow> bool" where
  "wf_policy p \<longleftrightarrow> distinct (map fst (rules_by_program p)) \<and>
     list_all (\<lambda>(k, rs). list_all (\<lambda>r. rule_program r = k) rs) (rules_by_program p)"

lemma map_of_mm_insert:
  "map_of (mm_insert m k v) = (map_of m)(k \<mapsto> (case map_of m k of None \<Rightarrow> [] | Some vs \<Rightarrow> vs) @ [v])"
  by (simp add: mm_insert_def update_conv')

lemma distinct_mm_insert: "distinct (map fst m) \<Longrightarrow> distinct (map fst (mm_insert m k v))"
  by (simp add: mm_insert_def distinct_update)

lemma wf_policy_iff:
  "wf_policy p \<longleftrightarrow> distinct (map fst (rules_by_program p)) \<and>
    (\<forall>k rs. map_of (rules_by_program p) k = Some rs \<longrightarrow> (\<forall>r \<in> set rs. rule_program r = k))"
  by (auto simp: wf_policy_def list_all_iff dest: map_of_SomeD)

lemma wf_rules_insert:
  assumes "distinct (map fst m)" and "\<forall>k rs. map_of m k = Some rs \<longrightarrow> (\<forall>r \<in> set rs. rule_program r = k)"
    and "rule_program r = k"
  shows "distinct (map fst (mm_insert m k r)) \<and>
    (\<forall>k' rs. map_of (mm_insert m k r) k' = Some rs \<longrightarrow> (\<forall>r \<in> set rs. rule_program r = k'))"
  using assms by (auto simp: distinct_mm_insert map_of_mm_insert split: if_splits option.splits)

lemma wf_empty_policy: "wf_policy empty_policy"
  by (simp add: wf_policy_def empty_policy_def policy_new_def)

lemma add_prefix_rule_wf: "wf_policy p \<Longrightarrow> add_prefix_rule p pre d = Ok p' \<Longrightarrow> wf_policy p'"
  unfolding wf_policy_iff
  by (auto simp: add_prefix_rule_def Let_def rule_program_def distinct_mm_insert map_of_mm_insert
      split: list.splits if_splits option.splits)

text \<open>Inserting the rules of an overlay appends them to those of the same program.\<close>

lemma map_of_insert_all:
  "map_of (fold (\<lambda>r m. mm_insert m k r) rs m) =
    (if rs = [] then map_of m else (map_of m)(k \<mapsto> (case map_of m k of None \<Rightarrow> [] | Some vs \<Rightarrow> vs) @ rs))"
  by (induction rs arbitrary: m) (auto simp: map_of_mm_insert)

definition vec_of :: "'v multimap \<Rightarrow> rstr \<Rightarrow> 'v list" where
  "vec_of m k = (case map_of m k of None \<Rightarrow> [] | Some vs \<Rightarrow> vs)"

lemma vec_of_absent: "k \<notin> fst ` set m \<Longrightarrow> vec_of m k = []"
proof -
  assume "k \<notin> fst ` set m"
  then have "map_of m k = None" by (simp add: map_of_eq_None_iff)
  then show ?thesis by (simp add: vec_of_def)
qed

lemma vec_of_insert_all:
  "vec_of (fold (\<lambda>r m. mm_insert m k r) rs m) k' = (if k' = k then vec_of m k @ rs else vec_of m k')"
  by (auto simp: vec_of_def map_of_insert_all split: option.splits)

lemma vec_of_merge:
  "distinct (map fst o') \<Longrightarrow>
    vec_of (fold (\<lambda>(program, rules) m. fold (\<lambda>r m. mm_insert m program r) rules m) o' m) k =
      vec_of m k @ vec_of o' k"
proof (induction o' arbitrary: m)
  case (Cons x o')
  obtain program rules where x: "x = (program, rules)" by fastforce
  have "vec_of o' program = []" using Cons.prems x by (simp add: vec_of_absent)
  then show ?case using Cons x by (auto simp: vec_of_insert_all) (simp_all add: vec_of_def)
qed (simp add: vec_of_def)

lemma distinct_insert_all: "distinct (map fst m) \<Longrightarrow> distinct (map fst (fold (\<lambda>r m. mm_insert m k r) rs m))"
  by (induction rs arbitrary: m) (auto simp: distinct_mm_insert)

lemma distinct_merge:
  "distinct (map fst m) \<Longrightarrow>
    distinct (map fst (fold (\<lambda>(program, rules) m. fold (\<lambda>r m. mm_insert m program r) rules m) o' m))"
  by (induction o' arbitrary: m) (auto simp: distinct_insert_all)

lemma wf_policy_vec:
  "wf_policy p \<longleftrightarrow> distinct (map fst (rules_by_program p)) \<and>
    (\<forall>k. \<forall>r \<in> set (vec_of (rules_by_program p) k). rule_program r = k)"
  unfolding wf_policy_iff by (auto simp: vec_of_def split: option.splits) metis

lemma merge_overlay_wf: "wf_policy p \<Longrightarrow> wf_policy q \<Longrightarrow> wf_policy (merge_overlay p q)"
  unfolding wf_policy_vec by (auto simp: merge_overlay_def distinct_merge vec_of_merge)

lemma exact_matches_vec:
  "match_exact_rules p (c # cs) = Some (List.map_filter (\<lambda>r. rule_matches r (c # cs)) (vec_of (rules_by_program p) c))"
  by (simp add: match_exact_rules_def get_vec_def vec_of_def split: option.split)

lemma match_exact_rules_scan:
  assumes "wf_policy p"
  shows "match_exact_rules p (c # cs) = Some (List.map_filter (\<lambda>r. rule_matches r (c # cs)) (all_rules p))"
proof -
  have "List.map_filter (\<lambda>r. rule_matches r (c # cs)) (vec_of m c) =
      List.map_filter (\<lambda>r. rule_matches r (c # cs)) (concat (map snd m))"
    if "distinct (map fst m)" "list_all (\<lambda>(k, rs). list_all (\<lambda>r. rule_program r = k) rs) m" for m
    using that
  proof (induction m)
    case (Cons x m)
    obtain k rs where x: "x = (k, rs)" by fastforce
    show ?case
    proof (cases "k = c")
      case True
      then have none: "vec_of m c = []" using Cons.prems x by (simp add: vec_of_absent)
      then have "List.map_filter (\<lambda>r. rule_matches r (c # cs)) (concat (map snd m)) = []"
        using Cons by simp
      then show ?thesis using x True by (simp add: vec_of_def map_filter_append)
    next
      case False
      then have "List.map_filter (\<lambda>r. rule_matches r (c # cs)) rs = []"
        using Cons.prems x by (intro prefix_rule.matches_other_program) (auto simp: list_all_iff)
      then show ?thesis using Cons x False by (simp add: vec_of_def map_filter_append)
    qed
  qed (simp add: vec_of_def)
  then show ?thesis using assms by (simp add: exact_matches_vec wf_policy_def all_rules_def)
qed

section \<open>The strictest decision\<close>

lemma fold_max_Max: "fold max ds (d :: 'a :: linorder) = Max (set (d # ds))"
  using Max.set_eq_fold [of d ds] by simp

lemma from_matches_Some:
  "ms \<noteq> [] \<Longrightarrow> from_matches ms = Some \<lparr>eval_decision = Max (match_decision ` set ms), eval_matched_rules = ms\<rparr>"
  by (cases ms) (simp_all add: from_matches_def fold_max_Max)

lemma matches_with_fallback_ne: "matches_for_command_with_options env p cmd (Some fb) opts \<noteq> []"
  by (auto simp: matches_for_command_with_options_def Let_def)

lemma check_decision:
  "check_with_options env p cmd fb opts =
    Some \<lparr>eval_decision = Max (match_decision ` set (matches_for_command_with_options env p cmd (Some fb) opts)),
          eval_matched_rules = matches_for_command_with_options env p cmd (Some fb) opts\<rparr>"
  by (simp add: check_with_options_def from_matches_Some matches_with_fallback_ne)

lemma matches_exact:
  "match_exact_rules p cmd = Some ms \<Longrightarrow> ms \<noteq> [] \<Longrightarrow> matches_for_command_with_options env p cmd fb opts = ms"
  by (auto simp: matches_for_command_with_options_def Let_def split: option.splits)

text \<open>A command an exact rule matches can only be decided more strictly by adding rules.\<close>

lemma exact_superset_stricter:
  assumes "match_exact_rules p cmd = Some ms" and "ms \<noteq> []" and "match_exact_rules q cmd = Some (ms @ ns)"
    and "check_with_options env p cmd fb opts = Some e" and "check_with_options env q cmd fb opts = Some e'"
  shows "eval_decision e \<le> eval_decision e'"
proof -
  have "eval_decision e = Max (match_decision ` set ms)"
    using assms(4) matches_exact [OF assms(1,2)] by (auto simp: check_decision)
  moreover have "eval_decision e' = Max (match_decision ` set (ms @ ns))"
    using assms(2,5) matches_exact [OF assms(3)] by (auto simp: check_decision)
  ultimately show ?thesis using assms(2) by (auto intro: Max_mono)
qed

lemma merge_overlay_exact:
  assumes "wf_policy q"
  shows "match_exact_rules (merge_overlay p q) (c # cs) =
    Some (the (match_exact_rules p (c # cs)) @ the (match_exact_rules q (c # cs)))"
  using assms by (simp add: exact_matches_vec merge_overlay_def vec_of_merge wf_policy_def map_filter_append)

lemma single_matches: "list_all2 (\<lambda>pt ct. ct \<in> set (alternatives pt)) (map Single ts) cs \<longleftrightarrow> cs = ts"
  by (induction ts arbitrary: cs) (auto simp: list_all2_Cons1)

lemma matches_prefix_single:
  "matches_prefix \<lparr>pat_first = t, pat_rest = map Single ts\<rparr> cmd = (if prefix (t # ts) cmd then Some (t # ts) else None)"
proof -
  have "matches_prefix \<lparr>pat_first = t, pat_rest = map Single ts\<rparr> cmd = Some pre \<longleftrightarrow> pre = t # ts \<and> prefix pre cmd" for pre
    by (cases pre) (auto simp: matches_prefix_Some_iff single_matches prefix_def)
  then show ?thesis by (metis option.exhaust)
qed

text \<open>Adding a prefix rule adds its match to the commands with that prefix and changes no other.\<close>

lemma add_prefix_rule_exact:
  assumes "add_prefix_rule p pre d = Ok p'"
  shows "match_exact_rules p' (c # cs) =
    Some (the (match_exact_rules p (c # cs)) @ (if prefix pre (c # cs) then [PrefixRuleMatch pre d None None] else []))"
proof -
  obtain t ts where pre: "pre = t # ts" using assms by (cases pre) (auto simp: add_prefix_rule_def)
  let ?r = "\<lparr>rule_pattern = \<lparr>pat_first = t, pat_rest = map Single ts\<rparr>, rule_decision = d, rule_justification = None\<rparr>"
  have "rules_by_program p' = fold (\<lambda>r m. mm_insert m t r) [?r] (rules_by_program p)"
    using assms pre by (auto simp: add_prefix_rule_def Let_def)
  then have "vec_of (rules_by_program p') c =
      (if c = t then vec_of (rules_by_program p) t @ [?r] else vec_of (rules_by_program p) c)"
    by (simp only: vec_of_insert_all)
  then show ?thesis
    using pre by (auto simp: exact_matches_vec map_filter_append rule_matches_def matches_prefix_single)
qed

section \<open>Allowed prefixes\<close>

lemma remdups_adj_sorted_distinct: "sorted xs \<Longrightarrow> distinct (remdups_adj xs)"
proof (induction xs rule: remdups_adj.induct)
  case (3 x y xs)
  then show ?case by (cases "x = y") (auto simp: less_le_not_le)
qed auto

lemma get_allowed_prefixes_set:
  "set (get_allowed_prefixes p) =
    {pat_first (rule_pattern r) # map render_pattern_token (pat_rest (rule_pattern r)) |r.
       r \<in> set (all_rules p) \<and> rule_decision r = Allow}"
proof -
  have "y \<in> set (get_allowed_prefixes p) \<longleftrightarrow> (\<exists>x \<in> set (rules_by_program p). \<exists>r \<in> set (snd x).
      rule_decision r = Allow \<and> y = pat_first (rule_pattern r) # map render_pattern_token (pat_rest (rule_pattern r)))" for y
    by (auto simp: get_allowed_prefixes_def in_set_map_filter split_def split: if_splits)
  moreover have "r \<in> set (all_rules p) \<longleftrightarrow> (\<exists>x \<in> set (rules_by_program p). r \<in> set (snd x))" for r
    by (auto simp: all_rules_def)
  ultimately show ?thesis unfolding set_eq_iff mem_Collect_eq by blast
qed

lemma get_allowed_prefixes_sorted: "sorted (get_allowed_prefixes p) \<and> distinct (get_allowed_prefixes p)"
  by (simp add: get_allowed_prefixes_def remdups_adj_sorted_distinct sorted_remdups_adj)

section \<open>Network domains\<close>

text \<open>The last rule for a host that allows or forbids it.\<close>

definition last_verdict :: "rstr \<Rightarrow> network_rule list \<Rightarrow> decision option" where
  "last_verdict h rs = last_opt (map net_decision (filter (\<lambda>r. net_host r = h \<and> net_decision r \<noteq> Prompt) rs))"

lemma compile_domain_snoc:
  "last_verdict h (rs @ [r]) =
    (if net_host r = h \<and> net_decision r \<noteq> Prompt then Some (net_decision r) else last_verdict h rs)"
  by (simp add: last_verdict_def)

lemma compiled_network_domains_verdict:
  "fold compile_domain rs ([], []) = (allowed, denied) \<Longrightarrow>
    distinct allowed \<and> distinct denied \<and>
    (h \<in> set allowed \<longleftrightarrow> last_verdict h rs = Some Allow) \<and>
    (h \<in> set denied \<longleftrightarrow> last_verdict h rs = Some Forbidden)"
proof (induction rs arbitrary: allowed denied rule: snoc_induct)
  case Nil
  then show ?case by (simp add: last_verdict_def)
next
  case (snoc rs r)
  obtain a d where ad: "fold compile_domain rs ([], []) = (a, d)" by fastforce
  from snoc.IH [OF ad] show ?case
    using snoc.prems ad
    by (cases "net_decision r") (auto simp: compile_domain_snoc upsert_domain_def)
qed

end
