(* ===== verification/Exec_Policy_Parser.thy ===== *)
theory Exec_Policy_Parser
  imports Exec_Policy
begin

text \<open>
  \<open>execpolicy/src/parser.rs\<close> and the example validation of \<open>rule.rs\<close>: building a policy
  from policy files. The Starlark interpreter is a parameter: it turns a file into the calls of
  the three built-in functions it makes, and its values are seen through \<open>policy_api\<close>, as are
  \<open>shlex\<close> and the debug rendering. The facts: every parsed policy is well-formed, a parse that
  succeeds has validated the examples, and what a call of \<open>prefix_rule\<close> makes match.
\<close>

section \<open>Parameters\<close>

record 'v policy_api =
  unpack_str :: "'v \<Rightarrow> rstr option"
  list_content :: "'v \<Rightarrow> 'v list option"
  get_type :: "'v \<Rightarrow> rstr"
  shlex_split :: "rstr \<Rightarrow> rstr list option"
  try_join :: "rstr list \<Rightarrow> rstr option"
  debug_rule :: "prefix_rule \<Rightarrow> rstr"
  debug_match :: "rule_match \<Rightarrow> rstr"

section \<open>Validating examples\<close>

definition render_example :: "'v policy_api \<Rightarrow> rstr list \<Rightarrow> rstr" where
  "render_example api example =
     (case try_join api example of Some s \<Rightarrow> s | None \<Rightarrow> ''unable to render example'')"

definition matches_example :: "path_env \<Rightarrow> exec_policy \<Rightarrow> rstr list \<Rightarrow> rule_match list" where
  "matches_example env p example =
     matches_for_command_with_options env p example None \<lparr>resolve_host_executables = True\<rparr>"

definition validate_match_examples ::
  "'v policy_api \<Rightarrow> path_env \<Rightarrow> exec_policy \<Rightarrow> prefix_rule list \<Rightarrow> rstr list list \<Rightarrow> ('e exec_error, unit) result" where
  "validate_match_examples api env p rules examples =
     (let unmatched = map (render_example api) (filter (\<lambda>ex. matches_example env p ex = []) examples)
      in if unmatched = [] then Ok ()
         else Err (ExampleDidNotMatch (map (debug_rule api) rules) unmatched None))"

fun validate_not_match_examples ::
  "'v policy_api \<Rightarrow> path_env \<Rightarrow> exec_policy \<Rightarrow> rstr list list \<Rightarrow> ('e exec_error, unit) result" where
  "validate_not_match_examples api env p [] = Ok ()"
| "validate_not_match_examples api env p (ex # exs) =
     (case matches_example env p ex of
        m # _ \<Rightarrow> Err (ExampleDidMatch (debug_match api m) (render_example api ex) None)
      | [] \<Rightarrow> validate_not_match_examples api env p exs)"

definition attach_validation_location :: "'e exec_error \<Rightarrow> error_location option \<Rightarrow> 'e exec_error" where
  "attach_validation_location err loc = (case loc of Some l \<Rightarrow> with_location err l | None \<Rightarrow> err)"

section \<open>The builder\<close>

record pending_example_validation =
  val_rules :: "prefix_rule list"
  val_matches :: "rstr list list"
  val_not_matches :: "rstr list list"
  val_location :: "error_location option"

record policy_builder =
  b_rules_by_program :: "prefix_rule multimap"
  b_network_rules :: "network_rule list"
  b_host_executables :: "(rstr \<times> rpath list) list"
  pending_example_validations :: "pending_example_validation list"

definition builder_new :: policy_builder where
  "builder_new = \<lparr>b_rules_by_program = [], b_network_rules = [], b_host_executables = [],
     pending_example_validations = []\<rparr>"

definition add_rule :: "prefix_rule \<Rightarrow> policy_builder \<Rightarrow> policy_builder" where
  "add_rule r b = b\<lparr>b_rules_by_program := mm_insert (b_rules_by_program b) (rule_program r) r\<rparr>"

definition builder_add_network_rule :: "network_rule \<Rightarrow> policy_builder \<Rightarrow> policy_builder" where
  "builder_add_network_rule r b = b\<lparr>b_network_rules := b_network_rules b @ [r]\<rparr>"

definition add_host_executable :: "rstr \<Rightarrow> rpath list \<Rightarrow> policy_builder \<Rightarrow> policy_builder" where
  "add_host_executable name paths b = b\<lparr>b_host_executables := AList.update name paths (b_host_executables b)\<rparr>"

definition add_pending_example_validation ::
  "prefix_rule list \<Rightarrow> rstr list list \<Rightarrow> rstr list list \<Rightarrow> error_location option \<Rightarrow> policy_builder \<Rightarrow> policy_builder" where
  "add_pending_example_validation rules matches not_matches loc b =
     b\<lparr>pending_example_validations := pending_example_validations b @
       [\<lparr>val_rules = rules, val_matches = matches, val_not_matches = not_matches, val_location = loc\<rparr>]\<rparr>"

definition map_err :: "('e \<Rightarrow> 'f) \<Rightarrow> ('e, 'a) result \<Rightarrow> ('f, 'a) result" where
  "map_err f r = (case r of Err e \<Rightarrow> Err (f e) | Ok a \<Rightarrow> Ok a)"

definition validation_policy :: "policy_builder \<Rightarrow> pending_example_validation \<Rightarrow> exec_policy" where
  "validation_policy b v =
     \<lparr>rules_by_program = fold (\<lambda>r m. mm_insert m (rule_program r) r) (val_rules v) [],
      network_rules = [], host_executables_by_name = b_host_executables b\<rparr>"

definition validate_one ::
  "'v policy_api \<Rightarrow> path_env \<Rightarrow> policy_builder \<Rightarrow> pending_example_validation \<Rightarrow> ('e exec_error, unit) result" where
  "validate_one api env b v =
     (let p = validation_policy b v
      in and_then
           (map_err (\<lambda>e. attach_validation_location e (val_location v))
             (validate_not_match_examples api env p (val_not_matches v)))
           (\<lambda>_. map_err (\<lambda>e. attach_validation_location e (val_location v))
             (validate_match_examples api env p (val_rules v) (val_matches v))))"

definition validate_pending_examples_from ::
  "'v policy_api \<Rightarrow> path_env \<Rightarrow> policy_builder \<Rightarrow> nat \<Rightarrow> ('e exec_error, unit) result" where
  "validate_pending_examples_from api env b start =
     fold_result (\<lambda>v _. validate_one api env b v) (drop start (pending_example_validations b)) ()"

definition builder_build :: "policy_builder \<Rightarrow> exec_policy" where
  "builder_build b =
     \<lparr>rules_by_program = b_rules_by_program b, network_rules = b_network_rules b,
      host_executables_by_name = b_host_executables b\<rparr>"

section \<open>Arguments of the built-in functions\<close>

definition parse_pattern_token :: "'v policy_api \<Rightarrow> 'v \<Rightarrow> ('e exec_error, pattern_token) result" where
  "parse_pattern_token api v =
     (case unpack_str api v of
        Some s \<Rightarrow> Ok (Single s)
      | None \<Rightarrow>
          (case list_content api v of
             Some vs \<Rightarrow>
               and_then
                 (collect_results (\<lambda>v. case unpack_str api v of
                     Some s \<Rightarrow> Ok s
                   | None \<Rightarrow> Err (InvalidPattern (''pattern alternative must be a string (got '' @ get_type api v @ '')''))) vs)
                 (\<lambda>tokens. case tokens of
                    [] \<Rightarrow> Err (InvalidPattern ''pattern alternatives cannot be empty'')
                  | [single] \<Rightarrow> Ok (Single single)
                  | _ \<Rightarrow> Ok (Alts tokens))
           | None \<Rightarrow> Err (InvalidPattern
               (''pattern element must be a string or list of strings (got '' @ get_type api v @ '')''))))"

definition parse_pattern :: "'v policy_api \<Rightarrow> 'v list \<Rightarrow> ('e exec_error, pattern_token list) result" where
  "parse_pattern api vs =
     and_then (collect_results (parse_pattern_token api) vs)
       (\<lambda>tokens. if tokens = [] then Err (InvalidPattern ''pattern cannot be empty'') else Ok tokens)"

definition parse_string_example :: "'v policy_api \<Rightarrow> rstr \<Rightarrow> ('e exec_error, rstr list) result" where
  "parse_string_example api raw =
     (case shlex_split api raw of
        None \<Rightarrow> Err (InvalidExample ''example string has invalid shell syntax'')
      | Some tokens \<Rightarrow>
          if tokens = [] then Err (InvalidExample ''example cannot be an empty string'') else Ok tokens)"

definition parse_list_example :: "'v policy_api \<Rightarrow> 'v list \<Rightarrow> ('e exec_error, rstr list) result" where
  "parse_list_example api vs =
     and_then
       (collect_results (\<lambda>v. case unpack_str api v of
           Some s \<Rightarrow> Ok s
         | None \<Rightarrow> Err (InvalidExample (''example tokens must be strings (got '' @ get_type api v @ '')''))) vs)
       (\<lambda>tokens. if tokens = [] then Err (InvalidExample ''example cannot be an empty list'') else Ok tokens)"

definition parse_example :: "'v policy_api \<Rightarrow> 'v \<Rightarrow> ('e exec_error, rstr list) result" where
  "parse_example api v =
     (case unpack_str api v of
        Some raw \<Rightarrow> parse_string_example api raw
      | None \<Rightarrow>
          (case list_content api v of
             Some vs \<Rightarrow> parse_list_example api vs
           | None \<Rightarrow> Err (InvalidExample (''example must be a string or list of strings (got '' @ get_type api v @ '')''))))"

definition parse_examples :: "'v policy_api \<Rightarrow> 'v list \<Rightarrow> ('e exec_error, rstr list list) result" where
  "parse_examples api vs = collect_results (parse_example api) vs"

text \<open>On Unix a path that starts at the root needs no current directory, so the second error,
  whose text would end with that of the failed lookup, does not occur.\<close>

definition parse_literal_absolute_path :: "path_env \<Rightarrow> rstr \<Rightarrow> ('e exec_error, rpath) result" where
  "parse_literal_absolute_path env raw =
     (if \<not> is_absolute (components raw)
      then Err (InvalidRule (''host_executable paths must be absolute (got '' @ raw @ '')''))
      else case from_absolute_path env raw of
             Some p \<Rightarrow> Ok p
           | None \<Rightarrow> Err (InvalidRule (''invalid absolute path `'' @ raw @ ''`'')))"

definition validate_host_executable_name :: "rstr \<Rightarrow> ('e exec_error, unit) result" where
  "validate_host_executable_name name =
     (if name = [] then Err (InvalidRule ''host_executable name cannot be empty'')
      else if length (components name) \<noteq> 1 \<or> file_name (components name) \<noteq> Some name
      then Err (InvalidRule (''host_executable name must be a bare executable name (got '' @ name @ '')''))
      else Ok ())"

definition parse_network_rule_decision :: "rstr \<Rightarrow> ('e exec_error, decision) result" where
  "parse_network_rule_decision raw = (if raw = ''deny'' then Ok Forbidden else parse_decision raw)"

definition parse_justification :: "rstr option \<Rightarrow> ('e exec_error, rstr option) result" where
  "parse_justification j =
     (case j of
        Some raw \<Rightarrow> if trim raw = [] then Err (InvalidRule ''justification cannot be empty'') else Ok (Some raw)
      | None \<Rightarrow> Ok None)"

definition optional_examples :: "'v policy_api \<Rightarrow> 'v list option \<Rightarrow> ('e exec_error, rstr list list) result" where
  "optional_examples api exs = (case exs of None \<Rightarrow> Ok [] | Some vs \<Rightarrow> parse_examples api vs)"

section \<open>The built-in functions\<close>

text \<open>A call the policy file makes, with its arguments and the location of the call.\<close>

datatype 'v policy_call =
  CallPrefixRule "'v list" "rstr option" "'v list option" "'v list option" "rstr option" "error_location option"
| CallNetworkRule rstr rstr rstr "rstr option"
| CallHostExecutable rstr "'v list"

definition prefix_rules_of :: "pattern_token list \<Rightarrow> decision \<Rightarrow> rstr option \<Rightarrow> prefix_rule list" where
  "prefix_rules_of tokens d j =
     map (\<lambda>h. \<lparr>rule_pattern = \<lparr>pat_first = h, pat_rest = tl tokens\<rparr>, rule_decision = d, rule_justification = j\<rparr>)
       (alternatives (hd tokens))"

definition builtin_prefix_rule ::
  "'v policy_api \<Rightarrow> 'v list \<Rightarrow> rstr option \<Rightarrow> 'v list option \<Rightarrow> 'v list option \<Rightarrow> rstr option
    \<Rightarrow> error_location option \<Rightarrow> policy_builder \<Rightarrow> ('e exec_error, policy_builder) result" where
  "builtin_prefix_rule api pattern d matches not_matches justification loc b =
     and_then (case d of Some raw \<Rightarrow> parse_decision raw | None \<Rightarrow> Ok Allow) (\<lambda>d.
     and_then (parse_justification justification) (\<lambda>j.
     and_then (parse_pattern api pattern) (\<lambda>tokens.
     and_then (optional_examples api matches) (\<lambda>ms.
     and_then (optional_examples api not_matches) (\<lambda>nms.
       if tokens = [] then Err (InvalidPattern ''pattern cannot be empty'')
       else let rules = prefix_rules_of tokens d j
            in Ok (fold add_rule rules (add_pending_example_validation rules ms nms loc b)))))))"

definition builtin_network_rule ::
  "rstr \<Rightarrow> rstr \<Rightarrow> rstr \<Rightarrow> rstr option \<Rightarrow> policy_builder \<Rightarrow> ('e exec_error, policy_builder) result" where
  "builtin_network_rule host protocol d justification b =
     and_then (parse_protocol protocol) (\<lambda>protocol.
     and_then (parse_network_rule_decision d) (\<lambda>d.
     and_then (parse_justification justification) (\<lambda>j.
     and_then (normalize_network_rule_host host) (\<lambda>host.
       Ok (builder_add_network_rule
         \<lparr>net_host = host, net_protocol = protocol, net_decision = d, net_justification = j\<rparr> b)))))"

text \<open>One turn of the loop over the paths of \<open>host_executable\<close>.\<close>

definition host_executable_path ::
  "'v policy_api \<Rightarrow> path_env \<Rightarrow> rstr \<Rightarrow> 'v \<Rightarrow> rpath list \<Rightarrow> ('e exec_error, rpath list) result" where
  "host_executable_path api env name v parsed_paths =
     (case unpack_str api v of
        None \<Rightarrow> Err (InvalidRule (''host_executable paths must be strings (got '' @ get_type api v @ '')''))
      | Some raw \<Rightarrow>
          and_then (parse_literal_absolute_path env raw) (\<lambda>path.
            if executable_path_lookup_key path \<noteq> Some (executable_lookup_key name)
            then Err (InvalidRule (''host_executable path `'' @ raw @ ''` must have basename `'' @ name @ ''`''))
            else Ok (if list_ex (\<lambda>existing. existing = path) parsed_paths then parsed_paths
                     else parsed_paths @ [path])))"

definition builtin_host_executable ::
  "'v policy_api \<Rightarrow> path_env \<Rightarrow> rstr \<Rightarrow> 'v list \<Rightarrow> policy_builder \<Rightarrow> ('e exec_error, policy_builder) result" where
  "builtin_host_executable api env name paths b =
     and_then (validate_host_executable_name name) (\<lambda>_.
     and_then (fold_result (host_executable_path api env name) paths []) (\<lambda>parsed_paths.
       Ok (add_host_executable (executable_lookup_key name) parsed_paths b)))"

fun run_call ::
  "'v policy_api \<Rightarrow> path_env \<Rightarrow> 'v policy_call \<Rightarrow> policy_builder \<Rightarrow> ('e exec_error, policy_builder) result" where
  "run_call api env (CallPrefixRule pattern d ms nms j loc) b = builtin_prefix_rule api pattern d ms nms j loc b"
| "run_call api env (CallNetworkRule host protocol d j) b = builtin_network_rule host protocol d j b"
| "run_call api env (CallHostExecutable name paths) b = builtin_host_executable api env name paths b"

section \<open>Parsing a policy file\<close>

text \<open>
  The interpreter rejects a file or says which calls it makes and whether it fails by itself
  after them. An error of a built-in function ends the evaluation; \<open>wrap\<close> is the conversion of
  it into an error of the interpreter. The builder keeps what the calls before it added.
\<close>

record ('v, 'e) interpreter =
  interpret_file :: "rstr \<Rightarrow> rstr \<Rightarrow> ('e, 'v policy_call list \<times> 'e option) result"
  wrap :: "'e exec_error \<Rightarrow> 'e"

fun run_calls ::
  "('v, 'e) interpreter \<Rightarrow> 'v policy_api \<Rightarrow> path_env \<Rightarrow> 'v policy_call list \<Rightarrow> policy_builder
    \<Rightarrow> policy_builder \<times> 'e option" where
  "run_calls interp api env [] b = (b, None)"
| "run_calls interp api env (c # cs) b =
     (case run_call api env c b of
        Err e \<Rightarrow> (b, Some (wrap interp e))
      | Ok b' \<Rightarrow> run_calls interp api env cs b')"

definition policy_parse ::
  "('v, 'e) interpreter \<Rightarrow> 'v policy_api \<Rightarrow> path_env \<Rightarrow> rstr \<Rightarrow> rstr \<Rightarrow> policy_builder
    \<Rightarrow> policy_builder \<times> ('e exec_error, unit) result" where
  "policy_parse interp api env policy_identifier contents b =
     (let pending_validation_count = length (pending_example_validations b)
      in case interpret_file interp policy_identifier contents of
           Err e \<Rightarrow> (b, Err (Starlark e))
         | Ok (calls, final) \<Rightarrow>
             (case run_calls interp api env calls b of
                (b', Some e) \<Rightarrow> (b', Err (Starlark e))
              | (b', None) \<Rightarrow>
                  (case final of
                     Some e \<Rightarrow> (b', Err (Starlark e))
                   | None \<Rightarrow> (b', validate_pending_examples_from api env b' pending_validation_count))))"

section \<open>Every parsed policy is well-formed\<close>

definition wf_builder :: "policy_builder \<Rightarrow> bool" where
  "wf_builder b = wf_policy (builder_build b)"

lemma wf_builder_iff:
  "wf_builder b \<longleftrightarrow> distinct (map fst (b_rules_by_program b)) \<and>
    (\<forall>k rs. map_of (b_rules_by_program b) k = Some rs \<longrightarrow> (\<forall>r \<in> set rs. rule_program r = k))"
  by (simp add: wf_builder_def wf_policy_iff builder_build_def)

lemma wf_builder_new: "wf_builder builder_new"
  by (simp add: wf_builder_iff builder_new_def)

lemma wf_add_rule: "wf_builder b \<Longrightarrow> wf_builder (add_rule r b)"
proof -
  assume "wf_builder b"
  then have "distinct (map fst (b_rules_by_program b))"
    "\<forall>k rs. map_of (b_rules_by_program b) k = Some rs \<longrightarrow> (\<forall>r \<in> set rs. rule_program r = k)"
    unfolding wf_builder_iff by blast+
  note ins = wf_rules_insert [OF this refl, of r]
  have eq: "b_rules_by_program (add_rule r b) = mm_insert (b_rules_by_program b) (rule_program r) r"
    by (simp add: add_rule_def)
  show ?thesis unfolding wf_builder_iff eq using ins by blast
qed

lemma wf_add_rules: "wf_builder b \<Longrightarrow> wf_builder (fold add_rule rs b)"
  by (induction rs arbitrary: b) (auto simp: wf_add_rule)

lemma wf_builder_cong: "b_rules_by_program b' = b_rules_by_program b \<Longrightarrow> wf_builder b' \<longleftrightarrow> wf_builder b"
  by (simp only: wf_builder_iff)

lemma builtin_prefix_rule_Ok:
  assumes "builtin_prefix_rule api pattern d matches not_matches justification loc b =
      (Ok b' :: ('e exec_error, policy_builder) result)"
  obtains tokens d' j ms nms where "parse_pattern api pattern = (Ok tokens :: ('e exec_error, pattern_token list) result)" and "tokens \<noteq> []"
    and "b' = fold add_rule (prefix_rules_of tokens d' j) (add_pending_example_validation (prefix_rules_of tokens d' j) ms nms loc b)"
proof -
  from assms obtain d' j tokens ms nms where
    "parse_pattern api pattern = (Ok tokens :: ('e exec_error, pattern_token list) result)" "tokens \<noteq> []"
    "b' = fold add_rule (prefix_rules_of tokens d' j) (add_pending_example_validation (prefix_rules_of tokens d' j) ms nms loc b)"
    unfolding builtin_prefix_rule_def and_then_eq_Ok Let_def by (auto split: if_splits)
  then show thesis by (rule that)
qed

lemma wf_add_pending [simp]: "wf_builder (add_pending_example_validation rs ms nms loc b) \<longleftrightarrow> wf_builder b"
  by (rule wf_builder_cong) (simp add: add_pending_example_validation_def)

lemma run_call_wf: "run_call api env c b = Ok b' \<Longrightarrow> wf_builder b \<Longrightarrow> wf_builder b'"
proof (cases c)
  case (CallPrefixRule pattern d ms nms j loc)
  assume "run_call api env c b = Ok b'" "wf_builder b"
  then show ?thesis
    using CallPrefixRule by (auto elim!: builtin_prefix_rule_Ok intro!: wf_add_rules)
next
  case (CallNetworkRule host protocol d j)
  assume "run_call api env c b = Ok b'" "wf_builder b"
  then show ?thesis
    using CallNetworkRule wf_builder_cong [of b' b]
    by (auto simp: builtin_network_rule_def and_then_eq_Ok builder_add_network_rule_def)
next
  case (CallHostExecutable name paths)
  assume "run_call api env c b = Ok b'" "wf_builder b"
  then show ?thesis
    using CallHostExecutable wf_builder_cong [of b' b]
    by (auto simp: builtin_host_executable_def and_then_eq_Ok add_host_executable_def)
qed

lemma run_calls_wf: "wf_builder b \<Longrightarrow> wf_builder (fst (run_calls interp api env cs b))"
  by (induction cs arbitrary: b) (auto split: sum.splits dest: run_call_wf)

lemma policy_parse_wf: "wf_builder b \<Longrightarrow> wf_builder (fst (policy_parse interp api env name contents b))"
  using run_calls_wf [of b interp api env]
  by (auto simp: policy_parse_def Let_def split: sum.splits prod.splits option.splits) (metis fst_conv)+

section \<open>Validated examples\<close>

lemma validate_not_match_Ok:
  "validate_not_match_examples api env p exs = Ok () \<longleftrightarrow> (\<forall>ex \<in> set exs. matches_example env p ex = [])"
  by (induction exs) (auto split: list.splits)

lemma validate_match_Ok:
  "validate_match_examples api env p rules exs = Ok () \<longleftrightarrow> (\<forall>ex \<in> set exs. matches_example env p ex \<noteq> [])"
  by (auto simp: validate_match_examples_def Let_def filter_empty_conv)

lemma map_err_Ok [simp]: "map_err f r = Ok a \<longleftrightarrow> r = Ok a"
  by (cases r) (auto simp: map_err_def)

lemma validate_pending_Ok:
  assumes "validate_pending_examples_from api env b start = (Ok () :: ('e exec_error, unit) result)"
    and "v \<in> set (drop start (pending_example_validations b))"
  shows "(\<forall>ex \<in> set (val_matches v). matches_example env (validation_policy b v) ex \<noteq> []) \<and>
    (\<forall>ex \<in> set (val_not_matches v). matches_example env (validation_policy b v) ex = [])"
proof -
  have "fold_result (\<lambda>v _. validate_one api env b v) vs () = (Ok () :: ('e exec_error, unit) result) \<Longrightarrow>
      v \<in> set vs \<Longrightarrow> validate_one api env b v = (Ok () :: ('e exec_error, unit) result)" for vs
    by (induction vs) (auto split: sum.splits)
  then have "validate_one api env b v = (Ok () :: ('e exec_error, unit) result)"
    using assms by (simp add: validate_pending_examples_from_def)
  then show ?thesis
    by (simp add: validate_one_def Let_def and_then_eq_Ok validate_not_match_Ok validate_match_Ok)
qed

section \<open>What a prefix rule matches\<close>

lemma prefix_rules_of_match:
  assumes "tokens \<noteq> []"
  shows "List.map_filter (\<lambda>r. rule_matches r cmd) (prefix_rules_of tokens d j) \<noteq> [] \<longleftrightarrow>
    (\<exists>pre args. cmd = pre @ args \<and> list_all2 (\<lambda>pt ct. ct \<in> set (alternatives pt)) tokens pre)"
proof -
  obtain t ts where tokens: "tokens = t # ts" using assms by (cases tokens) auto
  have "List.map_filter (\<lambda>r. rule_matches r cmd) (prefix_rules_of tokens d j) \<noteq> [] \<longleftrightarrow>
      (\<exists>h \<in> set (alternatives t). \<exists>pre. matches_prefix \<lparr>pat_first = h, pat_rest = ts\<rparr> cmd = Some pre)"
    unfolding set_empty [symmetric] using tokens
    by (auto simp: set_eq_iff in_set_map_filter prefix_rules_of_def rule_matches_def)
  also have "\<dots> \<longleftrightarrow> (\<exists>pre args. cmd = pre @ args \<and> list_all2 (\<lambda>pt ct. ct \<in> set (alternatives pt)) tokens pre)"
    unfolding tokens matches_prefix_Some_iff list_all2_Cons1
    by (auto simp: length_Suc_conv) (metis append_Cons list_all2_lengthD length_Cons list.sel(1,3))+
  finally show ?thesis .
qed

lemma vec_of_add_rules:
  "vec_of (b_rules_by_program (fold add_rule rs b)) k =
    vec_of (b_rules_by_program b) k @ filter (\<lambda>r. rule_program r = k) rs"
proof (induction rs arbitrary: b)
  case (Cons r rs)
  have "vec_of (b_rules_by_program (add_rule r b)) k =
      vec_of (b_rules_by_program b) k @ (if rule_program r = k then [r] else [])"
    using vec_of_insert_all [of "rule_program r" "[r]" "b_rules_by_program b" k] by (auto simp: add_rule_def)
  with Cons show ?case by simp
qed simp

text \<open>A successful call of \<open>prefix_rule\<close> adds exactly the matches its pattern describes.\<close>

lemma builtin_prefix_rule_matches:
  assumes "builtin_prefix_rule api pattern d ms nms justification loc b =
      (Ok b' :: ('e exec_error, policy_builder) result)"
  shows "\<exists>tokens new. parse_pattern api pattern = (Ok tokens :: ('e exec_error, pattern_token list) result) \<and>
    the (match_exact_rules (builder_build b') (c # cs)) = the (match_exact_rules (builder_build b) (c # cs)) @ new \<and>
    (new \<noteq> [] \<longleftrightarrow> (\<exists>pre args. c # cs = pre @ args \<and> list_all2 (\<lambda>pt ct. ct \<in> set (alternatives pt)) tokens pre))"
proof -
  obtain tokens d' j ms' nms' where t: "parse_pattern api pattern = (Ok tokens :: ('e exec_error, pattern_token list) result)" "tokens \<noteq> []"
    and b': "b' = fold add_rule (prefix_rules_of tokens d' j)
      (add_pending_example_validation (prefix_rules_of tokens d' j) ms' nms' loc b)"
    using assms by (rule builtin_prefix_rule_Ok)
  let ?rs = "prefix_rules_of tokens d' j"
  have "the (match_exact_rules (builder_build b') (c # cs)) = the (match_exact_rules (builder_build b) (c # cs)) @
      List.map_filter (\<lambda>r. rule_matches r (c # cs)) ?rs"
    using b' prefix_rule.matches_by_program [of c cs ?rs]
    by (simp add: exact_matches_vec builder_build_def vec_of_add_rules map_filter_append add_pending_example_validation_def)
  then show ?thesis using t prefix_rules_of_match [OF t(2), of "c # cs" d' j] by blast
qed

end
