(* ===== verification/Rust_Num.thy ===== *)
theory Rust_Num
  imports Rust_Str
begin

text \<open>
  Rust's unsigned machine integers as natural numbers: the largest \<open>usize\<close> and \<open>u64\<close> of a
  64-bit target, the saturating operations, and how \<open>format!\<close> prints a number. Natural
  subtraction already is \<open>saturating_sub\<close>. Standard library, so no source lines.
\<close>

definition usize_max :: nat where
  "usize_max = 2 ^ 64 - 1"

definition i64_max :: nat where
  "i64_max = 2 ^ 63 - 1"

definition saturating_add :: "nat \<Rightarrow> nat \<Rightarrow> nat" where
  "saturating_add a b = min usize_max (a + b)"

definition saturating_mul :: "nat \<Rightarrow> nat \<Rightarrow> nat" where
  "saturating_mul a b = min usize_max (a * b)"

text \<open>\<open>format!("{n}")\<close> of an unsigned number.\<close>

fun decimal :: "nat \<Rightarrow> rstr" where
  "decimal n = (if n < 10 then [char_of (n + 48)] else decimal (n div 10) @ [char_of (n mod 10 + 48)])"

declare decimal.simps [simp del]

named_theorems sat_simps \<open>saturating arithmetic\<close>

lemma saturating_add_exact [sat_simps]: "a + b \<le> usize_max \<Longrightarrow> saturating_add a b = a + b"
  by (simp add: saturating_add_def)

lemma saturating_add_le: "saturating_add a b \<le> a + b"
  by (simp add: saturating_add_def)

lemma saturating_add_bound: "saturating_add a b \<le> usize_max"
  by (simp add: saturating_add_def)

lemma saturating_add_min [sat_simps]: "saturating_add (min usize_max a) b = min usize_max (a + b)"
  by (simp add: saturating_add_def)

lemma saturating_add_assoc: "saturating_add (saturating_add a b) c = min usize_max (a + b + c)"
  by (simp add: saturating_add_def)

lemma decimal_digits: "c \<in> set (decimal n) \<Longrightarrow> 48 \<le> (of_char c :: nat) \<and> (of_char c :: nat) \<le> 57"
proof (induction n rule: decimal.induct)
  case (1 n)
  show ?case
  proof (cases "n < 10")
    case True
    then show ?thesis using "1.prems" by (subst (asm) decimal.simps) auto
  next
    case False
    then have "c \<in> set (decimal (n div 10)) \<or> c = char_of (n mod 10 + 48)"
      using "1.prems" by (subst (asm) decimal.simps) auto
    moreover have "n mod 10 < 10" by simp
    ultimately show ?thesis using "1.IH" False by auto
  qed
qed

lemma decimal_ne [simp]: "decimal n \<noteq> []"
  by (subst decimal.simps) simp

end
