(* ===== verification/Head_Tail_Buffer.thy ===== *)
theory Head_Tail_Buffer
  imports Rust_Num
begin

text \<open>
  The capped output buffer of unified exec (\<open>core/src/unified_exec/head_tail_buffer.rs\<close>): it
  keeps the first half of its capacity from the front of the output and the rest from its end,
  dropping the middle. The state is the source's struct; the chunks are byte vectors.

  The abstract buffer is the whole output \<open>w\<close>, of which the concrete one shows
  \<open>retained cap w\<close>: \<open>represents\<close> is the refinement relation, and every operation keeps it.
\<close>

section \<open>The buffer\<close>

type_synonym chunk = "char list"

record head_tail_buffer =
  max_bytes :: nat
  head_budget :: nat
  tail_budget :: nat
  head :: "chunk list"
  tail :: "chunk list"
  head_bytes :: nat
  tail_bytes :: nat
  omitted :: nat

definition UNIFIED_EXEC_OUTPUT_MAX_BYTES :: nat where
  "UNIFIED_EXEC_OUTPUT_MAX_BYTES = 1024 * 1024"

definition new_buffer :: "nat \<Rightarrow> head_tail_buffer" where
  "new_buffer cap =
     \<lparr>max_bytes = cap, head_budget = cap div 2, tail_budget = cap - cap div 2,
      head = [], tail = [], head_bytes = 0, tail_bytes = 0, omitted = 0\<rparr>"

definition default_buffer :: head_tail_buffer where
  "default_buffer = new_buffer UNIFIED_EXEC_OUTPUT_MAX_BYTES"

definition retained_bytes :: "head_tail_buffer \<Rightarrow> nat" where
  "retained_bytes b = saturating_add (head_bytes b) (tail_bytes b)"

definition omitted_bytes :: "head_tail_buffer \<Rightarrow> nat" where
  "omitted_bytes b = omitted b"

text \<open>The \<open>while excess > 0\<close> loop over the front of the tail: the chunks, \<open>tail_bytes\<close> and
  \<open>omitted_bytes\<close> it leaves.\<close>

fun trim_loop :: "nat \<Rightarrow> chunk list \<Rightarrow> nat \<Rightarrow> nat \<Rightarrow> chunk list \<times> nat \<times> nat" where
  "trim_loop excess [] tb om = ([], tb, om)"
| "trim_loop excess (front # rest) tb om =
     (if excess = 0 then (front # rest, tb, om)
      else if length front \<le> excess
      then trim_loop (excess - length front) rest (tb - length front)
             (saturating_add om (length front))
      else (drop excess front # rest, tb - excess, saturating_add om excess))"

definition trim_tail_to_budget :: "head_tail_buffer \<Rightarrow> head_tail_buffer" where
  "trim_tail_to_budget b =
     (case trim_loop (tail_bytes b - tail_budget b) (tail b) (tail_bytes b) (omitted b) of
        (tl', tb', om') \<Rightarrow> b\<lparr>tail := tl', tail_bytes := tb', omitted := om'\<rparr>)"

definition push_to_tail :: "head_tail_buffer \<Rightarrow> chunk \<Rightarrow> head_tail_buffer" where
  "push_to_tail b chunk =
     (if tail_budget b = 0
      then b\<lparr>omitted := saturating_add (omitted b) (length chunk)\<rparr>
      else if tail_budget b \<le> length chunk
      then (let kept = drop (length chunk - tail_budget b) chunk;
                dropped = length chunk - length kept
            in b\<lparr>omitted := saturating_add (saturating_add (omitted b) (tail_bytes b)) dropped,
                 tail := [kept], tail_bytes := length kept\<rparr>)
      else trim_tail_to_budget
             (b\<lparr>tail_bytes := saturating_add (tail_bytes b) (length chunk), tail := tail b @ [chunk]\<rparr>))"

definition push_chunk :: "head_tail_buffer \<Rightarrow> chunk \<Rightarrow> head_tail_buffer" where
  "push_chunk b chunk =
     (if max_bytes b = 0 then b\<lparr>omitted := saturating_add (omitted b) (length chunk)\<rparr>
      else if head_bytes b < head_budget b
      then (let remaining_head = head_budget b - head_bytes b
            in if length chunk \<le> remaining_head
               then b\<lparr>head_bytes := saturating_add (head_bytes b) (length chunk), head := head b @ [chunk]\<rparr>
               else (let head_part = take remaining_head chunk;
                         tail_part = drop remaining_head chunk;
                         b' = (if head_part \<noteq> []
                               then b\<lparr>head_bytes := saturating_add (head_bytes b) (length head_part),
                                      head := head b @ [head_part]\<rparr>
                               else b)
                     in push_to_tail b' tail_part))
      else push_to_tail b chunk)"

definition snapshot_chunks :: "head_tail_buffer \<Rightarrow> chunk list" where
  "snapshot_chunks b = head b @ tail b"

definition to_bytes :: "head_tail_buffer \<Rightarrow> char list" where
  "to_bytes b = concat (head b) @ concat (tail b)"

definition drain_chunks :: "head_tail_buffer \<Rightarrow> chunk list \<times> head_tail_buffer" where
  "drain_chunks b =
     (head b @ tail b,
      b\<lparr>head := [], tail := [], head_bytes := 0, tail_bytes := 0, omitted := 0\<rparr>)"

section \<open>The abstract buffer\<close>

definition last_n :: "nat \<Rightarrow> 'a list \<Rightarrow> 'a list" where
  "last_n n xs = drop (length xs - n) xs"

text \<open>What a buffer of capacity \<open>cap\<close> shows of the output \<open>w\<close>.\<close>

definition retained :: "nat \<Rightarrow> 'a list \<Rightarrow> 'a list" where
  "retained cap w = take (cap div 2) w @ last_n (cap - cap div 2) (drop (cap div 2) w)"

definition represents :: "nat \<Rightarrow> head_tail_buffer \<Rightarrow> char list \<Rightarrow> bool" where
  "represents cap b w \<longleftrightarrow>
     max_bytes b = cap \<and> head_budget b = cap div 2 \<and> tail_budget b = cap - cap div 2 \<and>
     concat (head b) = take (cap div 2) w \<and>
     concat (tail b) = last_n (cap - cap div 2) (drop (cap div 2) w) \<and>
     head_bytes b = length (concat (head b)) \<and> tail_bytes b = length (concat (tail b)) \<and>
     omitted b = min usize_max (length w - cap)"

section \<open>Facts\<close>

lemma length_last_n [simp]: "length (last_n n xs) = min n (length xs)"
  by (simp add: last_n_def)

lemma last_n_short: "length xs \<le> n \<Longrightarrow> last_n n xs = xs"
  by (simp add: last_n_def)

lemma last_n_0 [simp]: "last_n 0 xs = []"
  by (simp add: last_n_def)

text \<open>Appending to a window, when the new part fills it and when it does not.\<close>

lemma last_n_append_long: "n \<le> length ys \<Longrightarrow> last_n n (xs @ ys) = last_n n ys"
  by (simp add: last_n_def)

lemma last_n_append_window: "last_n n (xs @ ys) = last_n n (last_n n xs @ ys)"
  by (cases "n \<le> length xs") (auto simp: last_n_def add.commute)

lemma length_retained: "length (retained cap w) = min cap (length w)"
  by (auto simp: retained_def min_def)

lemma retained_all: "length w \<le> cap \<Longrightarrow> retained cap w = w"
  by (simp add: retained_def last_n_short)

lemma trim_loop_correct:
  assumes "trim_loop e cs tb om = (cs', tb', om')" and "e \<le> length (concat cs)"
    and "tb = length (concat cs)"
  shows "concat cs' = drop e (concat cs) \<and> tb' = tb - e \<and>
    (om \<le> usize_max \<longrightarrow> om' = min usize_max (om + e))"
  using assms
proof (induction e cs tb om rule: trim_loop.induct)
  case (2 excess front rest tb om)
  consider "excess = 0" | "excess \<noteq> 0" "length front \<le> excess" | "excess \<noteq> 0" "\<not> length front \<le> excess"
    by blast
  then show ?case
  proof cases
    case 2
    have "concat cs' = drop (excess - length front) (concat rest) \<and>
        tb' = (tb - length front) - (excess - length front) \<and>
        (saturating_add om (length front) \<le> usize_max \<longrightarrow>
           om' = min usize_max (saturating_add om (length front) + (excess - length front)))"
      by (rule "2.IH") (use 2 "2.prems" in auto)
    with 2 "2.prems" show ?thesis by (auto simp: saturating_add_def)
  qed (use "2.prems" in \<open>auto simp: saturating_add_def\<close>)
qed auto

text \<open>The count of dropped bytes, when a chunk replaces the whole tail and when it pushes
  bytes out of it.\<close>

lemma omitted_replace:
  fixes n m u t :: nat
  assumes "t \<le> m"
  shows "min u (min u (min u (n - t) + min t n) + (m - t)) = min u (n + m - t)"
proof -
  have "n - t + min t n = n" by simp
  then have "min u (min u (n - t) + min t n) = min u n" by linarith
  moreover have "min u (min u n + (m - t)) = min u (n + m - t)" using assms by linarith
  ultimately show ?thesis by simp
qed

lemma omitted_push:
  fixes n m u t :: nat
  assumes "m < t"
  shows "min u (min u (n - t) + (min t n + m - t)) = min u (n + m - t)"
proof -
  have "n - t + (min t n + m - t) = n + m - t" using assms by linarith
  then show ?thesis by linarith
qed

lemma represents_new: "represents cap (new_buffer cap) []"
  by (simp add: represents_def new_buffer_def last_n_def)

lemma represents_drain: "represents cap b w \<Longrightarrow> represents cap (snd (drain_chunks b)) []"
  by (simp add: represents_def drain_chunks_def last_n_def)

text \<open>Once the head is full, the tail takes whatever is pushed.\<close>

lemma full_head:
  assumes "cap div 2 \<le> length w"
  shows "drop (cap div 2) (w @ c) = drop (cap div 2) w @ c" "take (cap div 2) (w @ c) = take (cap div 2) w"
  using assms by auto

lemma omitted_counts:
  fixes cap n m :: nat
  assumes "cap div 2 \<le> n"
  shows "n - cap div 2 - (cap - cap div 2) = n - cap"
    "n - cap div 2 + m - (cap - cap div 2) = n + m - cap"
  using assms by auto

lemma represents_replace_tail:
  assumes r: "represents cap b w" and full: "cap div 2 \<le> length w"
    and pos: "cap - cap div 2 \<noteq> 0" and long: "cap - cap div 2 \<le> length c"
  shows "represents cap (push_to_tail b c) (w @ c)"
proof -
  let ?t = "cap - cap div 2" and ?v = "drop (cap div 2) w" and ?n = "length w - cap div 2"
  note v = full_head [OF full]
  note over = omitted_counts [OF full]
  have om: "saturating_add (saturating_add (omitted b) (tail_bytes b)) (length c - ?t) =
      min usize_max (length (w @ c) - cap)"
    using r omitted_replace [OF long, of usize_max ?n, unfolded over]
    unfolding represents_def saturating_add_def by simp
  have bs: "tail_budget b = ?t" and k: "length (drop (length c - ?t) c) = ?t"
    using r long by (simp_all add: represents_def)
  have p: "push_to_tail b c =
      b\<lparr>omitted := min usize_max (length (w @ c) - cap), tail := [last_n ?t c], tail_bytes := ?t\<rparr>"
    unfolding push_to_tail_def bs Let_def k last_n_def by (simp only: om pos long if_False if_True)
  show ?thesis
    using r long unfolding represents_def p v by (simp add: last_n_append_long)
qed

lemma represents_extend_tail:
  assumes r: "represents cap b w" and full: "cap div 2 \<le> length w" and cap: "cap \<le> usize_max"
    and small: "length c < cap - cap div 2"
  shows "represents cap (push_to_tail b c) (w @ c)"
proof -
  let ?t = "cap - cap div 2" and ?v = "drop (cap div 2) w" and ?n = "length w - cap div 2"
  note v = full_head [OF full]
  note over = omitted_counts [OF full]
  let ?b = "b\<lparr>tail_bytes := saturating_add (tail_bytes b) (length c), tail := tail b @ [c]\<rparr>"
  let ?e = "tail_bytes ?b - tail_budget ?b"
  obtain cs' tb' om' where
    t: "trim_loop ?e (tail ?b) (tail_bytes ?b) (omitted ?b) = (cs', tb', om')"
    by (metis prod_cases3)
  have tb: "tail_bytes ?b = length (concat (tail ?b))"
    using r small cap by (simp add: represents_def saturating_add_def)
  have e: "?e \<le> length (concat (tail ?b))" using tb by simp
  have loop: "concat cs' = drop ?e (concat (tail ?b)) \<and> tb' = tail_bytes ?b - ?e \<and>
      (omitted ?b \<le> usize_max \<longrightarrow> om' = min usize_max (omitted ?b + ?e))"
    by (rule trim_loop_correct [OF t e tb])
  have "concat cs' = last_n ?t (?v @ c)"
    using loop tb r by (subst last_n_append_window) (simp add: represents_def last_n_def)
  moreover have "om' = min usize_max (length (w @ c) - cap)"
  proof -
    have om: "omitted ?b = min usize_max (length w - cap)" and ex: "?e = min ?t ?n + length c - ?t"
      using r tb by (simp_all add: represents_def)
    have "om' = min usize_max (min usize_max (length w - cap) + (min ?t ?n + length c - ?t))"
      using loop by (simp only: om ex min.cobounded1)
    then show ?thesis
      by (simp only: omitted_push [OF small, of usize_max ?n, unfolded over] length_append)
  qed
  moreover have "tb' = length (concat cs')"
    using loop tb e by simp
  moreover have "push_to_tail b c = b\<lparr>tail := cs', tail_bytes := tb', omitted := om'\<rparr>"
  proof -
    have "tail_budget b = ?t" using r by (simp add: represents_def)
    then have "tail_budget b \<noteq> 0" "\<not> tail_budget b \<le> length c" using small by auto
    then show ?thesis
      using t unfolding push_to_tail_def trim_tail_to_budget_def by simp
  qed
  ultimately show ?thesis
    using r unfolding represents_def v by simp
qed

lemma represents_push_to_tail:
  assumes r: "represents cap b w" and full: "cap div 2 \<le> length w" and cap: "cap \<le> usize_max"
  shows "represents cap (push_to_tail b c) (w @ c)"
proof (cases "cap - cap div 2 = 0")
  case True
  then show ?thesis
    using r cap by (auto simp: represents_def push_to_tail_def full_head [OF full] saturating_add_def)
next
  case False
  then show ?thesis
    using represents_replace_tail [OF r full False] represents_extend_tail [OF r full cap] by (meson not_le)
qed

lemma represents_push_head:
  assumes r: "represents cap b w" and room: "length w + length c \<le> cap div 2" and cap: "cap \<le> usize_max"
  shows "represents cap (b\<lparr>head_bytes := saturating_add (head_bytes b) (length c), head := head b @ [c]\<rparr>)
    (w @ c)"
proof -
  have "saturating_add (length w) (length c) = length w + length c"
    using room cap by (intro saturating_add_exact) linarith
  then show ?thesis
    using r room by (simp add: represents_def last_n_def)
qed

lemma represents_push:
  assumes r: "represents cap b w" and cap: "cap \<le> usize_max"
  shows "represents cap (push_chunk b c) (w @ c)"
proof -
  let ?h = "cap div 2"
  have hb: "head_bytes b = min (length w) ?h" "head_budget b = ?h" "max_bytes b = cap"
    using r by (auto simp: represents_def)
  consider "cap = 0" | "cap \<noteq> 0" "?h \<le> length w" | "cap \<noteq> 0" "length w + length c \<le> ?h"
    | "cap \<noteq> 0" "length w < ?h" "?h < length w + length c" by linarith
  then show ?thesis
  proof cases
    case 1
    then show ?thesis
      using r by (simp add: represents_def push_chunk_def saturating_add_def)
  next
    case 2
    then show ?thesis
      using represents_push_to_tail [OF r _ cap] hb by (simp add: push_chunk_def)
  next
    case 3
    then show ?thesis
      using represents_push_head [OF r _ cap] represents_push_to_tail [OF r _ cap, of c] hb
      by (cases "length w < ?h") (auto simp: push_chunk_def Let_def)
  next
    case 4
    let ?k = "?h - length w"
    let ?b = "b\<lparr>head_bytes := saturating_add (head_bytes b) (length (take ?k c)), head := head b @ [take ?k c]\<rparr>"
    have "represents cap ?b (w @ take ?k c)"
      using 4 by (intro represents_push_head [OF r _ cap]) simp
    then have "represents cap (push_to_tail ?b (drop ?k c)) ((w @ take ?k c) @ drop ?k c)"
      using 4 by (intro represents_push_to_tail [OF _ _ cap]) simp_all
    moreover have "take ?k c \<noteq> []" using 4 by auto
    moreover have "\<not> length c \<le> ?k" using 4 by linarith
    ultimately show ?thesis
      using 4 hb by (simp add: push_chunk_def Let_def)
  qed
qed

lemma represents_bytes: "represents cap b w \<Longrightarrow> to_bytes b = retained cap w"
  by (simp add: represents_def to_bytes_def retained_def)

lemma represents_snapshot: "represents cap b w \<Longrightarrow> concat (snapshot_chunks b) = retained cap w"
  by (simp add: represents_def snapshot_chunks_def retained_def)

lemma represents_counts:
  assumes "represents cap b w" and "cap \<le> usize_max"
  shows "retained_bytes b = min cap (length w)" and "omitted_bytes b = min usize_max (length w - cap)"
proof -
  have "head_bytes b + tail_bytes b = length (retained cap w)"
    using assms(1) by (simp add: represents_def retained_def)
  then show "retained_bytes b = min cap (length w)"
    using assms(2) by (simp add: retained_bytes_def length_retained saturating_add_def)
qed (use assms in \<open>simp add: represents_def omitted_bytes_def\<close>)

section \<open>The contract of an output buffer\<close>

text \<open>A life of a buffer: chunks pushed and the buffer drained, in any order, with what the drains
  return; and the same life of the bare output, restarted at every drain.\<close>

datatype buffer_op = Push chunk | Drain

fun run_ops :: "('b \<Rightarrow> chunk \<Rightarrow> 'b) \<Rightarrow> ('b \<Rightarrow> chunk list \<times> 'b) \<Rightarrow> buffer_op list \<Rightarrow> 'b \<Rightarrow> chunk list list \<times> 'b" where
  "run_ops push drain [] b = ([], b)"
| "run_ops push drain (Push c # ops) b = run_ops push drain ops (push b c)"
| "run_ops push drain (Drain # ops) b =
     (case drain b of (out, b') \<Rightarrow> (case run_ops push drain ops b' of (outs, b'') \<Rightarrow> (out # outs, b'')))"

fun run_log :: "buffer_op list \<Rightarrow> char list \<Rightarrow> char list list \<times> char list" where
  "run_log [] w = ([], w)"
| "run_log (Push c # ops) w = run_log ops (w @ c)"
| "run_log (Drain # ops) w = (case run_log ops [] of (ws, w') \<Rightarrow> (w # ws, w'))"

text \<open>What the process manager relies on: a buffer that stands for the output since the last
  drain, of which it shows \<open>kept\<close>.\<close>

locale output_buffer =
  fixes push :: "'b \<Rightarrow> chunk \<Rightarrow> 'b"
    and drain :: "'b \<Rightarrow> chunk list \<times> 'b"
    and kept :: "char list \<Rightarrow> char list"
    and stands_for :: "'b \<Rightarrow> char list \<Rightarrow> bool"
  assumes push_stands: "stands_for b w \<Longrightarrow> stands_for (push b c) (w @ c)"
    and drain_stands: "stands_for b w \<Longrightarrow> stands_for (snd (drain b)) []"
    and drain_shows: "stands_for b w \<Longrightarrow> concat (fst (drain b)) = kept w"
begin

lemma run_refines:
  "stands_for b w \<Longrightarrow>
   map concat (fst (run_ops push drain ops b)) = map kept (fst (run_log ops w)) \<and>
   stands_for (snd (run_ops push drain ops b)) (snd (run_log ops w))"
proof (induction ops w arbitrary: b rule: run_log.induct)
  case (2 c ops w)
  then show ?case using push_stands by simp
next
  case (3 ops w)
  obtain cs b' where d: "drain b = (cs, b')" by fastforce
  have "stands_for b' []" "concat cs = kept w"
    using drain_stands [OF "3.prems"] drain_shows [OF "3.prems"] d by simp_all
  with "3.IH" [of b'] d show ?case by (auto split: prod.splits)
qed simp

end

definition represents_capped :: "nat \<Rightarrow> head_tail_buffer \<Rightarrow> char list \<Rightarrow> bool" where
  "represents_capped cap b w \<longleftrightarrow> cap \<le> usize_max \<and> represents cap b w"

interpretation capped: output_buffer push_chunk drain_chunks "retained cap" "represents_capped cap" for cap
proof
  fix b w
  assume "represents_capped cap b w"
  then show "concat (fst (drain_chunks b)) = retained cap w"
    using represents_snapshot by (simp add: represents_capped_def drain_chunks_def snapshot_chunks_def)
qed (auto simp: represents_capped_def intro: represents_push represents_drain)

section \<open>The buffer's promise\<close>

text \<open>
  C36. The capped output buffer implements the abstract one: whatever is pushed and drained in
  whatever order, each drain returns the retained part (the first half of the capacity and the
  last bytes up to the capacity) of the output since the previous drain, and afterwards the
  buffer shows the retained part of what was pushed since, never more than its capacity, and
  counts the rest as omitted.
\<close>
theorem buffer_refines_output:
  assumes "cap \<le> usize_max"
    and "run_ops push_chunk drain_chunks ops (new_buffer cap) = (drains, b)"
    and "run_log ops [] = (outputs, w)"
  shows "map concat drains = map (retained cap) outputs \<and> to_bytes b = retained cap w \<and>
    concat (snapshot_chunks b) = retained cap w \<and>
    retained_bytes b = min cap (length w) \<and> omitted_bytes b = min usize_max (length w - cap)"
proof -
  have "represents_capped cap (new_buffer cap) []"
    using assms(1) represents_new by (simp add: represents_capped_def)
  from capped.run_refines [OF this, of ops] assms(2,3)
  have "map concat drains = map (retained cap) outputs" "represents cap b w"
    by (simp_all add: represents_capped_def)
  then show ?thesis
    using represents_bytes represents_snapshot represents_counts [OF _ assms(1)] by simp
qed

definition demo_ops :: "buffer_op list" where
  "demo_ops = [Push ''abc'', Push ''defgh'', Drain, Push ''0123456789'']"

theorem buffer_refines_output_witness:
  "map concat (fst (run_ops push_chunk drain_chunks demo_ops (new_buffer 5))) = [''abfgh''] \<and>
    to_bytes (snd (run_ops push_chunk drain_chunks demo_ops (new_buffer 5))) = ''01789'' \<and>
    omitted_bytes (snd (run_ops push_chunk drain_chunks demo_ops (new_buffer 5))) = 5"
proof -
  have cap: "5 \<le> usize_max" by (simp add: usize_max_def)
  have log: "run_log demo_ops [] = ([''abcdefgh''], ''0123456789'')" by (simp add: demo_ops_def)
  have "map (retained 5) [''abcdefgh''] = [''abfgh'']" "retained 5 ''0123456789'' = ''01789''"
    by (simp_all add: retained_def last_n_def)
  then show ?thesis
    using buffer_refines_output [OF cap prod.collapse [symmetric] log] by (simp add: usize_max_def)
qed

end
