(* ===== verification/Truncate.thy ===== *)
theory Truncate
  imports Rust_Num Utf8 "HOL-Library.Monad_Syntax"
begin

text \<open>
  Cutting text to a budget on character boundaries (\<open>utils/string/src/truncate.rs\<close> and
  \<open>take_bytes_at_char_boundary\<close> of \<open>utils/string/src/lib.rs\<close>). Slicing a string off a
  character boundary panics in Rust; here it is \<open>None\<close>, so that the facts below, which say
  what \<open>Some\<close> result a valid string gives, include that the code never panics.
\<close>

section \<open>Slices\<close>

definition slice_to :: "rstr \<Rightarrow> nat \<Rightarrow> rstr option" where
  "slice_to s k = (if is_char_boundary s k then Some (take k s) else None)"

definition slice_from :: "rstr \<Rightarrow> nat \<Rightarrow> rstr option" where
  "slice_from s k = (if is_char_boundary s k then Some (drop k s) else None)"

section \<open>The code\<close>

definition APPROX_BYTES_PER_TOKEN :: nat where
  "APPROX_BYTES_PER_TOKEN = 4"

definition approx_token_count :: "rstr \<Rightarrow> nat" where
  "approx_token_count t = saturating_add (length t) (APPROX_BYTES_PER_TOKEN - 1) div APPROX_BYTES_PER_TOKEN"

definition approx_bytes_for_tokens :: "nat \<Rightarrow> nat" where
  "approx_bytes_for_tokens tokens = saturating_mul tokens APPROX_BYTES_PER_TOKEN"

definition approx_tokens_from_byte_count :: "nat \<Rightarrow> nat" where
  "approx_tokens_from_byte_count bytes =
     saturating_add bytes (APPROX_BYTES_PER_TOKEN - 1) div APPROX_BYTES_PER_TOKEN"

text \<open>The loop over \<open>s.char_indices()\<close>: the index of the next character, then \<open>prefix_end\<close>,
  \<open>suffix_start\<close>, \<open>suffix_started\<close> and \<open>removed_chars\<close>.\<close>

fun split_loop :: "nat \<Rightarrow> nat \<Rightarrow> rstr list \<Rightarrow> nat \<Rightarrow> nat \<Rightarrow> nat \<Rightarrow> bool \<Rightarrow> nat \<Rightarrow> nat \<times> nat \<times> nat" where
  "split_loop beginning_bytes tail_start_target [] idx prefix_end suffix_start started removed =
     (prefix_end, suffix_start, removed)"
| "split_loop beginning_bytes tail_start_target (ch # chs) idx prefix_end suffix_start started removed =
     (let char_end = idx + length ch
      in if char_end \<le> beginning_bytes
         then split_loop beginning_bytes tail_start_target chs char_end char_end suffix_start started removed
         else if tail_start_target \<le> idx
         then split_loop beginning_bytes tail_start_target chs char_end prefix_end
                (if started then suffix_start else idx) True removed
         else split_loop beginning_bytes tail_start_target chs char_end prefix_end suffix_start started
                (saturating_add removed 1))"

definition split_string :: "rstr \<Rightarrow> nat \<Rightarrow> nat \<Rightarrow> (nat \<times> rstr \<times> rstr) option" where
  "split_string s beginning_bytes end_bytes =
     (if s = [] then Some (0, [], [])
      else case split_loop beginning_bytes (length s - end_bytes) (chars s) 0 0 (length s) False 0 of
        (prefix_end, suffix_start, removed_chars) \<Rightarrow>
          do {
            before \<leftarrow> slice_to s prefix_end;
            after \<leftarrow> slice_from s (if suffix_start < prefix_end then prefix_end else suffix_start);
            Some (removed_chars, before, after)
          })"

definition split_budget :: "nat \<Rightarrow> nat \<times> nat" where
  "split_budget budget = (let left = budget div 2 in (left, budget - left))"

definition ellipsis :: rstr where
  "ellipsis = [CHR 0xE2, CHR 0x80, CHR 0xA6]"

definition format_truncation_marker :: "bool \<Rightarrow> nat \<Rightarrow> rstr" where
  "format_truncation_marker use_tokens removed_count =
     ellipsis @ decimal removed_count @
     (if use_tokens then '' tokens truncated'' else '' chars truncated'') @ ellipsis"

definition removed_units :: "bool \<Rightarrow> nat \<Rightarrow> nat \<Rightarrow> nat" where
  "removed_units use_tokens removed_bytes removed_chars =
     (if use_tokens then approx_tokens_from_byte_count removed_bytes else removed_chars)"

definition assemble_truncated_output :: "rstr \<Rightarrow> rstr \<Rightarrow> rstr \<Rightarrow> rstr" where
  "assemble_truncated_output pre suf marker = pre @ marker @ suf"

definition truncate_with_byte_estimate :: "rstr \<Rightarrow> nat \<Rightarrow> bool \<Rightarrow> rstr option" where
  "truncate_with_byte_estimate s max_bytes use_tokens =
     (if s = [] then Some []
      else if max_bytes = 0
      then Some (format_truncation_marker use_tokens
                   (removed_units use_tokens (length s) (length (chars s))))
      else if length s \<le> max_bytes then Some s
      else case split_budget max_bytes of (left_budget, right_budget) \<Rightarrow>
        do {
          (removed_chars, left, right) \<leftarrow> split_string s left_budget right_budget;
          let marker = format_truncation_marker use_tokens
                         (removed_units use_tokens (length s - max_bytes) removed_chars);
          Some (assemble_truncated_output left right marker)
        })"

definition truncate_middle_chars :: "rstr \<Rightarrow> nat \<Rightarrow> rstr option" where
  "truncate_middle_chars s max_bytes = truncate_with_byte_estimate s max_bytes False"

definition truncate_middle_with_token_budget :: "rstr \<Rightarrow> nat \<Rightarrow> (rstr \<times> nat option) option" where
  "truncate_middle_with_token_budget s max_tokens =
     (if s = [] then Some ([], None)
      else if 0 < max_tokens \<and> length s \<le> approx_bytes_for_tokens max_tokens then Some (s, None)
      else do {
        truncated \<leftarrow> truncate_with_byte_estimate s (approx_bytes_for_tokens max_tokens) True;
        let total_tokens = approx_token_count s;
        Some (if truncated = s then (truncated, None) else (truncated, Some total_tokens))
      })"

text \<open>\<open>take_bytes_at_char_boundary\<close>: the loop breaks at the first character that does not fit.\<close>

fun last_ok_loop :: "nat \<Rightarrow> rstr list \<Rightarrow> nat \<Rightarrow> nat \<Rightarrow> nat" where
  "last_ok_loop maxb [] i last_ok = last_ok"
| "last_ok_loop maxb (ch # chs) i last_ok =
     (let nb = i + length ch in if maxb < nb then last_ok else last_ok_loop maxb chs nb nb)"

definition take_bytes_at_char_boundary :: "rstr \<Rightarrow> nat \<Rightarrow> rstr option" where
  "take_bytes_at_char_boundary s maxb =
     (if length s \<le> maxb then Some s else slice_to s (last_ok_loop maxb (chars s) 0 0))"

section \<open>Cutting a list of characters\<close>

text \<open>The three parts the loop computes: \<open>p\<close> is the longest run of characters of at most
  \<open>b\<close> bytes, \<open>r\<close> starts at the first later character at or after the target.\<close>

definition cut3 :: "nat \<Rightarrow> nat \<Rightarrow> nat \<Rightarrow> rstr list \<Rightarrow> rstr list \<Rightarrow> rstr list \<Rightarrow> bool" where
  "cut3 b target idx p m r \<longleftrightarrow>
     (p \<noteq> [] \<longrightarrow> idx + length (concat p) \<le> b) \<and>
     (m @ r \<noteq> [] \<longrightarrow> b < idx + length (concat p) + length (hd (m @ r))) \<and>
     (m \<noteq> [] \<longrightarrow> idx + length (concat p) + length (concat (butlast m)) < target) \<and>
     (r \<noteq> [] \<longrightarrow> target \<le> idx + length (concat p) + length (concat m))"

lemma longest_fit_exists:
  "\<exists>p q. cs = p @ q \<and> (p \<noteq> [] \<longrightarrow> idx + length (concat p) \<le> b) \<and>
     (q \<noteq> [] \<longrightarrow> b < idx + length (concat p) + length (hd q))"
proof (induction cs arbitrary: idx)
  case (Cons c cs)
  show ?case
  proof (cases "idx + length c \<le> b")
    case True
    obtain p q where "cs = p @ q" "p \<noteq> [] \<longrightarrow> idx + length c + length (concat p) \<le> b"
      "q \<noteq> [] \<longrightarrow> b < idx + length c + length (concat p) + length (hd q)"
      using Cons.IH [of "idx + length c"] by blast
    with True show ?thesis
      by (intro exI [of _ "c # p"] exI [of _ q]) (cases "p = []", auto)
  next
    case False
    then show ?thesis by (intro exI [of _ "[]"] exI [of _ "c # cs"]) auto
  qed
qed auto

lemma target_split_exists:
  "\<exists>m r. cs = m @ r \<and> (m \<noteq> [] \<longrightarrow> idx + length (concat (butlast m)) < target) \<and>
     (r \<noteq> [] \<longrightarrow> target \<le> idx + length (concat m))"
proof (induction cs arbitrary: idx)
  case (Cons c cs)
  show ?case
  proof (cases "target \<le> idx")
    case True
    then show ?thesis by (intro exI [of _ "[]"] exI [of _ "c # cs"]) auto
  next
    case False
    obtain m r where "cs = m @ r" "m \<noteq> [] \<longrightarrow> idx + length c + length (concat (butlast m)) < target"
      "r \<noteq> [] \<longrightarrow> target \<le> idx + length c + length (concat m)"
      using Cons.IH [of "idx + length c"] by blast
    with False show ?thesis
      by (intro exI [of _ "c # m"] exI [of _ r]) (cases "m = []", auto)
  qed
qed auto

lemma cut3_exists: "\<exists>p m r. cs = p @ m @ r \<and> cut3 b target idx p m r"
proof -
  obtain p q where p: "cs = p @ q" "p \<noteq> [] \<longrightarrow> idx + length (concat p) \<le> b"
    "q \<noteq> [] \<longrightarrow> b < idx + length (concat p) + length (hd q)"
    using longest_fit_exists [of cs idx b] by blast
  obtain m r where "q = m @ r"
    "m \<noteq> [] \<longrightarrow> idx + length (concat p) + length (concat (butlast m)) < target"
    "r \<noteq> [] \<longrightarrow> target \<le> idx + length (concat p) + length (concat m)"
    using target_split_exists [of q "idx + length (concat p)" target] by blast
  with p show ?thesis unfolding cut3_def by blast
qed

section \<open>The loop finds the cut\<close>

lemma split_loop_prefix:
  "p \<noteq> [] \<longrightarrow> idx + length (concat p) \<le> b \<Longrightarrow>
   split_loop b t (p @ q) idx pe ss st rm =
     split_loop b t q (idx + length (concat p)) (if p = [] then pe else idx + length (concat p)) ss st rm"
proof (induction p arbitrary: idx pe)
  case (Cons c p)
  have c: "idx + length c \<le> b" using Cons.prems by simp
  have "p \<noteq> [] \<longrightarrow> (idx + length c) + length (concat p) \<le> b" using Cons.prems by simp
  from Cons.IH [OF this, of "idx + length c"] c show ?case
    by (simp add: Let_def add.assoc)
qed simp

lemma split_loop_middle:
  assumes "m \<noteq> [] \<longrightarrow> idx + length (concat (butlast m)) < t" and "m \<noteq> [] \<longrightarrow> b < idx + length (hd m)"
  shows "split_loop b t (m @ r) idx pe ss st (min usize_max rm) =
     split_loop b t r (idx + length (concat m)) pe ss st (min usize_max (rm + length m))"
  using assms
proof (induction m arbitrary: idx rm)
  case (Cons c m)
  have idx: "idx < t" using Cons.prems by auto
  have "m \<noteq> [] \<longrightarrow> (idx + length c) + length (concat (butlast m)) < t" using Cons.prems by auto
  moreover have "m \<noteq> [] \<longrightarrow> b < (idx + length c) + length (hd m)" using Cons.prems by auto
  moreover have "saturating_add (min usize_max rm) 1 = min usize_max (Suc rm)"
    by (simp add: saturating_add_min)
  ultimately show ?case
    using Cons.IH [of "idx + length c" "Suc rm"] Cons.prems idx by (simp add: Let_def add.assoc)
qed simp

lemma split_loop_started:
  assumes "t \<le> idx" and "b < idx"
  shows "split_loop b t r idx pe ss True rm = (pe, ss, rm)"
  using assms by (induction r arbitrary: idx) (auto simp: Let_def)

lemma split_loop_suffix:
  assumes "r \<noteq> [] \<longrightarrow> t \<le> idx" and "r \<noteq> [] \<longrightarrow> b < idx + length (hd r)"
  shows "split_loop b t r idx pe ss False rm = (pe, if r = [] then ss else idx, rm)"
  using assms by (cases r) (auto simp: Let_def split_loop_started)

lemma length_hd_le: "m \<noteq> [] \<Longrightarrow> length (hd m) \<le> length (concat m)"
  by (cases m) auto

lemma split_loop_cut3:
  assumes cut: "cut3 b t 0 p m r" and ss: "length (concat (p @ m @ r)) = n"
  shows "split_loop b t (p @ m @ r) 0 0 n False 0 =
     (length (concat p), length (concat p) + length (concat m), min usize_max (length m))"
proof -
  have "split_loop b t (p @ m @ r) 0 0 n False 0 =
      split_loop b t (m @ r) (length (concat p)) (length (concat p)) n False (min usize_max 0)"
    using cut by (subst split_loop_prefix) (auto simp: cut3_def)
  also have "\<dots> = split_loop b t r (length (concat p) + length (concat m)) (length (concat p)) n False
      (min usize_max (0 + length m))"
    using cut by (intro split_loop_middle) (auto simp: cut3_def)
  also have "\<dots> = (length (concat p), length (concat p) + length (concat m), min usize_max (length m))"
    using cut ss length_hd_le [of m]
    by (subst split_loop_suffix) (auto simp: cut3_def hd_append split: if_splits)
  finally show ?thesis .
qed

section \<open>What truncation keeps\<close>

lemma slice_parts:
  assumes "valid_utf8 (a @ b)" and "valid_utf8 a"
  shows "slice_to (a @ b) (length a) = Some a" "slice_from (a @ b) (length a) = Some b"
  using valid_utf8_boundary [OF assms] by (simp_all add: slice_to_def slice_from_def)

lemma split_string_valid:
  assumes "valid_utf8 s" and "s \<noteq> []"
  shows "\<exists>p m r. chars s = p @ m @ r \<and> cut3 bb (length s - eb) 0 p m r \<and>
    split_string s bb eb = Some (min usize_max (length m), concat p, concat r)"
proof -
  obtain p m r where cs: "chars s = p @ m @ r" and cut: "cut3 bb (length s - eb) 0 p m r"
    using cut3_exists by blast
  have s: "s = concat p @ concat m @ concat r"
    using cs concat_chars [of s] by simp
  have valid: "valid_utf8 (concat p)" "valid_utf8 (concat m)"
    using valid_utf8_chars [OF assms(1)] valid_utf8_concat_chars cs by auto
  have "slice_to s (length (concat p)) = Some (concat p)"
    using slice_parts(1) assms(1) valid s by metis
  moreover have "slice_from s (length (concat p @ concat m)) = Some (concat r)"
    using slice_parts(2) [of "concat p @ concat m" "concat r"] assms(1) valid s by auto
  moreover have "split_loop bb (length s - eb) (chars s) 0 0 (length s) False 0 =
      (length (concat p), length (concat p) + length (concat m), min usize_max (length m))"
    using split_loop_cut3 [OF cut] cs s by simp
  ultimately have "split_string s bb eb = Some (min usize_max (length m), concat p, concat r)"
    using assms(2) by (simp add: split_string_def)
  with cs cut show ?thesis by blast
qed

text \<open>A cut of \<open>s\<close> around a removed middle: both sides fit their budgets, and neither could
  have kept one more character.\<close>

definition tight_cut :: "nat \<Rightarrow> rstr \<Rightarrow> rstr \<Rightarrow> rstr \<Rightarrow> bool" where
  "tight_cut budget l mid r \<longleftrightarrow>
     mid \<noteq> [] \<and> valid_utf8 l \<and> valid_utf8 mid \<and> valid_utf8 r \<and>
     length l \<le> budget div 2 \<and> length r \<le> budget - budget div 2 \<and>
     budget div 2 < length l + length (hd (chars mid)) \<and>
     budget - budget div 2 < length r + length (last (chars mid))"

lemma cut3_tight:
  assumes cut: "cut3 (n div 2) (k - (n - n div 2)) 0 p m r" and k: "k = length (concat (p @ m @ r))"
    and small: "n < k" and one: "list_all one_char (p @ m @ r)"
  shows "tight_cut n (concat p) (concat m) (concat r)"
proof -
  have p: "length (concat p) \<le> n div 2" using cut by (cases "p = []") (auto simp: cut3_def)
  have r: "length (concat r) \<le> n - n div 2" using cut k by (cases "r = []") (auto simp: cut3_def)
  have "k = length (concat p) + (length (concat m) + length (concat r))" using k by simp
  then have "length (concat m) \<noteq> 0" using p r small by linarith
  then have m: "m \<noteq> []" "concat m \<noteq> []" by (auto simp del: concat_eq_Nil_conv)
  have cm: "chars (concat m) = m" using one by (simp add: chars_concat)
  have "n div 2 < length (concat p) + length (hd m)"
    using cut m by (simp add: cut3_def)
  moreover have "length (concat m) = length (concat (butlast m)) + length (last m)"
    using m by (metis append_butlast_last_id concat.simps(1,2) concat_append length_append append_Nil2)
  then have "n - n div 2 < length (concat r) + length (last m)"
    using cut m k small by (auto simp: cut3_def)
  ultimately show ?thesis
    using p r m one valid_utf8_concat_chars by (simp add: tight_cut_def cm)
qed

lemma truncate_cut:
  assumes valid: "valid_utf8 s" and pos: "0 < budget" and long: "budget < length s"
  shows "\<exists>l mid r. s = l @ mid @ r \<and> tight_cut budget l mid r \<and>
    truncate_with_byte_estimate s budget use_tokens =
      Some (l @ format_truncation_marker use_tokens
        (removed_units use_tokens (length s - budget) (min usize_max (length (chars mid)))) @ r)"
proof -
  have ne: "s \<noteq> []" using long by auto
  obtain p m r where cs: "chars s = p @ m @ r"
    and cut: "cut3 (budget div 2) (length s - (budget - budget div 2)) 0 p m r"
    and split: "split_string s (budget div 2) (budget - budget div 2) =
      Some (min usize_max (length m), concat p, concat r)"
    using split_string_valid [OF valid ne] by blast
  have s: "s = concat p @ concat m @ concat r"
    using cs concat_chars [of s] by simp
  have one: "list_all one_char (p @ m @ r)" using valid_utf8_chars [OF valid] cs by simp
  then have cm: "chars (concat m) = m" by (simp add: chars_concat)
  have "tight_cut budget (concat p) (concat m) (concat r)"
    using cut3_tight [OF cut _ long one] s by simp
  moreover have "truncate_with_byte_estimate s budget use_tokens =
      Some (concat p @ format_truncation_marker use_tokens
        (removed_units use_tokens (length s - budget) (min usize_max (length (chars (concat m))))) @ concat r)"
    using ne pos long split
    by (simp add: truncate_with_byte_estimate_def split_budget_def Let_def assemble_truncated_output_def cm)
  ultimately show ?thesis using s by blast
qed

lemma truncate_short: "length s \<le> budget \<Longrightarrow> 0 < budget \<Longrightarrow> truncate_with_byte_estimate s budget u = Some s"
  by (simp add: truncate_with_byte_estimate_def)

lemma truncate_total:
  assumes "valid_utf8 s"
  shows "\<exists>t. truncate_with_byte_estimate s budget u = Some t"
proof (cases "budget = 0 \<or> length s \<le> budget")
  case True
  then show ?thesis by (auto simp: truncate_with_byte_estimate_def)
next
  case False
  then show ?thesis using truncate_cut [OF assms, of budget u] by auto
qed

lemma ascii_valid: "list_all (\<lambda>c. (of_char c :: nat) < 128) s \<Longrightarrow> valid_utf8 s"
proof (induction s)
  case (Cons c cs)
  then have "one_char [c]" by (simp add: one_char_def utf8_width_def)
  then have "valid_utf8 [c]" by (rule one_char_valid)
  with Cons show ?case using valid_utf8_append [of "[c]" cs] by simp
qed simp

lemma marker_valid: "valid_utf8 (format_truncation_marker u n)"
proof -
  have "valid_utf8 ellipsis"
    by (rule one_char_valid) (simp add: one_char_def ellipsis_def utf8_width_def second_ok_def is_cont_def numeral_eq_Suc)
  moreover have "valid_utf8 (decimal n)"
    using decimal_digits [of _ n] by (intro ascii_valid) (fastforce simp: list_all_iff)
  moreover have "valid_utf8 '' tokens truncated''" "valid_utf8 '' chars truncated''"
    by (simp_all add: ascii_valid)
  ultimately show ?thesis
    unfolding format_truncation_marker_def by (intro valid_utf8_append) simp_all
qed

text \<open>The prefix variant keeps the longest run of characters that fits.\<close>

lemma last_ok_prefix:
  "p \<noteq> [] \<longrightarrow> i + length (concat p) \<le> maxb \<Longrightarrow>
   last_ok_loop maxb (p @ q) i k =
     last_ok_loop maxb q (i + length (concat p)) (if p = [] then k else i + length (concat p))"
proof (induction p arbitrary: i k)
  case (Cons c p)
  have "p \<noteq> [] \<longrightarrow> (i + length c) + length (concat p) \<le> maxb" using Cons.prems by simp
  from Cons.IH [OF this] Cons.prems show ?case by (auto simp: Let_def add.assoc not_less)
qed simp

lemma take_bytes_fit:
  assumes valid: "valid_utf8 s" and long: "maxb < length s"
  shows "\<exists>l r. s = l @ r \<and> valid_utf8 l \<and> length l \<le> maxb \<and> maxb < length l + length (hd (chars r)) \<and>
    take_bytes_at_char_boundary s maxb = Some l"
proof -
  obtain p q where cs: "chars s = p @ q" and p: "p \<noteq> [] \<longrightarrow> 0 + length (concat p) \<le> maxb"
    and q: "q \<noteq> [] \<longrightarrow> maxb < 0 + length (concat p) + length (hd q)"
    using longest_fit_exists by blast
  have s: "s = concat p @ concat q" using cs concat_chars [of s] by simp
  have one: "list_all one_char p" "list_all one_char q" using valid_utf8_chars [OF valid] cs by simp_all
  have qne: "q \<noteq> []" using p long s by (cases "p = []") auto
  have "last_ok_loop maxb (chars s) 0 0 = length (concat p)"
    using last_ok_prefix [OF p, of q 0] q qne cs by (cases q) (auto simp: Let_def)
  moreover have "slice_to s (length (concat p)) = Some (concat p)"
    using slice_parts(1) valid valid_utf8_concat_chars [OF one(1)] s by metis
  ultimately have "take_bytes_at_char_boundary s maxb = Some (concat p)"
    using long by (simp add: take_bytes_at_char_boundary_def)
  then show ?thesis
    using s p q qne valid_utf8_concat_chars [OF one(1)] chars_concat [OF one(2)]
    by (intro exI [of _ "concat p"] exI [of _ "concat q"]) (cases "p = []", auto)
qed

section \<open>Truncation keeps both ends\<close>

text \<open>
  C37. Truncating a valid string that exceeds a positive byte budget never panics and gives valid
  UTF-8: the string's beginning and end around a marker with the removed count. The two ends
  fit half the budget each, and neither could keep another character.
\<close>
theorem truncate_keeps_ends:
  assumes "valid_utf8 s" and "0 < budget" and "budget < length s"
  shows "\<exists>l mid r out. s = l @ mid @ r \<and> tight_cut budget l mid r \<and>
    out = l @ format_truncation_marker use_tokens
      (removed_units use_tokens (length s - budget) (min usize_max (length (chars mid)))) @ r \<and>
    truncate_with_byte_estimate s budget use_tokens = Some out \<and> valid_utf8 out"
proof -
  obtain l mid r where cut: "s = l @ mid @ r" "tight_cut budget l mid r"
    and out: "truncate_with_byte_estimate s budget use_tokens =
      Some (l @ format_truncation_marker use_tokens
        (removed_units use_tokens (length s - budget) (min usize_max (length (chars mid)))) @ r)"
    using truncate_cut [OF assms] by blast
  have "valid_utf8 (l @ format_truncation_marker use_tokens n @ r)" for n
    using cut(2) marker_valid by (simp add: tight_cut_def valid_utf8_append)
  with cut out show ?thesis by blast
qed

theorem truncate_keeps_ends_witness:
  "\<exists>l mid r out. ''abcdefgh'' = l @ mid @ r \<and> tight_cut 5 l mid r \<and>
    out = l @ format_truncation_marker False
      (removed_units False (length ''abcdefgh'' - 5) (min usize_max (length (chars mid)))) @ r \<and>
    truncate_with_byte_estimate ''abcdefgh'' 5 False = Some out \<and> valid_utf8 out"
proof -
  have valid: "valid_utf8 ''abcdefgh''" by (rule ascii_valid) simp
  show ?thesis by (rule truncate_keeps_ends [OF valid]) simp_all
qed

end
