(* ===== verification/Output_Truncation.thy ===== *)
theory Output_Truncation
  imports Truncate
begin

text \<open>
  Truncating tool output under a policy (\<open>utils/output-truncation/src/lib.rs\<close>, with
  \<open>TruncationPolicy\<close> of \<open>protocol/src/protocol.rs\<close> and the content items of
  \<open>protocol/src/models.rs\<close>). As in \<open>Truncate\<close>, \<open>None\<close> is a panic.
\<close>

section \<open>Policies\<close>

datatype truncation_policy = Bytes nat | Tokens nat

fun token_budget :: "truncation_policy \<Rightarrow> nat" where
  "token_budget (Bytes bytes) = approx_tokens_from_byte_count bytes"
| "token_budget (Tokens tokens) = tokens"

fun byte_budget :: "truncation_policy \<Rightarrow> nat" where
  "byte_budget (Bytes bytes) = bytes"
| "byte_budget (Tokens tokens) = approx_bytes_for_tokens tokens"

fun truncate_text :: "rstr \<Rightarrow> truncation_policy \<Rightarrow> rstr option" where
  "truncate_text content (Bytes bytes) = truncate_middle_chars content bytes"
| "truncate_text content (Tokens tokens) = map_option fst (truncate_middle_with_token_budget content tokens)"

definition formatted_truncate_text :: "rstr \<Rightarrow> truncation_policy \<Rightarrow> rstr option" where
  "formatted_truncate_text content policy =
     (if length content \<le> byte_budget policy then Some content
      else do {
        let original_token_count = approx_token_count content;
        let total_lines = length (str_lines content);
        result \<leftarrow> truncate_text content policy;
        Some (''Warning: truncated output (original token count: '' @ decimal original_token_count @
              '')'' @ [NL] @ ''Total output lines: '' @ decimal total_lines @ [NL, NL] @ result)
      })"

section \<open>Content items\<close>

datatype image_detail = Auto | Low | High | Original

datatype output_item =
    InputText rstr
  | InputImage rstr "image_detail option"
  | EncryptedContent rstr

fun item_text :: "output_item \<Rightarrow> rstr option" where
  "item_text (InputText t) = Some t"
| "item_text (InputImage _ _) = None"
| "item_text (EncryptedContent _) = None"

definition combine_texts :: "rstr list \<Rightarrow> rstr" where
  "combine_texts segments =
     fold (\<lambda>t combined. (if combined \<noteq> [] then combined @ [NL] else combined) @ t) segments []"

definition formatted_truncate_text_content_items_with_policy ::
    "output_item list \<Rightarrow> truncation_policy \<Rightarrow> (output_item list \<times> nat option) option" where
  "formatted_truncate_text_content_items_with_policy items policy =
     (let text_segments = List.map_filter item_text items
      in if text_segments = [] then Some (items, None)
         else let combined = combine_texts text_segments
         in if length combined \<le> byte_budget policy then Some (items, None)
            else do {
              formatted \<leftarrow> formatted_truncate_text combined policy;
              Some (InputText formatted # filter (\<lambda>i. item_text i = None) items,
                    Some (approx_token_count combined))
            })"

definition policy_budget :: "truncation_policy \<Rightarrow> nat" where
  "policy_budget policy = (case policy of Bytes _ \<Rightarrow> byte_budget policy | Tokens _ \<Rightarrow> token_budget policy)"

definition text_cost :: "truncation_policy \<Rightarrow> rstr \<Rightarrow> nat" where
  "text_cost policy t = (case policy of Bytes _ \<Rightarrow> length t | Tokens _ \<Rightarrow> approx_token_count t)"

definition with_budget :: "truncation_policy \<Rightarrow> nat \<Rightarrow> truncation_policy" where
  "with_budget policy n = (case policy of Bytes _ \<Rightarrow> Bytes n | Tokens _ \<Rightarrow> Tokens n)"

text \<open>The loop over the items: \<open>remaining_budget\<close>, \<open>omitted_text_items\<close> and the output so far.\<close>

fun items_loop :: "truncation_policy \<Rightarrow> output_item list \<Rightarrow> nat \<Rightarrow> nat \<Rightarrow> output_item list
    \<Rightarrow> (nat \<times> output_item list) option" where
  "items_loop policy [] remaining omitted out = Some (omitted, out)"
| "items_loop policy (InputText t # items) remaining omitted out =
     (if remaining = 0 then items_loop policy items remaining (omitted + 1) out
      else if text_cost policy t \<le> remaining
      then items_loop policy items (remaining - text_cost policy t) omitted (out @ [InputText t])
      else do {
        snippet \<leftarrow> truncate_text t (with_budget policy remaining);
        (if snippet = [] then items_loop policy items 0 (omitted + 1) out
         else items_loop policy items 0 omitted (out @ [InputText snippet]))
      })"
| "items_loop policy (InputImage u d # items) remaining omitted out =
     items_loop policy items remaining omitted (out @ [InputImage u d])"
| "items_loop policy (EncryptedContent e # items) remaining omitted out =
     items_loop policy items remaining omitted (out @ [EncryptedContent e])"

definition truncate_function_output_items_with_policy ::
    "output_item list \<Rightarrow> truncation_policy \<Rightarrow> output_item list option" where
  "truncate_function_output_items_with_policy items policy =
     do {
       (omitted, out) \<leftarrow> items_loop policy items (policy_budget policy) 0 [];
       Some (if 0 < omitted
             then out @ [InputText (''[omitted '' @ decimal omitted @ '' text items ...]'')] else out)
     }"

definition approx_tokens_from_byte_count_i64 :: "int \<Rightarrow> int" where
  "approx_tokens_from_byte_count_i64 bytes =
     (if bytes \<le> 0 then 0
      else int (min i64_max (approx_tokens_from_byte_count (nat bytes))))"

section \<open>Facts\<close>

text \<open>A Rust string: valid UTF-8, and no longer than an allocation can be.\<close>

definition is_str :: "rstr \<Rightarrow> bool" where
  "is_str t \<longleftrightarrow> valid_utf8 t \<and> length t \<le> i64_max"

lemma truncate_text_total:
  assumes "valid_utf8 t"
  shows "\<exists>r. truncate_text t policy = Some r"
proof (cases policy)
  case (Bytes n)
  then show ?thesis using truncate_total [OF assms] by (simp add: truncate_middle_chars_def)
next
  case (Tokens n)
  obtain r where "truncate_with_byte_estimate t (approx_bytes_for_tokens n) True = Some r"
    using truncate_total [OF assms] by blast
  then show ?thesis by (simp add: Tokens truncate_middle_with_token_budget_def Let_def)
qed

text \<open>The estimate is coarse but consistent: a text whose token count fits is not cut.\<close>

lemma approx_token_count_exact: "length t \<le> i64_max \<Longrightarrow> approx_token_count t = (length t + 3) div 4"
  by (simp add: approx_token_count_def APPROX_BYTES_PER_TOKEN_def saturating_add_def usize_max_def i64_max_def)

lemma tokens_fit_bytes:
  assumes "length t \<le> i64_max" and "approx_token_count t \<le> n"
  shows "length t \<le> approx_bytes_for_tokens n"
proof -
  have "(length t + 3) div 4 \<le> n" using assms approx_token_count_exact by simp
  then have "length t \<le> n * 4" by linarith
  moreover have "length t \<le> usize_max" using assms(1) by (simp add: usize_max_def i64_max_def)
  ultimately show ?thesis
    by (simp add: approx_bytes_for_tokens_def APPROX_BYTES_PER_TOKEN_def saturating_mul_def)
qed

lemma truncate_text_fits:
  assumes "is_str t" and "text_cost policy t \<le> n" and "0 < n"
  shows "truncate_text t (with_budget policy n) = Some t"
proof (cases policy)
  case (Bytes m)
  then show ?thesis
    using assms truncate_short by (simp add: with_budget_def text_cost_def truncate_middle_chars_def)
next
  case (Tokens m)
  then have "length t \<le> approx_bytes_for_tokens n"
    using assms tokens_fit_bytes by (simp add: is_str_def text_cost_def)
  then show ?thesis
    using assms by (simp add: Tokens with_budget_def truncate_middle_with_token_budget_def)
qed

lemma truncate_ne:
  assumes "truncate_with_byte_estimate t n u = Some r" and "t \<noteq> []" and "valid_utf8 t"
  shows "r \<noteq> []"
proof (cases "0 < n \<and> n < length t")
  case True
  then show ?thesis
    using truncate_cut [OF assms(3), of n u] assms(1) by (auto simp: format_truncation_marker_def)
next
  case False
  then show ?thesis
    using assms by (auto simp: truncate_with_byte_estimate_def format_truncation_marker_def split: if_splits)
qed

lemma truncate_text_ne:
  assumes "truncate_text t policy = Some r" and "t \<noteq> []" and "valid_utf8 t"
  shows "r \<noteq> []"
  using assms truncate_ne [OF _ assms(2,3)]
  by (cases policy)
     (auto simp: truncate_middle_chars_def truncate_middle_with_token_budget_def Let_def
           split: if_splits bind_splits)

text \<open>What the loop makes of the items once nothing is left of the budget.\<close>

definition texts :: "output_item list \<Rightarrow> rstr list" where
  "texts items = List.map_filter item_text items"

definition others :: "output_item list \<Rightarrow> output_item list" where
  "others items = filter (\<lambda>i. item_text i = None) items"

lemma texts_simps [simp]:
  "texts [] = []" "texts (InputText t # is) = t # texts is" "texts (InputImage u d # is) = texts is"
  "texts (EncryptedContent e # is) = texts is" "texts (is @ js) = texts is @ texts js"
  by (simp_all add: texts_def map_filter_append)

lemma others_simps [simp]:
  "others [] = []" "others (InputText t # is) = others is"
  "others (InputImage u d # is) = InputImage u d # others is"
  "others (EncryptedContent e # is) = EncryptedContent e # others is"
  "others (is @ js) = others is @ others js"
  by (simp_all add: others_def)

lemma items_loop_spent:
  "items_loop policy items 0 omitted out = Some (omitted + length (texts items), out @ others items)"
proof (induction items arbitrary: omitted out)
  case (Cons i items)
  then show ?case by (cases i) auto
qed simp

text \<open>While the texts fit, the loop copies; this is the longest run it copies.\<close>

lemma items_loop_copies:
  assumes "sum_list (map (text_cost policy) (texts pre)) < remaining"
  shows "items_loop policy (pre @ items) remaining omitted out =
    items_loop policy items (remaining - sum_list (map (text_cost policy) (texts pre))) omitted (out @ pre)"
  using assms
proof (induction pre arbitrary: remaining out)
  case (Cons i pre)
  then show ?case by (cases i) (auto simp: Cons.IH)
qed simp

lemma items_loop_total:
  assumes "list_all valid_utf8 (texts items)"
  shows "\<exists>r. items_loop policy items remaining omitted out = Some r"
  using assms
proof (induction items arbitrary: remaining omitted out)
  case (Cons i items)
  show ?case
  proof (cases i)
    case (InputText t)
    then show ?thesis
      using Cons truncate_text_total [of t "with_budget policy remaining"] by auto
  qed (use Cons in auto)
qed simp

lemma items_loop_keeps:
  assumes "items_loop policy items remaining omitted out = Some (omitted', out')"
  shows "others out' = others out @ others items \<and>
    omitted' + length (texts out') = omitted + length (texts out) + length (texts items)"
  using assms
proof (induction policy items remaining omitted out rule: items_loop.induct)
  case (2 policy t items remaining omitted out)
  then show ?case by (auto split: if_splits bind_splits)
qed (auto)


section \<open>The whole budget\<close>

text \<open>Where the budget runs out: in the text at the cut, if anywhere.\<close>

definition total_cost :: "truncation_policy \<Rightarrow> output_item list \<Rightarrow> nat" where
  "total_cost policy items = sum_list (map (text_cost policy) (texts items))"

lemma total_cost_simps [simp]:
  "total_cost policy [] = 0"
  "total_cost policy (InputText t # is) = text_cost policy t + total_cost policy is"
  "total_cost policy (InputImage u d # is) = total_cost policy is"
  "total_cost policy (EncryptedContent e # is) = total_cost policy is"
  by (simp_all add: total_cost_def)

lemma cut_exists:
  assumes "0 < n" and "n \<le> total_cost policy items"
  shows "\<exists>pre t post. items = pre @ InputText t # post \<and> total_cost policy pre < n \<and>
    n \<le> total_cost policy pre + text_cost policy t"
  using assms
proof (induction items arbitrary: n)
  case (Cons i items)
  show ?case
  proof (cases "\<exists>t. i = InputText t \<and> n \<le> text_cost policy t")
    case True
    then obtain t where "i = InputText t" "n \<le> text_cost policy t" by blast
    then have "i # items = [] @ InputText t # items \<and> total_cost policy [] < n \<and>
        n \<le> total_cost policy [] + text_cost policy t"
      using Cons.prems by simp
    then show ?thesis by blast
  next
    case False
    define k where "k = (case i of InputText t \<Rightarrow> text_cost policy t | _ \<Rightarrow> 0)"
    have k: "total_cost policy (i # js) = k + total_cost policy js" for js
      by (cases i) (simp_all add: k_def)
    have "k < n" using False Cons.prems(1) by (cases i) (auto simp: k_def)
    then have "0 < n - k" "n - k \<le> total_cost policy items" using Cons.prems k by auto
    from Cons.IH [OF this] obtain pre t post where "items = pre @ InputText t # post"
      "total_cost policy pre < n - k" "n - k \<le> total_cost policy pre + text_cost policy t" by blast
    then have "i # items = (i # pre) @ InputText t # post \<and> total_cost policy (i # pre) < n \<and>
        n \<le> total_cost policy (i # pre) + text_cost policy t"
      using \<open>k < n\<close> k [of pre] by auto
    then show ?thesis by blast
  qed
qed simp

lemma truncate_items_all:
  assumes "total_cost policy items < policy_budget policy"
  shows "truncate_function_output_items_with_policy items policy = Some items"
  using items_loop_copies [of policy items "policy_budget policy" "[]" 0 "[]"] assms
  by (simp add: truncate_function_output_items_with_policy_def total_cost_def)

definition omitted_note :: "nat \<Rightarrow> output_item list" where
  "omitted_note n = (if 0 < n then [InputText (''[omitted '' @ decimal n @ '' text items ...]'')] else [])"

lemma truncate_items_cut:
  assumes pre: "total_cost policy pre < policy_budget policy"
    and t: "policy_budget policy \<le> total_cost policy pre + text_cost policy t" and str: "is_str t"
  shows "\<exists>r. truncate_text t (with_budget policy (policy_budget policy - total_cost policy pre)) = Some r \<and>
    truncate_function_output_items_with_policy (pre @ InputText t # post) policy =
      Some (pre @ InputText r # others post @ omitted_note (length (texts post)))"
proof -
  let ?n = "policy_budget policy - total_cost policy pre"
  have n: "0 < ?n" using pre by simp
  have ne: "t \<noteq> []"
    using n t by (auto simp: text_cost_def approx_token_count_exact split: truncation_policy.splits)
  obtain r where r: "truncate_text t (with_budget policy ?n) = Some r"
    using truncate_text_total str is_str_def by blast
  then have "r \<noteq> []" using truncate_text_ne ne str is_str_def by blast
  have "items_loop policy (InputText t # post) ?n 0 pre =
      Some (length (texts post), pre @ InputText r # others post)"
  proof (cases "text_cost policy t \<le> ?n")
    case True
    then have "text_cost policy t = ?n" "r = t" using t r truncate_text_fits [OF str True n] by auto
    then show ?thesis using n by (simp add: items_loop_spent)
  next
    case False
    then show ?thesis using n r \<open>r \<noteq> []\<close> by (simp add: items_loop_spent)
  qed
  then have "truncate_function_output_items_with_policy (pre @ InputText t # post) policy =
      Some (pre @ InputText r # others post @ omitted_note (length (texts post)))"
    using items_loop_copies [of policy pre "policy_budget policy" "InputText t # post" 0 "[]"] pre
    by (simp add: truncate_function_output_items_with_policy_def total_cost_def omitted_note_def)
  with r show ?thesis by blast
qed

section \<open>Items within the budget\<close>

text \<open>
  Truncating the content items of a tool output: images and encrypted content are all kept,
  in order. Texts are copied while the budget lasts; the text in which it runs out is cut down to
  what is left of the budget, and the texts after it are replaced by a note that counts them.
\<close>
theorem items_within_budget:
  assumes "list_all is_str (texts items)"
  shows "(policy_budget policy = 0 \<longrightarrow>
      truncate_function_output_items_with_policy items policy =
        Some (others items @ omitted_note (length (texts items)))) \<and>
    (total_cost policy items < policy_budget policy \<longrightarrow>
      truncate_function_output_items_with_policy items policy = Some items) \<and>
    (0 < policy_budget policy \<and> policy_budget policy \<le> total_cost policy items \<longrightarrow>
      (\<exists>pre t post r. items = pre @ InputText t # post \<and>
        total_cost policy pre < policy_budget policy \<and>
        policy_budget policy \<le> total_cost policy pre + text_cost policy t \<and>
        truncate_text t (with_budget policy (policy_budget policy - total_cost policy pre)) = Some r \<and>
        truncate_function_output_items_with_policy items policy =
          Some (pre @ InputText r # others post @ omitted_note (length (texts post)))))"
proof (intro conjI impI)
  assume "policy_budget policy = 0"
  then show "truncate_function_output_items_with_policy items policy =
      Some (others items @ omitted_note (length (texts items)))"
    by (simp add: truncate_function_output_items_with_policy_def items_loop_spent omitted_note_def)
next
  assume "0 < policy_budget policy \<and> policy_budget policy \<le> total_cost policy items"
  then obtain pre t post where cut: "items = pre @ InputText t # post"
    "total_cost policy pre < policy_budget policy"
    "policy_budget policy \<le> total_cost policy pre + text_cost policy t"
    using cut_exists by blast
  have "is_str t" using assms cut(1) by simp
  from truncate_items_cut [OF cut(2,3) this, of post] cut
  show "\<exists>pre t post r. items = pre @ InputText t # post \<and>
        total_cost policy pre < policy_budget policy \<and>
        policy_budget policy \<le> total_cost policy pre + text_cost policy t \<and>
        truncate_text t (with_budget policy (policy_budget policy - total_cost policy pre)) = Some r \<and>
        truncate_function_output_items_with_policy items policy =
          Some (pre @ InputText r # others post @ omitted_note (length (texts post)))"
    by blast
qed (rule truncate_items_all)

definition demo_items :: "output_item list" where
  "demo_items = [InputText ''ab'', InputImage ''u'' None, InputText ''cdefgh'', InputText ''ij'']"

theorem items_within_budget_witness:
  "\<exists>pre t post r. demo_items = pre @ InputText t # post \<and>
    total_cost (Bytes 5) pre < 5 \<and> 5 \<le> total_cost (Bytes 5) pre + text_cost (Bytes 5) t \<and>
    truncate_text t (with_budget (Bytes 5) (5 - total_cost (Bytes 5) pre)) = Some r \<and>
    truncate_function_output_items_with_policy demo_items (Bytes 5) =
      Some (pre @ InputText r # others post @ omitted_note (length (texts post)))"
proof -
  have str: "list_all is_str (texts demo_items)"
    by (simp add: demo_items_def is_str_def ascii_valid i64_max_def)
  have budget: "policy_budget (Bytes 5) = 5" by (simp add: policy_budget_def)
  have "total_cost (Bytes 5) demo_items = 10" by (simp add: demo_items_def text_cost_def)
  then show ?thesis using items_within_budget [OF str, of "Bytes 5"] unfolding budget by simp
qed

end
