(* ===== verification/Readiness.thy ===== *)
theory Readiness
  imports Prelude "HOL-Library.Word"
begin

text \<open>
  The readiness flag with token authorization and waiting (\<open>utils/readiness/src/lib.rs\<close>),
  as an interleaving of the calls on one shared flag. Each call is a thread with a program
  counter; one step is one access to shared state: a load, swap or store of \<open>ready\<close>, a lock
  operation, the work under the lock on the token set, an operation of the watch channel.
  Interleaving is sequentially consistent.

  Tokens are 32-bit words, so that \<open>fetch_add\<close> wraps. The mutex and the watch channel are
  tokio's: the mutex grants exclusive access and may let an acquisition time out while it is
  held; whether \<open>watch::Sender::send\<close> stores its value when \<open>n\<close> receivers exist is the
  parameter \<open>stores\<close> of the step relation.
\<close>

section \<open>State\<close>

type_synonym token = "32 word"

datatype readiness_error = TokenLockFailed | FlagAlreadyReady

datatype call = IsReadyCall | SubscribeCall | MarkReadyCall token | WaitReadyCall

datatype outcome =
    IsReady bool
  | Subscribed "(readiness_error, token) result"
  | Marked "(readiness_error, bool) result"
  | Waited

text \<open>Where a call stands. \<open>is_ready\<close> is also called by \<open>wait_ready\<close>, which the flag of its
  program points records; \<open>WaitBorrow\<close> to \<open>WaitCheck\<close> carry the version the receiver has seen.\<close>

datatype pc =
    Start call
  | TryLock bool
  | Swap bool
  | Swapped bool bool
  | ReadySend bool
  | Reload bool
  | WaitSubscribe
  | WaitBorrow nat
  | WaitChanged nat
  | WaitCheck nat
  | SubLock
  | SubCheck
  | SubInsert
  | SubUnlock "(readiness_error, token) result"
  | MarkLock token
  | MarkRemove token
  | MarkStore
  | MarkClear
  | MarkUnlock bool
  | MarkSend
  | Done outcome

record readiness_flag =
  ready :: bool
  next_id :: token
  tokens :: "token set"
  lock :: "nat option"
  chan :: bool
  version :: nat
  receivers :: nat
  pcs :: "nat \<Rightarrow> pc"

definition new_flag :: "(nat \<Rightarrow> call) \<Rightarrow> readiness_flag" where
  "new_flag calls =
     \<lparr>ready = False, next_id = 1, tokens = {}, lock = None, chan = False, version = 0,
      receivers = 0, pcs = (\<lambda>i. Start (calls i))\<rparr>"

section \<open>Operations\<close>

definition goto :: "nat \<Rightarrow> pc \<Rightarrow> readiness_flag \<Rightarrow> readiness_flag" where
  "goto i p s = s\<lparr>pcs := (pcs s)(i := p)\<rparr>"

text \<open>\<open>is_ready\<close> returns \<open>b\<close>, to its caller or to \<open>wait_ready\<close>.\<close>

definition is_ready_returns :: "bool \<Rightarrow> bool \<Rightarrow> pc" where
  "is_ready_returns waiting b =
     (if waiting then (if b then Done Waited else WaitSubscribe) else Done (IsReady b))"

text \<open>The loop of \<open>subscribe\<close>: the next id that is neither 0 nor in use, and the new \<open>next_id\<close>.\<close>

partial_function (option) fresh_token :: "token \<Rightarrow> token set \<Rightarrow> (token \<times> token) option" where
  "fresh_token n ts = (if n \<noteq> 0 \<and> n \<notin> ts then Some (n, n + 1) else fresh_token (n + 1) ts)"

text \<open>\<open>tx.send(true)\<close>.\<close>

definition send_true :: "(nat \<Rightarrow> bool) \<Rightarrow> readiness_flag \<Rightarrow> readiness_flag" where
  "send_true stores s =
     (if stores (receivers s) then s\<lparr>chan := True, version := version s + 1\<rparr> else s)"

text \<open>The entry of each call: everything up to its first load of \<open>ready\<close>.\<close>

fun enter :: "call \<Rightarrow> bool \<Rightarrow> pc" where
  "enter IsReadyCall r = (if r then is_ready_returns False True else TryLock False)"
| "enter WaitReadyCall r = (if r then is_ready_returns True True else TryLock True)"
| "enter SubscribeCall r = (if r then Done (Subscribed (Err FlagAlreadyReady)) else SubLock)"
| "enter (MarkReadyCall t) r =
     (if r then Done (Marked (Ok False)) else if t = 0 then Done (Marked (Ok False)) else MarkLock t)"

inductive step :: "(nat \<Rightarrow> bool) \<Rightarrow> readiness_flag \<Rightarrow> readiness_flag \<Rightarrow> bool"
  for stores :: "nat \<Rightarrow> bool" where
  entered: "pcs s i = Start c \<Longrightarrow> step stores s (goto i (enter c (ready s)) s)"
\<comment> \<open>\<open>is_ready\<close>\<close>
| try_lock_empty: "pcs s i = TryLock w \<Longrightarrow> lock s = None \<Longrightarrow> tokens s = {} \<Longrightarrow>
    step stores s (goto i (Swap w) (s\<lparr>lock := Some i\<rparr>))"
| try_lock_in_use: "pcs s i = TryLock w \<Longrightarrow> lock s = None \<Longrightarrow> tokens s \<noteq> {} \<Longrightarrow>
    step stores s (goto i (Reload w) s)"
| try_lock_fails: "pcs s i = TryLock w \<Longrightarrow> lock s \<noteq> None \<Longrightarrow> step stores s (goto i (Reload w) s)"
| swaps: "pcs s i = Swap w \<Longrightarrow>
    step stores s (goto i (Swapped (ready s) w) (s\<lparr>ready := True\<rparr>))"
| swap_unlocks: "pcs s i = Swapped was w \<Longrightarrow>
    step stores s (goto i (if was then is_ready_returns w True else ReadySend w) (s\<lparr>lock := None\<rparr>))"
| ready_sends: "pcs s i = ReadySend w \<Longrightarrow>
    step stores s (goto i (is_ready_returns w True) (send_true stores s))"
| reloads: "pcs s i = Reload w \<Longrightarrow> step stores s (goto i (is_ready_returns w (ready s)) s)"
\<comment> \<open>\<open>subscribe\<close>\<close>
| sub_locks: "pcs s i = SubLock \<Longrightarrow> lock s = None \<Longrightarrow>
    step stores s (goto i SubCheck (s\<lparr>lock := Some i\<rparr>))"
| sub_times_out: "pcs s i = SubLock \<Longrightarrow> lock s \<noteq> None \<Longrightarrow>
    step stores s (goto i (Done (Subscribed (Err TokenLockFailed))) s)"
| sub_checks: "pcs s i = SubCheck \<Longrightarrow>
    step stores s (goto i (if ready s then SubUnlock (Err FlagAlreadyReady) else SubInsert) s)"
| sub_inserts: "pcs s i = SubInsert \<Longrightarrow> fresh_token (next_id s) (tokens s) = Some (t, n) \<Longrightarrow>
    step stores s (goto i (SubUnlock (Ok t)) (s\<lparr>next_id := n, tokens := insert t (tokens s)\<rparr>))"
| sub_unlocks: "pcs s i = SubUnlock r \<Longrightarrow>
    step stores s (goto i (Done (Subscribed r)) (s\<lparr>lock := None\<rparr>))"
\<comment> \<open>\<open>mark_ready\<close>\<close>
| mark_locks: "pcs s i = MarkLock t \<Longrightarrow> lock s = None \<Longrightarrow>
    step stores s (goto i (MarkRemove t) (s\<lparr>lock := Some i\<rparr>))"
| mark_times_out: "pcs s i = MarkLock t \<Longrightarrow> lock s \<noteq> None \<Longrightarrow>
    step stores s (goto i (Done (Marked (Err TokenLockFailed))) s)"
| mark_refuses: "pcs s i = MarkRemove t \<Longrightarrow> t \<notin> tokens s \<Longrightarrow>
    step stores s (goto i (MarkUnlock False) s)"
| mark_removes: "pcs s i = MarkRemove t \<Longrightarrow> t \<in> tokens s \<Longrightarrow>
    step stores s (goto i MarkStore (s\<lparr>tokens := tokens s - {t}\<rparr>))"
| mark_stores: "pcs s i = MarkStore \<Longrightarrow> step stores s (goto i MarkClear (s\<lparr>ready := True\<rparr>))"
| mark_clears: "pcs s i = MarkClear \<Longrightarrow>
    step stores s (goto i (MarkUnlock True) (s\<lparr>tokens := {}\<rparr>))"
| mark_unlocks: "pcs s i = MarkUnlock marked \<Longrightarrow>
    step stores s (goto i (if marked then MarkSend else Done (Marked (Ok False))) (s\<lparr>lock := None\<rparr>))"
| mark_sends: "pcs s i = MarkSend \<Longrightarrow>
    step stores s (goto i (Done (Marked (Ok True))) (send_true stores s))"
\<comment> \<open>\<open>wait_ready\<close> once \<open>is_ready\<close> has returned false\<close>
| wait_subscribes: "pcs s i = WaitSubscribe \<Longrightarrow>
    step stores s (goto i (WaitBorrow (version s)) (s\<lparr>receivers := receivers s + 1\<rparr>))"
| wait_borrows_true: "pcs s i = WaitBorrow v \<Longrightarrow> chan s \<Longrightarrow>
    step stores s (goto i (Done Waited) (s\<lparr>receivers := receivers s - 1\<rparr>))"
| wait_borrows_false: "pcs s i = WaitBorrow v \<Longrightarrow> \<not> chan s \<Longrightarrow>
    step stores s (goto i (WaitChanged v) s)"
| wait_changed: "pcs s i = WaitChanged v \<Longrightarrow> version s \<noteq> v \<Longrightarrow>
    step stores s (goto i (WaitCheck (version s)) s)"
| wait_ends: "pcs s i = WaitCheck v \<Longrightarrow> chan s \<Longrightarrow>
    step stores s (goto i (Done Waited) (s\<lparr>receivers := receivers s - 1\<rparr>))"
| wait_again: "pcs s i = WaitCheck v \<Longrightarrow> \<not> chan s \<Longrightarrow> step stores s (goto i (WaitChanged v) s)"

text \<open>The states the calls of a new flag can reach.\<close>

inductive reachable :: "(nat \<Rightarrow> bool) \<Rightarrow> (nat \<Rightarrow> call) \<Rightarrow> readiness_flag \<Rightarrow> bool"
  for stores calls where
  start: "reachable stores calls (new_flag calls)"
| next_state: "reachable stores calls s \<Longrightarrow> step stores s t \<Longrightarrow> reachable stores calls t"

section \<open>Allocating tokens\<close>

lemma fresh_token_skip:
  assumes "\<forall>j < k. n + of_nat j = 0 \<or> n + of_nat j \<in> ts"
    and "n + of_nat k \<noteq> 0" "n + of_nat k \<notin> ts"
  shows "fresh_token n ts = Some (n + of_nat k, n + of_nat k + 1)"
  using assms
proof (induction k arbitrary: n)
  case 0
  then show ?case by (subst fresh_token.simps) simp
next
  case (Suc k)
  have "n = 0 \<or> n \<in> ts" using Suc.prems(1) by force
  moreover have "\<forall>j < k. (n + 1) + of_nat j = 0 \<or> (n + 1) + of_nat j \<in> ts"
    using Suc.prems(1) by (force simp: add.assoc)
  ultimately show ?case
    using Suc.IH [of "n + 1"] Suc.prems(2,3) by (subst fresh_token.simps) (auto simp: algebra_simps)
qed

lemma of_nat_word_inj:
  fixes n :: token
  assumes "a < 2 ^ 32" "b < 2 ^ 32" "n + of_nat a = n + of_nat b"
  shows "a = b"
  using assms by (simp add: word_of_nat_eq_iff take_bit_nat_eq_self)

lemma fresh_token_some_offset:
  assumes fin: "finite ts" and small: "card ts + 2 \<le> 2 ^ 32"
  shows "\<exists>k < 2 ^ 32. n + of_nat k \<noteq> 0 \<and> n + of_nat k \<notin> (ts :: token set)"
proof (rule ccontr)
  assume "\<not> ?thesis"
  then have sub: "(\<lambda>k. n + of_nat k) ` {..< card ts + 2} \<subseteq> insert 0 ts"
    using small by (smt (verit) image_subset_iff insert_iff lessThan_iff order_less_le_trans)
  have "inj_on (\<lambda>k. n + of_nat k) {..< card ts + 2}"
    using small by (intro inj_onI) (auto intro: of_nat_word_inj)
  then have "card ((\<lambda>k. n + of_nat k) ` {..< card ts + 2}) = card ts + 2"
    by (simp add: card_image)
  moreover have "card ((\<lambda>k. n + of_nat k) ` {..< card ts + 2}) \<le> card (insert 0 ts)"
    using sub fin by (intro card_mono) auto
  moreover have "card (insert 0 ts) \<le> card ts + 1"
    using fin by (simp add: card_insert_if)
  ultimately show False by simp
qed

lemma fresh_token_terminates:
  assumes "finite ts" and "card ts + 2 \<le> 2 ^ 32"
  shows "\<exists>t. fresh_token n ts = Some (t, t + 1) \<and> t \<noteq> 0 \<and> t \<notin> ts"
proof -
  define ok where "ok = (\<lambda>k. n + of_nat k \<noteq> 0 \<and> n + of_nat k \<notin> ts)"
  have "\<exists>k. ok k" using fresh_token_some_offset [OF assms] ok_def by blast
  then have "ok (LEAST k. ok k)" "\<forall>j < (LEAST k. ok k). \<not> ok j"
    by (auto intro: LeastI_ex dest: not_less_Least)
  then show ?thesis
    using fresh_token_skip [of "LEAST k. ok k" n ts] by (auto simp: ok_def)
qed

lemma fresh_token_fresh:
  assumes "fresh_token n ts = Some (t, m)" and "finite ts" and "card ts + 2 \<le> 2 ^ 32"
  shows "t \<noteq> 0" and "t \<notin> ts"
  using fresh_token_terminates [OF assms(2,3), of n] assms(1) by auto

section \<open>Invariants\<close>

fun holds_lock :: "pc \<Rightarrow> bool" where
  "holds_lock (Swap _) = True" | "holds_lock (Swapped _ _) = True"
| "holds_lock SubCheck = True" | "holds_lock SubInsert = True" | "holds_lock (SubUnlock _) = True"
| "holds_lock (MarkRemove _) = True" | "holds_lock MarkStore = True" | "holds_lock MarkClear = True"
| "holds_lock (MarkUnlock _) = True" | "holds_lock _ = False"

text \<open>A call to \<open>mark_ready\<close> that has set the flag, so that it returns or has returned \<open>Ok(true)\<close>.\<close>

fun has_marked :: "pc \<Rightarrow> bool" where
  "has_marked MarkClear = True" | "has_marked (MarkUnlock b) = b" | "has_marked MarkSend = True"
| "has_marked (Done (Marked (Ok b))) = b" | "has_marked _ = False"

definition lock_inv :: "readiness_flag \<Rightarrow> bool" where
  "lock_inv s \<longleftrightarrow> (\<forall>i. holds_lock (pcs s i) \<longleftrightarrow> lock s = Some i)"

text \<open>What a thread at a program point relies on.\<close>

fun point_inv :: "readiness_flag \<Rightarrow> pc \<Rightarrow> bool" where
  "point_inv s (Swap _) = (tokens s = {})"
| "point_inv s (Swapped _ _) = (ready s \<and> tokens s = {})"
| "point_inv s SubInsert = (\<not> ready s)"
| "point_inv s MarkStore = (\<not> ready s)"
| "point_inv s (WaitBorrow v) = (v \<le> version s)"
| "point_inv s (WaitChanged v) = (v \<le> version s \<and> (v = version s \<longrightarrow> \<not> chan s))"
| "point_inv s (WaitCheck v) = (v \<le> version s \<and> chan s)"
| "point_inv s p = (has_marked p \<longrightarrow> ready s)"

definition token_inv :: "readiness_flag \<Rightarrow> bool" where
  "token_inv s \<longleftrightarrow> (ready s \<and> tokens s \<noteq> {} \<longrightarrow> (\<exists>i. pcs s i = MarkClear))"

definition one_marker :: "readiness_flag \<Rightarrow> bool" where
  "one_marker s \<longleftrightarrow> (\<forall>i j. has_marked (pcs s i) \<and> has_marked (pcs s j) \<longrightarrow> i = j)"

definition chan_inv :: "readiness_flag \<Rightarrow> bool" where
  "chan_inv s \<longleftrightarrow> (chan s \<longleftrightarrow> 0 < version s)"

definition flag_inv :: "readiness_flag \<Rightarrow> bool" where
  "flag_inv s \<longleftrightarrow> lock_inv s \<and> token_inv s \<and> one_marker s \<and> chan_inv s \<and> (\<forall>i. point_inv s (pcs s i))"

lemma goto_simps [simp]:
  "ready (goto i p s) = ready s" "next_id (goto i p s) = next_id s" "tokens (goto i p s) = tokens s"
  "lock (goto i p s) = lock s" "chan (goto i p s) = chan s" "version (goto i p s) = version s"
  "receivers (goto i p s) = receivers s" "pcs (goto i p s) = (pcs s)(i := p)"
  by (simp_all add: goto_def)

lemma send_true_simps [simp]:
  "ready (send_true st s) = ready s" "tokens (send_true st s) = tokens s" "lock (send_true st s) = lock s"
  "next_id (send_true st s) = next_id s" "receivers (send_true st s) = receivers s"
  "pcs (send_true st s) = pcs s"
  by (simp_all add: send_true_def)

lemma enter_simps [simp]:
  "holds_lock (enter c r) = False" "has_marked (enter c r) = False" "point_inv s (enter c r)"
  "enter c r \<noteq> MarkClear"
  by (cases c; simp add: is_ready_returns_def)+

lemma is_ready_returns_simps [simp]:
  "holds_lock (is_ready_returns w b) = False" "has_marked (is_ready_returns w b) = False"
  "point_inv s (is_ready_returns w b)" "is_ready_returns w b \<noteq> MarkClear"
  by (simp_all add: is_ready_returns_def)

text \<open>One thread moves to \<open>p\<close> while the shared state becomes that of \<open>s'\<close>: what each part of
  the invariant needs of the move.\<close>

lemma lock_inv_goto:
  assumes "lock_inv s" and "pcs s' = pcs s"
    and "(lock s' = lock s \<and> holds_lock p = holds_lock (pcs s i)) \<or>
      (lock s = None \<and> lock s' = Some i \<and> holds_lock p) \<or>
      (holds_lock (pcs s i) \<and> lock s' = None \<and> \<not> holds_lock p)"
  shows "lock_inv (goto i p s')"
  using assms by (force simp: lock_inv_def)

lemma token_inv_goto:
  assumes "token_inv s" and "pcs s' = pcs s"
    and "tokens s' = {} \<or> \<not> ready s' \<or> p = MarkClear \<or>
      (ready s' = ready s \<and> tokens s' = tokens s \<and> pcs s i \<noteq> MarkClear)"
  shows "token_inv (goto i p s')"
  using assms by (force simp: token_inv_def)

lemma one_marker_goto:
  assumes "one_marker s" and "pcs s' = pcs s"
    and "\<not> has_marked p \<or> has_marked (pcs s i) \<or> (\<forall>j. \<not> has_marked (pcs s j))"
  shows "one_marker (goto i p s')"
  using assms by (force simp: one_marker_def)

lemma point_inv_goto [simp]: "point_inv (goto i p s) q = point_inv s q"
  by (cases "(s, q)" rule: point_inv.cases) simp_all

lemma point_inv_frame:
  assumes "point_inv s q" and "ready s \<longrightarrow> ready s'" and "version s \<le> version s'"
    and "chan s \<longrightarrow> chan s'" and "version s' = version s \<longrightarrow> chan s' = chan s"
    and "holds_lock q \<longrightarrow> ready s' = ready s \<and> tokens s' = tokens s"
  shows "point_inv s' q"
  using assms by (cases "(s, q)" rule: point_inv.cases) auto

lemma points_goto:
  assumes "lock_inv s" and "\<forall>j. point_inv s (pcs s j)" and "pcs s' = pcs s"
    and "ready s \<longrightarrow> ready s'" and "version s \<le> version s'"
    and "chan s \<longrightarrow> chan s'" and "version s' = version s \<longrightarrow> chan s' = chan s"
    and "holds_lock (pcs s i) \<or> (ready s' = ready s \<and> tokens s' = tokens s)"
    and "point_inv s' p"
  shows "\<forall>j. point_inv (goto i p s') (pcs (goto i p s') j)"
proof
  fix j
  have "holds_lock (pcs s j) \<longrightarrow> ready s' = ready s \<and> tokens s' = tokens s" if "j \<noteq> i"
    using assms(1,8) that by (metis lock_inv_def option.inject)
  then have "point_inv s' (pcs s j)" if "j \<noteq> i"
    using point_inv_frame [of s "pcs s j" s'] assms(2-7) that by blast
  then show "point_inv (goto i p s') (pcs (goto i p s') j)"
    using assms(3,9) by simp
qed

lemma lock_inv_step: "step st s t \<Longrightarrow> lock_inv s \<Longrightarrow> lock_inv t"
  by (induction rule: step.induct; rule lock_inv_goto, assumption) auto

lemma chan_inv_step: "step st s t \<Longrightarrow> chan_inv s \<Longrightarrow> chan_inv t"
  by (induction rule: step.induct) (auto simp: chan_inv_def send_true_def)

lemma flag_invD:
  assumes "flag_inv s"
  shows "lock_inv s" "token_inv s" "one_marker s" "chan_inv s" "\<forall>i. point_inv s (pcs s i)"
  using assms by (simp_all add: flag_inv_def)

lemma point_at: "flag_inv s \<Longrightarrow> pcs s i = q \<Longrightarrow> point_inv s q"
  using flag_invD(5) by blast

text \<open>Under the lock, tokens are left only while the flag is not ready.\<close>

lemma removing_not_ready:
  assumes "flag_inv s" and "pcs s i = MarkRemove t" and "t \<in> tokens s"
  shows "\<not> ready s"
proof
  assume "ready s"
  then obtain j where "pcs s j = MarkClear" using assms flag_invD(2) by (auto simp: token_inv_def)
  then have "holds_lock (pcs s j)" "holds_lock (pcs s i)" using assms(2) by simp_all
  then have "i = j" using flag_invD(1) [OF assms(1)] by (simp add: lock_inv_def)
  then show False using \<open>pcs s j = MarkClear\<close> assms(2) by simp
qed

lemma marked_ready: "flag_inv s \<Longrightarrow> has_marked (pcs s j) \<Longrightarrow> ready s"
  using point_at [of s j "pcs s j"] by (cases "(s, pcs s j)" rule: point_inv.cases) auto

lemma storing_unmarked: "flag_inv s \<Longrightarrow> pcs s i = MarkStore \<Longrightarrow> \<not> has_marked (pcs s j)"
  using marked_ready point_at by fastforce

lemma changed_chan: "flag_inv s \<Longrightarrow> pcs s i = WaitChanged v \<Longrightarrow> version s \<noteq> v \<Longrightarrow> chan s"
  using flag_invD(4) [of s] point_at [of s i "WaitChanged v"] by (simp add: chan_inv_def)

lemma token_inv_step: "step st s t \<Longrightarrow> flag_inv s \<Longrightarrow> token_inv t"
  by (induction rule: step.induct; rule token_inv_goto, erule flag_invD(2))
     (auto dest: point_at removing_not_ready split: if_splits)

lemma one_marker_step: "step st s t \<Longrightarrow> flag_inv s \<Longrightarrow> one_marker t"
  by (induction rule: step.induct; rule one_marker_goto, erule flag_invD(3))
     (auto dest: storing_unmarked split: if_splits)

lemma points_step: "step st s t \<Longrightarrow> flag_inv s \<Longrightarrow> \<forall>j. point_inv t (pcs t j)"
  by (induction rule: step.induct; rule points_goto, erule flag_invD(1), erule flag_invD(5))
     (auto dest: point_at removing_not_ready changed_chan simp: send_true_def split: if_splits)

lemma flag_inv_step: "step st s t \<Longrightarrow> flag_inv s \<Longrightarrow> flag_inv t"
  using lock_inv_step chan_inv_step token_inv_step one_marker_step points_step flag_invD
  unfolding flag_inv_def [of t] by blast

lemma flag_inv_new: "flag_inv (new_flag calls)"
  by (simp add: flag_inv_def new_flag_def lock_inv_def token_inv_def one_marker_def chan_inv_def)

lemma reachable_inv: "reachable stores calls s \<Longrightarrow> flag_inv s"
  by (induction rule: reachable.induct) (auto intro: flag_inv_new flag_inv_step)

section \<open>Waiters\<close>

fun registered :: "pc \<Rightarrow> bool" where
  "registered (WaitBorrow _) = True" | "registered (WaitChanged _) = True"
| "registered (WaitCheck _) = True" | "registered _ = False"

text \<open>The receivers alive are those of the registered waiters.\<close>

definition recv_inv :: "readiness_flag \<Rightarrow> bool" where
  "recv_inv s \<longleftrightarrow> finite {i. registered (pcs s i)} \<and> receivers s = card {i. registered (pcs s i)}"

lemma registered_simps [simp]:
  "\<not> registered (enter c r)" "\<not> registered (is_ready_returns w b)"
  by (cases c; simp add: is_ready_returns_def) (simp add: is_ready_returns_def)

lemma recv_inv_goto:
  assumes inv: "recv_inv s" and pcs: "pcs s' = pcs s"
    and move: "(registered p = registered (pcs s i) \<and> receivers s' = receivers s) \<or>
      (registered p \<and> \<not> registered (pcs s i) \<and> receivers s' = receivers s + 1) \<or>
      (\<not> registered p \<and> registered (pcs s i) \<and> receivers s' = receivers s - 1)"
  shows "recv_inv (goto i p s')"
proof -
  let ?A = "{j. registered (pcs s j)}"
  have fin: "finite ?A" and card: "receivers s = card ?A" using inv by (simp_all add: recv_inv_def)
  have new: "{j. registered (pcs (goto i p s') j)} = (if registered p then insert i ?A else ?A - {i})"
    using pcs by auto
  from move consider "registered p = registered (pcs s i)" "receivers s' = receivers s"
    | "registered p" "\<not> registered (pcs s i)" "receivers s' = receivers s + 1"
    | "\<not> registered p" "registered (pcs s i)" "receivers s' = receivers s - 1" by blast
  then have "receivers s' = card (if registered p then insert i ?A else ?A - {i})"
    using fin by cases (auto simp: card insert_absorb)
  then show ?thesis using new fin by (simp add: recv_inv_def)
qed

lemma recv_inv_step: "step st s t \<Longrightarrow> recv_inv s \<Longrightarrow> recv_inv t"
  by (induction rule: step.induct; rule recv_inv_goto, assumption) (auto split: if_splits)

lemma recv_inv_new: "recv_inv (new_flag calls)"
  by (simp add: recv_inv_def new_flag_def)

lemma reachable_recv: "reachable stores calls s \<Longrightarrow> recv_inv s"
  by (induction rule: reachable.induct) (auto intro: recv_inv_new recv_inv_step)

lemma registered_receivers: "recv_inv s \<Longrightarrow> registered (pcs s i) \<Longrightarrow> 0 < receivers s"
  by (auto simp: recv_inv_def card_gt_0_iff)

text \<open>A registered waiter waits or has returned, and the channel keeps its value.\<close>

lemma waiter_step: "step st s t \<Longrightarrow> registered (pcs s i) \<or> pcs s i = Done Waited \<Longrightarrow>
    registered (pcs t i) \<or> pcs t i = Done Waited"
  by (induction rule: step.induct) (auto split: if_splits)

lemma waiter_steps: "(step st)\<^sup>*\<^sup>* s t \<Longrightarrow> registered (pcs s i) \<or> pcs s i = Done Waited \<Longrightarrow>
    registered (pcs t i) \<or> pcs t i = Done Waited"
  by (induction rule: rtranclp_induct) (auto dest: waiter_step)

lemma chan_step: "step st s t \<Longrightarrow> chan s \<Longrightarrow> chan t"
  by (induction rule: step.induct) (auto simp: send_true_def)

lemma chan_steps: "(step st)\<^sup>*\<^sup>* s t \<Longrightarrow> chan s \<Longrightarrow> chan t"
  by (induction rule: rtranclp_induct) (auto dest: chan_step)

lemma ready_step: "step st s t \<Longrightarrow> ready s \<Longrightarrow> ready t"
  by (induction rule: step.induct) auto

lemma ready_steps: "(step st)\<^sup>*\<^sup>* s t \<Longrightarrow> ready s \<Longrightarrow> ready t"
  by (induction rule: rtranclp_induct) (auto dest: ready_step)

lemma flag_inv_steps: "(step st)\<^sup>*\<^sup>* s t \<Longrightarrow> flag_inv s \<Longrightarrow> flag_inv t"
  by (induction rule: rtranclp_induct) (auto dest: flag_inv_step)

lemma check_returns:
  assumes "chan s" and "pcs s i = WaitCheck v"
  shows "\<exists>u. (step st)\<^sup>*\<^sup>* s u \<and> pcs u i = Done Waited"
  using wait_ends [OF assms(2,1), of st] by (auto intro!: exI r_into_rtranclp)

lemma waiter_returns:
  assumes inv: "flag_inv s" and ch: "chan s" and reg: "registered (pcs s i)"
  shows "\<exists>u. (step st)\<^sup>*\<^sup>* s u \<and> pcs u i = Done Waited"
proof (cases "pcs s i")
  case (WaitBorrow v)
  from wait_borrows_true [OF this ch, of st] show ?thesis by (auto intro!: exI r_into_rtranclp)
next
  case (WaitChanged v)
  then have "version s \<noteq> v" using point_at [OF inv WaitChanged] ch by auto
  from wait_changed [OF WaitChanged this, of st] have
    "step st s (goto i (WaitCheck (version s)) s)" .
  moreover obtain u where "(step st)\<^sup>*\<^sup>* (goto i (WaitCheck (version s)) s) u" "pcs u i = Done Waited"
    using check_returns [of "goto i (WaitCheck (version s)) s" i "version s" st] ch by auto
  ultimately show ?thesis by (meson converse_rtranclp_into_rtranclp)
next
  case (WaitCheck v)
  then show ?thesis using check_returns [OF ch] by blast
qed (use reg in simp_all)

text \<open>A broadcast while a waiter is registered reaches it, however the calls go on.\<close>

definition sends :: "pc \<Rightarrow> bool" where
  "sends p \<longleftrightarrow> p = MarkSend \<or> (\<exists>w. p = ReadySend w)"

lemma broadcast_stored:
  assumes "step stores s t" and "sends (pcs s j)" and "pcs t j \<noteq> pcs s j" and "stores (receivers s)"
  shows "chan t"
  using assms by (induction rule: step.induct) (auto simp: sends_def send_true_def split: if_splits)

text \<open>The watch channel's documented contract: a send succeeds, and stores its value, exactly if a
  receiver exists.\<close>

locale watch_channel =
  fixes stores :: "nat \<Rightarrow> bool"
  assumes stores_iff: "stores n \<longleftrightarrow> 0 < n"
begin

lemma broadcast_wakes:
  assumes reach: "reachable stores calls s" and reg: "registered (pcs s i)"
    and send: "sends (pcs s j)" "step stores s t" "pcs t j \<noteq> pcs s j"
    and later: "(step stores)\<^sup>*\<^sup>* t t'"
  shows "\<exists>u. (step stores)\<^sup>*\<^sup>* t' u \<and> pcs u i = Done Waited"
proof -
  have "0 < receivers s" using reachable_recv [OF reach] reg by (rule registered_receivers)
  then have "chan t" using broadcast_stored [OF send(2,1,3)] stores_iff by blast
  then have ch: "chan t'" using chan_steps [OF later] by blast
  have inv: "flag_inv t'"
    using reachable_inv [OF reach] flag_inv_step [OF send(2)] flag_inv_steps [OF later] by blast
  have "registered (pcs t i) \<or> pcs t i = Done Waited" using waiter_step [OF send(2)] reg by blast
  then have "registered (pcs t' i) \<or> pcs t' i = Done Waited" by (rule waiter_steps [OF later])
  then show ?thesis using waiter_returns [OF inv ch] by blast
qed

lemma nothing_stored: "\<not> stores 0"
  by (simp add: stores_iff)

end

text \<open>An instance of the contract, for a sender that counts its receivers.\<close>

definition watch_send_stores :: "nat \<Rightarrow> bool" where
  "watch_send_stores n = (n \<noteq> 0)"

interpretation watch: watch_channel watch_send_stores
  by unfold_locales (simp add: watch_send_stores_def)

section \<open>Running a schedule\<close>

text \<open>The steps as a function, for one thread at a time; acquisitions do not time out here.\<close>

definition thread_step :: "(nat \<Rightarrow> bool) \<Rightarrow> nat \<Rightarrow> readiness_flag \<Rightarrow> readiness_flag option" where
  "thread_step stores i s =
     (case pcs s i of
        Start c \<Rightarrow> Some (goto i (enter c (ready s)) s)
      | TryLock w \<Rightarrow>
          Some (if lock s = None \<and> tokens s = {} then goto i (Swap w) (s\<lparr>lock := Some i\<rparr>)
                else goto i (Reload w) s)
      | Swap w \<Rightarrow> Some (goto i (Swapped (ready s) w) (s\<lparr>ready := True\<rparr>))
      | Swapped was w \<Rightarrow>
          Some (goto i (if was then is_ready_returns w True else ReadySend w) (s\<lparr>lock := None\<rparr>))
      | ReadySend w \<Rightarrow> Some (goto i (is_ready_returns w True) (send_true stores s))
      | Reload w \<Rightarrow> Some (goto i (is_ready_returns w (ready s)) s)
      | SubLock \<Rightarrow> if lock s = None then Some (goto i SubCheck (s\<lparr>lock := Some i\<rparr>)) else None
      | SubCheck \<Rightarrow> Some (goto i (if ready s then SubUnlock (Err FlagAlreadyReady) else SubInsert) s)
      | SubInsert \<Rightarrow>
          map_option (\<lambda>(t, n). goto i (SubUnlock (Ok t)) (s\<lparr>next_id := n, tokens := insert t (tokens s)\<rparr>))
            (fresh_token (next_id s) (tokens s))
      | SubUnlock r \<Rightarrow> Some (goto i (Done (Subscribed r)) (s\<lparr>lock := None\<rparr>))
      | MarkLock t \<Rightarrow> if lock s = None then Some (goto i (MarkRemove t) (s\<lparr>lock := Some i\<rparr>)) else None
      | MarkRemove t \<Rightarrow>
          Some (if t \<in> tokens s then goto i MarkStore (s\<lparr>tokens := tokens s - {t}\<rparr>)
                else goto i (MarkUnlock False) s)
      | MarkStore \<Rightarrow> Some (goto i MarkClear (s\<lparr>ready := True\<rparr>))
      | MarkClear \<Rightarrow> Some (goto i (MarkUnlock True) (s\<lparr>tokens := {}\<rparr>))
      | MarkUnlock marked \<Rightarrow>
          Some (goto i (if marked then MarkSend else Done (Marked (Ok False))) (s\<lparr>lock := None\<rparr>))
      | MarkSend \<Rightarrow> Some (goto i (Done (Marked (Ok True))) (send_true stores s))
      | WaitSubscribe \<Rightarrow> Some (goto i (WaitBorrow (version s)) (s\<lparr>receivers := receivers s + 1\<rparr>))
      | WaitBorrow v \<Rightarrow>
          Some (if chan s then goto i (Done Waited) (s\<lparr>receivers := receivers s - 1\<rparr>)
                else goto i (WaitChanged v) s)
      | WaitChanged v \<Rightarrow> if version s \<noteq> v then Some (goto i (WaitCheck (version s)) s) else None
      | WaitCheck v \<Rightarrow>
          Some (if chan s then goto i (Done Waited) (s\<lparr>receivers := receivers s - 1\<rparr>)
                else goto i (WaitChanged v) s)
      | Done r \<Rightarrow> None)"

lemma sub_checks_cases:
  "pcs s i = SubCheck \<Longrightarrow> ready s \<Longrightarrow> step st s (goto i (SubUnlock (Err FlagAlreadyReady)) s)"
  "pcs s i = SubCheck \<Longrightarrow> \<not> ready s \<Longrightarrow> step st s (goto i SubInsert s)"
  using sub_checks [of s i st] by simp_all

lemmas step_branches = step.intros sub_checks_cases
  swap_unlocks [where was = True, simplified] swap_unlocks [where was = False, simplified]
  mark_unlocks [where marked = True, simplified] mark_unlocks [where marked = False, simplified]

lemma thread_step_sound: "thread_step stores i s = Some t \<Longrightarrow> step stores s t"
  unfolding thread_step_def
  by (cases "pcs s i") (auto split: if_splits intro: step_branches simp del: One_nat_def Suc_eq_plus1 add_Suc_right)

fun run_schedule :: "(nat \<Rightarrow> bool) \<Rightarrow> nat list \<Rightarrow> readiness_flag \<Rightarrow> readiness_flag option" where
  "run_schedule stores [] s = Some s"
| "run_schedule stores (i # is) s = Option.bind (thread_step stores i s) (run_schedule stores is)"

lemma run_schedule_reachable:
  "run_schedule stores is s = Some t \<Longrightarrow> reachable stores calls s \<Longrightarrow> reachable stores calls t"
proof (induction "is" arbitrary: s)
  case (Cons i "is")
  then obtain x where "thread_step stores i s = Some x" "run_schedule stores is x = Some t"
    by (auto split: bind_splits)
  with Cons show ?case using thread_step_sound reachable.next_state by blast
qed simp

section \<open>A lost wakeup\<close>

text \<open>A waiter that waits at \<open>changed()\<close> now and in every later state.\<close>

definition waits_forever :: "(nat \<Rightarrow> bool) \<Rightarrow> readiness_flag \<Rightarrow> nat \<Rightarrow> bool" where
  "waits_forever stores s i \<longleftrightarrow> (\<exists>v. \<forall>t. (step stores)\<^sup>*\<^sup>* s t \<longrightarrow> pcs t i = WaitChanged v)"

text \<open>Once the flag is ready and everyone else has returned or not yet started, nobody sends.\<close>

definition abandoned :: "nat \<Rightarrow> nat \<Rightarrow> readiness_flag \<Rightarrow> bool" where
  "abandoned i v s \<longleftrightarrow> ready s \<and> version s = v \<and> pcs s i = WaitChanged v \<and>
     (\<forall>j. j \<noteq> i \<longrightarrow> (\<exists>c. pcs s j = Start c) \<or> (\<exists>r. pcs s j = Done r))"

lemma enter_ready: "\<exists>r. enter c True = Done r"
  by (cases c) (simp_all add: is_ready_returns_def)

lemma abandoned_pc:
  assumes "abandoned i v s" and "pcs s j = p"
  shows "(j = i \<and> p = WaitChanged v) \<or> (\<exists>c. p = Start c \<and> j \<noteq> i) \<or> (\<exists>r. p = Done r)"
  using assms by (cases "j = i") (auto simp: abandoned_def)

lemma abandoned_enter: "abandoned i v s \<Longrightarrow> j \<noteq> i \<Longrightarrow> abandoned i v (goto j (enter c (ready s)) s)"
  using enter_ready [of c] by (auto simp: abandoned_def)

lemma abandoned_step:
  assumes "step stores s t" and "abandoned i v s"
  shows "abandoned i v t"
proof -
  have "version s = v" using assms(2) by (simp add: abandoned_def)
  with assms show ?thesis
    by (induction rule: step.induct) (auto dest: abandoned_pc intro: abandoned_enter)
qed

lemma abandoned_forever:
  assumes "abandoned i v s"
  shows "waits_forever stores s i"
proof -
  have "abandoned i v t" if "(step stores)\<^sup>*\<^sup>* s t" for t
    using that assms by (induction rule: rtranclp_induct) (auto intro: abandoned_step)
  then show ?thesis unfolding waits_forever_def abandoned_def by blast
qed

text \<open>Thread 0 subscribes, thread 1 marks the token ready, every other thread waits.\<close>

fun lost_calls :: "nat \<Rightarrow> call" where
  "lost_calls i = (if i = 0 then SubscribeCall else if i = 1 then MarkReadyCall 1 else WaitReadyCall)"

definition lost_schedule :: "nat list" where
  "lost_schedule = [0, 0, 0, 0, 0, 2, 2, 2, 1, 1, 1, 1, 1, 1, 1, 2, 2]"

lemma fresh_token_first: "fresh_token 1 {} = Some (1, 2)"
  by (subst fresh_token.simps) simp

lemma lost_run:
  assumes "\<not> stores 0"
  shows "\<exists>s. run_schedule stores lost_schedule (new_flag lost_calls) = Some s \<and> abandoned 2 0 s \<and>
    pcs s 1 = Done (Marked (Ok True))"
  by (simp add: lost_schedule_def thread_step_def new_flag_def fresh_token_first is_ready_returns_def
      goto_def send_true_def assms abandoned_def)

section \<open>Authorization\<close>

text \<open>A token that a call to \<open>subscribe\<close> returns or has returned.\<close>

definition granted :: "readiness_flag \<Rightarrow> token \<Rightarrow> bool" where
  "granted s t \<longleftrightarrow> (\<exists>i. pcs s i = SubUnlock (Ok t) \<or> pcs s i = Done (Subscribed (Ok t)))"

text \<open>What a thread's program point says of the call it runs.\<close>

fun point_auth :: "(token \<Rightarrow> bool) \<Rightarrow> call \<Rightarrow> pc \<Rightarrow> bool" where
  "point_auth g c (Start c') = (c' = c)"
| "point_auth g c (MarkLock t) = (c = MarkReadyCall t)"
| "point_auth g c (MarkRemove t) = (c = MarkReadyCall t)"
| "point_auth g c MarkStore = (\<exists>t. c = MarkReadyCall t \<and> g t)"
| "point_auth g c p = (has_marked p \<longrightarrow> (\<exists>t. c = MarkReadyCall t \<and> g t))"

definition auth_inv :: "(nat \<Rightarrow> call) \<Rightarrow> readiness_flag \<Rightarrow> bool" where
  "auth_inv calls s \<longleftrightarrow>
     (\<forall>t \<in> tokens s. granted s t) \<and> (\<forall>j. point_auth (granted s) (calls j) (pcs s j))"

lemma point_auth_mono: "point_auth g c p \<Longrightarrow> (\<And>t. g t \<Longrightarrow> g' t) \<Longrightarrow> point_auth g' c p"
  by (cases "(g, c, p)" rule: point_auth.cases) auto

lemma point_auth_simps [simp]:
  "point_auth g c (enter c r)" "point_auth g c (is_ready_returns w b)"
  by (cases c; simp add: is_ready_returns_def) (simp add: is_ready_returns_def)

lemma granted_step: "step st s u \<Longrightarrow> granted s t \<Longrightarrow> granted u t"
  by (induction rule: step.induct) (force simp: granted_def split: if_splits)+

lemma granted_goto: "granted (goto i (SubUnlock (Ok t)) s) t"
  by (auto simp: granted_def)

lemma tokens_step:
  "step st s u \<Longrightarrow> t \<in> tokens u \<Longrightarrow> t \<in> tokens s \<or> granted u t"
  by (induction rule: step.induct) (auto simp: granted_goto)

lemma point_auth_goto:
  assumes "auth_inv calls s" and "pcs s' = pcs s"
    and "point_auth (granted s) (calls i) (pcs s i) \<Longrightarrow> point_auth (granted s) (calls i) p"
  shows "point_auth (granted s) (calls j) (pcs (goto i p s') j)"
  using assms by (simp add: auth_inv_def)

lemma point_auth_step:
  "step st s u \<Longrightarrow> auth_inv calls s \<Longrightarrow> point_auth (granted s) (calls j) (pcs u j)"
  by (induction rule: step.induct; rule point_auth_goto, assumption)
     (auto simp: auth_inv_def split: if_splits)

lemma auth_inv_step: "step st s u \<Longrightarrow> auth_inv calls s \<Longrightarrow> auth_inv calls u"
  using granted_step [of st s u] tokens_step [of st s u] point_auth_step [of st s u calls]
    point_auth_mono [of "granted s" _ _ "granted u"]
  unfolding auth_inv_def [of calls u] by (meson auth_inv_def)

lemma reachable_auth: "reachable stores calls s \<Longrightarrow> auth_inv calls s"
proof (induction rule: reachable.induct)
  case start
  show ?case by (simp add: auth_inv_def new_flag_def)
qed (rule auth_inv_step)

lemma marked_authorized:
  assumes "auth_inv calls s" and "pcs s i = Done (Marked (Ok True))"
  shows "\<exists>t. calls i = MarkReadyCall t \<and> granted s t"
proof -
  have "point_auth (granted s) (calls i) (Done (Marked (Ok True)))"
    using assms by (metis auth_inv_def)
  then show ?thesis by simp
qed

section \<open>The flag's promises\<close>

lemma done_step: "step st s t \<Longrightarrow> pcs s i = Done r \<Longrightarrow> pcs t i = Done r"
  by (induction rule: step.induct) auto

lemma done_steps: "(step st)\<^sup>*\<^sup>* s t \<Longrightarrow> pcs s i = Done r \<Longrightarrow> pcs t i = Done r"
  by (induction rule: rtranclp_induct) (auto dest: done_step)

text \<open>
  C38. However the calls interleave, at most one call to \<open>mark_ready\<close> returns \<open>Ok(true)\<close>; it was
  given a token that \<open>subscribe\<close> handed out; and the flag is ready from then on.
\<close>
theorem mark_ready_once:
  assumes "reachable stores calls s" and "pcs s i = Done (Marked (Ok True))"
    and "(step stores)\<^sup>*\<^sup>* s u" and "pcs u j = Done (Marked (Ok True))"
  shows "j = i \<and> ready u \<and> (\<exists>t. calls i = MarkReadyCall t \<and> granted s t)"
proof -
  have inv: "flag_inv s" "flag_inv u"
    using reachable_inv [OF assms(1)] flag_inv_steps [OF assms(3)] by blast+
  have "one_marker u" by (rule flag_invD(3) [OF inv(2)])
  then have "j = i" using done_steps [OF assms(3,2)] assms(4) by (simp add: one_marker_def)
  moreover have "ready u" using marked_ready [OF inv(2), of j] assms(4) by simp
  ultimately show ?thesis using marked_authorized [OF reachable_auth [OF assms(1)] assms(2)] by blast
qed

definition lost_state :: readiness_flag where
  "lost_state = the (run_schedule watch_send_stores lost_schedule (new_flag lost_calls))"

lemma lost_state_run:
  "run_schedule watch_send_stores lost_schedule (new_flag lost_calls) = Some lost_state"
  "abandoned 2 0 lost_state" "pcs lost_state 1 = Done (Marked (Ok True))"
  using lost_run [where stores = watch_send_stores, OF watch.nothing_stored] by (auto simp: lost_state_def)

lemma lost_state_reachable: "reachable watch_send_stores lost_calls lost_state"
  by (rule run_schedule_reachable [OF lost_state_run(1) reachable.start])

theorem mark_ready_once_witness:
  "pcs lost_state 1 = Done (Marked (Ok True)) \<and> ready lost_state \<and>
    (\<exists>t. lost_calls 1 = MarkReadyCall t \<and> granted lost_state t)"
  using mark_ready_once [OF lost_state_reachable lost_state_run(3) rtranclp.rtrancl_refl lost_state_run(3)]
    lost_state_run(3) by simp

text \<open>
  C39. Allocating a token ends: while at most \<open>2^32 - 2\<close> tokens are in use, the loop of
  \<open>subscribe\<close> finds one that is neither zero nor in use, whatever the counter, wrap-around included.
\<close>
theorem subscribe_finds_token:
  assumes "finite ts" and "card ts + 2 \<le> 2 ^ 32"
  shows "\<exists>t. fresh_token n ts = Some (t, t + 1) \<and> t \<noteq> 0 \<and> t \<notin> ts"
  by (rule fresh_token_terminates [OF assms])

theorem subscribe_finds_token_witness:
  "\<exists>t. fresh_token 0xFFFFFFFF {0xFFFFFFFF, 1} = Some (t, t + 1) \<and> t \<noteq> 0 \<and> t \<notin> {0xFFFFFFFF, 1}"
  by (rule subscribe_finds_token) (simp_all add: card_insert_if)

text \<open>
  A waiter that has subscribed to the channel is woken: once a call broadcasts, then from every
  later state the waiter can run to its end. The channel stores a value sent while it has a receiver.
\<close>
theorem registered_waiter_woken:
  assumes "\<And>n. stores n \<longleftrightarrow> 0 < n"
    and "reachable stores calls s" and "registered (pcs s i)"
    and "sends (pcs s j)" and "step stores s t" and "pcs t j \<noteq> pcs s j"
    and "(step stores)\<^sup>*\<^sup>* t t'"
  shows "\<exists>u. (step stores)\<^sup>*\<^sup>* t' u \<and> pcs u i = Done Waited"
  using watch_channel.broadcast_wakes [OF watch_channel.intro, OF assms] .

definition woken_schedule :: "nat list" where
  "woken_schedule = [0, 0, 0, 0, 0, 2, 2, 2, 2, 2, 1, 1, 1, 1, 1, 1]"

definition woken_state :: readiness_flag where
  "woken_state = the (run_schedule watch_send_stores woken_schedule (new_flag lost_calls))"

lemma woken_state_run:
  "run_schedule watch_send_stores woken_schedule (new_flag lost_calls) = Some woken_state \<and>
   pcs woken_state 1 = MarkSend \<and> pcs woken_state 2 = WaitChanged 0"
  by (simp add: woken_state_def woken_schedule_def thread_step_def new_flag_def fresh_token_first
      is_ready_returns_def goto_def)

theorem registered_waiter_woken_witness:
  "\<exists>u. (step watch_send_stores)\<^sup>*\<^sup>*
      (goto 1 (Done (Marked (Ok True))) (send_true watch_send_stores woken_state)) u \<and> pcs u 2 = Done Waited"
proof -
  note at = woken_state_run
  have doc: "watch_send_stores n \<longleftrightarrow> 0 < n" for n by (simp add: watch_send_stores_def)
  have reach: "reachable watch_send_stores lost_calls woken_state"
    using at run_schedule_reachable reachable.start by blast
  have sent: "step watch_send_stores woken_state
      (goto 1 (Done (Marked (Ok True))) (send_true watch_send_stores woken_state))"
    using at mark_sends by blast
  have reg: "registered (pcs woken_state 2)" and send: "sends (pcs woken_state 1)"
    and moved: "pcs (goto 1 (Done (Marked (Ok True))) (send_true watch_send_stores woken_state)) 1 \<noteq> pcs woken_state 1"
    using at by (simp_all add: sends_def)
  show ?thesis
    by (rule registered_waiter_woken [OF doc reach reg send sent moved rtranclp.rtrancl_refl])
qed

text \<open>
  C40. A wakeup can be lost: there is a run in which \<open>mark_ready\<close> has returned \<open>Ok(true)\<close> and the flag
  is ready, while a call to \<open>wait_ready\<close>, which looked before and subscribed after the broadcast,
  waits in every later state.
\<close>
theorem wakeup_lost:
  assumes "\<And>n. stores n \<longleftrightarrow> 0 < n"
  shows "\<exists>s. reachable stores lost_calls s \<and> ready s \<and> pcs s 1 = Done (Marked (Ok True)) \<and>
    lost_calls 2 = WaitReadyCall \<and> waits_forever stores s 2"
proof -
  obtain s where s: "run_schedule stores lost_schedule (new_flag lost_calls) = Some s"
    "abandoned 2 0 s" "pcs s 1 = Done (Marked (Ok True))"
    using lost_run [of stores] assms by auto
  have "reachable stores lost_calls s" by (rule run_schedule_reachable [OF s(1) reachable.start])
  moreover have "ready s" using s(2) by (simp add: abandoned_def)
  ultimately show ?thesis using s(3) abandoned_forever [OF s(2)] by auto
qed

theorem wakeup_lost_witness:
  "\<exists>s. reachable watch_send_stores lost_calls s \<and> ready s \<and> pcs s 1 = Done (Marked (Ok True)) \<and>
    lost_calls 2 = WaitReadyCall \<and> waits_forever watch_send_stores s 2"
  by (rule wakeup_lost) (simp add: watch_send_stores_def)

end
