(* ===== verification/Response_Item.thy ===== *)
theory Response_Item
  imports Output_Truncation
begin

text \<open>
  The items of a conversation (\<open>protocol/src/models.rs\<close>): \<open>ResponseItem\<close> with every variant and
  field, and the payload of a tool output. JSON values (\<open>serde_json::Value\<close>) are kept as trees.
\<close>

datatype json =
    JNull | JBool bool | JNumber rstr | JString rstr | JArray "json list" | JObject "(rstr \<times> json) list"

datatype content_item =
    ContentInputText rstr
  | ContentInputImage rstr "image_detail option"
  | ContentOutputText rstr

datatype agent_message_input_content = AgentInputText rstr | AgentEncryptedContent rstr

datatype message_phase = Commentary | FinalAnswer

record metadata_passthrough =
  turn_id :: "rstr option"

datatype local_shell_status = Completed | InProgress | Incomplete

record local_shell_exec_action =
  shell_command :: "rstr list"
  timeout_ms :: "nat option"
  working_directory :: "rstr option"
  shell_env :: "(rstr \<times> rstr) list option"
  shell_user :: "rstr option"

datatype local_shell_action = Exec local_shell_exec_action

datatype web_search_action =
    SearchAction "rstr option" "rstr list option"
  | OpenPage "rstr option"
  | FindInPage "rstr option" "rstr option"
  | OtherAction

datatype reasoning_summary = SummaryText rstr

datatype reasoning_content = ReasoningText rstr | ReasoningPlainText rstr

datatype function_call_output_body = BodyText rstr | ContentItems "output_item list"

record function_call_output_payload =
  body :: function_call_output_body
  success :: "bool option"

definition payload_from_text :: "rstr \<Rightarrow> function_call_output_payload" where
  "payload_from_text content = \<lparr>body = BodyText content, success = None\<rparr>"

text \<open>The variants; the last field of most is the metadata passed through, the first the id.\<close>

datatype response_item =
    Message "rstr option" rstr "content_item list" "message_phase option" "metadata_passthrough option"
  | AgentMessage "rstr option" rstr rstr "agent_message_input_content list" "metadata_passthrough option"
  | Reasoning "rstr option" "reasoning_summary list" "reasoning_content list option" "rstr option"
      "metadata_passthrough option"
  | LocalShellCall "rstr option" "rstr option" local_shell_status local_shell_action
      "metadata_passthrough option"
  | FunctionCall "rstr option" rstr "rstr option" rstr rstr "metadata_passthrough option"
  | ToolSearchCall "rstr option" "rstr option" "rstr option" rstr json "metadata_passthrough option"
  | FunctionCallOutput "rstr option" rstr function_call_output_payload "metadata_passthrough option"
  | CustomToolCall "rstr option" "rstr option" rstr rstr rstr "metadata_passthrough option"
  | CustomToolCallOutput "rstr option" rstr "rstr option" function_call_output_payload
      "metadata_passthrough option"
  | ToolSearchOutput "rstr option" "rstr option" rstr rstr "json list" "metadata_passthrough option"
  | WebSearchCall "rstr option" "rstr option" "web_search_action option" "metadata_passthrough option"
  | ImageGenerationCall "rstr option" rstr "rstr option" rstr "metadata_passthrough option"
  | Compaction "rstr option" rstr "metadata_passthrough option"
  | CompactionTrigger
  | ContextCompaction "rstr option" "rstr option" "metadata_passthrough option"
  | Other

section \<open>Calls and outputs\<close>

text \<open>The three spaces of call ids. A local shell call is answered by a function output.\<close>

datatype key = Fn rstr | Search rstr | Custom rstr

fun call_key :: "response_item \<Rightarrow> key option" where
  "call_key (FunctionCall _ _ _ _ call_id _) = Some (Fn call_id)"
| "call_key (LocalShellCall _ call_id _ _ _) = map_option Fn call_id"
| "call_key (ToolSearchCall _ call_id _ _ _ _) = map_option Search call_id"
| "call_key (CustomToolCall _ _ call_id _ _ _) = Some (Custom call_id)"
| "call_key _ = None"

fun output_key :: "response_item \<Rightarrow> key option" where
  "output_key (FunctionCallOutput _ call_id _ _) = Some (Fn call_id)"
| "output_key (ToolSearchOutput _ call_id _ _ _ _) = map_option Search call_id"
| "output_key (CustomToolCallOutput _ call_id _ _ _) = Some (Custom call_id)"
| "output_key _ = None"

text \<open>Outputs that must answer a call: not those of searches the server ran itself.\<close>

fun needs_call :: "response_item \<Rightarrow> bool" where
  "needs_call (ToolSearchOutput _ _ _ execution _ _) = (execution \<noteq> ''server'')"
| "needs_call _ = True"

definition call_keys :: "response_item list \<Rightarrow> key list" where
  "call_keys items = List.map_filter call_key items"

definition output_keys :: "response_item list \<Rightarrow> key list" where
  "output_keys items = List.map_filter output_key items"

text \<open>The invariant on the history: every call has an output, every output has a call.\<close>

definition calls_answered :: "response_item list \<Rightarrow> bool" where
  "calls_answered items \<longleftrightarrow> set (call_keys items) \<subseteq> set (output_keys items)"

definition outputs_called :: "response_item list \<Rightarrow> bool" where
  "outputs_called items \<longleftrightarrow> set (output_keys (filter needs_call items)) \<subseteq> set (call_keys items)"

definition well_paired :: "response_item list \<Rightarrow> bool" where
  "well_paired items \<longleftrightarrow> calls_answered items \<and> outputs_called items"

lemma key_simps [simp]:
  "call_keys [] = []" "output_keys [] = []"
  "call_keys (xs @ ys) = call_keys xs @ call_keys ys"
  "output_keys (xs @ ys) = output_keys xs @ output_keys ys"
  "call_keys (x # xs) = (case call_key x of None \<Rightarrow> call_keys xs | Some k \<Rightarrow> k # call_keys xs)"
  "output_keys (x # xs) = (case output_key x of None \<Rightarrow> output_keys xs | Some k \<Rightarrow> k # output_keys xs)"
  by (simp_all add: call_keys_def output_keys_def map_filter_append split: option.splits)

lemma in_call_keys: "k \<in> set (call_keys items) \<longleftrightarrow> (\<exists>x \<in> set items. call_key x = Some k)"
  by (simp add: call_keys_def in_set_map_filter)

lemma in_output_keys: "k \<in> set (output_keys items) \<longleftrightarrow> (\<exists>x \<in> set items. output_key x = Some k)"
  by (simp add: output_keys_def in_set_map_filter)

lemma call_not_output: "call_key x = Some k \<Longrightarrow> output_key x = None"
  by (cases x) auto

lemma output_not_call: "output_key x = Some k \<Longrightarrow> call_key x = None"
  by (cases x) auto

lemma calls_answered_iff:
  "calls_answered items \<longleftrightarrow> (\<forall>x \<in> set items. \<forall>k. call_key x = Some k \<longrightarrow> k \<in> set (output_keys items))"
  unfolding calls_answered_def subset_iff in_call_keys by blast

lemma outputs_called_iff:
  "outputs_called items \<longleftrightarrow>
     (\<forall>x \<in> set items. \<forall>k. output_key x = Some k \<and> needs_call x \<longrightarrow> k \<in> set (call_keys items))"
  unfolding outputs_called_def subset_iff in_output_keys by auto

end
