(* ===== verification/Normalize.thy ===== *)
theory Normalize
  imports Response_Item
begin

text \<open>
  Normalizing the history before it is sent (\<open>core/src/context_manager/normalize.rs\<close>): every
  call gets an output, orphan outputs go, images go when the model cannot take them.
  \<open>error_or_panic\<close> panics in builds with debug assertions and logs otherwise: the flag
  \<open>debug\<close> chooses, and \<open>None\<close> is the panic.
\<close>

section \<open>The code\<close>

definition error_or_panic :: "bool \<Rightarrow> unit option" where
  "error_or_panic debug = (if debug then None else Some ())"

definition function_output_ids :: "response_item list \<Rightarrow> rstr set" where
  "function_output_ids items =
     set (List.map_filter (\<lambda>i. case i of FunctionCallOutput _ call_id _ _ \<Rightarrow> Some call_id | _ \<Rightarrow> None) items)"

definition tool_search_output_ids :: "response_item list \<Rightarrow> rstr set" where
  "tool_search_output_ids items =
     set (List.map_filter (\<lambda>i. case i of ToolSearchOutput _ (Some call_id) _ _ _ _ \<Rightarrow> Some call_id | _ \<Rightarrow> None) items)"

definition custom_tool_output_ids :: "response_item list \<Rightarrow> rstr set" where
  "custom_tool_output_ids items =
     set (List.map_filter (\<lambda>i. case i of CustomToolCallOutput _ call_id _ _ _ \<Rightarrow> Some call_id | _ \<Rightarrow> None) items)"

definition aborted :: function_call_output_payload where
  "aborted = payload_from_text ''aborted''"

text \<open>The body of the second loop: the output to insert after an item, if one is missing, and
  whether its absence is reported by \<open>error_or_panic\<close>.\<close>

definition missing_output ::
    "rstr set \<Rightarrow> rstr set \<Rightarrow> rstr set \<Rightarrow> response_item \<Rightarrow> (bool \<times> response_item) option" where
  "missing_output function_ids search_ids custom_ids item =
     (case item of
        FunctionCall _ _ _ _ call_id _ \<Rightarrow>
          if call_id \<notin> function_ids
          then Some (False, FunctionCallOutput None call_id aborted None) else None
      | ToolSearchCall _ (Some call_id) _ _ _ _ \<Rightarrow>
          if call_id \<notin> search_ids
          then Some (False, ToolSearchOutput None (Some call_id) ''completed'' ''client'' [] None) else None
      | CustomToolCall _ _ call_id _ _ _ \<Rightarrow>
          if call_id \<notin> custom_ids
          then Some (True, CustomToolCallOutput None call_id None aborted None) else None
      | LocalShellCall _ (Some call_id) _ _ _ \<Rightarrow>
          if call_id \<notin> function_ids
          then Some (True, FunctionCallOutput None call_id aborted None) else None
      | _ \<Rightarrow> None)"

fun collect_missing :: "bool \<Rightarrow> (response_item \<Rightarrow> (bool \<times> response_item) option) \<Rightarrow> nat
    \<Rightarrow> response_item list \<Rightarrow> (nat \<times> response_item) list option" where
  "collect_missing debug missing idx [] = Some []"
| "collect_missing debug missing idx (item # items) =
     (case missing item of
        None \<Rightarrow> collect_missing debug missing (idx + 1) items
      | Some (is_error, output) \<Rightarrow>
          do {
            (if is_error then error_or_panic debug else Some ());
            rest \<leftarrow> collect_missing debug missing (idx + 1) items;
            Some ((idx, output) # rest)
          })"

text \<open>\<open>items.insert(i, x)\<close>; the indices come from the same list, so the insertion never panics.\<close>

definition insert_item :: "nat \<Rightarrow> 'a \<Rightarrow> 'a list \<Rightarrow> 'a list" where
  "insert_item i x xs = take i xs @ x # drop i xs"

definition ensure_call_outputs_present :: "bool \<Rightarrow> response_item list \<Rightarrow> response_item list option" where
  "ensure_call_outputs_present debug items =
     do {
       missing_outputs_to_insert \<leftarrow>
         collect_missing debug
           (missing_output (function_output_ids items) (tool_search_output_ids items)
              (custom_tool_output_ids items)) 0 items;
       Some (fold (\<lambda>(idx, output). insert_item (idx + 1) output) (rev missing_outputs_to_insert) items)
     }"

definition function_call_ids :: "response_item list \<Rightarrow> rstr set" where
  "function_call_ids items =
     set (List.map_filter (\<lambda>i. case i of FunctionCall _ _ _ _ call_id _ \<Rightarrow> Some call_id | _ \<Rightarrow> None) items)"

definition tool_search_call_ids :: "response_item list \<Rightarrow> rstr set" where
  "tool_search_call_ids items =
     set (List.map_filter (\<lambda>i. case i of ToolSearchCall _ (Some call_id) _ _ _ _ \<Rightarrow> Some call_id | _ \<Rightarrow> None) items)"

definition local_shell_call_ids :: "response_item list \<Rightarrow> rstr set" where
  "local_shell_call_ids items =
     set (List.map_filter (\<lambda>i. case i of LocalShellCall _ (Some call_id) _ _ _ \<Rightarrow> Some call_id | _ \<Rightarrow> None) items)"

definition custom_tool_call_ids :: "response_item list \<Rightarrow> rstr set" where
  "custom_tool_call_ids items =
     set (List.map_filter (\<lambda>i. case i of CustomToolCall _ _ call_id _ _ _ \<Rightarrow> Some call_id | _ \<Rightarrow> None) items)"

text \<open>The closure given to \<open>retain\<close>.\<close>

definition has_match :: "response_item list \<Rightarrow> response_item \<Rightarrow> bool" where
  "has_match items item =
     (case item of
        FunctionCallOutput _ call_id _ _ \<Rightarrow>
          call_id \<in> function_call_ids items \<or> call_id \<in> local_shell_call_ids items
      | CustomToolCallOutput _ call_id _ _ _ \<Rightarrow> call_id \<in> custom_tool_call_ids items
      | ToolSearchOutput _ call_id _ execution _ _ \<Rightarrow>
          if execution = ''server'' then True
          else (case call_id of Some c \<Rightarrow> c \<in> tool_search_call_ids items | None \<Rightarrow> True)
      | _ \<Rightarrow> True)"

fun retain_matched :: "bool \<Rightarrow> (response_item \<Rightarrow> bool) \<Rightarrow> response_item list \<Rightarrow> response_item list option" where
  "retain_matched debug keep [] = Some []"
| "retain_matched debug keep (item # items) =
     do {
       (if keep item then Some () else error_or_panic debug);
       rest \<leftarrow> retain_matched debug keep items;
       Some (if keep item then item # rest else rest)
     }"

definition remove_orphan_outputs :: "bool \<Rightarrow> response_item list \<Rightarrow> response_item list option" where
  "remove_orphan_outputs debug items = retain_matched debug (has_match items) items"

text \<open>\<open>items.iter().position(p)\<close> then \<open>items.remove(pos)\<close>\<close>

fun remove_first_matching :: "('a \<Rightarrow> bool) \<Rightarrow> 'a list \<Rightarrow> 'a list" where
  "remove_first_matching p [] = []"
| "remove_first_matching p (x # xs) = (if p x then xs else x # remove_first_matching p xs)"

text \<open>The patterns the closures of \<open>remove_corresponding_for\<close> match.\<close>

definition is_function_output :: "rstr \<Rightarrow> response_item \<Rightarrow> bool" where
  "is_function_output call_id i = (case i of FunctionCallOutput _ existing _ _ \<Rightarrow> existing = call_id | _ \<Rightarrow> False)"

definition is_search_output :: "rstr \<Rightarrow> response_item \<Rightarrow> bool" where
  "is_search_output call_id i =
     (case i of ToolSearchOutput _ (Some existing) _ _ _ _ \<Rightarrow> existing = call_id | _ \<Rightarrow> False)"

definition is_custom_output :: "rstr \<Rightarrow> response_item \<Rightarrow> bool" where
  "is_custom_output call_id i = (case i of CustomToolCallOutput _ existing _ _ _ \<Rightarrow> existing = call_id | _ \<Rightarrow> False)"

definition is_function_call :: "rstr \<Rightarrow> response_item \<Rightarrow> bool" where
  "is_function_call call_id i = (case i of FunctionCall _ _ _ _ existing _ \<Rightarrow> existing = call_id | _ \<Rightarrow> False)"

definition is_shell_call :: "rstr \<Rightarrow> response_item \<Rightarrow> bool" where
  "is_shell_call call_id i =
     (case i of LocalShellCall _ (Some existing) _ _ _ \<Rightarrow> existing = call_id | _ \<Rightarrow> False)"

definition is_search_call :: "rstr \<Rightarrow> response_item \<Rightarrow> bool" where
  "is_search_call call_id i =
     (case i of ToolSearchCall _ (Some existing) _ _ _ _ \<Rightarrow> existing = call_id | _ \<Rightarrow> False)"

definition is_custom_call :: "rstr \<Rightarrow> response_item \<Rightarrow> bool" where
  "is_custom_call call_id i = (case i of CustomToolCall _ _ existing _ _ _ \<Rightarrow> existing = call_id | _ \<Rightarrow> False)"

definition remove_corresponding_for :: "response_item list \<Rightarrow> response_item \<Rightarrow> response_item list" where
  "remove_corresponding_for items item =
     (case item of
        FunctionCall _ _ _ _ call_id _ \<Rightarrow> remove_first_matching (is_function_output call_id) items
      | FunctionCallOutput _ call_id _ _ \<Rightarrow>
          if list_ex (is_function_call call_id) items then remove_first_matching (is_function_call call_id) items
          else if list_ex (is_shell_call call_id) items then remove_first_matching (is_shell_call call_id) items
          else items
      | ToolSearchCall _ (Some call_id) _ _ _ _ \<Rightarrow> remove_first_matching (is_search_output call_id) items
      | ToolSearchOutput _ (Some call_id) _ _ _ _ \<Rightarrow> remove_first_matching (is_search_call call_id) items
      | CustomToolCall _ _ call_id _ _ _ \<Rightarrow> remove_first_matching (is_custom_output call_id) items
      | CustomToolCallOutput _ call_id _ _ _ \<Rightarrow> remove_first_matching (is_custom_call call_id) items
      | LocalShellCall _ (Some call_id) _ _ _ \<Rightarrow> remove_first_matching (is_function_output call_id) items
      | _ \<Rightarrow> items)"

datatype input_modality = TextModality | ImageModality

definition IMAGE_CONTENT_OMITTED_PLACEHOLDER :: rstr where
  "IMAGE_CONTENT_OMITTED_PLACEHOLDER = ''image content omitted because you do not support image input''"

definition omit_content_image :: "content_item \<Rightarrow> content_item" where
  "omit_content_image c =
     (case c of ContentInputImage _ _ \<Rightarrow> ContentInputText IMAGE_CONTENT_OMITTED_PLACEHOLDER | _ \<Rightarrow> c)"

definition omit_output_image :: "output_item \<Rightarrow> output_item" where
  "omit_output_image c =
     (case c of InputImage _ _ \<Rightarrow> InputText IMAGE_CONTENT_OMITTED_PLACEHOLDER | _ \<Rightarrow> c)"

definition omit_payload_images :: "function_call_output_payload \<Rightarrow> function_call_output_payload" where
  "omit_payload_images p =
     (case body p of BodyText _ \<Rightarrow> p | ContentItems cs \<Rightarrow> p\<lparr>body := ContentItems (map omit_output_image cs)\<rparr>)"

definition omit_images :: "response_item \<Rightarrow> response_item" where
  "omit_images item =
     (case item of
        Message i role content phase md \<Rightarrow> Message i role (map omit_content_image content) phase md
      | FunctionCallOutput i call_id p md \<Rightarrow> FunctionCallOutput i call_id (omit_payload_images p) md
      | CustomToolCallOutput i call_id name p md \<Rightarrow>
          CustomToolCallOutput i call_id name (omit_payload_images p) md
      | ImageGenerationCall i status prompt result md \<Rightarrow> ImageGenerationCall i status prompt [] md
      | _ \<Rightarrow> item)"

definition strip_images_when_unsupported ::
    "input_modality list \<Rightarrow> response_item list \<Rightarrow> response_item list" where
  "strip_images_when_unsupported input_modalities items =
     (if ImageModality \<in> set input_modalities then items else map omit_images items)"

section \<open>In terms of keys\<close>

abbreviation answer :: "response_item list \<Rightarrow> response_item \<Rightarrow> (bool \<times> response_item) option" where
  "answer items \<equiv> missing_output (function_output_ids items) (tool_search_output_ids items)
     (custom_tool_output_ids items)"

lemma item_output_ids:
  "(case i of FunctionCallOutput _ c _ _ \<Rightarrow> Some c | _ \<Rightarrow> None) = Some c \<longleftrightarrow> output_key i = Some (Fn c)"
  "(case i of ToolSearchOutput _ (Some c) _ _ _ _ \<Rightarrow> Some c | _ \<Rightarrow> None) = Some c \<longleftrightarrow> output_key i = Some (Search c)"
  "(case i of CustomToolCallOutput _ c _ _ _ \<Rightarrow> Some c | _ \<Rightarrow> None) = Some c \<longleftrightarrow> output_key i = Some (Custom c)"
  by (cases i; simp split: option.splits)+

lemma item_call_ids:
  "call_key i = Some (Fn c) \<longleftrightarrow>
     (case i of FunctionCall _ _ _ _ c _ \<Rightarrow> Some c | _ \<Rightarrow> None) = Some c \<or>
     (case i of LocalShellCall _ (Some c) _ _ _ \<Rightarrow> Some c | _ \<Rightarrow> None) = Some c"
  "call_key i = Some (Search c) \<longleftrightarrow>
     (case i of ToolSearchCall _ (Some c) _ _ _ _ \<Rightarrow> Some c | _ \<Rightarrow> None) = Some c"
  "call_key i = Some (Custom c) \<longleftrightarrow> (case i of CustomToolCall _ _ c _ _ _ \<Rightarrow> Some c | _ \<Rightarrow> None) = Some c"
  by (cases i; simp split: option.splits)+

lemma output_ids:
  "c \<in> function_output_ids items \<longleftrightarrow> Fn c \<in> set (output_keys items)"
  "c \<in> tool_search_output_ids items \<longleftrightarrow> Search c \<in> set (output_keys items)"
  "c \<in> custom_tool_output_ids items \<longleftrightarrow> Custom c \<in> set (output_keys items)"
  unfolding function_output_ids_def tool_search_output_ids_def custom_tool_output_ids_def
    in_output_keys in_set_map_filter item_output_ids by simp_all

lemma call_ids:
  "Fn c \<in> set (call_keys items) \<longleftrightarrow> c \<in> function_call_ids items \<or> c \<in> local_shell_call_ids items"
  "Search c \<in> set (call_keys items) \<longleftrightarrow> c \<in> tool_search_call_ids items"
  "Custom c \<in> set (call_keys items) \<longleftrightarrow> c \<in> custom_tool_call_ids items"
  unfolding function_call_ids_def local_shell_call_ids_def tool_search_call_ids_def custom_tool_call_ids_def
    in_call_keys in_set_map_filter item_call_ids by blast+

lemma answer_None_iff:
  "answer items x = None \<longleftrightarrow> (\<forall>k. call_key x = Some k \<longrightarrow> k \<in> set (output_keys items))"
  by (cases x) (auto simp: missing_output_def output_ids split: option.splits)

lemma answer_Some:
  assumes "answer items x = Some (e, out)"
  shows "\<exists>k. call_key x = Some k \<and> output_key out = Some k \<and> k \<notin> set (output_keys items)"
    and "call_key out = None" and "needs_call out"
  using assms by (cases x; auto simp: missing_output_def output_ids split: option.splits if_splits)+

lemma has_match_iff:
  "has_match items x \<longleftrightarrow> (\<forall>k. output_key x = Some k \<and> needs_call x \<longrightarrow> k \<in> set (call_keys items))"
  by (cases x) (auto simp: has_match_def call_ids split: option.splits)

section \<open>Inserting the missing outputs\<close>

text \<open>The reference: every item followed by the output it lacks.\<close>

definition with_answer :: "response_item list \<Rightarrow> response_item \<Rightarrow> response_item list" where
  "with_answer items x = x # (case answer items x of None \<Rightarrow> [] | Some (_, out) \<Rightarrow> [out])"

lemma collect_missing_insert:
  assumes "collect_missing debug (answer all_items) (length pre) items = Some ms"
  shows "fold (\<lambda>(idx, output). insert_item (idx + 1) output) (rev ms) (pre @ items) =
    pre @ concat (map (with_answer all_items) items)"
  using assms
proof (induction items arbitrary: pre ms)
  case (Cons x items)
  show ?case
  proof (cases "answer all_items x")
    case None
    then show ?thesis
      using Cons.IH [of "pre @ [x]" ms] Cons.prems by (simp add: with_answer_def)
  next
    case (Some eo)
    obtain e out where eo: "eo = (e, out)" by fastforce
    obtain ms' where ms: "ms = (length pre, out) # ms'"
      and "collect_missing debug (answer all_items) (length (pre @ [x])) items = Some ms'"
      using Cons.prems Some eo by (auto split: bind_splits if_splits)
    from Cons.IH [OF this(2)] show ?thesis
      using Some eo ms by (simp add: with_answer_def insert_item_def)
  qed
qed simp

lemma collect_missing_release: "\<exists>ms. collect_missing False missing idx items = Some ms"
proof (induction items arbitrary: idx)
  case (Cons x items)
  obtain ms where "collect_missing False missing (idx + 1) items = Some ms" using Cons.IH by blast
  then show ?case by (cases "missing x") (auto simp: error_or_panic_def)
qed simp

lemma collect_missing_none: "(\<forall>x \<in> set items. missing x = None) \<Longrightarrow> collect_missing debug missing idx items = Some []"
  by (induction items arbitrary: idx) auto

lemma ensure_is_with_answer:
  "ensure_call_outputs_present debug items = Some out \<Longrightarrow> out = concat (map (with_answer items) items)"
  using collect_missing_insert [of debug items "[]" items]
  by (auto simp: ensure_call_outputs_present_def split: bind_splits)

lemma ensure_release:
  "ensure_call_outputs_present False items = Some (concat (map (with_answer items) items))"
proof -
  obtain ms where "collect_missing False (answer items) 0 items = Some ms"
    using collect_missing_release by blast
  then have "\<exists>out. ensure_call_outputs_present False items = Some out"
    by (simp add: ensure_call_outputs_present_def)
  then show ?thesis using ensure_is_with_answer by blast
qed

section \<open>Dropping orphans\<close>

lemma retain_release: "retain_matched False keep items = Some (filter keep items)"
  by (induction items) (auto simp: error_or_panic_def)

lemma retain_all: "list_all keep items \<Longrightarrow> retain_matched debug keep items = Some items"
  by (induction items) auto

lemma remove_orphans_release: "remove_orphan_outputs False items = Some (filter (has_match items) items)"
  by (simp add: remove_orphan_outputs_def retain_release)

section \<open>The invariant\<close>

definition normalize_items ::
    "bool \<Rightarrow> input_modality list \<Rightarrow> response_item list \<Rightarrow> response_item list option" where
  "normalize_items debug input_modalities items =
     do {
       answered \<leftarrow> ensure_call_outputs_present debug items;
       matched \<leftarrow> remove_orphan_outputs debug answered;
       Some (strip_images_when_unsupported input_modalities matched)
     }"

lemma with_answer_call_keys: "call_keys (with_answer items x) = call_keys [x]"
  using answer_Some(2) by (auto simp: with_answer_def split: option.splits)

lemma call_keys_concat: "call_keys (concat xss) = concat (map call_keys xss)"
  by (induction xss) simp_all

lemma answered_call_keys: "call_keys (concat (map (with_answer items) xs)) = call_keys xs"
  by (induction xs) (auto simp: with_answer_call_keys split: option.splits)

lemma answered:
  "calls_answered (concat (map (with_answer items) items))"
proof -
  have "k \<in> set (output_keys (concat (map (with_answer items) items)))"
    if k: "k \<in> set (call_keys items)" for k
  proof (cases "k \<in> set (output_keys items)")
    case True
    then show ?thesis by (auto simp: in_output_keys with_answer_def)
  next
    case False
    obtain x where x: "x \<in> set items" "call_key x = Some k" using k by (auto simp: in_call_keys)
    then obtain e out where out: "answer items x = Some (e, out)"
      using False answer_None_iff [of items x] by (cases "answer items x") auto
    then have "output_key out = Some k" using answer_Some(1) [OF out] x by auto
    moreover have "out \<in> set (with_answer items x)" using out by (simp add: with_answer_def)
    ultimately show ?thesis using x by (auto simp: in_output_keys)
  qed
  then show ?thesis unfolding calls_answered_def answered_call_keys by blast
qed

lemma matched_call_keys: "call_keys (filter (has_match ys) xs) = call_keys xs"
proof (induction xs)
  case (Cons x xs)
  have "has_match ys x" if "call_key x = Some k" for k
    using call_not_output [OF that] by (simp add: has_match_iff)
  with Cons show ?case by (auto split: option.splits)
qed simp

lemma matched_paired:
  assumes "calls_answered ys"
  shows "well_paired (filter (has_match ys) ys)"
proof -
  have "k \<in> set (output_keys (filter (has_match ys) ys))" if k: "k \<in> set (call_keys ys)" for k
  proof -
    obtain x where "x \<in> set ys" "output_key x = Some k"
      using assms k by (auto simp: calls_answered_def subset_iff in_output_keys)
    then show ?thesis using k unfolding in_output_keys by (force simp: has_match_iff)
  qed
  then have "calls_answered (filter (has_match ys) ys)"
    unfolding calls_answered_def matched_call_keys by blast
  moreover have "outputs_called (filter (has_match ys) ys)"
    unfolding outputs_called_def matched_call_keys by (auto simp: in_output_keys has_match_iff)
  ultimately show ?thesis by (simp add: well_paired_def)
qed

lemma omit_images_keys [simp]:
  "call_key (omit_images x) = call_key x" "output_key (omit_images x) = output_key x"
  "needs_call (omit_images x) = needs_call x"
  by (cases x; simp add: omit_images_def)+

lemma well_paired_map_omit [simp]: "well_paired (map omit_images items) = well_paired items"
proof -
  have "call_keys (map omit_images xs) = call_keys xs" "output_keys (map omit_images xs) = output_keys xs" for xs
    by (induction xs) (simp_all split: option.splits)
  moreover have "filter needs_call (map omit_images items) = map omit_images (filter needs_call items)"
    by (simp add: filter_map comp_def)
  ultimately show ?thesis by (simp add: well_paired_def calls_answered_def outputs_called_def)
qed

lemma strip_images_paired [simp]:
  "well_paired (strip_images_when_unsupported ms items) = well_paired items"
  by (simp add: strip_images_when_unsupported_def)

lemma normalize_release:
  "normalize_items False ms items =
     Some (strip_images_when_unsupported ms
       (let ys = concat (map (with_answer items) items) in filter (has_match ys) ys))"
  by (simp add: normalize_items_def ensure_release remove_orphans_release Let_def)

lemma normalize_paired: "normalize_items False ms items = Some out \<Longrightarrow> well_paired out"
  using matched_paired [OF answered] by (auto simp: normalize_release Let_def)

text \<open>A paired history needs no repair, and triggers no panic in a debug build.\<close>

lemma paired_answered:
  assumes "calls_answered items"
  shows "ensure_call_outputs_present debug items = Some items"
proof -
  have "answer items x = None" if "x \<in> set items" for x
    using assms that by (simp add: answer_None_iff calls_answered_iff)
  then show ?thesis by (simp add: ensure_call_outputs_present_def collect_missing_none)
qed

lemma paired_matched:
  assumes "outputs_called items"
  shows "remove_orphan_outputs debug items = Some items"
  unfolding remove_orphan_outputs_def
  using assms by (intro retain_all) (simp add: list_all_iff has_match_iff outputs_called_iff)

lemma normalize_well_paired:
  "well_paired items \<Longrightarrow>
   normalize_items debug ms items = Some (strip_images_when_unsupported ms items)"
  by (simp add: normalize_items_def well_paired_def paired_answered paired_matched)

lemma omit_images_idem [simp]: "omit_images (omit_images x) = omit_images x"
proof -
  have c: "omit_content_image (omit_content_image c) = omit_content_image c" for c
    by (cases c) (simp_all add: omit_content_image_def)
  have o: "omit_output_image (omit_output_image c) = omit_output_image c" for c
    by (cases c) (simp_all add: omit_output_image_def)
  have "omit_payload_images (omit_payload_images p) = omit_payload_images p" for p
    by (auto simp: omit_payload_images_def o split: function_call_output_body.splits)
  with c show ?thesis by (cases x) (simp_all add: omit_images_def)
qed

lemma strip_images_idem [simp]:
  "strip_images_when_unsupported ms (strip_images_when_unsupported ms items) =
   strip_images_when_unsupported ms items"
  by (simp add: strip_images_when_unsupported_def)

text \<open>Nothing but outputs is dropped or added.\<close>

definition non_outputs :: "response_item list \<Rightarrow> response_item list" where
  "non_outputs items = filter (\<lambda>x. output_key x = None) items"

lemma answered_non_outputs: "non_outputs (concat (map (with_answer items) xs)) = non_outputs xs"
proof (induction xs)
  case (Cons x xs)
  have "non_outputs (with_answer items x) = non_outputs [x]"
    using answer_Some(1) [of items x] by (auto simp: with_answer_def non_outputs_def split: option.splits)
  with Cons show ?case by (simp add: non_outputs_def)
qed simp

lemma matched_non_outputs: "non_outputs (filter (has_match ys) xs) = non_outputs xs"
  by (induction xs) (auto simp: non_outputs_def has_match_iff)

lemma strip_non_outputs:
  "non_outputs (strip_images_when_unsupported ms xs) = strip_images_when_unsupported ms (non_outputs xs)"
  by (simp add: non_outputs_def strip_images_when_unsupported_def filter_map comp_def)

lemma normalize_non_outputs:
  "normalize_items False ms items = Some out \<Longrightarrow>
   non_outputs out = strip_images_when_unsupported ms (non_outputs items)"
  by (auto simp: normalize_release Let_def strip_non_outputs matched_non_outputs answered_non_outputs)

section \<open>Removing an item with its counterpart\<close>

definition distinct_keys :: "response_item list \<Rightarrow> bool" where
  "distinct_keys items \<longleftrightarrow> distinct (call_keys items) \<and> distinct (output_keys items)"

lemma remove_first_split:
  "p y \<Longrightarrow> \<forall>x \<in> set a. \<not> p x \<Longrightarrow> remove_first_matching p (a @ y # b) = a @ b"
  by (induction a) auto

lemma remove_first_none: "\<forall>x \<in> set xs. \<not> p x \<Longrightarrow> remove_first_matching p xs = xs"
  by (induction xs) auto

lemma remove_first_cases:
  obtains "\<forall>x \<in> set xs. \<not> p x" "remove_first_matching p xs = xs"
  | a y b where "xs = a @ y # b" "p y" "remove_first_matching p xs = a @ b"
proof (cases "\<exists>x \<in> set xs. p x")
  case True
  from split_list_first_prop [OF this] obtain a y b
    where xs: "xs = a @ y # b" "p y" "\<forall>x \<in> set a. \<not> p x" by blast
  show ?thesis using that(2) [OF xs(1,2)] remove_first_split [OF xs(2,3)] xs(1) by simp
next
  case False
  then have "\<forall>x \<in> set xs. \<not> p x" by blast
  from that(1) [OF this remove_first_none [OF this]] show ?thesis .
qed

lemma remove_first_cong:
  "(\<And>x. x \<in> set xs \<Longrightarrow> p x = q x) \<Longrightarrow> remove_first_matching p xs = remove_first_matching q xs"
  by (induction xs) auto

lemma output_patterns:
  "is_function_output c = (\<lambda>i. output_key i = Some (Fn c))"
  "is_search_output c = (\<lambda>i. output_key i = Some (Search c))"
  "is_custom_output c = (\<lambda>i. output_key i = Some (Custom c))"
  unfolding is_function_output_def is_search_output_def is_custom_output_def
  by (rule ext, case_tac i; simp split: option.splits)+

lemma call_patterns:
  "is_search_call c = (\<lambda>i. call_key i = Some (Search c))"
  "is_custom_call c = (\<lambda>i. call_key i = Some (Custom c))"
  unfolding is_search_call_def is_custom_call_def
  by (rule ext, case_tac i; simp split: option.splits)+

lemma call_or_shell: "is_function_call c i \<or> is_shell_call c i \<longleftrightarrow> call_key i = Some (Fn c)"
  unfolding is_function_call_def is_shell_call_def by (cases i; simp split: option.splits)

lemma remove_for_call:
  assumes "call_key x = Some k"
  shows "remove_corresponding_for items x = remove_first_matching (\<lambda>i. output_key i = Some k) items"
  using assms by (cases x) (auto simp: remove_corresponding_for_def output_patterns split: option.splits)

lemma distinct_key_unique:
  assumes "distinct (call_keys items)" and "items = a @ y # b" and "call_key y = Some k"
    and "z \<in> set (a @ b)"
  shows "call_key z \<noteq> Some k"
proof
  assume "call_key z = Some k"
  then have "k \<in> set (call_keys (a @ b))" using assms(4) in_call_keys by blast
  then show False using assms(1-3) by auto
qed

text \<open>Of a function call and a shell call the code tries the function call first; with distinct
  ids it does not matter.\<close>

lemma first_call_or_shell:
  assumes "distinct (call_keys items)" and "\<And>i. P i \<or> Q i \<longleftrightarrow> call_key i = Some k"
  shows "(if list_ex P items then remove_first_matching P items
          else if list_ex Q items then remove_first_matching Q items else items) =
    remove_first_matching (\<lambda>i. call_key i = Some k) items"
proof (cases "list_ex P items")
  case True
  then obtain y where "y \<in> set items" "P y" by (auto simp: list_ex_iff)
  then obtain a b where items: "items = a @ y # b" by (auto dest: split_list)
  have y: "call_key y = Some k" using \<open>P y\<close> assms(2) by blast
  then have "call_key z \<noteq> Some k" if "z \<in> set (a @ b)" for z
    using distinct_key_unique [OF assms(1) items y that] by blast
  then have "P z = (call_key z = Some k)" if "z \<in> set items" for z
    using that items \<open>P y\<close> y assms(2) by auto
  then show ?thesis using True by (simp cong: remove_first_cong)
next
  case False
  then have "Q z = (call_key z = Some k)" if "z \<in> set items" for z
    using that assms(2) by (auto simp: list_ex_iff)
  then have "remove_first_matching Q items = remove_first_matching (\<lambda>i. call_key i = Some k) items"
    by (rule remove_first_cong)
  then show ?thesis using False remove_first_none [of items Q] by (auto simp: list_ex_iff)
qed

lemma remove_for_output:
  assumes "output_key x = Some k" and "distinct (call_keys items)"
  shows "remove_corresponding_for items x = remove_first_matching (\<lambda>i. call_key i = Some k) items"
proof (cases k)
  case (Fn c)
  then show ?thesis
    using assms first_call_or_shell [OF assms(2) call_or_shell]
    by (cases x) (auto simp: remove_corresponding_for_def Let_def split: option.splits)
qed (use assms in \<open>cases x; auto simp: remove_corresponding_for_def call_patterns split: option.splits\<close>)+

lemma remove_for_neither:
  "call_key x = None \<Longrightarrow> output_key x = None \<Longrightarrow> remove_corresponding_for items x = items"
  by (cases x) (auto simp: remove_corresponding_for_def split: option.splits)

text \<open>Dropping one call and its output from a paired history.\<close>

lemma drop_pair:
  assumes paired: "well_paired xs" "distinct_keys xs"
    and rest: "call_keys xs = k1 @ k # k2" "call_keys ys = k1 @ k2"
      "output_keys xs = m1 @ k # m2" "output_keys ys = m1 @ m2"
    and sub: "set ys \<subseteq> set xs"
  shows "well_paired ys \<and> distinct_keys ys"
proof -
  have d: "distinct (k1 @ k # k2)" "distinct (m1 @ k # m2)"
    using paired(2) rest(1,3) by (simp_all only: distinct_keys_def)
  have calls: "set (call_keys ys) = set (call_keys xs) - {k}"
    unfolding rest(1,2) using d(1) by auto
  have outs: "set (output_keys ys) = set (output_keys xs) - {k}"
    unfolding rest(3,4) using d(2) by auto
  have "set (call_keys xs) \<subseteq> set (output_keys xs)"
    using paired(1) by (simp only: well_paired_def calls_answered_def)
  then have "calls_answered ys" unfolding calls_answered_def calls outs by blast
  moreover have "outputs_called ys"
    unfolding outputs_called_iff
  proof (intro ballI allI impI)
    fix x q assume x: "x \<in> set ys" "output_key x = Some q \<and> needs_call x"
    then have "q \<in> set (call_keys xs)"
      using paired(1) sub unfolding well_paired_def outputs_called_iff by blast
    moreover have "q \<noteq> k" using x outs in_output_keys by blast
    ultimately show "q \<in> set (call_keys ys)" unfolding calls by blast
  qed
  moreover have "distinct_keys ys" unfolding distinct_keys_def rest(2,4) using d by auto
  ultimately show ?thesis by (simp add: well_paired_def)
qed

lemma drop_unanswering_output:
  assumes "well_paired (x # items)" "distinct_keys (x # items)" "output_key x = Some k"
    and "k \<notin> set (call_keys items)"
  shows "well_paired items \<and> distinct_keys items"
  using assms output_not_call [OF assms(3)]
  by (auto simp: well_paired_def calls_answered_iff outputs_called_iff distinct_keys_def in_call_keys)

lemma remove_corresponding_paired:
  assumes paired: "well_paired (x # items)" "distinct_keys (x # items)"
  shows "well_paired (remove_corresponding_for items x) \<and> distinct_keys (remove_corresponding_for items x)"
proof -
  consider k where "call_key x = Some k" | k where "output_key x = Some k"
    | "call_key x = None" "output_key x = None" by (cases "call_key x"; cases "output_key x") auto
  then show ?thesis
  proof cases
    case (1 k)
    note no = call_not_output [OF 1] and rem = remove_for_call [OF 1, of items]
    have k: "k \<in> set (output_keys items)" using paired(1) 1 no by (simp add: well_paired_def calls_answered_def)
    show ?thesis
    proof (cases rule: remove_first_cases [of items "\<lambda>i. output_key i = Some k"])
      case 1
      with k show ?thesis by (auto simp: in_output_keys)
    next
      case (2 a y b)
      then show ?thesis
        using drop_pair [OF paired, of "[]" k "call_keys (a @ b)" "a @ b" "output_keys a" "output_keys b"]
          \<open>call_key x = Some k\<close> no output_not_call [OF 2(2)] rem by auto
    qed
  next
    case (2 k)
    note no = output_not_call [OF 2]
    have d: "distinct (call_keys items)" using paired(2) no by (simp add: distinct_keys_def)
    note rem = remove_for_output [OF 2 d]
    show ?thesis
    proof (cases rule: remove_first_cases [of items "\<lambda>i. call_key i = Some k"])
      case 1
      then show ?thesis
        using drop_unanswering_output [OF paired \<open>output_key x = Some k\<close>] rem by (auto simp: in_call_keys)
    next
      case (2 a y b)
      then show ?thesis
        using drop_pair [OF paired, of "call_keys a" k "call_keys b" "a @ b" "[]" "output_keys (a @ b)"]
          \<open>output_key x = Some k\<close> no call_not_output [OF 2(2)] rem by auto
    qed
  next
    case 3
    then show ?thesis
      using paired by (simp add: remove_for_neither well_paired_def calls_answered_iff outputs_called_iff distinct_keys_def)
  qed
qed

end
