(* ===== verification/History.thy ===== *)
theory History
  imports Normalize
begin

text \<open>
  The conversation history of a session (\<open>core/src/context_manager/history.rs\<close>): the context
  manager's state and every operation that changes it, with the token accounting of
  \<open>protocol/src/protocol.rs\<close> and the fragment classification of \<open>core/src/event_mapping.rs\<close>.

  The state is polymorphic in the reference context item and the world state, which the history
  only stores and clears. \<open>is_contextual_user_fragment\<close> (a registry of fragment types) and the
  test whether a text is the JSON of an inter-agent message (serde) are arguments: the record
  \<open>classifiers\<close>. As before \<open>None\<close> is a panic.
\<close>

section \<open>Token accounting\<close>

text \<open>The counts are the service's, far from the range of \<open>i64\<close>, and kept as integers.\<close>

record token_usage =
  input_tokens :: int
  cached_input_tokens :: int
  output_tokens :: int
  reasoning_output_tokens :: int
  total_tokens :: int

definition default_usage :: token_usage where
  "default_usage = \<lparr>input_tokens = 0, cached_input_tokens = 0, output_tokens = 0,
     reasoning_output_tokens = 0, total_tokens = 0\<rparr>"

record token_usage_info =
  total_token_usage :: token_usage
  last_token_usage :: token_usage
  model_context_window :: "int option"

definition add_usage :: "token_usage \<Rightarrow> token_usage \<Rightarrow> token_usage" where
  "add_usage u v = \<lparr>input_tokens = input_tokens u + input_tokens v,
     cached_input_tokens = cached_input_tokens u + cached_input_tokens v,
     output_tokens = output_tokens u + output_tokens v,
     reasoning_output_tokens = reasoning_output_tokens u + reasoning_output_tokens v,
     total_tokens = total_tokens u + total_tokens v\<rparr>"

definition append_last_usage :: "token_usage_info \<Rightarrow> token_usage \<Rightarrow> token_usage_info" where
  "append_last_usage info usage =
     info\<lparr>total_token_usage := add_usage (total_token_usage info) usage, last_token_usage := usage\<rparr>"

definition new_or_append ::
    "token_usage_info option \<Rightarrow> token_usage option \<Rightarrow> int option \<Rightarrow> token_usage_info option" where
  "new_or_append info usage window =
     (if info = None \<and> usage = None then None
      else
        let info1 = (case info of Some i \<Rightarrow> i
                     | None \<Rightarrow> \<lparr>total_token_usage = default_usage, last_token_usage = default_usage,
                                model_context_window = window\<rparr>);
            info2 = (case usage of Some l \<Rightarrow> append_last_usage info1 l | None \<Rightarrow> info1)
        in Some (case window of Some w \<Rightarrow> info2\<lparr>model_context_window := Some w\<rparr> | None \<Rightarrow> info2))"

definition fill_to_context_window :: "token_usage_info \<Rightarrow> int \<Rightarrow> token_usage_info" where
  "fill_to_context_window info window =
     (let delta = max (window - total_tokens (total_token_usage info)) 0
      in info\<lparr>model_context_window := Some window,
              total_token_usage := default_usage\<lparr>total_tokens := window\<rparr>,
              last_token_usage := default_usage\<lparr>total_tokens := delta\<rparr>\<rparr>)"

definition full_context_window :: "int \<Rightarrow> token_usage_info" where
  "full_context_window window =
     fill_to_context_window
       \<lparr>total_token_usage = default_usage, last_token_usage = default_usage,
        model_context_window = Some window\<rparr> window"

section \<open>Classifying items\<close>

record classifiers =
  contextual_user_fragment :: "content_item \<Rightarrow> bool"
  inter_agent_json :: "rstr \<Rightarrow> bool"

definition CONTEXTUAL_DEVELOPER_PREFIXES :: "rstr list" where
  "CONTEXTUAL_DEVELOPER_PREFIXES =
     [''<permissions instructions>'', ''<model_switch>'', ''<collaboration_mode>'',
      ''<multi_agent_mode>'', ''<realtime_conversation>'', ''<skills_instructions>'',
      ''<personality_spec>'', ''<token_budget>'', ''<context_window>'', ''<rollout_budget>'']"

text \<open>\<open>trimmed.get(..n)\<close> is \<open>None\<close> beyond the end or off a boundary.\<close>

definition is_contextual_dev_fragment :: "content_item \<Rightarrow> bool" where
  "is_contextual_dev_fragment c =
     (case c of
        ContentInputText t \<Rightarrow>
          (let trimmed = trim_start t
           in list_ex (\<lambda>prefix. case slice_to trimmed (length prefix) of
                        None \<Rightarrow> False | Some candidate \<Rightarrow> eq_ignore_ascii_case candidate prefix)
                CONTEXTUAL_DEVELOPER_PREFIXES)
      | _ \<Rightarrow> False)"

definition is_contextual_dev_message_content :: "content_item list \<Rightarrow> bool" where
  "is_contextual_dev_message_content message = list_ex is_contextual_dev_fragment message"

definition has_non_contextual_dev_message_content :: "content_item list \<Rightarrow> bool" where
  "has_non_contextual_dev_message_content message = list_ex (\<lambda>c. \<not> is_contextual_dev_fragment c) message"

definition is_contextual_user_message_content :: "classifiers \<Rightarrow> content_item list \<Rightarrow> bool" where
  "is_contextual_user_message_content cl message = list_ex (contextual_user_fragment cl) message"

definition is_inter_agent_instruction_content :: "classifiers \<Rightarrow> content_item list \<Rightarrow> bool" where
  "is_inter_agent_instruction_content cl content =
     (case content of
        [ContentInputText t] \<Rightarrow> inter_agent_json cl t
      | [ContentOutputText t] \<Rightarrow> inter_agent_json cl t
      | _ \<Rightarrow> False)"

definition is_user_turn_boundary :: "classifiers \<Rightarrow> response_item \<Rightarrow> bool" where
  "is_user_turn_boundary cl item =
     (case item of
        AgentMessage _ _ _ _ _ \<Rightarrow> True
      | Message _ role content _ _ \<Rightarrow>
          (role = ''user'' \<and> \<not> is_contextual_user_message_content cl content) \<or>
          (role = ''assistant'' \<and> is_inter_agent_instruction_content cl content)
      | _ \<Rightarrow> False)"

definition is_api_message :: "response_item \<Rightarrow> bool" where
  "is_api_message message =
     (case message of
        Message _ role _ _ _ \<Rightarrow> role \<noteq> ''system''
      | CompactionTrigger \<Rightarrow> False
      | Other \<Rightarrow> False
      | _ \<Rightarrow> True)"

definition is_model_generated_item :: "response_item \<Rightarrow> bool" where
  "is_model_generated_item item =
     (case item of
        Message _ role _ _ _ \<Rightarrow> role = ''assistant''
      | Reasoning _ _ _ _ _ \<Rightarrow> True | FunctionCall _ _ _ _ _ _ \<Rightarrow> True | ToolSearchCall _ _ _ _ _ _ \<Rightarrow> True
      | WebSearchCall _ _ _ _ \<Rightarrow> True | ImageGenerationCall _ _ _ _ _ \<Rightarrow> True
      | CustomToolCall _ _ _ _ _ _ \<Rightarrow> True | LocalShellCall _ _ _ _ _ \<Rightarrow> True
      | Compaction _ _ _ \<Rightarrow> True | ContextCompaction _ _ _ \<Rightarrow> True
      | _ \<Rightarrow> False)"

text \<open>The loop of \<open>user_message_positions\<close>.\<close>

fun user_message_positions_from :: "classifiers \<Rightarrow> nat \<Rightarrow> response_item list \<Rightarrow> nat list" where
  "user_message_positions_from cl idx [] = []"
| "user_message_positions_from cl idx (item # items) =
     (if is_user_turn_boundary cl item then idx # user_message_positions_from cl (idx + 1) items
      else user_message_positions_from cl (idx + 1) items)"

definition user_message_positions :: "classifiers \<Rightarrow> response_item list \<Rightarrow> nat list" where
  "user_message_positions cl items = user_message_positions_from cl 0 items"

section \<open>The context manager\<close>

record ('c, 'w) context_manager =
  items :: "response_item list"
  history_version :: nat
  token_info :: "token_usage_info option"
  reference_context_item :: "'c option"
  world_state_baseline :: "'w option"

definition new_history :: "('c, 'w) context_manager" where
  "new_history = \<lparr>items = [], history_version = 0, token_info = new_or_append None None None,
     reference_context_item = None, world_state_baseline = None\<rparr>"

definition set_token_info ::
    "token_usage_info option \<Rightarrow> ('c, 'w) context_manager \<Rightarrow> ('c, 'w) context_manager" where
  "set_token_info info h = h\<lparr>token_info := info\<rparr>"

definition set_reference_context_item ::
    "'c option \<Rightarrow> ('c, 'w) context_manager \<Rightarrow> ('c, 'w) context_manager" where
  "set_reference_context_item item h = h\<lparr>reference_context_item := item\<rparr>"

text \<open>\<open>render_full\<close> and \<open>render_diff\<close> of the world state are the two function arguments.\<close>

definition update_world_state ::
    "('w \<Rightarrow> 'f list) \<Rightarrow> ('w \<Rightarrow> 'w \<Rightarrow> 'f list) \<Rightarrow> 'w \<Rightarrow> ('c, 'w) context_manager
      \<Rightarrow> 'f list \<times> ('c, 'w) context_manager" where
  "update_world_state render_full render_diff world_state h =
     (case world_state_baseline h of None \<Rightarrow> render_full world_state
      | Some previous \<Rightarrow> render_diff world_state previous,
      h\<lparr>world_state_baseline := Some world_state\<rparr>)"

definition set_world_state_baseline :: "'w \<Rightarrow> ('c, 'w) context_manager \<Rightarrow> ('c, 'w) context_manager" where
  "set_world_state_baseline world_state h = h\<lparr>world_state_baseline := Some world_state\<rparr>"

definition set_token_usage_full :: "int \<Rightarrow> ('c, 'w) context_manager \<Rightarrow> ('c, 'w) context_manager" where
  "set_token_usage_full window h =
     h\<lparr>token_info := Some (case token_info h of
        Some info \<Rightarrow> fill_to_context_window info window | None \<Rightarrow> full_context_window window)\<rparr>"

definition update_token_info ::
    "token_usage \<Rightarrow> int option \<Rightarrow> ('c, 'w) context_manager \<Rightarrow> ('c, 'w) context_manager" where
  "update_token_info usage window h =
     h\<lparr>token_info := new_or_append (token_info h) (Some usage) window\<rparr>"

subsection \<open>Recording\<close>

text \<open>\<open>policy * 1.2\<close>: the budget as an \<open>f64\<close>, times the \<open>f64\<close> nearest to 1.2 (which is
  5404319552844595 / 2^52), rounded up and converted back. \<open>round53\<close> rounds to the 53 bits of a
  double's significand, to nearest, ties to even; the budgets are far from the double's range.\<close>

fun bit_length :: "nat \<Rightarrow> nat" where
  "bit_length n = (if n = 0 then 0 else 1 + bit_length (n div 2))"

declare bit_length.simps [simp del]

definition round53 :: "nat \<Rightarrow> nat" where
  "round53 n =
     (let shift = bit_length n - 53; q = n div 2 ^ shift; r = n mod 2 ^ shift; half = 2 ^ shift div 2
      in if shift = 0 then n
         else if half < r \<or> (r = half \<and> odd q) then (q + 1) * 2 ^ shift else q * 2 ^ shift)"

definition times_1_2 :: "nat \<Rightarrow> nat" where
  "times_1_2 n =
     min usize_max ((round53 (round53 n * 5404319552844595) + (2 ^ 52 - 1)) div 2 ^ 52)"

fun scale_policy :: "truncation_policy \<Rightarrow> truncation_policy" where
  "scale_policy (Bytes bytes) = Bytes (times_1_2 bytes)"
| "scale_policy (Tokens tokens) = Tokens (times_1_2 tokens)"

definition truncate_function_output_payload ::
    "function_call_output_payload \<Rightarrow> truncation_policy \<Rightarrow> function_call_output_payload option" where
  "truncate_function_output_payload p policy =
     (case body p of
        BodyText content \<Rightarrow>
          map_option (\<lambda>t. \<lparr>body = BodyText t, success = success p\<rparr>) (truncate_text content policy)
      | ContentItems cs \<Rightarrow>
          map_option (\<lambda>cs'. \<lparr>body = ContentItems cs', success = success p\<rparr>)
            (truncate_function_output_items_with_policy cs policy))"

definition process_item :: "response_item \<Rightarrow> truncation_policy \<Rightarrow> response_item option" where
  "process_item item policy =
     (case item of
        FunctionCallOutput i call_id p md \<Rightarrow>
          map_option (\<lambda>p'. FunctionCallOutput i call_id p' md)
            (truncate_function_output_payload p (scale_policy policy))
      | CustomToolCallOutput i call_id name p md \<Rightarrow>
          map_option (\<lambda>p'. CustomToolCallOutput i call_id name p' md)
            (truncate_function_output_payload p (scale_policy policy))
      | _ \<Rightarrow> Some item)"

fun record_items ::
    "response_item list \<Rightarrow> truncation_policy \<Rightarrow> ('c, 'w) context_manager \<Rightarrow> ('c, 'w) context_manager option" where
  "record_items [] policy h = Some h"
| "record_items (item # rest) policy h =
     (if \<not> is_api_message item then record_items rest policy h
      else do {
        processed \<leftarrow> process_item item policy;
        record_items rest policy (h\<lparr>items := items h @ [processed]\<rparr>)
      })"

subsection \<open>Prompts\<close>

definition normalize_history ::
    "bool \<Rightarrow> input_modality list \<Rightarrow> ('c, 'w) context_manager \<Rightarrow> ('c, 'w) context_manager option" where
  "normalize_history debug ms h =
     do {
       answered \<leftarrow> ensure_call_outputs_present debug (items h);
       matched \<leftarrow> remove_orphan_outputs debug answered;
       Some (h\<lparr>items := strip_images_when_unsupported ms matched\<rparr>)
     }"

definition for_prompt ::
    "bool \<Rightarrow> input_modality list \<Rightarrow> ('c, 'w) context_manager \<Rightarrow> response_item list option" where
  "for_prompt debug ms h = map_option items (normalize_history debug ms h)"

subsection \<open>Rewriting\<close>

definition remove_first_item :: "('c, 'w) context_manager \<Rightarrow> ('c, 'w) context_manager" where
  "remove_first_item h =
     (case items h of
        [] \<Rightarrow> h
      | removed # rest \<Rightarrow>
          h\<lparr>items := remove_corresponding_for rest removed, world_state_baseline := None\<rparr>)"

definition replace_items ::
    "response_item list \<Rightarrow> ('c, 'w) context_manager \<Rightarrow> ('c, 'w) context_manager" where
  "replace_items new_items h =
     h\<lparr>items := new_items, history_version := saturating_add (history_version h) 1,
       world_state_baseline := None\<rparr>"

text \<open>\<open>iter().rposition(p)\<close>\<close>

definition rposition :: "('a \<Rightarrow> bool) \<Rightarrow> 'a list \<Rightarrow> nat option" where
  "rposition p xs = List.find (\<lambda>i. p (xs ! i)) (rev [0..<length xs])"

definition is_output_image :: "output_item \<Rightarrow> bool" where
  "is_output_image c = (case c of InputImage _ _ \<Rightarrow> True | _ \<Rightarrow> False)"

definition is_function_call_output :: "response_item \<Rightarrow> bool" where
  "is_function_call_output item = (case item of FunctionCallOutput _ _ _ _ \<Rightarrow> True | _ \<Rightarrow> False)"

definition replace_last_turn_images ::
    "classifiers \<Rightarrow> rstr \<Rightarrow> ('c, 'w) context_manager \<Rightarrow> bool \<times> ('c, 'w) context_manager" where
  "replace_last_turn_images cl placeholder h =
     (case rposition (\<lambda>item. is_function_call_output item \<or> is_user_turn_boundary cl item) (items h) of
        None \<Rightarrow> (False, h)
      | Some index \<Rightarrow>
          (case items h ! index of
             FunctionCallOutput i call_id p md \<Rightarrow>
               (case body p of
                  BodyText _ \<Rightarrow> (False, h)
                | ContentItems cs \<Rightarrow>
                    (let replaced = list_ex is_output_image cs;
                         cs' = map (\<lambda>c. if is_output_image c then InputText placeholder else c) cs;
                         h' = h\<lparr>items := (items h)[index :=
                                   FunctionCallOutput i call_id (p\<lparr>body := ContentItems cs'\<rparr>) md]\<rparr>
                     in (replaced,
                         if replaced then h'\<lparr>history_version := saturating_add (history_version h') 1\<rparr>
                         else h')))
           | _ \<Rightarrow> (False, h)))"

subsection \<open>Rollback\<close>

text \<open>The backward walk: the adjusted cut and whether a mixed developer bundle was trimmed, which
  clears \<open>reference_context_item\<close>.\<close>

fun trim_pre_turn_context_updates ::
    "classifiers \<Rightarrow> response_item list \<Rightarrow> nat \<Rightarrow> nat \<Rightarrow> bool \<Rightarrow> nat \<times> bool" where
  "trim_pre_turn_context_updates cl snapshot first 0 cleared = (0, cleared)"
| "trim_pre_turn_context_updates cl snapshot first (Suc n) cleared =
     (if first < Suc n
      then (case snapshot ! n of
              Message _ role content _ _ \<Rightarrow>
                if role = ''developer'' \<and> is_contextual_dev_message_content content
                then trim_pre_turn_context_updates cl snapshot first n
                       (cleared \<or> has_non_contextual_dev_message_content content)
                else if role = ''user'' \<and> is_contextual_user_message_content cl content
                then trim_pre_turn_context_updates cl snapshot first n cleared
                else (Suc n, cleared)
            | _ \<Rightarrow> (Suc n, cleared))
      else (Suc n, cleared))"

definition drop_last_n_user_turns ::
    "classifiers \<Rightarrow> nat \<Rightarrow> ('c, 'w) context_manager \<Rightarrow> ('c, 'w) context_manager" where
  "drop_last_n_user_turns cl num_turns h =
     (if num_turns = 0 then h
      else
        let snapshot = items h; user_positions = user_message_positions cl snapshot
        in case user_positions of
             [] \<Rightarrow> replace_items snapshot h
           | first # _ \<Rightarrow>
               (let cut = (if length user_positions \<le> num_turns then first
                           else user_positions ! (length user_positions - num_turns))
                in case trim_pre_turn_context_updates cl snapshot first cut False of
                     (cut_idx, cleared) \<Rightarrow>
                       replace_items (take cut_idx snapshot)
                         (if cleared then h\<lparr>reference_context_item := None\<rparr> else h)))"

section \<open>Prompts are paired\<close>

lemma for_prompt_items: "for_prompt debug ms h = normalize_items debug ms (items h)"
  by (simp add: for_prompt_def normalize_history_def normalize_items_def split: Option.bind_split)

text \<open>What the prompt relies on of normalisation, in a release build: it always returns, pairs calls
  and outputs, leaves everything else as the model is to see it, and its result needs no further
  repair, not even in a debug build.\<close>

locale prompt_normaliser =
  fixes normalise :: "bool \<Rightarrow> response_item list \<Rightarrow> response_item list option"
    and visible :: "response_item list \<Rightarrow> response_item list"
  assumes total: "\<exists>out. normalise False xs = Some out"
    and paired: "normalise False xs = Some out \<Longrightarrow> well_paired out"
    and others_kept: "normalise False xs = Some out \<Longrightarrow> non_outputs out = visible (non_outputs xs)"
    and settled: "normalise False xs = Some out \<Longrightarrow> normalise debug out = Some out"
begin

lemma prompt_exists:
  "\<exists>out. normalise False xs = Some out \<and> well_paired out \<and> non_outputs out = visible (non_outputs xs) \<and>
     normalise debug out = Some out"
  using total [of xs] paired others_kept settled by blast

end

interpretation prompt: prompt_normaliser "\<lambda>debug. normalize_items debug ms" "strip_images_when_unsupported ms"
  for ms
proof
  fix xs out debug
  assume n: "normalize_items False ms xs = Some out"
  have "strip_images_when_unsupported ms out = out"
    using n strip_images_idem by (auto simp: normalize_release Let_def)
  then show "normalize_items debug ms out = Some out"
    using normalize_well_paired [OF normalize_paired [OF n]] by simp
next
  show "\<exists>out. normalize_items False ms xs = Some out" for xs
    by (simp add: normalize_release)
qed (auto intro: normalize_paired normalize_non_outputs)

lemma remove_first_paired:
  assumes "well_paired (items h)" "distinct_keys (items h)"
  shows "well_paired (items (remove_first_item h)) \<and> distinct_keys (items (remove_first_item h))"
  using assms remove_corresponding_paired
  by (cases "items h") (auto simp: remove_first_item_def simp del: key_simps)

text \<open>Recording truncates outputs but keeps their ids, so it keeps the keys.\<close>

lemma process_item_keys:
  "process_item x policy = Some y \<Longrightarrow> call_key y = call_key x \<and> output_key y = output_key x"
  by (cases x) (auto simp: process_item_def)

section \<open>Rollback\<close>

definition turns :: "classifiers \<Rightarrow> response_item list \<Rightarrow> nat" where
  "turns cl xs = length (filter (is_user_turn_boundary cl) xs)"

text \<open>A pre-turn context update, which rollback trims along with the turn below it.\<close>

definition is_context_update :: "classifiers \<Rightarrow> response_item \<Rightarrow> bool" where
  "is_context_update cl item =
     (case item of
        Message _ role content _ _ \<Rightarrow>
          (role = ''developer'' \<and> is_contextual_dev_message_content content) \<or>
          (role = ''user'' \<and> is_contextual_user_message_content cl content)
      | _ \<Rightarrow> False)"

lemma update_no_boundary: "is_context_update cl x \<Longrightarrow> \<not> is_user_turn_boundary cl x"
  by (cases x) (auto simp: is_context_update_def is_user_turn_boundary_def)

lemma positions_length: "length (user_message_positions_from cl idx xs) = turns cl xs"
  by (induction xs arbitrary: idx) (simp_all add: turns_def)

lemma positions_nth:
  assumes "k < length (user_message_positions_from cl idx xs)"
  shows "\<exists>pre b post. xs = pre @ b # post \<and> is_user_turn_boundary cl b \<and> turns cl pre = k \<and>
    user_message_positions_from cl idx xs ! k = idx + length pre"
  using assms
proof (induction xs arbitrary: idx k)
  case (Cons x xs)
  show ?case
  proof (cases "is_user_turn_boundary cl x \<and> k = 0")
    case True
    then show ?thesis by (intro exI [of _ "[]"] exI [of _ x] exI [of _ xs]) (simp add: turns_def)
  next
    case False
    let ?k = "if is_user_turn_boundary cl x then k - 1 else k"
    have "?k < length (user_message_positions_from cl (idx + 1) xs)"
      using Cons.prems False by (auto split: if_splits)
    from Cons.IH [OF this] obtain pre b post where *: "xs = pre @ b # post" "is_user_turn_boundary cl b"
      "turns cl pre = ?k" "user_message_positions_from cl (idx + 1) xs ! ?k = idx + 1 + length pre" by blast
    then have "x # xs = (x # pre) @ b # post \<and> is_user_turn_boundary cl b \<and> turns cl (x # pre) = k \<and>
        user_message_positions_from cl idx (x # xs) ! k = idx + length (x # pre)"
      using False by (auto simp: turns_def nth_Cons')
    then show ?thesis by blast
  qed
qed simp

lemma trim_step:
  "first < Suc n \<and> is_context_update cl (xs ! n) \<Longrightarrow>
     \<exists>c2. trim_pre_turn_context_updates cl xs first (Suc n) c = trim_pre_turn_context_updates cl xs first n c2"
  "\<not> (first < Suc n \<and> is_context_update cl (xs ! n)) \<Longrightarrow>
     trim_pre_turn_context_updates cl xs first (Suc n) c = (Suc n, c)"
  by (cases "xs ! n"; auto simp: is_context_update_def)+

lemma trim_spec:
  assumes "trim_pre_turn_context_updates cl xs first n c = (m, c')" and "first \<le> n" and "n \<le> length xs"
  shows "first \<le> m \<and> m \<le> n \<and> list_all (is_context_update cl) (take (n - m) (drop m xs))"
  using assms
proof (induction n arbitrary: c)
  case (Suc n)
  show ?case
  proof (cases "first < Suc n \<and> is_context_update cl (xs ! n)")
    case True
    then obtain c2 where "trim_pre_turn_context_updates cl xs first n c2 = (m, c')"
      using trim_step(1) [OF True] Suc.prems(1) by metis
    from Suc.IH [OF this] have m: "first \<le> m" "m \<le> n"
      "list_all (is_context_update cl) (take (n - m) (drop m xs))"
      using True Suc.prems by simp_all
    have "take (Suc n - m) (drop m xs) = take (n - m) (drop m xs) @ [xs ! n]"
      using m(2) Suc.prems(3) by (simp add: Suc_diff_le take_Suc_conv_app_nth)
    then show ?thesis using m True by simp
  next
    case False
    then show ?thesis using trim_step(2) [OF False] Suc.prems by simp
  qed
qed simp

lemma turns_no_boundary: "list_all (\<lambda>x. \<not> is_user_turn_boundary cl x) xs \<Longrightarrow> turns cl xs = 0"
  by (simp add: turns_def list_all_iff filter_empty_conv)

lemma turns_append: "turns cl (xs @ ys) = turns cl xs + turns cl ys"
  by (simp add: turns_def)

lemma updates_no_turns: "list_all (is_context_update cl) xs \<Longrightarrow> turns cl xs = 0"
  using update_no_boundary by (intro turns_no_boundary) (auto simp: list_all_iff)

text \<open>What rollback keeps: everything before the context updates of the first dropped turn.\<close>

definition rolled_back ::
    "classifiers \<Rightarrow> nat \<Rightarrow> response_item list \<Rightarrow> response_item list \<Rightarrow> bool" where
  "rolled_back cl n xs kept \<longleftrightarrow>
     (\<exists>updates dropped. xs = kept @ updates @ dropped \<and>
        list_all (is_context_update cl) updates \<and>
        (dropped = [] \<and> updates = [] \<or> dropped \<noteq> [] \<and> is_user_turn_boundary cl (hd dropped)) \<and>
        turns cl kept = turns cl xs - n \<and>
        prefix (takeWhile (\<lambda>x. \<not> is_user_turn_boundary cl x) xs) kept)"

lemma takeWhile_before_boundary:
  "turns cl pre = 0 \<Longrightarrow> is_user_turn_boundary cl b \<Longrightarrow>
   takeWhile (\<lambda>x. \<not> is_user_turn_boundary cl x) (pre @ b # post) = pre"
  by (simp add: takeWhile_append2 turns_def filter_empty_conv)

lemma rolled_back_cut:
  assumes n: "0 < n" and pos: "user_message_positions cl xs = first # ps"
    and at: "at = (if length (first # ps) \<le> n then first else (first # ps) ! (length (first # ps) - n))"
    and trim: "trim_pre_turn_context_updates cl xs first at False = (m, cleared)"
  shows "rolled_back cl n xs (take m xs)"
proof -
  let ?ps = "user_message_positions_from cl 0 xs"
  have ps: "?ps = first # ps" using pos by (simp add: user_message_positions_def)
  define k where "k = length ?ps - n"
  have k: "k < length ?ps" "at = ?ps ! k" using n at ps by (auto simp: k_def)
  obtain pre b post where xs: "xs = pre @ b # post" and b: "is_user_turn_boundary cl b"
    and pre: "turns cl pre = k" and len: "at = length pre"
    using positions_nth [OF k(1)] k(2) by auto
  obtain pre0 b0 post0 where xs0: "xs = pre0 @ b0 # post0" and b0: "is_user_turn_boundary cl b0"
    and pre0: "turns cl pre0 = 0" and first: "first = length pre0"
    using positions_nth [of 0 cl 0 xs] ps by auto
  have "length pre0 \<le> length pre"
  proof (rule ccontr)
    assume "\<not> ?thesis"
    then have "b \<in> set pre0" using xs xs0 by (metis linorder_not_le append_eq_append_conv_if in_set_conv_nth nth_append nth_append_length)
    then show False using b pre0 by (auto simp: turns_def filter_empty_conv)
  qed
  then have m: "first \<le> m" "m \<le> length pre" "list_all (is_context_update cl) (take (length pre - m) (drop m xs))"
    using trim_spec [OF trim] xs first len by auto
  define kept updates where "kept = take m pre" and "updates = drop m pre"
  have split: "xs = kept @ updates @ b # post" "take m xs = kept" "take (length pre - m) (drop m xs) = updates"
    using xs m(2) by (simp_all add: kept_def updates_def)
  have "pre = kept @ updates" by (simp add: kept_def updates_def)
  then have "turns cl kept = k" using pre updates_no_turns m(3) split(3) turns_append by simp
  then have "turns cl kept = turns cl xs - n" using positions_length [of cl 0 xs] k_def by simp
  moreover have "takeWhile (\<lambda>x. \<not> is_user_turn_boundary cl x) xs = take first xs"
    using takeWhile_before_boundary [OF pre0 b0] xs0 first by simp
  moreover have "prefix (take first xs) (take m xs)" using m(1) by (simp add: take_is_prefix min_def prefix_def)
      (metis le_add_diff_inverse take_add)
  ultimately show ?thesis
    using split m(3) b unfolding rolled_back_def by (intro exI [of _ updates] exI [of _ "b # post"]) simp
qed

lemma drop_turns_rolled_back: "rolled_back cl n (items h) (items (drop_last_n_user_turns cl n h))"
proof (cases "n = 0")
  case True
  then show ?thesis
    by (auto simp: rolled_back_def drop_last_n_user_turns_def takeWhile_is_prefix intro!: exI [of _ "[]"])
next
  case False
  show ?thesis
  proof (cases "user_message_positions cl (items h)")
    case Nil
    then have "turns cl (items h) = 0"
      using positions_length [of cl 0 "items h"] by (simp add: user_message_positions_def)
    with Nil False show ?thesis
      by (auto simp: rolled_back_def drop_last_n_user_turns_def Let_def replace_items_def
          takeWhile_is_prefix intro!: exI [of _ "[]"])
  next
    case (Cons first ps)
    obtain m cleared where "trim_pre_turn_context_updates cl (items h) first
        (if length (first # ps) \<le> n then first else (first # ps) ! (length (first # ps) - n)) False = (m, cleared)"
      by fastforce
    from rolled_back_cut [OF _ Cons refl this] False this Cons show ?thesis
      by (auto simp: drop_last_n_user_turns_def Let_def replace_items_def)
  qed
qed

section \<open>The history's promises\<close>


text \<open>
  Trimming the oldest item keeps calls and outputs paired: the call or output that corresponds to
  the removed item goes with it, and nothing else becomes an orphan.
\<close>
theorem remove_first_item_keeps_pairing:
  assumes "well_paired (items h)" and "distinct_keys (items h)"
  shows "well_paired (items (remove_first_item h)) \<and> distinct_keys (items (remove_first_item h))"
  by (rule remove_first_paired [OF assms])

definition demo_history :: "(unit, unit) context_manager" where
  "demo_history = new_history\<lparr>items :=
     [CustomToolCall None None ''a'' ''t'' [] None, CustomToolCall None None ''b'' ''t'' [] None,
      CustomToolCallOutput None ''a'' None \<lparr>body = BodyText ''x'', success = None\<rparr> None,
      CustomToolCallOutput None ''b'' None \<lparr>body = BodyText ''y'', success = None\<rparr> None]\<rparr>"

theorem remove_first_item_keeps_pairing_witness:
  "well_paired (items (remove_first_item demo_history)) \<and>
    length (items (remove_first_item demo_history)) = 2"
proof -
  have "well_paired (items demo_history)" "distinct_keys (items demo_history)"
    by (simp_all add: demo_history_def well_paired_def calls_answered_def outputs_called_def distinct_keys_def)
  from remove_first_item_keeps_pairing [OF this] show ?thesis
    by (simp add: demo_history_def remove_first_item_def remove_corresponding_for_def is_custom_output_def)
qed


end
