(* ===== verification/Seek_Sequence.thy ===== *)
theory Seek_Sequence
  imports Rust_Str
begin

text \<open>
  \<open>apply-patch/src/seek_sequence.rs\<close>: locating a block of lines in a file with decreasing
  strictness. The four loops of the source are the four calls of \<open>seek_pass\<close> and
  \<open>seek_exact\<close>, over the same index range; the comparison of one window is the inner loop
  over the pattern.
\<close>

section \<open>Definitions\<close>

text \<open>The local function \<open>normalise\<close>: typographic punctuation to ASCII, per character.\<close>

definition normalise_char :: "rstr \<Rightarrow> rstr" where
  "normalise_char c =
    (if c \<in> set [[CHR 0xE2, CHR 0x80, CHR 0x90], [CHR 0xE2, CHR 0x80, CHR 0x91],
                 [CHR 0xE2, CHR 0x80, CHR 0x92], [CHR 0xE2, CHR 0x80, CHR 0x93],
                 [CHR 0xE2, CHR 0x80, CHR 0x94], [CHR 0xE2, CHR 0x80, CHR 0x95],
                 [CHR 0xE2, CHR 0x88, CHR 0x92]] then ''-''
     else if c \<in> set [[CHR 0xE2, CHR 0x80, CHR 0x98], [CHR 0xE2, CHR 0x80, CHR 0x99],
                      [CHR 0xE2, CHR 0x80, CHR 0x9A], [CHR 0xE2, CHR 0x80, CHR 0x9B]] then [CHR 0x27]
     else if c \<in> set [[CHR 0xE2, CHR 0x80, CHR 0x9C], [CHR 0xE2, CHR 0x80, CHR 0x9D],
                      [CHR 0xE2, CHR 0x80, CHR 0x9E], [CHR 0xE2, CHR 0x80, CHR 0x9F]] then [CHR 0x22]
     else if c \<in> set [[CHR 0xC2, CHR 0xA0],
                      [CHR 0xE2, CHR 0x80, CHR 0x82], [CHR 0xE2, CHR 0x80, CHR 0x83],
                      [CHR 0xE2, CHR 0x80, CHR 0x84], [CHR 0xE2, CHR 0x80, CHR 0x85],
                      [CHR 0xE2, CHR 0x80, CHR 0x86], [CHR 0xE2, CHR 0x80, CHR 0x87],
                      [CHR 0xE2, CHR 0x80, CHR 0x88], [CHR 0xE2, CHR 0x80, CHR 0x89],
                      [CHR 0xE2, CHR 0x80, CHR 0x8A], [CHR 0xE2, CHR 0x80, CHR 0xAF],
                      [CHR 0xE2, CHR 0x81, CHR 0x9F], [CHR 0xE3, CHR 0x80, CHR 0x80]] then '' ''
     else c)"

definition normalise :: "rstr \<Rightarrow> rstr" where
  "normalise s = concat (map normalise_char (chars (trim s)))"

text \<open>One window: every line of the pattern agrees with the file after \<open>f\<close>.\<close>

definition window_ok :: "(rstr \<Rightarrow> rstr) \<Rightarrow> rstr list \<Rightarrow> rstr list \<Rightarrow> nat \<Rightarrow> bool" where
  "window_ok f lines pattern i =
     list_all (\<lambda>p_idx. f (lines ! (i + p_idx)) = f (pattern ! p_idx)) [0..<length pattern]"

definition seek_exact :: "rstr list \<Rightarrow> rstr list \<Rightarrow> nat \<Rightarrow> nat option" where
  "seek_exact lines pattern search_start =
     List.find (\<lambda>i. take (length pattern) (drop i lines) = pattern)
       [search_start..<Suc (length lines - length pattern)]"

definition seek_pass :: "(rstr \<Rightarrow> rstr) \<Rightarrow> rstr list \<Rightarrow> rstr list \<Rightarrow> nat \<Rightarrow> nat option" where
  "seek_pass f lines pattern search_start =
     List.find (window_ok f lines pattern) [search_start..<Suc (length lines - length pattern)]"

definition seek_sequence :: "rstr list \<Rightarrow> rstr list \<Rightarrow> nat \<Rightarrow> bool \<Rightarrow> nat option" where
  "seek_sequence lines pattern start eof =
    (if pattern = [] then Some start
     else if length pattern > length lines then None
     else
       let search_start =
         (if eof \<and> length lines \<ge> length pattern then length lines - length pattern else start)
       in case seek_exact lines pattern search_start of Some i \<Rightarrow> Some i
          | None \<Rightarrow> (case seek_pass trim_end lines pattern search_start of Some i \<Rightarrow> Some i
          | None \<Rightarrow> (case seek_pass trim lines pattern search_start of Some i \<Rightarrow> Some i
          | None \<Rightarrow> seek_pass normalise lines pattern search_start)))"

section \<open>The contract\<close>

text \<open>
  The comparisons in the order of their strictness, and what it means that the pattern
  occurs at line \<open>i\<close> up to one of them.
\<close>

definition comparators :: "(rstr \<Rightarrow> rstr) list" where
  "comparators = [id, trim_end, trim, normalise]"

definition occurs_at :: "(rstr \<Rightarrow> rstr) \<Rightarrow> rstr list \<Rightarrow> rstr list \<Rightarrow> nat \<Rightarrow> bool" where
  "occurs_at f lines pattern i \<longleftrightarrow>
     i + length pattern \<le> length lines \<and>
     map f (take (length pattern) (drop i lines)) = map f pattern"

definition search_from :: "rstr list \<Rightarrow> rstr list \<Rightarrow> nat \<Rightarrow> bool \<Rightarrow> nat" where
  "search_from lines pattern start eof =
     (if eof then length lines - length pattern else start)"

text \<open>\<open>i\<close> is the first occurrence up to \<open>f\<close>, searching from \<open>s\<close>.\<close>

definition first_occurrence ::
    "(rstr \<Rightarrow> rstr) \<Rightarrow> rstr list \<Rightarrow> rstr list \<Rightarrow> nat \<Rightarrow> nat \<Rightarrow> bool" where
  "first_occurrence f lines pattern s i \<longleftrightarrow>
     s \<le> i \<and> occurs_at f lines pattern i \<and> (\<forall>j. s \<le> j \<and> j < i \<longrightarrow> \<not> occurs_at f lines pattern j)"

section \<open>Facts\<close>

lemma window_ok_occurs:
  assumes "i + length pattern \<le> length lines"
  shows "window_ok f lines pattern i \<longleftrightarrow> occurs_at f lines pattern i"
  using assms
  by (auto simp: window_ok_def occurs_at_def list_all_iff list_all2_conv_map [symmetric]
      list_all2_conv_all_nth)

lemma seek_pass_Some_iff:
  assumes "length pattern \<le> length lines"
  shows "seek_pass f lines pattern s = Some i \<longleftrightarrow> first_occurrence f lines pattern s i"
proof -
  have "i < Suc (length lines - length pattern) \<longleftrightarrow> i + length pattern \<le> length lines" for i
    using assms by auto
  then show ?thesis
    using assms by (auto simp: seek_pass_def find_upt_Some_iff first_occurrence_def
        window_ok_occurs occurs_at_def simp del: upt_Suc)
qed

lemma seek_pass_None_iff:
  assumes "length pattern \<le> length lines"
  shows "seek_pass f lines pattern s = None \<longleftrightarrow> (\<forall>i\<ge>s. \<not> occurs_at f lines pattern i)"
proof -
  have "i < Suc (length lines - length pattern) \<longleftrightarrow> i + length pattern \<le> length lines" for i
    using assms by auto
  then show ?thesis
    using assms by (auto simp: seek_pass_def find_upt_None_iff window_ok_occurs occurs_at_def
        simp del: upt_Suc)
qed

lemma seek_exact_pass:
  "length pattern \<le> length lines \<Longrightarrow> seek_exact lines pattern s = seek_pass id lines pattern s"
  unfolding seek_exact_def seek_pass_def
  by (rule find_cong) (auto simp: window_ok_occurs occurs_at_def simp del: upt_Suc)

lemma occurs_at_mono:
  assumes "occurs_at f lines pattern i" and "\<And>s t. f s = f t \<Longrightarrow> g s = g t"
  shows "occurs_at g lines pattern i"
proof -
  have "list_all2 (\<lambda>x y. f x = f y) (take (length pattern) (drop i lines)) pattern"
    using assms(1) by (simp add: occurs_at_def list_all2_conv_map)
  then have "list_all2 (\<lambda>x y. g x = g y) (take (length pattern) (drop i lines)) pattern"
    by (rule list_all2_mono) (rule assms(2))
  then show ?thesis
    using assms(1) by (simp add: occurs_at_def list_all2_conv_map)
qed

lemma occurs_at_trim_end: "occurs_at id lines pattern i \<Longrightarrow> occurs_at trim_end lines pattern i"
  by (erule occurs_at_mono) simp

lemma occurs_at_trim: "occurs_at trim_end lines pattern i \<Longrightarrow> occurs_at trim lines pattern i"
  by (erule occurs_at_mono) (rule trim_eq_of_trim_end)

lemma occurs_at_trim_normalise:
  "occurs_at trim lines pattern i \<Longrightarrow> occurs_at normalise lines pattern i"
  by (erule occurs_at_mono) (simp add: normalise_def)

lemmas occurs_at_strictness = occurs_at_trim_end occurs_at_trim occurs_at_trim_normalise

lemma occurs_at_normalise:
  assumes "occurs_at f lines pattern i" and "f \<in> set comparators"
  shows "occurs_at normalise lines pattern i"
  using assms by (auto simp: comparators_def intro: occurs_at_strictness)

lemma seek_sequence_eq:
  assumes "pattern \<noteq> []"
  shows "seek_sequence lines pattern start eof =
    (if length pattern > length lines then None
     else let s = search_from lines pattern start eof in
       case seek_pass id lines pattern s of Some i \<Rightarrow> Some i
       | None \<Rightarrow> (case seek_pass trim_end lines pattern s of Some i \<Rightarrow> Some i
       | None \<Rightarrow> (case seek_pass trim lines pattern s of Some i \<Rightarrow> Some i
       | None \<Rightarrow> seek_pass normalise lines pattern s)))"
  using assms by (auto simp: seek_sequence_def search_from_def seek_exact_pass)

lemma seek_sequence_empty [simp]: "seek_sequence lines [] start eof = Some start"
  by (simp add: seek_sequence_def)

lemma first_occurrenceD: "first_occurrence f lines pattern s i \<Longrightarrow> occurs_at f lines pattern i"
  by (simp add: first_occurrence_def)

lemma seek_sequence_level:
  assumes "pattern \<noteq> []" and "seek_sequence lines pattern start eof = Some i"
  shows "\<exists>k < 4. first_occurrence (comparators ! k) lines pattern (search_from lines pattern start eof) i
    \<and> (\<forall>k' < k. \<forall>j \<ge> search_from lines pattern start eof. \<not> occurs_at (comparators ! k') lines pattern j)"
proof -
  let ?s = "search_from lines pattern start eof"
  have le: "length pattern \<le> length lines"
    using assms by (auto simp: seek_sequence_eq split: if_splits)
  note seek = assms(2) [unfolded seek_sequence_eq [OF assms(1)] Let_def]
  note iffs = seek_pass_Some_iff [OF le] seek_pass_None_iff [OF le]
  consider "first_occurrence id lines pattern ?s i"
    | "\<forall>j\<ge>?s. \<not> occurs_at id lines pattern j" "first_occurrence trim_end lines pattern ?s i"
    | "\<forall>j\<ge>?s. \<not> occurs_at id lines pattern j" "\<forall>j\<ge>?s. \<not> occurs_at trim_end lines pattern j"
      "first_occurrence trim lines pattern ?s i"
    | "\<forall>j\<ge>?s. \<not> occurs_at id lines pattern j" "\<forall>j\<ge>?s. \<not> occurs_at trim_end lines pattern j"
      "\<forall>j\<ge>?s. \<not> occurs_at trim lines pattern j" "first_occurrence normalise lines pattern ?s i"
    using seek le by (auto simp: iffs split: option.splits)
  then show ?thesis
  proof cases
    case 1
    then show ?thesis by (intro exI [of _ 0]) (simp add: comparators_def)
  next
    case 2
    then show ?thesis by (intro exI [of _ 1]) (simp add: comparators_def)
  next
    case 3
    then show ?thesis
      by (intro exI [of _ 2]) (simp add: comparators_def numeral_2_eq_2 All_less_Suc)
  next
    case 4
    then show ?thesis
      by (intro exI [of _ 3]) (simp add: comparators_def numeral_3_eq_3 All_less_Suc)
  qed
qed

lemma seek_sequence_Some_occurs:
  assumes "pattern \<noteq> []" and "seek_sequence lines pattern start eof = Some i"
  shows "occurs_at normalise lines pattern i" and "search_from lines pattern start eof \<le> i"
    and "i + length pattern \<le> length lines"
proof -
  obtain k where "k < 4"
    "first_occurrence (comparators ! k) lines pattern (search_from lines pattern start eof) i"
    using seek_sequence_level [OF assms] by blast
  then have occ: "occurs_at (comparators ! k) lines pattern i"
    and le: "search_from lines pattern start eof \<le> i"
    by (simp_all add: first_occurrence_def)
  have "comparators ! k \<in> set comparators"
    using \<open>k < 4\<close> by (intro nth_mem) (simp add: comparators_def)
  with occ show "occurs_at normalise lines pattern i"
    by (rule occurs_at_normalise)
  then show "i + length pattern \<le> length lines" by (simp add: occurs_at_def)
  show "search_from lines pattern start eof \<le> i" by (fact le)
qed

lemma seek_sequence_bound:
  "seek_sequence lines pattern start eof = Some i \<Longrightarrow> start \<le> length lines
     \<Longrightarrow> i + length pattern \<le> length lines"
  by (cases "pattern = []") (auto dest: seek_sequence_Some_occurs(3))

lemma seek_sequence_ge:
  "seek_sequence lines pattern start False = Some i \<Longrightarrow> start \<le> i"
  by (cases "pattern = []") (auto dest: seek_sequence_Some_occurs(2) simp: search_from_def)

lemma seek_sequence_None_iff:
  assumes "pattern \<noteq> []"
  shows "seek_sequence lines pattern start eof = None \<longleftrightarrow>
    (\<forall>i \<ge> search_from lines pattern start eof. \<not> occurs_at normalise lines pattern i)"
    (is "?N \<longleftrightarrow> ?R")
proof
  assume none: ?N
  show ?R
  proof (cases "length pattern \<le> length lines")
    case True
    with none show ?thesis
      using assms by (simp add: seek_sequence_eq Let_def seek_pass_None_iff split: option.splits)
  qed (simp add: occurs_at_def)
next
  assume ?R
  then show ?N
    using seek_sequence_Some_occurs(1,2) [OF assms] by (metis not_None_eq)
qed

lemma seek_sequence_exact:
  assumes "pattern \<noteq> []" and "first_occurrence id lines pattern (search_from lines pattern start eof) i"
  shows "seek_sequence lines pattern start eof = Some i"
proof -
  have "length pattern \<le> length lines"
    using first_occurrenceD [OF assms(2)] by (simp add: occurs_at_def)
  with assms have "seek_pass id lines pattern (search_from lines pattern start eof) = Some i"
    by (simp add: seek_pass_Some_iff)
  with \<open>length pattern \<le> length lines\<close> assms show ?thesis
    by (simp add: seek_sequence_eq Let_def)
qed

lemma comparators_nth: "k < 4 \<Longrightarrow> comparators ! k \<in> set comparators"
  by (rule nth_mem) (simp add: comparators_def)

lemma seek_sequence_of_level:
  assumes "pattern \<noteq> []" and "k < 4"
    and first: "first_occurrence (comparators ! k) lines pattern (search_from lines pattern start eof) i"
    and none: "\<forall>k' < k. \<forall>j \<ge> search_from lines pattern start eof. \<not> occurs_at (comparators ! k') lines pattern j"
  shows "seek_sequence lines pattern start eof = Some i"
proof -
  have "occurs_at normalise lines pattern i"
    using first comparators_nth [OF assms(2)] by (auto simp: first_occurrence_def intro: occurs_at_normalise)
  then obtain i' where i': "seek_sequence lines pattern start eof = Some i'"
    using seek_sequence_None_iff [OF assms(1), of lines start eof] first
    by (cases "seek_sequence lines pattern start eof") (auto simp: first_occurrence_def)
  then obtain l where l: "first_occurrence (comparators ! l) lines pattern (search_from lines pattern start eof) i'"
    "\<forall>k' < l. \<forall>j \<ge> search_from lines pattern start eof. \<not> occurs_at (comparators ! k') lines pattern j"
    using seek_sequence_level [OF assms(1)] by blast
  with first none have "k = l" by (metis first_occurrence_def linorder_neqE_nat)
  with first l have "i = i'" by (metis first_occurrence_def linorder_neqE_nat)
  with i' show ?thesis by simp
qed

end
