(* ===== verification/Patch_Apply.thy ===== *)
theory Patch_Apply
  imports Seek_Sequence Patch_Parser "HOL-Library.Multiset"
begin

text \<open>
  The pure core of \<open>apply-patch/src/lib.rs\<close>: turning the chunks of an update hunk into
  line replacements (\<open>compute_replacements\<close>), applying them (\<open>apply_replacements\<close>), and
  the text of the updated file (\<open>derive_new_contents_from_chunks\<close>).

  \<open>Vec::insert\<close> panics when its index is beyond the end, so applying replacements returns an
  option: \<open>None\<close> is the panic.
\<close>

section \<open>Errors\<close>

datatype io_error_kind = NotFound | InvalidInput | InvalidData | OtherKind

record io_error =
  kind :: io_error_kind
  io_text :: rstr

datatype 'pe apply_patch_error =
    PatchParseError parse_error
  | IoError (io_context: rstr) (io_source: io_error)
  | ComputeReplacements rstr
  | PathUriError 'pe
  | ImplicitInvocation

text \<open>\<open>impl From<std::io::Error> for ApplyPatchError\<close>\<close>

definition from_io :: "io_error \<Rightarrow> 'pe apply_patch_error" where
  "from_io err = IoError ''I/O error'' err"

section \<open>Replacements\<close>

text \<open>A replacement is \<open>(start_index, old_len, new_lines)\<close>.\<close>

type_synonym replacement = "nat \<times> nat \<times> rstr list"

definition ends_with_empty :: "rstr list \<Rightarrow> bool" where
  "ends_with_empty ls = (last_opt ls = Some [])"

text \<open>
  One round of the loop of \<open>compute_replacements\<close>, over the replacements so far and
  \<open>line_index\<close>. Its errors are all of the form \<open>ComputeReplacements(message)\<close>; here they are
  the message, which \<open>derive_new_contents_from_chunks\<close> wraps.
\<close>

definition seek_context ::
    "rstr list \<Rightarrow> rstr \<Rightarrow> update_file_chunk \<Rightarrow> nat \<Rightarrow> (rstr, nat) result" where
  "seek_context original_lines path chunk line_index =
    (case change_context chunk of
       None \<Rightarrow> Ok line_index
     | Some ctx_line \<Rightarrow>
         (case seek_sequence original_lines [ctx_line] line_index False of
            Some idx \<Rightarrow> Ok (idx + 1)
          | None \<Rightarrow> Err (''Failed to find context '' @ quoted ctx_line @ '' in '' @ path)))"

definition seek_old_lines ::
    "rstr list \<Rightarrow> rstr \<Rightarrow> update_file_chunk \<Rightarrow> nat \<Rightarrow> (rstr, replacement) result" where
  "seek_old_lines original_lines path chunk line_index =
    (let found = seek_sequence original_lines (old_lines chunk) line_index (is_end_of_file chunk);
         retry = (found = None \<and> ends_with_empty (old_lines chunk));
         pattern = (if retry then butlast (old_lines chunk) else old_lines chunk);
         new_slice = (if retry \<and> ends_with_empty (new_lines chunk)
                      then butlast (new_lines chunk) else new_lines chunk);
         found' = (if retry
                   then seek_sequence original_lines pattern line_index (is_end_of_file chunk)
                   else found)
     in case found' of
          Some start_idx \<Rightarrow> Ok (start_idx, length pattern, new_slice)
        | None \<Rightarrow> Err (''Failed to find expected lines in '' @ path @ '':'' @ [NL]
             @ join_with [NL] (old_lines chunk)))"

definition insertion_index :: "rstr list \<Rightarrow> nat" where
  "insertion_index original_lines =
     (if ends_with_empty original_lines then length original_lines - 1 else length original_lines)"

definition compute_step ::
    "rstr list \<Rightarrow> rstr \<Rightarrow> update_file_chunk \<Rightarrow> replacement list \<times> nat
      \<Rightarrow> (rstr, replacement list \<times> nat) result" where
  "compute_step original_lines path chunk st =
    (case st of (replacements, line_index) \<Rightarrow>
       and_then (seek_context original_lines path chunk line_index) (\<lambda>line_index'.
         if old_lines chunk = [] then
           Ok (replacements @ [(insertion_index original_lines, 0, new_lines chunk)], line_index')
         else
           and_then (seek_old_lines original_lines path chunk line_index') (\<lambda>(start_idx, len, seg).
             Ok (replacements @ [(start_idx, len, seg)], start_idx + len))))"

definition compute_replacements ::
    "rstr list \<Rightarrow> rstr \<Rightarrow> update_file_chunk list \<Rightarrow> (rstr, replacement list) result" where
  "compute_replacements original_lines path chunks =
     and_then (fold_result (compute_step original_lines path) chunks ([], 0))
       (\<lambda>(replacements, _). Ok (sort_key fst replacements))"

text \<open>The two inner loops of \<open>apply_replacements\<close>.\<close>

fun remove_lines :: "nat \<Rightarrow> nat \<Rightarrow> rstr list \<Rightarrow> rstr list" where
  "remove_lines 0 start_idx lines = lines"
| "remove_lines (Suc n) start_idx lines =
     remove_lines n start_idx
       (if start_idx < length lines then take start_idx lines @ drop (Suc start_idx) lines else lines)"

definition insert_at :: "nat \<Rightarrow> 'a \<Rightarrow> 'a list \<Rightarrow> 'a list option" where
  "insert_at i x xs = (if i \<le> length xs then Some (take i xs @ x # drop i xs) else None)"

fun insert_lines :: "nat \<Rightarrow> rstr list \<Rightarrow> rstr list \<Rightarrow> rstr list option" where
  "insert_lines i [] lines = Some lines"
| "insert_lines i (l # seg) lines = Option.bind (insert_at i l lines) (insert_lines (Suc i) seg)"

fun apply_each :: "replacement list \<Rightarrow> rstr list \<Rightarrow> rstr list option" where
  "apply_each [] lines = Some lines"
| "apply_each ((start_idx, old_len, seg) # rs) lines =
     Option.bind (insert_lines start_idx seg (remove_lines old_len start_idx lines)) (apply_each rs)"

definition apply_replacements :: "rstr list \<Rightarrow> replacement list \<Rightarrow> rstr list option" where
  "apply_replacements lines replacements = apply_each (rev replacements) lines"

section \<open>New contents\<close>

record applied_patch =
  original_contents :: rstr
  new_contents :: rstr

definition original_lines_of :: "rstr \<Rightarrow> rstr list" where
  "original_lines_of contents =
     (let ls = split_on NL contents in if ends_with_empty ls then butlast ls else ls)"

definition join_new_lines :: "rstr list \<Rightarrow> rstr" where
  "join_new_lines ls = join_with [NL] (if ends_with_empty ls then ls else ls @ [[]])"

text \<open>
  The outer option is the panic of \<open>apply_replacements\<close>. \<open>native\<close> stands for
  \<open>inferred_native_path_string\<close>, \<open>read\<close> for the file system's \<open>read_file_text\<close>.
\<close>

definition derive_new_contents_from_chunks ::
    "('uri \<Rightarrow> rstr) \<Rightarrow> ('uri \<Rightarrow> (io_error, rstr) result) \<Rightarrow> 'uri \<Rightarrow> update_file_chunk list
      \<Rightarrow> ('pe apply_patch_error, applied_patch) result option" where
  "derive_new_contents_from_chunks native read path chunks =
    (case read path of
       Err err \<Rightarrow> Some (Err (IoError (''Failed to read file to update '' @ native path) err))
     | Ok original \<Rightarrow>
         (let original_lines = original_lines_of original in
          case compute_replacements original_lines (native path) chunks of
            Err msg \<Rightarrow> Some (Err (ComputeReplacements msg))
          | Ok replacements \<Rightarrow>
              map_option (\<lambda>ls. Ok \<lparr>original_contents = original, new_contents = join_new_lines ls\<rparr>)
                (apply_replacements original_lines replacements)))"

section \<open>The contract\<close>

text \<open>
  \<open>splice\<close> is what a patch means: the lines between the replaced regions, with the new
  lines in place of the old. It is defined for regions that are ordered and do not overlap.
\<close>

fun splice :: "nat \<Rightarrow> rstr list \<Rightarrow> replacement list \<Rightarrow> rstr list" where
  "splice pos lines [] = drop pos lines"
| "splice pos lines ((s, l, seg) # rs) =
     take (s - pos) (drop pos lines) @ seg @ splice (s + l) lines rs"

fun disjoint_from :: "nat \<Rightarrow> nat \<Rightarrow> replacement list \<Rightarrow> bool" where
  "disjoint_from pos n [] = (pos \<le> n)"
| "disjoint_from pos n ((s, l, seg) # rs) = (pos \<le> s \<and> s + l \<le> n \<and> disjoint_from (s + l) n rs)"

definition in_range :: "nat \<Rightarrow> replacement \<Rightarrow> bool" where
  "in_range n r = (case r of (s, l, _) \<Rightarrow> s + l \<le> n)"

section \<open>Facts\<close>

subsection \<open>Applying replacements\<close>

lemma remove_lines_eq: "remove_lines n s lines = take s lines @ drop (s + n) lines"
proof (induction n s lines rule: remove_lines.induct)
  case (2 n s lines)
  then show ?case
    by (cases "s < length lines") (simp_all add: min_def add.commute)
qed simp

lemma insert_lines_eq:
  "i \<le> length lines \<Longrightarrow> insert_lines i seg lines = Some (take i lines @ seg @ drop i lines)"
proof (induction i seg lines rule: insert_lines.induct)
  case (2 i l seg lines)
  then show ?case by (simp add: insert_at_def min_def)
qed simp

lemma apply_each_append:
  "apply_each (rs @ rs') lines = Option.bind (apply_each rs lines) (apply_each rs')"
  by (induction rs lines rule: apply_each.induct) (auto split: Option.bind_splits)

lemma apply_each_splice:
  "disjoint_from pos (length lines) rs \<Longrightarrow>
     apply_each (rev rs) lines = Some (take pos lines @ splice pos lines rs)"
proof (induction rs arbitrary: pos)
  case Nil
  then show ?case by simp
next
  case (Cons r rs)
  obtain s l seg where r: "r = (s, l, seg)" by (cases r)
  with Cons.prems have le: "pos \<le> s" "s + l \<le> length lines"
    and IH: "apply_each (rev rs) lines = Some (take (s + l) lines @ splice (s + l) lines rs)"
    using Cons.IH by auto
  have "take pos lines @ take (s - pos) (drop pos lines) = take s lines"
    using le by (simp add: take_add [symmetric])
  with IH r le show ?case
    by (simp add: apply_each_append remove_lines_eq insert_lines_eq min_def)
qed

lemma apply_each_total:
  "sorted (map fst rs) \<Longrightarrow> (\<forall>r \<in> set rs. fst r \<le> n) \<Longrightarrow> n \<le> length lines \<Longrightarrow>
     \<exists>out. apply_each (rev rs) lines = Some out \<and> (rs = [] \<or> fst (hd rs) \<le> length out)"
proof (induction rs)
  case (Cons r rs)
  obtain s l seg where r: "r = (s, l, seg)" by (cases r)
  from Cons obtain out where out: "apply_each (rev rs) lines = Some out"
    and bound: "rs = [] \<or> fst (hd rs) \<le> length out" by auto
  have "s \<le> length out"
  proof (cases rs)
    case Nil
    with out r Cons.prems show ?thesis by auto
  next
    case (Cons r' rs')
    with bound \<open>sorted (map fst (r # rs))\<close> r show ?thesis by auto
  qed
  with out r show ?case
    by (simp add: apply_each_append remove_lines_eq insert_lines_eq)
qed simp

subsection \<open>Computing replacements\<close>

lemma seek_context_bound:
  assumes "seek_context ls path chunk i = Ok j" and "i \<le> length ls"
  shows "i \<le> j" and "j \<le> length ls"
proof -
  have "i \<le> j \<and> j \<le> length ls"
  proof (cases "change_context chunk")
    case (Some ctx)
    then obtain idx where idx: "seek_sequence ls [ctx] i False = Some idx" "j = idx + 1"
      using assms(1) by (auto simp: seek_context_def split: option.splits)
    with seek_sequence_ge [OF idx(1)] seek_sequence_bound [OF idx(1) assms(2)] show ?thesis by simp
  qed (use assms in \<open>simp add: seek_context_def\<close>)
  then show "i \<le> j" and "j \<le> length ls" by simp_all
qed

lemma seek_old_lines_bound:
  assumes "seek_old_lines ls path chunk i = Ok (s, l, seg)" and "i \<le> length ls"
  shows "s + l \<le> length ls"
  using assms
  by (auto simp: seek_old_lines_def Let_def split: option.splits if_splits
      dest: seek_sequence_bound)

lemma seek_old_lines_ge:
  assumes "seek_old_lines ls path chunk i = Ok (s, l, seg)" and "\<not> is_end_of_file chunk"
  shows "i \<le> s"
  using assms
  by (auto simp: seek_old_lines_def Let_def split: option.splits if_splits
      dest: seek_sequence_ge)

lemma insertion_index_le: "insertion_index ls \<le> length ls"
  by (simp add: insertion_index_def)

lemma compute_step_cases:
  assumes "compute_step ls path chunk (rs, i) = Ok (rs', i')"
  obtains (insertion) "old_lines chunk = []" "seek_context ls path chunk i = Ok i'"
      "rs' = rs @ [(insertion_index ls, 0, new_lines chunk)]"
    | (replacement) j s l seg where "old_lines chunk \<noteq> []" "seek_context ls path chunk i = Ok j"
      "seek_old_lines ls path chunk j = Ok (s, l, seg)" "rs' = rs @ [(s, l, seg)]" "i' = s + l"
  using assms
  by (auto simp: compute_step_def and_then_eq_Ok split: if_splits prod.splits)

text \<open>Every replacement lies within the file.\<close>

definition step_inv :: "rstr list \<Rightarrow> replacement list \<times> nat \<Rightarrow> bool" where
  "step_inv ls st \<longleftrightarrow> snd st \<le> length ls \<and> list_all (in_range (length ls)) (fst st)"

lemma compute_step_inv:
  assumes "step_inv ls st" and "compute_step ls path chunk st = Ok st'"
  shows "step_inv ls st'"
proof -
  obtain rs i rs' i' where st: "st = (rs, i)" "st' = (rs', i')" by (cases st; cases st')
  from assms(1) st have le: "i \<le> length ls" and rs: "list_all (in_range (length ls)) rs"
    by (simp_all add: step_inv_def)
  from assms(2) st have "compute_step ls path chunk (rs, i) = Ok (rs', i')" by simp
  then show ?thesis
  proof (cases rule: compute_step_cases)
    case insertion
    with le rs st show ?thesis
      by (auto simp: step_inv_def in_range_def insertion_index_le dest: seek_context_bound(2))
  next
    case (replacement j s l seg)
    then have "s + l \<le> length ls"
      using seek_context_bound(2) le seek_old_lines_bound by blast
    with rs st replacement show ?thesis by (simp add: step_inv_def in_range_def)
  qed
qed

lemma compute_replacements_Ok:
  assumes "compute_replacements ls path chunks = Ok rs"
  obtains rs0 i where "fold_result (compute_step ls path) chunks ([], 0) = Ok (rs0, i)"
    and "rs = sort_key fst rs0"
  using assms by (auto simp: compute_replacements_def and_then_eq_Ok)

lemma compute_replacements_in_range:
  assumes "compute_replacements ls path chunks = Ok rs"
  shows "list_all (in_range (length ls)) rs" and "sorted (map fst rs)"
proof -
  from assms obtain rs0 i where fold: "fold_result (compute_step ls path) chunks ([], 0) = Ok (rs0, i)"
    and rs: "rs = sort_key fst rs0" by (rule compute_replacements_Ok)
  have "step_inv ls (rs0, i)"
    by (rule fold_result_inv [OF fold]) (simp add: step_inv_def, rule compute_step_inv)
  then show "list_all (in_range (length ls)) rs"
    by (simp add: step_inv_def rs list_all_iff)
  show "sorted (map fst rs)" by (simp add: rs)
qed

text \<open>
  Without end-of-file chunks, and in a file whose last line is not blank, the regions below
  the end of the file come out in order and apart; what is inserted at the end is empty there.
\<close>

definition ordered_inv :: "rstr list \<Rightarrow> replacement list \<times> nat \<Rightarrow> bool" where
  "ordered_inv ls st \<longleftrightarrow>
     step_inv ls st \<and>
     (\<exists>e \<le> snd st. disjoint_from 0 e (filter (\<lambda>r. fst r < length ls) (fst st)))"

lemma disjoint_from_snoc:
  "disjoint_from pos e rs \<Longrightarrow> e \<le> s \<Longrightarrow> s + l \<le> n \<Longrightarrow> disjoint_from pos n (rs @ [(s, l, seg)])"
  by (induction pos e rs rule: disjoint_from.induct) auto

lemma disjoint_from_mono: "disjoint_from pos e rs \<Longrightarrow> e \<le> n \<Longrightarrow> disjoint_from pos n rs"
  by (induction pos e rs rule: disjoint_from.induct) auto

lemma disjoint_from_at_end:
  "disjoint_from pos n rs \<Longrightarrow> list_all (\<lambda>r. fst r = n \<and> in_range n r) ts \<Longrightarrow> disjoint_from pos n (rs @ ts)"
proof (induction pos n rs rule: disjoint_from.induct)
  case (1 pos n)
  then show ?case
  proof (induction ts arbitrary: pos)
    case (Cons t ts)
    then show ?case by (cases t) (auto simp: in_range_def)
  qed simp
qed auto

lemma disjoint_from_sorted: "disjoint_from pos n rs \<Longrightarrow> sorted (map fst rs) \<and> (\<forall>r \<in> set rs. pos \<le> fst r)"
  by (induction pos n rs rule: disjoint_from.induct) fastforce+

lemma ordered_step:
  assumes "ordered_inv ls st" and "compute_step ls path chunk st = Ok st'"
    and "\<not> is_end_of_file chunk" and "\<not> ends_with_empty ls"
  shows "ordered_inv ls st'"
proof -
  obtain rs i rs' i' where st: "st = (rs, i)" "st' = (rs', i')" by (cases st; cases st')
  from assms(1,2) have inv': "step_inv ls st'"
    by (auto simp: ordered_inv_def intro: compute_step_inv)
  from assms(1) st have le: "i \<le> length ls" by (simp add: ordered_inv_def step_inv_def)
  from assms(1) st obtain e where e: "e \<le> i" "disjoint_from 0 e (filter (\<lambda>r. fst r < length ls) rs)"
    by (auto simp: ordered_inv_def)
  from assms(2) st have "compute_step ls path chunk (rs, i) = Ok (rs', i')" by simp
  then show ?thesis
  proof (cases rule: compute_step_cases)
    case insertion
    with assms(4) have "filter (\<lambda>r. fst r < length ls) rs' = filter (\<lambda>r. fst r < length ls) rs"
      by (simp add: insertion_index_def)
    moreover have "e \<le> i'" using seek_context_bound(1) [OF insertion(2) le] e(1) by simp
    ultimately show ?thesis using e(2) inv' st by (auto simp: ordered_inv_def)
  next
    case (replacement j s l seg)
    have "i \<le> j" using seek_context_bound(1) [OF replacement(2) le] .
    also have "j \<le> s" using seek_old_lines_ge [OF replacement(3) assms(3)] .
    finally have "e \<le> s" using e(1) by simp
    then have "disjoint_from 0 (s + l) (filter (\<lambda>r. fst r < length ls) rs')"
      using e(2) replacement(4)
      by (auto intro: disjoint_from_snoc disjoint_from_mono)
    with inv' st replacement show ?thesis by (auto simp: ordered_inv_def)
  qed
qed

lemma sort_key_split:
  assumes "sorted (map fst (filter (\<lambda>r. fst r < n) rs))" and "\<forall>r \<in> set rs. fst r \<le> (n::nat)"
  shows "sort_key fst rs = filter (\<lambda>r. fst r < n) rs @ filter (\<lambda>r. fst r = n) rs" (is "_ = ?ys")
proof (rule properties_for_sort_key)
  have "\<forall>r \<in> set rs. fst r = n \<longleftrightarrow> \<not> fst r < n" using assms(2) by fastforce
  then have eq: "filter (\<lambda>r. fst r = n) rs = filter (\<lambda>r. \<not> fst r < n) rs"
    by (intro filter_cong) auto
  show "mset ?ys = mset rs" by (simp add: eq)
  show "filter (\<lambda>r. fst k = fst r) ?ys = filter (\<lambda>r. fst k = fst r) rs" if "k \<in> set ?ys" for k
    using that by (auto simp: intro!: filter_cong)
  have "sorted (map fst (filter (\<lambda>r. fst r = n) rs))"
    by (induction rs) auto
  then show "sorted (map fst ?ys)"
    using assms by (auto simp: sorted_append)
qed

lemma compute_replacements_disjoint:
  assumes "compute_replacements ls path chunks = Ok rs"
    and "list_all (\<lambda>c. \<not> is_end_of_file c) chunks" and "\<not> ends_with_empty ls"
  shows "disjoint_from 0 (length ls) rs"
proof -
  let ?n = "length ls"
  from assms(1) obtain rs0 i where fold: "fold_result (compute_step ls path) chunks ([], 0) = Ok (rs0, i)"
    and rs: "rs = sort_key fst rs0" by (rule compute_replacements_Ok)
  have "ordered_inv ls (rs0, i)"
  proof (rule fold_result_inv [OF fold])
    show "ordered_inv ls ([], 0)" by (simp add: ordered_inv_def step_inv_def)
    show "ordered_inv ls st'" if "c \<in> set chunks" "ordered_inv ls st" "compute_step ls path c st = Ok st'"
      for c st st'
      using that assms(2,3) by (auto simp: list_all_iff intro: ordered_step)
  qed
  then obtain e where e: "e \<le> i" "i \<le> ?n" "disjoint_from 0 e (filter (\<lambda>r. fst r < ?n) rs0)"
    and range: "list_all (in_range ?n) rs0"
    by (auto simp: ordered_inv_def step_inv_def)
  then have dis: "disjoint_from 0 ?n (filter (\<lambda>r. fst r < ?n) rs0)"
    by (auto intro: disjoint_from_mono)
  have "\<forall>r \<in> set rs0. fst r \<le> ?n"
    using range by (auto simp: list_all_iff in_range_def)
  then have "rs = filter (\<lambda>r. fst r < ?n) rs0 @ filter (\<lambda>r. fst r = ?n) rs0"
    unfolding rs using disjoint_from_sorted [OF dis] by (intro sort_key_split) auto
  with disjoint_from_at_end [OF dis, of "filter (\<lambda>r. fst r = ?n) rs0"] range
  show ?thesis by (simp add: list_all_iff)
qed

subsection \<open>New contents\<close>

lemma original_lines_of_no_newline: "l \<in> set (original_lines_of contents) \<Longrightarrow> NL \<notin> set l"
  by (auto simp: original_lines_of_def Let_def dest: in_set_butlastD split_on_no_sep split: if_splits)

lemma join_new_lines_ends:
  "join_new_lines ls = [] \<or> (\<exists>t. join_new_lines ls = t @ [NL])"
proof (cases "ends_with_empty ls")
  case True
  then obtain xs where "ls = xs @ [[]]"
    by (auto simp: ends_with_empty_def last_opt_Some_iff)
  with True show ?thesis
    by (cases "xs = []") (auto simp: join_new_lines_def join_with_snoc)
next
  case False
  then show ?thesis
    by (cases "ls = []") (auto simp: join_new_lines_def join_with_snoc)
qed

lemma apply_replacements_total:
  assumes "compute_replacements ls path chunks = Ok rs"
  shows "\<exists>out. apply_replacements ls rs = Some out"
proof -
  have "\<forall>r \<in> set rs. fst r \<le> length ls"
    using compute_replacements_in_range(1) [OF assms] by (auto simp: list_all_iff in_range_def)
  with apply_each_total [OF compute_replacements_in_range(2) [OF assms], of "length ls" ls]
  show ?thesis by (auto simp: apply_replacements_def)
qed

end
