(* ===== verification/Patch_Fs.thy ===== *)
theory Patch_Fs
  imports Patch_Apply
begin

text \<open>
  The file-system side of \<open>apply-patch/src/lib.rs\<close>: applying parsed hunks through the
  \<open>ExecutorFileSystem\<close> trait (\<open>file-system/src/lib.rs\<close>) and recording the committed delta.

  The trait is a record of operations on a world \<open>'w\<close> (the sandbox context every call passes on
  unchanged is part of the record). The operations of \<open>PathUri\<close> the code calls are the record
  \<open>path_api\<close>. An \<open>anyhow::Error\<close> is either an I/O error under a context message, which
  \<open>downcast_ref::<io::Error>\<close> still finds, or another error with its display text;
  \<open>Panicked\<close> stands for the panic of \<open>Vec::insert\<close>. A function that fails keeps the world and the
  delta it has reached, as the \<open>&mut\<close> arguments of the source do.
\<close>

section \<open>Interfaces\<close>

record file_metadata =
  is_directory :: bool
  is_file :: bool
  is_symlink :: bool

record create_directory_options =
  create_recursive :: bool

record remove_options =
  remove_recursive :: bool
  remove_force :: bool

record ('uri, 'w) executor_file_system =
  read_file_text :: "'uri \<Rightarrow> 'w \<Rightarrow> (io_error, rstr) result"
  write_file :: "'uri \<Rightarrow> rstr \<Rightarrow> 'w \<Rightarrow> 'w \<times> (io_error, unit) result"
  create_directory :: "'uri \<Rightarrow> create_directory_options \<Rightarrow> 'w \<Rightarrow> 'w \<times> (io_error, unit) result"
  get_metadata :: "'uri \<Rightarrow> 'w \<Rightarrow> (io_error, file_metadata) result"
  fs_remove :: "'uri \<Rightarrow> remove_options \<Rightarrow> 'w \<Rightarrow> 'w \<times> (io_error, unit) result"

record ('uri, 'pe, 'path) path_api =
  uri_join :: "'uri \<Rightarrow> rstr \<Rightarrow> ('pe, 'uri) result"
  uri_parent :: "'uri \<Rightarrow> 'uri option"
  to_path_buf :: "'uri \<Rightarrow> 'path"
  native_path_string :: "'uri \<Rightarrow> rstr"
  show_path_error :: "'pe \<Rightarrow> rstr"

datatype anyhow_error =
    AnyIo (any_context: rstr) (any_io: io_error)
  | AnyOther rstr
  | Panicked

section \<open>The committed delta\<close>

datatype 'path applied_patch_file_change =
    AddChange rstr "rstr option"
  | DeleteChange rstr
  | UpdateChange "'path option" rstr "rstr option" rstr

record 'path applied_patch_change =
  change_path :: 'path
  change :: "'path applied_patch_file_change"

record 'path applied_patch_delta =
  changes :: "'path applied_patch_change list"
  exact :: bool

definition empty_delta :: "'path applied_patch_delta" where
  "empty_delta = \<lparr>changes = [], exact = True\<rparr>"

text \<open>\<open>AppliedPatchDelta::append\<close>\<close>

definition delta_append :: "'path applied_patch_delta \<Rightarrow> 'path applied_patch_delta \<Rightarrow> 'path applied_patch_delta" where
  "delta_append d other = \<lparr>changes = changes d @ changes other, exact = (exact d \<and> exact other)\<rparr>"

record affected_paths =
  added :: "rstr list"
  modified :: "rstr list"
  deleted :: "rstr list"

record 'path apply_patch_failure =
  failure_error :: "rstr apply_patch_error"
  failure_delta :: "'path applied_patch_delta"

section \<open>File helpers\<close>

definition ensure_not_directory ::
    "('uri, 'w) executor_file_system \<Rightarrow> 'uri \<Rightarrow> 'w \<Rightarrow> (io_error, unit) result" where
  "ensure_not_directory fs path w =
     and_then (get_metadata fs path w) (\<lambda>m.
       if is_directory m then Err \<lparr>kind = InvalidInput, io_text = ''path is a directory''\<rparr> else Ok ())"

definition remove_failure_was_side_effect_free ::
    "('uri, 'w) executor_file_system \<Rightarrow> 'uri \<Rightarrow> rstr option \<Rightarrow> 'w \<Rightarrow> bool" where
  "remove_failure_was_side_effect_free fs path expected w =
     (case expected of
        Some c \<Rightarrow> (case read_file_text fs path w of Ok content \<Rightarrow> content = c | Err _ \<Rightarrow> False)
      | None \<Rightarrow> False)"

definition note_existing_path_delta_support ::
    "('uri, 'w) executor_file_system \<Rightarrow> 'uri \<Rightarrow> 'w \<Rightarrow> bool \<Rightarrow> bool" where
  "note_existing_path_delta_support fs path w ex =
     (case get_metadata fs path w of
        Ok m \<Rightarrow> (if is_file m \<and> \<not> is_symlink m then ex else False)
      | Err source \<Rightarrow> (if kind source = NotFound then ex else False))"

definition read_optional_file_text_for_delta ::
    "('uri, 'w) executor_file_system \<Rightarrow> 'uri \<Rightarrow> 'w \<Rightarrow> bool \<Rightarrow> rstr option \<times> bool" where
  "read_optional_file_text_for_delta fs path w ex =
     (let ex' = note_existing_path_delta_support fs path w ex in
      case read_file_text fs path w of
        Ok content \<Rightarrow> (Some content, ex')
      | Err source \<Rightarrow> (if kind source = NotFound then (None, ex') else (None, False)))"

definition write_file_with_missing_parent_retry ::
    "('uri, 'w) executor_file_system \<Rightarrow> ('uri, 'pe, 'path) path_api \<Rightarrow> 'uri \<Rightarrow> rstr \<Rightarrow> 'w
      \<Rightarrow> 'w \<times> (anyhow_error, unit) result" where
  "write_file_with_missing_parent_retry fs api path contents w =
    (case write_file fs path contents w of
       (w1, Ok _) \<Rightarrow> (w1, Ok ())
     | (w1, Err err) \<Rightarrow>
         (if kind err = NotFound then
            (case (case uri_parent api path of
                     Some parent \<Rightarrow> create_directory fs parent \<lparr>create_recursive = True\<rparr> w1
                   | None \<Rightarrow> (w1, Ok ())) of
               (w2, Err e) \<Rightarrow>
                 (w2, Err (AnyIo (''Failed to create parent directories for ''
                                    @ native_path_string api path) e))
             | (w2, Ok _) \<Rightarrow>
                 (case write_file fs path contents w2 of
                    (w3, Ok _) \<Rightarrow> (w3, Ok ())
                  | (w3, Err e) \<Rightarrow>
                      (w3, Err (AnyIo (''Failed to write file '' @ native_path_string api path) e))))
          else (w1, Err (AnyIo (''Failed to write file '' @ native_path_string api path) err))))"

section \<open>Applying hunks\<close>

record ('w, 'path) apply_state =
  world :: 'w
  delta :: "'path applied_patch_delta"
  affected :: affected_paths

definition set_exact :: "bool \<Rightarrow> ('w, 'path) apply_state \<Rightarrow> ('w, 'path) apply_state" where
  "set_exact b st = st\<lparr>delta := (delta st)\<lparr>exact := b\<rparr>\<rparr>"

definition push_change :: "'path \<Rightarrow> 'path applied_patch_file_change \<Rightarrow> ('w, 'path) apply_state \<Rightarrow> ('w, 'path) apply_state" where
  "push_change path c st =
     st\<lparr>delta := (delta st)\<lparr>changes := changes (delta st) @ [\<lparr>change_path = path, change = c\<rparr>]\<rparr>\<rparr>"

abbreviation no_force :: remove_options where
  "no_force \<equiv> \<lparr>remove_recursive = False, remove_force = False\<rparr>"

definition apply_add ::
    "('uri, 'w) executor_file_system \<Rightarrow> ('uri, 'pe, 'path) path_api \<Rightarrow> rstr \<Rightarrow> 'uri \<Rightarrow> rstr
      \<Rightarrow> ('w, 'path) apply_state \<Rightarrow> ('w, 'path) apply_state \<times> anyhow_error option" where
  "apply_add fs api affected_path path_uri contents st =
    (case read_optional_file_text_for_delta fs path_uri (world st) (exact (delta st)) of
       (overwritten, ex) \<Rightarrow>
         (case write_file_with_missing_parent_retry fs api path_uri contents (world st) of
            (w, Err e) \<Rightarrow> (set_exact False (st\<lparr>world := w\<rparr>), Some e)
          | (w, Ok _) \<Rightarrow>
              (let st1 = push_change (to_path_buf api path_uri) (AddChange contents overwritten)
                           (set_exact ex (st\<lparr>world := w\<rparr>))
               in (st1\<lparr>affected := (affected st1)\<lparr>added := added (affected st1) @ [affected_path]\<rparr>\<rparr>, None))))"

definition ok_opt :: "('e, 'a) result \<Rightarrow> 'a option" where
  "ok_opt r = (case r of Ok a \<Rightarrow> Some a | Err _ \<Rightarrow> None)"

definition apply_delete ::
    "('uri, 'w) executor_file_system \<Rightarrow> ('uri, 'pe, 'path) path_api \<Rightarrow> rstr \<Rightarrow> 'uri
      \<Rightarrow> ('w, 'path) apply_state \<Rightarrow> ('w, 'path) apply_state \<times> anyhow_error option" where
  "apply_delete fs api affected_path path_uri st =
    (let msg = ''Failed to delete file '' @ native_path_string api path_uri;
         deleted_content = ok_opt (read_file_text fs path_uri (world st));
         ex = (note_existing_path_delta_support fs path_uri (world st) (exact (delta st))
               \<and> deleted_content \<noteq> None);
         st1 = set_exact ex st
     in case ensure_not_directory fs path_uri (world st) of
          Err e \<Rightarrow> (st1, Some (AnyIo msg e))
        | Ok _ \<Rightarrow>
            (case fs_remove fs path_uri no_force (world st) of
               (w, Err e) \<Rightarrow>
                 (set_exact (ex \<and> remove_failure_was_side_effect_free fs path_uri deleted_content w)
                    (st1\<lparr>world := w\<rparr>), Some (AnyIo msg e))
             | (w, Ok _) \<Rightarrow>
                 (let st2 = st1\<lparr>world := w\<rparr>;
                      st3 = (case deleted_content of
                               Some content \<Rightarrow> push_change (to_path_buf api path_uri) (DeleteChange content) st2
                             | None \<Rightarrow> st2)
                  in (st3\<lparr>affected := (affected st3)\<lparr>deleted := deleted (affected st3) @ [affected_path]\<rparr>\<rparr>, None))))"

text \<open>
  The rename branch: the destination is written first and recorded as an addition; once the
  original is removed, that record becomes the update.
\<close>

definition apply_move ::
    "('uri, 'w) executor_file_system \<Rightarrow> ('uri, 'pe, 'path) path_api \<Rightarrow> rstr \<Rightarrow> 'uri \<Rightarrow> 'uri
      \<Rightarrow> applied_patch \<Rightarrow> ('w, 'path) apply_state \<Rightarrow> ('w, 'path) apply_state \<times> anyhow_error option" where
  "apply_move fs api affected_path path_uri dest_uri ap st =
    (let msg = ''Failed to remove original '' @ native_path_string api path_uri in
     case read_optional_file_text_for_delta fs dest_uri (world st) (exact (delta st)) of
       (overwritten, ex) \<Rightarrow>
         (case write_file_with_missing_parent_retry fs api dest_uri (new_contents ap) (world st) of
            (w, Err e) \<Rightarrow> (set_exact False (st\<lparr>world := w\<rparr>), Some e)
          | (w, Ok _) \<Rightarrow>
              (let st0 = set_exact ex (st\<lparr>world := w\<rparr>);
                   st1 = push_change (to_path_buf api dest_uri)
                           (AddChange (new_contents ap) overwritten) st0
               in case ensure_not_directory fs path_uri w of
                    Err e \<Rightarrow> (st1, Some (AnyIo msg e))
                  | Ok _ \<Rightarrow>
                      (case fs_remove fs path_uri no_force w of
                         (w', Err e) \<Rightarrow>
                           (set_exact (ex \<and> remove_failure_was_side_effect_free fs path_uri
                                               (Some (original_contents ap)) w')
                              (st1\<lparr>world := w'\<rparr>), Some (AnyIo msg e))
                       | (w', Ok _) \<Rightarrow>
                           (let st2 = push_change (to_path_buf api path_uri)
                                        (UpdateChange (Some (to_path_buf api dest_uri)) (original_contents ap)
                                           overwritten (new_contents ap))
                                        (st0\<lparr>world := w'\<rparr>)
                            in (st2\<lparr>affected := (affected st2)\<lparr>modified := modified (affected st2) @ [affected_path]\<rparr>\<rparr>,
                                None))))))"

definition apply_overwrite ::
    "('uri, 'w) executor_file_system \<Rightarrow> ('uri, 'pe, 'path) path_api \<Rightarrow> rstr \<Rightarrow> 'uri
      \<Rightarrow> applied_patch \<Rightarrow> ('w, 'path) apply_state \<Rightarrow> ('w, 'path) apply_state \<times> anyhow_error option" where
  "apply_overwrite fs api affected_path path_uri ap st =
    (case write_file fs path_uri (new_contents ap) (world st) of
       (w, Err e) \<Rightarrow>
         (set_exact False (st\<lparr>world := w\<rparr>),
          Some (AnyIo (''Failed to write file '' @ native_path_string api path_uri) e))
     | (w, Ok _) \<Rightarrow>
         (let st1 = push_change (to_path_buf api path_uri)
                      (UpdateChange None (original_contents ap) None (new_contents ap))
                      (st\<lparr>world := w\<rparr>)
          in (st1\<lparr>affected := (affected st1)\<lparr>modified := modified (affected st1) @ [affected_path]\<rparr>\<rparr>, None)))"

text \<open>The display text of an \<open>ApplyPatchError\<close> raised while an update is derived.\<close>

definition show_derive_error :: "rstr apply_patch_error \<Rightarrow> rstr" where
  "show_derive_error e =
    (case e of
       IoError context source \<Rightarrow> context @ '': '' @ io_text source
     | ComputeReplacements msg \<Rightarrow> msg
     | PathUriError msg \<Rightarrow> msg
     | _ \<Rightarrow> [])"

definition apply_update ::
    "('uri, 'w) executor_file_system \<Rightarrow> ('uri, 'pe, 'path) path_api \<Rightarrow> 'uri \<Rightarrow> rstr \<Rightarrow> 'uri
      \<Rightarrow> rstr option \<Rightarrow> update_file_chunk list
      \<Rightarrow> ('w, 'path) apply_state \<Rightarrow> ('w, 'path) apply_state \<times> anyhow_error option" where
  "apply_update fs api cwd affected_path path_uri move_path chunks st =
    (let st1 = set_exact (note_existing_path_delta_support fs path_uri (world st) (exact (delta st))) st in
     case derive_new_contents_from_chunks (native_path_string api)
            (\<lambda>p. read_file_text fs p (world st)) path_uri chunks of
       None \<Rightarrow> (st1, Some Panicked)
     | Some (Err e) \<Rightarrow> (st1, Some (AnyOther (show_derive_error e)))
     | Some (Ok ap) \<Rightarrow>
         (case move_path of
            None \<Rightarrow> apply_overwrite fs api affected_path path_uri ap st1
          | Some dest \<Rightarrow>
              (case uri_join api cwd dest of
                 Err e \<Rightarrow> (st1, Some (AnyOther (show_path_error api e)))
               | Ok dest_uri \<Rightarrow> apply_move fs api affected_path path_uri dest_uri ap st1)))"

text \<open>One round of the loop over the hunks.\<close>

definition apply_hunk ::
    "('uri, 'w) executor_file_system \<Rightarrow> ('uri, 'pe, 'path) path_api \<Rightarrow> 'uri \<Rightarrow> hunk
      \<Rightarrow> ('w, 'path) apply_state \<Rightarrow> ('w, 'path) apply_state \<times> anyhow_error option" where
  "apply_hunk fs api cwd h st =
    (case resolve_path (uri_join api) cwd h of
       Err e \<Rightarrow> (st, Some (AnyOther (show_path_error api e)))
     | Ok path_uri \<Rightarrow>
         (case h of
            AddFile _ contents \<Rightarrow> apply_add fs api (hunk_path h) path_uri contents st
          | DeleteFile _ \<Rightarrow> apply_delete fs api (hunk_path h) path_uri st
          | UpdateFile _ move_path chunks \<Rightarrow>
              apply_update fs api cwd (hunk_path h) path_uri move_path chunks st))"

fun apply_hunk_loop ::
    "('uri, 'w) executor_file_system \<Rightarrow> ('uri, 'pe, 'path) path_api \<Rightarrow> 'uri \<Rightarrow> hunk list
      \<Rightarrow> ('w, 'path) apply_state \<Rightarrow> ('w, 'path) apply_state \<times> anyhow_error option" where
  "apply_hunk_loop fs api cwd [] st = (st, None)"
| "apply_hunk_loop fs api cwd (h # hs) st =
     (case apply_hunk fs api cwd h st of
        (st', Some e) \<Rightarrow> (st', Some e)
      | (st', None) \<Rightarrow> apply_hunk_loop fs api cwd hs st')"

definition apply_hunks_to_files ::
    "('uri, 'w) executor_file_system \<Rightarrow> ('uri, 'pe, 'path) path_api \<Rightarrow> hunk list \<Rightarrow> 'uri
      \<Rightarrow> 'w \<Rightarrow> ('w, 'path) apply_state \<times> anyhow_error option" where
  "apply_hunks_to_files fs api hs cwd w =
    (let st = \<lparr>world = w, delta = empty_delta,
               affected = \<lparr>added = [], modified = [], deleted = []\<rparr>\<rparr>
     in if hs = [] then (st, Some (AnyOther ''No files were modified.''))
        else apply_hunk_loop fs api cwd hs st)"

section \<open>Reporting\<close>

text \<open>A writer takes a line and may fail.\<close>

type_synonym 'o writer = "rstr \<Rightarrow> 'o \<Rightarrow> 'o \<times> (io_error, unit) result"

fun write_lines :: "'o writer \<Rightarrow> rstr list \<Rightarrow> 'o \<Rightarrow> 'o \<times> (io_error, unit) result" where
  "write_lines wr [] out = (out, Ok ())"
| "write_lines wr (l # ls) out =
     (case wr (l @ [NL]) out of (out', Err e) \<Rightarrow> (out', Err e) | (out', Ok _) \<Rightarrow> write_lines wr ls out')"

definition print_summary :: "'o writer \<Rightarrow> affected_paths \<Rightarrow> 'o \<Rightarrow> 'o \<times> (io_error, unit) result" where
  "print_summary wr a =
     write_lines wr
       ([''Success. Updated the following files:'']
        @ map (\<lambda>p. ''A '' @ p) (added a) @ map (\<lambda>p. ''M '' @ p) (modified a)
        @ map (\<lambda>p. ''D '' @ p) (deleted a))"

definition any_text :: "anyhow_error \<Rightarrow> rstr" where
  "any_text e = (case e of AnyIo context _ \<Rightarrow> context | AnyOther msg \<Rightarrow> msg | Panicked \<Rightarrow> [])"

definition to_apply_error :: "anyhow_error \<Rightarrow> rstr apply_patch_error" where
  "to_apply_error e =
    (case e of
       AnyIo _ io \<Rightarrow> from_io io
     | _ \<Rightarrow> IoError (any_text e) \<lparr>kind = OtherKind, io_text = any_text e\<rparr>)"

definition apply_hunks ::
    "('uri, 'w) executor_file_system \<Rightarrow> ('uri, 'pe, 'path) path_api \<Rightarrow> 'o writer \<Rightarrow> 'o writer
      \<Rightarrow> hunk list \<Rightarrow> 'uri \<Rightarrow> 'w \<times> 'o \<times> 'o
      \<Rightarrow> ('w \<times> 'o \<times> 'o) \<times> ('path apply_patch_failure, 'path applied_patch_delta) result" where
  "apply_hunks fs api out_wr err_wr hs cwd io =
    (case io of (w, stdout, stderr) \<Rightarrow>
     (case apply_hunks_to_files fs api hs cwd w of
        (st, None) \<Rightarrow>
          (case print_summary out_wr (affected st) stdout of
             (stdout', Err e) \<Rightarrow>
               ((world st, stdout', stderr), Err \<lparr>failure_error = from_io e, failure_delta = delta st\<rparr>)
           | (stdout', Ok _) \<Rightarrow> ((world st, stdout', stderr), Ok (delta st)))
      | (st, Some error) \<Rightarrow>
          (case err_wr (any_text error @ [NL]) stderr of
             (stderr', Err e) \<Rightarrow>
               ((world st, stdout, stderr'), Err \<lparr>failure_error = from_io e, failure_delta = delta st\<rparr>)
           | (stderr', Ok _) \<Rightarrow>
               ((world st, stdout, stderr'),
                Err \<lparr>failure_error = to_apply_error error, failure_delta = delta st\<rparr>))))"

text \<open>\<open>dec\<close> is the decimal text of a line number.\<close>

definition apply_patch ::
    "(nat \<Rightarrow> rstr) \<Rightarrow> ('uri, 'w) executor_file_system \<Rightarrow> ('uri, 'pe, 'path) path_api
      \<Rightarrow> 'o writer \<Rightarrow> 'o writer \<Rightarrow> rstr \<Rightarrow> 'uri \<Rightarrow> 'w \<times> 'o \<times> 'o
      \<Rightarrow> ('w \<times> 'o \<times> 'o) \<times> ('path apply_patch_failure, 'path applied_patch_delta) result" where
  "apply_patch dec fs api out_wr err_wr text cwd io =
    (case parse_patch text of
       Ok source \<Rightarrow> apply_hunks fs api out_wr err_wr (args_hunks source) cwd io
     | Err e \<Rightarrow>
         (case io of (w, stdout, stderr) \<Rightarrow>
          (let line = (case e of
                 InvalidPatchError msg \<Rightarrow> ''Invalid patch: '' @ msg
               | InvalidHunkError msg n \<Rightarrow> ''Invalid patch hunk on line '' @ dec n @ '': '' @ msg)
           in case err_wr (line @ [NL]) stderr of
                (stderr', Err ioe) \<Rightarrow>
                  ((w, stdout, stderr'), Err \<lparr>failure_error = from_io ioe, failure_delta = empty_delta\<rparr>)
              | (stderr', Ok _) \<Rightarrow>
                  ((w, stdout, stderr'),
                   Err \<lparr>failure_error = PatchParseError e, failure_delta = empty_delta\<rparr>))))"

section \<open>What the delta promises\<close>

text \<open>The text files of a world, and what the code relies on of the file system: a successful
  write or removal changes that path only, a write that fails because nothing is there changes
  nothing, creating directories touches no file, and a failed removal leaves the file or
  removes it. Paths that alias (symbolic or hard links) are outside these laws.\<close>

definition text_of :: "('uri, 'w) executor_file_system \<Rightarrow> 'w \<Rightarrow> 'uri \<Rightarrow> rstr option" where
  "text_of fs w p = ok_opt (read_file_text fs p w)"

definition fs_laws :: "('uri, 'w) executor_file_system \<Rightarrow> bool" where
  "fs_laws fs \<longleftrightarrow>
    (\<forall>p c w w'. write_file fs p c w = (w', Ok ()) \<longrightarrow> text_of fs w' = (text_of fs w)(p \<mapsto> c)) \<and>
    (\<forall>p c w w' e. write_file fs p c w = (w', Err e) \<longrightarrow> kind e = NotFound \<longrightarrow> text_of fs w' = text_of fs w) \<and>
    (\<forall>p opts w w'. create_directory fs p opts w = (w', Ok ()) \<longrightarrow> text_of fs w' = text_of fs w) \<and>
    (\<forall>p opts w w'. fs_remove fs p opts w = (w', Ok ()) \<longrightarrow> text_of fs w' = (text_of fs w)(p := None)) \<and>
    (\<forall>p opts w w' e. fs_remove fs p opts w = (w', Err e) \<longrightarrow>
       text_of fs w' = text_of fs w \<or> text_of fs w' = (text_of fs w)(p := None))"

fun replay_change :: "'path applied_patch_change \<Rightarrow> ('path \<Rightarrow> rstr option) \<Rightarrow> ('path \<Rightarrow> rstr option)" where
  "replay_change ch m =
    (case change ch of
       AddChange content _ \<Rightarrow> m(change_path ch \<mapsto> content)
     | DeleteChange _ \<Rightarrow> m(change_path ch := None)
     | UpdateChange None _ _ new \<Rightarrow> m(change_path ch \<mapsto> new)
     | UpdateChange (Some dest) _ _ new \<Rightarrow> (m(dest \<mapsto> new))(change_path ch := None))"

fun undo_change :: "'path applied_patch_change \<Rightarrow> ('path \<Rightarrow> rstr option) \<Rightarrow> ('path \<Rightarrow> rstr option)" where
  "undo_change ch m =
    (case change ch of
       AddChange _ overwritten \<Rightarrow> m(change_path ch := overwritten)
     | DeleteChange content \<Rightarrow> m(change_path ch \<mapsto> content)
     | UpdateChange None old _ _ \<Rightarrow> m(change_path ch \<mapsto> old)
     | UpdateChange (Some dest) old overwritten _ \<Rightarrow> (m(change_path ch \<mapsto> old))(dest := overwritten))"

definition replay :: "'path applied_patch_change list \<Rightarrow> ('path \<Rightarrow> rstr option) \<Rightarrow> ('path \<Rightarrow> rstr option)" where
  "replay cs m = fold replay_change cs m"

definition undo :: "'path applied_patch_change list \<Rightarrow> ('path \<Rightarrow> rstr option) \<Rightarrow> ('path \<Rightarrow> rstr option)" where
  "undo cs m = fold undo_change (rev cs) m"

text \<open>A map from native paths to texts describes a world.\<close>

definition agrees ::
    "('uri, 'w) executor_file_system \<Rightarrow> ('uri, 'pe, 'path) path_api \<Rightarrow> ('path \<Rightarrow> rstr option) \<Rightarrow> 'w \<Rightarrow> bool" where
  "agrees fs api m w \<longleftrightarrow> (\<forall>u. m (to_path_buf api u) = text_of fs w u)"

text \<open>A step extends the delta by changes that, while the delta stays exact, lead from the old
  world to the new and back.\<close>

definition sound_step ::
    "('uri, 'w) executor_file_system \<Rightarrow> ('uri, 'pe, 'path) path_api
      \<Rightarrow> ('w, 'path) apply_state \<Rightarrow> ('w, 'path) apply_state \<Rightarrow> bool" where
  "sound_step fs api st st' \<longleftrightarrow>
    (\<exists>cs. changes (delta st') = changes (delta st) @ cs \<and>
      (exact (delta st') \<longrightarrow> exact (delta st) \<and>
         (\<forall>m. agrees fs api m (world st) \<longrightarrow> agrees fs api (replay cs m) (world st')) \<and>
         (\<forall>m. agrees fs api m (world st') \<longrightarrow> agrees fs api (undo cs m) (world st))))"

section \<open>Facts\<close>

lemma set_exact_simps [simp]:
  "world (set_exact b st) = world st" "affected (set_exact b st) = affected st"
  "changes (delta (set_exact b st)) = changes (delta st)" "exact (delta (set_exact b st)) = b"
  by (simp_all add: set_exact_def)

lemma push_change_simps [simp]:
  "world (push_change p c st) = world st" "affected (push_change p c st) = affected st"
  "changes (delta (push_change p c st)) = changes (delta st) @ [\<lparr>change_path = p, change = c\<rparr>]"
  "exact (delta (push_change p c st)) = exact (delta st)"
  by (simp_all add: push_change_def)

lemma replay_simps [simp]: "replay [] m = m" "replay (c # cs) m = replay cs (replay_change c m)"
  by (simp_all add: replay_def)

lemma replay_append: "replay (cs @ ds) m = replay ds (replay cs m)"
  by (simp add: replay_def)

lemma undo_simps [simp]: "undo [] m = m" "undo [c] m = undo_change c m"
  by (simp_all add: undo_def)

lemma undo_append: "undo (cs @ ds) m = undo cs (undo ds m)"
  by (simp add: undo_def)

lemma note_existing_True:
  "note_existing_path_delta_support fs path w ex \<Longrightarrow> ex"
  by (auto simp: note_existing_path_delta_support_def split: sum.splits if_splits)

lemma read_optional_exact:
  assumes "read_optional_file_text_for_delta fs path w ex = (ov, True)"
  shows "ex" and "text_of fs w path = ov"
  using assms note_existing_True [of fs path w ex]
  by (auto simp: read_optional_file_text_for_delta_def text_of_def ok_opt_def Let_def
      split: sum.splits if_splits)

lemma write_retry_text:
  assumes "fs_laws fs" and "write_file_with_missing_parent_retry fs api path contents w = (w', Ok u)"
  shows "text_of fs w' = (text_of fs w)(path \<mapsto> contents)"
proof (cases "write_file fs path contents w")
  case (Pair w1 r)
  show ?thesis
  proof (cases r)
    case (Inr _)
    with Pair assms show ?thesis
      by (auto simp: write_file_with_missing_parent_retry_def fs_laws_def)
  next
    case (Inl e)
    with Pair assms(2) have nf: "kind e = NotFound"
      by (auto simp: write_file_with_missing_parent_retry_def split: if_splits)
    with Pair Inl assms(1) have w1: "text_of fs w1 = text_of fs w"
      unfolding fs_laws_def by blast
    from Pair Inl nf assms(2) obtain w2 where
      w2: "write_file fs path contents w2 = (w', Ok ())"
      and dir: "w2 = w1 \<or> (\<exists>d opts. create_directory fs d opts w1 = (w2, Ok ()))"
      by (auto simp: write_file_with_missing_parent_retry_def
          split: option.splits prod.splits sum.splits)
    from dir assms(1) have "text_of fs w2 = text_of fs w1" unfolding fs_laws_def by blast
    with w1 w2 assms(1) show ?thesis unfolding fs_laws_def by metis
  qed
qed

lemma derive_reads:
  "derive_new_contents_from_chunks native read path chunks = Some (Ok ap) \<Longrightarrow>
     read path = Ok (original_contents ap)"
  by (auto simp: derive_new_contents_from_chunks_def Let_def split: sum.splits option.splits)

lemma derive_no_panic: "derive_new_contents_from_chunks native read path chunks \<noteq> None"
  by (auto simp: derive_new_contents_from_chunks_def Let_def split: sum.splits
      dest!: apply_replacements_total)

lemma sound_step_refl: "exact (delta st') \<longrightarrow> exact (delta st) \<Longrightarrow>
    changes (delta st') = changes (delta st) \<Longrightarrow>
    (exact (delta st') \<Longrightarrow> text_of fs (world st') = text_of fs (world st)) \<Longrightarrow> sound_step fs api st st'"
  by (auto simp: sound_step_def agrees_def intro!: exI [of _ "[]"])

lemma sound_step_inexact:
  "changes (delta st') = changes (delta st) @ cs \<Longrightarrow> \<not> exact (delta st') \<Longrightarrow> sound_step fs api st st'"
  by (auto simp: sound_step_def)

lemma sound_step_trans:
  assumes "sound_step fs api st st'" and "sound_step fs api st' st''"
  shows "sound_step fs api st st''"
proof -
  from assms(1) obtain cs where cs: "changes (delta st') = changes (delta st) @ cs"
    "exact (delta st') \<longrightarrow> exact (delta st) \<and>
         (\<forall>m. agrees fs api m (world st) \<longrightarrow> agrees fs api (replay cs m) (world st')) \<and>
         (\<forall>m. agrees fs api m (world st') \<longrightarrow> agrees fs api (undo cs m) (world st))"
    unfolding sound_step_def by blast
  from assms(2) obtain ds where ds: "changes (delta st'') = changes (delta st') @ ds"
    "exact (delta st'') \<longrightarrow> exact (delta st') \<and>
         (\<forall>m. agrees fs api m (world st') \<longrightarrow> agrees fs api (replay ds m) (world st'')) \<and>
         (\<forall>m. agrees fs api m (world st'') \<longrightarrow> agrees fs api (undo ds m) (world st'))"
    unfolding sound_step_def by blast
  from cs ds show ?thesis
    unfolding sound_step_def by (intro exI [of _ "cs @ ds"]) (auto simp: replay_append undo_append)
qed

subsection \<open>Each operation is a sound step\<close>

lemma agrees_upd:
  assumes "inj (to_path_buf api)" and "text_of fs w' = (text_of fs w)(u := v)" and "agrees fs api m w"
  shows "agrees fs api (m(to_path_buf api u := v)) w'"
  using assms by (auto simp: agrees_def inj_eq)

lemma agrees_undo:
  assumes "inj (to_path_buf api)" and "text_of fs w' = (text_of fs w)(u := v)" and "agrees fs api m w'"
    and "text_of fs w u = v0"
  shows "agrees fs api (m(to_path_buf api u := v0)) w"
  using assms by (auto simp: agrees_def inj_eq)

lemma sound_step_single:
  assumes "inj (to_path_buf api)" and "exact (delta st') \<longrightarrow> exact (delta st)"
    and "changes (delta st') = changes (delta st) @ [\<lparr>change_path = to_path_buf api u, change = c\<rparr>]"
    and "exact (delta st') \<Longrightarrow> text_of fs (world st') = (text_of fs (world st))(u := v)"
    and "exact (delta st') \<Longrightarrow> text_of fs (world st) u = v0"
    and "\<And>m. replay_change \<lparr>change_path = to_path_buf api u, change = c\<rparr> m = m(to_path_buf api u := v)"
    and "\<And>m. undo_change \<lparr>change_path = to_path_buf api u, change = c\<rparr> m = m(to_path_buf api u := v0)"
  shows "sound_step fs api st st'"
  unfolding sound_step_def
  by (intro exI [of _ "[\<lparr>change_path = to_path_buf api u, change = c\<rparr>]"])
     (use assms in \<open>auto simp del: replay_change.simps undo_change.simps intro: agrees_upd agrees_undo\<close>)

lemma apply_add_sound:
  assumes "fs_laws fs" and "inj (to_path_buf api)"
    and "apply_add fs api a u contents st = (st', r)"
  shows "sound_step fs api st st'"
proof -
  obtain ov ex where ov: "read_optional_file_text_for_delta fs u (world st) (exact (delta st)) = (ov, ex)"
    by fastforce
  obtain w res where wr: "write_file_with_missing_parent_retry fs api u contents (world st) = (w, res)"
    by fastforce
  show ?thesis
  proof (cases res)
    case (Inl e)
    with assms(3) ov wr show ?thesis
      by (intro sound_step_inexact [where cs = "[]"]) (auto simp: apply_add_def)
  next
    case (Inr _)
    with write_retry_text [OF assms(1)] wr have tx: "text_of fs w = (text_of fs (world st))(u \<mapsto> contents)"
      by blast
    show ?thesis
      by (rule sound_step_single [OF assms(2), where u = u and v = "Some contents" and v0 = ov
            and c = "AddChange contents ov"])
         (use Inr assms(3) ov wr tx read_optional_exact [of fs u "world st" "exact (delta st)" ov] in
           \<open>auto simp: apply_add_def Let_def\<close>)
  qed
qed

lemma apply_overwrite_sound:
  assumes "fs_laws fs" and "inj (to_path_buf api)"
    and "text_of fs (world st) u = Some (original_contents ap)"
    and "apply_overwrite fs api a u ap st = (st', r)"
  shows "sound_step fs api st st'"
proof -
  obtain w res where wr: "write_file fs u (new_contents ap) (world st) = (w, res)" by fastforce
  show ?thesis
  proof (cases res)
    case (Inl e)
    with assms(4) wr show ?thesis
      by (intro sound_step_inexact [where cs = "[]"]) (auto simp: apply_overwrite_def)
  next
    case (Inr _)
    with assms(1) wr have tx: "text_of fs w = (text_of fs (world st))(u \<mapsto> new_contents ap)"
      by (auto simp: fs_laws_def)
    show ?thesis
      by (rule sound_step_single [OF assms(2), where u = u and v = "Some (new_contents ap)"
            and v0 = "Some (original_contents ap)"
            and c = "UpdateChange None (original_contents ap) None (new_contents ap)"])
         (use Inr assms(3,4) wr tx in \<open>auto simp: apply_overwrite_def Let_def\<close>)
  qed
qed

lemma failed_remove_text:
  assumes "fs_laws fs" and "fs_remove fs u opts w = (w', Err e)"
    and "remove_failure_was_side_effect_free fs u expected w'"
  shows "text_of fs w' = text_of fs w"
proof -
  have "text_of fs w' u \<noteq> None"
    using assms(3) by (auto simp: remove_failure_was_side_effect_free_def text_of_def ok_opt_def
        split: option.splits sum.splits)
  moreover have "text_of fs w' = text_of fs w \<or> text_of fs w' = (text_of fs w)(u := None)"
    using assms(1,2) unfolding fs_laws_def by blast
  ultimately show ?thesis by auto
qed

lemma apply_delete_sound:
  assumes "fs_laws fs" and "inj (to_path_buf api)"
    and "apply_delete fs api a u st = (st', r)"
  shows "sound_step fs api st st'"
proof -
  let ?dc = "text_of fs (world st) u"
  let ?ex = "note_existing_path_delta_support fs u (world st) (exact (delta st)) \<and> ?dc \<noteq> None"
  have ex: "?ex \<Longrightarrow> exact (delta st)" by (auto dest: note_existing_True)
  obtain w res where rm: "fs_remove fs u no_force (world st) = (w, res)" by fastforce
  consider (dir) e where "ensure_not_directory fs u (world st) = Err e"
    | (fail) x e where "ensure_not_directory fs u (world st) = Ok x" "res = Err e"
    | (ok) x y where "ensure_not_directory fs u (world st) = Ok x" "res = Ok y"
    by (cases "ensure_not_directory fs u (world st)"; cases res) auto
  then show ?thesis
  proof cases
    case dir
    with assms(3) ex show ?thesis
      by (intro sound_step_refl) (auto simp: apply_delete_def Let_def text_of_def)
  next
    case (fail x e)
    with assms(3) ex rm failed_remove_text [OF assms(1)] show ?thesis
      by (intro sound_step_refl) (auto simp: apply_delete_def Let_def text_of_def)
  next
    case (ok x y)
    with assms(1) rm have tx: "text_of fs w = (text_of fs (world st))(u := None)"
      by (auto simp: fs_laws_def)
    show ?thesis
    proof (cases ?dc)
      case None
      with ok assms(3) rm show ?thesis
        by (intro sound_step_inexact [where cs = "[]"]) (auto simp: apply_delete_def Let_def text_of_def)
    next
      case (Some content)
      show ?thesis
        by (rule sound_step_single [OF assms(2), where u = u and v = None and v0 = "Some content"
              and c = "DeleteChange content"])
           (use ok Some assms(3) rm tx ex in \<open>auto simp: apply_delete_def Let_def text_of_def\<close>)
    qed
  qed
qed

lemma sound_step_move:
  assumes "inj (to_path_buf api)" and "exact (delta st') \<longrightarrow> exact (delta st)"
    and "changes (delta st') = changes (delta st) @
      [\<lparr>change_path = to_path_buf api u, change = UpdateChange (Some (to_path_buf api d)) old ov new\<rparr>]"
    and "text_of fs (world st') = ((text_of fs (world st))(d \<mapsto> new))(u := None)"
    and "exact (delta st') \<Longrightarrow> text_of fs (world st) d = ov"
    and "text_of fs (world st) u = Some old"
  shows "sound_step fs api st st'"
  unfolding sound_step_def
  by (intro exI [of _ "[\<lparr>change_path = to_path_buf api u,
        change = UpdateChange (Some (to_path_buf api d)) old ov new\<rparr>]"])
     (use assms in \<open>auto simp: agrees_def inj_eq\<close>)

lemma apply_move_sound:
  assumes "fs_laws fs" and "inj (to_path_buf api)"
    and orig: "text_of fs (world st) u = Some (original_contents ap)"
    and run: "apply_move fs api a u d ap st = (st', r)"
  shows "sound_step fs api st st'"
proof -
  let ?new = "new_contents ap"
  obtain ov ex where ov: "read_optional_file_text_for_delta fs d (world st) (exact (delta st)) = (ov, ex)"
    by fastforce
  obtain w res where wr: "write_file_with_missing_parent_retry fs api d ?new (world st) = (w, res)"
    by fastforce
  obtain w' res' where rm: "fs_remove fs u no_force w = (w', res')" by fastforce
  note ex = read_optional_exact [of fs d "world st" "exact (delta st)" ov]
  show ?thesis
  proof (cases res)
    case (Inl e)
    with run ov wr show ?thesis
      by (intro sound_step_inexact [where cs = "[]"]) (auto simp: apply_move_def)
  next
    case (Inr _)
    with write_retry_text [OF assms(1)] wr have tx: "text_of fs w = (text_of fs (world st))(d \<mapsto> ?new)"
      by blast
    have kept: "(\<exists>e. res' = Err e) \<longrightarrow> remove_failure_was_side_effect_free fs u (Some (original_contents ap)) w'
        \<longrightarrow> text_of fs w' = text_of fs w"
      using failed_remove_text [OF assms(1)] rm by blast
    consider (written) "text_of fs (world st') = text_of fs w \<or> \<not> exact (delta st')"
        "exact (delta st') \<longrightarrow> ex"
        "changes (delta st') = changes (delta st) @ [\<lparr>change_path = to_path_buf api d, change = AddChange ?new ov\<rparr>]"
      | (moved) "world st' = w'" "res' = Ok ()" "exact (delta st') = ex"
        "changes (delta st') = changes (delta st) @ [\<lparr>change_path = to_path_buf api u,
           change = UpdateChange (Some (to_path_buf api d)) (original_contents ap) ov ?new\<rparr>]"
      using run ov wr rm Inr kept
      by (cases "ensure_not_directory fs u w"; cases res') (auto simp: apply_move_def Let_def)
    then show ?thesis
    proof cases
      case written
      show ?thesis
        by (rule sound_step_single [OF assms(2), where u = d and v = "Some ?new" and v0 = ov
              and c = "AddChange ?new ov"]) (use written tx ov ex in auto)
    next
      case moved
      with assms(1) rm have "text_of fs w' = (text_of fs w)(u := None)" by (auto simp: fs_laws_def)
      with moved tx ov ex orig show ?thesis
        by (intro sound_step_move [OF assms(2), where u = u and d = d and ov = ov]) auto
    qed
  qed
qed

lemma apply_update_sound:
  assumes "fs_laws fs" and "inj (to_path_buf api)"
    and run: "apply_update fs api cwd a u mv chunks st = (st', r)"
  shows "sound_step fs api st st'"
proof -
  let ?st = "set_exact (note_existing_path_delta_support fs u (world st) (exact (delta st))) st"
  let ?derive = "derive_new_contents_from_chunks (native_path_string api)
    (\<lambda>p. read_file_text fs p (world st)) u chunks :: (rstr apply_patch_error, applied_patch) result option"
  have first: "sound_step fs api st ?st"
    by (rule sound_step_refl) (auto dest: note_existing_True)
  consider "st' = ?st"
    | ap where "?derive = Some (Ok ap)" "apply_overwrite fs api a u ap ?st = (st', r)"
    | ap d where "?derive = Some (Ok ap)" "apply_move fs api a u d ap ?st = (st', r)"
    using run
    by (auto simp: apply_update_def Let_def split: option.splits sum.splits)
  then have "sound_step fs api ?st st'"
  proof cases
    case 1
    then show ?thesis by (auto intro: sound_step_refl)
  next
    case (2 ap)
    then have "text_of fs (world ?st) u = Some (original_contents ap)"
      by (auto simp: text_of_def ok_opt_def dest!: derive_reads)
    with 2 show ?thesis by (intro apply_overwrite_sound [OF assms(1,2)])
  next
    case (3 ap d)
    then have "text_of fs (world ?st) u = Some (original_contents ap)"
      by (auto simp: text_of_def ok_opt_def dest!: derive_reads)
    with 3 show ?thesis by (intro apply_move_sound [OF assms(1,2)])
  qed
  with first show ?thesis by (rule sound_step_trans)
qed

lemma apply_hunk_sound:
  assumes "fs_laws fs" and "inj (to_path_buf api)" and "apply_hunk fs api cwd h st = (st', r)"
  shows "sound_step fs api st st'"
proof (cases "resolve_path (uri_join api) cwd h")
  case (Inl e)
  with assms(3) show ?thesis by (auto simp: apply_hunk_def intro: sound_step_refl)
next
  case (Inr u)
  with assms show ?thesis
    by (cases h) (auto simp: apply_hunk_def intro: apply_add_sound apply_delete_sound apply_update_sound)
qed

lemma apply_hunk_loop_sound:
  assumes "fs_laws fs" and "inj (to_path_buf api)" and "apply_hunk_loop fs api cwd hs st = (st', r)"
  shows "sound_step fs api st st'"
  using assms(3)
proof (induction hs arbitrary: st)
  case Nil
  then show ?case by (auto intro: sound_step_refl)
next
  case (Cons h hs)
  obtain st1 r1 where step: "apply_hunk fs api cwd h st = (st1, r1)" by fastforce
  with apply_hunk_sound [OF assms(1,2)] have first: "sound_step fs api st st1" by blast
  show ?case
  proof (cases r1)
    case None
    with step Cons have "sound_step fs api st1 st'" by simp
    with first show ?thesis by (rule sound_step_trans)
  next
    case (Some e)
    with step Cons.prems first show ?thesis by simp
  qed
qed

lemma apply_hunks_to_files_sound:
  assumes "fs_laws fs" and "inj (to_path_buf api)"
    and "apply_hunks_to_files fs api hs cwd w = (st, r)" and "exact (delta st)"
  shows "agrees fs api m w \<Longrightarrow> agrees fs api (replay (changes (delta st)) m) (world st)"
    and "agrees fs api m (world st) \<Longrightarrow> agrees fs api (undo (changes (delta st)) m) w"
proof -
  let ?st = "\<lparr>world = w, delta = empty_delta, affected = \<lparr>added = [], modified = [], deleted = []\<rparr>\<rparr>"
  have "sound_step fs api ?st st"
    using assms(3) apply_hunk_loop_sound [OF assms(1,2)]
    by (auto simp: apply_hunks_to_files_def Let_def split: if_splits intro: sound_step_refl)
  with assms(4) show "agrees fs api m w \<Longrightarrow> agrees fs api (replay (changes (delta st)) m) (world st)"
    and "agrees fs api m (world st) \<Longrightarrow> agrees fs api (undo (changes (delta st)) m) w"
    by (auto simp: sound_step_def empty_delta_def)
qed

subsection \<open>No panic, and every hunk is reported\<close>

definition affected_count :: "affected_paths \<Rightarrow> nat" where
  "affected_count a = length (added a) + length (modified a) + length (deleted a)"

lemma write_retry_no_panic:
  "write_file_with_missing_parent_retry fs api u c w \<noteq> (w', Err Panicked)"
  by (auto simp: write_file_with_missing_parent_retry_def split: prod.splits sum.splits option.splits)

lemma apply_add_no_panic: "apply_add fs api a u c st \<noteq> (st', Some Panicked)"
  using write_retry_no_panic [of fs api u c "world st"]
  by (auto simp: apply_add_def Let_def split: prod.splits sum.splits)

lemma apply_delete_no_panic: "apply_delete fs api a u st \<noteq> (st', Some Panicked)"
  by (auto simp: apply_delete_def Let_def split: prod.splits sum.splits)

lemma apply_move_no_panic: "apply_move fs api a u d ap st \<noteq> (st', Some Panicked)"
  using write_retry_no_panic [of fs api d "new_contents ap" "world st"]
  by (auto simp: apply_move_def Let_def split: prod.splits sum.splits)

lemma apply_overwrite_no_panic: "apply_overwrite fs api a u ap st \<noteq> (st', Some Panicked)"
  by (auto simp: apply_overwrite_def Let_def split: prod.splits sum.splits)

lemma apply_update_no_panic: "apply_update fs api cwd a u mv chunks st \<noteq> (st', Some Panicked)"
  by (auto simp: apply_update_def Let_def derive_no_panic apply_move_no_panic apply_overwrite_no_panic
      split: sum.splits option.splits)

lemma apply_hunk_no_panic: "apply_hunk fs api cwd h st \<noteq> (st', Some Panicked)"
  by (auto simp: apply_hunk_def apply_add_no_panic apply_delete_no_panic apply_update_no_panic
      split: sum.splits hunk.splits)

lemma apply_hunk_loop_no_panic: "apply_hunk_loop fs api cwd hs st \<noteq> (st', Some Panicked)"
  by (induction hs arbitrary: st) (auto simp: apply_hunk_no_panic split: prod.splits option.splits)

lemma snd_apply_hunk_loop_no_panic: "snd (apply_hunk_loop fs api cwd hs st) \<noteq> Some Panicked"
  by (cases "apply_hunk_loop fs api cwd hs st") (auto dest: apply_hunk_loop_no_panic [THEN notE])

lemma apply_hunk_affected:
  assumes "apply_hunk fs api cwd h st = (st', None)"
  shows "affected_count (affected st') = Suc (affected_count (affected st))"
  using assms
  by (auto simp: apply_hunk_def apply_add_def apply_delete_def apply_update_def apply_move_def
      apply_overwrite_def Let_def affected_count_def
      split: sum.splits hunk.splits option.splits prod.splits)

lemma apply_hunk_loop_affected:
  assumes "apply_hunk_loop fs api cwd hs st = (st', None)"
  shows "affected_count (affected st') = length hs + affected_count (affected st)"
  using assms
  by (induction hs arbitrary: st) (auto split: prod.splits option.splits dest!: apply_hunk_affected)

subsection \<open>Renaming a file onto itself\<close>

lemma apply_move_self:
  assumes "fs_laws fs" and "apply_move fs api a u u ap st = (st', None)"
  shows "text_of fs (world st') u = None"
  using assms
  by (auto simp: apply_move_def Let_def fs_laws_def split: prod.splits sum.splits)

section \<open>A file system kept in memory\<close>

text \<open>An instance of the interfaces that satisfies the laws: a map from paths to texts.\<close>

definition mem_fs :: "(rstr, rstr \<Rightarrow> rstr option) executor_file_system" where
  "mem_fs =
     \<lparr>read_file_text = (\<lambda>p w. case w p of
         Some c \<Rightarrow> Ok c | None \<Rightarrow> Err \<lparr>kind = NotFound, io_text = ''not found''\<rparr>),
      write_file = (\<lambda>p c w. (w(p \<mapsto> c), Ok ())),
      create_directory = (\<lambda>p opts w. (w, Ok ())),
      get_metadata = (\<lambda>p w. case w p of
         Some c \<Rightarrow> Ok \<lparr>is_directory = False, is_file = True, is_symlink = False\<rparr>
       | None \<Rightarrow> Err \<lparr>kind = NotFound, io_text = ''not found''\<rparr>),
      fs_remove = (\<lambda>p opts w. case w p of
         Some c \<Rightarrow> (w(p := None), Ok ())
       | None \<Rightarrow> (w, Err \<lparr>kind = NotFound, io_text = ''not found''\<rparr>))\<rparr>"

definition mem_api :: "(rstr, unit, rstr) path_api" where
  "mem_api =
     \<lparr>uri_join = (\<lambda>cwd p. Ok (cwd @ ''/'' @ p)), uri_parent = (\<lambda>_. None), to_path_buf = id,
      native_path_string = id, show_path_error = (\<lambda>_. [])\<rparr>"

lemma text_of_mem: "text_of mem_fs w = w"
  by (rule ext) (simp add: text_of_def mem_fs_def ok_opt_def split: option.splits)

lemma mem_fs_laws: "fs_laws mem_fs"
  unfolding fs_laws_def text_of_mem
  by (auto simp: mem_fs_def split: option.splits)

lemma mem_api_inj: "inj (to_path_buf mem_api)"
  by (simp add: mem_api_def)

end
