(* ===== verification/Patch_Verify.thy ===== *)
theory Patch_Verify
  imports Patch_Fs "HOL-Library.AList"
begin

text \<open>
  Recognising a patch in a command (\<open>apply-patch/src/invocation.rs\<close>) and the action it stands for
  (\<open>ApplyPatchAction\<close> of \<open>lib.rs\<close>), which the safety check and the approval look at. Arguments: the tree-sitter
  query that finds a here-document (\<open>extract_apply_patch_from_bash\<close>), the diff of two texts, and, as in
  \<open>Patch_Fs\<close>, the file system and the operations of \<open>PathUri\<close>. The map from paths to changes is an association
  list without duplicate keys.
\<close>

section \<open>Shells\<close>

datatype path_convention = Posix | WindowsPaths

definition path_segments :: "path_convention \<Rightarrow> rstr \<Rightarrow> rstr list" where
  "path_segments conv path =
     split_on (CHR ''/'') (case conv of
       Posix \<Rightarrow> path | WindowsPaths \<Rightarrow> map (\<lambda>c. if c = CHR 0x5C then CHR ''/'' else c) path)"

datatype apply_patch_shell = UnixShell | PowerShell | Cmd

text \<open>\<open>rsplit_once('.')\<close>\<close>

definition rsplit_dot :: "rstr \<Rightarrow> rstr option" where
  "rsplit_dot s =
     (case dropWhile (\<lambda>c. c \<noteq> CHR ''.'') (rev s) of [] \<Rightarrow> None | _ # r \<Rightarrow> Some (rev r))"

definition classify_shell_name :: "rstr \<Rightarrow> path_convention \<Rightarrow> rstr" where
  "classify_shell_name shell conv =
     (let basename = last (path_segments conv shell)
      in to_ascii_lowercase (case rsplit_dot basename of
           Some stem \<Rightarrow> if stem \<noteq> [] then stem else basename | None \<Rightarrow> basename))"

definition classify_shell :: "rstr \<Rightarrow> rstr \<Rightarrow> path_convention \<Rightarrow> apply_patch_shell option" where
  "classify_shell shell flag conv =
     (let name = classify_shell_name shell conv
      in if name \<in> {''bash'', ''zsh'', ''sh''} \<and> flag \<in> {''-lc'', ''-c''} then Some UnixShell
         else if name \<in> {''pwsh'', ''powershell''} \<and> eq_ignore_ascii_case flag ''-command'' then Some PowerShell
         else if name = ''cmd'' \<and> eq_ignore_ascii_case flag ''/c'' then Some Cmd
         else None)"

definition can_skip_flag :: "rstr \<Rightarrow> rstr \<Rightarrow> path_convention \<Rightarrow> bool" where
  "can_skip_flag shell flag conv =
     (classify_shell_name shell conv \<in> {''pwsh'', ''powershell''} \<and> eq_ignore_ascii_case flag ''-noprofile'')"

definition parse_shell_script ::
    "('uri \<Rightarrow> path_convention option) \<Rightarrow> rstr list \<Rightarrow> 'uri \<Rightarrow> (apply_patch_shell \<times> rstr) option" where
  "parse_shell_script convention argv cwd =
     Option.bind (convention cwd) (\<lambda>conv.
       case argv of
         [shell, flag, script] \<Rightarrow> map_option (\<lambda>t. (t, script)) (classify_shell shell flag conv)
       | [shell, skip_flag, flag, script] \<Rightarrow>
           if \<not> can_skip_flag shell skip_flag conv then None
           else map_option (\<lambda>t. (t, script)) (classify_shell shell flag conv)
       | _ \<Rightarrow> None)"

section \<open>Recognising a patch\<close>

datatype extract_heredoc_error =
    CommandDidNotStartWithApplyPatch
  | FailedToLoadBashGrammar rstr
  | HeredocNotUtf8 rstr
  | FailedToParsePatchIntoAst
  | FailedToFindHeredocBody

type_synonym extractor = "rstr \<Rightarrow> (extract_heredoc_error, rstr \<times> rstr option) result"

datatype maybe_apply_patch =
    PatchBody apply_patch_args
  | PatchShellError extract_heredoc_error
  | PatchSyntaxError parse_error
  | NotApplyPatch

definition APPLY_PATCH_COMMANDS :: "rstr list" where
  "APPLY_PATCH_COMMANDS = [''apply_patch'', ''applypatch'']"

definition extract_apply_patch_from_shell ::
    "extractor \<Rightarrow> apply_patch_shell \<Rightarrow> rstr \<Rightarrow> (extract_heredoc_error, rstr \<times> rstr option) result" where
  "extract_apply_patch_from_shell extract shell script =
     (case shell of UnixShell \<Rightarrow> extract script | PowerShell \<Rightarrow> extract script | Cmd \<Rightarrow> extract script)"

definition shell_patch :: "extractor \<Rightarrow> ('uri \<Rightarrow> path_convention option) \<Rightarrow> rstr list \<Rightarrow> 'uri \<Rightarrow> maybe_apply_patch" where
  "shell_patch extract convention argv cwd =
     (case parse_shell_script convention argv cwd of
        Some (shell, script) \<Rightarrow>
          (case extract_apply_patch_from_shell extract shell script of
             Ok (body, dir) \<Rightarrow>
               (case parse_patch body of
                  Ok source \<Rightarrow> PatchBody (source\<lparr>workdir := dir\<rparr>)
                | Err e \<Rightarrow> PatchSyntaxError e)
           | Err e \<Rightarrow> if e = CommandDidNotStartWithApplyPatch then NotApplyPatch else PatchShellError e)
      | None \<Rightarrow> NotApplyPatch)"

definition maybe_parse_apply_patch ::
    "extractor \<Rightarrow> ('uri \<Rightarrow> path_convention option) \<Rightarrow> rstr list \<Rightarrow> 'uri \<Rightarrow> maybe_apply_patch" where
  "maybe_parse_apply_patch extract convention argv cwd =
     (case argv of
        [cmd, body] \<Rightarrow>
          if cmd \<in> set APPLY_PATCH_COMMANDS
          then (case parse_patch body of Ok source \<Rightarrow> PatchBody source | Err e \<Rightarrow> PatchSyntaxError e)
          else shell_patch extract convention argv cwd
      | _ \<Rightarrow> shell_patch extract convention argv cwd)"

section \<open>The action\<close>

datatype 'uri apply_patch_file_change =
    AddFileChange rstr
  | DeleteFileChange rstr
  | UpdateFileChange rstr "'uri option" rstr

record 'uri apply_patch_action =
  action_changes :: "('uri \<times> 'uri apply_patch_file_change) list"
  action_patch :: rstr
  action_cwd :: 'uri

definition action_is_empty :: "'uri apply_patch_action \<Rightarrow> bool" where
  "action_is_empty a = (action_changes a = [])"

datatype ('uri, 'pe) maybe_apply_patch_verified =
    VerifiedBody "'uri apply_patch_action"
  | VerifiedShellError extract_heredoc_error
  | CorrectnessError "'pe apply_patch_error"
  | VerifiedNotApplyPatch
  | VerifyPanicked

record apply_patch_file_update =
  unified_diff :: rstr
  update_original_content :: rstr
  update_content :: rstr

definition unified_diff_from_chunks ::
    "(rstr \<Rightarrow> rstr \<Rightarrow> rstr) \<Rightarrow> ('uri, 'w) executor_file_system \<Rightarrow> ('uri, 'pe, 'path) path_api \<Rightarrow> 'w \<Rightarrow> 'uri
      \<Rightarrow> update_file_chunk list \<Rightarrow> ('pe apply_patch_error, apply_patch_file_update) result option" where
  "unified_diff_from_chunks diff fs api w path chunks =
     map_option (\<lambda>r. case r of
         Ok ap \<Rightarrow> Ok \<lparr>unified_diff = diff (original_contents ap) (new_contents ap),
                      update_original_content = original_contents ap, update_content = new_contents ap\<rparr>
       | Err e \<Rightarrow> Err e)
       (derive_new_contents_from_chunks (native_path_string api) (\<lambda>p. read_file_text fs p w) path chunks)"

text \<open>One round of the loop over the hunks; \<open>None\<close> is a panic.\<close>

definition verify_hunk ::
    "(rstr \<Rightarrow> rstr \<Rightarrow> rstr) \<Rightarrow> ('uri, 'w) executor_file_system \<Rightarrow> ('uri, 'pe, 'path) path_api \<Rightarrow> 'w \<Rightarrow> 'uri \<Rightarrow> hunk
      \<Rightarrow> ('pe apply_patch_error, 'uri \<times> 'uri apply_patch_file_change) result option" where
  "verify_hunk diff fs api w cwd h =
     (case resolve_path (uri_join api) cwd h of
        Err e \<Rightarrow> Some (Err (PathUriError e))
      | Ok path \<Rightarrow>
          (case h of
             AddFile _ contents \<Rightarrow> Some (Ok (path, AddFileChange contents))
           | DeleteFile _ \<Rightarrow>
               Some (case read_file_text fs path w of
                  Err source \<Rightarrow> Err (IoError (''Failed to read '' @ native_path_string api path) source)
                | Ok content \<Rightarrow> Ok (path, DeleteFileChange content))
           | UpdateFile _ move_path chunks \<Rightarrow>
               (case unified_diff_from_chunks diff fs api w path chunks of
                  None \<Rightarrow> None
                | Some (Err e) \<Rightarrow> Some (Err e)
                | Some (Ok u) \<Rightarrow>
                    Some (case move_path of
                       None \<Rightarrow> Ok (path, UpdateFileChange (unified_diff u) None (update_content u))
                     | Some m \<Rightarrow>
                         (case uri_join api cwd m of
                            Err e \<Rightarrow> Err (PathUriError e)
                          | Ok dest \<Rightarrow> Ok (path, UpdateFileChange (unified_diff u) (Some dest) (update_content u)))))))"

fun verify_hunks ::
    "(rstr \<Rightarrow> rstr \<Rightarrow> rstr) \<Rightarrow> ('uri, 'w) executor_file_system \<Rightarrow> ('uri, 'pe, 'path) path_api \<Rightarrow> 'w \<Rightarrow> 'uri \<Rightarrow> hunk list
      \<Rightarrow> ('uri \<times> 'uri apply_patch_file_change) list
      \<Rightarrow> ('pe apply_patch_error, ('uri \<times> 'uri apply_patch_file_change) list) result option" where
  "verify_hunks diff fs api w cwd [] cs = Some (Ok cs)"
| "verify_hunks diff fs api w cwd (h # hs) cs =
     (case verify_hunk diff fs api w cwd h of
        None \<Rightarrow> None
      | Some (Err e) \<Rightarrow> Some (Err e)
      | Some (Ok (path, c)) \<Rightarrow> verify_hunks diff fs api w cwd hs (AList.update path c cs))"

definition try_verify_apply_patch_args ::
    "(rstr \<Rightarrow> rstr \<Rightarrow> rstr) \<Rightarrow> ('uri, 'w) executor_file_system \<Rightarrow> ('uri, 'pe, 'path) path_api \<Rightarrow> 'w
      \<Rightarrow> apply_patch_args \<Rightarrow> 'uri \<Rightarrow> ('pe apply_patch_error, 'uri apply_patch_action) result option" where
  "try_verify_apply_patch_args diff fs api w args cwd =
     (case (case workdir args of None \<Rightarrow> Ok cwd | Some dir \<Rightarrow> uri_join api cwd dir) of
        Err e \<Rightarrow> Some (Err (PathUriError e))
      | Ok effective_cwd \<Rightarrow>
          map_option (\<lambda>r. case r of
              Err e \<Rightarrow> Err e
            | Ok cs \<Rightarrow> Ok \<lparr>action_changes = cs, action_patch = patch args, action_cwd = effective_cwd\<rparr>)
            (verify_hunks diff fs api w effective_cwd (args_hunks args) []))"

definition verify_apply_patch_args ::
    "(rstr \<Rightarrow> rstr \<Rightarrow> rstr) \<Rightarrow> ('uri, 'w) executor_file_system \<Rightarrow> ('uri, 'pe, 'path) path_api \<Rightarrow> 'w
      \<Rightarrow> apply_patch_args \<Rightarrow> 'uri \<Rightarrow> ('uri, 'pe) maybe_apply_patch_verified" where
  "verify_apply_patch_args diff fs api w args cwd =
     (case try_verify_apply_patch_args diff fs api w args cwd of
        None \<Rightarrow> VerifyPanicked
      | Some (Ok action) \<Rightarrow> VerifiedBody action
      | Some (Err e) \<Rightarrow> CorrectnessError e)"

definition is_patch_text :: "rstr \<Rightarrow> bool" where
  "is_patch_text s = (case parse_patch s of Ok _ \<Rightarrow> True | Err _ \<Rightarrow> False)"

definition maybe_parse_apply_patch_verified ::
    "extractor \<Rightarrow> ('uri \<Rightarrow> path_convention option) \<Rightarrow> (rstr \<Rightarrow> rstr \<Rightarrow> rstr) \<Rightarrow> ('uri, 'w) executor_file_system
      \<Rightarrow> ('uri, 'pe, 'path) path_api \<Rightarrow> 'w \<Rightarrow> rstr list \<Rightarrow> 'uri \<Rightarrow> ('uri, 'pe) maybe_apply_patch_verified" where
  "maybe_parse_apply_patch_verified extract convention diff fs api w argv cwd =
     (if (case argv of [body] \<Rightarrow> is_patch_text body | _ \<Rightarrow> False) then CorrectnessError ImplicitInvocation
      else if (case parse_shell_script convention argv cwd of Some (_, script) \<Rightarrow> is_patch_text script | None \<Rightarrow> False)
      then CorrectnessError ImplicitInvocation
      else case maybe_parse_apply_patch extract convention argv cwd of
             PatchBody args \<Rightarrow> verify_apply_patch_args diff fs api w args cwd
           | PatchShellError e \<Rightarrow> VerifiedShellError e
           | PatchSyntaxError e \<Rightarrow> CorrectnessError (PatchParseError e)
           | NotApplyPatch \<Rightarrow> VerifiedNotApplyPatch)"

section \<open>What the action covers\<close>

text \<open>The paths a hunk writes or removes, and those a change of the action names.\<close>

definition hunk_targets :: "('uri \<Rightarrow> rstr \<Rightarrow> ('pe, 'uri) result) \<Rightarrow> 'uri \<Rightarrow> hunk \<Rightarrow> 'uri set" where
  "hunk_targets join cwd h =
     {u. resolve_path join cwd h = Ok u} \<union>
     (case h of UpdateFile _ (Some m) _ \<Rightarrow> {u. join cwd m = Ok u} | _ \<Rightarrow> {})"

definition change_targets :: "'uri \<times> 'uri apply_patch_file_change \<Rightarrow> 'uri set" where
  "change_targets uc = insert (fst uc) (case snd uc of UpdateFileChange _ (Some d) _ \<Rightarrow> {d} | _ \<Rightarrow> {})"

definition hunk_paths :: "('uri \<Rightarrow> rstr \<Rightarrow> ('pe, 'uri) result) \<Rightarrow> 'uri \<Rightarrow> hunk list \<Rightarrow> 'uri option list" where
  "hunk_paths join cwd hs = map (\<lambda>h. ok_opt (resolve_path join cwd h)) hs"

lemma verify_hunk_targets:
  assumes "verify_hunk diff fs api w cwd h = Some (Ok (u, c))"
  shows "resolve_path (uri_join api) cwd h = Ok u" and "change_targets (u, c) = hunk_targets (uri_join api) cwd h"
proof -
  obtain p where p: "resolve_path (uri_join api) cwd h = Ok p"
    using assms by (cases "resolve_path (uri_join api) cwd h") (auto simp: verify_hunk_def)
  show "resolve_path (uri_join api) cwd h = Ok u" and "change_targets (u, c) = hunk_targets (uri_join api) cwd h"
    using assms p
    by (auto simp: verify_hunk_def change_targets_def hunk_targets_def unified_diff_from_chunks_def
        split: hunk.splits sum.splits option.splits)
qed

lemma verify_hunks_keys:
  "verify_hunks diff fs api w cwd hs cs = Some (Ok cs') \<Longrightarrow>
   fst ` set cs' = fst ` set cs \<union> {u. Some u \<in> set (hunk_paths (uri_join api) cwd hs)}"
proof (induction hs arbitrary: cs)
  case (Cons h hs)
  obtain u c where uc: "verify_hunk diff fs api w cwd h = Some (Ok (u, c))"
    and rest: "verify_hunks diff fs api w cwd hs (AList.update u c cs) = Some (Ok cs')"
    using Cons.prems by (auto split: option.splits sum.splits)
  have "fst ` set (AList.update u c cs) = insert u (fst ` set cs)" by (simp add: dom_update)
  then show ?case
    using Cons.IH [OF rest] verify_hunk_targets(1) [OF uc] by (auto simp: hunk_paths_def ok_opt_def)
qed (simp add: hunk_paths_def)

lemma verify_hunks_targets:
  assumes "verify_hunks diff fs api w cwd hs cs = Some (Ok cs')" and "distinct (hunk_paths (uri_join api) cwd hs)"
    and "\<And>u. u \<in> fst ` set cs \<Longrightarrow> Some u \<notin> set (hunk_paths (uri_join api) cwd hs)"
  shows "\<Union> (change_targets ` set cs') = \<Union> (change_targets ` set cs) \<union> \<Union> (hunk_targets (uri_join api) cwd ` set hs)"
  using assms
proof (induction hs arbitrary: cs)
  case (Cons h hs)
  obtain u c where uc: "verify_hunk diff fs api w cwd h = Some (Ok (u, c))"
    and rest: "verify_hunks diff fs api w cwd hs (AList.update u c cs) = Some (Ok cs')"
    using Cons.prems(1) by (auto split: option.splits sum.splits)
  note targets = verify_hunk_targets [OF uc]
  have fresh: "u \<notin> fst ` set cs" using Cons.prems(3) targets(1) by (fastforce simp: hunk_paths_def ok_opt_def)
  then have upd: "AList.update u c cs = cs @ [(u, c)]" by (induction cs) auto
  have "\<Union> (change_targets ` set cs') = \<Union> (change_targets ` set (cs @ [(u, c)])) \<union>
      \<Union> (hunk_targets (uri_join api) cwd ` set hs)"
    using Cons.prems(2,3) targets(1)
    by (intro Cons.IH) (auto simp: rest [unfolded upd] hunk_paths_def ok_opt_def)
  then show ?case using targets(2) by auto
qed simp

section \<open>What applying can change\<close>

text \<open>What is relied on of the file system: a call, whether it fails or not, changes the text of its own path
  only, and creating directories changes no text.\<close>

definition fs_confined :: "('uri, 'w) executor_file_system \<Rightarrow> bool" where
  "fs_confined fs \<longleftrightarrow>
     (\<forall>p c w u. u \<noteq> p \<longrightarrow> text_of fs (fst (write_file fs p c w)) u = text_of fs w u) \<and>
     (\<forall>p opts w. text_of fs (fst (create_directory fs p opts w)) = text_of fs w) \<and>
     (\<forall>p opts w u. u \<noteq> p \<longrightarrow> text_of fs (fst (fs_remove fs p opts w)) u = text_of fs w u)"

lemma confined_write: "fs_confined fs \<Longrightarrow> write_file fs p c w = (w', r) \<Longrightarrow> u \<noteq> p \<Longrightarrow> text_of fs w' u = text_of fs w u"
  unfolding fs_confined_def by (metis fst_conv)

lemma confined_create: "fs_confined fs \<Longrightarrow> create_directory fs p opts w = (w', r) \<Longrightarrow> text_of fs w' u = text_of fs w u"
  unfolding fs_confined_def by (metis fst_conv)

lemma confined_remove: "fs_confined fs \<Longrightarrow> fs_remove fs p opts w = (w', r) \<Longrightarrow> u \<noteq> p \<Longrightarrow> text_of fs w' u = text_of fs w u"
  unfolding fs_confined_def by (metis fst_conv)

lemmas confined = confined_write confined_create confined_remove

lemma confined_retry:
  assumes "fs_confined fs" and "write_file_with_missing_parent_retry fs api p c w = (w', r)" and "u \<noteq> p"
  shows "text_of fs w' u = text_of fs w u"
  using assms confined [OF assms(1)]
  by (auto simp: write_file_with_missing_parent_retry_def split: prod.splits sum.splits if_splits option.splits)

lemma confined_add: "fs_confined fs \<Longrightarrow> u \<noteq> p \<Longrightarrow> text_of fs (world (fst (apply_add fs api a p c st))) u = text_of fs (world st) u"
  using confined_retry [of fs api p c "world st"]
  by (auto simp: apply_add_def Let_def split: prod.splits sum.splits)

lemma confined_delete: "fs_confined fs \<Longrightarrow> u \<noteq> p \<Longrightarrow> text_of fs (world (fst (apply_delete fs api a p st))) u = text_of fs (world st) u"
  using confined_remove [of fs p no_force "world st"]
  by (auto simp: apply_delete_def Let_def split: prod.splits sum.splits option.splits)

lemma confined_overwrite: "fs_confined fs \<Longrightarrow> u \<noteq> p \<Longrightarrow> text_of fs (world (fst (apply_overwrite fs api a p ap st))) u = text_of fs (world st) u"
  using confined_write [of fs p "new_contents ap" "world st"]
  by (auto simp: apply_overwrite_def Let_def split: prod.splits sum.splits)

lemma confined_move:
  assumes "fs_confined fs" and "u \<noteq> p" and "u \<noteq> d"
  shows "text_of fs (world (fst (apply_move fs api a p d ap st))) u = text_of fs (world st) u"
  using confined_retry [OF assms(1), of api d "new_contents ap" "world st"] confined_remove [OF assms(1)] assms(2,3)
  by (auto simp: apply_move_def Let_def split: prod.splits sum.splits)

lemma confined_hunk:
  assumes "fs_confined fs" and "u \<notin> hunk_targets (uri_join api) cwd h"
  shows "text_of fs (world (fst (apply_hunk fs api cwd h st))) u = text_of fs (world st) u"
proof (cases "resolve_path (uri_join api) cwd h")
  case (Inr p)
  then have p: "u \<noteq> p" using assms(2) by (auto simp: hunk_targets_def)
  show ?thesis
  proof (cases h)
    case (UpdateFile path m chunks)
    show ?thesis
    proof (cases m)
      case None
      then show ?thesis
        using Inr UpdateFile
        by (auto simp: apply_hunk_def apply_update_def Let_def confined_overwrite [OF assms(1) p] split: option.splits sum.splits)
    next
      case (Some dest)
      have "u \<noteq> d" if "uri_join api cwd dest = Ok d" for d
        using assms(2) that UpdateFile Some by (auto simp: hunk_targets_def)
      then show ?thesis
        using Inr UpdateFile Some
        by (auto simp: apply_hunk_def apply_update_def Let_def confined_move [OF assms(1) p] split: option.splits sum.splits)
    qed
  qed (use Inr in \<open>simp_all add: apply_hunk_def confined_add [OF assms(1) p] confined_delete [OF assms(1) p]\<close>)
qed (simp add: apply_hunk_def)

lemma confined_loop:
  assumes "fs_confined fs" and "u \<notin> \<Union> (hunk_targets (uri_join api) cwd ` set hs)"
  shows "text_of fs (world (fst (apply_hunk_loop fs api cwd hs st))) u = text_of fs (world st) u"
  using assms(2)
proof (induction hs arbitrary: st)
  case (Cons h hs)
  have "text_of fs (world (fst (apply_hunk fs api cwd h st))) u = text_of fs (world st) u"
    by (rule confined_hunk [OF assms(1)]) (use Cons.prems in simp)
  then show ?case using Cons by (auto split: prod.splits option.splits)
qed simp

lemma confined_apply:
  assumes "fs_confined fs" and "u \<notin> \<Union> (hunk_targets (uri_join api) cwd ` set hs)"
  shows "text_of fs (world (fst (apply_hunks_to_files fs api hs cwd w))) u = text_of fs w u"
  by (simp add: apply_hunks_to_files_def Let_def confined_loop [OF assms])

end
