(* ===== verification/Host_Path.thy ===== *)
theory Host_Path
  imports Absolute_Path "HOL-Library.Sublist" "HOL-Library.List_Lexorder" "HOL-Library.Char_ord"
begin

text \<open>
  Paths as the callers of \<open>utils/absolute-path\<close> pass them around: \<open>&Path\<close> values, which are lists of
  components here, the conversions of the crate on them, and canonicalisation through the file system
  (\<open>canonicalize_preserving_symlinks\<close>). What the operating system answers is the record \<open>host\<close>.
\<close>

section \<open>The host\<close>

text \<open>\<open>link_status\<close> is \<open>symlink_metadata\<close>: an error, or whether the path is a symbolic link.\<close>

record host =
  host_env :: path_env
  tmpdir_var :: "rstr option"
  is_dir :: "rpath \<Rightarrow> bool"
  is_file :: "rpath \<Rightarrow> bool"
  path_exists :: "rpath \<Rightarrow> bool"
  read_text :: "rpath \<Rightarrow> rstr option"
  link_status :: "rpath \<Rightarrow> bool option"
  real_path :: "rpath \<Rightarrow> rpath option"

section \<open>Operations on paths\<close>

text \<open>The order of components, and with it that of paths: the root, \<open>.\<close>, \<open>..\<close>, then the names.\<close>

fun component_rank :: "component \<Rightarrow> nat" where
  "component_rank RootDir = 0" | "component_rank CurDir = 1" | "component_rank ParentDir = 2"
| "component_rank (NormalC _) = 3"

fun component_name :: "component \<Rightarrow> rstr" where
  "component_name (NormalC n) = n" | "component_name _ = []"

instantiation component :: linorder
begin

definition less_eq_component :: "component \<Rightarrow> component \<Rightarrow> bool" where
  "less_eq_component c d \<longleftrightarrow>
     component_rank c < component_rank d \<or> (component_rank c = component_rank d \<and> component_name c \<le> component_name d)"

definition less_component :: "component \<Rightarrow> component \<Rightarrow> bool" where
  "less_component c d \<longleftrightarrow> c \<le> d \<and> \<not> d \<le> c"

instance
proof
  fix c d :: component
  assume "c \<le> d" and "d \<le> c"
  then show "c = d" by (cases c; cases d) (auto simp: less_eq_component_def)
qed (auto simp: less_eq_component_def less_component_def)

end

definition path_starts_with :: "rpath \<Rightarrow> rpath \<Rightarrow> bool" where
  "path_starts_with p base = prefix base p"

definition path_strip_prefix :: "rpath \<Rightarrow> rpath \<Rightarrow> rpath option" where
  "path_strip_prefix p base = (if prefix base p then Some (drop (length base) p) else None)"

text \<open>\<open>Path::ancestors\<close>: the path, its parent and so on.\<close>

definition path_ancestors :: "rpath \<Rightarrow> rpath list" where
  "path_ancestors p = map (\<lambda>k. take k p) (rev [(if is_absolute p then 1 else 0)..<Suc (length p)])"

section \<open>The crate on paths\<close>

definition expand_home :: "path_env \<Rightarrow> rpath \<Rightarrow> rpath" where
  "expand_home env p =
     (case (home_dir env, p) of
        (Some home, NormalC n # rest) \<Rightarrow> if n = ''~'' then path_join home rest else p
      | _ \<Rightarrow> p)"

definition resolve_against :: "path_env \<Rightarrow> rpath \<Rightarrow> rpath \<Rightarrow> rpath" where
  "resolve_against env p base = absolutize_from (expand_home env p) base"

definition absolute_of :: "path_env \<Rightarrow> rpath \<Rightarrow> rpath option" where
  "absolute_of env p = absolutize env (expand_home env p)"

definition should_preserve_logical_path :: "host \<Rightarrow> rpath \<Rightarrow> bool" where
  "should_preserve_logical_path h logical =
     list_ex (\<lambda>a. link_status h a = Some True \<and> Option.bind (path_parent a) path_parent \<noteq> None)
       (path_ancestors logical)"

definition canonicalize_preserving_symlinks :: "host \<Rightarrow> rpath \<Rightarrow> rpath option" where
  "canonicalize_preserving_symlinks h p =
     map_option (\<lambda>logical.
         case real_path h p of
           Some canonical \<Rightarrow>
             if should_preserve_logical_path h logical \<and> canonical \<noteq> logical then logical else canonical
         | None \<Rightarrow> logical)
       (absolute_of (host_env h) p)"

definition canonicalize_existing_preserving_symlinks :: "host \<Rightarrow> rpath \<Rightarrow> rpath option" where
  "canonicalize_existing_preserving_symlinks h p =
     Option.bind (absolute_of (host_env h) p) (\<lambda>logical.
       map_option (\<lambda>canonical.
           if should_preserve_logical_path h logical \<and> canonical \<noteq> logical then logical else canonical)
         (real_path h p))"

section \<open>Facts\<close>

text \<open>On texts the crate does the same: \<open>~\<close> is a component of its own.\<close>

definition part_components :: "rstr list \<Rightarrow> rpath" where
  "part_components parts = map to_component (filter (\<lambda>p. p \<noteq> [] \<and> p \<noteq> ''.'') parts)"

lemma components_parts:
  "components s = (if starts_with s [SLASH] then [RootDir] else if hd (split_on SLASH s) = ''.'' then [CurDir] else [])
     @ part_components (split_on SLASH s)"
  by (simp add: components_def part_components_def Let_def)

lemma part_components_drop_slashes:
  "part_components (split_on SLASH (dropWhile (\<lambda>c. c = SLASH) s)) = part_components (split_on SLASH s)"
  by (induction s) (auto simp: part_components_def)

lemma drop_slashes_relative: "\<not> starts_with (dropWhile (\<lambda>c. c = SLASH) s) [SLASH]"
  by (induction s) (auto simp: starts_with_def)

lemma part_components_normal:
  "c \<in> set (part_components ps) \<Longrightarrow> c \<noteq> RootDir \<and> c \<noteq> CurDir"
  by (auto simp: part_components_def to_component_def split: if_splits)

lemma join_parts: "home \<noteq> [] \<Longrightarrow> path_join home (part_components ps) = home @ part_components ps"
  using part_components_normal [of "hd (part_components ps)" ps]
  by (cases "part_components ps") (auto simp: path_join_def is_absolute_def split: component.splits)

lemma join_relative:
  assumes "home \<noteq> []"
  shows "path_join home (components (dropWhile (\<lambda>c. c = SLASH) s)) = home @ part_components (split_on SLASH s)"
proof -
  let ?t = "dropWhile (\<lambda>c. c = SLASH) s"
  consider "components ?t = part_components (split_on SLASH s)"
    | "components ?t = CurDir # part_components (split_on SLASH s)"
    using drop_slashes_relative [of s]
    by (cases "hd (split_on SLASH ?t) = ''.''") (simp_all add: components_parts part_components_drop_slashes)
  then show ?thesis
    using assms join_parts by cases (simp_all add: path_join_def is_absolute_def)
qed

lemma components_tilde:
  "components (CHR ''~'' # SLASH # s) = NormalC ''~'' # part_components (split_on SLASH s)"
  using split_on_append [of SLASH "''~''" s]
  by (simp add: components_parts part_components_def to_component_def starts_with_def)

lemma components_not_tilde:
  assumes "components s = NormalC n # rest" and "n = ''~''"
  shows "s = ''~'' \<or> (\<exists>r. s = CHR ''~'' # SLASH # r)"
proof -
  obtain p ps where split: "split_on SLASH s = p # ps" by (cases "split_on SLASH s") auto
  have s: "s = join_with [SLASH] (p # ps)" using join_split_on [of SLASH s] split by simp
  have rel: "\<not> starts_with s [SLASH]" "p \<noteq> ''.''"
    using assms(1) split by (auto simp: components_parts split: if_splits)
  show ?thesis
  proof (cases "p = []")
    case True
    then have "s = [] \<or> starts_with s [SLASH]" using s by (cases ps) (auto simp: starts_with_def)
    then show ?thesis using assms(1) rel by (auto simp: components_parts part_components_def)
  next
    case False
    then have "p = ''~''"
      using assms rel split by (auto simp: components_parts part_components_def to_component_def split: if_splits)
    then show ?thesis using s by (cases ps) auto
  qed
qed

lemma expand_home_components:
  assumes "\<And>home. home_dir env = Some home \<Longrightarrow> home \<noteq> []"
  shows "maybe_expand_home_directory env s = expand_home env (components s)"
proof (cases "home_dir env")
  case (Some home)
  then have ne: "home \<noteq> []" using assms by blast
  consider "s = ''~''" | r where "s = CHR ''~'' # SLASH # r"
    | "\<nexists>r. s = CHR ''~'' # SLASH # r" "s \<noteq> ''~''" by blast
  then show ?thesis
  proof cases
    case 1
    moreover have "components ''~'' = [NormalC ''~'']" by code_simp
    ultimately show ?thesis
      using Some ne by (simp add: maybe_expand_home_directory_def expand_home_def path_join_def is_absolute_def)
  next
    case (2 r)
    then show ?thesis
      using Some join_relative [OF ne] join_parts [OF ne]
      by (simp add: maybe_expand_home_directory_def expand_home_def components_tilde)
  next
    case 3
    have "expand_home env (components s) = components s"
      using components_not_tilde [of s] 3 by (auto simp: expand_home_def split: list.splits component.splits option.splits)
    moreover have "maybe_expand_home_directory env s = components s"
      using 3 Some by (cases s; cases "tl s")
        (auto simp: maybe_expand_home_directory_def split: option.splits if_splits)
    ultimately show ?thesis by simp
  qed
qed (simp add: maybe_expand_home_directory_def expand_home_def)

lemma expand_home_absolute: "is_absolute p \<Longrightarrow> expand_home env p = p"
  by (auto simp: expand_home_def is_absolute_def split: list.splits component.splits option.splits)

lemma absolute_of_wf: "wf_absolute p \<Longrightarrow> absolute_of env p = Some p"
  by (simp add: absolute_of_def absolutize_def wf_absolute_is_absolute expand_home_absolute normalize_fixed)

lemma path_ancestors_last: "wf_absolute p \<Longrightarrow> last (path_ancestors p) = [RootDir]"
  by (auto simp: path_ancestors_def wf_absolute_cases is_absolute_def last_map upt_rec)

end
