(* ===== verification/Sandbox_Policy.thy ===== *)
theory Sandbox_Policy
  imports Host_Path "HOL-Library.Product_Lexorder" "HOL-Library.Monad_Syntax"
begin

text \<open>
  File system permissions (\<open>protocol/src/permissions.rs\<close>, with \<open>SandboxPolicy\<close> and \<open>WritableRoot\<close> of
  \<open>protocol.rs\<close> and the permission profiles of \<open>models.rs\<close>): the entries of a policy, how access to a
  path is resolved, the protection of workspace metadata, the roots a sandbox is given, the
  conversions from and to the older policies. Glob matching is a parameter of the read-deny matcher.
\<close>

section \<open>Policies\<close>

datatype file_system_access_mode = ReadAccess | WriteAccess | DenyAccess

text \<open>The derived order: equally specific entries are decided by it.\<close>

fun access_rank :: "file_system_access_mode \<Rightarrow> nat" where
  "access_rank ReadAccess = 0" | "access_rank WriteAccess = 1" | "access_rank DenyAccess = 2"

lemma access_rank_inj: "access_rank a = access_rank b \<longleftrightarrow> a = b"
  by (cases a; cases b) simp_all

instantiation file_system_access_mode :: linorder
begin

definition less_eq_file_system_access_mode :: "file_system_access_mode \<Rightarrow> file_system_access_mode \<Rightarrow> bool" where
  "less_eq_file_system_access_mode a b \<longleftrightarrow> access_rank a \<le> access_rank b"

definition less_file_system_access_mode :: "file_system_access_mode \<Rightarrow> file_system_access_mode \<Rightarrow> bool" where
  "less_file_system_access_mode a b \<longleftrightarrow> access_rank a < access_rank b"

instance
  by standard
    (auto simp: less_eq_file_system_access_mode_def less_file_system_access_mode_def access_rank_inj)

end

definition mode_can_read :: "file_system_access_mode \<Rightarrow> bool" where
  "mode_can_read a = (a \<noteq> DenyAccess)"

definition mode_can_write :: "file_system_access_mode \<Rightarrow> bool" where
  "mode_can_write a = (a = WriteAccess)"

datatype file_system_special_path =
    RootPath
  | MinimalPath
  | ProjectRoots "rpath option"
  | TmpdirPath
  | SlashTmpPath
  | UnknownPath rstr "rpath option"

datatype file_system_path = FsPath rpath | GlobPattern rstr | Special file_system_special_path

record file_system_sandbox_entry =
  entry_path :: file_system_path
  entry_access :: file_system_access_mode

datatype file_system_sandbox_kind = Restricted | Unrestricted | ExternalSandbox

record file_system_sandbox_policy =
  policy_kind :: file_system_sandbox_kind
  glob_scan_max_depth :: "nat option"
  entries :: "file_system_sandbox_entry list"

datatype network_sandbox_policy = NetworkRestricted | NetworkEnabled

definition network_is_enabled :: "network_sandbox_policy \<Rightarrow> bool" where
  "network_is_enabled n = (n = NetworkEnabled)"

text \<open>The older policies; the flag of \<open>ExternalSandboxPolicy\<close> is the enum \<open>NetworkAccess\<close>.\<close>

datatype network_access = NetworkAccessRestricted | NetworkAccessEnabled

datatype sandbox_policy =
    DangerFullAccess
  | ReadOnly bool
  | ExternalSandboxPolicy network_access
  | WorkspaceWrite "rpath list" bool bool bool

abbreviation entry :: "file_system_path \<Rightarrow> file_system_access_mode \<Rightarrow> file_system_sandbox_entry" where
  "entry p a \<equiv> \<lparr>entry_path = p, entry_access = a\<rparr>"

definition restricted_policy :: "file_system_sandbox_entry list \<Rightarrow> file_system_sandbox_policy" where
  "restricted_policy es = \<lparr>policy_kind = Restricted, glob_scan_max_depth = None, entries = es\<rparr>"

definition read_only_policy :: file_system_sandbox_policy where
  "read_only_policy = restricted_policy [entry (Special RootPath) ReadAccess]"

definition unrestricted_policy :: file_system_sandbox_policy where
  "unrestricted_policy = \<lparr>policy_kind = Unrestricted, glob_scan_max_depth = None, entries = []\<rparr>"

definition external_sandbox_policy :: file_system_sandbox_policy where
  "external_sandbox_policy = \<lparr>policy_kind = ExternalSandbox, glob_scan_max_depth = None, entries = []\<rparr>"

section \<open>Resolving paths\<close>

definition resolve_file_system_special_path ::
    "host \<Rightarrow> file_system_special_path \<Rightarrow> rpath option \<Rightarrow> rpath option" where
  "resolve_file_system_special_path h v cwd =
     (case v of
        RootPath \<Rightarrow> None
      | MinimalPath \<Rightarrow> None
      | UnknownPath _ _ \<Rightarrow> None
      | ProjectRoots subpath \<Rightarrow>
          do {
            cwd' \<leftarrow> cwd;
            Some (case subpath of Some sub \<Rightarrow> resolve_against (host_env h) sub cwd' | None \<Rightarrow> cwd')
          }
      | TmpdirPath \<Rightarrow>
          do {
            tmpdir \<leftarrow> tmpdir_var h;
            (if tmpdir = [] then None else absolute_of (host_env h) (components tmpdir))
          }
      | SlashTmpPath \<Rightarrow>
          (let slash_tmp = [RootDir, NormalC ''tmp''] in if is_dir h slash_tmp then Some slash_tmp else None))"

definition resolve_file_system_path :: "host \<Rightarrow> file_system_path \<Rightarrow> rpath option \<Rightarrow> rpath option" where
  "resolve_file_system_path h p cwd =
     (case p of
        FsPath path \<Rightarrow> Some path
      | GlobPattern _ \<Rightarrow> None
      | Special v \<Rightarrow> resolve_file_system_special_path h v cwd)"

definition absolute_root_path_for_cwd :: "rpath \<Rightarrow> rpath" where
  "absolute_root_path_for_cwd cwd = last (path_ancestors cwd)"

definition resolve_entry_path :: "host \<Rightarrow> file_system_path \<Rightarrow> rpath option \<Rightarrow> rpath option" where
  "resolve_entry_path h p cwd =
     (case p of
        Special RootPath \<Rightarrow> map_option absolute_root_path_for_cwd cwd
      | _ \<Rightarrow> resolve_file_system_path h p cwd)"

definition resolve_candidate_path :: "host \<Rightarrow> rpath \<Rightarrow> rpath \<Rightarrow> rpath option" where
  "resolve_candidate_path h path cwd =
     (if is_absolute path then absolute_of (host_env h) path
      else map_option (resolve_against (host_env h) path) (absolute_of (host_env h) cwd))"

record resolved_file_system_entry =
  res_path :: rpath
  res_access :: file_system_access_mode

definition resolved_entries_with_cwd ::
    "host \<Rightarrow> file_system_sandbox_policy \<Rightarrow> rpath \<Rightarrow> resolved_file_system_entry list" where
  "resolved_entries_with_cwd h policy cwd =
     List.map_filter (\<lambda>e.
         map_option (\<lambda>path. \<lparr>res_path = path, res_access = entry_access e\<rparr>)
           (resolve_entry_path h (entry_path e) (absolute_of (host_env h) cwd)))
       (entries policy)"

section \<open>Shadowing\<close>

fun special_paths_share_target :: "file_system_special_path \<Rightarrow> file_system_special_path \<Rightarrow> bool" where
  "special_paths_share_target RootPath RootPath = True"
| "special_paths_share_target MinimalPath MinimalPath = True"
| "special_paths_share_target TmpdirPath TmpdirPath = True"
| "special_paths_share_target SlashTmpPath SlashTmpPath = True"
| "special_paths_share_target (ProjectRoots l) (ProjectRoots r) = (l = r)"
| "special_paths_share_target (UnknownPath l ls) (UnknownPath r rs) = (l = r \<and> ls = rs)"
| "special_paths_share_target _ _ = False"

definition special_path_matches_absolute_path :: "file_system_special_path \<Rightarrow> rpath \<Rightarrow> bool" where
  "special_path_matches_absolute_path v path =
     (case v of
        RootPath \<Rightarrow> path_parent path = None
      | SlashTmpPath \<Rightarrow> path = [RootDir, NormalC ''tmp'']
      | _ \<Rightarrow> False)"

fun file_system_paths_share_target :: "file_system_path \<Rightarrow> file_system_path \<Rightarrow> bool" where
  "file_system_paths_share_target (FsPath l) (FsPath r) = (l = r)"
| "file_system_paths_share_target (Special l) (Special r) = special_paths_share_target l r"
| "file_system_paths_share_target (FsPath p) (Special v) = special_path_matches_absolute_path v p"
| "file_system_paths_share_target (Special v) (FsPath p) = special_path_matches_absolute_path v p"
| "file_system_paths_share_target (GlobPattern l) (GlobPattern r) = (l = r)"
| "file_system_paths_share_target _ _ = False"

definition has_same_target_write_override :: "file_system_sandbox_policy \<Rightarrow> file_system_sandbox_entry \<Rightarrow> bool" where
  "has_same_target_write_override policy e =
     list_ex (\<lambda>candidate. mode_can_write (entry_access candidate) \<and> entry_access e < entry_access candidate \<and>
         file_system_paths_share_target (entry_path candidate) (entry_path e))
       (entries policy)"

definition narrows_write :: "file_system_sandbox_policy \<Rightarrow> file_system_sandbox_entry \<Rightarrow> bool" where
  "narrows_write policy e =
     (if mode_can_write (entry_access e) then False
      else case entry_path e of
        FsPath _ \<Rightarrow> \<not> has_same_target_write_override policy e
      | GlobPattern _ \<Rightarrow> True
      | Special v \<Rightarrow>
          (case v of
             RootPath \<Rightarrow> entry_access e = DenyAccess
           | MinimalPath \<Rightarrow> False
           | UnknownPath _ _ \<Rightarrow> False
           | _ \<Rightarrow> \<not> has_same_target_write_override policy e))"

definition has_write_narrowing_entries :: "file_system_sandbox_policy \<Rightarrow> bool" where
  "has_write_narrowing_entries policy =
     (policy_kind policy = Restricted \<and> list_ex (narrows_write policy) (entries policy))"

section \<open>Full access\<close>

definition has_root_access :: "file_system_sandbox_policy \<Rightarrow> (file_system_access_mode \<Rightarrow> bool) \<Rightarrow> bool" where
  "has_root_access policy predicate =
     (policy_kind policy = Restricted \<and>
      list_ex (\<lambda>e. entry_path e = Special RootPath \<and> predicate (entry_access e)) (entries policy))"

definition has_denied_read_restrictions :: "file_system_sandbox_policy \<Rightarrow> bool" where
  "has_denied_read_restrictions policy =
     (policy_kind policy = Restricted \<and> list_ex (\<lambda>e. entry_access e = DenyAccess) (entries policy))"

definition has_full_disk_read_access :: "file_system_sandbox_policy \<Rightarrow> bool" where
  "has_full_disk_read_access policy =
     (case policy_kind policy of
        Unrestricted \<Rightarrow> True
      | ExternalSandbox \<Rightarrow> True
      | Restricted \<Rightarrow> has_root_access policy mode_can_read \<and> \<not> has_denied_read_restrictions policy)"

definition has_full_disk_write_access :: "file_system_sandbox_policy \<Rightarrow> bool" where
  "has_full_disk_write_access policy =
     (case policy_kind policy of
        Unrestricted \<Rightarrow> True
      | ExternalSandbox \<Rightarrow> True
      | Restricted \<Rightarrow> has_root_access policy mode_can_write \<and> \<not> has_write_narrowing_entries policy)"

definition include_platform_defaults :: "file_system_sandbox_policy \<Rightarrow> bool" where
  "include_platform_defaults policy =
     (\<not> has_full_disk_read_access policy \<and> policy_kind policy = Restricted \<and>
      list_ex (\<lambda>e. entry_path e = Special MinimalPath \<and> mode_can_read (entry_access e)) (entries policy))"

section \<open>Access to a path\<close>

text \<open>\<open>max_by_key\<close>: the last of the elements with the greatest key.\<close>

fun last_max_by :: "('a \<Rightarrow> 'b::linorder) \<Rightarrow> 'a list \<Rightarrow> 'a option" where
  "last_max_by f [] = None"
| "last_max_by f (x # xs) =
     (case last_max_by f xs of None \<Rightarrow> Some x | Some y \<Rightarrow> if f x \<le> f y then Some y else Some x)"

definition resolved_entry_precedence :: "resolved_file_system_entry \<Rightarrow> nat \<times> file_system_access_mode" where
  "resolved_entry_precedence e = (length (res_path e), res_access e)"

definition resolve_access_with_cwd ::
    "host \<Rightarrow> file_system_sandbox_policy \<Rightarrow> rpath \<Rightarrow> rpath \<Rightarrow> file_system_access_mode" where
  "resolve_access_with_cwd h policy path cwd =
     (if policy_kind policy \<noteq> Restricted then WriteAccess
      else case resolve_candidate_path h path cwd of
        None \<Rightarrow> DenyAccess
      | Some path' \<Rightarrow>
          (case last_max_by resolved_entry_precedence
                  (filter (\<lambda>e. path_starts_with path' (res_path e)) (resolved_entries_with_cwd h policy cwd)) of
             Some e \<Rightarrow> res_access e
           | None \<Rightarrow> DenyAccess))"

definition can_read_path_with_cwd :: "host \<Rightarrow> file_system_sandbox_policy \<Rightarrow> rpath \<Rightarrow> rpath \<Rightarrow> bool" where
  "can_read_path_with_cwd h policy path cwd = mode_can_read (resolve_access_with_cwd h policy path cwd)"

definition PROTECTED_METADATA_PATH_NAMES :: "rstr list" where
  "PROTECTED_METADATA_PATH_NAMES = [''.git'', ''.agents'', ''.gienx'']"

definition metadata_path_name :: "rstr \<Rightarrow> rstr option" where
  "metadata_path_name name = List.find (\<lambda>n. name = n) PROTECTED_METADATA_PATH_NAMES"

definition metadata_child :: "host \<Rightarrow> rpath \<Rightarrow> resolved_file_system_entry \<Rightarrow> (rpath \<times> rstr) option" where
  "metadata_child h target e =
     do {
       relative_path \<leftarrow> path_strip_prefix target (res_path e);
       first_component \<leftarrow> (case relative_path of [] \<Rightarrow> None | c # _ \<Rightarrow> Some c);
       name \<leftarrow> metadata_path_name (component_text first_component);
       Some (resolve_against (host_env h) [NormalC name] (res_path e), name)
     }"

definition first_opt :: "'a list \<Rightarrow> 'a option" where
  "first_opt xs = (case xs of [] \<Rightarrow> None | x # _ \<Rightarrow> Some x)"

definition metadata_child_of_writable_root ::
    "host \<Rightarrow> file_system_sandbox_policy \<Rightarrow> rpath \<Rightarrow> rpath \<Rightarrow> (rpath \<times> rstr) option" where
  "metadata_child_of_writable_root h policy target cwd =
     first_opt (List.map_filter (metadata_child h target)
       (filter (\<lambda>e. mode_can_write (res_access e)) (resolved_entries_with_cwd h policy cwd)))"

definition has_explicit_write_entry_for_metadata_path ::
    "host \<Rightarrow> file_system_sandbox_policy \<Rightarrow> rpath \<Rightarrow> rpath \<Rightarrow> rpath \<Rightarrow> bool" where
  "has_explicit_write_entry_for_metadata_path h policy protected target cwd =
     list_ex (\<lambda>e. mode_can_write (res_access e) \<and> path_starts_with target (res_path e) \<and>
         path_starts_with (res_path e) protected)
       (resolved_entries_with_cwd h policy cwd)"

definition is_metadata_write_denied :: "host \<Rightarrow> file_system_sandbox_policy \<Rightarrow> rpath \<Rightarrow> rpath \<Rightarrow> bool" where
  "is_metadata_write_denied h policy path cwd =
     (if policy_kind policy \<noteq> Restricted then False
      else case resolve_candidate_path h path cwd of
        None \<Rightarrow> True
      | Some target \<Rightarrow>
          (case metadata_child_of_writable_root h policy target cwd of
             None \<Rightarrow> False
           | Some (protected, _) \<Rightarrow>
               \<not> has_explicit_write_entry_for_metadata_path h policy protected target cwd))"

definition can_write_path_with_cwd :: "host \<Rightarrow> file_system_sandbox_policy \<Rightarrow> rpath \<Rightarrow> rpath \<Rightarrow> bool" where
  "can_write_path_with_cwd h policy path cwd =
     (if \<not> mode_can_write (resolve_access_with_cwd h policy path cwd) then False
      else if has_full_disk_write_access policy then True
      else \<not> is_metadata_write_denied h policy path cwd)"

definition forbidden_agent_metadata_write ::
    "host \<Rightarrow> rpath \<Rightarrow> rpath \<Rightarrow> file_system_sandbox_policy \<Rightarrow> rstr option" where
  "forbidden_agent_metadata_write h path cwd policy =
     (if policy_kind policy \<noteq> Restricted then None
      else do {
        target \<leftarrow> resolve_candidate_path h path cwd;
        (protected, name) \<leftarrow> metadata_child_of_writable_root h policy target cwd;
        (if has_explicit_write_entry_for_metadata_path h policy protected target cwd then None
         else if \<not> can_write_path_with_cwd h policy target cwd then Some name
         else None)
      })"

end
