(* ===== verification/Sandbox_Roots.thy ===== *)
theory Sandbox_Roots
  imports Sandbox_Policy
begin

text \<open>
  What is built from a file system policy (\<open>protocol/src/permissions.rs\<close>): default protections of
  a writable root, workspace policies and the older policies, added and preserved entries, the roots
  handed to a sandbox, and the matcher for denied reads.
\<close>

section \<open>Paths on disk\<close>

fun effective_loop :: "host \<Rightarrow> rpath \<Rightarrow> rpath list \<Rightarrow> rpath" where
  "effective_loop h raw [] = raw"
| "effective_loop h raw (ancestor # rest) =
     (if link_status h ancestor = None then effective_loop h raw rest
      else case (do {
             normalized_ancestor \<leftarrow> canonicalize_preserving_symlinks h ancestor;
             suffix \<leftarrow> path_strip_prefix raw ancestor;
             absolute_of (host_env h) (path_join normalized_ancestor suffix)
           }) of
             Some normalized \<Rightarrow> normalized
           | None \<Rightarrow> effective_loop h raw rest)"

definition normalize_effective_absolute_path :: "host \<Rightarrow> rpath \<Rightarrow> rpath" where
  "normalize_effective_absolute_path h path = effective_loop h path (path_ancestors path)"

fun dedup_loop :: "rpath list \<Rightarrow> rpath list \<Rightarrow> rpath list" where
  "dedup_loop seen [] = []"
| "dedup_loop seen (p # ps) = (if p \<in> set seen then dedup_loop seen ps else p # dedup_loop (p # seen) ps)"

definition dedup_absolute_paths :: "host \<Rightarrow> rpath list \<Rightarrow> bool \<Rightarrow> rpath list" where
  "dedup_absolute_paths h paths normalize_effective_paths =
     dedup_loop [] (if normalize_effective_paths then map (normalize_effective_absolute_path h) paths else paths)"

definition is_git_pointer_file :: "host \<Rightarrow> rpath \<Rightarrow> bool" where
  "is_git_pointer_file h path = (is_file h path \<and> file_name path = Some ''.git'')"

text \<open>\<open>split_once(':')\<close>\<close>

definition split_once_colon :: "rstr \<Rightarrow> (rstr \<times> rstr) option" where
  "split_once_colon s =
     (case dropWhile (\<lambda>c. c \<noteq> CHR '':'') s of
        [] \<Rightarrow> None | _ # rest \<Rightarrow> Some (takeWhile (\<lambda>c. c \<noteq> CHR '':'') s, rest))"

definition resolve_gitdir_from_file :: "host \<Rightarrow> rpath \<Rightarrow> rpath option" where
  "resolve_gitdir_from_file h dot_git =
     do {
       contents \<leftarrow> read_text h dot_git;
       (pre, gitdir_raw) \<leftarrow> split_once_colon (trim contents);
       (if trim pre \<noteq> ''gitdir'' then None
        else if trim gitdir_raw = [] then None
        else do {
          base \<leftarrow> path_parent dot_git;
          let gitdir_path = resolve_path_against_base (host_env h) (trim gitdir_raw) base;
          (if \<not> path_exists h gitdir_path then None else Some gitdir_path)
        })
     }"

definition root_join :: "host \<Rightarrow> rpath \<Rightarrow> rstr \<Rightarrow> rpath" where
  "root_join h root name = resolve_against (host_env h) (components name) root"

definition default_read_only_subpaths_for_writable_root :: "host \<Rightarrow> rpath \<Rightarrow> bool \<Rightarrow> rpath list" where
  "default_read_only_subpaths_for_writable_root h writable_root protect_missing_dot_codex =
     (let top_level_git = root_join h writable_root ''.git'';
          top_level_agents = root_join h writable_root ''.agents'';
          top_level_codex = root_join h writable_root ''.gienx'';
          git = (if is_dir h top_level_git \<or> is_file h top_level_git
                 then (if is_file h top_level_git \<and> is_git_pointer_file h top_level_git
                       then (case resolve_gitdir_from_file h top_level_git of Some gitdir \<Rightarrow> [gitdir] | None \<Rightarrow> [])
                       else []) @ [top_level_git]
                 else []);
          agents = (if is_dir h top_level_agents then [top_level_agents] else []);
          codex = (if protect_missing_dot_codex \<or> is_dir h top_level_codex then [top_level_codex] else [])
      in dedup_absolute_paths h (git @ agents @ codex) False)"

section \<open>Building policies\<close>

definition append_default_read_only_entry_if_no_explicit_rule ::
    "file_system_path \<Rightarrow> file_system_sandbox_entry list \<Rightarrow> file_system_sandbox_entry list" where
  "append_default_read_only_entry_if_no_explicit_rule path es =
     (if list_ex (\<lambda>e. file_system_paths_share_target (entry_path e) path) es then es
      else es @ [entry path ReadAccess])"

definition append_default_read_only_path_if_no_explicit_rule ::
    "rpath \<Rightarrow> file_system_sandbox_entry list \<Rightarrow> file_system_sandbox_entry list" where
  "append_default_read_only_path_if_no_explicit_rule path =
     append_default_read_only_entry_if_no_explicit_rule (FsPath path)"

definition append_default_read_only_project_root_subpath_if_no_explicit_rule ::
    "rstr \<Rightarrow> file_system_sandbox_entry list \<Rightarrow> file_system_sandbox_entry list" where
  "append_default_read_only_project_root_subpath_if_no_explicit_rule subpath =
     append_default_read_only_entry_if_no_explicit_rule (Special (ProjectRoots (Some (components subpath))))"

text \<open>The nested loop over the writable roots and their protected subpaths.\<close>

definition protect_root ::
    "host \<Rightarrow> bool \<Rightarrow> rpath \<Rightarrow> file_system_sandbox_entry list \<Rightarrow> file_system_sandbox_entry list" where
  "protect_root h protect_missing_dot_codex root es =
     fold append_default_read_only_path_if_no_explicit_rule
       (default_read_only_subpaths_for_writable_root h root protect_missing_dot_codex) es"

definition base_write_entries :: "rpath list \<Rightarrow> bool \<Rightarrow> bool \<Rightarrow> file_system_sandbox_entry list" where
  "base_write_entries writable_roots exclude_tmpdir_env_var exclude_slash_tmp =
     [entry (Special RootPath) ReadAccess, entry (Special (ProjectRoots None)) WriteAccess]
     @ (if \<not> exclude_slash_tmp then [entry (Special SlashTmpPath) WriteAccess] else [])
     @ (if \<not> exclude_tmpdir_env_var then [entry (Special TmpdirPath) WriteAccess] else [])
     @ map (\<lambda>path. entry (FsPath path) WriteAccess) writable_roots"

definition workspace_write :: "host \<Rightarrow> rpath list \<Rightarrow> bool \<Rightarrow> bool \<Rightarrow> file_system_sandbox_policy" where
  "workspace_write h writable_roots exclude_tmpdir_env_var exclude_slash_tmp =
     (let es = base_write_entries writable_roots exclude_tmpdir_env_var exclude_slash_tmp;
          es = append_default_read_only_project_root_subpath_if_no_explicit_rule ''.git'' es;
          es = append_default_read_only_project_root_subpath_if_no_explicit_rule ''.agents'' es;
          es = append_default_read_only_project_root_subpath_if_no_explicit_rule ''.gienx'' es
      in restricted_policy (fold (protect_root h False) writable_roots es))"

definition from_sandbox_policy_legacy :: "host \<Rightarrow> sandbox_policy \<Rightarrow> file_system_sandbox_policy" where
  "from_sandbox_policy_legacy h p =
     (case p of
        DangerFullAccess \<Rightarrow> unrestricted_policy
      | ExternalSandboxPolicy _ \<Rightarrow> external_sandbox_policy
      | ReadOnly _ \<Rightarrow> restricted_policy [entry (Special RootPath) ReadAccess]
      | WorkspaceWrite writable_roots _ exclude_tmpdir_env_var exclude_slash_tmp \<Rightarrow>
          workspace_write h writable_roots exclude_tmpdir_env_var exclude_slash_tmp)"

definition from_legacy_sandbox_policy_for_cwd :: "host \<Rightarrow> sandbox_policy \<Rightarrow> rpath \<Rightarrow> file_system_sandbox_policy" where
  "from_legacy_sandbox_policy_for_cwd h p cwd =
     (let policy = from_sandbox_policy_legacy h p
      in case p of
           WorkspaceWrite writable_roots _ _ _ \<Rightarrow>
             (let es = (case absolute_of (host_env h) cwd of
                          Some cwd_root \<Rightarrow> protect_root h True cwd_root (entries policy)
                        | None \<Rightarrow> entries policy)
              in policy\<lparr>entries := fold (protect_root h False) writable_roots es\<rparr>)
         | _ \<Rightarrow> policy)"

definition append_missing_deny_entries ::
    "file_system_sandbox_policy \<Rightarrow> file_system_sandbox_entry list \<Rightarrow> file_system_sandbox_entry list" where
  "append_missing_deny_entries existing es =
     fold (\<lambda>deny_entry es. if deny_entry \<in> set es then es else es @ [deny_entry])
       (filter (\<lambda>e. entry_access e = DenyAccess) (entries existing)) es"

definition from_legacy_sandbox_policy_preserving_deny_entries ::
    "host \<Rightarrow> sandbox_policy \<Rightarrow> rpath \<Rightarrow> file_system_sandbox_policy \<Rightarrow> file_system_sandbox_policy" where
  "from_legacy_sandbox_policy_preserving_deny_entries h p cwd existing =
     (let rebuilt = from_legacy_sandbox_policy_for_cwd h p cwd
      in if policy_kind rebuilt \<noteq> Restricted then rebuilt
         else rebuilt\<lparr>glob_scan_max_depth := glob_scan_max_depth existing,
                      entries := append_missing_deny_entries existing (entries rebuilt)\<rparr>)"

definition preserve_deny_read_restrictions_from ::
    "file_system_sandbox_policy \<Rightarrow> file_system_sandbox_policy \<Rightarrow> file_system_sandbox_policy" where
  "preserve_deny_read_restrictions_from existing policy =
     (let has_deny_read_entries = list_ex (\<lambda>e. entry_access e = DenyAccess) (entries existing);
          policy1 = (if policy_kind policy = Unrestricted \<and> has_deny_read_entries
                     then restricted_policy [entry (Special RootPath) WriteAccess] else policy)
      in if policy_kind policy1 \<noteq> Restricted then policy1
         else policy1\<lparr>glob_scan_max_depth :=
                         (case glob_scan_max_depth policy1 of
                            None \<Rightarrow> glob_scan_max_depth existing | Some d \<Rightarrow> Some d),
                      entries := append_missing_deny_entries existing (entries policy1)\<rparr>)"

section \<open>Workspace roots\<close>

definition PROJECT_ROOTS_GLOB_PATTERN_PREFIX :: rstr where
  "PROJECT_ROOTS_GLOB_PATTERN_PREFIX = ''codex-project-roots://''"

definition project_roots_glob_pattern :: "rstr \<Rightarrow> rstr" where
  "project_roots_glob_pattern subpath = PROJECT_ROOTS_GLOB_PATTERN_PREFIX @ subpath"

definition parse_project_roots_glob_pattern :: "rstr \<Rightarrow> rstr option" where
  "parse_project_roots_glob_pattern pattern = strip_prefix PROJECT_ROOTS_GLOB_PATTERN_PREFIX pattern"

definition resolve_project_roots_glob_pattern :: "host \<Rightarrow> rstr \<Rightarrow> rpath \<Rightarrow> rstr" where
  "resolve_project_roots_glob_pattern h subpath root =
     path_text (resolve_path_against_base (host_env h) subpath root)"

definition materialize_project_roots_with_cwd ::
    "host \<Rightarrow> rpath \<Rightarrow> file_system_sandbox_policy \<Rightarrow> file_system_sandbox_policy" where
  "materialize_project_roots_with_cwd h cwd policy =
     (let cwd' = absolute_of (host_env h) cwd
      in policy\<lparr>entries := map (\<lambda>e.
           case entry_path e of
             Special (ProjectRoots sub) \<Rightarrow>
               (case resolve_file_system_path h (entry_path e) cwd' of
                  Some path \<Rightarrow> e\<lparr>entry_path := FsPath path\<rparr> | None \<Rightarrow> e)
           | GlobPattern pattern \<Rightarrow>
               (case (cwd', parse_project_roots_glob_pattern pattern) of
                  (Some c, Some subpath) \<Rightarrow>
                    e\<lparr>entry_path := GlobPattern (resolve_project_roots_glob_pattern h subpath c)\<rparr>
                | _ \<Rightarrow> e)
           | _ \<Rightarrow> e) (entries policy)\<rparr>)"

definition materialize_entry ::
    "host \<Rightarrow> rpath list \<Rightarrow> file_system_sandbox_entry \<Rightarrow> file_system_sandbox_entry list" where
  "materialize_entry h workspace_roots e =
     (case entry_path e of
        Special (ProjectRoots subpath) \<Rightarrow>
          map (\<lambda>root. entry (FsPath (case subpath of
                 Some sub \<Rightarrow> resolve_against (host_env h) sub root | None \<Rightarrow> root)) (entry_access e))
            workspace_roots
      | GlobPattern pattern \<Rightarrow>
          (case parse_project_roots_glob_pattern pattern of
             Some subpath \<Rightarrow>
               map (\<lambda>root. entry (GlobPattern (resolve_project_roots_glob_pattern h subpath root)) (entry_access e))
                 workspace_roots
           | None \<Rightarrow> [e])
      | _ \<Rightarrow> [e])"

definition materialize_project_roots_with_workspace_roots ::
    "host \<Rightarrow> rpath list \<Rightarrow> file_system_sandbox_policy \<Rightarrow> file_system_sandbox_policy" where
  "materialize_project_roots_with_workspace_roots h workspace_roots policy =
     policy\<lparr>entries := concat (map (materialize_entry h workspace_roots) (entries policy))\<rparr>"

definition with_materialized_project_roots_for_workspace_roots ::
    "host \<Rightarrow> rpath list \<Rightarrow> file_system_sandbox_policy \<Rightarrow> file_system_sandbox_policy" where
  "with_materialized_project_roots_for_workspace_roots h workspace_roots policy =
     policy\<lparr>entries := fold (\<lambda>e es. if e \<in> set es then es else es @ [e])
       (entries (materialize_project_roots_with_workspace_roots h workspace_roots policy)) (entries policy)\<rparr>"

section \<open>Additional roots\<close>

definition add_entry :: "file_system_sandbox_entry \<Rightarrow> file_system_sandbox_policy \<Rightarrow> file_system_sandbox_policy" where
  "add_entry e policy = policy\<lparr>entries := entries policy @ [e]\<rparr>"

definition with_additional_readable_roots ::
    "host \<Rightarrow> rpath \<Rightarrow> rpath list \<Rightarrow> file_system_sandbox_policy \<Rightarrow> file_system_sandbox_policy" where
  "with_additional_readable_roots h cwd roots policy =
     (if has_full_disk_read_access policy then policy
      else fold (\<lambda>path p. if can_read_path_with_cwd h p path cwd then p
                          else add_entry (entry (FsPath path) ReadAccess) p) roots policy)"

definition with_additional_writable_roots ::
    "host \<Rightarrow> rpath \<Rightarrow> rpath list \<Rightarrow> file_system_sandbox_policy \<Rightarrow> file_system_sandbox_policy" where
  "with_additional_writable_roots h cwd roots policy =
     fold (\<lambda>path p. if can_write_path_with_cwd h p path cwd then p
                    else add_entry (entry (FsPath path) WriteAccess) p) roots policy"

definition with_additional_legacy_workspace_writable_roots ::
    "host \<Rightarrow> rpath list \<Rightarrow> file_system_sandbox_policy \<Rightarrow> file_system_sandbox_policy" where
  "with_additional_legacy_workspace_writable_roots h roots policy =
     (if policy_kind policy \<noteq> Restricted then policy
      else policy\<lparr>entries := fold (\<lambda>path es.
             protect_root h False path
               (if list_ex (\<lambda>e. mode_can_write (entry_access e) \<and> entry_path e = FsPath path) es then es
                else es @ [entry (FsPath path) WriteAccess])) roots (entries policy)\<rparr>)"

end
