(* ===== verification/Sandbox_Legacy.thy ===== *)
theory Sandbox_Legacy
  imports Sandbox_Roots
begin

text \<open>
  What a sandbox is given of a file system policy (\<open>protocol/src/permissions.rs\<close>): readable, writable and
  unreadable roots, the matcher for denied reads, the older policy that stands for it; and the permission
  profiles of \<open>protocol/src/models.rs\<close> around it. An error of \<open>to_legacy_sandbox_policy\<close> is its message.
\<close>

section \<open>Writable roots\<close>

record writable_root =
  wr_root :: rpath
  wr_read_only_subpaths :: "rpath list"
  wr_protected_metadata_names :: "rstr list"

definition path_contains_protected_metadata_name :: "writable_root \<Rightarrow> rpath \<Rightarrow> bool" where
  "path_contains_protected_metadata_name r path =
     (case path_strip_prefix path (wr_root r) of
        Some (first_component # _) \<Rightarrow>
          list_ex (\<lambda>name. component_text first_component = name) (wr_protected_metadata_names r)
      | _ \<Rightarrow> False)"

definition is_path_writable :: "writable_root \<Rightarrow> rpath \<Rightarrow> bool" where
  "is_path_writable r path =
     (if \<not> path_starts_with path (wr_root r) then False
      else if list_ex (path_starts_with path) (wr_read_only_subpaths r) then False
      else if path_contains_protected_metadata_name r path then False
      else True)"

definition protected_metadata_names_for_writable_root ::
    "host \<Rightarrow> file_system_sandbox_policy \<Rightarrow> rpath \<Rightarrow> rpath list \<Rightarrow> rpath \<Rightarrow> rstr list" where
  "protected_metadata_names_for_writable_root h policy root raw_writable_roots cwd =
     filter (\<lambda>name.
         list_all (\<lambda>p. \<not> can_write_path_with_cwd h policy p cwd)
           (root_join h root name # map (\<lambda>raw. root_join h raw name) raw_writable_roots))
       PROTECTED_METADATA_PATH_NAMES"

definition has_explicit_resolved_path_entry :: "resolved_file_system_entry list \<Rightarrow> rpath \<Rightarrow> bool" where
  "has_explicit_resolved_path_entry es path = list_ex (\<lambda>e. res_path e = path) es"

text \<open>The carveout an entry makes in the writable root \<open>root\<close>, if any.\<close>

definition carveout :: "host \<Rightarrow> rpath \<Rightarrow> rpath list \<Rightarrow> rpath \<Rightarrow> rpath option" where
  "carveout h root raw_writable_roots path =
     (let effective_path = normalize_effective_absolute_path h path;
          preserve_raw_carveout_paths = (path_parent root \<noteq> None);
          raw_carveout_path =
            (if preserve_raw_carveout_paths
             then (if path = root then None
                   else if path_starts_with path root then Some path
                   else first_opt (List.map_filter (\<lambda>raw_root. do {
                          suffix \<leftarrow> path_strip_prefix path raw_root;
                          (if suffix = [] then None else Some (resolve_against (host_env h) suffix root))
                        }) raw_writable_roots))
             else None)
      in case raw_carveout_path of
           Some p \<Rightarrow> Some p
         | None \<Rightarrow>
             if effective_path = root \<or> \<not> path_starts_with effective_path root then None
             else Some effective_path)"

definition writable_root_of ::
    "host \<Rightarrow> file_system_sandbox_policy \<Rightarrow> rpath \<Rightarrow> resolved_file_system_entry list \<Rightarrow> rpath list \<Rightarrow> rpath
      \<Rightarrow> writable_root" where
  "writable_root_of h policy cwd resolved_entries writable_entries root =
     (let raw_writable_roots = filter (\<lambda>p. normalize_effective_absolute_path h p = root) writable_entries;
          protect_missing_dot_codex =
            (case absolute_of (host_env h) cwd of
               Some c \<Rightarrow> normalize_effective_absolute_path h c = root | None \<Rightarrow> False);
          defaults = filter (\<lambda>p. \<not> has_explicit_resolved_path_entry resolved_entries p)
            (default_read_only_subpaths_for_writable_root h root protect_missing_dot_codex);
          carveouts = List.map_filter (\<lambda>e. carveout h root raw_writable_roots (res_path e))
            (filter (\<lambda>e. \<not> mode_can_write (res_access e) \<and>
                \<not> can_write_path_with_cwd h policy (res_path e) cwd) resolved_entries)
      in \<lparr>wr_root = root,
          wr_read_only_subpaths = dedup_absolute_paths h (defaults @ carveouts) False,
          wr_protected_metadata_names =
            protected_metadata_names_for_writable_root h policy root raw_writable_roots cwd\<rparr>)"

definition get_writable_roots_with_cwd ::
    "host \<Rightarrow> file_system_sandbox_policy \<Rightarrow> rpath \<Rightarrow> writable_root list" where
  "get_writable_roots_with_cwd h policy cwd =
     (if has_full_disk_write_access policy then []
      else
        let resolved_entries = resolved_entries_with_cwd h policy cwd;
            writable_entries = map res_path
              (filter (\<lambda>e. mode_can_write (res_access e) \<and> can_write_path_with_cwd h policy (res_path e) cwd)
                resolved_entries)
        in map (writable_root_of h policy cwd resolved_entries writable_entries)
             (dedup_absolute_paths h writable_entries True))"

definition get_readable_roots_with_cwd :: "host \<Rightarrow> file_system_sandbox_policy \<Rightarrow> rpath \<Rightarrow> rpath list" where
  "get_readable_roots_with_cwd h policy cwd =
     (if has_full_disk_read_access policy then []
      else dedup_absolute_paths h
        (map res_path (filter (\<lambda>e. mode_can_read (res_access e) \<and> can_read_path_with_cwd h policy (res_path e) cwd)
          (resolved_entries_with_cwd h policy cwd))) True)"

definition get_unreadable_roots_with_cwd :: "host \<Rightarrow> file_system_sandbox_policy \<Rightarrow> rpath \<Rightarrow> rpath list" where
  "get_unreadable_roots_with_cwd h policy cwd =
     (if policy_kind policy \<noteq> Restricted then []
      else
        let root = map_option absolute_root_path_for_cwd (absolute_of (host_env h) cwd)
        in dedup_absolute_paths h
             (map res_path (filter (\<lambda>e. res_access e = DenyAccess \<and>
                 \<not> can_read_path_with_cwd h policy (res_path e) cwd \<and> root \<noteq> Some (res_path e))
               (resolved_entries_with_cwd h policy cwd))) True)"

definition get_unreadable_globs_with_cwd :: "host \<Rightarrow> file_system_sandbox_policy \<Rightarrow> rpath \<Rightarrow> rstr list" where
  "get_unreadable_globs_with_cwd h policy cwd =
     (if policy_kind policy \<noteq> Restricted then []
      else remdups_adj (sort (List.map_filter (\<lambda>e.
        case entry_path e of
          GlobPattern pattern \<Rightarrow>
            if entry_access e = DenyAccess
            then Some (path_text (resolve_path_against_base (host_env h) pattern cwd)) else None
        | _ \<Rightarrow> None) (entries policy))))"

section \<open>The matcher for denied reads\<close>

definition push_unique :: "rpath list \<Rightarrow> rpath \<Rightarrow> rpath list" where
  "push_unique candidates candidate =
     (if candidate \<in> set candidates then candidates else candidates @ [candidate])"

definition normalized_and_canonical_candidates :: "host \<Rightarrow> rpath \<Rightarrow> rpath list" where
  "normalized_and_canonical_candidates h path =
     (let candidates = push_unique []
            (case absolute_of (host_env h) path of Some normalized \<Rightarrow> normalized | None \<Rightarrow> path)
      in case Option.bind (real_path h path) (absolute_of (host_env h)) of
           Some canonical \<Rightarrow> push_unique candidates canonical
         | None \<Rightarrow> candidates)"

record read_deny_matcher =
  denied_candidates :: "rpath list list"
  deny_read_matchers :: "(rpath \<Rightarrow> bool) list"
  invalid_pattern :: bool

text \<open>The loop over the patterns; \<open>glob\<close> compiles one (\<open>build_glob_matcher\<close>), or says why it cannot.\<close>

fun build_matchers ::
    "(rstr \<Rightarrow> (rstr, rpath \<Rightarrow> bool) result) \<Rightarrow> bool \<Rightarrow> rstr list \<Rightarrow> (rstr, (rpath \<Rightarrow> bool) list \<times> bool) result" where
  "build_matchers glob fail_closed [] = Ok ([], False)"
| "build_matchers glob fail_closed (pattern # patterns) =
     (case glob pattern of
        Err err \<Rightarrow>
          if fail_closed
          then (case build_matchers glob fail_closed patterns of
                  Ok (ms, _) \<Rightarrow> Ok (ms, True) | Err e \<Rightarrow> Err e)
          else Err (''invalid deny-read glob pattern `'' @ pattern @ ''`: '' @ err)
      | Ok m \<Rightarrow>
          (case build_matchers glob fail_closed patterns of
             Ok (ms, invalid) \<Rightarrow> Ok (m # ms, invalid) | Err e \<Rightarrow> Err e))"

definition build_read_deny_matcher ::
    "host \<Rightarrow> (rstr \<Rightarrow> (rstr, rpath \<Rightarrow> bool) result) \<Rightarrow> file_system_sandbox_policy \<Rightarrow> rpath \<Rightarrow> bool
      \<Rightarrow> (rstr, read_deny_matcher option) result" where
  "build_read_deny_matcher h glob policy cwd fail_closed =
     (if \<not> has_denied_read_restrictions policy then Ok None
      else case build_matchers glob fail_closed (get_unreadable_globs_with_cwd h policy cwd) of
             Err message \<Rightarrow> Err message
           | Ok (ms, invalid) \<Rightarrow>
               Ok (Some \<lparr>denied_candidates =
                           map (normalized_and_canonical_candidates h) (get_unreadable_roots_with_cwd h policy cwd),
                         deny_read_matchers = ms, invalid_pattern = invalid\<rparr>))"

definition is_read_denied :: "host \<Rightarrow> read_deny_matcher \<Rightarrow> rpath \<Rightarrow> bool" where
  "is_read_denied h m path =
     (if invalid_pattern m then True
      else
        let path_candidates = normalized_and_canonical_candidates h path
        in if list_ex (\<lambda>denied. list_ex (\<lambda>candidate. list_ex (path_starts_with candidate) denied) path_candidates)
                (denied_candidates m) then True
           else list_ex (\<lambda>matcher. list_ex matcher path_candidates) (deny_read_matchers m))"

section \<open>The older policies\<close>

definition sandbox_policy_has_full_network_access :: "sandbox_policy \<Rightarrow> bool" where
  "sandbox_policy_has_full_network_access p =
     (case p of
        DangerFullAccess \<Rightarrow> True
      | ExternalSandboxPolicy network_access \<Rightarrow> network_access = NetworkAccessEnabled
      | ReadOnly network_access \<Rightarrow> network_access
      | WorkspaceWrite _ network_access _ _ \<Rightarrow> network_access)"

definition network_policy_of :: "sandbox_policy \<Rightarrow> network_sandbox_policy" where
  "network_policy_of p = (if sandbox_policy_has_full_network_access p then NetworkEnabled else NetworkRestricted)"

definition sandbox_policy_writable_roots :: "host \<Rightarrow> sandbox_policy \<Rightarrow> rpath \<Rightarrow> writable_root list" where
  "sandbox_policy_writable_roots h p cwd =
     (case p of
        WorkspaceWrite writable_roots _ exclude_tmpdir_env_var exclude_slash_tmp \<Rightarrow>
          (let cwd_root = absolute_of (host_env h) cwd;
               slash_tmp = [RootDir, NormalC ''tmp''];
               tmpdir = (case tmpdir_var h of
                           Some t \<Rightarrow> if t = [] then None else absolute_of (host_env h) (components t)
                         | None \<Rightarrow> None);
               roots = writable_roots
                 @ (case cwd_root of Some c \<Rightarrow> [c] | None \<Rightarrow> [])
                 @ (if \<not> exclude_slash_tmp \<and> is_dir h slash_tmp then [slash_tmp] else [])
                 @ (if \<not> exclude_tmpdir_env_var then (case tmpdir of Some t \<Rightarrow> [t] | None \<Rightarrow> []) else [])
           in map (\<lambda>root. \<lparr>wr_root = root,
                wr_read_only_subpaths =
                  default_read_only_subpaths_for_writable_root h root (cwd_root = Some root),
                wr_protected_metadata_names = []\<rparr>) roots)
      | _ \<Rightarrow> [])"

record legacy_scan =
  workspace_root_writable :: bool
  scan_writable_roots :: "rpath list"
  tmpdir_writable :: bool
  slash_tmp_writable :: bool
  unbridgeable_root_write :: bool

definition empty_scan :: legacy_scan where
  "empty_scan = \<lparr>workspace_root_writable = False, scan_writable_roots = [], tmpdir_writable = False,
     slash_tmp_writable = False, unbridgeable_root_write = False\<rparr>"

definition legacy_scan_step ::
    "host \<Rightarrow> rpath option \<Rightarrow> file_system_sandbox_entry \<Rightarrow> legacy_scan \<Rightarrow> legacy_scan" where
  "legacy_scan_step h cwd e s =
     (let writes = mode_can_write (entry_access e)
      in case entry_path e of
           GlobPattern _ \<Rightarrow> s
         | FsPath path \<Rightarrow>
             if writes
             then (if cwd = Some path then s\<lparr>workspace_root_writable := True\<rparr>
                   else s\<lparr>scan_writable_roots := scan_writable_roots s @ [path]\<rparr>)
             else s
         | Special v \<Rightarrow>
             (case v of
                RootPath \<Rightarrow> if writes then s\<lparr>unbridgeable_root_write := True\<rparr> else s
              | MinimalPath \<Rightarrow> s
              | ProjectRoots subpath \<Rightarrow>
                  if subpath = None \<and> writes then s\<lparr>workspace_root_writable := True\<rparr>
                  else (case resolve_file_system_special_path h v cwd of
                          Some path \<Rightarrow>
                            if writes then s\<lparr>scan_writable_roots := scan_writable_roots s @ [path]\<rparr> else s
                        | None \<Rightarrow> s)
              | TmpdirPath \<Rightarrow> if writes then s\<lparr>tmpdir_writable := True\<rparr> else s
              | SlashTmpPath \<Rightarrow> if writes then s\<lparr>slash_tmp_writable := True\<rparr> else s
              | UnknownPath _ _ \<Rightarrow> s))"

definition UNBRIDGEABLE :: rstr where
  "UNBRIDGEABLE = ''permissions profile requests filesystem writes outside the workspace root, which is not supported until the runtime enforces FileSystemSandboxPolicy directly''"

definition to_legacy_sandbox_policy ::
    "host \<Rightarrow> file_system_sandbox_policy \<Rightarrow> network_sandbox_policy \<Rightarrow> rpath \<Rightarrow> (rstr, sandbox_policy) result" where
  "to_legacy_sandbox_policy h policy network cwd =
     (case policy_kind policy of
        ExternalSandbox \<Rightarrow>
          Ok (ExternalSandboxPolicy (if network_is_enabled network then NetworkAccessEnabled else NetworkAccessRestricted))
      | Unrestricted \<Rightarrow>
          Ok (if network_is_enabled network then DangerFullAccess else ExternalSandboxPolicy NetworkAccessRestricted)
      | Restricted \<Rightarrow>
          (let s = fold (legacy_scan_step h (absolute_of (host_env h) cwd)) (entries policy) empty_scan
           in if has_full_disk_write_access policy
              then Ok (if network_is_enabled network then DangerFullAccess
                       else ExternalSandboxPolicy NetworkAccessRestricted)
              else if workspace_root_writable s
              then Ok (WorkspaceWrite (dedup_absolute_paths h (scan_writable_roots s) False)
                         (network_is_enabled network) (\<not> tmpdir_writable s) (\<not> slash_tmp_writable s))
              else if unbridgeable_root_write s \<or> scan_writable_roots s \<noteq> [] \<or> tmpdir_writable s \<or> slash_tmp_writable s
              then Err UNBRIDGEABLE
              else Ok (ReadOnly (network_is_enabled network))))"

section \<open>Comparing policies\<close>

definition sorted_writable_roots :: "writable_root list \<Rightarrow> writable_root list" where
  "sorted_writable_roots roots =
     sort_key wr_root (map (\<lambda>r. r\<lparr>wr_read_only_subpaths := sort (wr_read_only_subpaths r),
         wr_protected_metadata_names := remdups_adj (sort (wr_protected_metadata_names r))\<rparr>) roots)"

record file_system_semantic_signature =
  sig_full_disk_read :: bool
  sig_full_disk_write :: bool
  sig_platform_defaults :: bool
  sig_readable_roots :: "rpath list"
  sig_writable_roots :: "writable_root list"
  sig_unreadable_roots :: "rpath list"
  sig_unreadable_globs :: "rstr list"

definition semantic_signature ::
    "host \<Rightarrow> file_system_sandbox_policy \<Rightarrow> rpath \<Rightarrow> file_system_semantic_signature" where
  "semantic_signature h policy cwd =
     \<lparr>sig_full_disk_read = has_full_disk_read_access policy,
      sig_full_disk_write = has_full_disk_write_access policy,
      sig_platform_defaults = include_platform_defaults policy,
      sig_readable_roots = sort (get_readable_roots_with_cwd h policy cwd),
      sig_writable_roots = sorted_writable_roots (get_writable_roots_with_cwd h policy cwd),
      sig_unreadable_roots = sort (get_unreadable_roots_with_cwd h policy cwd),
      sig_unreadable_globs = get_unreadable_globs_with_cwd h policy cwd\<rparr>"

definition is_semantically_equivalent_to ::
    "host \<Rightarrow> file_system_sandbox_policy \<Rightarrow> file_system_sandbox_policy \<Rightarrow> rpath \<Rightarrow> bool" where
  "is_semantically_equivalent_to h p q cwd = (semantic_signature h p cwd = semantic_signature h q cwd)"

definition legacy_runtime_file_system_policy_for_cwd ::
    "host \<Rightarrow> sandbox_policy \<Rightarrow> rpath \<Rightarrow> file_system_sandbox_policy" where
  "legacy_runtime_file_system_policy_for_cwd h p cwd =
     (case p of
        WorkspaceWrite writable_roots _ exclude_tmpdir_env_var exclude_slash_tmp \<Rightarrow>
          (let es = base_write_entries writable_roots exclude_tmpdir_env_var exclude_slash_tmp;
               es = (case absolute_of (host_env h) cwd of
                       Some cwd_root \<Rightarrow> protect_root h True cwd_root es | None \<Rightarrow> es)
           in restricted_policy (fold (protect_root h False) writable_roots es))
      | _ \<Rightarrow> from_sandbox_policy_legacy h p)"

definition protected_metadata_names_need_direct_runtime_enforcement ::
    "host \<Rightarrow> file_system_sandbox_policy \<Rightarrow> sandbox_policy \<Rightarrow> rpath \<Rightarrow> bool" where
  "protected_metadata_names_need_direct_runtime_enforcement h policy legacy_policy cwd =
     (let legacy_roots = sandbox_policy_writable_roots h legacy_policy cwd
      in list_ex (\<lambda>r.
           case List.find (\<lambda>candidate. wr_root candidate = wr_root r) legacy_roots of
             None \<Rightarrow> wr_protected_metadata_names r \<noteq> []
           | Some legacy_root \<Rightarrow>
               list_ex (\<lambda>name. root_join h (wr_root r) name \<notin> set (wr_read_only_subpaths legacy_root))
                 (wr_protected_metadata_names r)) (get_writable_roots_with_cwd h policy cwd))"

definition needs_direct_runtime_enforcement ::
    "host \<Rightarrow> file_system_sandbox_policy \<Rightarrow> network_sandbox_policy \<Rightarrow> rpath \<Rightarrow> bool" where
  "needs_direct_runtime_enforcement h policy network cwd =
     (if policy_kind policy \<noteq> Restricted then False
      else case to_legacy_sandbox_policy h policy network cwd of
        Err _ \<Rightarrow> True
      | Ok legacy_policy \<Rightarrow>
          if protected_metadata_names_need_direct_runtime_enforcement h policy legacy_policy cwd then True
          else semantic_signature h policy cwd \<noteq>
                 semantic_signature h (legacy_runtime_file_system_policy_for_cwd h legacy_policy cwd) cwd)"

section \<open>Permission profiles\<close>

datatype managed_file_system_permissions =
    ManagedRestricted "file_system_sandbox_entry list" "nat option"
  | ManagedUnrestricted

datatype permission_profile =
    Managed managed_file_system_permissions network_sandbox_policy
  | Disabled
  | External network_sandbox_policy

datatype sandbox_enforcement = ManagedEnforcement | DisabledEnforcement | ExternalEnforcement

text \<open>\<open>NonZeroUsize::new\<close> drops a depth of zero; an external policy is a panic.\<close>

definition managed_from_sandbox_policy ::
    "file_system_sandbox_policy \<Rightarrow> managed_file_system_permissions option" where
  "managed_from_sandbox_policy policy =
     (case policy_kind policy of
        Restricted \<Rightarrow>
          Some (ManagedRestricted (entries policy)
            (case glob_scan_max_depth policy of Some d \<Rightarrow> if d = 0 then None else Some d | None \<Rightarrow> None))
      | Unrestricted \<Rightarrow> Some ManagedUnrestricted
      | ExternalSandbox \<Rightarrow> None)"

definition managed_to_sandbox_policy :: "managed_file_system_permissions \<Rightarrow> file_system_sandbox_policy" where
  "managed_to_sandbox_policy m =
     (case m of
        ManagedRestricted es depth \<Rightarrow>
          \<lparr>policy_kind = Restricted, glob_scan_max_depth = depth, entries = es\<rparr>
      | ManagedUnrestricted \<Rightarrow> unrestricted_policy)"

definition from_runtime_permissions_with_enforcement ::
    "sandbox_enforcement \<Rightarrow> file_system_sandbox_policy \<Rightarrow> network_sandbox_policy \<Rightarrow> permission_profile option" where
  "from_runtime_permissions_with_enforcement enforcement policy network =
     (case policy_kind policy of
        ExternalSandbox \<Rightarrow> Some (External network)
      | Unrestricted \<Rightarrow>
          if enforcement = DisabledEnforcement then Some Disabled
          else map_option (\<lambda>m. Managed m network) (managed_from_sandbox_policy policy)
      | Restricted \<Rightarrow> map_option (\<lambda>m. Managed m network) (managed_from_sandbox_policy policy))"

definition from_runtime_permissions ::
    "file_system_sandbox_policy \<Rightarrow> network_sandbox_policy \<Rightarrow> permission_profile option" where
  "from_runtime_permissions policy network =
     from_runtime_permissions_with_enforcement
       (case policy_kind policy of ExternalSandbox \<Rightarrow> ExternalEnforcement | _ \<Rightarrow> ManagedEnforcement) policy network"

definition file_system_sandbox_policy_of :: "permission_profile \<Rightarrow> file_system_sandbox_policy" where
  "file_system_sandbox_policy_of profile =
     (case profile of
        Managed m _ \<Rightarrow> managed_to_sandbox_policy m
      | Disabled \<Rightarrow> unrestricted_policy
      | External _ \<Rightarrow> external_sandbox_policy)"

definition network_sandbox_policy_of :: "permission_profile \<Rightarrow> network_sandbox_policy" where
  "network_sandbox_policy_of profile =
     (case profile of Managed _ network \<Rightarrow> network | External network \<Rightarrow> network | Disabled \<Rightarrow> NetworkEnabled)"

definition enforcement_from_legacy :: "sandbox_policy \<Rightarrow> sandbox_enforcement" where
  "enforcement_from_legacy p =
     (case p of
        DangerFullAccess \<Rightarrow> DisabledEnforcement
      | ExternalSandboxPolicy _ \<Rightarrow> ExternalEnforcement
      | ReadOnly _ \<Rightarrow> ManagedEnforcement
      | WorkspaceWrite _ _ _ _ \<Rightarrow> ManagedEnforcement)"

definition profile_from_legacy :: "host \<Rightarrow> sandbox_policy \<Rightarrow> permission_profile option" where
  "profile_from_legacy h p =
     from_runtime_permissions_with_enforcement (enforcement_from_legacy p) (from_sandbox_policy_legacy h p)
       (network_policy_of p)"

definition profile_to_legacy :: "host \<Rightarrow> permission_profile \<Rightarrow> rpath \<Rightarrow> (rstr, sandbox_policy) result" where
  "profile_to_legacy h profile cwd =
     (case profile of
        Managed m network \<Rightarrow> to_legacy_sandbox_policy h (managed_to_sandbox_policy m) network cwd
      | Disabled \<Rightarrow> Ok DangerFullAccess
      | External network \<Rightarrow>
          Ok (ExternalSandboxPolicy
            (if network_is_enabled network then NetworkAccessEnabled else NetworkAccessRestricted)))"

end
