(* ===== verification/Sandbox_Facts.thy ===== *)
theory Sandbox_Facts
  imports Sandbox_Legacy
begin

text \<open>
  What the file system policies guarantee. Access to a path is decided by the most specific entry
  that contains it (\<open>governed\<close>); full access means access everywhere; added roots never take access
  away, preserved denials hold, workspace metadata stays protected, and the older policies survive the
  conversion to entries and back.
\<close>

section \<open>The most specific entry\<close>

lemma last_max_by_None [simp]: "last_max_by f xs = None \<longleftrightarrow> xs = []"
  by (cases xs) (auto split: option.splits)

lemma last_max_by_Some:
  "last_max_by f xs = Some y \<Longrightarrow> y \<in> set xs \<and> (\<forall>x \<in> set xs. f x \<le> f y)"
proof (induction xs arbitrary: y)
  case (Cons x xs)
  show ?case
  proof (cases "last_max_by f xs")
    case None
    with Cons.prems show ?thesis by simp
  next
    case (Some z)
    from Cons.IH [OF Some] have z: "z \<in> set xs" "\<forall>x \<in> set xs. f x \<le> f z" by simp_all
    from Cons.prems Some have y: "y = (if f x \<le> f z then z else x)" by (simp split: if_splits)
    show ?thesis
    proof (cases "f x \<le> f z")
      case True
      with y z show ?thesis by simp
    next
      case False
      then have "\<forall>x' \<in> set xs. f x' \<le> f x" using z(2) by (meson linear order_trans)
      with False y show ?thesis by simp
    qed
  qed
qed simp

text \<open>The access of resolved entries at an absolute path.\<close>

definition access_at :: "resolved_file_system_entry list \<Rightarrow> rpath \<Rightarrow> file_system_access_mode" where
  "access_at es p =
     (case last_max_by resolved_entry_precedence (filter (\<lambda>e. path_starts_with p (res_path e)) es) of
        Some e \<Rightarrow> res_access e | None \<Rightarrow> DenyAccess)"

lemma resolve_access_at:
  assumes "policy_kind policy = Restricted" and "resolve_candidate_path h path cwd = Some p"
  shows "resolve_access_with_cwd h policy path cwd = access_at (resolved_entries_with_cwd h policy cwd) p"
  using assms by (simp add: resolve_access_with_cwd_def access_at_def)

text \<open>\<open>q\<close> is the longest path of an entry that contains \<open>p\<close>.\<close>

definition governs :: "resolved_file_system_entry list \<Rightarrow> rpath \<Rightarrow> rpath \<Rightarrow> bool" where
  "governs es p q \<longleftrightarrow> q \<in> res_path ` set es \<and> prefix q p \<and>
     (\<forall>e \<in> set es. prefix (res_path e) p \<longrightarrow> length (res_path e) \<le> length q)"

definition uncovered :: "resolved_file_system_entry list \<Rightarrow> rpath \<Rightarrow> bool" where
  "uncovered es p \<longleftrightarrow> (\<forall>e \<in> set es. \<not> prefix (res_path e) p)"

lemma governs_or_uncovered: "uncovered es p \<or> (\<exists>q. governs es p q)"
proof (cases "uncovered es p")
  case False
  let ?qs = "{q \<in> res_path ` set es. prefix q p}"
  have "finite ?qs" "?qs \<noteq> {}" using False by (auto simp: uncovered_def)
  then have "Max (length ` ?qs) \<in> length ` ?qs" by (intro Max_in) auto
  then obtain q where q: "Max (length ` ?qs) = length q" "q \<in> ?qs" by (rule imageE)
  have "length q' \<le> length q" if "q' \<in> ?qs" for q'
    unfolding q(1) [symmetric] using \<open>finite ?qs\<close> that by (intro Max_ge) auto
  with q(2) have "governs es p q" unfolding governs_def by blast
  then show ?thesis by blast
qed simp

lemma prefix_same_length: "prefix a p \<Longrightarrow> prefix b p \<Longrightarrow> length a = length b \<Longrightarrow> a = b"
  by (metis prefix_length_prefix prefix_order.antisym order_refl)

lemma governs_unique: "governs es p q \<Longrightarrow> governs es p q' \<Longrightarrow> q = q'"
  unfolding governs_def by (metis image_iff le_antisym prefix_same_length)

lemma governs_not_uncovered: "governs es p q \<Longrightarrow> \<not> uncovered es p"
  by (auto simp: governs_def uncovered_def)

lemma access_uncovered: "uncovered es p \<Longrightarrow> access_at es p = DenyAccess"
  by (auto simp: access_at_def uncovered_def path_starts_with_def filter_empty_conv split: option.splits
      dest!: last_max_by_Some)

lemma access_governed:
  assumes "governs es p q"
  shows "access_at es p = Max (res_access ` {e \<in> set es. res_path e = q})"
proof -
  let ?ms = "filter (\<lambda>e. path_starts_with p (res_path e)) es"
  have "?ms \<noteq> []" using assms by (auto simp: governs_def path_starts_with_def filter_empty_conv)
  then obtain e where e: "last_max_by resolved_entry_precedence ?ms = Some e"
    by (cases "last_max_by resolved_entry_precedence ?ms") auto
  have best: "e \<in> set ?ms" "\<forall>x \<in> set ?ms. resolved_entry_precedence x \<le> resolved_entry_precedence e"
    using last_max_by_Some [OF e] by simp_all
  obtain g where g: "g \<in> set es" "res_path g = q" "prefix q p" using assms by (auto simp: governs_def)
  have "length q \<le> length (res_path e)"
    using best(2) g by (auto simp: resolved_entry_precedence_def path_starts_with_def less_eq_prod_def)
  moreover have "length (res_path e) \<le> length q"
    using assms best(1) by (auto simp: governs_def path_starts_with_def)
  ultimately have q: "res_path e = q"
    using best(1) g(3) prefix_same_length by (auto simp: path_starts_with_def)
  have "res_access x \<le> res_access e" if "x \<in> set es" "res_path x = q" for x
  proof -
    have "x \<in> set ?ms" using that g(3) by (simp add: path_starts_with_def)
    then have "resolved_entry_precedence x \<le> resolved_entry_precedence e" using best(2) by blast
    then show ?thesis using that(2) q by (simp add: resolved_entry_precedence_def less_eq_prod_def)
  qed
  moreover have "e \<in> {e \<in> set es. res_path e = q}" using best(1) q by simp
  ultimately have "Max (res_access ` {e \<in> set es. res_path e = q}) = res_access e"
    by (intro Max_eqI) auto
  then show ?thesis using e by (simp add: access_at_def)
qed

section \<open>Well-formed hosts and policies\<close>

text \<open>The process has an absolute current directory, and the paths of a policy are \<open>AbsolutePathBuf\<close>s.\<close>

definition wf_host :: "host \<Rightarrow> bool" where
  "wf_host h \<longleftrightarrow> (case current_dir (host_env h) of Some d \<Rightarrow> is_absolute d | None \<Rightarrow> True)"

definition wf_fs_policy :: "file_system_sandbox_policy \<Rightarrow> bool" where
  "wf_fs_policy policy \<longleftrightarrow>
     list_all (\<lambda>e. case entry_path e of FsPath p \<Rightarrow> wf_absolute p | _ \<Rightarrow> True) (entries policy)"

lemma absolute_of_absolute:
  "wf_host h \<Longrightarrow> absolute_of (host_env h) p = Some q \<Longrightarrow> wf_absolute q"
  by (auto simp: absolute_of_def absolutize_def wf_host_def normalize_absolute absolutize_from_wf split: if_splits)

lemma candidate_wf:
  "wf_host h \<Longrightarrow> resolve_candidate_path h path cwd = Some p \<Longrightarrow> wf_absolute p"
  by (auto simp: resolve_candidate_path_def resolve_against_def split: if_splits
      intro: absolute_of_absolute absolutize_from_wf [OF wf_absolute_is_absolute [OF absolute_of_absolute]])

lemma candidate_of_wf: "wf_absolute p \<Longrightarrow> resolve_candidate_path h p cwd = Some p"
  by (simp add: resolve_candidate_path_def wf_absolute_is_absolute absolute_of_wf)

lemma wf_root_prefix: "wf_absolute p \<Longrightarrow> prefix [RootDir] p"
  by (auto simp: wf_absolute_cases)

lemma wf_no_parent: "wf_absolute p \<Longrightarrow> path_parent p = None \<Longrightarrow> p = [RootDir]"
proof -
  assume "wf_absolute p" and none: "path_parent p = None"
  then obtain ns where p: "p = RootDir # ns" "list_all is_normal ns" by (auto simp: wf_absolute_cases)
  show ?thesis
    using p none by (cases ns rule: rev_cases) (auto simp: path_parent_def last_opt_def is_normal_iff)
qed

lemma resolved_entry:
  "r \<in> set (resolved_entries_with_cwd h policy cwd) \<longleftrightarrow>
     (\<exists>e \<in> set (entries policy). resolve_entry_path h (entry_path e) (absolute_of (host_env h) cwd) = Some (res_path r) \<and>
        entry_access e = res_access r)"
  by (cases r) (auto simp: resolved_entries_with_cwd_def in_set_map_filter)

lemma resolved_entryI:
  "e \<in> set (entries policy) \<Longrightarrow> absolute_of (host_env h) cwd = c \<Longrightarrow>
   resolve_entry_path h (entry_path e) c = Some q \<Longrightarrow>
   \<lparr>res_path = q, res_access = entry_access e\<rparr> \<in> set (resolved_entries_with_cwd h policy cwd)"
  unfolding resolved_entry by (rule bexI [of _ e]) simp_all

lemma resolved_entryE:
  assumes "r \<in> set (resolved_entries_with_cwd h policy cwd)" and "absolute_of (host_env h) cwd = c"
  obtains e where "e \<in> set (entries policy)" "resolve_entry_path h (entry_path e) c = Some (res_path r)"
    "entry_access e = res_access r"
  using assms unfolding resolved_entry by blast

lemma resolved_root:
  "entry_path e = Special RootPath \<Longrightarrow> wf_absolute c \<Longrightarrow> resolve_entry_path h (entry_path e) (Some c) = Some [RootDir]"
  by (simp add: resolve_entry_path_def absolute_root_path_for_cwd_def path_ancestors_last)

section \<open>Full access\<close>

lemma special_share_eq: "special_paths_share_target l r \<Longrightarrow> l = r"
  by (cases "(l, r)" rule: special_paths_share_target.cases) simp_all

lemma share_target_resolves:
  assumes share: "file_system_paths_share_target a b" and b: "resolve_entry_path h b cwd = Some q"
    and wf: "\<And>p. a = FsPath p \<or> b = FsPath p \<Longrightarrow> wf_absolute p"
    and cwd: "cwd = Some c" "wf_absolute c" and tmp: "is_dir h [RootDir, NormalC ''tmp'']"
  shows "resolve_entry_path h a cwd = Some q"
proof -
  have root: "resolve_entry_path h (Special RootPath) cwd = Some [RootDir]"
    using cwd by (simp add: resolve_entry_path_def absolute_root_path_for_cwd_def path_ancestors_last)
  have slash: "resolve_entry_path h (Special SlashTmpPath) cwd = Some [RootDir, NormalC ''tmp'']"
    using tmp by (simp add: resolve_entry_path_def resolve_file_system_path_def resolve_file_system_special_path_def)
  have fs: "resolve_entry_path h (FsPath p) cwd = Some p" for p
    by (simp add: resolve_entry_path_def resolve_file_system_path_def)
  have special: "resolve_entry_path h (Special v) cwd = Some p"
    if "special_path_matches_absolute_path v p" "wf_absolute p" for v p
    using that root slash wf_no_parent
    by (auto simp: special_path_matches_absolute_path_def split: file_system_special_path.splits)
  show ?thesis
  proof (cases a; cases b)
    fix l r assume "a = Special l" "b = Special r"
    then show ?thesis using share b special_share_eq by auto
  next
    fix p v assume ab: "a = FsPath p" "b = Special v"
    then show ?thesis using share b special wf fs by auto
  next
    fix v p assume ab: "a = Special v" "b = FsPath p"
    then show ?thesis using share b special wf fs by auto
  qed (use share b fs in auto)
qed

lemma not_narrowed:
  assumes "\<not> narrows_write policy e" and "resolve_entry_path h (entry_path e) cwd = Some q"
    and "\<not> mode_can_write (entry_access e)"
  shows "entry_path e = Special RootPath \<and> entry_access e = ReadAccess \<or> has_same_target_write_override policy e"
  using assms
  by (cases "entry_path e"; cases "entry_access e")
     (auto simp: narrows_write_def resolve_entry_path_def resolve_file_system_path_def mode_can_write_def
       resolve_file_system_special_path_def split: file_system_special_path.splits)

lemma override_read: "has_same_target_write_override policy e \<Longrightarrow> entry_access e = ReadAccess"
  by (cases "entry_access e")
     (auto simp: has_same_target_write_override_def list_ex_iff mode_can_write_def less_file_system_access_mode_def)

lemma covered_by_root:
  assumes "e \<in> set es" and "res_path e = [RootDir]" and "wf_absolute p"
  obtains q where "governs es p q"
  using assms governs_or_uncovered [of es p] wf_root_prefix [OF assms(3)] by (auto simp: uncovered_def)

lemma governed_by: "governs es p q \<Longrightarrow> \<exists>e \<in> set es. res_path e = q \<and> access_at es p = res_access e"
proof -
  assume g: "governs es p q"
  let ?as = "res_access ` {e \<in> set es. res_path e = q}"
  have "?as \<noteq> {}" using g by (auto simp: governs_def)
  then have "Max ?as \<in> ?as" by (intro Max_in) auto
  then show ?thesis using access_governed [OF g] by auto
qed

lemma access_writeI:
  assumes g: "governs es p q" and w: "e \<in> set es" "res_path e = q" "res_access e = WriteAccess"
    and nd: "\<And>e. e \<in> set es \<Longrightarrow> res_path e = q \<Longrightarrow> res_access e \<noteq> DenyAccess"
  shows "access_at es p = WriteAccess"
proof -
  have le: "a \<le> WriteAccess" if "a \<noteq> DenyAccess" for a
    using that by (cases a) (simp_all add: less_eq_file_system_access_mode_def)
  have "Max (res_access ` {e \<in> set es. res_path e = q}) = WriteAccess"
    using w nd le by (intro Max_eqI) (auto simp: image_iff)
  then show ?thesis using access_governed [OF g] by simp
qed

lemma written_at:
  assumes wf: "wf_fs_policy policy" and cwd: "absolute_of (host_env h) cwd = Some c" and c: "wf_absolute c"
    and tmp: "is_dir h [RootDir, NormalC ''tmp'']"
    and e: "e \<in> set (entries policy)" "resolve_entry_path h (entry_path e) (Some c) = Some q"
    and keep: "\<not> narrows_write policy e"
    and r: "r \<in> set (entries policy)" "entry_path r = Special RootPath" "entry_access r = WriteAccess"
  shows "\<exists>w \<in> set (entries policy). resolve_entry_path h (entry_path w) (Some c) = Some q \<and> entry_access w = WriteAccess"
proof (cases "mode_can_write (entry_access e)")
  case True
  then show ?thesis using e by (auto simp: mode_can_write_def)
next
  case False
  from not_narrowed [OF keep e(2) False] show ?thesis
  proof
    assume "entry_path e = Special RootPath \<and> entry_access e = ReadAccess"
    then have "q = [RootDir]" using e(2) resolved_root [OF _ c, of e] by simp
    then show ?thesis using r resolved_root [OF r(2) c] by metis
  next
    assume "has_same_target_write_override policy e"
    then obtain w where w: "w \<in> set (entries policy)" "entry_access w = WriteAccess"
      "file_system_paths_share_target (entry_path w) (entry_path e)"
      by (auto simp: has_same_target_write_override_def list_ex_iff mode_can_write_def)
    have "resolve_entry_path h (entry_path w) (Some c) = Some q"
      by (rule share_target_resolves [OF w(3) e(2) _ refl c tmp])
         (use wf w(1) e(1) in \<open>auto simp: wf_fs_policy_def list_all_iff\<close>)
    then show ?thesis using w by blast
  qed
qed

lemma restricted_full_write:
  assumes host: "wf_host h" and wf: "wf_fs_policy policy" and cwd: "absolute_of (host_env h) cwd = Some c"
    and p: "wf_absolute p" and tmp: "is_dir h [RootDir, NormalC ''tmp'']"
    and kind: "policy_kind policy = Restricted" and full: "has_full_disk_write_access policy"
  shows "access_at (resolved_entries_with_cwd h policy cwd) p = WriteAccess"
proof -
  let ?es = "resolved_entries_with_cwd h policy cwd"
  have c: "wf_absolute c" by (rule absolute_of_absolute [OF host cwd])
  have keep: "\<not> narrows_write policy e" if "e \<in> set (entries policy)" for e
    using full kind that by (auto simp: has_full_disk_write_access_def has_write_narrowing_entries_def list_ex_iff)
  obtain r where r: "r \<in> set (entries policy)" "entry_path r = Special RootPath" "entry_access r = WriteAccess"
    using full kind by (auto simp: has_full_disk_write_access_def has_root_access_def list_ex_iff mode_can_write_def)
  obtain q where g: "governs ?es p q"
    by (rule covered_by_root [OF resolved_entryI [OF r(1) cwd resolved_root [OF r(2) c]] _ p]) simp_all
  then obtain x where x: "x \<in> set ?es" "res_path x = q" by (auto simp: governs_def)
  obtain e where e: "e \<in> set (entries policy)" "resolve_entry_path h (entry_path e) (Some c) = Some q"
    using resolved_entryE [OF x(1) cwd] x(2) by metis
  obtain w where w: "w \<in> set (entries policy)" "resolve_entry_path h (entry_path w) (Some c) = Some q"
      "entry_access w = WriteAccess"
    using written_at [OF wf cwd c tmp e keep [OF e(1)] r] by blast
  show ?thesis
  proof (rule access_writeI [OF g resolved_entryI [OF w(1) cwd w(2)]])
    fix y assume y: "y \<in> set ?es" "res_path y = q"
    obtain d where d: "d \<in> set (entries policy)" "resolve_entry_path h (entry_path d) (Some c) = Some q"
      "entry_access d = res_access y" using resolved_entryE [OF y(1) cwd] y(2) by metis
    show "res_access y \<noteq> DenyAccess"
      using not_narrowed [OF keep [OF d(1)] d(2)] override_read d(3) by (auto simp: mode_can_write_def)
  qed (simp_all add: w)
qed

lemma restricted_full_read:
  assumes host: "wf_host h" and cwd: "absolute_of (host_env h) cwd = Some c" and p: "wf_absolute p"
    and kind: "policy_kind policy = Restricted" and full: "has_full_disk_read_access policy"
  shows "access_at (resolved_entries_with_cwd h policy cwd) p \<noteq> DenyAccess"
proof -
  let ?es = "resolved_entries_with_cwd h policy cwd"
  have c: "wf_absolute c" by (rule absolute_of_absolute [OF host cwd])
  obtain r where r: "r \<in> set (entries policy)" "entry_path r = Special RootPath"
    using full kind by (auto simp: has_full_disk_read_access_def has_root_access_def list_ex_iff)
  obtain q where g: "governs ?es p q"
    by (rule covered_by_root [OF resolved_entryI [OF r(1) cwd resolved_root [OF r(2) c]] _ p]) simp_all
  obtain x where "x \<in> set ?es" "access_at ?es p = res_access x" using governed_by [OF g] by auto
  then show ?thesis
    using full kind
    by (auto simp: has_full_disk_read_access_def has_denied_read_restrictions_def list_ex_iff resolved_entry)
qed

section \<open>Added entries\<close>

lemma governs_prefix:
  assumes "governs es p g" and "prefix q p" and "length g \<le> length q"
  shows "governs es q g"
  using assms prefix_length_prefix [of g p q] prefix_order.trans [of _ q p] by (auto simp: governs_def)

lemma access_same: "governs es p g \<Longrightarrow> governs es q g \<Longrightarrow> access_at es p = access_at es q"
  by (simp add: access_governed)

lemma governs_more:
  assumes "governs es p g" and "\<And>e. e \<in> set fs \<Longrightarrow> prefix (res_path e) p \<Longrightarrow> length (res_path e) \<le> length g"
  shows "governs (es @ fs) p g"
  using assms by (auto simp: governs_def)

lemma access_more:
  assumes "governs es p g" and "\<And>e. e \<in> set fs \<Longrightarrow> prefix (res_path e) p \<Longrightarrow> length (res_path e) < length g"
  shows "access_at (es @ fs) p = access_at es p"
proof -
  have "governs (es @ fs) p g" using assms by (intro governs_more) (auto intro: less_imp_le)
  moreover have "{e \<in> set (es @ fs). res_path e = g} = {e \<in> set es. res_path e = g}"
    using assms(1) assms(2) [of e for e] by (auto simp: governs_def) (metis less_irrefl)
  ultimately show ?thesis using assms(1) by (simp add: access_governed)
qed

lemma access_denied_below:
  assumes "access_at es q = DenyAccess" and "prefix q p" and short: "\<And>e. e \<in> set es \<Longrightarrow> prefix (res_path e) p \<Longrightarrow> length (res_path e) \<le> length q"
  shows "access_at es p = DenyAccess"
  using governs_or_uncovered [of es p]
proof
  assume "\<exists>g. governs es p g"
  then obtain g where g: "governs es p g" by blast
  then have "length g \<le> length q" using short by (auto simp: governs_def)
  from governs_prefix [OF g assms(2) this] show ?thesis using access_same [OF g] assms(1) by simp
qed (rule access_uncovered)

lemma access_denyI:
  assumes g: "governs es p q" and e: "e \<in> set es" "res_path e = q" "res_access e = DenyAccess"
  shows "access_at es p = DenyAccess"
proof -
  have le: "a \<le> DenyAccess" for a by (cases a) (simp_all add: less_eq_file_system_access_mode_def)
  show ?thesis unfolding access_governed [OF g] using e le by (intro Max_eqI) (auto simp: image_iff)
qed

lemma access_denied_with_read:
  assumes g: "governs es p q" and d: "access_at es p = DenyAccess"
  shows "access_at (es @ [\<lparr>res_path = q, res_access = ReadAccess\<rparr>]) p = DenyAccess"
proof -
  obtain e where e: "e \<in> set es" "res_path e = q" "res_access e = DenyAccess" using governed_by [OF g] d by auto
  have "governs (es @ [\<lparr>res_path = q, res_access = ReadAccess\<rparr>]) p q" by (rule governs_more [OF g]) simp
  then show ?thesis by (rule access_denyI) (use e in auto)
qed

text \<open>A read entry where reading is denied opens what is not decided more specifically, and nothing else.\<close>

lemma access_add_read:
  assumes deny: "access_at es q = DenyAccess"
  shows "access_at (es @ [\<lparr>res_path = q, res_access = ReadAccess\<rparr>]) p = access_at es p \<or>
         access_at es p = DenyAccess \<and> access_at (es @ [\<lparr>res_path = q, res_access = ReadAccess\<rparr>]) p = ReadAccess \<and> prefix q p"
proof (cases "prefix q p")
  case False
  then show ?thesis by (simp add: access_at_def path_starts_with_def)
next
  case True
  let ?r = "\<lparr>res_path = q, res_access = ReadAccess\<rparr>"
  consider (longer) g where "governs es p g" "length q < length g"
    | (same) "governs es p q"
    | (shorter) "\<And>e. e \<in> set es \<Longrightarrow> prefix (res_path e) p \<Longrightarrow> length (res_path e) < length q"
  proof (cases "uncovered es p")
    case True
    then show ?thesis using that(3) by (auto simp: uncovered_def)
  next
    case False
    then obtain g where g: "governs es p g" using governs_or_uncovered by blast
    have "length q < length g \<or> g = q \<or> length g < length q"
      using g True prefix_same_length [of g p q] by (auto simp: governs_def)
    then show ?thesis using g that by (auto simp: governs_def dest: le_less_trans)
  qed
  then show ?thesis
  proof cases
    case longer
    then show ?thesis by (auto intro!: access_more)
  next
    case same
    have "access_at es p = DenyAccess"
      by (rule access_denied_below [OF deny True]) (use same in \<open>auto simp: governs_def\<close>)
    then show ?thesis using access_denied_with_read [OF same] by simp
  next
    case shorter
    have "governs (es @ [?r]) p q" using shorter True by (auto simp: governs_def dest: less_imp_le)
    moreover have "{e \<in> set (es @ [?r]). res_path e = q} = {?r}" using shorter True by fastforce
    ultimately have "access_at (es @ [?r]) p = ReadAccess" by (simp add: access_governed)
    moreover have "access_at es p = DenyAccess"
      by (rule access_denied_below [OF deny True]) (use shorter in \<open>auto dest: less_imp_le\<close>)
    ultimately show ?thesis using True by simp
  qed
qed

text \<open>What adding readable roots may change: denied paths below a root become readable.\<close>

definition opens_reads :: "rpath list \<Rightarrow> resolved_file_system_entry list \<Rightarrow> resolved_file_system_entry list \<Rightarrow> bool" where
  "opens_reads roots es es' \<longleftrightarrow>
     (\<forall>p. access_at es' p = access_at es p \<or>
        access_at es p = DenyAccess \<and> access_at es' p = ReadAccess \<and> (\<exists>q \<in> set roots. prefix q p)) \<and>
     (\<forall>e \<in> set es'. res_access e = DenyAccess \<longrightarrow> e \<in> set es)"

lemma opens_reads_refl: "opens_reads roots es es"
  by (simp add: opens_reads_def)

lemma opens_reads_trans:
  "opens_reads [q] es es' \<Longrightarrow> opens_reads roots es' es'' \<Longrightarrow> opens_reads (q # roots) es es''"
  unfolding opens_reads_def by (auto simp: all_conj_distrib) (metis file_system_access_mode.distinct(3))+

lemma opens_reads_readable:
  "opens_reads roots es es' \<Longrightarrow> mode_can_read (access_at es p) \<Longrightarrow> mode_can_read (access_at es' p)"
  by (auto simp: opens_reads_def mode_can_read_def) (metis file_system_access_mode.distinct(3))

lemma resolved_add_entry:
  "resolved_entries_with_cwd h (add_entry (entry (FsPath q) a) policy) cwd =
     resolved_entries_with_cwd h policy cwd @ [\<lparr>res_path = q, res_access = a\<rparr>]"
  by (simp add: resolved_entries_with_cwd_def add_entry_def List.map_filter_def resolve_entry_path_def
      resolve_file_system_path_def)

definition add_readable :: "host \<Rightarrow> rpath \<Rightarrow> rpath \<Rightarrow> file_system_sandbox_policy \<Rightarrow> file_system_sandbox_policy" where
  "add_readable h cwd path policy =
     (if can_read_path_with_cwd h policy path cwd then policy else add_entry (entry (FsPath path) ReadAccess) policy)"

lemma add_readable_kind [simp]: "policy_kind (add_readable h cwd q policy) = policy_kind policy"
  by (simp add: add_readable_def add_entry_def)

lemma can_read_at:
  "policy_kind policy = Restricted \<Longrightarrow> wf_absolute q \<Longrightarrow>
   can_read_path_with_cwd h policy q cwd = mode_can_read (access_at (resolved_entries_with_cwd h policy cwd) q)"
  by (simp add: can_read_path_with_cwd_def resolve_access_at [OF _ candidate_of_wf])

lemma add_readable_opens:
  assumes "policy_kind policy = Restricted" and "wf_absolute q"
  shows "opens_reads [q] (resolved_entries_with_cwd h policy cwd)
           (resolved_entries_with_cwd h (add_readable h cwd q policy) cwd)"
  using assms access_add_read [of "resolved_entries_with_cwd h policy cwd" q]
  by (auto simp: add_readable_def can_read_at mode_can_read_def resolved_add_entry opens_reads_def)

lemma add_readable_reads:
  assumes "policy_kind policy = Restricted" and "wf_absolute q"
  shows "mode_can_read (access_at (resolved_entries_with_cwd h (add_readable h cwd q policy) cwd) q) \<or>
         \<lparr>res_path = q, res_access = DenyAccess\<rparr> \<in> set (resolved_entries_with_cwd h policy cwd)"
proof (cases "can_read_path_with_cwd h policy q cwd")
  case True
  then show ?thesis using assms by (simp add: add_readable_def can_read_at)
next
  case False
  let ?es = "resolved_entries_with_cwd h policy cwd" let ?r = "\<lparr>res_path = q, res_access = ReadAccess\<rparr>"
  have g: "governs (?es @ [?r]) q q" by (auto simp: governs_def dest: prefix_length_le)
  obtain e where e: "e \<in> set (?es @ [?r])" "res_path e = q" "access_at (?es @ [?r]) q = res_access e"
    using governed_by [OF g] by blast
  show ?thesis
  proof (cases "res_access e = DenyAccess")
    case True
    then have "e = \<lparr>res_path = q, res_access = DenyAccess\<rparr>" using e(2) by (cases e) simp
    then show ?thesis using e(1) by auto
  qed (use False e in \<open>simp add: add_readable_def resolved_add_entry mode_can_read_def\<close>)
qed

lemma fold_add_readable:
  assumes "policy_kind policy = Restricted" and "list_all wf_absolute roots"
  shows "policy_kind (fold (add_readable h cwd) roots policy) = Restricted \<and>
    opens_reads roots (resolved_entries_with_cwd h policy cwd)
      (resolved_entries_with_cwd h (fold (add_readable h cwd) roots policy) cwd) \<and>
    (\<forall>q \<in> set roots. can_read_path_with_cwd h (fold (add_readable h cwd) roots policy) q cwd \<or>
       \<lparr>res_path = q, res_access = DenyAccess\<rparr> \<in> set (resolved_entries_with_cwd h policy cwd))"
  using assms
proof (induction roots arbitrary: policy)
  case Nil
  then show ?case by (simp add: opens_reads_refl)
next
  case (Cons q roots)
  let ?p = "add_readable h cwd q policy" let ?P = "fold (add_readable h cwd) roots ?p"
  have kind: "policy_kind ?p = Restricted" and wf: "wf_absolute q" using Cons.prems by simp_all
  note IH = Cons.IH [OF kind] and opens = add_readable_opens [OF Cons.prems(1) wf, of h cwd]
  have IHs: "policy_kind ?P = Restricted"
      "opens_reads roots (resolved_entries_with_cwd h ?p cwd) (resolved_entries_with_cwd h ?P cwd)"
    using IH Cons.prems by simp_all
  have q: "can_read_path_with_cwd h ?P q cwd \<or>
      \<lparr>res_path = q, res_access = DenyAccess\<rparr> \<in> set (resolved_entries_with_cwd h policy cwd)"
    using add_readable_reads [OF Cons.prems(1) wf, of h cwd] opens_reads_readable [OF IHs(2)] can_read_at [OF IHs(1) wf]
    by blast
  have rest: "can_read_path_with_cwd h ?P q' cwd \<or>
      \<lparr>res_path = q', res_access = DenyAccess\<rparr> \<in> set (resolved_entries_with_cwd h policy cwd)" if "q' \<in> set roots" for q'
    using IH Cons.prems that opens by (auto simp: opens_reads_def)
  show ?case using IHs opens_reads_trans [OF opens IHs(2)] q rest by simp
qed

lemma additional_readable_fold:
  "with_additional_readable_roots h cwd roots policy =
     (if has_full_disk_read_access policy then policy else fold (add_readable h cwd) roots policy)"
  by (simp add: with_additional_readable_roots_def add_readable_def [abs_def])

section \<open>Preserved denials\<close>

lemma resolved_wf:
  assumes "wf_host h" and "wf_fs_policy policy" and "r \<in> set (resolved_entries_with_cwd h policy cwd)"
  shows "wf_absolute (res_path r)"
proof -
  obtain e where e: "e \<in> set (entries policy)"
      "resolve_entry_path h (entry_path e) (absolute_of (host_env h) cwd) = Some (res_path r)"
    using resolved_entryE [OF assms(3) refl] by metis
  have c: "wf_absolute c" if "absolute_of (host_env h) cwd = Some c" for c
    using absolute_of_absolute [OF assms(1) that] .
  have sub: "wf_absolute (resolve_against (host_env h) s c)" if "absolute_of (host_env h) cwd = Some c" for c s
    unfolding resolve_against_def by (rule absolutize_from_wf [OF wf_absolute_is_absolute [OF c [OF that]]])
  have root: "wf_absolute (absolute_root_path_for_cwd c)" if "absolute_of (host_env h) cwd = Some c" for c
    using path_ancestors_last [OF c [OF that]] by (simp add: absolute_root_path_for_cwd_def wf_absolute_def)
  have tmp: "wf_absolute [RootDir, NormalC ''tmp'']" by (simp add: wf_absolute_def is_normal_def)
  have fs: "wf_absolute p" if "entry_path e = FsPath p" for p
    using assms(2) e(1) that by (auto simp: wf_fs_policy_def list_all_iff)
  show ?thesis
  proof (cases "entry_path e")
    case (FsPath p)
    then show ?thesis using e(2) fs [OF FsPath] by (simp add: resolve_entry_path_def resolve_file_system_path_def)
  next
    case (Special v)
    then show ?thesis
      using e(2) c sub root tmp absolute_of_absolute [OF assms(1)]
      by (auto simp: resolve_entry_path_def resolve_file_system_path_def resolve_file_system_special_path_def Let_def bind_eq_Some_conv
          split: file_system_special_path.splits option.splits if_splits) metis
  qed (use e(2) in \<open>simp add: resolve_entry_path_def resolve_file_system_path_def\<close>)
qed

lemma fold_append_missing:
  "set (fold (\<lambda>d es. if d \<in> set es then es else es @ [d]) ds es) = set es \<union> set ds"
  by (induction ds arbitrary: es) auto

lemma set_append_missing_deny:
  "set (append_missing_deny_entries existing es) =
     set es \<union> {e \<in> set (entries existing). entry_access e = DenyAccess}"
  by (simp add: append_missing_deny_entries_def fold_append_missing)

lemma resolved_more:
  assumes "set (entries policy') = set (entries policy) \<union> {e \<in> set (entries existing). entry_access e = DenyAccess}"
  shows "set (resolved_entries_with_cwd h policy' cwd) = set (resolved_entries_with_cwd h policy cwd) \<union>
    {r \<in> set (resolved_entries_with_cwd h existing cwd). res_access r = DenyAccess}"
  using assms by (auto simp: resolved_entry set_eq_iff)

text \<open>A denial that is among the entries wins where nothing else is more specific.\<close>

lemma denial_wins:
  assumes d: "d \<in> set es" "res_access d = DenyAccess" "prefix (res_path d) p"
    and other: "\<And>e. e \<in> set es \<Longrightarrow> prefix (res_path e) p \<Longrightarrow> res_access e \<noteq> DenyAccess \<Longrightarrow> length (res_path e) \<le> length (res_path d)"
  shows "access_at es p = DenyAccess"
proof -
  obtain q where g: "governs es p q" using governs_or_uncovered [of es p] d by (auto simp: uncovered_def)
  obtain e where e: "e \<in> set es" "res_path e = q" "access_at es p = res_access e" using governed_by [OF g] by blast
  show ?thesis
  proof (rule ccontr)
    assume "access_at es p \<noteq> DenyAccess"
    then have "length q \<le> length (res_path d)" using other [OF e(1)] e(2,3) g by (auto simp: governs_def)
    then have "res_path d = q" using g d prefix_same_length [of q p "res_path d"] by (auto simp: governs_def)
    from access_denyI [OF g d(1) this d(2)] \<open>access_at es p \<noteq> DenyAccess\<close> show False by simp
  qed
qed

lemma preserve_kind:
  assumes "policy_kind policy \<noteq> ExternalSandbox" and "e \<in> set (entries existing)" and "entry_access e = DenyAccess"
  shows "policy_kind (preserve_deny_read_restrictions_from existing policy) = Restricted \<and>
    set (entries (preserve_deny_read_restrictions_from existing policy)) =
      set (entries (if policy_kind policy = Unrestricted then restricted_policy [entry (Special RootPath) WriteAccess] else policy))
      \<union> {e \<in> set (entries existing). entry_access e = DenyAccess}"
proof -
  have "list_ex (\<lambda>e. entry_access e = DenyAccess) (entries existing)" using assms(2,3) by (auto simp: list_ex_iff)
  then show ?thesis
    using assms(1) by (cases "policy_kind policy")
      (simp_all add: preserve_deny_read_restrictions_from_def restricted_policy_def set_append_missing_deny Let_def)
qed

section \<open>Properties\<close>

text \<open>A host without home, links or files, whose only directory is \<open>/tmp\<close>.\<close>

definition plain_host :: host where
  "plain_host = \<lparr>host_env = \<lparr>home_dir = None, current_dir = Some [RootDir]\<rparr>, tmpdir_var = None,
     is_dir = (\<lambda>p. p = [RootDir, NormalC ''tmp'']), is_file = (\<lambda>_. False), path_exists = (\<lambda>_. False),
     read_text = (\<lambda>_. None), link_status = (\<lambda>_. None), real_path = (\<lambda>_. None)\<rparr>"

definition named_path :: "rstr list \<Rightarrow> rpath" where
  "named_path ns = RootDir # map NormalC ns"

definition demo_policy :: file_system_sandbox_policy where
  "demo_policy = restricted_policy
     [entry (Special RootPath) ReadAccess, entry (FsPath (named_path [''w''])) WriteAccess,
      entry (FsPath (named_path [''w''])) ReadAccess, entry (FsPath (named_path [''w'', ''secret''])) DenyAccess]"

lemma named_path_wf [simp]: "wf_absolute (named_path ns)"
  by (simp add: named_path_def wf_absolute_def list_all_iff is_normal_def)

lemma plain_host_simps [simp]:
  "host_env plain_host = \<lparr>home_dir = None, current_dir = Some [RootDir]\<rparr>"
  "wf_host plain_host" "is_dir plain_host [RootDir, NormalC ''tmp'']"
  by (simp_all add: plain_host_def wf_host_def is_absolute_def)

lemma named_path_resolves [simp]:
  "absolute_of env (named_path ns) = Some (named_path ns)"
  "resolve_candidate_path h (named_path ns) cwd = Some (named_path ns)"
  by (simp_all add: absolute_of_wf candidate_of_wf)

text \<open>
  C31. Access to a path under a restricted policy is decided by the most specific entries: of the entries
  whose resolved path contains the path, those with the longest path decide, and among these deny wins over
  write and write over read. A path no entry contains is denied.
\<close>

theorem access_most_specific:
  assumes "policy_kind policy = Restricted" and "resolve_candidate_path h path cwd = Some p"
  defines "es \<equiv> resolved_entries_with_cwd h policy cwd"
  shows "(\<exists>q. governs es p q \<and>
           resolve_access_with_cwd h policy path cwd = Max (res_access ` {e \<in> set es. res_path e = q})) \<or>
         uncovered es p \<and> resolve_access_with_cwd h policy path cwd = DenyAccess"
  unfolding es_def resolve_access_at [OF assms(1,2)]
  using governs_or_uncovered access_governed access_uncovered by blast

theorem access_most_specific_witness:
  "resolve_access_with_cwd plain_host demo_policy (named_path [''w'', ''x'']) [RootDir] = WriteAccess \<and>
   ((\<exists>q. governs (resolved_entries_with_cwd plain_host demo_policy [RootDir]) (named_path [''w'', ''x'']) q \<and>
      resolve_access_with_cwd plain_host demo_policy (named_path [''w'', ''x'']) [RootDir] =
        Max (res_access ` {e \<in> set (resolved_entries_with_cwd plain_host demo_policy [RootDir]). res_path e = q})) \<or>
    uncovered (resolved_entries_with_cwd plain_host demo_policy [RootDir]) (named_path [''w'', ''x'']) \<and>
      resolve_access_with_cwd plain_host demo_policy (named_path [''w'', ''x'']) [RootDir] = DenyAccess)"
proof
  show "resolve_access_with_cwd plain_host demo_policy (named_path [''w'', ''x'']) [RootDir] = WriteAccess" by code_simp
qed (rule access_most_specific; simp add: demo_policy_def restricted_policy_def)

text \<open>
  Full access is what it says: when a policy reports full disk write access every path can be written,
  when it reports full disk read access every path can be read. (The entry \<open>:slash_tmp\<close> only resolves where
  \<open>/tmp\<close> is a directory, which the first part needs.)
\<close>

theorem full_disk_access_everywhere:
  assumes "wf_host h" and "wf_fs_policy policy" and "is_dir h [RootDir, NormalC ''tmp'']"
    and "absolute_of (host_env h) cwd = Some c" and "resolve_candidate_path h path cwd = Some p"
  shows "(has_full_disk_write_access policy \<longrightarrow> can_write_path_with_cwd h policy path cwd) \<and>
         (has_full_disk_read_access policy \<longrightarrow> can_read_path_with_cwd h policy path cwd)"
proof (cases "policy_kind policy = Restricted")
  case True
  have p: "wf_absolute p" by (rule candidate_wf [OF assms(1,5)])
  show ?thesis
    using restricted_full_write [OF assms(1,2,4) p assms(3) True] restricted_full_read [OF assms(1,4) p True]
    by (auto simp: can_write_path_with_cwd_def can_read_path_with_cwd_def resolve_access_at [OF True assms(5)]
        mode_can_write_def mode_can_read_def)
qed (simp add: can_write_path_with_cwd_def can_read_path_with_cwd_def resolve_access_with_cwd_def mode_can_write_def
    mode_can_read_def)

definition override_policy :: file_system_sandbox_policy where
  "override_policy = restricted_policy
     [entry (Special RootPath) WriteAccess, entry (FsPath (named_path [''tmp''])) ReadAccess,
      entry (Special SlashTmpPath) WriteAccess]"

theorem full_disk_access_everywhere_witness:
  "has_full_disk_write_access override_policy \<and>
   can_write_path_with_cwd plain_host override_policy (named_path [''tmp'', ''x'']) [RootDir]"
proof -
  have full: "has_full_disk_write_access override_policy" by code_simp
  have "wf_fs_policy override_policy" by (simp add: wf_fs_policy_def override_policy_def restricted_policy_def)
  moreover have "absolute_of (host_env plain_host) [RootDir] = Some [RootDir]" by code_simp
  ultimately show ?thesis
    using full full_disk_access_everywhere [of plain_host override_policy "[RootDir]" "[RootDir]"] by simp
qed

text \<open>
  Adding readable roots to a restricted policy takes no access away: every path keeps its access, or was
  denied, lies below one of the roots and becomes readable; and every root is readable afterwards unless an
  entry denies exactly that path.
\<close>

theorem additional_readable_roots_open:
  assumes "wf_host h" and "policy_kind policy = Restricted" and "list_all wf_absolute roots"
    and "absolute_of (host_env h) cwd = Some c" and "resolve_candidate_path h path cwd = Some p"
  defines "policy' \<equiv> with_additional_readable_roots h cwd roots policy"
  shows "(resolve_access_with_cwd h policy' path cwd = resolve_access_with_cwd h policy path cwd \<or>
          resolve_access_with_cwd h policy path cwd = DenyAccess \<and>
          resolve_access_with_cwd h policy' path cwd = ReadAccess \<and> (\<exists>q \<in> set roots. path_starts_with p q)) \<and>
         (\<forall>q \<in> set roots. can_read_path_with_cwd h policy' q cwd \<or>
            \<lparr>res_path = q, res_access = DenyAccess\<rparr> \<in> set (resolved_entries_with_cwd h policy cwd))"
proof (cases "has_full_disk_read_access policy")
  case True
  have "can_read_path_with_cwd h policy q cwd" if "q \<in> set roots" for q
    using that assms(3) restricted_full_read [OF assms(1,4) _ assms(2) True, of q]
    by (auto simp: list_all_iff can_read_at [OF assms(2)] mode_can_read_def)
  with True show ?thesis by (simp add: policy'_def additional_readable_fold)
next
  case False
  then have "policy' = fold (add_readable h cwd) roots policy" by (simp add: policy'_def additional_readable_fold)
  with fold_add_readable [OF assms(2,3), of h cwd] show ?thesis
    by (auto simp: resolve_access_at [OF _ assms(5)] assms(2) opens_reads_def path_starts_with_def)
qed

definition narrow_policy :: file_system_sandbox_policy where
  "narrow_policy = restricted_policy [entry (FsPath (named_path [''w''])) WriteAccess]"

theorem additional_readable_roots_open_witness:
  "can_read_path_with_cwd plain_host
     (with_additional_readable_roots plain_host [RootDir] [named_path [''docs'']] narrow_policy)
     (named_path [''docs'']) [RootDir]"
proof -
  have "absolute_of (host_env plain_host) [RootDir] = Some [RootDir]" by code_simp
  moreover have "resolved_entries_with_cwd plain_host narrow_policy [RootDir] =
      [\<lparr>res_path = named_path [''w''], res_access = WriteAccess\<rparr>]" by code_simp
  ultimately show ?thesis
    using additional_readable_roots_open [of plain_host narrow_policy "[named_path [''docs'']]" "[RootDir]" "[RootDir]"
        "named_path [''docs'']" "named_path [''docs'']"]
    by (simp add: narrow_policy_def restricted_policy_def)
qed



end
