(* ===== verification/Sandbox_Guards.thy ===== *)
theory Sandbox_Guards
  imports Sandbox_Facts
begin

text \<open>
  The guards around a file system policy: the metadata directories of writable roots, the roots a
  sandbox is given (\<open>get_writable_roots_with_cwd\<close>) against the access the policy grants, and the older
  policies, which survive the conversion to entries and back.
\<close>

section \<open>Metadata directories\<close>

lemma metadata_path_name_iff: "metadata_path_name s = Some n \<longleftrightarrow> s = n \<and> n \<in> set PROTECTED_METADATA_PATH_NAMES"
  by (auto simp: metadata_path_name_def PROTECTED_METADATA_PATH_NAMES_def split: if_splits)

lemma resolve_child:
  assumes "wf_absolute r" and "n \<noteq> ''~''"
  shows "resolve_against env [NormalC n] r = r @ [NormalC n]"
proof -
  have "wf_absolute (r @ [NormalC n])" using assms(1) by (auto simp: wf_absolute_cases is_normal_def)
  moreover have "expand_home env [NormalC n] = [NormalC n]"
    using assms(2) by (simp add: expand_home_def split: option.splits)
  moreover have "path_with_base [NormalC n] r = r @ [NormalC n]"
    using wf_absolute_ne [OF assms(1)] by (simp add: path_with_base_def path_join_def is_absolute_def)
  ultimately show ?thesis by (simp add: resolve_against_def absolutize_from_def normalize_fixed)
qed

lemma protected_names: "n \<in> set PROTECTED_METADATA_PATH_NAMES \<Longrightarrow> n \<noteq> ''~'' \<and> components n = [NormalC n]"
  by (auto simp: PROTECTED_METADATA_PATH_NAMES_def) code_simp+

lemma metadata_child_iff:
  assumes p: "wf_absolute p" and r: "wf_absolute (res_path r)"
  shows "metadata_child h p r = Some (protected, n) \<longleftrightarrow>
    n \<in> set PROTECTED_METADATA_PATH_NAMES \<and> protected = res_path r @ [NormalC n] \<and> prefix protected p"
proof (cases "\<exists>c cs. p = res_path r @ c # cs")
  case True
  then obtain c cs where c: "p = res_path r @ c # cs" by blast
  obtain ms where "res_path r = RootDir # ms" using r by (auto simp: wf_absolute_cases)
  with p c obtain m where m: "c = NormalC m" by (auto simp: wf_absolute_cases is_normal_iff)
  have strip: "path_strip_prefix p (res_path r) = Some (NormalC m # cs)" using c m by (simp add: path_strip_prefix_def)
  have child: "resolve_against (host_env h) [NormalC n] (res_path r) = res_path r @ [NormalC n]"
    if "n \<in> set PROTECTED_METADATA_PATH_NAMES" for n
    using resolve_child [OF r] protected_names [OF that] by blast
  have pre: "prefix (res_path r @ [NormalC n]) p \<longleftrightarrow> n = m" using c m by (auto simp: prefix_def)
  show ?thesis
    by (auto simp: metadata_child_def strip metadata_path_name_iff bind_eq_Some_conv child pre)
next
  case False
  then have "\<not> (prefix (res_path r) p \<and> drop (length (res_path r)) p \<noteq> [])"
    by (auto simp: prefix_def) (metis list.exhaust)
  then have "metadata_child h p r = None" by (auto simp: metadata_child_def path_strip_prefix_def split: list.splits)
  moreover have "\<not> prefix (res_path r @ [NormalC n]) p" using False by (auto simp: prefix_def)
  ultimately show ?thesis by auto
qed

lemma first_opt_Some: "first_opt xs = Some x \<Longrightarrow> x \<in> set xs"
  by (cases xs) (auto simp: first_opt_def)

lemma first_opt_None [simp]: "first_opt xs = None \<longleftrightarrow> xs = []"
  by (cases xs) (auto simp: first_opt_def)

lemma child_of_root:
  assumes "metadata_child_of_writable_root h policy p cwd = Some c"
  obtains r where "r \<in> set (resolved_entries_with_cwd h policy cwd)" "res_access r = WriteAccess"
    "metadata_child h p r = Some c"
  using first_opt_Some [OF assms [unfolded metadata_child_of_writable_root_def]]
  by (auto simp: in_set_map_filter mode_can_write_def)

lemma child_of_root_None:
  assumes "metadata_child_of_writable_root h policy p cwd = None"
    and "r \<in> set (resolved_entries_with_cwd h policy cwd)" and "res_access r = WriteAccess"
  shows "metadata_child h p r = None"
proof (cases "metadata_child h p r")
  case (Some c)
  then have "c \<in> set (List.map_filter (metadata_child h p)
      (filter (\<lambda>e. mode_can_write (res_access e)) (resolved_entries_with_cwd h policy cwd)))"
    using assms(2,3) by (auto simp: in_set_map_filter mode_can_write_def)
  then show ?thesis using assms(1) by (auto simp: metadata_child_of_writable_root_def)
qed

lemma explicit_write_entry:
  "has_explicit_write_entry_for_metadata_path h policy protected p cwd \<longleftrightarrow>
   (\<exists>e \<in> set (resolved_entries_with_cwd h policy cwd).
      res_access e = WriteAccess \<and> prefix (res_path e) p \<and> prefix protected (res_path e))"
  by (auto simp: has_explicit_write_entry_for_metadata_path_def list_ex_iff mode_can_write_def path_starts_with_def)

lemma can_write_iff:
  assumes "policy_kind policy = Restricted" and "\<not> has_full_disk_write_access policy" and "wf_absolute p"
  shows "can_write_path_with_cwd h policy p cwd \<longleftrightarrow>
    access_at (resolved_entries_with_cwd h policy cwd) p = WriteAccess \<and>
    (case metadata_child_of_writable_root h policy p cwd of None \<Rightarrow> True
     | Some (protected, _) \<Rightarrow> has_explicit_write_entry_for_metadata_path h policy protected p cwd)"
  using assms
  by (auto simp: can_write_path_with_cwd_def is_metadata_write_denied_def resolve_access_at [OF _ candidate_of_wf]
      candidate_of_wf mode_can_write_def split: option.splits)

lemma metadata_needs_entry:
  assumes wf: "wf_host h" "wf_fs_policy policy" and kind: "policy_kind policy = Restricted"
    and full: "\<not> has_full_disk_write_access policy" and p: "wf_absolute p"
    and r: "r \<in> set (resolved_entries_with_cwd h policy cwd)" "res_access r = WriteAccess"
      "n \<in> set PROTECTED_METADATA_PATH_NAMES" "prefix (res_path r @ [NormalC n]) p"
    and w: "can_write_path_with_cwd h policy p cwd"
  obtains r' n' e where "r' \<in> set (resolved_entries_with_cwd h policy cwd)" "res_access r' = WriteAccess"
    "n' \<in> set PROTECTED_METADATA_PATH_NAMES" "e \<in> set (resolved_entries_with_cwd h policy cwd)"
    "res_access e = WriteAccess" "prefix (res_path r' @ [NormalC n']) (res_path e)" "prefix (res_path e) p"
proof -
  have wfr: "wf_absolute (res_path r)" if "r \<in> set (resolved_entries_with_cwd h policy cwd)" for r
    using resolved_wf [OF wf that] .
  have "metadata_child h p r = Some (res_path r @ [NormalC n], n)"
    using metadata_child_iff [OF p wfr [OF r(1)]] r(3,4) by blast
  then obtain protected n' where c: "metadata_child_of_writable_root h policy p cwd = Some (protected, n')"
    using child_of_root_None [OF _ r(1,2)] by (cases "metadata_child_of_writable_root h policy p cwd") auto
  then obtain r' where r': "r' \<in> set (resolved_entries_with_cwd h policy cwd)" "res_access r' = WriteAccess"
    "metadata_child h p r' = Some (protected, n')" by (rule child_of_root)
  have "has_explicit_write_entry_for_metadata_path h policy protected p cwd"
    using w c by (simp add: can_write_iff [OF kind full p])
  then show ?thesis
    using that r'(1,2) r'(3) [unfolded metadata_child_iff [OF p wfr [OF r'(1)]]] explicit_write_entry by blast
qed

section \<open>Writable roots\<close>

text \<open>Without symbolic links every normal path is its own real path.\<close>

definition no_links :: "host \<Rightarrow> bool" where
  "no_links h \<longleftrightarrow> (\<forall>p. wf_absolute p \<longrightarrow> real_path h p = None \<or> real_path h p = Some p)"

lemma effective_loop_id:
  assumes "no_links h" and "wf_absolute raw"
  shows "list_all (\<lambda>a. wf_absolute a \<and> prefix a raw) as \<Longrightarrow> effective_loop h raw as = raw"
proof (induction "as")
  case (Cons a "as")
  then have a: "wf_absolute a" "prefix a raw" by simp_all
  have canon: "canonicalize_preserving_symlinks h a = Some a"
    using assms(1) a(1) by (auto simp: canonicalize_preserving_symlinks_def absolute_of_wf no_links_def split: option.splits)
  obtain ns where raw: "raw = a @ ns" using a(2) by (auto simp: prefix_def)
  have "path_join a ns = raw"
    using raw assms(2) a(1)
    by (cases ns) (auto simp: wf_absolute_cases path_join_def is_absolute_def is_normal_iff)
  then have "absolute_of (host_env h) (path_join a (drop (length a) raw)) = Some raw"
    using absolute_of_wf [OF assms(2)] raw by simp
  then show ?case using Cons canon a(2) by (simp add: path_strip_prefix_def)
qed simp

lemma ancestors_wf:
  assumes "wf_absolute p"
  shows "list_all (\<lambda>a. wf_absolute a \<and> prefix a p) (path_ancestors p)"
proof -
  obtain ns where p: "p = RootDir # ns" "list_all is_normal ns" using assms by (auto simp: wf_absolute_cases)
  have "wf_absolute (take k p) \<and> prefix (take k p) p" if "1 \<le> k" for k
    using p that by (cases k) (auto simp: wf_absolute_cases take_is_prefix list_all_iff dest: in_set_takeD)
  then show ?thesis
    using wf_absolute_is_absolute [OF assms] by (auto simp: path_ancestors_def list_all_iff)
qed

lemma effective_id: "no_links h \<Longrightarrow> wf_absolute p \<Longrightarrow> normalize_effective_absolute_path h p = p"
  by (simp add: normalize_effective_absolute_path_def effective_loop_id ancestors_wf)

lemma set_dedup_loop: "set (dedup_loop seen ps) = set ps - set seen"
  by (induction ps arbitrary: seen) auto

lemma dedup_loop_distinct: "distinct ps \<Longrightarrow> set seen \<inter> set ps = {} \<Longrightarrow> dedup_loop seen ps = ps"
  by (induction ps arbitrary: seen) auto

lemma set_dedup: "set (dedup_absolute_paths h ps False) = set ps"
  by (simp add: dedup_absolute_paths_def set_dedup_loop)

lemma set_dedup_effective:
  "no_links h \<Longrightarrow> list_all wf_absolute ps \<Longrightarrow> set (dedup_absolute_paths h ps True) = set ps"
  by (auto simp: dedup_absolute_paths_def set_dedup_loop effective_id list_all_iff image_iff)

lemma carveout_below:
  assumes "no_links h" and "wf_absolute p" and "strict_prefix root p"
  shows "carveout h root raw p = Some p"
  using assms effective_id [OF assms(1,2)]
  by (auto simp: carveout_def path_starts_with_def strict_prefix_def Let_def)

lemma writable_root_in:
  assumes links: "no_links h" and wf: "wf_host h" "wf_fs_policy policy"
    and r: "r \<in> set (get_writable_roots_with_cwd h policy cwd)"
  defines "es \<equiv> resolved_entries_with_cwd h policy cwd"
  obtains e W where "\<not> has_full_disk_write_access policy" "policy_kind policy = Restricted"
    "e \<in> set es" "res_access e = WriteAccess" "can_write_path_with_cwd h policy (res_path e) cwd"
    "r = writable_root_of h policy cwd es W (res_path e)" "res_path e \<in> set W" "list_all wf_absolute W"
proof -
  let ?W = "map res_path (filter (\<lambda>e. mode_can_write (res_access e) \<and> can_write_path_with_cwd h policy (res_path e) cwd) es)"
  have wfW: "list_all wf_absolute ?W" using resolved_wf [OF wf] by (auto simp: list_all_iff es_def)
  have full: "\<not> has_full_disk_write_access policy" using r by (auto simp: get_writable_roots_with_cwd_def)
  then have kind: "policy_kind policy = Restricted"
    by (auto simp: has_full_disk_write_access_def split: file_system_sandbox_kind.splits)
  have "r \<in> writable_root_of h policy cwd es ?W ` set ?W"
    using r full set_dedup_effective [OF links wfW] by (simp add: get_writable_roots_with_cwd_def es_def Let_def)
  then show ?thesis using that full kind wfW by (auto simp: mode_can_write_def)
qed

lemma carved:
  assumes "no_links h" and "wf_absolute (res_path e)" and "e \<in> set es" and "res_access e \<noteq> WriteAccess"
    and "\<not> can_write_path_with_cwd h policy (res_path e) cwd" and "strict_prefix root (res_path e)"
  shows "res_path e \<in> set (wr_read_only_subpaths (writable_root_of h policy cwd es W root))"
  using assms carveout_below [OF assms(1,2,6)]
  by (auto simp: writable_root_of_def Let_def set_dedup in_set_map_filter mode_can_write_def)

lemma writable_root_root [simp]: "wr_root (writable_root_of h policy cwd es W root) = root"
  by (simp add: writable_root_of_def Let_def)

lemma writable_root_access:
  assumes wf: "wf_host h" "wf_fs_policy policy" and links: "no_links h" and p: "wf_absolute p"
    and kind: "policy_kind policy = Restricted" and full: "\<not> has_full_disk_write_access policy"
    and es: "es = resolved_entries_with_cwd h policy cwd"
    and e: "e \<in> set es" "can_write_path_with_cwd h policy (res_path e) cwd"
    and w: "is_path_writable (writable_root_of h policy cwd es W (res_path e)) p"
  shows "access_at es p = WriteAccess"
proof -
  have wfe: "wf_absolute (res_path x)" if "x \<in> set es" for x using resolved_wf [OF wf] that by (simp add: es)
  have below: "prefix (res_path e) p" using w by (auto simp: is_path_writable_def path_starts_with_def split: if_splits)
  obtain q where g: "governs es p q" using governs_or_uncovered [of es p] e(1) below by (auto simp: uncovered_def)
  then have q: "prefix q p" "length (res_path e) \<le> length q" using e(1) below by (auto simp: governs_def)
  obtain x where x: "x \<in> set es" "res_path x = q" "access_at es p = res_access x" using governed_by [OF g] by blast
  have same: "access_at es q = access_at es p" by (rule access_same [OF governs_prefix [OF g q(1) order_refl] g])
  show ?thesis
  proof (cases "res_path e = q")
    case True
    then show ?thesis using same e can_write_iff [OF kind full wfe [OF e(1)]] by (simp add: es)
  next
    case False
    have strict: "strict_prefix (res_path e) q"
      using False q below prefix_length_prefix [OF below q(1) q(2)] by (simp add: strict_prefix_def)
    show ?thesis
    proof (rule ccontr)
      assume deny: "access_at es p \<noteq> WriteAccess"
      then have "\<not> can_write_path_with_cwd h policy (res_path x) cwd"
        using same x(2) can_write_iff [OF kind full wfe [OF x(1)]] by (simp add: es)
      from carved [OF links wfe [OF x(1)] x(1) _ this] strict x deny
      have "q \<in> set (wr_read_only_subpaths (writable_root_of h policy cwd es W (res_path e)))" by simp
      then show False using w q(1) by (auto simp: is_path_writable_def path_starts_with_def list_ex_iff split: if_splits)
    qed
  qed
qed

lemma first_opt_narrower:
  assumes "\<And>x c. x \<in> set xs \<Longrightarrow> g x = Some c \<Longrightarrow> f x = Some c"
    and "\<And>x. x \<in> set xs \<Longrightarrow> f x = Some c0 \<Longrightarrow> g x = Some c0"
    and "first_opt (List.map_filter f xs) = Some c0"
  shows "first_opt (List.map_filter g xs) = Some c0"
  using assms
proof (induction xs)
  case (Cons x xs)
  show ?case
  proof (cases "f x")
    case None
    then have "g x = None" using Cons.prems(1) [of x] by (cases "g x") auto
    moreover have rest: "first_opt (List.map_filter f xs) = Some c0" using Cons.prems(3) None by (simp add: map_filter_simps)
    have "first_opt (List.map_filter g xs) = Some c0"
      by (rule Cons.IH [OF Cons.prems(1) Cons.prems(2) rest]) auto
    ultimately show ?thesis by (simp add: map_filter_simps)
  next
    case (Some c)
    then have "c = c0" using Cons.prems(3) by (simp add: map_filter_simps first_opt_def)
    then show ?thesis using Some Cons.prems(2) [of x] by (simp add: map_filter_simps first_opt_def)
  qed
qed (simp add: map_filter_simps first_opt_def)

text \<open>The protected directory of a path is also found for that directory itself.\<close>

lemma protected_of_protected:
  assumes wf: "wf_host h" "wf_fs_policy policy" and p: "wf_absolute p"
    and c: "metadata_child_of_writable_root h policy p cwd = Some (protected, n)"
  shows "metadata_child_of_writable_root h policy protected cwd = Some (protected, n)"
  unfolding metadata_child_of_writable_root_def
proof (rule first_opt_narrower [OF _ _ c [unfolded metadata_child_of_writable_root_def]])
  obtain r where r: "r \<in> set (resolved_entries_with_cwd h policy cwd)" "metadata_child h p r = Some (protected, n)"
    using c by (rule child_of_root)
  have pr: "protected = res_path r @ [NormalC n]" "prefix protected p"
    using r metadata_child_iff [OF p resolved_wf [OF wf r(1)]] by blast+
  have wfp: "wf_absolute protected"
    using pr resolved_wf [OF wf r(1)] by (auto simp: wf_absolute_cases is_normal_def)
  fix x assume "x \<in> set (filter (\<lambda>e. mode_can_write (res_access e)) (resolved_entries_with_cwd h policy cwd))"
  then have x: "wf_absolute (res_path x)" using resolved_wf [OF wf, of x cwd] by simp
  show "metadata_child h protected x = Some c \<Longrightarrow> metadata_child h p x = Some c" for c
    using metadata_child_iff [OF p x] metadata_child_iff [OF wfp x] prefix_order.trans [OF _ pr(2)] by (cases c) blast
  show "metadata_child h p x = Some (protected, n) \<Longrightarrow> metadata_child h protected x = Some (protected, n)"
    using metadata_child_iff [OF p x] metadata_child_iff [OF wfp x] by blast
qed

lemma root_join_protected:
  "wf_absolute root \<Longrightarrow> n \<in> set PROTECTED_METADATA_PATH_NAMES \<Longrightarrow> root_join h root n = root @ [NormalC n]"
  using protected_names [of n] by (simp add: root_join_def resolve_child)

lemma unprotected_name:
  assumes "no_links h" and "wf_absolute root" and "list_all wf_absolute W" and "root \<in> set W"
    and "n \<in> set PROTECTED_METADATA_PATH_NAMES"
    and "n \<notin> set (wr_protected_metadata_names (writable_root_of h policy cwd es W root))"
  shows "can_write_path_with_cwd h policy (root @ [NormalC n]) cwd"
proof -
  let ?raws = "filter (\<lambda>p. normalize_effective_absolute_path h p = root) W"
  have raws: "set ?raws \<subseteq> {root}" using assms(1,3) effective_id by (auto simp: list_all_iff)
  have "\<not> list_all (\<lambda>p. \<not> can_write_path_with_cwd h policy p cwd)
      (root_join h root n # map (\<lambda>raw. root_join h raw n) ?raws)"
    using assms(5,6) by (simp add: writable_root_of_def Let_def protected_metadata_names_for_writable_root_def)
  then obtain q where q: "q \<in> insert root (set ?raws)" "can_write_path_with_cwd h policy (root_join h q n) cwd"
    unfolding list_all_iff by auto
  then have "q = root" using raws by blast
  then show ?thesis using q(2) root_join_protected [OF assms(2,5), of h] by simp
qed

lemma writable_root_metadata:
  assumes wf: "wf_host h" "wf_fs_policy policy" and links: "no_links h" and p: "wf_absolute p"
    and kind: "policy_kind policy = Restricted" and full: "\<not> has_full_disk_write_access policy"
    and es: "es = resolved_entries_with_cwd h policy cwd"
    and e: "e \<in> set es" "res_access e = WriteAccess"
    and W: "res_path e \<in> set W" "list_all wf_absolute W"
    and w: "is_path_writable (writable_root_of h policy cwd es W (res_path e)) p"
    and inner: "\<And>x. x \<in> set es \<Longrightarrow> res_access x = WriteAccess \<Longrightarrow> prefix (res_path x) p \<Longrightarrow> prefix (res_path x) (res_path e)"
    and c: "metadata_child_of_writable_root h policy p cwd = Some (protected, n)"
  shows "has_explicit_write_entry_for_metadata_path h policy protected p cwd"
proof -
  have wfe: "wf_absolute (res_path x)" if "x \<in> set es" for x using resolved_wf [OF wf] that by (simp add: es)
  obtain r where r: "r \<in> set es" "res_access r = WriteAccess" "metadata_child h p r = Some (protected, n)"
    using c unfolding es by (rule child_of_root)
  have pr: "n \<in> set PROTECTED_METADATA_PATH_NAMES" "protected = res_path r @ [NormalC n]" "prefix protected p"
    using r(3) unfolding metadata_child_iff [OF p wfe [OF r(1)]] by auto
  have below: "prefix (res_path e) p" using w by (auto simp: is_path_writable_def path_starts_with_def split: if_splits)
  have up: "prefix (res_path r) (res_path e)"
    by (rule inner [OF r(1,2)]) (use pr in \<open>auto dest: append_prefixD\<close>)
  show ?thesis
  proof (cases "res_path r = res_path e")
    case False
    then have "length (res_path r) < length (res_path e)"
      using up prefix_length_le [OF up] prefix_same_length [OF up prefix_order.refl] by linarith
    then have "prefix protected (res_path e)" using pr(2) by (intro prefix_length_prefix [OF pr(3) below]) simp
    then show ?thesis using e below by (auto simp: explicit_write_entry es)
  next
    case True
    then obtain cs where "p = res_path e @ NormalC n # cs" using pr by (auto simp: prefix_def)
    then have "n \<notin> set (wr_protected_metadata_names (writable_root_of h policy cwd es W (res_path e)))"
      using w by (auto simp: is_path_writable_def path_contains_protected_metadata_name_def path_strip_prefix_def
          list_ex_iff split: if_splits)
    from unprotected_name [OF links wfe [OF e(1)] W(2,1) pr(1) this]
    have can: "can_write_path_with_cwd h policy protected cwd" using pr(2) True by simp
    have "wf_absolute protected" using pr(2) wfe [OF r(1)] by (auto simp: wf_absolute_cases is_normal_def)
    from can have "has_explicit_write_entry_for_metadata_path h policy protected protected cwd"
      by (simp add: can_write_iff [OF kind full \<open>wf_absolute protected\<close>] protected_of_protected [OF wf p c])
    then show ?thesis using pr(3) prefix_order.trans by (auto simp: explicit_write_entry)
  qed
qed

section \<open>The older policies\<close>

definition extends_by_reads :: "file_system_sandbox_entry list \<Rightarrow> file_system_sandbox_entry list \<Rightarrow> bool" where
  "extends_by_reads es es' \<longleftrightarrow> (\<exists>xs. es' = es @ xs \<and> list_all (\<lambda>e. entry_access e = ReadAccess) xs)"

lemma extends_refl [simp]: "extends_by_reads es es"
  by (simp add: extends_by_reads_def)

lemma extends_trans [trans]: "extends_by_reads a b \<Longrightarrow> extends_by_reads b c \<Longrightarrow> extends_by_reads a c"
  by (auto simp: extends_by_reads_def)

lemma extends_default [intro]: "extends_by_reads es (append_default_read_only_entry_if_no_explicit_rule p es)"
  by (simp add: append_default_read_only_entry_if_no_explicit_rule_def extends_by_reads_def)

lemma extends_fold: "(\<And>x es. extends_by_reads es (f x es)) \<Longrightarrow> extends_by_reads es (fold f xs es)"
  by (induction xs arbitrary: es) (auto intro: extends_trans)

lemma extends_protect: "extends_by_reads es (protect_root h b root es)"
  unfolding protect_root_def
  by (rule extends_fold) (simp add: append_default_read_only_path_if_no_explicit_rule_def extends_default)

lemma extends_workspace:
  "extends_by_reads (base_write_entries roots et es) (entries (workspace_write h roots et es))"
proof -
  have sub: "extends_by_reads xs (append_default_read_only_project_root_subpath_if_no_explicit_rule s xs)" for s xs
    by (simp add: append_default_read_only_project_root_subpath_if_no_explicit_rule_def extends_default)
  show ?thesis
    unfolding workspace_write_def restricted_policy_def Let_def file_system_sandbox_policy.select_convs
    by (rule extends_trans [OF extends_trans [OF extends_trans [OF sub sub] sub] extends_fold [OF extends_protect]])
qed

lemma extends_for_cwd:
  "extends_by_reads (base_write_entries roots et es)
     (entries (from_legacy_sandbox_policy_for_cwd h (WorkspaceWrite roots na et es) cwd))"
proof -
  let ?w = "workspace_write h roots et es"
  have "extends_by_reads (entries ?w)
      (case absolute_of (host_env h) cwd of Some c \<Rightarrow> protect_root h True c (entries ?w) | None \<Rightarrow> entries ?w)"
    by (cases "absolute_of (host_env h) cwd") (simp_all add: extends_protect)
  note ext = extends_trans [OF extends_trans [OF extends_workspace this] extends_fold [OF extends_protect]]
  show ?thesis
    unfolding from_legacy_sandbox_policy_for_cwd_def from_sandbox_policy_legacy_def sandbox_policy.case Let_def
    by (simp add: ext)
qed

lemma scan_reads:
  "list_all (\<lambda>e. entry_access e = ReadAccess) xs \<Longrightarrow> fold (legacy_scan_step h cwd) xs s = s"
proof (induction xs)
  case (Cons e xs)
  then have "legacy_scan_step h cwd e s = s"
    by (auto simp: legacy_scan_step_def mode_can_write_def split: file_system_path.splits file_system_special_path.splits option.splits)
  with Cons show ?case by simp
qed simp

lemma scan_roots:
  "cwd \<notin> Some ` set roots \<Longrightarrow>
   fold (legacy_scan_step h cwd) (map (\<lambda>p. entry (FsPath p) WriteAccess) roots) s =
     s\<lparr>scan_writable_roots := scan_writable_roots s @ roots\<rparr>"
  by (induction roots arbitrary: s) (auto simp: legacy_scan_step_def mode_can_write_def)

lemma scan_base:
  "cwd \<notin> Some ` set roots \<Longrightarrow>
   fold (legacy_scan_step h cwd) (base_write_entries roots et es) empty_scan =
     \<lparr>workspace_root_writable = True, scan_writable_roots = roots, tmpdir_writable = \<not> et,
      slash_tmp_writable = \<not> es, unbridgeable_root_write = False\<rparr>"
  by (simp add: base_write_entries_def scan_roots empty_scan_def) (simp add: legacy_scan_step_def mode_can_write_def)

lemma network_access_cases: "x \<noteq> NetworkAccessEnabled \<longleftrightarrow> x = NetworkAccessRestricted"
  by (cases x) simp_all

lemma workspace_to_legacy:
  assumes ext: "extends_by_reads (base_write_entries roots et es) (entries policy)" and kind: "policy_kind policy = Restricted"
    and roots: "distinct roots" "absolute_of (host_env h) cwd \<notin> Some ` set roots"
  shows "to_legacy_sandbox_policy h policy network cwd = Ok (WorkspaceWrite roots (network_is_enabled network) et es)"
proof -
  obtain xs where xs: "entries policy = base_write_entries roots et es @ xs" "list_all (\<lambda>e. entry_access e = ReadAccess) xs"
    using ext by (auto simp: extends_by_reads_def)
  have "\<not> has_full_disk_write_access policy"
    using xs kind by (auto simp: has_full_disk_write_access_def has_root_access_def base_write_entries_def list_ex_iff
        list_all_iff mode_can_write_def)
  then show ?thesis
    using kind xs roots dedup_loop_distinct [OF roots(1), of "[]"]
    by (simp add: to_legacy_sandbox_policy_def scan_base scan_reads dedup_absolute_paths_def)
qed

section \<open>Properties\<close>

text \<open>
  C30. The writable roots handed to a sandbox stay within the policy: on a host without symbolic links, a path
  that is writable in one of the roots of \<open>get_writable_roots_with_cwd\<close> (below the root, not below one of its
  read-only subpaths, not in one of its protected metadata directories) resolves to write access; and it can be
  written, metadata protection included, when every writable entry that contains it contains the root too.
\<close>

theorem writable_roots_within_policy:
  assumes wf: "wf_host h" "wf_fs_policy policy" and links: "no_links h" and p: "wf_absolute p"
    and r: "r \<in> set (get_writable_roots_with_cwd h policy cwd)" and w: "is_path_writable r p"
  shows "resolve_access_with_cwd h policy p cwd = WriteAccess \<and>
    (list_all (\<lambda>e. res_access e = WriteAccess \<and> path_starts_with p (res_path e) \<longrightarrow> path_starts_with (wr_root r) (res_path e))
       (resolved_entries_with_cwd h policy cwd) \<longrightarrow> can_write_path_with_cwd h policy p cwd)"
proof -
  let ?es = "resolved_entries_with_cwd h policy cwd"
  obtain e W where full: "\<not> has_full_disk_write_access policy" and kind: "policy_kind policy = Restricted"
    and e: "e \<in> set ?es" "res_access e = WriteAccess" "can_write_path_with_cwd h policy (res_path e) cwd"
    and rW: "r = writable_root_of h policy cwd ?es W (res_path e)" "res_path e \<in> set W" "list_all wf_absolute W"
    by (rule writable_root_in [OF links wf r])
  have acc: "access_at ?es p = WriteAccess"
    by (rule writable_root_access [OF wf links p kind full refl e(1,3) w [unfolded rW(1)]])
  have "can_write_path_with_cwd h policy p cwd"
    if "list_all (\<lambda>e. res_access e = WriteAccess \<and> path_starts_with p (res_path e) \<longrightarrow>
          path_starts_with (wr_root r) (res_path e)) ?es"
  proof -
    have "prefix (res_path x) (res_path e)" if "x \<in> set ?es" "res_access x = WriteAccess" "prefix (res_path x) p" for x
      using \<open>list_all _ ?es\<close> that rW(1) by (auto simp: list_all_iff path_starts_with_def)
    from writable_root_metadata [OF wf links p kind full refl e(1,2) rW(2,3) w [unfolded rW(1)] this]
    show ?thesis using acc by (auto simp: can_write_iff [OF kind full p] split: option.splits)
  qed
  then show ?thesis using acc kind candidate_of_wf [OF p] by (simp add: resolve_access_at)
qed

definition workspace_policy :: file_system_sandbox_policy where
  "workspace_policy = restricted_policy
     [entry (Special RootPath) ReadAccess, entry (FsPath (named_path [''a''])) WriteAccess,
      entry (FsPath (named_path [''a'', ''ro''])) ReadAccess]"

theorem writable_roots_within_policy_witness:
  "resolve_access_with_cwd plain_host workspace_policy (named_path [''a'', ''x'']) [RootDir] = WriteAccess"
proof -
  let ?r = "\<lparr>wr_root = named_path [''a''], wr_read_only_subpaths = [named_path [''a'', ''ro'']],
    wr_protected_metadata_names = PROTECTED_METADATA_PATH_NAMES\<rparr>"
  have r: "?r \<in> set (get_writable_roots_with_cwd plain_host workspace_policy [RootDir])" by code_simp
  have w: "is_path_writable ?r (named_path [''a'', ''x''])" by code_simp
  have wf: "wf_fs_policy workspace_policy" by (simp add: wf_fs_policy_def workspace_policy_def restricted_policy_def)
  have "no_links plain_host" by (simp add: no_links_def plain_host_def)
  from writable_roots_within_policy [OF _ wf this _ r w] show ?thesis by simp
qed

text \<open>
  Writing below the metadata directory (\<open>.git\<close>, \<open>.agents\<close>, \<open>.gienx\<close>) of a writable entry takes an
  explicit permission: if such a path can be written under a restricted policy without full write access,
  then some write entry that contains it lies at or below a metadata directory of a writable entry.
\<close>

theorem metadata_write_needs_entry:
  assumes "wf_host h" and "wf_fs_policy policy" and "policy_kind policy = Restricted"
    and "\<not> has_full_disk_write_access policy" and "wf_absolute p"
    and "r \<in> set (resolved_entries_with_cwd h policy cwd)" and "res_access r = WriteAccess"
    and "n \<in> set PROTECTED_METADATA_PATH_NAMES" and "path_starts_with p (res_path r @ [NormalC n])"
    and "can_write_path_with_cwd h policy p cwd"
  shows "\<exists>r' n' e. {r', e} \<subseteq> set (resolved_entries_with_cwd h policy cwd) \<and> res_access r' = WriteAccess \<and>
    res_access e = WriteAccess \<and> n' \<in> set PROTECTED_METADATA_PATH_NAMES \<and>
    path_starts_with (res_path e) (res_path r' @ [NormalC n']) \<and> path_starts_with p (res_path e)"
  using metadata_needs_entry [OF assms(1-8) _ assms(10)] assms(9) unfolding path_starts_with_def by fastforce

definition explicit_policy :: file_system_sandbox_policy where
  "explicit_policy = restricted_policy
     [entry (FsPath (named_path [''a''])) WriteAccess, entry (FsPath (named_path [''a'', ''.git'', ''m''])) WriteAccess]"

theorem metadata_write_needs_entry_witness:
  "can_write_path_with_cwd plain_host explicit_policy (named_path [''a'', ''.git'', ''m'', ''x'']) [RootDir] \<and>
   \<not> can_write_path_with_cwd plain_host explicit_policy (named_path [''a'', ''.git'', ''x'']) [RootDir] \<and>
   (\<exists>r' n' e. {r', e} \<subseteq> set (resolved_entries_with_cwd plain_host explicit_policy [RootDir]) \<and>
      res_access r' = WriteAccess \<and> res_access e = WriteAccess \<and> n' \<in> set PROTECTED_METADATA_PATH_NAMES \<and>
      path_starts_with (res_path e) (res_path r' @ [NormalC n']) \<and>
      path_starts_with (named_path [''a'', ''.git'', ''m'', ''x'']) (res_path e))"
proof -
  have can: "can_write_path_with_cwd plain_host explicit_policy (named_path [''a'', ''.git'', ''m'', ''x'']) [RootDir]"
    "\<not> can_write_path_with_cwd plain_host explicit_policy (named_path [''a'', ''.git'', ''x'']) [RootDir]" by code_simp+
  have r: "\<lparr>res_path = named_path [''a''], res_access = WriteAccess\<rparr>
      \<in> set (resolved_entries_with_cwd plain_host explicit_policy [RootDir])" by code_simp
  have full: "\<not> has_full_disk_write_access explicit_policy" by code_simp
  have n: "''.git'' \<in> set PROTECTED_METADATA_PATH_NAMES" by code_simp
  have below: "path_starts_with (named_path [''a'', ''.git'', ''m'', ''x'']) (named_path [''a''] @ [NormalC ''.git''])"
    by code_simp
  have wf: "wf_fs_policy explicit_policy" "policy_kind explicit_policy = Restricted"
    by (simp_all add: wf_fs_policy_def explicit_policy_def restricted_policy_def)
  show ?thesis
    using can metadata_write_needs_entry [OF plain_host_simps(2) wf full named_path_wf r _ n _ can(1)] below by simp
qed

definition nested_policy :: file_system_sandbox_policy where
  "nested_policy = restricted_policy
     [entry (Special RootPath) ReadAccess, entry (FsPath (named_path [''a''])) WriteAccess,
      entry (FsPath (named_path [''a'', ''b''])) WriteAccess]"

text \<open>
  Two gaps in the protection of metadata. With write access to \<open>/a\<close> and to \<open>/a/b\<close>, the policy refuses to
  write \<open>/a/b/.git/config\<close>, but the path is writable in the root \<open>/a\<close> handed to the sandbox. And the answer can
  depend on the order of the entries: with write access to \<open>/a\<close> and to \<open>/a/.git/m\<close>, the path
  \<open>/a/.git/m/.git/x\<close> can be written when the outer entry comes first and not when the inner one does.
\<close>

theorem metadata_protection_gaps:
  "(\<not> can_write_path_with_cwd plain_host nested_policy (named_path [''a'', ''b'', ''.git'', ''config'']) [RootDir] \<and>
    list_ex (\<lambda>r. is_path_writable r (named_path [''a'', ''b'', ''.git'', ''config'']))
      (get_writable_roots_with_cwd plain_host nested_policy [RootDir])) \<and>
   can_write_path_with_cwd plain_host explicit_policy (named_path [''a'', ''.git'', ''m'', ''.git'', ''x'']) [RootDir] \<and>
   \<not> can_write_path_with_cwd plain_host (explicit_policy\<lparr>entries := rev (entries explicit_policy)\<rparr>)
        (named_path [''a'', ''.git'', ''m'', ''.git'', ''x'']) [RootDir]"
  by code_simp



end
