(* ===== verification/Permission_Grants.thy ===== *)
theory Permission_Grants
  imports Sandbox_Guards
begin

text \<open>
  Permissions a command asks for on top of its policy and the user grants
  (\<open>sandboxing/src/policy_transforms.rs\<close>, with the types of \<open>protocol/src/models.rs\<close>): normalising a request,
  merging grants, intersecting a grant with the request it answers, and the policy that results.
\<close>

section \<open>Profiles\<close>

record file_system_permissions =
  perm_entries :: "file_system_sandbox_entry list"
  perm_glob_scan_max_depth :: "nat option"

type_synonym network_permissions = "bool option"

record additional_permission_profile =
  add_network :: "network_permissions option"
  add_file_system :: "file_system_permissions option"

definition no_file_system_permissions :: file_system_permissions where
  "no_file_system_permissions = \<lparr>perm_entries = [], perm_glob_scan_max_depth = None\<rparr>"

definition permissions_is_empty :: "file_system_permissions \<Rightarrow> bool" where
  "permissions_is_empty p = (perm_entries p = [])"

definition network_permissions_is_empty :: "network_permissions \<Rightarrow> bool" where
  "network_permissions_is_empty n = (n = None)"

definition profile_is_empty :: "additional_permission_profile \<Rightarrow> bool" where
  "profile_is_empty p = (add_network p = None \<and> add_file_system p = None)"

text \<open>\<open>Option::filter\<close>, and \<open>and_then(NonZeroUsize::new)\<close>.\<close>

definition filter_opt :: "('a \<Rightarrow> bool) \<Rightarrow> 'a option \<Rightarrow> 'a option" where
  "filter_opt P x = (case x of Some v \<Rightarrow> if P v then Some v else None | None \<Rightarrow> None)"

definition non_zero :: "nat option \<Rightarrow> nat option" where
  "non_zero d = filter_opt (\<lambda>n. n \<noteq> 0) d"

text \<open>\<open>if !v.contains(x) { v.push(x) }\<close>\<close>

definition push_missing :: "'a \<Rightarrow> 'a list \<Rightarrow> 'a list" where
  "push_missing x xs = (if x \<in> set xs then xs else xs @ [x])"

section \<open>Normalising a request\<close>

definition normalize_permission_path :: "host \<Rightarrow> file_system_path \<Rightarrow> file_system_path" where
  "normalize_permission_path h p =
     (case p of
        FsPath path \<Rightarrow>
          FsPath (case Option.bind (canonicalize_preserving_symlinks h path) (absolute_of (host_env h)) of
                    Some path' \<Rightarrow> path' | None \<Rightarrow> path)
      | GlobPattern pattern \<Rightarrow> GlobPattern pattern
      | Special v \<Rightarrow> Special v)"

definition GLOB_ACCESS_ERROR :: rstr where
  "GLOB_ACCESS_ERROR = ''glob file system permissions only support deny-read entries''"

fun normalize_entries ::
    "host \<Rightarrow> file_system_sandbox_entry list \<Rightarrow> file_system_sandbox_entry list
      \<Rightarrow> (rstr, file_system_sandbox_entry list) result" where
  "normalize_entries h acc [] = Ok acc"
| "normalize_entries h acc (e # es) =
     (if (case entry_path e of GlobPattern _ \<Rightarrow> True | _ \<Rightarrow> False) \<and> entry_access e \<noteq> DenyAccess then Err GLOB_ACCESS_ERROR
      else normalize_entries h (push_missing (entry (normalize_permission_path h (entry_path e)) (entry_access e)) acc) es)"

definition normalize_additional_permissions ::
    "host \<Rightarrow> additional_permission_profile \<Rightarrow> (rstr, additional_permission_profile) result" where
  "normalize_additional_permissions h p =
     (let network = filter_opt (\<lambda>n. \<not> network_permissions_is_empty n) (add_network p)
      in case add_file_system p of
           Some file_system \<Rightarrow>
             (case normalize_entries h [] (perm_entries file_system) of
                Err e \<Rightarrow> Err e
              | Ok es \<Rightarrow>
                  (let fs = \<lparr>perm_entries = es, perm_glob_scan_max_depth = perm_glob_scan_max_depth file_system\<rparr>
                   in Ok \<lparr>add_network = network,
                          add_file_system = (if \<not> permissions_is_empty fs then Some fs else None)\<rparr>))
         | None \<Rightarrow> Ok \<lparr>add_network = network, add_file_system = None\<rparr>)"

section \<open>Merging\<close>

datatype glob_scan_depth = Bounded nat | Unbounded

definition is_deny_glob :: "file_system_sandbox_entry \<Rightarrow> bool" where
  "is_deny_glob e = (entry_access e = DenyAccess \<and> (case entry_path e of GlobPattern _ \<Rightarrow> True | _ \<Rightarrow> False))"

definition effective_glob_scan_depth :: "file_system_sandbox_entry list \<Rightarrow> nat option \<Rightarrow> glob_scan_depth option" where
  "effective_glob_scan_depth es depth =
     (if list_ex is_deny_glob es
      then Some (case depth of Some d \<Rightarrow> Bounded d | None \<Rightarrow> Unbounded) else None)"

definition merge_glob_scan_max_depth ::
    "file_system_sandbox_entry list \<Rightarrow> nat option \<Rightarrow> file_system_sandbox_entry list \<Rightarrow> nat option \<Rightarrow> nat option" where
  "merge_glob_scan_max_depth left_entries left_depth right_entries right_depth =
     (case (effective_glob_scan_depth left_entries left_depth, effective_glob_scan_depth right_entries right_depth) of
        (Some Unbounded, _) \<Rightarrow> None
      | (_, Some Unbounded) \<Rightarrow> None
      | (Some (Bounded left), Some (Bounded right)) \<Rightarrow> Some (max left right)
      | (Some (Bounded depth), None) \<Rightarrow> Some depth
      | (None, Some (Bounded depth)) \<Rightarrow> Some depth
      | (None, None) \<Rightarrow> None)"

definition merge_permission_entries ::
    "file_system_sandbox_entry list \<Rightarrow> file_system_sandbox_entry list \<Rightarrow> file_system_sandbox_entry list" where
  "merge_permission_entries base permissions = fold push_missing (base @ permissions) []"

definition merge_file_system_permissions ::
    "file_system_permissions \<Rightarrow> file_system_permissions \<Rightarrow> file_system_permissions" where
  "merge_file_system_permissions base permissions =
     \<lparr>perm_entries = merge_permission_entries (perm_entries base) (perm_entries permissions),
      perm_glob_scan_max_depth = non_zero (merge_glob_scan_max_depth
        (perm_entries base) (perm_glob_scan_max_depth base)
        (perm_entries permissions) (perm_glob_scan_max_depth permissions))\<rparr>"

definition merge_permission_profiles ::
    "additional_permission_profile option \<Rightarrow> additional_permission_profile option \<Rightarrow> additional_permission_profile option" where
  "merge_permission_profiles base permissions =
     (case permissions of
        None \<Rightarrow> base
      | Some permissions \<Rightarrow>
          (case base of
             Some base \<Rightarrow>
               (let network = (if add_network base = Some (Some True) \<or> add_network permissions = Some (Some True)
                               then Some (Some True) else None);
                    file_system = (case (add_file_system base, add_file_system permissions) of
                        (Some b, Some p) \<Rightarrow>
                          filter_opt (\<lambda>fs. \<not> permissions_is_empty fs) (Some (merge_file_system_permissions b p))
                      | (Some b, None) \<Rightarrow> Some b
                      | (None, Some p) \<Rightarrow> Some p
                      | (None, None) \<Rightarrow> None)
                in filter_opt (\<lambda>p. \<not> profile_is_empty p)
                     (Some \<lparr>add_network = network, add_file_system = file_system\<rparr>))
           | None \<Rightarrow> filter_opt (\<lambda>p. \<not> profile_is_empty p) (Some permissions)))"

section \<open>The effective policy\<close>

definition merge_file_system_policy_with_additional_permissions ::
    "file_system_sandbox_policy \<Rightarrow> file_system_permissions \<Rightarrow> file_system_sandbox_policy" where
  "merge_file_system_policy_with_additional_permissions policy additional =
     (case policy_kind policy of
        Restricted \<Rightarrow>
          policy\<lparr>entries := fold push_missing (perm_entries additional) (entries policy),
            glob_scan_max_depth := merge_glob_scan_max_depth (entries policy) (glob_scan_max_depth policy)
              (perm_entries additional) (perm_glob_scan_max_depth additional)\<rparr>
      | _ \<Rightarrow> policy)"

definition effective_file_system_sandbox_policy ::
    "file_system_sandbox_policy \<Rightarrow> additional_permission_profile option \<Rightarrow> file_system_sandbox_policy" where
  "effective_file_system_sandbox_policy policy additional =
     (case additional of
        None \<Rightarrow> policy
      | Some a \<Rightarrow>
          (case add_file_system a of
             None \<Rightarrow> policy
           | Some fs \<Rightarrow>
               if permissions_is_empty fs then policy
               else merge_file_system_policy_with_additional_permissions policy fs))"

definition merge_network_access :: "bool \<Rightarrow> additional_permission_profile \<Rightarrow> bool" where
  "merge_network_access base a =
     (base \<or> (case Option.bind (add_network a) id of Some b \<Rightarrow> b | None \<Rightarrow> False))"

definition effective_network_sandbox_policy ::
    "network_sandbox_policy \<Rightarrow> additional_permission_profile option \<Rightarrow> network_sandbox_policy" where
  "effective_network_sandbox_policy network additional =
     (case additional of
        Some a \<Rightarrow> if merge_network_access (network_is_enabled network) a then NetworkEnabled else NetworkRestricted
      | None \<Rightarrow> network)"

definition enforcement_of :: "permission_profile \<Rightarrow> sandbox_enforcement" where
  "enforcement_of profile =
     (case profile of
        Managed _ _ \<Rightarrow> ManagedEnforcement | Disabled \<Rightarrow> DisabledEnforcement | External _ \<Rightarrow> ExternalEnforcement)"

definition effective_permission_profile ::
    "permission_profile \<Rightarrow> additional_permission_profile option \<Rightarrow> permission_profile option" where
  "effective_permission_profile profile additional =
     from_runtime_permissions_with_enforcement (enforcement_of profile)
       (effective_file_system_sandbox_policy (file_system_sandbox_policy_of profile) additional)
       (effective_network_sandbox_policy (network_sandbox_policy_of profile) additional)"

definition should_require_platform_sandbox ::
    "file_system_sandbox_policy \<Rightarrow> network_sandbox_policy \<Rightarrow> bool \<Rightarrow> bool" where
  "should_require_platform_sandbox policy network has_managed_network_requirements =
     (if has_managed_network_requirements then True
      else if \<not> network_is_enabled network then policy_kind policy \<noteq> ExternalSandbox
      else case policy_kind policy of
             Restricted \<Rightarrow> \<not> has_full_disk_write_access policy
           | _ \<Rightarrow> False)"

section \<open>Intersecting a grant with its request\<close>

definition resolve_permission_path :: "host \<Rightarrow> file_system_path \<Rightarrow> rpath \<Rightarrow> rpath option" where
  "resolve_permission_path h p cwd =
     (case p of
        FsPath path \<Rightarrow> Some path
      | GlobPattern _ \<Rightarrow> None
      | Special v \<Rightarrow>
          (case v of
             RootPath \<Rightarrow> absolute_of (host_env h) (last (path_ancestors cwd))
           | ProjectRoots subpath \<Rightarrow>
               map_option (\<lambda>cwd. case subpath of Some sub \<Rightarrow> resolve_against (host_env h) sub cwd | None \<Rightarrow> cwd)
                 (absolute_of (host_env h) cwd)
           | TmpdirPath \<Rightarrow>
               Option.bind (tmpdir_var h) (\<lambda>tmpdir.
                 if tmpdir = [] then None else absolute_of (host_env h) (components tmpdir))
           | SlashTmpPath \<Rightarrow>
               filter_opt (is_dir h) (absolute_of (host_env h) [RootDir, NormalC ''tmp''])
           | MinimalPath \<Rightarrow> None
           | UnknownPath _ _ \<Rightarrow> None))"

fun access_covers :: "file_system_access_mode \<Rightarrow> file_system_access_mode \<Rightarrow> bool" where
  "access_covers requested ReadAccess = mode_can_read requested"
| "access_covers requested WriteAccess = mode_can_write requested"
| "access_covers requested DenyAccess = False"

definition paths_overlap :: "rpath \<Rightarrow> rpath \<Rightarrow> bool" where
  "paths_overlap left right = (path_starts_with left right \<or> path_starts_with right left)"

definition glob_static_prefix_path :: "host \<Rightarrow> rstr \<Rightarrow> rpath \<Rightarrow> rpath option" where
  "glob_static_prefix_path h pattern cwd =
     (let resolved_pattern = path_text (resolve_path_against_base (host_env h) pattern cwd);
          static = takeWhile (\<lambda>c. c \<notin> {CHR ''*'', CHR ''?'', CHR ''['', CHR '']''}) resolved_pattern
      in if length static = length resolved_pattern then absolute_of (host_env h) (components resolved_pattern)
         else if static = [] then None
         else if last static = CHR ''/'' \<or> last static = CHR 0x5C then absolute_of (host_env h) (components static)
         else Option.bind (path_parent (components static)) (absolute_of (host_env h)))"

definition materialize_cwd_dependent_entry ::
    "host \<Rightarrow> rpath \<Rightarrow> file_system_sandbox_entry \<Rightarrow> file_system_sandbox_entry" where
  "materialize_cwd_dependent_entry h cwd e =
     (case entry_path e of
        Special (ProjectRoots _) \<Rightarrow>
          (case resolve_permission_path h (entry_path e) cwd of
             Some path \<Rightarrow> entry (FsPath path) (entry_access e) | None \<Rightarrow> e)
      | GlobPattern pattern \<Rightarrow>
          entry (GlobPattern (path_text (resolve_path_against_base (host_env h) pattern cwd))) (entry_access e)
      | _ \<Rightarrow> e)"

definition granted_file_system_entry_within_request ::
    "host \<Rightarrow> file_system_permissions \<Rightarrow> file_system_sandbox_policy \<Rightarrow> read_deny_matcher option \<Rightarrow> rpath
      \<Rightarrow> file_system_sandbox_entry \<Rightarrow> bool" where
  "granted_file_system_entry_within_request h requested requested_policy matcher cwd granted_entry =
     (if \<not> mode_can_read (entry_access granted_entry) then False
      else case resolve_permission_path h (entry_path granted_entry) cwd of
             Some path \<Rightarrow>
               if (case matcher of Some m \<Rightarrow> is_read_denied h m path | None \<Rightarrow> False) then False
               else access_covers (resolve_access_with_cwd h requested_policy path cwd) (entry_access granted_entry)
           | None \<Rightarrow>
               list_ex (\<lambda>r. access_covers (entry_access r) (entry_access granted_entry) \<and>
                   entry_path r = entry_path granted_entry) (perm_entries requested))"

definition deny_entry_constrains_accepted_grant ::
    "host \<Rightarrow> rpath \<Rightarrow> file_system_sandbox_entry list \<Rightarrow> file_system_sandbox_entry \<Rightarrow> bool" where
  "deny_entry_constrains_accepted_grant h cwd accepted deny_entry =
     list_ex (\<lambda>e. mode_can_read (entry_access e) \<and>
         (case resolve_permission_path h (entry_path e) cwd of
            None \<Rightarrow> False
          | Some grant_path \<Rightarrow>
              (case (case entry_path deny_entry of
                       GlobPattern pattern \<Rightarrow> glob_static_prefix_path h pattern cwd
                     | p \<Rightarrow> resolve_permission_path h p cwd) of
                 Some deny_path \<Rightarrow> paths_overlap deny_path grant_path
               | None \<Rightarrow> False)))
       accepted"

text \<open>Both results of the function: the retained entries and the output they are pushed to.\<close>

definition retain_constraining_deny_entries ::
    "host \<Rightarrow> file_system_sandbox_entry list \<Rightarrow> file_system_sandbox_entry list \<Rightarrow> rpath
      \<Rightarrow> file_system_sandbox_entry list \<Rightarrow> file_system_sandbox_entry list \<times> file_system_sandbox_entry list" where
  "retain_constraining_deny_entries h source accepted cwd output =
     (let retained = map (materialize_cwd_dependent_entry h cwd)
            (filter (deny_entry_constrains_accepted_grant h cwd accepted)
              (filter (\<lambda>e. entry_access e = DenyAccess) source))
      in (retained, fold push_missing retained output))"

definition accepted_entries ::
    "host \<Rightarrow> (rstr \<Rightarrow> (rstr, rpath \<Rightarrow> bool) result) \<Rightarrow> file_system_permissions \<Rightarrow> file_system_permissions \<Rightarrow> rpath
      \<Rightarrow> file_system_sandbox_entry list" where
  "accepted_entries h glob requested granted cwd =
     (let requested_policy = restricted_policy (perm_entries requested);
          matcher = (case build_read_deny_matcher h glob requested_policy cwd True of Ok m \<Rightarrow> m | Err _ \<Rightarrow> None)
      in fold push_missing
           (map (materialize_cwd_dependent_entry h cwd)
             (filter (granted_file_system_entry_within_request h requested requested_policy matcher cwd)
               (perm_entries granted))) [])"

definition intersect_file_system_permissions ::
    "host \<Rightarrow> (rstr \<Rightarrow> (rstr, rpath \<Rightarrow> bool) result) \<Rightarrow> file_system_permissions \<Rightarrow> file_system_permissions \<Rightarrow> rpath
      \<Rightarrow> file_system_permissions" where
  "intersect_file_system_permissions h glob requested granted cwd =
     (let accepted = accepted_entries h glob requested granted cwd;
          (requested_retained, es1) = retain_constraining_deny_entries h (perm_entries requested) accepted cwd accepted;
          (granted_retained, es2) = retain_constraining_deny_entries h (perm_entries granted) accepted cwd es1
      in \<lparr>perm_entries = es2,
          perm_glob_scan_max_depth = non_zero (merge_glob_scan_max_depth
            requested_retained (perm_glob_scan_max_depth requested)
            granted_retained (perm_glob_scan_max_depth granted))\<rparr>)"

definition intersect_permission_profiles ::
    "host \<Rightarrow> (rstr \<Rightarrow> (rstr, rpath \<Rightarrow> bool) result) \<Rightarrow> additional_permission_profile \<Rightarrow> additional_permission_profile
      \<Rightarrow> rpath \<Rightarrow> additional_permission_profile" where
  "intersect_permission_profiles h glob requested granted cwd =
     \<lparr>add_network = (if add_network requested = Some (Some True) \<and> add_network granted = Some (Some True)
                     then Some (Some True) else None),
      add_file_system = filter_opt (\<lambda>fs. \<not> permissions_is_empty fs)
        (map_option (\<lambda>requested_file_system.
            intersect_file_system_permissions h glob requested_file_system
              (case add_file_system granted of Some g \<Rightarrow> g | None \<Rightarrow> no_file_system_permissions) cwd)
          (add_file_system requested))\<rparr>"

section \<open>Lists without duplicates\<close>

lemma set_push_missing [simp]: "set (push_missing x xs) = insert x (set xs)"
  by (auto simp: push_missing_def)

lemma set_fold_push_missing [simp]: "set (fold push_missing xs ys) = set ys \<union> set xs"
  by (induction xs arbitrary: ys) auto

lemma fold_push_missing_push: "fold push_missing (push_missing x zs) ys = push_missing x (fold push_missing zs ys)"
  by (auto simp: push_missing_def)

lemma fold_push_missing_fold:
  "fold push_missing (fold push_missing xs zs) ys = fold push_missing xs (fold push_missing zs ys)"
  by (induction xs arbitrary: zs) (simp_all add: fold_push_missing_push)

section \<open>Grants compose\<close>

definition wf_permissions :: "additional_permission_profile \<Rightarrow> bool" where
  "wf_permissions p \<longleftrightarrow> (case add_file_system p of Some fs \<Rightarrow> perm_glob_scan_max_depth fs \<noteq> Some 0 | None \<Rightarrow> True)"

definition apply_permissions :: "file_system_sandbox_policy \<Rightarrow> file_system_permissions \<Rightarrow> file_system_sandbox_policy" where
  "apply_permissions policy fs =
     (if permissions_is_empty fs then policy else merge_file_system_policy_with_additional_permissions policy fs)"

lemma effective_apply:
  "effective_file_system_sandbox_policy policy (Some a) =
     (case add_file_system a of None \<Rightarrow> policy | Some fs \<Rightarrow> apply_permissions policy fs)"
  by (simp add: effective_file_system_sandbox_policy_def apply_permissions_def split: option.splits)

lemma merge_depth_non_zero:
  "d \<noteq> Some 0 \<Longrightarrow> d' \<noteq> Some 0 \<Longrightarrow> non_zero (merge_glob_scan_max_depth es d fs d') = merge_glob_scan_max_depth es d fs d'"
  by (cases d; cases d')
     (auto simp: non_zero_def filter_opt_def merge_glob_scan_max_depth_def effective_glob_scan_depth_def max_def
       split: option.splits glob_scan_depth.splits)

lemma effective_depth_merged:
  assumes "list_ex is_deny_glob zs \<longleftrightarrow> list_ex is_deny_glob es \<or> list_ex is_deny_glob fs"
  shows "effective_glob_scan_depth zs (merge_glob_scan_max_depth es d fs d') =
    (case (effective_glob_scan_depth es d, effective_glob_scan_depth fs d') of
       (Some Unbounded, _) \<Rightarrow> Some Unbounded | (_, Some Unbounded) \<Rightarrow> Some Unbounded
     | (Some (Bounded l), Some (Bounded r)) \<Rightarrow> Some (Bounded (max l r))
     | (Some (Bounded l), None) \<Rightarrow> Some (Bounded l) | (None, Some (Bounded r)) \<Rightarrow> Some (Bounded r) | (None, None) \<Rightarrow> None)"
  using assms by (cases d; cases d') (auto simp: merge_glob_scan_max_depth_def effective_glob_scan_depth_def)

lemma merge_depth_assoc:
  assumes "list_ex is_deny_glob zs \<longleftrightarrow> list_ex is_deny_glob ps \<or> list_ex is_deny_glob es"
    and "list_ex is_deny_glob ws \<longleftrightarrow> list_ex is_deny_glob es \<or> list_ex is_deny_glob fs"
  shows "merge_glob_scan_max_depth zs (merge_glob_scan_max_depth ps d es e) fs f =
         merge_glob_scan_max_depth ps d ws (merge_glob_scan_max_depth es e fs f)"
  unfolding merge_glob_scan_max_depth_def [of zs] merge_glob_scan_max_depth_def [of ps _ ws]
    effective_depth_merged [OF assms(1)] effective_depth_merged [OF assms(2)]
  by (simp add: max.assoc split: option.splits glob_scan_depth.splits)

lemma apply_permissions_cong:
  assumes "fold push_missing (perm_entries x) (entries policy) = fold push_missing (perm_entries y) (entries policy)"
    and "effective_glob_scan_depth (perm_entries x) (perm_glob_scan_max_depth x) =
         effective_glob_scan_depth (perm_entries y) (perm_glob_scan_max_depth y)"
    and "perm_entries x = [] \<longleftrightarrow> perm_entries y = []"
  shows "apply_permissions policy x = apply_permissions policy y"
  using assms by (simp add: apply_permissions_def permissions_is_empty_def merge_glob_scan_max_depth_def
      merge_file_system_policy_with_additional_permissions_def split: file_system_sandbox_kind.splits)

lemma merge_entries_empty: "merge_permission_entries a b = [] \<longleftrightarrow> a = [] \<and> b = []"
  using set_fold_push_missing [of "a @ b" "[]"] by (simp add: merge_permission_entries_def flip: set_empty)

lemma merge_entries_fold:
  "fold push_missing (merge_permission_entries a b) es = fold push_missing b (fold push_missing a es)"
  unfolding merge_permission_entries_def fold_push_missing_fold by simp

lemma apply_permissions_merge:
  assumes "perm_glob_scan_max_depth a \<noteq> Some 0" and "perm_glob_scan_max_depth b \<noteq> Some 0"
  shows "apply_permissions (apply_permissions policy a) b = apply_permissions policy (merge_file_system_permissions a b)"
proof -
  let ?es = "merge_permission_entries (perm_entries a) (perm_entries b)"
  let ?d = "merge_glob_scan_max_depth (perm_entries a) (perm_glob_scan_max_depth a) (perm_entries b) (perm_glob_scan_max_depth b)"
  have merged: "merge_file_system_permissions a b = \<lparr>perm_entries = ?es, perm_glob_scan_max_depth = ?d\<rparr>"
    using merge_depth_non_zero [OF assms] by (simp add: merge_file_system_permissions_def)
  have globs: "list_ex is_deny_glob ?es \<longleftrightarrow> list_ex is_deny_glob (perm_entries a) \<or> list_ex is_deny_glob (perm_entries b)"
    by (auto simp: merge_permission_entries_def list_ex_iff)
  note eff = effective_depth_merged [OF globs, of "perm_glob_scan_max_depth a" "perm_glob_scan_max_depth b"]
  consider "perm_entries a = []" | "perm_entries b = []" | "perm_entries a \<noteq> []" "perm_entries b \<noteq> []" by blast
  then show ?thesis
  proof cases
    case 1
    then have "apply_permissions policy b = apply_permissions policy (merge_file_system_permissions a b)"
      using eff by (intro apply_permissions_cong) (simp_all add: merged merge_entries_fold merge_entries_empty
        effective_glob_scan_depth_def split: option.splits)
    then show ?thesis using 1 by (simp add: apply_permissions_def permissions_is_empty_def)
  next
    case 2
    then have "apply_permissions policy a = apply_permissions policy (merge_file_system_permissions a b)"
      using eff by (intro apply_permissions_cong) (simp_all add: merged merge_entries_fold merge_entries_empty
        effective_glob_scan_depth_def split: option.splits)
    then show ?thesis using 2 by (simp add: apply_permissions_def permissions_is_empty_def)
  next
    case 3
    have depth: "merge_glob_scan_max_depth (fold push_missing (perm_entries a) (entries policy))
          (merge_glob_scan_max_depth (entries policy) (glob_scan_max_depth policy) (perm_entries a) (perm_glob_scan_max_depth a))
          (perm_entries b) (perm_glob_scan_max_depth b) =
        merge_glob_scan_max_depth (entries policy) (glob_scan_max_depth policy) ?es ?d"
      by (rule merge_depth_assoc [OF _ globs]) (auto simp: list_ex_iff)
    show ?thesis
      using 3 by (simp add: apply_permissions_def permissions_is_empty_def merged merge_entries_empty merge_entries_fold
          depth merge_file_system_policy_with_additional_permissions_def split: file_system_sandbox_kind.splits)
  qed
qed

lemma merge_profiles_file_system:
  "effective_file_system_sandbox_policy policy (merge_permission_profiles (Some a) (Some b)) =
     (case (add_file_system a, add_file_system b) of
        (Some x, Some y) \<Rightarrow> apply_permissions policy (merge_file_system_permissions x y)
      | (Some x, None) \<Rightarrow> apply_permissions policy x
      | (None, Some y) \<Rightarrow> apply_permissions policy y
      | (None, None) \<Rightarrow> policy)"
  by (auto simp: merge_permission_profiles_def Let_def filter_opt_def profile_is_empty_def effective_apply
      effective_file_system_sandbox_policy_def apply_permissions_def split: option.splits)

lemma effective_network_Some:
  "effective_network_sandbox_policy n (Some a) = (if n = NetworkEnabled \<or> add_network a = Some (Some True) then NetworkEnabled else NetworkRestricted)"
  by (cases "add_network a") (auto simp: effective_network_sandbox_policy_def merge_network_access_def network_is_enabled_def
      split: option.splits)

lemma effective_network_None: "effective_network_sandbox_policy n None = n"
  by (simp add: effective_network_sandbox_policy_def)

lemma effective_network_merge:
  "effective_network_sandbox_policy n (merge_permission_profiles (Some a) (Some b)) =
     (if n = NetworkEnabled \<or> add_network a = Some (Some True) \<or> add_network b = Some (Some True)
      then NetworkEnabled else NetworkRestricted)"
  by (cases n) (auto simp: merge_permission_profiles_def Let_def filter_opt_def profile_is_empty_def effective_network_Some
      effective_network_None split: option.splits if_splits)

section \<open>A grant stays within its request\<close>

lemma permission_path_resolves:
  assumes "wf_absolute cwd"
  shows "resolve_permission_path h p cwd = resolve_entry_path h p (absolute_of (host_env h) cwd)"
proof -
  have root: "wf_absolute [RootDir]" and tmp: "wf_absolute [RootDir, NormalC ''tmp'']"
    by (simp_all add: wf_absolute_def is_normal_def)
  show ?thesis
    by (auto simp: resolve_permission_path_def resolve_entry_path_def resolve_file_system_path_def
        resolve_file_system_special_path_def absolute_root_path_for_cwd_def path_ancestors_last [OF assms]
        absolute_of_wf [OF assms] absolute_of_wf [OF root] absolute_of_wf [OF tmp] filter_opt_def Let_def
        split: file_system_path.splits file_system_special_path.splits option.splits)
qed

lemma materialized_access [simp]: "entry_access (materialize_cwd_dependent_entry h cwd e) = entry_access e"
  by (simp add: materialize_cwd_dependent_entry_def split: file_system_path.splits file_system_special_path.splits option.splits)

lemma materialized_resolves:
  assumes "wf_absolute cwd"
  shows "resolve_permission_path h (entry_path (materialize_cwd_dependent_entry h cwd e)) cwd =
         resolve_permission_path h (entry_path e) cwd"
proof (cases "entry_path e")
  case (Special v)
  then show ?thesis
    by (cases v) (auto simp: materialize_cwd_dependent_entry_def resolve_permission_path_def split: option.splits)
qed (simp_all add: materialize_cwd_dependent_entry_def resolve_permission_path_def)

text \<open>The entries of a policy made of permissions, at the paths they resolve to.\<close>

lemma resolved_permissions:
  assumes "wf_absolute cwd"
  shows "r \<in> set (resolved_entries_with_cwd h (restricted_policy es) cwd) \<longleftrightarrow>
    (\<exists>e \<in> set es. resolve_permission_path h (entry_path e) cwd = Some (res_path r) \<and> entry_access e = res_access r)"
  by (simp add: resolved_entry permission_path_resolves [OF assms] restricted_policy_def)

lemma intersect_entries:
  "set (perm_entries (intersect_file_system_permissions h glob rq gr cwd)) =
    set (accepted_entries h glob rq gr cwd) \<union>
    set (fst (retain_constraining_deny_entries h (perm_entries rq) (accepted_entries h glob rq gr cwd) cwd [])) \<union>
    set (fst (retain_constraining_deny_entries h (perm_entries gr) (accepted_entries h glob rq gr cwd) cwd []))"
  by (auto simp: intersect_file_system_permissions_def retain_constraining_deny_entries_def Let_def)

lemma retained_deny: "e \<in> set (fst (retain_constraining_deny_entries h src acc cwd out)) \<Longrightarrow> entry_access e = DenyAccess"
  by (auto simp: retain_constraining_deny_entries_def Let_def)

lemma acceptedE:
  assumes "e \<in> set (accepted_entries h glob rq gr cwd)" and cwd: "wf_absolute cwd"
    and "resolve_permission_path h (entry_path e) cwd = Some q"
  obtains g where "g \<in> set (perm_entries gr)" "entry_access g = entry_access e"
    "resolve_permission_path h (entry_path g) cwd = Some q" "mode_can_read (entry_access e)"
    "access_covers (resolve_access_with_cwd h (restricted_policy (perm_entries rq)) q cwd) (entry_access e)"
proof -
  obtain g m where "g \<in> set (perm_entries gr)" "e = materialize_cwd_dependent_entry h cwd g"
    "granted_file_system_entry_within_request h rq (restricted_policy (perm_entries rq)) m cwd g"
    using assms(1) by (auto simp: accepted_entries_def Let_def)
  then show ?thesis
    using that [of g] assms(3) materialized_resolves [OF cwd, of h g]
    by (auto simp: granted_file_system_entry_within_request_def split: if_splits option.splits)
qed

lemma retainedI:
  assumes cwd: "wf_absolute cwd" and d: "d \<in> set src" "entry_access d = DenyAccess"
      "resolve_permission_path h (entry_path d) cwd = Some q'"
    and e: "e \<in> set acc" "mode_can_read (entry_access e)" "resolve_permission_path h (entry_path e) cwd = Some q"
    and "prefix q q'"
  shows "\<exists>x \<in> set (fst (retain_constraining_deny_entries h src acc cwd out)).
    resolve_permission_path h (entry_path x) cwd = Some q' \<and> entry_access x = DenyAccess"
proof -
  have "entry_path d \<noteq> GlobPattern p" for p using d(3) by (auto simp: resolve_permission_path_def)
  then have "deny_entry_constrains_accepted_grant h cwd acc d"
    using d(3) e assms(8)
    by (auto simp: deny_entry_constrains_accepted_grant_def list_ex_iff paths_overlap_def path_starts_with_def
        split: file_system_path.splits intro!: bexI [of _ e])
  then show ?thesis
    using d materialized_resolves [OF cwd, of h d]
    by (auto simp: retain_constraining_deny_entries_def Let_def intro!: bexI [of _ d])
qed

lemma not_denied_below:
  assumes g: "governs xs p q" and nd: "access_at xs p \<noteq> DenyAccess"
    and ret: "\<And>d. d \<in> set es \<Longrightarrow> res_access d = DenyAccess \<Longrightarrow> prefix q (res_path d) \<Longrightarrow>
      \<exists>x \<in> set xs. res_path x = res_path d \<and> res_access x = DenyAccess"
    and q: "access_at es q \<noteq> DenyAccess"
  shows "access_at es p = access_at es q \<or> access_at es p \<noteq> DenyAccess \<and>
    (\<exists>r \<in> set es. strict_prefix q (res_path r) \<and> prefix (res_path r) p \<and> res_access r = access_at es p)"
proof -
  have qp: "prefix q p" using g by (simp add: governs_def)
  obtain k where k: "governs es p k"
    using governs_or_uncovered [of es p] access_uncovered [of es q] q qp
    by (auto simp: uncovered_def dest: prefix_order.trans)
  show ?thesis
  proof (cases "length k \<le> length q")
    case True
    then show ?thesis using access_same [OF k governs_prefix [OF k qp]] by simp
  next
    case False
    then have below: "strict_prefix q k"
      using k qp prefix_length_prefix [OF qp] by (auto simp: governs_def strict_prefix_def)
    obtain r where r: "r \<in> set es" "res_path r = k" "access_at es p = res_access r" using governed_by [OF k] by blast
    have "res_access r \<noteq> DenyAccess"
    proof
      assume "res_access r = DenyAccess"
      then obtain x where x: "x \<in> set xs" "res_path x = k" using ret [OF r(1)] r(2) below by (auto simp: strict_prefix_def)
      then have "length k \<le> length q" using g k by (auto simp: governs_def)
      with False show False by simp
    qed
    then show ?thesis using r below k by (auto simp: governs_def)
  qed
qed

definition permissions_policy :: "file_system_permissions \<Rightarrow> file_system_sandbox_policy" where
  "permissions_policy fs = restricted_policy (perm_entries fs)"

lemma permissions_policy_kind [simp]: "policy_kind (permissions_policy fs) = Restricted"
  by (simp add: permissions_policy_def restricted_policy_def)

lemma intersect_retains:
  assumes cwd: "wf_absolute cwd" and src: "src = rq \<or> src = gr"
    and e: "e \<in> set (accepted_entries h glob rq gr cwd)" "mode_can_read (entry_access e)"
      "resolve_permission_path h (entry_path e) cwd = Some q"
    and d: "d \<in> set (resolved_entries_with_cwd h (permissions_policy src) cwd)" "res_access d = DenyAccess" "prefix q (res_path d)"
  shows "\<exists>x \<in> set (resolved_entries_with_cwd h (permissions_policy (intersect_file_system_permissions h glob rq gr cwd)) cwd).
    res_path x = res_path d \<and> res_access x = DenyAccess"
proof -
  obtain y where y: "y \<in> set (perm_entries src)" "entry_access y = DenyAccess"
    "resolve_permission_path h (entry_path y) cwd = Some (res_path d)"
    using d(1,2) by (auto simp: permissions_policy_def resolved_permissions [OF cwd])
  obtain z where z: "z \<in> set (perm_entries (intersect_file_system_permissions h glob rq gr cwd))"
    "resolve_permission_path h (entry_path z) cwd = Some (res_path d)" "entry_access z = DenyAccess"
    using retainedI [OF cwd y e d(3)] src unfolding intersect_entries by blast
  then show ?thesis
    by (intro bexI [of _ "\<lparr>res_path = res_path d, res_access = DenyAccess\<rparr>"])
       (auto simp: permissions_policy_def resolved_permissions [OF cwd])
qed

lemma intersect_accepts:
  assumes cwd: "wf_absolute cwd"
    and x: "x \<in> set (resolved_entries_with_cwd h (permissions_policy (intersect_file_system_permissions h glob rq gr cwd)) cwd)"
      "res_access x \<noteq> DenyAccess"
  obtains e where "e \<in> set (accepted_entries h glob rq gr cwd)" "resolve_permission_path h (entry_path e) cwd = Some (res_path x)"
    "entry_access e = res_access x"
proof -
  obtain e where e: "e \<in> set (perm_entries (intersect_file_system_permissions h glob rq gr cwd))"
    "resolve_permission_path h (entry_path e) cwd = Some (res_path x)" "entry_access e = res_access x"
    using x(1) by (auto simp: permissions_policy_def resolved_permissions [OF cwd])
  then show ?thesis using that x(2) retained_deny unfolding intersect_entries by fastforce
qed

lemma intersect_governed:
  assumes "wf_host h" and cwd: "wf_absolute cwd" and rq: "wf_fs_policy (permissions_policy rq)" "wf_fs_policy (permissions_policy gr)"
    and es: "es = resolved_entries_with_cwd h (permissions_policy (intersect_file_system_permissions h glob rq gr cwd)) cwd"
    and nd: "access_at es p \<noteq> DenyAccess"
  obtains q e where "governs es p q" "e \<in> set (accepted_entries h glob rq gr cwd)" "mode_can_read (entry_access e)"
    "resolve_permission_path h (entry_path e) cwd = Some q" "entry_access e = access_at es p"
    "access_covers (access_at (resolved_entries_with_cwd h (permissions_policy rq) cwd) q) (access_at es p)"
    "access_at (resolved_entries_with_cwd h (permissions_policy gr) cwd) q \<noteq> DenyAccess"
proof -
  let ?gr = "resolved_entries_with_cwd h (permissions_policy gr) cwd"
  obtain q where q: "governs es p q" using governs_or_uncovered [of es p] access_uncovered [of es p] nd by blast
  obtain x where x: "x \<in> set es" "res_path x = q" "access_at es p = res_access x" using governed_by [OF q] by blast
  obtain e where e: "e \<in> set (accepted_entries h glob rq gr cwd)" "resolve_permission_path h (entry_path e) cwd = Some q"
      "entry_access e = access_at es p"
    using intersect_accepts [OF cwd, of x] x nd es by metis
  obtain g where g: "g \<in> set (perm_entries gr)" "entry_access g = entry_access e"
    "resolve_permission_path h (entry_path g) cwd = Some q" "mode_can_read (entry_access e)"
    "access_covers (resolve_access_with_cwd h (restricted_policy (perm_entries rq)) q cwd) (entry_access e)"
    by (rule acceptedE [OF e(1) cwd e(2)])
  have gq: "\<lparr>res_path = q, res_access = entry_access e\<rparr> \<in> set ?gr"
    using g by (auto simp: permissions_policy_def resolved_permissions [OF cwd])
  have wfq: "wf_absolute q" using resolved_wf [OF assms(1) rq(2) gq] by simp
  have "governs ?gr q q" using gq by (auto simp: governs_def image_iff dest: prefix_length_le intro!: bexI [of _ "\<lparr>res_path = q, res_access = entry_access e\<rparr>"])
  then obtain y where y: "y \<in> set ?gr" "res_path y = q" "access_at ?gr q = res_access y" using governed_by by blast
  have "access_at ?gr q \<noteq> DenyAccess"
  proof
    assume "access_at ?gr q = DenyAccess"
    then obtain z where "z \<in> set es" "res_path z = q" "res_access z = DenyAccess"
      using intersect_retains [OF cwd _ e(1) g(4) e(2), of gr y] y es by auto
    from access_denyI [OF q this] nd show False by simp
  qed
  moreover have "access_covers (access_at (resolved_entries_with_cwd h (permissions_policy rq) cwd) q) (access_at es p)"
    using g(5) e(3) resolve_access_at [of "permissions_policy rq" h q cwd q] candidate_of_wf [OF wfq]
    by (simp add: permissions_policy_def restricted_policy_def)
  ultimately show ?thesis using that [OF q e(1) g(4) e(2,3)] by blast
qed

section \<open>Properties\<close>


definition perms :: "file_system_sandbox_entry list \<Rightarrow> file_system_permissions" where
  "perms es = \<lparr>perm_entries = es, perm_glob_scan_max_depth = None\<rparr>"

definition demo_requested :: file_system_permissions where
  "demo_requested = perms [entry (FsPath (named_path [''a''])) WriteAccess,
     entry (FsPath (named_path [''a'', ''ro''])) ReadAccess, entry (FsPath (named_path [''a'', ''no''])) DenyAccess]"

definition demo_granted :: file_system_permissions where
  "demo_granted = perms [entry (FsPath (named_path [''a''])) WriteAccess, entry (FsPath (named_path [''b''])) WriteAccess]"

definition no_globs :: "rstr \<Rightarrow> (rstr, rpath \<Rightarrow> bool) result" where
  "no_globs pattern = Err pattern"


text \<open>
  The read-only restriction of a request is lost: asked for write access to \<open>/a\<close> and read access to
  \<open>/a/ro\<close>, and granted write access to \<open>/a\<close>, the intersection lets \<open>/a/ro/x\<close> be written.
\<close>

theorem read_only_request_lost:
  "resolve_access_with_cwd plain_host (permissions_policy demo_requested) (named_path [''a'', ''ro'', ''x'']) [RootDir] = ReadAccess \<and>
   resolve_access_with_cwd plain_host (permissions_policy (intersect_file_system_permissions plain_host no_globs
     demo_requested demo_granted [RootDir])) (named_path [''a'', ''ro'', ''x'']) [RootDir] = WriteAccess"
  by code_simp

text \<open>
  C35. Grants compose: applying a second grant to the policy and network access that result from a first is the
  same as applying the merged grant at once, entries, their order and the depth of glob scans included.
\<close>

theorem grants_compose:
  assumes "wf_permissions a" and "wf_permissions b"
  shows "effective_file_system_sandbox_policy (effective_file_system_sandbox_policy policy (Some a)) (Some b) =
           effective_file_system_sandbox_policy policy (merge_permission_profiles (Some a) (Some b)) \<and>
         effective_network_sandbox_policy (effective_network_sandbox_policy network (Some a)) (Some b) =
           effective_network_sandbox_policy network (merge_permission_profiles (Some a) (Some b))"
proof
  show "effective_file_system_sandbox_policy (effective_file_system_sandbox_policy policy (Some a)) (Some b) =
      effective_file_system_sandbox_policy policy (merge_permission_profiles (Some a) (Some b))"
    using assms apply_permissions_merge unfolding merge_profiles_file_system effective_apply wf_permissions_def
    by (auto split: option.splits)
qed (simp add: effective_network_Some effective_network_merge)

definition glob_grant :: additional_permission_profile where
  "glob_grant = \<lparr>add_network = None, add_file_system = Some
     \<lparr>perm_entries = [entry (GlobPattern ''/a/*.key'') DenyAccess], perm_glob_scan_max_depth = Some 3\<rparr>\<rparr>"

definition write_grant :: additional_permission_profile where
  "write_grant = \<lparr>add_network = Some (Some True), add_file_system = Some (perms [entry (FsPath (named_path [''a''])) WriteAccess])\<rparr>"

theorem grants_compose_witness:
  "effective_file_system_sandbox_policy (effective_file_system_sandbox_policy read_only_policy (Some write_grant)) (Some glob_grant) =
     effective_file_system_sandbox_policy read_only_policy (merge_permission_profiles (Some write_grant) (Some glob_grant)) \<and>
   glob_scan_max_depth (effective_file_system_sandbox_policy read_only_policy
     (merge_permission_profiles (Some write_grant) (Some glob_grant))) = Some 3"
proof
  show "effective_file_system_sandbox_policy (effective_file_system_sandbox_policy read_only_policy (Some write_grant)) (Some glob_grant) =
      effective_file_system_sandbox_policy read_only_policy (merge_permission_profiles (Some write_grant) (Some glob_grant))"
    by (rule grants_compose [THEN conjunct1]) (simp_all add: wf_permissions_def write_grant_def glob_grant_def perms_def)
qed code_simp

end
