(* ===== verification/Exec_Amend.thy ===== *)
theory Exec_Amend
  imports Exec_Rule
begin

text \<open>
  \<open>execpolicy/src/amend.rs\<close>: appending a rule to a policy file. The operating system is seen
  through \<open>amend_io\<close>: each call says whether it fails, and a failed write may leave anything
  behind. The file is its contents, or \<open>None\<close> when there is none. \<open>serde_json\<close> is a
  parameter. The facts: a line is appended once, never twice, and nothing before it changes.
\<close>

section \<open>Data\<close>

datatype 'e amend_error =
  EmptyPrefix
| InvalidNetworkRule rstr
| MissingParent rstr
| CreatePolicyDir rstr 'e
| SerializePrefix 'e
| SerializeNetworkRule 'e
| OpenPolicyFile rstr 'e
| WritePolicyFile rstr 'e
| LockPolicyFile rstr 'e
| SeekPolicyFile rstr 'e
| ReadPolicyFile rstr 'e
| PolicyMetadata rstr 'e

datatype 'e create_dir_result = DirCreated | DirExists | DirFailed 'e

record 'e amend_io =
  io_parent :: "rstr \<Rightarrow> rstr option"
  io_create_dir :: "rstr \<Rightarrow> 'e create_dir_result"
  io_open :: "rstr \<Rightarrow> 'e option"
  io_lock :: "rstr \<Rightarrow> 'e option"
  io_seek :: "rstr \<Rightarrow> 'e option"
  io_read :: "rstr \<Rightarrow> rstr \<Rightarrow> 'e option"
  io_write :: "rstr \<Rightarrow> rstr \<Rightarrow> rstr \<times> 'e option"

section \<open>Operations\<close>

text \<open>The file is opened for appending, and created if it is missing; the lock is held to the end.\<close>

definition append_locked_line ::
  "'e amend_io \<Rightarrow> rstr \<Rightarrow> rstr \<Rightarrow> rstr option \<Rightarrow> rstr option \<times> ('e amend_error, unit) result" where
  "append_locked_line io path line f =
     (case io_open io path of
        Some e \<Rightarrow> (f, Err (OpenPolicyFile path e))
      | None \<Rightarrow>
          let contents = (case f of None \<Rightarrow> [] | Some c \<Rightarrow> c)
          in case io_lock io path of
               Some e \<Rightarrow> (Some contents, Err (LockPolicyFile path e))
             | None \<Rightarrow>
                 (case io_seek io path of
                    Some e \<Rightarrow> (Some contents, Err (SeekPolicyFile path e))
                  | None \<Rightarrow>
                      (case io_read io path contents of
                         Some e \<Rightarrow> (Some contents, Err (ReadPolicyFile path e))
                       | None \<Rightarrow>
                           if list_ex (\<lambda>existing. existing = line) (str_lines contents) then (Some contents, Ok ())
                           else
                             (case (if contents \<noteq> [] \<and> \<not> ends_with contents [NL]
                                    then io_write io contents [NL] else (contents, None)) of
                                (c1, Some e) \<Rightarrow> (Some c1, Err (WritePolicyFile path e))
                              | (c1, None) \<Rightarrow>
                                  (case io_write io c1 (line @ [NL]) of
                                     (c2, Some e) \<Rightarrow> (Some c2, Err (WritePolicyFile path e))
                                   | (c2, None) \<Rightarrow> (Some c2, Ok ()))))))"

definition append_rule_line ::
  "'e amend_io \<Rightarrow> rstr \<Rightarrow> rstr \<Rightarrow> rstr option \<Rightarrow> rstr option \<times> ('e amend_error, unit) result" where
  "append_rule_line io path rule f =
     (case io_parent io path of
        None \<Rightarrow> (f, Err (MissingParent path))
      | Some dir \<Rightarrow>
          (case io_create_dir io dir of
             DirFailed e \<Rightarrow> (f, Err (CreatePolicyDir dir e))
           | _ \<Rightarrow> append_locked_line io path rule f))"

definition allow_prefix_line :: "rstr list \<Rightarrow> rstr" where
  "allow_prefix_line tokens =
     ''prefix_rule(pattern='' @ (''['' @ join_with '', '' tokens @ '']'') @ '', decision=\"allow\")''"

definition blocking_append_allow_prefix_rule ::
  "'e amend_io \<Rightarrow> (rstr \<Rightarrow> ('e, rstr) result) \<Rightarrow> rstr \<Rightarrow> rstr list \<Rightarrow> rstr option
    \<Rightarrow> rstr option \<times> ('e amend_error, unit) result" where
  "blocking_append_allow_prefix_rule io json path pre f =
     (if pre = [] then (f, Err EmptyPrefix)
      else case collect_results json pre of
             Err e \<Rightarrow> (f, Err (SerializePrefix e))
           | Ok tokens \<Rightarrow> append_rule_line io path (allow_prefix_line tokens) f)"

fun decision_word :: "decision \<Rightarrow> rstr" where
  "decision_word Allow = ''allow''"
| "decision_word Prompt = ''prompt''"
| "decision_word Forbidden = ''deny''"

definition network_rule_line :: "rstr \<Rightarrow> rstr \<Rightarrow> rstr \<Rightarrow> rstr option \<Rightarrow> rstr" where
  "network_rule_line host protocol d justification =
     ''network_rule('' @
       join_with '', '' ([''host='' @ host, ''protocol='' @ protocol, ''decision='' @ d] @
         (case justification of None \<Rightarrow> [] | Some j \<Rightarrow> [''justification='' @ j])) @ '')''"

definition blocking_append_network_rule ::
  "'e amend_io \<Rightarrow> (rstr \<Rightarrow> ('e, rstr) result) \<Rightarrow> ('e exec_error \<Rightarrow> rstr) \<Rightarrow> rstr \<Rightarrow> rstr
    \<Rightarrow> network_rule_protocol \<Rightarrow> decision \<Rightarrow> rstr option \<Rightarrow> rstr option
    \<Rightarrow> rstr option \<times> ('e amend_error, unit) result" where
  "blocking_append_network_rule io json show_error path host protocol d justification f =
     (case normalize_network_rule_host host of
        Err e \<Rightarrow> (f, Err (InvalidNetworkRule (show_error e)))
      | Ok host \<Rightarrow>
          if (case justification of Some raw \<Rightarrow> trim raw = [] | None \<Rightarrow> False)
          then (f, Err (InvalidNetworkRule ''justification cannot be empty''))
          else
            (case and_then (json host) (\<lambda>h.
                  and_then (json (as_policy_string protocol)) (\<lambda>p.
                  and_then (json (decision_word d)) (\<lambda>w.
                  and_then (case justification of None \<Rightarrow> Ok None | Some raw \<Rightarrow> and_then (json raw) (\<lambda>j. Ok (Some j))) (\<lambda>j.
                    Ok (network_rule_line h p w j))))) of
               Err e \<Rightarrow> (f, Err (SerializeNetworkRule e))
             | Ok line \<Rightarrow> append_rule_line io path line f))"

section \<open>Facts\<close>

lemma split_on_at: "split_on d (a @ d # b) = split_on d a @ split_on d b"
  by (induction a) (auto split: list.splits)

lemma strip_cr_no_CR: "\<not> ends_with l [CR] \<Longrightarrow> strip_cr l = l"
  by (auto simp: strip_cr_def ends_with_def split: option.splits)

lemma str_lines_snoc:
  assumes "c = [] \<or> ends_with c [NL]" and "NL \<notin> set l" and "\<not> ends_with l [CR]"
  shows "str_lines (c @ l @ [NL]) = str_lines c @ [l]"
proof (cases "c = []")
  case True
  have "split_on NL (l @ [NL]) = [l, []]" using split_on_at [of NL l "[]"] assms(2) by simp
  then show ?thesis using True assms(3) by (simp add: str_lines_def strip_cr_no_CR)
next
  case False
  then obtain c0 where c: "c = c0 @ [NL]" using assms(1) by (auto simp: ends_with_iff suffix_def)
  have "split_on NL (c @ l @ [NL]) = split_on NL c0 @ [l, []]"
    using split_on_at [of NL c0 "l @ [NL]"] split_on_at [of NL l "[]"] assms(2) c by simp
  moreover have "split_on NL c = split_on NL c0 @ [[]]" using split_on_at [of NL c0 "[]"] c by simp
  ultimately show ?thesis using assms(3) by (simp add: str_lines_def strip_cr_no_CR butlast_append)
qed

text \<open>A write that reports success has appended its data.\<close>

definition writes_append :: "'e amend_io \<Rightarrow> bool" where
  "writes_append io \<longleftrightarrow> (\<forall>c d c'. io_write io c d = (c', None) \<longrightarrow> c' = c @ d)"

definition contents_of :: "rstr option \<Rightarrow> rstr" where
  "contents_of f = (case f of None \<Rightarrow> [] | Some c \<Rightarrow> c)"

text \<open>The contents a successful append leaves.\<close>

definition appended :: "rstr \<Rightarrow> rstr \<Rightarrow> rstr" where
  "appended c l =
     (if l \<in> set (str_lines c) then c
      else c @ (if c \<noteq> [] \<and> \<not> ends_with c [NL] then [NL] else []) @ l @ [NL])"

lemma append_locked_line_Ok:
  assumes "append_locked_line io path l f = (f', Ok ())" and "writes_append io"
  shows "f' = Some (appended (contents_of f) l)"
proof -
  let ?c = "contents_of f"
  have steps: "io_open io path = None" "io_lock io path = None" "io_seek io path = None" "io_read io path ?c = None"
    using assms(1) by (auto simp: append_locked_line_def contents_of_def Let_def split: option.splits)
  note app = assms(2) [unfolded writes_append_def, rule_format]
  show ?thesis
  proof (cases "l \<in> set (str_lines ?c)")
    case True
    then show ?thesis
      using assms(1) steps by (auto simp: append_locked_line_def contents_of_def appended_def list_ex_iff Let_def)
  next
    case False
    then show ?thesis
      using assms(1) steps
      by (auto simp: append_locked_line_def contents_of_def appended_def list_ex_iff Let_def
          split: prod.splits option.splits if_splits dest!: app)
  qed
qed

lemma appended_prefix: "prefix c (appended c l)"
  by (simp add: appended_def)

lemma appended_line:
  assumes "NL \<notin> set l" and "\<not> ends_with l [CR]"
  shows "l \<in> set (str_lines (appended c l))"
proof (cases "c \<noteq> [] \<and> \<not> ends_with c [NL]")
  case True
  have "ends_with (c @ [NL]) [NL]" by (simp add: ends_with_iff)
  then have "str_lines ((c @ [NL]) @ l @ [NL]) = str_lines (c @ [NL]) @ [l]" using str_lines_snoc assms by blast
  then show ?thesis using True by (auto simp: appended_def)
next
  case False
  then show ?thesis using str_lines_snoc [of c l] assms by (auto simp: appended_def)
qed

lemma appended_idem: "NL \<notin> set l \<Longrightarrow> \<not> ends_with l [CR] \<Longrightarrow> appended (appended c l) l = appended c l"
  using appended_line by (subst appended_def) simp

text \<open>The lines the code appends end in a parenthesis, and contain no newline if the JSON texts do not.\<close>

lemma join_with_no_NL: "\<forall>x \<in> set xs. NL \<notin> set x \<Longrightarrow> NL \<notin> set sep \<Longrightarrow> NL \<notin> set (join_with sep xs)"
  by (induction sep xs rule: join_with.induct) auto

lemma allow_prefix_line_shape:
  assumes "\<forall>t \<in> set tokens. NL \<notin> set t"
  shows "NL \<notin> set (allow_prefix_line tokens)" and "\<not> ends_with (allow_prefix_line tokens) [CR]"
proof -
  show "NL \<notin> set (allow_prefix_line tokens)"
    using join_with_no_NL [OF assms, of "'', ''"] by (simp add: allow_prefix_line_def NL_def)
  show "\<not> ends_with (allow_prefix_line tokens) [CR]"
    by (auto simp: ends_with_iff suffix_def allow_prefix_line_def CR_def dest!: arg_cong [of _ _ last])
qed

lemma append_allow_Ok:
  assumes "blocking_append_allow_prefix_rule io json path pre f = (f', Ok ())" and "writes_append io"
    and "\<forall>s t. json s = Ok t \<longrightarrow> NL \<notin> set t"
  obtains tokens where "collect_results json pre = Ok tokens" and "pre \<noteq> []"
    and "f' = Some (appended (contents_of f) (allow_prefix_line tokens))"
    and "NL \<notin> set (allow_prefix_line tokens)" and "\<not> ends_with (allow_prefix_line tokens) [CR]"
proof -
  obtain tokens where t: "collect_results json pre = Ok tokens" "pre \<noteq> []"
    and run: "append_locked_line io path (allow_prefix_line tokens) f = (f', Ok ())"
    using assms(1)
    by (auto simp: blocking_append_allow_prefix_rule_def append_rule_line_def
        split: if_splits sum.splits option.splits create_dir_result.splits)
  have "\<forall>x \<in> set tokens. NL \<notin> set x"
    using t(1) assms(3) unfolding collect_results_Ok list_all2_conv_all_nth by (metis in_set_conv_nth)
  then show thesis using that t append_locked_line_Ok [OF run assms(2)] allow_prefix_line_shape by blast
qed

end
