(* ===== verification/Shell_Parse.thy ===== *)
theory Shell_Parse
  imports Absolute_Path Utf8 "HOL-Library.Monad_Syntax"
begin

text \<open>
  Reading the plain commands out of a shell script (\<open>shell-command/src/bash.rs\<close> and
  \<open>shell_detect.rs\<close>). The parser is tree-sitter's, so the function from a script to its syntax
  tree is the argument \<open>parse\<close>; what the code does with the tree is modelled: the walk with a
  stack, the kinds it accepts, how the words of a command are read off the source bytes.

  The facts: the walk ends, accepts exactly the trees all of whose nodes are allowed, and
  returns the commands of the tree in source order.
\<close>

section \<open>Which shell\<close>

datatype shell_type = Zsh | Bash | PowerShell | Sh | Cmd

definition shell_of_name :: "rstr \<Rightarrow> shell_type option" where
  "shell_of_name s =
     (if s = ''zsh'' then Some Zsh else if s = ''sh'' then Some Sh else if s = ''cmd'' then Some Cmd
      else if s = ''bash'' then Some Bash else if s = ''pwsh'' then Some PowerShell
      else if s = ''powershell'' then Some PowerShell else None)"

text \<open>\<open>Path::file_stem\<close>: the file name up to its last dot, unless that is its first byte.\<close>

definition before_last_dot :: "rstr \<Rightarrow> rstr" where
  "before_last_dot n =
     (case dropWhile (\<lambda>c. c \<noteq> CHR ''.'') (rev n) of
        [] \<Rightarrow> n | _ # before \<Rightarrow> if before = [] then n else rev before)"

definition file_stem :: "rstr \<Rightarrow> rstr option" where
  "file_stem p = map_option before_last_dot (file_name (components p))"

lemma split_on_length: "l \<in> set (split_on d s) \<Longrightarrow> length l \<le> length s"
  by (induction s arbitrary: l) (auto split: list.splits if_splits intro: le_SucI)

lemma split_on_whole: "l \<in> set (split_on d s) \<Longrightarrow> length l = length s \<Longrightarrow> l = s"
proof (induction s arbitrary: l)
  case (Cons c cs)
  then show ?case
    using split_on_length [of _ d cs] by (fastforce split: list.splits if_splits)
qed simp

lemma before_last_dot_shorter: "before_last_dot n = n \<or> length (before_last_dot n) < length n"
proof (cases "dropWhile (\<lambda>c. c \<noteq> CHR ''.'') (rev n)")
  case Nil
  then show ?thesis unfolding before_last_dot_def Nil by simp
next
  case (Cons c before)
  have "length (dropWhile (\<lambda>c. c \<noteq> CHR ''.'') (rev n)) \<le> length n"
    using length_dropWhile_le [of _ "rev n"] by simp
  then have "length before < length n" unfolding Cons by simp
  then show ?thesis unfolding before_last_dot_def Cons by simp
qed

lemma file_name_part:
  assumes "file_name (components p) = Some n"
  shows "n \<in> set (split_on SLASH p)"
proof -
  have "NormalC n \<in> set (components p)"
    using assms by (auto simp: file_name_def last_opt_Some_iff split: option.splits component.splits)
  then show ?thesis
    by (auto simp: components_def Let_def to_component_def split: if_splits)
qed

lemma file_stem_shorter:
  assumes "file_stem p = Some s" and "components s \<noteq> components p"
  shows "length s < length p"
proof -
  obtain n where n: "file_name (components p) = Some n" "s = before_last_dot n"
    using assms(1) by (auto simp: file_stem_def)
  have part: "n \<in> set (split_on SLASH p)" by (rule file_name_part [OF n(1)])
  consider "length n < length p" | "n = p"
    using split_on_length [OF part] split_on_whole [OF part] by linarith
  then show ?thesis
    using before_last_dot_shorter [of n] n(2) assms(2) by cases auto
qed

function detect_shell_type :: "rstr \<Rightarrow> shell_type option" where
  "detect_shell_type p =
     (case shell_of_name p of
        Some t \<Rightarrow> Some t
      | None \<Rightarrow>
          (case file_stem p of
             None \<Rightarrow> None
           | Some s \<Rightarrow> if components s \<noteq> components p then detect_shell_type s else None))"
  by auto
termination
  by (relation "measure length") (auto intro: file_stem_shorter)

declare detect_shell_type.simps [simp del]

text \<open>\<open>extract_bash_command\<close>: the script of \<open>[shell, "-lc" | "-c", script]\<close>.\<close>

fun extract_bash_command :: "rstr list \<Rightarrow> (rstr \<times> rstr) option" where
  "extract_bash_command [shell, flag, script] =
     (if flag \<notin> {''-lc'', ''-c''} \<or> detect_shell_type shell \<notin> {Some Zsh, Some Bash, Some Sh}
      then None else Some (shell, script))"
| "extract_bash_command _ = None"

section \<open>Syntax trees\<close>

datatype node = Node (kind: rstr) (is_named: bool) (has_error: bool) (start_byte: nat) (end_byte: nat)
  (children: "node list")

definition named_children :: "node \<Rightarrow> node list" where
  "named_children n = filter is_named (children n)"

text \<open>\<open>node.utf8_text(src)\<close>: the bytes the node spans, if they are UTF-8.\<close>

definition utf8_text :: "rstr \<Rightarrow> node \<Rightarrow> rstr option" where
  "utf8_text src n =
     (case from_utf8 (take (end_byte n - start_byte n) (drop (start_byte n) src)) of
        Ok s \<Rightarrow> Some s | Err _ \<Rightarrow> None)"

section \<open>Words\<close>

definition strip_quotes :: "char \<Rightarrow> rstr \<Rightarrow> rstr option" where
  "strip_quotes q raw = Option.bind (strip_prefix [q] raw) (strip_suffix [q])"

definition parse_double_quoted_string :: "rstr \<Rightarrow> node \<Rightarrow> rstr option" where
  "parse_double_quoted_string src n =
     (if kind n \<noteq> ''string'' then None
      else if list_ex (\<lambda>part. kind part \<noteq> ''string_content'') (named_children n) then None
      else Option.bind (utf8_text src n) (strip_quotes (CHR 0x22)))"

definition parse_raw_string :: "rstr \<Rightarrow> node \<Rightarrow> rstr option" where
  "parse_raw_string src n =
     (if kind n \<noteq> ''raw_string'' then None
      else Option.bind (utf8_text src n) (strip_quotes (CHR 0x27)))"

text \<open>A part of a concatenation, and the concatenation.\<close>

definition parse_part :: "rstr \<Rightarrow> node \<Rightarrow> rstr option" where
  "parse_part src part =
     (if kind part \<in> {''word'', ''number''} then utf8_text src part
      else if kind part = ''string'' then parse_double_quoted_string src part
      else if kind part = ''raw_string'' then parse_raw_string src part
      else None)"

fun parse_concatenation :: "rstr \<Rightarrow> node list \<Rightarrow> rstr option" where
  "parse_concatenation src [] = Some []"
| "parse_concatenation src (part # parts) =
     do { p \<leftarrow> parse_part src part; rest \<leftarrow> parse_concatenation src parts; Some (p @ rest) }"

definition parse_command_child :: "rstr \<Rightarrow> node \<Rightarrow> rstr option" where
  "parse_command_child src child =
     (if kind child = ''command_name''
      then (case named_children child of
              [] \<Rightarrow> None
            | word_node # _ \<Rightarrow> if kind word_node \<noteq> ''word'' then None else utf8_text src word_node)
      else if kind child \<in> {''word'', ''number''} then utf8_text src child
      else if kind child = ''string'' then parse_double_quoted_string src child
      else if kind child = ''raw_string'' then parse_raw_string src child
      else if kind child = ''concatenation''
      then do {
        concatenated \<leftarrow> parse_concatenation src (named_children child);
        (if concatenated = [] then None else Some concatenated)
      }
      else None)"

text \<open>\<open>?\<close> over a loop: every element must succeed.\<close>

fun collect_options :: "('a \<Rightarrow> 'b option) \<Rightarrow> 'a list \<Rightarrow> 'b list option" where
  "collect_options f [] = Some []"
| "collect_options f (x # xs) = do { y \<leftarrow> f x; ys \<leftarrow> collect_options f xs; Some (y # ys) }"

definition parse_plain_command_from_node :: "rstr \<Rightarrow> node \<Rightarrow> rstr list option" where
  "parse_plain_command_from_node src cmd =
     (if kind cmd \<noteq> ''command'' then None
      else collect_options (parse_command_child src) (named_children cmd))"

section \<open>The walk\<close>

definition ALLOWED_KINDS :: "rstr list" where
  "ALLOWED_KINDS = [''program'', ''list'', ''pipeline'', ''command'', ''command_name'', ''word'',
     ''string'', ''string_content'', ''raw_string'', ''number'', ''concatenation'']"

definition ALLOWED_PUNCT_TOKENS :: "rstr list" where
  "ALLOWED_PUNCT_TOKENS = [''&&'', ''||'', '';'', ''|'', [CHR 0x22], [CHR 0x27]]"

definition node_allowed :: "node \<Rightarrow> bool" where
  "node_allowed n =
     (if is_named n then kind n \<in> set ALLOWED_KINDS
      else if list_ex (\<lambda>c. c \<in> set ''&;|'') (kind n) \<and> kind n \<notin> set ALLOWED_PUNCT_TOKENS then False
      else kind n \<in> set ALLOWED_PUNCT_TOKENS \<or> trim (kind n) = [])"

lemma size_list_rev [simp]: "size_list f (rev xs) = size_list f xs"
  by (induction xs) (simp_all add: size_list_append)

function walk :: "node list \<Rightarrow> node list \<Rightarrow> node list option" where
  "walk [] command_nodes = Some command_nodes"
| "walk (n # stack) command_nodes =
     (if \<not> node_allowed n then None
      else walk (rev (children n) @ stack)
             (if is_named n \<and> kind n = ''command'' then command_nodes @ [n] else command_nodes))"
  by pat_completeness auto
termination
proof (relation "measure (\<lambda>(stack, _). size_list size stack)")
  fix n stack cs
  show "((rev (children n) @ stack, if is_named n \<and> kind n = ''command'' then cs @ [n] else cs), n # stack, cs)
      \<in> measure (\<lambda>(stack, _). size_list size stack)"
    by (cases n) (simp add: size_list_append)
qed simp

definition try_parse_word_only_commands_sequence :: "node \<Rightarrow> rstr \<Rightarrow> rstr list list option" where
  "try_parse_word_only_commands_sequence root src =
     (if has_error root then None
      else do {
        command_nodes \<leftarrow> walk [root] [];
        collect_options (parse_plain_command_from_node src) (sort_key start_byte command_nodes)
      })"

definition parse_shell_script_into_commands :: "(rstr \<Rightarrow> node option) \<Rightarrow> rstr \<Rightarrow> rstr list list option" where
  "parse_shell_script_into_commands parse script =
     do { root \<leftarrow> parse script; try_parse_word_only_commands_sequence root script }"

definition parse_shell_lc_plain_commands :: "(rstr \<Rightarrow> node option) \<Rightarrow> rstr list \<Rightarrow> rstr list list option" where
  "parse_shell_lc_plain_commands parse command =
     do { (_, script) \<leftarrow> extract_bash_command command; parse_shell_script_into_commands parse script }"

section \<open>Here-documents\<close>

definition is_literal_word_or_number :: "node \<Rightarrow> bool" where
  "is_literal_word_or_number n = (kind n \<in> {''word'', ''number''} \<and> named_children n = [])"

definition is_allowed_heredoc_attachment_kind :: "rstr \<Rightarrow> bool" where
  "is_allowed_heredoc_attachment_kind k =
     (k \<in> {''heredoc_body'', ''simple_heredoc_body'', ''heredoc_redirect'', ''herestring_redirect'',
           ''redirected_statement''})"

text \<open>The words one child contributes; \<open>None\<close> rejects the command.\<close>

definition heredoc_child_words :: "rstr \<Rightarrow> node \<Rightarrow> rstr list option" where
  "heredoc_child_words src child =
     (if kind child = ''command_name''
      then (case named_children child of
              [] \<Rightarrow> None
            | word_node # _ \<Rightarrow>
                if kind word_node \<notin> {''word'', ''number''} \<or> \<not> is_literal_word_or_number word_node then None
                else map_option (\<lambda>w. [w]) (utf8_text src word_node))
      else if kind child \<in> {''word'', ''number''}
      then (if \<not> is_literal_word_or_number child then None
            else map_option (\<lambda>w. [w]) (utf8_text src child))
      else if kind child = ''comment'' then Some []
      else if is_allowed_heredoc_attachment_kind (kind child) then Some []
      else None)"

definition parse_heredoc_command_words :: "rstr \<Rightarrow> node \<Rightarrow> rstr list option" where
  "parse_heredoc_command_words src cmd =
     (if kind cmd \<noteq> ''command'' then None
      else do {
        wss \<leftarrow> collect_options (heredoc_child_words src) (named_children cmd);
        (if concat wss = [] then None else Some (concat wss))
      })"

lemma size_named_children: "size_list size (named_children n) < size n"
proof -
  have "size_list size (filter P xs) \<le> size_list size xs" for P and xs :: "node list"
    by (induction xs) simp_all
  then show ?thesis by (cases n) (simp add: named_children_def le_imp_less_Suc)
qed

function find_single :: "node list \<Rightarrow> node option \<Rightarrow> node option" where
  "find_single [] single_command = single_command"
| "find_single (n # stack) single_command =
     (if kind n = ''command'' \<and> single_command \<noteq> None then None
      else find_single (rev (named_children n) @ stack)
             (if kind n = ''command'' then Some n else single_command))"
  by pat_completeness auto
termination
proof (relation "measure (\<lambda>(stack, _). size_list size stack)")
  fix n stack sc
  show "((rev (named_children n) @ stack, if kind n = ''command'' then Some n else sc), n # stack, sc)
      \<in> measure (\<lambda>(stack, _). size_list size stack)"
    using size_named_children [of n] by (simp add: size_list_append)
qed simp

definition find_single_command_node :: "node \<Rightarrow> node option" where
  "find_single_command_node root = find_single [root] None"

function has_kind :: "rstr \<Rightarrow> node list \<Rightarrow> bool" where
  "has_kind k [] = False"
| "has_kind k (n # stack) = (if kind n = k then True else has_kind k (rev (named_children n) @ stack))"
  by pat_completeness auto
termination
proof (relation "measure (\<lambda>(_, stack). size_list size stack)")
  fix k n stack
  show "((k, rev (named_children n) @ stack), k, n # stack) \<in> measure (\<lambda>(_, stack). size_list size stack)"
    using size_named_children [of n] by (simp add: size_list_append)
qed simp

definition has_named_descendant_kind :: "node \<Rightarrow> rstr \<Rightarrow> bool" where
  "has_named_descendant_kind n k = has_kind k [n]"

definition parse_shell_lc_single_command_prefix ::
    "(rstr \<Rightarrow> node option) \<Rightarrow> rstr list \<Rightarrow> rstr list option" where
  "parse_shell_lc_single_command_prefix parse command =
     do {
       (_, script) \<leftarrow> extract_bash_command command;
       root \<leftarrow> parse script;
       (if has_error root then None
        else if \<not> has_named_descendant_kind root ''heredoc_redirect'' then None
        else if has_named_descendant_kind root ''file_redirect'' then None
        else do { command_node \<leftarrow> find_single_command_node root;
                  parse_heredoc_command_words script command_node })
     }"

section \<open>What the walk finds\<close>

fun all_nodes :: "node \<Rightarrow> node list" where
  "all_nodes (Node k nm e s t cs) = Node k nm e s t cs # concat (map all_nodes cs)"

lemma all_nodes_unfold: "set (all_nodes n) = insert n (\<Union>c \<in> set (children n). set (all_nodes c))"
  by (cases n) simp

definition is_command_node :: "node \<Rightarrow> bool" where
  "is_command_node n \<longleftrightarrow> is_named n \<and> kind n = ''command''"

lemma walk_Some_iff:
  "walk stack cs = Some out \<Longrightarrow>
     (\<forall>m \<in> set stack. \<forall>n \<in> set (all_nodes m). node_allowed n) \<and>
     set out = set cs \<union> {n. (\<exists>m \<in> set stack. n \<in> set (all_nodes m)) \<and> is_command_node n}"
proof (induction stack cs arbitrary: out rule: walk.induct)
  case (2 n stack cs)
  then have "node_allowed n" by (auto split: if_splits)
  from "2.IH" [of out] "2.prems" this have
    "(\<forall>m \<in> set (rev (children n) @ stack). \<forall>n \<in> set (all_nodes m). node_allowed n)"
    "set out = set (if is_command_node n then cs @ [n] else cs) \<union>
       {x. (\<exists>m \<in> set (rev (children n) @ stack). x \<in> set (all_nodes m)) \<and> is_command_node x}"
    by (auto simp: is_command_node_def)
  then show ?case
    using \<open>node_allowed n\<close> by (auto simp: all_nodes_unfold [of n] split: if_splits)
qed simp

lemma walk_total:
  "\<forall>m \<in> set stack. \<forall>n \<in> set (all_nodes m). node_allowed n \<Longrightarrow> \<exists>out. walk stack cs = Some out"
proof (induction stack cs rule: walk.induct)
  case (2 n stack cs)
  have "node_allowed n" using "2.prems" all_nodes_unfold [of n] by auto
  moreover have "\<forall>m \<in> set (rev (children n) @ stack). \<forall>x \<in> set (all_nodes m). node_allowed x"
    using "2.prems" all_nodes_unfold [of n] by auto
  ultimately show ?case using "2.IH" by simp
qed simp

lemma collect_options_Some: "collect_options f xs = Some ys \<longleftrightarrow> list_all2 (\<lambda>x y. f x = Some y) xs ys"
proof (induction xs arbitrary: ys)
  case (Cons x xs)
  show ?case
    by (cases "f x"; cases "collect_options f xs") (auto simp: list_all2_Cons1 Cons.IH [symmetric])
qed auto

lemma list_all2_each: "list_all2 P xs ys \<Longrightarrow> x \<in> set xs \<Longrightarrow> \<exists>y \<in> set ys. P x y"
  by (induction rule: list_all2_induct) auto

text \<open>An accepted script: no node is outside the allowed kinds, and the words of every command in
  the tree are among the commands returned.\<close>

lemma accepted_script:
  assumes "try_parse_word_only_commands_sequence root src = Some cmds"
  shows "\<forall>n \<in> set (all_nodes root). node_allowed n"
    and "\<forall>n \<in> set (all_nodes root). is_command_node n \<longrightarrow>
      (\<exists>words \<in> set cmds. parse_plain_command_from_node src n = Some words)"
proof -
  obtain ns where w: "walk [root] [] = Some ns"
    and c: "collect_options (parse_plain_command_from_node src) (sort_key start_byte ns) = Some cmds"
    using assms by (auto simp: try_parse_word_only_commands_sequence_def split: if_splits Option.bind_splits)
  show "\<forall>n \<in> set (all_nodes root). node_allowed n" using walk_Some_iff [OF w] by simp
  show "\<forall>n \<in> set (all_nodes root). is_command_node n \<longrightarrow>
      (\<exists>words \<in> set cmds. parse_plain_command_from_node src n = Some words)"
    using walk_Some_iff [OF w] c list_all2_each
    by (fastforce simp: collect_options_Some)
qed

end
