(* ===== verification/Command_Safety.thy ===== *)
theory Command_Safety
  imports Shell_Parse
begin

text \<open>
  The heuristics for commands no rule matches (\<open>shell-command/src/command_safety\<close>, the Unix
  build): which commands are known to be read-only and which might be dangerous. The shell
  parser is the argument \<open>parse\<close>, as in \<open>Shell_Parse\<close>.
\<close>

section \<open>Names and git's global options\<close>

definition executable_name_lookup_key :: "rstr \<Rightarrow> rstr option" where
  "executable_name_lookup_key raw = file_name (components raw)"

definition is_git_global_option_with_value :: "rstr \<Rightarrow> bool" where
  "is_git_global_option_with_value arg =
     (arg \<in> {''-C'', ''-c'', ''--config-env'', ''--exec-path'', ''--git-dir'', ''--namespace'',
             ''--super-prefix'', ''--work-tree''})"

definition is_git_global_option_with_inline_value :: "rstr \<Rightarrow> bool" where
  "is_git_global_option_with_inline_value arg =
     ((starts_with arg ''--config-env='' \<or> starts_with arg ''--exec-path='' \<or> starts_with arg ''--git-dir='' \<or>
       starts_with arg ''--namespace='' \<or> starts_with arg ''--super-prefix='' \<or> starts_with arg ''--work-tree='') \<or>
      ((starts_with arg ''-C'' \<or> starts_with arg ''-c'') \<and> 2 < length arg))"

text \<open>The loop over the arguments: index of the next one, and \<open>skip_next\<close>.\<close>

fun find_subcommand_loop :: "rstr list \<Rightarrow> nat \<Rightarrow> bool \<Rightarrow> rstr list \<Rightarrow> (nat \<times> rstr) option" where
  "find_subcommand_loop subcommands idx skip_next [] = None"
| "find_subcommand_loop subcommands idx skip_next (arg # args) =
     (if skip_next then find_subcommand_loop subcommands (idx + 1) False args
      else if is_git_global_option_with_inline_value arg
      then find_subcommand_loop subcommands (idx + 1) False args
      else if is_git_global_option_with_value arg
      then find_subcommand_loop subcommands (idx + 1) True args
      else if arg = ''--'' \<or> starts_with arg ''-''
      then find_subcommand_loop subcommands (idx + 1) False args
      else if arg \<in> set subcommands then Some (idx, arg)
      else None)"

definition find_git_subcommand :: "rstr list \<Rightarrow> rstr list \<Rightarrow> (nat \<times> rstr) option" where
  "find_git_subcommand command subcommands =
     (case command of
        [] \<Rightarrow> None
      | cmd0 # args \<Rightarrow>
          if executable_name_lookup_key cmd0 \<noteq> Some ''git'' then None
          else find_subcommand_loop subcommands 1 False args)"

section \<open>Dangerous commands\<close>

fun is_dangerous_to_call_with_exec :: "rstr list \<Rightarrow> bool" where
  "is_dangerous_to_call_with_exec [] = False"
| "is_dangerous_to_call_with_exec (cmd0 # args) =
     (if cmd0 = ''rm'' then (case args of [] \<Rightarrow> False | a # _ \<Rightarrow> a \<in> {''-f'', ''-rf''})
      else if cmd0 = ''sudo'' then is_dangerous_to_call_with_exec args
      else False)"

definition command_might_be_dangerous :: "(rstr \<Rightarrow> node option) \<Rightarrow> rstr list \<Rightarrow> bool" where
  "command_might_be_dangerous parse command =
     (if is_dangerous_to_call_with_exec command then True
      else case parse_shell_lc_plain_commands parse command of
             Some all_commands \<Rightarrow> list_ex is_dangerous_to_call_with_exec all_commands
           | None \<Rightarrow> False)"

section \<open>Known safe commands\<close>

datatype git_option_pattern = Exact rstr | ShortWithInlineValue rstr | Prefix rstr

fun git_pattern_matches :: "git_option_pattern \<Rightarrow> rstr \<Rightarrow> bool" where
  "git_pattern_matches (Exact opt) arg = (arg = opt)"
| "git_pattern_matches (ShortWithInlineValue opt) arg = (starts_with arg opt \<and> length opt < length arg)"
| "git_pattern_matches (Prefix p) arg = starts_with arg p"

definition UNSAFE_GIT_GLOBAL_OPTIONS :: "git_option_pattern list" where
  "UNSAFE_GIT_GLOBAL_OPTIONS =
     [Exact ''-C'', ShortWithInlineValue ''-C'', Exact ''-c'', ShortWithInlineValue ''-c'', Exact ''-p'',
      Exact ''--config-env'', Prefix ''--config-env='', Exact ''--exec-path'', Prefix ''--exec-path='',
      Exact ''--git-dir'', Prefix ''--git-dir='', Exact ''--namespace'', Prefix ''--namespace='',
      Exact ''--paginate'', Exact ''--super-prefix'', Prefix ''--super-prefix='',
      Exact ''--work-tree'', Prefix ''--work-tree='']"

definition UNSAFE_GIT_SUBCOMMAND_OPTIONS :: "git_option_pattern list" where
  "UNSAFE_GIT_SUBCOMMAND_OPTIONS =
     [Exact ''--output'', Prefix ''--output='', Exact ''--ext-diff'', Exact ''--textconv'',
      Exact ''--exec'', Prefix ''--exec='']"

definition git_matches_option_pattern :: "rstr \<Rightarrow> git_option_pattern list \<Rightarrow> bool" where
  "git_matches_option_pattern arg patterns = list_ex (\<lambda>p. git_pattern_matches p arg) patterns"

definition git_has_unsafe_global_option :: "rstr list \<Rightarrow> bool" where
  "git_has_unsafe_global_option global_args =
     list_ex (\<lambda>arg. git_matches_option_pattern arg UNSAFE_GIT_GLOBAL_OPTIONS) global_args"

definition git_subcommand_args_are_read_only :: "rstr list \<Rightarrow> bool" where
  "git_subcommand_args_are_read_only args =
     (\<not> list_ex (\<lambda>arg. git_matches_option_pattern arg UNSAFE_GIT_SUBCOMMAND_OPTIONS) args)"

fun branch_flags_loop :: "rstr list \<Rightarrow> bool \<Rightarrow> bool" where
  "branch_flags_loop [] saw_read_only_flag = saw_read_only_flag"
| "branch_flags_loop (arg # args) saw_read_only_flag =
     (if arg \<in> {''--list'', ''-l'', ''--show-current'', ''-a'', ''--all'', ''-r'', ''--remotes'', ''-v'',
                ''-vv'', ''--verbose''} then branch_flags_loop args True
      else if starts_with arg ''--format='' then branch_flags_loop args True
      else False)"

definition git_branch_is_read_only :: "rstr list \<Rightarrow> bool" where
  "git_branch_is_read_only branch_args = (branch_args = [] \<or> branch_flags_loop branch_args False)"

definition is_safe_git_command :: "rstr list \<Rightarrow> bool" where
  "is_safe_git_command command =
     (case find_git_subcommand command [''status'', ''log'', ''diff'', ''show'', ''branch''] of
        None \<Rightarrow> False
      | Some (subcommand_idx, subcommand) \<Rightarrow>
          let global_args = take (subcommand_idx - 1) (drop 1 command);
              subcommand_args = drop (subcommand_idx + 1) command
          in if git_has_unsafe_global_option global_args then False
             else if subcommand \<in> {''status'', ''log'', ''diff'', ''show''}
             then git_subcommand_args_are_read_only subcommand_args
             else if subcommand = ''branch''
             then git_subcommand_args_are_read_only subcommand_args \<and> git_branch_is_read_only subcommand_args
             else False)"

definition is_digits :: "rstr \<Rightarrow> bool" where
  "is_digits s = (s \<noteq> [] \<and> list_all (\<lambda>c. 48 \<le> (of_char c :: nat) \<and> (of_char c :: nat) \<le> 57) s)"

definition is_valid_sed_n_arg :: "rstr option \<Rightarrow> bool" where
  "is_valid_sed_n_arg arg =
     (case arg of
        None \<Rightarrow> False
      | Some s \<Rightarrow>
          (case strip_suffix ''p'' s of
             None \<Rightarrow> False
           | Some core \<Rightarrow>
               (case split_on (CHR '','') core of
                  [num] \<Rightarrow> is_digits num
                | [a, b] \<Rightarrow> is_digits a \<and> is_digits b
                | _ \<Rightarrow> False)))"

definition SAFE_NAMES :: "rstr list" where
  "SAFE_NAMES = [''cat'', ''cd'', ''cut'', ''echo'', ''expr'', ''false'', ''grep'', ''head'', ''id'', ''ls'',
     ''nl'', ''paste'', ''pwd'', ''rev'', ''seq'', ''stat'', ''tail'', ''tr'', ''true'', ''uname'', ''uniq'',
     ''wc'', ''which'', ''whoami'']"

definition UNSAFE_FIND_OPTIONS :: "rstr list" where
  "UNSAFE_FIND_OPTIONS = [''-exec'', ''-execdir'', ''-ok'', ''-okdir'', ''-delete'', ''-fls'', ''-fprint'',
     ''-fprint0'', ''-fprintf'']"

definition is_unsafe_base64_arg :: "rstr \<Rightarrow> bool" where
  "is_unsafe_base64_arg arg =
     (arg \<in> {''-o'', ''--output''} \<or> starts_with arg ''--output='' \<or> (starts_with arg ''-o'' \<and> arg \<noteq> ''-o''))"

definition is_unsafe_rg_arg :: "rstr \<Rightarrow> bool" where
  "is_unsafe_rg_arg arg =
     (arg \<in> {''--search-zip'', ''-z''} \<or>
      list_ex (\<lambda>opt. arg = opt \<or> starts_with arg (opt @ ''='')) [''--pre'', ''--hostname-bin''])"

definition is_safe_to_call_with_exec :: "rstr list \<Rightarrow> bool" where
  "is_safe_to_call_with_exec command =
     (case command of
        [] \<Rightarrow> False
      | cmd0 # args \<Rightarrow>
          (case executable_name_lookup_key cmd0 of
             None \<Rightarrow> False
           | Some cmd \<Rightarrow>
               if cmd \<in> {''numfmt'', ''tac''} then True
               else if cmd \<in> set SAFE_NAMES then True
               else if cmd = ''base64'' then \<not> list_ex is_unsafe_base64_arg args
               else if cmd = ''find'' then \<not> list_ex (\<lambda>arg. arg \<in> set UNSAFE_FIND_OPTIONS) command
               else if cmd = ''rg'' then \<not> list_ex is_unsafe_rg_arg command
               else if cmd = ''git'' then is_safe_git_command command
               else if cmd = ''sed''
               then length command \<le> 4 \<and> 1 < length command \<and> command ! 1 = ''-n'' \<and>
                    is_valid_sed_n_arg (if 2 < length command then Some (command ! 2) else None)
               else False))"

definition zsh_as_bash :: "rstr \<Rightarrow> rstr" where
  "zsh_as_bash s = (if s = ''zsh'' then ''bash'' else s)"

definition is_known_safe_command :: "(rstr \<Rightarrow> node option) \<Rightarrow> rstr list \<Rightarrow> bool" where
  "is_known_safe_command parse command0 =
     (let command = map zsh_as_bash command0
      in if is_safe_to_call_with_exec command then True
         else case parse_shell_lc_plain_commands parse command of
                Some all_commands \<Rightarrow> all_commands \<noteq> [] \<and> list_all is_safe_to_call_with_exec all_commands
              | None \<Rightarrow> False)"

section \<open>Safe and dangerous exclude each other\<close>

text \<open>A bare name is its own lookup key.\<close>

lemma lookup_key_bare:
  "n \<noteq> [] \<Longrightarrow> n \<noteq> ''.'' \<Longrightarrow> n \<noteq> ''..'' \<Longrightarrow> SLASH \<notin> set n \<Longrightarrow> executable_name_lookup_key n = Some n"
  by (auto simp: executable_name_lookup_key_def components_def file_name_def to_component_def
      starts_with_def last_opt_def elim: strip_prefix.elims)

lemma safe_not_dangerous: "is_safe_to_call_with_exec command \<Longrightarrow> \<not> is_dangerous_to_call_with_exec command"
proof (cases command)
  case (Cons cmd0 args)
  assume "is_safe_to_call_with_exec command"
  moreover have "executable_name_lookup_key ''rm'' = Some ''rm''"
    "executable_name_lookup_key ''sudo'' = Some ''sudo''"
    by (simp_all add: lookup_key_bare)
  ultimately have "cmd0 \<noteq> ''rm''" "cmd0 \<noteq> ''sudo''"
    using Cons by (auto simp: is_safe_to_call_with_exec_def SAFE_NAMES_def)
  with Cons show ?thesis by simp
qed simp

text \<open>What \<open>detect_shell_type\<close> takes for a shell: a shell's name, with any extensions.\<close>

definition SHELL_NAMES :: "rstr list" where
  "SHELL_NAMES = [''zsh'', ''sh'', ''cmd'', ''bash'', ''pwsh'', ''powershell'']"

definition shellish :: "rstr \<Rightarrow> bool" where
  "shellish n = list_ex (\<lambda>b. n = b \<or> prefix (b @ ''.'') n) SHELL_NAMES"

lemma before_last_dot_parts: "n = before_last_dot n \<or> (\<exists>e. n = before_last_dot n @ ''.'' @ e)"
proof (cases "dropWhile (\<lambda>c. c \<noteq> CHR ''.'') (rev n)")
  case Nil
  then show ?thesis unfolding before_last_dot_def Nil by simp
next
  case (Cons c before)
  have "c = CHR ''.''" using hd_dropWhile [of "\<lambda>c. c \<noteq> CHR ''.''" "rev n"] Cons by simp
  moreover have "rev n = takeWhile (\<lambda>c. c \<noteq> CHR ''.'') (rev n) @ c # before"
    using takeWhile_dropWhile_id [of "\<lambda>c. c \<noteq> CHR ''.''" "rev n"] unfolding Cons by simp
  ultimately have "n = rev before @ ''.'' @ rev (takeWhile (\<lambda>c. c \<noteq> CHR ''.'') (rev n))"
    by (metis append_Cons append_Nil append_assoc rev.simps(2) rev_append rev_rev_ident)
  then show ?thesis unfolding before_last_dot_def Cons by auto
qed

lemma shellish_ext: "shellish s \<Longrightarrow> shellish (s @ ''.'' @ e)"
  by (auto simp: shellish_def SHELL_NAMES_def prefix_def)

lemma file_name_no_slash: "file_name (components p) = Some n \<Longrightarrow> SLASH \<notin> set n"
  using file_name_part split_on_no_sep by blast

lemma file_name_flat:
  assumes "SLASH \<notin> set s" and "file_name (components s) = Some m"
  shows "m = s"
  using file_name_part [OF assms(2)] assms(1) by simp

lemma detect_shellish:
  "detect_shell_type p \<noteq> None \<Longrightarrow> \<exists>n. file_name (components p) = Some n \<and> shellish n"
proof (induction p rule: detect_shell_type.induct)
  case (1 p)
  show ?case
  proof (cases "shell_of_name p")
    case (Some t)
    then have "p \<in> set SHELL_NAMES"
      by (auto simp: shell_of_name_def SHELL_NAMES_def split: if_splits)
    then show ?thesis
      using lookup_key_bare [of p]
      by (auto simp: SHELL_NAMES_def shellish_def executable_name_lookup_key_def)
  next
    case None
    then obtain s where s: "file_stem p = Some s" "components s \<noteq> components p" "detect_shell_type s \<noteq> None"
      using "1.prems" by (subst (asm) detect_shell_type.simps) (auto split: option.splits if_splits)
    then obtain m where m: "file_name (components s) = Some m" "shellish m"
      using "1.IH" [OF None s(1,2)] by blast
    obtain n where n: "file_name (components p) = Some n" "s = before_last_dot n"
      using s(1) by (auto simp: file_stem_def)
    have "set s \<subseteq> set n" using before_last_dot_parts [of n] n(2) by (metis set_append Un_upper1 order_refl)
    then have "SLASH \<notin> set s" using file_name_no_slash [OF n(1)] by blast
    then have "shellish s" using file_name_flat m by blast
    then show ?thesis using n before_last_dot_parts [of n] shellish_ext by metis
  qed
qed

lemma safe_name:
  assumes "is_safe_to_call_with_exec (cmd0 # args)"
  shows "\<exists>n \<in> set (SAFE_NAMES @ [''numfmt'', ''tac'', ''base64'', ''find'', ''rg'', ''git'', ''sed'']).
    executable_name_lookup_key cmd0 = Some n"
  using assms by (auto simp: is_safe_to_call_with_exec_def split: option.splits if_splits)

lemma safe_names_not_shellish:
  "list_all (\<lambda>n. \<not> shellish n) (SAFE_NAMES @ [''numfmt'', ''tac'', ''base64'', ''find'', ''rg'', ''git'', ''sed''])"
  by (simp add: SAFE_NAMES_def shellish_def SHELL_NAMES_def)

lemma safe_name_not_shell:
  assumes "is_safe_to_call_with_exec (cmd0 # args)"
  shows "detect_shell_type cmd0 = None"
proof (rule ccontr)
  assume "detect_shell_type cmd0 \<noteq> None"
  then obtain n where "executable_name_lookup_key cmd0 = Some n" "shellish n"
    using detect_shellish by (auto simp: executable_name_lookup_key_def)
  then show False
    using safe_name [OF assms] safe_names_not_shellish unfolding list_all_iff by auto
qed

lemma rm_not_shell: "cmd0 = ''rm'' \<or> cmd0 = ''sudo'' \<Longrightarrow> detect_shell_type cmd0 = None"
proof (rule ccontr)
  assume c: "cmd0 = ''rm'' \<or> cmd0 = ''sudo''" and "detect_shell_type cmd0 \<noteq> None"
  then obtain n where "executable_name_lookup_key cmd0 = Some n" "shellish n"
    using detect_shellish by (auto simp: executable_name_lookup_key_def)
  moreover have "executable_name_lookup_key cmd0 = Some cmd0" using c by (auto intro!: lookup_key_bare)
  ultimately show False using c by (auto simp: shellish_def SHELL_NAMES_def)
qed

lemma extract_shell: "extract_bash_command (cmd0 # args) = Some r \<Longrightarrow> detect_shell_type cmd0 \<noteq> None"
  by (cases "cmd0 # args" rule: extract_bash_command.cases) (auto split: if_splits)

lemma detect_zsh: "detect_shell_type ''zsh'' = Some Zsh" "detect_shell_type ''bash'' = Some Bash"
  by (subst detect_shell_type.simps, simp add: shell_of_name_def)+

lemma extract_zsh_as_bash:
  assumes "''zsh'' \<notin> set args"
  shows "map_option snd (extract_bash_command (map zsh_as_bash (cmd0 # args))) =
    map_option snd (extract_bash_command (cmd0 # args))"
proof -
  have args: "map zsh_as_bash args = args"
    using assms by (intro map_idI) (auto simp: zsh_as_bash_def)
  show ?thesis
    by (cases "cmd0 # args" rule: extract_bash_command.cases)
       (use args in \<open>auto simp: zsh_as_bash_def detect_zsh\<close>)
qed

lemma plain_commands_script:
  "parse_shell_lc_plain_commands parse command =
     Option.bind (map_option snd (extract_bash_command command)) (parse_shell_script_into_commands parse)"
  by (cases "extract_bash_command command") (auto simp: parse_shell_lc_plain_commands_def)

lemma dangerous_name: "is_dangerous_to_call_with_exec (cmd0 # args) \<Longrightarrow> cmd0 = ''rm'' \<or> cmd0 = ''sudo''"
  by (auto split: if_splits)

lemma known_safe_not_dangerous:
  assumes safe: "is_known_safe_command parse (cmd0 # args)" and zsh: "''zsh'' \<notin> set args"
  shows "\<not> command_might_be_dangerous parse (cmd0 # args)"
proof -
  have args: "map zsh_as_bash args = args"
    using zsh by (intro map_idI) (auto simp: zsh_as_bash_def)
  have same: "parse_shell_lc_plain_commands parse (map zsh_as_bash (cmd0 # args)) =
      parse_shell_lc_plain_commands parse (cmd0 # args)"
    unfolding plain_commands_script extract_zsh_as_bash [OF zsh] by simp
  consider "is_safe_to_call_with_exec (zsh_as_bash cmd0 # args)"
    | cmds where "parse_shell_lc_plain_commands parse (cmd0 # args) = Some cmds"
        "list_all is_safe_to_call_with_exec cmds"
    using safe same args by (cases "parse_shell_lc_plain_commands parse (cmd0 # args)")
      (auto simp: is_known_safe_command_def split: if_splits)
  then show ?thesis
  proof cases
    case 1
    then have none: "detect_shell_type (zsh_as_bash cmd0) = None" by (rule safe_name_not_shell)
    then have "zsh_as_bash cmd0 = cmd0" using detect_zsh by (auto simp: zsh_as_bash_def split: if_splits)
    then have "\<not> is_dangerous_to_call_with_exec (cmd0 # args)" "extract_bash_command (cmd0 # args) = None"
      using 1 none safe_not_dangerous [of "cmd0 # args"] extract_shell [of cmd0 args]
      by (cases "extract_bash_command (cmd0 # args)"; auto simp del: is_dangerous_to_call_with_exec.simps)+
    then show ?thesis
      unfolding command_might_be_dangerous_def plain_commands_script
      by (simp del: is_dangerous_to_call_with_exec.simps)
  next
    case (2 cmds)
    then have shell: "detect_shell_type cmd0 \<noteq> None"
      using extract_shell [of cmd0 args] by (auto simp: plain_commands_script split: Option.bind_splits)
    have "\<not> is_dangerous_to_call_with_exec (cmd0 # args)"
    proof
      assume "is_dangerous_to_call_with_exec (cmd0 # args)"
      from rm_not_shell [OF dangerous_name [OF this]] shell show False by simp
    qed
    moreover have "\<not> list_ex is_dangerous_to_call_with_exec cmds"
      using 2(2) safe_not_dangerous unfolding list_all_iff list_ex_iff by blast
    ultimately show ?thesis
      unfolding command_might_be_dangerous_def 2(1) by (simp del: is_dangerous_to_call_with_exec.simps)
  qed
qed

section \<open>Escaped options\<close>

text \<open>What a shell makes of an unquoted word: a backslash is removed and keeps the next byte literal.\<close>

fun unescape :: "rstr \<Rightarrow> rstr" where
  "unescape [] = []"
| "unescape [c] = [c]"
| "unescape (c # d # cs) = (if c = CHR 0x5C then d # unescape cs else c # unescape (d # cs))"

definition escaped_script :: rstr where
  "escaped_script = ''find . -d'' @ [CHR 0x5C] @ ''elete''"

text \<open>Its syntax tree: a command with two word arguments.\<close>

definition escaped_tree :: node where
  "escaped_tree = Node ''program'' True False 0 15 [Node ''command'' True False 0 15
     [Node ''command_name'' True False 0 4 [Node ''word'' True False 0 4 []],
      Node ''word'' True False 5 6 [], Node ''word'' True False 7 15 []]]"

lemma escaped_words:
  "parse escaped_script = Some escaped_tree \<Longrightarrow>
   parse_shell_lc_plain_commands parse [''bash'', ''-lc'', escaped_script] =
     Some [[''find'', ''.'', ''-d'' @ [CHR 0x5C] @ ''elete'']]"
proof -
  assume p: "parse escaped_script = Some escaped_tree"
  have "extract_bash_command [''bash'', ''-lc'', s] = Some (''bash'', s)" for s
    by (simp add: detect_zsh)
  moreover have "try_parse_word_only_commands_sequence escaped_tree escaped_script =
      Some [[''find'', ''.'', ''-d'' @ [CHR 0x5C] @ ''elete'']]" by code_simp
  ultimately show ?thesis
    by (simp add: parse_shell_lc_plain_commands_def parse_shell_script_into_commands_def p)
qed

lemma escaped_safe:
  "is_safe_to_call_with_exec [''find'', ''.'', ''-d'' @ [CHR 0x5C] @ ''elete'']"
  "\<not> is_safe_to_call_with_exec (map unescape [''find'', ''.'', ''-d'' @ [CHR 0x5C] @ ''elete''])"
  by code_simp+

lemma workspace_program_safe: "is_safe_to_call_with_exec [''./ls'']"
  by code_simp

text \<open>
  Commands pass for safe that are not: words are compared as they are written, so a script whose
  command deletes files is known to be safe when the option is written with a backslash, although the
  command the shell runs, with the backslash removed, is not; and programs are compared by file name,
  so a program of the working directory is known to be safe when it is named like a reading one.
\<close>
theorem known_safe_too_wide:
  assumes "parse escaped_script = Some escaped_tree"
  shows "is_known_safe_command parse [''bash'', ''-lc'', escaped_script] \<and>
    (\<exists>command. parse_shell_lc_plain_commands parse [''bash'', ''-lc'', escaped_script] = Some [command] \<and>
       map unescape command = [''find'', ''.'', ''-delete''] \<and>
       \<not> is_safe_to_call_with_exec (map unescape command)) \<and>
    is_known_safe_command parse [''./ls'']"
proof -
  have "map zsh_as_bash [''bash'', ''-lc'', escaped_script] = [''bash'', ''-lc'', escaped_script]"
    by (simp add: zsh_as_bash_def escaped_script_def)
  then have "is_known_safe_command parse [''bash'', ''-lc'', escaped_script]"
    using escaped_words [of parse, OF assms] escaped_safe(1) by (simp add: is_known_safe_command_def Let_def)
  moreover have "is_known_safe_command parse [''./ls'']"
    using workspace_program_safe by (simp add: is_known_safe_command_def zsh_as_bash_def)
  ultimately show ?thesis
    using escaped_words [of parse, OF assms] escaped_safe(2) by simp
qed

theorem known_safe_too_wide_witness:
  "is_known_safe_command (\<lambda>s. if s = escaped_script then Some escaped_tree else None)
     [''bash'', ''-lc'', escaped_script]"
  using known_safe_too_wide [where parse = "\<lambda>s. if s = escaped_script then Some escaped_tree else None"]
  by simp

end
