(* ===== verification/Exec_Approval.thy ===== *)
theory Exec_Approval
  imports Exec_Policy Exec_Amend Command_Safety Sandbox_Legacy
begin

text \<open>
  Deciding whether a command may run (\<open>core/src/exec_policy.rs\<close>, the Unix build): the commands
  of a script are checked against the exec policy, commands no rule matches are judged by the
  safety heuristics, and the strictest decision becomes the approval requirement. The shell
  parser and \<open>shlex\<close> are arguments; \<open>None\<close> is a panic of the policy's \<open>expect\<close>.
\<close>

section \<open>Requests\<close>

record granular_approval_config =
  sandbox_approval :: bool
  rules_approval :: bool
  skill_approval :: bool
  request_permissions :: bool
  mcp_elicitations :: bool

datatype ask_for_approval = UnlessTrusted | OnFailure | OnRequest | Granular granular_approval_config | Never

datatype sandbox_permissions = UseDefault | RequireEscalated | WithAdditionalPermissions

definition requests_sandbox_override :: "sandbox_permissions \<Rightarrow> bool" where
  "requests_sandbox_override p = (p \<noteq> UseDefault)"

record unmatched_command_context =
  ctx_approval_policy :: ask_for_approval
  ctx_permission_profile :: permission_profile
  ctx_sandbox_permissions :: sandbox_permissions
  ctx_used_complex_parsing :: bool

record exec_approval_request =
  req_command :: "rstr list"
  req_approval_policy :: ask_for_approval
  req_permission_profile :: permission_profile
  req_sandbox_permissions :: sandbox_permissions
  req_prefix_rule :: "rstr list option"

datatype exec_approval_requirement =
    Skip bool "rstr list option"
  | NeedsApproval "rstr option" "rstr list option"
  | ForbiddenRequirement rstr

section \<open>Commands no rule matches\<close>

definition sandbox_is_explicitly_disabled :: "permission_profile \<Rightarrow> bool" where
  "sandbox_is_explicitly_disabled profile = (case profile of Disabled \<Rightarrow> True | External _ \<Rightarrow> True | Managed _ _ \<Rightarrow> False)"

definition render_decision_for_unmatched_command ::
    "(rstr \<Rightarrow> node option) \<Rightarrow> unmatched_command_context \<Rightarrow> rstr list \<Rightarrow> decision" where
  "render_decision_for_unmatched_command parse ctx command =
     (let is_known_safe = is_known_safe_command parse command;
          kind = policy_kind (file_system_sandbox_policy_of (ctx_permission_profile ctx))
      in if is_known_safe \<and> \<not> ctx_used_complex_parsing ctx \<and> ctx_approval_policy ctx = UnlessTrusted
         then Allow
         else if command_might_be_dangerous parse command
         then (case ctx_approval_policy ctx of
                 Never \<Rightarrow>
                   if sandbox_is_explicitly_disabled (ctx_permission_profile ctx) then Allow else Forbidden
               | _ \<Rightarrow> Prompt)
         else
           (case ctx_approval_policy ctx of
              Never \<Rightarrow> Allow
            | OnFailure \<Rightarrow> Allow
            | UnlessTrusted \<Rightarrow> Prompt
            | OnRequest \<Rightarrow>
                if kind \<in> {Unrestricted, ExternalSandbox} then Allow
                else if requests_sandbox_override (ctx_sandbox_permissions ctx) then Prompt else Allow
            | Granular _ \<Rightarrow>
                if kind \<in> {Unrestricted, ExternalSandbox} then Allow
                else if requests_sandbox_override (ctx_sandbox_permissions ctx) then Prompt else Allow))"

text \<open>The commands to evaluate and \<open>used_complex_parsing\<close>.\<close>

definition commands_for_exec_policy :: "(rstr \<Rightarrow> node option) \<Rightarrow> rstr list \<Rightarrow> rstr list list \<times> bool" where
  "commands_for_exec_policy parse command =
     (case parse_shell_lc_plain_commands parse command of
        Some (c # cs) \<Rightarrow> (c # cs, False)
      | _ \<Rightarrow>
          (case parse_shell_lc_single_command_prefix parse command of
             Some single_command \<Rightarrow> ([single_command], True)
           | None \<Rightarrow> ([command], False)))"

section \<open>Amendments and reasons\<close>

definition is_policy_match :: "rule_match \<Rightarrow> bool" where
  "is_policy_match m = (case m of PrefixRuleMatch _ _ _ _ \<Rightarrow> True | HeuristicsRuleMatch _ _ \<Rightarrow> False)"

definition PROMPT_CONFLICT_REASON :: rstr where
  "PROMPT_CONFLICT_REASON = ''approval required by policy, but AskForApproval is set to Never''"

definition REJECT_SANDBOX_APPROVAL_REASON :: rstr where
  "REJECT_SANDBOX_APPROVAL_REASON =
     ''approval required by policy, but AskForApproval::Granular.sandbox_approval is false''"

definition REJECT_RULES_APPROVAL_REASON :: rstr where
  "REJECT_RULES_APPROVAL_REASON =
     ''approval required by policy rule, but AskForApproval::Granular.rules is false''"

definition prompt_is_rejected_by_policy :: "ask_for_approval \<Rightarrow> bool \<Rightarrow> rstr option" where
  "prompt_is_rejected_by_policy approval_policy prompt_is_rule =
     (case approval_policy of
        Never \<Rightarrow> Some PROMPT_CONFLICT_REASON
      | OnFailure \<Rightarrow> None
      | OnRequest \<Rightarrow> None
      | UnlessTrusted \<Rightarrow> None
      | Granular cfg \<Rightarrow>
          if prompt_is_rule
          then (if \<not> rules_approval cfg then Some REJECT_RULES_APPROVAL_REASON else None)
          else if \<not> sandbox_approval cfg then Some REJECT_SANDBOX_APPROVAL_REASON else None)"

fun find_heuristics :: "decision \<Rightarrow> rule_match list \<Rightarrow> rstr list option" where
  "find_heuristics d [] = None"
| "find_heuristics d (m # ms) =
     (case m of
        HeuristicsRuleMatch command d' \<Rightarrow> if d' = d then Some command else find_heuristics d ms
      | PrefixRuleMatch _ _ _ _ \<Rightarrow> find_heuristics d ms)"

definition try_derive_execpolicy_amendment_for_prompt_rules :: "rule_match list \<Rightarrow> rstr list option" where
  "try_derive_execpolicy_amendment_for_prompt_rules matched_rules =
     (if list_ex (\<lambda>m. is_policy_match m \<and> match_decision m = Prompt) matched_rules then None
      else find_heuristics Prompt matched_rules)"

definition try_derive_execpolicy_amendment_for_allow_rules :: "rule_match list \<Rightarrow> rstr list option" where
  "try_derive_execpolicy_amendment_for_allow_rules matched_rules =
     (if list_ex is_policy_match matched_rules then None else find_heuristics Allow matched_rules)"

definition BANNED_PREFIX_SUGGESTIONS :: "rstr list list" where
  "BANNED_PREFIX_SUGGESTIONS =
     [[''python3''],
      [''python3'', ''-''],
      [''python3'', ''-c''],
      [''python''],
      [''python'', ''-''],
      [''python'', ''-c''],
      [''py''],
      [''py'', ''-3''],
      [''pythonw''],
      [''pyw''],
      [''pypy''],
      [''pypy3''],
      [''git''],
      [''bash''],
      [''bash'', ''-lc''],
      [''sh''],
      [''sh'', ''-c''],
      [''sh'', ''-lc''],
      [''zsh''],
      [''zsh'', ''-lc''],
      [''/bin/zsh''],
      [''/bin/zsh'', ''-lc''],
      [''/bin/bash''],
      [''/bin/bash'', ''-lc''],
      [''pwsh''],
      [''pwsh'', ''-Command''],
      [''pwsh'', ''-c''],
      [''powershell''],
      [''powershell'', ''-Command''],
      [''powershell'', ''-c''],
      [''powershell.exe''],
      [''powershell.exe'', ''-Command''],
      [''powershell.exe'', ''-c''],
      [''env''],
      [''sudo''],
      [''node''],
      [''node'', ''-e''],
      [''perl''],
      [''perl'', ''-e''],
      [''ruby''],
      [''ruby'', ''-e''],
      [''php''],
      [''php'', ''-r''],
      [''lua''],
      [''lua'', ''-e''],
      [''osascript'']]"

definition resolving :: match_options where
  "resolving = \<lparr>resolve_host_executables = True\<rparr>"

definition prefix_rule_would_approve_all_commands ::
    "path_env \<Rightarrow> exec_policy \<Rightarrow> rstr list \<Rightarrow> rstr list list \<Rightarrow> (rstr list \<Rightarrow> decision) \<Rightarrow> match_options \<Rightarrow> bool" where
  "prefix_rule_would_approve_all_commands env policy pre commands fallback options =
     (case (add_prefix_rule policy pre Allow :: (unit exec_error, exec_policy) result) of
        Err _ \<Rightarrow> False
      | Ok policy_with_prefix_rule \<Rightarrow>
          list_all (\<lambda>command.
              map_option eval_decision (check_with_options env policy_with_prefix_rule command fallback options) =
                Some Allow) commands)"

definition derive_requested_execpolicy_amendment_from_prefix_rule ::
    "path_env \<Rightarrow> rstr list option \<Rightarrow> rule_match list \<Rightarrow> exec_policy \<Rightarrow> rstr list list
      \<Rightarrow> (rstr list \<Rightarrow> decision) \<Rightarrow> match_options \<Rightarrow> rstr list option" where
  "derive_requested_execpolicy_amendment_from_prefix_rule env prefix_rule matched_rules policy commands fallback options =
     (case prefix_rule of
        None \<Rightarrow> None
      | Some pre \<Rightarrow>
          if pre = [] then None
          else if pre \<in> set BANNED_PREFIX_SUGGESTIONS then None
          else if list_ex is_policy_match matched_rules then None
          else if prefix_rule_would_approve_all_commands env policy pre commands fallback options then Some pre
          else None)"

text \<open>\<open>max_by_key\<close>: the last of the elements with the greatest key.\<close>

fun max_by_key :: "('a \<Rightarrow> nat) \<Rightarrow> 'a list \<Rightarrow> 'a option" where
  "max_by_key f [] = None"
| "max_by_key f (x # xs) =
     (case max_by_key f xs of None \<Rightarrow> Some x | Some y \<Rightarrow> if f x \<le> f y then Some y else Some x)"

definition render_shlex_command :: "(rstr list \<Rightarrow> rstr option) \<Rightarrow> rstr list \<Rightarrow> rstr" where
  "render_shlex_command shlex args = (case shlex args of Some s \<Rightarrow> s | None \<Rightarrow> join_with '' '' args)"

definition rule_prefixes :: "decision \<Rightarrow> rule_match list \<Rightarrow> (rstr list \<times> rstr option) list" where
  "rule_prefixes d ms =
     List.map_filter (\<lambda>m. case m of
       PrefixRuleMatch pre d' _ justification \<Rightarrow> if d' = d then Some (pre, justification) else None
     | HeuristicsRuleMatch _ _ \<Rightarrow> None) ms"

definition derive_prompt_reason :: "(rstr list \<Rightarrow> rstr option) \<Rightarrow> rstr list \<Rightarrow> evaluation \<Rightarrow> rstr option" where
  "derive_prompt_reason shlex command_args ev =
     (let command = render_shlex_command shlex command_args
      in case max_by_key (length \<circ> fst) (rule_prefixes Prompt (eval_matched_rules ev)) of
           Some (_, Some justification) \<Rightarrow> Some (''`'' @ command @ ''` requires approval: '' @ justification)
         | Some (_, None) \<Rightarrow> Some (''`'' @ command @ ''` requires approval by policy'')
         | None \<Rightarrow> None)"

definition derive_forbidden_reason :: "(rstr list \<Rightarrow> rstr option) \<Rightarrow> rstr list \<Rightarrow> evaluation \<Rightarrow> rstr" where
  "derive_forbidden_reason shlex command_args ev =
     (let command = render_shlex_command shlex command_args
      in case max_by_key (length \<circ> fst) (rule_prefixes Forbidden (eval_matched_rules ev)) of
           Some (_, Some justification) \<Rightarrow> ''`'' @ command @ ''` rejected: '' @ justification
         | Some (matched_prefix, None) \<Rightarrow>
             ''`'' @ command @ ''` rejected: policy forbids commands starting with `'' @
               render_shlex_command shlex matched_prefix @ ''`''
         | None \<Rightarrow> ''`'' @ command @ ''` rejected: blocked by policy'')"

section \<open>The approval requirement\<close>

definition request_context :: "exec_approval_request \<Rightarrow> bool \<Rightarrow> unmatched_command_context" where
  "request_context req complex =
     \<lparr>ctx_approval_policy = req_approval_policy req, ctx_permission_profile = req_permission_profile req,
      ctx_sandbox_permissions = req_sandbox_permissions req, ctx_used_complex_parsing = complex\<rparr>"

definition create_exec_approval_requirement_for_command ::
    "path_env \<Rightarrow> (rstr \<Rightarrow> node option) \<Rightarrow> (rstr list \<Rightarrow> rstr option) \<Rightarrow> exec_policy \<Rightarrow> exec_approval_request
      \<Rightarrow> exec_approval_requirement option" where
  "create_exec_approval_requirement_for_command env parse shlex exec_policy req =
     (case commands_for_exec_policy parse (req_command req) of
        (commands, used_complex_parsing) \<Rightarrow>
          let auto_amendment_allowed = (\<not> used_complex_parsing);
              fallback = render_decision_for_unmatched_command parse (request_context req used_complex_parsing)
          in do {
            ev \<leftarrow> check_multiple_with_options env exec_policy commands fallback resolving;
            let requested_amendment =
              (if auto_amendment_allowed
               then derive_requested_execpolicy_amendment_from_prefix_rule env (req_prefix_rule req)
                      (eval_matched_rules ev) exec_policy commands fallback resolving
               else None);
            Some (case eval_decision ev of
              Forbidden \<Rightarrow> ForbiddenRequirement (derive_forbidden_reason shlex (req_command req) ev)
            | Prompt \<Rightarrow>
                (case prompt_is_rejected_by_policy (req_approval_policy req)
                        (list_ex (\<lambda>m. is_policy_match m \<and> match_decision m = Prompt) (eval_matched_rules ev)) of
                   Some reason \<Rightarrow> ForbiddenRequirement reason
                 | None \<Rightarrow>
                     NeedsApproval (derive_prompt_reason shlex (req_command req) ev)
                       (case requested_amendment of
                          Some a \<Rightarrow> Some a
                        | None \<Rightarrow>
                            if auto_amendment_allowed
                            then try_derive_execpolicy_amendment_for_prompt_rules (eval_matched_rules ev)
                            else None))
            | Allow \<Rightarrow>
                Skip (list_all (\<lambda>command.
                         list_ex (\<lambda>m. is_policy_match m \<and> match_decision m = Allow)
                           (matches_for_command_with_options env exec_policy command None resolving)) commands)
                  (if auto_amendment_allowed
                   then try_derive_execpolicy_amendment_for_allow_rules (eval_matched_rules ev) else None))
          })"

section \<open>Updating the policy\<close>

datatype 'e exec_policy_update_error = AppendRule rstr "'e amend_error" | AddRule "'e exec_error"

text \<open>\<open>append_amendment_and_update\<close> under the update lock: first the rules file, then the policy in
  memory, unless the command is already allowed there. The lock is never closed and the blocking
  task does not panic, so the errors for these do not arise.\<close>

definition already_allowed :: "path_env \<Rightarrow> exec_policy \<Rightarrow> rstr list \<Rightarrow> bool option" where
  "already_allowed env policy command =
     map_option (\<lambda>ev. eval_decision ev = Allow \<and>
         list_ex (\<lambda>m. is_policy_match m \<and> match_decision m = Allow) (eval_matched_rules ev))
       (check_multiple_with_options env policy [command] (\<lambda>_. Forbidden) resolving)"

definition append_amendment_and_update ::
    "path_env \<Rightarrow> 'e amend_io \<Rightarrow> (rstr \<Rightarrow> ('e, rstr) result) \<Rightarrow> rstr \<Rightarrow> rstr list \<Rightarrow> exec_policy \<times> rstr option
      \<Rightarrow> ((exec_policy \<times> rstr option) \<times> ('e exec_policy_update_error, unit) result) option" where
  "append_amendment_and_update env io json path command s =
     (case s of (policy, f) \<Rightarrow>
        (case blocking_append_allow_prefix_rule io json path command f of
           (f', Err e) \<Rightarrow> Some ((policy, f'), Err (AppendRule path e))
         | (f', Ok ()) \<Rightarrow>
             do {
               allowed \<leftarrow> already_allowed env policy command;
               (if allowed then Some ((policy, f'), Ok ())
                else case add_prefix_rule policy command Allow of
                       Err e \<Rightarrow> Some ((policy, f'), Err (AddRule e))
                     | Ok policy' \<Rightarrow> Some ((policy', f'), Ok ()))
             }))"

definition append_network_rule_and_update ::
    "'e amend_io \<Rightarrow> (rstr \<Rightarrow> ('e, rstr) result) \<Rightarrow> ('e exec_error \<Rightarrow> rstr) \<Rightarrow> rstr \<Rightarrow> rstr
      \<Rightarrow> network_rule_protocol \<Rightarrow> decision \<Rightarrow> rstr option \<Rightarrow> exec_policy \<times> rstr option
      \<Rightarrow> (exec_policy \<times> rstr option) \<times> ('e exec_policy_update_error, unit) result" where
  "append_network_rule_and_update io json show_error path host protocol d justification s =
     (case s of (policy, f) \<Rightarrow>
        (case blocking_append_network_rule io json show_error path host protocol d justification f of
           (f', Err e) \<Rightarrow> ((policy, f'), Err (AppendRule path e))
         | (f', Ok ()) \<Rightarrow>
             (case add_network_rule policy host protocol d justification of
                Err e \<Rightarrow> ((policy, f'), Err (AddRule e))
              | Ok policy' \<Rightarrow> ((policy', f'), Ok ()))))"

section \<open>Facts\<close>

lemma commands_for_exec_policy_ne: "fst (commands_for_exec_policy parse command) \<noteq> []"
  by (simp add: commands_for_exec_policy_def split: option.splits list.splits)

definition segment_matches ::
    "path_env \<Rightarrow> exec_policy \<Rightarrow> (rstr list \<Rightarrow> decision) \<Rightarrow> rstr list \<Rightarrow> rule_match list" where
  "segment_matches env policy fallback command =
     matches_for_command_with_options env policy command (Some fallback) resolving"

lemma check_multiple_Some:
  assumes "cmds \<noteq> []"
  shows "check_multiple_with_options env p cmds fb resolving =
    Some \<lparr>eval_decision = Max (match_decision ` set (concat (map (segment_matches env p fb) cmds))),
          eval_matched_rules = concat (map (segment_matches env p fb) cmds)\<rparr>"
proof -
  have seg: "segment_matches env p fb = (\<lambda>cmd. matches_for_command_with_options env p cmd (Some fb) resolving)"
    by (rule ext) (simp add: segment_matches_def)
  have "concat (map (segment_matches env p fb) cmds) \<noteq> []"
    using assms matches_with_fallback_ne by (cases cmds) (auto simp: segment_matches_def)
  then show ?thesis
    unfolding check_multiple_with_options_def seg by (rule from_matches_Some)
qed

abbreviation fallback_of :: "(rstr \<Rightarrow> node option) \<Rightarrow> exec_approval_request \<Rightarrow> rstr list \<Rightarrow> decision" where
  "fallback_of parse req \<equiv> render_decision_for_unmatched_command parse
     (request_context req (snd (commands_for_exec_policy parse (req_command req))))"

abbreviation segments :: "(rstr \<Rightarrow> node option) \<Rightarrow> exec_approval_request \<Rightarrow> rstr list list" where
  "segments parse req \<equiv> fst (commands_for_exec_policy parse (req_command req))"

definition all_matches ::
    "path_env \<Rightarrow> (rstr \<Rightarrow> node option) \<Rightarrow> exec_policy \<Rightarrow> exec_approval_request \<Rightarrow> rule_match list" where
  "all_matches env parse policy req =
     concat (map (segment_matches env policy (fallback_of parse req)) (segments parse req))"

lemma all_matches_ne: "all_matches env parse policy req \<noteq> []"
  using commands_for_exec_policy_ne [of parse "req_command req"] matches_with_fallback_ne
  by (cases "segments parse req") (auto simp: all_matches_def segment_matches_def)

text \<open>The kind of requirement follows the strictest match.\<close>

lemma approval_cases:
  obtains a where
    "Max (match_decision ` set (all_matches env parse policy req)) = Allow"
    "create_exec_approval_requirement_for_command env parse shlex policy req =
       Some (Skip (list_all (\<lambda>command.
          list_ex (\<lambda>m. is_policy_match m \<and> match_decision m = Allow)
            (matches_for_command_with_options env policy command None resolving)) (segments parse req)) a)"
  | reason a where
    "Max (match_decision ` set (all_matches env parse policy req)) = Prompt"
    "req_approval_policy req \<noteq> Never"
    "create_exec_approval_requirement_for_command env parse shlex policy req = Some (NeedsApproval reason a)"
  | reason where
    "Max (match_decision ` set (all_matches env parse policy req)) \<noteq> Allow"
    "create_exec_approval_requirement_for_command env parse shlex policy req = Some (ForbiddenRequirement reason)"
proof -
  have ne: "segments parse req \<noteq> []" by (rule commands_for_exec_policy_ne)
  have checked: "check_multiple_with_options env policy (segments parse req) (fallback_of parse req) resolving =
      Some \<lparr>eval_decision = Max (match_decision ` set (all_matches env parse policy req)),
            eval_matched_rules = all_matches env parse policy req\<rparr>"
    unfolding all_matches_def by (rule check_multiple_Some [OF ne])
  note step = create_exec_approval_requirement_for_command_def checked
  show thesis
  proof (cases "Max (match_decision ` set (all_matches env parse policy req))")
    case Allow
    then show thesis using that(1) by (simp add: step case_prod_beta Let_def)
  next
    case Prompt
    have never: "prompt_is_rejected_by_policy Never b = Some PROMPT_CONFLICT_REASON" for b
      by (simp add: prompt_is_rejected_by_policy_def)
    show thesis
    proof (cases "prompt_is_rejected_by_policy (req_approval_policy req)
        (list_ex (\<lambda>m. is_policy_match m \<and> match_decision m = Prompt) (all_matches env parse policy req))")
      case None
      then have "req_approval_policy req \<noteq> Never" using never by auto
      with Prompt None show thesis using that(2) by (simp add: step case_prod_beta Let_def)
    next
      case (Some reason)
      with Prompt show thesis using that(3) by (simp add: step case_prod_beta Let_def)
    qed
  next
    case Forbidden
    then show thesis using that(3) by (simp add: step case_prod_beta Let_def)
  qed
qed

lemma Allow_least: "(Allow :: decision) \<le> d"
  by (cases d) (simp_all add: less_eq_decision_def)

lemma max_Allow_iff:
  "ms \<noteq> [] \<Longrightarrow> Max (match_decision ` set ms) = Allow \<longleftrightarrow> (\<forall>m \<in> set ms. match_decision m = Allow)"
proof -
  assume "ms \<noteq> []"
  then have "Max (match_decision ` set ms) = Allow \<longleftrightarrow> Max (match_decision ` set ms) \<le> Allow"
    using Allow_least antisym by (metis order_refl)
  also have "\<dots> \<longleftrightarrow> (\<forall>m \<in> set ms. match_decision m \<le> Allow)"
    using \<open>ms \<noteq> []\<close> by simp
  also have "\<dots> \<longleftrightarrow> (\<forall>m \<in> set ms. match_decision m = Allow)"
    using Allow_least antisym by fastforce
  finally show ?thesis .
qed

lemma no_rule_fallback:
  assumes "matches_for_command_with_options env policy command None resolving = []"
  shows "segment_matches env policy fb command = [HeuristicsRuleMatch command (fb command)]"
  using assms by (simp add: segment_matches_def matches_for_command_with_options_def Let_def)

lemma unmatched_dangerous_allowed:
  assumes "render_decision_for_unmatched_command parse ctx (cmd0 # args) = Allow"
    and "command_might_be_dangerous parse (cmd0 # args)" and "''zsh'' \<notin> set args"
  shows "ctx_approval_policy ctx = Never \<and> sandbox_is_explicitly_disabled (ctx_permission_profile ctx)"
proof -
  have "\<not> is_known_safe_command parse (cmd0 # args)"
    using known_safe_not_dangerous assms(2,3) by blast
  with assms(1,2) show ?thesis
    by (auto simp: render_decision_for_unmatched_command_def Let_def split: ask_for_approval.splits if_splits)
qed

lemma unmatched_untrusted_allowed:
  assumes "render_decision_for_unmatched_command parse ctx command = Allow"
    and "ctx_approval_policy ctx = UnlessTrusted"
  shows "is_known_safe_command parse command"
  using assms by (auto simp: render_decision_for_unmatched_command_def Let_def split: if_splits)

text \<open>A command that runs without asking: every match of every segment is \<open>Allow\<close>.\<close>

lemma skip_all_allow:
  assumes "create_exec_approval_requirement_for_command env parse shlex policy req = Some (Skip bypass a)"
    and "command \<in> set (segments parse req)"
    and "m \<in> set (segment_matches env policy (fallback_of parse req) command)"
  shows "match_decision m = Allow"
proof -
  have "m \<in> set (all_matches env parse policy req)"
    using assms(2,3) by (auto simp: all_matches_def)
  moreover have "Max (match_decision ` set (all_matches env parse policy req)) = Allow"
    using assms(1)
    by (cases rule: approval_cases [where env = env and parse = parse and policy = policy and req = req and shlex = shlex])
      simp_all
  ultimately show ?thesis using max_Allow_iff [OF all_matches_ne] by blast
qed

lemma skip_bypass:
  assumes "create_exec_approval_requirement_for_command env parse shlex policy req = Some (Skip True a)"
    and "command \<in> set (segments parse req)"
  shows "\<exists>m \<in> set (matches_for_command_with_options env policy command None resolving).
    is_policy_match m \<and> match_decision m = Allow"
  using assms
  by (cases rule: approval_cases [where env = env and parse = parse and policy = policy and req = req and shlex = shlex])
    (auto simp: list_all_iff list_ex_iff)

lemma approval_total: "\<exists>r. create_exec_approval_requirement_for_command env parse shlex policy req = Some r"
  by (cases rule: approval_cases [where env = env and parse = parse and policy = policy and req = req and shlex = shlex])
    simp_all

lemma skip_unmatched_allowed:
  assumes "create_exec_approval_requirement_for_command env parse shlex policy req = Some (Skip bypass a)"
    and "command \<in> set (segments parse req)"
    and "matches_for_command_with_options env policy command None resolving = []"
  shows "fallback_of parse req command = Allow"
  using skip_all_allow [OF assms(1,2)] no_rule_fallback [OF assms(3)] by simp

section \<open>What may run without asking\<close>


definition demo_request :: exec_approval_request where
  "demo_request = \<lparr>req_command = [''ls''], req_approval_policy = UnlessTrusted,
     req_permission_profile = Managed (ManagedRestricted [] None) NetworkRestricted, req_sandbox_permissions = UseDefault,
     req_prefix_rule = None\<rparr>"

definition demo_dir :: path_env where
  "demo_dir = \<lparr>home_dir = None, current_dir = Some [RootDir, NormalC ''w'']\<rparr>"

lemma demo_skip:
  "create_exec_approval_requirement_for_command demo_dir (\<lambda>s. None) (\<lambda>args. None) empty_policy demo_request =
     Some (Skip False (Some [''ls'']))"
  by code_simp


text \<open>
  The requirement follows the strictest match over all commands of the script, and is always
  produced: \<open>Allow\<close> is skipped, \<open>Prompt\<close> asks or, where asking is ruled out, forbids, \<open>Forbidden\<close> forbids.
\<close>
theorem requirement_follows_strictest:
  "\<exists>r. create_exec_approval_requirement_for_command env parse shlex policy req = Some r \<and>
    (case Max (match_decision ` set (all_matches env parse policy req)) of
       Allow \<Rightarrow> (\<exists>bypass a. r = Skip bypass a)
     | Prompt \<Rightarrow> (\<exists>reason. r = ForbiddenRequirement reason) \<or>
         (req_approval_policy req \<noteq> Never \<and> (\<exists>reason a. r = NeedsApproval reason a))
     | Forbidden \<Rightarrow> (\<exists>reason. r = ForbiddenRequirement reason))"
  by (cases rule: approval_cases [where env = env and parse = parse and policy = policy and req = req and shlex = shlex])
    (auto split: decision.splits)

end
