(* ===== verification/Patch_Safety.thy ===== *)
theory Patch_Safety
  imports Patch_Verify Permission_Grants Exec_Approval
begin

text \<open>
  Deciding on a patch (\<open>core/src/safety.rs\<close>, \<open>core/src/apply_patch.rs\<close>) and choosing a sandbox
  (\<open>sandboxing/src/manager.rs\<close>). The conversion of a \<open>PathUri\<close> to a path of the host (\<open>to_abs_path\<close>) and the
  operating system the program was built for are arguments. The last section joins the three steps of a patch:
  verifying it, deciding on it, applying it.
\<close>

section \<open>Sandboxes\<close>

datatype target_os = Macos | Linux | Windows | OtherOs

datatype sandbox_type = NoSandbox | MacosSeatbelt | LinuxSeccomp | WindowsRestrictedToken

datatype sandboxable_preference = AutoSandbox | RequireSandbox | ForbidSandbox

datatype windows_sandbox_level = WindowsDisabled | RestrictedToken | Elevated

definition get_platform_sandbox :: "target_os \<Rightarrow> bool \<Rightarrow> sandbox_type option" where
  "get_platform_sandbox os windows_sandbox_enabled =
     (case os of
        Macos \<Rightarrow> Some MacosSeatbelt
      | Linux \<Rightarrow> Some LinuxSeccomp
      | Windows \<Rightarrow> if windows_sandbox_enabled then Some WindowsRestrictedToken else None
      | OtherOs \<Rightarrow> None)"

definition with_managed_mitm_ca_readable_root ::
    "host \<Rightarrow> permission_profile \<Rightarrow> rpath option \<Rightarrow> rpath \<Rightarrow> permission_profile option" where
  "with_managed_mitm_ca_readable_root h profile bundle cwd =
     (case bundle of
        None \<Rightarrow> Some profile
      | Some path \<Rightarrow>
          from_runtime_permissions_with_enforcement (enforcement_of profile)
            (with_additional_readable_roots h cwd [path] (file_system_sandbox_policy_of profile))
            (network_sandbox_policy_of profile))"

definition should_sandbox ::
    "file_system_sandbox_policy \<Rightarrow> network_sandbox_policy \<Rightarrow> sandboxable_preference \<Rightarrow> bool \<Rightarrow> bool" where
  "should_sandbox policy network pref has_managed_network_requirements =
     (case pref of
        ForbidSandbox \<Rightarrow> False
      | RequireSandbox \<Rightarrow> True
      | AutoSandbox \<Rightarrow> should_require_platform_sandbox policy network has_managed_network_requirements)"

definition select_initial ::
    "target_os \<Rightarrow> file_system_sandbox_policy \<Rightarrow> network_sandbox_policy \<Rightarrow> sandboxable_preference
      \<Rightarrow> windows_sandbox_level \<Rightarrow> bool \<Rightarrow> sandbox_type" where
  "select_initial os policy network pref level has_managed_network_requirements =
     (if should_sandbox policy network pref has_managed_network_requirements
      then (case get_platform_sandbox os (level \<noteq> WindowsDisabled) of Some t \<Rightarrow> t | None \<Rightarrow> NoSandbox)
      else NoSandbox)"

section \<open>Deciding on a patch\<close>

datatype safety_check = AutoApprove sandbox_type bool | AskUser | RejectPatch rstr

definition PATCH_REJECTED_OUTSIDE_PROJECT_REASON :: rstr where
  "PATCH_REJECTED_OUTSIDE_PROJECT_REASON = ''writing outside of the project; rejected by user approval settings''"

definition PATCH_REJECTED_READ_ONLY_REASON :: rstr where
  "PATCH_REJECTED_READ_ONLY_REASON = ''writing is blocked by read-only sandbox; rejected by user approval settings''"

definition patch_rejection_reason ::
    "host \<Rightarrow> ('uri \<Rightarrow> rpath option) \<Rightarrow> permission_profile \<Rightarrow> file_system_sandbox_policy \<Rightarrow> 'uri \<Rightarrow> rstr" where
  "patch_rejection_reason h to_abs_path profile policy cwd =
     (let has_no_writable_roots = (case to_abs_path cwd of
            Some c \<Rightarrow> get_writable_roots_with_cwd h policy c = [] | None \<Rightarrow> False)
      in case profile of
           Managed _ _ \<Rightarrow>
             if \<not> has_full_disk_write_access policy \<and> has_no_writable_roots then PATCH_REJECTED_READ_ONLY_REASON
             else PATCH_REJECTED_OUTSIDE_PROJECT_REASON
         | _ \<Rightarrow> PATCH_REJECTED_OUTSIDE_PROJECT_REASON)"

text \<open>The local function \<open>normalize\<close>.\<close>

definition normalize_target :: "rpath \<Rightarrow> rpath" where
  "normalize_target path = fold normalize_step path []"

definition target_writable ::
    "host \<Rightarrow> ('uri \<Rightarrow> rpath option) \<Rightarrow> file_system_sandbox_policy \<Rightarrow> rpath \<Rightarrow> 'uri \<Rightarrow> bool" where
  "target_writable h to_abs_path policy native_cwd path =
     (case to_abs_path path of
        None \<Rightarrow> False
      | Some p \<Rightarrow> can_write_path_with_cwd h policy (normalize_target p) native_cwd)"

definition is_write_patch_constrained_to_writable_paths ::
    "host \<Rightarrow> ('uri \<Rightarrow> rpath option) \<Rightarrow> 'uri apply_patch_action \<Rightarrow> file_system_sandbox_policy \<Rightarrow> 'uri \<Rightarrow> bool" where
  "is_write_patch_constrained_to_writable_paths h to_abs_path action policy cwd =
     (if has_full_disk_write_access policy then True
      else case to_abs_path cwd of
             None \<Rightarrow> False
           | Some native_cwd \<Rightarrow>
               list_all (\<lambda>(path, change).
                   case change of
                     AddFileChange _ \<Rightarrow> target_writable h to_abs_path policy native_cwd path
                   | DeleteFileChange _ \<Rightarrow> target_writable h to_abs_path policy native_cwd path
                   | UpdateFileChange _ move_path _ \<Rightarrow>
                       target_writable h to_abs_path policy native_cwd path \<and>
                       (case move_path of
                          Some dest \<Rightarrow> target_writable h to_abs_path policy native_cwd dest
                        | None \<Rightarrow> True))
                 (action_changes action))"

definition rejects_sandbox_approval :: "ask_for_approval \<Rightarrow> bool" where
  "rejects_sandbox_approval approval =
     (case approval of Never \<Rightarrow> True | Granular config \<Rightarrow> \<not> sandbox_approval config | _ \<Rightarrow> False)"

definition assess_patch_safety ::
    "host \<Rightarrow> target_os \<Rightarrow> ('uri \<Rightarrow> rpath option) \<Rightarrow> 'uri apply_patch_action \<Rightarrow> ask_for_approval \<Rightarrow> permission_profile
      \<Rightarrow> file_system_sandbox_policy \<Rightarrow> 'uri \<Rightarrow> windows_sandbox_level \<Rightarrow> safety_check" where
  "assess_patch_safety h os to_abs_path action approval profile policy cwd level =
     (if action_is_empty action then RejectPatch ''empty patch''
      else if approval = UnlessTrusted then AskUser
      else if is_write_patch_constrained_to_writable_paths h to_abs_path action policy cwd \<or> approval = OnFailure
      then (if (case profile of Disabled \<Rightarrow> True | External _ \<Rightarrow> True | Managed _ _ \<Rightarrow> False)
            then AutoApprove NoSandbox False
            else case get_platform_sandbox os (level \<noteq> WindowsDisabled) of
                   Some t \<Rightarrow> AutoApprove t False
                 | None \<Rightarrow>
                     if rejects_sandbox_approval approval
                     then RejectPatch (patch_rejection_reason h to_abs_path profile policy cwd)
                     else AskUser)
      else if rejects_sandbox_approval approval
      then RejectPatch (patch_rejection_reason h to_abs_path profile policy cwd)
      else AskUser)"

record 'uri apply_patch_runtime_invocation =
  inv_action :: "'uri apply_patch_action"
  inv_auto_approved :: bool
  inv_requirement :: exec_approval_requirement

datatype 'uri internal_apply_patch_invocation =
    PatchOutput "(rstr, rstr) result"
  | DelegateToRuntime "'uri apply_patch_runtime_invocation"

definition core_apply_patch ::
    "host \<Rightarrow> target_os \<Rightarrow> ('uri \<Rightarrow> rpath option) \<Rightarrow> ask_for_approval \<Rightarrow> permission_profile \<Rightarrow> windows_sandbox_level
      \<Rightarrow> file_system_sandbox_policy \<Rightarrow> 'uri apply_patch_action \<Rightarrow> 'uri internal_apply_patch_invocation" where
  "core_apply_patch h os to_abs_path approval profile level policy action =
     (case assess_patch_safety h os to_abs_path action approval profile policy (action_cwd action) level of
        AutoApprove _ user_explicitly_approved \<Rightarrow>
          DelegateToRuntime \<lparr>inv_action = action, inv_auto_approved = (\<not> user_explicitly_approved),
            inv_requirement = Skip False None\<rparr>
      | AskUser \<Rightarrow>
          DelegateToRuntime \<lparr>inv_action = action, inv_auto_approved = False, inv_requirement = NeedsApproval None None\<rparr>
      | RejectPatch reason \<Rightarrow> PatchOutput (Err (''patch rejected: '' @ reason)))"

section \<open>Facts\<close>

lemma platform_sandbox: "get_platform_sandbox os b = Some t \<Longrightarrow> t \<noteq> NoSandbox"
  by (auto simp: get_platform_sandbox_def split: target_os.splits if_splits)

lemma constrained_targets:
  assumes "is_write_patch_constrained_to_writable_paths h to_abs_path action policy cwd"
    and "\<not> has_full_disk_write_access policy" and "u \<in> \<Union> (change_targets ` set (action_changes action))"
  shows "\<exists>native. to_abs_path cwd = Some native \<and> target_writable h to_abs_path policy native u"
  using assms
  by (fastforce simp: is_write_patch_constrained_to_writable_paths_def list_all_iff change_targets_def
      split: option.splits apply_patch_file_change.splits)

lemma auto_approved:
  assumes "assess_patch_safety h os to_abs_path action approval profile policy cwd level = AutoApprove t b"
  shows "\<not> action_is_empty action" and "approval \<noteq> UnlessTrusted" and "\<not> b"
    and "approval = OnFailure \<or> is_write_patch_constrained_to_writable_paths h to_abs_path action policy cwd"
    and "t = NoSandbox \<longleftrightarrow> sandbox_is_explicitly_disabled profile"
  using assms platform_sandbox [of os "level \<noteq> WindowsDisabled" t]
  by (auto simp: assess_patch_safety_def sandbox_is_explicitly_disabled_def
      split: if_splits option.splits permission_profile.splits)

section \<open>Properties\<close>

lemma verified_changes:
  assumes "try_verify_apply_patch_args diff fs api w args cwd = Some (Ok action)"
  shows "verify_hunks diff fs api w (action_cwd action) (args_hunks args) [] = Some (Ok (action_changes action))"
proof -
  let ?dir = "case workdir args of None \<Rightarrow> Ok cwd | Some dir \<Rightarrow> uri_join api cwd dir"
  obtain c where c: "?dir = Ok c" using assms by (cases ?dir) (simp_all add: try_verify_apply_patch_args_def)
  obtain r where "verify_hunks diff fs api w c (args_hunks args) [] = Some r"
    using assms c by (auto simp: try_verify_apply_patch_args_def)
  then show ?thesis using assms c by (cases r) (auto simp: try_verify_apply_patch_args_def)
qed

lemma verified_targets:
  assumes "try_verify_apply_patch_args diff fs api w args cwd = Some (Ok action)"
    and "distinct (hunk_paths (uri_join api) (action_cwd action) (args_hunks args))"
  shows "\<Union> (change_targets ` set (action_changes action)) = \<Union> (hunk_targets (uri_join api) (action_cwd action) ` set (args_hunks args))"
  using verify_hunks_targets [OF verified_changes [OF assms(1)] assms(2)] by simp


definition patch_world :: "rstr \<Rightarrow> rstr option" where
  "patch_world = [''/w/a'' \<mapsto> ''t'' @ [NL]]"

definition demo_update :: hunk where
  "demo_update = UpdateFile ''a'' (Some ''../x'')
     [\<lparr>change_context = None, old_lines = [''t''], new_lines = [''u''], is_end_of_file = False\<rparr>]"

definition demo_args :: "hunk list \<Rightarrow> apply_patch_args" where
  "demo_args hs = \<lparr>patch = [], args_hunks = hs, workdir = None, args_environment_id = None\<rparr>"

definition demo_abs :: "rstr \<Rightarrow> rpath option" where
  "demo_abs u = Some (components u)"

definition write_w :: file_system_sandbox_policy where
  "write_w = restricted_policy [entry (FsPath (named_path [''w''])) WriteAccess]"

definition demo_decision :: "rstr apply_patch_action \<Rightarrow> rstr internal_apply_patch_invocation" where
  "demo_decision = core_apply_patch plain_host Linux demo_abs OnRequest
     (Managed (ManagedRestricted (entries write_w) None) NetworkRestricted) WindowsDisabled write_w"

definition demo_action :: "(rstr \<times> rstr apply_patch_file_change) list \<Rightarrow> rstr apply_patch_action" where
  "demo_action cs = \<lparr>action_changes = cs, action_patch = [], action_cwd = ''/w''\<rparr>"

lemma mem_fs_confined: "fs_confined mem_fs"
  unfolding fs_confined_def text_of_mem by (auto simp: mem_fs_def split: option.splits)


text \<open>
  A later hunk hides an earlier one: the action keeps one change per path, so when a patch first updates
  \<open>a\<close> with a move to \<open>../x\<close> and then adds \<open>a\<close>, only the addition is checked and shown; the patch is approved
  automatically, and applying it writes the file outside the writable directory.
\<close>

theorem later_hunk_hides_move:
  "try_verify_apply_patch_args (\<lambda>_ _. []) mem_fs mem_api patch_world (demo_args [demo_update, AddFile ''a'' ''n'']) ''/w'' =
     Some (Ok (demo_action [(''/w/a'', AddFileChange ''n'')])) \<and>
   demo_decision (demo_action [(''/w/a'', AddFileChange ''n'')]) =
     DelegateToRuntime \<lparr>inv_action = demo_action [(''/w/a'', AddFileChange ''n'')], inv_auto_approved = True,
       inv_requirement = Skip False None\<rparr> \<and>
   \<not> target_writable plain_host demo_abs write_w [RootDir, NormalC ''w''] ''/w/../x'' \<and>
   text_of mem_fs (world (fst (apply_hunks_to_files mem_fs mem_api [demo_update, AddFile ''a'' ''n''] ''/w'' patch_world))) ''/w/../x''
     = Some (''u'' @ [NL])"
  by (intro conjI) code_simp+

text \<open>
  Automatic approval has its conditions: never for an empty patch, never under unless-trusted, always to be run in
  a sandbox of the platform except for profiles that ask for none, and only when every path of the patch can be
  written or the policy is on-failure; a patch is refused outright only when asking is ruled out or it is empty.
\<close>

theorem patch_decision_conditions:
  "case assess_patch_safety h os to_abs_path action approval profile policy cwd level of
     AutoApprove t explicit \<Rightarrow>
       \<not> explicit \<and> \<not> action_is_empty action \<and> approval \<noteq> UnlessTrusted \<and>
       (t = NoSandbox \<longleftrightarrow> sandbox_is_explicitly_disabled profile) \<and>
       (approval = OnFailure \<or> is_write_patch_constrained_to_writable_paths h to_abs_path action policy cwd)
   | AskUser \<Rightarrow> \<not> action_is_empty action \<and> \<not> rejects_sandbox_approval approval
   | RejectPatch reason \<Rightarrow>
       (if action_is_empty action then reason = ''empty patch''
        else rejects_sandbox_approval approval \<and> reason = patch_rejection_reason h to_abs_path profile policy cwd)"
proof (cases "assess_patch_safety h os to_abs_path action approval profile policy cwd level")
  case (AutoApprove t b)
  then show ?thesis using auto_approved [OF AutoApprove] by simp
next
  case AskUser
  then show ?thesis
    by (auto simp: assess_patch_safety_def rejects_sandbox_approval_def
        split: if_splits option.splits permission_profile.splits ask_for_approval.splits)
next
  case (RejectPatch reason)
  then show ?thesis
    by (auto simp: assess_patch_safety_def split: if_splits option.splits permission_profile.splits)
qed

end
