(* ===== verification/Turn_Items.thy ===== *)
theory Turn_Items
  imports Response_Item Permission_Grants
begin

text \<open>
  The items of a turn (\<open>protocol/src/items.rs\<close>), the user's input (\<open>user_input.rs\<close>) and the events of
  the protocol (\<open>EventMsg\<close> of \<open>protocol.rs\<close> and its payloads). An item is also announced by the
  older events the program had before it; both conversions, at the start and at the end of an item,
  are here.

  A \<open>ThreadId\<close> and a \<open>PathBuf\<close> are their text, a \<open>Duration\<close> is its nanoseconds, a hash map the list of
  its entries. Types of the
  app server's protocol that repeat a type of the core protocol variant by variant share one type.
\<close>

section \<open>User input\<close>

record byte_range =
  range_start :: nat
  range_end :: nat

record text_element =
  element_range :: byte_range
  element_placeholder :: "rstr option"

datatype user_input =
    UserText rstr "text_element list"
  | UserImage rstr "image_detail option"
  | UserLocalImage rstr "image_detail option"
  | UserSkill rstr rstr
  | UserMention rstr rstr

text \<open>\<open>str::get\<close> of a range: the bytes, if the range lies on character boundaries.\<close>

definition str_get :: "rstr \<Rightarrow> nat \<Rightarrow> nat \<Rightarrow> rstr option" where
  "str_get s a b =
     (if a \<le> b \<and> is_char_boundary s a \<and> is_char_boundary s b then Some (take (b - a) (drop a s)) else None)"

definition placeholder_of :: "text_element \<Rightarrow> rstr \<Rightarrow> rstr option" where
  "placeholder_of e s =
     (case element_placeholder e of Some p \<Rightarrow> Some p
      | None \<Rightarrow> str_get s (range_start (element_range e)) (range_end (element_range e)))"

section \<open>Items\<close>

record hook_prompt_fragment =
  fragment_text :: rstr
  fragment_hook_run_id :: rstr

record memory_citation_entry =
  citation_path :: rstr
  citation_line_start :: nat
  citation_line_end :: nat
  citation_note :: rstr

record memory_citation =
  citation_entries :: "memory_citation_entry list"
  citation_rollout_ids :: "rstr list"

datatype file_change =
    FileAdd rstr
  | FileDelete rstr
  | FileUpdate rstr "rstr option"

type_synonym file_changes = "(rstr \<times> file_change) list"

datatype patch_apply_status = PatchCompleted | PatchFailed | PatchDeclined

datatype mcp_tool_call_status = McpInProgress | McpCompleted | McpFailed

record call_tool_result =
  result_content :: "json list"
  result_structured :: "json option"
  result_is_error :: "bool option"
  result_meta :: "json option"

record user_message_item =
  umi_id :: rstr
  umi_client_id :: "rstr option"
  umi_content :: "user_input list"

record hook_prompt_item =
  hpi_id :: rstr
  hpi_fragments :: "hook_prompt_fragment list"

record agent_message_item =
  ami_id :: rstr
  ami_content :: "rstr list"
  ami_phase :: "message_phase option"
  ami_memory_citation :: "memory_citation option"

record plan_item =
  pli_id :: rstr
  pli_text :: rstr

record reasoning_item =
  rsi_id :: rstr
  rsi_summary_text :: "rstr list"
  rsi_raw_content :: "rstr list"

record web_search_item =
  wsi_id :: rstr
  wsi_query :: rstr
  wsi_action :: web_search_action

record image_view_item =
  ivi_id :: rstr
  ivi_path :: rpath

record sleep_item =
  sli_id :: rstr
  sli_duration_ms :: nat

record image_generation_item =
  igi_id :: rstr
  igi_status :: rstr
  igi_revised_prompt :: "rstr option"
  igi_result :: rstr
  igi_saved_path :: "rpath option"

record file_change_item =
  fci_id :: rstr
  fci_changes :: file_changes
  fci_status :: "patch_apply_status option"
  fci_auto_approved :: "bool option"
  fci_stdout :: "rstr option"
  fci_stderr :: "rstr option"

record mcp_tool_call_item =
  mci_id :: rstr
  mci_server :: rstr
  mci_tool :: rstr
  mci_arguments :: json
  mci_connector_id :: "rstr option"
  mci_app_resource_uri :: "rstr option"
  mci_link_id :: "rstr option"
  mci_plugin_id :: "rstr option"
  mci_status :: mcp_tool_call_status
  mci_result :: "call_tool_result option"
  mci_error :: "rstr option"
  mci_duration :: "nat option"

datatype turn_item =
    TurnUserMessage user_message_item
  | TurnHookPrompt hook_prompt_item
  | TurnAgentMessage agent_message_item
  | TurnPlan plan_item
  | TurnReasoning reasoning_item
  | TurnWebSearch web_search_item
  | TurnImageView image_view_item
  | TurnSleep sleep_item
  | TurnImageGeneration image_generation_item
  | TurnFileChange file_change_item
  | TurnMcpToolCall mcp_tool_call_item
  | TurnContextCompaction rstr

fun turn_item_id :: "turn_item \<Rightarrow> rstr" where
  "turn_item_id (TurnUserMessage i) = umi_id i"
| "turn_item_id (TurnHookPrompt i) = hpi_id i"
| "turn_item_id (TurnAgentMessage i) = ami_id i"
| "turn_item_id (TurnPlan i) = pli_id i"
| "turn_item_id (TurnReasoning i) = rsi_id i"
| "turn_item_id (TurnWebSearch i) = wsi_id i"
| "turn_item_id (TurnImageView i) = ivi_id i"
| "turn_item_id (TurnSleep i) = sli_id i"
| "turn_item_id (TurnImageGeneration i) = igi_id i"
| "turn_item_id (TurnFileChange i) = fci_id i"
| "turn_item_id (TurnMcpToolCall i) = mci_id i"
| "turn_item_id (TurnContextCompaction i) = i"

end
