(* ===== verification/Turn_Events.thy ===== *)
theory Turn_Events
  imports Turn_Items
begin

text \<open>
  The events of the protocol (\<open>EventMsg\<close> of \<open>protocol/src/protocol.rs\<close> with the payloads of the events
  the thread history reads, \<open>approvals.rs\<close>, \<open>dynamic_tools.rs\<close>, \<open>parse_command.rs\<close>), the older events
  that announce an item, and the lines of a rollout. The variants of \<open>EventMsg\<close> nothing below reads
  are one constructor, \<open>EvOther\<close>. A \<open>PathUri\<close> is its text.
\<close>

section \<open>Payloads\<close>

datatype agent_status =
    AgentPendingInit | AgentRunning | AgentInterrupted | AgentCompleted "rstr option"
  | AgentErrored rstr | AgentShutdown | AgentNotFound

datatype non_steerable_turn_kind = ReviewTurn | CompactTurn

datatype codex_error_info =
    ContextWindowExceeded | UsageLimitExceeded | ServerOverloaded | CyberPolicy
  | HttpConnectionFailed "nat option" | ResponseStreamConnectionFailed "nat option"
  | InternalServerError | Unauthorized | BadRequest | SandboxErrorInfo
  | ResponseStreamDisconnected "nat option" | ResponseTooManyFailedAttempts "nat option"
  | ActiveTurnNotSteerable non_steerable_turn_kind | ThreadRollbackFailed | OtherErrorInfo

fun info_affects_turn_status :: "codex_error_info \<Rightarrow> bool" where
  "info_affects_turn_status ThreadRollbackFailed = False"
| "info_affects_turn_status (ActiveTurnNotSteerable _) = False"
| "info_affects_turn_status _ = True"

record error_event =
  err_message :: rstr
  err_codex_error_info :: "codex_error_info option"

definition affects_turn_status :: "error_event \<Rightarrow> bool" where
  "affects_turn_status e =
     (case err_codex_error_info e of None \<Rightarrow> True | Some i \<Rightarrow> info_affects_turn_status i)"

datatype mode_kind = PlanMode | DefaultMode | PairProgrammingMode | ExecuteMode

record turn_started_event =
  tse_turn_id :: rstr
  tse_trace_id :: "rstr option"
  tse_started_at :: "int option"
  tse_model_context_window :: "int option"
  tse_collaboration_mode_kind :: mode_kind

record turn_complete_event =
  tce_turn_id :: rstr
  tce_last_agent_message :: "rstr option"
  tce_completed_at :: "int option"
  tce_duration_ms :: "int option"
  tce_time_to_first_token_ms :: "int option"

datatype turn_abort_reason = AbortInterrupted | AbortReplaced | AbortReviewEnded | AbortBudgetLimited

record turn_aborted_event =
  tae_turn_id :: "rstr option"
  tae_reason :: turn_abort_reason
  tae_completed_at :: "int option"
  tae_duration_ms :: "int option"

record user_message_event =
  ume_client_id :: "rstr option"
  ume_message :: rstr
  ume_images :: "rstr list option"
  ume_image_details :: "image_detail option list"
  ume_local_images :: "rstr list"
  ume_local_image_details :: "image_detail option list"
  ume_text_elements :: "text_element list"

record agent_message_event =
  ame_message :: rstr
  ame_phase :: "message_phase option"
  ame_memory_citation :: "memory_citation option"

record web_search_end_event =
  wse_call_id :: rstr
  wse_query :: rstr
  wse_action :: web_search_action

record image_generation_end_event =
  ige_call_id :: rstr
  ige_status :: rstr
  ige_revised_prompt :: "rstr option"
  ige_result :: rstr
  ige_saved_path :: "rpath option"

record view_image_event =
  vie_call_id :: rstr
  vie_path :: rpath

record mcp_invocation =
  inv_server :: rstr
  inv_tool :: rstr
  inv_arguments :: "json option"

record mcp_tool_call_begin_event =
  mcb_call_id :: rstr
  mcb_invocation :: mcp_invocation
  mcb_connector_id :: "rstr option"
  mcb_app_resource_uri :: "rstr option"
  mcb_link_id :: "rstr option"
  mcb_plugin_id :: "rstr option"

record mcp_tool_call_end_event =
  mce_call_id :: rstr
  mce_invocation :: mcp_invocation
  mce_connector_id :: "rstr option"
  mce_app_resource_uri :: "rstr option"
  mce_link_id :: "rstr option"
  mce_plugin_id :: "rstr option"
  mce_duration :: nat
  mce_result :: "(rstr, call_tool_result) result"

definition mcp_is_success :: "mcp_tool_call_end_event \<Rightarrow> bool" where
  "mcp_is_success e =
     (case mce_result e of Ok r \<Rightarrow> \<not> (case result_is_error r of None \<Rightarrow> False | Some b \<Rightarrow> b) | Err _ \<Rightarrow> False)"

datatype dynamic_output_item = DynamicText rstr | DynamicImage rstr

record dynamic_tool_call_request =
  dtr_call_id :: rstr
  dtr_turn_id :: rstr
  dtr_started_at_ms :: int
  dtr_namespace :: "rstr option"
  dtr_tool :: rstr
  dtr_arguments :: json

record dynamic_tool_call_response_event =
  dte_call_id :: rstr
  dte_turn_id :: rstr
  dte_completed_at_ms :: int
  dte_namespace :: "rstr option"
  dte_tool :: rstr
  dte_arguments :: json
  dte_content_items :: "dynamic_output_item list"
  dte_success :: bool
  dte_error :: "rstr option"
  dte_duration :: nat

datatype parsed_command =
    ParsedRead rstr rstr rstr
  | ParsedListFiles rstr "rstr option"
  | ParsedSearch rstr "rstr option" "rstr option"
  | ParsedUnknown rstr

datatype exec_command_source = SourceAgent | SourceUserShell | SourceUnifiedExecStartup | SourceUnifiedExecInteraction

datatype exec_command_status = ExecCompleted | ExecFailed | ExecDeclined

record exec_command_begin_event =
  ecb_call_id :: rstr
  ecb_process_id :: "rstr option"
  ecb_turn_id :: rstr
  ecb_started_at_ms :: int
  ecb_command :: "rstr list"
  ecb_cwd :: rstr
  ecb_parsed_cmd :: "parsed_command list"
  ecb_source :: exec_command_source
  ecb_interaction_input :: "rstr option"

record exec_command_end_event =
  ece_call_id :: rstr
  ece_process_id :: "rstr option"
  ece_turn_id :: rstr
  ece_completed_at_ms :: int
  ece_command :: "rstr list"
  ece_cwd :: rstr
  ece_parsed_cmd :: "parsed_command list"
  ece_source :: exec_command_source
  ece_interaction_input :: "rstr option"
  ece_stdout :: rstr
  ece_stderr :: rstr
  ece_aggregated_output :: rstr
  ece_exit_code :: int
  ece_duration :: nat
  ece_formatted_output :: rstr
  ece_status :: exec_command_status

record patch_apply_begin_event =
  pab_call_id :: rstr
  pab_turn_id :: rstr
  pab_auto_approved :: bool
  pab_changes :: file_changes

record patch_apply_end_event =
  pae_call_id :: rstr
  pae_turn_id :: rstr
  pae_stdout :: rstr
  pae_stderr :: rstr
  pae_success :: bool
  pae_changes :: file_changes
  pae_status :: patch_apply_status

record apply_patch_approval_request_event =
  apr_call_id :: rstr
  apr_turn_id :: rstr
  apr_started_at_ms :: int
  apr_changes :: file_changes
  apr_reason :: "rstr option"
  apr_grant_root :: "rstr option"


datatype guardian_assessment_status = GuardInProgress | GuardApproved | GuardDenied | GuardTimedOut | GuardAborted

datatype guardian_risk_level = RiskLow | RiskMedium | RiskHigh | RiskCritical

datatype guardian_user_authorization = AuthUnknown | AuthLow | AuthMedium | AuthHigh

datatype guardian_decision_source = DecisionAgent

datatype guardian_command_source = GuardShell | GuardUnifiedExec

datatype network_approval_protocol = ApproveHttp | ApproveHttps | ApproveSocks5Tcp | ApproveSocks5Udp

datatype guardian_assessment_action =
    GuardCommand guardian_command_source rstr rpath
  | GuardExecve guardian_command_source rstr "rstr list" rpath
  | GuardApplyPatch rpath "rpath list"
  | GuardNetworkAccess rstr rstr network_approval_protocol nat
  | GuardMcpToolCall rstr rstr "rstr option" "rstr option" "rstr option"
  | GuardRequestPermissions "rstr option" additional_permission_profile

record guardian_assessment_event =
  gae_id :: rstr
  gae_target_item_id :: "rstr option"
  gae_turn_id :: rstr
  gae_started_at_ms :: int
  gae_completed_at_ms :: "int option"
  gae_status :: guardian_assessment_status
  gae_risk_level :: "guardian_risk_level option"
  gae_user_authorization :: "guardian_user_authorization option"
  gae_rationale :: "rstr option"
  gae_decision_source :: "guardian_decision_source option"
  gae_action :: guardian_assessment_action

datatype reasoning_effort =
    EffortNone | EffortMinimal | EffortLow | EffortMedium | EffortHigh | EffortXHigh | EffortUltra
  | EffortCustom rstr

record collab_spawn_begin_event =
  csb_call_id :: rstr
  csb_started_at_ms :: int
  csb_sender_thread_id :: rstr
  csb_prompt :: rstr
  csb_model :: rstr
  csb_reasoning_effort :: reasoning_effort

record collab_spawn_end_event =
  cse_call_id :: rstr
  cse_completed_at_ms :: int
  cse_sender_thread_id :: rstr
  cse_new_thread_id :: "rstr option"
  cse_new_agent_nickname :: "rstr option"
  cse_new_agent_role :: "rstr option"
  cse_prompt :: rstr
  cse_model :: rstr
  cse_reasoning_effort :: reasoning_effort
  cse_status :: agent_status

record collab_interaction_begin_event =
  cib_call_id :: rstr
  cib_started_at_ms :: int
  cib_sender_thread_id :: rstr
  cib_receiver_thread_id :: rstr
  cib_prompt :: rstr

record collab_interaction_end_event =
  cie_call_id :: rstr
  cie_completed_at_ms :: int
  cie_sender_thread_id :: rstr
  cie_receiver_thread_id :: rstr
  cie_receiver_agent_nickname :: "rstr option"
  cie_receiver_agent_role :: "rstr option"
  cie_prompt :: rstr
  cie_status :: agent_status

datatype sub_agent_activity_kind = ActivityStarted | ActivityInteracted | ActivityInterrupted

record sub_agent_activity_event =
  sae_event_id :: rstr
  sae_occurred_at_ms :: int
  sae_agent_thread_id :: rstr
  sae_agent_path :: rstr
  sae_kind :: sub_agent_activity_kind

record collab_agent_ref =
  car_thread_id :: rstr
  car_agent_nickname :: "rstr option"
  car_agent_role :: "rstr option"

record collab_waiting_begin_event =
  cwb_started_at_ms :: int
  cwb_sender_thread_id :: rstr
  cwb_receiver_thread_ids :: "rstr list"
  cwb_receiver_agents :: "collab_agent_ref list"
  cwb_call_id :: rstr

record collab_waiting_end_event =
  cwe_sender_thread_id :: rstr
  cwe_call_id :: rstr
  cwe_completed_at_ms :: int
  cwe_agent_statuses :: "(collab_agent_ref \<times> agent_status) list"
  cwe_statuses :: "(rstr \<times> agent_status) list"

text \<open>The events at the beginning of closing and resuming an agent, and those at the end.\<close>

record collab_close_begin_event =
  ccb_call_id :: rstr
  ccb_started_at_ms :: int
  ccb_sender_thread_id :: rstr
  ccb_receiver_thread_id :: rstr

record collab_close_end_event =
  cce_call_id :: rstr
  cce_completed_at_ms :: int
  cce_sender_thread_id :: rstr
  cce_receiver_thread_id :: rstr
  cce_receiver_agent_nickname :: "rstr option"
  cce_receiver_agent_role :: "rstr option"
  cce_status :: agent_status

record collab_resume_begin_event =
  crb_call_id :: rstr
  crb_started_at_ms :: int
  crb_sender_thread_id :: rstr
  crb_receiver_thread_id :: rstr
  crb_receiver_agent_nickname :: "rstr option"
  crb_receiver_agent_role :: "rstr option"

record collab_resume_end_event =
  cre_call_id :: rstr
  cre_completed_at_ms :: int
  cre_sender_thread_id :: rstr
  cre_receiver_thread_id :: rstr
  cre_receiver_agent_nickname :: "rstr option"
  cre_receiver_agent_role :: "rstr option"
  cre_status :: agent_status

text \<open>Of a review only the texts are kept; nothing reads the scores and the single findings.\<close>

datatype review_target =
    ReviewUncommittedChanges | ReviewBaseBranch rstr | ReviewCommit rstr "rstr option" | ReviewCustom rstr

record review_request =
  rrq_target :: review_target
  rrq_user_facing_hint :: "rstr option"

record review_output_event =
  roe_overall_correctness :: rstr
  roe_overall_explanation :: rstr

record item_started_event =
  ise_thread_id :: rstr
  ise_turn_id :: rstr
  ise_item :: turn_item
  ise_started_at_ms :: int

record item_completed_event =
  ice_thread_id :: rstr
  ice_turn_id :: rstr
  ice_item :: turn_item
  ice_completed_at_ms :: int

section \<open>Events\<close>

datatype event_msg =
    EvError error_event
  | EvContextCompacted
  | EvThreadRolledBack nat
  | EvTurnStarted turn_started_event
  | EvTurnComplete turn_complete_event
  | EvTokenCount
  | EvAgentMessage agent_message_event
  | EvUserMessage user_message_event
  | EvAgentReasoning rstr
  | EvAgentReasoningRawContent rstr
  | EvThreadGoalUpdated
  | EvMcpToolCallBegin mcp_tool_call_begin_event
  | EvMcpToolCallEnd mcp_tool_call_end_event
  | EvWebSearchBegin rstr
  | EvWebSearchEnd web_search_end_event
  | EvImageGenerationBegin rstr
  | EvImageGenerationEnd image_generation_end_event
  | EvExecCommandBegin exec_command_begin_event
  | EvExecCommandEnd exec_command_end_event
  | EvViewImageToolCall view_image_event
  | EvDynamicToolCallRequest dynamic_tool_call_request
  | EvDynamicToolCallResponse dynamic_tool_call_response_event
  | EvApplyPatchApprovalRequest apply_patch_approval_request_event
  | EvGuardianAssessment guardian_assessment_event
  | EvPatchApplyBegin patch_apply_begin_event
  | EvPatchApplyEnd patch_apply_end_event
  | EvTurnAborted turn_aborted_event
  | EvEnteredReviewMode review_request
  | EvExitedReviewMode "review_output_event option"
  | EvItemStarted item_started_event
  | EvItemCompleted item_completed_event
  | EvHookStarted
  | EvHookCompleted
  | EvCollabAgentSpawnBegin collab_spawn_begin_event
  | EvCollabAgentSpawnEnd collab_spawn_end_event
  | EvCollabAgentInteractionBegin collab_interaction_begin_event
  | EvCollabAgentInteractionEnd collab_interaction_end_event
  | EvCollabWaitingBegin collab_waiting_begin_event
  | EvCollabWaitingEnd collab_waiting_end_event
  | EvCollabCloseBegin collab_close_begin_event
  | EvCollabCloseEnd collab_close_end_event
  | EvCollabResumeBegin collab_resume_begin_event
  | EvCollabResumeEnd collab_resume_end_event
  | EvSubAgentActivity sub_agent_activity_event
  | EvOther

section \<open>The older events of an item\<close>

definition user_message_text :: "user_message_item \<Rightarrow> rstr" where
  "user_message_text i = concat (map (\<lambda>c. case c of UserText t _ \<Rightarrow> t | _ \<Rightarrow> []) (umi_content i))"

text \<open>The ranges of the elements of each text are moved by the length of the texts before it.\<close>

definition rebase_element :: "nat \<Rightarrow> rstr \<Rightarrow> text_element \<Rightarrow> text_element" where
  "rebase_element offset t e =
     \<lparr>element_range = \<lparr>range_start = offset + range_start (element_range e),
        range_end = offset + range_end (element_range e)\<rparr>,
      element_placeholder = placeholder_of e t\<rparr>"

fun text_elements_from :: "nat \<Rightarrow> user_input list \<Rightarrow> text_element list" where
  "text_elements_from offset [] = []"
| "text_elements_from offset (UserText t es # cs) =
     map (rebase_element offset t) es @ text_elements_from (offset + length t) cs"
| "text_elements_from offset (_ # cs) = text_elements_from offset cs"

definition user_text_elements :: "user_message_item \<Rightarrow> text_element list" where
  "user_text_elements i = text_elements_from 0 (umi_content i)"

definition image_urls :: "user_message_item \<Rightarrow> rstr list" where
  "image_urls i = List.map_filter (\<lambda>c. case c of UserImage u _ \<Rightarrow> Some u | _ \<Rightarrow> None) (umi_content i)"

definition trim_trailing_default_image_details :: "image_detail option list \<Rightarrow> image_detail option list" where
  "trim_trailing_default_image_details ds = rev (dropWhile (\<lambda>d. d = None) (rev ds))"

definition image_details :: "user_message_item \<Rightarrow> image_detail option list" where
  "image_details i = trim_trailing_default_image_details
     (List.map_filter (\<lambda>c. case c of UserImage _ d \<Rightarrow> Some d | _ \<Rightarrow> None) (umi_content i))"

definition local_image_paths :: "user_message_item \<Rightarrow> rstr list" where
  "local_image_paths i = List.map_filter (\<lambda>c. case c of UserLocalImage p _ \<Rightarrow> Some p | _ \<Rightarrow> None) (umi_content i)"

definition local_image_details :: "user_message_item \<Rightarrow> image_detail option list" where
  "local_image_details i = trim_trailing_default_image_details
     (List.map_filter (\<lambda>c. case c of UserLocalImage _ d \<Rightarrow> Some d | _ \<Rightarrow> None) (umi_content i))"

definition user_message_legacy_event :: "user_message_item \<Rightarrow> event_msg" where
  "user_message_legacy_event i = EvUserMessage
     \<lparr>ume_client_id = umi_client_id i, ume_message = user_message_text i, ume_images = Some (image_urls i),
      ume_image_details = image_details i, ume_local_images = local_image_paths i,
      ume_local_image_details = local_image_details i, ume_text_elements = user_text_elements i\<rparr>"

definition agent_message_legacy_events :: "agent_message_item \<Rightarrow> event_msg list" where
  "agent_message_legacy_events i = map (\<lambda>t. EvAgentMessage
     \<lparr>ame_message = t, ame_phase = ami_phase i, ame_memory_citation = ami_memory_citation i\<rparr>) (ami_content i)"

definition reasoning_legacy_events :: "reasoning_item \<Rightarrow> bool \<Rightarrow> event_msg list" where
  "reasoning_legacy_events i show_raw_agent_reasoning =
     map EvAgentReasoning (rsi_summary_text i) @
     (if show_raw_agent_reasoning then map EvAgentReasoningRawContent (rsi_raw_content i) else [])"

definition web_search_legacy_event :: "web_search_item \<Rightarrow> event_msg" where
  "web_search_legacy_event i = EvWebSearchEnd
     \<lparr>wse_call_id = wsi_id i, wse_query = wsi_query i, wse_action = wsi_action i\<rparr>"

definition image_generation_legacy_event :: "image_generation_item \<Rightarrow> event_msg" where
  "image_generation_legacy_event i = EvImageGenerationEnd
     \<lparr>ige_call_id = igi_id i, ige_status = igi_status i, ige_revised_prompt = igi_revised_prompt i,
      ige_result = igi_result i, ige_saved_path = igi_saved_path i\<rparr>"

definition file_change_legacy_begin_event :: "file_change_item \<Rightarrow> rstr \<Rightarrow> event_msg" where
  "file_change_legacy_begin_event i tid = EvPatchApplyBegin
     \<lparr>pab_call_id = fci_id i, pab_turn_id = tid,
      pab_auto_approved = (case fci_auto_approved i of None \<Rightarrow> False | Some b \<Rightarrow> b), pab_changes = fci_changes i\<rparr>"

definition file_change_legacy_end_event :: "file_change_item \<Rightarrow> rstr \<Rightarrow> event_msg option" where
  "file_change_legacy_end_event i tid =
     (case fci_status i of None \<Rightarrow> None
      | Some st \<Rightarrow> Some (EvPatchApplyEnd
          \<lparr>pae_call_id = fci_id i, pae_turn_id = tid, pae_stdout = (case fci_stdout i of None \<Rightarrow> [] | Some t \<Rightarrow> t),
           pae_stderr = (case fci_stderr i of None \<Rightarrow> [] | Some t \<Rightarrow> t), pae_success = (st = PatchCompleted),
           pae_changes = fci_changes i, pae_status = st\<rparr>))"

definition mcp_invocation_of :: "mcp_tool_call_item \<Rightarrow> mcp_invocation" where
  "mcp_invocation_of i = \<lparr>inv_server = mci_server i, inv_tool = mci_tool i,
     inv_arguments = (if mci_arguments i = JNull then None else Some (mci_arguments i))\<rparr>"

definition mcp_legacy_begin_event :: "mcp_tool_call_item \<Rightarrow> event_msg" where
  "mcp_legacy_begin_event i = EvMcpToolCallBegin
     \<lparr>mcb_call_id = mci_id i, mcb_invocation = mcp_invocation_of i, mcb_connector_id = mci_connector_id i,
      mcb_app_resource_uri = mci_app_resource_uri i, mcb_link_id = mci_link_id i, mcb_plugin_id = mci_plugin_id i\<rparr>"

definition mcp_item_result :: "mcp_tool_call_item \<Rightarrow> (rstr, call_tool_result) result option" where
  "mcp_item_result i =
     (case (mci_result i, mci_error i) of
        (Some r, _) \<Rightarrow> Some (Ok r)
      | (None, Some e) \<Rightarrow> Some (Err e)
      | (None, None) \<Rightarrow> None)"

definition mcp_legacy_end_event :: "mcp_tool_call_item \<Rightarrow> event_msg option" where
  "mcp_legacy_end_event i =
     (case mcp_item_result i of None \<Rightarrow> None
      | Some r \<Rightarrow>
          (case mci_duration i of None \<Rightarrow> None
           | Some d \<Rightarrow> Some (EvMcpToolCallEnd
               \<lparr>mce_call_id = mci_id i, mce_invocation = mcp_invocation_of i, mce_connector_id = mci_connector_id i,
                mce_app_resource_uri = mci_app_resource_uri i, mce_link_id = mci_link_id i,
                mce_plugin_id = mci_plugin_id i, mce_duration = d, mce_result = r\<rparr>)))"

fun turn_item_legacy_events :: "turn_item \<Rightarrow> bool \<Rightarrow> event_msg list" where
  "turn_item_legacy_events (TurnUserMessage i) _ = [user_message_legacy_event i]"
| "turn_item_legacy_events (TurnHookPrompt _) _ = []"
| "turn_item_legacy_events (TurnAgentMessage i) _ = agent_message_legacy_events i"
| "turn_item_legacy_events (TurnPlan _) _ = []"
| "turn_item_legacy_events (TurnWebSearch i) _ = [web_search_legacy_event i]"
| "turn_item_legacy_events (TurnImageView i) _ = [EvViewImageToolCall \<lparr>vie_call_id = ivi_id i, vie_path = ivi_path i\<rparr>]"
| "turn_item_legacy_events (TurnSleep _) _ = []"
| "turn_item_legacy_events (TurnImageGeneration i) _ = [image_generation_legacy_event i]"
| "turn_item_legacy_events (TurnFileChange i) _ =
     (case file_change_legacy_end_event i [] of None \<Rightarrow> [] | Some e \<Rightarrow> [e])"
| "turn_item_legacy_events (TurnMcpToolCall i) _ = (case mcp_legacy_end_event i of None \<Rightarrow> [] | Some e \<Rightarrow> [e])"
| "turn_item_legacy_events (TurnReasoning i) raw = reasoning_legacy_events i raw"
| "turn_item_legacy_events (TurnContextCompaction _) _ = [EvContextCompacted]"

definition item_started_legacy_events :: "item_started_event \<Rightarrow> event_msg list" where
  "item_started_legacy_events e =
     (case ise_item e of
        TurnWebSearch i \<Rightarrow> [EvWebSearchBegin (wsi_id i)]
      | TurnImageView _ \<Rightarrow> []
      | TurnImageGeneration i \<Rightarrow> [EvImageGenerationBegin (igi_id i)]
      | TurnFileChange i \<Rightarrow> [file_change_legacy_begin_event i (ise_turn_id e)]
      | TurnMcpToolCall i \<Rightarrow> [mcp_legacy_begin_event i]
      | _ \<Rightarrow> [])"

definition item_completed_legacy_events :: "item_completed_event \<Rightarrow> bool \<Rightarrow> event_msg list" where
  "item_completed_legacy_events e show_raw_agent_reasoning =
     (case ice_item e of
        TurnFileChange i \<Rightarrow> (case file_change_legacy_end_event i (ice_turn_id e) of None \<Rightarrow> [] | Some ev \<Rightarrow> [ev])
      | i \<Rightarrow> turn_item_legacy_events i show_raw_agent_reasoning)"

section \<open>Rollouts\<close>

text \<open>
  The lines of a rollout. Nothing below reads the payload of a session's meta data or of a turn
  context.
\<close>

record inter_agent_communication =
  iac_author :: rstr
  iac_recipient :: rstr
  iac_other_recipients :: "rstr list"
  iac_content :: rstr
  iac_encrypted_content :: "rstr option"
  iac_metadata :: "metadata_passthrough option"
  iac_trigger_turn :: bool

record compacted_item =
  cpi_message :: rstr
  cpi_replacement_history :: "response_item list option"
  cpi_window_number :: "nat option"
  cpi_first_window_id :: "rstr option"
  cpi_previous_window_id :: "rstr option"
  cpi_window_id :: "rstr option"

datatype rollout_item =
    RolloutSessionMeta
  | RolloutResponseItem response_item
  | RolloutInterAgent inter_agent_communication
  | RolloutCompacted compacted_item
  | RolloutTurnContext
  | RolloutEvent event_msg

end
