(* ===== verification/Thread_Items.thy ===== *)
theory Thread_Items
  imports Turn_Events "HOL-Library.Char_ord" "HOL-Library.List_Lexorder"
begin

text \<open>
  The items the app server shows (\<open>ThreadItem\<close> of \<open>app-server-protocol/src/protocol/v2/item.rs\<close>), how
  they are made from the items of a turn, and the builders of \<open>item_builders.rs\<close> that make them from
  events. What the builders call elsewhere is the record \<open>thread_api\<close>: the command parser, \<open>shlex\<close>, the
  conversions of a \<open>PathUri\<close>, and the XML reader of hook prompts.
\<close>

section \<open>Items\<close>

datatype command_action =
    ActionRead rstr rstr rpath
  | ActionListFiles rstr "rstr option"
  | ActionSearch rstr "rstr option" "rstr option"
  | ActionUnknown rstr

datatype command_execution_status = CommandInProgress | CommandCompleted | CommandFailed | CommandDeclined

datatype patch_change_kind = KindAdd | KindDelete | KindUpdate "rstr option"

record file_update_change =
  change_path :: rstr
  change_kind :: patch_change_kind
  change_diff :: rstr

datatype file_change_status = ChangeInProgress | ChangeCompleted | ChangeFailed | ChangeDeclined

datatype dynamic_tool_call_status = DynamicInProgress | DynamicCompleted | DynamicFailed

datatype collab_agent_tool = SpawnAgent | SendInput | ResumeAgent | WaitAgents | CloseAgent

datatype collab_call_status = CollabInProgress | CollabCompleted | CollabFailed

datatype collab_agent_status =
    StatusPendingInit | StatusRunning | StatusInterrupted | StatusCompleted | StatusErrored | StatusShutdown
  | StatusNotFound

record collab_agent_state =
  agent_state_status :: collab_agent_status
  agent_state_message :: "rstr option"

record mcp_tool_call_app_context =
  context_connector_id :: rstr
  context_link_id :: "rstr option"
  context_resource_uri :: "rstr option"

record mcp_tool_call_result =
  mcp_content :: "json list"
  mcp_structured_content :: "json option"
  mcp_meta :: "json option"

text \<open>Every variant has an id; \<open>item_id\<close> reads it (\<open>ThreadItem::id\<close>).\<close>

datatype thread_item =
    ItemUserMessage (item_id: rstr) "rstr option" "user_input list"
  | ItemHookPrompt (item_id: rstr) "hook_prompt_fragment list"
  | ItemAgentMessage (item_id: rstr) rstr "message_phase option" "memory_citation option"
  | ItemPlan (item_id: rstr) rstr
  | ItemReasoning (item_id: rstr) "rstr list" "rstr list"
  | ItemCommandExecution (item_id: rstr) rstr rstr "rstr option" exec_command_source command_execution_status
      "command_action list" "rstr option" "int option" "nat option"
  | ItemFileChange (item_id: rstr) "file_update_change list" file_change_status
  | ItemMcpToolCall (item_id: rstr) rstr rstr mcp_tool_call_status json "mcp_tool_call_app_context option"
      "rstr option" "rstr option" "mcp_tool_call_result option" "rstr option" "nat option"
  | ItemDynamicToolCall (item_id: rstr) "rstr option" rstr json dynamic_tool_call_status
      "dynamic_output_item list option" "bool option" "nat option"
  | ItemCollabAgentToolCall (item_id: rstr) collab_agent_tool collab_call_status rstr "rstr list" "rstr option"
      "rstr option" "reasoning_effort option" "(rstr \<times> collab_agent_state) list"
  | ItemSubAgentActivity (item_id: rstr) sub_agent_activity_kind rstr rstr
  | ItemWebSearch (item_id: rstr) rstr "web_search_action option"
  | ItemImageView (item_id: rstr) rpath
  | ItemSleep (item_id: rstr) nat
  | ItemImageGeneration (item_id: rstr) rstr "rstr option" rstr "rpath option"
  | ItemEnteredReviewMode (item_id: rstr) rstr
  | ItemExitedReviewMode (item_id: rstr) rstr
  | ItemContextCompaction (item_id: rstr)

section \<open>Conversions\<close>

record thread_api =
  api_path_env :: path_env
  api_shlex_try_join :: "rstr list \<Rightarrow> rstr option"
  api_parse_command :: "rstr list \<Rightarrow> parsed_command list"
  api_uri_is_native :: "rstr \<Rightarrow> bool"
  api_uri_to_abs_path :: "rstr \<Rightarrow> rpath option"
  api_app_path_of_uri :: "rstr \<Rightarrow> rstr"
  api_app_path_of_abs :: "rpath \<Rightarrow> rstr"
  api_from_xml :: "rstr \<Rightarrow> hook_prompt_fragment option"

definition shlex_join :: "thread_api \<Rightarrow> rstr list \<Rightarrow> rstr" where
  "shlex_join api tokens =
     (case api_shlex_try_join api tokens of Some s \<Rightarrow> s | None \<Rightarrow> ''<command included NUL byte>'')"

text \<open>The milliseconds of a duration, if they fit an \<open>i64\<close>.\<close>

definition duration_ms :: "nat \<Rightarrow> nat option" where
  "duration_ms d = (if d div 1000000 \<le> i64_max then Some (d div 1000000) else None)"

fun from_core_with_cwd :: "thread_api \<Rightarrow> parsed_command \<Rightarrow> rpath \<Rightarrow> command_action" where
  "from_core_with_cwd api (ParsedRead cmd name path) cwd = ActionRead cmd name (abs_join (api_path_env api) cwd path)"
| "from_core_with_cwd api (ParsedListFiles cmd path) cwd = ActionListFiles cmd path"
| "from_core_with_cwd api (ParsedSearch cmd query path) cwd = ActionSearch cmd query path"
| "from_core_with_cwd api (ParsedUnknown cmd) cwd = ActionUnknown cmd"

fun into_core :: "command_action \<Rightarrow> parsed_command" where
  "into_core (ActionRead cmd name path) = ParsedRead cmd name (path_text path)"
| "into_core (ActionListFiles cmd path) = ParsedListFiles cmd path"
| "into_core (ActionSearch cmd query path) = ParsedSearch cmd query path"
| "into_core (ActionUnknown cmd) = ParsedUnknown cmd"

fun command_status_of :: "exec_command_status \<Rightarrow> command_execution_status" where
  "command_status_of ExecCompleted = CommandCompleted"
| "command_status_of ExecFailed = CommandFailed"
| "command_status_of ExecDeclined = CommandDeclined"

fun change_status_of :: "patch_apply_status \<Rightarrow> file_change_status" where
  "change_status_of PatchCompleted = ChangeCompleted"
| "change_status_of PatchFailed = ChangeFailed"
| "change_status_of PatchDeclined = ChangeDeclined"

fun agent_state_of :: "agent_status \<Rightarrow> collab_agent_state" where
  "agent_state_of AgentPendingInit = \<lparr>agent_state_status = StatusPendingInit, agent_state_message = None\<rparr>"
| "agent_state_of AgentRunning = \<lparr>agent_state_status = StatusRunning, agent_state_message = None\<rparr>"
| "agent_state_of AgentInterrupted = \<lparr>agent_state_status = StatusInterrupted, agent_state_message = None\<rparr>"
| "agent_state_of (AgentCompleted m) = \<lparr>agent_state_status = StatusCompleted, agent_state_message = m\<rparr>"
| "agent_state_of (AgentErrored m) = \<lparr>agent_state_status = StatusErrored, agent_state_message = Some m\<rparr>"
| "agent_state_of AgentShutdown = \<lparr>agent_state_status = StatusShutdown, agent_state_message = None\<rparr>"
| "agent_state_of AgentNotFound = \<lparr>agent_state_status = StatusNotFound, agent_state_message = None\<rparr>"

definition mcp_result_of :: "call_tool_result \<Rightarrow> mcp_tool_call_result" where
  "mcp_result_of r = \<lparr>mcp_content = result_content r, mcp_structured_content = result_structured r, mcp_meta = result_meta r\<rparr>"

fun map_patch_change_kind :: "file_change \<Rightarrow> patch_change_kind" where
  "map_patch_change_kind (FileAdd _) = KindAdd"
| "map_patch_change_kind (FileDelete _) = KindDelete"
| "map_patch_change_kind (FileUpdate _ move_path) = KindUpdate move_path"

fun format_file_change_diff :: "file_change \<Rightarrow> rstr" where
  "format_file_change_diff (FileAdd content) = content"
| "format_file_change_diff (FileDelete content) = content"
| "format_file_change_diff (FileUpdate unified_diff (Some path)) = unified_diff @ [NL, NL] @ ''Moved to: '' @ path"
| "format_file_change_diff (FileUpdate unified_diff None) = unified_diff"

definition convert_patch_changes :: "file_changes \<Rightarrow> file_update_change list" where
  "convert_patch_changes changes = sort_key change_path
     (map (\<lambda>(path, change). \<lparr>change_path = path, change_kind = map_patch_change_kind change,
        change_diff = format_file_change_diff change\<rparr>) changes)"

definition app_context_of :: "rstr option \<Rightarrow> rstr option \<Rightarrow> rstr option \<Rightarrow> mcp_tool_call_app_context option" where
  "app_context_of connector link resource = map_option (\<lambda>c.
     \<lparr>context_connector_id = c, context_link_id = link, context_resource_uri = resource\<rparr>) connector"

fun thread_item_of_turn_item :: "turn_item \<Rightarrow> thread_item" where
  "thread_item_of_turn_item (TurnUserMessage i) = ItemUserMessage (umi_id i) (umi_client_id i) (umi_content i)"
| "thread_item_of_turn_item (TurnHookPrompt i) = ItemHookPrompt (hpi_id i) (hpi_fragments i)"
| "thread_item_of_turn_item (TurnAgentMessage i) =
     ItemAgentMessage (ami_id i) (concat (ami_content i)) (ami_phase i) (ami_memory_citation i)"
| "thread_item_of_turn_item (TurnPlan i) = ItemPlan (pli_id i) (pli_text i)"
| "thread_item_of_turn_item (TurnReasoning i) = ItemReasoning (rsi_id i) (rsi_summary_text i) (rsi_raw_content i)"
| "thread_item_of_turn_item (TurnWebSearch i) = ItemWebSearch (wsi_id i) (wsi_query i) (Some (wsi_action i))"
| "thread_item_of_turn_item (TurnImageView i) = ItemImageView (ivi_id i) (ivi_path i)"
| "thread_item_of_turn_item (TurnSleep i) = ItemSleep (sli_id i) (sli_duration_ms i)"
| "thread_item_of_turn_item (TurnImageGeneration i) =
     ItemImageGeneration (igi_id i) (igi_status i) (igi_revised_prompt i) (igi_result i) (igi_saved_path i)"
| "thread_item_of_turn_item (TurnFileChange i) = ItemFileChange (fci_id i) (convert_patch_changes (fci_changes i))
     (case fci_status i of None \<Rightarrow> ChangeInProgress | Some st \<Rightarrow> change_status_of st)"
| "thread_item_of_turn_item (TurnMcpToolCall i) = ItemMcpToolCall (mci_id i) (mci_server i) (mci_tool i)
     (mci_status i) (mci_arguments i) (app_context_of (mci_connector_id i) (mci_link_id i) (mci_app_resource_uri i))
     (mci_app_resource_uri i) (mci_plugin_id i) (map_option mcp_result_of (mci_result i)) (mci_error i)
     (Option.bind (mci_duration i) duration_ms)"
| "thread_item_of_turn_item (TurnContextCompaction i) = ItemContextCompaction i"

section \<open>Builders\<close>

definition build_file_change_approval_request_item :: "apply_patch_approval_request_event \<Rightarrow> thread_item" where
  "build_file_change_approval_request_item p =
     ItemFileChange (apr_call_id p) (convert_patch_changes (apr_changes p)) ChangeInProgress"

definition build_file_change_begin_item :: "patch_apply_begin_event \<Rightarrow> thread_item" where
  "build_file_change_begin_item p =
     ItemFileChange (pab_call_id p) (convert_patch_changes (pab_changes p)) ChangeInProgress"

definition build_file_change_end_item :: "patch_apply_end_event \<Rightarrow> thread_item" where
  "build_file_change_end_item p =
     ItemFileChange (pae_call_id p) (convert_patch_changes (pae_changes p)) (change_status_of (pae_status p))"

definition command_actions_for_path_uri :: "thread_api \<Rightarrow> parsed_command list \<Rightarrow> rstr \<Rightarrow> command_action list" where
  "command_actions_for_path_uri api parsed_cmd cwd =
     (let native_cwd = (if api_uri_is_native api cwd then api_uri_to_abs_path api cwd else None)
      in List.map_filter (\<lambda>parsed.
           case parsed of
             ParsedRead cmd name path \<Rightarrow>
               (case native_cwd of Some c \<Rightarrow> Some (ActionRead cmd name (abs_join (api_path_env api) c path)) | None \<Rightarrow> None)
           | ParsedListFiles cmd path \<Rightarrow> Some (ActionListFiles cmd path)
           | ParsedSearch cmd query path \<Rightarrow> Some (ActionSearch cmd query path)
           | ParsedUnknown cmd \<Rightarrow> Some (ActionUnknown cmd)) parsed_cmd)"

definition build_command_execution_begin_item :: "thread_api \<Rightarrow> exec_command_begin_event \<Rightarrow> thread_item" where
  "build_command_execution_begin_item api p =
     ItemCommandExecution (ecb_call_id p) (shlex_join api (ecb_command p)) (api_app_path_of_uri api (ecb_cwd p))
       (ecb_process_id p) (ecb_source p) CommandInProgress
       (command_actions_for_path_uri api (ecb_parsed_cmd p) (ecb_cwd p)) None None None"

definition build_command_execution_end_item :: "thread_api \<Rightarrow> exec_command_end_event \<Rightarrow> thread_item" where
  "build_command_execution_end_item api p =
     ItemCommandExecution (ece_call_id p) (shlex_join api (ece_command p)) (api_app_path_of_uri api (ece_cwd p))
       (ece_process_id p) (ece_source p) (command_status_of (ece_status p))
       (command_actions_for_path_uri api (ece_parsed_cmd p) (ece_cwd p))
       (if ece_aggregated_output p = [] then None else Some (ece_aggregated_output p)) (Some (ece_exit_code p))
       (Some (case duration_ms (ece_duration p) of Some ms \<Rightarrow> ms | None \<Rightarrow> i64_max))"

definition build_item_from_guardian_event ::
    "thread_api \<Rightarrow> guardian_assessment_event \<Rightarrow> command_execution_status \<Rightarrow> thread_item option" where
  "build_item_from_guardian_event api assessment status =
     (case gae_action assessment of
        GuardCommand _ command cwd \<Rightarrow>
          (case gae_target_item_id assessment of None \<Rightarrow> None
           | Some i \<Rightarrow> Some (ItemCommandExecution i command (api_app_path_of_abs api cwd) None SourceAgent status
               [ActionUnknown command] None None None))
      | GuardExecve _ program argv cwd \<Rightarrow>
          (case gae_target_item_id assessment of None \<Rightarrow> None
           | Some i \<Rightarrow>
               (let argv' = (if argv = [] then [program] else program # drop 1 argv);
                    command = shlex_join api argv';
                    parsed_cmd = api_parse_command api argv';
                    command_actions = (if parsed_cmd = [] then [ActionUnknown command]
                      else map (\<lambda>parsed. from_core_with_cwd api parsed cwd) parsed_cmd)
                in Some (ItemCommandExecution i command (api_app_path_of_abs api cwd) None SourceAgent status
                     command_actions None None None)))
      | GuardApplyPatch _ _ \<Rightarrow> None
      | GuardNetworkAccess _ _ _ _ \<Rightarrow> None
      | GuardMcpToolCall _ _ _ _ _ \<Rightarrow> None
      | GuardRequestPermissions _ _ \<Rightarrow> None)"

end
