(* ===== verification/Thread_Builder.thy ===== *)
theory Thread_Builder
  imports Thread_Items
begin

text \<open>
  The thread history (\<open>app-server-protocol/src/protocol/thread_history.rs\<close>): \<open>ThreadHistoryBuilder\<close> reads
  the lines of a rollout, or live events, and keeps the turns with their items. Its state is the
  record \<open>thread_history_builder\<close>, every handler an operation on it. While a change set is active, each
  handler also records what it changed.

  The argument \<open>u\<close> of the handlers is the UUID the call would draw, for a turn opened outside of a
  rollout or a hook prompt without an id.
\<close>

section \<open>State\<close>

datatype turn_status = TurnCompleted | TurnInterrupted | TurnFailed | TurnInProgress

datatype turn_items_view = ViewNotLoaded | ViewSummary | ViewFull

record turn_error =
  te_message :: rstr
  te_codex_error_info :: "codex_error_info option"
  te_additional_details :: "rstr option"

record turn =
  tn_id :: rstr
  tn_items :: "thread_item list"
  tn_items_view :: turn_items_view
  tn_status :: turn_status
  tn_error :: "turn_error option"
  tn_started_at :: "int option"
  tn_completed_at :: "int option"
  tn_duration_ms :: "int option"

record pending_turn =
  pt_id :: rstr
  pt_items :: "thread_item list"
  pt_error :: "turn_error option"
  pt_status :: turn_status
  pt_started_at :: "int option"
  pt_completed_at :: "int option"
  pt_duration_ms :: "int option"
  pt_opened_explicitly :: bool
  pt_saw_compaction :: bool
  pt_rollout_start_index :: nat

definition turn_of_pending :: "pending_turn \<Rightarrow> turn" where
  "turn_of_pending t =
     \<lparr>tn_id = pt_id t, tn_items = pt_items t, tn_items_view = ViewFull, tn_status = pt_status t,
      tn_error = pt_error t, tn_started_at = pt_started_at t, tn_completed_at = pt_completed_at t,
      tn_duration_ms = pt_duration_ms t\<rparr>"

record item_change =
  ic_turn_id :: rstr
  ic_item :: thread_item

record turn_change =
  tc_turn_id :: rstr
  tc_status :: turn_status
  tc_error :: "turn_error option"
  tc_started_at :: "int option"
  tc_completed_at :: "int option"
  tc_duration_ms :: "int option"

record change_set =
  cs_changed_items :: "item_change list"
  cs_changed_turns :: "turn_change list"
  cs_removed_turn_ids :: "rstr list"

definition empty_change_set :: change_set where
  "empty_change_set = \<lparr>cs_changed_items = [], cs_changed_turns = [], cs_removed_turn_ids = []\<rparr>"

definition change_set_is_empty :: "change_set \<Rightarrow> bool" where
  "change_set_is_empty c = (cs_changed_items c = [] \<and> cs_changed_turns c = [] \<and> cs_removed_turn_ids c = [])"

definition turn_change_of_pending :: "pending_turn \<Rightarrow> turn_change" where
  "turn_change_of_pending t =
     \<lparr>tc_turn_id = pt_id t, tc_status = pt_status t, tc_error = pt_error t, tc_started_at = pt_started_at t,
      tc_completed_at = pt_completed_at t, tc_duration_ms = pt_duration_ms t\<rparr>"

definition turn_change_of_turn :: "turn \<Rightarrow> turn_change" where
  "turn_change_of_turn t =
     \<lparr>tc_turn_id = tn_id t, tc_status = tn_status t, tc_error = tn_error t, tc_started_at = tn_started_at t,
      tc_completed_at = tn_completed_at t, tc_duration_ms = tn_duration_ms t\<rparr>"

record thread_history_builder =
  hb_turns :: "turn list"
  hb_current_turn :: "pending_turn option"
  hb_next_item_index :: nat
  hb_current_rollout_index :: nat
  hb_next_rollout_index :: nat
  hb_active_change_set :: "change_set option"

definition history_new :: thread_history_builder where
  "history_new =
     \<lparr>hb_turns = [], hb_current_turn = None, hb_next_item_index = 1, hb_current_rollout_index = 0,
      hb_next_rollout_index = 0, hb_active_change_set = None\<rparr>"

definition history_reset :: "thread_history_builder \<Rightarrow> thread_history_builder" where
  "history_reset b = history_new"

section \<open>Recording changes\<close>

definition record_changed_item :: "rstr \<Rightarrow> thread_item \<Rightarrow> thread_history_builder \<Rightarrow> thread_history_builder" where
  "record_changed_item tid item b = b\<lparr>hb_active_change_set := map_option (\<lambda>c.
     c\<lparr>cs_changed_items := cs_changed_items c @ [\<lparr>ic_turn_id = tid, ic_item = item\<rparr>]\<rparr>) (hb_active_change_set b)\<rparr>"

definition record_changed_turn :: "turn_change \<Rightarrow> thread_history_builder \<Rightarrow> thread_history_builder" where
  "record_changed_turn t b = b\<lparr>hb_active_change_set := map_option (\<lambda>c.
     c\<lparr>cs_changed_turns := cs_changed_turns c @ [t]\<rparr>) (hb_active_change_set b)\<rparr>"

definition record_changed_pending_turn :: "pending_turn \<Rightarrow> thread_history_builder \<Rightarrow> thread_history_builder" where
  "record_changed_pending_turn t b = record_changed_turn (turn_change_of_pending t) b"

definition record_removed_turn_ids :: "rstr list \<Rightarrow> thread_history_builder \<Rightarrow> thread_history_builder" where
  "record_removed_turn_ids ids b = b\<lparr>hb_active_change_set := map_option (\<lambda>c.
     c\<lparr>cs_removed_turn_ids := cs_removed_turn_ids c @ ids\<rparr>) (hb_active_change_set b)\<rparr>"

section \<open>Turns and items\<close>

definition finish_current_turn :: "thread_history_builder \<Rightarrow> thread_history_builder" where
  "finish_current_turn b =
     (case hb_current_turn b of None \<Rightarrow> b
      | Some t \<Rightarrow>
          if pt_items t = [] \<and> \<not> pt_opened_explicitly t \<and> \<not> pt_saw_compaction t then b\<lparr>hb_current_turn := None\<rparr>
          else b\<lparr>hb_current_turn := None, hb_turns := hb_turns b @ [turn_of_pending t]\<rparr>)"

definition builder_finish :: "thread_history_builder \<Rightarrow> turn list" where
  "builder_finish b = hb_turns (finish_current_turn b)"

definition new_turn :: "rstr \<Rightarrow> rstr option \<Rightarrow> thread_history_builder \<Rightarrow> pending_turn" where
  "new_turn u id_opt b =
     \<lparr>pt_id = (case id_opt of Some i \<Rightarrow> i
        | None \<Rightarrow> if hb_next_rollout_index b = 0 then u else ''rollout-'' @ decimal (hb_current_rollout_index b)),
      pt_items = [], pt_error = None, pt_status = TurnCompleted, pt_started_at = None, pt_completed_at = None,
      pt_duration_ms = None, pt_opened_explicitly = False, pt_saw_compaction = False,
      pt_rollout_start_index = hb_current_rollout_index b\<rparr>"

definition ensure_turn :: "rstr \<Rightarrow> thread_history_builder \<Rightarrow> thread_history_builder" where
  "ensure_turn u b =
     (case hb_current_turn b of Some t \<Rightarrow> b
      | None \<Rightarrow> let t = new_turn u None b in (record_changed_pending_turn t b)\<lparr>hb_current_turn := Some t\<rparr>)"

text \<open>What a handler does to the turn \<open>ensure_turn\<close> returns; the second component is the turn's id.\<close>

definition update_current :: "(pending_turn \<Rightarrow> pending_turn) \<Rightarrow> thread_history_builder \<Rightarrow> thread_history_builder" where
  "update_current f b = b\<lparr>hb_current_turn := map_option f (hb_current_turn b)\<rparr>"

definition current_id :: "thread_history_builder \<Rightarrow> rstr" where
  "current_id b = (case hb_current_turn b of Some t \<Rightarrow> pt_id t | None \<Rightarrow> [])"

fun upsert_turn_item :: "thread_item list \<Rightarrow> thread_item \<Rightarrow> thread_item list" where
  "upsert_turn_item [] item = [item]"
| "upsert_turn_item (x # xs) item = (if item_id x = item_id item then item # xs else x # upsert_turn_item xs item)"

definition push_item_in_current_turn :: "rstr \<Rightarrow> thread_item \<Rightarrow> thread_history_builder \<Rightarrow> thread_history_builder" where
  "push_item_in_current_turn u item b =
     (let b1 = ensure_turn u b
      in record_changed_item (current_id b1) item
           (update_current (\<lambda>t. t\<lparr>pt_items := pt_items t @ [item]\<rparr>) b1))"

definition upsert_item_in_current_turn :: "rstr \<Rightarrow> thread_item \<Rightarrow> thread_history_builder \<Rightarrow> thread_history_builder" where
  "upsert_item_in_current_turn u item b =
     (let b1 = ensure_turn u b
      in record_changed_item (current_id b1) item
           (update_current (\<lambda>t. t\<lparr>pt_items := upsert_turn_item (pt_items t) item\<rparr>) b1))"

text \<open>\<open>iter_mut().find\<close>: the first turn with the id is changed.\<close>

fun update_turn :: "rstr \<Rightarrow> (turn \<Rightarrow> turn) \<Rightarrow> turn list \<Rightarrow> turn list" where
  "update_turn tid f [] = []"
| "update_turn tid f (t # ts) = (if tn_id t = tid then f t # ts else t # update_turn tid f ts)"

definition find_turn :: "rstr \<Rightarrow> turn list \<Rightarrow> turn option" where
  "find_turn tid ts = List.find (\<lambda>t. tn_id t = tid) ts"

definition current_matches :: "rstr \<Rightarrow> thread_history_builder \<Rightarrow> bool" where
  "current_matches tid b = (case hb_current_turn b of Some t \<Rightarrow> pt_id t = tid | None \<Rightarrow> False)"

definition upsert_item_in_turn_id :: "rstr \<Rightarrow> thread_item \<Rightarrow> thread_history_builder \<Rightarrow> thread_history_builder" where
  "upsert_item_in_turn_id tid item b =
     (if current_matches tid b then
        record_changed_item tid item
          (update_current (\<lambda>t. t\<lparr>pt_items := upsert_turn_item (pt_items t) item\<rparr>) b)
      else if find_turn tid (hb_turns b) \<noteq> None then
        record_changed_item tid item
          (b\<lparr>hb_turns := update_turn tid (\<lambda>t. t\<lparr>tn_items := upsert_turn_item (tn_items t) item\<rparr>) (hb_turns b)\<rparr>)
      else b)"

definition next_item_id :: "thread_history_builder \<Rightarrow> rstr" where
  "next_item_id b = ''item-'' @ decimal (hb_next_item_index b)"

definition take_item_id :: "thread_history_builder \<Rightarrow> thread_history_builder" where
  "take_item_id b = b\<lparr>hb_next_item_index := hb_next_item_index b + 1\<rparr>"

text \<open>Most handlers end in one of two calls, by whether the event names a turn.\<close>

definition upsert_item_routed :: "rstr \<Rightarrow> rstr \<Rightarrow> thread_item \<Rightarrow> thread_history_builder \<Rightarrow> thread_history_builder" where
  "upsert_item_routed u tid item b =
     (if tid = [] then upsert_item_in_current_turn u item b else upsert_item_in_turn_id tid item b)"

definition push_numbered_item :: "rstr \<Rightarrow> (rstr \<Rightarrow> thread_item) \<Rightarrow> thread_history_builder \<Rightarrow> thread_history_builder" where
  "push_numbered_item u mk b = push_item_in_current_turn u (mk (next_item_id b)) (take_item_id b)"

section \<open>Snapshots\<close>

definition active_turn_snapshot :: "thread_history_builder \<Rightarrow> turn option" where
  "active_turn_snapshot b =
     (case hb_current_turn b of Some t \<Rightarrow> Some (turn_of_pending t)
      | None \<Rightarrow> if hb_turns b = [] then None else Some (last (hb_turns b)))"

definition turn_snapshot :: "rstr \<Rightarrow> thread_history_builder \<Rightarrow> turn option" where
  "turn_snapshot tid b =
     (if current_matches tid b then map_option turn_of_pending (hb_current_turn b) else find_turn tid (hb_turns b))"

definition active_turn_position :: "thread_history_builder \<Rightarrow> nat option" where
  "active_turn_position b =
     (if hb_current_turn b \<noteq> None then Some (length (hb_turns b))
      else if hb_turns b = [] then None else Some (length (hb_turns b) - 1))"

definition has_active_turn :: "thread_history_builder \<Rightarrow> bool" where
  "has_active_turn b = (hb_current_turn b \<noteq> None)"

definition active_turn_id_if_explicit :: "thread_history_builder \<Rightarrow> rstr option" where
  "active_turn_id_if_explicit b =
     (case hb_current_turn b of Some t \<Rightarrow> if pt_opened_explicitly t then Some (pt_id t) else None | None \<Rightarrow> None)"

definition active_turn_start_index :: "thread_history_builder \<Rightarrow> nat option" where
  "active_turn_start_index b = map_option pt_rollout_start_index (hb_current_turn b)"

end
