(* ===== verification/Thread_Handlers.thy ===== *)
theory Thread_Handlers
  imports Thread_Builder
begin

text \<open>
  The handlers of \<open>ThreadHistoryBuilder\<close>, one per event, and the reducer that dispatches to them:
  \<open>handle_event\<close> for live events, \<open>handle_rollout_item\<close> for the lines of a rollout.
\<close>

section \<open>Messages\<close>

definition parse_hook_prompt_fragment :: "thread_api \<Rightarrow> rstr \<Rightarrow> hook_prompt_fragment option" where
  "parse_hook_prompt_fragment api t =
     (case api_from_xml api (trim t) of None \<Rightarrow> None
      | Some f \<Rightarrow> if trim (fragment_hook_run_id f) = [] then None else Some f)"

fun collect_fragments :: "thread_api \<Rightarrow> content_item list \<Rightarrow> hook_prompt_fragment list option" where
  "collect_fragments api [] = Some []"
| "collect_fragments api (ContentInputText t # cs) =
     (case parse_hook_prompt_fragment api t of None \<Rightarrow> None
      | Some f \<Rightarrow> map_option (Cons f) (collect_fragments api cs))"
| "collect_fragments api (_ # cs) = None"

definition hook_prompt_from_fragments :: "rstr \<Rightarrow> rstr option \<Rightarrow> hook_prompt_fragment list \<Rightarrow> hook_prompt_item" where
  "hook_prompt_from_fragments u id_opt fragments =
     \<lparr>hpi_id = (case id_opt of Some i \<Rightarrow> i | None \<Rightarrow> u), hpi_fragments = fragments\<rparr>"

definition parse_hook_prompt_message ::
    "thread_api \<Rightarrow> rstr \<Rightarrow> rstr option \<Rightarrow> content_item list \<Rightarrow> hook_prompt_item option" where
  "parse_hook_prompt_message api u id_opt content =
     (case collect_fragments api content of None \<Rightarrow> None
      | Some fragments \<Rightarrow> if fragments = [] then None else Some (hook_prompt_from_fragments u id_opt fragments))"

definition handle_response_item :: "thread_api \<Rightarrow> rstr \<Rightarrow> response_item \<Rightarrow> thread_history_builder \<Rightarrow> thread_history_builder" where
  "handle_response_item api u item b =
     (case item of
        Message id_opt role content _ _ \<Rightarrow>
          if role \<noteq> ''user'' then b
          else (case parse_hook_prompt_message api u id_opt content of None \<Rightarrow> b
                | Some hp \<Rightarrow> push_item_in_current_turn u (ItemHookPrompt (hpi_id hp) (hpi_fragments hp)) b)
      | _ \<Rightarrow> b)"

definition detail_at :: "image_detail option list \<Rightarrow> nat \<Rightarrow> image_detail option" where
  "detail_at ds i = (if i < length ds then ds ! i else None)"

definition build_user_inputs :: "user_message_event \<Rightarrow> user_input list" where
  "build_user_inputs p =
     (if trim (ume_message p) = [] then [] else [UserText (ume_message p) (ume_text_elements p)]) @
     (case ume_images p of None \<Rightarrow> []
      | Some images \<Rightarrow> map (\<lambda>(i, url). UserImage url (detail_at (ume_image_details p) i)) (enumerate 0 images)) @
     map (\<lambda>(i, path). UserLocalImage path (detail_at (ume_local_image_details p) i)) (enumerate 0 (ume_local_images p))"

definition handle_user_message :: "rstr \<Rightarrow> user_message_event \<Rightarrow> thread_history_builder \<Rightarrow> thread_history_builder" where
  "handle_user_message u p b =
     (let b1 = (case hb_current_turn b of
            Some t \<Rightarrow> if \<not> pt_opened_explicitly t \<and> \<not> (pt_saw_compaction t \<and> pt_items t = [])
              then finish_current_turn b else b
          | None \<Rightarrow> b)
      in push_numbered_item u (\<lambda>i. ItemUserMessage i (ume_client_id p) (build_user_inputs p)) b1)"

definition handle_agent_message ::
    "rstr \<Rightarrow> rstr \<Rightarrow> message_phase option \<Rightarrow> memory_citation option \<Rightarrow> thread_history_builder \<Rightarrow> thread_history_builder" where
  "handle_agent_message u t phase memory_citation b =
     (if t = [] then b else push_numbered_item u (\<lambda>i. ItemAgentMessage i t phase memory_citation) b)"

text \<open>
  Both reasoning handlers extend the last item of the turn when it is a reasoning item. The first
  component says whether it was.
\<close>

fun extend_reasoning :: "(rstr list \<Rightarrow> rstr list) \<Rightarrow> (rstr list \<Rightarrow> rstr list) \<Rightarrow> thread_item \<Rightarrow> thread_item option" where
  "extend_reasoning f g (ItemReasoning i summary content) = Some (ItemReasoning i (f summary) (g content))"
| "extend_reasoning f g _ = None"

definition extended_last :: "(rstr list \<Rightarrow> rstr list) \<Rightarrow> (rstr list \<Rightarrow> rstr list) \<Rightarrow> thread_item list \<Rightarrow> thread_item option" where
  "extended_last f g is = (if is = [] then None else extend_reasoning f g (last is))"

definition extend_last_reasoning :: "rstr \<Rightarrow> (rstr list \<Rightarrow> rstr list) \<Rightarrow> (rstr list \<Rightarrow> rstr list)
      \<Rightarrow> thread_history_builder \<Rightarrow> bool \<times> thread_history_builder" where
  "extend_last_reasoning u f g b =
     (let b1 = ensure_turn u b
      in case Option.bind (hb_current_turn b1) (\<lambda>t. extended_last f g (pt_items t)) of
           None \<Rightarrow> (False, b1)
         | Some item \<Rightarrow> (True, record_changed_item (current_id b1) item
             (update_current (\<lambda>t. t\<lparr>pt_items := butlast (pt_items t) @ [item]\<rparr>) b1)))"

definition handle_agent_reasoning :: "rstr \<Rightarrow> rstr \<Rightarrow> thread_history_builder \<Rightarrow> thread_history_builder" where
  "handle_agent_reasoning u t b =
     (if t = [] then b
      else case extend_last_reasoning u (\<lambda>s. s @ [t]) id b of
             (True, b1) \<Rightarrow> b1
           | (False, b1) \<Rightarrow> push_numbered_item u (\<lambda>i. ItemReasoning i [t] []) b1)"

definition handle_agent_reasoning_raw_content :: "rstr \<Rightarrow> rstr \<Rightarrow> thread_history_builder \<Rightarrow> thread_history_builder" where
  "handle_agent_reasoning_raw_content u t b =
     (if t = [] then b
      else case extend_last_reasoning u id (\<lambda>c. c @ [t]) b of
             (True, b1) \<Rightarrow> b1
           | (False, b1) \<Rightarrow> push_numbered_item u (\<lambda>i. ItemReasoning i [] [t]) b1)"

section \<open>Items\<close>

definition handle_item_started :: "item_started_event \<Rightarrow> thread_history_builder \<Rightarrow> thread_history_builder" where
  "handle_item_started p b =
     (case ise_item p of
        TurnPlan plan \<Rightarrow> if pli_text plan = [] then b
          else upsert_item_in_turn_id (ise_turn_id p) (thread_item_of_turn_item (ise_item p)) b
      | TurnSleep _ \<Rightarrow> upsert_item_in_turn_id (ise_turn_id p) (thread_item_of_turn_item (ise_item p)) b
      | _ \<Rightarrow> b)"

definition handle_item_completed :: "item_completed_event \<Rightarrow> thread_history_builder \<Rightarrow> thread_history_builder" where
  "handle_item_completed p b =
     (case ice_item p of
        TurnPlan plan \<Rightarrow> if pli_text plan = [] then b
          else upsert_item_in_turn_id (ice_turn_id p) (thread_item_of_turn_item (ice_item p)) b
      | TurnSleep _ \<Rightarrow> upsert_item_in_turn_id (ice_turn_id p) (thread_item_of_turn_item (ice_item p)) b
      | _ \<Rightarrow> b)"

definition handle_web_search_begin :: "rstr \<Rightarrow> rstr \<Rightarrow> thread_history_builder \<Rightarrow> thread_history_builder" where
  "handle_web_search_begin u call_id b = upsert_item_in_current_turn u (ItemWebSearch call_id [] None) b"

definition handle_web_search_end :: "rstr \<Rightarrow> web_search_end_event \<Rightarrow> thread_history_builder \<Rightarrow> thread_history_builder" where
  "handle_web_search_end u p b =
     upsert_item_in_current_turn u (ItemWebSearch (wse_call_id p) (wse_query p) (Some (wse_action p))) b"

definition handle_exec_command_begin :: "thread_api \<Rightarrow> exec_command_begin_event \<Rightarrow> thread_history_builder \<Rightarrow> thread_history_builder" where
  "handle_exec_command_begin api p b =
     upsert_item_in_turn_id (ecb_turn_id p) (build_command_execution_begin_item api p) b"

definition handle_exec_command_end :: "thread_api \<Rightarrow> exec_command_end_event \<Rightarrow> thread_history_builder \<Rightarrow> thread_history_builder" where
  "handle_exec_command_end api p b =
     upsert_item_in_turn_id (ece_turn_id p) (build_command_execution_end_item api p) b"

definition guardian_item_status :: "guardian_assessment_status \<Rightarrow> command_execution_status option" where
  "guardian_item_status s =
     (case s of GuardInProgress \<Rightarrow> Some CommandInProgress
      | GuardDenied \<Rightarrow> Some CommandDeclined | GuardAborted \<Rightarrow> Some CommandDeclined
      | GuardTimedOut \<Rightarrow> Some CommandFailed
      | GuardApproved \<Rightarrow> None)"

definition handle_guardian_assessment ::
    "thread_api \<Rightarrow> rstr \<Rightarrow> guardian_assessment_event \<Rightarrow> thread_history_builder \<Rightarrow> thread_history_builder" where
  "handle_guardian_assessment api u p b =
     (case guardian_item_status (gae_status p) of None \<Rightarrow> b
      | Some status \<Rightarrow>
          (case build_item_from_guardian_event api p status of None \<Rightarrow> b
           | Some item \<Rightarrow> upsert_item_routed u (gae_turn_id p) item b))"

definition handle_apply_patch_approval_request ::
    "rstr \<Rightarrow> apply_patch_approval_request_event \<Rightarrow> thread_history_builder \<Rightarrow> thread_history_builder" where
  "handle_apply_patch_approval_request u p b =
     upsert_item_routed u (apr_turn_id p) (build_file_change_approval_request_item p) b"

definition handle_patch_apply_begin :: "rstr \<Rightarrow> patch_apply_begin_event \<Rightarrow> thread_history_builder \<Rightarrow> thread_history_builder" where
  "handle_patch_apply_begin u p b = upsert_item_routed u (pab_turn_id p) (build_file_change_begin_item p) b"

definition handle_patch_apply_end :: "rstr \<Rightarrow> patch_apply_end_event \<Rightarrow> thread_history_builder \<Rightarrow> thread_history_builder" where
  "handle_patch_apply_end u p b = upsert_item_routed u (pae_turn_id p) (build_file_change_end_item p) b"

definition handle_dynamic_tool_call_request ::
    "rstr \<Rightarrow> dynamic_tool_call_request \<Rightarrow> thread_history_builder \<Rightarrow> thread_history_builder" where
  "handle_dynamic_tool_call_request u p b =
     upsert_item_routed u (dtr_turn_id p)
       (ItemDynamicToolCall (dtr_call_id p) (dtr_namespace p) (dtr_tool p) (dtr_arguments p) DynamicInProgress None None None) b"

definition handle_dynamic_tool_call_response ::
    "rstr \<Rightarrow> dynamic_tool_call_response_event \<Rightarrow> thread_history_builder \<Rightarrow> thread_history_builder" where
  "handle_dynamic_tool_call_response u p b =
     upsert_item_routed u (dte_turn_id p)
       (ItemDynamicToolCall (dte_call_id p) (dte_namespace p) (dte_tool p) (dte_arguments p)
          (if dte_success p then DynamicCompleted else DynamicFailed) (Some (dte_content_items p))
          (Some (dte_success p)) (duration_ms (dte_duration p))) b"

definition handle_mcp_tool_call_begin :: "rstr \<Rightarrow> mcp_tool_call_begin_event \<Rightarrow> thread_history_builder \<Rightarrow> thread_history_builder" where
  "handle_mcp_tool_call_begin u p b =
     upsert_item_in_current_turn u
       (ItemMcpToolCall (mcb_call_id p) (inv_server (mcb_invocation p)) (inv_tool (mcb_invocation p)) McpInProgress
          (case inv_arguments (mcb_invocation p) of Some a \<Rightarrow> a | None \<Rightarrow> JNull)
          (app_context_of (mcb_connector_id p) (mcb_link_id p) (mcb_app_resource_uri p))
          (mcb_app_resource_uri p) (mcb_plugin_id p) None None None) b"

definition handle_mcp_tool_call_end :: "rstr \<Rightarrow> mcp_tool_call_end_event \<Rightarrow> thread_history_builder \<Rightarrow> thread_history_builder" where
  "handle_mcp_tool_call_end u p b =
     upsert_item_in_current_turn u
       (ItemMcpToolCall (mce_call_id p) (inv_server (mce_invocation p)) (inv_tool (mce_invocation p))
          (if mcp_is_success p then McpCompleted else McpFailed)
          (case inv_arguments (mce_invocation p) of Some a \<Rightarrow> a | None \<Rightarrow> JNull)
          (app_context_of (mce_connector_id p) (mce_link_id p) (mce_app_resource_uri p))
          (mce_app_resource_uri p) (mce_plugin_id p)
          (case mce_result p of Ok v \<Rightarrow> Some (mcp_result_of v) | Err _ \<Rightarrow> None)
          (case mce_result p of Ok _ \<Rightarrow> None | Err m \<Rightarrow> Some m)
          (duration_ms (mce_duration p))) b"

definition handle_view_image_tool_call :: "rstr \<Rightarrow> view_image_event \<Rightarrow> thread_history_builder \<Rightarrow> thread_history_builder" where
  "handle_view_image_tool_call u p b = upsert_item_in_current_turn u (ItemImageView (vie_call_id p) (vie_path p)) b"

definition handle_image_generation_begin :: "rstr \<Rightarrow> rstr \<Rightarrow> thread_history_builder \<Rightarrow> thread_history_builder" where
  "handle_image_generation_begin u call_id b =
     upsert_item_in_current_turn u (ItemImageGeneration call_id [] None [] None) b"

definition handle_image_generation_end :: "rstr \<Rightarrow> image_generation_end_event \<Rightarrow> thread_history_builder \<Rightarrow> thread_history_builder" where
  "handle_image_generation_end u p b =
     upsert_item_in_current_turn u
       (ItemImageGeneration (ige_call_id p) (ige_status p) (ige_revised_prompt p) (ige_result p) (ige_saved_path p)) b"


section \<open>Agents\<close>

definition agent_status_failed :: "agent_status \<Rightarrow> bool" where
  "agent_status_failed s = (case s of AgentErrored _ \<Rightarrow> True | AgentNotFound \<Rightarrow> True | _ \<Rightarrow> False)"

definition collab_end_status :: "agent_status \<Rightarrow> collab_call_status" where
  "collab_end_status s = (if agent_status_failed s then CollabFailed else CollabCompleted)"

definition handle_collab_agent_spawn_begin :: "rstr \<Rightarrow> collab_spawn_begin_event \<Rightarrow> thread_history_builder \<Rightarrow> thread_history_builder" where
  "handle_collab_agent_spawn_begin u p b =
     upsert_item_in_current_turn u
       (ItemCollabAgentToolCall (csb_call_id p) SpawnAgent CollabInProgress (csb_sender_thread_id p) []
          (Some (csb_prompt p)) (Some (csb_model p)) (Some (csb_reasoning_effort p)) []) b"

definition handle_collab_agent_spawn_end :: "rstr \<Rightarrow> collab_spawn_end_event \<Rightarrow> thread_history_builder \<Rightarrow> thread_history_builder" where
  "handle_collab_agent_spawn_end u p b =
     upsert_item_in_current_turn u
       (ItemCollabAgentToolCall (cse_call_id p) SpawnAgent
          (if agent_status_failed (cse_status p) then CollabFailed
           else if cse_new_thread_id p \<noteq> None then CollabCompleted else CollabFailed)
          (cse_sender_thread_id p)
          (case cse_new_thread_id p of Some i \<Rightarrow> [i] | None \<Rightarrow> [])
          (Some (cse_prompt p)) (Some (cse_model p)) (Some (cse_reasoning_effort p))
          (case cse_new_thread_id p of Some i \<Rightarrow> [(i, agent_state_of (cse_status p))] | None \<Rightarrow> [])) b"

definition handle_collab_agent_interaction_begin ::
    "rstr \<Rightarrow> collab_interaction_begin_event \<Rightarrow> thread_history_builder \<Rightarrow> thread_history_builder" where
  "handle_collab_agent_interaction_begin u p b =
     upsert_item_in_current_turn u
       (ItemCollabAgentToolCall (cib_call_id p) SendInput CollabInProgress (cib_sender_thread_id p)
          [cib_receiver_thread_id p] (Some (cib_prompt p)) None None []) b"

definition handle_collab_agent_interaction_end ::
    "rstr \<Rightarrow> collab_interaction_end_event \<Rightarrow> thread_history_builder \<Rightarrow> thread_history_builder" where
  "handle_collab_agent_interaction_end u p b =
     upsert_item_in_current_turn u
       (ItemCollabAgentToolCall (cie_call_id p) SendInput (collab_end_status (cie_status p)) (cie_sender_thread_id p)
          [cie_receiver_thread_id p] (Some (cie_prompt p)) None None
          [(cie_receiver_thread_id p, agent_state_of (cie_status p))]) b"

definition handle_sub_agent_activity :: "rstr \<Rightarrow> sub_agent_activity_event \<Rightarrow> thread_history_builder \<Rightarrow> thread_history_builder" where
  "handle_sub_agent_activity u p b =
     upsert_item_in_current_turn u
       (ItemSubAgentActivity (sae_event_id p) (sae_kind p) (sae_agent_thread_id p) (sae_agent_path p)) b"

definition handle_collab_waiting_begin :: "rstr \<Rightarrow> collab_waiting_begin_event \<Rightarrow> thread_history_builder \<Rightarrow> thread_history_builder" where
  "handle_collab_waiting_begin u p b =
     upsert_item_in_current_turn u
       (ItemCollabAgentToolCall (cwb_call_id p) WaitAgents CollabInProgress (cwb_sender_thread_id p)
          (cwb_receiver_thread_ids p) None None None []) b"

definition handle_collab_waiting_end :: "rstr \<Rightarrow> collab_waiting_end_event \<Rightarrow> thread_history_builder \<Rightarrow> thread_history_builder" where
  "handle_collab_waiting_end u p b =
     upsert_item_in_current_turn u
       (ItemCollabAgentToolCall (cwe_call_id p) WaitAgents
          (if list_ex agent_status_failed (map snd (cwe_statuses p)) then CollabFailed else CollabCompleted)
          (cwe_sender_thread_id p) (sort (map fst (cwe_statuses p))) None None None
          (map (\<lambda>(i, s). (i, agent_state_of s)) (cwe_statuses p))) b"

definition handle_collab_close_begin :: "rstr \<Rightarrow> collab_close_begin_event \<Rightarrow> thread_history_builder \<Rightarrow> thread_history_builder" where
  "handle_collab_close_begin u p b =
     upsert_item_in_current_turn u
       (ItemCollabAgentToolCall (ccb_call_id p) CloseAgent CollabInProgress (ccb_sender_thread_id p)
          [ccb_receiver_thread_id p] None None None []) b"

definition handle_collab_close_end :: "rstr \<Rightarrow> collab_close_end_event \<Rightarrow> thread_history_builder \<Rightarrow> thread_history_builder" where
  "handle_collab_close_end u p b =
     upsert_item_in_current_turn u
       (ItemCollabAgentToolCall (cce_call_id p) CloseAgent (collab_end_status (cce_status p)) (cce_sender_thread_id p)
          [cce_receiver_thread_id p] None None None [(cce_receiver_thread_id p, agent_state_of (cce_status p))]) b"

definition handle_collab_resume_begin :: "rstr \<Rightarrow> collab_resume_begin_event \<Rightarrow> thread_history_builder \<Rightarrow> thread_history_builder" where
  "handle_collab_resume_begin u p b =
     upsert_item_in_current_turn u
       (ItemCollabAgentToolCall (crb_call_id p) ResumeAgent CollabInProgress (crb_sender_thread_id p)
          [crb_receiver_thread_id p] None None None []) b"

definition handle_collab_resume_end :: "rstr \<Rightarrow> collab_resume_end_event \<Rightarrow> thread_history_builder \<Rightarrow> thread_history_builder" where
  "handle_collab_resume_end u p b =
     upsert_item_in_current_turn u
       (ItemCollabAgentToolCall (cre_call_id p) ResumeAgent (collab_end_status (cre_status p)) (cre_sender_thread_id p)
          [cre_receiver_thread_id p] None None None [(cre_receiver_thread_id p, agent_state_of (cre_status p))]) b"

section \<open>Reviews, compaction and errors\<close>

definition handle_context_compacted :: "rstr \<Rightarrow> thread_history_builder \<Rightarrow> thread_history_builder" where
  "handle_context_compacted u b = push_numbered_item u ItemContextCompaction b"

definition handle_entered_review_mode :: "rstr \<Rightarrow> review_request \<Rightarrow> thread_history_builder \<Rightarrow> thread_history_builder" where
  "handle_entered_review_mode u p b =
     push_numbered_item u (\<lambda>i. ItemEnteredReviewMode i
       (case rrq_user_facing_hint p of Some h \<Rightarrow> h | None \<Rightarrow> ''Review requested.'')) b"

definition REVIEW_FALLBACK_MESSAGE :: rstr where
  "REVIEW_FALLBACK_MESSAGE = ''Reviewer failed to output a response.''"

definition render_review_output_text :: "review_output_event \<Rightarrow> rstr" where
  "render_review_output_text r =
     (let explanation = trim (roe_overall_explanation r)
      in if explanation = [] then REVIEW_FALLBACK_MESSAGE else explanation)"

definition handle_exited_review_mode :: "rstr \<Rightarrow> review_output_event option \<Rightarrow> thread_history_builder \<Rightarrow> thread_history_builder" where
  "handle_exited_review_mode u out b =
     push_numbered_item u (\<lambda>i. ItemExitedReviewMode i
       (case out of Some r \<Rightarrow> render_review_output_text r | None \<Rightarrow> REVIEW_FALLBACK_MESSAGE)) b"

definition handle_error :: "error_event \<Rightarrow> thread_history_builder \<Rightarrow> thread_history_builder" where
  "handle_error p b =
     (if \<not> affects_turn_status p then b
      else case hb_current_turn b of None \<Rightarrow> b
        | Some t \<Rightarrow>
            (let t' = t\<lparr>pt_status := TurnFailed, pt_error := Some \<lparr>te_message = err_message p,
                 te_codex_error_info = err_codex_error_info p, te_additional_details = None\<rparr>\<rparr>
             in record_changed_turn (turn_change_of_pending t') (b\<lparr>hb_current_turn := Some t'\<rparr>)))"

section \<open>Turns\<close>

definition apply_abort :: "turn_aborted_event \<Rightarrow> pending_turn \<Rightarrow> pending_turn" where
  "apply_abort p t =
     t\<lparr>pt_status := TurnInterrupted, pt_completed_at := tae_completed_at p, pt_duration_ms := tae_duration_ms p\<rparr>"

definition apply_abort_finished :: "turn_aborted_event \<Rightarrow> turn \<Rightarrow> turn" where
  "apply_abort_finished p t =
     t\<lparr>tn_status := TurnInterrupted, tn_completed_at := tae_completed_at p, tn_duration_ms := tae_duration_ms p\<rparr>"

definition change_current :: "(pending_turn \<Rightarrow> pending_turn) \<Rightarrow> thread_history_builder \<Rightarrow> thread_history_builder" where
  "change_current f b =
     (case hb_current_turn b of None \<Rightarrow> b
      | Some t \<Rightarrow> record_changed_turn (turn_change_of_pending (f t)) (b\<lparr>hb_current_turn := Some (f t)\<rparr>))"

definition change_finished :: "rstr \<Rightarrow> (turn \<Rightarrow> turn) \<Rightarrow> thread_history_builder \<Rightarrow> thread_history_builder" where
  "change_finished tid f b =
     (case find_turn tid (hb_turns b) of None \<Rightarrow> b
      | Some t \<Rightarrow> record_changed_turn (turn_change_of_turn (f t)) (b\<lparr>hb_turns := update_turn tid f (hb_turns b)\<rparr>))"

definition handle_turn_aborted :: "turn_aborted_event \<Rightarrow> thread_history_builder \<Rightarrow> thread_history_builder" where
  "handle_turn_aborted p b =
     (case tae_turn_id p of
        Some tid \<Rightarrow>
          if current_matches tid b then change_current (apply_abort p) b
          else if find_turn tid (hb_turns b) \<noteq> None then change_finished tid (apply_abort_finished p) b
          else change_current (apply_abort p) b
      | None \<Rightarrow> change_current (apply_abort p) b)"

definition handle_turn_started :: "rstr \<Rightarrow> turn_started_event \<Rightarrow> thread_history_builder \<Rightarrow> thread_history_builder" where
  "handle_turn_started u p b =
     (let b1 = finish_current_turn b;
          t = (new_turn u (Some (tse_turn_id p)) b1)
                \<lparr>pt_status := TurnInProgress, pt_started_at := tse_started_at p, pt_opened_explicitly := True\<rparr>
      in (record_changed_pending_turn t b1)\<lparr>hb_current_turn := Some t\<rparr>)"

definition completed_status :: "turn_status \<Rightarrow> turn_status" where
  "completed_status s = (if s = TurnCompleted \<or> s = TurnInProgress then TurnCompleted else s)"

definition mark_completed :: "turn_complete_event \<Rightarrow> pending_turn \<Rightarrow> pending_turn" where
  "mark_completed p t =
     t\<lparr>pt_status := completed_status (pt_status t), pt_completed_at := tce_completed_at p,
       pt_duration_ms := tce_duration_ms p\<rparr>"

definition mark_completed_finished :: "turn_complete_event \<Rightarrow> turn \<Rightarrow> turn" where
  "mark_completed_finished p t =
     t\<lparr>tn_status := completed_status (tn_status t), tn_completed_at := tce_completed_at p,
       tn_duration_ms := tce_duration_ms p\<rparr>"

definition handle_turn_complete :: "turn_complete_event \<Rightarrow> thread_history_builder \<Rightarrow> thread_history_builder" where
  "handle_turn_complete p b =
     (if current_matches (tce_turn_id p) b then finish_current_turn (change_current (mark_completed p) b)
      else if find_turn (tce_turn_id p) (hb_turns b) \<noteq> None then
        change_finished (tce_turn_id p) (mark_completed_finished p) b
      else if hb_current_turn b \<noteq> None then finish_current_turn (change_current (mark_completed p) b)
      else b)"

definition handle_compacted :: "rstr \<Rightarrow> thread_history_builder \<Rightarrow> thread_history_builder" where
  "handle_compacted u b = update_current (\<lambda>t. t\<lparr>pt_saw_compaction := True\<rparr>) (ensure_turn u b)"

text \<open>The count of the items left, plus one, as an \<open>i64\<close>; the equation for evaluation leaves the bounds alone.\<close>

definition item_index_after :: "nat \<Rightarrow> nat" where
  "item_index_after item_count = min i64_max (saturating_add item_count 1)"

lemma item_index_after_code [code]:
  "item_index_after n = (if n < 1000 then Suc n else min i64_max (saturating_add n 1))"
  by (simp add: item_index_after_def saturating_add_def i64_max_def usize_max_def)

definition handle_thread_rollback :: "nat \<Rightarrow> thread_history_builder \<Rightarrow> thread_history_builder" where
  "handle_thread_rollback n b =
     (let b1 = finish_current_turn b;
          len = length (hb_turns b1);
          removed = (if n \<ge> len then map tn_id (hb_turns b1) else if n = 0 then []
            else map tn_id (drop (len - n) (hb_turns b1)));
          b2 = record_removed_turn_ids removed b1;
          b3 = (if n \<ge> len then b2\<lparr>hb_turns := []\<rparr> else b2\<lparr>hb_turns := take (len - n) (hb_turns b2)\<rparr>);
          item_count = sum_list (map (\<lambda>t. length (tn_items t)) (hb_turns b3))
      in b3\<lparr>hb_next_item_index := item_index_after item_count\<rparr>)"

section \<open>The reducer\<close>

fun handle_event :: "thread_api \<Rightarrow> rstr \<Rightarrow> event_msg \<Rightarrow> thread_history_builder \<Rightarrow> thread_history_builder" where
  "handle_event api u (EvUserMessage p) b = handle_user_message u p b"
| "handle_event api u (EvAgentMessage p) b = handle_agent_message u (ame_message p) (ame_phase p) (ame_memory_citation p) b"
| "handle_event api u (EvAgentReasoning t) b = handle_agent_reasoning u t b"
| "handle_event api u (EvAgentReasoningRawContent t) b = handle_agent_reasoning_raw_content u t b"
| "handle_event api u (EvWebSearchBegin i) b = handle_web_search_begin u i b"
| "handle_event api u (EvWebSearchEnd p) b = handle_web_search_end u p b"
| "handle_event api u (EvExecCommandBegin p) b = handle_exec_command_begin api p b"
| "handle_event api u (EvExecCommandEnd p) b = handle_exec_command_end api p b"
| "handle_event api u (EvGuardianAssessment p) b = handle_guardian_assessment api u p b"
| "handle_event api u (EvApplyPatchApprovalRequest p) b = handle_apply_patch_approval_request u p b"
| "handle_event api u (EvPatchApplyBegin p) b = handle_patch_apply_begin u p b"
| "handle_event api u (EvPatchApplyEnd p) b = handle_patch_apply_end u p b"
| "handle_event api u (EvDynamicToolCallRequest p) b = handle_dynamic_tool_call_request u p b"
| "handle_event api u (EvDynamicToolCallResponse p) b = handle_dynamic_tool_call_response u p b"
| "handle_event api u (EvMcpToolCallBegin p) b = handle_mcp_tool_call_begin u p b"
| "handle_event api u (EvMcpToolCallEnd p) b = handle_mcp_tool_call_end u p b"
| "handle_event api u (EvViewImageToolCall p) b = handle_view_image_tool_call u p b"
| "handle_event api u (EvImageGenerationBegin i) b = handle_image_generation_begin u i b"
| "handle_event api u (EvImageGenerationEnd p) b = handle_image_generation_end u p b"
| "handle_event api u (EvCollabAgentSpawnBegin p) b = handle_collab_agent_spawn_begin u p b"
| "handle_event api u (EvCollabAgentSpawnEnd p) b = handle_collab_agent_spawn_end u p b"
| "handle_event api u (EvCollabAgentInteractionBegin p) b = handle_collab_agent_interaction_begin u p b"
| "handle_event api u (EvCollabAgentInteractionEnd p) b = handle_collab_agent_interaction_end u p b"
| "handle_event api u (EvSubAgentActivity p) b = handle_sub_agent_activity u p b"
| "handle_event api u (EvCollabWaitingBegin p) b = handle_collab_waiting_begin u p b"
| "handle_event api u (EvCollabWaitingEnd p) b = handle_collab_waiting_end u p b"
| "handle_event api u (EvCollabCloseBegin p) b = handle_collab_close_begin u p b"
| "handle_event api u (EvCollabCloseEnd p) b = handle_collab_close_end u p b"
| "handle_event api u (EvCollabResumeBegin p) b = handle_collab_resume_begin u p b"
| "handle_event api u (EvCollabResumeEnd p) b = handle_collab_resume_end u p b"
| "handle_event api u EvContextCompacted b = handle_context_compacted u b"
| "handle_event api u (EvEnteredReviewMode p) b = handle_entered_review_mode u p b"
| "handle_event api u (EvExitedReviewMode p) b = handle_exited_review_mode u p b"
| "handle_event api u (EvItemStarted p) b = handle_item_started p b"
| "handle_event api u (EvItemCompleted p) b = handle_item_completed p b"
| "handle_event api u EvHookStarted b = b"
| "handle_event api u EvHookCompleted b = b"
| "handle_event api u (EvError p) b = handle_error p b"
| "handle_event api u EvTokenCount b = b"
| "handle_event api u (EvThreadRolledBack n) b = handle_thread_rollback n b"
| "handle_event api u (EvTurnAborted p) b = handle_turn_aborted p b"
| "handle_event api u (EvTurnStarted p) b = handle_turn_started u p b"
| "handle_event api u (EvTurnComplete p) b = handle_turn_complete p b"
| "handle_event api u EvThreadGoalUpdated b = b"
| "handle_event api u EvOther b = b"

definition next_rollout_item :: "thread_history_builder \<Rightarrow> thread_history_builder" where
  "next_rollout_item b =
     b\<lparr>hb_current_rollout_index := hb_next_rollout_index b, hb_next_rollout_index := hb_next_rollout_index b + 1\<rparr>"

definition handle_rollout_item :: "thread_api \<Rightarrow> rstr \<Rightarrow> rollout_item \<Rightarrow> thread_history_builder \<Rightarrow> thread_history_builder" where
  "handle_rollout_item api u item b =
     (let b1 = next_rollout_item b
      in case item of
           RolloutEvent event \<Rightarrow> handle_event api u event b1
         | RolloutCompacted _ \<Rightarrow> handle_compacted u b1
         | RolloutResponseItem ri \<Rightarrow> handle_response_item api u ri b1
         | RolloutInterAgent _ \<Rightarrow> b1
         | RolloutTurnContext \<Rightarrow> b1
         | RolloutSessionMeta \<Rightarrow> b1)"

text \<open>The lines of a rollout, each with the UUID drawn while it is handled.\<close>

fun handle_rollout_items :: "thread_api \<Rightarrow> (rstr \<times> rollout_item) list \<Rightarrow> thread_history_builder \<Rightarrow> thread_history_builder" where
  "handle_rollout_items api [] b = b"
| "handle_rollout_items api ((u, item) # items) b = handle_rollout_items api items (handle_rollout_item api u item b)"

definition build_turns_from_rollout_items :: "thread_api \<Rightarrow> (rstr \<times> rollout_item) list \<Rightarrow> turn list" where
  "build_turns_from_rollout_items api items = builder_finish (handle_rollout_items api items history_new)"

section \<open>Handling with changes\<close>

definition collect_changes ::
    "(thread_history_builder \<Rightarrow> thread_history_builder) \<Rightarrow> thread_history_builder \<Rightarrow> thread_history_builder \<times> change_set" where
  "collect_changes handle b =
     (let b1 = handle (b\<lparr>hb_active_change_set := Some empty_change_set\<rparr>)
      in (b1\<lparr>hb_active_change_set := None\<rparr>,
          case hb_active_change_set b1 of Some c \<Rightarrow> c | None \<Rightarrow> empty_change_set))"

definition handle_event_with_changes ::
    "thread_api \<Rightarrow> rstr \<Rightarrow> event_msg \<Rightarrow> thread_history_builder \<Rightarrow> thread_history_builder \<times> change_set" where
  "handle_event_with_changes api u event b = collect_changes (handle_event api u event) b"

definition handle_rollout_item_with_changes ::
    "thread_api \<Rightarrow> rstr \<Rightarrow> rollout_item \<Rightarrow> thread_history_builder \<Rightarrow> thread_history_builder \<times> change_set" where
  "handle_rollout_item_with_changes api u item b = collect_changes (handle_rollout_item api u item) b"

end
