(* ===== verification/Thread_Changes.thy ===== *)
theory Thread_Changes
  imports Thread_Handlers "HOL-Library.AList"
begin

text \<open>
  Change sets of the thread history: \<open>ThreadHistoryChangeAccumulator\<close>, which joins the changes of a
  batch of rollout lines, and what a reader of change sets relies on. A reader keeps a \<open>projection\<close>, the
  turns and the items by their ids, and applies change sets to it: turns that are removed go with
  their items, then items and turns are added or replaced. Applying the joined change set gives
  what applying the changes one after the other gives.
\<close>

section \<open>The accumulator\<close>

type_synonym item_key = "rstr \<times> rstr"

record change_accumulator =
  acc_changed_items :: "item_change option list"
  acc_changed_item_indexes :: "(item_key \<times> nat) list"
  acc_changed_turns :: "turn_change option list"
  acc_changed_turn_indexes :: "(rstr \<times> nat) list"
  acc_removed_turn_ids :: "rstr list"
  acc_removed_turn_indexes :: "(rstr \<times> nat) list"

definition accumulator_new :: change_accumulator where
  "accumulator_new =
     \<lparr>acc_changed_items = [], acc_changed_item_indexes = [], acc_changed_turns = [],
      acc_changed_turn_indexes = [], acc_removed_turn_ids = [], acc_removed_turn_indexes = []\<rparr>"

definition item_key_of :: "item_change \<Rightarrow> item_key" where
  "item_key_of c = (ic_turn_id c, item_id (ic_item c))"

definition push_item_change :: "item_change \<Rightarrow> change_accumulator \<Rightarrow> change_accumulator" where
  "push_item_change c acc =
     (case map_of (acc_changed_item_indexes acc) (item_key_of c) of
        Some i \<Rightarrow> acc\<lparr>acc_changed_items := (acc_changed_items acc)[i := Some c]\<rparr>
      | None \<Rightarrow> acc\<lparr>acc_changed_item_indexes :=
            (item_key_of c, length (acc_changed_items acc)) # acc_changed_item_indexes acc,
          acc_changed_items := acc_changed_items acc @ [Some c]\<rparr>)"

definition push_turn_change :: "turn_change \<Rightarrow> change_accumulator \<Rightarrow> change_accumulator" where
  "push_turn_change c acc =
     (case map_of (acc_changed_turn_indexes acc) (tc_turn_id c) of
        Some i \<Rightarrow> acc\<lparr>acc_changed_turns := (acc_changed_turns acc)[i := Some c]\<rparr>
      | None \<Rightarrow> acc\<lparr>acc_changed_turn_indexes :=
            (tc_turn_id c, length (acc_changed_turns acc)) # acc_changed_turn_indexes acc,
          acc_changed_turns := acc_changed_turns acc @ [Some c]\<rparr>)"

text \<open>Removing the keys of a turn clears their slots; the order of the keys does not matter.\<close>

fun clear_slots :: "('k \<times> nat) list \<Rightarrow> 'a option list \<Rightarrow> 'a option list" where
  "clear_slots [] slots = slots"
| "clear_slots ((k, i) # kis) slots = clear_slots kis (slots[i := None])"

definition push_removed_turn_id :: "rstr \<Rightarrow> change_accumulator \<Rightarrow> change_accumulator" where
  "push_removed_turn_id tid acc =
     (let acc1 = (if tid \<in> fst ` set (acc_removed_turn_indexes acc) then acc
          else acc\<lparr>acc_removed_turn_indexes := (tid, length (acc_removed_turn_ids acc)) # acc_removed_turn_indexes acc,
                   acc_removed_turn_ids := acc_removed_turn_ids acc @ [tid]\<rparr>);
          acc2 = (case map_of (acc_changed_turn_indexes acc1) tid of None \<Rightarrow> acc1
            | Some i \<Rightarrow> acc1\<lparr>acc_changed_turn_indexes := filter (\<lambda>(k, _). k \<noteq> tid) (acc_changed_turn_indexes acc1),
                acc_changed_turns := (acc_changed_turns acc1)[i := None]\<rparr>);
          removed_item_keys = filter (\<lambda>(k, _). fst k = tid) (acc_changed_item_indexes acc2)
      in acc2\<lparr>acc_changed_item_indexes := filter (\<lambda>(k, _). fst k \<noteq> tid) (acc_changed_item_indexes acc2),
              acc_changed_items := clear_slots removed_item_keys (acc_changed_items acc2)\<rparr>)"

definition accumulator_push :: "change_set \<Rightarrow> change_accumulator \<Rightarrow> change_accumulator" where
  "accumulator_push c acc =
     fold push_turn_change (cs_changed_turns c)
       (fold push_item_change (cs_changed_items c)
         (fold push_removed_turn_id (cs_removed_turn_ids c) acc))"

definition flatten_slots :: "'a option list \<Rightarrow> 'a list" where
  "flatten_slots slots = List.map_filter id slots"

definition accumulator_finish :: "change_accumulator \<Rightarrow> change_set" where
  "accumulator_finish acc =
     \<lparr>cs_changed_items = flatten_slots (acc_changed_items acc),
      cs_changed_turns = flatten_slots (acc_changed_turns acc),
      cs_removed_turn_ids = acc_removed_turn_ids acc\<rparr>"

fun accumulate_rollout_items :: "thread_api \<Rightarrow> (rstr \<times> rollout_item) list \<Rightarrow> thread_history_builder
      \<Rightarrow> change_accumulator \<Rightarrow> thread_history_builder \<times> change_accumulator" where
  "accumulate_rollout_items api [] b acc = (b, acc)"
| "accumulate_rollout_items api ((u, item) # items) b acc =
     (case handle_rollout_item_with_changes api u item b of
        (b', c) \<Rightarrow> accumulate_rollout_items api items b' (accumulator_push c acc))"

definition handle_rollout_items_with_changes ::
    "thread_api \<Rightarrow> (rstr \<times> rollout_item) list \<Rightarrow> thread_history_builder \<Rightarrow> thread_history_builder \<times> change_set" where
  "handle_rollout_items_with_changes api items b =
     (case accumulate_rollout_items api items b accumulator_new of
        (b', acc) \<Rightarrow> (b', accumulator_finish acc))"

section \<open>Projections\<close>

record projection =
  proj_turns :: "(rstr \<times> turn_change) list"
  proj_items :: "(item_key \<times> item_change) list"

definition upsert_items :: "item_change list \<Rightarrow> (item_key \<times> item_change) list \<Rightarrow> (item_key \<times> item_change) list" where
  "upsert_items cs m = fold (\<lambda>c. AList.update (item_key_of c) c) cs m"

definition upsert_turns :: "turn_change list \<Rightarrow> (rstr \<times> turn_change) list \<Rightarrow> (rstr \<times> turn_change) list" where
  "upsert_turns cs m = fold (\<lambda>c. AList.update (tc_turn_id c) c) cs m"

definition remove_turns :: "rstr list \<Rightarrow> projection \<Rightarrow> projection" where
  "remove_turns ids v =
     \<lparr>proj_turns = filter (\<lambda>(k, _). k \<notin> set ids) (proj_turns v),
      proj_items = filter (\<lambda>(k, _). fst k \<notin> set ids) (proj_items v)\<rparr>"

definition apply_changes :: "change_set \<Rightarrow> projection \<Rightarrow> projection" where
  "apply_changes c v =
     (let v1 = remove_turns (cs_removed_turn_ids c) v
      in \<lparr>proj_turns = upsert_turns (cs_changed_turns c) (proj_turns v1),
          proj_items = upsert_items (cs_changed_items c) (proj_items v1)\<rparr>)"

text \<open>What a reader shows: the turns in order, each with its items.\<close>

definition projected_items :: "projection \<Rightarrow> rstr \<Rightarrow> thread_item list" where
  "projected_items v tid = map (\<lambda>(_, c). ic_item c) (filter (\<lambda>(k, _). fst k = tid) (proj_items v))"

definition projected_turn :: "projection \<Rightarrow> turn_change \<Rightarrow> turn" where
  "projected_turn v c =
     \<lparr>tn_id = tc_turn_id c, tn_items = projected_items v (tc_turn_id c), tn_items_view = ViewFull,
      tn_status = tc_status c, tn_error = tc_error c, tn_started_at = tc_started_at c,
      tn_completed_at = tc_completed_at c, tn_duration_ms = tc_duration_ms c\<rparr>"

definition projected_turns :: "projection \<Rightarrow> turn list" where
  "projected_turns v = map (\<lambda>(_, c). projected_turn v c) (proj_turns v)"

definition empty_projection :: projection where
  "empty_projection = \<lparr>proj_turns = [], proj_items = []\<rparr>"

section \<open>Slots as an association list\<close>

text \<open>
  The vector of slots with its hash map is an association list whose positions are kept: every
  filled slot is the slot of its key.
\<close>

definition slots_ok :: "('a \<Rightarrow> 'k) \<Rightarrow> ('k \<times> nat) list \<Rightarrow> 'a option list \<Rightarrow> bool" where
  "slots_ok key idx slots = (distinct (map fst idx) \<and>
     (\<forall>k i. (k, i) \<in> set idx \<longleftrightarrow> (\<exists>c. i < length slots \<and> slots ! i = Some c \<and> key c = k)))"

definition keyed :: "('a \<Rightarrow> 'k) \<Rightarrow> 'a option list \<Rightarrow> ('k \<times> 'a) list" where
  "keyed key slots = map (\<lambda>c. (key c, c)) (flatten_slots slots)"


lemma flatten_slots_simps [simp]:
  "flatten_slots [] = []"
  "flatten_slots (None # slots) = flatten_slots slots"
  "flatten_slots (Some c # slots) = c # flatten_slots slots"
  "flatten_slots (xs @ ys) = flatten_slots xs @ flatten_slots ys"
  by (simp_all add: flatten_slots_def map_filter_def)

lemma set_flatten_slots: "c \<in> set (flatten_slots slots) \<longleftrightarrow> (\<exists>i < length slots. slots ! i = Some c)"
proof -
  have "c \<in> set (flatten_slots slots) \<longleftrightarrow> Some c \<in> set slots"
    by (induction slots) (auto simp: flatten_slots_def map_filter_def)
  then show ?thesis by (simp add: in_set_conv_nth)
qed

lemma keyed_simps [simp]:
  "keyed key [] = []"
  "keyed key (None # slots) = keyed key slots"
  "keyed key (Some c # slots) = (key c, c) # keyed key slots"
  "keyed key (xs @ ys) = keyed key xs @ keyed key ys"
  by (simp_all add: keyed_def)

lemma keyed_keys: "k \<in> fst ` set (keyed key slots) \<longleftrightarrow> (\<exists>i c. i < length slots \<and> slots ! i = Some c \<and> key c = k)"
  by (force simp: keyed_def set_flatten_slots)

lemma slots_ok_index:
  assumes "slots_ok key idx slots"
  shows "map_of idx k = Some i \<longleftrightarrow> (\<exists>c. i < length slots \<and> slots ! i = Some c \<and> key c = k)"
  using assms by (simp add: slots_ok_def)

lemma slots_ok_None:
  assumes "slots_ok key idx slots" and "map_of idx k = None"
  shows "k \<notin> fst ` set (keyed key slots)"
  using assms slots_ok_index [OF assms(1), of k] unfolding keyed_keys by fastforce

lemma AList_update_middle:
  assumes "k \<notin> fst ` set xs"
  shows "AList.update k c (xs @ (k, c0) # ys) = xs @ (k, c) # ys"
  using assms by (induction xs) auto

lemma AList_update_new:
  assumes "k \<notin> fst ` set xs"
  shows "AList.update k c xs = xs @ [(k, c)]"
  using assms by (induction xs) auto

lemma keyed_replace:
  assumes "slots_ok key idx slots" and "map_of idx (key c) = Some i"
  shows "keyed key (slots[i := Some c]) = AList.update (key c) c (keyed key slots)"
proof -
  obtain c0 where c0: "i < length slots" "slots ! i = Some c0" "key c0 = key c"
    using assms(2) unfolding slots_ok_index [OF assms(1)] by blast
  have "key c \<notin> fst ` set (keyed key (take i slots))"
  proof
    assume "key c \<in> fst ` set (keyed key (take i slots))"
    then obtain j d where "j < i" "slots ! j = Some d" "key d = key c" by (auto simp: keyed_keys)
    then have "map_of idx (key c) = Some j" using c0(1) slots_ok_index [OF assms(1)] by auto
    with assms(2) \<open>j < i\<close> show False by simp
  qed
  moreover have "slots = take i slots @ Some c0 # drop (Suc i) slots" using c0 id_take_nth_drop by metis
  moreover have "slots[i := Some c] = take i slots @ Some c # drop (Suc i) slots" using c0 by (simp add: upd_conv_take_nth_drop)
  ultimately show ?thesis using c0(3) AList_update_middle keyed_simps(3,4) by metis
qed

lemma slots_ok_replace:
  assumes "slots_ok key idx slots" and "map_of idx (key c) = Some i"
  shows "slots_ok key idx (slots[i := Some c])"
proof -
  obtain c0 where c0: "i < length slots" "slots ! i = Some c0" "key c0 = key c"
    using assms(2) unfolding slots_ok_index [OF assms(1)] by blast
  have "(\<exists>d. j < length slots \<and> slots[i := Some c] ! j = Some d \<and> key d = k) \<longleftrightarrow>
      (\<exists>d. j < length slots \<and> slots ! j = Some d \<and> key d = k)" for j k
    using c0 by (cases "j = i") auto
  then show ?thesis using assms(1) by (simp add: slots_ok_def)
qed

lemma slots_ok_new:
  assumes "slots_ok key idx slots" and "map_of idx (key c) = None"
  shows "slots_ok key ((key c, length slots) # idx) (slots @ [Some c])"
proof -
  have "(\<exists>d. j < Suc (length slots) \<and> (slots @ [Some c]) ! j = Some d \<and> key d = k) \<longleftrightarrow>
      j = length slots \<and> k = key c \<or> (\<exists>d. j < length slots \<and> slots ! j = Some d \<and> key d = k)" for j k
    by (cases "j = length slots") (auto simp: nth_append)
  then show ?thesis using assms by (auto simp: slots_ok_def map_of_eq_None_iff)
qed

lemma length_clear_slots [simp]: "length (clear_slots kis slots) = length slots"
  by (induction kis slots rule: clear_slots.induct) auto

lemma clear_slots_nth:
  "i < length slots \<Longrightarrow> clear_slots kis slots ! i = (if i \<in> snd ` set kis then None else slots ! i)"
  by (induction kis slots rule: clear_slots.induct) (auto simp: nth_list_update)

text \<open>Clearing the slots of the keys with some property drops the filled slots with it.\<close>

lemma clear_slots_eq:
  assumes "slots_ok key idx slots"
  shows "clear_slots (filter (\<lambda>(k, _). P k) idx) slots =
    map (\<lambda>s. case s of Some c \<Rightarrow> if P (key c) then None else Some c | None \<Rightarrow> None) slots" (is "?l = ?r")
proof (rule nth_equalityI)
  show "length ?l = length ?r" by simp
  fix i assume "i < length ?l"
  then have i: "i < length slots" by simp
  have "i \<in> snd ` set (filter (\<lambda>(k, _). P k) idx) \<longleftrightarrow> (\<exists>k. (k, i) \<in> set idx \<and> P k)" by force
  also have "\<dots> \<longleftrightarrow> (\<exists>c. slots ! i = Some c \<and> P (key c))" using assms i by (auto simp: slots_ok_def)
  finally show "?l ! i = ?r ! i" using i clear_slots_nth [OF i, of "filter (\<lambda>(k, _). P k) idx"]
    by (auto split: option.split)
qed

lemma keyed_filtered:
  "keyed key (map (\<lambda>s. case s of Some c \<Rightarrow> if P (key c) then None else Some c | None \<Rightarrow> None) slots) =
    filter (\<lambda>(k, _). \<not> P k) (keyed key slots)"
  by (induction slots) (auto split: option.split)

lemma slots_ok_clear:
  assumes "slots_ok key idx slots"
  shows "slots_ok key (filter (\<lambda>(k, _). \<not> P k) idx) (clear_slots (filter (\<lambda>(k, _). P k) idx) slots)"
proof -
  have "distinct (map fst (filter (\<lambda>(k, _). \<not> P k) idx))"
    using assms by (simp add: slots_ok_def distinct_map_filter)
  moreover have "(k, i) \<in> set (filter (\<lambda>(k, _). \<not> P k) idx) \<longleftrightarrow>
      (\<exists>c. i < length slots \<and> slots ! i = Some c \<and> \<not> P (key c) \<and> key c = k)" for k i
    using assms by (auto simp: slots_ok_def)
  ultimately show ?thesis
    unfolding slots_ok_def clear_slots_eq [OF assms] by (auto split: option.splits if_splits)
qed


section \<open>The accumulator keeps what the changes say\<close>

definition acc_ok :: "change_accumulator \<Rightarrow> bool" where
  "acc_ok acc = (slots_ok item_key_of (acc_changed_item_indexes acc) (acc_changed_items acc) \<and>
     slots_ok tc_turn_id (acc_changed_turn_indexes acc) (acc_changed_turns acc) \<and>
     fst ` set (acc_removed_turn_indexes acc) = set (acc_removed_turn_ids acc))"

definition acc_items :: "change_accumulator \<Rightarrow> (item_key \<times> item_change) list" where
  "acc_items acc = keyed item_key_of (acc_changed_items acc)"

definition acc_turns :: "change_accumulator \<Rightarrow> (rstr \<times> turn_change) list" where
  "acc_turns acc = keyed tc_turn_id (acc_changed_turns acc)"

lemma acc_ok_new [simp]: "acc_ok accumulator_new"
  by (simp add: acc_ok_def accumulator_new_def slots_ok_def)

lemma acc_new [simp]:
  "acc_items accumulator_new = []" "acc_turns accumulator_new = []" "acc_removed_turn_ids accumulator_new = []"
  by (simp_all add: acc_items_def acc_turns_def accumulator_new_def)

lemma push_item_change_acc:
  assumes "acc_ok acc"
  shows "acc_ok (push_item_change c acc)"
    and "acc_items (push_item_change c acc) = AList.update (item_key_of c) c (acc_items acc)"
    and "acc_turns (push_item_change c acc) = acc_turns acc"
    and "acc_removed_turn_ids (push_item_change c acc) = acc_removed_turn_ids acc"
proof -
  have ok: "slots_ok item_key_of (acc_changed_item_indexes acc) (acc_changed_items acc)"
    using assms by (simp add: acc_ok_def)
  show "acc_ok (push_item_change c acc)"
    using assms slots_ok_replace [OF ok] slots_ok_new [OF ok]
    by (auto simp: acc_ok_def push_item_change_def split: option.split)
  show "acc_items (push_item_change c acc) = AList.update (item_key_of c) c (acc_items acc)"
    using keyed_replace [OF ok, of c] slots_ok_None [OF ok, THEN AList_update_new, of "item_key_of c" c]
    by (auto simp: acc_items_def push_item_change_def split: option.split)
qed (auto simp: acc_turns_def push_item_change_def split: option.split)

lemma push_turn_change_acc:
  assumes "acc_ok acc"
  shows "acc_ok (push_turn_change c acc)"
    and "acc_turns (push_turn_change c acc) = AList.update (tc_turn_id c) c (acc_turns acc)"
    and "acc_items (push_turn_change c acc) = acc_items acc"
    and "acc_removed_turn_ids (push_turn_change c acc) = acc_removed_turn_ids acc"
proof -
  have ok: "slots_ok tc_turn_id (acc_changed_turn_indexes acc) (acc_changed_turns acc)"
    using assms by (simp add: acc_ok_def)
  show "acc_ok (push_turn_change c acc)"
    using assms slots_ok_replace [OF ok] slots_ok_new [OF ok]
    by (auto simp: acc_ok_def push_turn_change_def split: option.split)
  show "acc_turns (push_turn_change c acc) = AList.update (tc_turn_id c) c (acc_turns acc)"
    using keyed_replace [OF ok, of c] slots_ok_None [OF ok, THEN AList_update_new, of "tc_turn_id c" c]
    by (auto simp: acc_turns_def push_turn_change_def split: option.split)
qed (auto simp: acc_items_def push_turn_change_def split: option.split)

text \<open>The slot of a single removed turn, found or not, is a case of clearing slots by a property.\<close>

lemma filter_key:
  assumes "distinct (map fst idx)"
  shows "filter (\<lambda>(k, _). k = tid) idx = (case map_of idx tid of None \<Rightarrow> [] | Some i \<Rightarrow> [(tid, i)])"
  using assms
proof (induction idx)
  case (Cons ki idx)
  have "map_of idx tid = None" if "fst ki = tid" using Cons.prems that by (auto simp: map_of_eq_None_iff)
  with Cons show ?case by (cases ki) (auto split: option.splits)
qed simp

lemma filter_other_keys: "map_of idx tid = None \<Longrightarrow> filter (\<lambda>(k, _). k \<noteq> tid) idx = idx"
  by (force simp: map_of_eq_None_iff filter_id_conv)

definition remove_turn_slots :: "rstr \<Rightarrow> change_accumulator \<Rightarrow> change_accumulator" where
  "remove_turn_slots tid acc =
     acc\<lparr>acc_changed_turn_indexes := filter (\<lambda>(k, _). k \<noteq> tid) (acc_changed_turn_indexes acc),
         acc_changed_turns := clear_slots (filter (\<lambda>(k, _). k = tid) (acc_changed_turn_indexes acc)) (acc_changed_turns acc),
         acc_changed_item_indexes := filter (\<lambda>(k, _). fst k \<noteq> tid) (acc_changed_item_indexes acc),
         acc_changed_items := clear_slots (filter (\<lambda>(k, _). fst k = tid) (acc_changed_item_indexes acc)) (acc_changed_items acc)\<rparr>"

lemma push_removed_turn_id_eq:
  assumes "acc_ok acc"
  shows "push_removed_turn_id tid acc = remove_turn_slots tid
    (if tid \<in> set (acc_removed_turn_ids acc) then acc
     else acc\<lparr>acc_removed_turn_indexes := (tid, length (acc_removed_turn_ids acc)) # acc_removed_turn_indexes acc,
              acc_removed_turn_ids := acc_removed_turn_ids acc @ [tid]\<rparr>)"
proof -
  have d: "distinct (map fst (acc_changed_turn_indexes acc))" using assms by (simp add: acc_ok_def slots_ok_def)
  show ?thesis using assms
    by (simp add: push_removed_turn_id_def remove_turn_slots_def Let_def acc_ok_def filter_key [OF d] filter_other_keys
        split: option.split)
qed

lemma remove_turn_slots_acc:
  assumes "acc_ok acc"
  shows "acc_ok (remove_turn_slots tid acc)"
    and "acc_items (remove_turn_slots tid acc) = filter (\<lambda>(k, _). fst k \<noteq> tid) (acc_items acc)"
    and "acc_turns (remove_turn_slots tid acc) = filter (\<lambda>(k, _). k \<noteq> tid) (acc_turns acc)"
    and "acc_removed_turn_ids (remove_turn_slots tid acc) = acc_removed_turn_ids acc"
proof -
  have oki: "slots_ok item_key_of (acc_changed_item_indexes acc) (acc_changed_items acc)"
    and okt: "slots_ok tc_turn_id (acc_changed_turn_indexes acc) (acc_changed_turns acc)"
    using assms by (simp_all add: acc_ok_def)
  show "acc_ok (remove_turn_slots tid acc)"
    using assms slots_ok_clear [OF oki, of "\<lambda>k. fst k = tid"] slots_ok_clear [OF okt, of "\<lambda>k. k = tid"]
    by (simp add: acc_ok_def remove_turn_slots_def)
  show "acc_items (remove_turn_slots tid acc) = filter (\<lambda>(k, _). fst k \<noteq> tid) (acc_items acc)"
    using clear_slots_eq [OF oki, of "\<lambda>k. fst k = tid"] keyed_filtered [of item_key_of "\<lambda>k. fst k = tid"]
    by (simp add: acc_items_def remove_turn_slots_def)
  show "acc_turns (remove_turn_slots tid acc) = filter (\<lambda>(k, _). k \<noteq> tid) (acc_turns acc)"
    using clear_slots_eq [OF okt, of "\<lambda>k. k = tid"] keyed_filtered [of tc_turn_id "\<lambda>k. k = tid"]
    by (simp add: acc_turns_def remove_turn_slots_def)
qed (simp add: remove_turn_slots_def)

lemma push_removed_turn_id_acc:
  assumes "acc_ok acc"
  shows "acc_ok (push_removed_turn_id tid acc)"
    and "acc_items (push_removed_turn_id tid acc) = filter (\<lambda>(k, _). fst k \<noteq> tid) (acc_items acc)"
    and "acc_turns (push_removed_turn_id tid acc) = filter (\<lambda>(k, _). k \<noteq> tid) (acc_turns acc)"
    and "set (acc_removed_turn_ids (push_removed_turn_id tid acc)) = insert tid (set (acc_removed_turn_ids acc))"
proof -
  let ?a = "if tid \<in> set (acc_removed_turn_ids acc) then acc
     else acc\<lparr>acc_removed_turn_indexes := (tid, length (acc_removed_turn_ids acc)) # acc_removed_turn_indexes acc,
              acc_removed_turn_ids := acc_removed_turn_ids acc @ [tid]\<rparr>"
  have a: "acc_ok ?a" "acc_items ?a = acc_items acc" "acc_turns ?a = acc_turns acc"
      "set (acc_removed_turn_ids ?a) = insert tid (set (acc_removed_turn_ids acc))"
    using assms by (auto simp: acc_ok_def acc_items_def acc_turns_def)
  note eq = push_removed_turn_id_eq [OF assms, of tid] and r = remove_turn_slots_acc [OF a(1), of tid]
  show "acc_ok (push_removed_turn_id tid acc)" unfolding eq by (rule r(1))
  show "acc_items (push_removed_turn_id tid acc) = filter (\<lambda>(k, _). fst k \<noteq> tid) (acc_items acc)"
    unfolding eq r(2) a(2) ..
  show "acc_turns (push_removed_turn_id tid acc) = filter (\<lambda>(k, _). k \<noteq> tid) (acc_turns acc)"
    unfolding eq r(3) a(3) ..
  show "set (acc_removed_turn_ids (push_removed_turn_id tid acc)) = insert tid (set (acc_removed_turn_ids acc))"
    unfolding eq r(4) a(4) ..
qed


lemma fold_push_removed:
  assumes "acc_ok acc"
  shows "acc_ok (fold push_removed_turn_id ids acc) \<and>
    acc_items (fold push_removed_turn_id ids acc) = filter (\<lambda>(k, _). fst k \<notin> set ids) (acc_items acc) \<and>
    acc_turns (fold push_removed_turn_id ids acc) = filter (\<lambda>(k, _). k \<notin> set ids) (acc_turns acc) \<and>
    set (acc_removed_turn_ids (fold push_removed_turn_id ids acc)) = set ids \<union> set (acc_removed_turn_ids acc)"
  using assms
proof (induction ids arbitrary: acc)
  case (Cons i ids)
  note push = push_removed_turn_id_acc [OF Cons.prems, of i]
  have "filter (\<lambda>(k, _). fst k \<notin> set ids) (filter (\<lambda>(k, _). fst k \<noteq> i) m) = filter (\<lambda>(k, _). fst k \<notin> set (i # ids)) m"
    for m :: "(item_key \<times> item_change) list" by (auto simp: split_def intro!: filter_cong)
  moreover have "filter (\<lambda>(k, _). k \<notin> set ids) (filter (\<lambda>(k, _). k \<noteq> i) m) = filter (\<lambda>(k, _). k \<notin> set (i # ids)) m"
    for m :: "(rstr \<times> turn_change) list" by (auto simp: split_def intro!: filter_cong)
  ultimately show ?case using Cons.IH [OF push(1)] by (simp add: push)
qed (simp add: split_def)

lemma fold_push_items:
  assumes "acc_ok acc"
  shows "acc_ok (fold push_item_change cs acc) \<and> acc_items (fold push_item_change cs acc) = upsert_items cs (acc_items acc) \<and>
    acc_turns (fold push_item_change cs acc) = acc_turns acc \<and>
    acc_removed_turn_ids (fold push_item_change cs acc) = acc_removed_turn_ids acc"
  using assms by (induction cs arbitrary: acc) (simp_all add: push_item_change_acc upsert_items_def)

lemma fold_push_turns:
  assumes "acc_ok acc"
  shows "acc_ok (fold push_turn_change cs acc) \<and> acc_turns (fold push_turn_change cs acc) = upsert_turns cs (acc_turns acc) \<and>
    acc_items (fold push_turn_change cs acc) = acc_items acc \<and>
    acc_removed_turn_ids (fold push_turn_change cs acc) = acc_removed_turn_ids acc"
  using assms by (induction cs arbitrary: acc) (simp_all add: push_turn_change_acc upsert_turns_def)

lemma accumulator_push_acc:
  assumes "acc_ok acc"
  shows "acc_ok (accumulator_push c acc)"
    and "acc_items (accumulator_push c acc) =
      upsert_items (cs_changed_items c) (filter (\<lambda>(k, _). fst k \<notin> set (cs_removed_turn_ids c)) (acc_items acc))"
    and "acc_turns (accumulator_push c acc) =
      upsert_turns (cs_changed_turns c) (filter (\<lambda>(k, _). k \<notin> set (cs_removed_turn_ids c)) (acc_turns acc))"
    and "set (acc_removed_turn_ids (accumulator_push c acc)) = set (cs_removed_turn_ids c) \<union> set (acc_removed_turn_ids acc)"
  using fold_push_removed [OF assms, of "cs_removed_turn_ids c"] fold_push_items fold_push_turns
  by (metis accumulator_push_def)+

section \<open>Joining changes\<close>

text \<open>Updating a map with the entries of another, one after the other.\<close>

definition update_all :: "('k \<times> 'v) list \<Rightarrow> ('k \<times> 'v) list \<Rightarrow> ('k \<times> 'v) list" where
  "update_all ys m = fold (\<lambda>(k, v). AList.update k v) ys m"

lemma update_all_simps [simp]: "update_all [] m = m" "update_all ((k, v) # ys) m = update_all ys (AList.update k v m)"
  by (simp_all add: update_all_def)

lemma update_commute_present:
  assumes "k \<noteq> k'" and "k \<in> fst ` set m"
  shows "AList.update k c (AList.update k' v m) = AList.update k' v (AList.update k c m)"
  using assms by (induction m) auto

lemma update_all_commute_present:
  assumes "k \<notin> fst ` set ys" and "k \<in> fst ` set m"
  shows "AList.update k c (update_all ys m) = update_all ys (AList.update k c m)"
  using assms
proof (induction ys arbitrary: m)
  case (Cons y ys)
  then have "k \<noteq> fst y" "k \<notin> fst ` set ys" by auto
  with Cons show ?case by (cases y) (simp add: update_commute_present dom_update)
qed simp

lemma update_all_update:
  assumes "distinct (map fst ys)"
  shows "update_all (AList.update k c ys) m = AList.update k c (update_all ys m)"
  using assms
proof (induction ys arbitrary: m)
  case (Cons y ys)
  obtain k' v where y: "y = (k', v)" by fastforce
  show ?case
  proof (cases "k' = k")
    case True
    then have "k \<notin> fst ` set ys" using Cons.prems y by auto
    then have "AList.update k c (update_all ys (AList.update k v m)) = update_all ys (AList.update k c (AList.update k v m))"
      by (rule update_all_commute_present) (simp add: dom_update)
    with True y show ?thesis by simp
  qed (use Cons y in simp)
qed simp

lemma filter_update:
  "filter (\<lambda>(k, _). P k) (AList.update k c m) =
    (if P k then AList.update k c (filter (\<lambda>(k, _). P k) m) else filter (\<lambda>(k, _). P k) m)"
  by (induction m) auto

lemma filter_update_all:
  "filter (\<lambda>(k, _). P k) (update_all ys m) = update_all (filter (\<lambda>(k, _). P k) ys) (filter (\<lambda>(k, _). P k) m)"
  by (induction ys arbitrary: m) (auto simp: filter_update)

lemma update_all_fold_update:
  assumes "distinct (map fst ys)"
  shows "update_all (fold (\<lambda>c. AList.update (key c) c) cs ys) m = fold (\<lambda>c. AList.update (key c) c) cs (update_all ys m)"
  using assms by (induction cs arbitrary: ys) (simp_all add: update_all_update distinct_update)

lemma fold_update_keyed: "fold (\<lambda>c. AList.update (key c) c) (flatten_slots slots) m = update_all (keyed key slots) m"
  by (induction slots arbitrary: m rule: list.induct)
    (auto simp: flatten_slots_def map_filter_def update_all_def keyed_def fold_map)

lemma slots_ok_distinct:
  assumes "slots_ok key idx slots"
  shows "distinct (map fst (keyed key slots))"
  using assms
proof (induction slots arbitrary: idx rule: rev_induct)
  case (snoc s slots)
  have part: "slots_ok key (filter (\<lambda>(_, i). i < length slots) idx) slots"
    using snoc.prems by (auto simp: slots_ok_def nth_append distinct_map_filter split: if_splits)
  have "key c \<notin> fst ` set (keyed key slots)" if "s = Some c" for c
  proof
    assume "key c \<in> fst ` set (keyed key slots)"
    then obtain j d where "j < length slots" "slots ! j = Some d" "key d = key c" unfolding keyed_keys by blast
    then have "map_of idx (key c) = Some j" using slots_ok_index [OF snoc.prems] by (auto simp: nth_append)
    moreover have "map_of idx (key c) = Some (length slots)" using that slots_ok_index [OF snoc.prems] by (auto simp: nth_append)
    ultimately show False using \<open>j < length slots\<close> by simp
  qed
  with snoc.IH [OF part] show ?case by (cases s) auto
qed simp

lemma acc_distinct:
  assumes "acc_ok acc"
  shows "distinct (map fst (acc_items acc))" and "distinct (map fst (acc_turns acc))"
  using assms slots_ok_distinct by (auto simp: acc_ok_def acc_items_def acc_turns_def)

lemma apply_accumulated:
  "apply_changes (accumulator_finish acc) v =
    \<lparr>proj_turns = update_all (acc_turns acc) (filter (\<lambda>(k, _). k \<notin> set (acc_removed_turn_ids acc)) (proj_turns v)),
     proj_items = update_all (acc_items acc) (filter (\<lambda>(k, _). fst k \<notin> set (acc_removed_turn_ids acc)) (proj_items v))\<rparr>"
  by (simp add: apply_changes_def accumulator_finish_def remove_turns_def upsert_turns_def upsert_items_def
      fold_update_keyed acc_turns_def acc_items_def)

text \<open>Joining a change set to those accumulated so far means applying it after them.\<close>

lemma apply_accumulator_push:
  assumes "acc_ok acc"
  shows "apply_changes (accumulator_finish (accumulator_push c acc)) v =
    apply_changes c (apply_changes (accumulator_finish acc) v)"
proof -
  let ?rc = "set (cs_removed_turn_ids c)" and ?ra = "set (acc_removed_turn_ids acc)"
  note push = accumulator_push_acc [OF assms, of c] and dist = acc_distinct [OF assms]
  have fi: "filter (\<lambda>(k, _). fst k \<notin> ?rc \<union> ?ra) m = filter (\<lambda>(k, _). fst k \<notin> ?rc) (filter (\<lambda>(k, _). fst k \<notin> ?ra) m)"
    for m :: "(item_key \<times> item_change) list" by (auto simp: split_def intro!: filter_cong)
  have ft: "filter (\<lambda>(k, _). k \<notin> ?rc \<union> ?ra) m = filter (\<lambda>(k, _). k \<notin> ?rc) (filter (\<lambda>(k, _). k \<notin> ?ra) m)"
    for m :: "(rstr \<times> turn_change) list" by (auto simp: split_def intro!: filter_cong)
  have di: "distinct (map fst (filter (\<lambda>(k, _). fst k \<notin> ?rc) (acc_items acc)))"
    and dt: "distinct (map fst (filter (\<lambda>(k, _). k \<notin> ?rc) (acc_turns acc)))"
    using dist by (simp_all add: distinct_map_filter)
  show ?thesis
    unfolding apply_accumulated [of "accumulator_push c acc"] push fi ft
    by (simp add: apply_changes_def [of c] apply_accumulated remove_turns_def Let_def upsert_items_def upsert_turns_def
        update_all_fold_update [OF di] update_all_fold_update [OF dt]
        filter_update_all [of "\<lambda>k. fst k \<notin> ?rc"] filter_update_all [of "\<lambda>k. k \<notin> ?rc"])
qed

lemma apply_accumulated_list:
  assumes "acc_ok acc"
  shows "apply_changes (accumulator_finish (fold accumulator_push cs acc)) v =
    fold apply_changes cs (apply_changes (accumulator_finish acc) v)"
  using assms by (induction cs arbitrary: acc) (simp_all add: apply_accumulator_push accumulator_push_acc(1))

lemma apply_new_accumulator [simp]: "apply_changes (accumulator_finish accumulator_new) v = v"
  by (simp add: apply_accumulated split_def)


text \<open>
  C18. Joining the change sets of a batch loses nothing: whatever changes come in whatever order, to
  items and turns that are changed again or removed in between, applying the joined change set to a
  projection gives, entry by entry and in the same order, what applying them one after the other
  gives.
\<close>
theorem coalesced_changes_apply:
  "apply_changes (accumulator_finish (fold accumulator_push cs accumulator_new)) v = fold apply_changes cs v"
  by (simp add: apply_accumulated_list)

end
