(* ===== verification/Thread_Replay.thy ===== *)
theory Thread_Replay
  imports Thread_Changes
begin

text \<open>
  The change sets of the thread history are complete: a reader that applies them to its projection
  shows the turns of the builder, whatever lines the rollout has, as long as no two turns share an
  id and no turn has two items with the same id. Recording changes changes nothing else.
\<close>

named_theorems handler_defs \<open>the definitions of the handlers\<close>

lemmas [handler_defs] =
  handle_agent_message_def
  handle_item_started_def handle_item_completed_def handle_web_search_begin_def handle_web_search_end_def
  handle_exec_command_begin_def handle_exec_command_end_def handle_guardian_assessment_def
  handle_apply_patch_approval_request_def handle_patch_apply_begin_def handle_patch_apply_end_def
  handle_dynamic_tool_call_request_def handle_dynamic_tool_call_response_def handle_mcp_tool_call_begin_def
  handle_mcp_tool_call_end_def handle_view_image_tool_call_def handle_image_generation_begin_def
  handle_image_generation_end_def handle_collab_agent_spawn_begin_def handle_collab_agent_spawn_end_def
  handle_collab_agent_interaction_begin_def handle_collab_agent_interaction_end_def handle_sub_agent_activity_def
  handle_collab_waiting_begin_def handle_collab_waiting_end_def handle_collab_close_begin_def
  handle_collab_close_end_def handle_collab_resume_begin_def handle_collab_resume_end_def
  handle_context_compacted_def handle_entered_review_mode_def handle_exited_review_mode_def

section \<open>Tracking changes has no other effect\<close>

definition untracked :: "thread_history_builder \<Rightarrow> thread_history_builder" where
  "untracked b = b\<lparr>hb_active_change_set := None\<rparr>"

named_theorems untracked_simps \<open>operations do the same with and without a change set\<close>

lemma untracked_fields [simp]:
  "hb_turns (untracked b) = hb_turns b" "hb_current_turn (untracked b) = hb_current_turn b"
  "hb_next_item_index (untracked b) = hb_next_item_index b"
  "hb_current_rollout_index (untracked b) = hb_current_rollout_index b"
  "hb_next_rollout_index (untracked b) = hb_next_rollout_index b" "hb_active_change_set (untracked b) = None"
  by (simp_all add: untracked_def)

lemma untracked_record [simp]:
  "untracked (record_changed_item tid item b) = untracked b"
  "untracked (record_changed_turn tc b) = untracked b"
  "untracked (record_changed_pending_turn t b) = untracked b"
  "untracked (record_removed_turn_ids ids b) = untracked b"
  "record_changed_item tid item (untracked b) = untracked b"
  "record_changed_turn tc (untracked b) = untracked b"
  "record_changed_pending_turn t (untracked b) = untracked b"
  "record_removed_turn_ids ids (untracked b) = untracked b"
  by (simp_all add: untracked_def record_changed_item_def record_changed_turn_def record_changed_pending_turn_def
      record_removed_turn_ids_def)

lemma untracked_update [simp]:
  "untracked (b\<lparr>hb_current_turn := t\<rparr>) = (untracked b)\<lparr>hb_current_turn := t\<rparr>"
  "untracked (b\<lparr>hb_turns := ts\<rparr>) = (untracked b)\<lparr>hb_turns := ts\<rparr>"
  "untracked (b\<lparr>hb_next_item_index := n\<rparr>) = (untracked b)\<lparr>hb_next_item_index := n\<rparr>"
  "untracked (b\<lparr>hb_active_change_set := c\<rparr>) = untracked b"
  "record_changed_item tid item ((untracked b)\<lparr>hb_current_turn := t\<rparr>) = (untracked b)\<lparr>hb_current_turn := t\<rparr>"
  "record_changed_item tid item ((untracked b)\<lparr>hb_turns := ts\<rparr>) = (untracked b)\<lparr>hb_turns := ts\<rparr>"
  "record_changed_turn tc ((untracked b)\<lparr>hb_current_turn := t\<rparr>) = (untracked b)\<lparr>hb_current_turn := t\<rparr>"
  "record_changed_turn tc ((untracked b)\<lparr>hb_turns := ts\<rparr>) = (untracked b)\<lparr>hb_turns := ts\<rparr>"
  by (simp_all add: untracked_def record_changed_item_def record_changed_turn_def)

lemma record_fields [simp]:
  "hb_turns (record_changed_item tid item b) = hb_turns b" "hb_current_turn (record_changed_item tid item b) = hb_current_turn b"
  "hb_turns (record_changed_turn tc b) = hb_turns b" "hb_current_turn (record_changed_turn tc b) = hb_current_turn b"
  "hb_turns (record_changed_pending_turn t b) = hb_turns b" "hb_current_turn (record_changed_pending_turn t b) = hb_current_turn b"
  "hb_turns (record_removed_turn_ids ids b) = hb_turns b" "hb_current_turn (record_removed_turn_ids ids b) = hb_current_turn b"
  by (simp_all add: record_changed_item_def record_changed_turn_def record_changed_pending_turn_def record_removed_turn_ids_def)

lemma untracked_finish [untracked_simps]: "untracked (finish_current_turn b) = finish_current_turn (untracked b)"
  by (auto simp: finish_current_turn_def untracked_def split: option.split)

lemma untracked_ensure [untracked_simps]: "untracked (ensure_turn u b) = ensure_turn u (untracked b)"
  by (auto simp: ensure_turn_def new_turn_def Let_def split: option.split)

lemma untracked_update_current [untracked_simps]: "untracked (update_current f b) = update_current f (untracked b)"
  by (simp add: update_current_def)

lemma untracked_take_item_id [untracked_simps]: "untracked (take_item_id b) = take_item_id (untracked b)"
  by (simp add: take_item_id_def)

lemma current_id_untracked [simp]: "current_id (untracked b) = current_id b"
  by (simp add: current_id_def)

lemma current_id_ensure [simp]: "current_id (ensure_turn u (untracked b)) = current_id (ensure_turn u b)"
  using current_id_untracked [of "ensure_turn u b"] by (simp only: untracked_ensure)

lemma record_item_update_current [simp]:
  "record_changed_item tid item (update_current f (untracked b)) = update_current f (untracked b)"
  by (simp add: update_current_def)

lemma untracked_push_item [untracked_simps]:
  "untracked (push_item_in_current_turn u item b) = push_item_in_current_turn u item (untracked b)"
  by (simp add: push_item_in_current_turn_def Let_def untracked_simps flip: untracked_ensure)

lemma untracked_upsert_current [untracked_simps]:
  "untracked (upsert_item_in_current_turn u item b) = upsert_item_in_current_turn u item (untracked b)"
  by (simp add: upsert_item_in_current_turn_def Let_def untracked_simps flip: untracked_ensure)

lemma current_matches_untracked [simp]: "current_matches tid (untracked b) = current_matches tid b"
  by (simp add: current_matches_def)

lemma untracked_upsert_turn_id [untracked_simps]:
  "untracked (upsert_item_in_turn_id tid item b) = upsert_item_in_turn_id tid item (untracked b)"
  by (simp add: upsert_item_in_turn_id_def untracked_simps)

lemma untracked_upsert_routed [untracked_simps]:
  "untracked (upsert_item_routed u tid item b) = upsert_item_routed u tid item (untracked b)"
  by (simp add: upsert_item_routed_def untracked_simps)

lemma untracked_push_numbered [untracked_simps]:
  "untracked (push_numbered_item u mk b) = push_numbered_item u mk (untracked b)"
  by (simp add: push_numbered_item_def untracked_simps next_item_id_def)

lemma untracked_extend [untracked_simps]:
  "extend_last_reasoning u f g (untracked b) =
    (fst (extend_last_reasoning u f g b), untracked (snd (extend_last_reasoning u f g b)))"
proof -
  have "hb_current_turn (ensure_turn u (untracked b)) = hb_current_turn (ensure_turn u b)"
    by (simp flip: untracked_ensure)
  then show ?thesis
    by (simp add: extend_last_reasoning_def Let_def untracked_simps split: option.split flip: untracked_ensure)
qed

lemma untracked_change_current [untracked_simps]: "untracked (change_current f b) = change_current f (untracked b)"
  by (simp add: change_current_def split: option.split)

lemma untracked_change_finished [untracked_simps]: "untracked (change_finished tid f b) = change_finished tid f (untracked b)"
  by (simp add: change_finished_def split: option.split)

lemma untracked_user_message [untracked_simps]:
  "untracked (handle_user_message u p b) = handle_user_message u p (untracked b)"
  by (simp add: handle_user_message_def Let_def untracked_simps split: option.split)

lemma untracked_reasoning [untracked_simps]:
  "untracked (handle_agent_reasoning u t b) = handle_agent_reasoning u t (untracked b)"
  "untracked (handle_agent_reasoning_raw_content u t b) = handle_agent_reasoning_raw_content u t (untracked b)"
  by (simp_all add: handle_agent_reasoning_def handle_agent_reasoning_raw_content_def untracked_simps split_def split: bool.split)

lemma untracked_error [untracked_simps]: "untracked (handle_error p b) = handle_error p (untracked b)"
  by (simp add: handle_error_def Let_def split: option.split)

lemma untracked_turn_handlers [untracked_simps]:
  "untracked (handle_turn_aborted a b) = handle_turn_aborted a (untracked b)"
  "untracked (handle_turn_complete p b) = handle_turn_complete p (untracked b)"
  by (simp_all add: handle_turn_aborted_def handle_turn_complete_def untracked_simps split: option.split)

lemma new_turn_untracked [simp]: "new_turn u i (untracked b) = new_turn u i b"
  by (simp add: new_turn_def cong: option.case_cong)

lemma untracked_turn_started [untracked_simps]: "untracked (handle_turn_started u p b) = handle_turn_started u p (untracked b)"
  by (simp add: handle_turn_started_def Let_def flip: untracked_finish)

lemma untracked_rollback [untracked_simps]: "untracked (handle_thread_rollback n b) = handle_thread_rollback n (untracked b)"
  by (simp add: handle_thread_rollback_def Let_def flip: untracked_finish)

lemma untracked_handle_event [untracked_simps]: "untracked (handle_event api u e b) = handle_event api u e (untracked b)"
  by (cases e) (simp_all add: untracked_simps handler_defs split: option.split turn_item.split)

lemma untracked_next_rollout_item [untracked_simps]: "untracked (next_rollout_item b) = next_rollout_item (untracked b)"
  by (simp add: next_rollout_item_def untracked_def)

lemma untracked_compacted [untracked_simps]: "untracked (handle_compacted u b) = handle_compacted u (untracked b)"
  by (simp add: handle_compacted_def untracked_simps)

lemma untracked_response_item [untracked_simps]:
  "untracked (handle_response_item api u i b) = handle_response_item api u i (untracked b)"
  by (simp add: handle_response_item_def untracked_simps split: response_item.split option.split)

lemma untracked_handle_rollout_item [untracked_simps]:
  "untracked (handle_rollout_item api u item b) = handle_rollout_item api u item (untracked b)"
  by (simp add: handle_rollout_item_def Let_def untracked_simps split: rollout_item.split)

lemma with_changes_state:
  "fst (handle_rollout_item_with_changes api u item b) = handle_rollout_item api u item (untracked b)"
  by (simp add: handle_rollout_item_with_changes_def collect_changes_def Let_def untracked_def [symmetric]
      untracked_handle_rollout_item)

lemma accumulate_state:
  assumes "untracked b = b"
  shows "fst (accumulate_rollout_items api items b acc) = handle_rollout_items api items b"
  using assms
proof (induction items arbitrary: b acc)
  case (Cons ui items)
  obtain u item where ui: "ui = (u, item)" by fastforce
  have "untracked (handle_rollout_item api u item b) = handle_rollout_item api u item b"
    using Cons.prems by (simp add: untracked_handle_rollout_item)
  then show ?case using Cons.IH Cons.prems ui with_changes_state [of api u item b] by (simp add: split_def)
qed simp

section \<open>The turns of a builder\<close>

definition all_turns :: "thread_history_builder \<Rightarrow> turn list" where
  "all_turns b = hb_turns b @ (case hb_current_turn b of None \<Rightarrow> [] | Some t \<Rightarrow> [turn_of_pending t])"

text \<open>
  The turn that is open is never one that \<open>finish_current_turn\<close> would drop: a turn is only opened
  implicitly to add an item to it or to note a compaction.
\<close>

definition current_kept :: "thread_history_builder \<Rightarrow> bool" where
  "current_kept b = (case hb_current_turn b of None \<Rightarrow> True
     | Some t \<Rightarrow> pt_items t \<noteq> [] \<or> pt_opened_explicitly t \<or> pt_saw_compaction t)"

definition ids_distinct :: "thread_history_builder \<Rightarrow> bool" where
  "ids_distinct b = (distinct (map tn_id (all_turns b)) \<and>
     list_all (\<lambda>t. distinct (map item_id (tn_items t))) (all_turns b))"

lemma builder_finish_all:
  assumes "current_kept b"
  shows "builder_finish b = all_turns b"
  using assms by (auto simp: builder_finish_def finish_current_turn_def all_turns_def current_kept_def split: option.split)

lemma all_turns_finish:
  assumes "current_kept b"
  shows "all_turns (finish_current_turn b) = all_turns b" and "hb_turns (finish_current_turn b) = all_turns b"
    and "hb_current_turn (finish_current_turn b) = None" and "current_kept (finish_current_turn b)"
  using assms by (auto simp: finish_current_turn_def all_turns_def current_kept_def split: option.split)

lemma turn_of_pending_simps [simp]:
  "tn_id (turn_of_pending t) = pt_id t" "tn_items (turn_of_pending t) = pt_items t"
  "tn_items_view (turn_of_pending t) = ViewFull"
  "turn_change_of_turn (turn_of_pending t) = turn_change_of_pending t"
  by (simp_all add: turn_of_pending_def turn_change_of_turn_def turn_change_of_pending_def)

section \<open>Projections that show the turns\<close>

definition items_keyed :: "(item_key \<times> item_change) list \<Rightarrow> bool" where
  "items_keyed m = list_all (\<lambda>(k, c). k = item_key_of c) m"

definition mirrors :: "projection \<Rightarrow> turn list \<Rightarrow> bool" where
  "mirrors v ts = (proj_turns v = map (\<lambda>t. (tn_id t, turn_change_of_turn t)) ts \<and>
     list_all (\<lambda>t. projected_items v (tn_id t) = tn_items t \<and> tn_items_view t = ViewFull) ts \<and>
     items_keyed (proj_items v) \<and> list_all (\<lambda>(k, _). fst k \<in> tn_id ` set ts) (proj_items v))"

lemma mirrors_empty [simp]: "mirrors empty_projection []"
  by (simp add: mirrors_def empty_projection_def items_keyed_def)

lemma mirrors_projected:
  assumes "mirrors v ts"
  shows "projected_turns v = ts"
proof -
  have "projected_turn v (turn_change_of_turn t) = t" if "t \<in> set ts" for t
    using assms that by (cases t) (auto simp: mirrors_def projected_turn_def turn_change_of_turn_def list_all_iff)
  then show ?thesis using assms by (auto simp: projected_turns_def mirrors_def intro: map_idI)
qed

text \<open>Updating the item list of a projection is updating the items of the turn.\<close>

lemma upsert_by_key:
  assumes "list_all (\<lambda>(k, c). k = item_key_of c \<and> fst k = tid) m"
  shows "map (\<lambda>(_, c). ic_item c) (AList.update (tid, item_id item) \<lparr>ic_turn_id = tid, ic_item = item\<rparr> m) =
    upsert_turn_item (map (\<lambda>(_, c). ic_item c) m) item"
  using assms by (induction m) (auto simp: item_key_of_def)

definition upsert_projected :: "rstr \<Rightarrow> thread_item \<Rightarrow> projection \<Rightarrow> projection" where
  "upsert_projected tid item v =
     v\<lparr>proj_items := AList.update (tid, item_id item) \<lparr>ic_turn_id = tid, ic_item = item\<rparr> (proj_items v)\<rparr>"

lemma projected_items_upsert:
  assumes "items_keyed (proj_items v)"
  shows "projected_items (upsert_projected tid item v) tid' =
    (if tid' = tid then upsert_turn_item (projected_items v tid) item else projected_items v tid')"
proof -
  have "list_all (\<lambda>(k, c). k = item_key_of c \<and> fst k = tid) (filter (\<lambda>(k, _). fst k = tid) (proj_items v))"
    using assms by (auto simp: items_keyed_def list_all_iff)
  note upsert_by_key [OF this, of item]
  then show ?thesis
    using filter_update [of "\<lambda>k. fst k = tid'" "(tid, item_id item)" "\<lparr>ic_turn_id = tid, ic_item = item\<rparr>" "proj_items v"]
    by (auto simp: projected_items_def upsert_projected_def)
qed

lemma set_update: "x \<in> set (AList.update k c m) \<Longrightarrow> x = (k, c) \<or> x \<in> set m"
  by (induction m) (auto split: if_splits)

lemma items_keyed_upsert:
  assumes "items_keyed (proj_items v)"
  shows "items_keyed (proj_items (upsert_projected tid item v))"
  using assms set_update by (fastforce simp: items_keyed_def upsert_projected_def list_all_iff item_key_of_def)


text \<open>The turn with an id is changed; with distinct ids that is what \<open>update_turn\<close> does.\<close>

definition modify :: "rstr \<Rightarrow> (turn \<Rightarrow> turn) \<Rightarrow> turn list \<Rightarrow> turn list" where
  "modify tid f ts = map (\<lambda>t. if tn_id t = tid then f t else t) ts"

lemma modify_append [simp]: "modify tid f (xs @ ys) = modify tid f xs @ modify tid f ys"
  by (simp add: modify_def)

lemma modify_Nil [simp]: "modify tid f [] = []"
  by (simp add: modify_def)

lemma modify_single [simp]: "modify tid f [t] = [if tn_id t = tid then f t else t]"
  by (simp add: modify_def)

lemma modify_absent: "tid \<notin> tn_id ` set ts \<Longrightarrow> modify tid f ts = ts"
  unfolding modify_def by (rule map_idI) auto

lemma ids_modify [simp]:
  assumes "\<And>t. tn_id (f t) = tn_id t"
  shows "map tn_id (modify tid f ts) = map tn_id ts"
  using assms by (simp add: modify_def)

lemma ids_set_modify:
  assumes "\<And>t. tn_id (f t) = tn_id t"
  shows "tn_id ` set (modify tid f ts) = tn_id ` set ts"
  using ids_modify [of f tid ts] assms by (metis list.set_map)

lemma update_turn_modify:
  assumes "distinct (map tn_id ts)"
  shows "update_turn tid f ts = modify tid f ts"
  using assms
proof (induction ts)
  case (Cons t ts)
  then show ?case using modify_absent [of "tn_id t" ts f] by (auto simp: modify_def)
qed (simp add: modify_def)

definition upsert_into :: "thread_item \<Rightarrow> turn \<Rightarrow> turn" where
  "upsert_into item t = t\<lparr>tn_items := upsert_turn_item (tn_items t) item\<rparr>"

lemma upsert_into_simps [simp]: "tn_id (upsert_into item t) = tn_id t"
    "tn_items_view (upsert_into item t) = tn_items_view t"
    "tn_items (upsert_into item t) = upsert_turn_item (tn_items t) item"
    "turn_change_of_turn (upsert_into item t) = turn_change_of_turn t"
  by (simp_all add: upsert_into_def turn_change_of_turn_def)

lemma mirrors_upsert:
  assumes "mirrors v ts" and "tid \<in> tn_id ` set ts"
  shows "mirrors (upsert_projected tid item v) (modify tid (upsert_into item) ts)"
proof -
  have keyed: "items_keyed (proj_items v)" using assms(1) by (simp add: mirrors_def)
  have ids: "tn_id ` set (modify tid (upsert_into item) ts) = tn_id ` set ts"
    by (rule ids_set_modify) simp
  have "list_all (\<lambda>(k, _). fst k \<in> tn_id ` set ts) (proj_items (upsert_projected tid item v))"
    using assms set_update by (fastforce simp: mirrors_def upsert_projected_def list_all_iff)
  moreover have "proj_turns (upsert_projected tid item v) =
      map (\<lambda>t. (tn_id t, turn_change_of_turn t)) (modify tid (upsert_into item) ts)"
    using assms(1) by (simp add: mirrors_def upsert_projected_def modify_def)
  ultimately show ?thesis
    using assms(1) items_keyed_upsert [OF keyed] unfolding mirrors_def ids
    by (auto simp: list_all_iff modify_def projected_items_upsert [OF keyed])
qed

definition set_projected_turn :: "turn_change \<Rightarrow> projection \<Rightarrow> projection" where
  "set_projected_turn c v = v\<lparr>proj_turns := AList.update (tc_turn_id c) c (proj_turns v)\<rparr>"

lemma projected_items_set_turn [simp]: "projected_items (set_projected_turn c v) = projected_items v"
  by (simp add: set_projected_turn_def projected_items_def fun_eq_iff)

lemma tc_turn_id_of [simp]: "tc_turn_id (turn_change_of_turn t) = tn_id t" "tc_turn_id (turn_change_of_pending p) = pt_id p"
  by (simp_all add: turn_change_of_turn_def turn_change_of_pending_def)

lemma mirrors_new_turn:
  assumes "mirrors v ts" and "tn_id t \<notin> tn_id ` set ts" and "tn_items t = []" and "tn_items_view t = ViewFull"
  shows "mirrors (set_projected_turn (turn_change_of_turn t) v) (ts @ [t])"
proof -
  have "filter (\<lambda>(k, _). fst k = tn_id t) (proj_items v) = []"
    using assms(1,2) by (auto simp: mirrors_def list_all_iff filter_empty_conv)
  then have "projected_items v (tn_id t) = []" by (simp add: projected_items_def)
  moreover have "AList.update (tn_id t) (turn_change_of_turn t) (proj_turns v) =
      proj_turns v @ [(tn_id t, turn_change_of_turn t)]"
    using assms(1,2) by (intro AList_update_new) (auto simp: mirrors_def)
  ultimately show ?thesis
    using assms unfolding mirrors_def by (auto simp: set_projected_turn_def list_all_iff projected_items_def)
qed

lemma update_keyed_list:
  assumes "distinct (map tn_id ts)" and "t \<in> set ts"
  shows "AList.update (tn_id t) (turn_change_of_turn (f t)) (map (\<lambda>t. (tn_id t, turn_change_of_turn t)) ts) =
    map (\<lambda>t'. (tn_id t', turn_change_of_turn (if tn_id t' = tn_id t then f t' else t'))) ts"
  using assms
proof (induction ts)
  case (Cons x ts)
  show ?case
  proof (cases "tn_id x = tn_id t")
    case True
    then have "x = t" "t \<notin> set ts" "\<forall>y \<in> set ts. tn_id y \<noteq> tn_id t"
      using Cons.prems by (force simp: image_iff)+
    then show ?thesis by auto
  qed (use Cons in auto)
qed simp

lemma mirrors_change_turn:
  assumes "mirrors v ts" and "distinct (map tn_id ts)" and "t \<in> set ts"
    and "\<And>t. tn_id (f t) = tn_id t" and "\<And>t. tn_items (f t) = tn_items t" and "\<And>t. tn_items_view (f t) = tn_items_view t"
  shows "mirrors (set_projected_turn (turn_change_of_turn (f t)) v) (modify (tn_id t) f ts)"
proof -
  have ids: "tn_id ` set (modify (tn_id t) f ts) = tn_id ` set ts" using assms(4) by (rule ids_set_modify)
  have "proj_turns (set_projected_turn (turn_change_of_turn (f t)) v) =
      map (\<lambda>t. (tn_id t, turn_change_of_turn t)) (modify (tn_id t) f ts)"
    using assms(1,4) update_keyed_list [OF assms(2,3), of f]
    by (auto simp: mirrors_def set_projected_turn_def modify_def)
  then show ?thesis
    using assms(1,4-6) unfolding mirrors_def ids by (auto simp: list_all_iff modify_def set_projected_turn_def projected_items_def)
qed

lemma mirrors_take:
  assumes "mirrors v ts" and "distinct (map tn_id ts)"
  shows "mirrors (remove_turns (map tn_id (drop k ts)) v) (take k ts)"
proof -
  have apart: "tn_id t \<notin> tn_id ` set (drop k ts)" if "t \<in> set (take k ts)" for t
    using assms(2) that set_take_disj_set_drop_if_distinct [of "map tn_id ts" k k] by (force simp: take_map drop_map)
  have keep: "filter (\<lambda>t. tn_id t \<notin> tn_id ` set (drop k ts)) ts = take k ts"
    using apart by (subst (2) append_take_drop_id [of k ts, symmetric], subst filter_append)
      (auto simp: filter_id_conv filter_empty_conv)
  have "projected_items (remove_turns (map tn_id (drop k ts)) v) (tn_id t) = projected_items v (tn_id t)"
    if "t \<in> set (take k ts)" for t
    using apart [OF that] by (auto simp: projected_items_def remove_turns_def split_def intro!: arg_cong [where f = "map _"] filter_cong)
  moreover have "tn_id ` set ts = tn_id ` set (take k ts) \<union> tn_id ` set (drop k ts)"
    by (metis append_take_drop_id image_Un set_append)
  ultimately show ?thesis
    using assms(1) keep unfolding mirrors_def
    by (auto simp: remove_turns_def list_all_iff items_keyed_def filter_map comp_def dest: in_set_takeD)
qed


section \<open>Every handler records its changes\<close>

definition tracks :: "projection \<Rightarrow> thread_history_builder \<Rightarrow> bool" where
  "tracks v b = (\<exists>c. hb_active_change_set b = Some c \<and> mirrors (apply_changes c v) (all_turns b))"

lemma apply_record_item:
  "apply_changes (c\<lparr>cs_changed_items := cs_changed_items c @ [\<lparr>ic_turn_id = tid, ic_item = item\<rparr>]\<rparr>) v =
    upsert_projected tid item (apply_changes c v)"
  by (simp add: apply_changes_def upsert_projected_def upsert_items_def item_key_of_def Let_def)

lemma apply_record_turn:
  "apply_changes (c\<lparr>cs_changed_turns := cs_changed_turns c @ [tc]\<rparr>) v = set_projected_turn tc (apply_changes c v)"
  by (simp add: apply_changes_def set_projected_turn_def upsert_turns_def Let_def)

lemma all_turns_record [simp]:
  "all_turns (record_changed_item tid item b) = all_turns b" "all_turns (record_changed_turn tc b) = all_turns b"
  "all_turns (record_changed_pending_turn t b) = all_turns b"
  by (simp_all add: all_turns_def)

lemma tracks_record_item:
  assumes "tracks v b" and "tid \<in> tn_id ` set (all_turns b)"
    and "hb_active_change_set b' = hb_active_change_set b" and "all_turns b' = modify tid (upsert_into item) (all_turns b)"
  shows "tracks v (record_changed_item tid item b')"
proof -
  obtain c where "hb_active_change_set b = Some c" "mirrors (apply_changes c v) (all_turns b)"
    using assms(1) by (auto simp: tracks_def)
  with assms(2-4) mirrors_upsert show ?thesis
    unfolding tracks_def all_turns_record assms(4)
    by (auto simp: record_changed_item_def apply_record_item)
qed

lemma tracks_record_turn:
  assumes "tracks v b" and "distinct (map tn_id (all_turns b))" and "t \<in> set (all_turns b)"
    and "hb_active_change_set b' = hb_active_change_set b" and "all_turns b' = modify (tn_id t) f (all_turns b)"
    and "\<And>t. tn_id (f t) = tn_id t" "\<And>t. tn_items (f t) = tn_items t" "\<And>t. tn_items_view (f t) = tn_items_view t"
  shows "tracks v (record_changed_turn (turn_change_of_turn (f t)) b')"
proof -
  obtain c where "hb_active_change_set b = Some c" "mirrors (apply_changes c v) (all_turns b)"
    using assms(1) by (auto simp: tracks_def)
  with mirrors_change_turn [OF _ assms(2,3,6-8)] assms(4) show ?thesis
    unfolding tracks_def all_turns_record assms(5)
    by (auto simp: record_changed_turn_def apply_record_turn)
qed

lemma tracks_record_new:
  assumes "tracks v b" and "pt_id t \<notin> tn_id ` set (all_turns b)" and "pt_items t = []"
    and "all_turns b' = all_turns b @ [turn_of_pending t]"
    and "hb_active_change_set b' = hb_active_change_set (record_changed_pending_turn t b)"
  shows "tracks v b'"
proof -
  obtain c where c: "hb_active_change_set b = Some c" "mirrors (apply_changes c v) (all_turns b)"
    using assms(1) by (auto simp: tracks_def)
  show ?thesis
    using mirrors_new_turn [OF c(2), of "turn_of_pending t"] assms(2,3) c(1)
    unfolding tracks_def assms(4,5) by (auto simp: record_changed_pending_turn_def record_changed_turn_def apply_record_turn)
qed

lemma ensure_turn_simps [simp]:
  "hb_turns (ensure_turn u b) = hb_turns b" "hb_current_turn b \<noteq> None \<Longrightarrow> ensure_turn u b = b"
  "hb_current_turn (ensure_turn u b) = Some (case hb_current_turn b of Some t \<Rightarrow> t | None \<Rightarrow> new_turn u None b)"
  by (auto simp: ensure_turn_def Let_def split: option.split)

lemma update_current_simps [simp]:
  "hb_turns (update_current f b) = hb_turns b" "hb_current_turn (update_current f b) = map_option f (hb_current_turn b)"
  "hb_active_change_set (update_current f b) = hb_active_change_set b"
  by (simp_all add: update_current_def)

lemma new_turn_items [simp]: "pt_items (new_turn u i b) = []"
  by (simp add: new_turn_def)

lemma tracks_ensure:
  assumes "tracks v b" and "current_id (ensure_turn u b) \<notin> tn_id ` set (hb_turns b)"
  shows "tracks v (ensure_turn u b)"
proof (cases "hb_current_turn b")
  case None
  show ?thesis
    by (rule tracks_record_new [OF assms(1), of "new_turn u None b"])
      (use assms(2) None in \<open>simp_all add: all_turns_def ensure_turn_def Let_def current_id_def\<close>)
qed (use assms(1) in simp)

text \<open>Changes of the open turn that replace or add an item.\<close>

definition items_updated :: "thread_item \<Rightarrow> (thread_item list \<Rightarrow> thread_item list) \<Rightarrow> thread_history_builder \<Rightarrow> thread_history_builder" where
  "items_updated item g b = record_changed_item (current_id b) item (update_current (\<lambda>t. t\<lparr>pt_items := g (pt_items t)\<rparr>) b)"

lemma items_updated_good:
  assumes "tracks v b" and "hb_current_turn b = Some t" and "pt_id t \<notin> tn_id ` set (hb_turns b)"
    and "g (pt_items t) = upsert_turn_item (pt_items t) item"
  shows "tracks v (items_updated item g b) \<and> current_kept (items_updated item g b)"
proof -
  have "all_turns (update_current (\<lambda>t. t\<lparr>pt_items := g (pt_items t)\<rparr>) b) = modify (current_id b) (upsert_into item) (all_turns b)"
    using assms(2-4) by (simp add: all_turns_def current_id_def modify_absent) (simp add: turn_of_pending_def upsert_into_def)
  moreover have "current_id b \<in> tn_id ` set (all_turns b)" using assms(2) by (simp add: all_turns_def current_id_def)
  ultimately have "tracks v (items_updated item g b)"
    unfolding items_updated_def by (intro tracks_record_item [OF assms(1)]) simp_all
  moreover have "upsert_turn_item is item \<noteq> []" for "is" by (cases "is") auto
  ultimately show ?thesis using assms(2,4) by (simp add: current_kept_def items_updated_def)
qed

lemma upsert_new: "item_id item \<notin> item_id ` set is \<Longrightarrow> upsert_turn_item is item = is @ [item]"
  by (induction "is") auto

lemma upsert_last:
  assumes "is \<noteq> []" and "item_id item = item_id (last is)" and "item_id item \<notin> item_id ` set (butlast is)"
  shows "upsert_turn_item is item = butlast is @ [item]"
proof -
  have "upsert_turn_item (xs @ [y]) item = xs @ [item]" if "item_id y = item_id item" "item_id item \<notin> item_id ` set xs" for xs y
    using that by (induction xs) auto
  then show ?thesis using assms by (metis append_butlast_last_id)
qed

lemma ids_distinct_current:
  assumes "ids_distinct b" and "hb_current_turn b = Some t"
  shows "pt_id t \<notin> tn_id ` set (hb_turns b)" and "distinct (map item_id (pt_items t))"
  using assms by (auto simp: ids_distinct_def all_turns_def)

lemma items_updated_current:
  "hb_current_turn (items_updated item g b) = map_option (\<lambda>t. t\<lparr>pt_items := g (pt_items t)\<rparr>) (hb_current_turn b)"
  "hb_turns (items_updated item g b) = hb_turns b"
  by (simp_all add: items_updated_def)

text \<open>The same for a turn that may have to be opened first.\<close>

lemma ensured_good:
  assumes "tracks v b" and "ids_distinct (items_updated item g (ensure_turn u b))"
    and "\<And>is. distinct (map item_id (g is)) \<Longrightarrow> P is \<Longrightarrow> g is = upsert_turn_item is item"
    and "P (case hb_current_turn b of Some t \<Rightarrow> pt_items t | None \<Rightarrow> [])"
  shows "tracks v (items_updated item g (ensure_turn u b)) \<and> current_kept (items_updated item g (ensure_turn u b))"
proof -
  let ?t = "case hb_current_turn b of Some t \<Rightarrow> t | None \<Rightarrow> new_turn u None b"
  have cur: "hb_current_turn (ensure_turn u b) = Some ?t" by simp
  note post = ids_distinct_current [OF assms(2), of "?t\<lparr>pt_items := g (pt_items ?t)\<rparr>"]
  have fresh: "pt_id ?t \<notin> tn_id ` set (hb_turns (ensure_turn u b))" and dist: "distinct (map item_id (g (pt_items ?t)))"
    using post by (simp_all add: items_updated_current)
  have "P (pt_items ?t)" using assms(4) by (simp split: option.splits)
  then have "g (pt_items ?t) = upsert_turn_item (pt_items ?t) item" by (rule assms(3) [OF dist])
  moreover have "tracks v (ensure_turn u b)"
    using tracks_ensure [OF assms(1), of u] fresh cur by (simp add: current_id_def)
  ultimately show ?thesis using items_updated_good cur fresh by blast
qed

lemma push_good:
  assumes "tracks v b" and "ids_distinct (push_item_in_current_turn u item b)"
  shows "tracks v (push_item_in_current_turn u item b) \<and> current_kept (push_item_in_current_turn u item b)"
proof -
  have eq: "push_item_in_current_turn u item b = items_updated item (\<lambda>is. is @ [item]) (ensure_turn u b)"
    by (simp add: push_item_in_current_turn_def items_updated_def Let_def)
  show ?thesis unfolding eq
    by (rule ensured_good [OF assms(1), where P = "\<lambda>_. True"]) (use assms(2) eq upsert_new in auto)
qed

lemma upsert_current_good:
  assumes "tracks v b" and "ids_distinct (upsert_item_in_current_turn u item b)"
  shows "tracks v (upsert_item_in_current_turn u item b) \<and> current_kept (upsert_item_in_current_turn u item b)"
proof -
  have eq: "upsert_item_in_current_turn u item b = items_updated item (\<lambda>is. upsert_turn_item is item) (ensure_turn u b)"
    by (simp add: upsert_item_in_current_turn_def items_updated_def Let_def)
  show ?thesis unfolding eq
    by (rule ensured_good [OF assms(1), where P = "\<lambda>_. True"]) (use assms(2) eq in auto)
qed


lemma tracks_cong:
  assumes "tracks v b" and "all_turns b' = all_turns b" and "hb_active_change_set b' = hb_active_change_set b"
  shows "tracks v b'"
  using assms by (simp add: tracks_def)

lemma push_numbered_good:
  assumes "tracks v b" and "ids_distinct (push_numbered_item u mk b)"
  shows "tracks v (push_numbered_item u mk b) \<and> current_kept (push_numbered_item u mk b)"
proof -
  have "tracks v (take_item_id b)" by (rule tracks_cong [OF assms(1)]) (simp_all add: take_item_id_def all_turns_def)
  from push_good [OF this] assms(2) show ?thesis by (simp add: push_numbered_item_def)
qed

lemma find_turn_ids: "find_turn tid ts \<noteq> None \<longleftrightarrow> tid \<in> tn_id ` set ts"
  by (auto simp: find_turn_def find_None_iff)

lemma find_turn_Some: "find_turn tid ts = Some t \<Longrightarrow> t \<in> set ts \<and> tn_id t = tid"
  by (metis (mono_tags, lifting) find_Some_iff find_turn_def nth_mem)

lemma ids_distinct_turns:
  assumes "ids_distinct b"
  shows "distinct (map tn_id (all_turns b))" and "distinct (map tn_id (hb_turns b))"
  using assms by (simp_all add: ids_distinct_def all_turns_def)

lemma all_turns_update_turn:
  assumes "ids_distinct b" and "\<not> current_matches tid b"
  shows "all_turns (b\<lparr>hb_turns := update_turn tid f (hb_turns b)\<rparr>) = modify tid f (all_turns b)"
  using assms update_turn_modify [OF ids_distinct_turns(2) [OF assms(1)], of tid f]
  by (auto simp: all_turns_def current_matches_def split: option.splits)

lemma current_kept_cong: "hb_current_turn b' = hb_current_turn b \<Longrightarrow> current_kept b' = current_kept b"
  by (simp add: current_kept_def)

lemma upsert_turn_id_good:
  assumes "tracks v b" and "current_kept b" and "ids_distinct b"
  shows "tracks v (upsert_item_in_turn_id tid item b) \<and> current_kept (upsert_item_in_turn_id tid item b)"
proof (cases "current_matches tid b")
  case True
  then obtain t where t: "hb_current_turn b = Some t" "pt_id t = tid" by (auto simp: current_matches_def split: option.splits)
  then have "upsert_item_in_turn_id tid item b = items_updated item (\<lambda>is. upsert_turn_item is item) b"
    using True by (simp add: upsert_item_in_turn_id_def items_updated_def current_id_def)
  then show ?thesis
    using items_updated_good [OF assms(1) t(1) ids_distinct_current(1) [OF assms(3) t(1)]] by simp
next
  case False
  have upsert: "(\<lambda>t. t\<lparr>tn_items := upsert_turn_item (tn_items t) item\<rparr>) = upsert_into item"
    by (simp add: upsert_into_def fun_eq_iff)
  show ?thesis
  proof (cases "find_turn tid (hb_turns b) = None")
    case found: False
    let ?b = "b\<lparr>hb_turns := update_turn tid (upsert_into item) (hb_turns b)\<rparr>"
    have "tid \<in> tn_id ` set (hb_turns b)" using found find_turn_ids by blast
    then have "tid \<in> tn_id ` set (all_turns b)" unfolding all_turns_def by auto
    then have "tracks v (record_changed_item tid item ?b)"
      by (rule tracks_record_item [OF assms(1)]) (simp_all add: all_turns_update_turn [OF assms(3) False])
    then show ?thesis using False found assms(2) by (simp add: upsert_item_in_turn_id_def upsert current_kept_def)
  qed (use False assms in \<open>simp add: upsert_item_in_turn_id_def\<close>)
qed

lemma extend_reasoning_id: "extend_reasoning f g x = Some item \<Longrightarrow> item_id item = item_id x"
  by (cases x) auto

lemma ensure_idem [simp]: "ensure_turn u (ensure_turn u b) = ensure_turn u b"
  by simp

lemma extend_last_reasoning_cases:
  obtains (extended) item where "extend_last_reasoning u f g b =
      (True, items_updated item (\<lambda>is. butlast is @ [item]) (ensure_turn u b))"
      "extended_last f g (case hb_current_turn b of Some t \<Rightarrow> pt_items t | None \<Rightarrow> []) = Some item"
  | (new) "extend_last_reasoning u f g b = (False, ensure_turn u b)"
  by (cases "hb_current_turn b"; cases "extended_last f g (case hb_current_turn b of Some t \<Rightarrow> pt_items t | None \<Rightarrow> [])")
    (auto simp: extend_last_reasoning_def items_updated_def extended_last_def Let_def)

lemma reasoning_good:
  assumes "tracks v b" and "case extend_last_reasoning u f g b of (True, b1) \<Rightarrow> b' = b1 | (False, b1) \<Rightarrow> b' = push_numbered_item u mk b1"
    and "ids_distinct b'"
  shows "tracks v b' \<and> current_kept b'"
proof (cases rule: extend_last_reasoning_cases [of u f g b])
  case (extended item)
  then have b': "b' = items_updated item (\<lambda>is. butlast is @ [item]) (ensure_turn u b)" using assms(2) by simp
  show ?thesis unfolding b'
  proof (rule ensured_good [OF assms(1), where P = "\<lambda>is. extended_last f g is = Some item"])
    show "ids_distinct (items_updated item (\<lambda>is. butlast is @ [item]) (ensure_turn u b))" using assms(3) b' by simp
    fix "is" assume "distinct (map item_id (butlast is @ [item]))" and "extended_last f g is = Some item"
    then show "butlast is @ [item] = upsert_turn_item is item"
      using extend_reasoning_id upsert_last by (fastforce simp: extended_last_def split: if_splits)
  qed (rule extended(2))
next
  case new
  then have b': "b' = push_numbered_item u mk (ensure_turn u b)" using assms(2) by simp
  have "hb_turns b' = hb_turns b" "current_id b' = current_id (ensure_turn u b)"
    unfolding b' push_numbered_item_def push_item_in_current_turn_def Let_def
    by (simp_all add: take_item_id_def current_id_def split: option.split)
  moreover have "hb_current_turn b' \<noteq> None"
    unfolding b' push_numbered_item_def push_item_in_current_turn_def Let_def by simp
  ultimately have "current_id (ensure_turn u b) \<notin> tn_id ` set (hb_turns b)"
    using ids_distinct_current(1) [OF assms(3)] by (metis current_id_def not_None_eq option.simps(5))
  then have "tracks v (ensure_turn u b)" by (rule tracks_ensure [OF assms(1)])
  then show ?thesis using push_numbered_good assms(3) b' by simp
qed


lemma finish_good:
  assumes "tracks v b" and "current_kept b"
  shows "tracks v (finish_current_turn b)" and "current_kept (finish_current_turn b)"
proof -
  have "hb_active_change_set (finish_current_turn b) = hb_active_change_set b"
    by (simp add: finish_current_turn_def split: option.split)
  then show "tracks v (finish_current_turn b)" by (rule tracks_cong [OF assms(1) all_turns_finish(1) [OF assms(2)]])
qed (rule all_turns_finish(4) [OF assms(2)])

text \<open>A change of the open turn that keeps its id and items.\<close>

definition keeps_pending :: "(pending_turn \<Rightarrow> pending_turn) \<Rightarrow> bool" where
  "keeps_pending f = (\<forall>t. pt_id (f t) = pt_id t \<and> pt_items (f t) = pt_items t \<and>
     pt_opened_explicitly (f t) = pt_opened_explicitly t \<and> pt_saw_compaction (f t) = pt_saw_compaction t)"

lemma change_current_good:
  assumes "tracks v b" and "current_kept b" and "ids_distinct b" and "keeps_pending f"
  shows "tracks v (change_current f b)" and "current_kept (change_current f b)"
proof -
  show "tracks v (change_current f b)"
  proof (cases "hb_current_turn b")
    case (Some t)
    define g where "g x = (turn_of_pending (f t))\<lparr>tn_id := tn_id x, tn_items := tn_items x, tn_items_view := tn_items_view x\<rparr>" for x :: turn
    have eq: "g (turn_of_pending t) = turn_of_pending (f t)"
      using assms(4) by (simp add: g_def turn_of_pending_def keeps_pending_def)
    have "all_turns (b\<lparr>hb_current_turn := Some (f t)\<rparr>) = modify (tn_id (turn_of_pending t)) g (all_turns b)"
      using Some eq ids_distinct_current(1) [OF assms(3) Some] by (simp add: all_turns_def modify_absent)
    then have "tracks v (record_changed_turn (turn_change_of_turn (g (turn_of_pending t))) (b\<lparr>hb_current_turn := Some (f t)\<rparr>))"
      by (intro tracks_record_turn [OF assms(1) ids_distinct_turns(1) [OF assms(3)], where f = g and t = "turn_of_pending t"])
        (simp_all add: Some all_turns_def g_def)
    then show ?thesis using Some eq by (simp add: change_current_def)
  qed (use assms(1) in \<open>simp add: change_current_def\<close>)
  show "current_kept (change_current f b)"
    using assms(2,4) by (auto simp: change_current_def current_kept_def keeps_pending_def split: option.splits)
qed

lemma change_finished_good:
  assumes "tracks v b" and "current_kept b" and "ids_distinct b" and "\<not> current_matches tid b"
    and "\<And>t. tn_id (f t) = tn_id t" "\<And>t. tn_items (f t) = tn_items t" "\<And>t. tn_items_view (f t) = tn_items_view t"
  shows "tracks v (change_finished tid f b) \<and> current_kept (change_finished tid f b)"
proof (cases "find_turn tid (hb_turns b)")
  case (Some t)
  then have t: "t \<in> set (all_turns b)" "tid = tn_id t" using find_turn_Some by (auto simp: all_turns_def)
  have "tracks v (record_changed_turn (turn_change_of_turn (f t)) (b\<lparr>hb_turns := update_turn tid f (hb_turns b)\<rparr>))"
    by (rule tracks_record_turn [OF assms(1) ids_distinct_turns(1) [OF assms(3)] t(1) _ _ assms(5-7)])
      (use all_turns_update_turn [OF assms(3,4)] t(2) in simp_all)
  then show ?thesis using Some assms(2) by (simp add: change_finished_def current_kept_def)
qed (use assms in \<open>simp add: change_finished_def\<close>)

lemma keeps_pending_handlers [simp]: "keeps_pending (apply_abort a)" "keeps_pending (mark_completed c)"
  by (simp_all add: keeps_pending_def apply_abort_def mark_completed_def)

lemma handle_turn_aborted_good:
  assumes "tracks v b" and "current_kept b" and "ids_distinct b"
  shows "tracks v (handle_turn_aborted p b) \<and> current_kept (handle_turn_aborted p b)"
  using change_current_good [OF assms, of "apply_abort p"] change_finished_good [OF assms, where f = "apply_abort_finished p"]
  by (auto simp: handle_turn_aborted_def apply_abort_finished_def split: option.split)

lemma handle_turn_complete_good:
  assumes "tracks v b" and "current_kept b" and "ids_distinct b"
  shows "tracks v (handle_turn_complete p b) \<and> current_kept (handle_turn_complete p b)"
  using change_current_good [OF assms, of "mark_completed p"] finish_good assms(1,2)
    change_finished_good [OF assms, where f = "mark_completed_finished p"]
  by (auto simp: handle_turn_complete_def mark_completed_finished_def)

lemma handle_error_good:
  assumes "tracks v b" and "current_kept b" and "ids_distinct b"
  shows "tracks v (handle_error p b) \<and> current_kept (handle_error p b)"
proof (cases "affects_turn_status p")
  case True
  let ?f = "\<lambda>t. t\<lparr>pt_status := TurnFailed, pt_error := Some \<lparr>te_message = err_message p,
      te_codex_error_info = err_codex_error_info p, te_additional_details = None\<rparr>\<rparr>"
  have "handle_error p b = change_current ?f b"
    using True by (simp add: handle_error_def change_current_def Let_def split: option.split)
  moreover have "keeps_pending ?f" by (simp add: keeps_pending_def)
  ultimately show ?thesis using change_current_good [OF assms, of ?f] by simp
qed (use assms in \<open>simp add: handle_error_def\<close>)

lemma handle_turn_started_good:
  assumes "tracks v b" and "current_kept b" and "ids_distinct (handle_turn_started u p b)"
  shows "tracks v (handle_turn_started u p b) \<and> current_kept (handle_turn_started u p b)"
proof -
  let ?b = "finish_current_turn b"
  let ?t = "(new_turn u (Some (tse_turn_id p)) ?b)
      \<lparr>pt_status := TurnInProgress, pt_started_at := tse_started_at p, pt_opened_explicitly := True\<rparr>"
  have eq: "handle_turn_started u p b = (record_changed_pending_turn ?t ?b)\<lparr>hb_current_turn := Some ?t\<rparr>"
    by (simp add: handle_turn_started_def Let_def)
  have turns: "hb_turns ?b = all_turns ?b" using all_turns_finish [OF assms(2)] by simp
  have "pt_id ?t \<notin> tn_id ` set (all_turns ?b)"
    using ids_distinct_current(1) [OF assms(3), of ?t] unfolding eq turns [symmetric] by simp
  then have "tracks v (handle_turn_started u p b)"
    by (rule tracks_record_new [OF finish_good(1) [OF assms(1,2)]]) (simp_all add: eq turns all_turns_def [of "_\<lparr>hb_current_turn := _\<rparr>"])
  then show ?thesis by (simp add: eq current_kept_def)
qed

lemma handle_compacted_good:
  assumes "tracks v b" and "ids_distinct (handle_compacted u b)"
  shows "tracks v (handle_compacted u b) \<and> current_kept (handle_compacted u b)"
proof -
  let ?t = "case hb_current_turn b of Some t \<Rightarrow> t | None \<Rightarrow> new_turn u None b"
  have "pt_id (?t\<lparr>pt_saw_compaction := True\<rparr>) \<notin> tn_id ` set (hb_turns (handle_compacted u b))"
    by (rule ids_distinct_current(1) [OF assms(2)]) (simp add: handle_compacted_def)
  then have "tracks v (ensure_turn u b)"
    by (intro tracks_ensure [OF assms(1)]) (simp add: handle_compacted_def current_id_def)
  then have "tracks v (handle_compacted u b)"
    by (rule tracks_cong) (simp_all add: handle_compacted_def all_turns_def turn_of_pending_def)
  then show ?thesis by (simp add: handle_compacted_def current_kept_def)
qed


lemma apply_empty [simp]: "apply_changes empty_change_set v = v"
  by (simp add: apply_changes_def empty_change_set_def remove_turns_def upsert_items_def upsert_turns_def split_def)

lemma handle_thread_rollback_turns:
  assumes "current_kept b"
  shows "hb_turns (handle_thread_rollback n b) = take (length (all_turns b) - n) (all_turns b)"
    and "hb_current_turn (handle_thread_rollback n b) = None"
    and "hb_active_change_set (handle_thread_rollback n b) = map_option (\<lambda>c. c\<lparr>cs_removed_turn_ids :=
      cs_removed_turn_ids c @ map tn_id (drop (length (all_turns b) - n) (all_turns b))\<rparr>) (hb_active_change_set b)"
proof -
  have act: "hb_active_change_set (finish_current_turn b) = hb_active_change_set b"
    by (simp add: finish_current_turn_def split: option.split)
  note fin = all_turns_finish [OF assms]
  show "hb_turns (handle_thread_rollback n b) = take (length (all_turns b) - n) (all_turns b)"
    by (simp add: handle_thread_rollback_def Let_def fin)
  show "hb_current_turn (handle_thread_rollback n b) = None"
    by (simp add: handle_thread_rollback_def Let_def fin)
  show "hb_active_change_set (handle_thread_rollback n b) = map_option (\<lambda>c. c\<lparr>cs_removed_turn_ids :=
      cs_removed_turn_ids c @ map tn_id (drop (length (all_turns b) - n) (all_turns b))\<rparr>) (hb_active_change_set b)"
    by (auto simp: handle_thread_rollback_def Let_def fin record_removed_turn_ids_def act)
qed

lemma handle_thread_rollback_good:
  assumes "hb_active_change_set b = Some empty_change_set" and "mirrors v (all_turns b)"
    and "current_kept b" and "ids_distinct b"
  shows "tracks v (handle_thread_rollback n b) \<and> current_kept (handle_thread_rollback n b)"
proof -
  let ?k = "length (all_turns b) - n"
  note rb = handle_thread_rollback_turns [OF assms(3), of n]
  have "all_turns (handle_thread_rollback n b) = take ?k (all_turns b)" by (simp add: all_turns_def [of "handle_thread_rollback n b"] rb)
  moreover have "apply_changes (empty_change_set\<lparr>cs_removed_turn_ids := ids\<rparr>) v = remove_turns ids v" for ids
    by (simp add: apply_changes_def empty_change_set_def upsert_items_def upsert_turns_def remove_turns_def)
  ultimately show ?thesis
    using assms(1) mirrors_take [OF assms(2) ids_distinct_turns(1) [OF assms(4)], of ?k]
    by (auto simp: tracks_def rb current_kept_def empty_change_set_def)
qed

lemma handle_user_message_good:
  assumes "tracks v b" and "current_kept b" and "ids_distinct (handle_user_message u p b)"
  shows "tracks v (handle_user_message u p b) \<and> current_kept (handle_user_message u p b)"
proof -
  let ?b = "case hb_current_turn b of Some t \<Rightarrow> if \<not> pt_opened_explicitly t \<and> \<not> (pt_saw_compaction t \<and> pt_items t = [])
      then finish_current_turn b else b | None \<Rightarrow> b"
  have "tracks v ?b" using finish_good(1) [OF assms(1,2)] assms(1) by (simp split: option.split)
  from push_numbered_good [OF this] assms(3) show ?thesis by (simp add: handle_user_message_def Let_def)
qed

lemma upsert_routed_good:
  assumes "tracks v b" and "current_kept b" and "ids_distinct b" and "ids_distinct (upsert_item_routed u tid item b)"
  shows "tracks v (upsert_item_routed u tid item b) \<and> current_kept (upsert_item_routed u tid item b)"
  using upsert_turn_id_good [OF assms(1-3)] upsert_current_good [OF assms(1)] assms(4)
  by (auto simp: upsert_item_routed_def)

lemma handle_reasoning_good:
  assumes "tracks v b" and "current_kept b"
  shows "ids_distinct (handle_agent_reasoning u t b) \<Longrightarrow> tracks v (handle_agent_reasoning u t b) \<and> current_kept (handle_agent_reasoning u t b)"
    and "ids_distinct (handle_agent_reasoning_raw_content u t b) \<Longrightarrow>
      tracks v (handle_agent_reasoning_raw_content u t b) \<and> current_kept (handle_agent_reasoning_raw_content u t b)"
proof -
  show "tracks v (handle_agent_reasoning u t b) \<and> current_kept (handle_agent_reasoning u t b)"
    if "ids_distinct (handle_agent_reasoning u t b)"
  proof (cases "t = []")
    case False
    then show ?thesis
      by (intro reasoning_good [OF assms(1), where u = u and f = "\<lambda>s. s @ [t]" and g = id and mk = "\<lambda>i. ItemReasoning i [t] []"] that)
        (simp add: handle_agent_reasoning_def split: prod.split bool.split)
  qed (use assms in \<open>simp add: handle_agent_reasoning_def\<close>)
  show "tracks v (handle_agent_reasoning_raw_content u t b) \<and> current_kept (handle_agent_reasoning_raw_content u t b)"
    if "ids_distinct (handle_agent_reasoning_raw_content u t b)"
  proof (cases "t = []")
    case False
    then show ?thesis
      by (intro reasoning_good [OF assms(1), where u = u and f = id and g = "\<lambda>c. c @ [t]" and mk = "\<lambda>i. ItemReasoning i [] [t]"] that)
        (simp add: handle_agent_reasoning_raw_content_def split: prod.split bool.split)
  qed (use assms in \<open>simp add: handle_agent_reasoning_raw_content_def\<close>)
qed

lemmas handler_good =
  push_numbered_good upsert_current_good upsert_turn_id_good upsert_routed_good handle_user_message_good
  handle_reasoning_good handle_error_good handle_turn_aborted_good handle_turn_complete_good handle_turn_started_good

lemma handle_event_good:
  assumes "hb_active_change_set b = Some empty_change_set" and "mirrors v (all_turns b)"
    and "current_kept b" and "ids_distinct b" and "ids_distinct (handle_event api u e b)"
  shows "tracks v (handle_event api u e b) \<and> current_kept (handle_event api u e b)"
proof -
  have tr: "tracks v b" using assms(1,2) by (simp add: tracks_def)
  note rb = handle_thread_rollback_good [OF assms(1-4)]
  show ?thesis
    using assms(3-5) tr
    by (cases e) (simp_all add: handler_defs handler_good rb split: if_splits option.splits turn_item.splits)
qed


lemma all_turns_untracked [simp]: "all_turns (untracked b) = all_turns b" "current_kept (untracked b) = current_kept b"
    "ids_distinct (untracked b) = ids_distinct b"
  by (simp_all add: all_turns_def current_kept_def ids_distinct_def)

lemma next_rollout_item_simps [simp]:
  "all_turns (next_rollout_item b) = all_turns b" "current_kept (next_rollout_item b) = current_kept b"
  "ids_distinct (next_rollout_item b) = ids_distinct b"
  "hb_active_change_set (next_rollout_item b) = hb_active_change_set b"
  by (simp_all add: next_rollout_item_def all_turns_def current_kept_def ids_distinct_def)

lemma handle_rollout_item_good:
  assumes "hb_active_change_set b = Some empty_change_set" and "mirrors v (all_turns b)"
    and "current_kept b" and "ids_distinct b" and "ids_distinct (handle_rollout_item api u item b)"
  shows "tracks v (handle_rollout_item api u item b) \<and> current_kept (handle_rollout_item api u item b)"
proof -
  let ?b = "next_rollout_item b"
  have tr: "tracks v ?b" using assms(1,2) by (simp add: tracks_def)
  have kept: "current_kept ?b" using assms(3) by simp
  show ?thesis
  proof (cases item)
    case (RolloutResponseItem ri)
    then have "ids_distinct (handle_response_item api u ri ?b)" using assms(5) by (simp add: handle_rollout_item_def)
    with tr kept push_good show ?thesis
      by (simp add: RolloutResponseItem handle_rollout_item_def handle_response_item_def split: response_item.splits if_splits option.splits)
  next
    case (RolloutCompacted c)
    then show ?thesis using handle_compacted_good [OF tr, of u] assms(5) by (simp add: handle_rollout_item_def)
  next
    case (RolloutEvent e)
    then show ?thesis using handle_event_good [of ?b v api u e] assms by (simp add: handle_rollout_item_def)
  qed (use tr kept in \<open>simp_all add: handle_rollout_item_def\<close>)
qed

lemma with_changes_mirrors:
  assumes "mirrors v (all_turns b)" and "current_kept b" and "ids_distinct b"
    and "ids_distinct (handle_rollout_item api u item (untracked b))"
  shows "mirrors (apply_changes (snd (handle_rollout_item_with_changes api u item b)) v)
      (all_turns (handle_rollout_item api u item (untracked b)))"
    and "current_kept (handle_rollout_item api u item (untracked b))"
proof -
  let ?b = "b\<lparr>hb_active_change_set := Some empty_change_set\<rparr>"
  have eq: "untracked (handle_rollout_item api u item ?b) = handle_rollout_item api u item (untracked b)"
    by (simp add: untracked_handle_rollout_item)
  have b: "all_turns ?b = all_turns b" "current_kept ?b = current_kept b" "ids_distinct ?b = ids_distinct b"
    by (simp_all add: all_turns_def current_kept_def ids_distinct_def)
  have post: "ids_distinct (handle_rollout_item api u item ?b)" using assms(4) eq all_turns_untracked(3) by metis
  have good: "tracks v (handle_rollout_item api u item ?b) \<and> current_kept (handle_rollout_item api u item ?b)"
    by (rule handle_rollout_item_good [OF _ _ _ _ post]) (use assms(1-3) b in simp_all)
  then show "current_kept (handle_rollout_item api u item (untracked b))"
    using eq all_turns_untracked(2) by metis
  have "all_turns (handle_rollout_item api u item ?b) = all_turns (handle_rollout_item api u item (untracked b))"
    using eq all_turns_untracked(1) by metis
  with good show "mirrors (apply_changes (snd (handle_rollout_item_with_changes api u item b)) v)
      (all_turns (handle_rollout_item api u item (untracked b)))"
    by (auto simp: tracks_def handle_rollout_item_with_changes_def collect_changes_def Let_def)
qed

section \<open>Batches\<close>

definition distinct_throughout :: "thread_api \<Rightarrow> (rstr \<times> rollout_item) list \<Rightarrow> thread_history_builder \<Rightarrow> bool" where
  "distinct_throughout api items b =
     list_all (\<lambda>k. ids_distinct (handle_rollout_items api (take k items) b)) [0..<Suc (length items)]"

lemma distinct_throughout_iff:
  "distinct_throughout api items b \<longleftrightarrow> (\<forall>k \<le> length items. ids_distinct (handle_rollout_items api (take k items) b))"
  by (auto simp: distinct_throughout_def list_all_iff less_Suc_eq_le simp del: upt_Suc)

lemma distinct_throughout_prefix:
  assumes "distinct_throughout api items b" and "k \<le> length items"
  shows "ids_distinct (handle_rollout_items api (take k items) b)"
  using assms by (simp add: distinct_throughout_iff)

lemma handle_rollout_items_append:
  "handle_rollout_items api (xs @ ys) b = handle_rollout_items api ys (handle_rollout_items api xs b)"
  by (induction api xs b rule: handle_rollout_items.induct) auto

lemma distinct_throughout_Cons:
  assumes "distinct_throughout api ((u, item) # items) b"
  shows "ids_distinct b" and "distinct_throughout api items (handle_rollout_item api u item b)"
proof -
  show "ids_distinct b" using distinct_throughout_prefix [OF assms, of 0] by simp
  show "distinct_throughout api items (handle_rollout_item api u item b)"
    using distinct_throughout_prefix [OF assms, of "Suc _"] by (simp add: distinct_throughout_iff)
qed

lemma distinct_throughout_append:
  assumes "distinct_throughout api (xs @ ys) b"
  shows "distinct_throughout api xs b" and "distinct_throughout api ys (handle_rollout_items api xs b)"
proof -
  show "distinct_throughout api xs b"
    using distinct_throughout_prefix [OF assms] by (simp add: distinct_throughout_iff) (metis diff_is_0_eq take_0 append_Nil2 trans_le_add1)
  have "ids_distinct (handle_rollout_items api (take k ys) (handle_rollout_items api xs b))" if "k \<le> length ys" for k
    using distinct_throughout_prefix [OF assms, of "length xs + k"] that by (simp add: handle_rollout_items_append)
  then show "distinct_throughout api ys (handle_rollout_items api xs b)"
    by (simp add: distinct_throughout_iff)
qed

lemma untracked_rollout_item_None:
  "untracked b = b \<Longrightarrow> untracked (handle_rollout_item api u item b) = handle_rollout_item api u item b"
  by (simp add: untracked_handle_rollout_item)

lemma accumulate_mirrors:
  assumes "mirrors (apply_changes (accumulator_finish acc) v) (all_turns b)" and "acc_ok acc"
    and "current_kept b" and "untracked b = b" and "distinct_throughout api items b"
  shows "mirrors (apply_changes (accumulator_finish (snd (accumulate_rollout_items api items b acc))) v)
      (all_turns (handle_rollout_items api items b)) \<and> current_kept (handle_rollout_items api items b)"
  using assms
proof (induction items arbitrary: b acc)
  case (Cons ui items)
  obtain u item where ui: "ui = (u, item)" by fastforce
  let ?b = "handle_rollout_item api u item b" and ?c = "snd (handle_rollout_item_with_changes api u item b)"
  note dt = distinct_throughout_Cons [OF Cons.prems(5) [unfolded ui]]
  have post: "ids_distinct ?b" using distinct_throughout_prefix [OF dt(2), of 0] by simp
  note step = with_changes_mirrors [OF Cons.prems(1,3) dt(1), where api = api and u = u and item = item]
  have "mirrors (apply_changes (accumulator_finish (accumulator_push ?c acc)) v) (all_turns ?b)" "current_kept ?b"
    using step post Cons.prems(4) by (simp_all add: apply_accumulator_push [OF Cons.prems(2)])
  from Cons.IH [OF this(1) accumulator_push_acc(1) [OF Cons.prems(2)] this(2) untracked_rollout_item_None [OF Cons.prems(4)] dt(2)]
  show ?case using ui with_changes_state [of api u item b] Cons.prems(4) by (simp add: split_def)
qed simp

text \<open>A reader that is given the change set of each batch.\<close>

fun run_batches :: "thread_api \<Rightarrow> (rstr \<times> rollout_item) list list \<Rightarrow> thread_history_builder \<Rightarrow> projection
      \<Rightarrow> thread_history_builder \<times> projection" where
  "run_batches api [] b v = (b, v)"
| "run_batches api (items # batches) b v =
     (case handle_rollout_items_with_changes api items b of (b', c) \<Rightarrow> run_batches api batches b' (apply_changes c v))"

lemma run_batches_mirrors:
  assumes "mirrors v (all_turns b)" and "current_kept b" and "untracked b = b"
    and "distinct_throughout api (concat batches) b"
  shows "mirrors (snd (run_batches api batches b v)) (all_turns (handle_rollout_items api (concat batches) b)) \<and>
    current_kept (handle_rollout_items api (concat batches) b) \<and>
    fst (run_batches api batches b v) = handle_rollout_items api (concat batches) b"
  using assms
proof (induction batches arbitrary: b v)
  case (Cons items batches)
  let ?b = "handle_rollout_items api items b"
  have dt: "distinct_throughout api items b" "distinct_throughout api (concat batches) ?b"
    using distinct_throughout_append Cons.prems(4) by (simp_all add: concat.simps)
  have "untracked ?b = ?b" using Cons.prems(3)
    by (induction api items b rule: handle_rollout_items.induct) (simp_all add: untracked_rollout_item_None)
  moreover have "mirrors (apply_changes (snd (handle_rollout_items_with_changes api items b)) v) (all_turns ?b)"
      "current_kept ?b"
    using accumulate_mirrors [of accumulator_new v b api items] Cons.prems(1-3) dt(1)
    by (simp_all add: handle_rollout_items_with_changes_def split_def)
  moreover have "fst (handle_rollout_items_with_changes api items b) = ?b"
    using accumulate_state [OF Cons.prems(3)] by (simp add: handle_rollout_items_with_changes_def split_def)
  ultimately show ?case using Cons.IH dt(2) by (simp add: split_def handle_rollout_items_append)
qed simp

lemma history_new_facts [simp]: "all_turns history_new = []" "current_kept history_new" "untracked history_new = history_new"
    "ids_distinct history_new"
  by (simp_all add: history_new_def all_turns_def current_kept_def untracked_def ids_distinct_def)


definition demo_thread_api :: thread_api where
  "demo_thread_api = \<lparr>api_path_env = \<lparr>home_dir = None, current_dir = None\<rparr>, api_shlex_try_join = (\<lambda>ts. Some (concat ts)),
     api_parse_command = (\<lambda>_. []), api_uri_is_native = (\<lambda>_. False), api_uri_to_abs_path = (\<lambda>_. None),
     api_app_path_of_uri = id, api_app_path_of_abs = (\<lambda>_. []), api_from_xml = (\<lambda>_. None)\<rparr>"

definition demo_user :: "rstr \<Rightarrow> rollout_item" where
  "demo_user t = RolloutEvent (EvUserMessage \<lparr>ume_client_id = None, ume_message = t, ume_images = None,
     ume_image_details = [], ume_local_images = [], ume_local_image_details = [], ume_text_elements = []\<rparr>)"

definition demo_start :: "rstr \<Rightarrow> rollout_item" where
  "demo_start t = RolloutEvent (EvTurnStarted \<lparr>tse_turn_id = t, tse_trace_id = None, tse_started_at = Some 7,
     tse_model_context_window = None, tse_collaboration_mode_kind = DefaultMode\<rparr>)"

definition demo_search :: "rstr \<Rightarrow> rollout_item" where
  "demo_search i = RolloutEvent (EvWebSearchEnd \<lparr>wse_call_id = i, wse_query = ''q'', wse_action = OtherAction\<rparr>)"

definition demo_agent :: "rstr \<Rightarrow> rollout_item" where
  "demo_agent t = RolloutEvent (EvAgentMessage \<lparr>ame_message = t, ame_phase = None, ame_memory_citation = None\<rparr>)"

definition demo_rollout :: "(rstr \<times> rollout_item) list" where
  "demo_rollout = map (Pair [])
     [demo_user ''a'', demo_search ''c'', demo_search ''c'', demo_start ''t'', demo_user ''b'', demo_agent ''x'',
      RolloutEvent (EvThreadRolledBack 1), demo_start ''v'', demo_agent ''y'', RolloutEvent (EvAgentReasoning ''z'')]"


end
