(* ===== verification/Thread_Ids.thy ===== *)
theory Thread_Ids
  imports Thread_Replay
begin

text \<open>
  The ids of the thread history. Turns that are opened implicitly are named after the line of the
  rollout, items without a call are numbered. If the ids that come from outside do not look like these
  and do not repeat where they must not, all ids stay distinct, also after a rollback has reset
  the number of the next item.
\<close>

section \<open>Generated ids\<close>

definition item_number :: "nat \<Rightarrow> rstr" where
  "item_number n = ''item-'' @ decimal n"

definition rollout_turn_id :: "nat \<Rightarrow> rstr" where
  "rollout_turn_id k = ''rollout-'' @ decimal k"

lemma decimal_inj: "decimal m = decimal n \<Longrightarrow> m = n"
proof (induction m arbitrary: n rule: decimal.induct)
  case (1 m)
  have last: "last (decimal k) = char_of (k mod 10 + 48)" for k by (subst decimal.simps) simp
  have butlast: "butlast (decimal k) = (if k < 10 then [] else decimal (k div 10))" for k by (subst decimal.simps) simp
  have "(of_char (char_of (k mod 10 + 48 :: nat) :: char) :: nat) = k mod 10 + 48" for k :: nat by simp
  then have mod: "m mod 10 = n mod 10" using last [of m] last [of n] "1.prems" by (metis add_right_cancel)
  have "(if m < 10 then [] else decimal (m div 10)) = (if n < 10 then [] else decimal (n div 10))"
    using butlast [of m] butlast [of n] "1.prems" by simp
  moreover have "[] \<noteq> decimal k" for k using decimal_ne by metis
  ultimately have "m div 10 = n div 10" using "1.IH" [of "n div 10"] by (auto split: if_splits)
  with mod show ?case by (metis mult_div_mod_eq)
qed

lemma item_number_inj [simp]: "item_number m = item_number n \<longleftrightarrow> m = n"
  using decimal_inj by (auto simp: item_number_def)

lemma rollout_turn_id_inj [simp]: "rollout_turn_id m = rollout_turn_id n \<longleftrightarrow> m = n"
  using decimal_inj by (auto simp: rollout_turn_id_def)

section \<open>Invariant\<close>

type_synonym id_shape = "(rstr \<times> rstr list) list"

definition shape :: "thread_history_builder \<Rightarrow> id_shape" where
  "shape b = map (\<lambda>t. (tn_id t, map item_id (tn_items t))) (all_turns b)"

definition item_total :: "id_shape \<Rightarrow> nat" where
  "item_total sh = sum_list (map (\<lambda>(_, ids). length ids) sh)"

text \<open>
  \<open>A\<close> holds the ids of items from outside, \<open>S\<close> those of turns, \<open>r\<close> bounds the numbers of lines, \<open>m\<close> the numbers
  of items. In every prefix of the turns the numbers are at most the number of items: a rollback
  leaves a prefix, and counts its items.
\<close>

definition turn_ids_ok :: "rstr set \<Rightarrow> rstr set \<Rightarrow> nat \<Rightarrow> nat \<Rightarrow> rstr \<times> rstr list \<Rightarrow> bool" where
  "turn_ids_ok A S r m ti = (distinct (snd ti) \<and> (fst ti \<in> S \<or> (\<exists>k < r. fst ti = rollout_turn_id k)) \<and>
     (\<forall>x \<in> set (snd ti). x \<in> A \<or> (\<exists>n < m. x = item_number n)))"

definition numbers_ok :: "id_shape \<Rightarrow> bool" where
  "numbers_ok sh = (\<forall>k. \<forall>ti \<in> set (take k sh). \<forall>n. item_number n \<in> set (snd ti) \<longrightarrow> n \<le> item_total (take k sh))"

definition shape_inv :: "rstr set \<Rightarrow> rstr set \<Rightarrow> nat \<Rightarrow> nat \<Rightarrow> nat \<Rightarrow> id_shape \<Rightarrow> bool" where
  "shape_inv A S r c m sh = (distinct (map fst sh) \<and> (\<forall>ti \<in> set sh. turn_ids_ok A S r m ti) \<and> numbers_ok sh \<and>
     m \<le> item_total sh + 1 \<and> item_total sh \<le> c)"

lemma item_total_simps [simp]: "item_total [] = 0" "item_total (ti # sh) = length (snd ti) + item_total sh" "item_total (xs @ ys) = item_total xs + item_total ys"
  by (simp_all add: item_total_def split_beta)

lemma shape_inv_empty [simp]: "shape_inv A S r c (Suc 0) []"
  by (simp add: shape_inv_def numbers_ok_def)

lemma turn_ids_ok_mono:
  assumes "turn_ids_ok A S r m ti" and "A \<subseteq> A'" and "S \<subseteq> S'" and "r \<le> r'" and "m \<le> m'"
  shows "turn_ids_ok A' S' r' m' ti"
proof -
  have "\<exists>k < r'. fst ti = rollout_turn_id k" if "\<exists>k < r. fst ti = rollout_turn_id k" using that assms(4) less_le_trans by blast
  moreover have "\<exists>n < m'. x = item_number n" if "\<exists>n < m. x = item_number n" for x using that assms(5) less_le_trans by blast
  ultimately show ?thesis using assms(1-3) unfolding turn_ids_ok_def by blast
qed

lemma shape_inv_mono:
  assumes "shape_inv A S r c m sh" and "A \<subseteq> A'" and "S \<subseteq> S'" and "r \<le> r'" and "c \<le> c'"
  shows "shape_inv A' S' r' c' m sh"
  using assms turn_ids_ok_mono [OF _ assms(2-4) order_refl] by (auto simp: shape_inv_def)

lemma numbers_ok_append:
  assumes "numbers_ok sh" and "\<And>n. item_number n \<in> set ids \<Longrightarrow> n \<le> item_total sh + length ids"
  shows "numbers_ok (sh @ [(t, ids)])"
  unfolding numbers_ok_def
proof (intro allI ballI impI)
  fix k ti n assume ti: "ti \<in> set (take k (sh @ [(t, ids)]))" and n: "item_number n \<in> set (snd ti)"
  show "n \<le> item_total (take k (sh @ [(t, ids)]))"
  proof (cases "k \<le> length sh")
    case True
    then show ?thesis using assms(1) ti n by (auto simp: numbers_ok_def)
  next
    case False
    then have full: "take k (sh @ [(t, ids)]) = sh @ [(t, ids)]" by simp
    then consider "ti \<in> set sh" | "ti = (t, ids)" using ti by auto
    then show ?thesis
    proof cases
      case 1
      then have "n \<le> item_total sh" using assms(1) n unfolding numbers_ok_def by (metis order_refl take_all)
      then show ?thesis unfolding full by simp
    next
      case 2
      then show ?thesis using assms(2) n unfolding full by simp
    qed
  qed
qed

lemma numbers_ok_take:
  assumes "numbers_ok sh"
  shows "numbers_ok (take j sh)"
  using assms unfolding numbers_ok_def take_take by blast

lemma numbers_ok_butlast: "numbers_ok (sh @ [ti]) \<Longrightarrow> numbers_ok sh"
  using numbers_ok_take [of "sh @ [ti]" "length sh"] by simp

lemma numbers_ok_last:
  assumes "numbers_ok (sh @ [(t, ids)])" and "item_number n \<in> set ids"
  shows "n \<le> item_total sh + length ids"
  using assms unfolding numbers_ok_def
  by (auto dest: spec [of _ "Suc (length sh)"])

lemma shape_inv_new:
  assumes "shape_inv A S r c m sh" and "t \<notin> fst ` set sh" and "t \<in> S \<or> (\<exists>k < r. t = rollout_turn_id k)"
  shows "shape_inv A S r c m (sh @ [(t, [])])"
  using assms numbers_ok_append [of sh "[]" t] by (auto simp: shape_inv_def turn_ids_ok_def)

text \<open>Adding the next number, or an id from outside, to the last turn.\<close>

lemma shape_inv_push_number:
  assumes "shape_inv A S r c m (sh @ [(t, ids)])" and "\<And>n. item_number n \<notin> A"
  shows "shape_inv A S r (Suc c) (Suc m) (sh @ [(t, ids @ [item_number m])])"
proof -
  have "item_number m \<notin> set ids" using assms by (auto simp: shape_inv_def turn_ids_ok_def)
  moreover have "numbers_ok (sh @ [(t, ids @ [item_number m])])"
  proof (rule numbers_ok_append)
    show "numbers_ok sh" using assms(1) numbers_ok_butlast by (auto simp: shape_inv_def)
    fix n assume "item_number n \<in> set (ids @ [item_number m])"
    then show "n \<le> item_total sh + length (ids @ [item_number m])"
      using assms(1) numbers_ok_last by (fastforce simp: shape_inv_def)
  qed
  moreover have "turn_ids_ok A S r (Suc m) ti" if "ti \<in> set sh" for ti
    using assms(1) that turn_ids_ok_mono [of A S r m ti A S r "Suc m"] by (simp add: shape_inv_def)
  moreover have "turn_ids_ok A S r (Suc m) (t, ids @ [item_number m])"
    using assms(1) calculation(1) by (auto simp: shape_inv_def turn_ids_ok_def less_Suc_eq)
  ultimately show ?thesis using assms(1) by (auto simp: shape_inv_def)
qed

lemma shape_inv_push_outside:
  assumes "shape_inv A S r c m (sh @ [(t, ids)])" and "x \<notin> A" and "\<And>n. x \<noteq> item_number n"
  shows "shape_inv (insert x A) S r (Suc c) m (sh @ [(t, ids @ [x])])"
proof -
  have "x \<notin> set ids" using assms by (auto simp: shape_inv_def turn_ids_ok_def)
  moreover have "numbers_ok (sh @ [(t, ids @ [x])])"
  proof (rule numbers_ok_append)
    show "numbers_ok sh" using assms(1) numbers_ok_butlast by (auto simp: shape_inv_def)
    fix n assume "item_number n \<in> set (ids @ [x])"
    then show "n \<le> item_total sh + length (ids @ [x])"
      using assms(1,3) numbers_ok_last by (fastforce simp: shape_inv_def)
  qed
  moreover have "turn_ids_ok (insert x A) S r m ti" if "ti \<in> set sh" for ti
    using assms(1) that turn_ids_ok_mono [of A S r m ti "insert x A" S r m] by (auto simp: shape_inv_def)
  moreover have "turn_ids_ok (insert x A) S r m (t, ids @ [x])"
    using assms(1) calculation(1) by (auto simp: shape_inv_def turn_ids_ok_def)
  ultimately show ?thesis using assms(1) by (auto simp: shape_inv_def)
qed

lemma item_total_take_le: "item_total (take k sh) \<le> item_total sh"
  by (metis append_take_drop_id le_add1 item_total_simps(3))

lemma shape_inv_take:
  assumes "shape_inv A S r c m sh"
  shows "shape_inv A S r c (item_total (take k sh) + 1) (take k sh)"
proof -
  have "turn_ids_ok A S r (item_total (take k sh) + 1) ti" if "ti \<in> set (take k sh)" for ti
  proof -
    have "turn_ids_ok A S r m ti" using assms in_set_takeD [OF that] by (simp add: shape_inv_def)
    moreover have "n \<le> item_total (take k sh)" if "item_number n \<in> set (snd ti)" for n
      using assms that \<open>ti \<in> set (take k sh)\<close> by (auto simp: shape_inv_def numbers_ok_def)
    ultimately show ?thesis by (fastforce simp: turn_ids_ok_def less_Suc_eq_le)
  qed
  moreover have "numbers_ok (take k sh)" using assms by (auto simp: shape_inv_def numbers_ok_def)
  moreover have "item_total (take k sh) \<le> c" using assms item_total_take_le [of k sh] by (simp add: shape_inv_def)
  ultimately show ?thesis using assms by (simp add: shape_inv_def take_map [symmetric] distinct_take del: take_map)
qed

text \<open>Replacing or adding an item of the turn with an id.\<close>

definition upsert_id :: "rstr \<Rightarrow> rstr list \<Rightarrow> rstr list" where
  "upsert_id x ids = (if x \<in> set ids then ids else ids @ [x])"

definition upsert_shape :: "rstr \<Rightarrow> rstr \<Rightarrow> id_shape \<Rightarrow> id_shape" where
  "upsert_shape tid x sh = map (\<lambda>ti. if fst ti = tid then (fst ti, upsert_id x (snd ti)) else ti) sh"

lemma in_upsert_shape:
  assumes "ti \<in> set (upsert_shape tid x sh)"
  obtains ti' where "ti' \<in> set sh" and "ti = (if fst ti' = tid then (fst ti', upsert_id x (snd ti')) else ti')"
  using assms unfolding upsert_shape_def set_map image_iff by blast

lemma item_total_upsert:
  assumes "distinct (map fst sh)"
  shows "item_total sh \<le> item_total (upsert_shape tid x sh)" and "item_total (upsert_shape tid x sh) \<le> Suc (item_total sh)"
proof -
  have id: "upsert_shape tid x sh = sh" if "tid \<notin> fst ` set sh" for sh
    unfolding upsert_shape_def by (rule map_idI) (use that in auto)
  show "item_total sh \<le> item_total (upsert_shape tid x sh)" by (induction sh) (auto simp: upsert_shape_def upsert_id_def)
  show "item_total (upsert_shape tid x sh) \<le> Suc (item_total sh)"
    using assms
  proof (induction sh)
    case (Cons ti sh)
    show ?case
    proof (cases "fst ti = tid")
      case True
      then have "upsert_shape tid x sh = sh" using Cons.prems by (intro id) auto
      then show ?thesis using True by (simp add: upsert_shape_def upsert_id_def)
    qed (use Cons in \<open>simp add: upsert_shape_def\<close>)
  qed (simp add: upsert_shape_def)
qed

lemma shape_inv_upsert:
  assumes "shape_inv A S r c m sh" and "x \<in> A" and "\<And>n. x \<noteq> item_number n"
  shows "shape_inv A S r (Suc c) m (upsert_shape tid x sh)"
proof -
  have dist: "distinct (map fst sh)" using assms(1) by (simp add: shape_inv_def)
  have "map fst (upsert_shape tid x sh) = map fst sh" by (simp add: upsert_shape_def)
  moreover have "turn_ids_ok A S r m ti" if mem: "ti \<in> set (upsert_shape tid x sh)" for ti
  proof -
    obtain ti' where "ti' \<in> set sh" and ti: "ti = (if fst ti' = tid then (fst ti', upsert_id x (snd ti')) else ti')"
      by (rule in_upsert_shape [OF mem])
    then have "turn_ids_ok A S r m ti'" using assms(1) by (simp add: shape_inv_def)
    then show ?thesis using assms(2) by (auto simp: ti turn_ids_ok_def upsert_id_def)
  qed
  moreover have "numbers_ok (upsert_shape tid x sh)"
    unfolding numbers_ok_def
  proof (intro allI ballI impI)
    fix k ti n assume ti: "ti \<in> set (take k (upsert_shape tid x sh))" and n: "item_number n \<in> set (snd ti)"
    have eq: "take k (upsert_shape tid x sh) = upsert_shape tid x (take k sh)" by (simp add: upsert_shape_def take_map)
    obtain ti' where "ti' \<in> set (take k sh)" and ti': "ti = (if fst ti' = tid then (fst ti', upsert_id x (snd ti')) else ti')"
      by (rule in_upsert_shape [OF ti [unfolded eq]])
    moreover have "item_number n \<in> set (snd ti')"
      using n assms(3) [of n] by (auto simp: ti' upsert_id_def split: if_splits)
    ultimately have "n \<le> item_total (take k sh)" using assms(1) by (auto simp: shape_inv_def numbers_ok_def)
    also have "\<dots> \<le> item_total (upsert_shape tid x (take k sh))"
      using dist by (intro item_total_upsert(1)) (simp add: take_map [symmetric] distinct_take del: take_map)
    finally show "n \<le> item_total (take k (upsert_shape tid x sh))" by (simp add: eq)
  qed
  ultimately show ?thesis using assms(1) item_total_upsert [OF dist, of tid x] dist by (auto simp: shape_inv_def)
qed


section \<open>What the operations do to the ids\<close>

named_theorems index_simps \<open>operations keep the rollout indexes\<close>

lemma record_indexes [index_simps]:
  "hb_current_rollout_index (record_changed_item i x b) = hb_current_rollout_index b"
  "hb_next_rollout_index (record_changed_item i x b) = hb_next_rollout_index b"
  "hb_next_item_index (record_changed_item i x b) = hb_next_item_index b"
  "hb_current_rollout_index (record_changed_turn tc b) = hb_current_rollout_index b"
  "hb_next_rollout_index (record_changed_turn tc b) = hb_next_rollout_index b"
  "hb_next_item_index (record_changed_turn tc b) = hb_next_item_index b"
  "hb_current_rollout_index (record_changed_pending_turn t b) = hb_current_rollout_index b"
  "hb_next_rollout_index (record_changed_pending_turn t b) = hb_next_rollout_index b"
  "hb_next_item_index (record_changed_pending_turn t b) = hb_next_item_index b"
  "hb_current_rollout_index (record_removed_turn_ids ids b) = hb_current_rollout_index b"
  "hb_next_rollout_index (record_removed_turn_ids ids b) = hb_next_rollout_index b"
  by (simp_all add: record_changed_item_def record_changed_turn_def record_changed_pending_turn_def record_removed_turn_ids_def)

lemma finish_indexes [index_simps]:
  "hb_current_rollout_index (finish_current_turn b) = hb_current_rollout_index b"
  "hb_next_rollout_index (finish_current_turn b) = hb_next_rollout_index b"
  "hb_next_item_index (finish_current_turn b) = hb_next_item_index b"
  by (simp_all add: finish_current_turn_def split: option.split)

lemma ensure_indexes [index_simps]:
  "hb_current_rollout_index (ensure_turn u b) = hb_current_rollout_index b"
  "hb_next_rollout_index (ensure_turn u b) = hb_next_rollout_index b"
  "hb_next_item_index (ensure_turn u b) = hb_next_item_index b"
  by (simp_all add: ensure_turn_def Let_def index_simps split: option.split)

lemma items_updated_indexes [index_simps]:
  "hb_current_rollout_index (items_updated x g b) = hb_current_rollout_index b"
  "hb_next_rollout_index (items_updated x g b) = hb_next_rollout_index b"
  "hb_next_item_index (items_updated x g b) = hb_next_item_index b"
  by (simp_all add: items_updated_def update_current_def index_simps)

lemma item_ops_updated:
  "push_item_in_current_turn u x b = items_updated x (\<lambda>is. is @ [x]) (ensure_turn u b)"
  "upsert_item_in_current_turn u x b = items_updated x (\<lambda>is. upsert_turn_item is x) (ensure_turn u b)"
  by (simp_all add: push_item_in_current_turn_def upsert_item_in_current_turn_def items_updated_def Let_def)

lemma shape_record [simp]:
  "shape (record_changed_item i x b) = shape b" "shape (record_changed_turn tc b) = shape b"
  "shape (record_changed_pending_turn t b) = shape b"
  by (simp_all add: shape_def)

lemma shape_cong: "all_turns b' = all_turns b \<Longrightarrow> shape b' = shape b"
  by (simp add: shape_def)

definition front :: "thread_history_builder \<Rightarrow> id_shape" where
  "front b = map (\<lambda>t. (tn_id t, map item_id (tn_items t))) (hb_turns b)"

lemma shape_current:
  "hb_current_turn b = Some t \<Longrightarrow> shape b = front b @ [(pt_id t, map item_id (pt_items t))]"
  "hb_current_turn b = None \<Longrightarrow> shape b = front b"
  by (simp_all add: shape_def front_def all_turns_def)

lemma front_simps [simp]: "front (items_updated x g b) = front b" "front (ensure_turn u b) = front b"
  by (simp_all add: front_def items_updated_current)

lemma shape_items_updated:
  assumes "hb_current_turn b = Some t"
  shows "shape (items_updated x g b) = front b @ [(pt_id t, map item_id (g (pt_items t)))]"
  using shape_current(1) [of "items_updated x g b"] assms by (simp add: items_updated_current)

lemma shape_ensure:
  "shape (ensure_turn u b) = (if hb_current_turn b = None then front b @ [(pt_id (new_turn u None b), [])] else shape b)"
proof (cases "hb_current_turn b")
  case None
  then show ?thesis using shape_current(1) [of "ensure_turn u b" "new_turn u None b"] by simp
qed simp

lemma upsert_item_ids: "map item_id (upsert_turn_item is x) = upsert_id (item_id x) (map item_id is)"
  by (induction "is") (auto simp: upsert_id_def)

lemma upsert_shape_last:
  assumes "t \<notin> fst ` set sh"
  shows "upsert_shape t x (sh @ [(t, ids)]) = sh @ [(t, upsert_id x ids)]"
proof -
  have "upsert_shape t x sh = sh" unfolding upsert_shape_def by (rule map_idI) (use assms in auto)
  then show ?thesis by (simp add: upsert_shape_def)
qed

text \<open>The state while line \<open>j\<close> of a rollout is handled, before and after its handler.\<close>

definition ids_inv :: "rstr set \<Rightarrow> rstr set \<Rightarrow> nat \<Rightarrow> nat \<Rightarrow> nat \<Rightarrow> thread_history_builder \<Rightarrow> bool" where
  "ids_inv A S j r c b = (hb_current_rollout_index b = j \<and> hb_next_rollout_index b = Suc j \<and> current_kept b \<and>
     shape_inv A S r c (hb_next_item_index b) (shape b))"

definition outside_ids :: "rstr set \<Rightarrow> rstr set \<Rightarrow> bool" where
  "outside_ids A S = ((\<forall>n. item_number n \<notin> A) \<and> (\<forall>k. rollout_turn_id k \<notin> S))"

lemma shape_inv_turn:
  assumes "shape_inv A S r c m sh" and "t \<in> fst ` set sh"
  shows "t \<in> S \<or> (\<exists>k < r. t = rollout_turn_id k)"
proof -
  obtain ti where "ti \<in> set sh" "t = fst ti" using assms(2) by blast
  then show ?thesis using assms(1) unfolding shape_inv_def turn_ids_ok_def by blast
qed

lemma ensure_inv:
  assumes "ids_inv A S j j c b" and "outside_ids A S"
  shows "shape_inv A S (Suc j) c (hb_next_item_index b) (shape (ensure_turn u b))"
proof -
  have inv: "shape_inv A S j c (hb_next_item_index b) (shape b)" using assms(1) by (simp add: ids_inv_def)
  show ?thesis
  proof (cases "hb_current_turn b")
    case None
    then have new: "shape (ensure_turn u b) = shape b @ [(rollout_turn_id j, [])]"
      using assms(1) shape_current(2) [OF None] by (simp add: shape_ensure new_turn_def rollout_turn_id_def ids_inv_def)
    have "rollout_turn_id j \<notin> fst ` set (shape b)"
      using shape_inv_turn [OF inv, of "rollout_turn_id j"] assms(2) by (auto simp: outside_ids_def)
    then show ?thesis
      unfolding new by (intro shape_inv_new shape_inv_mono [OF inv]) auto
  next
    case (Some t)
    then show ?thesis using shape_inv_mono [OF inv, of A S "Suc j" c] by simp
  qed
qed

lemma current_ensure: obtains t where "hb_current_turn (ensure_turn u b) = Some t"
    "shape (ensure_turn u b) = front b @ [(pt_id t, map item_id (pt_items t))]"
  using shape_current(1) [of "ensure_turn u b"] by simp

lemma items_updated_kept: "hb_current_turn b \<noteq> None \<Longrightarrow> (\<And>is. g is \<noteq> []) \<Longrightarrow> current_kept (items_updated x g b)"
  by (auto simp: current_kept_def items_updated_current)

lemma upsert_ne [simp]: "upsert_turn_item is x \<noteq> []"
  by (cases "is") auto

lemma push_numbered_ids:
  assumes "shape_inv A S r c (hb_next_item_index b) (shape (ensure_turn u b))" and "outside_ids A S"
    and "hb_current_rollout_index b = j" and "hb_next_rollout_index b = Suc j" and "\<And>i. item_id (mk i) = i"
  shows "ids_inv A S j r (Suc c) (push_numbered_item u mk b)"
proof -
  let ?b = "take_item_id b" and ?x = "mk (next_item_id b)"
  obtain t where t: "hb_current_turn (ensure_turn u b) = Some t"
    "shape (ensure_turn u b) = front b @ [(pt_id t, map item_id (pt_items t))]" by (rule current_ensure)
  have same: "ensure_turn u ?b = take_item_id (ensure_turn u b)"
    by (simp add: ensure_turn_def take_item_id_def new_turn_def Let_def record_changed_pending_turn_def record_changed_turn_def
        turn_change_of_pending_def split: option.split)
  then have t': "hb_current_turn (ensure_turn u ?b) = Some t" using t(1) by (simp add: take_item_id_def)
  have id: "item_id ?x = item_number (hb_next_item_index b)" by (simp add: assms(5) next_item_id_def item_number_def)
  have "front ?b = front b" by (simp add: front_def take_item_id_def)
  then have "shape (push_numbered_item u mk b) = front b @ [(pt_id t, map item_id (pt_items t) @ [item_number (hb_next_item_index b)])]"
    using shape_items_updated [OF t', of ?x "\<lambda>is. is @ [?x]"] by (simp add: push_numbered_item_def item_ops_updated id)
  moreover have "current_kept (push_numbered_item u mk b)"
    unfolding push_numbered_item_def item_ops_updated by (rule items_updated_kept) (simp_all add: t')
  ultimately show ?thesis
    using shape_inv_push_number [OF assms(1) [unfolded t(2)]] assms(2-4)
    by (simp add: ids_inv_def push_numbered_item_def item_ops_updated index_simps outside_ids_def) (simp add: take_item_id_def)
qed


lemma push_outside_ids:
  assumes "ids_inv A S j j c b" and "outside_ids A S" and "item_id x \<notin> A" and "\<And>n. item_id x \<noteq> item_number n"
  shows "ids_inv (insert (item_id x) A) S j (Suc j) (Suc c) (push_item_in_current_turn u x b)"
proof -
  obtain t where t: "hb_current_turn (ensure_turn u b) = Some t"
    "shape (ensure_turn u b) = front b @ [(pt_id t, map item_id (pt_items t))]" by (rule current_ensure)
  have "shape (push_item_in_current_turn u x b) = front b @ [(pt_id t, map item_id (pt_items t) @ [item_id x])]"
    using shape_items_updated [OF t(1), of x "\<lambda>is. is @ [x]"] by (simp add: item_ops_updated)
  moreover have "current_kept (push_item_in_current_turn u x b)"
    unfolding item_ops_updated by (rule items_updated_kept) (simp_all add: t(1))
  ultimately show ?thesis
    using shape_inv_push_outside [OF ensure_inv [OF assms(1,2), of u, unfolded t(2)] assms(3,4)] assms(1)
    by (simp add: ids_inv_def item_ops_updated index_simps)
qed

lemma shape_inv_distinct: "shape_inv A S r c m (sh @ [(t, ids)]) \<Longrightarrow> t \<notin> fst ` set sh"
  by (auto simp: shape_inv_def)

lemma upsert_current_ids:
  assumes "ids_inv A S j j c b" and "outside_ids A S" and "item_id x \<in> A"
  shows "ids_inv A S j (Suc j) (Suc c) (upsert_item_in_current_turn u x b)"
proof -
  obtain t where t: "hb_current_turn (ensure_turn u b) = Some t"
    "shape (ensure_turn u b) = front b @ [(pt_id t, map item_id (pt_items t))]" by (rule current_ensure)
  note inv = ensure_inv [OF assms(1,2), of u, unfolded t(2)]
  have "shape (upsert_item_in_current_turn u x b) = upsert_shape (pt_id t) (item_id x) (shape (ensure_turn u b))"
    using shape_items_updated [OF t(1), of x "\<lambda>is. upsert_turn_item is x"] upsert_shape_last [OF shape_inv_distinct [OF inv]]
    by (simp add: item_ops_updated t(2) upsert_item_ids)
  moreover have "current_kept (upsert_item_in_current_turn u x b)"
    unfolding item_ops_updated by (rule items_updated_kept) (simp_all add: t(1))
  moreover have "item_id x \<noteq> item_number n" for n using assms(2,3) by (auto simp: outside_ids_def)
  ultimately show ?thesis
    using shape_inv_upsert [OF inv assms(3), of "pt_id t"] assms(1)
    by (simp add: ids_inv_def item_ops_updated index_simps t(2))
qed

lemma ids_inv_weaken: "ids_inv A S j r c b \<Longrightarrow> r \<le> r' \<Longrightarrow> c \<le> c' \<Longrightarrow> ids_inv A S j r' c' b"
  using shape_inv_mono [of A S r c _ _ A S r' c'] by (auto simp: ids_inv_def)

lemma ids_inv_distinct:
  assumes "shape_inv A S r c m (shape b)"
  shows "ids_distinct b"
  using assms by (auto simp: shape_inv_def ids_distinct_def shape_def turn_ids_ok_def list_all_iff comp_def)

lemma shape_modify: "shape b' = upsert_shape tid (item_id x) (shape b)" if "all_turns b' = modify tid (upsert_into x) (all_turns b)"
  unfolding shape_def upsert_shape_def that modify_def by (simp add: upsert_item_ids)

lemma upsert_turn_id_ids:
  assumes "ids_inv A S j r c b" and "outside_ids A S" and "item_id x \<in> A"
  shows "ids_inv A S j r (Suc c) (upsert_item_in_turn_id tid x b)"
proof -
  have dist: "ids_distinct b" using assms(1) ids_inv_distinct by (auto simp: ids_inv_def)
  have not_number: "item_id x \<noteq> item_number n" for n using assms(2,3) by (auto simp: outside_ids_def)
  have inv: "shape_inv A S r (Suc c) (hb_next_item_index b) (upsert_shape tid (item_id x) (shape b))"
    using assms(1,3) not_number by (intro shape_inv_upsert) (simp_all add: ids_inv_def)
  have upsert: "(\<lambda>t. t\<lparr>tn_items := upsert_turn_item (tn_items t) x\<rparr>) = upsert_into x"
    by (simp add: upsert_into_def fun_eq_iff)
  consider (cur) t where "current_matches tid b" "hb_current_turn b = Some t" "pt_id t = tid"
    | (old) "\<not> current_matches tid b" "find_turn tid (hb_turns b) \<noteq> None"
    | (none) "\<not> current_matches tid b" "find_turn tid (hb_turns b) = None"
    by (cases "hb_current_turn b") (auto simp: current_matches_def)
  then show ?thesis
  proof cases
    case cur
    then have eq: "upsert_item_in_turn_id tid x b = items_updated x (\<lambda>is. upsert_turn_item is x) b"
      by (simp add: upsert_item_in_turn_id_def items_updated_def current_id_def)
    have "tid \<notin> fst ` set (front b)" using ids_distinct_current(1) [OF dist cur(2)] cur(3) by (auto simp: front_def)
    then have "shape (upsert_item_in_turn_id tid x b) = upsert_shape tid (item_id x) (shape b)"
      using shape_items_updated [OF cur(2)] cur(3) upsert_shape_last by (simp add: eq shape_current(1) [OF cur(2)] upsert_item_ids)
    moreover have "current_kept (upsert_item_in_turn_id tid x b)"
      unfolding eq by (rule items_updated_kept) (simp_all add: cur(2))
    ultimately show ?thesis using inv assms(1) by (simp add: ids_inv_def eq index_simps)
  next
    case old
    have "shape (upsert_item_in_turn_id tid x b) = upsert_shape tid (item_id x) (shape b)"
      using old all_turns_update_turn [OF dist old(1)] by (simp add: upsert_item_in_turn_id_def upsert shape_modify)
    then show ?thesis using inv assms(1) old by (simp add: ids_inv_def upsert_item_in_turn_id_def index_simps current_kept_def)
  next
    case none
    then show ?thesis using ids_inv_weaken [OF assms(1), of r "Suc c"] by (simp add: upsert_item_in_turn_id_def)
  qed
qed

lemma upsert_routed_ids:
  assumes "ids_inv A S j j c b" and "outside_ids A S" and "item_id x \<in> A"
  shows "ids_inv A S j (Suc j) (Suc c) (upsert_item_routed u tid x b)"
  using upsert_current_ids [OF assms] ids_inv_weaken [OF upsert_turn_id_ids [OF assms], of "Suc j" "Suc c"]
  by (simp add: upsert_item_routed_def)


lemma push_numbered_inv:
  assumes "ids_inv A S j j c b" and "outside_ids A S" and "\<And>i. item_id (mk i) = i"
  shows "ids_inv A S j (Suc j) (Suc c) (push_numbered_item u mk b)"
  using push_numbered_ids [OF ensure_inv [OF assms(1,2)] assms(2) _ _ assms(3)] assms(1) by (simp add: ids_inv_def)

lemma finish_inv:
  assumes "ids_inv A S j r c b"
  shows "ids_inv A S j r c (finish_current_turn b)"
proof -
  have kept: "current_kept b" using assms by (simp add: ids_inv_def)
  have "shape (finish_current_turn b) = shape b" by (rule shape_cong [OF all_turns_finish(1) [OF kept]])
  then show ?thesis using assms all_turns_finish(4) [OF kept] by (simp add: ids_inv_def index_simps)
qed

lemma user_message_inv:
  assumes "ids_inv A S j j c b" and "outside_ids A S"
  shows "ids_inv A S j (Suc j) (Suc c) (handle_user_message u p b)"
proof -
  have "ids_inv A S j j c (case hb_current_turn b of Some t \<Rightarrow> if \<not> pt_opened_explicitly t \<and>
      \<not> (pt_saw_compaction t \<and> pt_items t = []) then finish_current_turn b else b | None \<Rightarrow> b)"
    using assms(1) finish_inv [OF assms(1)] by (simp split: option.split)
  from push_numbered_inv [OF this assms(2)] show ?thesis by (simp add: handle_user_message_def Let_def)
qed

lemma reasoning_inv:
  assumes "ids_inv A S j j c b" and "outside_ids A S" and "\<And>i. item_id (mk i) = i"
    and "case extend_last_reasoning u f g b of (True, b1) \<Rightarrow> b' = b1 | (False, b1) \<Rightarrow> b' = push_numbered_item u mk b1"
  shows "ids_inv A S j (Suc j) (Suc c) b'"
proof (cases rule: extend_last_reasoning_cases [of u f g b])
  case (extended item)
  have b': "b' = items_updated item (\<lambda>is. butlast is @ [item]) (ensure_turn u b)" using extended assms(4) by simp
  obtain t where t: "hb_current_turn b = Some t" "extended_last f g (pt_items t) = Some item"
    using extended(2) by (auto simp: extended_last_def split: option.splits)
  then have "pt_items t \<noteq> []" "item_id item = item_id (last (pt_items t))"
    using extend_reasoning_id by (auto simp: extended_last_def split: if_splits)
  then have "map item_id (butlast (pt_items t) @ [item]) = map item_id (pt_items t)"
    by (metis append_butlast_last_id list.simps(8,9) map_append)
  then have "shape b' = shape b"
    using shape_items_updated [of b t item "\<lambda>is. butlast is @ [item]"] t(1) by (simp add: b' shape_current(1) [OF t(1)])
  moreover have "current_kept b'" unfolding b' by (rule items_updated_kept) simp_all
  ultimately have "ids_inv A S j j c b'" using assms(1) by (simp add: ids_inv_def b' index_simps)
  then show ?thesis by (rule ids_inv_weaken) simp_all
next
  case new
  then have b': "b' = push_numbered_item u mk (ensure_turn u b)" using assms(4) by simp
  show ?thesis unfolding b'
    by (rule push_numbered_ids [OF _ assms(2) _ _ assms(3)])
      (use ensure_inv [OF assms(1,2), of u] assms(1) in \<open>simp_all add: index_simps ids_inv_def\<close>)
qed

lemma handle_reasoning_inv:
  assumes "ids_inv A S j j c b" and "outside_ids A S"
  shows "ids_inv A S j (Suc j) (Suc c) (handle_agent_reasoning u t b)"
    and "ids_inv A S j (Suc j) (Suc c) (handle_agent_reasoning_raw_content u t b)"
proof -
  have weak: "ids_inv A S j (Suc j) (Suc c) b" by (rule ids_inv_weaken [OF assms(1)]) simp_all
  show "ids_inv A S j (Suc j) (Suc c) (handle_agent_reasoning u t b)"
  proof (cases "t = []")
    case False
    then show ?thesis
      by (intro reasoning_inv [OF assms, where mk = "\<lambda>i. ItemReasoning i [t] []" and u = u and f = "\<lambda>s. s @ [t]" and g = id])
        (simp_all add: handle_agent_reasoning_def split: prod.split bool.split)
  qed (use weak in \<open>simp add: handle_agent_reasoning_def\<close>)
  show "ids_inv A S j (Suc j) (Suc c) (handle_agent_reasoning_raw_content u t b)"
  proof (cases "t = []")
    case False
    then show ?thesis
      by (intro reasoning_inv [OF assms, where mk = "\<lambda>i. ItemReasoning i [] [t]" and u = u and f = id and g = "\<lambda>c. c @ [t]"])
        (simp_all add: handle_agent_reasoning_raw_content_def split: prod.split bool.split)
  qed (use weak in \<open>simp add: handle_agent_reasoning_raw_content_def\<close>)
qed

lemma change_current_inv:
  assumes "ids_inv A S j r c b" and "keeps_pending f"
  shows "ids_inv A S j r c (change_current f b)"
proof -
  have "shape (change_current f b) = shape b"
    using assms(2) by (simp add: change_current_def shape_def all_turns_def keeps_pending_def split: option.split)
  moreover have "current_kept (change_current f b)"
    using assms by (auto simp: ids_inv_def change_current_def current_kept_def keeps_pending_def split: option.splits)
  ultimately show ?thesis using assms(1) by (simp add: ids_inv_def change_current_def index_simps split: option.split)
qed

lemma change_finished_inv:
  assumes "ids_inv A S j r c b" and "\<And>t. tn_id (f t) = tn_id t" "\<And>t. tn_items (f t) = tn_items t"
  shows "ids_inv A S j r c (change_finished tid f b)"
proof -
  have "map (\<lambda>t. (tn_id t, map item_id (tn_items t))) (update_turn tid f ts) = map (\<lambda>t. (tn_id t, map item_id (tn_items t))) ts" for ts
    using assms(2,3) by (induction ts) auto
  then have "shape (change_finished tid f b) = shape b"
    by (simp add: change_finished_def shape_def all_turns_def split: option.split)
  moreover have "current_kept (change_finished tid f b) = current_kept b"
    by (rule current_kept_cong) (simp add: change_finished_def split: option.split)
  ultimately show ?thesis using assms(1) by (simp add: ids_inv_def) (simp add: change_finished_def index_simps split: option.split)
qed

lemma turn_handlers_inv:
  assumes "ids_inv A S j r c b"
  shows "ids_inv A S j r c (handle_turn_aborted a b)" and "ids_inv A S j r c (handle_turn_complete p b)"
    and "ids_inv A S j r c (handle_error e b)"
proof -
  show "ids_inv A S j r c (handle_turn_aborted a b)"
    using assms change_current_inv [OF assms, of "apply_abort a"] change_finished_inv [OF assms, of "apply_abort_finished a"]
    by (simp add: handle_turn_aborted_def apply_abort_finished_def split: option.split)
  show "ids_inv A S j r c (handle_turn_complete p b)"
    using assms finish_inv [OF change_current_inv [OF assms, of "mark_completed p"]]
      change_finished_inv [OF assms, of "mark_completed_finished p"]
    by (simp add: handle_turn_complete_def mark_completed_finished_def)
  let ?f = "\<lambda>t. t\<lparr>pt_status := TurnFailed, pt_error := Some \<lparr>te_message = err_message e,
      te_codex_error_info = err_codex_error_info e, te_additional_details = None\<rparr>\<rparr>"
  have "handle_error e b = (if affects_turn_status e then change_current ?f b else b)"
    by (simp add: handle_error_def change_current_def Let_def split: option.split)
  moreover have "keeps_pending ?f" by (simp add: keeps_pending_def)
  ultimately show "ids_inv A S j r c (handle_error e b)" using assms change_current_inv [OF assms, of ?f] by simp
qed

lemma turn_started_inv:
  assumes "ids_inv A S j r c b" and "tse_turn_id p \<notin> S" and "\<And>k. tse_turn_id p \<noteq> rollout_turn_id k"
  shows "ids_inv A (insert (tse_turn_id p) S) j r c (handle_turn_started u p b)"
proof -
  let ?b = "finish_current_turn b" and ?tid = "tse_turn_id p"
  have fin: "ids_inv A S j r c ?b" by (rule finish_inv [OF assms(1)])
  have none: "hb_current_turn ?b = None" using assms(1) all_turns_finish(3) by (simp add: ids_inv_def)
  have "shape (handle_turn_started u p b) = shape ?b @ [(?tid, [])]"
    using none by (simp add: handle_turn_started_def Let_def shape_def all_turns_def new_turn_def)
  moreover have "?tid \<notin> fst ` set (shape ?b)"
    using fin shape_inv_turn [of A S r c _ "shape ?b" ?tid] assms(2,3) by (auto simp: ids_inv_def)
  then have "shape_inv A (insert ?tid S) r c (hb_next_item_index ?b) (shape ?b @ [(?tid, [])])"
    using shape_inv_new [OF shape_inv_mono [of A S r c _ "shape ?b" A "insert ?tid S" r c]] fin by (auto simp: ids_inv_def)
  moreover have "current_kept (handle_turn_started u p b)"
    by (simp add: handle_turn_started_def Let_def current_kept_def)
  ultimately show ?thesis using assms(1) by (simp add: ids_inv_def handle_turn_started_def Let_def index_simps)
qed

lemma total_items: "item_total (shape b) = sum_list (map (\<lambda>t. length (tn_items t)) (all_turns b))"
  by (simp add: item_total_def shape_def comp_def)

lemma rollback_inv:
  assumes "ids_inv A S j r c b" and "c < i64_max"
  shows "ids_inv A S j r c (handle_thread_rollback n b)"
proof -
  let ?k = "length (all_turns b) - n" and ?b = "handle_thread_rollback n b"
  have kept: "current_kept b" and inv: "shape_inv A S r c (hb_next_item_index b) (shape b)"
    using assms(1) by (simp_all add: ids_inv_def)
  note rb = handle_thread_rollback_turns [OF kept, of n]
  have turns: "all_turns ?b = take ?k (all_turns b)" by (simp add: all_turns_def [of ?b] rb)
  then have sh: "shape ?b = take ?k (shape b)" by (simp add: shape_def take_map)
  have "hb_next_item_index ?b = min i64_max (saturating_add (sum_list (map (\<lambda>t. length (tn_items t)) (hb_turns ?b))) 1)"
    by (simp add: handle_thread_rollback_def item_index_after_def Let_def)
  also have "sum_list (map (\<lambda>t. length (tn_items t)) (hb_turns ?b)) = item_total (shape ?b)"
    using rb(1) turns by (simp add: total_items)
  also have "item_total (shape ?b) \<le> c" using inv item_total_take_le [of ?k "shape b"] sh by (simp add: shape_inv_def)
  then have "min i64_max (saturating_add (item_total (shape ?b)) 1) = item_total (shape ?b) + 1"
    using assms(2) by (simp add: saturating_add_def usize_max_def i64_max_def)
  finally have nxt: "hb_next_item_index ?b = item_total (take ?k (shape b)) + 1" by (simp add: sh)
  have "hb_current_rollout_index ?b = hb_current_rollout_index b" "hb_next_rollout_index ?b = hb_next_rollout_index b"
    by (simp_all add: handle_thread_rollback_def Let_def index_simps)
  then show ?thesis
    using assms(1) shape_inv_take [OF inv, of ?k] rb(2) by (simp add: ids_inv_def nxt sh current_kept_def)
qed

lemma compacted_inv:
  assumes "ids_inv A S j j c b" and "outside_ids A S"
  shows "ids_inv A S j (Suc j) c (handle_compacted u b)"
proof -
  have "shape (handle_compacted u b) = shape (ensure_turn u b)"
    by (rule shape_cong) (simp add: handle_compacted_def all_turns_def turn_of_pending_def)
  then show ?thesis
    using ensure_inv [OF assms, of u] assms(1)
    by (simp add: ids_inv_def handle_compacted_def update_current_def index_simps current_kept_def)
qed


section \<open>The ids an input brings\<close>

fun event_item_ids :: "event_msg \<Rightarrow> rstr list" where
  "event_item_ids (EvWebSearchBegin i) = [i]"
| "event_item_ids (EvWebSearchEnd p) = [wse_call_id p]"
| "event_item_ids (EvExecCommandBegin p) = [ecb_call_id p]"
| "event_item_ids (EvExecCommandEnd p) = [ece_call_id p]"
| "event_item_ids (EvGuardianAssessment p) = (case gae_target_item_id p of None \<Rightarrow> [] | Some i \<Rightarrow> [i])"
| "event_item_ids (EvApplyPatchApprovalRequest p) = [apr_call_id p]"
| "event_item_ids (EvPatchApplyBegin p) = [pab_call_id p]"
| "event_item_ids (EvPatchApplyEnd p) = [pae_call_id p]"
| "event_item_ids (EvDynamicToolCallRequest p) = [dtr_call_id p]"
| "event_item_ids (EvDynamicToolCallResponse p) = [dte_call_id p]"
| "event_item_ids (EvMcpToolCallBegin p) = [mcb_call_id p]"
| "event_item_ids (EvMcpToolCallEnd p) = [mce_call_id p]"
| "event_item_ids (EvViewImageToolCall p) = [vie_call_id p]"
| "event_item_ids (EvImageGenerationBegin i) = [i]"
| "event_item_ids (EvImageGenerationEnd p) = [ige_call_id p]"
| "event_item_ids (EvCollabAgentSpawnBegin p) = [csb_call_id p]"
| "event_item_ids (EvCollabAgentSpawnEnd p) = [cse_call_id p]"
| "event_item_ids (EvCollabAgentInteractionBegin p) = [cib_call_id p]"
| "event_item_ids (EvCollabAgentInteractionEnd p) = [cie_call_id p]"
| "event_item_ids (EvSubAgentActivity p) = [sae_event_id p]"
| "event_item_ids (EvCollabWaitingBegin p) = [cwb_call_id p]"
| "event_item_ids (EvCollabWaitingEnd p) = [cwe_call_id p]"
| "event_item_ids (EvCollabCloseBegin p) = [ccb_call_id p]"
| "event_item_ids (EvCollabCloseEnd p) = [cce_call_id p]"
| "event_item_ids (EvCollabResumeBegin p) = [crb_call_id p]"
| "event_item_ids (EvCollabResumeEnd p) = [cre_call_id p]"
| "event_item_ids (EvItemStarted p) = [turn_item_id (ise_item p)]"
| "event_item_ids (EvItemCompleted p) = [turn_item_id (ice_item p)]"
| "event_item_ids _ = []"

fun event_turn_ids :: "event_msg \<Rightarrow> rstr list" where
  "event_turn_ids (EvTurnStarted p) = [tse_turn_id p]"
| "event_turn_ids _ = []"

definition line_item_ids :: "rollout_item \<Rightarrow> rstr list" where
  "line_item_ids item = (case item of RolloutEvent e \<Rightarrow> event_item_ids e | _ \<Rightarrow> [])"

definition line_turn_ids :: "rollout_item \<Rightarrow> rstr list" where
  "line_turn_ids item = (case item of RolloutEvent e \<Rightarrow> event_turn_ids e | _ \<Rightarrow> [])"

definition line_hook_ids :: "thread_api \<Rightarrow> rstr \<Rightarrow> rollout_item \<Rightarrow> rstr list" where
  "line_hook_ids api u item =
     (case item of
        RolloutResponseItem (Message id_opt role content _ _) \<Rightarrow>
          (if role \<noteq> ''user'' then []
           else case parse_hook_prompt_message api u id_opt content of None \<Rightarrow> [] | Some hp \<Rightarrow> [hpi_id hp])
      | _ \<Rightarrow> [])"

text \<open>
  The ids from outside do not look like generated ones, no turn is started twice under one id, and a
  hook prompt has an id of its own. An event may repeat the id of its call.
\<close>

definition fresh_ids :: "thread_api \<Rightarrow> (rstr \<times> rollout_item) list \<Rightarrow> bool" where
  "fresh_ids api items =
     (let hooks = concat (map (\<lambda>(u, i). line_hook_ids api u i) items);
          calls = concat (map (\<lambda>(_, i). line_item_ids i) items);
          started = concat (map (\<lambda>(_, i). line_turn_ids i) items)
      in distinct hooks \<and> distinct started \<and> list_all (\<lambda>h. h \<notin> set calls) hooks \<and>
         list_all (\<lambda>x. take 5 x \<noteq> ''item-'') (hooks @ calls) \<and> list_all (\<lambda>x. take 8 x \<noteq> ''rollout-'') started \<and>
         length items < i64_max)"

lemma build_item_ids [simp]:
  "item_id (build_command_execution_begin_item api cb) = ecb_call_id cb"
  "item_id (build_command_execution_end_item api ce) = ece_call_id ce"
  "item_id (build_file_change_approval_request_item ar) = apr_call_id ar"
  "item_id (build_file_change_begin_item pb) = pab_call_id pb"
  "item_id (build_file_change_end_item pe) = pae_call_id pe"
  "item_id (thread_item_of_turn_item ti) = turn_item_id ti"
  by (simp_all add: build_command_execution_begin_item_def build_command_execution_end_item_def
      build_file_change_approval_request_item_def build_file_change_begin_item_def build_file_change_end_item_def)
    (cases ti; simp)

lemma guardian_item_id: "build_item_from_guardian_event api p st = Some x \<Longrightarrow> gae_target_item_id p = Some (item_id x)"
  by (auto simp: build_item_from_guardian_event_def Let_def split: guardian_assessment_action.splits option.splits)

lemma guardian_inv:
  assumes "ids_inv A S j j c b" and "outside_ids A S" and "set (event_item_ids (EvGuardianAssessment p)) \<subseteq> A"
  shows "ids_inv A S j (Suc j) (Suc c) (handle_guardian_assessment api u p b)"
proof -
  have weak: "ids_inv A S j (Suc j) (Suc c) b" by (rule ids_inv_weaken [OF assms(1)]) simp_all
  have "item_id x \<in> A" if "build_item_from_guardian_event api p st = Some x" for x st
    using guardian_item_id [OF that] assms(3) by simp
  then show ?thesis
    using weak upsert_routed_ids [OF assms(1,2)] by (simp add: handle_guardian_assessment_def split: option.split)
qed

lemma item_lifecycle_inv:
  assumes "ids_inv A S j j c b" and "outside_ids A S"
  shows "turn_item_id (ise_item p) \<in> A \<Longrightarrow> ids_inv A S j (Suc j) (Suc c) (handle_item_started p b)"
    and "turn_item_id (ice_item q) \<in> A \<Longrightarrow> ids_inv A S j (Suc j) (Suc c) (handle_item_completed q b)"
proof -
  have weak: "ids_inv A S j (Suc j) (Suc c) b" by (rule ids_inv_weaken [OF assms(1)]) simp_all
  have upsert: "ids_inv A S j (Suc j) (Suc c) (upsert_item_in_turn_id tid x b)" if "item_id x \<in> A" for tid x
    by (rule ids_inv_weaken [OF upsert_turn_id_ids [OF assms that]]) simp_all
  show "ids_inv A S j (Suc j) (Suc c) (handle_item_started p b)" if "turn_item_id (ise_item p) \<in> A"
    using weak upsert [of "thread_item_of_turn_item (ise_item p)" "ise_turn_id p"] that
    by (auto simp: handle_item_started_def split: turn_item.split)
  show "ids_inv A S j (Suc j) (Suc c) (handle_item_completed q b)" if "turn_item_id (ice_item q) \<in> A"
    using weak upsert [of "thread_item_of_turn_item (ice_item q)" "ice_turn_id q"] that
    by (auto simp: handle_item_completed_def split: turn_item.split)
qed

lemma handle_event_inv:
  assumes "ids_inv A S j j j b" and "outside_ids A S" and "j < i64_max" and "set (event_item_ids e) \<subseteq> A"
    and "\<And>t. t \<in> set (event_turn_ids e) \<Longrightarrow> t \<notin> S \<and> (\<forall>k. t \<noteq> rollout_turn_id k)"
  shows "ids_inv A (S \<union> set (event_turn_ids e)) j (Suc j) (Suc j) (handle_event api u e b)"
proof -
  have weak: "ids_inv A S j (Suc j) (Suc j) b" by (rule ids_inv_weaken [OF assms(1)]) simp_all
  have by_id: "ids_inv A S j (Suc j) (Suc j) (upsert_item_in_turn_id tid x b)" if "item_id x \<in> A" for tid x
    by (rule ids_inv_weaken [OF upsert_turn_id_ids [OF assms(1,2) that]]) simp_all
  have rb: "ids_inv A S j (Suc j) (Suc j) (handle_thread_rollback n b)" for n
    by (rule ids_inv_weaken [OF rollback_inv [OF assms(1,3)]]) simp_all
  have started: "ids_inv A (insert (tse_turn_id p) S) j (Suc j) (Suc j) (handle_turn_started u p b)"
    if "e = EvTurnStarted p" for p
    by (rule ids_inv_weaken [OF turn_started_inv [OF assms(1)]]) (use assms(5) that in auto)
  note handlers = weak by_id rb started upsert_current_ids [OF assms(1,2)] upsert_routed_ids [OF assms(1,2)]
    push_numbered_inv [OF assms(1,2)] user_message_inv [OF assms(1,2)] handle_reasoning_inv [OF assms(1,2)]
    turn_handlers_inv [OF weak] guardian_inv [OF assms(1,2)] item_lifecycle_inv [OF assms(1,2)]
  show ?thesis
    using assms(4)
    by (cases e) (simp_all add: handlers handler_defs
        del: handle_guardian_assessment_def handle_item_started_def handle_item_completed_def)
qed


section \<open>Whole rollouts\<close>

text \<open>Between two lines the number of the next line bounds the generated ids and the items.\<close>

definition run_inv :: "rstr set \<Rightarrow> rstr set \<Rightarrow> thread_history_builder \<Rightarrow> bool" where
  "run_inv A S b = (current_kept b \<and>
     shape_inv A S (hb_next_rollout_index b) (hb_next_rollout_index b) (hb_next_item_index b) (shape b))"

lemma ids_inv_done: "ids_inv A S j (Suc j) (Suc j) b \<Longrightarrow> run_inv A S b"
  by (simp add: ids_inv_def run_inv_def)

lemma run_inv_next:
  assumes "run_inv A S b"
  shows "ids_inv A S (hb_next_rollout_index b) (hb_next_rollout_index b) (hb_next_rollout_index b) (next_rollout_item b)"
proof -
  have "shape (next_rollout_item b) = shape b" by (rule shape_cong) simp
  then show ?thesis using assms by (simp add: ids_inv_def run_inv_def) (simp add: next_rollout_item_def)
qed

lemma handle_rollout_item_inv:
  assumes "run_inv A S b" and "outside_ids (A \<union> set (line_hook_ids api u item)) S" and "hb_next_rollout_index b < i64_max"
    and "set (line_item_ids item) \<subseteq> A" and "set (line_hook_ids api u item) \<inter> A = {}"
    and "\<And>t. t \<in> set (line_turn_ids item) \<Longrightarrow> t \<notin> S \<and> (\<forall>k. t \<noteq> rollout_turn_id k)"
  shows "run_inv (A \<union> set (line_hook_ids api u item)) (S \<union> set (line_turn_ids item)) (handle_rollout_item api u item b) \<and>
    hb_next_rollout_index (handle_rollout_item api u item b) = Suc (hb_next_rollout_index b)"
proof -
  let ?j = "hb_next_rollout_index b" and ?b = "next_rollout_item b"
  let ?A = "A \<union> set (line_hook_ids api u item)" and ?S = "S \<union> set (line_turn_ids item)"
  have inv: "ids_inv A S ?j ?j ?j ?b" by (rule run_inv_next [OF assms(1)])
  have out: "outside_ids A S" using assms(2) by (auto simp: outside_ids_def)
  have weak: "ids_inv A S ?j (Suc ?j) (Suc ?j) ?b" by (rule ids_inv_weaken [OF inv]) simp_all
  have "ids_inv ?A ?S ?j (Suc ?j) (Suc ?j) (handle_rollout_item api u item b)"
  proof (cases item)
    case (RolloutEvent e)
    then show ?thesis
      using handle_event_inv [OF inv out assms(3), of e api u] assms(4,6)
      by (simp add: handle_rollout_item_def line_item_ids_def line_turn_ids_def line_hook_ids_def)
  next
    case (RolloutCompacted c)
    then show ?thesis
      using ids_inv_weaken [OF compacted_inv [OF inv out, of u], of "Suc ?j" "Suc ?j"]
      by (simp add: handle_rollout_item_def line_turn_ids_def line_hook_ids_def)
  next
    case (RolloutResponseItem ri)
    show ?thesis
    proof (cases "line_hook_ids api u item = []")
      case True
      then have "handle_response_item api u ri ?b = ?b"
        using RolloutResponseItem
        by (simp add: handle_response_item_def line_hook_ids_def split: response_item.splits if_splits option.splits)
      then show ?thesis using weak True RolloutResponseItem by (simp add: handle_rollout_item_def line_turn_ids_def)
    next
      case False
      then obtain i content ph md hp where "ri = Message i ''user'' content ph md"
        "parse_hook_prompt_message api u i content = Some hp"
        using RolloutResponseItem by (auto simp: line_hook_ids_def split: response_item.splits if_splits option.splits)
      then have "line_hook_ids api u item = [hpi_id hp]"
        "handle_response_item api u ri ?b = push_item_in_current_turn u (ItemHookPrompt (hpi_id hp) (hpi_fragments hp)) ?b"
        using RolloutResponseItem by (simp_all add: handle_response_item_def line_hook_ids_def)
      moreover from this have "hpi_id hp \<notin> A" and "hpi_id hp \<noteq> item_number n" for n
        using assms(2,5) unfolding outside_ids_def by auto
      ultimately show ?thesis
        using push_outside_ids [OF inv out, of "ItemHookPrompt (hpi_id hp) (hpi_fragments hp)" u] RolloutResponseItem
        by (simp add: handle_rollout_item_def line_turn_ids_def)
    qed
  qed (use weak in \<open>simp_all add: handle_rollout_item_def line_turn_ids_def line_hook_ids_def\<close>)
  then show ?thesis using ids_inv_done by (auto simp: ids_inv_def)
qed

lemma generated_not_outside:
  "take 5 x \<noteq> ''item-'' \<Longrightarrow> x \<noteq> item_number n" "take 8 x \<noteq> ''rollout-'' \<Longrightarrow> x \<noteq> rollout_turn_id k"
  by (auto simp: item_number_def rollout_turn_id_def)

definition hooks_of :: "thread_api \<Rightarrow> (rstr \<times> rollout_item) list \<Rightarrow> rstr list" where
  "hooks_of api items = concat (map (\<lambda>(u, i). line_hook_ids api u i) items)"

definition started_of :: "(rstr \<times> rollout_item) list \<Rightarrow> rstr list" where
  "started_of items = concat (map (\<lambda>(_, i). line_turn_ids i) items)"

definition calls_of :: "(rstr \<times> rollout_item) list \<Rightarrow> rstr list" where
  "calls_of items = concat (map (\<lambda>(_, i). line_item_ids i) items)"

lemma fresh_ids_sets:
  assumes "fresh_ids api items"
  shows "distinct (hooks_of api items)" and "distinct (started_of items)" and "set (hooks_of api items) \<inter> set (calls_of items) = {}"
    and "\<forall>x \<in> set (hooks_of api items) \<union> set (calls_of items). take 5 x \<noteq> ''item-''"
    and "\<forall>x \<in> set (started_of items). take 8 x \<noteq> ''rollout-''" and "length items < i64_max"
  using assms unfolding fresh_ids_def Let_def hooks_of_def [symmetric] calls_of_def [symmetric] started_of_def [symmetric]
  by (auto simp: list_all_iff)

lemma hooks_started_simps [simp]:
  "hooks_of api [] = []" "hooks_of api ((u, i) # items) = line_hook_ids api u i @ hooks_of api items"
  "started_of [] = []" "started_of ((u, i) # items) = line_turn_ids i @ started_of items"
  by (simp_all add: hooks_of_def started_of_def)

lemma handle_rollout_items_inv:
  assumes "run_inv A S b" and "distinct (hooks_of api items)" and "distinct (started_of items)"
    and "set (hooks_of api items) \<inter> A = {}" and "set (started_of items) \<inter> S = {}"
    and "\<And>u i. (u, i) \<in> set items \<Longrightarrow> set (line_item_ids i) \<subseteq> A"
    and "outside_ids (A \<union> set (hooks_of api items)) (S \<union> set (started_of items))"
    and "hb_next_rollout_index b + length items < i64_max"
  shows "\<exists>A' S'. run_inv A' S' (handle_rollout_items api items b)"
  using assms
proof (induction items arbitrary: A S b)
  case (Cons ui items)
  obtain u i where ui: "ui = (u, i)" by fastforce
  let ?A = "A \<union> set (line_hook_ids api u i)" and ?S = "S \<union> set (line_turn_ids i)"
  have "set (line_item_ids i) \<subseteq> A" using Cons.prems(6) [of u i] ui by simp
  then have step: "run_inv ?A ?S (handle_rollout_item api u i b) \<and>
      hb_next_rollout_index (handle_rollout_item api u i b) = Suc (hb_next_rollout_index b)"
    using Cons.prems(1-5,7,8) by (intro handle_rollout_item_inv) (auto simp: ui outside_ids_def)
  have "\<exists>A' S'. run_inv A' S' (handle_rollout_items api items (handle_rollout_item api u i b))"
  proof (rule Cons.IH [of ?A ?S])
    show "run_inv ?A ?S (handle_rollout_item api u i b)" using step by blast
    show "set (line_item_ids i') \<subseteq> ?A" if "(u', i') \<in> set items" for u' i'
      using Cons.prems(6) that by auto
    show "hb_next_rollout_index (handle_rollout_item api u i b) + length items < i64_max" using step Cons.prems(8) ui by simp
  qed (use Cons.prems(2-5,7) in \<open>auto simp: ui outside_ids_def\<close>)
  then show ?case by (simp add: ui)
qed auto




end
