(* ===== verification/Thread_Legacy.thy ===== *)
theory Thread_Legacy
  imports Thread_Replay
begin

text \<open>
  Items and the older events that announce them. A rollout keeps the events, the thread history is
  rebuilt from them: the item a completed call is shown as is the same whether it is converted
  directly or rebuilt from its event. A user message is rebuilt with its whole text, its images and
  its marked ranges.
\<close>

section \<open>Calls\<close>

text \<open>
  A finished call that its event describes completely: a patch has a status, an MCP call a duration,
  a result or an error, and the status that follows from it.
\<close>

definition mcp_status_of :: "mcp_tool_call_item \<Rightarrow> mcp_tool_call_status" where
  "mcp_status_of i =
     (case mci_result i of Some r \<Rightarrow> if result_is_error r = Some True then McpFailed else McpCompleted | None \<Rightarrow> McpFailed)"

fun finished_call :: "turn_item \<Rightarrow> bool" where
  "finished_call (TurnWebSearch _) = True"
| "finished_call (TurnImageView _) = True"
| "finished_call (TurnImageGeneration _) = True"
| "finished_call (TurnFileChange i) = (fci_status i \<noteq> None)"
| "finished_call (TurnMcpToolCall i) =
     (mci_duration i \<noteq> None \<and> (mci_result i = None) = (mci_error i \<noteq> None) \<and> mci_status i = mcp_status_of i)"
| "finished_call _ = False"

definition handle_events :: "thread_api \<Rightarrow> rstr \<Rightarrow> event_msg list \<Rightarrow> thread_history_builder \<Rightarrow> thread_history_builder" where
  "handle_events api u es b = fold (handle_event api u) es b"

lemma upsert_in_current:
  assumes "hb_current_turn b = Some t" and "pt_id t = tid"
  shows "upsert_item_in_turn_id tid x b = upsert_item_in_current_turn u x b"
  using assms by (simp add: upsert_item_in_turn_id_def upsert_item_in_current_turn_def current_matches_def current_id_def
      ensure_turn_def)

lemma arguments_restored:
  "(case inv_arguments (mcp_invocation_of i) of Some a \<Rightarrow> a | None \<Rightarrow> JNull) = mci_arguments i"
  by (simp add: mcp_invocation_of_def)

lemma mcp_call_rebuilt:
  assumes "finished_call (TurnMcpToolCall i)"
  shows "handle_events api u (turn_item_legacy_events (TurnMcpToolCall i) raw) b =
    upsert_item_in_current_turn u (thread_item_of_turn_item (TurnMcpToolCall i)) b"
proof -
  obtain d where d: "mci_duration i = Some d" using assms by auto
  show ?thesis
  proof (cases "mci_result i")
    case None
    then obtain m where "mci_error i = Some m" using assms by auto
    then show ?thesis using assms d None
      by (simp add: handle_events_def mcp_legacy_end_event_def mcp_item_result_def handle_mcp_tool_call_end_def
          mcp_is_success_def mcp_status_of_def arguments_restored) (simp add: mcp_invocation_of_def)
  next
    case (Some r)
    then have "mci_error i = None" using assms by auto
    then show ?thesis using assms d Some
      by (auto simp: handle_events_def mcp_legacy_end_event_def mcp_item_result_def handle_mcp_tool_call_end_def
          mcp_is_success_def mcp_status_of_def arguments_restored split: option.splits) (simp_all add: mcp_invocation_of_def)
  qed
qed

text \<open>
  C20. Calls survive the rollout: replaying the older events of a finished call in the turn it belongs
  to gives exactly the item the call is shown as live: web searches, viewed and generated images,
  patches and MCP calls.
\<close>
theorem legacy_events_rebuild_calls:
  assumes "finished_call (ice_item e)" and "hb_current_turn b = Some t" and "pt_id t = ice_turn_id e"
  shows "handle_events api u (item_completed_legacy_events e raw) b =
    upsert_item_in_current_turn u (thread_item_of_turn_item (ice_item e)) b"
proof (cases "ice_item e")
  case (TurnFileChange i)
  then obtain st where "fci_status i = Some st" using assms(1) by auto
  then show ?thesis
    using TurnFileChange upsert_in_current [OF assms(2,3), of _ u]
    by (simp add: item_completed_legacy_events_def file_change_legacy_end_event_def handle_events_def
        handle_patch_apply_end_def build_file_change_end_item_def upsert_item_routed_def)
next
  case (TurnMcpToolCall i)
  then show ?thesis using mcp_call_rebuilt [of i] assms(1) by (simp add: item_completed_legacy_events_def)
qed (use assms(1) in \<open>simp_all add: item_completed_legacy_events_def handle_events_def web_search_legacy_event_def
    handle_web_search_end_def handle_view_image_tool_call_def image_generation_legacy_event_def handle_image_generation_end_def\<close>)

definition demo_call :: item_completed_event where
  "demo_call = \<lparr>ice_thread_id = ''th'', ice_turn_id = ''t'', ice_item = TurnMcpToolCall
     \<lparr>mci_id = ''c'', mci_server = ''s'', mci_tool = ''f'', mci_arguments = JNull, mci_connector_id = None,
      mci_app_resource_uri = None, mci_link_id = None, mci_plugin_id = None, mci_status = McpFailed, mci_result = None,
      mci_error = Some ''no'', mci_duration = Some 5000000\<rparr>, ice_completed_at_ms = 0\<rparr>"


definition demo_open_turn :: thread_history_builder where
  "demo_open_turn = handle_rollout_item demo_thread_api [] (demo_start ''t'') history_new"

theorem legacy_events_rebuild_calls_witness:
  "handle_events demo_thread_api [] (item_completed_legacy_events demo_call False) demo_open_turn =
     upsert_item_in_current_turn [] (thread_item_of_turn_item (ice_item demo_call)) demo_open_turn \<and>
   map tn_items (builder_finish (handle_events demo_thread_api [] (item_completed_legacy_events demo_call False) demo_open_turn)) =
     [[ItemMcpToolCall ''c'' ''s'' ''f'' McpFailed JNull None None None None (Some ''no'') (Some 5)]]"
proof -
  have fin: "finished_call (ice_item demo_call)" by (simp add: demo_call_def mcp_status_of_def)
  have cur: "\<exists>t. hb_current_turn demo_open_turn = Some t \<and> pt_id t = ice_turn_id demo_call"
    by (simp add: demo_open_turn_def demo_start_def demo_call_def handle_rollout_item_def handle_turn_started_def Let_def new_turn_def)
  then obtain t where t: "hb_current_turn demo_open_turn = Some t" "pt_id t = ice_turn_id demo_call" by blast
  note eq = legacy_events_rebuild_calls [OF fin t, of demo_thread_api "[]" False]
  have "map tn_items (builder_finish (upsert_item_in_current_turn [] (thread_item_of_turn_item (ice_item demo_call)) demo_open_turn)) =
     [[ItemMcpToolCall ''c'' ''s'' ''f'' McpFailed JNull None None None None (Some ''no'') (Some 5)]]"
    by (simp add: demo_open_turn_def demo_start_def demo_call_def handle_rollout_item_def handle_turn_started_def Let_def new_turn_def
        builder_finish_def finish_current_turn_def upsert_item_in_current_turn_def app_context_of_def duration_ms_def i64_max_def
        next_rollout_item_def history_new_def)
  with eq show ?thesis by simp
qed

section \<open>User messages\<close>

definition images_of :: "user_input list \<Rightarrow> (rstr \<times> image_detail option) list" where
  "images_of cs = List.map_filter (\<lambda>c. case c of UserImage u d \<Rightarrow> Some (u, d) | _ \<Rightarrow> None) cs"

definition local_images_of :: "user_input list \<Rightarrow> (rstr \<times> image_detail option) list" where
  "local_images_of cs = List.map_filter (\<lambda>c. case c of UserLocalImage p d \<Rightarrow> Some (p, d) | _ \<Rightarrow> None) cs"

definition texts_of :: "user_input list \<Rightarrow> rstr" where
  "texts_of cs = concat (map (\<lambda>c. case c of UserText t _ \<Rightarrow> t | _ \<Rightarrow> []) cs)"

lemma image_fields:
  "image_urls i = map fst (images_of (umi_content i))"
  "image_details i = trim_trailing_default_image_details (map snd (images_of (umi_content i)))"
  "local_image_paths i = map fst (local_images_of (umi_content i))"
  "local_image_details i = trim_trailing_default_image_details (map snd (local_images_of (umi_content i)))"
proof -
  have filters: "List.map_filter (\<lambda>c. case c of UserImage u _ \<Rightarrow> Some u | _ \<Rightarrow> None) cs = map fst (images_of cs)"
    "List.map_filter (\<lambda>c. case c of UserImage _ d \<Rightarrow> Some d | _ \<Rightarrow> None) cs = map snd (images_of cs)"
    "List.map_filter (\<lambda>c. case c of UserLocalImage p _ \<Rightarrow> Some p | _ \<Rightarrow> None) cs = map fst (local_images_of cs)"
    "List.map_filter (\<lambda>c. case c of UserLocalImage _ d \<Rightarrow> Some d | _ \<Rightarrow> None) cs = map snd (local_images_of cs)" for cs
    by (induction cs) (auto simp: images_of_def local_images_of_def map_filter_def split: user_input.splits)
  show "image_urls i = map fst (images_of (umi_content i))"
    "image_details i = trim_trailing_default_image_details (map snd (images_of (umi_content i)))"
    "local_image_paths i = map fst (local_images_of (umi_content i))"
    "local_image_details i = trim_trailing_default_image_details (map snd (local_images_of (umi_content i)))"
    by (simp_all add: image_urls_def image_details_def local_image_paths_def local_image_details_def filters)
qed

text \<open>The details cut off at the end are those a missing entry stands for.\<close>

lemma detail_at_trimmed: "detail_at (trim_trailing_default_image_details ds) i = detail_at ds i"
proof -
  let ?ts = "rev (dropWhile (\<lambda>d. d = None) (rev ds))" and ?ns = "rev (takeWhile (\<lambda>d. d = None) (rev ds))"
  have ds: "ds = ?ts @ ?ns" by (metis rev_append rev_rev_ident takeWhile_dropWhile_id)
  have "x = None" if "x \<in> set ?ns" for x using that by (auto dest: set_takeWhileD)
  then have "(?ts @ ?ns) ! i = None" if "length ?ts \<le> i" "i < length (?ts @ ?ns)" for i
    using that by (metis append_eq_conv_conj le_add_diff_inverse less_diff_conv2 length_append nth_append nth_mem add.commute leD)
  then have "detail_at ?ts i = detail_at (?ts @ ?ns) i" by (auto simp: detail_at_def nth_append)
  then show ?thesis using ds by (simp add: trim_trailing_default_image_details_def)
qed

lemma images_restored:
  "map (\<lambda>(i, u). f u (detail_at (map snd ps) i)) (enumerate 0 (map fst ps)) = map (\<lambda>(u, d). f u d) ps"
  by (rule nth_equalityI) (auto simp: nth_enumerate_eq detail_at_def split_beta)

lemma build_inputs_from_legacy:
  assumes "user_message_legacy_event i = EvUserMessage p"
  shows "build_user_inputs p =
    (if trim (texts_of (umi_content i)) = [] then [] else [UserText (texts_of (umi_content i)) (user_text_elements i)]) @
    map (\<lambda>(u, d). UserImage u d) (images_of (umi_content i)) @
    map (\<lambda>(f, d). UserLocalImage f d) (local_images_of (umi_content i))"
proof -
  have p: "ume_message p = texts_of (umi_content i)" "ume_text_elements p = user_text_elements i"
    "ume_images p = Some (image_urls i)" "ume_image_details p = image_details i"
    "ume_local_images p = local_image_paths i" "ume_local_image_details p = local_image_details i"
    using assms by (auto simp: user_message_legacy_event_def user_message_text_def texts_of_def)
  show ?thesis
    by (simp add: build_user_inputs_def p image_fields detail_at_trimmed images_restored)
qed

lemma texts_append [simp]: "texts_of (xs @ ys) = texts_of xs @ texts_of ys" "texts_of (UserText t es # ys) = t @ texts_of ys"
  by (simp_all add: texts_of_def)

lemma text_elements_split:
  "text_elements_from n (xs @ UserText t es # ys) =
    text_elements_from n xs @ map (rebase_element (n + length (texts_of xs)) t) es @
    text_elements_from (n + length (texts_of xs) + length t) ys"
  by (induction n xs rule: text_elements_from.induct) (auto simp: texts_of_def add.assoc)

text \<open>
  User messages survive the rollout: rebuilt from its event, a message has all its text, all its
  images with their details, and every marked range of a text selects the same bytes of the joined
  text. Skills and mentions are not in the event.
\<close>
theorem legacy_user_message_restored:
  assumes "user_message_legacy_event i = EvUserMessage p"
    and "umi_content i = xs @ UserText t es # ys" and "e \<in> set es"
    and "range_start (element_range e) \<le> range_end (element_range e)" and "range_end (element_range e) \<le> length t"
  shows "build_user_inputs p =
      (if trim (texts_of (umi_content i)) = [] then [] else [UserText (texts_of (umi_content i)) (user_text_elements i)]) @
      map (\<lambda>(u, d). UserImage u d) (images_of (umi_content i)) @
      map (\<lambda>(f, d). UserLocalImage f d) (local_images_of (umi_content i)) \<and>
    (\<exists>e' \<in> set (user_text_elements i). element_placeholder e' = placeholder_of e t \<and>
       take (range_end (element_range e') - range_start (element_range e')) (drop (range_start (element_range e')) (texts_of (umi_content i))) =
       take (range_end (element_range e) - range_start (element_range e)) (drop (range_start (element_range e)) t))"
proof -
  let ?e = "rebase_element (length (texts_of xs)) t e"
  have "?e \<in> set (user_text_elements i)"
    using assms(2,3) by (simp add: user_text_elements_def text_elements_split)
  moreover have "take (range_end (element_range ?e) - range_start (element_range ?e))
      (drop (range_start (element_range ?e)) (texts_of (umi_content i))) =
      take (range_end (element_range e) - range_start (element_range e)) (drop (range_start (element_range e)) t)"
    using assms(2,4,5) by (simp add: rebase_element_def)
  moreover have "element_placeholder ?e = placeholder_of e t" by (simp add: rebase_element_def)
  ultimately show ?thesis using build_inputs_from_legacy [OF assms(1)] by blast
qed

definition demo_element :: text_element where
  "demo_element = \<lparr>element_range = \<lparr>range_start = 0, range_end = 1\<rparr>, element_placeholder = None\<rparr>"

definition demo_message :: user_message_item where
  "demo_message = \<lparr>umi_id = ''m'', umi_client_id = None, umi_content =
     [UserText ''ab'' [], UserImage ''u'' None, UserText ''cd'' [demo_element]]\<rparr>"

theorem legacy_user_message_restored_witness:
  "(case user_message_legacy_event demo_message of EvUserMessage p \<Rightarrow> build_user_inputs p | _ \<Rightarrow> []) =
     [UserText ''abcd'' (user_text_elements demo_message), UserImage ''u'' None] \<and>
   (\<exists>e' \<in> set (user_text_elements demo_message). element_placeholder e' = Some ''c'' \<and>
      take (range_end (element_range e') - range_start (element_range e')) (drop (range_start (element_range e')) ''abcd'') = ''c'')"
proof -
  obtain p where p: "user_message_legacy_event demo_message = EvUserMessage p"
    by (simp add: user_message_legacy_event_def)
  have content: "umi_content demo_message = [UserText ''ab'' [], UserImage ''u'' None] @ UserText ''cd'' [demo_element] # []"
    by (simp add: demo_message_def)
  have e: "demo_element \<in> set [demo_element]" by simp
  have range: "range_start (element_range demo_element) \<le> range_end (element_range demo_element)"
    "range_end (element_range demo_element) \<le> length ''cd''" by (simp_all add: demo_element_def)
  have parts: "texts_of (umi_content demo_message) = ''abcd''"
    "images_of (umi_content demo_message) = [(''u'', None)]" "local_images_of (umi_content demo_message) = []"
    "placeholder_of demo_element ''cd'' = Some ''c''" by code_simp+
  have nonblank: "(trim ''abcd'' = []) = False" by code_simp
  show ?thesis
    using legacy_user_message_restored [OF p content e range] p
    unfolding parts nonblank by (simp add: demo_element_def)
qed

end
