(* ===== verification/Text_Segments.thy ===== *)
theory Text_Segments
  imports Turn_Items "HOL-Library.Monad_Syntax"
begin

text \<open>
  Cutting strings at byte positions, as the editor of the terminal interface does it. Indexing a
  string off a character boundary panics; the model is in the option monad and \<open>None\<close> is the panic.
  \<open>returns\<close> says that a computation does not panic and what it gives. The segmentation of text into
  graphemes and words, its width on the screen and its wrapping come from third-party crates: the
  record \<open>text_api\<close>, with what the editor relies on in \<open>text_laws\<close>.
\<close>

section \<open>Computations that may panic\<close>

definition returns :: "'a option \<Rightarrow> ('a \<Rightarrow> bool) \<Rightarrow> bool" where
  "returns m P = (case m of None \<Rightarrow> False | Some x \<Rightarrow> P x)"

named_theorems no_panic \<open>operations that return, and with what\<close>

lemma returns_simps [simp]:
  "returns (Some x) P = P x" "\<not> returns None P"
  "returns (if b then m else m') P = (if b then returns m P else returns m' P)"
  by (simp_all add: returns_def)

lemma returns_bind [simp]: "returns (m \<bind> f) P = returns m (\<lambda>x. returns (f x) P)"
  by (cases m) (simp_all add: returns_def)

text \<open>Chaining a computation whose result is known.\<close>

lemma returns_then:
  assumes "returns m P" and "\<And>x. P x \<Longrightarrow> returns (f x) Q"
  shows "returns (m \<bind> f) Q"
  using assms by (cases m) auto

lemma returns_weaken: "returns m P \<Longrightarrow> (\<And>x. P x \<Longrightarrow> Q x) \<Longrightarrow> returns m Q"
  by (auto simp: returns_def split: option.splits)

lemma returns_iff: "returns m P \<longleftrightarrow> (\<exists>x. m = Some x \<and> P x)"
  by (auto simp: returns_def split: option.splits)

lemma returns_conj: "returns m (\<lambda>x. P x \<and> Q x) \<longleftrightarrow> returns m P \<and> returns m Q"
  by (auto simp: returns_def split: option.splits)

section \<open>Positions\<close>

text \<open>\<open>String::replace_range\<close> and \<open>String::insert_str\<close>; indexing with a range is \<open>str_get\<close>.\<close>

definition str_replace :: "rstr \<Rightarrow> nat \<Rightarrow> nat \<Rightarrow> rstr \<Rightarrow> rstr option" where
  "str_replace s a b t =
     (if a \<le> b \<and> is_char_boundary s a \<and> is_char_boundary s b then Some (take a s @ t @ drop b s) else None)"

definition str_insert :: "rstr \<Rightarrow> nat \<Rightarrow> rstr \<Rightarrow> rstr option" where
  "str_insert s a t = (if is_char_boundary s a then Some (take a s @ t @ drop a s) else None)"

lemma boundary_le: "is_char_boundary s k \<Longrightarrow> k \<le> length s"
  by (auto simp: is_char_boundary_def split: if_splits)

lemma boundary_ends [simp]: "is_char_boundary s 0" "is_char_boundary s (length s)"
  by (simp_all add: is_char_boundary_def)

lemma boundary_iff:
  assumes "valid_utf8 s"
  shows "is_char_boundary s k \<longleftrightarrow> k \<le> length s \<and> valid_utf8 (take k s)"
proof
  assume b: "is_char_boundary s k"
  then show "k \<le> length s \<and> valid_utf8 (take k s)"
    using valid_utf8_split [OF assms, of k] assms
    by (auto simp: is_char_boundary_def is_cont_def split: if_splits)
next
  assume "k \<le> length s \<and> valid_utf8 (take k s)"
  then show "is_char_boundary s k"
    using valid_utf8_boundary [of "take k s" "drop k s"] assms by (simp add: min_absorb2)
qed

lemma boundary_valid:
  assumes "valid_utf8 s" and "is_char_boundary s k"
  shows "valid_utf8 (take k s)" and "valid_utf8 (drop k s)"
  using assms boundary_iff [of s k] valid_utf8_append_iff [of "take k s" "drop k s"] by auto

lemma boundary_take:
  assumes "valid_utf8 s" and "is_char_boundary s b" and "is_char_boundary s a" and "a \<le> b"
  shows "is_char_boundary (take b s) a"
  using assms boundary_iff [of s] boundary_iff [OF boundary_valid(1) [OF assms(1,2)]] by (auto simp: min_def)

lemma boundary_drop:
  assumes "valid_utf8 s" and "is_char_boundary s a" and "is_char_boundary (drop a s) k"
  shows "is_char_boundary s (a + k)"
proof -
  have "valid_utf8 (take a s @ take k (drop a s))"
    using assms boundary_valid boundary_iff [of "drop a s" k] by blast
  then show ?thesis
    using assms boundary_iff [of s "a + k"] boundary_le [OF assms(2)] boundary_le [OF assms(3)] by (simp add: take_add)
qed

lemma boundary_of_take:
  assumes "valid_utf8 s" and "is_char_boundary s b" and "is_char_boundary (take b s) a"
  shows "is_char_boundary s a"
proof -
  have "a \<le> length (take b s)" "valid_utf8 (take a (take b s))"
    using assms boundary_valid boundary_iff by blast+
  then show ?thesis using assms(1) boundary_iff [of s a] by (auto simp: min_def split: if_splits)
qed

text \<open>The part between two boundaries, and positions in it.\<close>

lemma str_get_returns [no_panic]:
  "a \<le> b \<Longrightarrow> is_char_boundary s a \<Longrightarrow> is_char_boundary s b \<Longrightarrow> str_get s a b = Some (take (b - a) (drop a s))"
  by (simp add: str_get_def)

lemma part_valid:
  assumes "valid_utf8 s" and "is_char_boundary s a" and "is_char_boundary s b" and "a \<le> b"
  shows "valid_utf8 (take (b - a) (drop a s))"
  using boundary_valid(2) [OF boundary_valid(1) [OF assms(1,3)] boundary_take [OF assms(1,3,2,4)]]
  by (simp add: drop_take)

lemma part_boundary:
  assumes "valid_utf8 s" and "is_char_boundary s a" and "is_char_boundary s b" and "a \<le> b"
    and "is_char_boundary (take (b - a) (drop a s)) k"
  shows "is_char_boundary s (a + k)" and "a + k \<le> b"
proof -
  have b: "b \<le> length s" using assms(3) by (rule boundary_le)
  show "a + k \<le> b" using boundary_le [OF assms(5)] b assms(4) by simp
  have "is_char_boundary (drop a (take b s)) k" using assms(5) by (simp add: drop_take)
  then have "is_char_boundary (take b s) (a + k)"
    by (rule boundary_drop [OF boundary_valid(1) [OF assms(1,3)] boundary_take [OF assms(1,3,2,4)]])
  then show "is_char_boundary s (a + k)" by (rule boundary_of_take [OF assms(1,3)])
qed

text \<open>What an edit does to boundaries: those before and after the replaced part stay, shifted.\<close>

lemma replace_valid:
  assumes "valid_utf8 s" and "valid_utf8 t" and "is_char_boundary s a" and "is_char_boundary s b"
  shows "valid_utf8 (take a s @ t @ drop b s)"
  using assms boundary_valid by (intro valid_utf8_append) auto

lemma boundary_before_edit:
  assumes "valid_utf8 s" and "valid_utf8 t" and "is_char_boundary s a" and "is_char_boundary s b"
    and "is_char_boundary s k" and "k \<le> a"
  shows "is_char_boundary (take a s @ t @ drop b s) k"
proof -
  have "take k (take a s @ t @ drop b s) = take k s"
    using assms(3,6) boundary_le [OF assms(3)] by (simp add: min_def)
  then show ?thesis
    using boundary_iff [OF replace_valid [OF assms(1-4)], of k] boundary_iff [OF assms(1), of k] assms(3,5,6)
      boundary_le [OF assms(3)] by simp
qed

lemma boundary_after_edit:
  assumes "valid_utf8 s" and "valid_utf8 t" and "is_char_boundary s a" and "is_char_boundary s b"
    and "is_char_boundary s k" and "b \<le> k"
  shows "is_char_boundary (take a s @ t @ drop b s) (a + length t + (k - b))"
proof -
  let ?s = "take a s @ t @ drop b s"
  have a: "a \<le> length s" and k: "k \<le> length s" using assms(3,5) boundary_le by auto
  have "valid_utf8 (take (k - b) (drop b s))" using part_valid [OF assms(1,4,5,6)] .
  then have "valid_utf8 (take a s @ t @ take (k - b) (drop b s))"
    using assms(2) boundary_valid(1) [OF assms(1,3)] by (intro valid_utf8_append)
  moreover have "take (a + length t + (k - b)) ?s = take a s @ t @ take (k - b) (drop b s)"
    using a by (simp add: min_def)
  ultimately show ?thesis
    using boundary_iff [OF replace_valid [OF assms(1-4)]] a k assms(6) by simp
qed

lemma boundary_after_insert:
  assumes "valid_utf8 s" and "valid_utf8 t" and "is_char_boundary s a" and "is_char_boundary s b"
  shows "is_char_boundary (take a s @ t @ drop b s) (a + length t)"
  using boundary_after_edit [OF assms assms(4)] by simp

section \<open>Characters with their positions\<close>

fun with_offsets :: "nat \<Rightarrow> rstr list \<Rightarrow> (nat \<times> rstr) list" where
  "with_offsets n [] = []"
| "with_offsets n (p # ps) = (n, p) # with_offsets (n + length p) ps"

definition char_indices :: "rstr \<Rightarrow> (nat \<times> rstr) list" where
  "char_indices s = with_offsets 0 (chars s)"

text \<open>\<open>find\<close> and \<open>rfind\<close> of a character: the position of the first and of the last one.\<close>

definition find_char :: "(rstr \<Rightarrow> bool) \<Rightarrow> rstr \<Rightarrow> nat option" where
  "find_char P s = map_option fst (List.find (\<lambda>(_, c). P c) (char_indices s))"

definition rfind_char :: "(rstr \<Rightarrow> bool) \<Rightarrow> rstr \<Rightarrow> (nat \<times> rstr) option" where
  "rfind_char P s = List.find (\<lambda>(_, c). P c) (rev (char_indices s))"

lemma in_with_offsets:
  "(i, p) \<in> set (with_offsets n ps) \<Longrightarrow> \<exists>us vs. ps = us @ p # vs \<and> i = n + length (concat us)"
proof (induction n ps rule: with_offsets.induct)
  case (2 n q qs)
  show ?case
  proof (cases "(i, p) \<in> set (with_offsets (n + length q) qs)")
    case True
    then obtain us vs where "qs = us @ p # vs" "i = n + length q + length (concat us)" using 2 by blast
    then show ?thesis by (intro exI [of _ "q # us"] exI [of _ vs]) simp
  qed (use 2 in \<open>force\<close>)
qed simp

definition pieces_of :: "rstr \<Rightarrow> rstr list \<Rightarrow> bool" where
  "pieces_of s ps \<longleftrightarrow> concat ps = s \<and> list_all valid_utf8 ps"

lemma offset_boundary:
  assumes "pieces_of s ps" and "(i, p) \<in> set (with_offsets 0 ps)"
  shows "is_char_boundary s i" and "is_char_boundary s (i + length p)" and "take (length p) (drop i s) = p"
    and "valid_utf8 p" and "valid_utf8 s"
proof -
  obtain us vs where ps: "ps = us @ p # vs" and i: "i = length (concat us)"
    using in_with_offsets [OF assms(2)] by auto
  have s: "s = concat us @ p @ concat vs" using assms(1) ps by (simp add: pieces_of_def)
  have valid: "valid_utf8 (concat us)" "valid_utf8 p" "valid_utf8 (concat vs)"
    using assms(1) ps valid_utf8_concat by (auto simp: pieces_of_def)
  then have vs: "valid_utf8 s" "valid_utf8 (concat us @ p)" by (auto simp: s)
  show "is_char_boundary s i" "is_char_boundary s (i + length p)"
    using boundary_iff [OF vs(1)] valid vs by (simp_all add: s i)
  show "take (length p) (drop i s) = p" "valid_utf8 p" "valid_utf8 s" using valid vs by (simp_all add: s i)
qed

lemma chars_pieces: "valid_utf8 s \<Longrightarrow> pieces_of s (chars s)"
  using valid_utf8_chars one_char_valid by (auto simp: pieces_of_def list_all_iff)

lemma in_char_indices:
  assumes "valid_utf8 s" and "(i, c) \<in> set (char_indices s)"
  shows "is_char_boundary s i" and "is_char_boundary s (i + length c)" and "take (length c) (drop i s) = c"
    and "one_char c" and "i < length s"
proof -
  note off = offset_boundary [OF chars_pieces [OF assms(1)] assms(2) [unfolded char_indices_def]]
  show "is_char_boundary s i" "is_char_boundary s (i + length c)" "take (length c) (drop i s) = c" using off by auto
  show one: "one_char c"
    using assms in_with_offsets [of i c 0 "chars s"] valid_utf8_chars [OF assms(1)]
    by (auto simp: char_indices_def)
  show "i < length s"
    using boundary_le [OF off(2)] one_char_ne [OF one] by (cases c) auto
qed

lemma find_SomeD: "List.find P xs = Some x \<Longrightarrow> x \<in> set xs \<and> P x"
  by (induction xs) (auto split: if_splits)

lemma find_char_boundary:
  assumes "valid_utf8 s" and "find_char P s = Some i"
  shows "is_char_boundary s i" and "i < length s" and "\<exists>c. P c \<and> is_char_boundary s (i + length c) \<and> take (length c) (drop i s) = c"
proof -
  obtain c where c: "List.find (\<lambda>(_, c). P c) (char_indices s) = Some (i, c)"
    using assms(2) by (auto simp: find_char_def)
  from find_SomeD [OF c] have "(i, c) \<in> set (char_indices s)" "P c" by auto
  then show "is_char_boundary s i" "i < length s" "\<exists>c. P c \<and> is_char_boundary s (i + length c) \<and> take (length c) (drop i s) = c"
    using in_char_indices [OF assms(1)] by blast+
qed

lemma rfind_char_boundary:
  assumes "valid_utf8 s" and "rfind_char P s = Some (i, c)"
  shows "is_char_boundary s i" and "is_char_boundary s (i + length c)" and "P c" and "i < length s"
    and "take (length c) (drop i s) = c"
proof -
  from find_SomeD [OF assms(2) [unfolded rfind_char_def]] have "(i, c) \<in> set (char_indices s)" "P c" by auto
  then show "is_char_boundary s i" "is_char_boundary s (i + length c)" "P c" "i < length s"
    "take (length c) (drop i s) = c"
    using in_char_indices [OF assms(1)] by auto
qed

section \<open>Segmentation\<close>

text \<open>
  \<open>GraphemeCursor::prev_boundary\<close> and \<open>next_boundary\<close> from a position, which may fail; the pieces of
  \<open>grapheme_indices\<close> and of \<open>split_word_bound_indices\<close>; the width of \<open>unicode_width\<close>; the lines
  \<open>textwrap::wrap\<close> gives for a width. A borrowed line is a slice; its range says where it lies in the text,
  if it does, which the code finds out from its address.
\<close>

datatype wrapped_line = BorrowedLine rstr "(nat \<times> nat) option" | OwnedLine rstr

text \<open>Without indentation, in at least one column, every line is a slice of the text, in order.\<close>

fun slice_of :: "rstr \<Rightarrow> wrapped_line \<Rightarrow> bool" where
  "slice_of s (BorrowedLine t (Some (x, y))) \<longleftrightarrow>
     x \<le> y \<and> is_char_boundary s x \<and> is_char_boundary s y \<and> t = take (y - x) (drop x s)"
| "slice_of s (BorrowedLine t None) \<longleftrightarrow> True"
| "slice_of s (OwnedLine t) \<longleftrightarrow> True"

fun slice_start :: "wrapped_line \<Rightarrow> nat option" where
  "slice_start (BorrowedLine t r) = map_option fst r"
| "slice_start (OwnedLine t) = None"

definition slices_ok :: "rstr \<Rightarrow> wrapped_line list \<Rightarrow> bool" where
  "slices_ok s ls \<longleftrightarrow> list_all (slice_of s) ls \<and> list_all (\<lambda>l. slice_start l \<noteq> None) ls \<and> sorted (map (the \<circ> slice_start) ls)"

record text_api =
  api_prev_boundary :: "rstr \<Rightarrow> nat \<Rightarrow> (unit, nat option) result"
  api_next_boundary :: "rstr \<Rightarrow> nat \<Rightarrow> (unit, nat option) result"
  api_graphemes :: "rstr \<Rightarrow> rstr list"
  api_word_bounds :: "rstr \<Rightarrow> rstr list"
  api_width :: "rstr \<Rightarrow> nat"
  api_wrap :: "rstr \<Rightarrow> nat \<Rightarrow> wrapped_line list"

definition text_laws :: "text_api \<Rightarrow> bool" where
  "text_laws api \<longleftrightarrow>
     (\<forall>s. valid_utf8 s \<longrightarrow>
        pieces_of s (api_graphemes api s) \<and> pieces_of s (api_word_bounds api s) \<and>
        (\<forall>w > 0. slices_ok s (api_wrap api s w)) \<and>
        (\<forall>k. is_char_boundary s k \<longrightarrow>
           (\<exists>r. api_prev_boundary api s k = Ok r \<and> (\<forall>b. r = Some b \<longrightarrow> b < k \<and> is_char_boundary s b)) \<and>
           (\<exists>r. api_next_boundary api s k = Ok r \<and> (\<forall>b. r = Some b \<longrightarrow> k < b \<and> is_char_boundary s b))))"

lemma text_lawsD:
  assumes "text_laws api" and "valid_utf8 s"
  shows "pieces_of s (api_graphemes api s)" and "pieces_of s (api_word_bounds api s)" and "0 < w \<Longrightarrow> slices_ok s (api_wrap api s w)"
    and "is_char_boundary s k \<Longrightarrow> \<exists>r. api_prev_boundary api s k = Ok r \<and> (\<forall>b. r = Some b \<longrightarrow> b < k \<and> is_char_boundary s b)"
    and "is_char_boundary s k \<Longrightarrow> \<exists>r. api_next_boundary api s k = Ok r \<and> (\<forall>b. r = Some b \<longrightarrow> k < b \<and> is_char_boundary s b)"
  using assms by (auto simp: text_laws_def)

section \<open>Words\<close>

definition WORD_SEPARATORS :: rstr where
  "WORD_SEPARATORS = ''`~!@#$%^&*()-=+[{]}'' @ [CHR 0x5C] @ ''|;:'' @ [CHR 0x27, CHR 0x22] @ '',.<>/?''"

definition is_word_separator :: "rstr \<Rightarrow> bool" where
  "is_word_separator c = (c \<in> set (map (\<lambda>b. [b]) WORD_SEPARATORS))"

fun piece_loop :: "rstr \<Rightarrow> nat \<Rightarrow> nat \<Rightarrow> bool \<Rightarrow> (nat \<times> rstr) list \<Rightarrow> (nat \<times> rstr) list" where
  "piece_loop segment segment_start piece_start in_separator [] = [(segment_start + piece_start, drop piece_start segment)]"
| "piece_loop segment segment_start piece_start in_separator ((idx, ch) # cs) =
     (if is_word_separator ch = in_separator then piece_loop segment segment_start piece_start in_separator cs
      else (segment_start + piece_start, take (idx - piece_start) (drop piece_start segment)) #
        piece_loop segment segment_start idx (is_word_separator ch) cs)"

definition segment_pieces :: "nat \<times> rstr \<Rightarrow> (nat \<times> rstr) list" where
  "segment_pieces = (\<lambda>(segment_start, segment).
     case char_indices segment of [] \<Rightarrow> []
     | (_, first_char) # cs \<Rightarrow> piece_loop segment segment_start 0 (is_word_separator first_char) cs)"

definition split_word_pieces :: "text_api \<Rightarrow> rstr \<Rightarrow> (nat \<times> rstr) list" where
  "split_word_pieces api run = concat (map segment_pieces (with_offsets 0 (api_word_bounds api run)))"

lemma piece_loop_boundary:
  assumes "valid_utf8 seg" and "is_char_boundary seg ps" and "list_all (\<lambda>(i, _). ps \<le> i \<and> is_char_boundary seg i) cs"
    and "sorted (map fst cs)" and "(i, p) \<in> set (piece_loop seg s0 ps sep cs)"
  shows "\<exists>k. i = s0 + k \<and> is_char_boundary seg k \<and> is_char_boundary seg (k + length p)"
  using assms(2-)
proof (induction seg s0 ps sep cs rule: piece_loop.induct)
  case (1 segment s0 ps sep)
  then show ?case using boundary_le [of segment ps] by simp
next
  case (2 segment s0 ps sep idx ch cs)
  have idx: "ps \<le> idx" "is_char_boundary segment idx" "list_all (\<lambda>(i, _). idx \<le> i \<and> is_char_boundary segment i) cs"
    using 2 by (auto simp: list_all_iff)
  show ?case
  proof (cases "is_word_separator ch = sep")
    case True
    then show ?thesis using 2 by (auto simp: list_all_iff)
  next
    case False
    then show ?thesis using 2 idx boundary_le [of segment idx] by auto
  qed
qed

lemma with_offsets_ge: "(i, p) \<in> set (with_offsets n ps) \<Longrightarrow> n \<le> i"
  by (induction n ps rule: with_offsets.induct) auto

lemma sorted_with_offsets: "sorted (map fst (with_offsets n ps))"
  by (induction n ps rule: with_offsets.induct) (auto dest: with_offsets_ge)

lemma segment_pieces_boundary:
  assumes "valid_utf8 seg" and "(i, p) \<in> set (segment_pieces (s0, seg))"
  shows "\<exists>k. i = s0 + k \<and> is_char_boundary seg k \<and> is_char_boundary seg (k + length p)"
proof (cases "char_indices seg")
  case (Cons x cs)
  have "list_all (\<lambda>(i, _). is_char_boundary seg i) (char_indices seg)"
    using in_char_indices [OF assms(1)] by (auto simp: list_all_iff)
  moreover have "sorted (map fst (char_indices seg))" by (simp add: char_indices_def sorted_with_offsets)
  moreover obtain c where "(i, p) \<in> set (piece_loop seg s0 0 c cs)"
    using assms(2) Cons by (auto simp: segment_pieces_def split: prod.splits)
  ultimately show ?thesis
    using Cons by (intro piece_loop_boundary [OF assms(1), of 0 cs i p s0 c]) (auto simp: list_all_iff)
qed (use assms in \<open>simp add: segment_pieces_def\<close>)

lemma split_word_pieces_boundary:
  assumes "text_laws api" and "valid_utf8 run" and "(i, p) \<in> set (split_word_pieces api run)"
  shows "is_char_boundary run i" and "is_char_boundary run (i + length p)"
proof -
  obtain s0 seg where seg: "(s0, seg) \<in> set (with_offsets 0 (api_word_bounds api run))"
    and ip: "(i, p) \<in> set (segment_pieces (s0, seg))"
    using assms(3) by (auto simp: split_word_pieces_def)
  note off = offset_boundary [OF text_lawsD(2) [OF assms(1,2)] seg]
  obtain k where k: "i = s0 + k" "is_char_boundary seg k" "is_char_boundary seg (k + length p)"
    using segment_pieces_boundary [OF off(4) ip] by blast
  have cut: "seg = take (s0 + length seg - s0) (drop s0 run)" using off(3) by simp
  have "s0 \<le> s0 + length seg" by simp
  then show "is_char_boundary run i" "is_char_boundary run (i + length p)"
    using part_boundary(1) [OF assms(2) off(1,2)] k cut by (metis add.assoc)+
qed

end
