(* ===== verification/Text_Wrap.thy ===== *)
theory Text_Wrap
  imports Text_Segments
begin

text \<open>
  Which bytes of the text each wrapped line shows (\<open>wrap_ranges\<close> and \<open>wrap_ranges_trim\<close> of
  \<open>tui/src/wrapping.rs\<close>). A line that \<open>textwrap\<close> built itself, with a hyphen or an indent, is matched
  against the text character by character; whatever it holds, the result is a range of the text.
\<close>

section \<open>Matching a line\<close>

text \<open>The loop over the characters of the line; \<open>stop\<close> is where the match has come to.\<close>

fun map_loop :: "rstr \<Rightarrow> nat \<Rightarrow> bool \<Rightarrow> rstr list \<Rightarrow> nat option" where
  "map_loop txt stop saw [] = Some stop"
| "map_loop txt stop saw (ch # cs) = do {
     src \<leftarrow> (if stop < length txt
       then do { rest \<leftarrow> str_get txt stop (length txt); Some (case chars rest of [] \<Rightarrow> None | c # _ \<Rightarrow> Some c) }
       else Some None);
     if src = Some ch then map_loop txt (stop + length ch) True cs
     else if ch = ''-'' \<and> cs = [] then map_loop txt stop saw cs
     else if \<not> saw then map_loop txt stop saw cs
     else Some stop
   }"

definition map_owned_wrapped_line_to_range :: "rstr \<Rightarrow> nat \<Rightarrow> rstr \<Rightarrow> rstr \<Rightarrow> (nat \<times> nat) option" where
  "map_owned_wrapped_line_to_range txt cursor wrapped0 synthetic_prefix =
     (let wrapped = (if synthetic_prefix = [] then wrapped0
          else case strip_prefix synthetic_prefix wrapped0 of Some w \<Rightarrow> w | None \<Rightarrow> wrapped0)
      in do {
        start \<leftarrow> (if cursor < length txt \<and> \<not> starts_with wrapped '' ''
          then do { rest \<leftarrow> str_get txt cursor (length txt); Some (cursor + length (takeWhile (\<lambda>c. c = CHR '' '') rest)) }
          else Some cursor);
        stop \<leftarrow> map_loop txt start False (chars wrapped);
        Some (start, stop)
      })"

text \<open>The range of one line, before trailing spaces are looked at.\<close>

definition line_range :: "rstr \<Rightarrow> nat \<Rightarrow> rstr \<Rightarrow> wrapped_line \<Rightarrow> (nat \<times> nat) option" where
  "line_range txt cursor synthetic_prefix line =
     (case line of
        BorrowedLine slice (Some r) \<Rightarrow> Some r
      | BorrowedLine slice None \<Rightarrow> map_owned_wrapped_line_to_range txt cursor slice synthetic_prefix
      | OwnedLine slice \<Rightarrow> map_owned_wrapped_line_to_range txt cursor slice synthetic_prefix)"

definition trailing_spaces :: "rstr \<Rightarrow> nat \<Rightarrow> nat option" where
  "trailing_spaces txt stop = do { rest \<leftarrow> str_get txt stop (length txt); Some (length (takeWhile (\<lambda>c. c = CHR '' '') rest)) }"

section \<open>All lines\<close>

text \<open>The first line has the initial indent, the others the subsequent one.\<close>

fun wrap_loop :: "rstr \<Rightarrow> nat \<Rightarrow> rstr \<Rightarrow> rstr \<Rightarrow> wrapped_line list \<Rightarrow> (nat \<times> nat) list option" where
  "wrap_loop txt cursor indent subsequent [] = Some []"
| "wrap_loop txt cursor indent subsequent (line # ls) = do {
     (start, stop) \<leftarrow> line_range txt cursor indent line;
     spaces \<leftarrow> trailing_spaces txt stop;
     rest \<leftarrow> wrap_loop txt (stop + spaces) subsequent subsequent ls;
     Some ((start, stop + spaces + 1) # rest)
   }"

definition wrap_ranges :: "rstr \<Rightarrow> rstr \<Rightarrow> rstr \<Rightarrow> wrapped_line list \<Rightarrow> (nat \<times> nat) list option" where
  "wrap_ranges txt initial_indent subsequent_indent wrapped = wrap_loop txt 0 initial_indent subsequent_indent wrapped"

fun trim_wrap_loop :: "rstr \<Rightarrow> nat \<Rightarrow> rstr \<Rightarrow> rstr \<Rightarrow> wrapped_line list \<Rightarrow> (nat \<times> nat) list option" where
  "trim_wrap_loop txt cursor indent subsequent [] = Some []"
| "trim_wrap_loop txt cursor indent subsequent (line # ls) = do {
     r \<leftarrow> line_range txt cursor indent line;
     rest \<leftarrow> trim_wrap_loop txt (snd r) subsequent subsequent ls;
     Some (r # rest)
   }"

definition wrap_ranges_trim :: "rstr \<Rightarrow> rstr \<Rightarrow> rstr \<Rightarrow> wrapped_line list \<Rightarrow> (nat \<times> nat) list option" where
  "wrap_ranges_trim txt initial_indent subsequent_indent wrapped = trim_wrap_loop txt 0 initial_indent subsequent_indent wrapped"

section \<open>Ranges lie in the text\<close>

definition bounds_ok :: "rstr \<Rightarrow> nat \<times> nat \<Rightarrow> bool" where
  "bounds_ok s r \<longleftrightarrow> fst r \<le> snd r \<and> is_char_boundary s (fst r) \<and> is_char_boundary s (snd r)"

definition lines_ok :: "rstr \<Rightarrow> (nat \<times> nat) list \<Rightarrow> bool" where
  "lines_ok s ls \<longleftrightarrow> (\<forall>(a, b) \<in> set ls. a < b \<and> is_char_boundary s a \<and> is_char_boundary s (b - 1))"

lemma first_char_boundary:
  assumes "valid_utf8 s" and "is_char_boundary s k" and "chars (drop k s) = c # cs"
  shows "is_char_boundary s (k + length c)"
proof -
  have "(0, c) \<in> set (char_indices (drop k s))" using assms(3) by (simp add: char_indices_def)
  from in_char_indices(2) [OF boundary_valid(2) [OF assms(1,2)] this] have "is_char_boundary (drop k s) (length c)" by simp
  then show ?thesis by (rule boundary_drop [OF assms(1,2)])
qed

lemma rest_returns: "is_char_boundary s k \<Longrightarrow> str_get s k (length s) = Some (drop k s)"
  using boundary_le [of s k] by (simp add: str_get_returns)

lemma map_loop_ok:
  assumes "valid_utf8 s"
  shows "is_char_boundary s stop \<Longrightarrow> returns (map_loop s stop saw cs) (\<lambda>t. stop \<le> t \<and> is_char_boundary s t)"
proof (induction cs arbitrary: stop saw)
  case (Cons ch cs)
  define src where "src = (if stop < length s then (case chars (drop stop s) of [] \<Rightarrow> None | c # _ \<Rightarrow> Some c) else None)"
  have src: "(if stop < length s then str_get s stop (length s) \<bind> (\<lambda>rest. Some (case chars rest of [] \<Rightarrow> None | c # _ \<Rightarrow> Some c))
      else Some None) = Some src"
    using Cons.prems by (simp add: src_def rest_returns)
  have "is_char_boundary s (stop + length ch)" if "src = Some ch"
    using that first_char_boundary [OF assms Cons.prems] by (auto simp: src_def split: if_splits list.splits)
  then have "returns (map_loop s (stop + length ch) True cs) (\<lambda>t. stop \<le> t \<and> is_char_boundary s t)" if "src = Some ch"
    using Cons.IH [of "stop + length ch" True] that by (auto elim: returns_weaken)
  then show ?case using Cons by (simp add: src del: returns_bind)
qed simp

text \<open>Spaces are characters of one byte.\<close>

lemma spaces_boundary:
  assumes "valid_utf8 s" and "is_char_boundary s k"
  shows "is_char_boundary s (k + length (takeWhile (\<lambda>c. c = CHR '' '') (drop k s)))"
proof -
  let ?w = "takeWhile (\<lambda>c. c = CHR '' '') (drop k s)"
  have valid: "valid_utf8 (replicate n (CHR '' ''))" for n
  proof (induction n)
    case (Suc n)
    have "valid_utf8 ([CHR '' ''] @ replicate n (CHR '' ''))" by (rule valid_utf8_append [OF _ Suc]) code_simp
    then show ?case by simp
  qed (simp add: valid_utf8_Nil)
  have w: "?w = replicate (length ?w) (CHR '' '')" by (rule replicate_eqI [symmetric, THEN sym]) (auto dest: set_takeWhileD)
  have "take (length ?w) (drop k s) = ?w" by (metis takeWhile_eq_take)
  then have "is_char_boundary (drop k s) (length ?w)"
    using boundary_iff [OF boundary_valid(2) [OF assms], of "length ?w"] valid [of "length ?w"] w length_takeWhile_le by metis
  then show ?thesis by (rule boundary_drop [OF assms])
qed

lemma trailing_spaces_ok:
  assumes "valid_utf8 s" and "is_char_boundary s k"
  shows "returns (trailing_spaces s k) (\<lambda>n. is_char_boundary s (k + n))"
  using spaces_boundary [OF assms] assms(2) by (simp add: trailing_spaces_def rest_returns)

lemma map_owned_ok:
  assumes "valid_utf8 s" and "is_char_boundary s cursor"
  shows "returns (map_owned_wrapped_line_to_range s cursor w p) (bounds_ok s)"
  unfolding map_owned_wrapped_line_to_range_def Let_def
  by (rule returns_then [where P = "is_char_boundary s"])
    (use assms spaces_boundary [OF assms] in \<open>auto simp: rest_returns bounds_ok_def intro: returns_weaken [OF map_loop_ok [OF assms(1)]]\<close>)

lemma line_range_ok:
  assumes "valid_utf8 s" and "is_char_boundary s cursor" and "slice_of s line"
  shows "returns (line_range s cursor p line) (bounds_ok s)"
  using assms map_owned_ok [OF assms(1,2)]
  by (cases "(s, line)" rule: slice_of.cases) (auto simp: line_range_def bounds_ok_def)

lemma wrap_loop_ok:
  assumes "valid_utf8 s"
  shows "is_char_boundary s cursor \<Longrightarrow> list_all (slice_of s) ls \<Longrightarrow> returns (wrap_loop s cursor i j ls) (\<lambda>rs. length rs = length ls \<and> lines_ok s rs)"
proof (induction ls arbitrary: cursor i)
  case (Cons line ls)
  have step: "returns (trailing_spaces s y \<bind> (\<lambda>n. wrap_loop s (y + n) j j ls \<bind> (\<lambda>rest. Some ((x, y + n + 1) # rest))))
      (\<lambda>rs. length rs = length (line # ls) \<and> lines_ok s rs)" if "bounds_ok s (x, y)" for x y
  proof (rule returns_then [OF trailing_spaces_ok [OF assms]])
    fix n assume n: "is_char_boundary s (y + n)"
    show "returns (wrap_loop s (y + n) j j ls \<bind> (\<lambda>rest. Some ((x, y + n + 1) # rest))) (\<lambda>rs. length rs = length (line # ls) \<and> lines_ok s rs)"
      by (rule returns_then [OF Cons.IH [OF n]]) (use Cons.prems n that in \<open>auto simp: lines_ok_def bounds_ok_def\<close>)
  qed (use that in \<open>simp add: bounds_ok_def\<close>)
  show ?case
    unfolding wrap_loop.simps
    by (rule returns_then [OF line_range_ok [OF assms Cons.prems(1)]]) (use Cons.prems step in auto)
qed (simp add: lines_ok_def)

lemma trim_wrap_loop_ok:
  assumes "valid_utf8 s"
  shows "is_char_boundary s cursor \<Longrightarrow> list_all (slice_of s) ls \<Longrightarrow>
    returns (trim_wrap_loop s cursor i j ls) (\<lambda>rs. length rs = length ls \<and> list_all (bounds_ok s) rs)"
proof (induction ls arbitrary: cursor i)
  case (Cons line ls)
  have step: "returns (trim_wrap_loop s (snd r) j j ls \<bind> (\<lambda>rest. Some (r # rest))) (\<lambda>rs. length rs = length (line # ls) \<and> list_all (bounds_ok s) rs)"
    if "bounds_ok s r" for r
    by (rule returns_then [OF Cons.IH]) (use Cons.prems that that [unfolded bounds_ok_def] in auto)
  show ?case
    unfolding trim_wrap_loop.simps
    by (rule returns_then [OF line_range_ok [OF assms Cons.prems(1)] step]) (use Cons.prems in auto)
qed simp

text \<open>Slices in order give lines in order, so that the line of a position can be searched for.\<close>

lemma wrap_loop_starts:
  "wrap_loop s cursor i j ls = Some rs \<Longrightarrow> list_all (\<lambda>l. slice_start l \<noteq> None) ls \<Longrightarrow> map fst rs = map (the \<circ> slice_start) ls"
proof (induction ls arbitrary: cursor i rs)
  case (Cons l ls)
  then obtain t x y where "l = BorrowedLine t (Some (x, y))" by (cases l) auto
  then show ?case using Cons by (auto simp: bind_eq_Some_conv line_range_def)
qed simp

lemma wrap_ranges_sorted:
  "wrap_ranges s i j ls = Some rs \<Longrightarrow> slices_ok s ls \<Longrightarrow> sorted (map fst rs)"
  using wrap_loop_starts by (fastforce simp: wrap_ranges_def slices_ok_def)

end
