(* ===== verification/Key_Bindings.thy ===== *)
theory Key_Bindings
  imports Utf8
begin

text \<open>
  Key events and bindings of the terminal interface (\<open>tui/src/key_hint.rs\<close>) and its key maps
  (\<open>tui/src/keymap.rs\<close>), with their defaults. A Rust \<open>char\<close> is its UTF-8 encoding.
\<close>

section \<open>Events\<close>

text \<open>The key codes and modifiers of \<open>crossterm\<close> the program tells apart.\<close>

datatype key_code =
    KeyChar rstr | KeyEnter | KeyEsc | KeyBackspace | KeyDelete | KeyInsert | KeyLeft | KeyRight | KeyUp | KeyDown
  | KeyHome | KeyEnd | KeyTab | KeyPageUp | KeyPageDown | KeyF nat | KeyOther nat

record key_modifiers =
  mod_shift :: bool
  mod_control :: bool
  mod_alt :: bool
  mod_other :: nat

datatype key_event_kind = KeyPress | KeyRepeat | KeyRelease

record key_event =
  event_code :: key_code
  event_modifiers :: key_modifiers
  event_kind :: key_event_kind

definition mods_none :: key_modifiers where
  "mods_none = \<lparr>mod_shift = False, mod_control = False, mod_alt = False, mod_other = 0\<rparr>"

record key_binding =
  binding_key :: key_code
  binding_modifiers :: key_modifiers

section \<open>Matching\<close>

definition byte_of :: "rstr \<Rightarrow> nat option" where
  "byte_of c = (case c of [b] \<Rightarrow> Some (of_char b) | _ \<Rightarrow> None)"

definition ascii_char :: "nat \<Rightarrow> rstr" where
  "ascii_char n = [char_of n]"

text \<open>A raw control character stands for a control key: 0 is a space, 1 to 26 the letters, 28 to 31 the digits from 4.\<close>

definition c0_control_char_to_ctrl_char :: "rstr \<Rightarrow> rstr option" where
  "c0_control_char_to_ctrl_char ch =
     (case byte_of ch of None \<Rightarrow> None
      | Some code \<Rightarrow>
          if code = 0 then Some (ascii_char 32)
          else if code \<le> 26 then Some (ascii_char (code - 1 + 97))
          else if 28 \<le> code \<and> code \<le> 31 then Some (ascii_char (code - 28 + 52))
          else None)"

definition is_ascii_uppercase :: "rstr \<Rightarrow> bool" where
  "is_ascii_uppercase ch = (case byte_of ch of None \<Rightarrow> False | Some b \<Rightarrow> 65 \<le> b \<and> b \<le> 90)"

definition is_ascii_control :: "rstr \<Rightarrow> bool" where
  "is_ascii_control ch = (case byte_of ch of None \<Rightarrow> False | Some b \<Rightarrow> b < 32 \<or> b = 127)"

fun normalize_key_parts :: "key_code \<Rightarrow> key_modifiers \<Rightarrow> key_code \<times> key_modifiers" where
  "normalize_key_parts (KeyChar ch) modifiers =
     (case (if modifiers = mods_none then c0_control_char_to_ctrl_char ch else None) of
        Some ctrl_char \<Rightarrow> (KeyChar ctrl_char, modifiers\<lparr>mod_control := True\<rparr>)
      | None \<Rightarrow>
          if is_ascii_uppercase ch then (KeyChar (to_ascii_lowercase ch), modifiers\<lparr>mod_shift := True\<rparr>)
          else (KeyChar ch, modifiers))"
| "normalize_key_parts key modifiers = (key, modifiers)"

definition is_press :: "key_binding \<Rightarrow> key_event \<Rightarrow> bool" where
  "is_press b ev =
     (normalize_key_parts (binding_key b) (binding_modifiers b) =
        normalize_key_parts (event_code ev) (event_modifiers ev) \<and>
      (event_kind ev = KeyPress \<or> event_kind ev = KeyRepeat))"

definition is_pressed :: "key_binding list \<Rightarrow> key_event \<Rightarrow> bool" where
  "is_pressed bs ev = list_ex (\<lambda>b. is_press b ev) bs"

definition plain_key :: "key_code \<Rightarrow> key_binding" where
  "plain_key k = \<lparr>binding_key = k, binding_modifiers = mods_none\<rparr>"

definition alt_key :: "key_code \<Rightarrow> key_binding" where
  "alt_key k = \<lparr>binding_key = k, binding_modifiers = mods_none\<lparr>mod_alt := True\<rparr>\<rparr>"

definition shift_key :: "key_code \<Rightarrow> key_binding" where
  "shift_key k = \<lparr>binding_key = k, binding_modifiers = mods_none\<lparr>mod_shift := True\<rparr>\<rparr>"

definition ctrl_key :: "key_code \<Rightarrow> key_binding" where
  "ctrl_key k = \<lparr>binding_key = k, binding_modifiers = mods_none\<lparr>mod_control := True\<rparr>\<rparr>"

definition ctrl_alt_key :: "key_code \<Rightarrow> key_binding" where
  "ctrl_alt_key k = \<lparr>binding_key = k, binding_modifiers = mods_none\<lparr>mod_control := True, mod_alt := True\<rparr>\<rparr>"

definition binding_from_event :: "key_event \<Rightarrow> key_binding" where
  "binding_from_event ev =
     (let (key, modifiers) = normalize_key_parts (event_code ev) (event_modifiers ev)
      in \<lparr>binding_key = key, binding_modifiers = modifiers\<rparr>)"

definition binding_parts :: "key_binding \<Rightarrow> key_code \<times> key_modifiers" where
  "binding_parts b = (binding_key b, binding_modifiers b)"

text \<open>The build for Unix: no key is an AltGr key.\<close>

definition is_altgr :: "key_modifiers \<Rightarrow> bool" where
  "is_altgr mods = False"

section \<open>Key maps\<close>

record app_keymap =
  ak_open_transcript :: "key_binding list"
  ak_open_external_editor :: "key_binding list"
  ak_copy :: "key_binding list"
  ak_clear_terminal :: "key_binding list"
  ak_toggle_vim_mode :: "key_binding list"
  ak_toggle_fast_mode :: "key_binding list"
  ak_toggle_raw_output :: "key_binding list"

record chat_keymap =
  ck_interrupt_turn :: "key_binding list"
  ck_decrease_reasoning_effort :: "key_binding list"
  ck_increase_reasoning_effort :: "key_binding list"
  ck_edit_queued_message :: "key_binding list"

record composer_keymap =
  mk_submit :: "key_binding list"
  mk_queue :: "key_binding list"
  mk_toggle_shortcuts :: "key_binding list"
  mk_history_search_previous :: "key_binding list"
  mk_history_search_next :: "key_binding list"

record editor_keymap =
  ek_insert_newline :: "key_binding list"
  ek_move_left :: "key_binding list"
  ek_move_right :: "key_binding list"
  ek_move_up :: "key_binding list"
  ek_move_down :: "key_binding list"
  ek_move_word_left :: "key_binding list"
  ek_move_word_right :: "key_binding list"
  ek_move_line_start :: "key_binding list"
  ek_move_line_end :: "key_binding list"
  ek_delete_backward :: "key_binding list"
  ek_delete_forward :: "key_binding list"
  ek_delete_backward_word :: "key_binding list"
  ek_delete_forward_word :: "key_binding list"
  ek_kill_line_start :: "key_binding list"
  ek_kill_whole_line :: "key_binding list"
  ek_kill_line_end :: "key_binding list"
  ek_yank :: "key_binding list"

record vim_normal_keymap =
  vn_enter_insert :: "key_binding list"
  vn_append_after_cursor :: "key_binding list"
  vn_append_line_end :: "key_binding list"
  vn_insert_line_start :: "key_binding list"
  vn_open_line_below :: "key_binding list"
  vn_open_line_above :: "key_binding list"
  vn_move_left :: "key_binding list"
  vn_move_right :: "key_binding list"
  vn_move_up :: "key_binding list"
  vn_move_down :: "key_binding list"
  vn_move_word_forward :: "key_binding list"
  vn_move_word_backward :: "key_binding list"
  vn_move_word_end :: "key_binding list"
  vn_move_line_start :: "key_binding list"
  vn_move_line_end :: "key_binding list"
  vn_delete_char :: "key_binding list"
  vn_substitute_char :: "key_binding list"
  vn_delete_to_line_end :: "key_binding list"
  vn_change_to_line_end :: "key_binding list"
  vn_yank_line :: "key_binding list"
  vn_paste_after :: "key_binding list"
  vn_start_delete_operator :: "key_binding list"
  vn_start_yank_operator :: "key_binding list"
  vn_start_change_operator :: "key_binding list"
  vn_cancel_operator :: "key_binding list"

record vim_operator_keymap =
  vo_delete_line :: "key_binding list"
  vo_yank_line :: "key_binding list"
  vo_motion_left :: "key_binding list"
  vo_motion_right :: "key_binding list"
  vo_motion_up :: "key_binding list"
  vo_motion_down :: "key_binding list"
  vo_motion_word_forward :: "key_binding list"
  vo_motion_word_backward :: "key_binding list"
  vo_motion_word_end :: "key_binding list"
  vo_motion_line_start :: "key_binding list"
  vo_motion_line_end :: "key_binding list"
  vo_select_inner_text_object :: "key_binding list"
  vo_select_around_text_object :: "key_binding list"
  vo_cancel :: "key_binding list"

record vim_text_object_keymap =
  vt_word :: "key_binding list"
  vt_big_word :: "key_binding list"
  vt_parentheses :: "key_binding list"
  vt_brackets :: "key_binding list"
  vt_braces :: "key_binding list"
  vt_double_quote :: "key_binding list"
  vt_single_quote :: "key_binding list"
  vt_backtick :: "key_binding list"
  vt_cancel :: "key_binding list"

record pager_keymap =
  pk_scroll_up :: "key_binding list"
  pk_scroll_down :: "key_binding list"
  pk_page_up :: "key_binding list"
  pk_page_down :: "key_binding list"
  pk_half_page_up :: "key_binding list"
  pk_half_page_down :: "key_binding list"
  pk_jump_top :: "key_binding list"
  pk_jump_bottom :: "key_binding list"
  pk_close :: "key_binding list"
  pk_close_transcript :: "key_binding list"

record list_keymap =
  lk_move_up :: "key_binding list"
  lk_move_down :: "key_binding list"
  lk_move_left :: "key_binding list"
  lk_move_right :: "key_binding list"
  lk_page_up :: "key_binding list"
  lk_page_down :: "key_binding list"
  lk_jump_top :: "key_binding list"
  lk_jump_bottom :: "key_binding list"
  lk_accept :: "key_binding list"
  lk_cancel :: "key_binding list"

record approval_keymap =
  vk_open_fullscreen :: "key_binding list"
  vk_open_thread :: "key_binding list"
  vk_approve :: "key_binding list"
  vk_approve_for_session :: "key_binding list"
  vk_approve_for_prefix :: "key_binding list"
  vk_deny :: "key_binding list"
  vk_decline :: "key_binding list"
  vk_cancel :: "key_binding list"

record runtime_keymap =
  rk_app :: app_keymap
  rk_chat :: chat_keymap
  rk_composer :: composer_keymap
  rk_editor :: editor_keymap
  rk_vim_normal :: vim_normal_keymap
  rk_vim_operator :: vim_operator_keymap
  rk_vim_text_object :: vim_text_object_keymap
  rk_pager :: pager_keymap
  rk_list :: list_keymap
  rk_approval :: approval_keymap

section \<open>The defaults\<close>

definition default_app_keymap :: app_keymap where
  "default_app_keymap =
     \<lparr>ak_open_transcript = [ctrl_key (KeyChar ''t'')],
      ak_open_external_editor = [ctrl_key (KeyChar ''g'')],
      ak_copy = [ctrl_key (KeyChar ''o'')],
      ak_clear_terminal = [ctrl_key (KeyChar ''l'')],
      ak_toggle_vim_mode = [],
      ak_toggle_fast_mode = [],
      ak_toggle_raw_output = [alt_key (KeyChar ''r'')]\<rparr>"

definition default_chat_keymap :: chat_keymap where
  "default_chat_keymap =
     \<lparr>ck_interrupt_turn = [plain_key KeyEsc],
      ck_decrease_reasoning_effort = [alt_key (KeyChar '',''), shift_key KeyDown],
      ck_increase_reasoning_effort = [alt_key (KeyChar ''.''), shift_key KeyUp],
      ck_edit_queued_message = [alt_key KeyUp, shift_key KeyLeft]\<rparr>"

definition default_composer_keymap :: composer_keymap where
  "default_composer_keymap =
     \<lparr>mk_submit = [plain_key KeyEnter],
      mk_queue = [plain_key KeyTab],
      mk_toggle_shortcuts = [plain_key (KeyChar ''?''), shift_key (KeyChar ''?'')],
      mk_history_search_previous = [ctrl_key (KeyChar ''r'')],
      mk_history_search_next = [ctrl_key (KeyChar ''s'')]\<rparr>"

definition default_editor_keymap :: editor_keymap where
  "default_editor_keymap =
     \<lparr>ek_insert_newline = [ctrl_key (KeyChar ''j''), ctrl_key (KeyChar ''m''), plain_key KeyEnter, shift_key KeyEnter, alt_key KeyEnter],
      ek_move_left = [plain_key KeyLeft, ctrl_key (KeyChar ''b'')],
      ek_move_right = [plain_key KeyRight, ctrl_key (KeyChar ''f'')],
      ek_move_up = [plain_key KeyUp, ctrl_key (KeyChar ''p'')],
      ek_move_down = [plain_key KeyDown, ctrl_key (KeyChar ''n'')],
      ek_move_word_left = [alt_key (KeyChar ''b''), alt_key KeyLeft, ctrl_key KeyLeft],
      ek_move_word_right = [alt_key (KeyChar ''f''), alt_key KeyRight, ctrl_key KeyRight],
      ek_move_line_start = [plain_key KeyHome, ctrl_key (KeyChar ''a'')],
      ek_move_line_end = [plain_key KeyEnd, ctrl_key (KeyChar ''e'')],
      ek_delete_backward = [plain_key KeyBackspace, shift_key KeyBackspace, ctrl_key (KeyChar ''h'')],
      ek_delete_forward = [plain_key KeyDelete, shift_key KeyDelete, ctrl_key (KeyChar ''d'')],
      ek_delete_backward_word = [alt_key KeyBackspace, ctrl_key KeyBackspace,
        \<lparr>binding_key = KeyBackspace, binding_modifiers = mods_none\<lparr>mod_control := True, mod_shift := True\<rparr>\<rparr>,
        ctrl_key (KeyChar ''w''),
        \<lparr>binding_key = KeyChar ''h'', binding_modifiers = mods_none\<lparr>mod_control := True, mod_alt := True\<rparr>\<rparr>],
      ek_delete_forward_word = [alt_key KeyDelete, ctrl_key KeyDelete,
        \<lparr>binding_key = KeyDelete, binding_modifiers = mods_none\<lparr>mod_control := True, mod_shift := True\<rparr>\<rparr>,
        alt_key (KeyChar ''d'')],
      ek_kill_line_start = [ctrl_key (KeyChar ''u'')],
      ek_kill_whole_line = [],
      ek_kill_line_end = [ctrl_key (KeyChar ''k'')],
      ek_yank = [ctrl_key (KeyChar ''y'')]\<rparr>"

definition default_vim_normal_keymap :: vim_normal_keymap where
  "default_vim_normal_keymap =
     \<lparr>vn_enter_insert = [plain_key (KeyChar ''i''), plain_key KeyInsert],
      vn_append_after_cursor = [plain_key (KeyChar ''a'')],
      vn_append_line_end = [shift_key (KeyChar ''a''), plain_key (KeyChar ''A'')],
      vn_insert_line_start = [shift_key (KeyChar ''i''), plain_key (KeyChar ''I'')],
      vn_open_line_below = [plain_key (KeyChar ''o'')],
      vn_open_line_above = [shift_key (KeyChar ''o''), plain_key (KeyChar ''O'')],
      vn_move_left = [plain_key (KeyChar ''h''), plain_key KeyLeft],
      vn_move_right = [plain_key (KeyChar ''l''), plain_key KeyRight],
      vn_move_up = [plain_key (KeyChar ''k''), plain_key KeyUp],
      vn_move_down = [plain_key (KeyChar ''j''), plain_key KeyDown],
      vn_move_word_forward = [plain_key (KeyChar ''w'')],
      vn_move_word_backward = [plain_key (KeyChar ''b'')],
      vn_move_word_end = [plain_key (KeyChar ''e'')],
      vn_move_line_start = [plain_key (KeyChar ''0'')],
      vn_move_line_end = [plain_key (KeyChar ''$''), shift_key (KeyChar ''$'')],
      vn_delete_char = [plain_key (KeyChar ''x'')],
      vn_substitute_char = [plain_key (KeyChar ''s'')],
      vn_delete_to_line_end = [shift_key (KeyChar ''d''), plain_key (KeyChar ''D'')],
      vn_change_to_line_end = [shift_key (KeyChar ''c''), plain_key (KeyChar ''C'')],
      vn_yank_line = [shift_key (KeyChar ''y''), plain_key (KeyChar ''Y'')],
      vn_paste_after = [plain_key (KeyChar ''p'')],
      vn_start_delete_operator = [plain_key (KeyChar ''d'')],
      vn_start_yank_operator = [plain_key (KeyChar ''y'')],
      vn_start_change_operator = [plain_key (KeyChar ''c'')],
      vn_cancel_operator = [plain_key KeyEsc]\<rparr>"

definition default_vim_operator_keymap :: vim_operator_keymap where
  "default_vim_operator_keymap =
     \<lparr>vo_delete_line = [plain_key (KeyChar ''d'')],
      vo_yank_line = [plain_key (KeyChar ''y'')],
      vo_motion_left = [plain_key (KeyChar ''h'')],
      vo_motion_right = [plain_key (KeyChar ''l'')],
      vo_motion_up = [plain_key (KeyChar ''k'')],
      vo_motion_down = [plain_key (KeyChar ''j'')],
      vo_motion_word_forward = [plain_key (KeyChar ''w'')],
      vo_motion_word_backward = [plain_key (KeyChar ''b'')],
      vo_motion_word_end = [plain_key (KeyChar ''e'')],
      vo_motion_line_start = [plain_key (KeyChar ''0'')],
      vo_motion_line_end = [plain_key (KeyChar ''$''), shift_key (KeyChar ''$'')],
      vo_select_inner_text_object = [plain_key (KeyChar ''i'')],
      vo_select_around_text_object = [plain_key (KeyChar ''a'')],
      vo_cancel = [plain_key KeyEsc]\<rparr>"

definition default_vim_text_object_keymap :: vim_text_object_keymap where
  "default_vim_text_object_keymap =
     \<lparr>vt_word = [plain_key (KeyChar ''w'')],
      vt_big_word = [shift_key (KeyChar ''w''), plain_key (KeyChar ''W'')],
      vt_parentheses = [plain_key (KeyChar ''(''), shift_key (KeyChar ''(''), plain_key (KeyChar '')''), shift_key (KeyChar '')''),
        plain_key (KeyChar ''b'')],
      vt_brackets = [plain_key (KeyChar ''[''), plain_key (KeyChar '']'')],
      vt_braces = [plain_key (KeyChar ''{''), shift_key (KeyChar ''{''), plain_key (KeyChar ''}''), shift_key (KeyChar ''}''),
        shift_key (KeyChar ''b''), plain_key (KeyChar ''B'')],
      vt_double_quote = [plain_key (KeyChar [CHR 0x22]), shift_key (KeyChar [CHR 0x22])],
      vt_single_quote = [plain_key (KeyChar [CHR 0x27])],
      vt_backtick = [plain_key (KeyChar [CHR 0x60])],
      vt_cancel = [plain_key KeyEsc]\<rparr>"

definition default_pager_keymap :: pager_keymap where
  "default_pager_keymap =
     \<lparr>pk_scroll_up = [plain_key KeyUp, plain_key (KeyChar ''k'')],
      pk_scroll_down = [plain_key KeyDown, plain_key (KeyChar ''j'')],
      pk_page_up = [plain_key KeyPageUp, shift_key (KeyChar '' ''), ctrl_key (KeyChar ''b'')],
      pk_page_down = [plain_key KeyPageDown, plain_key (KeyChar '' ''), ctrl_key (KeyChar ''f'')],
      pk_half_page_up = [ctrl_key (KeyChar ''u'')],
      pk_half_page_down = [ctrl_key (KeyChar ''d'')],
      pk_jump_top = [plain_key KeyHome],
      pk_jump_bottom = [plain_key KeyEnd],
      pk_close = [plain_key (KeyChar ''q''), ctrl_key (KeyChar ''c'')],
      pk_close_transcript = [ctrl_key (KeyChar ''t'')]\<rparr>"

definition default_list_keymap :: list_keymap where
  "default_list_keymap =
     \<lparr>lk_move_up = [plain_key KeyUp, ctrl_key (KeyChar ''p''), ctrl_key (KeyChar ''k''), plain_key (KeyChar ''k'')],
      lk_move_down = [plain_key KeyDown, ctrl_key (KeyChar ''n''), ctrl_key (KeyChar ''j''), plain_key (KeyChar ''j'')],
      lk_move_left = [plain_key KeyLeft, ctrl_key (KeyChar ''h'')],
      lk_move_right = [plain_key KeyRight, ctrl_key (KeyChar ''l'')],
      lk_page_up = [plain_key KeyPageUp, ctrl_key (KeyChar ''b'')],
      lk_page_down = [plain_key KeyPageDown, ctrl_key (KeyChar ''f'')],
      lk_jump_top = [plain_key KeyHome],
      lk_jump_bottom = [plain_key KeyEnd],
      lk_accept = [plain_key KeyEnter],
      lk_cancel = [plain_key KeyEsc]\<rparr>"

definition default_approval_keymap :: approval_keymap where
  "default_approval_keymap =
     \<lparr>vk_open_fullscreen = [ctrl_key (KeyChar ''a''), \<lparr>binding_key = KeyChar ''a'', binding_modifiers = mods_none\<lparr>mod_control := True, mod_shift := True\<rparr>\<rparr>],
      vk_open_thread = [plain_key (KeyChar ''o'')],
      vk_approve = [plain_key (KeyChar ''y'')],
      vk_approve_for_session = [plain_key (KeyChar ''a'')],
      vk_approve_for_prefix = [plain_key (KeyChar ''p'')],
      vk_deny = [plain_key (KeyChar ''d'')],
      vk_decline = [plain_key KeyEsc, plain_key (KeyChar ''n'')],
      vk_cancel = [plain_key (KeyChar ''c'')]\<rparr>"

definition keymap_defaults :: runtime_keymap where
  "keymap_defaults =
     \<lparr>rk_app = default_app_keymap,
      rk_chat = default_chat_keymap,
      rk_composer = default_composer_keymap,
      rk_editor = default_editor_keymap,
      rk_vim_normal = default_vim_normal_keymap,
      rk_vim_operator = default_vim_operator_keymap,
      rk_vim_text_object = default_vim_text_object_keymap,
      rk_pager = default_pager_keymap,
      rk_list = default_list_keymap,
      rk_approval = default_approval_keymap\<rparr>"

end
