(* ===== verification/Text_Area.thy ===== *)
theory Text_Area
  imports Text_Wrap Key_Bindings Rust_Num
begin

text \<open>
  The editable buffer behind the composer of the terminal interface (\<open>TextArea\<close> of
  \<open>tui/src/bottom_pane/textarea.rs\<close>): its state, elements that move and are deleted as a whole, editing,
  the kill buffer, and the movements of the cursor. \<open>None\<close> is a panic. Rendering is left out; the lines
  it caches are part of the state, since moving up and down uses them.
\<close>

section \<open>State\<close>

record text_elem =
  te_id :: nat
  te_start :: nat
  te_end :: nat

record text_elem_snapshot =
  tes_id :: nat
  tes_start :: nat
  tes_end :: nat
  tes_text :: rstr

record wrap_cache =
  wc_width :: nat
  wc_lines :: "(nat \<times> nat) list"

datatype kill_buffer_kind = Characterwise | Linewise

datatype vim_mode = VimNormal | VimInsert

datatype vim_operator = VimDelete | VimYank | VimChange

datatype vim_text_object_scope = InnerObject | AroundObject

datatype vim_pending = NoPending | PendingOperator vim_operator | PendingTextObject vim_operator vim_text_object_scope

datatype vim_motion =
    MotionLeft | MotionRight | MotionUp | MotionDown | MotionWordForward | MotionWordBackward | MotionWordEnd
  | MotionLineStart | MotionLineEnd

datatype vim_text_object =
    ObjectWord | ObjectBigWord | ObjectParentheses | ObjectBrackets | ObjectBraces | ObjectDoubleQuote
  | ObjectSingleQuote | ObjectBacktick

record text_area =
  ta_text :: rstr
  ta_cursor_pos :: nat
  ta_wrap_cache :: "wrap_cache option"
  ta_preferred_col :: "nat option"
  ta_elements :: "text_elem list"
  ta_next_element_id :: nat
  ta_kill_buffer :: rstr
  ta_kill_buffer_kind :: kill_buffer_kind
  ta_vim_enabled :: bool
  ta_vim_mode :: vim_mode
  ta_vim_pending :: vim_pending
  ta_editor_keymap :: editor_keymap
  ta_vim_normal_keymap :: vim_normal_keymap
  ta_vim_operator_keymap :: vim_operator_keymap
  ta_vim_text_object_keymap :: vim_text_object_keymap

definition text_area_new :: text_area where
  "text_area_new =
     \<lparr>ta_text = [], ta_cursor_pos = 0, ta_wrap_cache = None, ta_preferred_col = None, ta_elements = [],
      ta_next_element_id = 1, ta_kill_buffer = [], ta_kill_buffer_kind = Characterwise, ta_vim_enabled = False,
      ta_vim_mode = VimInsert, ta_vim_pending = NoPending, ta_editor_keymap = rk_editor keymap_defaults,
      ta_vim_normal_keymap = rk_vim_normal keymap_defaults, ta_vim_operator_keymap = rk_vim_operator keymap_defaults,
      ta_vim_text_object_keymap = rk_vim_text_object keymap_defaults\<rparr>"

definition set_keymap_bindings :: "runtime_keymap \<Rightarrow> text_area \<Rightarrow> text_area" where
  "set_keymap_bindings keymap a =
     a\<lparr>ta_editor_keymap := rk_editor keymap, ta_vim_normal_keymap := rk_vim_normal keymap,
       ta_vim_operator_keymap := rk_vim_operator keymap, ta_vim_text_object_keymap := rk_vim_text_object keymap\<rparr>"

section \<open>Vim modes\<close>

definition set_vim_enabled :: "bool \<Rightarrow> text_area \<Rightarrow> text_area" where
  "set_vim_enabled enabled a =
     a\<lparr>ta_vim_enabled := enabled, ta_vim_pending := NoPending,
       ta_vim_mode := if enabled then VimNormal else VimInsert\<rparr>"

definition is_vim_normal_mode :: "text_area \<Rightarrow> bool" where
  "is_vim_normal_mode a = (ta_vim_enabled a \<and> ta_vim_mode a = VimNormal)"

definition is_vim_operator_pending :: "text_area \<Rightarrow> bool" where
  "is_vim_operator_pending a = (ta_vim_pending a \<noteq> NoPending)"

definition enter_vim_insert_mode :: "text_area \<Rightarrow> text_area" where
  "enter_vim_insert_mode a = (if ta_vim_enabled a then a\<lparr>ta_vim_mode := VimInsert, ta_vim_pending := NoPending\<rparr> else a)"

definition enter_vim_normal_mode :: "text_area \<Rightarrow> text_area" where
  "enter_vim_normal_mode a =
     (if ta_vim_enabled a
      then a\<lparr>ta_vim_mode := VimNormal, ta_vim_pending := NoPending, ta_preferred_col := None\<rparr> else a)"

definition allows_paste_burst :: "text_area \<Rightarrow> bool" where
  "allows_paste_burst a = (\<not> ta_vim_enabled a \<or> ta_vim_mode a = VimInsert)"

definition uses_vim_insert_cursor :: "text_area \<Rightarrow> bool" where
  "uses_vim_insert_cursor a = (ta_vim_enabled a \<and> ta_vim_mode a = VimInsert)"

definition should_handle_vim_insert_escape :: "key_event \<Rightarrow> text_area \<Rightarrow> bool" where
  "should_handle_vim_insert_escape ev a =
     (ta_vim_enabled a \<and> ta_vim_mode a = VimInsert \<and> event_code ev = KeyEsc \<and> event_modifiers ev = mods_none \<and>
      event_kind ev \<in> {KeyPress, KeyRepeat})"

definition vim_mode_label :: "text_area \<Rightarrow> rstr option" where
  "vim_mode_label a =
     (if \<not> ta_vim_enabled a then None
      else Some (case ta_vim_mode a of VimNormal \<Rightarrow> ''Normal'' | VimInsert \<Rightarrow> ''Insert''))"

section \<open>Positions and elements\<close>

fun boundary_below :: "rstr \<Rightarrow> nat \<Rightarrow> nat" where
  "boundary_below s 0 = 0"
| "boundary_below s (Suc n) = (if is_char_boundary s (Suc n) then Suc n else boundary_below s n)"

function boundary_above :: "rstr \<Rightarrow> nat \<Rightarrow> nat" where
  "boundary_above s n = (if n < length s \<and> \<not> is_char_boundary s n then boundary_above s (Suc n) else n)"
  by auto
termination by (relation "measure (\<lambda>(s, n). length s - n)") auto

declare boundary_above.simps [simp del]

definition clamp_pos_to_char_boundary :: "text_area \<Rightarrow> nat \<Rightarrow> nat" where
  "clamp_pos_to_char_boundary a p =
     (let pos = min p (length (ta_text a))
      in if is_char_boundary (ta_text a) pos then pos
         else let prev = boundary_below (ta_text a) pos; nxt = boundary_above (ta_text a) pos
              in if pos - prev \<le> nxt - pos then prev else nxt)"

definition find_element_containing :: "text_area \<Rightarrow> nat \<Rightarrow> text_elem option" where
  "find_element_containing a pos = List.find (\<lambda>e. te_start e < pos \<and> pos < te_end e) (ta_elements a)"

definition clamp_pos_to_nearest_boundary :: "text_area \<Rightarrow> nat \<Rightarrow> nat" where
  "clamp_pos_to_nearest_boundary a p =
     (let pos = clamp_pos_to_char_boundary a p
      in case find_element_containing a pos of None \<Rightarrow> pos
         | Some e \<Rightarrow> if pos - te_start e \<le> te_end e - pos then clamp_pos_to_char_boundary a (te_start e)
             else clamp_pos_to_char_boundary a (te_end e))"

text \<open>The code has the same body twice, once for the cursor and once for insertions.\<close>

definition clamp_pos_for_insertion :: "text_area \<Rightarrow> nat \<Rightarrow> nat" where
  "clamp_pos_for_insertion a p =
     (let pos = clamp_pos_to_char_boundary a p
      in case find_element_containing a pos of None \<Rightarrow> pos
         | Some e \<Rightarrow> if pos - te_start e \<le> te_end e - pos then clamp_pos_to_char_boundary a (te_start e)
             else clamp_pos_to_char_boundary a (te_end e))"

text \<open>One pass over the elements; the flag says whether the range has changed.\<close>

definition expand_step :: "text_elem \<Rightarrow> (nat \<times> nat) \<times> bool \<Rightarrow> (nat \<times> nat) \<times> bool" where
  "expand_step e = (\<lambda>((s, t), changed).
     if te_start e < t \<and> s < te_end e \<and> (min s (te_start e), max t (te_end e)) \<noteq> (s, t)
     then ((min s (te_start e), max t (te_end e)), True) else ((s, t), changed))"

definition expand_pass :: "text_elem list \<Rightarrow> nat \<times> nat \<Rightarrow> (nat \<times> nat) \<times> bool" where
  "expand_pass es r = fold expand_step es (r, False)"

text \<open>How far a range can still grow to the right.\<close>

definition room :: "text_elem list \<Rightarrow> nat \<Rightarrow> nat" where
  "room es t = Max (insert t (te_end ` set es)) - t"

lemma expand_step_measure:
  assumes "expand_step e (r, c) = (r', c')" and "e \<in> set es"
  shows "fst r' \<le> fst r" and "snd r \<le> snd r'" and "fst r' + room es (snd r') \<le> fst r + room es (snd r)"
    and "c' \<Longrightarrow> c \<or> fst r' + room es (snd r') < fst r + room es (snd r)"
proof -
  obtain s t where r: "r = (s, t)" by fastforce
  let ?M = "Max (insert t (te_end ` set es))"
  have e: "te_end e \<le> ?M" "t \<le> ?M" using assms(2) by auto
  have M: "Max (insert u (te_end ` set es)) = ?M" if "t \<le> u" "u \<le> ?M" for u
    using that by (intro antisym Max.boundedI) (auto intro: Max_ge order_trans [OF _ Max_ge])
  have room: "room es (max t (te_end e)) = ?M - max t (te_end e)" "room es t = ?M - t"
    using M [of "max t (te_end e)"] e by (simp_all add: room_def)
  define M where "M = ?M"
  note room = room [folded M_def] and e = e [folded M_def]
  have step: "r' = (min s (te_start e), max t (te_end e)) \<and> c' \<and> (te_start e < s \<or> t < te_end e) \<or> r' = r \<and> c' = c"
    using assms(1) r by (auto simp: expand_step_def min_def max_def split: if_splits)
  then show "fst r' \<le> fst r" "snd r \<le> snd r'" using r by auto
  from step show "fst r' + room es (snd r') \<le> fst r + room es (snd r)"
    using r room e by auto
  from step show "c' \<Longrightarrow> c \<or> fst r' + room es (snd r') < fst r + room es (snd r)"
    using r room e by (auto simp: min_def split: if_splits)
qed

lemma expand_fold_measure:
  "fold expand_step xs (r, c) = (r', c') \<Longrightarrow> set xs \<subseteq> set es \<Longrightarrow>
    fst r' + room es (snd r') \<le> fst r + room es (snd r) \<and>
    (c' \<longrightarrow> c \<or> fst r' + room es (snd r') < fst r + room es (snd r))"
proof (induction xs arbitrary: r c)
  case (Cons x xs)
  obtain r1 c1 where s: "expand_step x (r, c) = (r1, c1)" by fastforce
  have x: "x \<in> set es" "set xs \<subseteq> set es" using Cons.prems(2) by auto
  note m = expand_step_measure [OF s x(1)]
  have "fst r' + room es (snd r') \<le> fst r1 + room es (snd r1) \<and>
    (c' \<longrightarrow> c1 \<or> fst r' + room es (snd r') < fst r1 + room es (snd r1))"
    using Cons.IH [of r1 c1] Cons.prems(1) s x(2) by simp
  then show ?case using m by linarith
qed simp

lemma expand_pass_measure:
  "(r', True) = expand_pass es r \<Longrightarrow> fst r' + room es (snd r') < fst r + room es (snd r)"
  using expand_fold_measure [of es r False r' True es] by (simp add: expand_pass_def)

function expand_loop :: "text_elem list \<Rightarrow> nat \<times> nat \<Rightarrow> nat \<times> nat" where
  "expand_loop es r = (case expand_pass es r of (r', changed) \<Rightarrow> if changed then expand_loop es r' else r')"
  by auto
termination
  by (relation "measure (\<lambda>(es, r). fst r + room es (snd r))") (auto dest: expand_pass_measure)

declare expand_loop.simps [simp del]

definition expand_range_to_element_boundaries :: "text_area \<Rightarrow> nat \<times> nat \<Rightarrow> nat \<times> nat" where
  "expand_range_to_element_boundaries a rng = expand_loop (ta_elements a) rng"

definition shift_element :: "nat \<Rightarrow> nat \<Rightarrow> nat \<Rightarrow> text_elem \<Rightarrow> text_elem" where
  "shift_element at removed inserted e =
     (let until = at + removed; diff = int inserted - int removed
      in if te_end e \<le> at then e
         else if te_start e \<ge> until
         then e\<lparr>te_start := nat (int (te_start e) + diff), te_end := nat (int (te_end e) + diff)\<rparr>
         else e\<lparr>te_start := min at (te_start e), te_end := at + max inserted (te_end e - until)\<rparr>)"

definition shift_elements :: "nat \<Rightarrow> nat \<Rightarrow> nat \<Rightarrow> text_elem list \<Rightarrow> text_elem list" where
  "shift_elements at removed inserted es =
     map (shift_element at removed inserted) (filter (\<lambda>e. \<not> (te_start e \<ge> at \<and> te_end e \<le> at + removed)) es)"

definition next_element_id :: "text_area \<Rightarrow> nat \<times> text_area" where
  "next_element_id a = (ta_next_element_id a, a\<lparr>ta_next_element_id := saturating_add (ta_next_element_id a) 1\<rparr>)"

section \<open>Replacing the text\<close>

text \<open>Stage 2 of \<open>set_text_inner\<close> for one element; those that come out empty are dropped.\<close>

definition push_user_element :: "text_element \<Rightarrow> text_area \<Rightarrow> text_area" where
  "push_user_element elem a =
     (let len = length (ta_text a);
          start = clamp_pos_to_char_boundary a (min (range_start (element_range elem)) len);
          stop = clamp_pos_to_char_boundary a (min (range_end (element_range elem)) len)
      in if start \<ge> stop then a
         else case next_element_id a of (i, a1) \<Rightarrow>
           a1\<lparr>ta_elements := ta_elements a1 @ [\<lparr>te_id = i, te_start = start, te_end = stop\<rparr>]\<rparr>)"

definition set_text_inner :: "rstr \<Rightarrow> text_element list option \<Rightarrow> text_area \<Rightarrow> text_area" where
  "set_text_inner txt elements a =
     (let a1 = a\<lparr>ta_text := txt, ta_cursor_pos := min (ta_cursor_pos a) (length txt), ta_elements := []\<rparr>;
          a2 = (case elements of None \<Rightarrow> a1
            | Some es \<Rightarrow> let b = fold push_user_element es a1
                in b\<lparr>ta_elements := sort_key te_start (ta_elements b)\<rparr>)
      in a2\<lparr>ta_cursor_pos := clamp_pos_to_nearest_boundary a2 (ta_cursor_pos a2), ta_wrap_cache := None,
            ta_preferred_col := None\<rparr>)"

definition set_text_clearing_elements :: "rstr \<Rightarrow> text_area \<Rightarrow> text_area" where
  "set_text_clearing_elements txt a = set_text_inner txt None a"

definition set_text_with_elements :: "rstr \<Rightarrow> text_element list \<Rightarrow> text_area \<Rightarrow> text_area" where
  "set_text_with_elements txt es a = set_text_inner txt (Some es) a"

section \<open>Editing\<close>

definition insert_str_at :: "nat \<Rightarrow> rstr \<Rightarrow> text_area \<Rightarrow> text_area option" where
  "insert_str_at p txt a =
     (let pos = clamp_pos_for_insertion a p
      in do {
        txt' \<leftarrow> str_insert (ta_text a) pos txt;
        Some (a\<lparr>ta_text := txt', ta_wrap_cache := None,
          ta_cursor_pos := if pos \<le> ta_cursor_pos a then ta_cursor_pos a + length txt else ta_cursor_pos a,
          ta_elements := shift_elements pos 0 (length txt) (ta_elements a), ta_preferred_col := None\<rparr>)
      })"

definition insert_str :: "rstr \<Rightarrow> text_area \<Rightarrow> text_area option" where
  "insert_str txt a = insert_str_at (ta_cursor_pos a) txt a"

text \<open>Where the cursor goes when \<open>start..stop\<close> is replaced by \<open>inserted\<close> bytes.\<close>

definition cursor_after :: "nat \<Rightarrow> nat \<Rightarrow> nat \<Rightarrow> nat \<Rightarrow> nat" where
  "cursor_after start stop inserted c =
     (if c < start then c else if c \<le> stop then start + inserted
      else nat (int c + (int inserted - int (stop - start))))"

definition replace_range_raw :: "nat \<times> nat \<Rightarrow> rstr \<Rightarrow> text_area \<Rightarrow> text_area option" where
  "replace_range_raw rng txt a =
     (if \<not> fst rng \<le> snd rng then None
      else let start = min (fst rng) (length (ta_text a)); stop = min (snd rng) (length (ta_text a))
        in if stop - start = 0 \<and> length txt = 0 then Some a
           else do {
             txt' \<leftarrow> str_replace (ta_text a) (fst rng) (snd rng) txt;
             let a1 = a\<lparr>ta_text := txt', ta_wrap_cache := None, ta_preferred_col := None,
               ta_elements := shift_elements start (stop - start) (length txt) (ta_elements a)\<rparr>;
             let c = min (cursor_after start stop (length txt) (ta_cursor_pos a)) (length txt');
             Some (a1\<lparr>ta_cursor_pos := clamp_pos_to_nearest_boundary a1 c\<rparr>)
           })"

definition replace_range :: "nat \<times> nat \<Rightarrow> rstr \<Rightarrow> text_area \<Rightarrow> text_area option" where
  "replace_range rng txt a = replace_range_raw (expand_range_to_element_boundaries a rng) txt a"

definition set_cursor :: "nat \<Rightarrow> text_area \<Rightarrow> text_area" where
  "set_cursor pos a =
     a\<lparr>ta_cursor_pos := clamp_pos_to_nearest_boundary a (min pos (length (ta_text a))), ta_preferred_col := None\<rparr>"

section \<open>Lines\<close>

definition is_newline :: "rstr \<Rightarrow> bool" where
  "is_newline c = (c = [NL])"

definition beginning_of_line :: "text_area \<Rightarrow> nat \<Rightarrow> nat option" where
  "beginning_of_line a pos = do {
     before \<leftarrow> str_get (ta_text a) 0 pos;
     Some (case rfind_char is_newline before of None \<Rightarrow> 0 | Some (i, _) \<Rightarrow> i + 1)
   }"

definition beginning_of_current_line :: "text_area \<Rightarrow> nat option" where
  "beginning_of_current_line a = beginning_of_line a (ta_cursor_pos a)"

definition end_of_line :: "text_area \<Rightarrow> nat \<Rightarrow> nat option" where
  "end_of_line a pos = do {
     after \<leftarrow> str_get (ta_text a) pos (length (ta_text a));
     Some (case find_char is_newline after of None \<Rightarrow> length (ta_text a) | Some i \<Rightarrow> i + pos)
   }"

definition end_of_current_line :: "text_area \<Rightarrow> nat option" where
  "end_of_current_line a = end_of_line a (ta_cursor_pos a)"

definition first_non_blank_of_current_line :: "text_area \<Rightarrow> nat option" where
  "first_non_blank_of_current_line a = do {
     bol \<leftarrow> beginning_of_current_line a;
     eol \<leftarrow> end_of_current_line a;
     line \<leftarrow> str_get (ta_text a) bol eol;
     Some (case find_char (\<lambda>c. \<not> is_white c) line of None \<Rightarrow> eol | Some i \<Rightarrow> bol + i)
   }"

definition current_line_range_with_newline :: "text_area \<Rightarrow> (nat \<times> nat) option" where
  "current_line_range_with_newline a = do {
     bol \<leftarrow> beginning_of_current_line a;
     eol \<leftarrow> end_of_current_line a;
     Some (bol, if eol < length (ta_text a) then eol + 1 else eol)
   }"

definition current_display_col :: "text_api \<Rightarrow> text_area \<Rightarrow> nat option" where
  "current_display_col api a = do {
     bol \<leftarrow> beginning_of_current_line a;
     part \<leftarrow> str_get (ta_text a) bol (ta_cursor_pos a);
     Some (api_width api part)
   }"

end
