(* ===== verification/Text_Edit.thy ===== *)
theory Text_Edit
  imports Text_Area
begin

text \<open>
  The operations of the text area on top of raw edits: steps over graphemes and elements, words,
  moving the cursor over lines, wrapped ones when they are cached, deleting and killing, pasting,
  and the operations on elements.
\<close>

section \<open>Atomic steps\<close>

definition prev_atomic_boundary :: "text_api \<Rightarrow> text_area \<Rightarrow> nat \<Rightarrow> nat" where
  "prev_atomic_boundary api a pos =
     (if pos = 0 then 0
      else case List.find (\<lambda>e. te_start e < pos \<and> pos \<le> te_end e) (ta_elements a) of
        Some e \<Rightarrow> te_start e
      | None \<Rightarrow>
          (case api_prev_boundary api (ta_text a) pos of
             Ok (Some b) \<Rightarrow> (case find_element_containing a b of Some e \<Rightarrow> te_start e | None \<Rightarrow> b)
           | Ok None \<Rightarrow> 0
           | Err _ \<Rightarrow> pos - 1))"

definition next_atomic_boundary :: "text_api \<Rightarrow> text_area \<Rightarrow> nat \<Rightarrow> nat" where
  "next_atomic_boundary api a pos =
     (if pos \<ge> length (ta_text a) then length (ta_text a)
      else case List.find (\<lambda>e. te_start e \<le> pos \<and> pos < te_end e) (ta_elements a) of
        Some e \<Rightarrow> te_end e
      | None \<Rightarrow>
          (case api_next_boundary api (ta_text a) pos of
             Ok (Some b) \<Rightarrow> (case find_element_containing a b of Some e \<Rightarrow> te_end e | None \<Rightarrow> b)
           | Ok None \<Rightarrow> length (ta_text a)
           | Err _ \<Rightarrow> saturating_add pos 1))"

definition vim_normal_end_cursor :: "text_api \<Rightarrow> text_area \<Rightarrow> nat" where
  "vim_normal_end_cursor api a = (if ta_text a = [] then 0 else prev_atomic_boundary api a (length (ta_text a)))"

definition adjust_pos_out_of_elements :: "text_area \<Rightarrow> nat \<Rightarrow> bool \<Rightarrow> nat" where
  "adjust_pos_out_of_elements a pos prefer_start =
     (case find_element_containing a pos of None \<Rightarrow> pos
      | Some e \<Rightarrow> if prefer_start then te_start e else te_end e)"

section \<open>Words\<close>

definition all_separators :: "rstr \<Rightarrow> bool" where
  "all_separators piece = list_all is_word_separator (chars piece)"

text \<open>The neighbouring pieces that are punctuation too are taken along.\<close>

fun absorb_left :: "nat \<Rightarrow> nat \<Rightarrow> (nat \<times> rstr) list \<Rightarrow> nat" where
  "absorb_left run_start start [] = start"
| "absorb_left run_start start ((idx, piece) # ps) =
     (if all_separators piece then absorb_left run_start (run_start + idx) ps else start)"

fun absorb_right :: "nat \<Rightarrow> nat \<Rightarrow> (nat \<times> rstr) list \<Rightarrow> nat" where
  "absorb_right run_start stop [] = stop"
| "absorb_right run_start stop ((idx, piece) # ps) =
     (if all_separators piece then absorb_right run_start (run_start + idx + length piece) ps else stop)"

definition beginning_of_previous_word :: "text_api \<Rightarrow> text_area \<Rightarrow> nat option" where
  "beginning_of_previous_word api a = do {
     before \<leftarrow> str_get (ta_text a) 0 (ta_cursor_pos a);
     case rfind_char (\<lambda>c. \<not> is_white c) before of
       None \<Rightarrow> Some 0
     | Some (first_non_ws_idx, ch) \<Rightarrow> do {
         lead \<leftarrow> str_get before 0 first_non_ws_idx;
         let run_start = (case rfind_char is_white lead of None \<Rightarrow> 0 | Some (idx, ws) \<Rightarrow> idx + length ws);
         run \<leftarrow> str_get before run_start (first_non_ws_idx + length ch);
         case rev (split_word_pieces api run) of
           [] \<Rightarrow> Some run_start
         | (piece_start, piece) # pieces \<Rightarrow>
             let start = run_start + piece_start
             in Some (adjust_pos_out_of_elements a
                  (if all_separators piece then absorb_left run_start start pieces else start) True)
       }
   }"

definition end_of_next_word_from :: "text_api \<Rightarrow> text_area \<Rightarrow> nat \<Rightarrow> nat option" where
  "end_of_next_word_from api a cursor_pos = do {
     after \<leftarrow> str_get (ta_text a) cursor_pos (length (ta_text a));
     case find_char (\<lambda>c. \<not> is_white c) after of
       None \<Rightarrow> Some (length (ta_text a))
     | Some first_non_ws \<Rightarrow> do {
         rest \<leftarrow> str_get after first_non_ws (length after);
         run \<leftarrow> str_get rest 0 (case find_char is_white rest of None \<Rightarrow> length rest | Some i \<Rightarrow> i);
         case split_word_pieces api run of
           [] \<Rightarrow> Some (cursor_pos + first_non_ws)
         | (start, piece) # pieces \<Rightarrow>
             let run_start = cursor_pos + first_non_ws;
                 stop = run_start + start + length piece
             in Some (adjust_pos_out_of_elements a
                  (if all_separators piece then absorb_right run_start stop pieces else stop) False)
       }
   }"

definition end_of_next_word :: "text_api \<Rightarrow> text_area \<Rightarrow> nat option" where
  "end_of_next_word api a = end_of_next_word_from api a (ta_cursor_pos a)"

definition vim_word_end_exclusive :: "text_api \<Rightarrow> text_area \<Rightarrow> nat option" where
  "vim_word_end_exclusive api a = do {
     stop \<leftarrow> end_of_next_word api a;
     let target = (if stop > ta_cursor_pos a then prev_atomic_boundary api a stop else stop);
     if target = ta_cursor_pos a \<and> stop < length (ta_text a) then end_of_next_word_from api a stop else Some stop
   }"

definition vim_word_end_cursor :: "text_api \<Rightarrow> text_area \<Rightarrow> nat option" where
  "vim_word_end_cursor api a = do {
     stop \<leftarrow> vim_word_end_exclusive api a;
     Some (if stop > ta_cursor_pos a then prev_atomic_boundary api a stop else stop)
   }"

definition vim_line_end_cursor :: "text_api \<Rightarrow> text_area \<Rightarrow> nat option" where
  "vim_line_end_cursor api a = do {
     bol \<leftarrow> beginning_of_current_line a;
     eol \<leftarrow> end_of_current_line a;
     Some (if eol > bol then max (prev_atomic_boundary api a eol) bol else eol)
   }"

definition beginning_of_next_word :: "text_api \<Rightarrow> text_area \<Rightarrow> nat option" where
  "beginning_of_next_word api a = do {
     after \<leftarrow> str_get (ta_text a) (ta_cursor_pos a) (length (ta_text a));
     case find_char (\<lambda>c. \<not> is_white c) after of
       None \<Rightarrow> Some (length (ta_text a))
     | Some first_non_ws \<Rightarrow>
         let word_start = ta_cursor_pos a + first_non_ws
         in if word_start \<noteq> ta_cursor_pos a then Some (adjust_pos_out_of_elements a word_start True)
            else do {
              stop \<leftarrow> end_of_next_word api a;
              if stop \<ge> length (ta_text a) then Some (length (ta_text a))
              else do {
                rest \<leftarrow> str_get (ta_text a) stop (length (ta_text a));
                Some (case find_char (\<lambda>c. \<not> is_white c) rest of
                        None \<Rightarrow> length (ta_text a)
                      | Some next_non_ws \<Rightarrow> adjust_pos_out_of_elements a (stop + next_non_ws) True)
              }
            }
   }"

section \<open>Moving the cursor\<close>

definition move_cursor_left :: "text_api \<Rightarrow> text_area \<Rightarrow> text_area" where
  "move_cursor_left api a =
     a\<lparr>ta_cursor_pos := prev_atomic_boundary api a (ta_cursor_pos a), ta_preferred_col := None\<rparr>"

definition move_cursor_right :: "text_api \<Rightarrow> text_area \<Rightarrow> text_area" where
  "move_cursor_right api a =
     a\<lparr>ta_cursor_pos := next_atomic_boundary api a (ta_cursor_pos a), ta_preferred_col := None\<rparr>"

text \<open>The first grapheme that reaches beyond the column.\<close>

fun col_loop :: "text_api \<Rightarrow> nat \<Rightarrow> nat \<Rightarrow> (nat \<times> rstr) list \<Rightarrow> nat option" where
  "col_loop api target_col width_so_far [] = None"
| "col_loop api target_col width_so_far ((i, g) # gs) =
     (if width_so_far + api_width api g > target_col then Some i
      else col_loop api target_col (width_so_far + api_width api g) gs)"

definition move_to_display_col_on_line :: "text_api \<Rightarrow> nat \<Rightarrow> nat \<Rightarrow> nat \<Rightarrow> text_area \<Rightarrow> text_area option" where
  "move_to_display_col_on_line api line_start line_end target_col a = do {
     line \<leftarrow> str_get (ta_text a) line_start line_end;
     let c = (case col_loop api target_col 0 (with_offsets 0 (api_graphemes api line)) of
                Some i \<Rightarrow> line_start + i | None \<Rightarrow> line_end);
     Some (a\<lparr>ta_cursor_pos := clamp_pos_to_nearest_boundary a c\<rparr>)
   }"

text \<open>\<open>partition_point\<close> on lines in order of their starts.\<close>

definition wrapped_line_index_by_start :: "(nat \<times> nat) list \<Rightarrow> nat \<Rightarrow> nat option" where
  "wrapped_line_index_by_start lines pos =
     (let idx = length (takeWhile (\<lambda>r. fst r \<le> pos) lines) in if idx = 0 then None else Some (idx - 1))"

definition wrapped_lines :: "text_api \<Rightarrow> nat \<Rightarrow> text_area \<Rightarrow> (text_area \<times> (nat \<times> nat) list) option" where
  "wrapped_lines api width a =
     (let recalc = do {
          lines \<leftarrow> wrap_ranges (ta_text a) [] [] (api_wrap api (ta_text a) width);
          Some (a\<lparr>ta_wrap_cache := Some \<lparr>wc_width = width, wc_lines = lines\<rparr>\<rparr>, lines)
        }
      in case ta_wrap_cache a of None \<Rightarrow> recalc
         | Some c \<Rightarrow> if wc_width c \<noteq> width then recalc else Some (a, wc_lines c))"

text \<open>
  The wrapped line the cursor is on and the column to keep, when lines are cached. The result is
  \<open>Some None\<close> when there is no cached line for the cursor.
\<close>

definition wrapped_target :: "text_api \<Rightarrow> text_area \<Rightarrow> (nat \<times> nat \<times> (nat \<times> nat) list) option option" where
  "wrapped_target api a =
     (case ta_wrap_cache a of None \<Rightarrow> Some None
      | Some cache \<Rightarrow>
          (case wrapped_line_index_by_start (wc_lines cache) (ta_cursor_pos a) of None \<Rightarrow> Some None
           | Some idx \<Rightarrow>
               (case ta_preferred_col a of Some col \<Rightarrow> Some (Some (idx, col, wc_lines cache))
                | None \<Rightarrow> do {
                    part \<leftarrow> str_get (ta_text a) (fst (wc_lines cache ! idx)) (ta_cursor_pos a);
                    Some (Some (idx, api_width api part, wc_lines cache))
                  })))"

text \<open>The preferred column, computed and kept when there is none yet.\<close>

definition ensure_preferred_col :: "text_api \<Rightarrow> text_area \<Rightarrow> (nat \<times> text_area) option" where
  "ensure_preferred_col api a =
     (case ta_preferred_col a of Some c \<Rightarrow> Some (c, a)
      | None \<Rightarrow> do { c \<leftarrow> current_display_col api a; Some (c, a\<lparr>ta_preferred_col := Some c\<rparr>) })"

definition move_to_wrapped_line :: "text_api \<Rightarrow> nat \<times> nat \<Rightarrow> nat \<Rightarrow> text_area \<Rightarrow> text_area option" where
  "move_to_wrapped_line api line target_col a =
     (let a1 = (if ta_preferred_col a = None then a\<lparr>ta_preferred_col := Some target_col\<rparr> else a)
      in move_to_display_col_on_line api (fst line) (snd line - 1) target_col a1)"

text \<open>
  Without cached lines the cursor moves over the lines of the text. The searches for the start of the
  line before and the end of the line after are those of \<open>beginning_of_line\<close> and \<open>end_of_line\<close>.
\<close>

definition move_up_logical :: "text_api \<Rightarrow> text_area \<Rightarrow> text_area option" where
  "move_up_logical api a = do {
     before \<leftarrow> str_get (ta_text a) 0 (ta_cursor_pos a);
     case rfind_char is_newline before of
       None \<Rightarrow> Some (a\<lparr>ta_cursor_pos := 0, ta_preferred_col := None\<rparr>)
     | Some (prev_nl, _) \<Rightarrow> do {
         (target_col, a1) \<leftarrow> ensure_preferred_col api a;
         prev_line_start \<leftarrow> beginning_of_line a1 prev_nl;
         move_to_display_col_on_line api prev_line_start prev_nl target_col a1
       }
   }"

definition move_cursor_up :: "text_api \<Rightarrow> text_area \<Rightarrow> text_area option" where
  "move_cursor_up api a = do {
     wrapped \<leftarrow> wrapped_target api a;
     case wrapped of
       Some (idx, target_col, lines) \<Rightarrow>
         if idx > 0 then move_to_wrapped_line api (lines ! (idx - 1)) target_col a
         else Some (a\<lparr>ta_cursor_pos := 0, ta_preferred_col := None\<rparr>)
     | None \<Rightarrow> move_up_logical api a
   }"

definition move_down_logical :: "text_api \<Rightarrow> text_area \<Rightarrow> text_area option" where
  "move_down_logical api a = do {
     (target_col, a1) \<leftarrow> ensure_preferred_col api a;
     after \<leftarrow> str_get (ta_text a1) (ta_cursor_pos a1) (length (ta_text a1));
     case find_char is_newline after of
       None \<Rightarrow> Some (a1\<lparr>ta_cursor_pos := length (ta_text a1), ta_preferred_col := None\<rparr>)
     | Some i \<Rightarrow> do {
         let next_line_start = i + ta_cursor_pos a1 + 1;
         next_line_end \<leftarrow> end_of_line a1 next_line_start;
         move_to_display_col_on_line api next_line_start next_line_end target_col a1
       }
   }"

definition move_cursor_down :: "text_api \<Rightarrow> text_area \<Rightarrow> text_area option" where
  "move_cursor_down api a = do {
     wrapped \<leftarrow> wrapped_target api a;
     case wrapped of
       Some (idx, target_col, lines) \<Rightarrow>
         if idx + 1 < length lines then move_to_wrapped_line api (lines ! (idx + 1)) target_col a
         else Some (a\<lparr>ta_cursor_pos := length (ta_text a), ta_preferred_col := None\<rparr>)
     | None \<Rightarrow> move_down_logical api a
   }"

definition move_cursor_to_beginning_of_line :: "bool \<Rightarrow> text_area \<Rightarrow> text_area option" where
  "move_cursor_to_beginning_of_line move_up_at_bol a = do {
     bol \<leftarrow> beginning_of_current_line a;
     if move_up_at_bol \<and> ta_cursor_pos a = bol
     then do { p \<leftarrow> beginning_of_line a (ta_cursor_pos a - 1); Some (set_cursor p a\<lparr>ta_preferred_col := None\<rparr>) }
     else Some (set_cursor bol a\<lparr>ta_preferred_col := None\<rparr>)
   }"

text \<open>A position in a string is below \<open>usize::MAX\<close>, so the saturating addition of the code is an addition.\<close>

definition move_cursor_to_end_of_line :: "bool \<Rightarrow> text_area \<Rightarrow> text_area option" where
  "move_cursor_to_end_of_line move_down_at_eol a = do {
     eol \<leftarrow> end_of_current_line a;
     if move_down_at_eol \<and> ta_cursor_pos a = eol
     then do { p \<leftarrow> end_of_line a (min (ta_cursor_pos a + 1) (length (ta_text a))); Some (set_cursor p a) }
     else Some (set_cursor eol a)
   }"

section \<open>Deleting and killing\<close>

definition store_kill_buffer :: "rstr \<Rightarrow> kill_buffer_kind \<Rightarrow> text_area \<Rightarrow> text_area" where
  "store_kill_buffer txt kind a = a\<lparr>ta_kill_buffer := txt, ta_kill_buffer_kind := kind\<rparr>"

definition kill_range_with_kind :: "nat \<times> nat \<Rightarrow> kill_buffer_kind \<Rightarrow> text_area \<Rightarrow> text_area option" where
  "kill_range_with_kind r kind a =
     (let rng = expand_range_to_element_boundaries a r
      in if fst rng \<ge> snd rng then Some a
         else do {
           removed \<leftarrow> str_get (ta_text a) (fst rng) (snd rng);
           if removed = [] then Some a else replace_range_raw rng [] (store_kill_buffer removed kind a)
         })"

definition kill_range :: "nat \<times> nat \<Rightarrow> text_area \<Rightarrow> text_area option" where
  "kill_range r a = kill_range_with_kind r Characterwise a"

definition kill_line_range :: "nat \<times> nat \<Rightarrow> text_area \<Rightarrow> text_area option" where
  "kill_line_range r a = kill_range_with_kind r Linewise a"

definition yank_range_with_kind :: "nat \<times> nat \<Rightarrow> kill_buffer_kind \<Rightarrow> text_area \<Rightarrow> text_area option" where
  "yank_range_with_kind r kind a =
     (let rng = expand_range_to_element_boundaries a r
      in if fst rng \<ge> snd rng then Some a
         else do {
           removed \<leftarrow> str_get (ta_text a) (fst rng) (snd rng);
           if removed = [] then Some a else Some (store_kill_buffer removed kind a)
         })"

definition yank_range :: "nat \<times> nat \<Rightarrow> text_area \<Rightarrow> text_area option" where
  "yank_range r a = yank_range_with_kind r Characterwise a"

definition yank_line_range :: "nat \<times> nat \<Rightarrow> text_area \<Rightarrow> text_area option" where
  "yank_line_range r a = yank_range_with_kind r Linewise a"

text \<open>The loops over \<open>0..n\<close>, which stop early at the end of the text.\<close>

fun step_back :: "text_api \<Rightarrow> text_area \<Rightarrow> nat \<Rightarrow> nat \<Rightarrow> nat" where
  "step_back api a 0 target = target"
| "step_back api a (Suc n) target =
     (let target' = prev_atomic_boundary api a target in if target' = 0 then target' else step_back api a n target')"

fun step_forward :: "text_api \<Rightarrow> text_area \<Rightarrow> nat \<Rightarrow> nat \<Rightarrow> nat" where
  "step_forward api a 0 target = target"
| "step_forward api a (Suc n) target =
     (let target' = next_atomic_boundary api a target
      in if target' \<ge> length (ta_text a) then target' else step_forward api a n target')"

definition delete_backward :: "text_api \<Rightarrow> nat \<Rightarrow> text_area \<Rightarrow> text_area option" where
  "delete_backward api n a =
     (if n = 0 \<or> ta_cursor_pos a = 0 then Some a
      else replace_range (step_back api a n (ta_cursor_pos a), ta_cursor_pos a) [] a)"

definition delete_forward :: "text_api \<Rightarrow> nat \<Rightarrow> text_area \<Rightarrow> text_area option" where
  "delete_forward api n a =
     (if n = 0 \<or> ta_cursor_pos a \<ge> length (ta_text a) then Some a
      else replace_range (ta_cursor_pos a, step_forward api a n (ta_cursor_pos a)) [] a)"

definition delete_forward_kill :: "text_api \<Rightarrow> nat \<Rightarrow> text_area \<Rightarrow> text_area option" where
  "delete_forward_kill api n a =
     (if n = 0 \<or> ta_cursor_pos a \<ge> length (ta_text a) then Some a
      else kill_range (ta_cursor_pos a, step_forward api a n (ta_cursor_pos a)) a)"

definition delete_backward_word :: "text_api \<Rightarrow> text_area \<Rightarrow> text_area option" where
  "delete_backward_word api a = do {
     start \<leftarrow> beginning_of_previous_word api a;
     kill_range (start, ta_cursor_pos a) a
   }"

definition delete_forward_word :: "text_api \<Rightarrow> text_area \<Rightarrow> text_area option" where
  "delete_forward_word api a = do {
     stop \<leftarrow> end_of_next_word api a;
     if stop > ta_cursor_pos a then kill_range (ta_cursor_pos a, stop) a else Some a
   }"

definition kill_to_end_of_line :: "text_area \<Rightarrow> text_area option" where
  "kill_to_end_of_line a = do {
     eol \<leftarrow> end_of_current_line a;
     if ta_cursor_pos a = eol
     then (if eol < length (ta_text a) then kill_range (ta_cursor_pos a, eol + 1) a else Some a)
     else kill_range (ta_cursor_pos a, eol) a
   }"

definition vim_kill_to_end_of_line :: "text_area \<Rightarrow> text_area option" where
  "vim_kill_to_end_of_line a = do {
     eol \<leftarrow> end_of_current_line a;
     if ta_cursor_pos a < eol then kill_range (ta_cursor_pos a, eol) a else Some a
   }"

definition kill_to_beginning_of_line :: "text_area \<Rightarrow> text_area option" where
  "kill_to_beginning_of_line a = do {
     bol \<leftarrow> beginning_of_current_line a;
     if ta_cursor_pos a = bol
     then (if bol > 0 then kill_range (bol - 1, bol) a else Some a)
     else kill_range (bol, ta_cursor_pos a) a
   }"

definition kill_current_line :: "text_area \<Rightarrow> text_area option" where
  "kill_current_line a = do { rng \<leftarrow> current_line_range_with_newline a; kill_line_range rng a }"

definition yank_current_line :: "text_area \<Rightarrow> text_area option" where
  "yank_current_line a = do { rng \<leftarrow> current_line_range_with_newline a; yank_line_range rng a }"

definition yank :: "text_area \<Rightarrow> text_area option" where
  "yank a = (if ta_kill_buffer a = [] then Some a else insert_str (ta_kill_buffer a) a)"

definition trim_end_newlines :: "rstr \<Rightarrow> rstr" where
  "trim_end_newlines s = rev (dropWhile (\<lambda>c. c = NL) (rev s))"

definition paste_line_after_current_line :: "text_area \<Rightarrow> text_area option" where
  "paste_line_after_current_line a = do {
     eol \<leftarrow> end_of_current_line a;
     let more = (eol < length (ta_text a));
     let insert_at = (if more then eol + 1 else eol);
     let cursor = (if more then insert_at else insert_at + 1);
     let txt = (if more then (if ends_with (ta_kill_buffer a) [NL] then ta_kill_buffer a else ta_kill_buffer a @ [NL])
       else NL # trim_end_newlines (ta_kill_buffer a));
     a1 \<leftarrow> insert_str_at insert_at txt a;
     Some (set_cursor (min cursor (length (ta_text a1))) a1)
   }"

definition paste_after_cursor :: "text_api \<Rightarrow> text_area \<Rightarrow> text_area option" where
  "paste_after_cursor api a =
     (if ta_kill_buffer a = [] then Some a
      else if ta_kill_buffer_kind a = Linewise then paste_line_after_current_line a
      else let a1 = set_cursor (next_atomic_boundary api a (ta_cursor_pos a)) a
        in insert_str (ta_kill_buffer a1) a1)"

section \<open>Elements\<close>

definition element_payloads :: "text_area \<Rightarrow> rstr list" where
  "element_payloads a = List.map_filter (\<lambda>e. str_get (ta_text a) (te_start e) (te_end e)) (ta_elements a)"

definition text_elements :: "text_area \<Rightarrow> text_element list" where
  "text_elements a = map (\<lambda>e. \<lparr>element_range = \<lparr>range_start = te_start e, range_end = te_end e\<rparr>,
     element_placeholder = str_get (ta_text a) (te_start e) (te_end e)\<rparr>) (ta_elements a)"

definition text_element_snapshots :: "text_area \<Rightarrow> text_elem_snapshot list" where
  "text_element_snapshots a = List.map_filter (\<lambda>e. map_option (\<lambda>t.
     \<lparr>tes_id = te_id e, tes_start = te_start e, tes_end = te_end e, tes_text = t\<rparr>)
     (str_get (ta_text a) (te_start e) (te_end e))) (ta_elements a)"

definition element_id_for_exact_range :: "nat \<times> nat \<Rightarrow> text_area \<Rightarrow> nat option" where
  "element_id_for_exact_range r a = map_option te_id (List.find (\<lambda>e. (te_start e, te_end e) = r) (ta_elements a))"

fun first_index :: "('a \<Rightarrow> bool) \<Rightarrow> 'a list \<Rightarrow> nat option" where
  "first_index P [] = None"
| "first_index P (x # xs) = (if P x then Some 0 else map_option Suc (first_index P xs))"

text \<open>What renaming an element from \<open>start..stop\<close> to \<open>inserted\<close> bytes does to the others.\<close>

definition shift_other :: "nat \<Rightarrow> nat \<Rightarrow> nat \<Rightarrow> text_elem \<Rightarrow> text_elem" where
  "shift_other start stop inserted e =
     (let diff = int inserted - int (stop - start)
      in if diff = 0 \<or> te_end e \<le> start then e
         else if te_start e \<ge> stop
         then e\<lparr>te_start := nat (int (te_start e) + diff), te_end := nat (int (te_end e) + diff)\<rparr>
         else e\<lparr>te_start := min start (te_start e), te_end := max (start + inserted) (nat (int (te_end e) + diff))\<rparr>)"

definition replace_element_payload :: "rstr \<Rightarrow> rstr \<Rightarrow> text_area \<Rightarrow> (bool \<times> text_area) option" where
  "replace_element_payload old new a =
     (case first_index (\<lambda>e. str_get (ta_text a) (te_start e) (te_end e) = Some old) (ta_elements a) of
        None \<Rightarrow> Some (False, a)
      | Some idx \<Rightarrow>
          let e = ta_elements a ! idx; start = te_start e; stop = te_end e
          in if start > stop \<or> stop > length (ta_text a) then Some (False, a)
             else do {
               txt' \<leftarrow> str_replace (ta_text a) start stop new;
               let es = map (\<lambda>(j, e'). if j = idx then e'\<lparr>te_start := start, te_end := start + length new\<rparr>
                 else shift_other start stop (length new) e') (enumerate 0 (ta_elements a));
               let a1 = a\<lparr>ta_text := txt', ta_wrap_cache := None, ta_preferred_col := None, ta_elements := es\<rparr>;
               let c = clamp_pos_to_nearest_boundary a1 (cursor_after start stop (length new) (ta_cursor_pos a));
               Some (True, a1\<lparr>ta_cursor_pos := c, ta_elements := sort_key te_start es\<rparr>)
             })"

definition add_element :: "nat \<times> nat \<Rightarrow> text_area \<Rightarrow> nat \<times> text_area" where
  "add_element r a =
     (case next_element_id a of (i, a1) \<Rightarrow>
        (i, a1\<lparr>ta_elements := sort_key te_start (ta_elements a1 @ [\<lparr>te_id = i, te_start = fst r, te_end = snd r\<rparr>])\<rparr>))"

definition insert_element :: "rstr \<Rightarrow> text_area \<Rightarrow> (nat \<times> text_area) option" where
  "insert_element txt a =
     (let start = clamp_pos_for_insertion a (ta_cursor_pos a)
      in do {
        a1 \<leftarrow> insert_str_at start txt a;
        let (i, a2) = add_element (start, start + length txt) a1;
        Some (i, set_cursor (start + length txt) a2)
      })"

definition add_element_range :: "nat \<times> nat \<Rightarrow> text_area \<Rightarrow> nat option \<times> text_area" where
  "add_element_range r a =
     (let len = length (ta_text a);
          start = clamp_pos_to_char_boundary a (min (fst r) len); stop = clamp_pos_to_char_boundary a (min (snd r) len)
      in if start \<ge> stop then (None, a)
         else if list_ex (\<lambda>e. te_start e = start \<and> te_end e = stop) (ta_elements a) then (None, a)
         else if list_ex (\<lambda>e. start < te_end e \<and> stop > te_start e) (ta_elements a) then (None, a)
         else case add_element (start, stop) a of (i, a1) \<Rightarrow> (Some i, a1))"

definition remove_element_range :: "nat \<times> nat \<Rightarrow> text_area \<Rightarrow> bool \<times> text_area" where
  "remove_element_range r a =
     (let len = length (ta_text a);
          start = clamp_pos_to_char_boundary a (min (fst r) len); stop = clamp_pos_to_char_boundary a (min (snd r) len)
      in if start \<ge> stop then (False, a)
         else let es = filter (\<lambda>e. te_start e \<noteq> start \<or> te_end e \<noteq> stop) (ta_elements a)
           in (length (ta_elements a) \<noteq> length es, a\<lparr>ta_elements := es\<rparr>))"

section \<open>Scrolling\<close>

text \<open>
  Rows and scroll offsets are \<open>u16\<close>: counts are cut to 16 bits, and an addition beyond them panics.
\<close>

definition u16_of :: "nat \<Rightarrow> nat" where
  "u16_of n = n mod 65536"

definition u16_add :: "nat \<Rightarrow> nat \<Rightarrow> nat option" where
  "u16_add x y = (if x + y < 65536 then Some (x + y) else None)"

definition effective_scroll :: "nat \<Rightarrow> (nat \<times> nat) list \<Rightarrow> nat \<Rightarrow> text_area \<Rightarrow> nat option" where
  "effective_scroll area_height lines current_scroll a =
     (let total_lines = u16_of (length lines)
      in if area_height \<ge> total_lines then Some 0
         else let cursor_line_idx = u16_of (case wrapped_line_index_by_start lines (ta_cursor_pos a) of None \<Rightarrow> 0 | Some i \<Rightarrow> i);
                  max_scroll = total_lines - area_height;
                  scroll = min current_scroll max_scroll
           in if cursor_line_idx < scroll then Some cursor_line_idx
              else do {
                bottom \<leftarrow> u16_add scroll area_height;
                if cursor_line_idx \<ge> bottom
                then do { below \<leftarrow> u16_add cursor_line_idx 1; Some (below - area_height) }
                else Some scroll
              })"

definition desired_height :: "text_api \<Rightarrow> nat \<Rightarrow> text_area \<Rightarrow> (text_area \<times> nat) option" where
  "desired_height api width a = do { (a1, lines) \<leftarrow> wrapped_lines api width a; Some (a1, u16_of (length lines)) }"

text \<open>Where the cursor is on the screen, in an area at \<open>x\<close>, \<open>y\<close> with a width and a height.\<close>

record screen_rect =
  rect_x :: nat
  rect_y :: nat
  rect_width :: nat
  rect_height :: nat

definition cursor_pos_with_state :: "text_api \<Rightarrow> screen_rect \<Rightarrow> nat \<Rightarrow> text_area \<Rightarrow> (text_area \<times> (nat \<times> nat) option) option" where
  "cursor_pos_with_state api area scroll a = do {
     (a1, lines) \<leftarrow> wrapped_lines api (rect_width area) a;
     effective \<leftarrow> effective_scroll (rect_height area) lines scroll a1;
     case wrapped_line_index_by_start lines (ta_cursor_pos a1) of None \<Rightarrow> Some (a1, None)
     | Some i \<Rightarrow> do {
         part \<leftarrow> str_get (ta_text a1) (fst (lines ! i)) (ta_cursor_pos a1);
         let screen_row = (if i - effective < 65536 then i - effective else 0);
         x \<leftarrow> u16_add (rect_x area) (u16_of (api_width api part));
         y \<leftarrow> u16_add (rect_y area) screen_row;
         Some (a1, Some (x, y))
       }
   }"

end
