(* ===== verification/Text_Vim.thy ===== *)
theory Text_Vim
  imports Text_Edit
begin

text \<open>
  Modal editing (\<open>tui/src/bottom_pane/textarea/vim.rs\<close> and the handlers of \<open>textarea.rs\<close>): text objects,
  operators with motions, and the dispatch of key events, in the order in which the code tries the
  bindings.
\<close>

section \<open>Text objects\<close>

definition cursor_overlaps_range :: "text_area \<Rightarrow> nat \<times> nat \<Rightarrow> bool" where
  "cursor_overlaps_range a r = (fst r \<le> ta_cursor_pos a \<and> ta_cursor_pos a < snd r)"

definition cursor_is_at_range_end :: "text_area \<Rightarrow> nat \<times> nat \<Rightarrow> bool" where
  "cursor_is_at_range_end a r = (fst r < snd r \<and> ta_cursor_pos a = snd r)"

fun run_loop :: "nat \<Rightarrow> nat option \<Rightarrow> (nat \<times> rstr) list \<Rightarrow> (nat \<times> nat) list" where
  "run_loop len start [] = (case start of None \<Rightarrow> [] | Some run_start \<Rightarrow> [(run_start, len)])"
| "run_loop len start ((idx, ch) # cs) =
     (if is_white ch
      then (case start of None \<Rightarrow> run_loop len None cs | Some run_start \<Rightarrow> (run_start, idx) # run_loop len None cs)
      else case start of None \<Rightarrow> run_loop len (Some idx) cs | Some run_start \<Rightarrow> run_loop len start cs)"

definition non_ws_runs :: "text_area \<Rightarrow> (nat \<times> nat) list" where
  "non_ws_runs a = run_loop (length (ta_text a)) None (char_indices (ta_text a))"

definition big_word_range_at_cursor :: "text_area \<Rightarrow> (nat \<times> nat) option" where
  "big_word_range_at_cursor a =
     List.find (\<lambda>r. cursor_overlaps_range a r \<or> cursor_is_at_range_end a r) (non_ws_runs a)"

text \<open>The piece under the cursor; at the end of the run the last one.\<close>

definition small_word_range_at_cursor :: "text_api \<Rightarrow> text_area \<Rightarrow> (nat \<times> nat) option option" where
  "small_word_range_at_cursor api a =
     (case big_word_range_at_cursor a of None \<Rightarrow> Some None
      | Some run \<Rightarrow> do {
          txt \<leftarrow> str_get (ta_text a) (fst run) (snd run);
          let pieces = map (\<lambda>(i, p). (fst run + i, fst run + i + length p)) (split_word_pieces api txt);
          Some (Some (case List.find (cursor_overlaps_range a) pieces of
              Some piece \<Rightarrow> piece
            | None \<Rightarrow> if cursor_is_at_range_end a run
                then (case last_opt pieces of Some piece \<Rightarrow> piece | None \<Rightarrow> run) else run))
        })"

text \<open>\<open>char_indices\<close> while the characters are white, from either side.\<close>

definition following_whitespace_end :: "text_area \<Rightarrow> nat \<Rightarrow> nat option" where
  "following_whitespace_end a start = do {
     after \<leftarrow> str_get (ta_text a) start (length (ta_text a));
     Some (start + length (concat (takeWhile is_white (chars after))))
   }"

definition preceding_whitespace_start :: "text_area \<Rightarrow> nat \<Rightarrow> nat option" where
  "preceding_whitespace_start a stop = do {
     before \<leftarrow> str_get (ta_text a) 0 stop;
     Some (stop - length (concat (takeWhile is_white (rev (chars before)))))
   }"

definition expand_word_around :: "text_area \<Rightarrow> nat \<times> nat \<Rightarrow> (nat \<times> nat) option" where
  "expand_word_around a inner = do {
     following \<leftarrow> following_whitespace_end a (snd inner);
     if following > snd inner then Some (fst inner, following)
     else do { start \<leftarrow> preceding_whitespace_start a (fst inner); Some (start, snd inner) }
   }"

definition word_text_object_range :: "text_api \<Rightarrow> vim_text_object_scope \<Rightarrow> bool \<Rightarrow> text_area \<Rightarrow> (nat \<times> nat) option option" where
  "word_text_object_range api scope big_word a = do {
     found \<leftarrow> (if big_word then Some (big_word_range_at_cursor a) else small_word_range_at_cursor api a);
     case found of None \<Rightarrow> Some None
     | Some inner \<Rightarrow> (case scope of InnerObject \<Rightarrow> Some (Some inner)
         | AroundObject \<Rightarrow> do { r \<leftarrow> expand_word_around a inner; Some (Some r) })
   }"

definition is_inside_element :: "text_area \<Rightarrow> nat \<Rightarrow> bool" where
  "is_inside_element a pos = list_ex (\<lambda>e. te_start e \<le> pos \<and> pos < te_end e) (ta_elements a)"

text \<open>A candidate replaces the best one so far when it is shorter; the two inclusive ends of the brackets count.\<close>

definition better_range :: "nat \<times> nat \<Rightarrow> (nat \<times> nat) option \<Rightarrow> (nat \<times> nat) option" where
  "better_range candidate best =
     (if fst candidate \<le> snd candidate \<and>
         (case best of None \<Rightarrow> True | Some current \<Rightarrow> snd candidate - fst candidate < snd current - fst current)
      then Some candidate else best)"

definition delimited :: "vim_text_object_scope \<Rightarrow> nat \<Rightarrow> nat \<Rightarrow> nat \<Rightarrow> nat \<Rightarrow> nat \<times> nat" where
  "delimited scope open_idx open_len idx close_len =
     (case scope of InnerObject \<Rightarrow> (open_idx + open_len, idx) | AroundObject \<Rightarrow> (open_idx, idx + close_len))"

fun pair_loop :: "text_area \<Rightarrow> vim_text_object_scope \<Rightarrow> rstr \<Rightarrow> rstr \<Rightarrow> nat list \<Rightarrow> (nat \<times> nat) option \<Rightarrow>
    (nat \<times> rstr) list \<Rightarrow> (nat \<times> nat) option" where
  "pair_loop a scope opn cls stack best [] = best"
| "pair_loop a scope opn cls stack best ((idx, ch) # cs) =
     (if is_inside_element a idx then pair_loop a scope opn cls stack best cs
      else if ch = opn then pair_loop a scope opn cls (idx # stack) best cs
      else if ch = cls
      then (case stack of [] \<Rightarrow> pair_loop a scope opn cls stack best cs
            | open_idx # stack' \<Rightarrow>
                pair_loop a scope opn cls stack'
                  (if open_idx \<le> ta_cursor_pos a \<and> ta_cursor_pos a \<le> idx
                   then better_range (delimited scope open_idx (length opn) idx (length ch)) best else best) cs)
      else pair_loop a scope opn cls stack best cs)"

definition paired_text_object_range :: "vim_text_object_scope \<Rightarrow> rstr \<Rightarrow> rstr \<Rightarrow> text_area \<Rightarrow> (nat \<times> nat) option" where
  "paired_text_object_range scope opn cls a = pair_loop a scope opn cls [] None (char_indices (ta_text a))"

definition is_escaped :: "text_area \<Rightarrow> nat \<Rightarrow> bool option" where
  "is_escaped a pos = do {
     before \<leftarrow> str_get (ta_text a) 0 pos;
     Some (odd (length (takeWhile (\<lambda>c. c = [CHR 0x5C]) (rev (chars before)))))
   }"

fun quote_loop :: "text_area \<Rightarrow> vim_text_object_scope \<Rightarrow> rstr \<Rightarrow> nat \<Rightarrow> nat option \<Rightarrow> (nat \<times> nat) option \<Rightarrow>
    (nat \<times> rstr) list \<Rightarrow> (nat \<times> nat) option option" where
  "quote_loop a scope quote line_start opn best [] = Some best"
| "quote_loop a scope quote line_start opn best ((offset, ch) # cs) =
     (let idx = line_start + offset
      in if is_inside_element a idx \<or> ch \<noteq> quote then quote_loop a scope quote line_start opn best cs
         else do {
           escaped \<leftarrow> is_escaped a idx;
           if escaped then quote_loop a scope quote line_start opn best cs
           else case opn of None \<Rightarrow> quote_loop a scope quote line_start (Some idx) best cs
             | Some open_idx \<Rightarrow>
                 quote_loop a scope quote line_start None
                   (if open_idx \<le> ta_cursor_pos a \<and> ta_cursor_pos a \<le> idx
                    then better_range (delimited scope open_idx (length quote) idx (length quote)) best else best) cs
         })"

definition quoted_text_object_range :: "vim_text_object_scope \<Rightarrow> rstr \<Rightarrow> text_area \<Rightarrow> (nat \<times> nat) option option" where
  "quoted_text_object_range scope quote a = do {
     bol \<leftarrow> beginning_of_current_line a;
     eol \<leftarrow> end_of_current_line a;
     line \<leftarrow> str_get (ta_text a) bol eol;
     quote_loop a scope quote bol None None (char_indices line)
   }"

definition text_object_range :: "text_api \<Rightarrow> vim_text_object \<Rightarrow> vim_text_object_scope \<Rightarrow> text_area \<Rightarrow> (nat \<times> nat) option option" where
  "text_object_range api obj scope a =
     (case obj of
        ObjectWord \<Rightarrow> word_text_object_range api scope False a
      | ObjectBigWord \<Rightarrow> word_text_object_range api scope True a
      | ObjectParentheses \<Rightarrow> Some (paired_text_object_range scope ''('' '')'' a)
      | ObjectBrackets \<Rightarrow> Some (paired_text_object_range scope ''['' '']'' a)
      | ObjectBraces \<Rightarrow> Some (paired_text_object_range scope ''{'' ''}'' a)
      | ObjectDoubleQuote \<Rightarrow> quoted_text_object_range scope [CHR 0x22] a
      | ObjectSingleQuote \<Rightarrow> quoted_text_object_range scope [CHR 0x27] a
      | ObjectBacktick \<Rightarrow> quoted_text_object_range scope [CHR 0x60] a)"

section \<open>Which command a key is\<close>

text \<open>The first entry whose bindings the event presses.\<close>

fun first_pressed :: "(key_binding list \<times> 'a) list \<Rightarrow> key_event \<Rightarrow> 'a option" where
  "first_pressed [] ev = None"
| "first_pressed ((bs, x) # rest) ev = (if is_pressed bs ev then Some x else first_pressed rest ev)"

definition vim_text_object_scope_for_event :: "text_area \<Rightarrow> key_event \<Rightarrow> vim_text_object_scope option" where
  "vim_text_object_scope_for_event a ev =
     (let km = ta_vim_operator_keymap a
      in first_pressed [(vo_select_inner_text_object km, InnerObject), (vo_select_around_text_object km, AroundObject)] ev)"

definition vim_text_object_for_event :: "text_area \<Rightarrow> key_event \<Rightarrow> vim_text_object option" where
  "vim_text_object_for_event a ev =
     (let km = ta_vim_text_object_keymap a
      in first_pressed [(vt_word km, ObjectWord), (vt_big_word km, ObjectBigWord), (vt_parentheses km, ObjectParentheses),
           (vt_brackets km, ObjectBrackets), (vt_braces km, ObjectBraces), (vt_double_quote km, ObjectDoubleQuote),
           (vt_single_quote km, ObjectSingleQuote), (vt_backtick km, ObjectBacktick)] ev)"

definition vim_motion_for_event :: "text_area \<Rightarrow> key_event \<Rightarrow> vim_motion option" where
  "vim_motion_for_event a ev =
     (let km = ta_vim_operator_keymap a
      in first_pressed [(vo_motion_left km, MotionLeft), (vo_motion_right km, MotionRight), (vo_motion_down km, MotionDown),
           (vo_motion_up km, MotionUp), (vo_motion_word_forward km, MotionWordForward),
           (vo_motion_word_backward km, MotionWordBackward), (vo_motion_word_end km, MotionWordEnd),
           (vo_motion_line_start km, MotionLineStart), (vo_motion_line_end km, MotionLineEnd)] ev)"

section \<open>Operators and motions\<close>

definition target_for_motion :: "text_api \<Rightarrow> vim_motion \<Rightarrow> text_area \<Rightarrow> nat option" where
  "target_for_motion api motion a = do {
     moved \<leftarrow> (case motion of
         MotionLeft \<Rightarrow> Some (move_cursor_left api a)
       | MotionRight \<Rightarrow> Some (move_cursor_right api a)
       | MotionUp \<Rightarrow> move_cursor_up api a
       | MotionDown \<Rightarrow> move_cursor_down api a
       | MotionWordForward \<Rightarrow> do { p \<leftarrow> beginning_of_next_word api a; Some (set_cursor p a) }
       | MotionWordBackward \<Rightarrow> do { p \<leftarrow> beginning_of_previous_word api a; Some (set_cursor p a) }
       | MotionWordEnd \<Rightarrow> do { p \<leftarrow> vim_word_end_exclusive api a; Some (set_cursor p a) }
       | MotionLineStart \<Rightarrow> do { p \<leftarrow> beginning_of_current_line a; Some (set_cursor p a) }
       | MotionLineEnd \<Rightarrow> do { p \<leftarrow> end_of_current_line a; Some (set_cursor p a) });
     Some (ta_cursor_pos moved)
   }"

definition linewise_range_for_vertical_motion :: "vim_motion \<Rightarrow> text_area \<Rightarrow> (nat \<times> nat) option option" where
  "linewise_range_for_vertical_motion motion a = do {
     current \<leftarrow> current_line_range_with_newline a;
     rng \<leftarrow> (case motion of
         MotionUp \<Rightarrow> do {
           start \<leftarrow> (if fst current = 0 then Some (fst current) else beginning_of_line a (fst current - 1));
           Some (Some (start, snd current))
         }
       | MotionDown \<Rightarrow> do {
           stop \<leftarrow> (if snd current \<ge> length (ta_text a) then Some (snd current)
             else do {
               next_eol \<leftarrow> end_of_line a (snd current);
               Some (if next_eol < length (ta_text a) then next_eol + 1 else next_eol)
             });
           Some (Some (fst current, stop))
         }
       | _ \<Rightarrow> Some None);
     Some (case rng of None \<Rightarrow> None | Some r \<Rightarrow> if fst r < snd r then Some r else None)
   }"

definition range_for_motion :: "text_api \<Rightarrow> vim_motion \<Rightarrow> text_area \<Rightarrow> (nat \<times> nat) option option" where
  "range_for_motion api motion a =
     (if motion \<in> {MotionUp, MotionDown} then linewise_range_for_vertical_motion motion a
      else do {
        target \<leftarrow> target_for_motion api motion a;
        let start = ta_cursor_pos a;
        Some (if start = target then None else if target < start then Some (target, start) else Some (start, target))
      })"

definition apply_vim_operator :: "text_api \<Rightarrow> vim_operator \<Rightarrow> vim_motion \<Rightarrow> text_area \<Rightarrow> text_area option" where
  "apply_vim_operator api op motion a = do {
     rng \<leftarrow> range_for_motion api motion a;
     case rng of None \<Rightarrow> Some a
     | Some r \<Rightarrow> (case op of VimDelete \<Rightarrow> kill_range r a | VimYank \<Rightarrow> yank_range r a | VimChange \<Rightarrow> Some a)
   }"

definition apply_vim_operator_to_range :: "vim_operator \<Rightarrow> nat \<times> nat \<Rightarrow> text_area \<Rightarrow> text_area option" where
  "apply_vim_operator_to_range op r a =
     (case op of
        VimDelete \<Rightarrow> kill_range r a
      | VimYank \<Rightarrow> yank_range r a
      | VimChange \<Rightarrow> do { a1 \<leftarrow> kill_range r a; Some (a1\<lparr>ta_vim_mode := VimInsert\<rparr>) })"

section \<open>Handling keys\<close>

text \<open>The editor's bindings, tried in this order after the newline, backward word and AltGr cases.\<close>

datatype editor_action =
    DoDeleteBackward | DoDeleteForwardWord | DoDeleteForward | DoKillLineStart | DoKillWholeLine | DoKillLineEnd | DoYank
  | DoWordLeft | DoWordRight | DoLeft | DoRight | DoUp | DoDown | DoLineStart | DoLineEnd

definition editor_action_for_event :: "editor_keymap \<Rightarrow> key_event \<Rightarrow> editor_action option" where
  "editor_action_for_event km ev = first_pressed
     [(ek_delete_backward km, DoDeleteBackward), (ek_delete_forward_word km, DoDeleteForwardWord),
      (ek_delete_forward km, DoDeleteForward), (ek_kill_line_start km, DoKillLineStart),
      (ek_kill_whole_line km, DoKillWholeLine), (ek_kill_line_end km, DoKillLineEnd), (ek_yank km, DoYank),
      (ek_move_word_left km, DoWordLeft), (ek_move_word_right km, DoWordRight), (ek_move_left km, DoLeft),
      (ek_move_right km, DoRight), (ek_move_up km, DoUp), (ek_move_down km, DoDown),
      (ek_move_line_start km, DoLineStart), (ek_move_line_end km, DoLineEnd)] ev"

definition control_char :: "rstr \<Rightarrow> key_event \<Rightarrow> bool" where
  "control_char c ev = (event_code ev = KeyChar c \<and> event_modifiers ev = mods_none\<lparr>mod_control := True\<rparr>)"

definition perform_editor_action :: "text_api \<Rightarrow> key_event \<Rightarrow> editor_action \<Rightarrow> text_area \<Rightarrow> text_area option" where
  "perform_editor_action api ev action a =
     (case action of
        DoDeleteBackward \<Rightarrow> delete_backward api 1 a
      | DoDeleteForwardWord \<Rightarrow> delete_forward_word api a
      | DoDeleteForward \<Rightarrow> delete_forward api 1 a
      | DoKillLineStart \<Rightarrow> kill_to_beginning_of_line a
      | DoKillWholeLine \<Rightarrow> kill_current_line a
      | DoKillLineEnd \<Rightarrow> kill_to_end_of_line a
      | DoYank \<Rightarrow> yank a
      | DoWordLeft \<Rightarrow> do { p \<leftarrow> beginning_of_previous_word api a; Some (set_cursor p a) }
      | DoWordRight \<Rightarrow> do { p \<leftarrow> end_of_next_word api a; Some (set_cursor p a) }
      | DoLeft \<Rightarrow> Some (move_cursor_left api a)
      | DoRight \<Rightarrow> Some (move_cursor_right api a)
      | DoUp \<Rightarrow> move_cursor_up api a
      | DoDown \<Rightarrow> move_cursor_down api a
      | DoLineStart \<Rightarrow> move_cursor_to_beginning_of_line (control_char ''a'' ev) a
      | DoLineEnd \<Rightarrow> move_cursor_to_end_of_line (control_char ''e'' ev) a)"

definition plain_or_shift :: "key_modifiers \<Rightarrow> bool" where
  "plain_or_shift mods = (mods = mods_none \<or> mods = mods_none\<lparr>mod_shift := True\<rparr>)"

definition altgr_char :: "key_event \<Rightarrow> rstr option" where
  "altgr_char ev =
     (case event_code ev of KeyChar c \<Rightarrow> if is_altgr (event_modifiers ev) then Some c else None | _ \<Rightarrow> None)"

definition input_with_keymap :: "text_api \<Rightarrow> key_event \<Rightarrow> editor_keymap \<Rightarrow> text_area \<Rightarrow> text_area option" where
  "input_with_keymap api ev km a =
     (if is_pressed (ek_insert_newline km) ev then insert_str [NL] a
      else if is_pressed (ek_delete_backward_word km) ev then delete_backward_word api a
      else case altgr_char ev of
        Some c \<Rightarrow> insert_str c a
      | None \<Rightarrow>
          (case editor_action_for_event km ev of
             Some action \<Rightarrow> perform_editor_action api ev action a
           | None \<Rightarrow>
               (case event_code ev of
                  KeyChar c \<Rightarrow> if plain_or_shift (event_modifiers ev) \<and> \<not> is_ascii_control c then insert_str c a else Some a
                | _ \<Rightarrow> Some a)))"

definition handle_vim_insert :: "text_api \<Rightarrow> key_event \<Rightarrow> text_area \<Rightarrow> text_area option" where
  "handle_vim_insert api ev a =
     (if event_code ev = KeyEsc then do {
        bol \<leftarrow> beginning_of_current_line a;
        let a1 = (if ta_cursor_pos a > bol
          then a\<lparr>ta_cursor_pos := max (prev_atomic_boundary api a (ta_cursor_pos a)) bol\<rparr> else a);
        Some (enter_vim_normal_mode a1)
      } else input_with_keymap api ev (ta_editor_keymap a) a)"

text \<open>The second component is the result of the handler, which its caller ignores.\<close>

definition handle_vim_operator :: "text_api \<Rightarrow> vim_operator \<Rightarrow> key_event \<Rightarrow> text_area \<Rightarrow> (text_area \<times> bool) option" where
  "handle_vim_operator api op ev a =
     (let km = ta_vim_operator_keymap a
      in if op = VimDelete \<and> is_pressed (vo_delete_line km) ev then do { a1 \<leftarrow> kill_current_line a; Some (a1, True) }
         else if op = VimYank \<and> is_pressed (vo_yank_line km) ev then do { a1 \<leftarrow> yank_current_line a; Some (a1, True) }
         else if is_pressed (vo_cancel km) ev then Some (a, True)
         else case vim_text_object_scope_for_event a ev of
           Some scope \<Rightarrow> Some (a\<lparr>ta_vim_pending := PendingTextObject op scope\<rparr>, True)
         | None \<Rightarrow>
             (case (if op = VimChange then None else vim_motion_for_event a ev) of
                Some motion \<Rightarrow> do { a1 \<leftarrow> apply_vim_operator api op motion a; Some (a1, True) }
              | None \<Rightarrow> Some (a, False)))"

definition handle_vim_text_object ::
    "text_api \<Rightarrow> vim_operator \<Rightarrow> vim_text_object_scope \<Rightarrow> key_event \<Rightarrow> text_area \<Rightarrow> (text_area \<times> bool) option" where
  "handle_vim_text_object api op scope ev a =
     (if is_pressed (vt_cancel (ta_vim_text_object_keymap a)) ev then Some (a, True)
      else case vim_text_object_for_event a ev of None \<Rightarrow> Some (a, False)
        | Some obj \<Rightarrow> do {
            rng \<leftarrow> text_object_range api obj scope a;
            case rng of None \<Rightarrow> Some (a, True)
            | Some r \<Rightarrow> do { a1 \<leftarrow> apply_vim_operator_to_range op r a; Some (a1, True) }
          })"

datatype vim_action =
    NEnterInsert | NAppendAfterCursor | NAppendLineEnd | NInsertLineStart | NOpenLineBelow | NOpenLineAbove | NLeft | NRight
  | NDown | NUp | NWordForward | NWordBackward | NWordEnd | NLineStart | NLineEnd | NDeleteChar | NSubstituteChar
  | NDeleteToLineEnd | NChangeToLineEnd | NYankLine | NPasteAfter | NStartDelete | NStartYank | NStartChange | NCancel

definition vim_action_for_event :: "vim_normal_keymap \<Rightarrow> key_event \<Rightarrow> vim_action option" where
  "vim_action_for_event km ev = first_pressed
     [(vn_enter_insert km, NEnterInsert), (vn_append_after_cursor km, NAppendAfterCursor), (vn_append_line_end km, NAppendLineEnd),
      (vn_insert_line_start km, NInsertLineStart), (vn_open_line_below km, NOpenLineBelow), (vn_open_line_above km, NOpenLineAbove),
      (vn_move_left km, NLeft), (vn_move_right km, NRight), (vn_move_down km, NDown), (vn_move_up km, NUp),
      (vn_move_word_forward km, NWordForward), (vn_move_word_backward km, NWordBackward), (vn_move_word_end km, NWordEnd),
      (vn_move_line_start km, NLineStart), (vn_move_line_end km, NLineEnd), (vn_delete_char km, NDeleteChar),
      (vn_substitute_char km, NSubstituteChar), (vn_delete_to_line_end km, NDeleteToLineEnd),
      (vn_change_to_line_end km, NChangeToLineEnd), (vn_yank_line km, NYankLine), (vn_paste_after km, NPasteAfter),
      (vn_start_delete_operator km, NStartDelete), (vn_start_yank_operator km, NStartYank),
      (vn_start_change_operator km, NStartChange), (vn_cancel_operator km, NCancel)] ev"

definition to_insert :: "text_area \<Rightarrow> text_area" where
  "to_insert a = a\<lparr>ta_vim_mode := VimInsert\<rparr>"

definition open_line_below :: "text_area \<Rightarrow> text_area option" where
  "open_line_below a = do {
     eol \<leftarrow> end_of_current_line a;
     let more = (eol < length (ta_text a));
     let insert_at = (if more then eol + 1 else eol);
     a1 \<leftarrow> insert_str_at insert_at [NL] a;
     Some (to_insert (set_cursor (if more then insert_at else insert_at + 1) a1))
   }"

definition open_line_above :: "text_area \<Rightarrow> text_area option" where
  "open_line_above a = do {
     bol \<leftarrow> beginning_of_current_line a;
     a1 \<leftarrow> insert_str_at bol [NL] a;
     Some (to_insert (set_cursor bol a1))
   }"

definition substitute_char :: "text_api \<Rightarrow> text_area \<Rightarrow> text_area option" where
  "substitute_char api a = do {
     eol \<leftarrow> end_of_current_line a;
     a1 \<leftarrow> (if ta_cursor_pos a < eol then delete_forward_kill api 1 a else Some a);
     Some (to_insert a1)
   }"

definition perform_vim_action :: "text_api \<Rightarrow> vim_action \<Rightarrow> text_area \<Rightarrow> text_area option" where
  "perform_vim_action api action a =
     (case action of
        NEnterInsert \<Rightarrow> Some (to_insert a)
      | NAppendAfterCursor \<Rightarrow> Some (to_insert (set_cursor (next_atomic_boundary api a (ta_cursor_pos a)) a))
      | NAppendLineEnd \<Rightarrow> do { p \<leftarrow> end_of_current_line a; Some (to_insert (set_cursor p a)) }
      | NInsertLineStart \<Rightarrow> do { p \<leftarrow> first_non_blank_of_current_line a; Some (to_insert (set_cursor p a)) }
      | NOpenLineBelow \<Rightarrow> open_line_below a
      | NOpenLineAbove \<Rightarrow> open_line_above a
      | NLeft \<Rightarrow> Some (move_cursor_left api a)
      | NRight \<Rightarrow> Some (move_cursor_right api a)
      | NDown \<Rightarrow> move_cursor_down api a
      | NUp \<Rightarrow> move_cursor_up api a
      | NWordForward \<Rightarrow> do { p \<leftarrow> beginning_of_next_word api a; Some (set_cursor p a) }
      | NWordBackward \<Rightarrow> do { p \<leftarrow> beginning_of_previous_word api a; Some (set_cursor p a) }
      | NWordEnd \<Rightarrow> do { p \<leftarrow> vim_word_end_cursor api a; Some (set_cursor p a) }
      | NLineStart \<Rightarrow> do { p \<leftarrow> beginning_of_current_line a; Some (set_cursor p a) }
      | NLineEnd \<Rightarrow> do { p \<leftarrow> vim_line_end_cursor api a; Some (set_cursor p a) }
      | NDeleteChar \<Rightarrow> delete_forward_kill api 1 a
      | NSubstituteChar \<Rightarrow> substitute_char api a
      | NDeleteToLineEnd \<Rightarrow> vim_kill_to_end_of_line a
      | NChangeToLineEnd \<Rightarrow> do { a1 \<leftarrow> vim_kill_to_end_of_line a; Some (to_insert a1) }
      | NYankLine \<Rightarrow> yank_current_line a
      | NPasteAfter \<Rightarrow> paste_after_cursor api a
      | NStartDelete \<Rightarrow> Some (a\<lparr>ta_vim_pending := PendingOperator VimDelete\<rparr>)
      | NStartYank \<Rightarrow> Some (a\<lparr>ta_vim_pending := PendingOperator VimYank\<rparr>)
      | NStartChange \<Rightarrow> Some (a\<lparr>ta_vim_pending := PendingOperator VimChange\<rparr>)
      | NCancel \<Rightarrow> Some (a\<lparr>ta_vim_pending := NoPending\<rparr>))"

definition handle_vim_normal :: "text_api \<Rightarrow> key_event \<Rightarrow> text_area \<Rightarrow> text_area option" where
  "handle_vim_normal api ev a =
     (let a0 = a\<lparr>ta_vim_pending := NoPending\<rparr>
      in case ta_vim_pending a of
        PendingOperator op \<Rightarrow> map_option fst (handle_vim_operator api op ev a0)
      | PendingTextObject op scope \<Rightarrow> map_option fst (handle_vim_text_object api op scope ev a0)
      | NoPending \<Rightarrow>
          (case vim_action_for_event (ta_vim_normal_keymap a0) ev of
             None \<Rightarrow> Some a0
           | Some action \<Rightarrow> perform_vim_action api action a0))"

definition handle_vim_input :: "text_api \<Rightarrow> key_event \<Rightarrow> text_area \<Rightarrow> text_area option" where
  "handle_vim_input api ev a =
     (case ta_vim_mode a of VimInsert \<Rightarrow> handle_vim_insert api ev a | VimNormal \<Rightarrow> handle_vim_normal api ev a)"

definition input :: "text_api \<Rightarrow> key_event \<Rightarrow> text_area \<Rightarrow> text_area option" where
  "input api ev a =
     (if event_kind ev \<notin> {KeyPress, KeyRepeat} then Some a
      else if ta_vim_enabled a then handle_vim_input api ev a
      else input_with_keymap api ev (ta_editor_keymap a) a)"

end
