(* ===== verification/Text_Inv.thy ===== *)
theory Text_Inv
  imports Text_Vim
begin

text \<open>
  The invariant of the text area and what every key keeps of it: the text and the kill buffer are valid
  UTF-8, the cursor and the ends of all elements lie on character boundaries, elements do not overlap
  and are in order, and cached lines fit the text. Edits treat elements as a whole: one that is still
  there has the text it had.
\<close>

section \<open>The invariant\<close>

definition elem_ok :: "rstr \<Rightarrow> text_elem \<Rightarrow> bool" where
  "elem_ok s e \<longleftrightarrow> te_start e \<le> te_end e \<and> is_char_boundary s (te_start e) \<and> is_char_boundary s (te_end e)"

definition apart :: "text_elem \<Rightarrow> text_elem \<Rightarrow> bool" where
  "apart e f \<longleftrightarrow> te_end e \<le> te_start f \<or> te_end f \<le> te_start e"

definition elems_ok :: "rstr \<Rightarrow> text_elem list \<Rightarrow> bool" where
  "elems_ok s es \<longleftrightarrow> (\<forall>e \<in> set es. elem_ok s e) \<and> (\<forall>e \<in> set es. \<forall>f \<in> set es. e \<noteq> f \<longrightarrow> apart e f) \<and> sorted (map te_start es)"

definition area_ok :: "text_area \<Rightarrow> bool" where
  "area_ok a \<longleftrightarrow> valid_utf8 (ta_text a) \<and> valid_utf8 (ta_kill_buffer a) \<and> is_char_boundary (ta_text a) (ta_cursor_pos a) \<and>
     elems_ok (ta_text a) (ta_elements a) \<and>
     (\<forall>c. ta_wrap_cache a = Some c \<longrightarrow> lines_ok (ta_text a) (wc_lines c))"

text \<open>A position outside all elements, or at their ends.\<close>

definition outside :: "text_elem list \<Rightarrow> nat \<Rightarrow> bool" where
  "outside es p \<longleftrightarrow> (\<forall>e \<in> set es. \<not> (te_start e < p \<and> p < te_end e))"

definition payload :: "text_area \<Rightarrow> text_elem \<Rightarrow> rstr" where
  "payload a e = take (te_end e - te_start e) (drop (te_start e) (ta_text a))"

text \<open>Every element of \<open>b\<close> was in \<open>a\<close>, with the same text.\<close>

definition kept :: "text_area \<Rightarrow> text_area \<Rightarrow> bool" where
  "kept a b \<longleftrightarrow> (\<forall>e \<in> set (ta_elements b). \<exists>e0 \<in> set (ta_elements a). te_id e = te_id e0 \<and> payload b e = payload a e0)"

definition single_line :: "text_area \<Rightarrow> bool" where
  "single_line a \<longleftrightarrow> (\<forall>e \<in> set (ta_elements a). NL \<notin> set (payload a e))"

definition cursor_free :: "text_area \<Rightarrow> bool" where
  "cursor_free a \<longleftrightarrow> outside (ta_elements a) (ta_cursor_pos a)"

text \<open>What an operation from \<open>a\<close> to \<open>b\<close> keeps.\<close>

definition keeps :: "text_area \<Rightarrow> text_area \<Rightarrow> bool" where
  "keeps a b \<longleftrightarrow> area_ok b \<and> kept a b \<and> (cursor_free a \<and> single_line a \<longrightarrow> cursor_free b)"

lemma kept_refl [simp]: "kept a a"
  by (auto simp: kept_def)

lemma kept_trans: "kept a b \<Longrightarrow> kept b c \<Longrightarrow> kept a c"
  unfolding kept_def by metis

lemma kept_single_line: "kept a b \<Longrightarrow> single_line a \<Longrightarrow> single_line b"
  unfolding kept_def single_line_def by metis

lemma keeps_refl [simp]: "area_ok a \<Longrightarrow> keeps a a"
  by (simp add: keeps_def)

lemma keeps_trans: "keeps a b \<Longrightarrow> keeps b c \<Longrightarrow> keeps a c"
  unfolding keeps_def using kept_trans kept_single_line by blast

lemma area_okD:
  assumes "area_ok a"
  shows "valid_utf8 (ta_text a)" and "valid_utf8 (ta_kill_buffer a)" and "is_char_boundary (ta_text a) (ta_cursor_pos a)"
    and "elems_ok (ta_text a) (ta_elements a)" and "ta_cursor_pos a \<le> length (ta_text a)"
    and "ta_wrap_cache a = Some c \<Longrightarrow> lines_ok (ta_text a) (wc_lines c)"
  using assms boundary_le by (auto simp: area_ok_def)

lemma elems_okD:
  assumes "elems_ok s es"
  shows "e \<in> set es \<Longrightarrow> te_start e \<le> te_end e" and "e \<in> set es \<Longrightarrow> is_char_boundary s (te_start e)"
    and "e \<in> set es \<Longrightarrow> is_char_boundary s (te_end e)" and "e \<in> set es \<Longrightarrow> te_end e \<le> length s"
    and "e \<in> set es \<Longrightarrow> f \<in> set es \<Longrightarrow> e \<noteq> f \<Longrightarrow> te_end e \<le> te_start f \<or> te_end f \<le> te_start e"
    and "sorted (map te_start es)"
  using assms boundary_le by (auto simp: elems_ok_def elem_ok_def apart_def)

section \<open>Clamping\<close>

lemma boundary_below_ok: "is_char_boundary s (boundary_below s n)" "boundary_below s n \<le> n"
  by (induction s n rule: boundary_below.induct) auto

lemma boundary_above_ok: "n \<le> length s \<Longrightarrow> is_char_boundary s (boundary_above s n) \<and> n \<le> boundary_above s n"
proof (induction s n rule: boundary_above.induct)
  case (1 s n)
  show ?case
  proof (cases "n < length s \<and> \<not> is_char_boundary s n")
    case True
    then show ?thesis using 1 by (subst (1 2) boundary_above.simps) simp
  next
    case False
    then have "is_char_boundary s n" using 1 by auto
    then show ?thesis using False by (subst (1 2) boundary_above.simps) simp
  qed
qed

lemma clamp_char_boundary [simp]: "is_char_boundary (ta_text a) (clamp_pos_to_char_boundary a p)"
  using boundary_below_ok(1) [of "ta_text a"] boundary_above_ok [of "min p (length (ta_text a))" "ta_text a"]
  by (simp add: clamp_pos_to_char_boundary_def Let_def)

lemma clamp_char_id [simp]: "is_char_boundary (ta_text a) p \<Longrightarrow> clamp_pos_to_char_boundary a p = p"
  using boundary_le by (fastforce simp: clamp_pos_to_char_boundary_def Let_def min_def)

lemma clamp_for_insertion_eq [simp]: "clamp_pos_for_insertion a p = clamp_pos_to_nearest_boundary a p"
  by (simp add: clamp_pos_for_insertion_def clamp_pos_to_nearest_boundary_def)

lemma elem_edges_outside:
  assumes "elems_ok s es" and "e \<in> set es"
  shows "te_start e < te_end e \<Longrightarrow> outside es (te_start e)" and "te_start e < te_end e \<Longrightarrow> outside es (te_end e)"
  unfolding outside_def using elems_okD(5) [OF assms(1,2)] by (metis less_le_not_le order.strict_trans2 order.strict_trans1 order.irrefl)+

lemma find_containing:
  "find_element_containing a p = Some e \<Longrightarrow> e \<in> set (ta_elements a) \<and> te_start e < p \<and> p < te_end e"
  "find_element_containing a p = None \<longleftrightarrow> outside (ta_elements a) p"
  by (auto simp: find_element_containing_def outside_def find_None_iff_all dest: find_SomeD)

lemma clamp_nearest:
  assumes "elems_ok (ta_text a) (ta_elements a)"
  shows "is_char_boundary (ta_text a) (clamp_pos_to_nearest_boundary a p)"
    and "outside (ta_elements a) (clamp_pos_to_nearest_boundary a p)"
proof -
  let ?q = "clamp_pos_to_char_boundary a p"
  show "is_char_boundary (ta_text a) (clamp_pos_to_nearest_boundary a p)"
    by (auto simp: clamp_pos_to_nearest_boundary_def Let_def split: option.splits)
  show "outside (ta_elements a) (clamp_pos_to_nearest_boundary a p)"
  proof (cases "find_element_containing a ?q")
    case None
    then have "outside (ta_elements a) ?q" using find_containing(2) by blast
    then show ?thesis using None by (simp add: clamp_pos_to_nearest_boundary_def)
  next
    case (Some e)
    then have e: "e \<in> set (ta_elements a)" "te_start e < te_end e" using find_containing(1) by fastforce+
    then show ?thesis
      using Some elems_okD(2,3) [OF assms e(1)] elem_edges_outside [OF assms e(1)]
      by (simp add: clamp_pos_to_nearest_boundary_def Let_def)
  qed
qed

lemma clamp_nearest_id:
  "is_char_boundary (ta_text a) p \<Longrightarrow> outside (ta_elements a) p \<Longrightarrow> clamp_pos_to_nearest_boundary a p = p"
  using find_containing(2) [of a p] by (simp add: clamp_pos_to_nearest_boundary_def split: option.splits)

lemma set_cursor_keeps [no_panic]:
  assumes "area_ok a"
  shows "keeps a (set_cursor p a)"
  using assms clamp_nearest [OF area_okD(4) [OF assms]]
  by (auto simp: keeps_def area_ok_def set_cursor_def kept_def payload_def cursor_free_def)

lemma move_keeps:
  assumes "area_ok a" and "is_char_boundary (ta_text a) p" and "cursor_free a \<and> single_line a \<longrightarrow> outside (ta_elements a) p"
  shows "keeps a (a\<lparr>ta_cursor_pos := p\<rparr>)" and "keeps a (a\<lparr>ta_cursor_pos := p, ta_preferred_col := col\<rparr>)"
  using assms by (auto simp: keeps_def area_ok_def kept_def payload_def cursor_free_def single_line_def)

section \<open>Ranges\<close>

text \<open>No element reaches into the range and out of it.\<close>

definition clear_range :: "text_elem list \<Rightarrow> nat \<Rightarrow> nat \<Rightarrow> bool" where
  "clear_range es s t \<longleftrightarrow> (\<forall>e \<in> set es. te_end e \<le> s \<or> t \<le> te_start e \<or> s \<le> te_start e \<and> te_end e \<le> t)"

lemma expand_fold_flag: "snd (fold expand_step es (r, True))"
  by (induction es arbitrary: r) (auto simp: expand_step_def split_beta)

lemma expand_pass_unchanged:
  assumes "fold expand_step es (r, False) = (r', False)"
  shows "r' = r \<and> (\<forall>e \<in> set es. expand_step e (r, False) = (r, False))"
  using assms
proof (induction es arbitrary: r)
  case (Cons e es)
  obtain r1 c1 where s: "expand_step e (r, False) = (r1, c1)" by fastforce
  have "\<not> c1" using Cons.prems s expand_fold_flag [of es r1] by (cases c1) auto
  then have "r1 = r" "c1 = False" using s by (auto simp: expand_step_def split: prod.splits if_splits)
  then show ?case using Cons s by auto
qed simp

lemma expand_fold_inv:
  assumes "fold expand_step es (r, c) = (r', c')" and "\<forall>e \<in> set es. P (te_start e) \<and> Q (te_end e)" and "P (fst r)" and "Q (snd r)"
  shows "P (fst r') \<and> Q (snd r') \<and> fst r' \<le> fst r \<and> snd r \<le> snd r'"
  using assms
proof (induction es arbitrary: r c)
  case (Cons e es)
  obtain r1 c1 where s: "expand_step e (r, c) = (r1, c1)" by fastforce
  have "P (fst r1) \<and> Q (snd r1) \<and> fst r1 \<le> fst r \<and> snd r \<le> snd r1"
    using s Cons.prems by (auto simp: expand_step_def min_def max_def split: prod.splits if_splits)
  then show ?case using Cons.IH [of r1 c1] Cons.prems s by auto
qed auto

lemma expand_loop_inv:
  assumes "\<forall>e \<in> set es. P (te_start e) \<and> Q (te_end e)" and "P (fst r)" and "Q (snd r)"
  shows "P (fst (expand_loop es r)) \<and> Q (snd (expand_loop es r)) \<and> fst (expand_loop es r) \<le> fst r \<and> snd r \<le> snd (expand_loop es r)"
  using assms
proof (induction es r rule: expand_loop.induct)
  case (1 es r)
  obtain r' c where p: "expand_pass es r = (r', c)" by fastforce
  have inv: "P (fst r') \<and> Q (snd r') \<and> fst r' \<le> fst r \<and> snd r \<le> snd r'"
    using expand_fold_inv [of es r False r' c P Q] p 1 by (simp add: expand_pass_def)
  show ?case
  proof (cases c)
    case True
    then have "expand_loop es r = expand_loop es r'" using p by (subst expand_loop.simps) simp
    then show ?thesis using 1(1) [OF p [symmetric] True] inv 1 by auto
  next
    case False
    then have "expand_loop es r = r'" using p by (subst expand_loop.simps) simp
    then show ?thesis using inv by simp
  qed
qed

lemma expand_loop_clear: "clear_range es (fst (expand_loop es r)) (snd (expand_loop es r))"
proof (induction es r rule: expand_loop.induct)
  case (1 es r)
  obtain r' c where p: "expand_pass es r = (r', c)" by fastforce
  show ?case
  proof (cases c)
    case True
    then have "expand_loop es r = expand_loop es r'" using p by (subst expand_loop.simps) simp
    then show ?thesis using 1(1) [OF p [symmetric] True] by simp
  next
    case False
    then have l: "expand_loop es r = r'" using p by (subst expand_loop.simps) simp
    have "r' = r \<and> (\<forall>e \<in> set es. expand_step e (r, False) = (r, False))"
      using expand_pass_unchanged [of es r r'] p False by (simp add: expand_pass_def)
    moreover obtain u v where "r = (u, v)" by fastforce
    ultimately have "\<forall>e \<in> set es. te_end e \<le> fst r' \<or> snd r' \<le> te_start e \<or> fst r' \<le> te_start e \<and> te_end e \<le> snd r'"
      by (fastforce simp: expand_step_def not_less min_def max_def split: if_splits)
    then show ?thesis unfolding l clear_range_def .
  qed
qed

lemma expand_range:
  assumes "area_ok a" and "is_char_boundary (ta_text a) (fst r)" and "is_char_boundary (ta_text a) (snd r)"
    and "expand_range_to_element_boundaries a r = (s, t)"
  shows "is_char_boundary (ta_text a) s" and "is_char_boundary (ta_text a) t" and "s \<le> fst r" and "snd r \<le> t"
    and "clear_range (ta_elements a) s t"
  using expand_loop_inv [of "ta_elements a" "is_char_boundary (ta_text a)" "is_char_boundary (ta_text a)" r]
    expand_loop_clear [of "ta_elements a" r] assms elems_okD(2,3) [OF area_okD(4) [OF assms(1)]]
  by (auto simp: expand_range_to_element_boundaries_def)

section \<open>Edits\<close>

lemma shifted: "s \<le> t \<Longrightarrow> t \<le> x \<Longrightarrow> nat (int x + (int n - int (t - s))) = s + n + (x - t)"
  by simp

text \<open>An element that is still there after an edit lay before or after the replaced part.\<close>

lemma in_shift_elements:
  assumes "s \<le> t" and "clear_range es s t" and "\<forall>e \<in> set es. te_start e \<le> te_end e"
    and "e \<in> set (shift_elements s (t - s) n es)"
  obtains (before) "e \<in> set es" "te_end e \<le> s" "te_start e \<le> te_end e" "te_start e < s \<or> t < te_end e"
  | (behind) e0 where "e0 \<in> set es" "t \<le> te_start e0" "te_start e0 \<le> te_end e0" "s < te_end e0"
      "e = e0\<lparr>te_start := s + n + (te_start e0 - t), te_end := s + n + (te_end e0 - t)\<rparr>"
proof -
  obtain e0 where e0: "e0 \<in> set es" "\<not> (s \<le> te_start e0 \<and> te_end e0 \<le> s + (t - s))"
    "e = shift_element s (t - s) n e0"
    using assms(4) by (auto simp: shift_elements_def)
  have "te_end e0 \<le> s \<or> t \<le> te_start e0" using assms(1,2) e0 by (auto simp: clear_range_def)
  then show thesis
  proof (cases "te_end e0 \<le> s")
    case True
    then have "e = e0" using e0 by (simp add: shift_element_def)
    then show thesis using before True e0 assms by auto
  next
    case False
    then have t: "t \<le> te_start e0" using \<open>te_end e0 \<le> s \<or> t \<le> te_start e0\<close> by simp
    moreover have "te_start e0 \<le> te_end e0" using assms(3) e0(1) by blast
    ultimately have "e = e0\<lparr>te_start := s + n + (te_start e0 - t), te_end := s + n + (te_end e0 - t)\<rparr>"
      using False e0(3) assms(1) shifted [OF assms(1), of "te_start e0" n] shifted [OF assms(1), of "te_end e0" n]
      by (simp add: shift_element_def Let_def)
    then show thesis using behind [of e0] t False e0(1) assms(3) by auto
  qed
qed

lemma take_before_edit: "y \<le> s \<Longrightarrow> s \<le> length txt \<Longrightarrow>
    take (y - x) (drop x (take s txt @ ins @ drop t txt)) = take (y - x) (drop x txt)"
  by (cases "x \<le> y") (simp_all add: drop_take min_def)

lemma drop_behind_edit: "s \<le> length txt \<Longrightarrow> t \<le> x \<Longrightarrow>
    drop (s + length ins + (x - t)) (take s txt @ ins @ drop t txt) = drop x txt"
  by simp

text \<open>
  Elements of an edited text: unchanged ones before the edit, moved ones behind it, and one on the new
  part itself.
\<close>

definition moved :: "nat \<Rightarrow> nat \<Rightarrow> nat \<Rightarrow> text_elem \<Rightarrow> text_elem" where
  "moved s t n e = e\<lparr>te_start := s + n + (te_start e - t), te_end := s + n + (te_end e - t)\<rparr>"

definition edit_part :: "nat \<Rightarrow> nat \<Rightarrow> nat \<Rightarrow> text_elem list \<Rightarrow> text_elem option \<Rightarrow> text_elem \<Rightarrow> bool" where
  "edit_part s t n es mid e \<longleftrightarrow> e \<in> set es \<and> te_end e \<le> s \<or> (\<exists>e0 \<in> set es. t \<le> te_start e0 \<and> e = moved s t n e0) \<or> mid = Some e"

lemma moved_simps [simp]:
  "te_start (moved s t n e) = s + n + (te_start e - t)" "te_end (moved s t n e) = s + n + (te_end e - t)" "te_id (moved s t n e) = te_id e"
  by (simp_all add: moved_def)

lemma edit_parts:
  assumes "valid_utf8 txt" and "valid_utf8 ins" and "is_char_boundary txt s" and "is_char_boundary txt t" and "s \<le> t"
    and "elems_ok txt es" and mid: "\<And>m. mid = Some m \<Longrightarrow> te_start m = s \<and> te_end m = s + length ins"
  shows "edit_part s t (length ins) es mid e \<Longrightarrow> elem_ok (take s txt @ ins @ drop t txt) e"
    and "edit_part s t (length ins) es mid e \<Longrightarrow> edit_part s t (length ins) es mid f \<Longrightarrow> e \<noteq> f \<Longrightarrow> apart e f"
proof -
  have e: "te_start e0 \<le> te_end e0" "is_char_boundary txt (te_start e0)" "is_char_boundary txt (te_end e0)" if "e0 \<in> set es" for e0
    using that elems_okD(1-3) [OF assms(6)] by auto
  show "elem_ok (take s txt @ ins @ drop t txt) e" if "edit_part s t (length ins) es mid e"
    using that unfolding edit_part_def
  proof (elim disjE conjE bexE)
    assume "e \<in> set es" "te_end e \<le> s"
    then show ?thesis using e [of e] boundary_before_edit [OF assms(1-4)] by (simp add: elem_ok_def)
  next
    fix e0 assume "e0 \<in> set es" "t \<le> te_start e0" "e = moved s t (length ins) e0"
    then show ?thesis using e [of e0] boundary_after_edit [OF assms(1-4)] by (simp add: elem_ok_def)
  next
    assume "mid = Some e"
    then show ?thesis
      using mid boundary_before_edit [OF assms(1-4) assms(3)] boundary_after_insert [OF assms(1-4)] by (simp add: elem_ok_def)
  qed
  assume parts: "edit_part s t (length ins) es mid e" "edit_part s t (length ins) es mid f" "e \<noteq> f"
  have far: "apart e0 f0" "apart (moved s t n e0) (moved s t n f0)" if "e0 \<in> set es" "f0 \<in> set es" "e0 \<noteq> f0" for e0 f0 n
    using elems_okD(5) [OF assms(6) that] by (auto simp: apart_def diff_le_mono)
  have sides: "apart x y" "apart y x" if "te_end x \<le> s \<or> mid = Some x" "s + length ins \<le> te_start y \<or> te_end x \<le> s \<and> mid = Some y" for x y
    using that mid [of x] mid [of y] by (auto simp: apart_def)
  from parts(1,2) [unfolded edit_part_def] show "apart e f"
  proof (elim disjE conjE bexE)
    assume "e \<in> set es" "f \<in> set es"
    then show ?thesis using far(1) parts(3) by blast
  next
    fix e0 f0 assume "e0 \<in> set es" "e = moved s t (length ins) e0" "f0 \<in> set es" "f = moved s t (length ins) f0"
    then show ?thesis using far(2) [of e0 f0] parts(3) by metis
  next
    assume "mid = Some e" "mid = Some f"
    then show ?thesis using parts(3) by simp
  qed (auto intro: sides)
qed

lemma elems_ok_edit:
  assumes "valid_utf8 txt" and "valid_utf8 ins" and "is_char_boundary txt s" and "is_char_boundary txt t" and "s \<le> t"
    and "elems_ok txt es" and "clear_range es s t"
  shows "elems_ok (take s txt @ ins @ drop t txt) (shift_elements s (t - s) (length ins) es)"
proof -
  let ?txt = "take s txt @ ins @ drop t txt" and ?es = "shift_elements s (t - s) (length ins) es"
  have le: "\<forall>e \<in> set es. te_start e \<le> te_end e" using elems_okD(1) [OF assms(6)] by blast
  note cases = in_shift_elements [OF assms(5,7) le, consumes 1, case_names before behind]
  have part: "edit_part s t (length ins) es None e" if "e \<in> set ?es" for e
    using that
  proof (cases rule: cases)
    case (behind e0)
    then show ?thesis by (auto simp: edit_part_def moved_def)
  qed (simp add: edit_part_def)
  note ok = edit_parts(1) [OF assms(1-6) _ part] and far = edit_parts(2) [OF assms(1-6) _ part part]
  have mono: "te_start (shift_element s (t - s) n e) \<le> te_start (shift_element s (t - s) n f)"
    if "e \<in> set es" "f \<in> set es" "te_start e \<le> te_start f"
      "\<not> (te_start e \<ge> s \<and> te_end e \<le> t)" "\<not> (te_start f \<ge> s \<and> te_end f \<le> t)" for e f n
  proof -
    have "te_end e \<le> s \<or> t \<le> te_start e" "te_end f \<le> s \<or> t \<le> te_start f"
      using that assms(7) by (auto simp: clear_range_def)
    then show ?thesis
      using that assms(5) le shifted [OF assms(5), of "te_start e" n] shifted [OF assms(5), of "te_start f" n]
      by (auto simp: shift_element_def Let_def)
  qed
  have "sorted (map te_start ?es)"
    using elems_okD(6) [OF assms(6)] mono assms(5)
    by (auto simp: shift_elements_def sorted_map sorted_wrt_map intro!: sorted_wrt_filter [THEN sorted_wrt_mono_rel [rotated]])
  then show ?thesis using ok far by (simp add: elems_ok_def)
qed

lemma payload_edit:
  assumes "is_char_boundary (ta_text a) s" and "is_char_boundary (ta_text a) t" and "s \<le> t"
    and "elems_ok (ta_text a) (ta_elements a)" and "clear_range (ta_elements a) s t"
    and "ta_text b = take s (ta_text a) @ ins @ drop t (ta_text a)"
    and "ta_elements b = shift_elements s (t - s) (length ins) (ta_elements a)"
  shows "kept a b"
  unfolding kept_def
proof
  fix e assume "e \<in> set (ta_elements b)"
  then have e: "e \<in> set (shift_elements s (t - s) (length ins) (ta_elements a))" using assms(7) by simp
  have le: "\<forall>e \<in> set (ta_elements a). te_start e \<le> te_end e" using elems_okD(1) [OF assms(4)] by blast
  have s: "s \<le> length (ta_text a)" using boundary_le [OF assms(1)] .
  from e show "\<exists>e0 \<in> set (ta_elements a). te_id e = te_id e0 \<and> payload b e = payload a e0"
  proof (cases rule: in_shift_elements [OF assms(3,5) le, consumes 1, case_names before behind])
    case before
    then show ?thesis using s by (intro bexI [of _ e]) (simp_all add: payload_def assms(6) take_before_edit del: drop_append take_append)
  next
    case (behind e0)
    then show ?thesis
      using s by (intro bexI [of _ e0]) (simp_all add: payload_def assms(6) drop_behind_edit)
  qed
qed

lemma clear_at: "elems_ok s es \<Longrightarrow> outside es p \<Longrightarrow> clear_range es p p"
  unfolding clear_range_def outside_def using elems_okD(1) by (metis not_less)

lemma insert_keeps [no_panic]:
  assumes "area_ok a" and "valid_utf8 txt"
  shows "returns (insert_str_at p txt a) (keeps a)"
proof -
  let ?pos = "clamp_pos_to_nearest_boundary a p" and ?s = "ta_text a" and ?c = "ta_cursor_pos a"
  note ok = area_okD [OF assms(1)]
  have pos: "is_char_boundary ?s ?pos" "outside (ta_elements a) ?pos" using clamp_nearest [OF ok(4)] by auto
  have clear: "clear_range (ta_elements a) ?pos ?pos" using clear_at [OF ok(4) pos(2)] .
  define b where "b = a\<lparr>ta_text := take ?pos ?s @ txt @ drop ?pos ?s, ta_wrap_cache := None,
    ta_cursor_pos := if ?pos \<le> ?c then ?c + length txt else ?c,
    ta_elements := shift_elements ?pos 0 (length txt) (ta_elements a), ta_preferred_col := None\<rparr>"
  have run: "insert_str_at p txt a = Some b" using pos(1) by (simp add: insert_str_at_def str_insert_def b_def Let_def)
  have es: "elems_ok (ta_text b) (ta_elements b)"
    using elems_ok_edit [OF ok(1) assms(2) pos(1,1) _ ok(4) clear] by (simp add: b_def)
  have "is_char_boundary (ta_text b) (ta_cursor_pos b)"
    using boundary_before_edit [OF ok(1) assms(2) pos(1,1) ok(3)] boundary_after_edit [OF ok(1) assms(2) pos(1,1) ok(3)]
    by (simp add: b_def add.commute)
  then have "area_ok b" using ok es replace_valid [OF ok(1) assms(2) pos(1,1)] by (simp add: area_ok_def b_def)
  moreover have "kept a b" by (rule payload_edit [OF pos(1,1) _ ok(4) clear]) (simp_all add: b_def)
  moreover have "cursor_free b" if "cursor_free a"
    unfolding cursor_free_def outside_def
  proof
    fix e assume "e \<in> set (ta_elements b)"
    then have e: "e \<in> set (shift_elements ?pos (?pos - ?pos) (length txt) (ta_elements a))" by (simp add: b_def)
    have le: "\<forall>e \<in> set (ta_elements a). te_start e \<le> te_end e" using elems_okD(1) [OF ok(4)] by blast
    from e show "\<not> (te_start e < ta_cursor_pos b \<and> ta_cursor_pos b < te_end e)"
    proof (cases rule: in_shift_elements [OF order_refl clear le, consumes 1, case_names before behind])
      case before
      then show ?thesis using that by (auto simp: b_def cursor_free_def outside_def)
    next
      case (behind e0)
      then show ?thesis using that by (auto simp: b_def cursor_free_def outside_def)
    qed
  qed
  ultimately show ?thesis by (simp add: run keeps_def)
qed

lemma insert_str_keeps [no_panic]: "area_ok a \<Longrightarrow> valid_utf8 txt \<Longrightarrow> returns (insert_str txt a) (keeps a)"
  by (simp add: insert_str_def insert_keeps)

lemma replace_raw_keeps [no_panic]:
  assumes "area_ok a" and "valid_utf8 txt" and "is_char_boundary (ta_text a) s" and "is_char_boundary (ta_text a) t"
    and "s \<le> t" and "clear_range (ta_elements a) s t"
  shows "returns (replace_range_raw (s, t) txt a) (\<lambda>b. keeps a b \<and> ta_text b = take s (ta_text a) @ txt @ drop t (ta_text a))"
proof (cases "t - s = 0 \<and> txt = []")
  case True
  then show ?thesis using assms boundary_le [OF assms(4)] by (simp add: replace_range_raw_def min_def)
next
  case False
  note ok = area_okD [OF assms(1)]
  have le: "s \<le> length (ta_text a)" "t \<le> length (ta_text a)" using boundary_le assms(3,4) by auto
  define a1 where "a1 = a\<lparr>ta_text := take s (ta_text a) @ txt @ drop t (ta_text a), ta_wrap_cache := None, ta_preferred_col := None,
    ta_elements := shift_elements s (t - s) (length txt) (ta_elements a)\<rparr>"
  define c where "c = min (cursor_after s t (length txt) (ta_cursor_pos a)) (length (ta_text a1))"
  have run: "replace_range_raw (s, t) txt a = Some (a1\<lparr>ta_cursor_pos := clamp_pos_to_nearest_boundary a1 c\<rparr>)"
    using False assms(3-5) le
    by (auto simp: replace_range_raw_def str_replace_def Let_def min_absorb1 a1_def c_def)
  have es: "elems_ok (ta_text a1) (ta_elements a1)"
    using elems_ok_edit [OF ok(1) assms(2-5) ok(4) assms(6)] by (simp add: a1_def)
  note near = clamp_nearest [OF es, of c]
  have "kept a (a1\<lparr>ta_cursor_pos := clamp_pos_to_nearest_boundary a1 c\<rparr>)"
    by (rule payload_edit [OF assms(3-5) ok(4) assms(6), of _ "txt"]) (simp_all add: a1_def)
  moreover have "area_ok (a1\<lparr>ta_cursor_pos := clamp_pos_to_nearest_boundary a1 c\<rparr>)"
    using ok es near replace_valid [OF ok(1) assms(2-4)] by (simp add: area_ok_def a1_def)
  ultimately show ?thesis using near by (simp add: run keeps_def cursor_free_def a1_def)
qed

lemma replace_keeps [no_panic]:
  assumes "area_ok a" and "valid_utf8 txt" and "is_char_boundary (ta_text a) s" and "is_char_boundary (ta_text a) t" and "s \<le> t"
  shows "returns (replace_range (s, t) txt a) (keeps a)"
proof -
  obtain s' t' where r: "expand_range_to_element_boundaries a (s, t) = (s', t')" by fastforce
  note ex = expand_range [OF assms(1) _ _ r, simplified, OF assms(3,4)]
  have "s' \<le> t'" using ex assms(5) by linarith
  then show ?thesis
    using replace_raw_keeps [OF assms(1,2) ex(1,2) _ ex(5)] by (simp add: replace_range_def r returns_conj)
qed

lemma store_simps [simp]:
  "ta_text (store_kill_buffer txt kind a) = ta_text a" "ta_elements (store_kill_buffer txt kind a) = ta_elements a"
  "ta_cursor_pos (store_kill_buffer txt kind a) = ta_cursor_pos a" "ta_kill_buffer (store_kill_buffer txt kind a) = txt"
  by (simp_all add: store_kill_buffer_def)

lemma keeps_ok: "keeps a b \<Longrightarrow> area_ok b"
  by (simp add: keeps_def)

lemma store_keeps: "area_ok a \<Longrightarrow> valid_utf8 txt \<Longrightarrow> keeps a (store_kill_buffer txt kind a)"
  by (auto simp: keeps_def area_ok_def store_kill_buffer_def kept_def payload_def cursor_free_def)

lemma kill_keeps [no_panic]:
  assumes "area_ok a" and "is_char_boundary (ta_text a) s" and "is_char_boundary (ta_text a) t"
  shows "returns (kill_range_with_kind (s, t) kind a) (keeps a)"
proof -
  obtain s' t' where r: "expand_range_to_element_boundaries a (s, t) = (s', t')" by fastforce
  note ex = expand_range [OF assms(1) _ _ r, simplified, OF assms(2,3)]
  show ?thesis
  proof (cases "s' < t'")
    case True
    let ?removed = "take (t' - s') (drop s' (ta_text a))"
    have valid: "valid_utf8 ?removed" using part_valid [OF area_okD(1) [OF assms(1)] ex(1,2)] True by simp
    note st = store_keeps [OF assms(1) valid, of kind]
    have "returns (replace_range_raw (s', t') [] (store_kill_buffer ?removed kind a)) (keeps (store_kill_buffer ?removed kind a))"
      using replace_raw_keeps [OF keeps_ok [OF st], of "[]" s' t'] ex True by (simp add: returns_conj)
    then have "returns (replace_range_raw (s', t') [] (store_kill_buffer ?removed kind a)) (keeps a)"
      using keeps_trans [OF st] by (rule returns_weaken)
    then show ?thesis
      using True ex(1,2) assms(1) by (simp add: kill_range_with_kind_def r Let_def str_get_returns)
  qed (use assms(1) in \<open>simp add: kill_range_with_kind_def r Let_def\<close>)
qed

lemma yank_range_keeps [no_panic]:
  assumes "area_ok a" and "is_char_boundary (ta_text a) s" and "is_char_boundary (ta_text a) t"
  shows "returns (yank_range_with_kind (s, t) kind a) (keeps a)"
proof -
  obtain s' t' where r: "expand_range_to_element_boundaries a (s, t) = (s', t')" by fastforce
  note ex = expand_range [OF assms(1) _ _ r, simplified, OF assms(2,3)]
  show ?thesis
    using store_keeps [OF assms(1) part_valid [OF area_okD(1) [OF assms(1)] ex(1,2)]] assms(1) ex(1,2)
    by (simp add: yank_range_with_kind_def r Let_def str_get_returns)
qed

lemmas kill_line_keeps [no_panic] =
  kill_keeps [where kind = Characterwise, folded kill_range_def] kill_keeps [where kind = Linewise, folded kill_line_range_def]
  yank_range_keeps [where kind = Characterwise, folded yank_range_def] yank_range_keeps [where kind = Linewise, folded yank_line_range_def]

end
