(* ===== verification/Text_Pos.thy ===== *)
theory Text_Pos
  imports Text_Inv
begin

text \<open>
  The positions the text area computes, lines, graphemes and words, are character boundaries, and
  computing them does not panic.
\<close>

section \<open>Lines\<close>

lemma newline_end:
  assumes "is_newline c" and "take (length c) (drop i s) = c"
  shows "length c = 1" and "i < length s" and "s ! i = NL"
proof -
  have c: "c = [NL]" using assms(1) by (simp add: is_newline_def)
  then have t: "take 1 (drop i s) = [NL]" using assms(2) by simp
  show "length c = 1" using c by simp
  show "i < length s" using t by (cases "i < length s") auto
  then show "s ! i = NL" using t by (simp add: take_Suc_conv_app_nth hd_drop_conv_nth take_Suc)
qed

lemma beginning_of_line_ok [no_panic]:
  assumes "area_ok a" and "is_char_boundary (ta_text a) p"
  shows "returns (beginning_of_line a p) (\<lambda>b. is_char_boundary (ta_text a) b \<and> b \<le> p \<and>
    (0 < b \<longrightarrow> is_char_boundary (ta_text a) (b - 1) \<and> ta_text a ! (b - 1) = NL))"
proof -
  note ok = area_okD [OF assms(1)]
  have part: "is_char_boundary (ta_text a) k \<and> k \<le> p" if "is_char_boundary (take p (ta_text a)) k" for k
    using part_boundary [OF ok(1) _ assms(2), of 0 k] that by simp
  have valid: "valid_utf8 (take p (ta_text a))" using boundary_valid(1) [OF ok(1) assms(2)] .
  show ?thesis
  proof (cases "rfind_char is_newline (take p (ta_text a))")
    case (Some x)
    obtain i c where x: "x = (i, c)" by fastforce
    note r = rfind_char_boundary [OF valid Some [unfolded x]]
    note nl = newline_end [OF r(3,5)]
    then show ?thesis
      using Some x r part assms(2) by (auto simp: beginning_of_line_def str_get_returns)
  qed (use assms(2) in \<open>simp add: beginning_of_line_def str_get_returns\<close>)
qed

lemma end_of_line_ok [no_panic]:
  assumes "area_ok a" and "is_char_boundary (ta_text a) p"
  shows "returns (end_of_line a p) (\<lambda>b. is_char_boundary (ta_text a) b \<and> p \<le> b \<and>
    (b < length (ta_text a) \<longrightarrow> is_char_boundary (ta_text a) (b + 1)))"
proof -
  let ?rest = "drop p (ta_text a)"
  note ok = area_okD [OF assms(1)]
  have p: "p \<le> length (ta_text a)" using assms(2) by (rule boundary_le)
  have valid: "valid_utf8 ?rest" using boundary_valid(2) [OF ok(1) assms(2)] .
  show ?thesis
  proof (cases "find_char is_newline ?rest")
    case (Some i)
    note r = find_char_boundary [OF valid Some]
    obtain c where "is_newline c" "is_char_boundary ?rest (i + length c)" using r(3) by blast
    then have "is_char_boundary ?rest (i + 1)" by (simp add: is_newline_def)
    then have "is_char_boundary (ta_text a) (p + i)" "is_char_boundary (ta_text a) (p + (i + 1))"
      using boundary_drop [OF ok(1) assms(2)] r(1) by blast+
    then show ?thesis using Some assms(2) p by (simp add: end_of_line_def str_get_returns add.commute)
  qed (use assms(2) p in \<open>simp add: end_of_line_def str_get_returns\<close>)
qed

lemma beginning_of_current_line_ok [no_panic]:
  "area_ok a \<Longrightarrow> returns (beginning_of_current_line a) (\<lambda>b. is_char_boundary (ta_text a) b \<and> b \<le> ta_cursor_pos a \<and>
    (0 < b \<longrightarrow> is_char_boundary (ta_text a) (b - 1) \<and> ta_text a ! (b - 1) = NL))"
  using beginning_of_line_ok [of a "ta_cursor_pos a"] area_okD(3) by (simp add: beginning_of_current_line_def)

lemma end_of_current_line_ok [no_panic]:
  "area_ok a \<Longrightarrow> returns (end_of_current_line a) (\<lambda>b. is_char_boundary (ta_text a) b \<and> ta_cursor_pos a \<le> b \<and>
    (b < length (ta_text a) \<longrightarrow> is_char_boundary (ta_text a) (b + 1)))"
  using end_of_line_ok [of a "ta_cursor_pos a"] area_okD(3) by (simp add: end_of_current_line_def)

lemma current_line_range_ok [no_panic]:
  assumes "area_ok a"
  shows "returns (current_line_range_with_newline a) (\<lambda>r. is_char_boundary (ta_text a) (fst r) \<and>
    is_char_boundary (ta_text a) (snd r) \<and> fst r \<le> snd r \<and> (0 < fst r \<longrightarrow> is_char_boundary (ta_text a) (fst r - 1)))"
  unfolding current_line_range_with_newline_def
  by (rule returns_then [OF beginning_of_current_line_ok [OF assms]], rule returns_then [OF end_of_current_line_ok [OF assms]])
    auto

section \<open>Graphemes and elements\<close>

lemma prev_atomic_ok:
  assumes "text_laws api" and "area_ok a" and "is_char_boundary (ta_text a) p"
  shows "is_char_boundary (ta_text a) (prev_atomic_boundary api a p)" and "prev_atomic_boundary api a p \<le> p"
    and "outside (ta_elements a) (prev_atomic_boundary api a p)"
proof -
  note ok = area_okD [OF assms(2)]
  obtain r where r: "api_prev_boundary api (ta_text a) p = Ok r" "\<forall>b. r = Some b \<longrightarrow> b < p \<and> is_char_boundary (ta_text a) b"
    using text_lawsD(4) [OF assms(1) ok(1) assms(3)] by blast
  have elem: "is_char_boundary (ta_text a) (te_start e) \<and> te_start e \<le> p \<and> outside (ta_elements a) (te_start e)"
    if "e \<in> set (ta_elements a)" "te_start e < q" "q \<le> te_end e" "q \<le> p" for e q
    using that elems_okD(2) [OF ok(4) that(1)] elem_edges_outside(1) [OF ok(4) that(1)] by auto
  have "is_char_boundary (ta_text a) (prev_atomic_boundary api a p) \<and> prev_atomic_boundary api a p \<le> p \<and>
    outside (ta_elements a) (prev_atomic_boundary api a p)"
  proof (cases "p = 0 \<or> List.find (\<lambda>e. te_start e < p \<and> p \<le> te_end e) (ta_elements a) \<noteq> None")
    case True
    then show ?thesis
    proof
      assume "List.find (\<lambda>e. te_start e < p \<and> p \<le> te_end e) (ta_elements a) \<noteq> None"
      then obtain e where e: "List.find (\<lambda>e. te_start e < p \<and> p \<le> te_end e) (ta_elements a) = Some e" by blast
      then show ?thesis using elem [of e p] find_SomeD [OF e] by (simp add: prev_atomic_boundary_def)
    qed (simp add: prev_atomic_boundary_def outside_def)
  next
    case False
    show ?thesis
    proof (cases r)
      case (Some b)
      show ?thesis
      proof (cases "find_element_containing a b")
        case None
        then show ?thesis
          using False r Some find_containing(2) [of a b] by (auto simp: prev_atomic_boundary_def)
      next
        case (Some e)
        then show ?thesis
          using False r \<open>r = Some b\<close> find_containing(1) [OF Some] elem [of e b] by (auto simp: prev_atomic_boundary_def)
      qed
    qed (use False r in \<open>auto simp: prev_atomic_boundary_def outside_def\<close>)
  qed
  then show "is_char_boundary (ta_text a) (prev_atomic_boundary api a p)" "prev_atomic_boundary api a p \<le> p"
    "outside (ta_elements a) (prev_atomic_boundary api a p)" by auto
qed

lemma next_atomic_ok:
  assumes "text_laws api" and "area_ok a" and "is_char_boundary (ta_text a) p"
  shows "is_char_boundary (ta_text a) (next_atomic_boundary api a p)" and "p \<le> next_atomic_boundary api a p"
    and "outside (ta_elements a) (next_atomic_boundary api a p)"
proof -
  note ok = area_okD [OF assms(2)]
  obtain r where r: "api_next_boundary api (ta_text a) p = Ok r" "\<forall>b. r = Some b \<longrightarrow> p < b \<and> is_char_boundary (ta_text a) b"
    using text_lawsD(5) [OF assms(1) ok(1) assms(3)] by blast
  have p: "p \<le> length (ta_text a)" using assms(3) by (rule boundary_le)
  have len: "outside (ta_elements a) (length (ta_text a))"
    using elems_okD(4) [OF ok(4)] by (fastforce simp: outside_def)
  have elem: "is_char_boundary (ta_text a) (te_end e) \<and> p \<le> te_end e \<and> outside (ta_elements a) (te_end e)"
    if "e \<in> set (ta_elements a)" "te_start e \<le> q" "q < te_end e" "p \<le> q" for e q
    using that elems_okD(3) [OF ok(4) that(1)] elem_edges_outside(2) [OF ok(4) that(1)] by auto
  have "is_char_boundary (ta_text a) (next_atomic_boundary api a p) \<and> p \<le> next_atomic_boundary api a p \<and>
    outside (ta_elements a) (next_atomic_boundary api a p)"
  proof (cases "p \<ge> length (ta_text a) \<or> List.find (\<lambda>e. te_start e \<le> p \<and> p < te_end e) (ta_elements a) \<noteq> None")
    case True
    then show ?thesis
    proof
      assume "List.find (\<lambda>e. te_start e \<le> p \<and> p < te_end e) (ta_elements a) \<noteq> None"
      then obtain e where e: "List.find (\<lambda>e. te_start e \<le> p \<and> p < te_end e) (ta_elements a) = Some e" by blast
      then show ?thesis using elem [of e p] find_SomeD [OF e] p len assms(3) by (auto simp: next_atomic_boundary_def)
    qed (use p len assms(3) in \<open>simp add: next_atomic_boundary_def\<close>)
  next
    case False
    show ?thesis
    proof (cases r)
      case (Some b)
      show ?thesis
      proof (cases "find_element_containing a b")
        case None
        then show ?thesis
          using False r Some find_containing(2) [of a b] by (auto simp: next_atomic_boundary_def)
      next
        case (Some e)
        then show ?thesis
          using False r \<open>r = Some b\<close> find_containing(1) [OF Some] elem [of e b] by (auto simp: next_atomic_boundary_def)
      qed
    qed (use False r p len in \<open>auto simp: next_atomic_boundary_def\<close>)
  qed
  then show "is_char_boundary (ta_text a) (next_atomic_boundary api a p)" "p \<le> next_atomic_boundary api a p"
    "outside (ta_elements a) (next_atomic_boundary api a p)" by auto
qed

lemma step_back_ok:
  assumes "text_laws api" and "area_ok a"
  shows "is_char_boundary (ta_text a) p \<Longrightarrow> is_char_boundary (ta_text a) (step_back api a n p) \<and> step_back api a n p \<le> p"
proof (induction n arbitrary: p)
  case (Suc n)
  let ?q = "prev_atomic_boundary api a p"
  note q = prev_atomic_ok [OF assms Suc.prems]
  have "step_back api a n ?q \<le> ?q" "is_char_boundary (ta_text a) (step_back api a n ?q)" using Suc.IH q by auto
  then show ?case using q(2) by (simp add: Let_def)
qed simp

lemma step_forward_ok:
  assumes "text_laws api" and "area_ok a"
  shows "is_char_boundary (ta_text a) p \<Longrightarrow> is_char_boundary (ta_text a) (step_forward api a n p) \<and> p \<le> step_forward api a n p"
proof (induction n arbitrary: p)
  case (Suc n)
  let ?q = "next_atomic_boundary api a p"
  note q = next_atomic_ok [OF assms Suc.prems]
  have "?q \<le> step_forward api a n ?q" "is_char_boundary (ta_text a) (step_forward api a n ?q)" using Suc.IH q by auto
  then show ?case using q by (simp add: Let_def)
qed simp

lemma adjust_ok:
  assumes "area_ok a" and "is_char_boundary (ta_text a) p"
  shows "is_char_boundary (ta_text a) (adjust_pos_out_of_elements a p b)"
  using assms find_containing(1) [of a p] elems_okD(2,3) [OF area_okD(4) [OF assms(1)]]
  by (auto simp: adjust_pos_out_of_elements_def split: option.splits)

section \<open>Words\<close>

lemma absorb_left_inv:
  "P start \<Longrightarrow> (\<And>i p. (i, p) \<in> set ps \<Longrightarrow> P (run_start + i)) \<Longrightarrow> P (absorb_left run_start start ps)"
  by (induction run_start start ps rule: absorb_left.induct) auto

lemma absorb_right_inv:
  "P stop \<Longrightarrow> (\<And>i p. (i, p) \<in> set ps \<Longrightarrow> P (run_start + i + length p)) \<Longrightarrow> P (absorb_right run_start stop ps)"
  by (induction run_start stop ps rule: absorb_right.induct) auto

text \<open>The pieces of a part of the text, as positions of the text.\<close>

lemma pieces_in_text:
  assumes "text_laws api" and "valid_utf8 s" and "is_char_boundary s x" and "is_char_boundary s y" and "x \<le> y"
    and "(i, p) \<in> set (split_word_pieces api (take (y - x) (drop x s)))"
  shows "is_char_boundary s (x + i)" and "is_char_boundary s (x + i + length p)"
proof -
  note b = split_word_pieces_boundary [OF assms(1) part_valid [OF assms(2-5)] assms(6)]
  show "is_char_boundary s (x + i)" "is_char_boundary s (x + i + length p)"
    using part_boundary(1) [OF assms(2-5) b(1)] part_boundary(1) [OF assms(2-5) b(2)] by (simp_all add: add.assoc)
qed

lemma beginning_of_previous_word_ok [no_panic]:
  assumes "text_laws api" and "area_ok a"
  shows "returns (beginning_of_previous_word api a) (is_char_boundary (ta_text a))"
proof -
  let ?s = "ta_text a"
  define before where "before = take (ta_cursor_pos a) ?s"
  note ok = area_okD [OF assms(2)]
  have get: "str_get ?s 0 (ta_cursor_pos a) = Some before" using ok(3) by (simp add: before_def str_get_returns)
  have valid: "valid_utf8 before" using boundary_valid(1) [OF ok(1,3)] by (simp add: before_def)
  have up: "is_char_boundary ?s k" if "is_char_boundary before k" for k using boundary_of_take [OF ok(1,3)] that by (simp add: before_def)
  show ?thesis
  proof (cases "rfind_char (\<lambda>c. \<not> is_white c) before")
    case None
    then show ?thesis by (simp add: beginning_of_previous_word_def get)
  next
    case (Some x)
    obtain f ch where x: "x = (f, ch)" by fastforce
    note r = rfind_char_boundary [OF valid Some [unfolded x]]
    define lead where "lead = take f before"
    have vlead: "valid_utf8 lead" using boundary_valid(1) [OF valid r(1)] by (simp add: lead_def)
    define rs where "rs = (case rfind_char is_white lead of None \<Rightarrow> 0 | Some (idx, ws) \<Rightarrow> idx + length ws)"
    have "is_char_boundary lead rs"
      using rfind_char_boundary(2) [OF vlead] by (auto simp: rs_def split: option.splits)
    then have rs: "is_char_boundary before rs" "rs \<le> f"
      using boundary_of_take [OF valid r(1)] boundary_le [of lead rs] by (auto simp: lead_def)
    define run where "run = take (f + length ch - rs) (drop rs before)"
    have piece: "is_char_boundary ?s (rs + i)" if "(i, p) \<in> set (split_word_pieces api run)" for i p
      using up pieces_in_text(1) [OF assms(1) valid rs(1) r(2) _ that [unfolded run_def]] rs(2) by simp
    have "is_char_boundary ?s (adjust_pos_out_of_elements a
        (if all_separators p then absorb_left rs (rs + i) ps else rs + i) True)"
      if "rev (split_word_pieces api run) = (i, p) # ps" for i p ps
    proof -
      have "set (split_word_pieces api run) = set ((i, p) # ps)" using that by (metis set_rev)
      then have "is_char_boundary ?s (rs + i)" "\<And>j q. (j, q) \<in> set ps \<Longrightarrow> is_char_boundary ?s (rs + j)"
        using piece by auto
      then show ?thesis using adjust_ok [OF assms(2)] absorb_left_inv [of "is_char_boundary ?s"] by simp
    qed
    moreover have "str_get before 0 f = Some lead" "str_get before rs (f + length ch) = Some run"
      using r(1,2) rs by (simp_all add: lead_def run_def str_get_returns)
    ultimately show ?thesis
      using Some x up [OF rs(1)]
      by (auto simp: beginning_of_previous_word_def get rs_def [symmetric] Let_def simp del: rev_eq_Cons_iff split: list.splits)
  qed
qed

lemma end_of_next_word_from_ok [no_panic]:
  assumes "text_laws api" and "area_ok a" and "is_char_boundary (ta_text a) c"
  shows "returns (end_of_next_word_from api a c) (is_char_boundary (ta_text a))"
proof -
  let ?s = "ta_text a"
  define after where "after = drop c ?s"
  note ok = area_okD [OF assms(2)]
  have get: "str_get ?s c (length ?s) = Some after"
    using assms(3) boundary_le by (simp add: after_def str_get_returns)
  have valid: "valid_utf8 after" using boundary_valid(2) [OF ok(1) assms(3)] by (simp add: after_def)
  show ?thesis
  proof (cases "find_char (\<lambda>ch. \<not> is_white ch) after")
    case None
    then show ?thesis by (simp add: end_of_next_word_from_def get)
  next
    case (Some f)
    note r = find_char_boundary(1) [OF valid Some]
    have f: "is_char_boundary ?s (c + f)" using boundary_drop [OF ok(1) assms(3)] r by (simp add: after_def)
    define rest where "rest = drop f after"
    have vrest: "valid_utf8 rest" using boundary_valid(2) [OF valid r] by (simp add: rest_def)
    define n where "n = (case find_char is_white rest of None \<Rightarrow> length rest | Some i \<Rightarrow> i)"
    have n: "is_char_boundary rest n"
      using find_char_boundary(1) [OF vrest] by (auto simp: n_def split: option.splits)
    have rest: "rest = drop (c + f) ?s" by (simp add: rest_def after_def add.commute)
    have stop: "is_char_boundary ?s (c + f + n)" using boundary_drop [OF ok(1) f] n rest by simp
    have run: "take n rest = take (c + f + n - (c + f)) (drop (c + f) ?s)" by (simp add: rest)
    have piece: "is_char_boundary ?s (c + f + i + length p)" if "(i, p) \<in> set (split_word_pieces api (take n rest))" for i p
      using pieces_in_text(2) [OF assms(1) ok(1) f stop _ that [unfolded run]] by simp
    have "is_char_boundary ?s (adjust_pos_out_of_elements a
        (if all_separators p then absorb_right (c + f) (c + f + i + length p) ps else c + f + i + length p) False)"
      if "split_word_pieces api (take n rest) = (i, p) # ps" for i p ps
      using piece that adjust_ok [OF assms(2)] absorb_right_inv [of "is_char_boundary ?s"] by simp
    moreover have "str_get after f (length after) = Some rest" "str_get rest 0 n = Some (take n rest)"
      using r n boundary_le [OF r] by (simp_all add: str_get_returns rest_def)
    ultimately show ?thesis
      using Some f by (auto simp: end_of_next_word_from_def get n_def [symmetric] Let_def split: list.splits)
  qed
qed

lemma end_of_next_word_ok [no_panic]:
  "text_laws api \<Longrightarrow> area_ok a \<Longrightarrow> returns (end_of_next_word api a) (is_char_boundary (ta_text a))"
  using end_of_next_word_from_ok area_okD(3) by (simp add: end_of_next_word_def)

lemma vim_word_end_exclusive_ok [no_panic]:
  assumes "text_laws api" and "area_ok a"
  shows "returns (vim_word_end_exclusive api a) (is_char_boundary (ta_text a))"
  unfolding vim_word_end_exclusive_def
  by (rule returns_then [OF end_of_next_word_ok [OF assms]]) (auto simp: Let_def end_of_next_word_from_ok [OF assms])

lemma vim_word_end_cursor_ok [no_panic]:
  assumes "text_laws api" and "area_ok a"
  shows "returns (vim_word_end_cursor api a) (is_char_boundary (ta_text a))"
  unfolding vim_word_end_cursor_def
  by (rule returns_then [OF vim_word_end_exclusive_ok [OF assms]]) (auto simp: prev_atomic_ok [OF assms])

lemma vim_line_end_cursor_ok [no_panic]:
  assumes "text_laws api" and "area_ok a"
  shows "returns (vim_line_end_cursor api a) (is_char_boundary (ta_text a))"
  unfolding vim_line_end_cursor_def
  by (rule returns_then [OF beginning_of_current_line_ok [OF assms(2)]], rule returns_then [OF end_of_current_line_ok [OF assms(2)]])
    (auto simp: prev_atomic_ok [OF assms] max_def)

lemma first_non_blank_ok [no_panic]:
  assumes "area_ok a"
  shows "returns (first_non_blank_of_current_line a) (\<lambda>p. True)"
  unfolding first_non_blank_of_current_line_def
  by (rule returns_then [OF beginning_of_current_line_ok [OF assms]], rule returns_then [OF end_of_current_line_ok [OF assms]])
    (auto simp: str_get_returns)

lemma beginning_of_next_word_ok [no_panic]:
  assumes "text_laws api" and "area_ok a"
  shows "returns (beginning_of_next_word api a) (\<lambda>p. True)"
proof -
  note ok = area_okD [OF assms(2)]
  have "returns (end_of_next_word api a \<bind> (\<lambda>stop. if stop \<ge> length (ta_text a) then Some (length (ta_text a))
      else str_get (ta_text a) stop (length (ta_text a)) \<bind> (\<lambda>rest. Some (f stop rest)))) (\<lambda>p. True)" for f
    by (rule returns_then [OF end_of_next_word_ok [OF assms]]) (auto simp: str_get_returns dest: boundary_le)
  then show ?thesis
    using ok(3,5) by (auto simp: beginning_of_next_word_def str_get_returns Let_def split: option.splits)
qed

end
