(* ===== verification/Text_Keys.thy ===== *)
theory Text_Keys
  imports Text_Pos
begin

text \<open>
  What a key does: no key press panics, and the invariant, the elements' texts and the cursor's place
  outside elements are kept. What is killed comes back on a yank, a saved draft is restored, and
  scrolling keeps the cursor on the screen.
\<close>

section \<open>Moving\<close>

lemma move_left_keeps [no_panic]:
  assumes "text_laws api" and "area_ok a"
  shows "keeps a (move_cursor_left api a)"
  using move_keeps(2) [OF assms(2)] prev_atomic_ok [OF assms area_okD(3) [OF assms(2)]] by (simp add: move_cursor_left_def)

lemma move_right_keeps [no_panic]:
  assumes "text_laws api" and "area_ok a"
  shows "keeps a (move_cursor_right api a)"
  using move_keeps(2) [OF assms(2)] next_atomic_ok [OF assms area_okD(3) [OF assms(2)]] by (simp add: move_cursor_right_def)

lemma col_keeps [simp]: "area_ok (a\<lparr>ta_preferred_col := c\<rparr>) = area_ok a"
  by (simp add: area_ok_def)

lemma keeps_col [simp]: "keeps (a\<lparr>ta_preferred_col := c\<rparr>) = keeps a"
  by (simp add: fun_eq_iff keeps_def kept_def payload_def cursor_free_def single_line_def)

lemma move_to_col_keeps [no_panic]:
  assumes "area_ok a" and "is_char_boundary (ta_text a) x" and "is_char_boundary (ta_text a) y" and "x \<le> y"
  shows "returns (move_to_display_col_on_line api x y col a) (keeps a)"
  using move_keeps(1) [OF assms(1)] clamp_nearest [OF area_okD(4) [OF assms(1)]] assms(2-4)
  by (auto simp: move_to_display_col_on_line_def str_get_returns Let_def)

lemma ends_outside:
  assumes "area_ok a"
  shows "outside (ta_elements a) 0" and "outside (ta_elements a) (length (ta_text a))"
  using elems_okD(4) [OF area_okD(4) [OF assms]] by (fastforce simp: outside_def)+

lemma to_ends_keeps:
  assumes "area_ok a"
  shows "keeps a (a\<lparr>ta_cursor_pos := 0, ta_preferred_col := c\<rparr>)"
    and "keeps a (a\<lparr>ta_cursor_pos := length (ta_text a), ta_preferred_col := c\<rparr>)"
  using move_keeps(2) [OF assms] ends_outside [OF assms] by simp_all

lemma wrapped_index:
  assumes "wrapped_line_index_by_start lines p = Some i"
  shows "i < length lines" and "fst (lines ! i) \<le> p"
proof -
  let ?n = "length (takeWhile (\<lambda>r. fst r \<le> p) lines)"
  have n: "?n \<noteq> 0" "i = ?n - 1" using assms by (auto simp: wrapped_line_index_by_start_def Let_def split: if_splits)
  have "?n \<le> length lines" by (rule length_takeWhile_le)
  then show "i < length lines" using n by linarith
  have "i < ?n" using n by linarith
  from nth_mem [OF this] takeWhile_nth [OF this] show "fst (lines ! i) \<le> p" by (auto dest: set_takeWhileD)
qed

lemma lines_okD:
  "lines_ok s ls \<Longrightarrow> i < length ls \<Longrightarrow> fst (ls ! i) < snd (ls ! i) \<and> is_char_boundary s (fst (ls ! i)) \<and> is_char_boundary s (snd (ls ! i) - 1)"
  unfolding lines_ok_def using nth_mem [of i ls] by (fastforce simp: split_beta)

lemma wrapped_target_ok:
  assumes "area_ok a"
  shows "returns (wrapped_target api a) (\<lambda>w. \<forall>i col ls. w = Some (i, col, ls) \<longrightarrow> lines_ok (ta_text a) ls \<and> i < length ls)"
proof (cases "ta_wrap_cache a")
  case (Some c)
  note ok = area_okD [OF assms] and lines = area_okD(6) [OF assms Some]
  show ?thesis
  proof (cases "wrapped_line_index_by_start (wc_lines c) (ta_cursor_pos a)")
    case (Some i)
    note idx = wrapped_index [OF Some] and l = lines_okD [OF lines wrapped_index(1) [OF Some]]
    then show ?thesis
      using \<open>ta_wrap_cache a = Some c\<close> Some lines ok(3) by (auto simp: wrapped_target_def str_get_returns split: option.splits)
  qed (use Some in \<open>simp add: wrapped_target_def\<close>)
qed (simp add: wrapped_target_def)

lemma move_to_wrapped_keeps:
  assumes "area_ok a" and "lines_ok (ta_text a) ls" and "i < length ls"
  shows "returns (move_to_wrapped_line api (ls ! i) col a) (keeps a)"
  using move_to_col_keeps [of "a\<lparr>ta_preferred_col := c\<rparr>" for c] move_to_col_keeps [of a] lines_okD [OF assms(2,3)] assms(1)
  by (auto simp: move_to_wrapped_line_def Let_def)

lemma ensure_col_ok:
  assumes "area_ok a"
  shows "returns (ensure_preferred_col api a) (\<lambda>(c, b). \<exists>col. b = a\<lparr>ta_preferred_col := col\<rparr>)"
proof (cases "ta_preferred_col a")
  case None
  have "returns (beginning_of_current_line a) (\<lambda>bol. returns (str_get (ta_text a) bol (ta_cursor_pos a)) (\<lambda>x. True))"
    by (rule returns_weaken [OF beginning_of_current_line_ok [OF assms]])
      (use area_okD(3) [OF assms] in \<open>simp add: str_get_returns\<close>)
  then show ?thesis
    using None by (auto simp: ensure_preferred_col_def current_display_col_def elim!: returns_weaken)
next
  case (Some c)
  have "a = a\<lparr>ta_preferred_col := Some c\<rparr>" using Some by simp
  then have "\<exists>col. a = a\<lparr>ta_preferred_col := col\<rparr>" by (rule exI)
  then show ?thesis using Some by (simp add: ensure_preferred_col_def)
qed

lemma move_up_logical_keeps:
  assumes "area_ok a"
  shows "returns (move_up_logical api a) (keeps a)"
proof -
  note ok = area_okD [OF assms]
  define before where "before = take (ta_cursor_pos a) (ta_text a)"
  have get: "str_get (ta_text a) 0 (ta_cursor_pos a) = Some before" using ok(3) by (simp add: before_def str_get_returns)
  have valid: "valid_utf8 before" using boundary_valid(1) [OF ok(1,3)] by (simp add: before_def)
  show ?thesis
  proof (cases "rfind_char is_newline before")
    case None
    then show ?thesis using to_ends_keeps(1) [OF assms] by (simp add: move_up_logical_def get)
  next
    case (Some x)
    obtain i c where x: "x = (i, c)" by fastforce
    have i: "is_char_boundary (ta_text a) i"
      using boundary_of_take [OF ok(1,3)] rfind_char_boundary(1) [OF valid Some [unfolded x]] by (simp add: before_def)
    have line: "returns (beginning_of_line (a\<lparr>ta_preferred_col := col'\<rparr>) i \<bind>
        (\<lambda>l. move_to_display_col_on_line api l i col (a\<lparr>ta_preferred_col := col'\<rparr>))) (keeps a)" for col col'
      by (rule returns_then [OF beginning_of_line_ok])
        (use i assms move_to_col_keeps [of "a\<lparr>ta_preferred_col := col'\<rparr>"] in auto)
    have "returns (ensure_preferred_col api a \<bind> (\<lambda>(target_col, a1). beginning_of_line a1 i \<bind>
        (\<lambda>l. move_to_display_col_on_line api l i target_col a1))) (keeps a)"
      by (rule returns_then [OF ensure_col_ok [OF assms]]) (use line in auto)
    then show ?thesis using Some x by (simp add: move_up_logical_def get)
  qed
qed

lemma move_down_logical_keeps:
  assumes "area_ok a"
  shows "returns (move_down_logical api a) (keeps a)"
proof -
  note ok = area_okD [OF assms]
  define after where "after = drop (ta_cursor_pos a) (ta_text a)"
  have get: "str_get (ta_text a) (ta_cursor_pos a) (length (ta_text a)) = Some after"
    using ok(3,5) by (simp add: after_def str_get_returns)
  have valid: "valid_utf8 after" using boundary_valid(2) [OF ok(1,3)] by (simp add: after_def)
  have go: "returns (case find_char is_newline after of
      None \<Rightarrow> Some (a1\<lparr>ta_cursor_pos := length (ta_text a1), ta_preferred_col := None\<rparr>)
    | Some i \<Rightarrow> end_of_line a1 (i + ta_cursor_pos a1 + 1) \<bind>
        (\<lambda>l. move_to_display_col_on_line api (i + ta_cursor_pos a1 + 1) l col a1)) (keeps a)"
    if a1: "a1 = a\<lparr>ta_preferred_col := col'\<rparr>" for a1 col col'
  proof (cases "find_char is_newline after")
    case None
    then show ?thesis using to_ends_keeps(2) [OF assms] a1 by simp
  next
    case (Some i)
    obtain c where "is_newline c" "is_char_boundary after (i + length c)" using find_char_boundary(3) [OF valid Some] by blast
    then have "is_char_boundary (ta_text a) (ta_cursor_pos a + (i + 1))"
      using boundary_drop [OF ok(1,3), of "i + 1"] by (simp add: is_newline_def after_def)
    then have s: "is_char_boundary (ta_text a1) (i + ta_cursor_pos a1 + 1)" using a1 by (simp add: add.commute add.left_commute)
    have ok1: "area_ok a1" using assms a1 by simp
    have "returns (end_of_line a1 (i + ta_cursor_pos a1 + 1) \<bind>
        (\<lambda>l. move_to_display_col_on_line api (i + ta_cursor_pos a1 + 1) l col a1)) (keeps a1)"
      by (rule returns_then [OF end_of_line_ok [OF ok1 s]]) (use move_to_col_keeps [OF ok1 s] in auto)
    then show ?thesis using Some a1 by simp
  qed
  show ?thesis
    unfolding move_down_logical_def Let_def
    by (rule returns_then [OF ensure_col_ok [OF assms]]) (clarsimp simp: get, rule go [OF refl])
qed

lemma move_up_keeps [no_panic]:
  assumes "area_ok a"
  shows "returns (move_cursor_up api a) (keeps a)"
  unfolding move_cursor_up_def
  by (rule returns_then [OF wrapped_target_ok [OF assms]])
    (use move_to_wrapped_keeps [OF assms] to_ends_keeps(1) [OF assms] move_up_logical_keeps [OF assms] in
      \<open>auto split: option.splits\<close>)

lemma move_down_keeps [no_panic]:
  assumes "area_ok a"
  shows "returns (move_cursor_down api a) (keeps a)"
  unfolding move_cursor_down_def
  by (rule returns_then [OF wrapped_target_ok [OF assms]])
    (use move_to_wrapped_keeps [OF assms] to_ends_keeps(2) [OF assms] move_down_logical_keeps [OF assms] in
      \<open>auto split: option.splits\<close>)

lemma keeps_lift: "returns m (keeps b) \<Longrightarrow> keeps a b \<Longrightarrow> returns m (keeps a)"
  using keeps_trans by (auto elim: returns_weaken)

lemma line_start_keeps [no_panic]:
  assumes "area_ok a"
  shows "returns (move_cursor_to_beginning_of_line up a) (keeps a)"
proof -
  have set: "keeps a (set_cursor p a\<lparr>ta_preferred_col := None\<rparr>)" for p
    using set_cursor_keeps [OF assms, of p] by (simp add: set_cursor_def)
  have up: "returns (beginning_of_line a (ta_cursor_pos a - 1)) (\<lambda>p. True)"
    if "ta_cursor_pos a = bol" "0 < bol \<longrightarrow> is_char_boundary (ta_text a) (bol - 1)" for bol
    using returns_weaken [OF beginning_of_line_ok [OF assms, of "ta_cursor_pos a - 1"]] that by (cases bol) auto
  show ?thesis
    unfolding move_cursor_to_beginning_of_line_def
    by (rule returns_then [OF beginning_of_current_line_ok [OF assms]])
      (use set up in \<open>auto elim!: returns_weaken\<close>)
qed

lemma line_end_keeps [no_panic]:
  assumes "area_ok a"
  shows "returns (move_cursor_to_end_of_line down a) (keeps a)"
proof -
  have "is_char_boundary (ta_text a) (min (eol + 1) (length (ta_text a)))"
    if "eol < length (ta_text a) \<longrightarrow> is_char_boundary (ta_text a) (eol + 1)" "is_char_boundary (ta_text a) eol" for eol
    using that boundary_le [OF that(2)] by (auto simp: min_def not_less le_Suc_eq)
  then have down: "returns (end_of_line a (min (eol + 1) (length (ta_text a)))) (\<lambda>p. True)"
    if "eol < length (ta_text a) \<longrightarrow> is_char_boundary (ta_text a) (eol + 1)" "is_char_boundary (ta_text a) eol" for eol
    using that by (auto intro: returns_weaken [OF end_of_line_ok [OF assms]])
  show ?thesis
    unfolding move_cursor_to_end_of_line_def
    by (rule returns_then [OF end_of_current_line_ok [OF assms]])
      (use set_cursor_keeps [OF assms] down in \<open>auto elim!: returns_weaken\<close>)
qed

section \<open>Deleting and pasting\<close>

lemma delete_keeps [no_panic]:
  assumes "text_laws api" and "area_ok a"
  shows "returns (delete_backward api n a) (keeps a)" and "returns (delete_forward api n a) (keeps a)"
    and "returns (delete_forward_kill api n a) (keeps a)"
proof -
  note c = area_okD(3) [OF assms(2)]
  note bwd = step_back_ok [OF assms c, of n] and fwd = step_forward_ok [OF assms c, of n]
  show "returns (delete_backward api n a) (keeps a)" "returns (delete_forward api n a) (keeps a)"
    using replace_keeps [OF assms(2), of "[]"] c bwd fwd assms(2) by (auto simp: delete_backward_def delete_forward_def)
  show "returns (delete_forward_kill api n a) (keeps a)"
    using kill_line_keeps(1) [OF assms(2) c] fwd assms(2) by (auto simp: delete_forward_kill_def)
qed

lemma kill_word_keeps [no_panic]:
  assumes "text_laws api" and "area_ok a"
  shows "returns (delete_backward_word api a) (keeps a)" and "returns (delete_forward_word api a) (keeps a)"
  using returns_then [OF beginning_of_previous_word_ok [OF assms], of "\<lambda>s. kill_range (s, ta_cursor_pos a) a" "keeps a"]
    returns_then [OF end_of_next_word_ok [OF assms], of "\<lambda>t. if t > ta_cursor_pos a then kill_range (ta_cursor_pos a, t) a else Some a" "keeps a"]
    kill_line_keeps(1) [OF assms(2)] area_okD(3) [OF assms(2)] assms(2)
  by (auto simp: delete_backward_word_def delete_forward_word_def)

lemma kill_line_part_keeps [no_panic]:
  assumes "area_ok a"
  shows "returns (kill_to_end_of_line a) (keeps a)" and "returns (vim_kill_to_end_of_line a) (keeps a)"
    and "returns (kill_to_beginning_of_line a) (keeps a)"
  unfolding kill_to_end_of_line_def vim_kill_to_end_of_line_def kill_to_beginning_of_line_def
  using kill_line_keeps(1) [OF assms] area_okD(3) [OF assms] assms
  by (auto intro!: returns_weaken [OF end_of_current_line_ok [OF assms]] returns_weaken [OF beginning_of_current_line_ok [OF assms]])

lemma kill_current_line_keeps [no_panic]:
  assumes "area_ok a"
  shows "returns (kill_current_line a) (keeps a)" and "returns (yank_current_line a) (keeps a)"
  unfolding kill_current_line_def yank_current_line_def
  using kill_line_keeps(2,4) [OF assms]
  by (auto intro!: returns_weaken [OF current_line_range_ok [OF assms]])

lemma yank_keeps [no_panic]: "area_ok a \<Longrightarrow> returns (yank a) (keeps a)"
  using insert_str_keeps area_okD(2) by (simp add: yank_def)

lemma valid_newline [simp]: "valid_utf8 [NL]"
  by code_simp

lemma trim_end_newlines_valid: "valid_utf8 s \<Longrightarrow> valid_utf8 (trim_end_newlines s)"
proof (induction "length s" arbitrary: s)
  case (Suc n)
  show ?case
  proof (cases "last s = NL")
    case True
    have s: "s = butlast s @ [NL]" using Suc.hyps(2) True by (cases s rule: rev_cases) auto
    then have "valid_utf8 (butlast s)" using Suc.prems valid_utf8_occurrence(1) [of "butlast s" "[NL]" "[]"] by simp
    moreover have "trim_end_newlines s = trim_end_newlines (butlast s)"
      by (subst s) (simp add: trim_end_newlines_def del: append_butlast_last_id)
    ultimately show ?thesis using Suc.hyps by simp
  next
    case False
    then have "trim_end_newlines s = s" using Suc.hyps(2)
      by (cases s rule: rev_cases) (auto simp: trim_end_newlines_def)
    then show ?thesis using Suc.prems by simp
  qed
qed (simp add: trim_end_newlines_def)

lemma paste_line_keeps [no_panic]:
  assumes "area_ok a"
  shows "returns (paste_line_after_current_line a) (keeps a)"
proof -
  have valid: "valid_utf8 (ta_kill_buffer a)" using area_okD(2) [OF assms] .
  then have texts: "valid_utf8 (ta_kill_buffer a @ [NL])" "valid_utf8 (NL # trim_end_newlines (ta_kill_buffer a))"
    using valid_utf8_append [OF valid valid_newline] valid_utf8_append [OF valid_newline trim_end_newlines_valid [OF valid]] by auto
  have ins: "returns (insert_str_at p t a) (\<lambda>b. keeps a (set_cursor (f b) b))" if "valid_utf8 t" for p t f
    using insert_keeps [OF assms that] by (rule returns_weaken) (auto intro: keeps_trans set_cursor_keeps keeps_ok)
  show ?thesis
    unfolding paste_line_after_current_line_def Let_def
    by (rule returns_then [OF end_of_current_line_ok [OF assms]]) (use ins texts valid in auto)
qed

lemma paste_keeps [no_panic]:
  assumes "text_laws api" and "area_ok a"
  shows "returns (paste_after_cursor api a) (keeps a)"
proof -
  let ?a = "set_cursor (next_atomic_boundary api a (ta_cursor_pos a)) a"
  have set: "keeps a ?a" using set_cursor_keeps [OF assms(2)] .
  have "returns (insert_str (ta_kill_buffer ?a) ?a) (keeps ?a)"
    using insert_str_keeps [OF keeps_ok [OF set]] area_okD(2) [OF keeps_ok [OF set]] by simp
  then show ?thesis
    using keeps_lift [OF _ set] paste_line_keeps [OF assms(2)] assms(2) by (simp add: paste_after_cursor_def Let_def)
qed

section \<open>Text objects and motions\<close>

definition ends_ok :: "rstr \<Rightarrow> nat \<times> nat \<Rightarrow> bool" where
  "ends_ok s r \<longleftrightarrow> is_char_boundary s (fst r) \<and> is_char_boundary s (snd r)"

abbreviation range_ok :: "rstr \<Rightarrow> (nat \<times> nat) option \<Rightarrow> bool" where
  "range_ok s r \<equiv> pred_option (ends_ok s) r"

lemma run_loop_ends:
  "is_char_boundary s len \<Longrightarrow> \<forall>(i, _) \<in> set cs. is_char_boundary s i \<Longrightarrow> pred_option (is_char_boundary s) start \<Longrightarrow>
    r \<in> set (run_loop len start cs) \<Longrightarrow> ends_ok s r"
  by (induction len start cs rule: run_loop.induct) (auto simp: ends_ok_def split: if_splits option.splits)

lemma big_word_ends:
  assumes "area_ok a"
  shows "range_ok (ta_text a) (big_word_range_at_cursor a)"
proof -
  have "ends_ok (ta_text a) r" if "r \<in> set (non_ws_runs a)" for r
    by (rule run_loop_ends [OF _ _ _ that [unfolded non_ws_runs_def]])
      (use in_char_indices(1) [OF area_okD(1) [OF assms]] in auto)
  then show ?thesis by (auto simp: big_word_range_at_cursor_def pred_option_def dest!: find_SomeD split: option.splits)
qed

lemma big_word_nonempty: "big_word_range_at_cursor a = Some r \<Longrightarrow> fst r \<le> snd r"
  by (auto simp: big_word_range_at_cursor_def cursor_overlaps_range_def cursor_is_at_range_end_def dest!: find_SomeD)

lemma small_word_ends:
  assumes "text_laws api" and "area_ok a"
  shows "returns (small_word_range_at_cursor api a) (range_ok (ta_text a))"
proof (cases "big_word_range_at_cursor a")
  case (Some run)
  note ok = area_okD [OF assms(2)]
  have run: "is_char_boundary (ta_text a) (fst run)" "is_char_boundary (ta_text a) (snd run)" "fst run \<le> snd run"
    using big_word_ends [OF assms(2)] big_word_nonempty [OF Some] Some by (auto simp: ends_ok_def)
  define pieces where "pieces = map (\<lambda>(i, p). (fst run + i, fst run + i + length p))
    (split_word_pieces api (take (snd run - fst run) (drop (fst run) (ta_text a))))"
  have "ends_ok (ta_text a) r" if "r \<in> set pieces" for r
    using that pieces_in_text [OF assms(1) ok(1) run] by (auto simp: pieces_def ends_ok_def)
  moreover have "r \<in> set pieces" if "last_opt pieces = Some r" for r using that by (auto simp: last_opt_Some_iff)
  ultimately show ?thesis
    using Some run find_SomeD [of "cursor_overlaps_range a" pieces]
    by (auto simp: small_word_range_at_cursor_def str_get_returns pieces_def [symmetric] ends_ok_def Let_def split: option.splits)
qed (simp add: small_word_range_at_cursor_def)

lemma pieces_prefix:
  assumes "pieces_of s (us @ vs)"
  shows "is_char_boundary s (length (concat us))"
proof -
  have "s = concat us @ concat vs" "valid_utf8 (concat us)" "valid_utf8 (concat vs)"
    using assms valid_utf8_concat by (auto simp: pieces_of_def)
  then show ?thesis using valid_utf8_boundary [of "concat us" "concat vs"] by auto
qed

lemma following_whitespace_ok:
  assumes "area_ok a" and "is_char_boundary (ta_text a) p"
  shows "returns (following_whitespace_end a p) (is_char_boundary (ta_text a))"
proof -
  let ?after = "drop p (ta_text a)"
  have "pieces_of ?after (takeWhile is_white (chars ?after) @ dropWhile is_white (chars ?after))"
    using chars_pieces [OF boundary_valid(2) [OF area_okD(1) [OF assms(1)] assms(2)]] by simp
  from boundary_drop [OF area_okD(1) [OF assms(1)] assms(2) pieces_prefix [OF this]]
  show ?thesis using assms(2) boundary_le by (simp add: following_whitespace_end_def str_get_returns)
qed

lemma preceding_whitespace_ok:
  assumes "area_ok a" and "is_char_boundary (ta_text a) p"
  shows "returns (preceding_whitespace_start a p) (is_char_boundary (ta_text a))"
proof -
  let ?before = "take p (ta_text a)" and ?cs = "chars (take p (ta_text a))"
  let ?w = "takeWhile is_white (rev ?cs)" and ?d = "dropWhile is_white (rev ?cs)"
  have cs: "?cs = rev ?d @ rev ?w" by (metis rev_append rev_rev_ident takeWhile_dropWhile_id)
  have valid: "valid_utf8 ?before" using boundary_valid(1) [OF area_okD(1) [OF assms(1)] assms(2)] .
  have "length ?before = length (concat (rev ?d)) + length (concat (rev ?w))"
    using cs by (metis concat_append concat_chars length_append)
  then have len: "p - length (concat ?w) = length (concat (rev ?d))"
    using boundary_le [OF assms(2)] by (simp add: length_concat rev_map [symmetric] sum_list_rev)
  have "pieces_of ?before (rev ?d @ rev ?w)" using chars_pieces [OF valid] by (subst (asm) cs)
  from boundary_of_take [OF area_okD(1) [OF assms(1)] assms(2) pieces_prefix [OF this]]
  show ?thesis using assms(2) by (simp add: preceding_whitespace_start_def str_get_returns len)
qed

lemma expand_word_ok:
  assumes "area_ok a" and "ends_ok (ta_text a) r"
  shows "returns (expand_word_around a r) (ends_ok (ta_text a))"
  unfolding expand_word_around_def
  by (rule returns_then [OF following_whitespace_ok [OF assms(1)]])
    (use assms in \<open>auto simp: ends_ok_def intro: returns_weaken [OF preceding_whitespace_ok]\<close>)

lemma word_object_ok:
  assumes "text_laws api" and "area_ok a"
  shows "returns (word_text_object_range api scope big a) (range_ok (ta_text a))"
  unfolding word_text_object_range_def
  by (rule returns_then [where P = "range_ok (ta_text a)"])
    (use big_word_ends [OF assms(2)] small_word_ends [OF assms] in
      \<open>auto split: option.splits vim_text_object_scope.splits intro: returns_weaken [OF expand_word_ok [OF assms(2)]]\<close>)

lemma better_range_ok: "range_ok s best \<Longrightarrow> ends_ok s r \<Longrightarrow> range_ok s (better_range r best)"
  by (simp add: better_range_def)

lemma pair_loop_ok:
  assumes "\<forall>(i, c) \<in> set cs. is_char_boundary s i \<and> is_char_boundary s (i + length c)"
    and "\<forall>i \<in> set stack. is_char_boundary s i \<and> is_char_boundary s (i + length opn)" and "range_ok s best"
  shows "range_ok s (pair_loop a scope opn cls stack best cs)"
  using assms
proof (induction a scope opn cls stack best cs rule: pair_loop.induct)
  case (2 a scope opn cls stack best idx ch cs)
  have "range_ok s (better_range (delimited scope j (length opn) idx (length ch)) best)"
    if "is_char_boundary s j" "is_char_boundary s (j + length opn)" for j
    using better_range_ok [OF "2.prems"(3)] "2.prems"(1) that by (auto simp: delimited_def ends_ok_def split: vim_text_object_scope.splits)
  then show ?case using 2 by (auto split: list.splits)
qed simp

lemma quote_loop_ok:
  assumes "area_ok a"
    and "\<forall>(i, c) \<in> set cs. is_char_boundary (ta_text a) (l + i) \<and> is_char_boundary (ta_text a) (l + i + length c)"
    and "pred_option (\<lambda>i. is_char_boundary (ta_text a) i \<and> is_char_boundary (ta_text a) (i + length quote)) opn"
    and "range_ok (ta_text a) best"
  shows "returns (quote_loop a scope quote l opn best cs) (range_ok (ta_text a))"
  using assms
proof (induction a scope quote l opn best cs rule: quote_loop.induct)
  case (2 a scope quote l opn best offset ch cs)
  let ?idx = "l + offset"
  have idx: "is_char_boundary (ta_text a) ?idx" "is_char_boundary (ta_text a) (?idx + length ch)" using "2.prems"(2) by auto
  obtain e where e: "is_escaped a ?idx = Some e" using idx(1) by (simp add: is_escaped_def str_get_returns)
  have "range_ok (ta_text a) (better_range (delimited scope j (length quote) ?idx (length quote)) best)"
    if "is_char_boundary (ta_text a) j" "is_char_boundary (ta_text a) (j + length quote)" "ch = quote" for j
    using better_range_ok [OF "2.prems"(4)] idx that by (auto simp: delimited_def ends_ok_def split: vim_text_object_scope.splits)
  then show ?case using 2 e idx by (auto simp: Let_def split: option.splits)
qed simp

lemma indices_in_part:
  assumes "valid_utf8 s" and "is_char_boundary s x" and "is_char_boundary s y" and "x \<le> y"
    and "(i, c) \<in> set (char_indices (take (y - x) (drop x s)))"
  shows "is_char_boundary s (x + i)" and "is_char_boundary s (x + i + length c)"
proof -
  note b = in_char_indices(1,2) [OF part_valid [OF assms(1-4)] assms(5)]
  show "is_char_boundary s (x + i)" "is_char_boundary s (x + i + length c)"
    using part_boundary(1) [OF assms(1-4) b(1)] part_boundary(1) [OF assms(1-4) b(2)] by (simp_all add: add.assoc)
qed

lemma quoted_object_ok:
  assumes "area_ok a"
  shows "returns (quoted_text_object_range scope quote a) (range_ok (ta_text a))"
proof -
  have line: "returns (str_get (ta_text a) bol eol \<bind> (\<lambda>line. quote_loop a scope quote bol None None (char_indices line)))
      (range_ok (ta_text a))"
    if "is_char_boundary (ta_text a) bol" "is_char_boundary (ta_text a) eol" "bol \<le> eol" for bol eol
    using that indices_in_part [OF area_okD(1) [OF assms] that]
    by (auto simp: str_get_returns intro!: quote_loop_ok [OF assms])
  show ?thesis
    unfolding quoted_text_object_range_def
    by (rule returns_then [OF beginning_of_current_line_ok [OF assms]], rule returns_then [OF end_of_current_line_ok [OF assms]])
      (use line in auto)
qed

lemma paired_object_ok:
  assumes "area_ok a"
  shows "range_ok (ta_text a) (paired_text_object_range scope opn cls a)"
  unfolding paired_text_object_range_def
  by (rule pair_loop_ok) (use in_char_indices(1,2) [OF area_okD(1) [OF assms]] in auto)

lemma text_object_ok:
  assumes "text_laws api" and "area_ok a"
  shows "returns (text_object_range api obj scope a) (range_ok (ta_text a))"
  using word_object_ok [OF assms] paired_object_ok [OF assms(2)] quoted_object_ok [OF assms(2)]
  by (simp add: text_object_range_def split: vim_text_object.split)

text \<open>Moving does not change the text.\<close>

lemma set_cursor_text [simp]: "ta_text (set_cursor p a) = ta_text a"
  by (simp add: set_cursor_def)

lemma display_col_text: "move_to_display_col_on_line api x y col a = Some b \<Longrightarrow> ta_text b = ta_text a"
  by (auto simp: move_to_display_col_on_line_def Let_def bind_eq_Some_conv)

lemma wrapped_line_text: "move_to_wrapped_line api r col a = Some b \<Longrightarrow> ta_text b = ta_text a"
  by (auto simp: move_to_wrapped_line_def Let_def dest!: display_col_text split: option.splits)

lemma ensure_col_text: "ensure_preferred_col api a = Some (c, b) \<Longrightarrow> ta_text b = ta_text a"
  by (auto simp: ensure_preferred_col_def bind_eq_Some_conv split: option.splits)

lemma move_up_text: "move_cursor_up api a = Some b \<Longrightarrow> ta_text b = ta_text a"
  by (cases "wrapped_target api a")
    (auto simp: move_cursor_up_def move_up_logical_def bind_eq_Some_conv Let_def split_beta
      dest!: wrapped_line_text display_col_text ensure_col_text split: option.splits if_splits)

lemma move_down_text: "move_cursor_down api a = Some b \<Longrightarrow> ta_text b = ta_text a"
  by (cases "wrapped_target api a")
    (auto simp: move_cursor_down_def move_down_logical_def bind_eq_Some_conv Let_def split_beta
      dest!: wrapped_line_text display_col_text ensure_col_text split: option.splits if_splits)

lemma moved_cursor:
  assumes "returns m (keeps a)" and "\<And>b. m = Some b \<Longrightarrow> ta_text b = ta_text a"
  shows "returns (m \<bind> (\<lambda>b. Some (ta_cursor_pos b))) (is_char_boundary (ta_text a))"
  using assms area_okD(3) keeps_ok by (cases m) (simp, metis returns_simps(1) bind.bind_lunit)

lemma target_ok:
  assumes "text_laws api" and "area_ok a"
  shows "returns (target_for_motion api motion a) (is_char_boundary (ta_text a))"
proof -
  have set: "returns m (\<lambda>p. keeps a (set_cursor p a))" if "returns m P" for m P
    using that by (rule returns_weaken) (rule set_cursor_keeps [OF assms(2)])
  note words = beginning_of_next_word_ok [OF assms] beginning_of_previous_word_ok [OF assms] vim_word_end_exclusive_ok [OF assms]
  note lines = beginning_of_current_line_ok [OF assms(2)] end_of_current_line_ok [OF assms(2)]
  show ?thesis
    unfolding target_for_motion_def
    by (rule moved_cursor; cases motion)
      (use move_left_keeps [OF assms] move_right_keeps [OF assms] move_up_keeps [OF assms(2)] move_down_keeps [OF assms(2)]
         words [THEN set] lines [THEN set] in
       \<open>auto simp: bind_eq_Some_conv move_cursor_left_def move_cursor_right_def dest: move_up_text move_down_text\<close>)
qed

lemma linewise_ok:
  assumes "area_ok a"
  shows "returns (linewise_range_for_vertical_motion motion a) (range_ok (ta_text a))"
proof -
  have up: "returns (beginning_of_line a p) (is_char_boundary (ta_text a))" if "is_char_boundary (ta_text a) p" for p
    using beginning_of_line_ok [OF assms that] by (rule returns_weaken) simp
  have down: "returns (end_of_line a p) (\<lambda>e. is_char_boundary (ta_text a) (if e < length (ta_text a) then e + 1 else e))"
    if "is_char_boundary (ta_text a) p" for p
    using end_of_line_ok [OF assms that] by (rule returns_weaken) simp
  show ?thesis
    unfolding linewise_range_for_vertical_motion_def
    by (rule returns_then [OF current_line_range_ok [OF assms]])
      (cases motion; fastforce simp: ends_ok_def elim!: returns_weaken [OF up] returns_weaken [OF down])
qed

lemma motion_range_ok:
  assumes "text_laws api" and "area_ok a"
  shows "returns (range_for_motion api motion a) (range_ok (ta_text a))"
  using linewise_ok [OF assms(2)] returns_weaken [OF target_ok [OF assms]] area_okD(3) [OF assms(2)]
  by (auto simp: range_for_motion_def ends_ok_def Let_def)

end
