(* ===== verification/Text_Input.thy ===== *)
theory Text_Input
  imports Text_Keys
begin

text \<open>
  The dispatch of key events keeps the invariant: no key panics in any mode, elements keep their texts
  and the cursor stays outside single-line elements.
\<close>

section \<open>Modes\<close>

lemma mode_ok [simp]:
  "area_ok (a\<lparr>ta_vim_mode := m\<rparr>) = area_ok a" "area_ok (a\<lparr>ta_vim_pending := q\<rparr>) = area_ok a"
  by (simp_all add: area_ok_def)

lemma mode_keeps [simp]:
  "keeps a (b\<lparr>ta_vim_mode := m\<rparr>) = keeps a b" "keeps a (b\<lparr>ta_vim_pending := q\<rparr>) = keeps a b"
  "keeps a (b\<lparr>ta_preferred_col := c\<rparr>) = keeps a b"
  "keeps (a\<lparr>ta_vim_pending := q\<rparr>) = keeps a"
  by (simp_all add: fun_eq_iff keeps_def kept_def payload_def cursor_free_def single_line_def)

lemma to_insert_keeps [simp]: "keeps a (to_insert b) = keeps a b"
  by (simp add: to_insert_def)

lemma normal_mode_keeps [simp]: "keeps a (enter_vim_normal_mode b) = keeps a b"
  by (simp add: enter_vim_normal_mode_def)

section \<open>Operators\<close>

lemma operator_range_keeps:
  assumes "area_ok a" and "ends_ok (ta_text a) r"
  shows "returns (kill_range r a) (keeps a)" and "returns (yank_range r a) (keeps a)"
    and "returns (apply_vim_operator_to_range op r a) (keeps a)"
  using kill_line_keeps(1,3) [OF assms(1), of "fst r" "snd r"] assms(2)
  by (cases op; simp add: ends_ok_def apply_vim_operator_to_range_def)+

lemma apply_operator_keeps:
  assumes "text_laws api" and "area_ok a"
  shows "returns (apply_vim_operator api op motion a) (keeps a)"
  unfolding apply_vim_operator_def
  by (rule returns_then [OF motion_range_ok [OF assms]])
    (use operator_range_keeps(1,2) [OF assms(2)] assms(2) in \<open>auto split: option.splits vim_operator.splits\<close>)

lemma returns_fst: "returns m (\<lambda>(b, x). P b) \<Longrightarrow> returns (map_option fst m) P"
  by (auto simp: returns_iff)

lemma handle_operator_keeps:
  assumes "text_laws api" and "area_ok a"
  shows "returns (handle_vim_operator api op ev a) (\<lambda>(b, x). keeps a b)"
  using kill_current_line_keeps [OF assms(2)] apply_operator_keeps [OF assms] assms(2)
  by (auto simp: handle_vim_operator_def Let_def split: option.splits)

lemma handle_object_keeps:
  assumes "text_laws api" and "area_ok a"
  shows "returns (handle_vim_text_object api op scope ev a) (\<lambda>(b, x). keeps a b)"
proof -
  have "returns (text_object_range api obj scope a \<bind> (\<lambda>rng. case rng of None \<Rightarrow> Some (a, True)
      | Some r \<Rightarrow> apply_vim_operator_to_range op r a \<bind> (\<lambda>a1. Some (a1, True)))) (\<lambda>(b, x). keeps a b)" for obj
    by (rule returns_then [OF text_object_ok [OF assms]])
      (use operator_range_keeps(3) [OF assms(2)] assms(2) in \<open>auto split: option.splits\<close>)
  then show ?thesis using assms(2) by (auto simp: handle_vim_text_object_def split: option.splits)
qed

section \<open>Keys\<close>

text \<open>A key that stands for a character carries one character.\<close>

definition event_ok :: "key_event \<Rightarrow> bool" where
  "event_ok ev = (case event_code ev of KeyChar c \<Rightarrow> one_char c | _ \<Rightarrow> True)"

lemma event_char: "event_ok ev \<Longrightarrow> event_code ev = KeyChar c \<Longrightarrow> valid_utf8 c"
  by (simp add: event_ok_def one_char_valid)

lemma set_cursor_then:
  assumes "area_ok a" and "returns m P"
  shows "returns m (\<lambda>p. keeps a (set_cursor p a))"
  using assms(2) by (rule returns_weaken) (rule set_cursor_keeps [OF assms(1)])

lemma editor_action_keeps [no_panic]:
  assumes "text_laws api" and "area_ok a"
  shows "returns (perform_editor_action api ev action a) (keeps a)"
  using delete_keeps [OF assms] kill_word_keeps [OF assms] kill_line_part_keeps [OF assms(2)] kill_current_line_keeps [OF assms(2)]
    yank_keeps [OF assms(2)] set_cursor_then [OF assms(2) beginning_of_previous_word_ok [OF assms]]
    set_cursor_then [OF assms(2) end_of_next_word_ok [OF assms]] move_left_keeps [OF assms] move_right_keeps [OF assms]
    move_up_keeps [OF assms(2)] move_down_keeps [OF assms(2)] line_start_keeps [OF assms(2)] line_end_keeps [OF assms(2)]
  by (cases action) (simp_all add: perform_editor_action_def)

lemma input_keymap_keeps [no_panic]:
  assumes "text_laws api" and "area_ok a" and "event_ok ev"
  shows "returns (input_with_keymap api ev km a) (keeps a)"
  using insert_str_keeps [OF assms(2)] event_char [OF assms(3)] kill_word_keeps(1) [OF assms(1,2)] editor_action_keeps [OF assms(1,2)]
    assms(2)
  by (auto simp: input_with_keymap_def altgr_char_def split: option.splits key_code.splits if_splits)

text \<open>The beginning of a line is not inside an element without newlines.\<close>

lemma line_start_outside:
  assumes "single_line a" and "0 < b \<longrightarrow> ta_text a ! (b - 1) = NL" and "b \<le> length (ta_text a)"
  shows "outside (ta_elements a) b"
  unfolding outside_def
proof (intro ballI notI)
  fix e assume e: "e \<in> set (ta_elements a)" and "te_start e < b \<and> b < te_end e"
  then have b: "te_start e < b" "b < te_end e" by auto
  let ?i = "b - 1 - te_start e"
  have i: "?i < length (payload a e)" using b assms(3) by (auto simp: payload_def min_def)
  then have "payload a e ! ?i = ta_text a ! (b - 1)" using b assms(3) by (simp add: payload_def)
  then have "NL \<in> set (payload a e)" using nth_mem [OF i] assms(2) b by simp
  then show False using assms(1) e by (simp add: single_line_def)
qed

lemma handle_insert_keeps [no_panic]:
  assumes "text_laws api" and "area_ok a" and "event_ok ev"
  shows "returns (handle_vim_insert api ev a) (keeps a)"
proof -
  note ok = area_okD [OF assms(2)]
  note prev = prev_atomic_ok [OF assms(1,2) ok(3)]
  have "keeps a (a\<lparr>ta_cursor_pos := max (prev_atomic_boundary api a (ta_cursor_pos a)) bol\<rparr>)"
    if "is_char_boundary (ta_text a) bol" "bol \<le> ta_cursor_pos a" "0 < bol \<longrightarrow> ta_text a ! (bol - 1) = NL" for bol
    using move_keeps(1) [OF assms(2)] prev that line_start_outside [OF _ that(3)] boundary_le [OF that(1)]
    by (simp add: max_def)
  then have "returns (beginning_of_current_line a \<bind> (\<lambda>bol.
      let a1 = if ta_cursor_pos a > bol then a\<lparr>ta_cursor_pos := max (prev_atomic_boundary api a (ta_cursor_pos a)) bol\<rparr> else a
      in Some (enter_vim_normal_mode a1))) (keeps a)"
    by (intro returns_then [OF beginning_of_current_line_ok [OF assms(2)]]) (use assms(2) in auto)
  then show ?thesis using input_keymap_keeps [OF assms] by (simp add: handle_vim_insert_def)
qed

lemma open_line_keeps [no_panic]:
  assumes "area_ok a"
  shows "returns (open_line_below a) (keeps a)" and "returns (open_line_above a) (keeps a)"
proof -
  have ins: "returns (insert_str_at p [NL] a) (\<lambda>b. keeps a (set_cursor (f b) b))" for p f
    using insert_keeps [OF assms valid_newline] by (rule returns_weaken) (auto intro: keeps_trans set_cursor_keeps keeps_ok)
  show "returns (open_line_below a) (keeps a)"
    unfolding open_line_below_def Let_def
    by (rule returns_then [OF end_of_current_line_ok [OF assms]]) (use ins in simp)
  show "returns (open_line_above a) (keeps a)"
    unfolding open_line_above_def
    by (rule returns_then [OF beginning_of_current_line_ok [OF assms]]) (use ins in simp)
qed

lemma substitute_keeps [no_panic]:
  assumes "text_laws api" and "area_ok a"
  shows "returns (substitute_char api a) (keeps a)"
  unfolding substitute_char_def
  by (rule returns_then [OF end_of_current_line_ok [OF assms(2)]]) (use delete_keeps(3) [OF assms] assms(2) in simp)

lemma vim_action_keeps [no_panic]:
  assumes "text_laws api" and "area_ok a"
  shows "returns (perform_vim_action api action a) (keeps a)"
proof -
  note words = beginning_of_next_word_ok [OF assms] beginning_of_previous_word_ok [OF assms] vim_word_end_cursor_ok [OF assms]
  note lines = beginning_of_current_line_ok [OF assms(2)] end_of_current_line_ok [OF assms(2)] first_non_blank_ok [OF assms(2)]
    vim_line_end_cursor_ok [OF assms]
  show ?thesis
    using words [THEN set_cursor_then [OF assms(2)]] lines [THEN set_cursor_then [OF assms(2)]] set_cursor_keeps [OF assms(2)]
      open_line_keeps [OF assms(2)] move_left_keeps [OF assms] move_right_keeps [OF assms] move_up_keeps [OF assms(2)]
      move_down_keeps [OF assms(2)] delete_keeps(3) [OF assms] substitute_keeps [OF assms] kill_line_part_keeps(2) [OF assms(2)]
      kill_current_line_keeps(2) [OF assms(2)] paste_keeps [OF assms] assms(2)
    by (cases action) (simp_all add: perform_vim_action_def)
qed

lemma handle_normal_keeps [no_panic]:
  assumes "text_laws api" and "area_ok a"
  shows "returns (handle_vim_normal api ev a) (keeps a)"
proof -
  let ?a = "a\<lparr>ta_vim_pending := NoPending\<rparr>"
  have ok: "area_ok ?a" using assms(2) by simp
  show ?thesis
    using returns_fst [OF handle_operator_keeps [OF assms(1) ok]] returns_fst [OF handle_object_keeps [OF assms(1) ok]]
      vim_action_keeps [OF assms(1) ok] assms(2)
    by (auto simp: handle_vim_normal_def Let_def split: vim_pending.splits option.splits)
qed

lemma input_keeps:
  assumes "text_laws api" and "area_ok a" and "event_ok ev"
  shows "returns (input api ev a) (keeps a)"
  using handle_insert_keeps [OF assms] handle_normal_keeps [OF assms(1,2)] input_keymap_keeps [OF assms] assms(2)
  by (simp add: input_def handle_vim_input_def split: vim_mode.split)

end
