(* ===== verification/Text_Calls.thy ===== *)
theory Text_Calls
  imports Text_Input
begin

text \<open>
  The text area as its owner uses it: keys in any order with edits, new texts, elements that are added,
  renamed and removed, and measuring on the screen. No admissible call panics and all keep the
  invariant; what is killed comes back on a yank, a saved draft is restored, and scrolling keeps the
  cursor on the screen.
\<close>

section \<open>Elements\<close>

lemma elems_ok_sort:
  assumes "\<And>e. e \<in> set es \<Longrightarrow> elem_ok s e" and "\<And>e f. e \<in> set es \<Longrightarrow> f \<in> set es \<Longrightarrow> e \<noteq> f \<Longrightarrow> apart e f"
  shows "elems_ok s (sort_key te_start es)"
  using assms by (simp add: elems_ok_def)

lemma elems_ok_filter: "elems_ok s es \<Longrightarrow> elems_ok s (filter P es)"
  by (auto simp: elems_ok_def sorted_filter)

lemma apart_sym: "apart e f \<Longrightarrow> apart f e"
  by (auto simp: apart_def)

lemma elems_ok_add:
  assumes "elems_ok s es" and "elem_ok s e" and "\<And>f. f \<in> set es \<Longrightarrow> apart e f"
  shows "elems_ok s (sort_key te_start (es @ [e]))"
  using assms apart_sym by (intro elems_ok_sort) (auto simp: elems_ok_def)

lemma area_ok_elements: "area_ok a \<Longrightarrow> elems_ok (ta_text a) es \<Longrightarrow> area_ok (a\<lparr>ta_elements := es\<rparr>)"
  by (simp add: area_ok_def)

lemma id_ok [simp]: "area_ok (a\<lparr>ta_next_element_id := n\<rparr>) = area_ok a"
  by (simp add: area_ok_def)

lemma remove_element_ok: "area_ok a \<Longrightarrow> area_ok (snd (remove_element_range r a))"
  using elems_ok_filter [OF area_okD(4)] by (auto simp: remove_element_range_def Let_def intro: area_ok_elements)

lemma add_element_eq: "add_element r a = (ta_next_element_id a,
    a\<lparr>ta_next_element_id := saturating_add (ta_next_element_id a) 1,
      ta_elements := sort_key te_start (ta_elements a @ [\<lparr>te_id = ta_next_element_id a, te_start = fst r, te_end = snd r\<rparr>])\<rparr>)"
  by (simp add: add_element_def next_element_id_def)

lemma add_element_ok:
  assumes "area_ok a" and "elem_ok (ta_text a) \<lparr>te_id = ta_next_element_id a, te_start = x, te_end = y\<rparr>"
    and "\<And>f. f \<in> set (ta_elements a) \<Longrightarrow> te_end f \<le> x \<or> y \<le> te_start f"
  shows "area_ok (snd (add_element (x, y) a))"
proof -
  let ?e = "\<lparr>te_id = ta_next_element_id a, te_start = x, te_end = y\<rparr>"
  have "elems_ok (ta_text a) (sort_key te_start (ta_elements a @ [?e]))"
    using elems_ok_add [OF area_okD(4) [OF assms(1)] assms(2)] assms(3) by (auto simp: apart_def)
  then show ?thesis using assms(1) by (simp add: add_element_eq area_ok_def)
qed

lemma add_element_range_ok:
  assumes "area_ok a"
  shows "area_ok (snd (add_element_range r a))"
proof -
  let ?x = "clamp_pos_to_char_boundary a (min (fst r) (length (ta_text a)))"
  let ?y = "clamp_pos_to_char_boundary a (min (snd r) (length (ta_text a)))"
  have "area_ok (snd (add_element (?x, ?y) a))"
    if "?x < ?y" "\<not> list_ex (\<lambda>e. ?x < te_end e \<and> ?y > te_start e) (ta_elements a)"
    by (rule add_element_ok [OF assms]) (use that in \<open>auto simp: elem_ok_def list_ex_iff not_less\<close>)
  then show ?thesis using assms by (auto simp: add_element_range_def Let_def split_beta not_le)
qed

text \<open>A new element on text inserted at the cursor: its text is the inserted one, and the cursor is behind it.\<close>

lemma insert_parts:
  assumes "area_ok a" and "valid_utf8 txt" and "is_char_boundary (ta_text a) p" and "outside (ta_elements a) p"
    and "insert_str_at p txt a = Some b"
  shows "ta_text b = take p (ta_text a) @ txt @ drop p (ta_text a)" and "ta_next_element_id b = ta_next_element_id a"
    and "\<And>e. e \<in> set (ta_elements b) \<Longrightarrow> edit_part p p (length txt) (ta_elements a) mid e"
proof -
  note ok = area_okD [OF assms(1)]
  have b: "ta_text b = take p (ta_text a) @ txt @ drop p (ta_text a)" "ta_next_element_id b = ta_next_element_id a"
    "ta_elements b = shift_elements p (p - p) (length txt) (ta_elements a)"
    using assms(3-5) by (auto simp: insert_str_at_def clamp_nearest_id str_insert_def)
  then show "ta_text b = take p (ta_text a) @ txt @ drop p (ta_text a)" "ta_next_element_id b = ta_next_element_id a" by auto
  have le: "\<forall>e \<in> set (ta_elements a). te_start e \<le> te_end e" using elems_okD(1) [OF ok(4)] by blast
  fix e assume "e \<in> set (ta_elements b)"
  then have "e \<in> set (shift_elements p (p - p) (length txt) (ta_elements a))" using b(3) by simp
  then show "edit_part p p (length txt) (ta_elements a) mid e"
    by (cases rule: in_shift_elements [OF order_refl clear_at [OF ok(4) assms(4)] le, consumes 1])
      (auto simp: edit_part_def moved_def)
qed

lemma set_cursor_simps [simp]: "ta_elements (set_cursor p a) = ta_elements a" "payload (set_cursor p a) = payload a"
  by (simp_all add: set_cursor_def payload_def fun_eq_iff)

lemma set_cursor_free: "area_ok a \<Longrightarrow> cursor_free (set_cursor p a)"
  using clamp_nearest(2) [OF area_okD(4)] by (simp add: set_cursor_def cursor_free_def)

lemma insert_element_ok:
  assumes "area_ok a" and "valid_utf8 txt"
  shows "returns (insert_element txt a) (\<lambda>(i, b). area_ok b \<and> cursor_free b \<and>
    (\<exists>e \<in> set (ta_elements b). te_id e = i \<and> te_end e = te_start e + length txt \<and> payload b e = txt))"
proof -
  define p where "p = clamp_pos_to_nearest_boundary a (ta_cursor_pos a)"
  note ok = area_okD [OF assms(1)]
  have p: "is_char_boundary (ta_text a) p" "outside (ta_elements a) p" using clamp_nearest [OF ok(4)] by (auto simp: p_def)
  obtain b where b: "insert_str_at p txt a = Some b" "area_ok b"
    using insert_keeps [OF assms, of p] keeps_ok by (auto simp: returns_iff)
  define m where "m = \<lparr>te_id = ta_next_element_id b, te_start = p, te_end = p + length txt\<rparr>"
  note parts = insert_parts(1,2) [OF assms p b(1)] insert_parts(3) [OF assms p b(1), where mid = "Some m"]
  have ed: "edit_part p p (length txt) (ta_elements a) (Some m) m" by (simp add: edit_part_def)
  note ps = edit_parts [OF ok(1) assms(2) p(1,1) order_refl ok(4), where mid = "Some m", folded parts(1)]
  have "elems_ok (ta_text b) (sort_key te_start (ta_elements b @ [m]))"
    by (rule elems_ok_sort) (use parts(3) ed in \<open>auto simp: m_def intro!: ps(1) ps(2)\<close>)
  moreover define c where "c = snd (add_element (p, p + length txt) b)"
  ultimately have "area_ok c" using b(2) by (simp add: add_element_eq area_ok_def m_def)
  moreover have "payload c m = txt" "m \<in> set (ta_elements c)"
    using boundary_le [OF p(1)] by (simp_all add: payload_def m_def c_def add_element_eq parts(1))
  moreover have "insert_element txt a = Some (te_id m, set_cursor (p + length txt) c)"
    by (simp add: insert_element_def p_def [symmetric] b(1) split_beta Let_def c_def m_def add_element_eq)
  ultimately show ?thesis
    using keeps_ok [OF set_cursor_keeps] set_cursor_free by (auto simp: m_def intro!: bexI [of _ m])
qed

text \<open>Renaming an element: the others move with the text behind it.\<close>

lemma first_index_Some: "first_index P xs = Some i \<Longrightarrow> i < length xs \<and> P (xs ! i)"
  by (induction xs arbitrary: i) (auto split: if_splits)

lemma shift_other_part:
  assumes "elems_ok s es" and "e \<in> set es" and "f \<in> set es"
  shows "edit_part (te_start e) (te_end e) n es (Some (e\<lparr>te_start := te_start e, te_end := te_start e + n\<rparr>))
    (shift_other (te_start e) (te_end e) n f)"
proof (cases "f = e")
  case True
  have le: "te_start e \<le> te_end e" using elems_okD(1) [OF assms(1,2)] .
  show ?thesis
  proof (cases "te_start e = te_end e")
    case True
    then show ?thesis using \<open>f = e\<close> assms(2) by (simp add: shift_other_def edit_part_def)
  next
    case False
    then have "shift_other (te_start e) (te_end e) n e = e\<lparr>te_start := te_start e, te_end := te_start e + n\<rparr>"
      using le by (auto simp: shift_other_def Let_def of_nat_diff)
    then show ?thesis using \<open>f = e\<close> by (simp add: edit_part_def)
  qed
next
  case False
  have le: "te_start e \<le> te_end e" "te_start f \<le> te_end f" using elems_okD(1) [OF assms(1)] assms(2,3) by auto
  then consider "te_end f \<le> te_start e" | "te_end e \<le> te_start f" "\<not> te_end f \<le> te_start e"
    using elems_okD(5) [OF assms] False by fastforce
  then show ?thesis
  proof cases
    case 1
    then show ?thesis using assms(3) by (simp add: shift_other_def edit_part_def)
  next
    case 2
    then have "shift_other (te_start e) (te_end e) n f = moved (te_start e) (te_end e) n f"
      using le shifted [OF le(1), of "te_start f" n] shifted [OF le(1), of "te_end f" n]
      by (cases "int n - int (te_end e - te_start e) = 0") (simp_all add: shift_other_def moved_def Let_def)
    then show ?thesis using 2 assms(3) by (auto simp: edit_part_def)
  qed
qed

lemma nearest_boundary: "is_char_boundary (ta_text a) (clamp_pos_to_nearest_boundary a p)"
  by (auto simp: clamp_pos_to_nearest_boundary_def Let_def split: option.splits)

lemma replace_payload_ok:
  assumes "area_ok a" and "valid_utf8 new"
  shows "returns (replace_element_payload old new a) (\<lambda>(found, b). area_ok b)"
proof (cases "first_index (\<lambda>e. str_get (ta_text a) (te_start e) (te_end e) = Some old) (ta_elements a)")
  case (Some i)
  note ok = area_okD [OF assms(1)]
  define e where "e = ta_elements a ! i"
  define m where "m = e\<lparr>te_start := te_start e, te_end := te_start e + length new\<rparr>"
  define es where "es = map (\<lambda>(j, e'). if j = i then e'\<lparr>te_start := te_start e, te_end := te_start e + length new\<rparr>
      else shift_other (te_start e) (te_end e) (length new) e') (enumerate 0 (ta_elements a))"
  have e: "e \<in> set (ta_elements a)" "i < length (ta_elements a)" using first_index_Some [OF Some] by (auto simp: e_def)
  note b = elems_okD(1-4) [OF ok(4) e(1)]
  have part: "edit_part (te_start e) (te_end e) (length new) (ta_elements a) (Some m) f" if f: "f \<in> set es" for f
  proof -
    obtain x where x: "x \<in> set (enumerate 0 (ta_elements a))"
      "f = (if fst x = i then (snd x)\<lparr>te_start := te_start e, te_end := te_start e + length new\<rparr>
        else shift_other (te_start e) (te_end e) (length new) (snd x))"
      using f by (auto simp: es_def split_beta)
    have j: "fst x < length (ta_elements a)" "snd x = ta_elements a ! fst x" using x(1) by (auto simp: in_set_enumerate_eq)
    show ?thesis
      using shift_other_part [OF ok(4) e(1) nth_mem [OF j(1)], of "length new", folded m_def] j(2) x(2)
      by (cases "fst x = i") (simp_all add: edit_part_def m_def e_def)
  qed
  note ps = edit_parts [OF ok(1) assms(2) b(2,3,1) ok(4), where mid = "Some m"]
  have "elems_ok (take (te_start e) (ta_text a) @ new @ drop (te_end e) (ta_text a)) (sort_key te_start es)"
    by (rule elems_ok_sort) (use part in \<open>auto simp: m_def intro!: ps(1) ps(2)\<close>)
  moreover define a1 where "a1 = a\<lparr>ta_text := take (te_start e) (ta_text a) @ new @ drop (te_end e) (ta_text a), ta_wrap_cache := None,
    ta_preferred_col := None, ta_elements := es\<rparr>"
  moreover have "replace_element_payload old new a = Some (True, a1\<lparr>ta_cursor_pos := clamp_pos_to_nearest_boundary a1
      (cursor_after (te_start e) (te_end e) (length new) (ta_cursor_pos a)), ta_elements := sort_key te_start es\<rparr>)"
    using Some b by (simp add: replace_element_payload_def e_def [symmetric] es_def [symmetric] Let_def str_replace_def a1_def not_less)
  ultimately show ?thesis
    using ok replace_valid [OF ok(1) assms(2) b(2,3)] nearest_boundary [of a1] by (simp add: area_ok_def a1_def)
qed (use assms(1) in \<open>simp add: replace_element_payload_def\<close>)

section \<open>A new text\<close>

definition span :: "text_elem \<Rightarrow> nat \<times> nat" where
  "span e = (te_start e, te_end e)"

definition element_span :: "text_element \<Rightarrow> nat \<times> nat" where
  "element_span el = (range_start (element_range el), range_end (element_range el))"

definition ranges_apart :: "nat \<times> nat \<Rightarrow> nat \<times> nat \<Rightarrow> bool" where
  "ranges_apart r q \<longleftrightarrow> snd r \<le> fst q \<or> snd q \<le> fst r"

text \<open>Elements for a text: on character boundaries and not over each other. The code does not check the latter.\<close>

definition elements_fit :: "rstr \<Rightarrow> text_element list \<Rightarrow> bool" where
  "elements_fit txt els \<longleftrightarrow> list_all (\<lambda>el. bounds_ok txt (element_span el)) els \<and> sorted_wrt ranges_apart (map element_span els)"

lemma push_fold:
  assumes "list_all (\<lambda>el. bounds_ok (ta_text a) (element_span el)) els"
  shows "\<exists>n es. fold push_user_element els a = a\<lparr>ta_next_element_id := n, ta_elements := ta_elements a @ es\<rparr> \<and>
    map span es = filter (\<lambda>r. fst r < snd r) (map element_span els)"
  using assms
proof (induction els arbitrary: a)
  case Nil
  show ?case by (rule exI [of _ "ta_next_element_id a"], rule exI [of _ "[]"]) simp
next
  case (Cons el els)
  let ?r = "element_range el"
  define e where "e = \<lparr>te_id = ta_next_element_id a, te_start = range_start ?r, te_end = range_end ?r\<rparr>"
  have b: "is_char_boundary (ta_text a) (range_start ?r)" "is_char_boundary (ta_text a) (range_end ?r)"
    using Cons.prems by (auto simp: bounds_ok_def element_span_def)
  have le: "range_start ?r \<le> length (ta_text a)" "range_end ?r \<le> length (ta_text a)" using b boundary_le by auto
  have push: "push_user_element el a = (if range_start ?r < range_end ?r
      then a\<lparr>ta_next_element_id := saturating_add (ta_next_element_id a) 1, ta_elements := ta_elements a @ [e]\<rparr> else a)"
    using b le by (simp add: push_user_element_def Let_def next_element_id_def e_def)
  have all: "list_all (\<lambda>x. bounds_ok (ta_text (push_user_element el a)) (element_span x)) els"
    "ta_text (push_user_element el a) = ta_text a" using Cons.prems by (simp_all add: push list_all_iff)
  then obtain n es where ih: "fold push_user_element els (push_user_element el a) =
      (push_user_element el a)\<lparr>ta_next_element_id := n, ta_elements := ta_elements (push_user_element el a) @ es\<rparr>"
    "map span es = filter (\<lambda>r. fst r < snd r) (map element_span els)"
    using Cons.IH [of "push_user_element el a"] Cons.prems by auto
  have span_of: "element_span el = (range_start ?r, range_end ?r)" "span e = element_span el"
    by (simp_all add: element_span_def span_def e_def)
  show ?case
  proof (cases "range_start ?r < range_end ?r")
    case True
    then show ?thesis using ih by (intro exI [of _ n] exI [of _ "e # es"]) (simp add: push span_of)
  next
    case False
    then show ?thesis using ih by (intro exI [of _ n] exI [of _ es]) (simp add: push span_of)
  qed
qed

lemma sorted_wrt_sets: "sorted_wrt R xs \<Longrightarrow> x \<in> set xs \<Longrightarrow> y \<in> set xs \<Longrightarrow> x \<noteq> y \<Longrightarrow> R x y \<or> R y x"
  by (induction xs) auto

lemma set_text_eq:
  assumes "list_all (\<lambda>el. bounds_ok txt (element_span el)) els"
  obtains n es c where "set_text_with_elements txt els a =
      a\<lparr>ta_text := txt, ta_cursor_pos := c, ta_next_element_id := n, ta_elements := sort_key te_start es, ta_wrap_cache := None,
        ta_preferred_col := None\<rparr>"
    and "map span es = filter (\<lambda>r. fst r < snd r) (map element_span els)" and "is_char_boundary txt c"
proof -
  let ?a = "a\<lparr>ta_text := txt, ta_cursor_pos := min (ta_cursor_pos a) (length txt), ta_elements := []\<rparr>"
  have "list_all (\<lambda>el. bounds_ok (ta_text ?a) (element_span el)) els" using assms by simp
  from push_fold [OF this] obtain n es where es: "fold push_user_element els ?a = ?a\<lparr>ta_next_element_id := n, ta_elements := es\<rparr>"
    "map span es = filter (\<lambda>r. fst r < snd r) (map element_span els)" by auto
  let ?b = "?a\<lparr>ta_next_element_id := n, ta_elements := sort_key te_start es\<rparr>"
  have "is_char_boundary txt (clamp_pos_to_nearest_boundary ?b (ta_cursor_pos ?b))" using nearest_boundary [of ?b "ta_cursor_pos ?b"] by simp
  moreover have "set_text_with_elements txt els a =
      a\<lparr>ta_text := txt, ta_cursor_pos := clamp_pos_to_nearest_boundary ?b (ta_cursor_pos ?b), ta_next_element_id := n,
        ta_elements := sort_key te_start es, ta_wrap_cache := None, ta_preferred_col := None\<rparr>"
    by (simp add: set_text_with_elements_def set_text_inner_def Let_def es(1))
  ultimately show thesis using that es(2) by blast
qed

lemma spans_ok:
  assumes "elements_fit txt els" and "map span es = filter (\<lambda>r. fst r < snd r) (map element_span els)"
  shows "elems_ok txt (sort_key te_start es)"
proof (rule elems_ok_sort)
  show "elem_ok txt e" if "e \<in> set es" for e
  proof -
    have "span e \<in> set (map span es)" using that by simp
    then have "span e \<in> set (map element_span els)" by (simp only: assms(2)) auto
    then have "bounds_ok txt (span e)" using assms(1) by (auto simp: elements_fit_def list_all_iff)
    then show ?thesis by (simp add: bounds_ok_def elem_ok_def span_def)
  qed
  have "sorted_wrt ranges_apart (map span es)" using assms(1) sorted_wrt_filter unfolding assms(2) elements_fit_def by blast
  then have "sorted_wrt apart es" by (simp add: sorted_wrt_map ranges_apart_def span_def apart_def [abs_def])
  then show "apart e f" if "e \<in> set es" "f \<in> set es" "e \<noteq> f" for e f
    using sorted_wrt_sets [of apart es e f] that apart_sym by blast
qed

lemma set_text_with_elements_ok:
  assumes "area_ok a" and "valid_utf8 txt" and "elements_fit txt els"
  shows "area_ok (set_text_with_elements txt els a)"
proof -
  have fit: "list_all (\<lambda>el. bounds_ok txt (element_span el)) els" using assms(3) by (simp add: elements_fit_def)
  obtain n es c where "set_text_with_elements txt els a =
      a\<lparr>ta_text := txt, ta_cursor_pos := c, ta_next_element_id := n, ta_elements := sort_key te_start es, ta_wrap_cache := None,
        ta_preferred_col := None\<rparr>"
    and "map span es = filter (\<lambda>r. fst r < snd r) (map element_span els)" and "is_char_boundary txt c"
    by (rule set_text_eq [OF fit])
  then show ?thesis using assms spans_ok [OF assms(3)] by (simp add: area_ok_def)
qed

lemma set_text_clearing_ok: "area_ok a \<Longrightarrow> valid_utf8 txt \<Longrightarrow> area_ok (set_text_clearing_elements txt a)"
  using nearest_boundary [of "a\<lparr>ta_text := txt, ta_cursor_pos := min (ta_cursor_pos a) (length txt), ta_elements := []\<rparr>"]
  by (simp add: set_text_clearing_elements_def set_text_inner_def Let_def area_ok_def elems_ok_def)

section \<open>Killing and yanking\<close>

lemma insert_str_free:
  assumes "area_ok a" and "cursor_free a"
  shows "insert_str txt a = Some (a\<lparr>ta_text := take (ta_cursor_pos a) (ta_text a) @ txt @ drop (ta_cursor_pos a) (ta_text a),
    ta_wrap_cache := None, ta_cursor_pos := ta_cursor_pos a + length txt,
    ta_elements := shift_elements (ta_cursor_pos a) 0 (length txt) (ta_elements a), ta_preferred_col := None\<rparr>)"
  using clamp_nearest_id [OF area_okD(3) [OF assms(1)]] area_okD(3) [OF assms(1)] assms(2)
  by (simp add: insert_str_def insert_str_at_def str_insert_def cursor_free_def Let_def)

text \<open>After a kill around the cursor, the killed text is in the buffer and the cursor where it was taken out.\<close>

lemma kill_around:
  assumes "area_ok a" and "is_char_boundary (ta_text a) s" and "is_char_boundary (ta_text a) t" and "s < t"
    and "s \<le> ta_cursor_pos a" and "ta_cursor_pos a \<le> t" and "expand_range_to_element_boundaries a (s, t) = (s', t')"
  shows "returns (kill_range_with_kind (s, t) kind a) (\<lambda>b. area_ok b \<and> cursor_free b \<and> ta_cursor_pos b = s' \<and>
    ta_text b = take s' (ta_text a) @ drop t' (ta_text a) \<and> ta_kill_buffer b = take (t' - s') (drop s' (ta_text a)))"
proof -
  note ok = area_okD [OF assms(1)] and ex = expand_range [OF assms(1) _ _ assms(7), simplified, OF assms(2,3)]
  have st: "s' < t'" "s' \<le> ta_cursor_pos a" "ta_cursor_pos a \<le> t'" "t' \<le> length (ta_text a)"
    using ex(3,4) assms(4-6) boundary_le [OF ex(2)] by auto
  let ?removed = "take (t' - s') (drop s' (ta_text a))"
  define a0 where "a0 = store_kill_buffer ?removed kind a"
  define a1 where "a1 = a0\<lparr>ta_text := take s' (ta_text a) @ drop t' (ta_text a), ta_wrap_cache := None, ta_preferred_col := None,
    ta_elements := shift_elements s' (t' - s') 0 (ta_elements a)\<rparr>"
  have es: "elems_ok (ta_text a1) (ta_elements a1)"
    using elems_ok_edit [OF ok(1) _ ex(1,2) _ ok(4) ex(5), of "[]"] st by (simp add: a1_def)
  have at: "is_char_boundary (ta_text a1) s'" using boundary_before_edit [OF ok(1) _ ex(1,2,1), of "[]"] by (simp add: a1_def)
  have le: "\<forall>e \<in> set (ta_elements a). te_start e \<le> te_end e" using elems_okD(1) [OF ok(4)] by blast
  have out: "outside (ta_elements a1) s'"
    unfolding outside_def
  proof
    fix e assume "e \<in> set (ta_elements a1)"
    then have "e \<in> set (shift_elements s' (t' - s') 0 (ta_elements a))" by (simp add: a1_def)
    then show "\<not> (te_start e < s' \<and> s' < te_end e)"
      by (cases rule: in_shift_elements [OF less_imp_le [OF st(1)] ex(5) le, consumes 1]) auto
  qed
  have run: "kill_range_with_kind (s, t) kind a = Some (a1\<lparr>ta_cursor_pos := s'\<rparr>)"
    using st ex(1,2) clamp_nearest_id [OF at out]
    by (simp add: kill_range_with_kind_def assms(7) str_get_returns replace_range_raw_def str_replace_def Let_def a0_def a1_def
        store_kill_buffer_def cursor_after_def min_absorb1)
  have "valid_utf8 ?removed" using part_valid [OF ok(1) ex(1,2)] st by simp
  then have "area_ok (a1\<lparr>ta_cursor_pos := s'\<rparr>)"
    using es at replace_valid [OF ok(1) _ ex(1,2), of "[]"] by (simp add: area_ok_def a1_def a0_def)
  then show ?thesis using out by (simp add: run cursor_free_def a1_def a0_def)
qed

section \<open>Measuring\<close>

lemma cache_ok: "area_ok a \<Longrightarrow> lines_ok (ta_text a) (wc_lines c) \<Longrightarrow> area_ok (a\<lparr>ta_wrap_cache := Some c\<rparr>)"
  by (simp add: area_ok_def)

lemma wrapped_lines_ok:
  assumes "text_laws api" and "area_ok a" and "0 < w"
  shows "returns (wrapped_lines api w a) (\<lambda>(b, ls). area_ok b \<and> lines_ok (ta_text b) ls \<and> (\<exists>c. b = a\<lparr>ta_wrap_cache := c\<rparr>))"
proof -
  note ok = area_okD [OF assms(2)]
  have "list_all (slice_of (ta_text a)) (api_wrap api (ta_text a) w)"
    using text_lawsD(3) [OF assms(1) ok(1) assms(3)] by (simp add: slices_ok_def)
  from wrap_loop_ok [OF ok(1) boundary_ends(1) this, of "[]" "[]"]
  have wrap: "returns (wrap_ranges (ta_text a) [] [] (api_wrap api (ta_text a) w)) (lines_ok (ta_text a))"
    unfolding wrap_ranges_def by (rule returns_weaken) simp
  have "a = a\<lparr>ta_wrap_cache := ta_wrap_cache a\<rparr>" by simp
  then have same: "\<exists>c. a = a\<lparr>ta_wrap_cache := c\<rparr>" by (rule exI)
  have recalc: "returns (wrap_ranges (ta_text a) [] [] (api_wrap api (ta_text a) w) \<bind>
      (\<lambda>lines. Some (a\<lparr>ta_wrap_cache := Some \<lparr>wc_width = w, wc_lines = lines\<rparr>\<rparr>, lines)))
      (\<lambda>(b, ls). area_ok b \<and> lines_ok (ta_text b) ls \<and> (\<exists>c. b = a\<lparr>ta_wrap_cache := c\<rparr>))"
    by (rule returns_then [OF wrap]) (use cache_ok [OF assms(2)] in auto)
  show ?thesis
  proof (cases "ta_wrap_cache a")
    case None
    then show ?thesis using recalc by (simp add: wrapped_lines_def Let_def del: returns_bind)
  next
    case (Some c)
    then show ?thesis using recalc area_okD(6) [OF assms(2) Some] assms(2) same by (simp add: wrapped_lines_def Let_def del: returns_bind)
  qed
qed

text \<open>The line of the cursor, the first when there is none.\<close>

definition cursor_line :: "(nat \<times> nat) list \<Rightarrow> text_area \<Rightarrow> nat" where
  "cursor_line lines a = (case wrapped_line_index_by_start lines (ta_cursor_pos a) of None \<Rightarrow> 0 | Some i \<Rightarrow> i)"

lemma cursor_line_less: "lines \<noteq> [] \<Longrightarrow> cursor_line lines a < length lines"
  using wrapped_index(1) by (auto simp: cursor_line_def split: option.splits)

lemma scroll_ok:
  assumes "length lines < 65536"
  shows "returns (effective_scroll h lines sc a) (\<lambda>x. (length lines \<le> h \<longrightarrow> x = 0) \<and> (0 < h \<longrightarrow> x \<le> length lines - h) \<and>
    (0 < h \<longrightarrow> x \<le> cursor_line lines a \<and> cursor_line lines a < x + h))"
proof (cases "length lines \<le> h")
  case True
  then show ?thesis
    using assms cursor_line_less [of lines a] by (cases "lines = []") (auto simp: effective_scroll_def u16_of_def cursor_line_def wrapped_line_index_by_start_def)
next
  case False
  then have "cursor_line lines a < length lines" using cursor_line_less [of lines a] by (cases "lines = []") auto
  then show ?thesis
    using assms False unfolding effective_scroll_def cursor_line_def [symmetric] u16_of_def u16_add_def Let_def
    by auto
qed

section \<open>Calls\<close>

text \<open>What the owner of a text area does with it, between keys.\<close>

datatype area_call =
    CallKey key_event | CallInsertStr rstr | CallInsertStrAt nat rstr | CallReplaceRange "nat \<times> nat" rstr | CallSetCursor nat
  | CallSetText rstr | CallSetTextWithElements rstr "text_element list" | CallInsertElement rstr
  | CallReplaceElementPayload rstr rstr | CallAddElementRange "nat \<times> nat" | CallRemoveElementRange "nat \<times> nat"
  | CallDeleteBackward nat | CallDeleteForward nat | CallDesiredHeight nat | CallSetVimEnabled bool | CallEnterVimInsert
  | CallEnterVimNormal | CallSetKeymap runtime_keymap

definition perform_call :: "text_api \<Rightarrow> area_call \<Rightarrow> text_area \<Rightarrow> text_area option" where
  "perform_call api call a =
     (case call of
        CallKey ev \<Rightarrow> input api ev a
      | CallInsertStr txt \<Rightarrow> insert_str txt a
      | CallInsertStrAt p txt \<Rightarrow> insert_str_at p txt a
      | CallReplaceRange r txt \<Rightarrow> replace_range r txt a
      | CallSetCursor p \<Rightarrow> Some (set_cursor p a)
      | CallSetText txt \<Rightarrow> Some (set_text_clearing_elements txt a)
      | CallSetTextWithElements txt els \<Rightarrow> Some (set_text_with_elements txt els a)
      | CallInsertElement txt \<Rightarrow> map_option snd (insert_element txt a)
      | CallReplaceElementPayload old new \<Rightarrow> map_option snd (replace_element_payload old new a)
      | CallAddElementRange r \<Rightarrow> Some (snd (add_element_range r a))
      | CallRemoveElementRange r \<Rightarrow> Some (snd (remove_element_range r a))
      | CallDeleteBackward n \<Rightarrow> delete_backward api n a
      | CallDeleteForward n \<Rightarrow> delete_forward api n a
      | CallDesiredHeight w \<Rightarrow> map_option fst (desired_height api w a)
      | CallSetVimEnabled on \<Rightarrow> Some (set_vim_enabled on a)
      | CallEnterVimInsert \<Rightarrow> Some (enter_vim_insert_mode a)
      | CallEnterVimNormal \<Rightarrow> Some (enter_vim_normal_mode a)
      | CallSetKeymap km \<Rightarrow> Some (set_keymap_bindings km a))"

text \<open>What a caller owes: strings are UTF-8, a replaced range lies on character boundaries, elements do not overlap.\<close>

definition call_ok :: "area_call \<Rightarrow> text_area \<Rightarrow> bool" where
  "call_ok call a =
     (case call of
        CallKey ev \<Rightarrow> event_ok ev
      | CallInsertStr txt \<Rightarrow> valid_utf8 txt
      | CallInsertStrAt p txt \<Rightarrow> valid_utf8 txt
      | CallReplaceRange r txt \<Rightarrow> valid_utf8 txt \<and> bounds_ok (ta_text a) r
      | CallSetText txt \<Rightarrow> valid_utf8 txt
      | CallSetTextWithElements txt els \<Rightarrow> valid_utf8 txt \<and> elements_fit txt els
      | CallInsertElement txt \<Rightarrow> valid_utf8 txt
      | CallReplaceElementPayload old new \<Rightarrow> valid_utf8 new
      | CallDesiredHeight w \<Rightarrow> 0 < w
      | _ \<Rightarrow> True)"

lemma modes_ok [simp]:
  "area_ok (set_vim_enabled on a) = area_ok a" "area_ok (enter_vim_insert_mode a) = area_ok a"
  "area_ok (enter_vim_normal_mode a) = area_ok a" "area_ok (set_keymap_bindings km a) = area_ok a"
  by (simp_all add: area_ok_def set_vim_enabled_def enter_vim_insert_mode_def enter_vim_normal_mode_def set_keymap_bindings_def)

lemma returns_map: "returns (map_option f m) P = returns m (\<lambda>x. P (f x))"
  by (cases m) simp_all

lemma keeps_area: "returns m (keeps a) \<Longrightarrow> returns m area_ok"
  using keeps_ok by (auto elim: returns_weaken)

lemma height_ok:
  assumes "text_laws api" and "area_ok a" and "0 < w"
  shows "returns (desired_height api w a) (\<lambda>x. area_ok (fst x))"
  unfolding desired_height_def by (rule returns_then [OF wrapped_lines_ok [OF assms]]) auto

lemma perform_call_ok:
  assumes "text_laws api" and "area_ok a" and "call_ok call a"
  shows "returns (perform_call api call a) area_ok"
proof (cases call)
  case (CallReplaceRange r w)
  then show ?thesis
    using assms replace_keeps [OF assms(2), of w "fst r" "snd r"] keeps_area by (simp add: perform_call_def call_ok_def bounds_ok_def)
next
  case (CallInsertElement w)
  then show ?thesis
    using assms insert_element_ok [OF assms(2), of w] by (auto simp: perform_call_def call_ok_def returns_map split_beta elim: returns_weaken)
next
  case (CallReplaceElementPayload old new)
  then show ?thesis
    using assms replace_payload_ok [OF assms(2), of new old] by (auto simp: perform_call_def call_ok_def returns_map split_beta elim: returns_weaken)
qed (use assms keeps_area [OF input_keeps [OF assms(1,2)]] keeps_area [OF insert_str_keeps [OF assms(2)]] keeps_area [OF insert_keeps [OF assms(2)]]
    keeps_area [OF delete_keeps(1) [OF assms(1,2)]] keeps_area [OF delete_keeps(2) [OF assms(1,2)]] keeps_ok [OF set_cursor_keeps [OF assms(2)]]
    set_text_clearing_ok [OF assms(2)] set_text_with_elements_ok [OF assms(2)] add_element_range_ok [OF assms(2)]
    remove_element_ok [OF assms(2)] height_ok [OF assms(1,2)] in
  \<open>simp_all add: perform_call_def call_ok_def returns_map\<close>)

end
