(* ===== verification/Text_Safety.thy ===== *)
theory Text_Safety
  imports Text_Calls
begin

text \<open>
  The properties of the text area, and a segmentation for which its laws hold: every character is a
  grapheme, a text is one word and one line.
\<close>

section \<open>A segmentation\<close>

definition char_text_api :: text_api where
  "char_text_api =
     \<lparr>api_prev_boundary = (\<lambda>s k. Ok (if k = 0 then None else Some (boundary_below s (k - 1)))),
      api_next_boundary = (\<lambda>s k. Ok (if k \<ge> length s then None else Some (boundary_above s (k + 1)))),
      api_graphemes = chars, api_word_bounds = (\<lambda>s. [s]), api_width = (\<lambda>s. length (chars s)),
      api_wrap = (\<lambda>s w. [BorrowedLine s (Some (0, length s))])\<rparr>"

lemma char_text_laws: "text_laws char_text_api"
proof -
  have "boundary_below s (k - 1) < k" if "k \<noteq> 0" for s k using boundary_below_ok(2) [of s "k - 1"] that by linarith
  moreover have "k < boundary_above s (Suc k) \<and> is_char_boundary s (boundary_above s (Suc k))" if "\<not> length s \<le> k" for s k
    using boundary_above_ok [of "Suc k" s] that by auto
  ultimately show ?thesis
    using boundary_below_ok(1) chars_pieces
    by (auto simp: text_laws_def char_text_api_def slices_ok_def pieces_of_def)
qed

section \<open>Keys and calls\<close>

fun type_keys :: "text_api \<Rightarrow> key_event list \<Rightarrow> text_area \<Rightarrow> text_area option" where
  "type_keys api [] a = Some a"
| "type_keys api (ev # evs) a = do { b \<leftarrow> input api ev a; type_keys api evs b }"

lemma type_keys_keeps:
  assumes "text_laws api"
  shows "area_ok a \<Longrightarrow> list_all event_ok evs \<Longrightarrow> returns (type_keys api evs a) (keeps a)"
proof (induction evs arbitrary: a)
  case (Cons ev evs)
  have "returns (type_keys api evs b) (keeps a)" if "keeps a b" for b
    using keeps_lift [OF Cons.IH [OF keeps_ok [OF that]] that] Cons.prems(2) by simp
  then show ?case
    using returns_then [OF input_keeps [OF assms Cons.prems(1)], of ev "type_keys api evs" "keeps a"] Cons.prems(2) by simp
qed simp

inductive area_reachable :: "text_api \<Rightarrow> text_area \<Rightarrow> bool" for api where
  fresh: "area_reachable api text_area_new"
| call: "area_reachable api a \<Longrightarrow> call_ok c a \<Longrightarrow> perform_call api c a = Some b \<Longrightarrow> area_reachable api b"

lemma new_area_ok: "area_ok text_area_new"
  by (simp add: area_ok_def text_area_new_def elems_ok_def valid_utf8_Nil)

lemma reachable_ok:
  assumes "text_laws api"
  shows "area_reachable api a \<Longrightarrow> area_ok a"
proof (induction rule: area_reachable.induct)
  case (call a c b)
  then show ?case using perform_call_ok [OF assms] by (metis returns_simps(1))
qed (rule new_area_ok)

text \<open>
  C21. Whatever keys are pressed in whatever mode, the text area does not panic. Its text stays valid UTF-8
  with the cursor and all element ends on character boundaries and elements apart; every element left has
  the text it had; and a cursor outside the elements, none of which spans lines, stays outside them.
\<close>

theorem keys_keep_text_area:
  assumes "text_laws api" and "area_ok a" and "list_all event_ok evs"
  shows "returns (type_keys api evs a) (\<lambda>b. area_ok b \<and> kept a b \<and> (cursor_free a \<and> single_line a \<longrightarrow> cursor_free b))"
  using type_keys_keeps [OF assms] by (rule returns_weaken) (simp add: keeps_def)

text \<open>Three keys in a new area: two letters, one of them of two bytes, and Ctrl-W.\<close>

definition sample_keys :: "key_event list" where
  "sample_keys =
     [\<lparr>event_code = KeyChar ''a'', event_modifiers = mods_none, event_kind = KeyPress\<rparr>,
      \<lparr>event_code = KeyChar [CHR 0xC3, CHR 0xA9], event_modifiers = mods_none, event_kind = KeyRepeat\<rparr>,
      \<lparr>event_code = KeyChar ''w'', event_modifiers = mods_none\<lparr>mod_control := True\<rparr>, event_kind = KeyPress\<rparr>]"

theorem keys_keep_text_area_witness:
  "\<exists>b. type_keys char_text_api sample_keys text_area_new = Some b \<and> area_ok b \<and> cursor_free b"
proof -
  have "list_all event_ok sample_keys" by code_simp
  moreover have "cursor_free text_area_new" "single_line text_area_new"
    by (simp_all add: cursor_free_def single_line_def outside_def text_area_new_def)
  ultimately show ?thesis
    using keys_keep_text_area [OF char_text_laws new_area_ok] by (auto simp: returns_iff)
qed

text \<open>
  C22. From a new text area, any sequence of keys, edits, new texts, and operations on elements and modes,
  whose arguments are in order, leads to a state in which the next such call returns, and keeps the
  invariant of the area.
\<close>

theorem reachable_area_calls:
  assumes "text_laws api" and "area_reachable api a" and "call_ok c a"
  shows "\<exists>b. perform_call api c a = Some b \<and> area_ok b \<and> area_reachable api b"
  using perform_call_ok [OF assms(1) reachable_ok [OF assms(1,2)] assms(3)] area_reachable.call [OF assms(2,3)]
  by (auto simp: returns_iff)

theorem reachable_area_calls_witness:
  "\<exists>a b. perform_call char_text_api (CallInsertElement ''[Image #1]'') text_area_new = Some a \<and>
     perform_call char_text_api (CallReplaceElementPayload ''[Image #1]'' ''[x]'') a = Some b \<and> area_ok b"
proof -
  have valid: "valid_utf8 ''[Image #1]''" "valid_utf8 ''[x]''" by code_simp+
  note step = reachable_area_calls [OF char_text_laws]
  obtain a where a: "perform_call char_text_api (CallInsertElement ''[Image #1]'') text_area_new = Some a" "area_reachable char_text_api a"
    using step [OF area_reachable.fresh, of "CallInsertElement ''[Image #1]''"] valid by (auto simp: call_ok_def)
  then show ?thesis
    using step [OF a(2), of "CallReplaceElementPayload ''[Image #1]'' ''[x]''"] valid by (auto simp: call_ok_def)
qed

section \<open>Round trips\<close>

text \<open>
  C23. What is killed around the cursor comes back: after a kill, a yank puts the text back as it was, with the
  cursor at the end of the killed part, which covers every element it touches.
\<close>

theorem kill_then_yank:
  assumes "area_ok a" and "is_char_boundary (ta_text a) s" and "is_char_boundary (ta_text a) t" and "s < t"
    and "s \<le> ta_cursor_pos a" and "ta_cursor_pos a \<le> t"
  shows "returns (kill_range_with_kind (s, t) kind a \<bind> yank) (\<lambda>b. ta_text b = ta_text a \<and> t \<le> ta_cursor_pos b \<and>
    ta_cursor_pos b = snd (expand_range_to_element_boundaries a (s, t)) \<and> area_ok b)"
proof -
  obtain s' t' where r: "expand_range_to_element_boundaries a (s, t) = (s', t')" by fastforce
  note ex = expand_range [OF assms(1) _ _ r, simplified, OF assms(2,3)]
  have st: "s' < t'" "t' \<le> length (ta_text a)" using ex(3,4) assms(4) boundary_le [OF ex(2)] by auto
  show ?thesis
  proof (rule returns_then [OF kill_around [OF assms r]], elim conjE)
    fix b assume b: "area_ok b" "cursor_free b" "ta_cursor_pos b = s'" "ta_text b = take s' (ta_text a) @ drop t' (ta_text a)"
      "ta_kill_buffer b = take (t' - s') (drop s' (ta_text a))"
    have "take s' (ta_text a) @ take (t' - s') (drop s' (ta_text a)) @ drop t' (ta_text a) = ta_text a"
      using st by (metis append_assoc append_take_drop_id le_add_diff_inverse less_imp_le take_add)
    then show "returns (yank b) (\<lambda>b. ta_text b = ta_text a \<and> t \<le> ta_cursor_pos b \<and>
        ta_cursor_pos b = snd (expand_range_to_element_boundaries a (s, t)) \<and> area_ok b)"
      using b st ex(4) insert_str_free [OF b(1,2), of "ta_kill_buffer b"] keeps_area [OF yank_keeps [OF b(1)]]
      by (simp add: yank_def r min_absorb1)
  qed
qed

definition sample_area :: text_area where
  "sample_area = text_area_new\<lparr>ta_text := ''see [Image #1] now'', ta_cursor_pos := 4,
     ta_elements := [\<lparr>te_id = 1, te_start = 4, te_end = 14\<rparr>], ta_next_element_id := 2\<rparr>"

lemma sample_area_ok: "area_ok sample_area"
proof -
  have "valid_utf8 (ta_text sample_area)" "is_char_boundary (ta_text sample_area) 4" "is_char_boundary (ta_text sample_area) 14"
    by code_simp+
  then show ?thesis
    by (auto simp: area_ok_def sample_area_def text_area_new_def elems_ok_def elem_ok_def valid_utf8_Nil)
qed

theorem kill_then_yank_witness:
  "\<exists>b. (kill_range_with_kind (4, 8) Characterwise sample_area \<bind> yank) = Some b \<and> ta_text b = ''see [Image #1] now''"
proof -
  have "is_char_boundary (ta_text sample_area) 4" "is_char_boundary (ta_text sample_area) 8" by code_simp+
  from kill_then_yank [OF sample_area_ok this, of Characterwise] show ?thesis
    by (auto simp: returns_iff sample_area_def)
qed

text \<open>An element as the owner sees it, from its range.\<close>

definition element_of :: "rstr \<Rightarrow> nat \<times> nat \<Rightarrow> text_element" where
  "element_of s r = \<lparr>element_range = \<lparr>range_start = fst r, range_end = snd r\<rparr>, element_placeholder = str_get s (fst r) (snd r)\<rparr>"

lemma text_elements_eq: "text_elements a = map (element_of (ta_text a)) (map span (ta_elements a))"
  by (simp add: text_elements_def element_of_def span_def)

lemma element_spans: "element_span (element_of s r) = r" "map element_span (text_elements a) = map span (ta_elements a)"
  by (simp_all add: element_span_def element_of_def text_elements_def span_def)

text \<open>
  C24. A draft that is saved as its text and its elements, and put into any text area again, has the same text
  and the same elements with the same ranges and texts, those that cover no text apart. The text killed
  last can still be yanked.
\<close>

theorem restored_draft:
  assumes "area_ok a"
  shows "ta_text (set_text_with_elements (ta_text a) (text_elements a) b) = ta_text a \<and>
    text_elements (set_text_with_elements (ta_text a) (text_elements a) b) =
      filter (\<lambda>el. range_start (element_range el) < range_end (element_range el)) (text_elements a) \<and>
    ta_kill_buffer (set_text_with_elements (ta_text a) (text_elements a) b) = ta_kill_buffer b"
proof -
  let ?s = "ta_text a" and ?P = "\<lambda>r. fst r < snd r"
  note ok = area_okD(4) [OF assms]
  have bounds: "list_all (\<lambda>el. bounds_ok ?s (element_span el)) (text_elements a)"
    using elems_okD(1-3) [OF ok] by (auto simp: list_all_iff text_elements_def element_span_def bounds_ok_def)
  obtain n es c where new: "set_text_with_elements ?s (text_elements a) b =
      b\<lparr>ta_text := ?s, ta_cursor_pos := c, ta_next_element_id := n, ta_elements := sort_key te_start es, ta_wrap_cache := None,
        ta_preferred_col := None\<rparr>"
    and es: "map span es = filter ?P (map element_span (text_elements a))" and "is_char_boundary ?s c"
    by (rule set_text_eq [OF bounds])
  have "map te_start es = map fst (map span es)" by (simp add: span_def)
  also have "\<dots> = map te_start (filter (?P \<circ> span) (ta_elements a))"
    by (simp only: es element_spans filter_map map_map) (simp add: span_def comp_def)
  finally have "sorted (map te_start es)" using elems_okD(6) [OF ok] by (simp add: sorted_filter)
  then have sort: "sort_key te_start es = es" by (rule sort_key_id_if_sorted)
  have "map (element_of ?s) (map span es) = filter (?P \<circ> element_span) (map (element_of ?s) (map span (ta_elements a)))"
    by (simp only: es element_spans) (simp add: filter_map comp_def element_spans(1))
  then show ?thesis
    unfolding new sort by (simp add: text_elements_eq comp_def element_span_def)
qed

theorem restored_draft_witness:
  "text_elements (set_text_with_elements ''see [Image #1] now'' (text_elements sample_area) text_area_new) = text_elements sample_area"
proof -
  have "ta_text sample_area = ''see [Image #1] now''" by (simp add: sample_area_def)
  moreover have "filter (\<lambda>el. range_start (element_range el) < range_end (element_range el)) (text_elements sample_area) =
      text_elements sample_area" by (simp add: text_elements_def sample_area_def)
  ultimately show ?thesis using restored_draft [OF sample_area_ok, of text_area_new] by simp
qed

section \<open>Scrolling and wrapping\<close>

text \<open>
  The scroll offset keeps the cursor on the screen: an area of at least one row whose text has fewer than
  65536 lines is scrolled so that the line of the cursor is one of its rows, no further than the end of the
  text, and not at all when the text fits.
\<close>

theorem scroll_shows_cursor:
  assumes "length lines < 65536" and "0 < h"
  shows "returns (effective_scroll h lines sc a) (\<lambda>x. x \<le> cursor_line lines a \<and> cursor_line lines a < x + h \<and>
    x \<le> length lines - h)"
  using scroll_ok [OF assms(1), of h sc a] by (rule returns_weaken) (use assms(2) in simp)

theorem scroll_shows_cursor_witness:
  "\<exists>x. effective_scroll 2 [(0, 4), (4, 9), (9, 15), (15, 19)] 0 (sample_area\<lparr>ta_cursor_pos := 14\<rparr>) = Some x \<and> x \<le> 2 \<and> 2 < x + 2"
proof -
  let ?ls = "[(0, 4), (4, 9), (9, 15), (15, 19)]" and ?a = "sample_area\<lparr>ta_cursor_pos := 14\<rparr>"
  have "cursor_line ?ls ?a = 2" by (simp add: cursor_line_def wrapped_line_index_by_start_def)
  then show ?thesis using scroll_shows_cursor [of ?ls 2 0 ?a] by (auto simp: returns_iff)
qed

text \<open>
  Mapping wrapped lines back to the text does not panic, whatever lines the wrapping made itself: one
  range per line, starting and ending on character boundaries, with the sentinel byte behind its end.
\<close>

theorem wrapped_lines_are_ranges:
  assumes "valid_utf8 s" and "list_all (slice_of s) ls"
  shows "returns (wrap_ranges s i j ls) (\<lambda>rs. length rs = length ls \<and> lines_ok s rs) \<and>
    returns (wrap_ranges_trim s i j ls) (\<lambda>rs. length rs = length ls \<and> list_all (bounds_ok s) rs)"
  using wrap_loop_ok [OF assms(1) _ assms(2), of 0] trim_wrap_loop_ok [OF assms(1) _ assms(2), of 0]
  by (simp add: wrap_ranges_def wrap_ranges_trim_def)

theorem wrapped_lines_are_ranges_witness:
  "\<exists>rs. wrap_ranges ''ab  cdef'' [] [] [BorrowedLine ''ab'' (Some (0, 2)), OwnedLine ''cd-'', OwnedLine ''ef''] = Some rs \<and>
     length rs = 3 \<and> lines_ok ''ab  cdef'' rs"
proof -
  let ?ls = "[BorrowedLine ''ab'' (Some (0, 2)), OwnedLine ''cd-'', OwnedLine ''ef'']"
  have "valid_utf8 ''ab  cdef''" "list_all (slice_of ''ab  cdef'') ?ls" by code_simp+
  from wrapped_lines_are_ranges [OF this, of "[]" "[]"] show ?thesis by (auto simp: returns_iff)
qed

end
