(* ===== verification/Key_Specs.thy ===== *)
theory Key_Specs
  imports Key_Bindings Rust_Num
begin

text \<open>
  Key specifications as strings: how the configuration normalises what a user wrote
  (\<open>config/src/tui_keymap.rs\<close>), how a normalised specification becomes a binding
  (\<open>tui/src/keymap.rs\<close>), and how a captured key becomes a specification again
  (\<open>tui/src/keymap_setup.rs\<close>). Error messages are constructors with the values they quote.
\<close>

section \<open>Numbers and names\<close>

definition MAX_FUNCTION_KEY :: nat where
  "MAX_FUNCTION_KEY = 24"

definition is_digit :: "char \<Rightarrow> bool" where
  "is_digit c = (48 \<le> (of_char c :: nat) \<and> (of_char c :: nat) \<le> 57)"

definition digits_value :: "rstr \<Rightarrow> nat" where
  "digits_value = foldl (\<lambda>n c. 10 * n + (of_char c - 48)) 0"

text \<open>\<open>s.parse::<u8>()\<close>: an optional plus sign and decimal digits, at most 255.\<close>

definition parse_u8 :: "rstr \<Rightarrow> nat option" where
  "parse_u8 s =
     (let ds = (case strip_prefix ''+'' s of None \<Rightarrow> s | Some r \<Rightarrow> r)
      in if ds \<noteq> [] \<and> list_all is_digit ds \<and> digits_value ds \<le> 255 then Some (digits_value ds) else None)"

definition is_function_key :: "nat \<Rightarrow> bool" where
  "is_function_key n = (1 \<le> n \<and> n \<le> MAX_FUNCTION_KEY)"

definition is_ascii :: "rstr \<Rightarrow> bool" where
  "is_ascii ch = (case byte_of ch of None \<Rightarrow> False | Some b \<Rightarrow> b < 128)"

section \<open>Normalising what the user wrote\<close>

datatype spec_error =
    EmptyKeybinding
  | InvalidKeybinding rstr
  | DuplicateModifier rstr
  | MissingKey rstr
  | ModifierAfterKey rstr
  | UnknownKey rstr rstr

definition key_alias :: "rstr \<Rightarrow> rstr" where
  "key_alias key =
     (if key = ''escape'' then ''esc''
      else if key = ''return'' then ''enter''
      else if key = ''spacebar'' then ''space''
      else if key = ''pgup'' \<or> key = ''pageup'' then ''page-up''
      else if key = ''pgdn'' \<or> key = ''pagedown'' then ''page-down''
      else if key = ''del'' then ''delete''
      else key)"

definition named_keys :: "(rstr \<times> key_code) list" where
  "named_keys =
     [(''enter'', KeyEnter), (''tab'', KeyTab), (''backspace'', KeyBackspace), (''esc'', KeyEsc),
      (''delete'', KeyDelete), (''up'', KeyUp), (''down'', KeyDown), (''left'', KeyLeft),
      (''right'', KeyRight), (''home'', KeyHome), (''end'', KeyEnd), (''page-up'', KeyPageUp),
      (''page-down'', KeyPageDown), (''space'', KeyChar '' ''), (''minus'', KeyChar ''-'')]"

definition normalize_key_name :: "rstr \<Rightarrow> rstr \<Rightarrow> (spec_error, rstr) result" where
  "normalize_key_name key original =
     (let alias = key_alias key
      in if length alias = 1 \<and> is_ascii alias \<and> \<not> is_ascii_control alias \<and> alias \<noteq> ''-'' then Ok alias
         else if alias \<in> set (map fst named_keys) then Ok alias
         else case strip_prefix ''f'' alias of
                Some number \<Rightarrow>
                  (case parse_u8 number of
                     Some n \<Rightarrow> if is_function_key n then Ok alias else Err (UnknownKey key original)
                   | None \<Rightarrow> Err (UnknownKey key original))
              | None \<Rightarrow> Err (UnknownKey key original))"

record spec_state =
  seen_ctrl :: bool
  seen_alt :: bool
  seen_shift :: bool
  saw_key :: bool
  key_segments :: "rstr list"

definition spec_start :: spec_state where
  "spec_start = \<lparr>seen_ctrl = False, seen_alt = False, seen_shift = False, saw_key = False, key_segments = []\<rparr>"

definition is_modifier_name :: "rstr \<Rightarrow> bool" where
  "is_modifier_name s = (s \<in> {''ctrl'', ''control'', ''alt'', ''option'', ''shift''})"

text \<open>One turn of the loop over the segments: a modifier before the key may come once.\<close>

definition spec_segment :: "rstr \<Rightarrow> rstr \<Rightarrow> spec_state \<Rightarrow> (spec_error, spec_state) result" where
  "spec_segment raw segment st =
     (if \<not> saw_key st \<and> (segment = ''ctrl'' \<or> segment = ''control'') then
        if seen_ctrl st then Err (DuplicateModifier raw) else Ok (st\<lparr>seen_ctrl := True\<rparr>)
      else if \<not> saw_key st \<and> (segment = ''alt'' \<or> segment = ''option'') then
        if seen_alt st then Err (DuplicateModifier raw) else Ok (st\<lparr>seen_alt := True\<rparr>)
      else if \<not> saw_key st \<and> segment = ''shift'' then
        if seen_shift st then Err (DuplicateModifier raw) else Ok (st\<lparr>seen_shift := True\<rparr>)
      else Ok (st\<lparr>saw_key := True, key_segments := key_segments st @ [segment]\<rparr>))"

definition spec_parts :: "bool \<Rightarrow> bool \<Rightarrow> bool \<Rightarrow> rstr \<Rightarrow> rstr list" where
  "spec_parts ctrl alt shift key =
     (if ctrl then [''ctrl''] else []) @ (if alt then [''alt''] else []) @ (if shift then [''shift''] else []) @ [key]"

definition normalize_keybinding_spec :: "rstr \<Rightarrow> (spec_error, rstr) result" where
  "normalize_keybinding_spec raw =
     (let lower = to_ascii_lowercase (trim raw);
          segments = filter (\<lambda>s. s \<noteq> []) (split_on (CHR ''-'') lower)
      in if lower = [] then Err EmptyKeybinding
         else if segments = [] then Err (InvalidKeybinding raw)
         else and_then (fold_result (spec_segment raw) segments spec_start) (\<lambda>st.
              if key_segments st = [] then Err (MissingKey raw)
              else if list_ex is_modifier_name (key_segments st) then Err (ModifierAfterKey raw)
              else and_then (normalize_key_name (join_with ''-'' (key_segments st)) raw) (\<lambda>key.
              Ok (join_with ''-'' (spec_parts (seen_ctrl st) (seen_alt st) (seen_shift st) key)))))"

section \<open>From a specification to a binding\<close>

fun leading_modifiers :: "rstr list \<Rightarrow> key_modifiers \<Rightarrow> (key_modifiers \<times> rstr list) option" where
  "leading_modifiers [] modifiers = None"
| "leading_modifiers (part # ps) modifiers =
     (if part = ''ctrl'' then leading_modifiers ps (modifiers\<lparr>mod_control := True\<rparr>)
      else if part = ''alt'' then leading_modifiers ps (modifiers\<lparr>mod_alt := True\<rparr>)
      else if part = ''shift'' then leading_modifiers ps (modifiers\<lparr>mod_shift := True\<rparr>)
      else Some (modifiers, part # ps))"

definition key_named :: "rstr \<Rightarrow> key_code option" where
  "key_named name =
     (case map_of named_keys name of
        Some key \<Rightarrow> Some key
      | None \<Rightarrow>
          if length name = 1 then Some (KeyChar name)
          else (case strip_prefix ''f'' name of
                  None \<Rightarrow> None
                | Some number \<Rightarrow>
                    (case parse_u8 number of
                       None \<Rightarrow> None
                     | Some n \<Rightarrow> if is_function_key n then Some (KeyF n) else None)))"

definition parse_keybinding :: "rstr \<Rightarrow> key_binding option" where
  "parse_keybinding spec =
     (case leading_modifiers (split_on (CHR ''-'') spec) mods_none of
        None \<Rightarrow> None
      | Some (modifiers, key_parts) \<Rightarrow>
          map_option (\<lambda>key. \<lparr>binding_key = key, binding_modifiers = modifiers\<rparr>)
            (key_named (join_with ''-'' key_parts)))"

section \<open>From a captured key to a specification\<close>

datatype capture_error = UnsupportedModifiers | UnsupportedFunctionKey | NotPrintableAscii | UnsupportedKey

definition format_key_spec :: "key_modifiers \<Rightarrow> rstr \<Rightarrow> rstr" where
  "format_key_spec modifiers key =
     join_with ''-'' (spec_parts (mod_control modifiers) (mod_alt modifiers) (mod_shift modifiers) key)"

text \<open>
  Named keys are printed by name, function keys by number, other keys as the character, in
  lower case with the shift modifier.
\<close>

definition key_parts_to_config_key_spec :: "key_code \<Rightarrow> key_modifiers \<Rightarrow> (capture_error, rstr) result" where
  "key_parts_to_config_key_spec code modifiers0 =
     (let (code, modifiers) = normalize_key_parts code modifiers0
      in if mod_other modifiers \<noteq> 0 then Err UnsupportedModifiers
         else case map_of (map prod.swap named_keys) code of
                Some name \<Rightarrow> Ok (format_key_spec modifiers name)
              | None \<Rightarrow>
                  (case code of
                     KeyF n \<Rightarrow>
                       if is_function_key n then Ok (format_key_spec modifiers (''f'' @ decimal n))
                       else Err UnsupportedFunctionKey
                   | KeyChar ch \<Rightarrow>
                       if \<not> is_ascii ch \<or> is_ascii_control ch then Err NotPrintableAscii
                       else if is_ascii_uppercase ch then
                         Ok (format_key_spec (modifiers\<lparr>mod_shift := True\<rparr>) (to_ascii_lowercase ch))
                       else Ok (format_key_spec modifiers ch)
                   | _ \<Rightarrow> Err UnsupportedKey))"

definition binding_to_config_key_spec :: "key_binding \<Rightarrow> (capture_error, rstr) result" where
  "binding_to_config_key_spec b =
     (let (code, modifiers) = binding_parts b in key_parts_to_config_key_spec code modifiers)"

definition key_event_to_config_key_spec :: "key_event \<Rightarrow> (capture_error, rstr) result" where
  "key_event_to_config_key_spec ev = binding_to_config_key_spec (binding_from_event ev)"

section \<open>Trimming and lower case\<close>

definition visible :: "char \<Rightarrow> bool" where
  "visible c = (33 \<le> (of_char c :: nat) \<and> (of_char c :: nat) \<le> 126)"

lemma white_space_hd: "list_all (\<lambda>w. w \<noteq> [] \<and> \<not> visible (hd w)) white_space"
  by code_simp

lemma white_space_rev_hd: "list_all (\<lambda>w. w \<noteq> [] \<and> \<not> visible (hd w)) white_space_rev"
  by code_simp

lemma strip_lead_visible:
  assumes "list_all (\<lambda>w. w \<noteq> [] \<and> \<not> visible (hd w)) tbl" "visible c"
  shows "strip_lead tbl (c # cs) = c # cs"
proof -
  have "strip_prefix w (c # cs) = None" if "w \<in> set tbl" for w
    using assms that by (cases w) (auto simp: list_all_iff)
  then have "List.find (\<lambda>w. strip_prefix w (c # cs) \<noteq> None) tbl = None"
    by (simp add: find_None_iff_all)
  then have "lead_width tbl (c # cs) = 0" by (simp add: lead_width_def)
  then show ?thesis by simp
qed

lemma trim_visible:
  assumes "s \<noteq> []" "visible (hd s)" "visible (last s)"
  shows "trim s = s"
proof -
  obtain d ds where r: "rev s = d # ds" "d = last s"
    using assms(1) by (cases "rev s") (auto simp: rev_eq_Cons_iff)
  have "strip_lead white_space_rev (rev s) = rev s"
    unfolding r(1) using strip_lead_visible [OF white_space_rev_hd] assms(3) r(2) by blast
  then have "trim_end s = s" by (simp add: trim_end_def)
  moreover obtain c cs where s: "s = c # cs" using assms(1) by (cases s) auto
  have "strip_lead white_space s = s"
    unfolding s using strip_lead_visible [OF white_space_hd] assms(2) s by simp
  ultimately show ?thesis by (simp add: trim_def trim_start_def)
qed

definition no_upper :: "rstr \<Rightarrow> bool" where
  "no_upper s = (\<forall>c \<in> set s. \<not> (65 \<le> (of_char c :: nat) \<and> (of_char c :: nat) \<le> 90))"

lemma to_ascii_lowercase_id: "no_upper s \<Longrightarrow> to_ascii_lowercase s = s"
  unfolding no_upper_def to_ascii_lowercase_def Let_def by (rule map_idI) auto

lemma no_upper_lowercase: "no_upper (to_ascii_lowercase s)"
  by (auto simp: no_upper_def to_ascii_lowercase_def Let_def)

section \<open>Names of keys\<close>

text \<open>The keys a normalised specification may end with.\<close>

definition key_shape :: "rstr \<Rightarrow> bool" where
  "key_shape k \<longleftrightarrow>
     k \<in> set (map fst named_keys) \<or>
     (\<exists>c. k = [c] \<and> 32 \<le> (of_char c :: nat) \<and> (of_char c :: nat) \<le> 126 \<and> c \<noteq> CHR ''-'' \<and> no_upper [c]) \<or>
     (\<exists>num n. k = ''f'' @ num \<and> parse_u8 num = Some n \<and> is_function_key n)"

lemma parse_u8_chars: "parse_u8 num = Some n \<Longrightarrow> num \<noteq> [] \<and> (\<forall>c \<in> set num. is_digit c \<or> c = CHR ''+'')"
  by (auto simp: parse_u8_def Let_def list_all_iff strip_prefix_Some_iff split: option.splits if_splits)

lemma digit_or_plus: "is_digit c \<or> c = CHR ''+'' \<Longrightarrow> visible c \<and> c \<noteq> CHR ''-'' \<and> no_upper [c]"
  by (auto simp: is_digit_def visible_def no_upper_def)

definition bound_key :: "key_code \<Rightarrow> bool" where
  "bound_key key = (case key of KeyChar c \<Rightarrow> length c = 1 \<and> \<not> is_ascii_uppercase c \<and> \<not> is_ascii_control c | _ \<Rightarrow> True)"

lemma named_keys_facts:
  "list_all (\<lambda>(k, c).
     list_all (\<lambda>x. x \<noteq> [] \<and> \<not> is_modifier_name x) (split_on (CHR ''-'') k) \<and>
     normalize_key_name k [] = Ok k \<and> to_ascii_lowercase k = k \<and> k \<noteq> [] \<and> visible (hd k) \<and> visible (last k) \<and>
     key_named k = Some c \<and> bound_key c) named_keys"
  by code_simp

lemma normalize_key_name_raw: "normalize_key_name k raw = Ok x \<Longrightarrow> normalize_key_name k raw' = Ok x"
  by (auto simp: normalize_key_name_def Let_def split: if_splits option.splits)

lemma named_key:
  assumes "(k, c) \<in> set named_keys"
  shows "\<forall>x \<in> set (split_on (CHR ''-'') k). x \<noteq> [] \<and> \<not> is_modifier_name x" "normalize_key_name k raw = Ok k"
    "to_ascii_lowercase k = k" "k \<noteq> []" "visible (hd k)" "visible (last k)" "key_named k = Some c" "bound_key c"
  using named_keys_facts assms normalize_key_name_raw [of k "[]" k raw] by (fastforce simp: list_all_iff)+

lemma key_alias_other: "k \<notin> {''escape'', ''return'', ''spacebar'', ''pgup'', ''pageup'', ''pgdn'', ''pagedown'', ''del''} \<Longrightarrow> key_alias k = k"
  by (auto simp: key_alias_def)

lemma named_key_length: "(k, c) \<in> set named_keys \<Longrightarrow> length k > 1 \<and> (hd k \<noteq> CHR ''f'')"
  by (auto simp: named_keys_def)

text \<open>What every such name satisfies.\<close>

definition name_ok :: "rstr \<Rightarrow> key_code \<Rightarrow> bool" where
  "name_ok k c \<longleftrightarrow>
     (\<forall>x \<in> set (split_on (CHR ''-'') k). x \<noteq> [] \<and> \<not> is_modifier_name x) \<and> normalize_key_name k [] = Ok k \<and>
     to_ascii_lowercase k = k \<and> k \<noteq> [] \<and> (k \<noteq> '' '' \<longrightarrow> visible (hd k) \<and> visible (last k)) \<and>
     key_named k = Some c \<and> bound_key c"

lemma name_ok_named: "(k, c) \<in> set named_keys \<Longrightarrow> name_ok k c"
  using named_key [of k c] by (simp add: name_ok_def)

lemma not_modifier: "length x = 1 \<or> hd x = CHR ''f'' \<Longrightarrow> \<not> is_modifier_name x"
  by (auto simp: is_modifier_name_def)

lemma name_ok_char:
  assumes "32 \<le> (of_char c :: nat)" "(of_char c :: nat) \<le> 126" "c \<noteq> CHR ''-''" "no_upper [c]"
  shows "name_ok [c] (KeyChar [c])"
proof -
  have space: "visible c" if "c \<noteq> CHR '' ''"
    using assms that of_char_eq_iff [of c "CHR '' ''", where 'a = nat] by (auto simp: visible_def)
  have "map_of named_keys [c] = None" by (simp add: named_keys_def)
  moreover have "key_alias [c] = [c]" by (rule key_alias_other) simp
  ultimately show ?thesis
    using assms space not_modifier [of "[c]"]
    by (auto simp: name_ok_def normalize_key_name_def key_named_def bound_key_def is_ascii_def is_ascii_control_def
        is_ascii_uppercase_def byte_of_def to_ascii_lowercase_id no_upper_def)
qed

lemma name_ok_function:
  assumes num: "parse_u8 num = Some n" and n: "is_function_key n"
  shows "name_ok (''f'' @ num) (KeyF n)"
proof -
  let ?k = "''f'' @ num"
  have cs: "num \<noteq> []" "\<forall>c \<in> set num. visible c \<and> c \<noteq> CHR ''-'' \<and> no_upper [c]"
    using parse_u8_chars [OF num] digit_or_plus by blast+
  have split: "split_on (CHR ''-'') ?k = [?k]" using cs(2) by (intro split_on_fresh) auto
  have upper: "no_upper ?k" and last: "visible (last ?k)" using cs by (auto simp: no_upper_def)
  have alias_k: "key_alias ?k = ?k" by (rule key_alias_other) simp
  have none: "map_of named_keys ?k = None" by (simp add: named_keys_def)
  then have "?k \<notin> set (map fst named_keys)" by (simp add: map_of_eq_None_iff)
  then have name: "normalize_key_name ?k [] = Ok ?k"
    using num n cs(1) alias_k by (simp add: normalize_key_name_def)
  have "key_named ?k = Some (KeyF n)" unfolding key_named_def none using num n cs(1) by simp
  moreover have "\<not> is_modifier_name ?k" by (rule not_modifier) simp
  ultimately show ?thesis
    unfolding name_ok_def using name split last to_ascii_lowercase_id [OF upper]
    by (simp add: bound_key_def visible_def)
qed

lemma key_shape_ok:
  assumes "key_shape k"
  shows "\<exists>c. name_ok k c"
proof -
  consider c where "(k, c) \<in> set named_keys"
    | c where "k = [c]" "32 \<le> (of_char c :: nat)" "(of_char c :: nat) \<le> 126" "c \<noteq> CHR ''-''" "no_upper [c]"
    | num n where "k = ''f'' @ num" "parse_u8 num = Some n" "is_function_key n"
    using assms unfolding key_shape_def by force
  then show ?thesis
    by cases (auto intro: name_ok_named name_ok_char name_ok_function simp del: append.simps)
qed

lemma normalize_key_name_shape:
  assumes ok: "normalize_key_name k raw = Ok x" and k: "no_upper k"
  shows "key_shape x"
proof -
  have x: "x = key_alias k" using ok by (auto simp: normalize_key_name_def Let_def split: if_splits option.splits)
  consider "length x = 1" "is_ascii x" "\<not> is_ascii_control x" "x \<noteq> ''-''"
    | "x \<in> set (map fst named_keys)"
    | num n where "x = ''f'' @ num" "parse_u8 num = Some n" "is_function_key n"
    using ok by (auto simp: normalize_key_name_def Let_def x strip_prefix_Some_iff split: if_splits option.splits)
  then show ?thesis
  proof cases
    case 1
    then obtain c where c: "x = [c]" by (auto simp: length_Suc_conv)
    have "no_upper x"
      using k unfolding x by (auto simp: key_alias_def no_upper_def)
    with 1 c show ?thesis
      by (auto simp: key_shape_def is_ascii_def is_ascii_control_def byte_of_def)
  qed (auto simp: key_shape_def)
qed

section \<open>Specifications\<close>

lemma split_on_join_last:
  "\<forall>l \<in> set ls. d \<notin> set l \<Longrightarrow> split_on d (join_with [d] (ls @ [k])) = ls @ split_on d k"
  by (induction ls) (auto simp: join_with_Cons split_on_append)

lemma split_on_spec:
  "split_on (CHR ''-'') (join_with ''-'' (spec_parts c a s k)) =
     (if c then [''ctrl''] else []) @ (if a then [''alt''] else []) @ (if s then [''shift''] else []) @ split_on (CHR ''-'') k"
  using split_on_join_last
    [of "(if c then [''ctrl''] else []) @ (if a then [''alt''] else []) @ (if s then [''shift''] else [])" "CHR ''-''" k]
  by (simp add: spec_parts_def)

lemma leading_modifiers_key:
  "ks \<noteq> [] \<Longrightarrow> \<not> is_modifier_name (hd ks) \<Longrightarrow> leading_modifiers ks m = Some (m, ks)"
  by (cases ks) (auto simp: is_modifier_name_def)

lemma leading_modifiers_spec:
  assumes "ks \<noteq> []" "\<not> is_modifier_name (hd ks)"
  shows "leading_modifiers ((if c then [''ctrl''] else []) @ (if a then [''alt''] else []) @ (if s then [''shift''] else []) @ ks)
      mods_none = Some (\<lparr>mod_shift = s, mod_control = c, mod_alt = a, mod_other = 0\<rparr>, ks)"
  using leading_modifiers_key [OF assms] by (simp add: mods_none_def)

lemma parse_keybinding_spec:
  assumes "name_ok k code"
  shows "parse_keybinding (join_with ''-'' (spec_parts c a s k)) =
    Some \<lparr>binding_key = code, binding_modifiers = \<lparr>mod_shift = s, mod_control = c, mod_alt = a, mod_other = 0\<rparr>\<rparr>"
proof -
  have "\<not> is_modifier_name (hd (split_on (CHR ''-'') k))"
    using assms by (simp add: name_ok_def)
  then show ?thesis
    using assms by (simp add: parse_keybinding_def split_on_spec leading_modifiers_spec join_split_on name_ok_def)
qed

lemma spec_segments_key:
  "\<forall>x \<in> set ks. \<not> is_modifier_name x \<Longrightarrow>
     fold_result (spec_segment raw) ks st =
       Ok (st\<lparr>saw_key := saw_key st \<or> ks \<noteq> [], key_segments := key_segments st @ ks\<rparr>)"
  by (induction ks arbitrary: st) (auto simp: spec_segment_def is_modifier_name_def)

lemma spec_segments_spec:
  assumes "\<forall>x \<in> set ks. \<not> is_modifier_name x" "ks \<noteq> []"
  shows "fold_result (spec_segment raw)
      ((if c then [''ctrl''] else []) @ (if a then [''alt''] else []) @ (if s then [''shift''] else []) @ ks) spec_start =
    Ok \<lparr>seen_ctrl = c, seen_alt = a, seen_shift = s, saw_key = True, key_segments = ks\<rparr>"
  using spec_segments_key [OF assms(1), of raw] assms(2) by (simp add: spec_segment_def spec_start_def)

lemma spec_ends:
  assumes "k \<noteq> []" "visible (hd k)" "visible (last k)"
  shows "visible (hd (join_with ''-'' (spec_parts c a s k)))" "visible (last (join_with ''-'' (spec_parts c a s k)))"
    "join_with ''-'' (spec_parts c a s k) \<noteq> []"
  using assms by (auto simp: spec_parts_def visible_def)

lemma spec_lowercase:
  "to_ascii_lowercase k = k \<Longrightarrow>
     to_ascii_lowercase (join_with ''-'' (spec_parts c a s k)) = join_with ''-'' (spec_parts c a s k)"
  by (simp add: spec_parts_def to_ascii_lowercase_def)

text \<open>A normalised specification is normal, unless its key is a bare space.\<close>

lemma normalize_spec:
  assumes k: "name_ok k code" and space: "k \<noteq> '' ''"
  shows "normalize_keybinding_spec (join_with ''-'' (spec_parts c a s k)) = Ok (join_with ''-'' (spec_parts c a s k))"
    (is "normalize_keybinding_spec ?s = _")
proof -
  have ends: "visible (hd k)" "visible (last k)" "k \<noteq> []" using k space by (auto simp: name_ok_def)
  have lower: "to_ascii_lowercase (trim ?s) = ?s"
    using trim_visible [OF spec_ends(3,1,2)] ends k spec_lowercase by (simp add: name_ok_def)
  have segs: "filter (\<lambda>x. x \<noteq> []) (split_on (CHR ''-'') ?s) =
      (if c then [''ctrl''] else []) @ (if a then [''alt''] else []) @ (if s then [''shift''] else []) @ split_on (CHR ''-'') k"
    using k by (simp add: split_on_spec name_ok_def)
  have fold: "fold_result (spec_segment ?s) (filter (\<lambda>x. x \<noteq> []) (split_on (CHR ''-'') ?s)) spec_start =
      Ok \<lparr>seen_ctrl = c, seen_alt = a, seen_shift = s, saw_key = True, key_segments = split_on (CHR ''-'') k\<rparr>"
    unfolding segs by (rule spec_segments_spec) (use k in \<open>auto simp: name_ok_def\<close>)
  have some: "filter (\<lambda>x. x \<noteq> []) (split_on (CHR ''-'') ?s) \<noteq> []" unfolding segs by simp
  have mods: "\<not> list_ex is_modifier_name (split_on (CHR ''-'') k)"
    using k by (simp add: name_ok_def list_ex_iff)
  have name: "normalize_key_name k ?s = Ok k"
    using k normalize_key_name_raw [of k "[]" k] by (simp add: name_ok_def)
  show ?thesis
    unfolding normalize_keybinding_spec_def Let_def lower fold
    by (simp add: some mods join_split_on name spec_ends(3) [OF ends(3,1,2)] del: join_with.simps)
qed

section \<open>Normalised specifications are bindings\<close>

text \<open>The specifications a configuration can hold: every one passed through normalisation.\<close>

definition normalized_spec :: "rstr \<Rightarrow> bool" where
  "normalized_spec s \<longleftrightarrow> (\<exists>raw. normalize_keybinding_spec raw = Ok s)"

definition bound_binding :: "key_binding \<Rightarrow> bool" where
  "bound_binding b = (bound_key (binding_key b) \<and> mod_other (binding_modifiers b) = 0)"

lemma split_on_chars: "x \<in> set (split_on d s) \<Longrightarrow> set x \<subseteq> set s"
proof (induction s arbitrary: x)
  case (Cons c cs)
  show ?case
  proof (cases "split_on d cs")
    case (Cons l ls)
    then have "set l \<subseteq> set cs" "\<forall>y \<in> set ls. set y \<subseteq> set cs" using Cons.IH by auto
    then show ?thesis using Cons.prems Cons by (auto split: if_splits)
  qed simp
qed simp

lemma join_chars: "set (join_with sep xs) \<subseteq> set sep \<union> (\<Union>x \<in> set xs. set x)"
  by (induction sep xs rule: join_with.induct) auto

lemma spec_segments_from:
  assumes "fold_result (spec_segment raw) segs spec_start = Ok st"
  shows "set (key_segments st) \<subseteq> set segs"
  using assms
  by (rule fold_result_inv [where I = "\<lambda>st. set (key_segments st) \<subseteq> set segs"])
     (auto simp: spec_start_def spec_segment_def split: if_splits)

lemma normalized_spec_parts:
  assumes "normalized_spec s"
  shows "\<exists>c a sh k. key_shape k \<and> s = join_with ''-'' (spec_parts c a sh k)"
proof -
  from assms obtain raw where raw: "normalize_keybinding_spec raw = Ok s" by (auto simp: normalized_spec_def)
  define lower where "lower = to_ascii_lowercase (trim raw)"
  obtain st key where st: "fold_result (spec_segment raw) (filter (\<lambda>x. x \<noteq> []) (split_on (CHR ''-'') lower)) spec_start = Ok st"
    and key: "normalize_key_name (join_with ''-'' (key_segments st)) raw = Ok key"
    and s: "s = join_with ''-'' (spec_parts (seen_ctrl st) (seen_alt st) (seen_shift st) key)"
    using raw by (auto simp: normalize_keybinding_spec_def Let_def lower_def and_then_eq_Ok split: if_splits)
  have "set (join_with ''-'' (key_segments st)) \<subseteq> insert (CHR ''-'') (set lower)"
    using join_chars [of "''-''" "key_segments st"] spec_segments_from [OF st] split_on_chars by fastforce
  moreover have "no_upper lower" by (simp add: lower_def no_upper_lowercase)
  ultimately have "no_upper (join_with ''-'' (key_segments st))" by (fastforce simp: no_upper_def)
  then show ?thesis using normalize_key_name_shape [OF key] s by blast
qed

text \<open>Every normalised specification parses, to a binding that stands for itself.\<close>

lemma normalized_spec_parses:
  assumes "normalized_spec s"
  shows "\<exists>b. parse_keybinding s = Some b \<and> bound_binding b"
proof -
  obtain c a sh k where k: "key_shape k" "s = join_with ''-'' (spec_parts c a sh k)"
    using normalized_spec_parts [OF assms] by blast
  obtain code where "name_ok k code" using key_shape_ok [OF k(1)] by blast
  then show ?thesis using parse_keybinding_spec k(2) by (auto simp: bound_binding_def name_ok_def)
qed

lemma not_c0: "\<not> is_ascii_control ch \<Longrightarrow> c0_control_char_to_ctrl_char ch = None"
  by (auto simp: is_ascii_control_def c0_control_char_to_ctrl_char_def split: option.splits)

lemma bound_normal: "bound_key code \<Longrightarrow> normalize_key_parts code m = (code, m)"
  by (cases code) (auto simp: bound_key_def not_c0 split: option.splits)

lemma lowercase_not_upper: "\<not> is_ascii_uppercase (to_ascii_lowercase ch)"
  using no_upper_lowercase [of ch] by (auto simp: is_ascii_uppercase_def byte_of_def no_upper_def split: option.splits list.splits)

lemma c0_result: "c0_control_char_to_ctrl_char ch = Some d \<Longrightarrow> \<not> is_ascii_uppercase d"
  by (auto simp: c0_control_char_to_ctrl_char_def ascii_char_def is_ascii_uppercase_def byte_of_def
      split: option.splits if_splits)

lemma normalize_key_parts_not_upper:
  "normalize_key_parts code m = (KeyChar ch, m') \<Longrightarrow> \<not> is_ascii_uppercase ch"
  by (cases code) (auto simp: lowercase_not_upper c0_result split: option.splits if_splits)

lemma normalize_key_parts_idem:
  assumes "normalize_key_parts code m = (code', m')"
  shows "normalize_key_parts code' m' = (code', m')"
proof (cases code)
  case (KeyChar ch)
  then show ?thesis
    using assms
    by (cases m) (auto simp: mods_none_def c0_result lowercase_not_upper split: option.splits if_splits)
qed (use assms in auto)

section \<open>Captured keys\<close>

lemma digits_value_snoc: "digits_value (s @ [c]) = 10 * digits_value s + (of_char c - 48)"
  by (simp add: digits_value_def)

lemma digits_value_decimal: "digits_value (decimal n) = n"
proof (induction n rule: decimal.induct)
  case (1 n)
  show ?case
  proof (cases "n < 10")
    case True
    then show ?thesis by (subst decimal.simps) (simp add: digits_value_def)
  next
    case False
    have "n mod 10 < 10" by simp
    with 1 False show ?thesis by (subst decimal.simps) (simp add: digits_value_snoc)
  qed
qed

lemma parse_u8_decimal: "n \<le> 255 \<Longrightarrow> parse_u8 (decimal n) = Some n"
proof -
  assume n: "n \<le> 255"
  have ds: "\<forall>c \<in> set (decimal n). is_digit c" using decimal_digits by (simp add: is_digit_def)
  then have "hd (decimal n) \<noteq> CHR ''+''" by (cases "decimal n") (auto simp: is_digit_def)
  then have "strip_prefix ''+'' (decimal n) = None" by (cases "decimal n") auto
  then show ?thesis using n ds by (simp add: parse_u8_def digits_value_decimal list_all_iff)
qed

lemma swapped_named: "map_of (map prod.swap named_keys) code = Some name \<Longrightarrow> (name, code) \<in> set named_keys"
  by (auto dest: map_of_SomeD)

lemma unnamed_char:
  "map_of (map prod.swap named_keys) (KeyChar ch) = None \<Longrightarrow> ch \<noteq> '' '' \<and> ch \<noteq> ''-''"
  by (auto simp: named_keys_def)

text \<open>A key that has a specification has one made of its normalised parts.\<close>

lemma key_spec_parts:
  assumes spec: "key_parts_to_config_key_spec code0 m0 = Ok s" and norm: "normalize_key_parts code0 m0 = (code, m)"
  shows "mod_other m = 0 \<and> (\<exists>k. name_ok k code \<and> k \<noteq> '' '' \<and> s = format_key_spec m k)"
proof -
  have other: "mod_other m = 0"
    using spec norm by (auto simp: key_parts_to_config_key_spec_def split: if_splits)
  consider name where "map_of (map prod.swap named_keys) code = Some name" "s = format_key_spec m name"
    | n where "code = KeyF n" "is_function_key n" "s = format_key_spec m (''f'' @ decimal n)"
    | ch where "code = KeyChar ch" "map_of (map prod.swap named_keys) code = None" "is_ascii ch" "\<not> is_ascii_control ch"
        "s = format_key_spec m ch"
    using spec norm other normalize_key_parts_not_upper [of code0 m0 _ m]
    by (auto simp: key_parts_to_config_key_spec_def split: option.splits key_code.splits if_splits)
  then show ?thesis
  proof cases
    case 1
    then show ?thesis using other name_ok_named swapped_named named_key_length by fastforce
  next
    case 2
    then have "parse_u8 (decimal n) = Some n" by (intro parse_u8_decimal) (simp add: is_function_key_def MAX_FUNCTION_KEY_def)
    then show ?thesis using 2 other name_ok_function by fastforce
  next
    case 3
    obtain c where c: "ch = [c]" "(of_char c :: nat) < 128" "32 \<le> (of_char c :: nat)" "of_char c \<noteq> (127 :: nat)"
      using 3 by (auto simp: is_ascii_def is_ascii_control_def byte_of_def split: list.splits)
    have "no_upper [c]"
      using normalize_key_parts_not_upper [OF norm [unfolded 3(1)]] c(1)
      by (simp add: no_upper_def is_ascii_uppercase_def byte_of_def)
    then have "name_ok [c] (KeyChar [c])"
      using c unnamed_char 3(1,2) by (intro name_ok_char) auto
    then show ?thesis using c(1) 3 other unnamed_char by blast
  qed
qed

lemma modifiers_collapse:
  "mod_other m = 0 \<Longrightarrow> \<lparr>mod_shift = mod_shift m, mod_control = mod_control m, mod_alt = mod_alt m, mod_other = 0\<rparr> = m"
  by (cases m) simp

lemma key_spec_normal:
  assumes "key_parts_to_config_key_spec code0 m0 = Ok s" "normalize_key_parts code0 m0 = (code, m)"
  shows "normalize_keybinding_spec s = Ok s"
    and "parse_keybinding s = Some \<lparr>binding_key = code, binding_modifiers = m\<rparr>"
  using key_spec_parts [OF assms] normalize_spec parse_keybinding_spec modifiers_collapse
  by (auto simp: format_key_spec_def)

lemma binding_spec_normal:
  assumes "binding_to_config_key_spec b = Ok s"
  shows "normalized_spec s"
    and "\<exists>b'. parse_keybinding s = Some b' \<and> binding_parts b' = normalize_key_parts (binding_key b) (binding_modifiers b)"
proof -
  obtain code m where n: "normalize_key_parts (binding_key b) (binding_modifiers b) = (code, m)" by fastforce
  have "key_parts_to_config_key_spec (binding_key b) (binding_modifiers b) = Ok s"
    using assms by (simp add: binding_to_config_key_spec_def binding_parts_def)
  note key_spec_normal [OF this n]
  then show "normalized_spec s"
    "\<exists>b'. parse_keybinding s = Some b' \<and> binding_parts b' = normalize_key_parts (binding_key b) (binding_modifiers b)"
    using n by (auto simp: normalized_spec_def binding_parts_def)
qed

lemma captured_spec:
  assumes "key_event_to_config_key_spec ev = Ok s"
  shows "normalize_keybinding_spec s = Ok s" "parse_keybinding s = Some (binding_from_event ev)"
proof -
  obtain code m where n: "normalize_key_parts (event_code ev) (event_modifiers ev) = (code, m)" by fastforce
  then have "key_parts_to_config_key_spec code m = Ok s"
    using assms by (simp add: key_event_to_config_key_spec_def binding_from_event_def binding_to_config_key_spec_def binding_parts_def)
  from key_spec_normal [OF this normalize_key_parts_idem [OF n]] n
  show "normalize_keybinding_spec s = Ok s" "parse_keybinding s = Some (binding_from_event ev)"
    by (simp_all add: binding_from_event_def)
qed

lemma binding_from_event_press:
  "is_press (binding_from_event ev) ev' \<longleftrightarrow>
     normalize_key_parts (event_code ev') (event_modifiers ev') = normalize_key_parts (event_code ev) (event_modifiers ev) \<and>
     event_kind ev' \<noteq> KeyRelease"
proof -
  obtain code m where n: "normalize_key_parts (event_code ev) (event_modifiers ev) = (code, m)" by fastforce
  then show ?thesis
    using normalize_key_parts_idem [OF n]
    by (cases "event_kind ev'") (auto simp: is_press_def binding_from_event_def)
qed

end
