(* ===== verification/Keymap_Config.thy ===== *)
theory Keymap_Config
  imports Key_Specs
begin

text \<open>
  The key map a configuration stands for (\<open>RuntimeKeymap::from_config\<close> of \<open>tui/src/keymap.rs\<close>): every
  action takes the configured keys, else the global ones where it has such a fallback, else the
  defaults; some newer defaults give way to keys the user configured for something else; and the
  result is checked for keys that mean two things. The configuration itself is that of
  \<open>config/src/tui_keymap.rs\<close>.
\<close>

section \<open>The configuration\<close>

datatype keybindings_spec = SpecOne rstr | SpecMany "rstr list"

fun spec_list :: "keybindings_spec \<Rightarrow> rstr list" where
  "spec_list (SpecOne spec) = [spec]"
| "spec_list (SpecMany specs) = specs"

type_synonym slot = "keybindings_spec option"

record tui_global_keymap =
  tg_open_transcript :: slot
  tg_open_external_editor :: slot
  tg_copy :: slot
  tg_clear_terminal :: slot
  tg_submit :: slot
  tg_queue :: slot
  tg_toggle_shortcuts :: slot
  tg_toggle_vim_mode :: slot
  tg_toggle_fast_mode :: slot
  tg_toggle_raw_output :: slot

record tui_chat_keymap =
  tc_interrupt_turn :: slot
  tc_decrease_reasoning_effort :: slot
  tc_increase_reasoning_effort :: slot
  tc_edit_queued_message :: slot

record tui_composer_keymap =
  tm_submit :: slot
  tm_queue :: slot
  tm_toggle_shortcuts :: slot
  tm_history_search_previous :: slot
  tm_history_search_next :: slot

record tui_editor_keymap =
  te_insert_newline :: slot
  te_move_left :: slot
  te_move_right :: slot
  te_move_up :: slot
  te_move_down :: slot
  te_move_word_left :: slot
  te_move_word_right :: slot
  te_move_line_start :: slot
  te_move_line_end :: slot
  te_delete_backward :: slot
  te_delete_forward :: slot
  te_delete_backward_word :: slot
  te_delete_forward_word :: slot
  te_kill_line_start :: slot
  te_kill_whole_line :: slot
  te_kill_line_end :: slot
  te_yank :: slot

record tui_vim_normal_keymap =
  tn_enter_insert :: slot
  tn_append_after_cursor :: slot
  tn_append_line_end :: slot
  tn_insert_line_start :: slot
  tn_open_line_below :: slot
  tn_open_line_above :: slot
  tn_move_left :: slot
  tn_move_right :: slot
  tn_move_up :: slot
  tn_move_down :: slot
  tn_move_word_forward :: slot
  tn_move_word_backward :: slot
  tn_move_word_end :: slot
  tn_move_line_start :: slot
  tn_move_line_end :: slot
  tn_delete_char :: slot
  tn_substitute_char :: slot
  tn_delete_to_line_end :: slot
  tn_change_to_line_end :: slot
  tn_yank_line :: slot
  tn_paste_after :: slot
  tn_start_delete_operator :: slot
  tn_start_yank_operator :: slot
  tn_start_change_operator :: slot
  tn_cancel_operator :: slot

record tui_vim_operator_keymap =
  tw_delete_line :: slot
  tw_yank_line :: slot
  tw_motion_left :: slot
  tw_motion_right :: slot
  tw_motion_up :: slot
  tw_motion_down :: slot
  tw_motion_word_forward :: slot
  tw_motion_word_backward :: slot
  tw_motion_word_end :: slot
  tw_motion_line_start :: slot
  tw_motion_line_end :: slot
  tw_select_inner_text_object :: slot
  tw_select_around_text_object :: slot
  tw_cancel :: slot

record tui_vim_text_object_keymap =
  tt_word :: slot
  tt_big_word :: slot
  tt_parentheses :: slot
  tt_brackets :: slot
  tt_braces :: slot
  tt_double_quote :: slot
  tt_single_quote :: slot
  tt_backtick :: slot
  tt_cancel :: slot

record tui_pager_keymap =
  tp_scroll_up :: slot
  tp_scroll_down :: slot
  tp_page_up :: slot
  tp_page_down :: slot
  tp_half_page_up :: slot
  tp_half_page_down :: slot
  tp_jump_top :: slot
  tp_jump_bottom :: slot
  tp_close :: slot
  tp_close_transcript :: slot

record tui_list_keymap =
  tl_move_up :: slot
  tl_move_down :: slot
  tl_move_left :: slot
  tl_move_right :: slot
  tl_page_up :: slot
  tl_page_down :: slot
  tl_jump_top :: slot
  tl_jump_bottom :: slot
  tl_accept :: slot
  tl_cancel :: slot

record tui_approval_keymap =
  tv_open_fullscreen :: slot
  tv_open_thread :: slot
  tv_approve :: slot
  tv_approve_for_session :: slot
  tv_approve_for_prefix :: slot
  tv_deny :: slot
  tv_decline :: slot
  tv_cancel :: slot

record tui_keymap =
  tk_global :: tui_global_keymap
  tk_chat :: tui_chat_keymap
  tk_composer :: tui_composer_keymap
  tk_editor :: tui_editor_keymap
  tk_vim_normal :: tui_vim_normal_keymap
  tk_vim_operator :: tui_vim_operator_keymap
  tk_vim_text_object :: tui_vim_text_object_keymap
  tk_pager :: tui_pager_keymap
  tk_list :: tui_list_keymap
  tk_approval :: tui_approval_keymap

text \<open>The configuration that sets nothing.\<close>

definition tui_global_default :: tui_global_keymap where
  "tui_global_default =
     \<lparr>tg_open_transcript = None, tg_open_external_editor = None, tg_copy = None,
      tg_clear_terminal = None, tg_submit = None, tg_queue = None,
      tg_toggle_shortcuts = None, tg_toggle_vim_mode = None, tg_toggle_fast_mode = None,
      tg_toggle_raw_output = None\<rparr>"

definition tui_chat_default :: tui_chat_keymap where
  "tui_chat_default =
     \<lparr>tc_interrupt_turn = None, tc_decrease_reasoning_effort = None, tc_increase_reasoning_effort = None,
      tc_edit_queued_message = None\<rparr>"

definition tui_composer_default :: tui_composer_keymap where
  "tui_composer_default =
     \<lparr>tm_submit = None, tm_queue = None, tm_toggle_shortcuts = None,
      tm_history_search_previous = None, tm_history_search_next = None\<rparr>"

definition tui_editor_default :: tui_editor_keymap where
  "tui_editor_default =
     \<lparr>te_insert_newline = None, te_move_left = None, te_move_right = None,
      te_move_up = None, te_move_down = None, te_move_word_left = None,
      te_move_word_right = None, te_move_line_start = None, te_move_line_end = None,
      te_delete_backward = None, te_delete_forward = None, te_delete_backward_word = None,
      te_delete_forward_word = None, te_kill_line_start = None, te_kill_whole_line = None,
      te_kill_line_end = None, te_yank = None\<rparr>"

definition tui_vim_normal_default :: tui_vim_normal_keymap where
  "tui_vim_normal_default =
     \<lparr>tn_enter_insert = None, tn_append_after_cursor = None, tn_append_line_end = None,
      tn_insert_line_start = None, tn_open_line_below = None, tn_open_line_above = None,
      tn_move_left = None, tn_move_right = None, tn_move_up = None,
      tn_move_down = None, tn_move_word_forward = None, tn_move_word_backward = None,
      tn_move_word_end = None, tn_move_line_start = None, tn_move_line_end = None,
      tn_delete_char = None, tn_substitute_char = None, tn_delete_to_line_end = None,
      tn_change_to_line_end = None, tn_yank_line = None, tn_paste_after = None,
      tn_start_delete_operator = None, tn_start_yank_operator = None, tn_start_change_operator = None,
      tn_cancel_operator = None\<rparr>"

definition tui_vim_operator_default :: tui_vim_operator_keymap where
  "tui_vim_operator_default =
     \<lparr>tw_delete_line = None, tw_yank_line = None, tw_motion_left = None,
      tw_motion_right = None, tw_motion_up = None, tw_motion_down = None,
      tw_motion_word_forward = None, tw_motion_word_backward = None, tw_motion_word_end = None,
      tw_motion_line_start = None, tw_motion_line_end = None, tw_select_inner_text_object = None,
      tw_select_around_text_object = None, tw_cancel = None\<rparr>"

definition tui_vim_text_object_default :: tui_vim_text_object_keymap where
  "tui_vim_text_object_default =
     \<lparr>tt_word = None, tt_big_word = None, tt_parentheses = None,
      tt_brackets = None, tt_braces = None, tt_double_quote = None,
      tt_single_quote = None, tt_backtick = None, tt_cancel = None\<rparr>"

definition tui_pager_default :: tui_pager_keymap where
  "tui_pager_default =
     \<lparr>tp_scroll_up = None, tp_scroll_down = None, tp_page_up = None,
      tp_page_down = None, tp_half_page_up = None, tp_half_page_down = None,
      tp_jump_top = None, tp_jump_bottom = None, tp_close = None,
      tp_close_transcript = None\<rparr>"

definition tui_list_default :: tui_list_keymap where
  "tui_list_default =
     \<lparr>tl_move_up = None, tl_move_down = None, tl_move_left = None,
      tl_move_right = None, tl_page_up = None, tl_page_down = None,
      tl_jump_top = None, tl_jump_bottom = None, tl_accept = None,
      tl_cancel = None\<rparr>"

definition tui_approval_default :: tui_approval_keymap where
  "tui_approval_default =
     \<lparr>tv_open_fullscreen = None, tv_open_thread = None, tv_approve = None,
      tv_approve_for_session = None, tv_approve_for_prefix = None, tv_deny = None,
      tv_decline = None, tv_cancel = None\<rparr>"

definition tui_keymap_default :: tui_keymap where
  "tui_keymap_default =
     \<lparr>tk_global = tui_global_default,
      tk_chat = tui_chat_default,
      tk_composer = tui_composer_default,
      tk_editor = tui_editor_default,
      tk_vim_normal = tui_vim_normal_default,
      tk_vim_operator = tui_vim_operator_default,
      tk_vim_text_object = tui_vim_text_object_default,
      tk_pager = tui_pager_default,
      tk_list = tui_list_default,
      tk_approval = tui_approval_default\<rparr>"

text \<open>The values of a context, in the order they are serialised.\<close>

definition global_values :: "tui_global_keymap \<Rightarrow> slot list" where
  "global_values k =
     [tg_open_transcript k, tg_open_external_editor k, tg_copy k,
      tg_clear_terminal k, tg_submit k, tg_queue k,
      tg_toggle_shortcuts k, tg_toggle_vim_mode k, tg_toggle_fast_mode k,
      tg_toggle_raw_output k]"

definition chat_values :: "tui_chat_keymap \<Rightarrow> slot list" where
  "chat_values k =
     [tc_interrupt_turn k, tc_decrease_reasoning_effort k, tc_increase_reasoning_effort k,
      tc_edit_queued_message k]"

definition composer_values :: "tui_composer_keymap \<Rightarrow> slot list" where
  "composer_values k =
     [tm_submit k, tm_queue k, tm_toggle_shortcuts k,
      tm_history_search_previous k, tm_history_search_next k]"

definition editor_values :: "tui_editor_keymap \<Rightarrow> slot list" where
  "editor_values k =
     [te_insert_newline k, te_move_left k, te_move_right k,
      te_move_up k, te_move_down k, te_move_word_left k,
      te_move_word_right k, te_move_line_start k, te_move_line_end k,
      te_delete_backward k, te_delete_forward k, te_delete_backward_word k,
      te_delete_forward_word k, te_kill_line_start k, te_kill_whole_line k,
      te_kill_line_end k, te_yank k]"

definition vim_normal_values :: "tui_vim_normal_keymap \<Rightarrow> slot list" where
  "vim_normal_values k =
     [tn_enter_insert k, tn_append_after_cursor k, tn_append_line_end k,
      tn_insert_line_start k, tn_open_line_below k, tn_open_line_above k,
      tn_move_left k, tn_move_right k, tn_move_up k,
      tn_move_down k, tn_move_word_forward k, tn_move_word_backward k,
      tn_move_word_end k, tn_move_line_start k, tn_move_line_end k,
      tn_delete_char k, tn_substitute_char k, tn_delete_to_line_end k,
      tn_change_to_line_end k, tn_yank_line k, tn_paste_after k,
      tn_start_delete_operator k, tn_start_yank_operator k, tn_start_change_operator k,
      tn_cancel_operator k]"

definition vim_operator_values :: "tui_vim_operator_keymap \<Rightarrow> slot list" where
  "vim_operator_values k =
     [tw_delete_line k, tw_yank_line k, tw_motion_left k,
      tw_motion_right k, tw_motion_up k, tw_motion_down k,
      tw_motion_word_forward k, tw_motion_word_backward k, tw_motion_word_end k,
      tw_motion_line_start k, tw_motion_line_end k, tw_select_inner_text_object k,
      tw_select_around_text_object k, tw_cancel k]"

definition vim_text_object_values :: "tui_vim_text_object_keymap \<Rightarrow> slot list" where
  "vim_text_object_values k =
     [tt_word k, tt_big_word k, tt_parentheses k,
      tt_brackets k, tt_braces k, tt_double_quote k,
      tt_single_quote k, tt_backtick k, tt_cancel k]"

definition pager_values :: "tui_pager_keymap \<Rightarrow> slot list" where
  "pager_values k =
     [tp_scroll_up k, tp_scroll_down k, tp_page_up k,
      tp_page_down k, tp_half_page_up k, tp_half_page_down k,
      tp_jump_top k, tp_jump_bottom k, tp_close k,
      tp_close_transcript k]"

definition list_values :: "tui_list_keymap \<Rightarrow> slot list" where
  "list_values k =
     [tl_move_up k, tl_move_down k, tl_move_left k,
      tl_move_right k, tl_page_up k, tl_page_down k,
      tl_jump_top k, tl_jump_bottom k, tl_accept k,
      tl_cancel k]"

definition approval_values :: "tui_approval_keymap \<Rightarrow> slot list" where
  "approval_values k =
     [tv_open_fullscreen k, tv_open_thread k, tv_approve k,
      tv_approve_for_session k, tv_approve_for_prefix k, tv_deny k,
      tv_decline k, tv_cancel k]"

definition keymap_values :: "tui_keymap \<Rightarrow> slot list" where
  "keymap_values k =
     global_values (tk_global k) @
     chat_values (tk_chat k) @
     composer_values (tk_composer k) @
     editor_values (tk_editor k) @
     vim_normal_values (tk_vim_normal k) @
     vim_operator_values (tk_vim_operator k) @
     vim_text_object_values (tk_vim_text_object k) @
     pager_values (tk_pager k) @
     list_values (tk_list k) @
     approval_values (tk_approval k)"

section \<open>Resolving one action\<close>

datatype keymap_error =
    InvalidBinding rstr rstr
  | AmbiguousBindings rstr rstr rstr
  | ShadowedBindings rstr rstr rstr
  | ReservedBinding rstr rstr rstr
  | AmbiguousOverlay rstr rstr

definition push_absent :: "'a \<Rightarrow> 'a list \<Rightarrow> 'a list" where
  "push_absent x xs = (if x \<in> set xs then xs else xs @ [x])"

definition parse_bindings :: "keybindings_spec \<Rightarrow> rstr \<Rightarrow> (keymap_error, key_binding list) result" where
  "parse_bindings spec path =
     fold_result (\<lambda>raw parsed. case parse_keybinding raw of
                     None \<Rightarrow> Err (InvalidBinding path raw)
                   | Some binding \<Rightarrow> Ok (push_absent binding parsed))
       (spec_list spec) []"

definition resolve_bindings :: "slot \<Rightarrow> key_binding list \<Rightarrow> rstr \<Rightarrow> (keymap_error, key_binding list) result" where
  "resolve_bindings configured fallback path =
     (case configured of None \<Rightarrow> Ok fallback | Some spec \<Rightarrow> parse_bindings spec path)"

definition resolve_bindings_with_global_fallback ::
    "slot \<Rightarrow> slot \<Rightarrow> key_binding list \<Rightarrow> rstr \<Rightarrow> (keymap_error, key_binding list) result" where
  "resolve_bindings_with_global_fallback configured global fallback path =
     (case configured of
        Some spec \<Rightarrow> parse_bindings spec path
      | None \<Rightarrow> (case global of Some spec \<Rightarrow> parse_bindings spec path | None \<Rightarrow> Ok fallback))"

definition resolve_new_default_bindings ::
    "slot \<Rightarrow> key_binding list \<Rightarrow> key_binding list \<Rightarrow> rstr \<Rightarrow> (keymap_error, key_binding list) result" where
  "resolve_new_default_bindings configured fallback preserve path =
     (case configured of
        None \<Rightarrow> Ok (filter (\<lambda>binding. binding \<notin> set preserve) fallback)
      | Some spec \<Rightarrow> parse_bindings spec path)"

text \<open>The keys of the actions the user configured.\<close>

definition configured_bindings_to_preserve :: "(slot \<times> key_binding list) list \<Rightarrow> key_binding list" where
  "configured_bindings_to_preserve pairs =
     foldl (\<lambda>bs (configured, resolved). if configured = None then bs else foldl (\<lambda>bs b. push_absent b bs) bs resolved)
       [] pairs"

definition retain_unless :: "bool \<Rightarrow> key_binding list \<Rightarrow> key_binding list \<Rightarrow> key_binding list" where
  "retain_unless configured preserve bs = (if configured then bs else filter (\<lambda>b. b \<notin> set preserve) bs)"

definition configured_context_alias_is_used :: "slot list \<Rightarrow> rstr \<Rightarrow> bool" where
  "configured_context_alias_is_used values alias =
     list_ex (\<lambda>v. case v of None \<Rightarrow> False | Some spec \<Rightarrow> alias \<in> set (spec_list spec)) values"

definition configured_main_surface_alias_is_used :: "tui_keymap \<Rightarrow> rstr \<Rightarrow> bool" where
  "configured_main_surface_alias_is_used k alias =
     (let global = tk_global k;
          global = (if tm_submit (tk_composer k) \<noteq> None then global\<lparr>tg_submit := None\<rparr> else global);
          global = (if tm_queue (tk_composer k) \<noteq> None then global\<lparr>tg_queue := None\<rparr> else global);
          global = (if tm_toggle_shortcuts (tk_composer k) \<noteq> None then global\<lparr>tg_toggle_shortcuts := None\<rparr> else global)
      in configured_context_alias_is_used (global_values global) alias \<or>
         configured_context_alias_is_used (chat_values (tk_chat k)) alias \<or>
         configured_context_alias_is_used (composer_values (tk_composer k)) alias \<or>
         configured_context_alias_is_used (editor_values (tk_editor k)) alias \<or>
         configured_context_alias_is_used (vim_normal_values (tk_vim_normal k)) alias \<or>
         configured_context_alias_is_used (vim_operator_values (tk_vim_operator k)) alias \<or>
         configured_context_alias_is_used (vim_text_object_values (tk_vim_text_object k)) alias)"

section \<open>Resolving the contexts\<close>

definition keymap_path :: "rstr \<Rightarrow> rstr \<Rightarrow> rstr" where
  "keymap_path context action = ''tui.keymap.'' @ context @ ''.'' @ action"

definition resolve_app :: "tui_global_keymap \<Rightarrow> app_keymap \<Rightarrow> (keymap_error, app_keymap) result" where
  "resolve_app k d =
     and_then (resolve_bindings (tg_open_transcript k) (ak_open_transcript d) (keymap_path ''global'' ''open_transcript'')) (\<lambda>v_open_transcript.
     and_then (resolve_bindings (tg_open_external_editor k) (ak_open_external_editor d) (keymap_path ''global'' ''open_external_editor'')) (\<lambda>v_open_external_editor.
     and_then (resolve_bindings (tg_copy k) (ak_copy d) (keymap_path ''global'' ''copy'')) (\<lambda>v_copy.
     and_then (resolve_bindings (tg_clear_terminal k) (ak_clear_terminal d) (keymap_path ''global'' ''clear_terminal'')) (\<lambda>v_clear_terminal.
     and_then (resolve_bindings (tg_toggle_vim_mode k) (ak_toggle_vim_mode d) (keymap_path ''global'' ''toggle_vim_mode'')) (\<lambda>v_toggle_vim_mode.
     and_then (resolve_bindings (tg_toggle_fast_mode k) (ak_toggle_fast_mode d) (keymap_path ''global'' ''toggle_fast_mode'')) (\<lambda>v_toggle_fast_mode.
     and_then (resolve_bindings (tg_toggle_raw_output k) (ak_toggle_raw_output d) (keymap_path ''global'' ''toggle_raw_output'')) (\<lambda>v_toggle_raw_output.
     Ok \<lparr>ak_open_transcript = v_open_transcript, ak_open_external_editor = v_open_external_editor,
          ak_copy = v_copy, ak_clear_terminal = v_clear_terminal,
          ak_toggle_vim_mode = v_toggle_vim_mode, ak_toggle_fast_mode = v_toggle_fast_mode,
          ak_toggle_raw_output = v_toggle_raw_output\<rparr>)))))))"

definition resolve_chat :: "tui_chat_keymap \<Rightarrow> chat_keymap \<Rightarrow> (keymap_error, chat_keymap) result" where
  "resolve_chat k d =
     and_then (resolve_bindings (tc_interrupt_turn k) (ck_interrupt_turn d) (keymap_path ''chat'' ''interrupt_turn'')) (\<lambda>v_interrupt_turn.
     and_then (resolve_bindings (tc_decrease_reasoning_effort k) (ck_decrease_reasoning_effort d) (keymap_path ''chat'' ''decrease_reasoning_effort'')) (\<lambda>v_decrease_reasoning_effort.
     and_then (resolve_bindings (tc_increase_reasoning_effort k) (ck_increase_reasoning_effort d) (keymap_path ''chat'' ''increase_reasoning_effort'')) (\<lambda>v_increase_reasoning_effort.
     and_then (resolve_bindings (tc_edit_queued_message k) (ck_edit_queued_message d) (keymap_path ''chat'' ''edit_queued_message'')) (\<lambda>v_edit_queued_message.
     Ok \<lparr>ck_interrupt_turn = v_interrupt_turn, ck_decrease_reasoning_effort = v_decrease_reasoning_effort,
          ck_increase_reasoning_effort = v_increase_reasoning_effort, ck_edit_queued_message = v_edit_queued_message\<rparr>))))"

definition resolve_composer :: "tui_global_keymap \<Rightarrow> tui_composer_keymap \<Rightarrow> composer_keymap \<Rightarrow> (keymap_error, composer_keymap) result" where
  "resolve_composer g k d =
     and_then (resolve_bindings_with_global_fallback (tm_submit k) (tg_submit g) (mk_submit d) (keymap_path ''composer'' ''submit'')) (\<lambda>v_submit.
     and_then (resolve_bindings_with_global_fallback (tm_queue k) (tg_queue g) (mk_queue d) (keymap_path ''composer'' ''queue'')) (\<lambda>v_queue.
     and_then (resolve_bindings_with_global_fallback (tm_toggle_shortcuts k) (tg_toggle_shortcuts g) (mk_toggle_shortcuts d) (keymap_path ''composer'' ''toggle_shortcuts'')) (\<lambda>v_toggle_shortcuts.
     and_then (resolve_bindings (tm_history_search_previous k) (mk_history_search_previous d) (keymap_path ''composer'' ''history_search_previous'')) (\<lambda>v_history_search_previous.
     and_then (resolve_bindings (tm_history_search_next k) (mk_history_search_next d) (keymap_path ''composer'' ''history_search_next'')) (\<lambda>v_history_search_next.
     Ok \<lparr>mk_submit = v_submit, mk_queue = v_queue,
          mk_toggle_shortcuts = v_toggle_shortcuts, mk_history_search_previous = v_history_search_previous,
          mk_history_search_next = v_history_search_next\<rparr>)))))"

definition resolve_editor :: "tui_editor_keymap \<Rightarrow> editor_keymap \<Rightarrow> (keymap_error, editor_keymap) result" where
  "resolve_editor k d =
     and_then (resolve_bindings (te_insert_newline k) (ek_insert_newline d) (keymap_path ''editor'' ''insert_newline'')) (\<lambda>v_insert_newline.
     and_then (resolve_bindings (te_move_left k) (ek_move_left d) (keymap_path ''editor'' ''move_left'')) (\<lambda>v_move_left.
     and_then (resolve_bindings (te_move_right k) (ek_move_right d) (keymap_path ''editor'' ''move_right'')) (\<lambda>v_move_right.
     and_then (resolve_bindings (te_move_up k) (ek_move_up d) (keymap_path ''editor'' ''move_up'')) (\<lambda>v_move_up.
     and_then (resolve_bindings (te_move_down k) (ek_move_down d) (keymap_path ''editor'' ''move_down'')) (\<lambda>v_move_down.
     and_then (resolve_bindings (te_move_word_left k) (ek_move_word_left d) (keymap_path ''editor'' ''move_word_left'')) (\<lambda>v_move_word_left.
     and_then (resolve_bindings (te_move_word_right k) (ek_move_word_right d) (keymap_path ''editor'' ''move_word_right'')) (\<lambda>v_move_word_right.
     and_then (resolve_bindings (te_move_line_start k) (ek_move_line_start d) (keymap_path ''editor'' ''move_line_start'')) (\<lambda>v_move_line_start.
     and_then (resolve_bindings (te_move_line_end k) (ek_move_line_end d) (keymap_path ''editor'' ''move_line_end'')) (\<lambda>v_move_line_end.
     and_then (resolve_bindings (te_delete_backward k) (ek_delete_backward d) (keymap_path ''editor'' ''delete_backward'')) (\<lambda>v_delete_backward.
     and_then (resolve_bindings (te_delete_forward k) (ek_delete_forward d) (keymap_path ''editor'' ''delete_forward'')) (\<lambda>v_delete_forward.
     and_then (resolve_bindings (te_delete_backward_word k) (ek_delete_backward_word d) (keymap_path ''editor'' ''delete_backward_word'')) (\<lambda>v_delete_backward_word.
     and_then (resolve_bindings (te_delete_forward_word k) (ek_delete_forward_word d) (keymap_path ''editor'' ''delete_forward_word'')) (\<lambda>v_delete_forward_word.
     and_then (resolve_bindings (te_kill_line_start k) (ek_kill_line_start d) (keymap_path ''editor'' ''kill_line_start'')) (\<lambda>v_kill_line_start.
     and_then (resolve_bindings (te_kill_whole_line k) (ek_kill_whole_line d) (keymap_path ''editor'' ''kill_whole_line'')) (\<lambda>v_kill_whole_line.
     and_then (resolve_bindings (te_kill_line_end k) (ek_kill_line_end d) (keymap_path ''editor'' ''kill_line_end'')) (\<lambda>v_kill_line_end.
     and_then (resolve_bindings (te_yank k) (ek_yank d) (keymap_path ''editor'' ''yank'')) (\<lambda>v_yank.
     Ok \<lparr>ek_insert_newline = v_insert_newline, ek_move_left = v_move_left,
          ek_move_right = v_move_right, ek_move_up = v_move_up,
          ek_move_down = v_move_down, ek_move_word_left = v_move_word_left,
          ek_move_word_right = v_move_word_right, ek_move_line_start = v_move_line_start,
          ek_move_line_end = v_move_line_end, ek_delete_backward = v_delete_backward,
          ek_delete_forward = v_delete_forward, ek_delete_backward_word = v_delete_backward_word,
          ek_delete_forward_word = v_delete_forward_word, ek_kill_line_start = v_kill_line_start,
          ek_kill_whole_line = v_kill_whole_line, ek_kill_line_end = v_kill_line_end,
          ek_yank = v_yank\<rparr>)))))))))))))))))"

definition resolve_vim_normal :: "tui_vim_normal_keymap \<Rightarrow> vim_normal_keymap \<Rightarrow> (keymap_error, vim_normal_keymap) result" where
  "resolve_vim_normal k d =
     and_then (resolve_bindings (tn_enter_insert k) (vn_enter_insert d) (keymap_path ''vim_normal'' ''enter_insert'')) (\<lambda>v_enter_insert.
     and_then (resolve_bindings (tn_append_after_cursor k) (vn_append_after_cursor d) (keymap_path ''vim_normal'' ''append_after_cursor'')) (\<lambda>v_append_after_cursor.
     and_then (resolve_bindings (tn_append_line_end k) (vn_append_line_end d) (keymap_path ''vim_normal'' ''append_line_end'')) (\<lambda>v_append_line_end.
     and_then (resolve_bindings (tn_insert_line_start k) (vn_insert_line_start d) (keymap_path ''vim_normal'' ''insert_line_start'')) (\<lambda>v_insert_line_start.
     and_then (resolve_bindings (tn_open_line_below k) (vn_open_line_below d) (keymap_path ''vim_normal'' ''open_line_below'')) (\<lambda>v_open_line_below.
     and_then (resolve_bindings (tn_open_line_above k) (vn_open_line_above d) (keymap_path ''vim_normal'' ''open_line_above'')) (\<lambda>v_open_line_above.
     and_then (resolve_bindings (tn_move_left k) (vn_move_left d) (keymap_path ''vim_normal'' ''move_left'')) (\<lambda>v_move_left.
     and_then (resolve_bindings (tn_move_right k) (vn_move_right d) (keymap_path ''vim_normal'' ''move_right'')) (\<lambda>v_move_right.
     and_then (resolve_bindings (tn_move_up k) (vn_move_up d) (keymap_path ''vim_normal'' ''move_up'')) (\<lambda>v_move_up.
     and_then (resolve_bindings (tn_move_down k) (vn_move_down d) (keymap_path ''vim_normal'' ''move_down'')) (\<lambda>v_move_down.
     and_then (resolve_bindings (tn_move_word_forward k) (vn_move_word_forward d) (keymap_path ''vim_normal'' ''move_word_forward'')) (\<lambda>v_move_word_forward.
     and_then (resolve_bindings (tn_move_word_backward k) (vn_move_word_backward d) (keymap_path ''vim_normal'' ''move_word_backward'')) (\<lambda>v_move_word_backward.
     and_then (resolve_bindings (tn_move_word_end k) (vn_move_word_end d) (keymap_path ''vim_normal'' ''move_word_end'')) (\<lambda>v_move_word_end.
     and_then (resolve_bindings (tn_move_line_start k) (vn_move_line_start d) (keymap_path ''vim_normal'' ''move_line_start'')) (\<lambda>v_move_line_start.
     and_then (resolve_bindings (tn_move_line_end k) (vn_move_line_end d) (keymap_path ''vim_normal'' ''move_line_end'')) (\<lambda>v_move_line_end.
     and_then (resolve_bindings (tn_delete_char k) (vn_delete_char d) (keymap_path ''vim_normal'' ''delete_char'')) (\<lambda>v_delete_char.
     and_then (resolve_bindings (tn_substitute_char k) (vn_substitute_char d) (keymap_path ''vim_normal'' ''substitute_char'')) (\<lambda>v_substitute_char.
     and_then (resolve_bindings (tn_delete_to_line_end k) (vn_delete_to_line_end d) (keymap_path ''vim_normal'' ''delete_to_line_end'')) (\<lambda>v_delete_to_line_end.
     and_then (resolve_bindings (tn_change_to_line_end k) (vn_change_to_line_end d) (keymap_path ''vim_normal'' ''change_to_line_end'')) (\<lambda>v_change_to_line_end.
     and_then (resolve_bindings (tn_yank_line k) (vn_yank_line d) (keymap_path ''vim_normal'' ''yank_line'')) (\<lambda>v_yank_line.
     and_then (resolve_bindings (tn_paste_after k) (vn_paste_after d) (keymap_path ''vim_normal'' ''paste_after'')) (\<lambda>v_paste_after.
     and_then (resolve_bindings (tn_start_delete_operator k) (vn_start_delete_operator d) (keymap_path ''vim_normal'' ''start_delete_operator'')) (\<lambda>v_start_delete_operator.
     and_then (resolve_bindings (tn_start_yank_operator k) (vn_start_yank_operator d) (keymap_path ''vim_normal'' ''start_yank_operator'')) (\<lambda>v_start_yank_operator.
     and_then (resolve_bindings (tn_start_change_operator k) (vn_start_change_operator d) (keymap_path ''vim_normal'' ''start_change_operator'')) (\<lambda>v_start_change_operator.
     and_then (resolve_bindings (tn_cancel_operator k) (vn_cancel_operator d) (keymap_path ''vim_normal'' ''cancel_operator'')) (\<lambda>v_cancel_operator.
     Ok \<lparr>vn_enter_insert = v_enter_insert, vn_append_after_cursor = v_append_after_cursor,
          vn_append_line_end = v_append_line_end, vn_insert_line_start = v_insert_line_start,
          vn_open_line_below = v_open_line_below, vn_open_line_above = v_open_line_above,
          vn_move_left = v_move_left, vn_move_right = v_move_right,
          vn_move_up = v_move_up, vn_move_down = v_move_down,
          vn_move_word_forward = v_move_word_forward, vn_move_word_backward = v_move_word_backward,
          vn_move_word_end = v_move_word_end, vn_move_line_start = v_move_line_start,
          vn_move_line_end = v_move_line_end, vn_delete_char = v_delete_char,
          vn_substitute_char = v_substitute_char, vn_delete_to_line_end = v_delete_to_line_end,
          vn_change_to_line_end = v_change_to_line_end, vn_yank_line = v_yank_line,
          vn_paste_after = v_paste_after, vn_start_delete_operator = v_start_delete_operator,
          vn_start_yank_operator = v_start_yank_operator, vn_start_change_operator = v_start_change_operator,
          vn_cancel_operator = v_cancel_operator\<rparr>)))))))))))))))))))))))))"

definition resolve_vim_operator :: "tui_vim_operator_keymap \<Rightarrow> vim_operator_keymap \<Rightarrow> (keymap_error, vim_operator_keymap) result" where
  "resolve_vim_operator k d =
     and_then (resolve_bindings (tw_delete_line k) (vo_delete_line d) (keymap_path ''vim_operator'' ''delete_line'')) (\<lambda>v_delete_line.
     and_then (resolve_bindings (tw_yank_line k) (vo_yank_line d) (keymap_path ''vim_operator'' ''yank_line'')) (\<lambda>v_yank_line.
     and_then (resolve_bindings (tw_motion_left k) (vo_motion_left d) (keymap_path ''vim_operator'' ''motion_left'')) (\<lambda>v_motion_left.
     and_then (resolve_bindings (tw_motion_right k) (vo_motion_right d) (keymap_path ''vim_operator'' ''motion_right'')) (\<lambda>v_motion_right.
     and_then (resolve_bindings (tw_motion_up k) (vo_motion_up d) (keymap_path ''vim_operator'' ''motion_up'')) (\<lambda>v_motion_up.
     and_then (resolve_bindings (tw_motion_down k) (vo_motion_down d) (keymap_path ''vim_operator'' ''motion_down'')) (\<lambda>v_motion_down.
     and_then (resolve_bindings (tw_motion_word_forward k) (vo_motion_word_forward d) (keymap_path ''vim_operator'' ''motion_word_forward'')) (\<lambda>v_motion_word_forward.
     and_then (resolve_bindings (tw_motion_word_backward k) (vo_motion_word_backward d) (keymap_path ''vim_operator'' ''motion_word_backward'')) (\<lambda>v_motion_word_backward.
     and_then (resolve_bindings (tw_motion_word_end k) (vo_motion_word_end d) (keymap_path ''vim_operator'' ''motion_word_end'')) (\<lambda>v_motion_word_end.
     and_then (resolve_bindings (tw_motion_line_start k) (vo_motion_line_start d) (keymap_path ''vim_operator'' ''motion_line_start'')) (\<lambda>v_motion_line_start.
     and_then (resolve_bindings (tw_motion_line_end k) (vo_motion_line_end d) (keymap_path ''vim_operator'' ''motion_line_end'')) (\<lambda>v_motion_line_end.
     and_then (resolve_bindings (tw_select_inner_text_object k) (vo_select_inner_text_object d) (keymap_path ''vim_operator'' ''select_inner_text_object'')) (\<lambda>v_select_inner_text_object.
     and_then (resolve_bindings (tw_select_around_text_object k) (vo_select_around_text_object d) (keymap_path ''vim_operator'' ''select_around_text_object'')) (\<lambda>v_select_around_text_object.
     and_then (resolve_bindings (tw_cancel k) (vo_cancel d) (keymap_path ''vim_operator'' ''cancel'')) (\<lambda>v_cancel.
     Ok \<lparr>vo_delete_line = v_delete_line, vo_yank_line = v_yank_line,
          vo_motion_left = v_motion_left, vo_motion_right = v_motion_right,
          vo_motion_up = v_motion_up, vo_motion_down = v_motion_down,
          vo_motion_word_forward = v_motion_word_forward, vo_motion_word_backward = v_motion_word_backward,
          vo_motion_word_end = v_motion_word_end, vo_motion_line_start = v_motion_line_start,
          vo_motion_line_end = v_motion_line_end, vo_select_inner_text_object = v_select_inner_text_object,
          vo_select_around_text_object = v_select_around_text_object, vo_cancel = v_cancel\<rparr>))))))))))))))"

definition resolve_vim_text_object :: "tui_vim_text_object_keymap \<Rightarrow> vim_text_object_keymap \<Rightarrow> (keymap_error, vim_text_object_keymap) result" where
  "resolve_vim_text_object k d =
     and_then (resolve_bindings (tt_word k) (vt_word d) (keymap_path ''vim_text_object'' ''word'')) (\<lambda>v_word.
     and_then (resolve_bindings (tt_big_word k) (vt_big_word d) (keymap_path ''vim_text_object'' ''big_word'')) (\<lambda>v_big_word.
     and_then (resolve_bindings (tt_parentheses k) (vt_parentheses d) (keymap_path ''vim_text_object'' ''parentheses'')) (\<lambda>v_parentheses.
     and_then (resolve_bindings (tt_brackets k) (vt_brackets d) (keymap_path ''vim_text_object'' ''brackets'')) (\<lambda>v_brackets.
     and_then (resolve_bindings (tt_braces k) (vt_braces d) (keymap_path ''vim_text_object'' ''braces'')) (\<lambda>v_braces.
     and_then (resolve_bindings (tt_double_quote k) (vt_double_quote d) (keymap_path ''vim_text_object'' ''double_quote'')) (\<lambda>v_double_quote.
     and_then (resolve_bindings (tt_single_quote k) (vt_single_quote d) (keymap_path ''vim_text_object'' ''single_quote'')) (\<lambda>v_single_quote.
     and_then (resolve_bindings (tt_backtick k) (vt_backtick d) (keymap_path ''vim_text_object'' ''backtick'')) (\<lambda>v_backtick.
     and_then (resolve_bindings (tt_cancel k) (vt_cancel d) (keymap_path ''vim_text_object'' ''cancel'')) (\<lambda>v_cancel.
     Ok \<lparr>vt_word = v_word, vt_big_word = v_big_word,
          vt_parentheses = v_parentheses, vt_brackets = v_brackets,
          vt_braces = v_braces, vt_double_quote = v_double_quote,
          vt_single_quote = v_single_quote, vt_backtick = v_backtick,
          vt_cancel = v_cancel\<rparr>)))))))))"

definition resolve_pager :: "tui_pager_keymap \<Rightarrow> pager_keymap \<Rightarrow> (keymap_error, pager_keymap) result" where
  "resolve_pager k d =
     and_then (resolve_bindings (tp_scroll_up k) (pk_scroll_up d) (keymap_path ''pager'' ''scroll_up'')) (\<lambda>v_scroll_up.
     and_then (resolve_bindings (tp_scroll_down k) (pk_scroll_down d) (keymap_path ''pager'' ''scroll_down'')) (\<lambda>v_scroll_down.
     and_then (resolve_bindings (tp_page_up k) (pk_page_up d) (keymap_path ''pager'' ''page_up'')) (\<lambda>v_page_up.
     and_then (resolve_bindings (tp_page_down k) (pk_page_down d) (keymap_path ''pager'' ''page_down'')) (\<lambda>v_page_down.
     and_then (resolve_bindings (tp_half_page_up k) (pk_half_page_up d) (keymap_path ''pager'' ''half_page_up'')) (\<lambda>v_half_page_up.
     and_then (resolve_bindings (tp_half_page_down k) (pk_half_page_down d) (keymap_path ''pager'' ''half_page_down'')) (\<lambda>v_half_page_down.
     and_then (resolve_bindings (tp_jump_top k) (pk_jump_top d) (keymap_path ''pager'' ''jump_top'')) (\<lambda>v_jump_top.
     and_then (resolve_bindings (tp_jump_bottom k) (pk_jump_bottom d) (keymap_path ''pager'' ''jump_bottom'')) (\<lambda>v_jump_bottom.
     and_then (resolve_bindings (tp_close k) (pk_close d) (keymap_path ''pager'' ''close'')) (\<lambda>v_close.
     and_then (resolve_bindings (tp_close_transcript k) (pk_close_transcript d) (keymap_path ''pager'' ''close_transcript'')) (\<lambda>v_close_transcript.
     Ok \<lparr>pk_scroll_up = v_scroll_up, pk_scroll_down = v_scroll_down,
          pk_page_up = v_page_up, pk_page_down = v_page_down,
          pk_half_page_up = v_half_page_up, pk_half_page_down = v_half_page_down,
          pk_jump_top = v_jump_top, pk_jump_bottom = v_jump_bottom,
          pk_close = v_close, pk_close_transcript = v_close_transcript\<rparr>))))))))))"

definition resolve_approval :: "tui_approval_keymap \<Rightarrow> approval_keymap \<Rightarrow> (keymap_error, approval_keymap) result" where
  "resolve_approval k d =
     and_then (resolve_bindings (tv_open_fullscreen k) (vk_open_fullscreen d) (keymap_path ''approval'' ''open_fullscreen'')) (\<lambda>v_open_fullscreen.
     and_then (resolve_bindings (tv_open_thread k) (vk_open_thread d) (keymap_path ''approval'' ''open_thread'')) (\<lambda>v_open_thread.
     and_then (resolve_bindings (tv_approve k) (vk_approve d) (keymap_path ''approval'' ''approve'')) (\<lambda>v_approve.
     and_then (resolve_bindings (tv_approve_for_session k) (vk_approve_for_session d) (keymap_path ''approval'' ''approve_for_session'')) (\<lambda>v_approve_for_session.
     and_then (resolve_bindings (tv_approve_for_prefix k) (vk_approve_for_prefix d) (keymap_path ''approval'' ''approve_for_prefix'')) (\<lambda>v_approve_for_prefix.
     and_then (resolve_bindings (tv_deny k) (vk_deny d) (keymap_path ''approval'' ''deny'')) (\<lambda>v_deny.
     and_then (resolve_bindings (tv_decline k) (vk_decline d) (keymap_path ''approval'' ''decline'')) (\<lambda>v_decline.
     and_then (resolve_bindings (tv_cancel k) (vk_cancel d) (keymap_path ''approval'' ''cancel'')) (\<lambda>v_cancel.
     Ok \<lparr>vk_open_fullscreen = v_open_fullscreen, vk_open_thread = v_open_thread,
          vk_approve = v_approve, vk_approve_for_session = v_approve_for_session,
          vk_approve_for_prefix = v_approve_for_prefix, vk_deny = v_deny,
          vk_decline = v_decline, vk_cancel = v_cancel\<rparr>))))))))"

text \<open>Two newer actions of vim's normal mode, and two of its operators, give way to configured keys.\<close>

definition vim_normal_preserve :: "tui_vim_normal_keymap \<Rightarrow> vim_normal_keymap \<Rightarrow> key_binding list" where
  "vim_normal_preserve k v =
     configured_bindings_to_preserve
       [(tn_enter_insert k, vn_enter_insert v),
        (tn_append_after_cursor k, vn_append_after_cursor v),
        (tn_append_line_end k, vn_append_line_end v),
        (tn_insert_line_start k, vn_insert_line_start v),
        (tn_open_line_below k, vn_open_line_below v),
        (tn_open_line_above k, vn_open_line_above v),
        (tn_move_left k, vn_move_left v),
        (tn_move_right k, vn_move_right v),
        (tn_move_up k, vn_move_up v),
        (tn_move_down k, vn_move_down v),
        (tn_move_word_forward k, vn_move_word_forward v),
        (tn_move_word_backward k, vn_move_word_backward v),
        (tn_move_word_end k, vn_move_word_end v),
        (tn_move_line_start k, vn_move_line_start v),
        (tn_move_line_end k, vn_move_line_end v),
        (tn_delete_char k, vn_delete_char v),
        (tn_change_to_line_end k, vn_change_to_line_end v),
        (tn_delete_to_line_end k, vn_delete_to_line_end v),
        (tn_yank_line k, vn_yank_line v),
        (tn_paste_after k, vn_paste_after v),
        (tn_start_delete_operator k, vn_start_delete_operator v),
        (tn_start_yank_operator k, vn_start_yank_operator v),
        (tn_start_change_operator k, vn_start_change_operator v),
        (tn_cancel_operator k, vn_cancel_operator v)]"

definition vim_normal_yield :: "tui_vim_normal_keymap \<Rightarrow> vim_normal_keymap \<Rightarrow> vim_normal_keymap" where
  "vim_normal_yield k v =
     (let preserve = vim_normal_preserve k v
      in v\<lparr>vn_start_change_operator := retain_unless (tn_start_change_operator k \<noteq> None) preserve (vn_start_change_operator v),
           vn_substitute_char := retain_unless (tn_substitute_char k \<noteq> None) preserve (vn_substitute_char v)\<rparr>)"

definition vim_operator_preserve :: "tui_vim_operator_keymap \<Rightarrow> vim_operator_keymap \<Rightarrow> key_binding list" where
  "vim_operator_preserve k v =
     configured_bindings_to_preserve
       [(tw_delete_line k, vo_delete_line v),
        (tw_yank_line k, vo_yank_line v),
        (tw_motion_left k, vo_motion_left v),
        (tw_motion_right k, vo_motion_right v),
        (tw_motion_up k, vo_motion_up v),
        (tw_motion_down k, vo_motion_down v),
        (tw_motion_word_forward k, vo_motion_word_forward v),
        (tw_motion_word_backward k, vo_motion_word_backward v),
        (tw_motion_word_end k, vo_motion_word_end v),
        (tw_motion_line_start k, vo_motion_line_start v),
        (tw_motion_line_end k, vo_motion_line_end v),
        (tw_cancel k, vo_cancel v)]"

definition vim_operator_yield :: "tui_vim_operator_keymap \<Rightarrow> vim_operator_keymap \<Rightarrow> vim_operator_keymap" where
  "vim_operator_yield k v =
     (let preserve = vim_operator_preserve k v
      in v\<lparr>vo_select_inner_text_object :=
               retain_unless (tw_select_inner_text_object k \<noteq> None) preserve (vo_select_inner_text_object v),
           vo_select_around_text_object :=
               retain_unless (tw_select_around_text_object k \<noteq> None) preserve (vo_select_around_text_object v)\<rparr>)"

text \<open>The arrow keys for the reasoning effort are given up when the user configured them anywhere on the main surface.\<close>

definition chat_yield :: "tui_keymap \<Rightarrow> chat_keymap \<Rightarrow> chat_keymap" where
  "chat_yield k v =
     (let v = (if tc_decrease_reasoning_effort (tk_chat k) = None \<and> configured_main_surface_alias_is_used k ''shift-down''
               then v\<lparr>ck_decrease_reasoning_effort := filter (\<lambda>b. b \<noteq> shift_key KeyDown) (ck_decrease_reasoning_effort v)\<rparr>
               else v)
      in if tc_increase_reasoning_effort (tk_chat k) = None \<and> configured_main_surface_alias_is_used k ''shift-up''
         then v\<lparr>ck_increase_reasoning_effort := filter (\<lambda>b. b \<noteq> shift_key KeyUp) (ck_increase_reasoning_effort v)\<rparr>
         else v)"

definition overlay_preserve :: "tui_keymap \<Rightarrow> app_keymap \<Rightarrow> approval_keymap \<Rightarrow> key_binding list \<Rightarrow> key_binding list \<Rightarrow> key_binding list \<Rightarrow> key_binding list \<Rightarrow> key_binding list" where
  "overlay_preserve k app approval list_move_up list_move_down list_accept list_cancel =
     configured_bindings_to_preserve
       [(tg_open_transcript (tk_global k), ak_open_transcript app),
        (tg_open_external_editor (tk_global k), ak_open_external_editor app),
        (tg_copy (tk_global k), ak_copy app),
        (tg_clear_terminal (tk_global k), ak_clear_terminal app),
        (tg_toggle_vim_mode (tk_global k), ak_toggle_vim_mode app),
        (tg_toggle_fast_mode (tk_global k), ak_toggle_fast_mode app),
        (tg_toggle_raw_output (tk_global k), ak_toggle_raw_output app),
        (tl_move_up (tk_list k), list_move_up),
        (tl_move_down (tk_list k), list_move_down),
        (tl_accept (tk_list k), list_accept),
        (tl_cancel (tk_list k), list_cancel),
        (tv_open_fullscreen (tk_approval k), vk_open_fullscreen approval),
        (tv_open_thread (tk_approval k), vk_open_thread approval),
        (tv_approve (tk_approval k), vk_approve approval),
        (tv_approve_for_session (tk_approval k), vk_approve_for_session approval),
        (tv_approve_for_prefix (tk_approval k), vk_approve_for_prefix approval),
        (tv_deny (tk_approval k), vk_deny approval),
        (tv_decline (tk_approval k), vk_decline approval),
        (tv_cancel (tk_approval k), vk_cancel approval)]"

definition resolve_list :: "tui_keymap \<Rightarrow> app_keymap \<Rightarrow> approval_keymap \<Rightarrow> list_keymap \<Rightarrow> (keymap_error, list_keymap) result" where
  "resolve_list k app approval d =
     and_then (resolve_bindings (tl_move_up (tk_list k)) (lk_move_up d) (keymap_path ''list'' ''move_up'')) (\<lambda>v_move_up.
     and_then (resolve_bindings (tl_move_down (tk_list k)) (lk_move_down d) (keymap_path ''list'' ''move_down'')) (\<lambda>v_move_down.
     and_then (resolve_bindings (tl_accept (tk_list k)) (lk_accept d) (keymap_path ''list'' ''accept'')) (\<lambda>v_accept.
     and_then (resolve_bindings (tl_cancel (tk_list k)) (lk_cancel d) (keymap_path ''list'' ''cancel'')) (\<lambda>v_cancel.
     let preserve = overlay_preserve k app approval v_move_up v_move_down v_accept v_cancel in
     and_then (resolve_new_default_bindings (tl_move_left (tk_list k)) (lk_move_left d) preserve (keymap_path ''list'' ''move_left'')) (\<lambda>v_move_left.
     and_then (resolve_new_default_bindings (tl_move_right (tk_list k)) (lk_move_right d) preserve (keymap_path ''list'' ''move_right'')) (\<lambda>v_move_right.
     and_then (resolve_new_default_bindings (tl_page_up (tk_list k)) (lk_page_up d) preserve (keymap_path ''list'' ''page_up'')) (\<lambda>v_page_up.
     and_then (resolve_new_default_bindings (tl_page_down (tk_list k)) (lk_page_down d) preserve (keymap_path ''list'' ''page_down'')) (\<lambda>v_page_down.
     and_then (resolve_new_default_bindings (tl_jump_top (tk_list k)) (lk_jump_top d) preserve (keymap_path ''list'' ''jump_top'')) (\<lambda>v_jump_top.
     and_then (resolve_new_default_bindings (tl_jump_bottom (tk_list k)) (lk_jump_bottom d) preserve (keymap_path ''list'' ''jump_bottom'')) (\<lambda>v_jump_bottom.
     Ok \<lparr>lk_move_up = v_move_up, lk_move_down = v_move_down,
          lk_move_left = v_move_left, lk_move_right = v_move_right,
          lk_page_up = v_page_up, lk_page_down = v_page_down,
          lk_jump_top = v_jump_top, lk_jump_bottom = v_jump_bottom,
          lk_accept = v_accept, lk_cancel = v_cancel\<rparr>))))))))))"

end
