(* ===== verification/Keymap_Checks.thy ===== *)
theory Keymap_Checks
  imports Keymap_Config
begin

text \<open>
  The checks a resolved key map has to pass (\<open>validate_conflicts\<close> and its helpers in
  \<open>tui/src/keymap.rs\<close>), and \<open>from_config\<close>, which resolves every context and runs them.
\<close>

section \<open>Tables of actions\<close>

type_synonym action_table = "(rstr \<times> key_binding list) list"

definition app_actions :: "app_keymap \<Rightarrow> action_table" where
  "app_actions v =
     [(''open_transcript'', ak_open_transcript v),
      (''open_external_editor'', ak_open_external_editor v),
      (''copy'', ak_copy v),
      (''clear_terminal'', ak_clear_terminal v),
      (''toggle_vim_mode'', ak_toggle_vim_mode v),
      (''toggle_fast_mode'', ak_toggle_fast_mode v),
      (''toggle_raw_output'', ak_toggle_raw_output v)]"

definition chat_actions :: "chat_keymap \<Rightarrow> action_table" where
  "chat_actions v =
     [(''interrupt_turn'', ck_interrupt_turn v),
      (''decrease_reasoning_effort'', ck_decrease_reasoning_effort v),
      (''increase_reasoning_effort'', ck_increase_reasoning_effort v),
      (''edit_queued_message'', ck_edit_queued_message v)]"

definition composer_actions :: "composer_keymap \<Rightarrow> action_table" where
  "composer_actions v =
     [(''submit'', mk_submit v),
      (''queue'', mk_queue v),
      (''toggle_shortcuts'', mk_toggle_shortcuts v),
      (''history_search_previous'', mk_history_search_previous v),
      (''history_search_next'', mk_history_search_next v)]"

definition editor_actions :: "editor_keymap \<Rightarrow> action_table" where
  "editor_actions v =
     [(''insert_newline'', ek_insert_newline v),
      (''move_left'', ek_move_left v),
      (''move_right'', ek_move_right v),
      (''move_up'', ek_move_up v),
      (''move_down'', ek_move_down v),
      (''move_word_left'', ek_move_word_left v),
      (''move_word_right'', ek_move_word_right v),
      (''move_line_start'', ek_move_line_start v),
      (''move_line_end'', ek_move_line_end v),
      (''delete_backward'', ek_delete_backward v),
      (''delete_forward'', ek_delete_forward v),
      (''delete_backward_word'', ek_delete_backward_word v),
      (''delete_forward_word'', ek_delete_forward_word v),
      (''kill_line_start'', ek_kill_line_start v),
      (''kill_whole_line'', ek_kill_whole_line v),
      (''kill_line_end'', ek_kill_line_end v),
      (''yank'', ek_yank v)]"

definition vim_normal_actions :: "vim_normal_keymap \<Rightarrow> action_table" where
  "vim_normal_actions v =
     [(''enter_insert'', vn_enter_insert v),
      (''append_after_cursor'', vn_append_after_cursor v),
      (''append_line_end'', vn_append_line_end v),
      (''insert_line_start'', vn_insert_line_start v),
      (''open_line_below'', vn_open_line_below v),
      (''open_line_above'', vn_open_line_above v),
      (''move_left'', vn_move_left v),
      (''move_right'', vn_move_right v),
      (''move_up'', vn_move_up v),
      (''move_down'', vn_move_down v),
      (''move_word_forward'', vn_move_word_forward v),
      (''move_word_backward'', vn_move_word_backward v),
      (''move_word_end'', vn_move_word_end v),
      (''move_line_start'', vn_move_line_start v),
      (''move_line_end'', vn_move_line_end v),
      (''delete_char'', vn_delete_char v),
      (''substitute_char'', vn_substitute_char v),
      (''delete_to_line_end'', vn_delete_to_line_end v),
      (''change_to_line_end'', vn_change_to_line_end v),
      (''yank_line'', vn_yank_line v),
      (''paste_after'', vn_paste_after v),
      (''start_delete_operator'', vn_start_delete_operator v),
      (''start_yank_operator'', vn_start_yank_operator v),
      (''start_change_operator'', vn_start_change_operator v),
      (''cancel_operator'', vn_cancel_operator v)]"

definition vim_operator_actions :: "vim_operator_keymap \<Rightarrow> action_table" where
  "vim_operator_actions v =
     [(''delete_line'', vo_delete_line v),
      (''yank_line'', vo_yank_line v),
      (''motion_left'', vo_motion_left v),
      (''motion_right'', vo_motion_right v),
      (''motion_up'', vo_motion_up v),
      (''motion_down'', vo_motion_down v),
      (''motion_word_forward'', vo_motion_word_forward v),
      (''motion_word_backward'', vo_motion_word_backward v),
      (''motion_word_end'', vo_motion_word_end v),
      (''motion_line_start'', vo_motion_line_start v),
      (''motion_line_end'', vo_motion_line_end v),
      (''select_inner_text_object'', vo_select_inner_text_object v),
      (''select_around_text_object'', vo_select_around_text_object v),
      (''cancel'', vo_cancel v)]"

definition vim_text_object_actions :: "vim_text_object_keymap \<Rightarrow> action_table" where
  "vim_text_object_actions v =
     [(''word'', vt_word v),
      (''big_word'', vt_big_word v),
      (''parentheses'', vt_parentheses v),
      (''brackets'', vt_brackets v),
      (''braces'', vt_braces v),
      (''double_quote'', vt_double_quote v),
      (''single_quote'', vt_single_quote v),
      (''backtick'', vt_backtick v),
      (''cancel'', vt_cancel v)]"

definition pager_actions :: "pager_keymap \<Rightarrow> action_table" where
  "pager_actions v =
     [(''scroll_up'', pk_scroll_up v),
      (''scroll_down'', pk_scroll_down v),
      (''page_up'', pk_page_up v),
      (''page_down'', pk_page_down v),
      (''half_page_up'', pk_half_page_up v),
      (''half_page_down'', pk_half_page_down v),
      (''jump_top'', pk_jump_top v),
      (''jump_bottom'', pk_jump_bottom v),
      (''close'', pk_close v),
      (''close_transcript'', pk_close_transcript v)]"

definition list_actions :: "list_keymap \<Rightarrow> action_table" where
  "list_actions v =
     [(''move_up'', lk_move_up v),
      (''move_down'', lk_move_down v),
      (''move_left'', lk_move_left v),
      (''move_right'', lk_move_right v),
      (''page_up'', lk_page_up v),
      (''page_down'', lk_page_down v),
      (''jump_top'', lk_jump_top v),
      (''jump_bottom'', lk_jump_bottom v),
      (''accept'', lk_accept v),
      (''cancel'', lk_cancel v)]"

definition approval_actions :: "approval_keymap \<Rightarrow> action_table" where
  "approval_actions v =
     [(''open_fullscreen'', vk_open_fullscreen v),
      (''open_thread'', vk_open_thread v),
      (''approve'', vk_approve v),
      (''approve_for_session'', vk_approve_for_session v),
      (''approve_for_prefix'', vk_approve_for_prefix v),
      (''deny'', vk_deny v),
      (''decline'', vk_decline v),
      (''cancel'', vk_cancel v)]"

text \<open>The tables prefix an action's name where they join several contexts.\<close>

definition prefixed :: "rstr \<Rightarrow> action_table \<Rightarrow> action_table" where
  "prefixed context table = map (\<lambda>(action, bs). (context @ ''.'' @ action, bs)) table"

definition main_actions :: "runtime_keymap \<Rightarrow> action_table" where
  "main_actions m =
     app_actions (rk_app m) @ prefixed ''chat'' (chat_actions (rk_chat m)) @ prefixed ''composer'' (composer_actions (rk_composer m))"

definition overlay_actions :: "runtime_keymap \<Rightarrow> action_table" where
  "overlay_actions m = prefixed ''list'' (list_actions (rk_list m)) @ prefixed ''approval'' (approval_actions (rk_approval m))"

text \<open>The handlers of the main surface that take a key before it reaches the editor.\<close>

definition main_handlers :: "runtime_keymap \<Rightarrow> action_table" where
  "main_handlers m =
     [(''open_transcript'', ak_open_transcript (rk_app m)),
      (''open_external_editor'', ak_open_external_editor (rk_app m)),
      (''copy'', ak_copy (rk_app m)),
      (''clear_terminal'', ak_clear_terminal (rk_app m)),
      (''chat.interrupt_turn'', ck_interrupt_turn (rk_chat m)),
      (''chat.decrease_reasoning_effort'', ck_decrease_reasoning_effort (rk_chat m)),
      (''chat.increase_reasoning_effort'', ck_increase_reasoning_effort (rk_chat m)),
      (''composer.submit'', mk_submit (rk_composer m)),
      (''toggle_vim_mode'', ak_toggle_vim_mode (rk_app m)),
      (''toggle_fast_mode'', ak_toggle_fast_mode (rk_app m)),
      (''toggle_raw_output'', ak_toggle_raw_output (rk_app m)),
      (''composer.history_search_previous'', mk_history_search_previous (rk_composer m))]"

section \<open>The checks\<close>

definition unique_binding :: "rstr \<Rightarrow> rstr \<Rightarrow> key_binding \<Rightarrow> (key_code \<times> key_modifiers \<rightharpoonup> rstr) \<Rightarrow>
    (keymap_error, key_code \<times> key_modifiers \<rightharpoonup> rstr) result" where
  "unique_binding context action binding seen =
     (case seen (binding_parts binding) of
        Some previous \<Rightarrow> Err (AmbiguousBindings context previous action)
      | None \<Rightarrow> Ok (seen(binding_parts binding \<mapsto> action)))"

definition validate_unique :: "rstr \<Rightarrow> action_table \<Rightarrow> (keymap_error, unit) result" where
  "validate_unique context pairs =
     and_then (fold_result (\<lambda>(action, bs). fold_result (unique_binding context action) bs) pairs Map.empty) (\<lambda>_. Ok ())"

type_synonym overlaps = "(rstr \<times> rstr \<times> key_binding) list"

definition is_allowed :: "overlaps \<Rightarrow> rstr \<Rightarrow> rstr \<Rightarrow> key_binding \<Rightarrow> bool" where
  "is_allowed allowed first_action second_action binding =
     list_ex (\<lambda>(a, b, allowed_binding).
        a = first_action \<and> b = second_action \<and> binding_parts allowed_binding = binding_parts binding) allowed"

definition first_actions :: "action_table \<Rightarrow> (key_code \<times> key_modifiers \<rightharpoonup> rstr)" where
  "first_actions primary =
     foldl (\<lambda>seen (action, bs). foldl (\<lambda>seen b. seen(binding_parts b \<mapsto> action)) seen bs) Map.empty primary"

definition shadow_binding :: "rstr \<Rightarrow> overlaps \<Rightarrow> (key_code \<times> key_modifiers \<rightharpoonup> rstr) \<Rightarrow> rstr \<Rightarrow> key_binding \<Rightarrow> unit \<Rightarrow>
    (keymap_error, unit) result" where
  "shadow_binding context allowed seen action binding u =
     (case seen (binding_parts binding) of
        Some previous \<Rightarrow>
          if is_allowed allowed previous action binding then Ok () else Err (ShadowedBindings context previous action)
      | None \<Rightarrow> Ok ())"

definition validate_no_shadow_with_allowed_overlaps ::
    "rstr \<Rightarrow> action_table \<Rightarrow> action_table \<Rightarrow> overlaps \<Rightarrow> (keymap_error, unit) result" where
  "validate_no_shadow_with_allowed_overlaps context primary shadowed allowed =
     (let seen = first_actions primary
      in fold_result (\<lambda>(action, bs). fold_result (shadow_binding context allowed seen action) bs) shadowed ())"

definition reserved_binding :: "rstr \<Rightarrow> (rstr \<times> key_binding) list \<Rightarrow> overlaps \<Rightarrow> rstr \<Rightarrow> key_binding \<Rightarrow> unit \<Rightarrow>
    (keymap_error, unit) result" where
  "reserved_binding context reserved allowed action binding u =
     (case List.find (\<lambda>(_, r). binding_parts r = binding_parts binding) reserved of
        Some (reserved_action, _) \<Rightarrow>
          if is_allowed allowed action reserved_action binding then Ok ()
          else Err (ReservedBinding context action reserved_action)
      | None \<Rightarrow> Ok ())"

definition validate_no_reserved ::
    "rstr \<Rightarrow> action_table \<Rightarrow> (rstr \<times> key_binding) list \<Rightarrow> overlaps \<Rightarrow> (keymap_error, unit) result" where
  "validate_no_reserved context pairs reserved allowed =
     fold_result (\<lambda>(action, bs). fold_result (reserved_binding context reserved allowed action) bs) pairs ()"

definition MAIN_RESERVED_BINDINGS :: "(rstr \<times> key_binding) list" where
  "MAIN_RESERVED_BINDINGS =
     [(''fixed.interrupt_or_quit'', ctrl_key (KeyChar ''c'')),
      (''fixed.quit'', ctrl_key (KeyChar ''d'')),
      (''fixed.paste_image'', ctrl_key (KeyChar ''v'')),
      (''fixed.paste_image'', ctrl_alt_key (KeyChar ''v'')),
      (''fixed.cycle_collaboration_mode'', shift_key KeyTab),
      (''fixed.backtrack'', plain_key KeyEsc),
      (''fixed.previous_agent'', alt_key KeyLeft),
      (''fixed.next_agent'', alt_key KeyRight),
      (''fixed.slash_command'', plain_key (KeyChar ''/'')),
      (''fixed.shell_command'', plain_key (KeyChar ''!'')),
      (''fixed.file_paths'', plain_key (KeyChar ''@'')),
      (''fixed.connector_mentions'', plain_key (KeyChar ''$''))]"

definition TRANSCRIPT_BACKTRACK_RESERVED_BINDINGS :: "(rstr \<times> key_binding) list" where
  "TRANSCRIPT_BACKTRACK_RESERVED_BINDINGS =
     [(''fixed.transcript_edit_previous'', plain_key KeyEsc),
      (''fixed.transcript_edit_previous'', plain_key KeyLeft),
      (''fixed.transcript_edit_next'', plain_key KeyRight),
      (''fixed.transcript_confirm_edit'', plain_key KeyEnter)]"

text \<open>The overlay of approvals joins two contexts, which may share one key: escape cancels and declines.\<close>

definition overlay_binding :: "rstr \<Rightarrow> key_binding \<Rightarrow> (key_code \<times> key_modifiers \<rightharpoonup> rstr) \<Rightarrow>
    (keymap_error, key_code \<times> key_modifiers \<rightharpoonup> rstr) result" where
  "overlay_binding action binding seen =
     (let key = binding_parts binding
      in case seen key of
           Some previous \<Rightarrow>
             if previous = ''list.cancel'' \<and> action = ''approval.decline'' \<and> key = (KeyEsc, mods_none)
             then Ok (seen(key \<mapsto> action)) else Err (AmbiguousOverlay previous action)
         | None \<Rightarrow> Ok (seen(key \<mapsto> action)))"

definition validate_overlay :: "action_table \<Rightarrow> (keymap_error, unit) result" where
  "validate_overlay pairs =
     and_then (fold_result (\<lambda>(action, bs). fold_result (overlay_binding action) bs) pairs Map.empty) (\<lambda>_. Ok ())"

definition main_reserved_overlaps :: overlaps where
  "main_reserved_overlaps = [(''chat.interrupt_turn'', ''fixed.backtrack'', plain_key KeyEsc)]"

definition app_overlay_overlaps :: overlaps where
  "app_overlay_overlaps = [(''clear_terminal'', ''list.move_right'', ctrl_key (KeyChar ''l''))]"

definition main_editor_overlaps :: overlaps where
  "main_editor_overlaps = [(''composer.submit'', ''editor.insert_newline'', plain_key KeyEnter)]"

definition question_handlers :: "runtime_keymap \<Rightarrow> action_table" where
  "question_handlers m = [(''chat.interrupt_turn'', ck_interrupt_turn (rk_chat m))]"

definition question_actions :: "runtime_keymap \<Rightarrow> action_table" where
  "question_actions m = [(''list.move_left'', lk_move_left (rk_list m)), (''list.move_right'', lk_move_right (rk_list m))]"

definition validate_conflicts :: "runtime_keymap \<Rightarrow> (keymap_error, unit) result" where
  "validate_conflicts m =
     and_then (validate_unique ''app'' (main_actions m)) (\<lambda>_.
     and_then (validate_no_reserved ''main'' (main_actions m) MAIN_RESERVED_BINDINGS main_reserved_overlaps) (\<lambda>_.
     and_then (validate_no_shadow_with_allowed_overlaps ''app'' (app_actions (rk_app m)) (overlay_actions m) app_overlay_overlaps) (\<lambda>_.
     and_then (validate_no_shadow_with_allowed_overlaps ''request_user_input'' (question_handlers m) (question_actions m) []) (\<lambda>_.
     and_then (validate_no_shadow_with_allowed_overlaps ''main'' (main_handlers m) (prefixed ''editor'' (editor_actions (rk_editor m)))
                 main_editor_overlaps) (\<lambda>_.
     and_then (validate_unique ''editor'' (editor_actions (rk_editor m))) (\<lambda>_.
     and_then (validate_unique ''vim_normal'' (vim_normal_actions (rk_vim_normal m))) (\<lambda>_.
     and_then (validate_unique ''vim_operator'' (vim_operator_actions (rk_vim_operator m))) (\<lambda>_.
     and_then (validate_unique ''vim_text_object'' (vim_text_object_actions (rk_vim_text_object m))) (\<lambda>_.
     and_then (validate_unique ''pager'' (pager_actions (rk_pager m))) (\<lambda>_.
     and_then (validate_no_reserved ''pager'' (pager_actions (rk_pager m)) TRANSCRIPT_BACKTRACK_RESERVED_BINDINGS []) (\<lambda>_.
     and_then (validate_unique ''list'' (list_actions (rk_list m))) (\<lambda>_.
     and_then (validate_unique ''approval'' (approval_actions (rk_approval m))) (\<lambda>_.
     validate_overlay (overlay_actions m))))))))))))))"

section \<open>From the configuration to the key map\<close>

definition resolve_keymap :: "tui_keymap \<Rightarrow> (keymap_error, runtime_keymap) result" where
  "resolve_keymap k =
     (let d = keymap_defaults in
      and_then (resolve_app (tk_global k) (rk_app d)) (\<lambda>app.
      and_then (resolve_chat (tk_chat k) (rk_chat d)) (\<lambda>chat.
      and_then (resolve_composer (tk_global k) (tk_composer k) (rk_composer d)) (\<lambda>composer.
      and_then (resolve_editor (tk_editor k) (rk_editor d)) (\<lambda>editor.
      and_then (resolve_vim_normal (tk_vim_normal k) (rk_vim_normal d)) (\<lambda>vim_normal.
      and_then (resolve_vim_operator (tk_vim_operator k) (rk_vim_operator d)) (\<lambda>vim_operator.
      and_then (resolve_vim_text_object (tk_vim_text_object k) (rk_vim_text_object d)) (\<lambda>vim_text_object.
      and_then (resolve_pager (tk_pager k) (rk_pager d)) (\<lambda>pager.
      and_then (resolve_approval (tk_approval k) (rk_approval d)) (\<lambda>approval.
      and_then (resolve_list k app approval (rk_list d)) (\<lambda>list_map.
      Ok \<lparr>rk_app = app, rk_chat = chat_yield k chat, rk_composer = composer, rk_editor = editor,
          rk_vim_normal = vim_normal_yield (tk_vim_normal k) vim_normal,
          rk_vim_operator = vim_operator_yield (tk_vim_operator k) vim_operator,
          rk_vim_text_object = vim_text_object, rk_pager = pager, rk_list = list_map, rk_approval = approval\<rparr>)))))))))))"

definition from_config :: "tui_keymap \<Rightarrow> (keymap_error, runtime_keymap) result" where
  "from_config k = and_then (resolve_keymap k) (\<lambda>m. and_then (validate_conflicts m) (\<lambda>_. Ok m))"

end
