(* ===== verification/Keymap_Facts.thy ===== *)
theory Keymap_Facts
  imports Keymap_Checks
begin

text \<open>
  What the checks of a key map give, and what resolving keeps: the lists of bindings are closed
  under the normalisation that matching applies, so that comparing keys as they are written, as the
  checks do, decides whether one event can press two actions.
\<close>

section \<open>Closed lists of bindings\<close>

definition normal_parts :: "key_binding \<Rightarrow> key_code \<times> key_modifiers" where
  "normal_parts b = normalize_key_parts (binding_key b) (binding_modifiers b)"

definition event_parts :: "key_event \<Rightarrow> key_code \<times> key_modifiers" where
  "event_parts ev = normalize_key_parts (event_code ev) (event_modifiers ev)"

definition all_normal :: "key_binding list \<Rightarrow> bool" where
  "all_normal bs = list_all (\<lambda>b. normal_parts b = binding_parts b) bs"

definition closed :: "key_binding list \<Rightarrow> bool" where
  "closed bs = list_all (\<lambda>b. normal_parts b \<in> set (map binding_parts bs)) bs"

lemma all_normal_closed: "all_normal bs \<Longrightarrow> closed bs"
  by (auto simp: all_normal_def closed_def list_all_iff)

lemma all_normal_filter: "all_normal bs \<Longrightarrow> all_normal (filter P bs)"
  by (simp add: all_normal_def list_all_iff)

lemma pressed_parts:
  assumes "closed bs" "is_pressed bs ev"
  shows "event_parts ev \<in> set (map binding_parts bs)"
proof -
  obtain b where "b \<in> set bs" "normal_parts b = event_parts ev"
    using assms(2) by (auto simp: is_pressed_def is_press_def list_ex_iff event_parts_def normal_parts_def)
  then show ?thesis using assms(1) by (metis (no_types, lifting) closed_def list_all_iff)
qed

lemma binding_parts_inj: "binding_parts b = binding_parts b' \<longleftrightarrow> b = b'"
  by (cases b; cases b') (auto simp: binding_parts_def)

section \<open>What the checks give\<close>

lemma unique_bindings_Ok:
  "fold_result (unique_binding c a) bs seen = Ok seen' \<Longrightarrow>
     distinct (map binding_parts bs) \<and> set (map binding_parts bs) \<inter> dom seen = {} \<and>
     dom seen' = dom seen \<union> set (map binding_parts bs)"
proof (induction bs arbitrary: seen)
  case (Cons b bs)
  have new: "seen (binding_parts b) = None"
    using Cons.prems by (cases "seen (binding_parts b)") (simp_all add: unique_binding_def)
  then have "unique_binding c a b seen = Ok (seen(binding_parts b \<mapsto> a))" by (simp add: unique_binding_def)
  then have rest: "fold_result (unique_binding c a) bs (seen(binding_parts b \<mapsto> a)) = Ok seen'"
    using Cons.prems by simp
  show ?case using new Cons.IH [OF rest] by auto
qed simp

lemma unique_tables_Ok:
  "fold_result (\<lambda>(a, bs). fold_result (unique_binding c a) bs) ps seen = Ok seen' \<Longrightarrow>
     distinct (map binding_parts (concat (map snd ps))) \<and> set (map binding_parts (concat (map snd ps))) \<inter> dom seen = {}"
proof (induction ps arbitrary: seen)
  case (Cons p ps)
  obtain a bs where p: "p = (a, bs)" by fastforce
  obtain s where s: "fold_result (unique_binding c a) bs seen = Ok s"
    and rest: "fold_result (\<lambda>(a, bs). fold_result (unique_binding c a) bs) ps s = Ok seen'"
    using Cons.prems p by (auto split: sum.splits)
  show ?case using Cons.IH [OF rest] unique_bindings_Ok [OF s] p by auto
qed simp

lemma validate_unique_distinct:
  "validate_unique c ps = Ok () \<Longrightarrow> distinct (map binding_parts (concat (map snd ps)))"
  unfolding validate_unique_def and_then_eq_Ok using unique_tables_Ok by blast

definition pressed_actions :: "action_table \<Rightarrow> key_event \<Rightarrow> rstr list" where
  "pressed_actions table ev = map fst (filter (\<lambda>(_, bs). is_pressed bs ev) table)"

lemma pressed_at_most_one:
  assumes "distinct (filter Q (map binding_parts (concat (map snd ps))))" "\<forall>bs \<in> set (map snd ps). closed bs"
    and Q: "Q (event_parts ev)"
  shows "length (pressed_actions ps ev) \<le> 1"
  using assms(1,2)
proof (induction ps)
  case (Cons p ps)
  obtain a bs where p: "p = (a, bs)" by fastforce
  show ?case
  proof (cases "is_pressed bs ev")
    case True
    then have here: "event_parts ev \<in> set (map binding_parts bs)" using Cons.prems p pressed_parts by auto
    have "\<not> is_pressed cs ev" if "(x, cs) \<in> set ps" for x cs
    proof
      assume "is_pressed cs ev"
      then have "event_parts ev \<in> set (map binding_parts cs)" using Cons.prems that pressed_parts by force
      then have "event_parts ev \<in> set (map binding_parts (concat (map snd ps)))" using that by force
      then show False using here Q Cons.prems(1) p by (auto simp: distinct_append filter_append simp del: filter_map)
    qed
    then have "filter (\<lambda>(_, bs). is_pressed bs ev) ps = []" by (auto simp: filter_empty_conv)
    then show ?thesis using True p by (simp add: pressed_actions_def)
  next
    case False
    then show ?thesis using Cons p by (auto simp: pressed_actions_def)
  qed
qed (simp add: pressed_actions_def)

text \<open>The overlay of approvals may share escape, and nothing else.\<close>

abbreviation not_escape :: "key_code \<times> key_modifiers \<Rightarrow> bool" where
  "not_escape key \<equiv> key \<noteq> (KeyEsc, mods_none)"

lemma overlay_bindings_Ok:
  "fold_result (overlay_binding a) bs seen = Ok seen' \<Longrightarrow>
     distinct (filter not_escape (map binding_parts bs)) \<and>
     set (filter not_escape (map binding_parts bs)) \<inter> dom seen = {} \<and> dom seen' = dom seen \<union> set (map binding_parts bs)"
proof (induction bs arbitrary: seen)
  case (Cons b bs)
  have new: "not_escape (binding_parts b) \<Longrightarrow> seen (binding_parts b) = None"
    and "overlay_binding a b seen = Ok (seen(binding_parts b \<mapsto> a))"
    using Cons.prems by (auto simp: overlay_binding_def Let_def split: option.splits if_splits)
  then have rest: "fold_result (overlay_binding a) bs (seen(binding_parts b \<mapsto> a)) = Ok seen'"
    using Cons.prems by simp
  show ?case using new Cons.IH [OF rest] by auto
qed simp

lemma overlay_tables_Ok:
  "fold_result (\<lambda>(a, bs). fold_result (overlay_binding a) bs) ps seen = Ok seen' \<Longrightarrow>
     distinct (filter not_escape (map binding_parts (concat (map snd ps)))) \<and>
     set (filter not_escape (map binding_parts (concat (map snd ps)))) \<inter> dom seen = {}"
proof (induction ps arbitrary: seen)
  case (Cons p ps)
  obtain a bs where p: "p = (a, bs)" by fastforce
  obtain s where s: "fold_result (overlay_binding a) bs seen = Ok s"
    and rest: "fold_result (\<lambda>(a, bs). fold_result (overlay_binding a) bs) ps s = Ok seen'"
    using Cons.prems p by (auto split: sum.splits)
  show ?case using Cons.IH [OF rest] overlay_bindings_Ok [OF s] p by auto
qed simp

lemma validate_overlay_distinct:
  "validate_overlay ps = Ok () \<Longrightarrow> distinct (filter not_escape (map binding_parts (concat (map snd ps))))"
  unfolding validate_overlay_def and_then_eq_Ok using overlay_tables_Ok by blast

lemma fold_result_unit:
  "fold_result f xs () = Ok () \<longleftrightarrow> (\<forall>x \<in> set xs. f x () = Ok ())"
  by (induction xs) (auto split: sum.splits)

lemma first_actions_dom: "dom (first_actions ps) = set (map binding_parts (concat (map snd ps)))"
proof -
  have inner: "dom (foldl (\<lambda>seen b. seen(binding_parts b \<mapsto> a)) s bs) = dom s \<union> set (map binding_parts bs)" for a s bs
    by (induction bs arbitrary: s) auto
  have "dom (foldl (\<lambda>seen (action, bs). foldl (\<lambda>seen b. seen(binding_parts b \<mapsto> action)) seen bs) s ps) =
      dom s \<union> set (map binding_parts (concat (map snd ps)))" for s
    by (induction ps arbitrary: s) (simp_all add: inner split_beta Un_assoc image_Un del: fun_upd_apply)
  then show ?thesis by (simp add: first_actions_def)
qed

text \<open>A key two levels share is one of the allowed ones.\<close>

lemma no_shadow_pressed:
  assumes ok: "validate_no_shadow_with_allowed_overlaps c primary shadowed allowed = Ok ()"
    and a: "(a, bs) \<in> set primary" "closed bs" "is_pressed bs ev"
    and b: "(b, cs) \<in> set shadowed" "closed cs" "is_pressed cs ev"
  shows "\<exists>p key. (p, b, key) \<in> set allowed \<and> binding_parts key = event_parts ev"
proof -
  obtain k where k: "k \<in> set cs" "binding_parts k = event_parts ev"
    using pressed_parts [OF b(2,3)] by auto
  have "event_parts ev \<in> dom (first_actions primary)"
    using pressed_parts [OF a(2,3)] a(1) unfolding first_actions_dom by force
  then obtain p where "first_actions primary (binding_parts k) = Some p" using k by auto
  moreover have "shadow_binding c allowed (first_actions primary) b k () = Ok ()"
    using ok b(1) k(1) by (fastforce simp: validate_no_shadow_with_allowed_overlaps_def fold_result_unit)
  ultimately show ?thesis
    using k(2) by (auto simp: shadow_binding_def is_allowed_def list_ex_iff split: if_splits)
qed

lemma no_reserved_pressed:
  assumes ok: "validate_no_reserved c pairs reserved allowed = Ok ()"
    and a: "(a, bs) \<in> set pairs" "closed bs" "is_pressed bs ev"
    and r: "(r, rb) \<in> set reserved" "normal_parts rb = binding_parts rb" "is_press rb ev"
  shows "\<exists>r' key. (a, r', key) \<in> set allowed \<and> binding_parts key = event_parts ev"
proof -
  obtain k where k: "k \<in> set bs" "binding_parts k = event_parts ev"
    using pressed_parts [OF a(2,3)] by auto
  have rb: "binding_parts rb = event_parts ev"
    using r(2,3) by (simp add: is_press_def event_parts_def normal_parts_def)
  then obtain r' rb' where "List.find (\<lambda>(_, r). binding_parts r = binding_parts k) reserved = Some (r', rb')"
    using r(1) k(2) by (cases "List.find (\<lambda>(_, r). binding_parts r = binding_parts k) reserved") (fastforce simp: find_None_iff_all)+
  moreover have "reserved_binding c reserved allowed a k () = Ok ()"
    using ok a(1) k(1) by (fastforce simp: validate_no_reserved_def fold_result_unit)
  ultimately show ?thesis
    using k(2) by (auto simp: reserved_binding_def is_allowed_def list_ex_iff split: if_splits)
qed

section \<open>What resolving keeps\<close>

definition slot_ok :: "slot \<Rightarrow> bool" where
  "slot_ok v = (case v of None \<Rightarrow> True | Some spec \<Rightarrow> \<forall>s \<in> set (spec_list spec). normalized_spec s)"

definition normalized_config :: "tui_keymap \<Rightarrow> bool" where
  "normalized_config k = (\<forall>v \<in> set (keymap_values k). slot_ok v)"

lemma bound_normal_parts: "bound_binding b \<Longrightarrow> normal_parts b = binding_parts b"
  by (simp add: bound_binding_def normal_parts_def binding_parts_def bound_normal)

lemma set_push_absent [simp]: "set (push_absent x xs) = insert x (set xs)"
  by (auto simp: push_absent_def)

lemma parse_loop_set:
  "fold_result (\<lambda>raw parsed. case parse_keybinding raw of
                  None \<Rightarrow> Err (InvalidBinding path raw)
                | Some binding \<Rightarrow> Ok (push_absent binding parsed)) xs acc = Ok bs \<Longrightarrow>
     Some ` set bs = Some ` set acc \<union> parse_keybinding ` set xs"
  by (induction xs arbitrary: acc) (auto split: option.splits)

lemma parse_bindings_set:
  "parse_bindings spec path = Ok bs \<Longrightarrow> Some ` set bs = parse_keybinding ` set (spec_list spec)"
  unfolding parse_bindings_def by (drule parse_loop_set) simp

lemma parse_loop_ok:
  "\<forall>s \<in> set xs. \<exists>b. parse_keybinding s = Some b \<Longrightarrow>
     \<exists>bs. fold_result (\<lambda>raw parsed. case parse_keybinding raw of
                     None \<Rightarrow> Err (InvalidBinding path raw)
                   | Some binding \<Rightarrow> Ok (push_absent binding parsed)) xs acc = Ok bs"
  by (induction xs arbitrary: acc) auto

lemma parse_bindings_ok:
  "\<forall>s \<in> set (spec_list spec). \<exists>b. parse_keybinding s = Some b \<Longrightarrow> \<exists>bs. parse_bindings spec path = Ok bs"
  unfolding parse_bindings_def by (rule parse_loop_ok)

lemma parse_bindings_normal:
  assumes "parse_bindings spec path = Ok bs" "slot_ok (Some spec)"
  shows "all_normal bs"
proof -
  have "normal_parts b = binding_parts b" if "b \<in> set bs" for b
  proof -
    have "Some b \<in> parse_keybinding ` set (spec_list spec)"
      using that parse_bindings_set [OF assms(1)] by blast
    then obtain s where "s \<in> set (spec_list spec)" "parse_keybinding s = Some b" by auto
    then show ?thesis
      using assms(2) normalized_spec_parses bound_normal_parts by (fastforce simp: slot_ok_def)
  qed
  then show ?thesis by (simp add: all_normal_def list_all_iff)
qed

lemma resolve_closed:
  "resolve_bindings v d path = Ok bs \<Longrightarrow> slot_ok v \<Longrightarrow> closed d \<Longrightarrow> closed bs"
  by (auto simp: resolve_bindings_def split: option.splits intro: all_normal_closed parse_bindings_normal)

lemma resolve_all_normal:
  "resolve_bindings v d path = Ok bs \<Longrightarrow> slot_ok v \<Longrightarrow> all_normal d \<Longrightarrow> all_normal bs"
  by (auto simp: resolve_bindings_def split: option.splits intro: parse_bindings_normal)

lemma resolve_global_closed:
  "resolve_bindings_with_global_fallback v g d path = Ok bs \<Longrightarrow> slot_ok v \<Longrightarrow> slot_ok g \<Longrightarrow> closed d \<Longrightarrow> closed bs"
  by (auto simp: resolve_bindings_with_global_fallback_def split: option.splits intro: all_normal_closed parse_bindings_normal)

lemma resolve_new_closed:
  "resolve_new_default_bindings v d preserve path = Ok bs \<Longrightarrow> slot_ok v \<Longrightarrow> all_normal d \<Longrightarrow> closed bs"
  by (auto simp: resolve_new_default_bindings_def split: option.splits
      intro: all_normal_closed all_normal_filter parse_bindings_normal)

section \<open>Tables\<close>

definition table_closed :: "action_table \<Rightarrow> bool" where
  "table_closed table = list_all (\<lambda>(_, bs). closed bs) table"

text \<open>A table resolved action by action.\<close>

definition resolved_table :: "rstr \<Rightarrow> slot list \<Rightarrow> action_table \<Rightarrow> action_table \<Rightarrow> bool" where
  "resolved_table context values fallback table =
     list_all2 (\<lambda>(v, a, d) (a', bs). a' = a \<and> resolve_bindings v d (keymap_path context a) = Ok bs)
       (zip values fallback) table"

lemma resolved_table_closed:
  assumes "resolved_table c vs d t" "\<forall>v \<in> set vs. slot_ok v" "table_closed d"
  shows "table_closed t"
proof -
  have "list_all2 (\<lambda>(v, a, d) (a', bs). a' = a \<and> resolve_bindings v d (keymap_path c a) = Ok bs) xs t \<Longrightarrow>
      \<forall>(v, a, d) \<in> set xs. slot_ok v \<and> closed d \<Longrightarrow> table_closed t" for xs
    by (induction xs t rule: list_all2_induct) (auto simp: table_closed_def intro: resolve_closed)
  moreover have "\<forall>(v, a, d) \<in> set (zip vs d). slot_ok v \<and> closed d"
    using assms(2,3) by (auto simp: table_closed_def list_all_iff dest: set_zip_leftD set_zip_rightD)
  ultimately show ?thesis using assms(1) by (simp add: resolved_table_def)
qed

lemmas resolve_unfold = and_then_eq_Ok resolved_table_def

lemma resolve_chat_table:
  "resolve_chat k d = Ok v \<Longrightarrow> resolved_table ''chat'' (chat_values k) (chat_actions d) (chat_actions v)"
  by (clarsimp simp: resolve_unfold resolve_chat_def chat_values_def chat_actions_def)

lemma resolve_editor_table:
  "resolve_editor k d = Ok v \<Longrightarrow> resolved_table ''editor'' (editor_values k) (editor_actions d) (editor_actions v)"
  by (clarsimp simp: resolve_unfold resolve_editor_def editor_values_def editor_actions_def)

lemma resolve_vim_normal_table:
  "resolve_vim_normal k d = Ok v \<Longrightarrow> resolved_table ''vim_normal'' (vim_normal_values k) (vim_normal_actions d) (vim_normal_actions v)"
  by (clarsimp simp: resolve_unfold resolve_vim_normal_def vim_normal_values_def vim_normal_actions_def)

lemma resolve_vim_operator_table:
  "resolve_vim_operator k d = Ok v \<Longrightarrow> resolved_table ''vim_operator'' (vim_operator_values k) (vim_operator_actions d) (vim_operator_actions v)"
  by (clarsimp simp: resolve_unfold resolve_vim_operator_def vim_operator_values_def vim_operator_actions_def)

lemma resolve_vim_text_object_table:
  "resolve_vim_text_object k d = Ok v \<Longrightarrow> resolved_table ''vim_text_object'' (vim_text_object_values k) (vim_text_object_actions d) (vim_text_object_actions v)"
  by (clarsimp simp: resolve_unfold resolve_vim_text_object_def vim_text_object_values_def vim_text_object_actions_def)

lemma resolve_pager_table:
  "resolve_pager k d = Ok v \<Longrightarrow> resolved_table ''pager'' (pager_values k) (pager_actions d) (pager_actions v)"
  by (clarsimp simp: resolve_unfold resolve_pager_def pager_values_def pager_actions_def)

lemma resolve_approval_table:
  "resolve_approval k d = Ok v \<Longrightarrow> resolved_table ''approval'' (approval_values k) (approval_actions d) (approval_actions v)"
  by (clarsimp simp: resolve_unfold resolve_approval_def approval_values_def approval_actions_def)

text \<open>The actions of the app are configured under \<open>global\<close>, next to three fallbacks of the composer.\<close>

definition app_values :: "tui_global_keymap \<Rightarrow> slot list" where
  "app_values k =
     [tg_open_transcript k, tg_open_external_editor k, tg_copy k, tg_clear_terminal k, tg_toggle_vim_mode k, tg_toggle_fast_mode k, tg_toggle_raw_output k]"

definition or_else :: "slot \<Rightarrow> slot \<Rightarrow> slot" where
  "or_else v g = (if v = None then g else v)"

definition composer_effective :: "tui_global_keymap \<Rightarrow> tui_composer_keymap \<Rightarrow> slot list" where
  "composer_effective g k =
     [or_else (tm_submit k) (tg_submit g), or_else (tm_queue k) (tg_queue g),
      or_else (tm_toggle_shortcuts k) (tg_toggle_shortcuts g), tm_history_search_previous k, tm_history_search_next k]"

lemma resolve_or_else:
  "resolve_bindings_with_global_fallback v g d path = resolve_bindings (or_else v g) d path"
  by (auto simp: resolve_bindings_with_global_fallback_def resolve_bindings_def or_else_def split: option.splits)

lemma resolve_app_table:
  "resolve_app k d = Ok v \<Longrightarrow> resolved_table ''global'' (app_values k) (app_actions d) (app_actions v)"
  by (clarsimp simp: resolve_unfold resolve_app_def app_values_def app_actions_def)

lemma resolve_composer_table:
  "resolve_composer g k d = Ok v \<Longrightarrow> resolved_table ''composer'' (composer_effective g k) (composer_actions d) (composer_actions v)"
  by (clarsimp simp: resolve_unfold resolve_composer_def resolve_or_else composer_effective_def composer_actions_def)

section \<open>Giving way\<close>

lemma retain_closed: "all_normal bs \<Longrightarrow> closed (retain_unless c preserve bs)"
  by (simp add: retain_unless_def all_normal_closed all_normal_filter)

lemma yielding_fields:
  "all_normal (vn_start_change_operator default_vim_normal_keymap)" "all_normal (vn_substitute_char default_vim_normal_keymap)"
  "all_normal (vo_select_inner_text_object default_vim_operator_keymap)"
  "all_normal (vo_select_around_text_object default_vim_operator_keymap)"
  "all_normal (ck_decrease_reasoning_effort default_chat_keymap)" "all_normal (ck_increase_reasoning_effort default_chat_keymap)"
  "all_normal (lk_move_left default_list_keymap)" "all_normal (lk_move_right default_list_keymap)"
  "all_normal (lk_page_up default_list_keymap)" "all_normal (lk_page_down default_list_keymap)"
  "all_normal (lk_jump_top default_list_keymap)" "all_normal (lk_jump_bottom default_list_keymap)"
  by code_simp+

lemma default_tables_closed:
  "table_closed (app_actions default_app_keymap)" "table_closed (chat_actions default_chat_keymap)"
  "table_closed (composer_actions default_composer_keymap)" "table_closed (editor_actions default_editor_keymap)"
  "table_closed (vim_normal_actions default_vim_normal_keymap)" "table_closed (vim_operator_actions default_vim_operator_keymap)"
  "table_closed (vim_text_object_actions default_vim_text_object_keymap)" "table_closed (pager_actions default_pager_keymap)"
  "table_closed (list_actions default_list_keymap)" "table_closed (approval_actions default_approval_keymap)"
  by code_simp+

lemma vim_normal_yield_closed:
  assumes "resolve_vim_normal k default_vim_normal_keymap = Ok v" "\<forall>s \<in> set (vim_normal_values k). slot_ok s"
  shows "table_closed (vim_normal_actions (vim_normal_yield k v))"
proof -
  have "table_closed (vim_normal_actions v)"
    by (rule resolved_table_closed [OF resolve_vim_normal_table [OF assms(1)] assms(2) default_tables_closed(5)])
  moreover have "all_normal (vn_start_change_operator v)" "all_normal (vn_substitute_char v)"
    using assms yielding_fields(1,2) resolve_all_normal
    by (force simp: resolve_vim_normal_def and_then_eq_Ok vim_normal_values_def)+
  ultimately show ?thesis
    by (simp add: vim_normal_yield_def Let_def vim_normal_actions_def table_closed_def retain_closed)
qed

lemma vim_operator_yield_closed:
  assumes "resolve_vim_operator k default_vim_operator_keymap = Ok v" "\<forall>s \<in> set (vim_operator_values k). slot_ok s"
  shows "table_closed (vim_operator_actions (vim_operator_yield k v))"
proof -
  have "table_closed (vim_operator_actions v)"
    by (rule resolved_table_closed [OF resolve_vim_operator_table [OF assms(1)] assms(2) default_tables_closed(6)])
  moreover have "all_normal (vo_select_inner_text_object v)" "all_normal (vo_select_around_text_object v)"
    using assms yielding_fields(3,4) resolve_all_normal
    by (force simp: resolve_vim_operator_def and_then_eq_Ok vim_operator_values_def)+
  ultimately show ?thesis
    by (simp add: vim_operator_yield_def Let_def vim_operator_actions_def table_closed_def retain_closed)
qed

lemma chat_yield_closed:
  assumes "resolve_chat (tk_chat k) default_chat_keymap = Ok v" "\<forall>s \<in> set (chat_values (tk_chat k)). slot_ok s"
  shows "table_closed (chat_actions (chat_yield k v))"
proof -
  have "table_closed (chat_actions v)"
    by (rule resolved_table_closed [OF resolve_chat_table [OF assms(1)] assms(2) default_tables_closed(2)])
  moreover have "all_normal (ck_decrease_reasoning_effort v)" "all_normal (ck_increase_reasoning_effort v)"
    using assms yielding_fields(5,6) resolve_all_normal
    by (force simp: resolve_chat_def and_then_eq_Ok chat_values_def)+
  ultimately show ?thesis
    by (simp add: chat_yield_def Let_def chat_actions_def table_closed_def all_normal_closed all_normal_filter)
qed

lemma resolve_list_closed:
  assumes "resolve_list k app approval default_list_keymap = Ok v" "\<forall>s \<in> set (list_values (tk_list k)). slot_ok s"
  shows "table_closed (list_actions v)"
proof -
  have d: "closed (lk_move_up default_list_keymap)" "closed (lk_move_down default_list_keymap)"
    "closed (lk_accept default_list_keymap)" "closed (lk_cancel default_list_keymap)"
    using default_tables_closed(9) by (simp_all add: table_closed_def list_actions_def)
  from assms show ?thesis
    unfolding resolve_list_def and_then_eq_Ok Let_def list_values_def list_actions_def table_closed_def
    by (elim exE conjE)
       (auto intro: resolve_closed [OF _ _ d(1)] resolve_closed [OF _ _ d(2)] resolve_closed [OF _ _ d(3)]
          resolve_closed [OF _ _ d(4)] resolve_new_closed [OF _ _ yielding_fields(7)] resolve_new_closed [OF _ _ yielding_fields(8)]
          resolve_new_closed [OF _ _ yielding_fields(9)] resolve_new_closed [OF _ _ yielding_fields(10)]
          resolve_new_closed [OF _ _ yielding_fields(11)] resolve_new_closed [OF _ _ yielding_fields(12)])
qed

section \<open>Accepted key maps\<close>

text \<open>The tables an event is looked up in, one at a time.\<close>

definition dispatch_tables :: "runtime_keymap \<Rightarrow> action_table list" where
  "dispatch_tables m =
     [main_actions m, editor_actions (rk_editor m), vim_normal_actions (rk_vim_normal m),
      vim_operator_actions (rk_vim_operator m), vim_text_object_actions (rk_vim_text_object m),
      pager_actions (rk_pager m), list_actions (rk_list m), approval_actions (rk_approval m)]"

lemma table_closed_append [simp]: "table_closed (s @ t) \<longleftrightarrow> table_closed s \<and> table_closed t"
  by (simp add: table_closed_def)

lemma table_closed_prefixed [simp]: "table_closed (prefixed c t) \<longleftrightarrow> table_closed t"
  by (auto simp: table_closed_def prefixed_def list_all_iff)

lemma table_closed_mem: "table_closed t \<Longrightarrow> (a, bs) \<in> set t \<Longrightarrow> closed bs"
  by (auto simp: table_closed_def list_all_iff)

lemma app_values_ok: "\<forall>v \<in> set (global_values g). slot_ok v \<Longrightarrow> \<forall>v \<in> set (app_values g). slot_ok v"
  by (auto simp: global_values_def app_values_def)

lemma composer_effective_ok:
  "\<forall>v \<in> set (global_values g). slot_ok v \<Longrightarrow> \<forall>v \<in> set (composer_values k). slot_ok v \<Longrightarrow>
     \<forall>v \<in> set (composer_effective g k). slot_ok v"
  by (auto simp: global_values_def composer_values_def composer_effective_def or_else_def)

lemma resolve_keymap_parts:
  assumes "resolve_keymap k = Ok m"
  obtains app chat composer editor normal operator tobj pager approval lists where
    "resolve_app (tk_global k) default_app_keymap = Ok app" "resolve_chat (tk_chat k) default_chat_keymap = Ok chat"
      "resolve_composer (tk_global k) (tk_composer k) default_composer_keymap = Ok composer"
      "resolve_editor (tk_editor k) default_editor_keymap = Ok editor"
      "resolve_vim_normal (tk_vim_normal k) default_vim_normal_keymap = Ok normal"
      "resolve_vim_operator (tk_vim_operator k) default_vim_operator_keymap = Ok operator"
      "resolve_vim_text_object (tk_vim_text_object k) default_vim_text_object_keymap = Ok tobj"
      "resolve_pager (tk_pager k) default_pager_keymap = Ok pager"
      "resolve_approval (tk_approval k) default_approval_keymap = Ok approval"
      "resolve_list k app approval default_list_keymap = Ok lists"
      "m = \<lparr>rk_app = app, rk_chat = chat_yield k chat, rk_composer = composer, rk_editor = editor,
          rk_vim_normal = vim_normal_yield (tk_vim_normal k) normal,
          rk_vim_operator = vim_operator_yield (tk_vim_operator k) operator,
          rk_vim_text_object = tobj, rk_pager = pager, rk_list = lists, rk_approval = approval\<rparr>"
  using assms by (auto simp: resolve_keymap_def and_then_eq_Ok keymap_defaults_def Let_def)

lemma resolve_keymap_closed:
  assumes "normalized_config k" "resolve_keymap k = Ok m"
  shows "\<forall>t \<in> set (dispatch_tables m). table_closed t"
proof -
  note d = default_tables_closed
  have ok: "\<forall>v \<in> set (global_values (tk_global k)). slot_ok v" "\<forall>v \<in> set (chat_values (tk_chat k)). slot_ok v"
    "\<forall>v \<in> set (composer_values (tk_composer k)). slot_ok v" "\<forall>v \<in> set (editor_values (tk_editor k)). slot_ok v"
    "\<forall>v \<in> set (vim_normal_values (tk_vim_normal k)). slot_ok v" "\<forall>v \<in> set (vim_operator_values (tk_vim_operator k)). slot_ok v"
    "\<forall>v \<in> set (vim_text_object_values (tk_vim_text_object k)). slot_ok v" "\<forall>v \<in> set (pager_values (tk_pager k)). slot_ok v"
    "\<forall>v \<in> set (list_values (tk_list k)). slot_ok v" "\<forall>v \<in> set (approval_values (tk_approval k)). slot_ok v"
    using assms(1) by (simp_all add: normalized_config_def keymap_values_def)
  from assms(2) show ?thesis
  proof (cases rule: resolve_keymap_parts)
    case r: (1 app chat composer editor normal operator tobj pager approval lists)
    have "table_closed (app_actions app)"
      by (rule resolved_table_closed [OF resolve_app_table [OF r(1)] app_values_ok [OF ok(1)] d(1)])
    moreover have "table_closed (composer_actions composer)"
      by (rule resolved_table_closed [OF resolve_composer_table [OF r(3)] composer_effective_ok [OF ok(1,3)] d(3)])
    moreover have "table_closed (editor_actions editor)"
      by (rule resolved_table_closed [OF resolve_editor_table [OF r(4)] ok(4) d(4)])
    moreover have "table_closed (vim_text_object_actions tobj)"
      by (rule resolved_table_closed [OF resolve_vim_text_object_table [OF r(7)] ok(7) d(7)])
    moreover have "table_closed (pager_actions pager)"
      by (rule resolved_table_closed [OF resolve_pager_table [OF r(8)] ok(8) d(8)])
    moreover have "table_closed (approval_actions approval)"
      by (rule resolved_table_closed [OF resolve_approval_table [OF r(9)] ok(10) d(10)])
    ultimately show ?thesis
      using chat_yield_closed [OF r(2) ok(2)] vim_normal_yield_closed [OF r(5) ok(5)]
        vim_operator_yield_closed [OF r(6) ok(6)] resolve_list_closed [OF r(10) ok(9)]
      by (simp add: dispatch_tables_def main_actions_def r(11))
  qed
qed

lemma from_config_Ok: "from_config k = Ok m \<longleftrightarrow> resolve_keymap k = Ok m \<and> validate_conflicts m = Ok ()"
  by (auto simp: from_config_def and_then_eq_Ok)

lemma validate_conflicts_tables:
  assumes "validate_conflicts m = Ok ()"
  shows "\<forall>t \<in> set (dispatch_tables m). distinct (map binding_parts (concat (map snd t)))"
  using assms validate_unique_distinct by (auto simp: validate_conflicts_def and_then_eq_Ok dispatch_tables_def)

lemma accepted_at_most_one:
  assumes "normalized_config k" "from_config k = Ok m" "t \<in> set (dispatch_tables m)"
  shows "length (pressed_actions t ev) \<le> 1"
proof (rule pressed_at_most_one [where Q = "\<lambda>_. True"])
  show "distinct (filter (\<lambda>_. True) (map binding_parts (concat (map snd t))))"
    using assms validate_conflicts_tables [of m] by (simp add: from_config_Ok)
  show "\<forall>bs \<in> set (map snd t). closed bs"
    using assms resolve_keymap_closed table_closed_mem by (fastforce simp: from_config_Ok)
qed simp

text \<open>The levels that see an event one after the other, and the keys that are fixed.\<close>

definition levels :: "runtime_keymap \<Rightarrow> (action_table \<times> action_table \<times> overlaps) list" where
  "levels m =
     [(app_actions (rk_app m), overlay_actions m, app_overlay_overlaps),
      (question_handlers m, question_actions m, []),
      (main_handlers m, prefixed ''editor'' (editor_actions (rk_editor m)), main_editor_overlaps)]"

definition reservations :: "runtime_keymap \<Rightarrow> (action_table \<times> (rstr \<times> key_binding) list \<times> overlaps) list" where
  "reservations m =
     [(main_actions m, MAIN_RESERVED_BINDINGS, main_reserved_overlaps),
      (pager_actions (rk_pager m), TRANSCRIPT_BACKTRACK_RESERVED_BINDINGS, [])]"

lemma levels_closed:
  assumes "\<forall>t \<in> set (dispatch_tables m). table_closed t" "(p, s, al) \<in> set (levels m)"
  shows "table_closed p \<and> table_closed s"
proof -
  have "table_closed (main_handlers m)" "table_closed (question_handlers m)" "table_closed (question_actions m)"
    using assms(1)
    by (simp_all add: dispatch_tables_def main_actions_def table_closed_def main_handlers_def question_handlers_def
        question_actions_def app_actions_def chat_actions_def composer_actions_def list_actions_def prefixed_def)
  then show ?thesis
    using assms by (auto simp: levels_def dispatch_tables_def main_actions_def overlay_actions_def)
qed

lemma reserved_normal:
  "list_all (\<lambda>(_, b). normal_parts b = binding_parts b) (MAIN_RESERVED_BINDINGS @ TRANSCRIPT_BACKTRACK_RESERVED_BINDINGS)"
  by code_simp

lemma levels_checked:
  "validate_conflicts m = Ok () \<Longrightarrow> (p, s, al) \<in> set (levels m) \<Longrightarrow> \<exists>c. validate_no_shadow_with_allowed_overlaps c p s al = Ok ()"
  by (auto simp: validate_conflicts_def and_then_eq_Ok levels_def)

lemma reservations_checked:
  "validate_conflicts m = Ok () \<Longrightarrow> (t, r, al) \<in> set (reservations m) \<Longrightarrow>
     t \<in> set (dispatch_tables m) \<and> set r \<subseteq> set (MAIN_RESERVED_BINDINGS @ TRANSCRIPT_BACKTRACK_RESERVED_BINDINGS) \<and>
     (\<exists>c. validate_no_reserved c t r al = Ok ())"
  by (auto simp: validate_conflicts_def and_then_eq_Ok reservations_def dispatch_tables_def)

end
