(* ===== verification/Keymap_Setup.thy ===== *)
theory Keymap_Setup
  imports Keymap_Checks
begin

text \<open>
  Changing shortcuts from inside the program (\<open>tui/src/keymap_setup.rs\<close>, its \<open>actions.rs\<close>, and the two
  handlers of \<open>tui/src/app/event_dispatch.rs\<close>): a view captures a key, the key is turned into a
  specification, the configuration is edited for one action, resolved again and, when it is accepted
  and saved, takes the place of the old one.
\<close>

section \<open>The slots of the actions\<close>

text \<open>A mutable reference into the configuration: its value, and the configuration with another value.\<close>

type_synonym 'k slot_ref = "slot \<times> (slot \<Rightarrow> 'k)"

definition global_slots :: "tui_global_keymap \<Rightarrow> (rstr \<times> tui_global_keymap slot_ref) list" where
  "global_slots k =
     [(''open_transcript'', tg_open_transcript k, \<lambda>v. k\<lparr>tg_open_transcript := v\<rparr>),
      (''open_external_editor'', tg_open_external_editor k, \<lambda>v. k\<lparr>tg_open_external_editor := v\<rparr>),
      (''copy'', tg_copy k, \<lambda>v. k\<lparr>tg_copy := v\<rparr>),
      (''clear_terminal'', tg_clear_terminal k, \<lambda>v. k\<lparr>tg_clear_terminal := v\<rparr>),
      (''toggle_vim_mode'', tg_toggle_vim_mode k, \<lambda>v. k\<lparr>tg_toggle_vim_mode := v\<rparr>),
      (''toggle_fast_mode'', tg_toggle_fast_mode k, \<lambda>v. k\<lparr>tg_toggle_fast_mode := v\<rparr>),
      (''toggle_raw_output'', tg_toggle_raw_output k, \<lambda>v. k\<lparr>tg_toggle_raw_output := v\<rparr>)]"

definition chat_slots :: "tui_chat_keymap \<Rightarrow> (rstr \<times> tui_chat_keymap slot_ref) list" where
  "chat_slots k =
     [(''interrupt_turn'', tc_interrupt_turn k, \<lambda>v. k\<lparr>tc_interrupt_turn := v\<rparr>),
      (''decrease_reasoning_effort'', tc_decrease_reasoning_effort k, \<lambda>v. k\<lparr>tc_decrease_reasoning_effort := v\<rparr>),
      (''increase_reasoning_effort'', tc_increase_reasoning_effort k, \<lambda>v. k\<lparr>tc_increase_reasoning_effort := v\<rparr>),
      (''edit_queued_message'', tc_edit_queued_message k, \<lambda>v. k\<lparr>tc_edit_queued_message := v\<rparr>)]"

definition composer_slots :: "tui_composer_keymap \<Rightarrow> (rstr \<times> tui_composer_keymap slot_ref) list" where
  "composer_slots k =
     [(''submit'', tm_submit k, \<lambda>v. k\<lparr>tm_submit := v\<rparr>),
      (''queue'', tm_queue k, \<lambda>v. k\<lparr>tm_queue := v\<rparr>),
      (''toggle_shortcuts'', tm_toggle_shortcuts k, \<lambda>v. k\<lparr>tm_toggle_shortcuts := v\<rparr>),
      (''history_search_previous'', tm_history_search_previous k, \<lambda>v. k\<lparr>tm_history_search_previous := v\<rparr>),
      (''history_search_next'', tm_history_search_next k, \<lambda>v. k\<lparr>tm_history_search_next := v\<rparr>)]"

definition editor_slots :: "tui_editor_keymap \<Rightarrow> (rstr \<times> tui_editor_keymap slot_ref) list" where
  "editor_slots k =
     [(''insert_newline'', te_insert_newline k, \<lambda>v. k\<lparr>te_insert_newline := v\<rparr>),
      (''move_left'', te_move_left k, \<lambda>v. k\<lparr>te_move_left := v\<rparr>),
      (''move_right'', te_move_right k, \<lambda>v. k\<lparr>te_move_right := v\<rparr>),
      (''move_up'', te_move_up k, \<lambda>v. k\<lparr>te_move_up := v\<rparr>),
      (''move_down'', te_move_down k, \<lambda>v. k\<lparr>te_move_down := v\<rparr>),
      (''move_word_left'', te_move_word_left k, \<lambda>v. k\<lparr>te_move_word_left := v\<rparr>),
      (''move_word_right'', te_move_word_right k, \<lambda>v. k\<lparr>te_move_word_right := v\<rparr>),
      (''move_line_start'', te_move_line_start k, \<lambda>v. k\<lparr>te_move_line_start := v\<rparr>),
      (''move_line_end'', te_move_line_end k, \<lambda>v. k\<lparr>te_move_line_end := v\<rparr>),
      (''delete_backward'', te_delete_backward k, \<lambda>v. k\<lparr>te_delete_backward := v\<rparr>),
      (''delete_forward'', te_delete_forward k, \<lambda>v. k\<lparr>te_delete_forward := v\<rparr>),
      (''delete_backward_word'', te_delete_backward_word k, \<lambda>v. k\<lparr>te_delete_backward_word := v\<rparr>),
      (''delete_forward_word'', te_delete_forward_word k, \<lambda>v. k\<lparr>te_delete_forward_word := v\<rparr>),
      (''kill_line_start'', te_kill_line_start k, \<lambda>v. k\<lparr>te_kill_line_start := v\<rparr>),
      (''kill_whole_line'', te_kill_whole_line k, \<lambda>v. k\<lparr>te_kill_whole_line := v\<rparr>),
      (''kill_line_end'', te_kill_line_end k, \<lambda>v. k\<lparr>te_kill_line_end := v\<rparr>),
      (''yank'', te_yank k, \<lambda>v. k\<lparr>te_yank := v\<rparr>)]"

definition vim_normal_slots :: "tui_vim_normal_keymap \<Rightarrow> (rstr \<times> tui_vim_normal_keymap slot_ref) list" where
  "vim_normal_slots k =
     [(''enter_insert'', tn_enter_insert k, \<lambda>v. k\<lparr>tn_enter_insert := v\<rparr>),
      (''append_after_cursor'', tn_append_after_cursor k, \<lambda>v. k\<lparr>tn_append_after_cursor := v\<rparr>),
      (''append_line_end'', tn_append_line_end k, \<lambda>v. k\<lparr>tn_append_line_end := v\<rparr>),
      (''insert_line_start'', tn_insert_line_start k, \<lambda>v. k\<lparr>tn_insert_line_start := v\<rparr>),
      (''open_line_below'', tn_open_line_below k, \<lambda>v. k\<lparr>tn_open_line_below := v\<rparr>),
      (''open_line_above'', tn_open_line_above k, \<lambda>v. k\<lparr>tn_open_line_above := v\<rparr>),
      (''move_left'', tn_move_left k, \<lambda>v. k\<lparr>tn_move_left := v\<rparr>),
      (''move_right'', tn_move_right k, \<lambda>v. k\<lparr>tn_move_right := v\<rparr>),
      (''move_up'', tn_move_up k, \<lambda>v. k\<lparr>tn_move_up := v\<rparr>),
      (''move_down'', tn_move_down k, \<lambda>v. k\<lparr>tn_move_down := v\<rparr>),
      (''move_word_forward'', tn_move_word_forward k, \<lambda>v. k\<lparr>tn_move_word_forward := v\<rparr>),
      (''move_word_backward'', tn_move_word_backward k, \<lambda>v. k\<lparr>tn_move_word_backward := v\<rparr>),
      (''move_word_end'', tn_move_word_end k, \<lambda>v. k\<lparr>tn_move_word_end := v\<rparr>),
      (''move_line_start'', tn_move_line_start k, \<lambda>v. k\<lparr>tn_move_line_start := v\<rparr>),
      (''move_line_end'', tn_move_line_end k, \<lambda>v. k\<lparr>tn_move_line_end := v\<rparr>),
      (''delete_char'', tn_delete_char k, \<lambda>v. k\<lparr>tn_delete_char := v\<rparr>),
      (''substitute_char'', tn_substitute_char k, \<lambda>v. k\<lparr>tn_substitute_char := v\<rparr>),
      (''delete_to_line_end'', tn_delete_to_line_end k, \<lambda>v. k\<lparr>tn_delete_to_line_end := v\<rparr>),
      (''change_to_line_end'', tn_change_to_line_end k, \<lambda>v. k\<lparr>tn_change_to_line_end := v\<rparr>),
      (''yank_line'', tn_yank_line k, \<lambda>v. k\<lparr>tn_yank_line := v\<rparr>),
      (''paste_after'', tn_paste_after k, \<lambda>v. k\<lparr>tn_paste_after := v\<rparr>),
      (''start_delete_operator'', tn_start_delete_operator k, \<lambda>v. k\<lparr>tn_start_delete_operator := v\<rparr>),
      (''start_yank_operator'', tn_start_yank_operator k, \<lambda>v. k\<lparr>tn_start_yank_operator := v\<rparr>),
      (''start_change_operator'', tn_start_change_operator k, \<lambda>v. k\<lparr>tn_start_change_operator := v\<rparr>),
      (''cancel_operator'', tn_cancel_operator k, \<lambda>v. k\<lparr>tn_cancel_operator := v\<rparr>)]"

definition vim_operator_slots :: "tui_vim_operator_keymap \<Rightarrow> (rstr \<times> tui_vim_operator_keymap slot_ref) list" where
  "vim_operator_slots k =
     [(''delete_line'', tw_delete_line k, \<lambda>v. k\<lparr>tw_delete_line := v\<rparr>),
      (''yank_line'', tw_yank_line k, \<lambda>v. k\<lparr>tw_yank_line := v\<rparr>),
      (''motion_left'', tw_motion_left k, \<lambda>v. k\<lparr>tw_motion_left := v\<rparr>),
      (''motion_right'', tw_motion_right k, \<lambda>v. k\<lparr>tw_motion_right := v\<rparr>),
      (''motion_up'', tw_motion_up k, \<lambda>v. k\<lparr>tw_motion_up := v\<rparr>),
      (''motion_down'', tw_motion_down k, \<lambda>v. k\<lparr>tw_motion_down := v\<rparr>),
      (''motion_word_forward'', tw_motion_word_forward k, \<lambda>v. k\<lparr>tw_motion_word_forward := v\<rparr>),
      (''motion_word_backward'', tw_motion_word_backward k, \<lambda>v. k\<lparr>tw_motion_word_backward := v\<rparr>),
      (''motion_word_end'', tw_motion_word_end k, \<lambda>v. k\<lparr>tw_motion_word_end := v\<rparr>),
      (''motion_line_start'', tw_motion_line_start k, \<lambda>v. k\<lparr>tw_motion_line_start := v\<rparr>),
      (''motion_line_end'', tw_motion_line_end k, \<lambda>v. k\<lparr>tw_motion_line_end := v\<rparr>),
      (''select_inner_text_object'', tw_select_inner_text_object k, \<lambda>v. k\<lparr>tw_select_inner_text_object := v\<rparr>),
      (''select_around_text_object'', tw_select_around_text_object k, \<lambda>v. k\<lparr>tw_select_around_text_object := v\<rparr>),
      (''cancel'', tw_cancel k, \<lambda>v. k\<lparr>tw_cancel := v\<rparr>)]"

definition vim_text_object_slots :: "tui_vim_text_object_keymap \<Rightarrow> (rstr \<times> tui_vim_text_object_keymap slot_ref) list" where
  "vim_text_object_slots k =
     [(''word'', tt_word k, \<lambda>v. k\<lparr>tt_word := v\<rparr>),
      (''big_word'', tt_big_word k, \<lambda>v. k\<lparr>tt_big_word := v\<rparr>),
      (''parentheses'', tt_parentheses k, \<lambda>v. k\<lparr>tt_parentheses := v\<rparr>),
      (''brackets'', tt_brackets k, \<lambda>v. k\<lparr>tt_brackets := v\<rparr>),
      (''braces'', tt_braces k, \<lambda>v. k\<lparr>tt_braces := v\<rparr>),
      (''double_quote'', tt_double_quote k, \<lambda>v. k\<lparr>tt_double_quote := v\<rparr>),
      (''single_quote'', tt_single_quote k, \<lambda>v. k\<lparr>tt_single_quote := v\<rparr>),
      (''backtick'', tt_backtick k, \<lambda>v. k\<lparr>tt_backtick := v\<rparr>),
      (''cancel'', tt_cancel k, \<lambda>v. k\<lparr>tt_cancel := v\<rparr>)]"

definition pager_slots :: "tui_pager_keymap \<Rightarrow> (rstr \<times> tui_pager_keymap slot_ref) list" where
  "pager_slots k =
     [(''scroll_up'', tp_scroll_up k, \<lambda>v. k\<lparr>tp_scroll_up := v\<rparr>),
      (''scroll_down'', tp_scroll_down k, \<lambda>v. k\<lparr>tp_scroll_down := v\<rparr>),
      (''page_up'', tp_page_up k, \<lambda>v. k\<lparr>tp_page_up := v\<rparr>),
      (''page_down'', tp_page_down k, \<lambda>v. k\<lparr>tp_page_down := v\<rparr>),
      (''half_page_up'', tp_half_page_up k, \<lambda>v. k\<lparr>tp_half_page_up := v\<rparr>),
      (''half_page_down'', tp_half_page_down k, \<lambda>v. k\<lparr>tp_half_page_down := v\<rparr>),
      (''jump_top'', tp_jump_top k, \<lambda>v. k\<lparr>tp_jump_top := v\<rparr>),
      (''jump_bottom'', tp_jump_bottom k, \<lambda>v. k\<lparr>tp_jump_bottom := v\<rparr>),
      (''close'', tp_close k, \<lambda>v. k\<lparr>tp_close := v\<rparr>),
      (''close_transcript'', tp_close_transcript k, \<lambda>v. k\<lparr>tp_close_transcript := v\<rparr>)]"

definition list_slots :: "tui_list_keymap \<Rightarrow> (rstr \<times> tui_list_keymap slot_ref) list" where
  "list_slots k =
     [(''move_up'', tl_move_up k, \<lambda>v. k\<lparr>tl_move_up := v\<rparr>),
      (''move_down'', tl_move_down k, \<lambda>v. k\<lparr>tl_move_down := v\<rparr>),
      (''move_left'', tl_move_left k, \<lambda>v. k\<lparr>tl_move_left := v\<rparr>),
      (''move_right'', tl_move_right k, \<lambda>v. k\<lparr>tl_move_right := v\<rparr>),
      (''page_up'', tl_page_up k, \<lambda>v. k\<lparr>tl_page_up := v\<rparr>),
      (''page_down'', tl_page_down k, \<lambda>v. k\<lparr>tl_page_down := v\<rparr>),
      (''jump_top'', tl_jump_top k, \<lambda>v. k\<lparr>tl_jump_top := v\<rparr>),
      (''jump_bottom'', tl_jump_bottom k, \<lambda>v. k\<lparr>tl_jump_bottom := v\<rparr>),
      (''accept'', tl_accept k, \<lambda>v. k\<lparr>tl_accept := v\<rparr>),
      (''cancel'', tl_cancel k, \<lambda>v. k\<lparr>tl_cancel := v\<rparr>)]"

definition approval_slots :: "tui_approval_keymap \<Rightarrow> (rstr \<times> tui_approval_keymap slot_ref) list" where
  "approval_slots k =
     [(''open_fullscreen'', tv_open_fullscreen k, \<lambda>v. k\<lparr>tv_open_fullscreen := v\<rparr>),
      (''open_thread'', tv_open_thread k, \<lambda>v. k\<lparr>tv_open_thread := v\<rparr>),
      (''approve'', tv_approve k, \<lambda>v. k\<lparr>tv_approve := v\<rparr>),
      (''approve_for_session'', tv_approve_for_session k, \<lambda>v. k\<lparr>tv_approve_for_session := v\<rparr>),
      (''approve_for_prefix'', tv_approve_for_prefix k, \<lambda>v. k\<lparr>tv_approve_for_prefix := v\<rparr>),
      (''deny'', tv_deny k, \<lambda>v. k\<lparr>tv_deny := v\<rparr>),
      (''decline'', tv_decline k, \<lambda>v. k\<lparr>tv_decline := v\<rparr>),
      (''cancel'', tv_cancel k, \<lambda>v. k\<lparr>tv_cancel := v\<rparr>)]"

definition within :: "('k slot_ref \<Rightarrow> 'r) \<Rightarrow> (rstr \<times> 'k slot_ref) list \<Rightarrow> rstr \<Rightarrow> 'r option" where
  "within f slots action = map_option f (map_of slots action)"

definition binding_slot :: "tui_keymap \<Rightarrow> rstr \<Rightarrow> rstr \<Rightarrow> tui_keymap slot_ref option" where
  "binding_slot k context action =
     (if context = ''global'' then within (\<lambda>(v, f). (v, \<lambda>x. k\<lparr>tk_global := f x\<rparr>)) (global_slots (tk_global k)) action
      else if context = ''chat'' then within (\<lambda>(v, f). (v, \<lambda>x. k\<lparr>tk_chat := f x\<rparr>)) (chat_slots (tk_chat k)) action
      else if context = ''composer'' then within (\<lambda>(v, f). (v, \<lambda>x. k\<lparr>tk_composer := f x\<rparr>)) (composer_slots (tk_composer k)) action
      else if context = ''editor'' then within (\<lambda>(v, f). (v, \<lambda>x. k\<lparr>tk_editor := f x\<rparr>)) (editor_slots (tk_editor k)) action
      else if context = ''vim_normal'' then within (\<lambda>(v, f). (v, \<lambda>x. k\<lparr>tk_vim_normal := f x\<rparr>)) (vim_normal_slots (tk_vim_normal k)) action
      else if context = ''vim_operator'' then within (\<lambda>(v, f). (v, \<lambda>x. k\<lparr>tk_vim_operator := f x\<rparr>)) (vim_operator_slots (tk_vim_operator k)) action
      else if context = ''vim_text_object'' then within (\<lambda>(v, f). (v, \<lambda>x. k\<lparr>tk_vim_text_object := f x\<rparr>)) (vim_text_object_slots (tk_vim_text_object k)) action
      else if context = ''pager'' then within (\<lambda>(v, f). (v, \<lambda>x. k\<lparr>tk_pager := f x\<rparr>)) (pager_slots (tk_pager k)) action
      else if context = ''list'' then within (\<lambda>(v, f). (v, \<lambda>x. k\<lparr>tk_list := f x\<rparr>)) (list_slots (tk_list k)) action
      else if context = ''approval'' then within (\<lambda>(v, f). (v, \<lambda>x. k\<lparr>tk_approval := f x\<rparr>)) (approval_slots (tk_approval k)) action
      else None)"

definition bindings_for_action :: "runtime_keymap \<Rightarrow> rstr \<Rightarrow> rstr \<Rightarrow> key_binding list option" where
  "bindings_for_action m context action =
     (if context = ''global'' then map_of (app_actions (rk_app m)) action
      else if context = ''chat'' then map_of (chat_actions (rk_chat m)) action
      else if context = ''composer'' then map_of (composer_actions (rk_composer m)) action
      else if context = ''editor'' then map_of (editor_actions (rk_editor m)) action
      else if context = ''vim_normal'' then map_of (vim_normal_actions (rk_vim_normal m)) action
      else if context = ''vim_operator'' then map_of (vim_operator_actions (rk_vim_operator m)) action
      else if context = ''vim_text_object'' then map_of (vim_text_object_actions (rk_vim_text_object m)) action
      else if context = ''pager'' then map_of (pager_actions (rk_pager m)) action
      else if context = ''list'' then map_of (list_actions (rk_list m)) action
      else if context = ''approval'' then map_of (approval_actions (rk_approval m)) action
      else None)"

section \<open>Editing\<close>

datatype keymap_edit_intent = ReplaceAll | AddAlternate | ReplaceOne rstr

datatype edit_message =
    NoChange rstr rstr rstr | Remapped rstr rstr rstr | AddedKey rstr rstr rstr | ReplacedKey rstr rstr rstr rstr

datatype keymap_edit_outcome = Updated tui_keymap "rstr list" edit_message | Unchanged edit_message

datatype edit_error = UnknownAction rstr rstr | KeyNotStorable capture_error | StaleKey rstr rstr rstr

definition keymap_with_bindings :: "tui_keymap \<Rightarrow> rstr \<Rightarrow> rstr \<Rightarrow> rstr list \<Rightarrow> (edit_error, tui_keymap) result" where
  "keymap_with_bindings k context action keys =
     (case binding_slot k context action of
        None \<Rightarrow> Err (UnknownAction context action)
      | Some (_, assign) \<Rightarrow> Ok (assign (Some (case keys of [key] \<Rightarrow> SpecOne key | _ \<Rightarrow> SpecMany keys))))"

definition keymap_without_custom_binding :: "tui_keymap \<Rightarrow> rstr \<Rightarrow> rstr \<Rightarrow> (edit_error, tui_keymap) result" where
  "keymap_without_custom_binding k context action =
     (case binding_slot k context action of
        None \<Rightarrow> Err (UnknownAction context action)
      | Some (_, assign) \<Rightarrow> Ok (assign None))"

definition has_custom_binding :: "tui_keymap \<Rightarrow> rstr \<Rightarrow> rstr \<Rightarrow> (edit_error, bool) result" where
  "has_custom_binding k context action =
     (case binding_slot k context action of
        None \<Rightarrow> Err (UnknownAction context action)
      | Some (v, _) \<Rightarrow> Ok (v \<noteq> None))"

definition storable_spec :: "key_binding \<Rightarrow> (edit_error, rstr) result" where
  "storable_spec b = (case binding_to_config_key_spec b of Err e \<Rightarrow> Err (KeyNotStorable e) | Ok s \<Rightarrow> Ok s)"

definition active_binding_specs :: "runtime_keymap \<Rightarrow> rstr \<Rightarrow> rstr \<Rightarrow> (edit_error, rstr list) result" where
  "active_binding_specs m context action =
     (case bindings_for_action m context action of
        None \<Rightarrow> Err (UnknownAction context action)
      | Some bs \<Rightarrow> collect_results storable_spec bs)"

definition dedup_bindings :: "rstr list \<Rightarrow> rstr list" where
  "dedup_bindings bindings = foldl (\<lambda>deduped key. push_absent key deduped) [] bindings"

text \<open>The keys an action has after the edit; \<open>None\<close> when adding a key it already has.\<close>

definition edited_bindings ::
    "rstr \<Rightarrow> rstr \<Rightarrow> rstr \<Rightarrow> keymap_edit_intent \<Rightarrow> rstr list \<Rightarrow> (edit_error, rstr list option) result" where
  "edited_bindings context action key intent current =
     (case intent of
        ReplaceAll \<Rightarrow> Ok (Some [key])
      | AddAlternate \<Rightarrow> Ok (if key \<in> set current then None else Some (current @ [key]))
      | ReplaceOne old_key \<Rightarrow>
          if old_key \<notin> set current then Err (StaleKey context action old_key)
          else Ok (Some (dedup_bindings (map (\<lambda>b. if b = old_key then key else b) current))))"

definition edit_done :: "rstr \<Rightarrow> rstr \<Rightarrow> rstr \<Rightarrow> keymap_edit_intent \<Rightarrow> edit_message" where
  "edit_done context action key intent =
     (case intent of
        ReplaceAll \<Rightarrow> Remapped context action key
      | AddAlternate \<Rightarrow> AddedKey context action key
      | ReplaceOne old_key \<Rightarrow> ReplacedKey context action old_key key)"

definition keymap_with_edit ::
    "tui_keymap \<Rightarrow> runtime_keymap \<Rightarrow> rstr \<Rightarrow> rstr \<Rightarrow> rstr \<Rightarrow> keymap_edit_intent \<Rightarrow> (edit_error, keymap_edit_outcome) result" where
  "keymap_with_edit k m context action key intent =
     and_then (active_binding_specs m context action) (\<lambda>current.
     and_then (edited_bindings context action key intent current) (\<lambda>edited.
     case edited of
       None \<Rightarrow> Ok (Unchanged (NoChange context action key))
     | Some next_bindings \<Rightarrow>
         if next_bindings = current then Ok (Unchanged (NoChange context action key))
         else and_then (keymap_with_bindings k context action next_bindings) (\<lambda>k'.
              Ok (Updated k' next_bindings (edit_done context action key intent)))))"

section \<open>Capturing a key\<close>

record keymap_capture_view =
  cv_context :: rstr
  cv_action :: rstr
  cv_intent :: keymap_edit_intent
  cv_complete :: bool
  cv_error_message :: "capture_error option"

datatype capture_event = KeymapCaptured rstr rstr rstr keymap_edit_intent

definition capture_handle_key_event :: "key_event \<Rightarrow> keymap_capture_view \<Rightarrow> keymap_capture_view \<times> capture_event option" where
  "capture_handle_key_event ev v =
     (if event_kind ev = KeyRelease then (v, None)
      else if event_code ev = KeyEsc then (v\<lparr>cv_complete := True\<rparr>, None)
      else case key_event_to_config_key_spec ev of
             Ok key \<Rightarrow> (v\<lparr>cv_complete := True\<rparr>, Some (KeymapCaptured (cv_context v) (cv_action v) key (cv_intent v)))
           | Err e \<Rightarrow> (v\<lparr>cv_error_message := Some e\<rparr>, None))"

section \<open>Applying an edit\<close>

text \<open>
  The configuration and key map the program runs with, and what it tells the user. Saving the
  configuration may fail: \<open>saved\<close> says whether it succeeded.
\<close>

record keymap_state =
  ks_config :: tui_keymap
  ks_keymap :: runtime_keymap

datatype keymap_notice =
    EditFailed edit_error | EditNotice edit_message | EditConflict keymap_error | RefreshFailed keymap_error
  | ShortcutRemoved rstr rstr | SaveFailed

definition apply_keymap_capture ::
    "bool \<Rightarrow> rstr \<Rightarrow> rstr \<Rightarrow> rstr \<Rightarrow> keymap_edit_intent \<Rightarrow> keymap_state \<Rightarrow> keymap_state \<times> keymap_notice" where
  "apply_keymap_capture saved context action key intent st =
     (case keymap_with_edit (ks_config st) (ks_keymap st) context action key intent of
        Err e \<Rightarrow> (st, EditFailed e)
      | Ok (Unchanged message) \<Rightarrow> (st, EditNotice message)
      | Ok (Updated k _ message) \<Rightarrow>
          (case from_config k of
             Err e \<Rightarrow> (st, EditConflict e)
           | Ok m \<Rightarrow>
               if saved then (st\<lparr>ks_config := k, ks_keymap := m\<rparr>, EditNotice message) else (st, SaveFailed)))"

definition apply_keymap_clear :: "bool \<Rightarrow> rstr \<Rightarrow> rstr \<Rightarrow> keymap_state \<Rightarrow> keymap_state \<times> keymap_notice" where
  "apply_keymap_clear saved context action st =
     (case keymap_without_custom_binding (ks_config st) context action of
        Err e \<Rightarrow> (st, EditFailed e)
      | Ok k \<Rightarrow>
          (case from_config k of
             Err e \<Rightarrow> (st, RefreshFailed e)
           | Ok m \<Rightarrow>
               if saved then (st\<lparr>ks_config := k, ks_keymap := m\<rparr>, ShortcutRemoved context action) else (st, SaveFailed)))"

section \<open>The inspector\<close>

datatype keymap_debug_binding_source = SourceCustom | SourceCustomGlobal | SourceDefault

definition global_fallback_slot :: "tui_keymap \<Rightarrow> rstr \<Rightarrow> rstr \<Rightarrow> slot option" where
  "global_fallback_slot k context action =
     (if context \<noteq> ''composer'' then None
      else if action = ''submit'' then Some (tg_submit (tk_global k))
      else if action = ''queue'' then Some (tg_queue (tk_global k))
      else if action = ''toggle_shortcuts'' then Some (tg_toggle_shortcuts (tk_global k))
      else None)"

definition debug_binding_source :: "tui_keymap \<Rightarrow> rstr \<Rightarrow> rstr \<Rightarrow> keymap_debug_binding_source" where
  "debug_binding_source k context action =
     (case binding_slot k context action of
        None \<Rightarrow> SourceDefault
      | Some (v, _) \<Rightarrow>
          if v \<noteq> None then SourceCustom
          else (case global_fallback_slot k context action of
                  None \<Rightarrow> SourceDefault
                | Some g \<Rightarrow> if g \<noteq> None then SourceCustomGlobal else SourceDefault))"

section \<open>The catalogue\<close>

text \<open>The actions the menu offers, without the labels and descriptions it shows.\<close>

datatype keymap_action_feature = FastMode

record keymap_action_descriptor =
  kd_context :: rstr
  kd_action :: rstr
  kd_required_feature :: "keymap_action_feature option"

definition catalog_action :: "rstr \<Rightarrow> rstr \<Rightarrow> keymap_action_descriptor" where
  "catalog_action context action = \<lparr>kd_context = context, kd_action = action, kd_required_feature = None\<rparr>"

definition gated_action :: "rstr \<Rightarrow> rstr \<Rightarrow> keymap_action_feature \<Rightarrow> keymap_action_descriptor" where
  "gated_action context action feature = \<lparr>kd_context = context, kd_action = action, kd_required_feature = Some feature\<rparr>"

definition is_visible :: "bool \<Rightarrow> keymap_action_descriptor \<Rightarrow> bool" where
  "is_visible fast_mode_enabled d =
     (case kd_required_feature d of None \<Rightarrow> True | Some FastMode \<Rightarrow> fast_mode_enabled)"

definition KEYMAP_ACTIONS :: "keymap_action_descriptor list" where
  "KEYMAP_ACTIONS =
     [catalog_action ''global'' ''open_transcript'',
      catalog_action ''global'' ''open_external_editor'',
      catalog_action ''global'' ''copy'',
      catalog_action ''global'' ''clear_terminal'',
      catalog_action ''global'' ''toggle_vim_mode'',
      gated_action ''global'' ''toggle_fast_mode'' FastMode,
      catalog_action ''global'' ''toggle_raw_output'',
      catalog_action ''chat'' ''interrupt_turn'',
      catalog_action ''chat'' ''decrease_reasoning_effort'',
      catalog_action ''chat'' ''increase_reasoning_effort'',
      catalog_action ''chat'' ''edit_queued_message'',
      catalog_action ''composer'' ''submit'',
      catalog_action ''composer'' ''queue'',
      catalog_action ''composer'' ''toggle_shortcuts'',
      catalog_action ''composer'' ''history_search_previous'',
      catalog_action ''composer'' ''history_search_next'',
      catalog_action ''editor'' ''insert_newline'',
      catalog_action ''editor'' ''move_left'',
      catalog_action ''editor'' ''move_right'',
      catalog_action ''editor'' ''move_up'',
      catalog_action ''editor'' ''move_down'',
      catalog_action ''editor'' ''move_word_left'',
      catalog_action ''editor'' ''move_word_right'',
      catalog_action ''editor'' ''move_line_start'',
      catalog_action ''editor'' ''move_line_end'',
      catalog_action ''editor'' ''delete_backward'',
      catalog_action ''editor'' ''delete_forward'',
      catalog_action ''editor'' ''delete_backward_word'',
      catalog_action ''editor'' ''delete_forward_word'',
      catalog_action ''editor'' ''kill_line_start'',
      catalog_action ''editor'' ''kill_whole_line'',
      catalog_action ''editor'' ''kill_line_end'',
      catalog_action ''editor'' ''yank'',
      catalog_action ''vim_normal'' ''enter_insert'',
      catalog_action ''vim_normal'' ''append_after_cursor'',
      catalog_action ''vim_normal'' ''append_line_end'',
      catalog_action ''vim_normal'' ''insert_line_start'',
      catalog_action ''vim_normal'' ''open_line_below'',
      catalog_action ''vim_normal'' ''open_line_above'',
      catalog_action ''vim_normal'' ''move_left'',
      catalog_action ''vim_normal'' ''move_right'',
      catalog_action ''vim_normal'' ''move_up'',
      catalog_action ''vim_normal'' ''move_down'',
      catalog_action ''vim_normal'' ''move_word_forward'',
      catalog_action ''vim_normal'' ''move_word_backward'',
      catalog_action ''vim_normal'' ''move_word_end'',
      catalog_action ''vim_normal'' ''move_line_start'',
      catalog_action ''vim_normal'' ''move_line_end'',
      catalog_action ''vim_normal'' ''delete_char'',
      catalog_action ''vim_normal'' ''substitute_char'',
      catalog_action ''vim_normal'' ''delete_to_line_end'',
      catalog_action ''vim_normal'' ''change_to_line_end'',
      catalog_action ''vim_normal'' ''yank_line'',
      catalog_action ''vim_normal'' ''paste_after'',
      catalog_action ''vim_normal'' ''start_delete_operator'',
      catalog_action ''vim_normal'' ''start_yank_operator'',
      catalog_action ''vim_normal'' ''start_change_operator'',
      catalog_action ''vim_normal'' ''cancel_operator'',
      catalog_action ''vim_operator'' ''delete_line'',
      catalog_action ''vim_operator'' ''yank_line'',
      catalog_action ''vim_operator'' ''motion_left'',
      catalog_action ''vim_operator'' ''motion_right'',
      catalog_action ''vim_operator'' ''motion_up'',
      catalog_action ''vim_operator'' ''motion_down'',
      catalog_action ''vim_operator'' ''motion_word_forward'',
      catalog_action ''vim_operator'' ''motion_word_backward'',
      catalog_action ''vim_operator'' ''motion_word_end'',
      catalog_action ''vim_operator'' ''motion_line_start'',
      catalog_action ''vim_operator'' ''motion_line_end'',
      catalog_action ''vim_operator'' ''select_inner_text_object'',
      catalog_action ''vim_operator'' ''select_around_text_object'',
      catalog_action ''vim_operator'' ''cancel'',
      catalog_action ''vim_text_object'' ''word'',
      catalog_action ''vim_text_object'' ''big_word'',
      catalog_action ''vim_text_object'' ''parentheses'',
      catalog_action ''vim_text_object'' ''brackets'',
      catalog_action ''vim_text_object'' ''braces'',
      catalog_action ''vim_text_object'' ''double_quote'',
      catalog_action ''vim_text_object'' ''single_quote'',
      catalog_action ''vim_text_object'' ''backtick'',
      catalog_action ''vim_text_object'' ''cancel'',
      catalog_action ''pager'' ''scroll_up'',
      catalog_action ''pager'' ''scroll_down'',
      catalog_action ''pager'' ''page_up'',
      catalog_action ''pager'' ''page_down'',
      catalog_action ''pager'' ''half_page_up'',
      catalog_action ''pager'' ''half_page_down'',
      catalog_action ''pager'' ''jump_top'',
      catalog_action ''pager'' ''jump_bottom'',
      catalog_action ''pager'' ''close'',
      catalog_action ''pager'' ''close_transcript'',
      catalog_action ''list'' ''move_up'',
      catalog_action ''list'' ''move_down'',
      catalog_action ''list'' ''move_left'',
      catalog_action ''list'' ''move_right'',
      catalog_action ''list'' ''page_up'',
      catalog_action ''list'' ''page_down'',
      catalog_action ''list'' ''jump_top'',
      catalog_action ''list'' ''jump_bottom'',
      catalog_action ''list'' ''accept'',
      catalog_action ''list'' ''cancel'',
      catalog_action ''approval'' ''open_fullscreen'',
      catalog_action ''approval'' ''open_thread'',
      catalog_action ''approval'' ''approve'',
      catalog_action ''approval'' ''approve_for_session'',
      catalog_action ''approval'' ''approve_for_prefix'',
      catalog_action ''approval'' ''deny'',
      catalog_action ''approval'' ''decline'',
      catalog_action ''approval'' ''cancel'']"

definition matching_actions_for_key_event ::
    "runtime_keymap \<Rightarrow> tui_keymap \<Rightarrow> key_event \<Rightarrow> (rstr \<times> rstr \<times> keymap_debug_binding_source) list" where
  "matching_actions_for_key_event m k ev =
     List.map_filter (\<lambda>d.
        case bindings_for_action m (kd_context d) (kd_action d) of
          None \<Rightarrow> None
        | Some bs \<Rightarrow>
            if list_ex (\<lambda>b. is_press b ev) bs
            then Some (kd_context d, kd_action d, debug_binding_source k (kd_context d) (kd_action d)) else None)
       KEYMAP_ACTIONS"

definition format_binding_summary :: "key_binding list \<Rightarrow> rstr" where
  "format_binding_summary bs =
     (let specs = foldl (\<lambda>seen s. push_absent s seen) []
            (List.map_filter (\<lambda>b. case binding_to_config_key_spec b of Err _ \<Rightarrow> None | Ok s \<Rightarrow> Some s) bs)
      in if specs = [] then ''unbound'' else join_with '', '' specs)"

end
