(* ===== verification/Keymap_Edits.thy ===== *)
theory Keymap_Edits
  imports Keymap_Facts Keymap_Setup
begin

text \<open>
  What editing a key map keeps and does. The contract of a context's slots, that assigning one is
  read back and leaves the others alone, is the locale \<open>slot_context\<close>, interpreted on every context.
\<close>

section \<open>Slots\<close>

lemma map_of_zip_update_other: "names ! i \<noteq> b \<Longrightarrow> map_of (zip names (vs[i := x])) b = map_of (zip names vs) b"
proof (induction names arbitrary: vs i)
  case (Cons a names)
  show ?case
  proof (cases vs)
    case (Cons v ws)
    then show ?thesis using Cons.IH [of "i - 1" ws] Cons.prems by (cases i) auto
  qed simp
qed simp

lemma map_of_zip_update:
  "distinct names \<Longrightarrow> i < length names \<Longrightarrow> length vs = length names \<Longrightarrow> map_of (zip names (vs[i := x])) (names ! i) = Some x"
  by (rule map_of_is_SomeI) (auto simp: in_set_conv_nth)

lemma map_of_values: "map_option fst (map_of xs a) = map_of (map (\<lambda>(a, v, f). (a, v)) xs) a"
  by (induction xs) auto

locale slot_context =
  fixes slots :: "'k \<Rightarrow> (rstr \<times> 'k slot_ref) list" and slot_values :: "'k \<Rightarrow> slot list" and names :: "rstr list"
  assumes slot_names: "map fst (slots k) = names" and names_distinct: "distinct names"
    and slot_reads: "map (fst \<circ> snd) (slots k) = slot_values k"
    and slot_assigns: "map (\<lambda>(a, v, f). slot_values (f x)) (slots k) = map (\<lambda>i. (slot_values k)[i := x]) [0..<length (slots k)]"
begin

lemma slot_length: "length (slots k) = length names" "length (slot_values k) = length names"
  using slot_names [of k] slot_reads [of k] by (metis length_map)+

lemma slots_zip: "map (\<lambda>(a, v, f). (a, v)) (slots k) = zip names (slot_values k)"
  by (simp flip: slot_names [of k] slot_reads [of k] add: zip_map_map zip_same_conv_map split_beta)

lemma slot_value: "map_option fst (map_of (slots k) a) = map_of (zip names (slot_values k)) a"
  by (simp add: map_of_values slots_zip)

lemma slot_index:
  assumes "map_of (slots k) a = Some (v, f)"
  shows "\<exists>i < length names. names ! i = a \<and> slot_values k ! i = v \<and> (\<forall>x. slot_values (f x) = (slot_values k)[i := x])"
proof -
  obtain i where i: "i < length (slots k)" "slots k ! i = (a, v, f)"
    using map_of_SomeD [OF assms] by (auto simp: in_set_conv_nth)
  have "names ! i = a" "slot_values k ! i = v"
    using i by (simp_all flip: slot_names [of k] slot_reads [of k])
  moreover have "slot_values (f x) = (slot_values k)[i := x]" for x
    using arg_cong [OF slot_assigns [of x k], of "\<lambda>xs. xs ! i"] i by simp
  ultimately show ?thesis using i(1) slot_length by auto
qed

lemma read: "map_of (slots k) a = Some (v, f) \<Longrightarrow> v \<in> set (slot_values k)"
  using slot_index [of k a v f] slot_length(2) [of k] by (metis nth_mem)

lemma assign_ok:
  assumes "map_of (slots k) a = Some (v, f)" "\<forall>v \<in> set (slot_values k). slot_ok v" "slot_ok x"
  shows "\<forall>v \<in> set (slot_values (f x)). slot_ok v"
  using slot_index [OF assms(1)] assms(2,3) set_update_subset_insert [of "slot_values k" _ x] by (metis insertE subsetD)

lemma assign_read:
  assumes "map_of (slots k) a = Some (v, f)"
  shows "\<exists>g. map_of (slots (f x)) a = Some (x, g)"
proof -
  have "map_option fst (map_of (slots (f x)) a) = Some x"
    using slot_index [OF assms] map_of_zip_update names_distinct slot_length(2) by (metis slot_value)
  then show ?thesis by auto
qed

lemma assign_other:
  assumes "map_of (slots k) a = Some (v, f)" "b \<noteq> a"
  shows "map_option fst (map_of (slots (f x)) b) = map_option fst (map_of (slots k) b)"
  using slot_index [OF assms(1)] assms(2) map_of_zip_update_other by (metis slot_value)

end

interpretation tg_ctx: slot_context global_slots app_values "map fst (app_actions default_app_keymap)"
  by unfold_locales (simp_all add: global_slots_def app_values_def app_actions_def upt_rec)

interpretation tc_ctx: slot_context chat_slots chat_values "map fst (chat_actions default_chat_keymap)"
  by unfold_locales (simp_all add: chat_slots_def chat_values_def chat_actions_def upt_rec)

interpretation tm_ctx: slot_context composer_slots composer_values "map fst (composer_actions default_composer_keymap)"
  by unfold_locales (simp_all add: composer_slots_def composer_values_def composer_actions_def upt_rec)

interpretation te_ctx: slot_context editor_slots editor_values "map fst (editor_actions default_editor_keymap)"
  by unfold_locales (simp_all add: editor_slots_def editor_values_def editor_actions_def upt_rec)

interpretation tn_ctx: slot_context vim_normal_slots vim_normal_values "map fst (vim_normal_actions default_vim_normal_keymap)"
  by unfold_locales (simp_all add: vim_normal_slots_def vim_normal_values_def vim_normal_actions_def upt_rec)

interpretation tw_ctx: slot_context vim_operator_slots vim_operator_values "map fst (vim_operator_actions default_vim_operator_keymap)"
  by unfold_locales (simp_all add: vim_operator_slots_def vim_operator_values_def vim_operator_actions_def upt_rec)

interpretation tt_ctx: slot_context vim_text_object_slots vim_text_object_values "map fst (vim_text_object_actions default_vim_text_object_keymap)"
  by unfold_locales (simp_all add: vim_text_object_slots_def vim_text_object_values_def vim_text_object_actions_def upt_rec)

interpretation tp_ctx: slot_context pager_slots pager_values "map fst (pager_actions default_pager_keymap)"
  by unfold_locales (simp_all add: pager_slots_def pager_values_def pager_actions_def upt_rec)

interpretation tl_ctx: slot_context list_slots list_values "map fst (list_actions default_list_keymap)"
  by unfold_locales (simp_all add: list_slots_def list_values_def list_actions_def upt_rec)

interpretation tv_ctx: slot_context approval_slots approval_values "map fst (approval_actions default_approval_keymap)"
  by unfold_locales (simp_all add: approval_slots_def approval_values_def approval_actions_def upt_rec)

section \<open>The configuration\<close>

lemma global_assign_ok:
  assumes "map_of (global_slots k) a = Some (v, f)" "\<forall>v \<in> set (global_values k). slot_ok v" "slot_ok x"
  shows "\<forall>v \<in> set (global_values (f x)). slot_ok v"
  using assms by (auto simp: global_slots_def global_values_def split: if_splits)

lemma binding_slot_cases:
  assumes "binding_slot k c a = Some (v, f)"
  obtains (global) g where "c = ''global''" "map_of (global_slots (tk_global k)) a = Some (v, g)" "f = (\<lambda>x. k\<lparr>tk_global := g x\<rparr>)"
    | (chat) g where "c = ''chat''" "map_of (chat_slots (tk_chat k)) a = Some (v, g)" "f = (\<lambda>x. k\<lparr>tk_chat := g x\<rparr>)"
    | (composer) g where "c = ''composer''" "map_of (composer_slots (tk_composer k)) a = Some (v, g)" "f = (\<lambda>x. k\<lparr>tk_composer := g x\<rparr>)"
    | (editor) g where "c = ''editor''" "map_of (editor_slots (tk_editor k)) a = Some (v, g)" "f = (\<lambda>x. k\<lparr>tk_editor := g x\<rparr>)"
    | (vim_normal) g where "c = ''vim_normal''" "map_of (vim_normal_slots (tk_vim_normal k)) a = Some (v, g)" "f = (\<lambda>x. k\<lparr>tk_vim_normal := g x\<rparr>)"
    | (vim_operator) g where "c = ''vim_operator''" "map_of (vim_operator_slots (tk_vim_operator k)) a = Some (v, g)" "f = (\<lambda>x. k\<lparr>tk_vim_operator := g x\<rparr>)"
    | (vim_text_object) g where "c = ''vim_text_object''" "map_of (vim_text_object_slots (tk_vim_text_object k)) a = Some (v, g)" "f = (\<lambda>x. k\<lparr>tk_vim_text_object := g x\<rparr>)"
    | (pager) g where "c = ''pager''" "map_of (pager_slots (tk_pager k)) a = Some (v, g)" "f = (\<lambda>x. k\<lparr>tk_pager := g x\<rparr>)"
    | (list) g where "c = ''list''" "map_of (list_slots (tk_list k)) a = Some (v, g)" "f = (\<lambda>x. k\<lparr>tk_list := g x\<rparr>)"
    | (approval) g where "c = ''approval''" "map_of (approval_slots (tk_approval k)) a = Some (v, g)" "f = (\<lambda>x. k\<lparr>tk_approval := g x\<rparr>)"
  using assms unfolding binding_slot_def within_def by (auto split: if_splits)

lemmas slots_read_back = tg_ctx.assign_read tc_ctx.assign_read tm_ctx.assign_read te_ctx.assign_read tn_ctx.assign_read tw_ctx.assign_read tt_ctx.assign_read tp_ctx.assign_read tl_ctx.assign_read tv_ctx.assign_read

lemmas slots_other = tg_ctx.assign_other tc_ctx.assign_other tm_ctx.assign_other te_ctx.assign_other tn_ctx.assign_other tw_ctx.assign_other tt_ctx.assign_other tp_ctx.assign_other tl_ctx.assign_other tv_ctx.assign_other

lemma binding_slot_read_back:
  assumes "binding_slot k c a = Some (v, f)"
  shows "\<exists>g. binding_slot (f x) c a = Some (x, g)"
  using assms
  by (cases rule: binding_slot_cases) (auto simp: binding_slot_def within_def dest!: slots_read_back [where x = x])

lemma binding_slot_ok:
  assumes "binding_slot k c a = Some (v, f)" "normalized_config k" "slot_ok x"
  shows "normalized_config (f x)"
  using assms(1)
proof (cases rule: binding_slot_cases)
  case (global g)
  then show ?thesis
    using global_assign_ok [OF global(2) _ assms(3)] assms(2) by (simp add: normalized_config_def keymap_values_def ball_Un)
next
  case (chat g)
  then show ?thesis
    using tc_ctx.assign_ok [OF chat(2) _ assms(3)] assms(2) by (simp add: normalized_config_def keymap_values_def ball_Un)
next
  case (composer g)
  then show ?thesis
    using tm_ctx.assign_ok [OF composer(2) _ assms(3)] assms(2) by (simp add: normalized_config_def keymap_values_def ball_Un)
next
  case (editor g)
  then show ?thesis
    using te_ctx.assign_ok [OF editor(2) _ assms(3)] assms(2) by (simp add: normalized_config_def keymap_values_def ball_Un)
next
  case (vim_normal g)
  then show ?thesis
    using tn_ctx.assign_ok [OF vim_normal(2) _ assms(3)] assms(2) by (simp add: normalized_config_def keymap_values_def ball_Un)
next
  case (vim_operator g)
  then show ?thesis
    using tw_ctx.assign_ok [OF vim_operator(2) _ assms(3)] assms(2) by (simp add: normalized_config_def keymap_values_def ball_Un)
next
  case (vim_text_object g)
  then show ?thesis
    using tt_ctx.assign_ok [OF vim_text_object(2) _ assms(3)] assms(2) by (simp add: normalized_config_def keymap_values_def ball_Un)
next
  case (pager g)
  then show ?thesis
    using tp_ctx.assign_ok [OF pager(2) _ assms(3)] assms(2) by (simp add: normalized_config_def keymap_values_def ball_Un)
next
  case (list g)
  then show ?thesis
    using tl_ctx.assign_ok [OF list(2) _ assms(3)] assms(2) by (simp add: normalized_config_def keymap_values_def ball_Un)
next
  case (approval g)
  then show ?thesis
    using tv_ctx.assign_ok [OF approval(2) _ assms(3)] assms(2) by (simp add: normalized_config_def keymap_values_def ball_Un)
qed

text \<open>Assigning one slot leaves the value of every other one alone.\<close>

lemma binding_slot_other:
  assumes "binding_slot k c a = Some (v, f)" "(c', a') \<noteq> (c, a)"
  shows "map_option fst (binding_slot (f x) c' a') = map_option fst (binding_slot k c' a')"
  using assms(1)
  by (cases rule: binding_slot_cases)
     (use assms(2) in \<open>auto simp: binding_slot_def within_def option.map_comp comp_def split_beta slots_other\<close>)

section \<open>Configured actions have the configured keys\<close>

definition configured_as :: "rstr \<Rightarrow> (rstr \<times> 'k slot_ref) list \<Rightarrow> action_table \<Rightarrow> bool" where
  "configured_as context slots table \<longleftrightarrow>
     (\<forall>a spec f. map_of slots a = Some (Some spec, f) \<longrightarrow>
        (\<exists>bs. map_of table a = Some bs \<and> parse_bindings spec (keymap_path context a) = Ok bs))"

lemma resolved_table_configured:
  assumes "resolved_table c (map (fst \<circ> snd) slots) d t" "map fst slots = map fst d"
  shows "configured_as c slots t"
proof -
  have "list_all2 (\<lambda>(v, a, d) (a', bs). a' = a \<and> resolve_bindings v d (keymap_path c a) = Ok bs)
      (zip (map (fst \<circ> snd) slots) d) t \<Longrightarrow> map fst slots = map fst d \<Longrightarrow>
      map_of slots a = Some (Some spec, f) \<Longrightarrow> \<exists>bs. map_of t a = Some bs \<and> parse_bindings spec (keymap_path c a) = Ok bs" for a spec f
  proof (induction slots arbitrary: d t)
    case (Cons s slots)
    obtain b fb ds where d: "d = (b, fb) # ds" using Cons.prems(2) by (cases d) auto
    obtain v g where s: "s = (b, v, g)" using Cons.prems(2) d by (cases s) auto
    from Cons.prems(1) obtain bs ts where t: "t = (b, bs) # ts"
      and r: "resolve_bindings v fb (keymap_path c b) = Ok bs"
      by (auto simp: d s list_all2_Cons1)
    show ?case using Cons.IH [of ds ts] Cons.prems d s t r by (auto simp: resolve_bindings_def split: if_splits)
  qed simp
  then show ?thesis using assms by (simp add: configured_as_def resolved_table_def)
qed

lemma resolve_chat_configured:
  "resolve_chat k default_chat_keymap = Ok v \<Longrightarrow> configured_as ''chat'' (chat_slots k) (chat_actions v)"
  using resolved_table_configured resolve_chat_table tc_ctx.slot_reads tc_ctx.slot_names by metis

lemma resolve_editor_configured:
  "resolve_editor k default_editor_keymap = Ok v \<Longrightarrow> configured_as ''editor'' (editor_slots k) (editor_actions v)"
  using resolved_table_configured resolve_editor_table te_ctx.slot_reads te_ctx.slot_names by metis

lemma resolve_vim_normal_configured:
  "resolve_vim_normal k default_vim_normal_keymap = Ok v \<Longrightarrow> configured_as ''vim_normal'' (vim_normal_slots k) (vim_normal_actions v)"
  using resolved_table_configured resolve_vim_normal_table tn_ctx.slot_reads tn_ctx.slot_names by metis

lemma resolve_vim_operator_configured:
  "resolve_vim_operator k default_vim_operator_keymap = Ok v \<Longrightarrow> configured_as ''vim_operator'' (vim_operator_slots k) (vim_operator_actions v)"
  using resolved_table_configured resolve_vim_operator_table tw_ctx.slot_reads tw_ctx.slot_names by metis

lemma resolve_vim_text_object_configured:
  "resolve_vim_text_object k default_vim_text_object_keymap = Ok v \<Longrightarrow> configured_as ''vim_text_object'' (vim_text_object_slots k) (vim_text_object_actions v)"
  using resolved_table_configured resolve_vim_text_object_table tt_ctx.slot_reads tt_ctx.slot_names by metis

lemma resolve_pager_configured:
  "resolve_pager k default_pager_keymap = Ok v \<Longrightarrow> configured_as ''pager'' (pager_slots k) (pager_actions v)"
  using resolved_table_configured resolve_pager_table tp_ctx.slot_reads tp_ctx.slot_names by metis

lemma resolve_approval_configured:
  "resolve_approval k default_approval_keymap = Ok v \<Longrightarrow> configured_as ''approval'' (approval_slots k) (approval_actions v)"
  using resolved_table_configured resolve_approval_table tv_ctx.slot_reads tv_ctx.slot_names by metis

lemma resolve_app_configured:
  "resolve_app k default_app_keymap = Ok v \<Longrightarrow> configured_as ''global'' (global_slots k) (app_actions v)"
  using resolved_table_configured resolve_app_table tg_ctx.slot_reads tg_ctx.slot_names by metis

lemma entries_configured:
  assumes "list_all2 (\<lambda>(a, v, f) (a', bs). a' = a \<and> (\<forall>spec. v = Some spec \<longrightarrow> parse_bindings spec (keymap_path c a) = Ok bs)) slots t"
  shows "configured_as c slots t"
proof -
  have "map_of slots a = Some (Some spec, f) \<Longrightarrow>
      \<exists>bs. map_of t a = Some bs \<and> parse_bindings spec (keymap_path c a) = Ok bs" for a spec f
    using assms by (induction rule: list_all2_induct) (auto split: if_splits)
  then show ?thesis by (simp add: configured_as_def)
qed

lemma takes_configured:
  "resolve_bindings v d path = Ok bs \<Longrightarrow> \<forall>spec. v = Some spec \<longrightarrow> parse_bindings spec path = Ok bs"
  "resolve_bindings_with_global_fallback v g d path = Ok bs \<Longrightarrow> \<forall>spec. v = Some spec \<longrightarrow> parse_bindings spec path = Ok bs"
  "resolve_new_default_bindings v d preserve path = Ok bs \<Longrightarrow> \<forall>spec. v = Some spec \<longrightarrow> parse_bindings spec path = Ok bs"
  by (auto simp: resolve_bindings_def resolve_bindings_with_global_fallback_def resolve_new_default_bindings_def)

lemma resolve_composer_configured:
  assumes "resolve_composer g k d = Ok v"
  shows "configured_as ''composer'' (composer_slots k) (composer_actions v)"
  using assms
  by (intro entries_configured)
     (auto simp: resolve_composer_def and_then_eq_Ok composer_slots_def composer_actions_def dest!: takes_configured)

lemma resolve_list_configured:
  assumes "resolve_list k app approval d = Ok v"
  shows "configured_as ''list'' (list_slots (tk_list k)) (list_actions v)"
  using assms
  by (intro entries_configured)
     (auto simp: resolve_list_def and_then_eq_Ok Let_def list_slots_def list_actions_def dest!: takes_configured)

text \<open>An action that gives way to others does so only when it is not configured itself.\<close>

lemma vim_normal_yield_configured:
  assumes "configured_as c (vim_normal_slots k) (vim_normal_actions v)"
  shows "configured_as c (vim_normal_slots k) (vim_normal_actions (vim_normal_yield k v))"
proof -
  have "map_of (vim_normal_actions (vim_normal_yield k v)) a = map_of (vim_normal_actions v) a"
    if "map_of (vim_normal_slots k) a = Some (Some spec, f)" for a spec f
    using that by (auto simp: vim_normal_actions_def vim_normal_yield_def vim_normal_slots_def Let_def retain_unless_def split: if_splits)
  then show ?thesis using assms unfolding configured_as_def by metis
qed

lemma vim_operator_yield_configured:
  assumes "configured_as c (vim_operator_slots k) (vim_operator_actions v)"
  shows "configured_as c (vim_operator_slots k) (vim_operator_actions (vim_operator_yield k v))"
proof -
  have "map_of (vim_operator_actions (vim_operator_yield k v)) a = map_of (vim_operator_actions v) a"
    if "map_of (vim_operator_slots k) a = Some (Some spec, f)" for a spec f
    using that by (auto simp: vim_operator_actions_def vim_operator_yield_def vim_operator_slots_def Let_def retain_unless_def split: if_splits)
  then show ?thesis using assms unfolding configured_as_def by metis
qed

lemma chat_yield_configured:
  assumes "configured_as c (chat_slots (tk_chat k)) (chat_actions v)"
  shows "configured_as c (chat_slots (tk_chat k)) (chat_actions (chat_yield k v))"
proof -
  have "map_of (chat_actions (chat_yield k v)) a = map_of (chat_actions v) a"
    if "map_of (chat_slots (tk_chat k)) a = Some (Some spec, f)" for a spec f
    using that by (auto simp: chat_actions_def chat_yield_def chat_slots_def Let_def split: if_splits)
  then show ?thesis using assms unfolding configured_as_def by metis
qed

end
