(* ===== verification/Keymap_Safety.thy ===== *)
theory Keymap_Safety
  imports Keymap_Edits
begin

text \<open>
  The properties of key maps: no event means two things, keys taken by one level do not reach the
  next, captured keys survive the configuration file, and editing keeps all of this and does what
  it says.
\<close>

section \<open>Resolved key maps\<close>

lemma from_config_configured:
  assumes m: "from_config k = Ok m" and slot: "binding_slot k c a = Some (Some spec, f)"
  shows "\<exists>bs. bindings_for_action m c a = Some bs \<and> parse_bindings spec (keymap_path c a) = Ok bs"
proof -
  from m have "resolve_keymap k = Ok m" by (simp add: from_config_Ok)
  then show ?thesis
  proof (cases rule: resolve_keymap_parts)
    case r: (1 app chat composer editor normal operator tobj pager approval lists)
    have conf: "configured_as ''global'' (global_slots (tk_global k)) (app_actions app)"
      "configured_as ''chat'' (chat_slots (tk_chat k)) (chat_actions (chat_yield k chat))"
      "configured_as ''composer'' (composer_slots (tk_composer k)) (composer_actions composer)"
      "configured_as ''editor'' (editor_slots (tk_editor k)) (editor_actions editor)"
      "configured_as ''vim_normal'' (vim_normal_slots (tk_vim_normal k)) (vim_normal_actions (vim_normal_yield (tk_vim_normal k) normal))"
      "configured_as ''vim_operator'' (vim_operator_slots (tk_vim_operator k))
         (vim_operator_actions (vim_operator_yield (tk_vim_operator k) operator))"
      "configured_as ''vim_text_object'' (vim_text_object_slots (tk_vim_text_object k)) (vim_text_object_actions tobj)"
      "configured_as ''pager'' (pager_slots (tk_pager k)) (pager_actions pager)"
      "configured_as ''list'' (list_slots (tk_list k)) (list_actions lists)"
      "configured_as ''approval'' (approval_slots (tk_approval k)) (approval_actions approval)"
      using resolve_app_configured [OF r(1)] chat_yield_configured [OF resolve_chat_configured [OF r(2)]]
        resolve_composer_configured [OF r(3)] resolve_editor_configured [OF r(4)]
        vim_normal_yield_configured [OF resolve_vim_normal_configured [OF r(5)]]
        vim_operator_yield_configured [OF resolve_vim_operator_configured [OF r(6)]]
        resolve_vim_text_object_configured [OF r(7)] resolve_pager_configured [OF r(8)]
        resolve_list_configured [OF r(10)] resolve_approval_configured [OF r(9)]
      by blast+
    from slot show ?thesis
      by (cases rule: binding_slot_cases) (use conf in \<open>simp_all add: configured_as_def bindings_for_action_def r(11)\<close>)
  qed
qed

section \<open>Edits\<close>

lemma set_push_all: "set (foldl (\<lambda>acc x. push_absent x acc) acc xs) = set acc \<union> set xs"
  by (induction xs arbitrary: acc) auto

lemma set_dedup_bindings: "set (dedup_bindings xs) = set xs"
  by (simp add: dedup_bindings_def set_push_all)

lemma edited_bindings_set:
  assumes "edited_bindings c a key intent current = Ok (Some bs)"
  shows "key \<in> set bs" "set bs \<subseteq> insert key (set current)"
  using assms by (auto simp: edited_bindings_def set_dedup_bindings split: keymap_edit_intent.splits if_splits)

lemma edited_bindings_None: "edited_bindings c a key intent current = Ok None \<Longrightarrow> key \<in> set current"
  by (auto simp: edited_bindings_def split: keymap_edit_intent.splits if_splits)

lemma keymap_with_bindings_Ok:
  assumes "keymap_with_bindings k c a keys = Ok k'"
  shows "\<exists>v f spec. binding_slot k c a = Some (v, f) \<and> k' = f (Some spec) \<and> spec_list spec = keys"
proof -
  define spec where "spec = (case keys of [key] \<Rightarrow> SpecOne key | _ \<Rightarrow> SpecMany keys)"
  have "spec_list spec = keys" by (auto simp: spec_def split: list.splits)
  then show ?thesis using assms unfolding keymap_with_bindings_def spec_def by (auto split: option.splits)
qed

lemma keymap_with_edit_Updated:
  assumes "keymap_with_edit k m c a key intent = Ok (Updated k' bs msg)"
  shows "\<exists>current v f spec. active_binding_specs m c a = Ok current \<and> key \<in> set bs \<and> set bs \<subseteq> insert key (set current) \<and>
     binding_slot k c a = Some (v, f) \<and> k' = f (Some spec) \<and> spec_list spec = bs"
proof -
  obtain current where cur: "active_binding_specs m c a = Ok current"
    and ed: "edited_bindings c a key intent current = Ok (Some bs)" and k': "keymap_with_bindings k c a bs = Ok k'"
    using assms by (auto simp: keymap_with_edit_def and_then_eq_Ok split: option.splits if_splits)
  show ?thesis using cur edited_bindings_set [OF ed] keymap_with_bindings_Ok [OF k'] by blast
qed

lemma keymap_with_edit_Unchanged:
  assumes "keymap_with_edit k m c a key intent = Ok (Unchanged msg)"
  shows "\<exists>current. active_binding_specs m c a = Ok current \<and> key \<in> set current"
proof -
  obtain current edited where cur: "active_binding_specs m c a = Ok current"
    and ed: "edited_bindings c a key intent current = Ok edited" "\<forall>x. edited = Some x \<longrightarrow> x = current"
    using assms by (auto simp: keymap_with_edit_def and_then_eq_Ok split: option.splits if_splits)
  have "key \<in> set current"
    using ed edited_bindings_set(1) [of c a key intent current] edited_bindings_None [of c a key intent current]
    by (cases edited) auto
  then show ?thesis using cur by simp
qed

lemma collect_results_mem:
  "collect_results f xs = Ok ys \<Longrightarrow> y \<in> set ys \<Longrightarrow> \<exists>x \<in> set xs. f x = Ok y"
  by (induction xs arbitrary: ys) (auto split: sum.splits)

lemma active_binding_specs_mem:
  assumes "active_binding_specs m c a = Ok current" "s \<in> set current"
  shows "\<exists>bs b. bindings_for_action m c a = Some bs \<and> b \<in> set bs \<and> binding_to_config_key_spec b = Ok s"
proof -
  obtain bs where bs: "bindings_for_action m c a = Some bs" "collect_results storable_spec bs = Ok current"
    using assms(1) by (auto simp: active_binding_specs_def split: option.splits)
  then obtain b where "b \<in> set bs" "storable_spec b = Ok s"
    using collect_results_mem [OF bs(2) assms(2)] by auto
  then show ?thesis using bs by (auto simp: storable_spec_def split: sum.splits)
qed

text \<open>The states an editing session goes through.\<close>

definition state_ok :: "keymap_state \<Rightarrow> bool" where
  "state_ok st \<longleftrightarrow> normalized_config (ks_config st) \<and> from_config (ks_config st) = Ok (ks_keymap st)"

inductive keymap_reachable :: "keymap_state \<Rightarrow> bool" where
  start: "normalized_config k \<Longrightarrow> from_config k = Ok m \<Longrightarrow> keymap_reachable \<lparr>ks_config = k, ks_keymap = m\<rparr>"
| capture: "keymap_reachable st \<Longrightarrow> capture_handle_key_event ev view = (view', Some (KeymapCaptured c a key intent)) \<Longrightarrow>
    apply_keymap_capture saved c a key intent st = (st', notice) \<Longrightarrow> keymap_reachable st'"
| clear: "keymap_reachable st \<Longrightarrow> apply_keymap_clear saved c a st = (st', notice) \<Longrightarrow> keymap_reachable st'"

lemma capture_event_spec:
  "capture_handle_key_event ev view = (view', Some (KeymapCaptured c a key intent)) \<Longrightarrow>
     key_event_to_config_key_spec ev = Ok key \<and> event_kind ev \<noteq> KeyRelease"
  by (auto simp: capture_handle_key_event_def split: if_splits sum.splits)

lemma apply_capture_ok:
  assumes ok: "state_ok st" and key: "normalized_spec key" and step: "apply_keymap_capture saved c a key intent st = (st', n)"
  shows "state_ok st'"
proof (cases "st' = st")
  case False
  then obtain k bs msg where ed: "keymap_with_edit (ks_config st) (ks_keymap st) c a key intent = Ok (Updated k bs msg)"
    and k: "from_config k = Ok (ks_keymap st')" "ks_config st' = k"
    using step by (auto simp: apply_keymap_capture_def split: sum.splits keymap_edit_outcome.splits if_splits)
  obtain current v f spec where e: "active_binding_specs (ks_keymap st) c a = Ok current" "set bs \<subseteq> insert key (set current)"
    "binding_slot (ks_config st) c a = Some (v, f)" "k = f (Some spec)" "spec_list spec = bs"
    using keymap_with_edit_Updated [OF ed] by blast
  have "normalized_spec s" if "s \<in> set current" for s
    using active_binding_specs_mem [OF e(1) that] binding_spec_normal(1) by blast
  then have "slot_ok (Some spec)" using e(2,5) key by (auto simp: slot_ok_def)
  then have "normalized_config k" using binding_slot_ok [OF e(3)] ok e(4) by (simp add: state_ok_def)
  then show ?thesis using k by (simp add: state_ok_def)
qed (use ok in simp)

lemma apply_clear_ok:
  assumes ok: "state_ok st" and step: "apply_keymap_clear saved c a st = (st', n)"
  shows "state_ok st'"
proof (cases "st' = st")
  case False
  then obtain k v f where k: "binding_slot (ks_config st) c a = Some (v, f)" "k = f None"
    "from_config k = Ok (ks_keymap st')" "ks_config st' = k"
    using step by (auto simp: apply_keymap_clear_def keymap_without_custom_binding_def split: sum.splits option.splits if_splits)
  have "normalized_config k"
    using binding_slot_ok [OF k(1)] ok k(2) by (simp add: state_ok_def slot_ok_def)
  then show ?thesis using k by (simp add: state_ok_def)
qed (use ok in simp)

lemma keymap_reachable_ok: "keymap_reachable st \<Longrightarrow> state_ok st"
proof (induction rule: keymap_reachable.induct)
  case (capture st ev view view' c a key intent saved st' notice)
  then have "normalized_spec key"
    using capture_event_spec captured_spec(1) by (metis normalized_spec_def)
  then show ?case using capture apply_capture_ok by blast
next
  case (clear st saved c a st' notice)
  then show ?case using apply_clear_ok by blast
qed (simp add: state_ok_def)

section \<open>Keys that take effect\<close>

lemma normal_parts_pressed:
  "b \<in> set bs \<Longrightarrow> normal_parts b = event_parts ev \<Longrightarrow> event_kind ev \<noteq> KeyRelease \<Longrightarrow> is_pressed bs ev"
  by (cases "event_kind ev") (auto simp: is_pressed_def is_press_def list_ex_iff normal_parts_def event_parts_def)

lemma event_binding_parts: "binding_parts (binding_from_event ev) = event_parts ev"
  by (simp add: binding_parts_def binding_from_event_def event_parts_def split_beta)

lemma updated_key_pressed:
  assumes ev: "key_event_to_config_key_spec ev = Ok key" "event_kind ev \<noteq> KeyRelease"
    and slot: "binding_slot k c a = Some (v, f)" and key: "key \<in> set (spec_list spec)"
    and m: "from_config (f (Some spec)) = Ok m"
  shows "\<exists>bs. bindings_for_action m c a = Some bs \<and> is_pressed bs ev"
proof -
  obtain g where "binding_slot (f (Some spec)) c a = Some (Some spec, g)"
    using binding_slot_read_back [OF slot] by blast
  then obtain bs where bs: "bindings_for_action m c a = Some bs" "parse_bindings spec (keymap_path c a) = Ok bs"
    using from_config_configured [OF m] by blast
  have "Some (binding_from_event ev) \<in> Some ` set bs"
    unfolding parse_bindings_set [OF bs(2)] using captured_spec(2) [OF ev(1)] key by force
  then have "binding_from_event ev \<in> set bs" by auto
  moreover have "is_press (binding_from_event ev) ev" using ev(2) by (simp add: binding_from_event_press)
  ultimately show ?thesis using bs(1) by (auto simp: is_pressed_def list_ex_iff)
qed

lemma active_key_pressed:
  assumes ev: "key_event_to_config_key_spec ev = Ok key" "event_kind ev \<noteq> KeyRelease"
    and key: "active_binding_specs m c a = Ok current" "key \<in> set current"
  shows "\<exists>bs. bindings_for_action m c a = Some bs \<and> is_pressed bs ev"
proof -
  obtain bs b where b: "bindings_for_action m c a = Some bs" "b \<in> set bs" "binding_to_config_key_spec b = Ok key"
    using active_binding_specs_mem [OF key] by blast
  have "normal_parts b = event_parts ev"
    using binding_spec_normal(2) [OF b(3)] captured_spec(2) [OF ev(1)] event_binding_parts [of ev]
    by (auto simp: normal_parts_def)
  then show ?thesis using b(1) normal_parts_pressed [OF b(2) _ ev(2)] by blast
qed

lemma unset_enter_insert:
  assumes "from_config k = Ok m" "tn_enter_insert (tk_vim_normal k) = None"
  shows "bindings_for_action m ''vim_normal'' ''enter_insert'' = Some (vn_enter_insert default_vim_normal_keymap)"
proof -
  have "resolve_keymap k = Ok m" using assms(1) by (simp add: from_config_Ok)
  then obtain normal where r: "resolve_vim_normal (tk_vim_normal k) default_vim_normal_keymap = Ok normal"
    and m: "rk_vim_normal m = vim_normal_yield (tk_vim_normal k) normal"
    by (cases rule: resolve_keymap_parts) auto
  have "vn_enter_insert normal = vn_enter_insert default_vim_normal_keymap"
    using r assms(2) by (auto simp: resolve_vim_normal_def and_then_eq_Ok resolve_bindings_def)
  then show ?thesis by (simp add: bindings_for_action_def vim_normal_actions_def m vim_normal_yield_def Let_def)
qed

lemma insert_key_not_storable:
  "collect_results storable_spec (vn_enter_insert default_vim_normal_keymap) = Err (KeyNotStorable UnsupportedKey)"
  by code_simp

section \<open>Samples\<close>

definition sample_event :: key_event where
  "sample_event = \<lparr>event_code = KeyChar ''X'', event_modifiers = mods_none\<lparr>mod_control := True\<rparr>, event_kind = KeyPress\<rparr>"

definition sample_view :: keymap_capture_view where
  "sample_view = \<lparr>cv_context = ''editor'', cv_action = ''yank'', cv_intent = AddAlternate, cv_complete = False, cv_error_message = None\<rparr>"

definition first_state :: keymap_state where
  "first_state = \<lparr>ks_config = tui_keymap_default, ks_keymap = keymap_defaults\<rparr>"

definition edited_state :: keymap_state where
  "edited_state = fst (apply_keymap_capture True ''editor'' ''yank'' ''ctrl-shift-x'' AddAlternate first_state)"

lemma default_accepted: "from_config tui_keymap_default = Ok keymap_defaults"
  by code_simp

lemma default_normalized: "normalized_config tui_keymap_default"
proof -
  have "list_all (\<lambda>v. v = None) (keymap_values tui_keymap_default)" by code_simp
  then show ?thesis by (auto simp: normalized_config_def slot_ok_def list_all_iff)
qed

lemma sample_captured:
  "capture_handle_key_event sample_event sample_view =
     (sample_view\<lparr>cv_complete := True\<rparr>, Some (KeymapCaptured ''editor'' ''yank'' ''ctrl-shift-x'' AddAlternate))"
  by code_simp

lemma sample_applied:
  "apply_keymap_capture True ''editor'' ''yank'' ''ctrl-shift-x'' AddAlternate first_state =
     (edited_state, EditNotice (AddedKey ''editor'' ''yank'' ''ctrl-shift-x''))"
proof -
  have "snd (apply_keymap_capture True ''editor'' ''yank'' ''ctrl-shift-x'' AddAlternate first_state) =
      EditNotice (AddedKey ''editor'' ''yank'' ''ctrl-shift-x'')" by code_simp
  then show ?thesis unfolding edited_state_def by (metis prod.collapse)
qed

lemma first_reachable: "keymap_reachable first_state"
  unfolding first_state_def using default_normalized default_accepted by (rule keymap_reachable.start)

lemma edited_reachable: "keymap_reachable edited_state"
  using first_reachable sample_captured sample_applied by (rule keymap_reachable.capture)

section \<open>Properties\<close>

text \<open>
  C25. Key maps stay unambiguous. Start from any configuration whose specifications were normalised
  and which the program accepted, and change shortcuts from inside the program, with any captured
  keys, any actions, and saving failing or not: the program always runs with the key map its
  configuration stands for, and in every table an event is looked up in, it presses at most one
  action, although the checks compare keys as written and matching normalises them.
\<close>
theorem reachable_keymaps_unambiguous:
  assumes "keymap_reachable st"
  shows "from_config (ks_config st) = Ok (ks_keymap st) \<and>
    (\<forall>t \<in> set (dispatch_tables (ks_keymap st)). length (pressed_actions t ev) \<le> 1)"
  using keymap_reachable_ok [OF assms] accepted_at_most_one by (auto simp: state_ok_def)

theorem reachable_keymaps_unambiguous_witness:
  "from_config (ks_config edited_state) = Ok (ks_keymap edited_state) \<and>
   length (pressed_actions (editor_actions (rk_editor (ks_keymap edited_state))) sample_event) \<le> 1"
  using reachable_keymaps_unambiguous [OF edited_reachable, of sample_event] by (simp add: dispatch_tables_def)



text \<open>
  C27. A captured key does what the user asked for. When a key captured in a reachable state is applied
  to an action and the program reports the edit as done or as no change, the very event that was
  captured presses that action from then on, and no other action's configuration changed; whenever
  the program reports anything else, nothing changed at all.
\<close>
theorem captured_key_takes_effect:
  assumes "keymap_reachable st"
    and "capture_handle_key_event ev view = (view', Some (KeymapCaptured c a key intent))"
    and "apply_keymap_capture saved c a key intent st = (st', notice)"
  shows "if \<exists>message. notice = EditNotice message
    then (\<exists>bs. bindings_for_action (ks_keymap st') c a = Some bs \<and> is_pressed bs ev) \<and>
      (\<forall>c' a'. (c', a') \<noteq> (c, a) \<longrightarrow>
        map_option fst (binding_slot (ks_config st') c' a') = map_option fst (binding_slot (ks_config st) c' a'))
    else st' = st"
proof -
  note ev = capture_event_spec [OF assms(2), THEN conjunct1] capture_event_spec [OF assms(2), THEN conjunct2]
  consider (same) msg where "keymap_with_edit (ks_config st) (ks_keymap st) c a key intent = Ok (Unchanged msg)" "st' = st"
    | (changed) k bs msg where "keymap_with_edit (ks_config st) (ks_keymap st) c a key intent = Ok (Updated k bs msg)"
        "from_config k = Ok (ks_keymap st')" "ks_config st' = k" "notice = EditNotice msg"
    | (refused) "st' = st" "\<nexists>message. notice = EditNotice message"
    using assms(3) by (auto simp: apply_keymap_capture_def split: sum.splits keymap_edit_outcome.splits if_splits)
  then show ?thesis
  proof cases
    case same
    obtain current where "active_binding_specs (ks_keymap st) c a = Ok current" "key \<in> set current"
      using keymap_with_edit_Unchanged [OF same(1)] by blast
    then show ?thesis using active_key_pressed [OF ev] same(2) by simp
  next
    case changed
    obtain v f spec where e: "binding_slot (ks_config st) c a = Some (v, f)" "k = f (Some spec)" "key \<in> set (spec_list spec)"
      using keymap_with_edit_Updated [OF changed(1)] by blast
    then show ?thesis
      using updated_key_pressed [OF ev e(1,3)] changed(2,3,4) binding_slot_other [OF e(1)] by auto
  next
    case refused
    then show ?thesis by simp
  qed
qed

theorem captured_key_takes_effect_witness:
  "(\<exists>bs. bindings_for_action (ks_keymap edited_state) ''editor'' ''yank'' = Some bs \<and> is_pressed bs sample_event) \<and>
   map_option fst (binding_slot (ks_config edited_state) ''editor'' ''move_left'') =
     map_option fst (binding_slot tui_keymap_default ''editor'' ''move_left'')"
  using captured_key_takes_effect [OF first_reachable sample_captured sample_applied] by (simp add: first_state_def)

text \<open>
  C28. Captured keys survive the configuration file. The specification made for a captured event is
  already normal, so that it is read back as it was written, and parses to a binding that is
  pressed by exactly the events that agree with the captured one after normalisation.
\<close>
theorem captured_key_roundtrip:
  assumes "key_event_to_config_key_spec ev = Ok spec"
  shows "normalize_keybinding_spec spec = Ok spec \<and>
    (\<exists>b. parse_keybinding spec = Some b \<and> binding_to_config_key_spec b = Ok spec \<and>
      (\<forall>ev'. is_press b ev' \<longleftrightarrow> event_parts ev' = event_parts ev \<and> event_kind ev' \<noteq> KeyRelease))"
  using captured_spec [OF assms] assms binding_from_event_press [of ev]
  by (simp add: event_parts_def key_event_to_config_key_spec_def)

theorem captured_key_roundtrip_witness:
  "normalize_keybinding_spec ''ctrl-shift-x'' = Ok ''ctrl-shift-x'' \<and>
   (\<exists>b. parse_keybinding ''ctrl-shift-x'' = Some b \<and> is_press b sample_event)"
proof -
  have "key_event_to_config_key_spec sample_event = Ok ''ctrl-shift-x''" by code_simp
  from captured_key_roundtrip [OF this] show ?thesis by (auto simp: sample_event_def)
qed

text \<open>
  C29. One shortcut cannot be changed. As long as entering insert mode has its default keys, which
  include the insert key, every attempt to edit its shortcut from inside the program fails, also
  one that would replace all its keys: the keys it has are turned into specifications first, and
  the insert key has none.
\<close>
theorem insert_shortcut_not_editable:
  assumes "from_config k = Ok m" "tn_enter_insert (tk_vim_normal k) = None"
  shows "keymap_with_edit k m ''vim_normal'' ''enter_insert'' key intent = Err (KeyNotStorable UnsupportedKey)"
  by (simp add: keymap_with_edit_def active_binding_specs_def unset_enter_insert [OF assms] insert_key_not_storable)

theorem insert_shortcut_not_editable_witness:
  "keymap_with_edit tui_keymap_default keymap_defaults ''vim_normal'' ''enter_insert'' ''ctrl-x'' ReplaceAll =
     Err (KeyNotStorable UnsupportedKey)"
proof -
  have "tn_enter_insert (tk_vim_normal tui_keymap_default) = None"
    by (simp add: tui_keymap_default_def tui_vim_normal_default_def)
  from insert_shortcut_not_editable [OF default_accepted this] show ?thesis by simp
qed

section \<open>Spellings\<close>

text \<open>
  Normalisation leaves more than one spelling for function keys, and one specification it accepts is
  refused when it is read again.
\<close>

theorem function_key_spellings:
  "normalize_keybinding_spec ''f05'' = Ok ''f05'' \<and> normalize_keybinding_spec ''f+5'' = Ok ''f+5'' \<and>
   parse_keybinding ''f05'' = parse_keybinding ''f5'' \<and> parse_keybinding ''f+5'' = parse_keybinding ''f5''"
  by code_simp

theorem bare_space_not_read_back:
  "normalize_keybinding_spec ''- -'' = Ok '' '' \<and> normalize_keybinding_spec '' '' = Err EmptyKeybinding"
  by code_simp

end
