(* ===== verification/Spec2Isabelle.thy ===== *)
theory Spec2Isabelle
  imports Patch_Render Assistant_Text Exec_Policy_Parser Head_Tail_Buffer Output_Truncation
    Readiness History Patch_Safety Thread_Ids Thread_Legacy Text_Safety Keymap_Safety
begin

text \<open>
  A verification development for the Rust agent under \<open>src/codex-rs\<close>. The program takes a user's
  request, streams a model's answer, and runs the commands and patches the answer asks for. This
  development models the parts that decide what is shown, what is changed and what may run:

    \<^item> \<^bold>\<open>apply-patch\<close> reads a patch (\<open>parser.rs\<close>, \<open>streaming_parser.rs\<close>), finds the lines to
      change (\<open>seek_sequence.rs\<close>) and changes files (\<open>lib.rs\<close>);
    \<^item> \<^bold>\<open>utils/stream-parser\<close> strips hidden tags, citations and plan blocks from streamed text;
    \<^item> \<^bold>\<open>execpolicy\<close> evaluates commands against rules; \<^bold>\<open>shell-command\<close> reads the commands of a shell
      script and classifies them; \<^bold>\<open>core/src/exec_policy.rs\<close> combines both into an approval requirement;
    \<^item> \<^bold>\<open>protocol/src/permissions.rs\<close> says which paths may be read and written,
      \<^bold>\<open>sandboxing/src/policy_transforms.rs\<close> widens that by what a user grants, and
      \<^bold>\<open>core/src/safety.rs\<close> decides with it whether a patch is applied without asking;
    \<^item> \<^bold>\<open>core/src/context_manager\<close> keeps the conversation that is sent to the model, with
      \<^bold>\<open>utils/string\<close> and \<^bold>\<open>utils/output-truncation\<close> cutting tool outputs to size;
    \<^item> \<^bold>\<open>app-server-protocol\<close> rebuilds the turns and items a client shows from the events of a thread
      (\<open>thread_history.rs\<close>) and reports what each batch of them changed;
    \<^item> \<^bold>\<open>tui/src/bottom_pane/textarea.rs\<close> is the editor in which the user writes a request, with
      \<open>key_hint.rs\<close> and \<open>keymap.rs\<close> for its keys and \<open>wrapping.rs\<close> for its lines;
    \<^item> \<^bold>\<open>core/src/unified_exec/head_tail_buffer.rs\<close> caps the output of running processes, and
      \<^bold>\<open>utils/readiness\<close> lets tool calls wait for one another.

  \<^bold>\<open>How the theories correspond to the code.\<close> Every definition is named after the function or type
  it translates; structs are records, enums datatypes, \<open>Result\<close> is \<open>Prelude.result\<close>, and a panic
  is \<open>None\<close> or an error value of its own. Strings are byte lists (\<open>rstr\<close>), as Rust's are; where
  validity or characters matter \<open>Utf8\<close> models the standard library's decoder.

    \<^item> \<open>Prelude\<close>, \<open>Rust_Str\<close>, \<open>Rust_Num\<close>, \<open>Utf8\<close>: results, string functions, saturating arithmetic
      and decoding of the standard library, with the lemma collections the other theories use.
    \<^item> \<open>Seek_Sequence\<close>, \<open>Patch_Parser\<close>, \<open>Patch_Render\<close>, \<open>Patch_Apply\<close>, \<open>Patch_Fs\<close>: apply-patch. The patch
      parser is the streaming state machine; \<open>Patch_Render\<close> is a printer for the patch language,
      used for the round trip; \<open>Patch_Fs\<close> has the hunk loop over an abstract file system.
    \<^item> \<open>Stream_Text\<close>, \<open>Inline_Hidden_Tag\<close>, \<open>Citation\<close>, \<open>Tagged_Line\<close>, \<open>Proposed_Plan\<close>, \<open>Assistant_Text\<close>,
      \<open>Utf8_Stream\<close>: the stream parsers. The trait is the locale \<open>stream_text_parser\<close>, whose laws say
      that cutting the input elsewhere changes nothing; the parsers are its interpretations.
    \<^item> \<open>Absolute_Path\<close>: \<open>utils/absolute-path\<close> on Unix. \<open>Host_Path\<close> adds what the permissions ask of the
      operating system, the record \<open>host\<close> of functions, and the canonicalisation over it.
    \<^item> \<open>Sandbox_Policy\<close>, \<open>Sandbox_Roots\<close>, \<open>Sandbox_Legacy\<close>: the entries of a policy, how access to a path
      is resolved, the roots and the read-deny matcher handed to a sandbox, the conversions from and
      to the older sandbox policies and permission profiles. \<open>Sandbox_Facts\<close> and \<open>Sandbox_Guards\<close> hold the
      lemmas and properties about them.
    \<^item> \<open>Permission_Grants\<close>: requests for more permissions, their merge and intersection with what is
      granted, and the policy a command runs under.
    \<^item> \<open>Patch_Verify\<close>, \<open>Patch_Safety\<close>: how a command is recognised as a patch and turned into an action
      (\<open>apply-patch/src/invocation.rs\<close>), the check of the action against the policy (\<open>core/src/safety.rs\<close>,
      \<open>core/src/apply_patch.rs\<close>) and the choice of a sandbox for it.
    \<^item> \<open>Exec_Rule\<close>, \<open>Exec_Policy\<close>, \<open>Exec_Policy_Parser\<close>, \<open>Exec_Amend\<close>: execpolicy. The \<open>Rule\<close> trait is the
      locale \<open>exec_rule\<close>; the Starlark interpreter, the operating system and JSON are arguments.
    \<^item> \<open>Shell_Parse\<close>, \<open>Command_Safety\<close>, \<open>Exec_Approval\<close>: from a command line to an approval requirement.
      The syntax trees of tree-sitter are a datatype and the parser an argument, as is \<open>shlex\<close>.
    \<^item> \<open>Truncate\<close>, \<open>Output_Truncation\<close>, \<open>Response_Item\<close>, \<open>Normalize\<close>, \<open>History\<close>: the conversation. The state of
      \<open>ContextManager\<close> is the record \<open>context_manager\<close>; what a prompt relies on is the locale
      \<open>prompt_normaliser\<close>.
    \<^item> \<open>Turn_Items\<close>, \<open>Turn_Events\<close>: the items of a turn and the events of the protocol, with the older events
      an item is announced by. Events no modelled function reads are one constructor. \<open>Thread_Items\<close>:
      the items shown to a client and the functions that build them from events.
    \<^item> \<open>Thread_Builder\<close>, \<open>Thread_Handlers\<close>, \<open>Thread_Changes\<close>: the builder's state and its updates, one
      handler per event, and the accumulator of changes with the reader that applies them.
      \<open>Thread_Replay\<close>, \<open>Thread_Ids\<close> and \<open>Thread_Legacy\<close> hold the lemmas and properties. A fresh UUID is an
      argument of the handlers that may draw one.
    \<^item> \<open>Text_Segments\<close>, \<open>Text_Wrap\<close>: cutting strings at byte positions, where a cut off a character boundary
      panics, and the ranges of wrapped lines. The unicode and textwrap crates are the record \<open>text_api\<close>,
      and what the editor relies on is \<open>text_laws\<close>. \<open>Key_Bindings\<close>: key events, bindings and key maps.
    \<^item> \<open>Text_Area\<close>, \<open>Text_Edit\<close>, \<open>Text_Vim\<close>: the state of \<open>TextArea\<close> as the record \<open>text_area\<close>, its edits and
      elements, movements, the kill buffer, and the dispatch of keys with vim modes, operators and text
      objects, all in the option monad with \<open>None\<close> for a panic. \<open>Text_Inv\<close> has the invariant \<open>area_ok\<close> and the
      relation \<open>keeps\<close> of states before and after an operation; \<open>Text_Pos\<close>, \<open>Text_Keys\<close>, \<open>Text_Input\<close> and
      \<open>Text_Calls\<close> show it for positions, commands, keys and the calls of the owner; \<open>Text_Safety\<close> holds the
      properties.
    \<^item> \<open>Key_Specs\<close>: key specifications, normalised (\<open>config/src/tui_keymap.rs\<close>), parsed and printed.
      \<open>Keymap_Config\<close>, \<open>Keymap_Checks\<close>: the configuration of key maps, its resolution and the conflict checks
      of \<open>tui/src/keymap.rs\<close>. \<open>Keymap_Setup\<close>: editing shortcuts (\<open>tui/src/keymap_setup.rs\<close>), where a mutable
      reference to a slot is its value and the function that assigns it. \<open>Keymap_Facts\<close> has the closure under
      normalisation the checks rest on, \<open>Keymap_Edits\<close> the contract of slots as the locale \<open>slot_context\<close>,
      interpreted on every context, and \<open>Keymap_Safety\<close> the reachable states of editing and the properties.
    \<^item> \<open>Head_Tail_Buffer\<close>: the output buffer; its contract is the locale \<open>output_buffer\<close>.
    \<^item> \<open>Readiness\<close>: the readiness flag, as an inductive step relation over threads that each run one
      call; tokio's watch channel enters through the locale \<open>watch_channel\<close>.

  \<^bold>\<open>What is shown.\<close> For patches: blocks are found where they should be, updates replace exactly the
  located regions, the recorded delta replays and undoes what happened even after a failure, no
  panic is reached, and parsing inverts rendering. For streams: results do not depend on how the text
  was cut, and agree with references on the whole text. For commands: evaluation takes the
  strictest match, overlays only tighten, rules mean what their patterns say, and a command runs
  unasked only if everything in it is allowed. For permissions: the most specific entry decides,
  what a sandbox is given lies within the policy, denials and metadata directories stay protected,
  the older policies survive conversion, and grants compose and stay within the request; a patch
  approved without asking changes only files the policy lets be written, which joins the patch
  verifier, the safety check and the hunk loop. For the conversation: prompts always pair calls and
  outputs, trimming and rollback keep what they should, truncation stays within its budget on
  character boundaries. For threads: a client that applies the reported changes has the turns a
  replay of the whole rollout gives, however the rollout was cut into batches; coalescing changes
  loses nothing; ids stay distinct; calls and user messages survive their older events. For the text
  area: no sequence of keys and calls panics or leaves the cursor or an element off a character
  boundary, elements change only as a whole, kills and drafts are restored, and the cursor stays on
  the screen. For key maps: an accepted configuration, also after edits, gives every event at most one
  meaning, levels share only allowed keys, and a captured key is stored, read back and takes effect.
  For concurrency: the flag is marked once, by a holder of a token, tokens never run into
  each other, and registered waiters are woken. The last section collects what the
  code does differently from its documentation or intention.

  \<^bold>\<open>Bounds and fuel.\<close> No model uses fuel: loops are structural recursions or have termination proofs.
  The token allocation of \<open>Readiness\<close> alone is a partial function, since it diverges when all \<open>2^32 - 1\<close>
  tokens are in use; that it returns otherwise is a theorem. \<open>usize\<close> is 64 bit; counters that
  saturate in the code saturate here, other sizes are natural numbers, bounded by the memory that
  holds the data.

  \<^bold>\<open>Parameters.\<close> Code outside the repository is an argument of the definitions that call it: the
  file system and operating system, Starlark, serde, tree-sitter and its queries, shlex, the glob
  compiler, the diff crate, the XML reader of hook prompts, fresh UUIDs, tokio's channel, the
  segmentation, width and wrapping of text. So is the one function of the repository that a modelled
  one calls and that is not modelled, \<open>parse_command\<close>. Where a theorem relies on their documented
  behaviour it says so in a hypothesis, and its witness has an instance.

  \<^bold>\<open>Not modelled.\<close> Windows variants behind \<open>cfg\<close>; unified diffs (a third-party crate); the token
  estimates of the history; loading of policy files through the configuration layers; the command
  lines built for the platform sandboxes; the command summaries of
  \<open>shell-command/src/parse_command.rs\<close> and the small utilities (templates, fuzzy matching), which are
  pure but stand apart from the components above; and the components that are mostly input and output:
  the session engine's asynchronous turn loop, the terminal interface apart from its text area and
  key maps (the other widgets and everything drawn), the app server, storage, network clients, MCP.
\<close>

section \<open>Applying patches\<close>



text \<open>
  C2. Updating a file: when the chunks of an update hunk can be located, none is marked as
  end of file and the file does not end in a blank line, the new text is the old lines with
  exactly the located regions replaced.
\<close>
theorem update_is_splice:
  assumes "read path = Ok original"
    and "compute_replacements (original_lines_of original) (native path) chunks = Ok rs"
    and "list_all (\<lambda>c. \<not> is_end_of_file c) chunks"
    and "\<not> ends_with_empty (original_lines_of original)"
  shows "derive_new_contents_from_chunks native read path chunks =
    Some (Ok \<lparr>original_contents = original,
              new_contents = join_new_lines (splice 0 (original_lines_of original) rs)\<rparr>)"
proof -
  have "apply_replacements (original_lines_of original) rs = Some (splice 0 (original_lines_of original) rs)"
    using apply_each_splice [OF compute_replacements_disjoint [OF assms(2-4)]]
    by (simp add: apply_replacements_def)
  with assms(1,2) show ?thesis by (simp add: derive_new_contents_from_chunks_def)
qed

definition demo_chunk :: update_file_chunk where
  "demo_chunk = \<lparr>change_context = None, old_lines = [''b''], new_lines = [''x'', ''y''], is_end_of_file = False\<rparr>"

definition demo_text :: rstr where
  "demo_text = ''a'' @ [NL] @ ''b'' @ [NL] @ ''c'' @ [NL]"

definition demo_read :: "rstr \<Rightarrow> (io_error, rstr) result" where
  "demo_read p = Ok demo_text"

theorem update_is_splice_witness:
  "derive_new_contents_from_chunks id demo_read ''f'' [demo_chunk] =
    Some (Ok \<lparr>original_contents = demo_text,
      new_contents = ''a'' @ [NL] @ ''x'' @ [NL] @ ''y'' @ [NL] @ ''c'' @ [NL]\<rparr> :: (unit apply_patch_error, applied_patch) result)"
proof -
  have read: "demo_read ''f'' = Ok demo_text" by (simp add: demo_read_def)
  have rs: "compute_replacements (original_lines_of demo_text) (id ''f'') [demo_chunk] = Ok [(1, 1, [''x'', ''y''])]"
    by code_simp
  have chunks: "list_all (\<lambda>c. \<not> is_end_of_file c) [demo_chunk]" by code_simp
  have blank: "\<not> ends_with_empty (original_lines_of demo_text)" by code_simp
  have out: "join_new_lines (splice 0 (original_lines_of demo_text) [(1, 1, [''x'', ''y''])]) =
      ''a'' @ [NL] @ ''x'' @ [NL] @ ''y'' @ [NL] @ ''c'' @ [NL]" by code_simp
  show ?thesis
    using update_is_splice [where read = demo_read and native = id, OF read rs chunks blank] out by simp
qed

text \<open>
  C3. Whatever the hunks and the file system do, applying a patch never reaches the panic of
  \<open>Vec::insert\<close>: the replacements computed for a file always fit into it.
\<close>
theorem apply_hunks_never_panics: "snd (apply_hunks_to_files fs api hs cwd w) \<noteq> Some Panicked"
  by (simp add: apply_hunks_to_files_def Let_def snd_apply_hunk_loop_no_panic)


definition demo_hunks :: "hunk list" where
  "demo_hunks = [UpdateFile ''a'' (Some ''b'') [demo_chunk], AddFile ''c'' ''new'']"

definition demo_world :: "rstr \<Rightarrow> rstr option" where
  "demo_world = [''d/a'' \<mapsto> demo_text, ''d/b'' \<mapsto> ''old'']"

definition demo_result :: "(rstr \<Rightarrow> rstr option, rstr) apply_state \<times> anyhow_error option" where
  "demo_result = apply_hunks_to_files mem_fs mem_api demo_hunks ''d'' demo_world"


text \<open>
  A patch applied without error reports every hunk: the added, modified and deleted paths
  of the summary are together as many as the hunks.
\<close>
theorem success_reports_every_hunk:
  assumes "apply_hunks_to_files fs api hs cwd w = (st, None)"
  shows "affected_count (affected st) = length hs"
  using assms apply_hunk_loop_affected
  by (fastforce simp: apply_hunks_to_files_def Let_def affected_count_def split: if_splits)

theorem success_reports_every_hunk_witness:
  "affected_count (affected (fst demo_result)) = 2"
proof -
  have "snd demo_result = None" by code_simp
  then have run: "apply_hunks_to_files mem_fs mem_api demo_hunks ''d'' demo_world = (fst demo_result, None)"
    by (metis demo_result_def prod.collapse)
  show ?thesis using success_reports_every_hunk [OF run] by (simp add: demo_hunks_def)
qed

section \<open>Parsing patches\<close>

text \<open>
  C5. Parse and print: every list of hunks the patch language can express is recovered, with
  nothing lost, from its rendering.
\<close>
theorem parse_render_roundtrip:
  assumes "list_all expressible hs"
  shows "parse_patch (render_patch hs) =
    Ok \<lparr>patch = render_patch hs, args_hunks = hs, workdir = None, args_environment_id = None\<rparr>"
  by (rule parse_rendered [OF assms])

definition demo_patch :: "hunk list" where
  "demo_patch = [AddFile ''p/a'' (''x'' @ [NL]), DeleteFile ''q'', UpdateFile ''a'' (Some ''b'') [demo_chunk]]"

theorem parse_render_roundtrip_witness:
  "parse_patch (render_patch demo_patch) =
    Ok \<lparr>patch = render_patch demo_patch, args_hunks = demo_patch, workdir = None, args_environment_id = None\<rparr>"
proof -
  have ex: "list_all expressible demo_patch" by code_simp
  show ?thesis by (rule parse_render_roundtrip [OF ex])
qed

text \<open>
  What a parsed patch looks like: every update hunk has a chunk, and no chunk is without
  lines. The later stages rely on it.
\<close>
theorem parsed_hunks_well_formed:
  assumes "parse_patch source = Ok args"
  shows "list_all wf_hunk (args_hunks args)"
proof -
  obtain p q hs lines where push: "push_delta default_parser (join_with [NL] lines) = (p, Ok hs)"
    and fin: "parser_finish p = (q, Ok (args_hunks args))"
    using assms unfolding parse_patch_def by (rule parse_patch_text_cases)
  have "parser_inv p" using push_delta_inv [OF default_parser_inv] push by (metis fst_conv)
  with fin show ?thesis by (rule parser_finish_wf [rotated])
qed

theorem parsed_hunks_well_formed_witness:
  "is_ok (parse_patch (render_patch demo_patch)) \<and> list_all wf_hunk demo_patch"
proof -
  have run: "parse_patch (render_patch demo_patch) =
      Ok \<lparr>patch = render_patch demo_patch, args_hunks = demo_patch, workdir = None, args_environment_id = None\<rparr>"
    by code_simp
  show ?thesis using run parsed_hunks_well_formed [OF run] by simp
qed


section \<open>Streaming assistant text\<close>

text \<open>
  C7. Assistant text: however the streamed text is cut, the citations and the visible text are
  those of the one-shot functions on the whole text, first hiding the citations and then, in
  plan mode, the plan blocks.
\<close>
theorem assistant_text_any_cuts:
  assumes "list_all valid_utf8 cs"
  shows "at_citations (snd (assistant_stream (assistant_new pm) cs)) = snd (strip_citations (concat cs)) \<and>
    at_visible_text (snd (assistant_stream (assistant_new pm) cs)) =
      (if pm then strip_proposed_plan_blocks else id) (fst (strip_citations (concat cs)))"
  using assistant_stream_result [OF assms] by blast

definition demo_pieces :: "rstr list" where
  "demo_pieces = [''a<oai-mem-'', ''citation>x</oai-mem-citation>b'' @ [NL] @ ''<proposed_'',
     ''plan> '' @ [NL] @ ''p'' @ [NL] @ ''</proposed_plan>'' @ [NL], ''c'']"

theorem assistant_text_any_cuts_witness:
  "at_citations (snd (assistant_stream (assistant_new True) demo_pieces)) = [''x''] \<and>
    at_visible_text (snd (assistant_stream (assistant_new True) demo_pieces)) = ''ab'' @ [NL] @ ''c''"
proof -
  have valid: "list_all valid_utf8 demo_pieces" by code_simp
  have "strip_citations (concat demo_pieces) =
      (''ab'' @ [NL] @ ''<proposed_plan> '' @ [NL] @ ''p'' @ [NL] @ ''</proposed_plan>'' @ [NL] @ ''c'', [''x''])"
    by code_simp
  moreover have "strip_proposed_plan_blocks
      (''ab'' @ [NL] @ ''<proposed_plan> '' @ [NL] @ ''p'' @ [NL] @ ''</proposed_plan>'' @ [NL] @ ''c'') = ''ab'' @ [NL] @ ''c''"
    by code_simp
  ultimately show ?thesis using assistant_text_any_cuts [OF valid, of True] by simp
qed

text \<open>
  C8. Citations: a text is shown without its citations exactly as the rules say: everything up
  to the first opening tag, its body up to the first closing tag (or to the end of the text), and
  so on with the rest.
\<close>
theorem strip_citations_correct: "strip_citations t = (v, xs) \<longleftrightarrow> cites t v xs"
  using strip_citations_cites by simp

text \<open>
  Plan blocks: the parser, which decides as early as it can, agrees with the reference that
  looks at complete lines: the visible text is the lines outside the blocks, and the extracted
  plan is the text of the last block.
\<close>
theorem plan_blocks_by_lines:
  assumes "valid_utf8 t"
  shows "strip_proposed_plan_blocks t = shown_lines False (split_inclusive t) \<and>
    extract_proposed_plan_text t = last_plan None False (split_inclusive t)"
  using plan_blocks [OF assms] by blast

definition demo_plan_text :: rstr where
  "demo_plan_text = ''a'' @ [NL] @ '' <proposed_plan>'' @ [NL] @ ''p'' @ [NL] @ ''</proposed_plan> x'' @ [NL]
     @ ''</proposed_plan>'' @ [NL] @ ''b''"

theorem plan_blocks_by_lines_witness:
  "strip_proposed_plan_blocks demo_plan_text = ''a'' @ [NL] @ ''b'' \<and>
    extract_proposed_plan_text demo_plan_text = Some (''p'' @ [NL] @ ''</proposed_plan> x'' @ [NL])"
proof -
  have valid: "valid_utf8 demo_plan_text" by code_simp
  have "shown_lines False (split_inclusive demo_plan_text) = ''a'' @ [NL] @ ''b''" by code_simp
  moreover have "last_plan None False (split_inclusive demo_plan_text) = Some (''p'' @ [NL] @ ''</proposed_plan> x'' @ [NL])"
    by code_simp
  ultimately show ?thesis using plan_blocks_by_lines [OF valid] by simp
qed

text \<open>
  Inline tags: for any tags none of whose opening delimiters occurs in another, pushing a
  text in two pieces leaves the parser in the same state, and gives the same visible text and the
  same extracted tags, as pushing it at once.
\<close>
theorem inline_push_in_pieces:
  assumes "inline_inv sps p" and "valid_utf8 a" and "valid_utf8 b"
    and "inline_push_str p a = (p1, o1)" and "inline_push_str p1 b = (p2, o2)"
  shows "inline_push_str p (a @ b) = (p2, append_chunk o1 o2)"
  using inline_push_append(1) [OF _ _ _ assms(2-5)] assms(1) by (auto simp: inline_inv_def)

definition demo_specs :: "nat inline_tag_spec list" where
  "demo_specs = [\<lparr>spec_tag = 1, spec_open = ''<a>'', spec_close = ''</a>''\<rparr>,
     \<lparr>spec_tag = 2, spec_open = ''[['', spec_close = '']]''\<rparr>]"

theorem inline_push_in_pieces_witness:
  "inline_push_str (inline_new demo_specs) (''x<'' @ ''a>y</a>['') =
     (fst (inline_push_str (fst (inline_push_str (inline_new demo_specs) ''x<'')) ''a>y</a>[''),
      append_chunk (snd (inline_push_str (inline_new demo_specs) ''x<''))
        (snd (inline_push_str (fst (inline_push_str (inline_new demo_specs) ''x<'')) ''a>y</a>['')))"
proof -
  have inv: "inline_inv demo_specs (inline_new demo_specs)" by (rule inline_new_inv) code_simp
  have valid: "valid_utf8 ''x<''" "valid_utf8 ''a>y</a>[''" by code_simp+
  show ?thesis
    by (rule inline_push_in_pieces [OF inv valid prod.collapse [symmetric] prod.collapse [symmetric]])
qed

text \<open>
  Bytes: the bytes of a valid text, cut anywhere, also inside a character, are all accepted,
  and the citation parser behind the wrapper gives what it gives on the whole text.
\<close>
theorem citation_bytes_any_cuts:
  assumes "valid_utf8 (concat cs)"
  shows "\<exists>out. stream_bytes citation_push_str citation_finish (utf8_new citation_new) cs = (utf8_new citation_new, Ok out) \<and>
    (visible_text out, extracted out) = strip_citations (concat cs)"
  using citation.stream_bytes_valid [OF assms]
  by (auto simp: chunk_view_def stream_all_single strip_citations_def split_def Let_def)

definition demo_bytes :: "rstr list" where
  "demo_bytes = [[CHR 0x41, CHR 0xC3], [CHR 0xA9, CHR 0xE2, CHR 0x82], [CHR 0xAC]]"

theorem citation_bytes_any_cuts_witness:
  "\<exists>out. stream_bytes citation_push_str citation_finish (utf8_new citation_new) demo_bytes = (utf8_new citation_new, Ok out) \<and>
    visible_text out = [CHR 0x41, CHR 0xC3, CHR 0xA9, CHR 0xE2, CHR 0x82, CHR 0xAC]"
proof -
  have valid: "valid_utf8 (concat demo_bytes)" by code_simp
  have "fst (strip_citations (concat demo_bytes)) = [CHR 0x41, CHR 0xC3, CHR 0xA9, CHR 0xE2, CHR 0x82, CHR 0xAC]"
    by code_simp
  then show ?thesis using citation_bytes_any_cuts [OF valid] by (metis fst_conv)
qed

text \<open>
  A chunk of bytes that is refused is rolled back entirely: the wrapper, its buffer and the
  wrapped parser are as before, whatever the wrapped parser is.
\<close>
theorem refused_bytes_roll_back:
  assumes "push_bytes push p c = (p', Err e)"
  shows "p' = p"
  by (rule push_bytes_rollback [OF assms])

definition demo_utf8 :: "citation_stream_parser utf8_stream_parser" where
  "demo_utf8 = fst (push_bytes citation_push_str (utf8_new citation_new) [CHR 0x41, CHR 0xC3])"

theorem refused_bytes_roll_back_witness:
  "fst (push_bytes citation_push_str demo_utf8 [CHR 0xA9, CHR 0xFF, CHR 0x41]) = demo_utf8 \<and>
    pending_utf8 demo_utf8 = [CHR 0xC3]"
proof -
  have "snd (push_bytes citation_push_str demo_utf8 [CHR 0xA9, CHR 0xFF, CHR 0x41]) = Err (InvalidUtf8 2 1)" by code_simp
  then have run: "push_bytes citation_push_str demo_utf8 [CHR 0xA9, CHR 0xFF, CHR 0x41] =
      (fst (push_bytes citation_push_str demo_utf8 [CHR 0xA9, CHR 0xFF, CHR 0x41]), Err (InvalidUtf8 2 1))"
    by (metis prod.collapse)
  have "pending_utf8 demo_utf8 = [CHR 0xC3]" by code_simp
  then show ?thesis using refused_bytes_roll_back [OF run] by simp
qed

section \<open>Execution policies\<close>


text \<open>
  C10. The index by program loses nothing: for every policy that can be parsed, the exact matches
  of a command are those of a scan over all rules, in order.
\<close>
theorem parsed_policy_index_complete:
  assumes "policy_parse interp api env name contents builder_new = (b, r)" and "cmd \<noteq> []"
  shows "match_exact_rules (builder_build b) cmd =
    Some (List.map_filter (\<lambda>r. rule_matches r cmd) (all_rules (builder_build b)))"
proof -
  have "wf_policy (builder_build b)"
    using policy_parse_wf [OF wf_builder_new, of interp api env name contents] assms(1) by (simp add: wf_builder_def)
  then show ?thesis using assms(2) match_exact_rules_scan by (cases cmd) auto
qed

text \<open>A small policy: Starlark values are strings or lists of strings, words are split at blanks.\<close>

datatype demo_value = DStr rstr | DList "rstr list"

definition demo_policy_api :: "demo_value policy_api" where
  "demo_policy_api = \<lparr>
     unpack_str = (\<lambda>v. case v of DStr s \<Rightarrow> Some s | DList _ \<Rightarrow> None),
     list_content = (\<lambda>v. case v of DList ss \<Rightarrow> Some (map DStr ss) | DStr _ \<Rightarrow> None),
     get_type = (\<lambda>v. case v of DStr _ \<Rightarrow> ''string'' | DList _ \<Rightarrow> ''list''),
     shlex_split = (\<lambda>s. Some (filter (\<lambda>w. w \<noteq> []) (split_on (CHR '' '') s))),
     try_join = (\<lambda>ws. Some (join_with '' '' ws)),
     debug_rule = (\<lambda>r. rule_program r), debug_match = (\<lambda>m. ''match'')\<rparr>"

definition demo_calls :: "demo_value policy_call list" where
  "demo_calls =
     [CallPrefixRule [DStr ''git'', DList [''push'', ''fetch'']] (Some ''prompt'') (Some [DStr ''git push origin''])
        (Some [DStr ''git status'']) None None,
      CallPrefixRule [DStr ''git''] None None None None None,
      CallHostExecutable ''git'' [DStr ''/usr/bin/git'']]"

definition demo_interpreter :: "(demo_value, unit) interpreter" where
  "demo_interpreter = \<lparr>interpret_file = (\<lambda>_ _. Ok (demo_calls, None)), wrap = (\<lambda>_. ())\<rparr>"

definition demo_env :: path_env where
  "demo_env = \<lparr>home_dir = None, current_dir = Some [RootDir, NormalC ''w'']\<rparr>"

definition demo_builder :: policy_builder where
  "demo_builder = fst (policy_parse demo_interpreter demo_policy_api demo_env ''p'' ''...'' builder_new)"

lemma demo_parse:
  "policy_parse demo_interpreter demo_policy_api demo_env ''p'' ''...'' builder_new = (demo_builder, Ok ())"
proof -
  have "snd (policy_parse demo_interpreter demo_policy_api demo_env ''p'' ''...'' builder_new) = Ok ()" by code_simp
  then show ?thesis by (metis demo_builder_def prod.collapse)
qed

theorem parsed_policy_index_complete_witness:
  "match_exact_rules (builder_build demo_builder) [''git'', ''push'', ''x''] =
    Some [PrefixRuleMatch [''git'', ''push''] Prompt None None, PrefixRuleMatch [''git''] Allow None None]"
proof -
  have ne: "[''git'', ''push'', ''x''] \<noteq> []" by simp
  have "List.map_filter (\<lambda>r. rule_matches r [''git'', ''push'', ''x'']) (all_rules (builder_build demo_builder)) =
      [PrefixRuleMatch [''git'', ''push''] Prompt None None, PrefixRuleMatch [''git''] Allow None None]" by code_simp
  then show ?thesis using parsed_policy_index_complete [OF demo_parse ne] by simp
qed

text \<open>
  C11. An overlay can only tighten: a command that an exact rule of the base policy matches is
  decided at least as strictly after merging any overlay into it.
\<close>
theorem overlay_only_tightens:
  assumes "wf_policy overlay" and "match_exact_rules p cmd = Some ms" and "ms \<noteq> []"
    and "check_with_options env p cmd fb opts = Some e"
    and "check_with_options env (merge_overlay p overlay) cmd fb opts = Some e'"
  shows "eval_decision e \<le> eval_decision e'"
proof -
  obtain c cs where cmd: "cmd = c # cs" using assms(2) by (cases cmd) (auto simp: match_exact_rules_def)
  have "match_exact_rules (merge_overlay p overlay) cmd = Some (ms @ the (match_exact_rules overlay cmd))"
    using merge_overlay_exact [OF assms(1), of p c cs] assms(2) unfolding cmd by simp
  then show ?thesis by (rule exact_superset_stricter [OF assms(2,3) _ assms(4,5)])
qed

definition demo_base :: exec_policy where
  "demo_base = (case add_prefix_rule empty_policy [''git''] Allow :: (unit exec_error, exec_policy) result of
     Ok p \<Rightarrow> p | Err _ \<Rightarrow> empty_policy)"

theorem overlay_only_tightens_witness:
  "eval_decision (the (check_with_options demo_env demo_base [''git'', ''push''] (\<lambda>_. Prompt) default_match_options)) \<le>
   eval_decision (the (check_with_options demo_env (merge_overlay demo_base (builder_build demo_builder))
     [''git'', ''push''] (\<lambda>_. Prompt) default_match_options)) \<and>
   eval_decision (the (check_with_options demo_env demo_base [''git'', ''push''] (\<lambda>_. Prompt) default_match_options)) = Allow"
proof -
  have wf: "wf_policy (builder_build demo_builder)" by code_simp
  have ms: "match_exact_rules demo_base [''git'', ''push''] = Some [PrefixRuleMatch [''git''] Allow None None]" by code_simp
  have "eval_decision (the (check_with_options demo_env demo_base [''git'', ''push''] (\<lambda>_. Prompt) default_match_options)) = Allow"
    by code_simp
  then show ?thesis
    using overlay_only_tightens [OF wf ms _ check_decision check_decision, of demo_env "\<lambda>_. Prompt" default_match_options]
    by (simp add: check_decision)
qed

text \<open>
  A prefix rule added to a policy decides the commands with that prefix at least as strictly
  as its decision says, and the exact matches of no other command change.
\<close>
theorem add_prefix_rule_effect:
  assumes "add_prefix_rule p pre d = Ok p'"
  shows "(if prefix pre cmd
    then \<exists>ev. check_with_options env p' cmd fb opts = Some ev \<and> d \<le> eval_decision ev \<and>
           PrefixRuleMatch pre d None None \<in> set (eval_matched_rules ev)
    else match_exact_rules p' cmd = match_exact_rules p cmd)"
proof (cases cmd)
  case Nil
  moreover have "pre \<noteq> []" using assms by (auto simp: add_prefix_rule_def)
  ultimately show ?thesis by (simp add: match_exact_rules_def)
next
  case (Cons c cs)
  note exact = add_prefix_rule_exact [OF assms, of c cs, folded Cons]
  show ?thesis
  proof (cases "prefix pre cmd")
    case True
    then have "matches_for_command_with_options env p' cmd (Some fb) opts =
        the (match_exact_rules p cmd) @ [PrefixRuleMatch pre d None None]"
      using matches_exact [OF exact, of env "Some fb" opts] by simp
    then show ?thesis using True by (auto simp: check_decision intro!: Max_ge)
  next
    case False
    then show ?thesis using exact Cons by (simp add: exact_matches_vec)
  qed
qed

theorem add_prefix_rule_effect_witness:
  "\<exists>ev. check_with_options demo_env demo_base [''git'', ''log''] (\<lambda>_. Forbidden) default_match_options = Some ev \<and>
    Allow \<le> eval_decision ev \<and> PrefixRuleMatch [''git''] Allow None None \<in> set (eval_matched_rules ev)"
proof -
  have run: "add_prefix_rule empty_policy [''git''] Allow = (Ok demo_base :: (unit exec_error, exec_policy) result)"
    by (simp add: demo_base_def add_prefix_rule_def)
  show ?thesis
    using add_prefix_rule_effect [OF run, of "[''git'', ''log'']" demo_env "\<lambda>_. Forbidden" default_match_options] by simp
qed

text \<open>
  What \<open>prefix_rule\<close> means: after a successful call, a command has a new exact match
  exactly if its first words are, one by one, among the alternatives of the pattern.
\<close>
theorem prefix_rule_meaning:
  assumes "builtin_prefix_rule api pattern d ms nms justification loc b =
      (Ok b' :: ('e exec_error, policy_builder) result)"
  shows "\<exists>tokens new. parse_pattern api pattern = (Ok tokens :: ('e exec_error, pattern_token list) result) \<and>
    the (match_exact_rules (builder_build b') (c # cs)) = the (match_exact_rules (builder_build b) (c # cs)) @ new \<and>
    (new \<noteq> [] \<longleftrightarrow> (\<exists>pre args. c # cs = pre @ args \<and> list_all2 (\<lambda>pt ct. ct \<in> set (alternatives pt)) tokens pre))"
  by (rule builtin_prefix_rule_matches [OF assms])

definition demo_pattern :: "demo_value list" where
  "demo_pattern = [DStr ''git'', DList [''push'', ''fetch'']]"

definition demo_builder1 :: policy_builder where
  "demo_builder1 = (case builtin_prefix_rule demo_policy_api demo_pattern None None None None None builder_new
     :: (unit exec_error, policy_builder) result of Ok b \<Rightarrow> b | Err _ \<Rightarrow> builder_new)"

theorem prefix_rule_meaning_witness:
  "\<exists>new. the (match_exact_rules (builder_build demo_builder1) [''git'', ''fetch'']) =
      the (match_exact_rules (builder_build builder_new) [''git'', ''fetch'']) @ new \<and> new \<noteq> []"
proof -
  have "is_ok (builtin_prefix_rule demo_policy_api demo_pattern None None None None None builder_new
      :: (unit exec_error, policy_builder) result)" by code_simp
  then have run: "builtin_prefix_rule demo_policy_api demo_pattern None None None None None builder_new =
      (Ok demo_builder1 :: (unit exec_error, policy_builder) result)"
    by (simp add: demo_builder1_def is_ok_def split: sum.splits)
  have pat: "parse_pattern demo_policy_api demo_pattern =
      (Ok [Single ''git'', Alts [''push'', ''fetch'']] :: (unit exec_error, pattern_token list) result)" by code_simp
  have "[''git'', ''fetch''] = [''git'', ''fetch''] @ [] \<and> list_all2 (\<lambda>pt ct. ct \<in> set (alternatives pt))
      [Single ''git'', Alts [''push'', ''fetch'']] [''git'', ''fetch'']" by simp
  then show ?thesis using prefix_rule_meaning [OF run, of "''git''" "[''fetch'']"] pat by (metis sum.inject(2))
qed

text \<open>
  Examples are tests: when parsing a policy file succeeds, each of its \<open>prefix_rule\<close> calls
  matches all its positive examples and none of its negative ones, with the host executables of
  the whole file.
\<close>
theorem parsed_examples_hold:
  assumes "policy_parse interp api env name contents b = (b', (Ok () :: ('e exec_error, unit) result))"
    and "v \<in> set (drop (length (pending_example_validations b)) (pending_example_validations b'))"
  shows "(\<forall>ex \<in> set (val_matches v). matches_example env (validation_policy b' v) ex \<noteq> []) \<and>
    (\<forall>ex \<in> set (val_not_matches v). matches_example env (validation_policy b' v) ex = [])"
proof -
  have "validate_pending_examples_from api env b' (length (pending_example_validations b)) =
      (Ok () :: ('e exec_error, unit) result)"
    using assms(1) by (auto simp: policy_parse_def Let_def split: sum.splits prod.splits option.splits)
  then show ?thesis using assms(2) by (rule validate_pending_Ok)
qed

theorem parsed_examples_hold_witness:
  "matches_example demo_env (validation_policy demo_builder (hd (pending_example_validations demo_builder)))
     [''git'', ''push'', ''origin''] \<noteq> [] \<and>
   matches_example demo_env (validation_policy demo_builder (hd (pending_example_validations demo_builder)))
     [''git'', ''status''] = []"
proof -
  let ?v = "hd (pending_example_validations demo_builder)"
  have mem: "?v \<in> set (drop (length (pending_example_validations builder_new)) (pending_example_validations demo_builder))"
    by code_simp
  have "val_matches ?v = [[''git'', ''push'', ''origin'']]" "val_not_matches ?v = [[''git'', ''status'']]" by code_simp+
  then show ?thesis using parsed_examples_hold [OF demo_parse mem] by simp
qed

text \<open>
  Network domains: the allowed and the denied hosts are those for which the last rule that
  is not a prompt allows or forbids them; no host is listed twice or on both sides.
\<close>
theorem network_domains_last_rule_wins:
  "case compiled_network_domains p of (allowed, denied) \<Rightarrow>
     distinct allowed \<and> distinct denied \<and>
     (\<forall>h. (h \<in> set allowed) = (last_verdict h (network_rules p) = Some Allow)) \<and>
     (\<forall>h. (h \<in> set denied) = (last_verdict h (network_rules p) = Some Forbidden))"
proof -
  obtain a d where "compiled_network_domains p = (a, d)" by fastforce
  then show ?thesis
    using compiled_network_domains_verdict [of "network_rules p" a d] by (auto simp: compiled_network_domains_def)
qed

text \<open>
  The list of allowed prefixes is sorted, without duplicates, and the same whatever order the
  hash table iterates in: it depends only on which rules there are.
\<close>
theorem allowed_prefixes_canonical:
  assumes "set (all_rules p) = set (all_rules q)"
  shows "get_allowed_prefixes p = get_allowed_prefixes q \<and> sorted (get_allowed_prefixes p) \<and> distinct (get_allowed_prefixes p)"
proof -
  have "set (get_allowed_prefixes p) = set (get_allowed_prefixes q)"
    using assms by (simp only: get_allowed_prefixes_set)
  then show ?thesis using get_allowed_prefixes_sorted sorted_distinct_set_unique by blast
qed

definition demo_two_programs :: "exec_policy \<times> exec_policy" where
  "demo_two_programs =
     (let r = (\<lambda>t. \<lparr>rule_pattern = \<lparr>pat_first = t, pat_rest = []\<rparr>, rule_decision = Allow, rule_justification = None\<rparr>)
      in (policy_new [(''ls'', [r ''ls'']), (''cat'', [r ''cat''])], policy_new [(''cat'', [r ''cat'']), (''ls'', [r ''ls''])]))"

theorem allowed_prefixes_canonical_witness:
  "get_allowed_prefixes (fst demo_two_programs) = get_allowed_prefixes (snd demo_two_programs) \<and>
    get_allowed_prefixes (fst demo_two_programs) = [[''cat''], [''ls'']]"
proof -
  have same: "set (all_rules (fst demo_two_programs)) = set (all_rules (snd demo_two_programs))"
    by (auto simp: demo_two_programs_def all_rules_def policy_new_def)
  have "get_allowed_prefixes (fst demo_two_programs) = [[''cat''], [''ls'']]" by code_simp
  then show ?thesis using allowed_prefixes_canonical [OF same] by simp
qed

text \<open>
  Appending an allowed prefix: a successful call keeps the file's contents as a prefix and
  leaves its line among the lines of the file; a second successful call changes nothing.
\<close>
theorem append_allow_once:
  assumes "blocking_append_allow_prefix_rule io json path pre f = (f', Ok ())"
    and "writes_append io" and "\<forall>s t. json s = Ok t \<longrightarrow> NL \<notin> set t"
  shows "prefix (contents_of f) (contents_of f') \<and>
    (\<exists>tokens. collect_results json pre = Ok tokens \<and> allow_prefix_line tokens \<in> set (str_lines (contents_of f'))) \<and>
    (\<forall>f''. blocking_append_allow_prefix_rule io json path pre f' = (f'', Ok ()) \<longrightarrow> f'' = f')"
proof -
  obtain tokens where t: "collect_results json pre = Ok tokens" "f' = Some (appended (contents_of f) (allow_prefix_line tokens))"
    "NL \<notin> set (allow_prefix_line tokens)" "\<not> ends_with (allow_prefix_line tokens) [CR]"
    using append_allow_Ok [OF assms] by blast
  have "f'' = f'" if again: "blocking_append_allow_prefix_rule io json path pre f' = (f'', Ok ())" for f''
  proof -
    have "f'' = Some (appended (contents_of f') (allow_prefix_line tokens))"
      using append_allow_Ok [OF again assms(2,3)] t(1) by (metis sum.inject(2))
    then show ?thesis using t(2) appended_idem [OF t(3,4)] by (simp add: contents_of_def)
  qed
  then show ?thesis
    using t appended_prefix appended_line [OF t(3,4)] by (auto simp: contents_of_def split: option.splits)
qed

definition demo_io :: "unit amend_io" where
  "demo_io = \<lparr>io_parent = (\<lambda>_. Some ''d''), io_create_dir = (\<lambda>_. DirExists), io_open = (\<lambda>_. None), io_lock = (\<lambda>_. None),
     io_seek = (\<lambda>_. None), io_read = (\<lambda>_ _. None), io_write = (\<lambda>c d. (c @ d, None))\<rparr>"

definition demo_json :: "rstr \<Rightarrow> (unit, rstr) result" where
  "demo_json s = (if NL \<in> set s then Err () else Ok ([CHR 0x22] @ s @ [CHR 0x22]))"

definition demo_appended :: "rstr option" where
  "demo_appended = Some (''# x'' @ [NL] @ ''prefix_rule(pattern=[\"ls\"], decision=\"allow\")'' @ [NL])"

theorem append_allow_once_witness:
  "blocking_append_allow_prefix_rule demo_io demo_json ''d/p'' [''ls''] (Some ''# x'') = (demo_appended, Ok ()) \<and>
   blocking_append_allow_prefix_rule demo_io demo_json ''d/p'' [''ls''] demo_appended = (demo_appended, Ok ())"
proof -
  have run: "blocking_append_allow_prefix_rule demo_io demo_json ''d/p'' [''ls''] (Some ''# x'') = (demo_appended, Ok ())"
    by code_simp
  have again: "snd (blocking_append_allow_prefix_rule demo_io demo_json ''d/p'' [''ls''] demo_appended) = Ok ()"
    by code_simp
  have io: "writes_append demo_io" by (simp add: writes_append_def demo_io_def)
  have json: "\<forall>s t. demo_json s = Ok t \<longrightarrow> NL \<notin> set t" by (auto simp: demo_json_def NL_def)
  show ?thesis using run again append_allow_once [OF run io json] by (metis prod.collapse)
qed

section \<open>Paths\<close>

text \<open>
  C12. Absolute paths: resolving any text against an absolute base gives the root followed by
  names only, without \<open>.\<close> or \<open>..\<close> and never above the root, and such a path is unchanged
  by resolving it again.
\<close>
theorem resolved_paths_normal:
  assumes "is_absolute base"
  shows "wf_absolute (resolve_path_against_base env s base) \<and>
    absolutize_from (resolve_path_against_base env s base) base' = resolve_path_against_base env s base"
  using absolutize_from_wf [OF assms] absolutize_from_fixed by (simp add: resolve_path_against_base_def)

theorem resolved_paths_normal_witness:
  "wf_absolute (resolve_path_against_base demo_env ''../../a/./b/..'' [RootDir, NormalC ''w'']) \<and>
    resolve_path_against_base demo_env ''../../a/./b/..'' [RootDir, NormalC ''w''] = [RootDir, NormalC ''a'']"
proof -
  have abs: "is_absolute [RootDir, NormalC ''w'']" by (simp add: is_absolute_def)
  have "resolve_path_against_base demo_env ''../../a/./b/..'' [RootDir, NormalC ''w''] = [RootDir, NormalC ''a'']" by code_simp
  then show ?thesis using resolved_paths_normal [OF abs, of demo_env "''../../a/./b/..''"] by simp
qed

section \<open>Where the code falls short\<close>

text \<open>
  A final blank line is lost: replacing the first line of a file that ends with a blank line
  also removes that blank line, which no chunk mentions.
\<close>
theorem update_drops_final_blank_line:
  "derive_new_contents_from_chunks native (\<lambda>_. Ok (''a'' @ [NL] @ ''b'' @ [NL] @ [NL])) path
     [\<lparr>change_context = None, old_lines = [''a''], new_lines = [''c''], is_end_of_file = False\<rparr>] =
   Some (Ok \<lparr>original_contents = ''a'' @ [NL] @ ''b'' @ [NL] @ [NL],
             new_contents = ''c'' @ [NL] @ ''b'' @ [NL]\<rparr>)"
proof -
  have rs: "compute_replacements (original_lines_of (''a'' @ [NL] @ ''b'' @ [NL] @ [NL])) q
      [\<lparr>change_context = None, old_lines = [''a''], new_lines = [''c''], is_end_of_file = False\<rparr>] = Ok [(0, 1, [''c''])]" for q
    by code_simp
  have app: "apply_replacements (original_lines_of (''a'' @ [NL] @ ''b'' @ [NL] @ [NL])) [(0, 1, [''c''])] = Some [''c'', ''b'', []]"
    by code_simp
  have out: "join_new_lines [''c'', ''b'', []] = ''c'' @ [NL] @ ''b'' @ [NL]" by code_simp
  show ?thesis unfolding derive_new_contents_from_chunks_def by (simp only: rs app out sum.case option.case option.map Let_def)
qed

text \<open>
  Added lines are lost: when the file ends with a blank line, a chunk that replaces that blank
  line and a later chunk that only adds lines, the update succeeds and the added lines are in no
  line of the result.
\<close>
theorem added_lines_lost:
  "\<exists>new. derive_new_contents_from_chunks id (\<lambda>_. Ok (''a'' @ [NL] @ ''b'' @ [NL] @ [NL])) ''f''
     [\<lparr>change_context = None, old_lines = [''b'', []], new_lines = [''c'', []], is_end_of_file = False\<rparr>,
      \<lparr>change_context = None, old_lines = [], new_lines = [''x''], is_end_of_file = False\<rparr>] =
     (Some (Ok new) :: (unit apply_patch_error, applied_patch) result option) \<and>
   ''x'' \<notin> set (str_lines (new_contents new))"
proof -
  have run: "derive_new_contents_from_chunks id (\<lambda>_. Ok (''a'' @ [NL] @ ''b'' @ [NL] @ [NL])) ''f''
     [\<lparr>change_context = None, old_lines = [''b'', []], new_lines = [''c'', []], is_end_of_file = False\<rparr>,
      \<lparr>change_context = None, old_lines = [], new_lines = [''x''], is_end_of_file = False\<rparr>] =
     (Some (Ok \<lparr>original_contents = ''a'' @ [NL] @ ''b'' @ [NL] @ [NL], new_contents = ''a'' @ [NL] @ ''c'' @ [NL] @ [NL]\<rparr>)
       :: (unit apply_patch_error, applied_patch) result option)"
    by code_simp
  have "''x'' \<notin> set (str_lines (''a'' @ [NL] @ ''c'' @ [NL] @ [NL]))" by code_simp
  then show ?thesis using run by auto
qed

text \<open>
  Updates lose lines: replacing the first line of a file that ends with a blank line also removes that
  blank line; and when a chunk replaces the final blank line and a later one only adds lines, the update
  succeeds and the added lines are in no line of the result.
\<close>
theorem updates_lose_lines:
  "derive_new_contents_from_chunks native (\<lambda>_. Ok (''a'' @ [NL] @ ''b'' @ [NL] @ [NL])) path
     [\<lparr>change_context = None, old_lines = [''a''], new_lines = [''c''], is_end_of_file = False\<rparr>] =
   Some (Ok \<lparr>original_contents = ''a'' @ [NL] @ ''b'' @ [NL] @ [NL],
             new_contents = ''c'' @ [NL] @ ''b'' @ [NL]\<rparr>) \<and>
   (\<exists>new. derive_new_contents_from_chunks id (\<lambda>_. Ok (''a'' @ [NL] @ ''b'' @ [NL] @ [NL])) ''f''
     [\<lparr>change_context = None, old_lines = [''b'', []], new_lines = [''c'', []], is_end_of_file = False\<rparr>,
      \<lparr>change_context = None, old_lines = [], new_lines = [''x''], is_end_of_file = False\<rparr>] =
     (Some (Ok new) :: (unit apply_patch_error, applied_patch) result option) \<and>
     ''x'' \<notin> set (str_lines (new_contents new)))"
  by (rule conjI [OF update_drops_final_blank_line added_lines_lost])

text \<open>
  Moving a file onto itself deletes it: an update whose destination is the file's own path
  writes the new text and then removes the file, and succeeds.
\<close>
theorem move_onto_itself_deletes:
  assumes "fs_laws fs" and "apply_move fs api a u u ap st = (st', None)"
  shows "text_of fs (world st') u = None"
  by (rule apply_move_self [OF assms])

definition demo_self_move :: "(rstr \<Rightarrow> rstr option, rstr) apply_state \<times> anyhow_error option" where
  "demo_self_move = apply_move mem_fs mem_api ''a'' ''d/a'' ''d/a''
     \<lparr>original_contents = demo_text, new_contents = ''new''\<rparr>
     \<lparr>world = demo_world, delta = \<lparr>changes = [], exact = True\<rparr>, affected = \<lparr>added = [], modified = [], deleted = []\<rparr>\<rparr>"

theorem move_onto_itself_deletes_witness:
  "snd demo_self_move = None \<and> text_of mem_fs (world (fst demo_self_move)) ''d/a'' = None"
proof -
  have ok: "snd demo_self_move = None" by code_simp
  then have run: "apply_move mem_fs mem_api ''a'' ''d/a'' ''d/a'' \<lparr>original_contents = demo_text, new_contents = ''new''\<rparr>
     \<lparr>world = demo_world, delta = \<lparr>changes = [], exact = True\<rparr>, affected = \<lparr>added = [], modified = [], deleted = []\<rparr>\<rparr> =
     (fst demo_self_move, None)"
    by (metis demo_self_move_def prod.collapse)
  show ?thesis using ok move_onto_itself_deletes [OF mem_fs_laws run] by simp
qed

text \<open>
  The streaming parser accepts a patch without its first line: the end marker alone is a
  complete patch without hunks, where the parser for whole patches reports an error.
\<close>
theorem streaming_accepts_missing_begin:
  "snd (parser_finish (fst (push_delta default_parser END_PATCH_MARKER))) = Ok [] \<and> \<not> is_ok (parse_patch END_PATCH_MARKER)"
proof -
  have "snd (parser_finish (fst (push_delta default_parser END_PATCH_MARKER))) = Ok []" by code_simp
  moreover have "\<not> is_ok (parse_patch END_PATCH_MARKER)" by code_simp
  ultimately show ?thesis by simp
qed

text \<open>
  A relative program resolves through basename rules: with host executables resolved, a
  command that names a program by a relative path is looked up from the current directory and
  allowed by the rule for its bare name.
\<close>
theorem relative_program_allowed:
  "check_with_options demo_env demo_base [''./git'', ''push''] (\<lambda>_. Forbidden) \<lparr>resolve_host_executables = True\<rparr> =
    Some \<lparr>eval_decision = Allow, eval_matched_rules =
      [PrefixRuleMatch [''git''] Allow (Some [RootDir, NormalC ''w'', NormalC ''git'']) None]\<rparr>"
  by code_simp

end
